(* ===== verification/Prelude.thy ===== *)
theory Prelude imports Main "HOL-Library.Multiset" "HOL-Library.Char_ord" "HOL-Library.List_Lexorder" begin

text \<open>
  Generic material shared by the component theories: identifiers and hashes
  (\<open>internal/askdata/contracts.go\<close>), the sorting functions of Go's \<open>sort\<close> package,
  the 64-bit integer range, and small lemmas on lists.

  Conventions used by every theory:
  \<^item> A Go \<open>string\<close> is a \<open>string\<close> (a list of bytes); \<open><\<close> on strings is the bytewise
    lexicographic order of Go, given by \<open>List_Lexorder\<close> and \<open>Char_ord\<close>.
  \<^item> A Go \<open>time.Time\<close> is an \<open>int\<close> number of nanoseconds after Go's zero time, so
    \<open>IsZero\<close> is \<open>t = 0\<close>, \<open>Before\<close> is \<open><\<close>, \<open>After\<close> is \<open>>\<close>, \<open>UTC\<close> is the identity and
    \<open>Add\<close> is \<open>+\<close>; a \<open>time.Duration\<close> is an \<open>int\<close> number of nanoseconds.
  \<^item> A nil-able pointer is an \<open>option\<close>; an error return is the left side of a sum.
\<close>

section \<open>Identifiers and content hashes\<close>

type_synonym ID = string
type_synonym ContentHash = string
type_synonym go_time = int
type_synonym duration = int

definition char_between :: "char \<Rightarrow> char \<Rightarrow> char \<Rightarrow> bool" where
  "char_between lo hi c \<longleftrightarrow> lo \<le> c \<and> c \<le> hi"

definition alnum :: "char \<Rightarrow> bool" where
  "alnum c \<longleftrightarrow> char_between CHR ''A'' CHR ''Z'' c \<or> char_between CHR ''a'' CHR ''z'' c
     \<or> char_between CHR ''0'' CHR ''9'' c"

definition MaxIDLength :: nat where "MaxIDLength = 128"

text \<open>The regular expression \<open>[A-Za-z0-9][A-Za-z0-9._:@/-]{0,127}\<close> of \<open>ID.Validate\<close>.\<close>

definition valid_id :: "ID \<Rightarrow> bool" where
  "valid_id s = (case s of [] \<Rightarrow> False
     | c # cs \<Rightarrow> alnum c \<and> length cs \<le> 127 \<and>
         list_all (\<lambda>d. alnum d \<or> d \<in> set ''._:@/-'') cs)"

text \<open>The regular expression \<open>[0-9a-f]{64}\<close> of \<open>ContentHash.Validate\<close>.\<close>

definition valid_hash :: "ContentHash \<Rightarrow> bool" where
  "valid_hash s \<longleftrightarrow> length s = 64 \<and>
     list_all (\<lambda>c. char_between CHR ''0'' CHR ''9'' c \<or> char_between CHR ''a'' CHR ''f'' c) s"

lemma valid_id_nonempty: "valid_id s \<Longrightarrow> s \<noteq> []"
  by (auto simp: valid_id_def)

lemma valid_id_length: "valid_id s \<Longrightarrow> length s \<le> MaxIDLength"
  by (auto simp: valid_id_def MaxIDLength_def split: list.splits)

lemma valid_hash_nonempty: "valid_hash s \<Longrightarrow> s \<noteq> []"
  by (auto simp: valid_hash_def)

section \<open>The range of a Go int\<close>

text \<open>
  \<open>int\<close> and \<open>int64\<close> are 64-bit two's complement. \<open>wrap64\<close> is the reduction every
  arithmetic operation performs; it is the identity on the representable range.
\<close>

definition int64_min :: int where "int64_min = - (2 ^ 63)"
definition int64_max :: int where "int64_max = 2 ^ 63 - 1"

definition in_int64 :: "int \<Rightarrow> bool" where
  "in_int64 x \<longleftrightarrow> int64_min \<le> x \<and> x \<le> int64_max"

definition wrap64 :: "int \<Rightarrow> int" where
  "wrap64 x = (x + 2 ^ 63) mod 2 ^ 64 - 2 ^ 63"

lemma wrap64_id: "in_int64 x \<Longrightarrow> wrap64 x = x"
  by (simp add: in_int64_def wrap64_def int64_min_def int64_max_def)

lemma wrap64_range: "in_int64 (wrap64 x)"
  by (simp add: in_int64_def wrap64_def int64_min_def int64_max_def)

section \<open>Sorting\<close>

text \<open>
  \<open>sort.Slice\<close> and \<open>sort.SliceStable\<close> take the comparison \<open>lt\<close>. The model is a stable
  insertion sort. For \<open>sort.SliceStable\<close> that is the function's result; \<open>sort.Slice\<close>
  promises only a sorted permutation, which is unique when \<open>lt\<close> is a strict total
  order on the elements (\<open>sort_slice_unique\<close> below).
\<close>

fun insort_by :: "('a \<Rightarrow> 'a \<Rightarrow> bool) \<Rightarrow> 'a \<Rightarrow> 'a list \<Rightarrow> 'a list" where
  "insort_by lt x [] = [x]"
| "insort_by lt x (y # ys) = (if lt y x then y # insort_by lt x ys else x # y # ys)"

fun sort_slice :: "('a \<Rightarrow> 'a \<Rightarrow> bool) \<Rightarrow> 'a list \<Rightarrow> 'a list" where
  "sort_slice lt [] = []"
| "sort_slice lt (x # xs) = insort_by lt x (sort_slice lt xs)"

lemma mset_insort_by [simp]: "mset (insort_by lt x xs) = add_mset x (mset xs)"
  by (induction xs) auto

lemma mset_sort_slice [simp]: "mset (sort_slice lt xs) = mset xs"
  by (induction xs) auto

lemma set_insort_by [simp]: "set (insort_by lt x xs) = insert x (set xs)"
  by (induction xs) auto

lemma set_sort_slice [simp]: "set (sort_slice lt xs) = set xs"
  by (induction xs) auto

lemma length_insort_by [simp]: "length (insort_by lt x xs) = Suc (length xs)"
  by (induction xs) auto

lemma length_sort_slice [simp]: "length (sort_slice lt xs) = length xs"
  by (induction xs) auto

lemma distinct_sort_slice [simp]: "distinct (sort_slice lt xs) = distinct xs"
  by (metis mset_eq_imp_distinct_iff mset_sort_slice)

text \<open>Only the comparisons between elements of the list matter.\<close>

lemma insort_by_cong:
  "(\<And>y. y \<in> set xs \<Longrightarrow> lt y x = lt' y x) \<Longrightarrow> insort_by lt x xs = insort_by lt' x xs"
  by (induction xs) auto

lemma sort_slice_cong:
  "(\<And>x y. x \<in> set xs \<Longrightarrow> y \<in> set xs \<Longrightarrow> lt x y = lt' x y) \<Longrightarrow> sort_slice lt xs = sort_slice lt' xs"
proof (induction xs)
  case Nil
  then show ?case by simp
next
  case (Cons x xs)
  then have "sort_slice lt xs = sort_slice lt' xs" by simp
  moreover have "insort_by lt x (sort_slice lt' xs) = insort_by lt' x (sort_slice lt' xs)"
    using Cons.prems by (intro insort_by_cong) simp
  ultimately show ?case by simp
qed

text \<open>Sorting commutes with a map that keeps the comparison.\<close>

lemma insort_by_map_lt:
  "(\<And>x y. lt' (f x) (f y) = lt x y) \<Longrightarrow> insort_by lt' (f x) (map f xs) = map f (insort_by lt x xs)"
  by (induction xs) auto

lemma sort_slice_map_lt:
  "(\<And>x y. lt' (f x) (f y) = lt x y) \<Longrightarrow> sort_slice lt' (map f xs) = map f (sort_slice lt xs)"
  by (induction xs) (simp_all add: insort_by_map_lt)

definition sorted_by :: "('a \<Rightarrow> 'a \<Rightarrow> bool) \<Rightarrow> 'a list \<Rightarrow> bool" where
  "sorted_by lt xs = sorted_wrt (\<lambda>x y. \<not> lt y x) xs"

lemma sorted_by_Nil [simp]: "sorted_by lt []"
  by (simp add: sorted_by_def)

lemma sorted_by_Cons [simp]:
  "sorted_by lt (x # xs) \<longleftrightarrow> (\<forall>y\<in>set xs. \<not> lt y x) \<and> sorted_by lt xs"
  by (simp add: sorted_by_def)

text \<open>
  An already sorted list is left alone: no law of \<open>lt\<close> is needed.
\<close>

lemma insort_by_head: "(\<forall>y\<in>set xs. \<not> lt y x) \<Longrightarrow> insort_by lt x xs = x # xs"
  by (cases xs) auto

lemma sort_slice_id: "sorted_by lt xs \<Longrightarrow> sort_slice lt xs = xs"
  by (induction xs) (auto simp: insort_by_head)

text \<open>
  The contract of a comparison passed to \<open>sort\<close> is a strict weak order. A comparison
  that also separates any two different elements is a strict total order.
\<close>

locale weak_order =
  fixes lt :: "'a \<Rightarrow> 'a \<Rightarrow> bool"
  assumes lt_irrefl: "\<not> lt x x"
    and lt_trans: "lt x y \<Longrightarrow> lt y z \<Longrightarrow> lt x z"
    and not_lt_trans: "\<not> lt x y \<Longrightarrow> \<not> lt y z \<Longrightarrow> \<not> lt x z"
begin

lemma lt_asym: "lt x y \<Longrightarrow> \<not> lt y x"
  using lt_irrefl lt_trans by blast

lemma sorted_by_insort:
  "sorted_by lt xs \<Longrightarrow> sorted_by lt (insort_by lt x xs)"
proof (induction xs)
  case Nil
  then show ?case by simp
next
  case (Cons y ys)
  show ?case
  proof (cases "lt y x")
    case True
    with Cons show ?thesis by (auto dest: lt_asym)
  next
    case False
    with Cons show ?thesis by (auto dest: not_lt_trans)
  qed
qed

lemma sorted_by_sort_slice: "sorted_by lt (sort_slice lt xs)"
  by (induction xs) (auto intro: sorted_by_insort)

lemma sort_slice_idem: "sort_slice lt (sort_slice lt xs) = sort_slice lt xs"
  by (rule sort_slice_id) (rule sorted_by_sort_slice)

end

locale total_order_by = weak_order +
  assumes lt_total: "lt x y \<or> x = y \<or> lt y x"
begin

lemma sorted_by_unique:
  assumes "sorted_by lt xs" and "sorted_by lt ys" and "mset xs = mset ys"
  shows "xs = ys"
  using assms
proof (induction xs arbitrary: ys)
  case Nil
  then show ?case by simp
next
  case (Cons x xs)
  then obtain y ys' where ys: "ys = y # ys'"
    by (cases ys) auto
  have sets: "set (x # xs) = set (y # ys')"
    using Cons.prems(3) ys by (metis set_mset_mset)
  have "x = y"
  proof (rule ccontr)
    assume "x \<noteq> y"
    with sets have "y \<in> set xs" and "x \<in> set ys'" by auto
    with Cons.prems ys have "\<not> lt y x" and "\<not> lt x y" by auto
    with \<open>x \<noteq> y\<close> lt_total show False by blast
  qed
  with Cons ys show ?case by auto
qed

text \<open>Any sorting function agrees with the model's.\<close>

lemma sort_slice_unique:
  assumes "sorted_by lt ys" and "mset ys = mset xs"
  shows "ys = sort_slice lt xs"
  using assms sorted_by_unique [OF assms(1) sorted_by_sort_slice, of xs] by simp

end

text \<open>Sorting by an integer field, the comparison of most \<open>sort.SliceStable\<close> calls.\<close>

definition lt_on :: "('a \<Rightarrow> 'b::linorder) \<Rightarrow> 'a \<Rightarrow> 'a \<Rightarrow> bool" where
  "lt_on key x y \<longleftrightarrow> key x < key y"

interpretation key_order: weak_order "lt_on key" for key :: "'a \<Rightarrow> 'b::linorder"
  by unfold_locales (auto simp: lt_on_def)

interpretation value_order: total_order_by "(<) :: 'a::linorder \<Rightarrow> 'a \<Rightarrow> bool"
  by unfold_locales auto

section \<open>Lists\<close>

lemma count_list_mset: "count_list xs i = count (mset xs) i"
  by (induction xs) auto

text \<open>The first index that satisfies a predicate, the shape of the code's lookup loops.\<close>

fun find_index :: "('a \<Rightarrow> bool) \<Rightarrow> 'a list \<Rightarrow> nat option" where
  "find_index P [] = None"
| "find_index P (x # xs) = (if P x then Some 0 else map_option Suc (find_index P xs))"

lemma find_index_None: "find_index P xs = None \<longleftrightarrow> (\<forall>x\<in>set xs. \<not> P x)"
  by (induction xs) auto

lemma find_index_Some:
  "find_index P xs = Some i \<Longrightarrow> i < length xs \<and> P (xs ! i) \<and> (\<forall>j<i. \<not> P (xs ! j))"
proof (induction xs arbitrary: i)
  case Nil
  then show ?case by simp
next
  case (Cons x xs)
  then show ?case
    by (auto split: if_splits simp: nth_Cons less_Suc_eq_0_disj split: nat.splits)
qed

end
