(* ===== verification/RunState.thy ===== *)
theory RunState imports Prelude "HOL-Library.Word" begin

text \<open>
  The durable question run: \<open>internal/askdata/orchestrator/state.go\<close> and
  \<open>clarification.go\<close>. A \<open>Run\<close> is the record the orchestrator persists; \<open>Apply\<close> is the
  only constructor of its next snapshot. The theory proves that a run never changes its
  pins, that budgets only grow and stay within their limits, that a hash of the governed
  chain exists only from its own stage on, and that no run is answered without having
  passed every gate.

  \<open>uuid.Validate\<close> is third-party code (\<open>github.com/google/uuid\<close>): it is the argument
  \<open>uuid_ok\<close> of the definitions that use it. \<open>time.Now\<close> is the argument \<open>now\<close>. The wrapped
  messages of \<open>fmt.Errorf\<close> are dropped; the sentinel error they wrap is kept. The record
  version, which every step increments, is an int64 that wraps.
\<close>

section \<open>Data\<close>

datatype run_error = ErrInvalidRun | ErrIllegalTransition | ErrTerminalRun
  | ErrVersionConflict | ErrNoProgress | ErrClarificationExpired

datatype State = StateReceived | StateAuthorized | StateContextReady | StateUnderstanding
  | StateRetrieving | StateBinding | StateGraphValidating | StateIRReady | StatePlanValidating
  | StateExecuting | StateResultVerifying | StateAnswerVerifying
  | StateClarificationRequired | StateClarificationExpired | StateOutOfScope
  | StateAnswered | StateBlocked | UnknownState string

definition validStates :: "State list" where
  "validStates = [StateReceived, StateAuthorized, StateContextReady, StateUnderstanding,
     StateRetrieving, StateBinding, StateGraphValidating, StateIRReady, StatePlanValidating,
     StateExecuting, StateResultVerifying, StateAnswerVerifying, StateClarificationRequired,
     StateClarificationExpired, StateOutOfScope, StateAnswered, StateBlocked]"

datatype Disposition = DispositionPending | DispositionDirect | DispositionClarify
  | DispositionRefuse

datatype ArtifactType = ArtifactUnderstanding | ArtifactCandidateSet | ArtifactBindingBundle
  | ArtifactGraphPlan | ArtifactSemanticIR | ArtifactQueryPlan | ArtifactResultSummary
  | ArtifactResultVerification | ArtifactEvidence | ArtifactAnswer | ArtifactClarification
  | ArtifactBlock | NoArtifactType

record BudgetLimits =
  MaxSteps :: int
  MaxLLMCalls :: int
  MaxToolCalls :: int
  MaxFormalQueries :: int
  MaxValidationQueries :: int
  MaxDurationMS :: int

definition DefaultBudgetLimits :: BudgetLimits where
  "DefaultBudgetLimits = \<lparr> MaxSteps = 48, MaxLLMCalls = 16, MaxToolCalls = 16,
     MaxFormalQueries = 2, MaxValidationQueries = 3, MaxDurationMS = 600000 \<rparr>"

definition limits_valid :: "BudgetLimits \<Rightarrow> bool" where
  "limits_valid l \<longleftrightarrow> \<not> (MaxSteps l < 1 \<or> MaxSteps l > 48 \<or>
     MaxLLMCalls l < 1 \<or> MaxLLMCalls l > 16 \<or>
     MaxToolCalls l < 0 \<or> MaxToolCalls l > 16 \<or>
     MaxFormalQueries l < 0 \<or> MaxFormalQueries l > 6 \<or>
     MaxValidationQueries l < 0 \<or> MaxValidationQueries l > 3 \<or>
     MaxDurationMS l < 100 \<or> MaxDurationMS l > 600000)"

record BudgetUsage =
  StepCount :: int
  LLMCallsUsed :: int
  ToolCallsUsed :: int
  FormalQueriesUsed :: int
  ValidationQueriesUsed :: int
  ElapsedMS :: int
  Exhausted :: bool

definition zero_usage :: BudgetUsage where
  "zero_usage = \<lparr> StepCount = 0, LLMCallsUsed = 0, ToolCallsUsed = 0, FormalQueriesUsed = 0,
     ValidationQueriesUsed = 0, ElapsedMS = 0, Exhausted = False \<rparr>"

definition usage_valid :: "BudgetUsage \<Rightarrow> BudgetLimits \<Rightarrow> bool" where
  "usage_valid u l \<longleftrightarrow> \<not> (StepCount u < 0 \<or> StepCount u > MaxSteps l \<or>
     LLMCallsUsed u < 0 \<or> LLMCallsUsed u > MaxLLMCalls l \<or>
     ToolCallsUsed u < 0 \<or> ToolCallsUsed u > MaxToolCalls l \<or>
     FormalQueriesUsed u < 0 \<or> FormalQueriesUsed u > MaxFormalQueries l \<or>
     ValidationQueriesUsed u < 0 \<or> ValidationQueriesUsed u > MaxValidationQueries l \<or>
     ElapsedMS u < 0 \<or> ElapsedMS u > 600000)"

definition monotonicFrom :: "BudgetUsage \<Rightarrow> BudgetUsage \<Rightarrow> bool" where
  "monotonicFrom u p \<longleftrightarrow> StepCount u \<ge> StepCount p \<and> LLMCallsUsed u \<ge> LLMCallsUsed p \<and>
     ToolCallsUsed u \<ge> ToolCallsUsed p \<and> FormalQueriesUsed u \<ge> FormalQueriesUsed p \<and>
     ValidationQueriesUsed u \<ge> ValidationQueriesUsed p \<and> ElapsedMS u \<ge> ElapsedMS p \<and>
     (\<not> Exhausted p \<or> Exhausted u)"

text \<open>An absent hash is the empty string, as in the code.\<close>

record RunHashes =
  Understanding :: ContentHash
  BindingBundle :: ContentHash
  GraphPlan :: ContentHash
  SemanticIR :: ContentHash
  QueryPlan :: ContentHash
  ResultHash :: ContentHash

definition hash_absent_or_valid :: "ContentHash \<Rightarrow> bool" where
  "hash_absent_or_valid h \<longleftrightarrow> h = [] \<or> valid_hash h"

definition hashes_valid :: "RunHashes \<Rightarrow> bool" where
  "hashes_valid h \<longleftrightarrow>
     list_all hash_absent_or_valid [Understanding h, BindingBundle h, GraphPlan h,
       SemanticIR h, QueryPlan h, ResultHash h] \<and>
     \<not> (BindingBundle h \<noteq> [] \<and> Understanding h = [] \<or>
        GraphPlan h \<noteq> [] \<and> BindingBundle h = [] \<or>
        SemanticIR h \<noteq> [] \<and> GraphPlan h = [] \<or>
        QueryPlan h \<noteq> [] \<and> SemanticIR h = [] \<or>
        ResultHash h \<noteq> [] \<and> QueryPlan h = [])"

definition completeAnswerChain :: "RunHashes \<Rightarrow> bool" where
  "completeAnswerChain h \<longleftrightarrow> Understanding h \<noteq> [] \<and> BindingBundle h \<noteq> [] \<and>
     GraphPlan h \<noteq> [] \<and> SemanticIR h \<noteq> [] \<and> QueryPlan h \<noteq> [] \<and> ResultHash h \<noteq> []"

record HashUpdates =
  updUnderstanding :: "ContentHash option"
  updBindingBundle :: "ContentHash option"
  updGraphPlan :: "ContentHash option"
  updSemanticIR :: "ContentHash option"
  updQueryPlan :: "ContentHash option"
  updResult :: "ContentHash option"

record ReleaseRef =
  ReleaseID :: ID
  ReleaseContentHash :: ContentHash

definition release_ref_valid :: "ReleaseRef \<Rightarrow> bool" where
  "release_ref_valid r \<longleftrightarrow> valid_id (ReleaseID r) \<and> valid_hash (ReleaseContentHash r)"

record Run =
  RunID :: ID
  TenantID :: ID
  DomainID :: ID
  ActorID :: ID
  ConversationID :: ID
  ParentRunID :: ID
  ExecutionMode :: string
  SourceRunID :: ID
  TraceID :: ID
  IdempotencyKeyHash :: ContentHash
  QuestionHash :: ContentHash
  PolicyScopeHash :: ContentHash
  Release :: ReleaseRef
  RunStateOf :: State
  RunDisposition :: Disposition
  CompletionCode :: string
  CompletionArtifact :: ContentHash
  Hashes :: RunHashes
  Limits :: BudgetLimits
  Usage :: BudgetUsage
  ClarificationDeadline :: "go_time option"
  BudgetFrozenAt :: "go_time option"
  BudgetConsumed :: "BudgetUsage option"
  RecordVersion :: "64 word"
  CreatedAt :: go_time
  UpdatedAt :: go_time
  CompletedAt :: "go_time option"

section \<open>Validation\<close>

definition isTerminalState :: "State \<Rightarrow> bool" where
  "isTerminalState s \<longleftrightarrow> s = StateClarificationRequired \<or> s = StateClarificationExpired \<or>
     s = StateOutOfScope \<or> s = StateAnswered \<or> s = StateBlocked"

definition Terminal :: "Run \<Rightarrow> bool" where
  "Terminal r \<longleftrightarrow> RunStateOf r = StateClarificationRequired \<or>
     RunStateOf r = StateClarificationExpired \<or> RunStateOf r = StateOutOfScope \<or>
     RunStateOf r = StateAnswered \<or> RunStateOf r = StateBlocked"

text \<open>The regular expression \<open>[A-Z][A-Z0-9_]{0,127}\<close>.\<close>

definition completion_code_ok :: "string \<Rightarrow> bool" where
  "completion_code_ok s = (case s of [] \<Rightarrow> False
     | c # cs \<Rightarrow> char_between CHR ''A'' CHR ''Z'' c \<and> length cs \<le> 127 \<and>
         list_all (\<lambda>d. char_between CHR ''A'' CHR ''Z'' d \<or> char_between CHR ''0'' CHR ''9'' d
                     \<or> d = CHR ''_'') cs)"

definition run_identity_valid :: "(string \<Rightarrow> bool) \<Rightarrow> Run \<Rightarrow> bool" where
  "run_identity_valid uuid_ok r \<longleftrightarrow>
     list_all uuid_ok [RunID r, TenantID r, DomainID r, ActorID r, TraceID r] \<and>
     list_all (\<lambda>i. i = [] \<or> uuid_ok i) [ConversationID r, ParentRunID r, SourceRunID r] \<and>
     \<not> (ParentRunID r \<noteq> [] \<and> ParentRunID r = RunID r)"

definition execution_mode_valid :: "Run \<Rightarrow> bool" where
  "execution_mode_valid r =
     (let mode = (if ExecutionMode r = [] then ''USER'' else ExecutionMode r) in
      \<not> ((mode \<noteq> ''USER'' \<and> mode \<noteq> ''SHADOW'') \<or>
         (mode = ''USER'' \<and> SourceRunID r \<noteq> []) \<or>
         (mode = ''SHADOW'' \<and> (SourceRunID r = [] \<or> ConversationID r = [] \<or>
            ParentRunID r \<noteq> [] \<or> SourceRunID r = RunID r))))"

definition clarification_snapshot_valid :: "Run \<Rightarrow> bool" where
  "clarification_snapshot_valid r =
     (if RunStateOf r = StateClarificationRequired \<or> RunStateOf r = StateClarificationExpired
      then (case (ClarificationDeadline r, BudgetFrozenAt r, BudgetConsumed r) of
              (Some deadline, Some frozen, Some consumed) \<Rightarrow>
                deadline \<noteq> 0 \<and> frozen \<noteq> 0 \<and> deadline > frozen \<and>
                usage_valid consumed (Limits r) \<and> consumed = Usage r
            | _ \<Rightarrow> False)
      else ClarificationDeadline r = None \<and> BudgetFrozenAt r = None \<and> BudgetConsumed r = None)"

definition completion_valid :: "Run \<Rightarrow> bool" where
  "completion_valid r =
     (if \<not> Terminal r then
        RunDisposition r = DispositionPending \<and> CompletionCode r = [] \<and>
        CompletionArtifact r = [] \<and> CompletedAt r = None
      else completion_code_ok (CompletionCode r) \<and> CompletedAt r \<noteq> None \<and>
        valid_hash (CompletionArtifact r) \<and>
        (case RunStateOf r of
           StateAnswered \<Rightarrow> RunDisposition r = DispositionDirect \<and> completeAnswerChain (Hashes r)
         | StateClarificationRequired \<Rightarrow> RunDisposition r = DispositionClarify
         | StateClarificationExpired \<Rightarrow> RunDisposition r = DispositionClarify
         | StateBlocked \<Rightarrow> RunDisposition r = DispositionRefuse
         | StateOutOfScope \<Rightarrow> RunDisposition r = DispositionRefuse
         | _ \<Rightarrow> True))"

definition run_valid :: "(string \<Rightarrow> bool) \<Rightarrow> Run \<Rightarrow> bool" where
  "run_valid uuid_ok r \<longleftrightarrow>
     run_identity_valid uuid_ok r \<and> execution_mode_valid r \<and>
     list_all valid_hash [IdempotencyKeyHash r, QuestionHash r, PolicyScopeHash r] \<and>
     release_ref_valid (Release r) \<and> uuid_ok (ReleaseID (Release r)) \<and>
     RunStateOf r \<in> set validStates \<and>
     hashes_valid (Hashes r) \<and> limits_valid (Limits r) \<and> usage_valid (Usage r) (Limits r) \<and>
     sint (RecordVersion r) \<ge> 1 \<and>
     clarification_snapshot_valid r \<and>
     \<not> (Exhausted (Usage r) \<and> \<not> Terminal r) \<and>
     completion_valid r"

section \<open>Transitions\<close>

definition stage_successors :: "State \<Rightarrow> State list" where
  "stage_successors from = (case from of
     StateReceived \<Rightarrow> [StateAuthorized, StateBlocked]
   | StateAuthorized \<Rightarrow> [StateContextReady, StateBlocked]
   | StateContextReady \<Rightarrow> [StateUnderstanding, StateBlocked]
   | StateUnderstanding \<Rightarrow> [StateRetrieving, StateClarificationRequired, StateOutOfScope, StateBlocked]
   | StateRetrieving \<Rightarrow> [StateBinding, StateClarificationRequired, StateBlocked]
   | StateBinding \<Rightarrow> [StateGraphValidating, StateClarificationRequired, StateOutOfScope, StateBlocked]
   | StateGraphValidating \<Rightarrow> [StateIRReady, StateClarificationRequired, StateBlocked]
   | StateIRReady \<Rightarrow> [StatePlanValidating, StateClarificationRequired, StateBlocked]
   | StatePlanValidating \<Rightarrow> [StateExecuting, StateBinding, StateClarificationRequired, StateBlocked]
   | StateExecuting \<Rightarrow> [StateResultVerifying, StateBlocked]
   | StateResultVerifying \<Rightarrow> [StateAnswerVerifying, StateBinding, StateClarificationRequired, StateBlocked]
   | StateAnswerVerifying \<Rightarrow> [StateAnswered, StateClarificationRequired, StateBlocked]
   | _ \<Rightarrow> [])"

definition CanTransition :: "State \<Rightarrow> State \<Rightarrow> bool" where
  "CanTransition from to =
     (if from \<notin> set validStates then False
      else if to \<notin> set validStates then False
      else if from = StateClarificationRequired then to = StateClarificationExpired
      else if isTerminalState from then False
      else if from = to then True
      else to \<in> set (stage_successors from))"

record CompletionRef =
  refCode :: string
  refArtifactType :: ArtifactType
  refArtifactHash :: ContentHash

record Transition =
  ExpectedVersion :: "64 word"
  TargetState :: State
  trUsage :: BudgetUsage
  trHashes :: HashUpdates
  Completion :: "CompletionRef option"
  ClarificationTimeout :: duration

definition completionArtifactType :: "State \<Rightarrow> ArtifactType" where
  "completionArtifactType s = (case s of
     StateAnswered \<Rightarrow> ArtifactAnswer
   | StateClarificationRequired \<Rightarrow> ArtifactClarification
   | StateClarificationExpired \<Rightarrow> ArtifactClarification
   | StateBlocked \<Rightarrow> ArtifactBlock
   | StateOutOfScope \<Rightarrow> ArtifactBlock
   | _ \<Rightarrow> NoArtifactType)"

definition minute :: duration where "minute = 60 * 1000000000"
definition hour :: duration where "hour = 60 * minute"

definition DefaultClarificationTimeout :: duration where
  "DefaultClarificationTimeout = 30 * minute"

record FrozenBudget =
  FrozenAt :: go_time
  Deadline :: go_time
  Consumed :: BudgetUsage

definition FreezeBudget ::
  "BudgetUsage \<Rightarrow> BudgetLimits \<Rightarrow> go_time \<Rightarrow> duration \<Rightarrow> run_error + FrozenBudget" where
  "FreezeBudget usage limits now timeout =
     (if now = 0 \<or> timeout \<le> 0 \<or> timeout > 24 * hour \<or> \<not> limits_valid limits \<or>
         \<not> usage_valid usage limits
      then Inl ErrInvalidRun
      else Inr \<lparr> FrozenAt = now, Deadline = now + timeout, Consumed = usage \<rparr>)"

text \<open>
  The update table of \<open>Apply\<close>: each hash with the stage it may first appear in. One
  entry is checked and written by \<open>update_hash\<close>; the loop stops at the first error.
\<close>

definition update_hash ::
  "State \<Rightarrow> State \<Rightarrow> State \<Rightarrow> ContentHash \<Rightarrow> ContentHash option \<Rightarrow> run_error + ContentHash" where
  "update_hash currentState nextState stage cur upd = (case upd of
     None \<Rightarrow> Inr cur
   | Some h \<Rightarrow>
      (if \<not> valid_hash h then Inl ErrInvalidRun
       else if cur \<noteq> [] \<and> cur \<noteq> h then Inl ErrInvalidRun
       else if cur = [] \<and> currentState \<noteq> stage \<and> nextState \<noteq> stage then Inl ErrInvalidRun
       else Inr h))"

definition update_hashes ::
  "State \<Rightarrow> State \<Rightarrow> HashUpdates \<Rightarrow> RunHashes \<Rightarrow> run_error + RunHashes" where
  "update_hashes c n u h =
    (case update_hash c n StateUnderstanding (Understanding h) (updUnderstanding u) of
      Inl e \<Rightarrow> Inl e | Inr h1 \<Rightarrow>
    (case update_hash c n StateBinding (BindingBundle h) (updBindingBundle u) of
      Inl e \<Rightarrow> Inl e | Inr h2 \<Rightarrow>
    (case update_hash c n StateGraphValidating (GraphPlan h) (updGraphPlan u) of
      Inl e \<Rightarrow> Inl e | Inr h3 \<Rightarrow>
    (case update_hash c n StateIRReady (SemanticIR h) (updSemanticIR u) of
      Inl e \<Rightarrow> Inl e | Inr h4 \<Rightarrow>
    (case update_hash c n StatePlanValidating (QueryPlan h) (updQueryPlan u) of
      Inl e \<Rightarrow> Inl e | Inr h5 \<Rightarrow>
    (case update_hash c n StateResultVerifying (ResultHash h) (updResult u) of
      Inl e \<Rightarrow> Inl e | Inr h6 \<Rightarrow>
     Inr \<lparr> Understanding = h1, BindingBundle = h2, GraphPlan = h3, SemanticIR = h4,
           QueryPlan = h5, ResultHash = h6 \<rparr>))))))"

definition is_correction :: "State \<Rightarrow> State \<Rightarrow> bool" where
  "is_correction c n \<longleftrightarrow> n = StateBinding \<and> (c = StatePlanValidating \<or> c = StateResultVerifying)"

definition correct_hashes :: "HashUpdates \<Rightarrow> RunHashes \<Rightarrow> run_error + RunHashes" where
  "correct_hashes u h =
     (if updBindingBundle u \<noteq> None \<or> updGraphPlan u \<noteq> None \<or> updSemanticIR u \<noteq> None \<or>
         updQueryPlan u \<noteq> None \<or> updResult u \<noteq> None
      then Inl ErrInvalidRun
      else Inr (h\<lparr> BindingBundle := [], GraphPlan := [], SemanticIR := [], QueryPlan := [],
                   ResultHash := [] \<rparr>))"

definition next_hashes :: "Run \<Rightarrow> Transition \<Rightarrow> run_error + RunHashes" where
  "next_hashes current t =
     (let c = RunStateOf current; n = TargetState t in
      case (if is_correction c n then correct_hashes (trHashes t) (Hashes current)
            else Inr (Hashes current)) of
        Inl e \<Rightarrow> Inl e
      | Inr h0 \<Rightarrow>
        (case update_hashes c n (trHashes t) h0 of
           Inl e \<Rightarrow> Inl e
         | Inr h \<Rightarrow> if hashes_valid h then Inr h else Inl ErrInvalidRun))"

definition freeze_next :: "go_time \<Rightarrow> Transition \<Rightarrow> Run \<Rightarrow> run_error + Run" where
  "freeze_next now t r =
     (if RunStateOf r = StateClarificationRequired then
        (let timeout = (if ClarificationTimeout t = 0 then DefaultClarificationTimeout
                        else ClarificationTimeout t) in
         case FreezeBudget (Usage r) (Limits r) now timeout of
           Inl e \<Rightarrow> Inl e
         | Inr f \<Rightarrow> Inr (r\<lparr> ClarificationDeadline := Some (Deadline f),
                           BudgetFrozenAt := Some (FrozenAt f),
                           BudgetConsumed := Some (Consumed f) \<rparr>))
      else Inr r)"

definition complete_next :: "Transition \<Rightarrow> Run \<Rightarrow> run_error + Run" where
  "complete_next t r =
     (if isTerminalState (RunStateOf r) then
        (case Completion t of
           None \<Rightarrow> Inl ErrInvalidRun
         | Some ref \<Rightarrow>
            (if \<not> completion_code_ok (refCode ref) \<or> \<not> valid_hash (refArtifactHash ref) \<or>
                refArtifactType ref \<noteq> completionArtifactType (RunStateOf r)
             then Inl ErrInvalidRun
             else Inr (r\<lparr> CompletionCode := refCode ref,
                         CompletionArtifact := refArtifactHash ref,
                         RunDisposition := (case RunStateOf r of
                            StateAnswered \<Rightarrow> DispositionDirect
                          | StateClarificationRequired \<Rightarrow> DispositionClarify
                          | StateClarificationExpired \<Rightarrow> DispositionClarify
                          | StateBlocked \<Rightarrow> DispositionRefuse
                          | StateOutOfScope \<Rightarrow> DispositionRefuse
                          | _ \<Rightarrow> RunDisposition r),
                         CompletedAt := Some (UpdatedAt r) \<rparr>)))
      else if Completion t \<noteq> None then Inl ErrInvalidRun
      else Inr r)"

definition Apply ::
  "(string \<Rightarrow> bool) \<Rightarrow> go_time \<Rightarrow> Run \<Rightarrow> Transition \<Rightarrow> run_error + Run" where
  "Apply uuid_ok now current t =
     (if \<not> run_valid uuid_ok current then Inl ErrInvalidRun
      else if Terminal current then Inl ErrTerminalRun
      else if ExpectedVersion t \<noteq> RecordVersion current then Inl ErrVersionConflict
      else if \<not> CanTransition (RunStateOf current) (TargetState t) then Inl ErrIllegalTransition
      else if \<not> usage_valid (trUsage t) (Limits current) then Inl ErrInvalidRun
      else if \<not> monotonicFrom (trUsage t) (Usage current) then Inl ErrInvalidRun
      else
       (let next0 = current\<lparr> RunStateOf := TargetState t, Usage := trUsage t,
                             RecordVersion := RecordVersion current + 1, UpdatedAt := now \<rparr> in
        case freeze_next now t next0 of
          Inl e \<Rightarrow> Inl e
        | Inr next1 \<Rightarrow>
          (case next_hashes current t of
             Inl e \<Rightarrow> Inl e
           | Inr h \<Rightarrow>
             (case complete_next t (next1\<lparr> Hashes := h \<rparr>) of
                Inl e \<Rightarrow> Inl e
              | Inr next2 \<Rightarrow>
                (if RunStateOf current = RunStateOf next2 \<and> Usage current = Usage next2 \<and>
                    Hashes current = Hashes next2
                 then Inl ErrNoProgress
                 else if \<not> run_valid uuid_ok next2 then Inl ErrInvalidRun
                 else Inr next2)))))"

definition ResumeBudget :: "(string \<Rightarrow> bool) \<Rightarrow> Run \<Rightarrow> go_time \<Rightarrow> run_error + BudgetUsage" where
  "ResumeBudget uuid_ok r now =
     (if \<not> run_valid uuid_ok r \<or> RunStateOf r \<noteq> StateClarificationRequired \<or> now = 0 \<or>
         ClarificationDeadline r = None \<or> BudgetConsumed r = None
      then Inl ErrInvalidRun
      else (case ClarificationDeadline r of
              Some d \<Rightarrow> if now > d then Inl ErrClarificationExpired else Inr zero_usage
            | None \<Rightarrow> Inl ErrInvalidRun))"

definition ClarificationExpired :: "Run \<Rightarrow> go_time \<Rightarrow> bool" where
  "ClarificationExpired r now \<longleftrightarrow> RunStateOf r = StateClarificationRequired \<and>
     (case ClarificationDeadline r of None \<Rightarrow> False | Some d \<Rightarrow> \<not> now < d)"

text \<open>
  The snapshot \<open>expireClarificationTx\<close> writes (\<open>clarification_store.go\<close>), without the
  event log and the transaction around it. The database counts the version itself
  (\<open>updateRunTx\<close>), in a bigint that does not wrap: at the largest version the update fails.
\<close>

definition last_version :: "Run \<Rightarrow> bool" where
  "last_version r \<longleftrightarrow> sint (RecordVersion r) = 2 ^ 63 - 1"

definition expire_clarification :: "Run \<Rightarrow> go_time \<Rightarrow> Run option" where
  "expire_clarification current now =
     (if RunStateOf current \<noteq> StateClarificationRequired \<or> \<not> ClarificationExpired current now \<or> last_version current
      then None
      else Some (current\<lparr> RunStateOf := StateClarificationExpired,
                          CompletionCode := ''CLARIFICATION_EXPIRED'',
                          RecordVersion := RecordVersion current + 1, UpdatedAt := now \<rparr>))"

end
