(* ===== verification/RunInvariants.thy ===== *)
theory RunInvariants imports RunState begin

text \<open>
  Properties of the question run's state machine (\<open>RunState\<close>): what one \<open>Apply\<close> keeps,
  what every reachable run satisfies, and the clarification deadline.
\<close>

section \<open>One step\<close>

text \<open>The fields that identify a run and pin it to a scope and a release.\<close>

definition run_pins ::
  "Run \<Rightarrow> ID list \<times> ContentHash list \<times> string \<times> ReleaseRef \<times> BudgetLimits \<times> go_time" where
  "run_pins r = ([RunID r, TenantID r, DomainID r, ActorID r, ConversationID r, ParentRunID r,
       SourceRunID r, TraceID r],
     [IdempotencyKeyHash r, QuestionHash r, PolicyScopeHash r], ExecutionMode r, Release r,
     Limits r, CreatedAt r)"

lemma freeze_next_Inr:
  assumes "freeze_next now t r = Inr r'"
  shows "run_pins r' = run_pins r" and "RunStateOf r' = RunStateOf r" and "Usage r' = Usage r"
    and "RecordVersion r' = RecordVersion r" and "UpdatedAt r' = UpdatedAt r"
    and "Hashes r' = Hashes r"
    and "RunStateOf r = StateClarificationRequired \<Longrightarrow>
      BudgetConsumed r' = Some (Usage r) \<and> BudgetFrozenAt r' = Some now \<and>
      ClarificationDeadline r' = Some (now +
        (if ClarificationTimeout t = 0 then DefaultClarificationTimeout
         else ClarificationTimeout t))"
  using assms
  by (auto simp: freeze_next_def FreezeBudget_def Let_def run_pins_def
      split: if_splits sum.splits)

lemma complete_next_Inr:
  assumes "complete_next t r = Inr r'"
  shows "run_pins r' = run_pins r" and "RunStateOf r' = RunStateOf r" and "Usage r' = Usage r"
    and "RecordVersion r' = RecordVersion r" and "UpdatedAt r' = UpdatedAt r"
    and "Hashes r' = Hashes r" and "ClarificationDeadline r' = ClarificationDeadline r"
    and "BudgetFrozenAt r' = BudgetFrozenAt r" and "BudgetConsumed r' = BudgetConsumed r"
  using assms
  by (auto simp: complete_next_def run_pins_def split: if_splits option.splits)

text \<open>The next version of a valid run is one larger, unless it is the last; then it is negative.\<close>

lemma next_version:
  assumes "1 \<le> sint (v :: 64 word)"
  shows "sint (v + 1) = (if sint v = 2 ^ 63 - 1 then - (2 ^ 63) else sint v + 1)"
proof -
  have "sint v < 2 ^ 63" using sint_lt [of v] by simp
  then show ?thesis using assms by (auto simp: sint_word_ariths signed_take_bit_int_eq_self_iff)
qed

text \<open>
  The elimination rule of a successful step. Every later proof about \<open>Apply\<close> goes through
  it instead of unfolding the definition.
\<close>

lemma Apply_Inr:
  assumes "Apply uuid_ok now c t = Inr n"
  shows Apply_pins: "run_pins n = run_pins c"
    and Apply_version: "ExpectedVersion t = RecordVersion c" "RecordVersion n = RecordVersion c + 1"
    and Apply_state: "CanTransition (RunStateOf c) (RunStateOf n)" "RunStateOf n = TargetState t"
    and Apply_usage: "Usage n = trUsage t" "monotonicFrom (Usage n) (Usage c)"
    and Apply_hashes: "next_hashes c t = Inr (Hashes n)"
    and Apply_valid: "run_valid uuid_ok c" "run_valid uuid_ok n"
    and Apply_nonterminal: "\<not> Terminal c"
    and Apply_progress: "\<not> (RunStateOf c = RunStateOf n \<and> Usage c = Usage n \<and> Hashes c = Hashes n)"
    and Apply_updated: "UpdatedAt n = now"
    and Apply_frozen: "RunStateOf n = StateClarificationRequired \<Longrightarrow>
      BudgetConsumed n = Some (Usage n) \<and> BudgetFrozenAt n = Some now \<and>
      ClarificationDeadline n = Some (now +
        (if ClarificationTimeout t = 0 then DefaultClarificationTimeout
         else ClarificationTimeout t))"
proof -
  define next0 where "next0 = c\<lparr> RunStateOf := TargetState t, Usage := trUsage t,
    RecordVersion := RecordVersion c + 1, UpdatedAt := now \<rparr>"
  have guards: "run_valid uuid_ok c" "\<not> Terminal c" "ExpectedVersion t = RecordVersion c"
    "CanTransition (RunStateOf c) (TargetState t)" "monotonicFrom (trUsage t) (Usage c)"
    using assms by (auto simp: Apply_def split: if_splits)
  from assms guards obtain next1 h where
    f: "freeze_next now t next0 = Inr next1" and h: "next_hashes c t = Inr h"
    and k: "complete_next t (next1\<lparr> Hashes := h \<rparr>) = Inr n"
    and p: "\<not> (RunStateOf c = RunStateOf n \<and> Usage c = Usage n \<and> Hashes c = Hashes n)"
    and v: "run_valid uuid_ok n"
    unfolding Apply_def next0_def Let_def by (auto split: if_splits sum.splits)
  note F = freeze_next_Inr [OF f] and K = complete_next_Inr [OF k]
  have pins0: "run_pins next0 = run_pins c" by (simp add: next0_def run_pins_def)
  have pins1: "run_pins (next1\<lparr> Hashes := h \<rparr>) = run_pins next1" by (simp add: run_pins_def)
  show "run_pins n = run_pins c" using F(1) K(1) pins0 pins1 by simp
  show "RecordVersion n = RecordVersion c + 1" using F(4) K(4) by (simp add: next0_def)
  show st: "RunStateOf n = TargetState t" using F(2) K(2) by (simp add: next0_def)
  show "CanTransition (RunStateOf c) (RunStateOf n)" using guards st by simp
  show us: "Usage n = trUsage t" using F(3) K(3) by (simp add: next0_def)
  show "monotonicFrom (Usage n) (Usage c)" using guards us by simp
  show "next_hashes c t = Inr (Hashes n)" using h K(6) by simp
  show "UpdatedAt n = now" using F(5) K(5) by (simp add: next0_def)
  show "RunStateOf n = StateClarificationRequired \<Longrightarrow>
      BudgetConsumed n = Some (Usage n) \<and> BudgetFrozenAt n = Some now \<and>
      ClarificationDeadline n = Some (now +
        (if ClarificationTimeout t = 0 then DefaultClarificationTimeout
         else ClarificationTimeout t))"
    using F(7) K(7-9) st us by (simp add: next0_def)
qed (use assms in \<open>auto simp: Apply_def Let_def split: if_splits sum.splits\<close>)

section \<open>The hash chain\<close>

text \<open>The position of a stage on the governed path; completion states rank last.\<close>

definition stage_rank :: "State \<Rightarrow> nat" where
  "stage_rank s = (case s of
     StateReceived \<Rightarrow> 0 | StateAuthorized \<Rightarrow> 1 | StateContextReady \<Rightarrow> 2 | StateUnderstanding \<Rightarrow> 3
   | StateRetrieving \<Rightarrow> 4 | StateBinding \<Rightarrow> 5 | StateGraphValidating \<Rightarrow> 6 | StateIRReady \<Rightarrow> 7
   | StatePlanValidating \<Rightarrow> 8 | StateExecuting \<Rightarrow> 9 | StateResultVerifying \<Rightarrow> 10
   | StateAnswerVerifying \<Rightarrow> 11 | _ \<Rightarrow> 12)"

definition hashes_within_stage :: "State \<Rightarrow> RunHashes \<Rightarrow> bool" where
  "hashes_within_stage s h \<longleftrightarrow>
     (Understanding h \<noteq> [] \<longrightarrow> stage_rank StateUnderstanding \<le> stage_rank s) \<and>
     (BindingBundle h \<noteq> [] \<longrightarrow> stage_rank StateBinding \<le> stage_rank s) \<and>
     (GraphPlan h \<noteq> [] \<longrightarrow> stage_rank StateGraphValidating \<le> stage_rank s) \<and>
     (SemanticIR h \<noteq> [] \<longrightarrow> stage_rank StateIRReady \<le> stage_rank s) \<and>
     (QueryPlan h \<noteq> [] \<longrightarrow> stage_rank StatePlanValidating \<le> stage_rank s) \<and>
     (ResultHash h \<noteq> [] \<longrightarrow> stage_rank StateResultVerifying \<le> stage_rank s)"

lemma CanTransition_rank:
  assumes "CanTransition c n" and "\<not> is_correction c n"
  shows "stage_rank c \<le> stage_rank n"
  using assms
  by (cases c) (auto simp: CanTransition_def stage_successors_def validStates_def stage_rank_def
      is_correction_def isTerminalState_def split: if_splits)

lemma update_hash_origin:
  assumes "update_hash c n stage cur upd = Inr h" and "h \<noteq> []"
  shows "cur = h \<or> (cur = [] \<and> (c = stage \<or> n = stage) \<and> upd = Some h)"
  using assms by (auto simp: update_hash_def split: option.splits if_splits)

lemma update_hash_keeps:
  assumes "update_hash c n stage cur upd = Inr h" and "cur \<noteq> []"
  shows "h = cur"
  using assms by (auto simp: update_hash_def split: option.splits if_splits)

lemma update_hashes_Inr:
  "update_hashes c n u h = Inr h' \<longleftrightarrow>
     update_hash c n StateUnderstanding (Understanding h) (updUnderstanding u) = Inr (Understanding h') \<and>
     update_hash c n StateBinding (BindingBundle h) (updBindingBundle u) = Inr (BindingBundle h') \<and>
     update_hash c n StateGraphValidating (GraphPlan h) (updGraphPlan u) = Inr (GraphPlan h') \<and>
     update_hash c n StateIRReady (SemanticIR h) (updSemanticIR u) = Inr (SemanticIR h') \<and>
     update_hash c n StatePlanValidating (QueryPlan h) (updQueryPlan u) = Inr (QueryPlan h') \<and>
     update_hash c n StateResultVerifying (ResultHash h) (updResult u) = Inr (ResultHash h')"
  by (cases h') (auto simp: update_hashes_def split: sum.splits)

lemma next_hashes_within_stage:
  assumes n: "next_hashes c t = Inr h"
    and w: "hashes_within_stage (RunStateOf c) (Hashes c)"
    and ct: "CanTransition (RunStateOf c) (TargetState t)"
  shows "hashes_within_stage (TargetState t) h"
proof (cases "is_correction (RunStateOf c) (TargetState t)")
  case True
  with n have "update_hashes (RunStateOf c) (TargetState t) (trHashes t)
      ((Hashes c)\<lparr> BindingBundle := [], GraphPlan := [], SemanticIR := [], QueryPlan := [],
        ResultHash := [] \<rparr>) = Inr h"
    and "updBindingBundle (trHashes t) = None" "updGraphPlan (trHashes t) = None"
      "updSemanticIR (trHashes t) = None" "updQueryPlan (trHashes t) = None"
      "updResult (trHashes t) = None"
    by (auto simp: next_hashes_def correct_hashes_def Let_def split: if_splits sum.splits)
  moreover have "TargetState t = StateBinding" using True by (simp add: is_correction_def)
  ultimately show ?thesis
    by (auto simp: update_hashes_Inr update_hash_def hashes_within_stage_def stage_rank_def)
next
  case False
  have rank: "stage_rank (RunStateOf c) \<le> stage_rank (TargetState t)"
    by (rule CanTransition_rank [OF ct False])
  from n False have u: "update_hashes (RunStateOf c) (TargetState t) (trHashes t) (Hashes c) = Inr h"
    by (auto simp: next_hashes_def Let_def split: if_splits sum.splits)
  have one: "stage_rank s \<le> stage_rank (TargetState t)"
    if "update_hash (RunStateOf c) (TargetState t) s cur upd = Inr g" and "g \<noteq> []"
      and "cur \<noteq> [] \<longrightarrow> stage_rank s \<le> stage_rank (RunStateOf c)" for s cur upd g
    using update_hash_origin [OF that(1,2)] that(2,3) rank by auto
  note parts = u [unfolded update_hashes_Inr]
  note ws = w [unfolded hashes_within_stage_def]
  show ?thesis
    unfolding hashes_within_stage_def
    using one [OF parts [THEN conjunct1]] one [OF parts [THEN conjunct2, THEN conjunct1]]
      one [OF parts [THEN conjunct2, THEN conjunct2, THEN conjunct1]]
      one [OF parts [THEN conjunct2, THEN conjunct2, THEN conjunct2, THEN conjunct1]]
      one [OF parts [THEN conjunct2, THEN conjunct2, THEN conjunct2, THEN conjunct2, THEN conjunct1]]
      one [OF parts [THEN conjunct2, THEN conjunct2, THEN conjunct2, THEN conjunct2, THEN conjunct2]]
      ws by blast
qed

section \<open>Reachable runs\<close>

text \<open>
  A run starts as \<open>prepareCreateRequest\<close> builds it (\<open>store.go\<close>) and then moves by \<open>Apply\<close>,
  at any time and with any transition, or by the expiry of its clarification.
\<close>

definition new_run ::
  "ID \<Rightarrow> ID \<Rightarrow> ID \<Rightarrow> ID \<Rightarrow> ID \<Rightarrow> ID \<Rightarrow> string \<Rightarrow> ID \<Rightarrow> ID \<Rightarrow> ContentHash \<Rightarrow> ContentHash \<Rightarrow>
   ContentHash \<Rightarrow> ReleaseRef \<Rightarrow> BudgetLimits \<Rightarrow> BudgetUsage \<Rightarrow> Run" where
  "new_run rid tenant domain actor conversation parent mode source trace idem question policy
     release limits usage =
   \<lparr> RunID = rid, TenantID = tenant, DomainID = domain, ActorID = actor,
     ConversationID = conversation, ParentRunID = parent, ExecutionMode = mode,
     SourceRunID = source, TraceID = trace, IdempotencyKeyHash = idem, QuestionHash = question,
     PolicyScopeHash = policy, Release = release, RunStateOf = StateReceived,
     RunDisposition = DispositionPending, CompletionCode = [], CompletionArtifact = [],
     Hashes = \<lparr> Understanding = [], BindingBundle = [], GraphPlan = [], SemanticIR = [],
                QueryPlan = [], ResultHash = [] \<rparr>,
     Limits = limits, Usage = usage, ClarificationDeadline = None, BudgetFrozenAt = None,
     BudgetConsumed = None, RecordVersion = 1, CreatedAt = 0, UpdatedAt = 0,
     CompletedAt = None \<rparr>"

inductive run_step :: "(string \<Rightarrow> bool) \<Rightarrow> Run \<Rightarrow> Run \<Rightarrow> bool" for uuid_ok where
  apply_step: "Apply uuid_ok now c t = Inr n \<Longrightarrow> run_step uuid_ok c n"
| expire_step: "run_valid uuid_ok c \<Longrightarrow> expire_clarification c now = Some n \<Longrightarrow> run_step uuid_ok c n"

inductive_cases run_stepE: "run_step uuid_ok c n"

text \<open>\<open>run_trace r0 ss r\<close>: from \<open>r0\<close> to \<open>r\<close>, through the states \<open>ss\<close> (oldest first).\<close>

inductive run_trace :: "(string \<Rightarrow> bool) \<Rightarrow> Run \<Rightarrow> State list \<Rightarrow> Run \<Rightarrow> bool" for uuid_ok r0 where
  trace_start: "run_trace uuid_ok r0 [RunStateOf r0] r0"
| trace_step: "run_trace uuid_ok r0 ss c \<Longrightarrow> run_step uuid_ok c n \<Longrightarrow>
     run_trace uuid_ok r0 (ss @ [RunStateOf n]) n"

lemma expire_facts:
  assumes "expire_clarification c now = Some n"
  shows "run_pins n = run_pins c" and "RunStateOf c = StateClarificationRequired"
    and "RunStateOf n = StateClarificationExpired" and "Usage n = Usage c"
    and "Hashes n = Hashes c" and "RecordVersion n = RecordVersion c + 1"
    and "CompletionArtifact n = CompletionArtifact c"
    and "RunDisposition n = RunDisposition c" and "CompletedAt n = CompletedAt c"
    and "ClarificationDeadline n = ClarificationDeadline c" and "BudgetFrozenAt n = BudgetFrozenAt c"
    and "BudgetConsumed n = BudgetConsumed c" and "CompletionCode n = ''CLARIFICATION_EXPIRED''"
  using assms by (auto simp: expire_clarification_def run_pins_def split: if_splits)

text \<open>Expiring a valid clarification gives a valid run, although no validation follows it.\<close>

lemma expire_valid:
  assumes v: "run_valid uuid_ok c" and e: "expire_clarification c now = Some n"
  shows "run_valid uuid_ok n"
proof -
  have "\<not> last_version c" using e by (auto simp: expire_clarification_def split: if_splits)
  then have ver: "1 \<le> sint (RecordVersion c + 1)"
    using v next_version [of "RecordVersion c"] by (simp add: run_valid_def last_version_def)
  have n: "n = c\<lparr> RunStateOf := StateClarificationExpired,
      CompletionCode := ''CLARIFICATION_EXPIRED'',
      RecordVersion := RecordVersion c + 1, UpdatedAt := now \<rparr>"
    and s: "RunStateOf c = StateClarificationRequired"
    using e by (auto simp: expire_clarification_def split: if_splits)
  have code: "completion_code_ok ''CLARIFICATION_EXPIRED''"
    by code_simp
  from v s have cs: "clarification_snapshot_valid n"
    by (auto simp: run_valid_def clarification_snapshot_valid_def n split: option.splits)
  have "Terminal c" using s by (simp add: Terminal_def)
  with v s code have cv: "completion_valid n"
    by (auto simp: run_valid_def completion_valid_def n Terminal_def)
  have rest: "run_identity_valid uuid_ok n = run_identity_valid uuid_ok c"
    "execution_mode_valid n = execution_mode_valid c"
    by (auto simp: n run_identity_valid_def execution_mode_valid_def)
  have "RunStateOf n \<in> set validStates" "Terminal n"
    by (simp_all add: n validStates_def Terminal_def)
  moreover have "IdempotencyKeyHash n = IdempotencyKeyHash c" "QuestionHash n = QuestionHash c"
    "PolicyScopeHash n = PolicyScopeHash c" "Release n = Release c" "Hashes n = Hashes c"
    "Limits n = Limits c" "Usage n = Usage c" "RecordVersion n = RecordVersion c + 1"
    by (simp_all add: n)
  ultimately show ?thesis
    using v rest cs cv ver unfolding run_valid_def by simp
qed

lemma step_CanTransition: "run_step uuid_ok c n \<Longrightarrow> CanTransition (RunStateOf c) (RunStateOf n)"
  by (elim run_stepE) (drule Apply_state(1), assumption,
      frule expire_facts(2), drule expire_facts(3), simp add: CanTransition_def validStates_def)

lemma step_pins: "run_step uuid_ok c n \<Longrightarrow> run_pins n = run_pins c"
  by (elim run_stepE) (erule Apply_pins, erule expire_facts(1))

lemma step_version: "run_step uuid_ok c n \<Longrightarrow> RecordVersion n = RecordVersion c + 1"
  by (elim run_stepE) (erule Apply_version(2), erule expire_facts(6))

lemma step_valid: "run_step uuid_ok c n \<Longrightarrow> run_valid uuid_ok n"
  by (elim run_stepE) (erule Apply_valid(2), erule (1) expire_valid)

lemma monotonicFrom_refl: "monotonicFrom u u"
  by (simp add: monotonicFrom_def)

lemma monotonicFrom_trans: "monotonicFrom a b \<Longrightarrow> monotonicFrom b c \<Longrightarrow> monotonicFrom a c"
  by (auto simp: monotonicFrom_def)

lemma step_usage: "run_step uuid_ok c n \<Longrightarrow> monotonicFrom (Usage n) (Usage c)"
  by (elim run_stepE) (erule Apply_usage(2), drule expire_facts(4), simp add: monotonicFrom_refl)

lemma step_within_stage:
  assumes "run_step uuid_ok c n" and "hashes_within_stage (RunStateOf c) (Hashes c)"
  shows "hashes_within_stage (RunStateOf n) (Hashes n)"
  using assms(1)
proof (cases rule: run_step.cases)
  case (apply_step now t)
  with assms(2) show ?thesis
    using next_hashes_within_stage [OF Apply_hashes [OF apply_step] assms(2)]
      Apply_state [OF apply_step] by simp
next
  case (expire_step now)
  with assms(2) show ?thesis
    using expire_facts [OF expire_step(2)] by (auto simp: hashes_within_stage_def stage_rank_def)
qed

lemmas step_facts = step_CanTransition step_pins step_version step_valid step_usage

lemma trace_nonempty: "run_trace uuid_ok r0 ss r \<Longrightarrow> ss \<noteq> [] \<and> last ss = RunStateOf r"
  by (induction rule: run_trace.induct) auto

lemma trace_hd: "run_trace uuid_ok r0 ss r \<Longrightarrow> ss \<noteq> [] \<and> hd ss = RunStateOf r0"
  by (induction rule: run_trace.induct) auto

lemma trace_pins: "run_trace uuid_ok r0 ss r \<Longrightarrow> run_pins r = run_pins r0"
  by (induction rule: run_trace.induct) (auto dest: step_pins)

lemma step_counts:
  assumes "run_step uuid_ok c n"
  shows "sint (RecordVersion n) = sint (RecordVersion c) + 1"
proof -
  have "run_valid uuid_ok c" using assms by (elim run_stepE) (auto dest: Apply_valid)
  moreover have "run_valid uuid_ok n" using assms by (rule step_valid)
  ultimately show ?thesis
    using next_version [of "RecordVersion c"] step_version [OF assms] by (auto simp: run_valid_def split: if_splits)
qed

lemma trace_version:
  "run_trace uuid_ok r0 ss r \<Longrightarrow> sint (RecordVersion r) + 1 = sint (RecordVersion r0) + int (length ss)"
  by (induction rule: run_trace.induct) (auto dest: step_counts)

lemma trace_usage: "run_trace uuid_ok r0 ss r \<Longrightarrow> monotonicFrom (Usage r) (Usage r0)"
  by (induction rule: run_trace.induct)
    (auto intro: monotonicFrom_refl dest: step_usage monotonicFrom_trans)

lemma trace_valid: "run_trace uuid_ok r0 ss r \<Longrightarrow> run_valid uuid_ok r0 \<Longrightarrow> run_valid uuid_ok r"
  by (induction rule: run_trace.induct) (auto dest: step_valid)

lemma trace_within_stage:
  "run_trace uuid_ok r0 ss r \<Longrightarrow> hashes_within_stage (RunStateOf r0) (Hashes r0) \<Longrightarrow>
   hashes_within_stage (RunStateOf r) (Hashes r)"
  by (induction rule: run_trace.induct) (auto dest: step_within_stage)

section \<open>Gates\<close>

text \<open>
  The governed stages in order. A run in a stage has been through every earlier one, and
  an answered run has been through all twelve.
\<close>

definition governed_path :: "State list" where
  "governed_path = [StateReceived, StateAuthorized, StateContextReady, StateUnderstanding,
     StateRetrieving, StateBinding, StateGraphValidating, StateIRReady, StatePlanValidating,
     StateExecuting, StateResultVerifying, StateAnswerVerifying]"

definition gates_passed :: "State \<Rightarrow> State set \<Rightarrow> bool" where
  "gates_passed s visited \<longleftrightarrow>
     (s \<in> set governed_path \<longrightarrow> set (takeWhile (\<lambda>g. g \<noteq> s) governed_path) \<subseteq> visited) \<and>
     (s = StateAnswered \<longrightarrow> set governed_path \<subseteq> visited)"

lemma gates_step:
  assumes "CanTransition c n" and "gates_passed c visited" and "c \<in> visited"
  shows "gates_passed n (insert n visited)"
  using assms
  by (cases c) (auto simp: CanTransition_def stage_successors_def validStates_def
      gates_passed_def governed_path_def isTerminalState_def split: if_splits)

lemma trace_gates:
  assumes "run_trace uuid_ok r0 ss r" and "RunStateOf r0 = StateReceived"
  shows "gates_passed (RunStateOf r) (set ss)"
  using assms
proof (induction rule: run_trace.induct)
  case trace_start
  then show ?case by (simp add: gates_passed_def governed_path_def)
next
  case (trace_step ss c n)
  have "RunStateOf c \<in> set ss"
    using trace_nonempty [OF trace_step.hyps(1)] by (metis last_in_set)
  with trace_step show ?case
    using gates_step [OF step_CanTransition [OF trace_step.hyps(2)]] by simp
qed

section \<open>Executable runs\<close>

text \<open>A list of transitions applied in order, all at the same clock reading.\<close>

fun apply_all :: "(string \<Rightarrow> bool) \<Rightarrow> go_time \<Rightarrow> Run \<Rightarrow> Transition list \<Rightarrow> run_error + Run" where
  "apply_all uuid_ok now c [] = Inr c"
| "apply_all uuid_ok now c (t # ts) = (case Apply uuid_ok now c t of
     Inl e \<Rightarrow> Inl e | Inr n \<Rightarrow> apply_all uuid_ok now n ts)"

lemma apply_all_trace:
  "run_trace uuid_ok r0 ss c \<Longrightarrow> apply_all uuid_ok now c ts = Inr r \<Longrightarrow>
   run_trace uuid_ok r0 (ss @ map TargetState ts) r"
proof (induction ts arbitrary: ss c)
  case Nil
  then show ?case by simp
next
  case (Cons t ts)
  then obtain n where n: "Apply uuid_ok now c t = Inr n" and r: "apply_all uuid_ok now n ts = Inr r"
    by (auto split: sum.splits)
  have "run_trace uuid_ok r0 (ss @ [RunStateOf n]) n"
    using Cons.prems(1) run_step.apply_step [OF n] by (rule trace_step)
  from Cons.IH [OF this r] show ?case using Apply_state(2) [OF n] by simp
qed

definition uuid_shape :: "string \<Rightarrow> bool" where
  "uuid_shape s \<longleftrightarrow> length s = 36"

definition sample_id :: "char \<Rightarrow> ID" where
  "sample_id c = ''00000000-0000-4000-8000-00000000000'' @ [c]"

definition sample_hash :: "char \<Rightarrow> ContentHash" where
  "sample_hash c = replicate 64 c"

definition no_updates :: HashUpdates where
  "no_updates = \<lparr> updUnderstanding = None, updBindingBundle = None, updGraphPlan = None,
     updSemanticIR = None, updQueryPlan = None, updResult = None \<rparr>"

definition sample_run :: Run where
  "sample_run = new_run (sample_id CHR ''1'') (sample_id CHR ''2'') (sample_id CHR ''3'')
     (sample_id CHR ''4'') [] [] ''USER'' [] (sample_id CHR ''5'') (sample_hash CHR ''a'')
     (sample_hash CHR ''b'') (sample_hash CHR ''c'')
     \<lparr> ReleaseID = sample_id CHR ''6'', ReleaseContentHash = sample_hash CHR ''d'' \<rparr>
     DefaultBudgetLimits zero_usage"

definition move :: "64 word \<Rightarrow> State \<Rightarrow> HashUpdates \<Rightarrow> CompletionRef option \<Rightarrow> Transition" where
  "move v s u ref = \<lparr> ExpectedVersion = v, TargetState = s, trUsage = zero_usage, trHashes = u,
     Completion = ref, ClarificationTimeout = 0 \<rparr>"

text \<open>A run that goes through every gate without a correction and is answered.\<close>

definition sample_answer_moves :: "Transition list" where
  "sample_answer_moves =
   [move 1 StateAuthorized no_updates None,
    move 2 StateContextReady no_updates None,
    move 3 StateUnderstanding (no_updates\<lparr> updUnderstanding := Some (sample_hash CHR ''1'') \<rparr>) None,
    move 4 StateRetrieving no_updates None,
    move 5 StateBinding (no_updates\<lparr> updBindingBundle := Some (sample_hash CHR ''2'') \<rparr>) None,
    move 6 StateGraphValidating (no_updates\<lparr> updGraphPlan := Some (sample_hash CHR ''3'') \<rparr>) None,
    move 7 StateIRReady (no_updates\<lparr> updSemanticIR := Some (sample_hash CHR ''4'') \<rparr>) None,
    move 8 StatePlanValidating (no_updates\<lparr> updQueryPlan := Some (sample_hash CHR ''5'') \<rparr>) None,
    move 9 StateExecuting no_updates None,
    move 10 StateResultVerifying (no_updates\<lparr> updResult := Some (sample_hash CHR ''6'') \<rparr>) None,
    move 11 StateAnswerVerifying no_updates None,
    move 12 StateAnswered no_updates
      (Some \<lparr> refCode = ''ANSWERED'', refArtifactType = ArtifactAnswer,
              refArtifactHash = sample_hash CHR ''7'' \<rparr>)]"

definition sample_answered :: Run where
  "sample_answered = (case apply_all uuid_shape 1 sample_run sample_answer_moves of
     Inl e \<Rightarrow> sample_run | Inr r \<Rightarrow> r)"

lemma sample_answer_evaluates:
  "(case apply_all uuid_shape 1 sample_run sample_answer_moves of
      Inl e \<Rightarrow> False | Inr r \<Rightarrow> RunStateOf r = StateAnswered)"
  by code_simp

lemma sample_answer_runs: "apply_all uuid_shape 1 sample_run sample_answer_moves = Inr sample_answered"
  and sample_answered_state: "RunStateOf sample_answered = StateAnswered"
  using sample_answer_evaluates
  by (cases "apply_all uuid_shape 1 sample_run sample_answer_moves"; simp add: sample_answered_def)+

lemma sample_answer_trace:
  "run_trace uuid_shape sample_run (StateReceived # map TargetState sample_answer_moves) sample_answered"
  using apply_all_trace [OF trace_start sample_answer_runs]
  by (simp add: sample_run_def new_run_def)

lemma sample_run_valid: "run_valid uuid_shape sample_run"
  by code_simp

section \<open>Moves to a refused or clarified run\<close>

text \<open>
  The transition that ends a run with a completion artifact and no new hash, with the
  default clarification timeout.
\<close>

definition terminal_move ::
  "Run \<Rightarrow> State \<Rightarrow> BudgetUsage \<Rightarrow> string \<Rightarrow> ContentHash \<Rightarrow> Transition" where
  "terminal_move c target u code h = \<lparr> ExpectedVersion = RecordVersion c, TargetState = target,
     trUsage = u, trHashes = no_updates,
     Completion = Some \<lparr> refCode = code, refArtifactType = completionArtifactType target,
                         refArtifactHash = h \<rparr>,
     ClarificationTimeout = 0 \<rparr>"

definition refusing :: "State list" where
  "refusing = [StateBlocked, StateOutOfScope, StateClarificationRequired]"

lemma update_hashes_none: "update_hashes c n no_updates h = Inr h"
  by (simp add: update_hashes_Inr update_hash_def no_updates_def)

lemma CanTransition_Blocked:
  "s \<in> set validStates \<Longrightarrow> \<not> isTerminalState s \<Longrightarrow> CanTransition s StateBlocked"
  by (cases s) (auto simp: CanTransition_def validStates_def isTerminalState_def stage_successors_def)

lemma Apply_terminal_move:
  assumes v: "run_valid uuid_ok c" and t: "\<not> Terminal c"
    and target: "target \<in> set refusing" and ct: "CanTransition (RunStateOf c) target"
    and u: "usage_valid u (Limits c)" "monotonicFrom u (Usage c)"
    and now: "target = StateClarificationRequired \<longrightarrow> 0 < now"
    and code: "completion_code_ok code" and h: "valid_hash h" and ver: "\<not> last_version c"
  shows "\<exists>n. Apply uuid_ok now c (terminal_move c target u code h) = Inr n \<and>
    RunStateOf n = target \<and> Usage n = u \<and> CompletionCode n = code \<and> CompletionArtifact n = h \<and>
    RunDisposition n = (if target = StateClarificationRequired then DispositionClarify
                        else DispositionRefuse)"
proof -
  let ?t = "terminal_move c target u code h"
  define clar where "clar = (target = StateClarificationRequired)"
  define n where "n = c\<lparr> RunStateOf := target, Usage := u, RecordVersion := RecordVersion c + 1,
    UpdatedAt := now, CompletionCode := code, CompletionArtifact := h,
    RunDisposition := (if clar then DispositionClarify else DispositionRefuse),
    CompletedAt := Some now,
    ClarificationDeadline := (if clar then Some (now + DefaultClarificationTimeout) else None),
    BudgetFrozenAt := (if clar then Some now else None),
    BudgetConsumed := (if clar then Some u else None) \<rparr>"
  have lv: "limits_valid (Limits c)" "hashes_valid (Hashes c)" using v by (simp_all add: run_valid_def)
  have snap: "ClarificationDeadline c = None \<and> BudgetFrozenAt c = None \<and> BudgetConsumed c = None"
    using v t by (auto simp: run_valid_def clarification_snapshot_valid_def Terminal_def split: if_splits)
  have dt: "0 < DefaultClarificationTimeout" "\<not> 24 * hour < DefaultClarificationTimeout"
    by (simp_all add: DefaultClarificationTimeout_def hour_def minute_def)
  have tn: "RunStateOf c \<noteq> target" "isTerminalState target"
    using t target by (auto simp: Terminal_def refusing_def isTerminalState_def)
  have nt: "Terminal n" using target by (auto simp: n_def Terminal_def refusing_def)
  have "clarification_snapshot_valid n" "completion_valid n"
    using target snap code h u now dt
    by (auto simp: clarification_snapshot_valid_def completion_valid_def n_def Terminal_def clar_def refusing_def)
  moreover have "run_identity_valid uuid_ok n = run_identity_valid uuid_ok c"
    "execution_mode_valid n = execution_mode_valid c"
    by (auto simp: n_def run_identity_valid_def execution_mode_valid_def)
  moreover have "target \<in> set validStates" using target by (auto simp: refusing_def validStates_def)
  moreover have "1 \<le> sint (RecordVersion n)"
    using v ver next_version [of "RecordVersion c"] by (simp add: run_valid_def last_version_def n_def)
  ultimately have nv: "run_valid uuid_ok n"
    using v nt u(1) unfolding run_valid_def by (simp add: n_def)
  define n1 where "n1 = c\<lparr> RunStateOf := target, Usage := u, RecordVersion := RecordVersion c + 1,
    UpdatedAt := now, ClarificationDeadline := ClarificationDeadline n,
    BudgetFrozenAt := BudgetFrozenAt n, BudgetConsumed := BudgetConsumed n \<rparr>"
  have fr: "freeze_next now ?t (c\<lparr> RunStateOf := target, Usage := u,
      RecordVersion := RecordVersion c + 1, UpdatedAt := now \<rparr>) = Inr n1"
    using snap now dt lv u(1)
    by (auto simp: freeze_next_def FreezeBudget_def terminal_move_def n_def n1_def clar_def Let_def)
  have hs: "next_hashes c ?t = Inr (Hashes c)"
    using target lv by (auto simp: next_hashes_def terminal_move_def is_correction_def update_hashes_none refusing_def)
  have "Hashes n1 = Hashes c" by (simp add: n1_def)
  then have same: "n1\<lparr> Hashes := Hashes c \<rparr> = n1" by (metis Run.surjective Run.update_convs(18))
  have fin: "n = n1\<lparr> CompletionCode := code, CompletionArtifact := h,
      RunDisposition := RunDisposition n, CompletedAt := Some (UpdatedAt n1) \<rparr>"
    by (simp add: n1_def n_def)
  have ref: "Completion ?t = Some \<lparr> refCode = code, refArtifactType = completionArtifactType target,
      refArtifactHash = h \<rparr>" "RunStateOf n1 = target"
    by (simp_all add: terminal_move_def n1_def)
  have disp: "(case target of StateAnswered \<Rightarrow> DispositionDirect
      | StateClarificationRequired \<Rightarrow> DispositionClarify | StateClarificationExpired \<Rightarrow> DispositionClarify
      | StateBlocked \<Rightarrow> DispositionRefuse | StateOutOfScope \<Rightarrow> DispositionRefuse
      | _ \<Rightarrow> RunDisposition n1) = RunDisposition n"
    using target by (auto simp: n_def clar_def refusing_def)
  have co: "complete_next ?t (n1\<lparr> Hashes := Hashes c \<rparr>) = Inr n"
    unfolding same complete_next_def ref using tn(2) code h disp
    by (subst fin) simp
  have fields: "ExpectedVersion ?t = RecordVersion c" "TargetState ?t = target" "trUsage ?t = u"
    by (simp_all add: terminal_move_def)
  have "RunStateOf n = target" by (simp add: n_def)
  then have "Apply uuid_ok now c ?t = Inr n"
    using v t ct u fr hs co nv tn(1) by (simp add: Apply_def Let_def fields)
  then show ?thesis by (simp add: n_def clar_def)
qed

end
