(* ===== verification/RunProperties.thy ===== *)
theory RunProperties imports RunInvariants begin

text \<open>
  The claims about the question run: pins, budgets, the hash chain and the gates on every
  reachable run; the finality of terminal states; refusal is always possible; the deadline.
\<close>

lemma not_CanTransition_Answered:
  "CanTransition c StateAnswered \<Longrightarrow> c = StateAnswerVerifying"
  by (cases c) (auto simp: CanTransition_def stage_successors_def validStates_def
      isTerminalState_def split: if_splits)

text \<open>C1: Whatever transitions are applied, at whatever times, a run keeps its identity, its
  actor and domain, its policy scope hash, its semantic release and its budget limits; its
  record version counts the steps.\<close>

theorem run_pins_never_change:
  assumes "run_trace uuid_ok r0 ss r"
  shows "run_pins r = run_pins r0 \<and> sint (RecordVersion r) = sint (RecordVersion r0) + int (length ss) - 1"
  using trace_pins [OF assms] trace_version [OF assms] by simp

theorem run_pins_never_change_witness:
  "run_pins sample_answered = run_pins sample_run \<and> sint (RecordVersion sample_answered) = 13"
  using run_pins_never_change [OF sample_answer_trace]
  by (simp add: sample_run_def new_run_def sample_answer_moves_def)

text \<open>C2: An answered run that started as a new run has been in every one of the twelve
  governed stages, and carries the complete chain of hashes: no answer without
  understanding, binding, graph validation, plan validation, execution and verification.\<close>

theorem answered_run_passed_every_gate:
  assumes "run_trace uuid_ok r0 ss r" and "run_valid uuid_ok r0"
    and "RunStateOf r0 = StateReceived" and "RunStateOf r = StateAnswered"
  shows "set governed_path \<subseteq> set ss \<and> completeAnswerChain (Hashes r)"
proof
  show "set governed_path \<subseteq> set ss"
    using trace_gates [OF assms(1,3)] assms(4) by (simp add: gates_passed_def)
  have "run_valid uuid_ok r" using assms(1,2) by (rule trace_valid)
  then show "completeAnswerChain (Hashes r)"
    using assms(4) by (simp add: run_valid_def completion_valid_def Terminal_def)
qed

theorem answered_run_passed_every_gate_witness:
  "StateExecuting \<in> set (StateReceived # map TargetState sample_answer_moves)
   \<and> completeAnswerChain (Hashes sample_answered)"
proof -
  have r: "RunStateOf sample_run = StateReceived" by (simp add: sample_run_def new_run_def)
  show ?thesis
    using answered_run_passed_every_gate
      [OF sample_answer_trace sample_run_valid r sample_answered_state]
    by (auto simp: governed_path_def)
qed

text \<open>C3: In every run reachable from a new run without hashes, a hash of the chain is present
  only when its stage has been reached and the chain has no hole; in particular a run that
  is sent back to binding carries no graph plan, semantic IR, query plan or result.\<close>

theorem hash_chain_within_stage:
  assumes "run_trace uuid_ok r0 ss r" and "run_valid uuid_ok r0"
    and "RunStateOf r0 = StateReceived" and "Understanding (Hashes r0) = []"
  shows "hashes_within_stage (RunStateOf r) (Hashes r) \<and> hashes_valid (Hashes r) \<and>
    (RunStateOf r = StateBinding \<longrightarrow> GraphPlan (Hashes r) = [] \<and> SemanticIR (Hashes r) = [] \<and>
       QueryPlan (Hashes r) = [] \<and> ResultHash (Hashes r) = [])"
proof -
  have "hashes_valid (Hashes r0)" using assms(2) by (simp add: run_valid_def)
  with assms(4) have "hashes_within_stage (RunStateOf r0) (Hashes r0)"
    by (auto simp: hashes_valid_def hashes_within_stage_def)
  then have w: "hashes_within_stage (RunStateOf r) (Hashes r)"
    using trace_within_stage [OF assms(1)] by simp
  moreover have "hashes_valid (Hashes r)"
    using trace_valid [OF assms(1,2)] by (simp add: run_valid_def)
  ultimately show ?thesis
    by (auto simp: hashes_within_stage_def stage_rank_def)
qed

theorem hash_chain_within_stage_witness:
  "hashes_within_stage StateAnswered (Hashes sample_answered)"
proof -
  have r: "RunStateOf sample_run = StateReceived" "Understanding (Hashes sample_run) = []"
    by (simp_all add: sample_run_def new_run_def)
  show ?thesis
    using hash_chain_within_stage [OF sample_answer_trace sample_run_valid r]
    by (simp add: sample_answered_state)
qed

text \<open>C4: On every path of a run the budget usage only grows, and the number of its steps, model
  calls, tool calls and queries never exceeds the limits fixed when the run was created,
  which are themselves within the governed bounds; the elapsed time stays within the ten
  minutes of the governed bound (the check does not compare it with the run's own
  duration limit, which may be shorter); a run whose budget is exhausted is terminal.\<close>

theorem budget_monotone_and_bounded:
  assumes "run_trace uuid_ok r0 ss r" and "run_valid uuid_ok r0"
  shows "monotonicFrom (Usage r) (Usage r0) \<and>
    StepCount (Usage r) \<le> MaxSteps (Limits r0) \<and> MaxSteps (Limits r0) \<le> 48 \<and>
    LLMCallsUsed (Usage r) \<le> MaxLLMCalls (Limits r0) \<and> MaxLLMCalls (Limits r0) \<le> 16 \<and>
    ToolCallsUsed (Usage r) \<le> MaxToolCalls (Limits r0) \<and> MaxToolCalls (Limits r0) \<le> 16 \<and>
    FormalQueriesUsed (Usage r) \<le> MaxFormalQueries (Limits r0) \<and> MaxFormalQueries (Limits r0) \<le> 6 \<and>
    ValidationQueriesUsed (Usage r) \<le> MaxValidationQueries (Limits r0) \<and> MaxValidationQueries (Limits r0) \<le> 3 \<and>
    0 \<le> ElapsedMS (Usage r) \<and> ElapsedMS (Usage r) \<le> 600000 \<and>
    (Exhausted (Usage r) \<longrightarrow> Terminal r)"
proof -
  have "run_valid uuid_ok r" using assms by (rule trace_valid)
  moreover have "Limits r = Limits r0" using trace_pins [OF assms(1)] by (simp add: run_pins_def)
  ultimately show ?thesis
    using trace_usage [OF assms(1)] by (auto simp: run_valid_def usage_valid_def limits_valid_def)
qed

theorem budget_monotone_and_bounded_witness:
  "StepCount (Usage sample_answered) \<le> MaxSteps (Limits sample_run)"
  using budget_monotone_and_bounded [OF sample_answer_trace sample_run_valid] by simp

text \<open>Terminal states are final: \<open>Apply\<close> refuses every transition of a terminal run, and
  the only step left to any terminal run is the expiry of a clarification, which changes
  nothing but the state, the completion code and the version.\<close>

theorem terminal_runs_only_expire:
  assumes "Terminal c" and "run_step uuid_ok c n"
  shows "RunStateOf c = StateClarificationRequired \<and> RunStateOf n = StateClarificationExpired \<and>
    Hashes n = Hashes c \<and> Usage n = Usage c \<and> RunDisposition n = RunDisposition c \<and>
    CompletionArtifact n = CompletionArtifact c \<and> CompletedAt n = CompletedAt c"
  using assms(2)
proof (cases rule: run_step.cases)
  case (apply_step now t)
  then show ?thesis using Apply_nonterminal assms(1) by blast
next
  case (expire_step now)
  then show ?thesis using expire_facts [OF expire_step(2)] by simp
qed

definition sample_clarified :: Run where
  "sample_clarified = sample_run\<lparr> RunStateOf := StateClarificationRequired,
     RunDisposition := DispositionClarify, CompletionCode := ''AMBIGUOUS'',
     CompletionArtifact := sample_hash CHR ''8'', CompletedAt := Some 5,
     ClarificationDeadline := Some 100, BudgetFrozenAt := Some 5,
     BudgetConsumed := Some zero_usage \<rparr>"

lemma sample_clarified_valid: "run_valid uuid_shape sample_clarified"
  by code_simp

lemma sample_clarified_state: "RunStateOf sample_clarified = StateClarificationRequired"
  by (simp add: sample_clarified_def)

theorem terminal_runs_only_expire_witness:
  "\<exists>n. run_step uuid_shape sample_clarified n \<and> RunStateOf n = StateClarificationExpired"
proof -
  obtain n where n: "expire_clarification sample_clarified 100 = Some n"
    by (simp add: expire_clarification_def ClarificationExpired_def sample_clarified_def last_version_def sample_run_def new_run_def)
  have t: "Terminal sample_clarified" by (simp add: Terminal_def sample_clarified_def)
  have s: "run_step uuid_shape sample_clarified n"
    using sample_clarified_valid n by (rule expire_step)
  show ?thesis using terminal_runs_only_expire [OF t s] s by blast
qed

text \<open>C5: Failing closed is possible up to the last record version: a valid run that is not
  terminal can be moved to BLOCKED without spending budget, with any completion code and
  artifact hash, exactly when its record version is not the largest int64.\<close>

theorem live_runs_can_be_blocked:
  assumes v: "run_valid uuid_ok c" and t: "\<not> Terminal c"
    and code: "completion_code_ok code" and h: "valid_hash h"
  shows "(\<exists>n. Apply uuid_ok now c (terminal_move c StateBlocked (Usage c) code h) = Inr n \<and>
      RunStateOf n = StateBlocked \<and> RunDisposition n = DispositionRefuse \<and> Usage n = Usage c \<and>
      CompletionCode n = code \<and> CompletionArtifact n = h) \<longleftrightarrow> sint (RecordVersion c) \<noteq> 2 ^ 63 - 1"
proof -
  have "False" if "Apply uuid_ok now c (terminal_move c StateBlocked (Usage c) code h) = Inr n" "last_version c" for n
    using Apply_valid [OF that(1)] Apply_version(2) [OF that(1)] that(2) next_version [of "RecordVersion c"]
    by (simp add: run_valid_def last_version_def)
  moreover
  have "CanTransition (RunStateOf c) StateBlocked"
    using v t by (intro CanTransition_Blocked) (auto simp: run_valid_def isTerminalState_def Terminal_def)
  moreover have "usage_valid (Usage c) (Limits c)" using v by (simp add: run_valid_def)
  ultimately show ?thesis
    using Apply_terminal_move [OF v t, of StateBlocked "Usage c" now code h] code h
    by (auto simp: monotonicFrom_refl refusing_def last_version_def)
qed

lemma sample_version: "sint (RecordVersion sample_run) \<noteq> 2 ^ 63 - 1"
  by (simp add: sample_run_def new_run_def)

theorem live_runs_can_be_blocked_witness:
  "\<exists>n. Apply uuid_shape 7 sample_run
       (terminal_move sample_run StateBlocked (Usage sample_run) ''POLICY_DENIED'' (sample_hash CHR ''e''))
     = Inr n \<and> RunStateOf n = StateBlocked"
proof -
  have "\<not> Terminal sample_run" by (simp add: Terminal_def sample_run_def new_run_def)
  moreover have "completion_code_ok ''POLICY_DENIED''" "valid_hash (sample_hash CHR ''e'')"
    by code_simp+
  ultimately show ?thesis
    using live_runs_can_be_blocked [OF sample_run_valid, of "''POLICY_DENIED''"] sample_version by blast
qed

text \<open>Of a run waiting for clarification at time \<open>now\<close>: before the deadline it can be
  resumed with a fresh budget and is not expired, after it the reverse; exactly at the
  deadline both the resumption and the expiry are accepted.\<close>

theorem clarification_deadline_cases:
  assumes "run_valid uuid_ok r" and "RunStateOf r = StateClarificationRequired"
    and "now \<noteq> 0" and "ClarificationDeadline r = Some d"
  shows "(now < d \<longrightarrow> ResumeBudget uuid_ok r now = Inr zero_usage \<and> \<not> ClarificationExpired r now)
    \<and> (now > d \<longrightarrow> ResumeBudget uuid_ok r now = Inl ErrClarificationExpired \<and>
         ClarificationExpired r now)
    \<and> (now = d \<longrightarrow> ResumeBudget uuid_ok r now = Inr zero_usage \<and> ClarificationExpired r now)"
proof -
  have "BudgetConsumed r \<noteq> None"
    using assms(1,2) by (auto simp: run_valid_def clarification_snapshot_valid_def
        split: option.splits)
  with assms show ?thesis by (auto simp: ResumeBudget_def ClarificationExpired_def)
qed

theorem clarification_deadline_cases_witness:
  "ResumeBudget uuid_shape sample_clarified 100 = Inr zero_usage \<and>
   ClarificationExpired sample_clarified 100"
proof -
  have "ClarificationDeadline sample_clarified = Some 100" by (simp add: sample_clarified_def)
  then show ?thesis
    using clarification_deadline_cases
      [OF sample_clarified_valid sample_clarified_state, of 100 100] by simp
qed

end
