(* ===== verification/CircuitBreaker.thy ===== *)
theory CircuitBreaker imports Prelude "HOL-Library.Word" begin

text \<open>
  The graph circuit breaker and its degradation metric:
  \<open>internal/askdata/graph/circuit.go\<close>. The breaker's methods hold its mutex, so a method is
  one step; the clock \<open>breaker.now\<close> is read as an argument. A nil breaker is \<open>None\<close>.
  The counters of the metric are \<open>uint64\<close>, kept at their width; the model of \<open>Observe\<close> is
  the sequential one (its atomics are not read together by the code).
\<close>

section \<open>The breaker\<close>

record CircuitBreaker =
  failureThreshold :: int
  openDuration :: duration
  consecutive :: int
  openUntil :: go_time

definition newCircuitBreaker :: "int \<Rightarrow> duration \<Rightarrow> CircuitBreaker option" where
  "newCircuitBreaker threshold duration =
     (if threshold < 1 \<or> threshold > 100 \<or> duration \<le> 0 then None
      else Some \<lparr> failureThreshold = threshold, openDuration = duration,
                  consecutive = 0, openUntil = 0 \<rparr>)"

definition AllowPrimary :: "go_time \<Rightarrow> CircuitBreaker \<Rightarrow> bool \<times> CircuitBreaker" where
  "AllowPrimary now b =
     (if openUntil b = 0 then (True, b)
      else if now < openUntil b then (False, b)
      else (True, b\<lparr> openUntil := 0, consecutive := 0 \<rparr>))"

definition RecordSuccess :: "CircuitBreaker \<Rightarrow> CircuitBreaker" where
  "RecordSuccess b = b\<lparr> consecutive := 0, openUntil := 0 \<rparr>"

definition RecordFailure :: "go_time \<Rightarrow> CircuitBreaker \<Rightarrow> CircuitBreaker" where
  "RecordFailure now b =
     (if openUntil b \<noteq> 0 \<and> now < openUntil b then b
      else (let b' = b\<lparr> consecutive := consecutive b + 1 \<rparr> in
            if consecutive b' \<ge> failureThreshold b'
            then b'\<lparr> openUntil := now + openDuration b' \<rparr> else b'))"

text \<open>The methods as calls, each at its clock reading, and a run of calls.\<close>

datatype breaker_event = CallAllow go_time | CallSuccess | CallFailure go_time

fun breaker_call :: "CircuitBreaker \<Rightarrow> breaker_event \<Rightarrow> CircuitBreaker" where
  "breaker_call b (CallAllow now) = snd (AllowPrimary now b)"
| "breaker_call b CallSuccess = RecordSuccess b"
| "breaker_call b (CallFailure now) = RecordFailure now b"

fun call_time :: "breaker_event \<Rightarrow> go_time \<Rightarrow> bool" where
  "call_time (CallAllow now) t \<longleftrightarrow> now < t"
| "call_time CallSuccess t \<longleftrightarrow> False"
| "call_time (CallFailure now) t \<longleftrightarrow> now < t"

definition breaker_run :: "CircuitBreaker \<Rightarrow> breaker_event list \<Rightarrow> CircuitBreaker" where
  "breaker_run b cs = foldl breaker_call b cs"

lemma breaker_run_simps [simp]:
  "breaker_run b [] = b" "breaker_run b (c # cs) = breaker_run (breaker_call b c) cs"
  "breaker_run b (cs @ ds) = breaker_run (breaker_run b cs) ds"
  by (simp_all add: breaker_run_def)

lemmas breaker_defs = AllowPrimary_def RecordSuccess_def RecordFailure_def

text \<open>
  The invariant: the counter is non-negative, and the breaker holds an opening time
  exactly when the counter has reached the threshold. Every clock reading is after the
  zero time.
\<close>

definition breaker_inv :: "CircuitBreaker \<Rightarrow> bool" where
  "breaker_inv b \<longleftrightarrow> 1 \<le> failureThreshold b \<and> 0 < openDuration b \<and> 0 \<le> consecutive b \<and>
     (openUntil b \<noteq> 0 \<longleftrightarrow> failureThreshold b \<le> consecutive b) \<and> 0 \<le> openUntil b"

fun call_clock_ok :: "breaker_event \<Rightarrow> bool" where
  "call_clock_ok (CallAllow now) \<longleftrightarrow> 0 < now"
| "call_clock_ok CallSuccess \<longleftrightarrow> True"
| "call_clock_ok (CallFailure now) \<longleftrightarrow> 0 < now"

lemma breaker_inv_new: "newCircuitBreaker k d = Some b \<Longrightarrow> breaker_inv b"
  by (auto simp: newCircuitBreaker_def breaker_inv_def split: if_splits)

lemma breaker_inv_call: "breaker_inv b \<Longrightarrow> call_clock_ok c \<Longrightarrow> breaker_inv (breaker_call b c)"
  by (cases c) (auto simp: breaker_inv_def breaker_defs Let_def)

lemma breaker_inv_run:
  "breaker_inv b \<Longrightarrow> list_all call_clock_ok cs \<Longrightarrow> breaker_inv (breaker_run b cs)"
  by (induction cs arbitrary: b) (auto intro: breaker_inv_call)

lemma breaker_config_call:
  "failureThreshold (breaker_call b c) = failureThreshold b \<and>
   openDuration (breaker_call b c) = openDuration b"
  by (cases c) (auto simp: breaker_defs Let_def)

lemma breaker_config_run:
  "failureThreshold (breaker_run b cs) = failureThreshold b \<and>
   openDuration (breaker_run b cs) = openDuration b"
  by (induction cs arbitrary: b) (auto simp: breaker_config_call)

text \<open>An open breaker ignores every call made before it reopens, successes apart.\<close>

lemma open_breaker_call:
  "openUntil b \<noteq> 0 \<Longrightarrow> call_time c (openUntil b) \<Longrightarrow> breaker_call b c = b"
  by (cases c) (auto simp: breaker_defs)

lemma open_breaker_run:
  "openUntil b \<noteq> 0 \<Longrightarrow> \<forall>c\<in>set cs. call_time c (openUntil b) \<Longrightarrow> breaker_run b cs = b"
  by (induction cs) (auto simp: open_breaker_call)

text \<open>A closed breaker counts failures in a row.\<close>

lemma failures_count:
  assumes "openUntil b = 0" and "consecutive b + int (length ts) < failureThreshold b"
  shows "breaker_run b (map CallFailure ts) = b\<lparr> consecutive := consecutive b + int (length ts) \<rparr>"
  using assms
proof (induction ts arbitrary: b)
  case Nil
  then show ?case by simp
next
  case (Cons t ts)
  have "breaker_call b (CallFailure t) = b\<lparr> consecutive := consecutive b + 1 \<rparr>"
    using Cons.prems by (simp add: RecordFailure_def)
  moreover have "breaker_run (b\<lparr> consecutive := consecutive b + 1 \<rparr>) (map CallFailure ts)
      = b\<lparr> consecutive := consecutive b + 1 + int (length ts) \<rparr>"
    using Cons.IH [of "b\<lparr> consecutive := consecutive b + 1 \<rparr>"] Cons.prems by simp
  ultimately show ?case by (simp add: add.assoc add.commute)
qed

text \<open>C22: In every state reached from a new breaker the circuit is open exactly when as many
  failures as the threshold have been counted; fewer failures than the threshold never
  close off the primary store.\<close>

theorem breaker_opens_only_at_threshold:
  assumes "newCircuitBreaker k d = Some b0" and "list_all call_clock_ok cs"
  shows "(openUntil (breaker_run b0 cs) \<noteq> 0 \<longleftrightarrow> k \<le> consecutive (breaker_run b0 cs)) \<and>
    (consecutive (breaker_run b0 cs) < k \<longrightarrow> fst (AllowPrimary now (breaker_run b0 cs)))"
proof -
  have i: "breaker_inv (breaker_run b0 cs)"
    using breaker_inv_new [OF assms(1)] assms(2) by (rule breaker_inv_run)
  have "failureThreshold (breaker_run b0 cs) = k"
    using assms(1) breaker_config_run [of b0 cs]
    by (auto simp: newCircuitBreaker_def split: if_splits)
  with i show ?thesis by (auto simp: breaker_inv_def AllowPrimary_def)
qed

definition sample_breaker :: CircuitBreaker where
  "sample_breaker = \<lparr> failureThreshold = 3, openDuration = 30, consecutive = 0, openUntil = 0 \<rparr>"

theorem breaker_opens_only_at_threshold_witness:
  "openUntil (breaker_run sample_breaker [CallFailure 1, CallFailure 2, CallFailure 5]) \<noteq> 0"
proof -
  have n: "newCircuitBreaker 3 30 = Some sample_breaker"
    by (simp add: newCircuitBreaker_def sample_breaker_def)
  have c: "list_all call_clock_ok [CallFailure 1, CallFailure 2, CallFailure 5]" by simp
  have "consecutive (breaker_run sample_breaker [CallFailure 1, CallFailure 2, CallFailure 5]) = 3"
    by (simp add: sample_breaker_def RecordFailure_def)
  then show ?thesis
    using breaker_opens_only_at_threshold [OF n c] by simp
qed

text \<open>The failure that reaches the threshold opens the circuit for the configured time: a
  closed breaker refuses the primary from that failure until \<open>openDuration\<close> later whatever
  failures and probes come in between, and admits it again from then on, with the count of
  failures back at zero.\<close>

theorem breaker_open_window:
  assumes b: "newCircuitBreaker k d = Some b0"
    and ts: "int (length ts) = k - 1" and now: "0 < now"
    and cs: "\<forall>c\<in>set cs. call_time c (now + d)"
    and before: "t < now + d" and after: "now + d \<le> t'"
  defines "opened \<equiv> breaker_run b0 (map CallFailure ts @ CallFailure now # cs)"
  shows "\<not> fst (AllowPrimary t opened) \<and> fst (AllowPrimary t' opened) \<and>
    consecutive (snd (AllowPrimary t' opened)) = 0 \<and> openUntil (snd (AllowPrimary t' opened)) = 0"
proof -
  have conf: "failureThreshold b0 = k" "openDuration b0 = d" "consecutive b0 = 0" "openUntil b0 = 0"
    "0 < d" using b by (auto simp: newCircuitBreaker_def split: if_splits)
  have "breaker_run b0 (map CallFailure ts) = b0\<lparr> consecutive := k - 1 \<rparr>"
    using failures_count [of b0 ts] conf ts by simp
  then have "breaker_run b0 (map CallFailure ts @ [CallFailure now])
      = b0\<lparr> consecutive := k, openUntil := now + d \<rparr>"
    using conf by (simp add: RecordFailure_def Let_def)
  then have "opened = breaker_run (b0\<lparr> consecutive := k, openUntil := now + d \<rparr>) cs"
    by (simp add: opened_def)
  also have "\<dots> = b0\<lparr> consecutive := k, openUntil := now + d \<rparr>"
    using cs now conf by (intro open_breaker_run) auto
  finally have o: "opened = b0\<lparr> consecutive := k, openUntil := now + d \<rparr>" .
  show ?thesis using before after now conf by (simp add: o AllowPrimary_def)
qed

theorem breaker_open_window_witness:
  "\<not> fst (AllowPrimary 34 (breaker_run sample_breaker
      ([CallFailure 1, CallFailure 2, CallFailure 5, CallFailure 20, CallAllow 30])))"
proof -
  have n: "newCircuitBreaker 3 30 = Some sample_breaker"
    by (simp add: newCircuitBreaker_def sample_breaker_def)
  show ?thesis
    using breaker_open_window [OF n, of "[1, 2]" 5 "[CallFailure 20, CallAllow 30]" 34 35] by simp
qed

section \<open>The degradation rate\<close>

definition graphRateScale :: "64 word" where "graphRateScale = 1000000"

record GraphDegradationRate =
  Total :: "64 word"
  Degraded :: "64 word"
  RatePermillion :: "64 word"
  Alerting :: bool

record GraphDegradationMetrics =
  m_total :: "64 word"
  m_degraded :: "64 word"
  m_alerting :: bool
  alertThreshold :: "64 word"

definition NewGraphDegradationMetrics :: "64 word \<Rightarrow> GraphDegradationMetrics option" where
  "NewGraphDegradationMetrics threshold =
     (if threshold > graphRateScale then None
      else Some \<lparr> m_total = 0, m_degraded = 0, m_alerting = False, alertThreshold = threshold \<rparr>)"

definition Snapshot :: "GraphDegradationMetrics \<Rightarrow> GraphDegradationRate" where
  "Snapshot m = \<lparr> Total = m_total m, Degraded = m_degraded m,
     RatePermillion = (if m_total m > 0 then m_degraded m * graphRateScale div m_total m else 0),
     Alerting = m_alerting m \<rparr>"

text \<open>\<open>Observe\<close> returns the new metrics and the snapshot handed to the alert callback, if any.\<close>

definition Observe ::
  "bool \<Rightarrow> GraphDegradationMetrics \<Rightarrow> GraphDegradationMetrics \<times> GraphDegradationRate option" where
  "Observe degraded m =
     (let m1 = m\<lparr> m_total := m_total m + 1 \<rparr>;
          m2 = (if degraded then m1\<lparr> m_degraded := m_degraded m1 + 1 \<rparr> else m1);
          snapshot = Snapshot m2;
          shouldAlert = (Total snapshot > 0 \<and> RatePermillion snapshot > alertThreshold m2);
          previous = m_alerting m2
      in (m2\<lparr> m_alerting := shouldAlert \<rparr>,
          if shouldAlert \<and> \<not> previous then Some (snapshot\<lparr> Alerting := True \<rparr>) else None))"

text \<open>
  While fewer than \<open>2 ^ 44\<close> calls have been observed the multiplication does not wrap and
  the rate is the exact quotient.
\<close>

lemma Snapshot_rate:
  assumes "unat (m_total m) = n" and "unat (m_degraded m) = k" and "k \<le> n" and "n < 2 ^ 44" and "0 < n"
  shows "unat (RatePermillion (Snapshot m)) = k * 1000000 div n"
proof -
  have "k * 1000000 < 2 ^ 64"
  proof -
    have "k * 1000000 \<le> 2 ^ 44 * 1000000" using assms by simp
    also have "\<dots> < (2 :: nat) ^ 64" by simp
    finally show ?thesis .
  qed
  then have "unat (m_degraded m * graphRateScale) = k * 1000000"
    using assms(2) by (subst unat_mult_lem [THEN iffD1]) (simp_all add: graphRateScale_def)
  then show ?thesis
    using assms(1,5) by (auto simp: Snapshot_def unat_div_distrib word_less_nat_alt)
qed

text \<open>The metric's meaning: \<open>n\<close> calls observed, \<open>k\<close> of them degraded.\<close>

definition metrics_abs :: "GraphDegradationMetrics \<Rightarrow> nat \<Rightarrow> nat \<Rightarrow> bool" where
  "metrics_abs m n k \<longleftrightarrow> unat (m_total m) = n \<and> unat (m_degraded m) = k \<and> k \<le> n \<and>
     (m_alerting m \<longleftrightarrow> 0 < n \<and> k * 1000000 div n > unat (alertThreshold m))"

lemma unat_succ: "unat (w :: 64 word) = n \<Longrightarrow> n < 2 ^ 44 \<Longrightarrow> unat (w + 1) = n + 1"
proof -
  assume a: "unat w = n" "n < 2 ^ 44"
  then have "unat w + unat (1 :: 64 word) < 2 ^ LENGTH(64)" by simp
  with a show "unat (w + 1) = n + 1" by (subst unat_add_lem [THEN iffD1]) simp_all
qed

lemma Observe_counts:
  fixes d :: bool
  assumes "unat (m_total m) = n" and "unat (m_degraded m) = k" and "k \<le> n" and "n < 2 ^ 44 - 1"
  defines "k' \<equiv> (if d then k + 1 else k)"
  shows "metrics_abs (fst (Observe d m)) (n + 1) k'"
    and "alertThreshold (fst (Observe d m)) = alertThreshold m"
    and "snd (Observe d m) \<noteq> None \<longleftrightarrow> m_alerting (fst (Observe d m)) \<and> \<not> m_alerting m"
proof -
  define m2 where "m2 = m\<lparr> m_total := m_total m + 1,
    m_degraded := (if d then m_degraded m + 1 else m_degraded m) \<rparr>"
  have c: "unat (m_total m2) = n + 1" "unat (m_degraded m2) = k'"
    using assms(1-4) unat_succ [of "m_total m" n] unat_succ [of "m_degraded m" k]
    by (simp_all add: m2_def k'_def)
  have rate: "unat (RatePermillion (Snapshot m2)) = k' * 1000000 div (n + 1)"
    using c assms(3,4) by (intro Snapshot_rate) (simp_all add: k'_def)
  have total: "Total (Snapshot m2) > 0"
    using c by (simp add: Snapshot_def word_less_nat_alt)
  have obs: "Observe d m = (m2\<lparr> m_alerting := RatePermillion (Snapshot m2) > alertThreshold m \<rparr>,
      if RatePermillion (Snapshot m2) > alertThreshold m \<and> \<not> m_alerting m
      then Some ((Snapshot m2)\<lparr> Alerting := True \<rparr>) else None)"
    using total by (cases d) (simp_all add: Observe_def Let_def m2_def)
  show "metrics_abs (fst (Observe d m)) (n + 1) k'"
    using c assms(3) rate
    by (simp add: obs metrics_abs_def word_less_nat_alt m2_def k'_def)
  show "alertThreshold (fst (Observe d m)) = alertThreshold m"
    by (simp add: obs m2_def)
  show "snd (Observe d m) \<noteq> None \<longleftrightarrow> m_alerting (fst (Observe d m)) \<and> \<not> m_alerting m"
    by (simp add: obs)
qed

text \<open>Below \<open>2 ^ 44\<close> observed calls the degradation metric is exact: it counts the calls,
  it is alerting exactly when the share of degraded calls, in millionths rounded down,
  exceeds the threshold, and the alert callback runs exactly when that becomes true.\<close>

theorem degradation_alert_exact:
  assumes "metrics_abs m n k" and "n < 2 ^ 44 - 1"
  shows "metrics_abs (fst (Observe d m)) (n + 1) (if d then k + 1 else k) \<and>
    (snd (Observe d m) \<noteq> None \<longleftrightarrow>
       (if d then k + 1 else k) * 1000000 div (n + 1) > unat (alertThreshold m) \<and>
       \<not> (0 < n \<and> k * 1000000 div n > unat (alertThreshold m)))"
proof -
  have m: "unat (m_total m) = n" "unat (m_degraded m) = k" "k \<le> n"
    using assms(1) by (simp_all add: metrics_abs_def)
  note o = Observe_counts [OF m assms(2), of d]
  show ?thesis using o(1,3) assms(1) o(2) by (auto simp: metrics_abs_def)
qed

theorem degradation_alert_exact_witness:
  "snd (Observe True \<lparr> m_total = 9, m_degraded = 0, m_alerting = False, alertThreshold = 50000 \<rparr>)
     \<noteq> None"
proof -
  have a: "metrics_abs \<lparr> m_total = 9, m_degraded = 0, m_alerting = False, alertThreshold = 50000 \<rparr> 9 0"
    by (simp add: metrics_abs_def)
  show ?thesis using degradation_alert_exact [OF a, of True] by simp
qed

end
