(* ===== verification/Float64.thy ===== *)
theory Float64 imports Complex_Main Prelude begin

text \<open>
  IEEE 754 binary64 arithmetic on the values the program computes with: a finite
  \<open>float64\<close> is the rational it denotes, and every operation is the exact operation
  followed by \<open>fl64\<close>, rounding to the nearest of the numbers with a 53-bit significand,
  ties to even. Overflow to infinity and gradual underflow are outside the model: the
  program divides and multiplies quantities between about \<open>2 ^ -64\<close> and \<open>2 ^ 71\<close>.
\<close>

section \<open>Rounding\<close>

fun nat_bits :: "nat \<Rightarrow> nat" where
  "nat_bits n = (if n = 0 then 0 else Suc (nat_bits (n div 2)))"

declare nat_bits.simps [simp del]

lemma nat_bits_upper: "n < 2 ^ nat_bits n"
proof (induction n rule: nat_bits.induct)
  case (1 n)
  show ?case
  proof (cases "n = 0")
    case True
    then show ?thesis by (simp add: nat_bits.simps)
  next
    case False
    with 1 have "n div 2 < 2 ^ nat_bits (n div 2)" by blast
    then have "n < 2 * 2 ^ nat_bits (n div 2)" by linarith
    with False show ?thesis by (subst nat_bits.simps) simp
  qed
qed

lemma nat_bits_lower: "0 < n \<Longrightarrow> 2 ^ nat_bits n \<le> 2 * n"
proof (induction n rule: nat_bits.induct)
  case (1 n)
  show ?case
  proof (cases "n = 1")
    case True
    then show ?thesis by (simp add: nat_bits.simps)
  next
    case False
    with 1 have "2 ^ nat_bits (n div 2) \<le> 2 * (n div 2)" by (auto simp: Suc_lessI)
    then have "2 * 2 ^ nat_bits (n div 2) \<le> 2 * n" by linarith
    with 1 show ?thesis by (subst nat_bits.simps) simp
  qed
qed

definition round_half_even :: "rat \<Rightarrow> int" where
  "round_half_even y =
     (let f = \<lfloor>y\<rfloor>; d = y - of_int f in
      if d < 1 / 2 then f else if d > 1 / 2 then f + 1 else if even f then f else f + 1)"

text \<open>
  The exponent of the last significand bit of a positive rational: the significand
  \<open>y / 2 ^ e\<close> lies between \<open>2 ^ 52\<close> and \<open>2 ^ 53\<close>.
\<close>

definition fl64_exp :: "rat \<Rightarrow> int" where
  "fl64_exp y =
     (let (n, d) = quotient_of y;
          e = int (nat_bits (nat n)) - int (nat_bits (nat d))
      in if y < 2 powi e then e - 53 else e - 52)"

definition fl64_pos :: "rat \<Rightarrow> rat" where
  "fl64_pos y = (let u = 2 powi fl64_exp y in of_int (round_half_even (y / u)) * u)"

definition fl64 :: "rat \<Rightarrow> rat" where
  "fl64 x = (if x = 0 then 0 else if x < 0 then - fl64_pos (- x) else fl64_pos x)"

definition fl_of_int :: "int \<Rightarrow> rat" where "fl_of_int n = fl64 (of_int n)"
definition fl_add :: "rat \<Rightarrow> rat \<Rightarrow> rat" where "fl_add a b = fl64 (a + b)"
definition fl_sub :: "rat \<Rightarrow> rat \<Rightarrow> rat" where "fl_sub a b = fl64 (a - b)"
definition fl_mult :: "rat \<Rightarrow> rat \<Rightarrow> rat" where "fl_mult a b = fl64 (a * b)"
definition fl_div :: "rat \<Rightarrow> rat \<Rightarrow> rat" where "fl_div a b = fl64 (a / b)"

text \<open>Conversion of a \<open>float64\<close> to an integer truncates toward zero.\<close>

definition fl_to_int :: "rat \<Rightarrow> int" where
  "fl_to_int x = (if x < 0 then - \<lfloor>- x\<rfloor> else \<lfloor>x\<rfloor>)"

section \<open>Rounding error\<close>

lemma round_half_even_error: "\<bar>of_int (round_half_even y) - y\<bar> \<le> 1 / 2"
proof -
  define f where "f = \<lfloor>y\<rfloor>"
  have "of_int f \<le> y" "y < of_int f + 1"
    using floor_correct [of y] by (simp_all add: f_def)
  then show ?thesis by (auto simp: round_half_even_def Let_def f_def [symmetric] abs_if)
qed

lemma fl64_exp_lower:
  assumes "0 < y"
  shows "2 ^ 52 * 2 powi fl64_exp y \<le> y"
proof -
  obtain n d where q: "quotient_of y = (n, d)" by (cases "quotient_of y")
  then have d0: "0 < d" and y: "y = of_int n / of_int d"
    by (simp_all add: quotient_of_denom_pos quotient_of_div)
  with assms have n0: "0 < n" by (simp add: zero_less_divide_iff)
  define a b where "a = nat_bits (nat n)" and "b = nat_bits (nat d)"
  define e where "e = int a - int b"
  have "2 ^ a \<le> 2 * nat n" "nat d < 2 ^ b"
    using n0 d0 by (simp_all add: a_def b_def nat_bits_lower nat_bits_upper)
  then have i: "2 ^ a \<le> 2 * n" "d \<le> 2 ^ b"
    using n0 d0 by (simp_all add: nat_le_iff nat_less_iff flip: of_nat_le_iff [where 'a = int])
  have r: "(2 :: rat) ^ a \<le> 2 * of_int n" "of_int d \<le> (2 :: rat) ^ b"
    using i(1) i(2)
    by (metis of_int_le_iff of_int_mult of_int_numeral of_int_power)+
  have pe: "(2 :: rat) powi e = 2 ^ a / 2 ^ b"
    by (simp add: e_def power_int_diff)
  have "(2 :: rat) ^ a / 2 ^ b \<le> 2 * of_int n / of_int d"
    using r d0 n0 by (intro frac_le) simp_all
  then have low: "2 powi e / 2 \<le> y" by (simp add: pe y)
  have ex: "fl64_exp y = (if y < 2 powi e then e - 53 else e - 52)"
    by (simp add: fl64_exp_def q e_def a_def b_def Let_def)
  show ?thesis
  proof (cases "y < 2 powi e")
    case True
    have "(2 :: rat) ^ 52 * 2 powi (e - 53) = 2 powi e / 2" by (simp add: power_int_diff)
    with True low ex show ?thesis by simp
  next
    case False
    have "(2 :: rat) ^ 52 * 2 powi (e - 52) = 2 powi e" by (simp add: power_int_diff)
    with False ex show ?thesis by simp
  qed
qed

text \<open>The relative error of one rounding is at most \<open>2 ^ -53\<close>.\<close>

lemma fl64_error:
  assumes "0 \<le> x"
  shows "x * (1 - 1 / 2 ^ 53) \<le> fl64 x" and "fl64 x \<le> x * (1 + 1 / 2 ^ 53)"
proof -
  have "\<bar>fl64 x - x\<bar> \<le> x / 2 ^ 53"
  proof (cases "x = 0")
    case True
    then show ?thesis by (simp add: fl64_def)
  next
    case False
    with assms have x0: "0 < x" by simp
    define u :: rat where "u = 2 powi fl64_exp x"
    have u0: "0 < u" by (simp add: u_def)
    have fl: "fl64 x = of_int (round_half_even (x / u)) * u"
      using x0 by (simp add: fl64_def fl64_pos_def u_def Let_def)
    have "fl64 x - x = (of_int (round_half_even (x / u)) - x / u) * u"
      using u0 by (simp add: fl algebra_simps)
    then have "\<bar>fl64 x - x\<bar> = \<bar>of_int (round_half_even (x / u)) - x / u\<bar> * u"
      using u0 by (simp add: abs_mult)
    also have "\<dots> \<le> 1 / 2 * u"
      using u0 round_half_even_error by (intro mult_right_mono) simp_all
    also have "\<dots> \<le> x / 2 ^ 53"
      using fl64_exp_lower [OF x0] by (simp add: u_def field_simps)
    finally show ?thesis .
  qed
  then have b: "fl64 x - x \<le> x / 2 ^ 53" "- (fl64 x - x) \<le> x / 2 ^ 53"
    by (rule abs_le_D1, rule abs_le_D2)
  show "x * (1 - 1 / 2 ^ 53) \<le> fl64 x" using b(2) by (simp add: right_diff_distrib)
  show "fl64 x \<le> x * (1 + 1 / 2 ^ 53)" using b(1) by (simp add: distrib_left)
qed

lemma fl64_nonneg:
  assumes "0 \<le> x"
  shows "0 \<le> fl64 x"
proof -
  have "0 \<le> x * (1 - 1 / 2 ^ 53)" using assms by simp
  also have "\<dots> \<le> fl64 x" by (rule fl64_error(1) [OF assms])
  finally show ?thesis .
qed

end
