(* ===== verification/Quota.thy ===== *)
theory Quota imports Prelude Float64 "HOL-Library.Signed_Division" "HOL-Library.Product_Lexorder" begin

text \<open>
  The quota decision of \<open>internal/askdata/observability/quota.go\<close>: one snapshot of usage
  and limits per tenant, domain, user and run is compared with the reservation of the
  request. Quantities are Go \<open>int64\<close> values: \<open>int\<close> with \<open>wrap64\<close> at every operation.
  The theory proves that on the validated input no operation overflows and the decision is
  the one the unbounded quantities give, whatever the order of the snapshots.
\<close>

section \<open>Data\<close>

definition quotaWarningNumerator :: int where "quotaWarningNumerator = 80"
definition quotaWarningDenominator :: int where "quotaWarningDenominator = 100"

datatype QuotaScope = QuotaScopeTenant | QuotaScopeDomain | QuotaScopeUser | QuotaScopeRun
  | OtherScope string

datatype QuotaPeriod = QuotaPeriodDay | QuotaPeriodMonth | QuotaPeriodRun | OtherPeriod string

datatype QuotaDimension = QuotaDimensionLLMTokens | QuotaDimensionRuns | QuotaDimensionCostCents

datatype QuotaStatus = QuotaAvailable | QuotaWarning | QuotaExceeded | QuotaRunCostExceeded

fun scope_name :: "QuotaScope \<Rightarrow> string" where
  "scope_name QuotaScopeTenant = ''TENANT''"
| "scope_name QuotaScopeDomain = ''DOMAIN''"
| "scope_name QuotaScopeUser = ''USER''"
| "scope_name QuotaScopeRun = ''RUN''"
| "scope_name (OtherScope s) = s"

fun period_name :: "QuotaPeriod \<Rightarrow> string" where
  "period_name QuotaPeriodDay = ''DAY''"
| "period_name QuotaPeriodMonth = ''MONTH''"
| "period_name QuotaPeriodRun = ''RUN''"
| "period_name (OtherPeriod s) = s"

fun dimension_name :: "QuotaDimension \<Rightarrow> string" where
  "dimension_name QuotaDimensionLLMTokens = ''LLM_TOKENS''"
| "dimension_name QuotaDimensionRuns = ''RUNS''"
| "dimension_name QuotaDimensionCostCents = ''COST_CENTS''"

record QuotaLimits =
  limLLMTokens :: "int option"
  limRuns :: "int option"
  limCostCents :: "int option"

record QuotaUsage =
  useLLMTokens :: int
  useRuns :: int
  useCostCents :: int

record QuotaSnapshot =
  snScope :: QuotaScope
  snScopeID :: ID
  snPeriod :: QuotaPeriod
  snLimits :: QuotaLimits
  snUsage :: QuotaUsage
  snResetAt :: go_time

record QuotaCheckRequest =
  rqTenantID :: ID
  rqDomainID :: ID
  rqActorID :: ID
  rqRunID :: ID
  rqReserve :: QuotaUsage
  rqCertifiedFastPath :: bool
  rqAt :: go_time

record QuotaLimiter =
  lmScope :: QuotaScope
  lmScopeID :: ID
  lmPeriod :: QuotaPeriod
  lmDimension :: QuotaDimension
  lmUsed :: int
  lmReserved :: int
  lmLimit :: int
  lmRemaining :: int
  lmPercentUsed :: int
  lmResetAt :: go_time
  lmExceeded :: bool

record QuotaDecision =
  qdStatus :: QuotaStatus
  qdAllowed :: bool
  qdFastPathBypass :: bool
  qdRequireClarification :: bool
  qdLimiters :: "QuotaLimiter list"

datatype quota_error = QuotaIdentityInvalid | QuotaRequestInvalid | QuotaScopeInvalid
  | QuotaPeriodInvalid | QuotaUsageInvalid | QuotaLimitInvalid | QuotaNoLimit
  | QuotaDuplicateSnapshot

section \<open>Validation\<close>

definition validateQuotaRequest :: "QuotaCheckRequest \<Rightarrow> quota_error option" where
  "validateQuotaRequest r =
     (if \<not> list_all valid_id [rqTenantID r, rqDomainID r, rqActorID r, rqRunID r]
      then Some QuotaIdentityInvalid
      else if rqAt r = 0 \<or> useLLMTokens (rqReserve r) < 0 \<or> useRuns (rqReserve r) < 0 \<or>
              useCostCents (rqReserve r) < 0
      then Some QuotaRequestInvalid
      else None)"

text \<open>The lookup in the literal map: a missing key gives the empty string.\<close>

definition expected_scope_id :: "QuotaCheckRequest \<Rightarrow> QuotaScope \<Rightarrow> ID" where
  "expected_scope_id r s = (case s of
     QuotaScopeTenant \<Rightarrow> rqTenantID r | QuotaScopeDomain \<Rightarrow> rqDomainID r
   | QuotaScopeUser \<Rightarrow> rqActorID r | QuotaScopeRun \<Rightarrow> rqRunID r | OtherScope _ \<Rightarrow> [])"

definition validateQuotaSnapshot ::
  "QuotaCheckRequest \<Rightarrow> QuotaSnapshot \<Rightarrow> quota_error option" where
  "validateQuotaSnapshot r s =
     (let expectedID = expected_scope_id r (snScope s);
          lims = [limLLMTokens (snLimits s), limRuns (snLimits s), limCostCents (snLimits s)]
      in if expectedID = [] \<or> snScopeID s \<noteq> expectedID \<or> \<not> valid_id (snScopeID s)
         then Some QuotaScopeInvalid
         else if (snScope s = QuotaScopeRun) \<noteq> (snPeriod s = QuotaPeriodRun) \<or>
             (snPeriod s \<noteq> QuotaPeriodDay \<and> snPeriod s \<noteq> QuotaPeriodMonth \<and> snPeriod s \<noteq> QuotaPeriodRun)
         then Some QuotaPeriodInvalid
         else if snResetAt s = 0 \<or> \<not> snResetAt s > rqAt r \<or> useLLMTokens (snUsage s) < 0 \<or>
             useRuns (snUsage s) < 0 \<or> useCostCents (snUsage s) < 0
         then Some QuotaUsageInvalid
         else if list_ex (\<lambda>l. case l of Some v \<Rightarrow> v \<le> 0 | None \<Rightarrow> False) lims
         then Some QuotaLimitInvalid
         else if list_all (\<lambda>l. l = None) lims then Some QuotaNoLimit
         else None)"

section \<open>Arithmetic\<close>

definition wouldReachLimit :: "int \<Rightarrow> int \<Rightarrow> int \<Rightarrow> bool" where
  "wouldReachLimit used reserved limit \<longleftrightarrow> used \<ge> limit \<or> reserved \<ge> wrap64 (limit - used)"

definition atLeastRatio :: "int \<Rightarrow> int \<Rightarrow> int \<Rightarrow> int \<Rightarrow> int \<Rightarrow> bool" where
  "atLeastRatio used reserved limit numerator denominator =
     (if used \<ge> limit \<or> reserved \<ge> wrap64 (limit - used) then True
      else (let projected = wrap64 (used + reserved);
                threshold = wrap64 (wrap64 (limit sdiv denominator) * numerator);
                threshold' = wrap64 (threshold +
                  wrap64 (wrap64 (wrap64 (wrap64 ((limit smod denominator) * numerator) + denominator) - 1)
                    sdiv denominator))
            in projected \<ge> threshold'))"

definition cappedPercent :: "int \<Rightarrow> int \<Rightarrow> int \<Rightarrow> int" where
  "cappedPercent used reserved limit =
     (if wouldReachLimit used reserved limit then 100
      else fl_to_int (fl_div (fl_mult (fl_of_int (wrap64 (used + reserved))) 100) (fl_of_int limit)))"

definition quotaScopeRank :: "QuotaScope \<Rightarrow> int" where
  "quotaScopeRank s = (case s of QuotaScopeRun \<Rightarrow> 4 | QuotaScopeUser \<Rightarrow> 3 | QuotaScopeDomain \<Rightarrow> 2
     | QuotaScopeTenant \<Rightarrow> 1 | OtherScope _ \<Rightarrow> 0)"

section \<open>The decision\<close>

definition appendQuotaLimiter :: "QuotaLimiter list \<Rightarrow> QuotaSnapshot \<Rightarrow> QuotaDimension \<Rightarrow>
    int \<Rightarrow> int \<Rightarrow> int option \<Rightarrow> QuotaLimiter list" where
  "appendQuotaLimiter destination s dimension used reserved limit = (case limit of
     None \<Rightarrow> destination
   | Some l \<Rightarrow>
      (if \<not> atLeastRatio used reserved l quotaWarningNumerator quotaWarningDenominator
       then destination
       else (let remaining = wrap64 (l - used);
                 remaining' = (if remaining < 0 then 0 else remaining)
             in destination @ [\<lparr> lmScope = snScope s, lmScopeID = snScopeID s,
                  lmPeriod = snPeriod s, lmDimension = dimension, lmUsed = used,
                  lmReserved = reserved, lmLimit = l, lmRemaining = remaining',
                  lmPercentUsed = cappedPercent used reserved l, lmResetAt = snResetAt s,
                  lmExceeded = wouldReachLimit used reserved l \<rparr>])))"

definition snapshot_key :: "QuotaSnapshot \<Rightarrow> string" where
  "snapshot_key s = scope_name (snScope s) @ [CHR 0x00] @ snScopeID s @ [CHR 0x00] @
     period_name (snPeriod s)"

definition snapshot_limiters ::
  "QuotaCheckRequest \<Rightarrow> QuotaLimiter list \<Rightarrow> QuotaSnapshot \<Rightarrow> QuotaLimiter list" where
  "snapshot_limiters r limiters s =
     (let l1 = appendQuotaLimiter limiters s QuotaDimensionLLMTokens
                 (useLLMTokens (snUsage s)) (useLLMTokens (rqReserve r)) (limLLMTokens (snLimits s));
          l2 = appendQuotaLimiter l1 s QuotaDimensionRuns
                 (useRuns (snUsage s)) (useRuns (rqReserve r)) (limRuns (snLimits s))
      in appendQuotaLimiter l2 s QuotaDimensionCostCents
           (useCostCents (snUsage s)) (useCostCents (rqReserve r)) (limCostCents (snLimits s)))"

text \<open>The loop of \<open>EvaluateQuota\<close> over the snapshots.\<close>

fun collect_limiters :: "QuotaCheckRequest \<Rightarrow> string set \<Rightarrow> QuotaLimiter list \<Rightarrow>
    QuotaSnapshot list \<Rightarrow> quota_error + QuotaLimiter list" where
  "collect_limiters r seen limiters [] = Inr limiters"
| "collect_limiters r seen limiters (s # ss) =
     (case validateQuotaSnapshot r s of
        Some e \<Rightarrow> Inl e
      | None \<Rightarrow>
         (let key = snapshot_key s in
          if key \<in> seen then Inl QuotaDuplicateSnapshot
          else collect_limiters r (insert key seen) (snapshot_limiters r limiters s) ss))"

definition limiter_before :: "QuotaLimiter \<Rightarrow> QuotaLimiter \<Rightarrow> bool" where
  "limiter_before a b =
     (if lmExceeded a \<noteq> lmExceeded b then lmExceeded a
      else if lmPercentUsed a \<noteq> lmPercentUsed b then lmPercentUsed a > lmPercentUsed b
      else if lmScope a \<noteq> lmScope b then quotaScopeRank (lmScope a) > quotaScopeRank (lmScope b)
      else dimension_name (lmDimension a) < dimension_name (lmDimension b))"

definition decide_quota :: "QuotaCheckRequest \<Rightarrow> QuotaLimiter list \<Rightarrow> QuotaDecision" where
  "decide_quota r limiters =
     (let decision = \<lparr> qdStatus = QuotaAvailable, qdAllowed = True, qdFastPathBypass = False,
                       qdRequireClarification = False, qdLimiters = limiters \<rparr>
      in if list_ex (\<lambda>l. lmExceeded l \<and> lmScope l = QuotaScopeRun \<and>
                         lmDimension l = QuotaDimensionCostCents) limiters
         then decision\<lparr> qdStatus := QuotaRunCostExceeded, qdAllowed := False,
                        qdRequireClarification := True \<rparr>
         else if list_ex lmExceeded limiters then
           (if rqCertifiedFastPath r
            then decision\<lparr> qdStatus := QuotaWarning, qdFastPathBypass := True \<rparr>
            else decision\<lparr> qdStatus := QuotaExceeded, qdAllowed := False \<rparr>)
         else if limiters \<noteq> [] then decision\<lparr> qdStatus := QuotaWarning \<rparr>
         else decision)"

definition EvaluateQuota ::
  "QuotaCheckRequest \<Rightarrow> QuotaSnapshot list \<Rightarrow> quota_error + QuotaDecision" where
  "EvaluateQuota r snapshots = (case validateQuotaRequest r of
     Some e \<Rightarrow> Inl e
   | None \<Rightarrow> (case collect_limiters r {} [] snapshots of
       Inl e \<Rightarrow> Inl e
     | Inr limiters \<Rightarrow> Inr (decide_quota r (sort_slice limiter_before limiters))))"

section \<open>The arithmetic is exact\<close>

lemma wouldReachLimit_exact:
  assumes "0 \<le> used" "in_int64 limit" "0 < limit" 
  shows "wouldReachLimit used reserved limit \<longleftrightarrow> used + reserved \<ge> limit \<or> used \<ge> limit"
proof (cases "used \<ge> limit")
  case True
  then show ?thesis by (simp add: wouldReachLimit_def)
next
  case False
  with assms have "in_int64 (limit - used)" by (auto simp: in_int64_def int64_min_def int64_max_def)
  then have "wrap64 (limit - used) = limit - used" by (rule wrap64_id)
  with False show ?thesis by (auto simp: wouldReachLimit_def)
qed

lemma sdiv_nonneg: "0 \<le> a \<Longrightarrow> 0 < b \<Longrightarrow> (a :: int) sdiv b = a div b"
  by (simp add: signed_divide_int_def sgn_if)

lemma smod_nonneg: "0 \<le> a \<Longrightarrow> 0 < b \<Longrightarrow> (a :: int) smod b = a mod b"
  by (simp add: signed_modulo_int_def sgn_if)

lemma ceiling_div_100: "(n + 99) div 100 \<le> (x :: int) \<longleftrightarrow> n \<le> 100 * x"
  by linarith

lemma threshold_exact:
  fixes p l :: int
  shows "p \<ge> l div 100 * 80 + (l mod 100 * 80 + 100 - 1) div 100 \<longleftrightarrow> p * 100 \<ge> l * 80"
proof -
  have "l * 80 = (100 * (l div 100) + l mod 100) * 80" by simp
  also have "\<dots> = 8000 * (l div 100) + l mod 100 * 80" by (simp only: distrib_right)
  finally have l: "l * 80 = 8000 * (l div 100) + l mod 100 * 80" .
  show ?thesis
    using ceiling_div_100 [of "l mod 100 * 80" "p - l div 100 * 80"] l by linarith
qed

lemma atLeastRatio_below:
  assumes "0 \<le> used" "0 \<le> reserved" "in_int64 limit" "0 < limit" "\<not> wouldReachLimit used reserved limit"
  shows "atLeastRatio used reserved limit 80 100 \<longleftrightarrow> used + reserved \<ge> limit div 100 * 80 + (limit mod 100 * 80 + 100 - 1) div 100"
proof -
  note False = assms(5)
  have lt: "used + reserved < limit" using assms wouldReachLimit_exact by auto
  have l: "limit \<le> 9223372036854775807" using assms(3) by (simp add: in_int64_def int64_max_def)
  have r: "wrap64 x = x" if "0 \<le> x" "x \<le> limit \<or> x \<le> 100000" for x
    using that l by (intro wrap64_id) (auto simp: in_int64_def int64_min_def int64_max_def)
  have d: "0 \<le> limit div 100" "limit div 100 \<le> limit" "limit div 100 * 80 \<le> limit"
    "0 \<le> limit mod 100" "limit mod 100 \<le> 99"
    using assms(4) by linarith+
  let ?c = "(limit mod 100 * 80 + 100 - 1) div 100"
  have c: "0 \<le> ?c" "?c \<le> 100000" "limit div 100 * 80 + ?c \<le> limit"
    using assms(4) threshold_exact [of limit limit] by (linarith, linarith, simp)
  have w: "wrap64 (limit div 100 * 80) = limit div 100 * 80" "wrap64 (limit mod 100 * 80) = limit mod 100 * 80"
    "wrap64 (limit mod 100 * 80 + 100) = limit mod 100 * 80 + 100" "wrap64 (limit mod 100 * 80 + 100 - 1) = limit mod 100 * 80 + 100 - 1"
    "wrap64 ?c = ?c" "wrap64 (limit div 100 * 80 + ?c) = limit div 100 * 80 + ?c" "wrap64 (used + reserved) = used + reserved"
    "wrap64 (limit div 100) = limit div 100"
    by (rule r; use d c lt assms(1,2) in linarith)+
  have s: "limit sdiv 100 = limit div 100" "limit smod 100 = limit mod 100" "(limit mod 100 * 80 + 100 - 1) sdiv 100 = ?c"
    using assms(4) d by (simp_all only: sdiv_nonneg smod_nonneg)
  have g: "\<not> (used \<ge> limit \<or> reserved \<ge> wrap64 (limit - used))" using False by (simp add: wouldReachLimit_def)
  show ?thesis unfolding atLeastRatio_def if_not_P [OF g] Let_def s w ..
qed

lemma atLeastRatio_exact:
  assumes "0 \<le> used" "0 \<le> reserved" "in_int64 limit" "0 < limit"
  shows "atLeastRatio used reserved limit quotaWarningNumerator quotaWarningDenominator \<longleftrightarrow>
    (used + reserved) * 100 \<ge> limit * 80"
proof (cases "wouldReachLimit used reserved limit")
  case True
  then have "atLeastRatio used reserved limit quotaWarningNumerator quotaWarningDenominator"
    by (auto simp: atLeastRatio_def wouldReachLimit_def)
  have "used + reserved \<ge> limit"
    using True assms wouldReachLimit_exact [of used limit reserved] by auto
  then have "limit * 100 \<le> (used + reserved) * 100" by (rule mult_right_mono) simp
  moreover have "limit * 80 \<le> limit * 100" using assms(4) by simp
  ultimately have "(used + reserved) * 100 \<ge> limit * 80" by (rule order_trans [rotated])
  with \<open>atLeastRatio _ _ _ _ _\<close> show ?thesis by simp
next
  case False
  then have "atLeastRatio used reserved limit 80 100 \<longleftrightarrow> used + reserved \<ge> limit div 100 * 80 + (limit mod 100 * 80 + 100 - 1) div 100"
    by (rule atLeastRatio_below [OF assms])
  also have "\<dots> \<longleftrightarrow> (used + reserved) * 100 \<ge> limit * 80" by (rule threshold_exact)
  finally show ?thesis by (simp add: quotaWarningNumerator_def quotaWarningDenominator_def)
qed

lemma cappedPercent_bounds:
  assumes "0 \<le> used" "0 \<le> reserved" "in_int64 limit" "0 < limit"
  shows "0 \<le> cappedPercent used reserved limit \<and> cappedPercent used reserved limit \<le> 100"
proof (cases "wouldReachLimit used reserved limit")
  case True
  then show ?thesis by (simp add: cappedPercent_def)
next
  case False
  then have lt: "used + reserved < limit" using assms wouldReachLimit_exact by auto
  define e :: rat where "e = 1 / 2 ^ 53"
  have e: "0 \<le> e" "e < 1" "100 * (1 + e) * (1 + e) * (1 + e) < 101 * (1 - e)"
    by (simp_all add: e_def)
  define p :: rat where "p = of_int (used + reserved)"
  define l :: rat where "l = of_int limit"
  have pl: "0 \<le> p" "p \<le> l" "0 < l"
    using assms lt by (simp_all add: p_def l_def flip: of_int_add)
  have w: "wrap64 (used + reserved) = used + reserved"
    using assms lt by (intro wrap64_id) (auto simp: in_int64_def int64_min_def int64_max_def)
  define a where "a = fl64 (fl64 p * 100)"
  define b where "b = fl64 l"
  have "fl64 p * 100 \<le> p * (1 + e) * 100"
    using fl64_error(2) [OF pl(1)] by (simp add: e_def)
  then have "fl64 p * 100 * (1 + e) \<le> p * (1 + e) * 100 * (1 + e)"
    using e(1) by (intro mult_right_mono) simp_all
  then have "a \<le> p * (1 + e) * 100 * (1 + e)"
    using fl64_error(2) [of "fl64 p * 100"] fl64_nonneg [OF pl(1)] unfolding a_def e_def
    by simp
  also have "\<dots> = p * (100 * (1 + e) * (1 + e))" by (simp add: mult_ac)
  also have "\<dots> \<le> l * (100 * (1 + e) * (1 + e))" using pl(2) e(1) by (intro mult_right_mono) simp_all
  finally have aub: "a \<le> l * (100 * (1 + e) * (1 + e))" .
  have a0: "0 \<le> a" using fl64_nonneg [OF pl(1)] by (simp add: a_def fl64_nonneg)
  have blb: "l * (1 - e) \<le> b" using fl64_error(1) [of l] pl by (simp add: b_def e_def)
  have "0 < l * (1 - e)" using pl(3) e(2) by simp
  with blb have b0: "0 < b" by linarith
  have "a * (1 + e) \<le> l * (100 * (1 + e) * (1 + e)) * (1 + e)"
    using aub e(1) by (intro mult_right_mono) simp_all
  also have "\<dots> = l * (100 * (1 + e) * (1 + e) * (1 + e))" by (simp add: mult_ac)
  also have "\<dots> < l * (101 * (1 - e))" using pl(3) e(3) by (rule mult_strict_left_mono [rotated])
  also have "\<dots> = 101 * (l * (1 - e))" by (simp only: mult_ac)
  also have "\<dots> \<le> 101 * b" using blb by (rule mult_left_mono) simp
  finally have "a / b * (1 + e) < 101" using b0 by (simp add: field_simps)
  moreover have "fl64 (a / b) \<le> a / b * (1 + e)"
    using fl64_error(2) [of "a / b"] a0 b0 by (simp add: e_def)
  ultimately have "fl64 (a / b) < 101" by linarith
  moreover have "0 \<le> fl64 (a / b)" using a0 b0 by (simp add: fl64_nonneg)
  moreover have "cappedPercent used reserved limit = fl_to_int (fl64 (a / b))"
    using False by (simp add: cappedPercent_def w fl_div_def fl_mult_def fl_of_int_def
        a_def b_def p_def l_def)
  ultimately show ?thesis by (simp add: fl_to_int_def floor_le_iff)
qed

section \<open>The specification\<close>

text \<open>
  The decision in terms of unbounded quantities. \<open>governed s d\<close> is the limit the snapshot
  sets on a dimension, \<open>demand r s d\<close> what would be used after the reservation.
\<close>

definition governed :: "QuotaSnapshot \<Rightarrow> QuotaDimension \<Rightarrow> int option" where
  "governed s d = (case d of QuotaDimensionLLMTokens \<Rightarrow> limLLMTokens (snLimits s)
     | QuotaDimensionRuns \<Rightarrow> limRuns (snLimits s) | QuotaDimensionCostCents \<Rightarrow> limCostCents (snLimits s))"

definition amount :: "QuotaUsage \<Rightarrow> QuotaDimension \<Rightarrow> int" where
  "amount u d = (case d of QuotaDimensionLLMTokens \<Rightarrow> useLLMTokens u
     | QuotaDimensionRuns \<Rightarrow> useRuns u | QuotaDimensionCostCents \<Rightarrow> useCostCents u)"

definition demand :: "QuotaCheckRequest \<Rightarrow> QuotaSnapshot \<Rightarrow> QuotaDimension \<Rightarrow> int" where
  "demand r s d = amount (snUsage s) d + amount (rqReserve r) d"

definition exhausts :: "QuotaCheckRequest \<Rightarrow> QuotaSnapshot \<Rightarrow> QuotaDimension \<Rightarrow> bool" where
  "exhausts r s d = (case governed s d of None \<Rightarrow> False | Some l \<Rightarrow> demand r s d \<ge> l)"

definition approaches :: "QuotaCheckRequest \<Rightarrow> QuotaSnapshot \<Rightarrow> QuotaDimension \<Rightarrow> bool" where
  "approaches r s d = (case governed s d of None \<Rightarrow> False | Some l \<Rightarrow> demand r s d * 100 \<ge> l * 80)"

definition dimensions :: "QuotaDimension list" where
  "dimensions = [QuotaDimensionLLMTokens, QuotaDimensionRuns, QuotaDimensionCostCents]"

definition quota_spec ::
  "QuotaCheckRequest \<Rightarrow> QuotaSnapshot set \<Rightarrow> QuotaStatus \<times> bool \<times> bool \<times> bool" where
  "quota_spec r S =
     (if \<exists>s\<in>S. snScope s = QuotaScopeRun \<and> exhausts r s QuotaDimensionCostCents
      then (QuotaRunCostExceeded, False, False, True)
      else if \<exists>s\<in>S. \<exists>d. exhausts r s d
      then (if rqCertifiedFastPath r then (QuotaWarning, True, True, False)
            else (QuotaExceeded, False, False, False))
      else if \<exists>s\<in>S. \<exists>d. approaches r s d then (QuotaWarning, True, False, False)
      else (QuotaAvailable, True, False, False))"

definition decision_abs :: "QuotaDecision \<Rightarrow> QuotaStatus \<times> bool \<times> bool \<times> bool" where
  "decision_abs d = (qdStatus d, qdAllowed d, qdFastPathBypass d, qdRequireClarification d)"

text \<open>The fields of a Go snapshot are \<open>int64\<close> values.\<close>

definition snapshot_int64 :: "QuotaSnapshot \<Rightarrow> bool" where
  "snapshot_int64 s \<longleftrightarrow> (\<forall>d. in_int64 (amount (snUsage s) d) \<and>
     (case governed s d of None \<Rightarrow> True | Some l \<Rightarrow> in_int64 l))"

text \<open>The limiter of one dimension, absent below the warning ratio.\<close>

definition limiter_of :: "QuotaCheckRequest \<Rightarrow> QuotaSnapshot \<Rightarrow> QuotaDimension \<Rightarrow> QuotaLimiter list" where
  "limiter_of r s d = appendQuotaLimiter [] s d (amount (snUsage s) d) (amount (rqReserve r) d) (governed s d)"

lemma appendQuotaLimiter_append:
  "appendQuotaLimiter dest s d u v l = dest @ appendQuotaLimiter [] s d u v l"
  by (simp add: appendQuotaLimiter_def Let_def split: option.splits)

lemma snapshot_limiters_append:
  "snapshot_limiters r dest s = dest @ concat (map (limiter_of r s) dimensions)"
  unfolding snapshot_limiters_def Let_def dimensions_def limiter_of_def
  by (simp add: governed_def amount_def
      appendQuotaLimiter_append [of dest] appendQuotaLimiter_append [of "dest @ _"]
      appendQuotaLimiter_append [of "appendQuotaLimiter _ _ _ _ _ _"])

lemma set_dimensions: "set dimensions = UNIV"
  using QuotaDimension.exhaust by (auto simp: dimensions_def)

text \<open>What validation establishes.\<close>

definition quota_nonneg :: "QuotaUsage \<Rightarrow> bool" where
  "quota_nonneg u \<longleftrightarrow> (\<forall>d. 0 \<le> amount u d)"

lemma quota_nonnegI:
  "0 \<le> useLLMTokens u \<Longrightarrow> 0 \<le> useRuns u \<Longrightarrow> 0 \<le> useCostCents u \<Longrightarrow> quota_nonneg u"
  by (simp add: quota_nonneg_def amount_def split: QuotaDimension.splits)

lemma validateQuotaRequest_None:
  "validateQuotaRequest r = None \<Longrightarrow> quota_nonneg (rqReserve r)"
  by (intro quota_nonnegI) (auto simp: validateQuotaRequest_def split: if_splits)

lemma validateQuotaSnapshot_None:
  assumes "validateQuotaSnapshot r s = None"
  shows "quota_nonneg (snUsage s)" and "governed s d = Some l \<Longrightarrow> 0 < l" and "\<exists>d. governed s d \<noteq> None"
proof -
  show "quota_nonneg (snUsage s)"
    using assms by (intro quota_nonnegI) (auto simp: validateQuotaSnapshot_def Let_def split: if_splits)
  show "governed s d = Some l \<Longrightarrow> 0 < l"
    using assms by (cases d) (auto simp: validateQuotaSnapshot_def Let_def governed_def split: if_splits)
  have "limLLMTokens (snLimits s) \<noteq> None \<or> limRuns (snLimits s) \<noteq> None \<or> limCostCents (snLimits s) \<noteq> None"
    using assms by (auto simp: validateQuotaSnapshot_def Let_def split: if_splits)
  then show "\<exists>d. governed s d \<noteq> None"
    unfolding governed_def by (metis QuotaDimension.simps(7,8,9))
qed

definition quota_ok :: "QuotaCheckRequest \<Rightarrow> QuotaSnapshot \<Rightarrow> bool" where
  "quota_ok r s \<longleftrightarrow> quota_nonneg (rqReserve r) \<and> validateQuotaSnapshot r s = None \<and> snapshot_int64 s"

lemma limiter_of_cases:
  assumes "quota_ok r s"
  shows "limiter_of r s d =
    (if approaches r s d then [\<lparr> lmScope = snScope s, lmScopeID = snScopeID s, lmPeriod = snPeriod s,
        lmDimension = d, lmUsed = amount (snUsage s) d, lmReserved = amount (rqReserve r) d,
        lmLimit = the (governed s d), lmRemaining = max 0 (the (governed s d) - amount (snUsage s) d),
        lmPercentUsed = cappedPercent (amount (snUsage s) d) (amount (rqReserve r) d) (the (governed s d)),
        lmResetAt = snResetAt s, lmExceeded = exhausts r s d \<rparr>] else [])"
proof (cases "governed s d")
  case None
  then show ?thesis by (simp add: limiter_of_def appendQuotaLimiter_def approaches_def)
next
  case (Some l)
  let ?u = "amount (snUsage s) d" and ?v = "amount (rqReserve r) d"
  have u: "0 \<le> ?u" "0 \<le> ?v" "0 < l" "in_int64 l" "in_int64 ?u"
    using assms Some validateQuotaSnapshot_None(1) [of r s] validateQuotaSnapshot_None(2) [of r s d l]
    by (auto simp: quota_ok_def quota_nonneg_def snapshot_int64_def split: option.splits)
  have "in_int64 (l - ?u)"
    using u by (auto simp: in_int64_def int64_min_def int64_max_def)
  then have w: "wrap64 (l - ?u) = l - ?u" by (rule wrap64_id)
  show ?thesis
    using Some atLeastRatio_exact [OF u(1,2,4,3)] wouldReachLimit_exact [OF u(1,4,3), of ?v] u(2)
    by (auto simp: limiter_of_def appendQuotaLimiter_def approaches_def exhausts_def demand_def w Let_def)
qed

lemma exhausts_approaches: "quota_ok r s \<Longrightarrow> exhausts r s d \<Longrightarrow> approaches r s d"
  using validateQuotaSnapshot_None(2) [of r s d]
  by (fastforce simp: exhausts_def approaches_def quota_ok_def split: option.splits)

lemma collect_limiters_Inr:
  "collect_limiters r seen acc ss = Inr ls \<Longrightarrow>
   ls = acc @ concat (map (\<lambda>s. concat (map (limiter_of r s) dimensions)) ss) \<and>
   (\<forall>s\<in>set ss. validateQuotaSnapshot r s = None) \<and>
   distinct (map snapshot_key ss) \<and> snapshot_key ` set ss \<inter> seen = {}"
proof (induction ss arbitrary: seen acc)
  case Nil
  then show ?case by simp
next
  case (Cons s ss)
  then have v: "validateQuotaSnapshot r s = None" "snapshot_key s \<notin> seen"
    and c: "collect_limiters r (insert (snapshot_key s) seen) (snapshot_limiters r acc s) ss = Inr ls"
    by (auto simp: Let_def split: option.splits if_splits)
  from Cons.IH [OF c] v show ?case by (auto simp: snapshot_limiters_append)
qed

lemma in_limiters:
  assumes "\<forall>s\<in>set ss. quota_ok r s"
  shows "l \<in> set (concat (map (\<lambda>s. concat (map (limiter_of r s) dimensions)) ss)) \<longleftrightarrow>
    (\<exists>s\<in>set ss. \<exists>d. approaches r s d \<and> limiter_of r s d = [l])"
proof -
  have "l \<in> set (limiter_of r s d) \<longleftrightarrow> approaches r s d \<and> limiter_of r s d = [l]" if "s \<in> set ss" for s d
    using assms that by (auto simp: limiter_of_cases)
  then show ?thesis by (auto simp: set_dimensions)
qed

lemma decide_quota_spec:
  assumes ok: "\<forall>s\<in>set ss. quota_ok r s"
    and ls: "set ls = set (concat (map (\<lambda>s. concat (map (limiter_of r s) dimensions)) ss))"
  shows "decision_abs (decide_quota r ls) = quota_spec r (set ss)"
proof -
  have mem: "l \<in> set ls \<longleftrightarrow> (\<exists>s\<in>set ss. \<exists>d. approaches r s d \<and> limiter_of r s d = [l])" for l
    using in_limiters [OF ok] ls by blast
  have single: "limiter_of r s d = [hd (limiter_of r s d)]" if "s \<in> set ss" "approaches r s d" for s d
    using ok that by (simp add: limiter_of_cases)
  have ex: "list_ex P ls \<longleftrightarrow> (\<exists>s\<in>set ss. \<exists>d. approaches r s d \<and> P (hd (limiter_of r s d)))" for P
    unfolding list_ex_iff Bex_def [of "set ls"] mem using single by (metis list.sel(1))
  have hd: "lmExceeded (hd (limiter_of r s d)) = exhausts r s d" "lmScope (hd (limiter_of r s d)) = snScope s"
    "lmDimension (hd (limiter_of r s d)) = d" if "s \<in> set ss" "approaches r s d" for s d
    using ok that by (simp_all add: limiter_of_cases)
  have ea: "exhausts r s d \<Longrightarrow> approaches r s d" if "s \<in> set ss" for s d
    using ok that exhausts_approaches by blast
  have run: "list_ex (\<lambda>l. lmExceeded l \<and> lmScope l = QuotaScopeRun \<and> lmDimension l = QuotaDimensionCostCents) ls
      \<longleftrightarrow> (\<exists>s\<in>set ss. snScope s = QuotaScopeRun \<and> exhausts r s QuotaDimensionCostCents)"
    unfolding ex using hd ea by (metis (no_types, lifting))
  have exc: "list_ex lmExceeded ls \<longleftrightarrow> (\<exists>s\<in>set ss. \<exists>d. exhausts r s d)"
    unfolding ex using hd ea by (metis (no_types, lifting))
  have "ls \<noteq> [] \<longleftrightarrow> (\<exists>l. l \<in> set ls)" by (cases ls) auto
  also have "\<dots> \<longleftrightarrow> (\<exists>s\<in>set ss. \<exists>d. approaches r s d)"
    using ok by (auto simp: mem limiter_of_cases)
  finally have app: "ls \<noteq> [] \<longleftrightarrow> (\<exists>s\<in>set ss. \<exists>d. approaches r s d)" .
  show ?thesis
    unfolding decide_quota_def quota_spec_def Let_def run exc app
    by (simp add: decision_abs_def)
qed

lemma EvaluateQuota_Inr:
  assumes "EvaluateQuota r ss = Inr d"
  obtains ls where "d = decide_quota r (sort_slice limiter_before ls)"
    and "ls = concat (map (\<lambda>s. concat (map (limiter_of r s) dimensions)) ss)"
    and "quota_nonneg (rqReserve r)" and "\<forall>s\<in>set ss. validateQuotaSnapshot r s = None"
    and "distinct (map snapshot_key ss)"
  using assms collect_limiters_Inr [of r "{}" "[]" ss] validateQuotaRequest_None [of r]
  by (auto simp: EvaluateQuota_def split: option.splits sum.splits)

text \<open>
  The comparison of \<open>sort.Slice\<close> is no strict weak order on unknown scopes, which validation
  excludes; on the others it compares a key. It ignores the period, so two limiters of
  one scope and dimension, one for the day and one for the month, may be tied.
\<close>

definition limiter_key :: "QuotaLimiter \<Rightarrow> bool \<times> int \<times> int \<times> string" where
  "limiter_key l = (\<not> lmExceeded l, - lmPercentUsed l, - quotaScopeRank (lmScope l),
     dimension_name (lmDimension l))"

lemma limiter_before_key:
  assumes "0 < quotaScopeRank (lmScope a)" and "0 < quotaScopeRank (lmScope b)"
  shows "limiter_before a b = lt_on limiter_key a b"
proof -
  have "quotaScopeRank (lmScope a) = quotaScopeRank (lmScope b) \<longleftrightarrow> lmScope a = lmScope b"
    using assms by (auto simp: quotaScopeRank_def split: QuotaScope.splits)
  then show ?thesis by (auto simp: limiter_before_def lt_on_def limiter_key_def less_prod_simp)
qed

lemma validated_scope_rank:
  "validateQuotaSnapshot r s = None \<Longrightarrow> 0 < quotaScopeRank (snScope s)"
  by (auto simp: validateQuotaSnapshot_def expected_scope_id_def quotaScopeRank_def Let_def
      split: QuotaScope.splits if_splits)

definition limiter_info :: "QuotaLimiter \<Rightarrow> QuotaScope \<times> QuotaPeriod \<times> QuotaDimension \<times> bool" where
  "limiter_info l = (lmScope l, lmPeriod l, lmDimension l, lmExceeded l)"

definition limiter_ok :: "QuotaLimiter \<Rightarrow> bool" where
  "limiter_ok l \<longleftrightarrow> 0 \<le> lmRemaining l \<and> lmRemaining l \<le> lmLimit l \<and>
     0 \<le> lmPercentUsed l \<and> lmPercentUsed l \<le> 100"

text \<open>The governed dimensions at or above the warning ratio, in the order of the loop.\<close>

definition warned :: "QuotaCheckRequest \<Rightarrow> QuotaSnapshot list \<Rightarrow>
    (QuotaScope \<times> QuotaPeriod \<times> QuotaDimension \<times> bool) list" where
  "warned r ss = concat (map (\<lambda>s. map (\<lambda>k. (snScope s, snPeriod s, k, exhausts r s k))
     (filter (approaches r s) dimensions)) ss)"

lemma limiter_of_info:
  assumes "quota_ok r s"
  shows "map limiter_info (limiter_of r s k) =
      (if approaches r s k then [(snScope s, snPeriod s, k, exhausts r s k)] else [])"
    and "l \<in> set (limiter_of r s k) \<Longrightarrow> limiter_ok l"
    and "l \<in> set (limiter_of r s k) \<Longrightarrow> lmScope l = snScope s"
proof -
  show "map limiter_info (limiter_of r s k) =
      (if approaches r s k then [(snScope s, snPeriod s, k, exhausts r s k)] else [])"
    by (simp add: limiter_of_cases [OF assms] limiter_info_def)
  show "l \<in> set (limiter_of r s k) \<Longrightarrow> lmScope l = snScope s"
    by (auto simp: limiter_of_cases [OF assms] split: if_splits)
  assume l: "l \<in> set (limiter_of r s k)"
  then have a: "approaches r s k" by (simp add: limiter_of_cases [OF assms] split: if_splits)
  then obtain v where v: "governed s k = Some v" by (auto simp: approaches_def split: option.splits)
  have "0 < v" "in_int64 v" "0 \<le> amount (snUsage s) k" "0 \<le> amount (rqReserve r) k"
    using assms v validateQuotaSnapshot_None(1) [of r s] validateQuotaSnapshot_None(2) [of r s k v]
    by (auto simp: quota_ok_def quota_nonneg_def snapshot_int64_def split: option.splits)
  then show "limiter_ok l"
    using l a v cappedPercent_bounds [of "amount (snUsage s) k" "amount (rqReserve r) k" v]
    by (auto simp: limiter_of_cases [OF assms] limiter_ok_def)
qed

lemma limiters_of_snapshot_info:
  assumes "quota_ok r s"
  shows "map limiter_info (concat (map (limiter_of r s) ks)) =
    map (\<lambda>k. (snScope s, snPeriod s, k, exhausts r s k)) (filter (approaches r s) ks)"
  by (induction ks) (simp_all add: limiter_of_info(1) [OF assms])

lemma warned_limiters:
  "\<forall>s\<in>set ss. quota_ok r s \<Longrightarrow>
   map limiter_info (concat (map (\<lambda>s. concat (map (limiter_of r s) dimensions)) ss)) = warned r ss"
  by (induction ss) (simp_all add: limiters_of_snapshot_info warned_def)

section \<open>Properties\<close>

text \<open>C23: The quota decision is exact on \<open>int64\<close> input: no operation of the check overflows,
  and the status, the permission, the fast-path bypass and the clarification flag are those
  the specification derives from the unbounded quantities and the set of snapshots, so the
  order of the snapshots does not matter.\<close>

theorem quota_decision_exact:
  assumes "EvaluateQuota r ss = Inr d" and "\<forall>s\<in>set ss. snapshot_int64 s"
  shows "decision_abs d = quota_spec r (set ss)"
proof -
  obtain ls where d: "d = decide_quota r (sort_slice limiter_before ls)"
    and ls: "ls = concat (map (\<lambda>s. concat (map (limiter_of r s) dimensions)) ss)"
    and "quota_nonneg (rqReserve r)" "\<forall>s\<in>set ss. validateQuotaSnapshot r s = None"
    using assms(1) by (rule EvaluateQuota_Inr)
  with assms(2) have "\<forall>s\<in>set ss. quota_ok r s" by (simp add: quota_ok_def)
  then show ?thesis unfolding d by (rule decide_quota_spec) (simp add: ls)
qed

text \<open>The limiters a decision reports are exactly the governed dimensions at or above the
  warning ratio, exceeded ones first, then by percentage, then by scope. In each the
  remaining amount is never negative and the display percentage, computed in floating
  point, lies between 0 and 100.\<close>

theorem quota_limiters_complete:
  assumes "EvaluateQuota r ss = Inr d" and "\<forall>s\<in>set ss. snapshot_int64 s"
  shows "mset (map limiter_info (qdLimiters d)) = mset (warned r ss) \<and>
    (\<forall>l\<in>set (qdLimiters d). limiter_ok l) \<and> sorted_by (lt_on limiter_key) (qdLimiters d)"
proof -
  obtain ls where d: "d = decide_quota r (sort_slice limiter_before ls)"
    and ls: "ls = concat (map (\<lambda>s. concat (map (limiter_of r s) dimensions)) ss)"
    and v: "quota_nonneg (rqReserve r)" "\<forall>s\<in>set ss. validateQuotaSnapshot r s = None"
    using assms(1) by (rule EvaluateQuota_Inr)
  with assms(2) have ok: "\<forall>s\<in>set ss. quota_ok r s" by (simp add: quota_ok_def)
  have sc: "0 < quotaScopeRank (lmScope l)" if "l \<in> set ls" for l
    using that ok v(2) limiter_of_info(3) validated_scope_rank by (fastforce simp: ls)
  have q: "qdLimiters d = sort_slice (lt_on limiter_key) ls"
    unfolding d using sort_slice_cong [of ls limiter_before "lt_on limiter_key"] limiter_before_key sc
    by (simp add: decide_quota_def Let_def)
  have "mset (map limiter_info (qdLimiters d)) = mset (warned r ss)"
    unfolding q using warned_limiters [OF ok] by (metis ls mset_map mset_sort_slice)
  moreover have "\<forall>l\<in>set (qdLimiters d). limiter_ok l"
    unfolding q using ok limiter_of_info(2) by (fastforce simp: ls)
  ultimately show ?thesis unfolding q using key_order.sorted_by_sort_slice by blast
qed

text \<open>
  A run that has used 70 of 100 tokens and 90 of 100 cents, reserving 10 of each: the run
  cost is exhausted, so the decision asks for clarification, on the fast path too.
\<close>

definition sample_request :: QuotaCheckRequest where
  "sample_request = \<lparr> rqTenantID = ''t'', rqDomainID = ''d'', rqActorID = ''a'', rqRunID = ''r'',
     rqReserve = \<lparr> useLLMTokens = 10, useRuns = 0, useCostCents = 10 \<rparr>,
     rqCertifiedFastPath = True, rqAt = 1 \<rparr>"

definition sample_snapshot :: QuotaSnapshot where
  "sample_snapshot = \<lparr> snScope = QuotaScopeRun, snScopeID = ''r'', snPeriod = QuotaPeriodRun,
     snLimits = \<lparr> limLLMTokens = Some 100, limRuns = None, limCostCents = Some 100 \<rparr>,
     snUsage = \<lparr> useLLMTokens = 70, useRuns = 0, useCostCents = 90 \<rparr>, snResetAt = 2 \<rparr>"

lemma sample_quota: "\<exists>d. EvaluateQuota sample_request [sample_snapshot] = Inr d"
proof -
  have "validateQuotaRequest sample_request = None"
    by (simp add: sample_request_def validateQuotaRequest_def valid_id_def alnum_def char_between_def)
  moreover have "validateQuotaSnapshot sample_request sample_snapshot = None"
    by (simp add: sample_request_def sample_snapshot_def validateQuotaSnapshot_def Let_def
        expected_scope_id_def valid_id_def alnum_def char_between_def)
  ultimately show ?thesis by (simp add: EvaluateQuota_def Let_def)
qed

lemma sample_int64: "\<forall>s\<in>set [sample_snapshot]. snapshot_int64 s"
  by (simp add: snapshot_int64_def governed_def amount_def sample_snapshot_def in_int64_def
      int64_min_def int64_max_def split: QuotaDimension.splits option.splits)

theorem quota_decision_exact_witness:
  "\<exists>d. EvaluateQuota sample_request [sample_snapshot] = Inr d \<and>
     decision_abs d = (QuotaRunCostExceeded, False, False, True)"
proof -
  obtain d where d: "EvaluateQuota sample_request [sample_snapshot] = Inr d"
    using sample_quota by blast
  have "exhausts sample_request sample_snapshot QuotaDimensionCostCents"
    by (simp add: exhausts_def governed_def demand_def amount_def sample_request_def sample_snapshot_def)
  moreover have "snScope sample_snapshot = QuotaScopeRun" by (simp add: sample_snapshot_def)
  ultimately have "quota_spec sample_request (set [sample_snapshot]) = (QuotaRunCostExceeded, False, False, True)"
    by (simp add: quota_spec_def)
  with quota_decision_exact [OF d sample_int64] d show ?thesis by auto
qed

theorem quota_limiters_complete_witness:
  "\<exists>d. EvaluateQuota sample_request [sample_snapshot] = Inr d \<and>
     mset (map limiter_info (qdLimiters d)) =
       {#(QuotaScopeRun, QuotaPeriodRun, QuotaDimensionLLMTokens, False),
         (QuotaScopeRun, QuotaPeriodRun, QuotaDimensionCostCents, True)#} \<and>
     (\<forall>l\<in>set (qdLimiters d). limiter_ok l)"
proof -
  obtain d where d: "EvaluateQuota sample_request [sample_snapshot] = Inr d"
    using sample_quota by blast
  have "warned sample_request [sample_snapshot] =
      [(QuotaScopeRun, QuotaPeriodRun, QuotaDimensionLLMTokens, False),
       (QuotaScopeRun, QuotaPeriodRun, QuotaDimensionCostCents, True)]"
    by (simp add: warned_def dimensions_def approaches_def exhausts_def governed_def demand_def
        amount_def sample_request_def sample_snapshot_def)
  with quota_limiters_complete [OF d sample_int64] d show ?thesis by auto
qed

end
