(* ===== verification/RunBudget.thy ===== *)
theory RunBudget imports RunInvariants Quota begin

text \<open>
  The budgets of question runs, \<open>internal/askdata/orchestrator/budget.go\<close>: the governed
  default per budget class, domain overrides (\<open>internal/config/askdata.go\<close>), and the two
  ways a run is stopped for its budget. The theory proves that every budget the catalog
  resolves is within the governed bounds, and that a termination the functions build is
  one \<open>Apply\<close> accepts.

  The JSON payload of a completion artifact is the value that is marshalled
  (\<open>TerminationPayload\<close>); \<open>json.Marshal\<close> fails on it only for a time outside the years 0 to
  9999.
\<close>

section \<open>Budgets\<close>

datatype RunType = RunTypeSingleQuery | RunTypeBundle | RunTypeDefinition | NoRunType

datatype RunBudgetClass = BudgetClassSingleQueryFast | BudgetClassSingleQueryComplex
  | BudgetClassBundle | BudgetClassDefinition | OtherBudgetClass string

definition RunCostExceededCompletionCode :: string where
  "RunCostExceededCompletionCode = ''RUN_COST_EXCEEDED''"

record RunBudget =
  rbRunType :: RunType
  rbBudgetClass :: RunBudgetClass
  rbMaxLLMCalls :: int
  rbMaxToolCalls :: int
  rbMaxPrimaryQueries :: int
  rbMaxValidationQueries :: int
  rbMaxCandidateCompares :: int
  rbMaxJoinHops :: int
  rbHardTimeout :: duration
  rbP95Target :: duration
  rbMaxConcurrentPlans :: int

definition second :: duration where "second = 1000000000"
definition millisecond :: duration where "millisecond = 1000000"

definition DefaultRunBudget :: "RunBudgetClass \<Rightarrow> run_error + RunBudget" where
  "DefaultRunBudget class = (case class of
     BudgetClassSingleQueryFast \<Rightarrow> Inr
       \<lparr> rbRunType = RunTypeSingleQuery, rbBudgetClass = class, rbMaxLLMCalls = 4,
         rbMaxToolCalls = 6, rbMaxPrimaryQueries = 1, rbMaxValidationQueries = 1,
         rbMaxCandidateCompares = 2, rbMaxJoinHops = 4, rbHardTimeout = 60 * second,
         rbP95Target = 30 * second, rbMaxConcurrentPlans = 0 \<rparr>
   | BudgetClassSingleQueryComplex \<Rightarrow> Inr
       \<lparr> rbRunType = RunTypeSingleQuery, rbBudgetClass = class, rbMaxLLMCalls = 16,
         rbMaxToolCalls = 16, rbMaxPrimaryQueries = 2, rbMaxValidationQueries = 3,
         rbMaxCandidateCompares = 2, rbMaxJoinHops = 4, rbHardTimeout = 10 * minute,
         rbP95Target = 5 * minute, rbMaxConcurrentPlans = 0 \<rparr>
   | BudgetClassBundle \<Rightarrow> Inr
       \<lparr> rbRunType = RunTypeBundle, rbBudgetClass = class, rbMaxLLMCalls = 8,
         rbMaxToolCalls = 16, rbMaxPrimaryQueries = 6, rbMaxValidationQueries = 2,
         rbMaxCandidateCompares = 2, rbMaxJoinHops = 4, rbHardTimeout = 5 * minute,
         rbP95Target = 3 * minute, rbMaxConcurrentPlans = 4 \<rparr>
   | BudgetClassDefinition \<Rightarrow> Inr
       \<lparr> rbRunType = RunTypeDefinition, rbBudgetClass = class, rbMaxLLMCalls = 2,
         rbMaxToolCalls = 4, rbMaxPrimaryQueries = 0, rbMaxValidationQueries = 0,
         rbMaxCandidateCompares = 0, rbMaxJoinHops = 0, rbHardTimeout = 30 * second,
         rbP95Target = 15 * second, rbMaxConcurrentPlans = 0 \<rparr>
   | OtherBudgetClass _ \<Rightarrow> Inl ErrInvalidRun)"

definition runTypeForBudgetClass :: "RunBudgetClass \<Rightarrow> RunType \<times> bool" where
  "runTypeForBudgetClass class = (case class of
     BudgetClassSingleQueryFast \<Rightarrow> (RunTypeSingleQuery, True)
   | BudgetClassSingleQueryComplex \<Rightarrow> (RunTypeSingleQuery, True)
   | BudgetClassBundle \<Rightarrow> (RunTypeBundle, True)
   | BudgetClassDefinition \<Rightarrow> (RunTypeDefinition, True)
   | OtherBudgetClass _ \<Rightarrow> (NoRunType, False))"

definition budget_valid :: "RunBudget \<Rightarrow> bool" where
  "budget_valid b =
     (let (expectedType, validClass) = runTypeForBudgetClass (rbBudgetClass b) in
      if \<not> validClass \<or> rbRunType b \<noteq> expectedType \<or> rbMaxLLMCalls b < 1 \<or> rbMaxLLMCalls b > 16 \<or>
         rbMaxToolCalls b < 0 \<or> rbMaxToolCalls b > 16 \<or>
         rbMaxPrimaryQueries b < 0 \<or> rbMaxPrimaryQueries b > 6 \<or>
         rbMaxValidationQueries b < 0 \<or> rbMaxValidationQueries b > 3 \<or>
         rbMaxCandidateCompares b < 0 \<or> rbMaxCandidateCompares b > 2 \<or>
         rbMaxJoinHops b < 0 \<or> rbMaxJoinHops b > 4 \<or>
         rbHardTimeout b < 100 * millisecond \<or> rbHardTimeout b > 10 * minute \<or>
         rbP95Target b \<le> 0 \<or> rbP95Target b > rbHardTimeout b
      then False
      else if rbRunType b = RunTypeBundle
      then \<not> (rbMaxConcurrentPlans b < 1 \<or> rbMaxConcurrentPlans b > 4)
      else rbMaxConcurrentPlans b = 0)"

text \<open>\<open>Limits\<close> divides a \<open>Duration\<close> truncating toward zero.\<close>

definition budget_limits :: "RunBudget \<Rightarrow> run_error + BudgetLimits" where
  "budget_limits b =
     (if \<not> budget_valid b then Inl ErrInvalidRun
      else (let maxSteps = (case rbBudgetClass b of BudgetClassSingleQueryFast \<Rightarrow> 12
                              | BudgetClassDefinition \<Rightarrow> 6 | _ \<Rightarrow> 48);
                limits = \<lparr> MaxSteps = maxSteps, MaxLLMCalls = rbMaxLLMCalls b,
                  MaxToolCalls = rbMaxToolCalls b, MaxFormalQueries = rbMaxPrimaryQueries b,
                  MaxValidationQueries = rbMaxValidationQueries b,
                  MaxDurationMS = rbHardTimeout b sdiv millisecond \<rparr>
            in if limits_valid limits then Inr limits else Inl ErrInvalidRun))"

section \<open>The catalog\<close>

record AskDataBudgetOverride =
  ovDomainID :: string
  ovBudgetClass :: RunBudgetClass
  ovMaxLLMCalls :: int
  ovMaxToolCalls :: int
  ovMaxPrimaryQueries :: int
  ovMaxValidationQueries :: int
  ovMaxCandidateCompares :: int
  ovMaxJoinHops :: int
  ovHardTimeout :: duration
  ovP95Target :: duration
  ovMaxConcurrentPlans :: int

record BudgetCatalog =
  catDefaults :: "RunBudgetClass \<rightharpoonup> RunBudget"
  catOverrides :: "ID \<rightharpoonup> (RunBudgetClass \<rightharpoonup> RunBudget)"

definition budget_classes :: "RunBudgetClass list" where
  "budget_classes = [BudgetClassSingleQueryFast, BudgetClassSingleQueryComplex,
     BudgetClassBundle, BudgetClassDefinition]"

fun add_defaults :: "(RunBudgetClass \<rightharpoonup> RunBudget) \<Rightarrow> RunBudgetClass list \<Rightarrow>
    run_error + (RunBudgetClass \<rightharpoonup> RunBudget)" where
  "add_defaults m [] = Inr m"
| "add_defaults m (c # cs) = (case DefaultRunBudget c of
     Inl e \<Rightarrow> Inl e | Inr b \<Rightarrow> add_defaults (m(c \<mapsto> b)) cs)"

definition override_budget :: "AskDataBudgetOverride \<Rightarrow> RunBudget" where
  "override_budget i = \<lparr> rbRunType = fst (runTypeForBudgetClass (ovBudgetClass i)),
     rbBudgetClass = ovBudgetClass i, rbMaxLLMCalls = ovMaxLLMCalls i,
     rbMaxToolCalls = ovMaxToolCalls i, rbMaxPrimaryQueries = ovMaxPrimaryQueries i,
     rbMaxValidationQueries = ovMaxValidationQueries i,
     rbMaxCandidateCompares = ovMaxCandidateCompares i, rbMaxJoinHops = ovMaxJoinHops i,
     rbHardTimeout = ovHardTimeout i, rbP95Target = ovP95Target i,
     rbMaxConcurrentPlans = ovMaxConcurrentPlans i \<rparr>"

fun add_overrides :: "(ID \<rightharpoonup> (RunBudgetClass \<rightharpoonup> RunBudget)) \<Rightarrow> AskDataBudgetOverride list \<Rightarrow>
    run_error + (ID \<rightharpoonup> (RunBudgetClass \<rightharpoonup> RunBudget))" where
  "add_overrides m [] = Inr m"
| "add_overrides m (i # is) =
     (if \<not> snd (runTypeForBudgetClass (ovBudgetClass i)) then Inl ErrInvalidRun
      else if \<not> valid_id (ovDomainID i) then Inl ErrInvalidRun
      else if \<not> budget_valid (override_budget i) then Inl ErrInvalidRun
      else (let inner = (case m (ovDomainID i) of None \<Rightarrow> Map.empty | Some d \<Rightarrow> d) in
            if inner (ovBudgetClass i) \<noteq> None then Inl ErrInvalidRun
            else add_overrides (m(ovDomainID i \<mapsto> inner(ovBudgetClass i \<mapsto> override_budget i))) is))"

definition NewBudgetCatalog :: "AskDataBudgetOverride list \<Rightarrow> run_error + BudgetCatalog" where
  "NewBudgetCatalog configured = (case add_defaults Map.empty budget_classes of
     Inl e \<Rightarrow> Inl e
   | Inr defaults \<Rightarrow> (case add_overrides Map.empty configured of
       Inl e \<Rightarrow> Inl e
     | Inr overrides \<Rightarrow> Inr \<lparr> catDefaults = defaults, catOverrides = overrides \<rparr>))"

text \<open>\<open>Resolve\<close> on a nil catalog is an error: the catalog is an option.\<close>

definition Resolve :: "BudgetCatalog option \<Rightarrow> ID \<Rightarrow> RunBudgetClass \<Rightarrow> run_error + RunBudget" where
  "Resolve catalog domainID class = (case catalog of None \<Rightarrow> Inl ErrInvalidRun | Some c \<Rightarrow>
     (if \<not> valid_id domainID then Inl ErrInvalidRun
      else (case catDefaults c class of
        None \<Rightarrow> Inl ErrInvalidRun
      | Some b \<Rightarrow> (case catOverrides c domainID of
          None \<Rightarrow> Inr b
        | Some d \<Rightarrow> (case d class of None \<Rightarrow> Inr b | Some v \<Rightarrow> Inr v)))))"

section \<open>Stopping a run\<close>

datatype BudgetStopReason = BudgetStopSteps | BudgetStopLLMCalls | BudgetStopToolCalls
  | BudgetStopFormalQueries | BudgetStopValidationQueries | BudgetStopDuration
  | BudgetStopTranscript | OtherStopReason string

definition reason_name :: "BudgetStopReason \<Rightarrow> string" where
  "reason_name r = (case r of BudgetStopSteps \<Rightarrow> ''STEP_LIMIT''
     | BudgetStopLLMCalls \<Rightarrow> ''LLM_CALL_LIMIT'' | BudgetStopToolCalls \<Rightarrow> ''TOOL_CALL_LIMIT''
     | BudgetStopFormalQueries \<Rightarrow> ''FORMAL_QUERY_LIMIT''
     | BudgetStopValidationQueries \<Rightarrow> ''VALIDATION_QUERY_LIMIT''
     | BudgetStopDuration \<Rightarrow> ''DURATION_LIMIT'' | BudgetStopTranscript \<Rightarrow> ''TRANSCRIPT_LIMIT''
     | OtherStopReason s \<Rightarrow> s)"

record BudgetTerminationRequest =
  btRun :: Run
  btUsage :: BudgetUsage
  btReason :: BudgetStopReason
  btEvidenceIDs :: "ID list"
  btPreferClarification :: bool

datatype TerminationPayload =
    BudgetPayload string BudgetStopReason BudgetLimits BudgetUsage bool
  | CostPayload "QuotaLimiter list" go_time

record CompletionArtifactInput =
  caCode :: string
  caType :: ArtifactType
  caSchemaVersion :: string
  caEvidenceIDs :: "ID list"
  caPayload :: TerminationPayload

record BudgetTermination =
  btTargetState :: State
  btCompletion :: CompletionArtifactInput

definition normalizedEvidenceIDs :: "ID list \<Rightarrow> run_error + ID list" where
  "normalizedEvidenceIDs values =
     (if length values > 64 then Inl ErrInvalidRun
      else if \<not> list_all valid_id values then Inl ErrInvalidRun
      else (let result = sort_slice (<) values in
            if list_ex (\<lambda>index. result ! index = result ! (index - 1)) [1..<length result]
            then Inl ErrInvalidRun else Inr result))"

definition budgetReasonReached :: "BudgetStopReason \<Rightarrow> BudgetUsage \<Rightarrow> BudgetLimits \<Rightarrow> bool" where
  "budgetReasonReached reason u l = (case reason of
     BudgetStopSteps \<Rightarrow> StepCount u \<ge> MaxSteps l
   | BudgetStopLLMCalls \<Rightarrow> LLMCallsUsed u \<ge> MaxLLMCalls l
   | BudgetStopToolCalls \<Rightarrow> ToolCallsUsed u \<ge> MaxToolCalls l
   | BudgetStopFormalQueries \<Rightarrow> FormalQueriesUsed u \<ge> MaxFormalQueries l
   | BudgetStopValidationQueries \<Rightarrow> ValidationQueriesUsed u \<ge> MaxValidationQueries l
   | BudgetStopDuration \<Rightarrow> ElapsedMS u \<ge> MaxDurationMS l
   | BudgetStopTranscript \<Rightarrow> True
   | OtherStopReason _ \<Rightarrow> False)"

definition semanticBudgetClarificationAllowed :: "State \<Rightarrow> bool" where
  "semanticBudgetClarificationAllowed s \<longleftrightarrow> s \<in> {StateUnderstanding, StateRetrieving, StateBinding,
     StateGraphValidating, StatePlanValidating, StateResultVerifying}"

definition BuildBudgetTermination ::
  "(string \<Rightarrow> bool) \<Rightarrow> BudgetTerminationRequest \<Rightarrow> run_error + BudgetTermination" where
  "BuildBudgetTermination uuid_ok req =
     (let run = btRun req; usage = btUsage req in
      if \<not> run_valid uuid_ok run \<or> Terminal run \<or> \<not> Exhausted usage \<or>
         \<not> usage_valid usage (Limits run) \<or> \<not> monotonicFrom usage (Usage run) \<or>
         \<not> budgetReasonReached (btReason req) usage (Limits run)
      then Inl ErrInvalidRun
      else (case normalizedEvidenceIDs (btEvidenceIDs req) of
        Inl e \<Rightarrow> Inl e
      | Inr evidence \<Rightarrow>
         (let target = (if btPreferClarification req \<and>
                           semanticBudgetClarificationAllowed (RunStateOf run)
                        then StateClarificationRequired else StateBlocked) in
          if \<not> CanTransition (RunStateOf run) target then Inl ErrIllegalTransition
          else (let code = ''BUDGET_'' @ reason_name (btReason req) in
            Inr \<lparr> btTargetState = target,
                  btCompletion = \<lparr> caCode = code,
                    caType = (if target = StateClarificationRequired then ArtifactClarification
                              else ArtifactBlock),
                    caSchemaVersion = ''budget-termination-v1'', caEvidenceIDs = evidence,
                    caPayload = BudgetPayload code (btReason req) (Limits run) usage
                      (target = StateClarificationRequired) \<rparr> \<rparr>))))"

text \<open>The days before year 0 and before year 10000, counted from Go's zero time.\<close>

definition json_time_ok :: "go_time \<Rightarrow> bool" where
  "json_time_ok t \<longleftrightarrow> - 366 * 24 * hour \<le> t \<and> t < 3652059 * 24 * hour"

definition limiter_malformed :: "QuotaLimiter \<Rightarrow> bool" where
  "limiter_malformed l \<longleftrightarrow> lmResetAt l = 0 \<or> lmUsed l < 0 \<or> lmReserved l < 0 \<or> lmLimit l \<le> 0 \<or>
     lmRemaining l < 0"

definition is_run_cost :: "Run \<Rightarrow> QuotaLimiter \<Rightarrow> bool" where
  "is_run_cost run l \<longleftrightarrow> lmScope l = QuotaScopeRun \<and> lmScopeID l = RunID run \<and>
     lmPeriod l = QuotaPeriodRun \<and> lmDimension l = QuotaDimensionCostCents \<and> lmExceeded l"

text \<open>The loop over the limiters: \<open>None\<close> is the early error return.\<close>

fun scan_limiters :: "Run \<Rightarrow> bool \<Rightarrow> go_time \<Rightarrow> QuotaLimiter list \<Rightarrow> (bool \<times> go_time) option" where
  "scan_limiters run found restoreAt [] = Some (found, restoreAt)"
| "scan_limiters run found restoreAt (l # ls) =
     (if limiter_malformed l then None
      else scan_limiters run (found \<or> is_run_cost run l)
        (if lmExceeded l \<and> lmResetAt l > restoreAt then lmResetAt l else restoreAt) ls)"

definition BuildRunCostExceededTermination ::
  "(string \<Rightarrow> bool) \<Rightarrow> Run \<Rightarrow> BudgetUsage \<Rightarrow> QuotaDecision \<Rightarrow> ID list \<Rightarrow> run_error + BudgetTermination" where
  "BuildRunCostExceededTermination uuid_ok run usage decision evidenceIDs =
     (if \<not> run_valid uuid_ok run \<or> Terminal run \<or> \<not> usage_valid usage (Limits run) \<or>
         \<not> monotonicFrom usage (Usage run) \<or> \<not> semanticBudgetClarificationAllowed (RunStateOf run) \<or>
         \<not> CanTransition (RunStateOf run) StateClarificationRequired \<or>
         qdStatus decision \<noteq> QuotaRunCostExceeded \<or> qdAllowed decision \<or>
         \<not> qdRequireClarification decision \<or> qdLimiters decision = []
      then Inl ErrInvalidRun
      else (case scan_limiters run False 0 (qdLimiters decision) of
        None \<Rightarrow> Inl ErrInvalidRun
      | Some (found, restoreAt) \<Rightarrow>
         (if \<not> found \<or> restoreAt = 0 then Inl ErrInvalidRun
          else (case normalizedEvidenceIDs evidenceIDs of
            Inl e \<Rightarrow> Inl e
          | Inr evidence \<Rightarrow>
             (if \<not> json_time_ok restoreAt \<or> \<not> list_all (\<lambda>l. json_time_ok (lmResetAt l)) (qdLimiters decision)
              then Inl ErrInvalidRun
              else Inr \<lparr> btTargetState = StateClarificationRequired,
                btCompletion = \<lparr> caCode = RunCostExceededCompletionCode,
                  caType = ArtifactClarification, caSchemaVersion = ''run-cost-exceeded-v1'',
                  caEvidenceIDs = evidence, caPayload = CostPayload (qdLimiters decision) restoreAt \<rparr> \<rparr>)))))"

end
