(* ===== verification/RunBudgetProperties.thy ===== *)
theory RunBudgetProperties imports RunBudget begin

text \<open>
  Properties of the run budgets: what the catalog resolves, and that the terminations the
  budget code builds are moves the run accepts.
\<close>

section \<open>The catalog\<close>

lemma default_budget:
  assumes "DefaultRunBudget c = Inr b"
  shows "budget_valid b" and "rbBudgetClass b = c"
  using assms unfolding DefaultRunBudget_def
  by (cases c; (hypsubst | simp only: sum.inject RunBudgetClass.case Inr_not_Inl sum.distinct); clarsimp simp: budget_valid_def runTypeForBudgetClass_def second_def
      minute_def millisecond_def)+

lemma default_budget_total: "c \<in> set budget_classes \<Longrightarrow> \<exists>b. DefaultRunBudget c = Inr b"
  by (auto simp: budget_classes_def DefaultRunBudget_def)

lemma budget_limits_total:
  assumes "budget_valid b"
  shows "\<exists>l. budget_limits b = Inr l \<and> limits_valid l"
proof -
  have d: "100 * millisecond \<le> rbHardTimeout b" "rbHardTimeout b \<le> 10 * minute"
    using assms by (auto simp: budget_valid_def Let_def split: prod.splits if_splits)
  then have "rbHardTimeout b sdiv millisecond = rbHardTimeout b div 1000000"
    by (subst sdiv_nonneg) (simp_all add: millisecond_def)
  moreover have "100 \<le> rbHardTimeout b div 1000000" "rbHardTimeout b div 1000000 \<le> 600000"
    using d by (simp_all add: millisecond_def minute_def)
  moreover have "1 \<le> rbMaxLLMCalls b" "rbMaxLLMCalls b \<le> 16" "0 \<le> rbMaxToolCalls b" "rbMaxToolCalls b \<le> 16"
    "0 \<le> rbMaxPrimaryQueries b" "rbMaxPrimaryQueries b \<le> 6"
    "0 \<le> rbMaxValidationQueries b" "rbMaxValidationQueries b \<le> 3"
    using assms by (auto simp: budget_valid_def Let_def split: prod.splits if_splits)
  ultimately show ?thesis
    using assms by (auto simp: budget_limits_def limits_valid_def Let_def split: RunBudgetClass.splits)
qed

lemma catalog_defaults:
  "\<exists>m. add_defaults Map.empty budget_classes = Inr m \<and>
     (\<forall>c. m c = (case DefaultRunBudget c of Inl _ \<Rightarrow> None | Inr b \<Rightarrow> Some b))"
  by (auto simp: budget_classes_def DefaultRunBudget_def split: RunBudgetClass.splits)

definition override_scope :: "AskDataBudgetOverride \<Rightarrow> ID \<times> RunBudgetClass" where
  "override_scope i = (ovDomainID i, ovBudgetClass i)"

definition override_at ::
  "(ID \<rightharpoonup> (RunBudgetClass \<rightharpoonup> RunBudget)) \<Rightarrow> ID \<times> RunBudgetClass \<Rightarrow> RunBudget option" where
  "override_at m k = (case m (fst k) of None \<Rightarrow> None | Some d \<Rightarrow> d (snd k))"

lemma add_overrides_Inr:
  "add_overrides m is = Inr m' \<Longrightarrow>
     distinct (map override_scope is) \<and>
     (\<forall>i\<in>set is. budget_valid (override_budget i) \<and> override_at m (override_scope i) = None) \<and>
     (\<forall>k. override_at m' k = (case map_of (map (\<lambda>i. (override_scope i, override_budget i)) is) k of
        None \<Rightarrow> override_at m k | Some b \<Rightarrow> Some b))"
proof (induction "is" arbitrary: m)
  case Nil
  then show ?case by simp
next
  case (Cons i "is")
  define inner where "inner = (case m (ovDomainID i) of None \<Rightarrow> Map.empty | Some d \<Rightarrow> d)"
  define m1 where "m1 = m(ovDomainID i \<mapsto> inner(ovBudgetClass i \<mapsto> override_budget i))"
  have v: "budget_valid (override_budget i)" "inner (ovBudgetClass i) = None"
    and r: "add_overrides m1 is = Inr m'"
    using Cons.prems by (auto simp: Let_def inner_def m1_def split: if_splits)
  have at1: "override_at m1 k = (if k = override_scope i then Some (override_budget i) else override_at m k)" for k
    by (cases k) (auto simp: override_at_def m1_def inner_def override_scope_def split: option.splits)
  have at0: "override_at m (override_scope i) = None"
    using v(2) by (auto simp: override_at_def override_scope_def inner_def split: option.splits)
  have ih: "distinct (map override_scope is)"
    "\<forall>j\<in>set is. budget_valid (override_budget j) \<and> override_at m1 (override_scope j) = None"
    "\<forall>k. override_at m' k = (case map_of (map (\<lambda>i. (override_scope i, override_budget i)) is) k of
        None \<Rightarrow> override_at m1 k | Some b \<Rightarrow> Some b)"
    using Cons.IH [OF r] by blast+
  have fresh: "override_scope j \<noteq> override_scope i \<and> override_at m (override_scope j) = None"
    if "j \<in> set is" for j
    using ih(2) that at1 [of "override_scope j"] by (auto split: if_splits)
  then have "override_scope i \<notin> set (map override_scope is)" by (metis (no_types) image_iff list.set_map)
  moreover from this have
    "map_of (map (\<lambda>i. (override_scope i, override_budget i)) is) (override_scope i) = None"
    by (simp add: map_of_eq_None_iff image_image)
  ultimately show ?case
    using ih fresh v(1) at0 at1 by (auto split: option.split)
qed

text \<open>A budget catalog resolves every known budget class in every valid domain to a budget
  of that class within the governed bounds, from which valid run limits follow: the
  override configured for the domain and class, of which there is at most one, or else
  the governed default.\<close>

theorem catalog_resolves_governed_budget:
  assumes "NewBudgetCatalog configured = Inr cat" and "valid_id dm" and "class \<in> set budget_classes"
  shows "\<exists>b l. Resolve (Some cat) dm class = Inr b \<and> budget_valid b \<and> rbBudgetClass b = class \<and>
    budget_limits b = Inr l \<and> limits_valid l \<and> distinct (map override_scope configured) \<and>
    (case find (\<lambda>i. override_scope i = (dm, class)) configured of
       None \<Rightarrow> DefaultRunBudget class = Inr b | Some i \<Rightarrow> b = override_budget i)"
proof -
  obtain m where a: "add_defaults Map.empty budget_classes = Inr m"
    and m: "\<forall>c. m c = (case DefaultRunBudget c of Inl _ \<Rightarrow> None | Inr b \<Rightarrow> Some b)"
    using catalog_defaults by blast
  have cat: "catDefaults cat = m" "add_overrides Map.empty configured = Inr (catOverrides cat)"
    using assms(1) a by (auto simp: NewBudgetCatalog_def split: sum.splits)
  obtain b0 where b0: "DefaultRunBudget class = Inr b0"
    using default_budget_total assms(3) by blast
  have m0: "m class = Some b0" using m b0 by simp
  have emp: "override_at Map.empty k = None" for k by (simp add: override_at_def)
  note ov = add_overrides_Inr [OF cat(2), unfolded emp]
  have fm: "map_of (map (\<lambda>i. (override_scope i, override_budget i)) xs) k =
      map_option override_budget (find (\<lambda>i. override_scope i = k) xs)" for xs k
    by (induction xs) auto
  have at: "override_at (catOverrides cat) (dm, class) =
      map_option override_budget (find (\<lambda>i. override_scope i = (dm, class)) configured)"
    using ov by (auto simp: fm split: option.splits)
  have res: "Resolve (Some cat) dm class = Inr (case override_at (catOverrides cat) (dm, class) of
      None \<Rightarrow> b0 | Some v \<Rightarrow> v)"
    using assms(2) m0 cat(1) by (auto simp: Resolve_def override_at_def split: option.splits)
  define b where "b = (case override_at (catOverrides cat) (dm, class) of None \<Rightarrow> b0 | Some v \<Rightarrow> v)"
  have b: "budget_valid b \<and> rbBudgetClass b = class \<and>
    (case find (\<lambda>i. override_scope i = (dm, class)) configured of
       None \<Rightarrow> DefaultRunBudget class = Inr b | Some i \<Rightarrow> b = override_budget i)"
  proof (cases "find (\<lambda>i. override_scope i = (dm, class)) configured")
    case None
    then show ?thesis using b0 default_budget [OF b0] by (simp add: b_def at)
  next
    case (Some i)
    then have "i \<in> set configured" "override_scope i = (dm, class)"
      by (auto simp: find_Some_iff)
    moreover have "b = override_budget i" using Some by (simp add: b_def at)
    moreover have "budget_valid (override_budget i)" using ov \<open>i \<in> set configured\<close> by blast
    moreover have "rbBudgetClass (override_budget i) = class"
      using \<open>override_scope i = (dm, class)\<close> by (simp add: override_budget_def override_scope_def)
    ultimately show ?thesis using Some by simp
  qed
  then obtain l where "budget_limits b = Inr l" "limits_valid l" using budget_limits_total by blast
  with b ov res show ?thesis unfolding b_def [symmetric] by blast
qed

definition sample_override :: AskDataBudgetOverride where
  "sample_override = \<lparr> ovDomainID = ''sales'', ovBudgetClass = BudgetClassBundle, ovMaxLLMCalls = 6,
     ovMaxToolCalls = 8, ovMaxPrimaryQueries = 4, ovMaxValidationQueries = 1,
     ovMaxCandidateCompares = 1, ovMaxJoinHops = 3, ovHardTimeout = 2 * minute,
     ovP95Target = minute, ovMaxConcurrentPlans = 2 \<rparr>"

lemma sample_catalog: "\<exists>cat. NewBudgetCatalog [sample_override] = Inr cat"
proof -
  have "budget_valid (override_budget sample_override)" by code_simp
  moreover have "valid_id (ovDomainID sample_override)" by code_simp
  ultimately show ?thesis
    using catalog_defaults
    by (auto simp: NewBudgetCatalog_def runTypeForBudgetClass_def sample_override_def)
qed

theorem catalog_resolves_governed_budget_witness:
  "\<exists>cat. NewBudgetCatalog [sample_override] = Inr cat \<and>
     Resolve (Some cat) ''sales'' BudgetClassBundle = Inr (override_budget sample_override)"
proof -
  obtain cat where cat: "NewBudgetCatalog [sample_override] = Inr cat" using sample_catalog by blast
  have "valid_id ''sales''" by code_simp
  moreover have "BudgetClassBundle \<in> set budget_classes" by (simp add: budget_classes_def)
  ultimately show ?thesis
    using catalog_resolves_governed_budget [OF cat] cat
    by (fastforce simp: override_scope_def sample_override_def)
qed

section \<open>Terminations\<close>

lemma adjacent_distinct:
  "sorted_by (<) (xs :: 'a::linorder list) \<Longrightarrow>
   (\<forall>i\<in>set [1..<length xs]. xs ! i \<noteq> xs ! (i - 1)) \<Longrightarrow> distinct xs"
proof (induction xs)
  case Nil
  then show ?case by simp
next
  case (Cons x xs)
  have step: "xs ! i \<noteq> xs ! (i - 1)" if "i \<in> set [1..<length xs]" for i
  proof -
    have "(x # xs) ! Suc i \<noteq> (x # xs) ! (Suc i - 1)"
      using Cons.prems(2) by (rule bspec) (use that in auto)
    moreover from that have "0 < i" by simp
    ultimately show ?thesis by (simp add: nth_Cons')
  qed
  have d: "distinct xs" using Cons.IH Cons.prems(1) step by simp
  have "x \<notin> set xs"
  proof
    assume x: "x \<in> set xs"
    then obtain y ys where xs: "xs = y # ys" by (cases xs) auto
    have "(x # xs) ! 1 \<noteq> (x # xs) ! (1 - 1)"
      using Cons.prems(2) by (rule bspec) (simp add: xs del: upt.simps upt_Suc)
    then have "x \<noteq> y" by (simp add: xs)
    with x xs Cons.prems(1) show False by (auto simp: not_less)
  qed
  with d show ?case by simp
qed

lemma normalizedEvidenceIDs_Inr:
  assumes "normalizedEvidenceIDs ids = Inr e"
  shows "e = sort_slice (<) ids \<and> distinct e \<and> sorted_by (<) e \<and> length ids \<le> 64 \<and> (\<forall>i\<in>set e. valid_id i)"
proof -
  have e: "e = sort_slice (<) ids"
    and n: "\<not> list_ex (\<lambda>index. e ! index = e ! (index - 1)) [1..<length e]"
    and v: "length ids \<le> 64" "list_all valid_id ids"
    using assms by (auto simp: normalizedEvidenceIDs_def Let_def split: if_splits)
  have s: "sorted_by (<) e" unfolding e by (rule value_order.sorted_by_sort_slice)
  have "distinct e" using s n by (intro adjacent_distinct) (auto simp: list_ex_iff)
  with s e v show ?thesis by (auto simp: list_all_iff)
qed

lemma reason_code_ok:
  "budgetReasonReached r u l \<Longrightarrow> completion_code_ok (''BUDGET_'' @ reason_name r)"
  by (cases r) (simp_all add: budgetReasonReached_def reason_name_def completion_code_ok_def char_between_def)

text \<open>C24: When the budget code stops a run whose record version is not the largest int64, the stop
  is one the run accepts: with any artifact hash, the transition it describes moves the run
  to the stated terminal state with the stated completion code, artifact and usage, the
  code is BUDGET_ and the name of the reason, the artifact has the type that state requires, and the evidence
  identifiers are the given ones, sorted and without duplicates.\<close>

theorem budget_termination_lands:
  assumes b: "BuildBudgetTermination uuid_ok req = Inr bt" and h: "valid_hash h" and now: "0 < now"
    and ver: "sint (RecordVersion (btRun req)) \<noteq> 2 ^ 63 - 1"
  shows "\<exists>n. Apply uuid_ok now (btRun req)
        (terminal_move (btRun req) (btTargetState bt) (btUsage req) (caCode (btCompletion bt)) h) = Inr n \<and>
      Terminal n \<and> RunStateOf n = btTargetState bt \<and> Usage n = btUsage req \<and>
      CompletionCode n = caCode (btCompletion bt) \<and> CompletionCode n = ''BUDGET_'' @ reason_name (btReason req) \<and>
      CompletionArtifact n = h \<and>
      caType (btCompletion bt) = completionArtifactType (btTargetState bt) \<and>
      mset (caEvidenceIDs (btCompletion bt)) = mset (btEvidenceIDs req) \<and>
      distinct (caEvidenceIDs (btCompletion bt)) \<and> sorted_by (<) (caEvidenceIDs (btCompletion bt))"
proof -
  define c where "c = btRun req"
  define u where "u = btUsage req"
  define target where "target = (if btPreferClarification req \<and>
    semanticBudgetClarificationAllowed (RunStateOf c) then StateClarificationRequired else StateBlocked)"
  obtain ev where v: "run_valid uuid_ok c" "\<not> Terminal c" "usage_valid u (Limits c)"
      "monotonicFrom u (Usage c)" "budgetReasonReached (btReason req) u (Limits c)"
    and ev: "normalizedEvidenceIDs (btEvidenceIDs req) = Inr ev"
    and ct: "CanTransition (RunStateOf c) target"
    and bt: "btTargetState bt = target" "caCode (btCompletion bt) = ''BUDGET_'' @ reason_name (btReason req)"
      "caEvidenceIDs (btCompletion bt) = ev"
      "caType (btCompletion bt) = (if target = StateClarificationRequired then ArtifactClarification else ArtifactBlock)"
    using b unfolding BuildBudgetTermination_def Let_def c_def [symmetric] u_def [symmetric]
      target_def [symmetric]
    by (auto split: if_splits sum.splits)
  have t: "target = StateClarificationRequired \<or> target = StateBlocked" by (simp add: target_def)
  then have "target \<in> set refusing" by (auto simp: refusing_def)
  then obtain n where "Apply uuid_ok now c (terminal_move c target u (caCode (btCompletion bt)) h) = Inr n"
    "RunStateOf n = target" "Usage n = u" "CompletionCode n = caCode (btCompletion bt)" "CompletionArtifact n = h"
    using Apply_terminal_move [OF v(1,2) _ ct v(3,4) _ reason_code_ok [OF v(5)] h, of now] now ver
    by (auto simp: bt last_version_def c_def)
  moreover from this t have "Terminal n" by (auto simp: Terminal_def)
  moreover have "caType (btCompletion bt) = completionArtifactType target"
    using t bt by (auto simp: completionArtifactType_def)
  moreover have "mset ev = mset (btEvidenceIDs req)" "distinct ev" "sorted_by (<) ev"
    using normalizedEvidenceIDs_Inr [OF ev] by auto
  ultimately show ?thesis using bt by (auto simp: c_def u_def)
qed

definition sample_stop :: BudgetTerminationRequest where
  "sample_stop = \<lparr> btRun = sample_run, btUsage = zero_usage\<lparr> StepCount := 48, Exhausted := True \<rparr>,
     btReason = BudgetStopSteps, btEvidenceIDs = [''e2'', ''e1''], btPreferClarification = True \<rparr>"

theorem budget_termination_lands_witness:
  "\<exists>bt n. BuildBudgetTermination uuid_shape sample_stop = Inr bt \<and>
     Apply uuid_shape 7 sample_run (terminal_move sample_run (btTargetState bt) (btUsage sample_stop)
       (caCode (btCompletion bt)) (sample_hash CHR ''e'')) = Inr n \<and> Terminal n"
proof -
  have "\<not> isl (BuildBudgetTermination uuid_shape sample_stop)" by code_simp
  then obtain bt where bt: "BuildBudgetTermination uuid_shape sample_stop = Inr bt"
    by (cases "BuildBudgetTermination uuid_shape sample_stop") simp_all
  have "valid_hash (sample_hash CHR ''e'')" by code_simp
  moreover have "sint (RecordVersion (btRun sample_stop)) \<noteq> 2 ^ 63 - 1"
    by (simp add: sample_stop_def sample_run_def new_run_def)
  ultimately show ?thesis using budget_termination_lands [OF bt, of _ 7] bt by (auto simp: sample_stop_def)
qed

text \<open>The restore time is the latest reset of an exceeded limiter.\<close>

lemma scan_limiters_Some:
  "scan_limiters run f t ls = Some (found, restoreAt) \<Longrightarrow>
     (found \<longleftrightarrow> f \<or> list_ex (is_run_cost run) ls) \<and>
     restoreAt = fold (\<lambda>l m. max m (lmResetAt l)) (filter lmExceeded ls) t \<and>
     list_all (\<lambda>l. \<not> limiter_malformed l) ls"
proof (induction ls arbitrary: f t)
  case Nil
  then show ?case by simp
next
  case (Cons l ls)
  then show ?case by (auto split: if_splits simp: max_def)
qed

lemma scan_limiters_total:
  "list_all (\<lambda>l. \<not> limiter_malformed l) ls \<Longrightarrow> \<exists>r. scan_limiters run f t ls = Some r"
  by (induction ls arbitrary: f t) auto

lemma fold_max_ge: "(t :: int) \<le> fold (\<lambda>l m. max m (k l)) ls t \<and> (\<forall>l\<in>set ls. k l \<le> fold (\<lambda>l m. max m (k l)) ls t)"
proof (induction ls arbitrary: t)
  case Nil
  then show ?case by simp
next
  case (Cons l ls)
  from Cons [of "max t (k l)"] show ?case by auto
qed

lemma fold_max_in: "fold (\<lambda>l m. max m (k l)) ls t = (t :: int) \<or> fold (\<lambda>l m. max m (k l)) ls t \<in> k ` set ls"
proof (induction ls arbitrary: t)
  case Nil
  then show ?case by simp
next
  case (Cons l ls)
  from Cons [of "max t (k l)"] show ?case by (auto simp: max_def split: if_splits)
qed

lemma limiter_of_sound:
  assumes "quota_ok r s" and "l \<in> set (limiter_of r s k)"
  shows "lmUsed l \<ge> 0" "lmReserved l \<ge> 0" "lmLimit l > 0" "lmRemaining l \<ge> 0"
    "lmResetAt l = snResetAt s" "lmScopeID l = snScopeID s" "lmPeriod l = snPeriod s" "lmScope l = snScope s"
    "lmDimension l = k" "lmExceeded l = exhausts r s k"
proof -
  have a: "approaches r s k" using assms by (simp add: limiter_of_cases split: if_splits)
  then obtain v where v: "governed s k = Some v" by (auto simp: approaches_def split: option.splits)
  have "0 < v" "0 \<le> amount (snUsage s) k" "0 \<le> amount (rqReserve r) k"
    using assms v validateQuotaSnapshot_None(1) [of r s] validateQuotaSnapshot_None(2) [of r s k v]
    by (auto simp: quota_ok_def quota_nonneg_def)
  with assms a v show "lmUsed l \<ge> 0" "lmReserved l \<ge> 0" "lmLimit l > 0" "lmRemaining l \<ge> 0"
    "lmResetAt l = snResetAt s" "lmScopeID l = snScopeID s" "lmPeriod l = snPeriod s" "lmScope l = snScope s"
    "lmDimension l = k" "lmExceeded l = exhausts r s k"
    by (simp_all add: limiter_of_cases)
qed

lemma snapshot_facts:
  assumes "validateQuotaSnapshot r s = None"
  shows "snResetAt s > rqAt r" and "snScope s = QuotaScopeRun \<Longrightarrow> snPeriod s = QuotaPeriodRun \<and> snScopeID s = rqRunID r"
  using assms by (auto simp: validateQuotaSnapshot_def Let_def expected_scope_id_def split: if_splits)

lemma decide_quota_limiters: "qdLimiters (decide_quota r ls) = ls"
  by (simp add: decide_quota_def Let_def)

text \<open>The fail-closed path of the run cost joins up: when the quota check of a run reports
  that its own cost is exceeded, and the run is in a stage that may ask for
  clarification, the cost termination is built, its restore time is the latest reset of
  an exceeded limiter, and the run accepts the resulting clarification.\<close>

theorem run_cost_stop_lands:
  assumes q: "EvaluateQuota r ss = Inr d" and i64: "\<forall>s\<in>set ss. snapshot_int64 s"
    and st: "qdStatus d = QuotaRunCostExceeded" and run: "rqRunID r = RunID c" and at: "0 < rqAt r"
    and json: "\<forall>s\<in>set ss. json_time_ok (snResetAt s)"
    and v: "run_valid uuid_ok c" and nt: "\<not> Terminal c" and sem: "semanticBudgetClarificationAllowed (RunStateOf c)"
    and u: "usage_valid u (Limits c)" "monotonicFrom u (Usage c)"
    and ev: "normalizedEvidenceIDs ids = Inr ev" and h: "valid_hash h" and now: "0 < now" and ver: "\<not> last_version c"
  shows "\<exists>bt restoreAt n. BuildRunCostExceededTermination uuid_ok c u d ids = Inr bt \<and>
    caPayload (btCompletion bt) = CostPayload (qdLimiters d) restoreAt \<and>
    restoreAt \<in> lmResetAt ` {l \<in> set (qdLimiters d). lmExceeded l} \<and>
    (\<forall>l\<in>set (qdLimiters d). lmExceeded l \<longrightarrow> lmResetAt l \<le> restoreAt) \<and>
    Apply uuid_ok now c (terminal_move c (btTargetState bt) u (caCode (btCompletion bt)) h) = Inr n \<and>
    RunStateOf n = StateClarificationRequired"
proof -
  obtain ls where d: "d = decide_quota r (sort_slice limiter_before ls)"
    and ls: "ls = concat (map (\<lambda>s. concat (map (limiter_of r s) dimensions)) ss)"
    and vq: "quota_nonneg (rqReserve r)" "\<forall>s\<in>set ss. validateQuotaSnapshot r s = None"
    using q by (rule EvaluateQuota_Inr)
  let ?L = "qdLimiters d"
  have L: "set ?L = set ls" "?L = sort_slice limiter_before ls" by (simp_all add: d decide_quota_limiters)
  have ok: "\<forall>s\<in>set ss. quota_ok r s" using vq i64 by (simp add: quota_ok_def)
  have orig: "\<exists>s\<in>set ss. \<exists>k. l \<in> set (limiter_of r s k)" if "l \<in> set ?L" for l
    using that by (auto simp: L(1) ls)
  have fine: "\<not> limiter_malformed l \<and> json_time_ok (lmResetAt l) \<and> 0 < lmResetAt l" if "l \<in> set ?L" for l
  proof -
    from orig [OF that] obtain s k where s: "s \<in> set ss" "l \<in> set (limiter_of r s k)" by blast
    have "quota_ok r s" "json_time_ok (snResetAt s)" "snResetAt s > rqAt r"
      using s(1) ok json vq(2) snapshot_facts(1) by blast+
    with limiter_of_sound [OF this(1) s(2)] at show ?thesis by (auto simp: limiter_malformed_def)
  qed
  have cost: "list_ex (\<lambda>l. lmExceeded l \<and> lmScope l = QuotaScopeRun \<and> lmDimension l = QuotaDimensionCostCents) ?L"
    and flags: "\<not> qdAllowed d" "qdRequireClarification d"
    using st unfolding L(2) by (auto simp: d decide_quota_def Let_def split: if_splits)
  then obtain l where l: "l \<in> set ?L" "lmExceeded l" "lmScope l = QuotaScopeRun"
      "lmDimension l = QuotaDimensionCostCents"
    by (auto simp: list_ex_iff)
  have rc: "is_run_cost c l"
  proof -
    from orig [OF l(1)] obtain s k where s: "s \<in> set ss" "l \<in> set (limiter_of r s k)" by blast
    then show ?thesis
      using limiter_of_sound [of r s l k] ok snapshot_facts(2) [of r s] vq(2) l run
      by (auto simp: is_run_cost_def)
  qed
  have all: "list_all (\<lambda>l. \<not> limiter_malformed l) ?L" using fine by (simp add: list_all_iff)
  obtain found restoreAt where sc: "scan_limiters c False 0 ?L = Some (found, restoreAt)"
    using scan_limiters_total [OF all] by (metis surj_pair)
  let ?f = "fold (\<lambda>l m. max m (lmResetAt l)) (filter lmExceeded ?L) 0"
  have found: "found" and ra: "restoreAt = ?f"
    using scan_limiters_Some [OF sc] rc l(1) by (auto simp: list_ex_iff)
  have ge: "\<forall>l\<in>set ?L. lmExceeded l \<longrightarrow> lmResetAt l \<le> restoreAt"
    using fold_max_ge [of 0 lmResetAt "filter lmExceeded ?L"] by (auto simp: ra)
  then have pos: "0 < restoreAt" using fine [OF l(1)] l by force
  then have img: "restoreAt \<in> lmResetAt ` {l \<in> set ?L. lmExceeded l}"
    using fold_max_in [of lmResetAt "filter lmExceeded ?L" 0] by (auto simp: ra)
  then have "json_time_ok restoreAt" using fine by blast
  moreover have "CanTransition (RunStateOf c) StateClarificationRequired"
    using sem by (auto simp: semanticBudgetClarificationAllowed_def CanTransition_def validStates_def
        isTerminalState_def stage_successors_def)
  moreover from this obtain n where
    "Apply uuid_ok now c (terminal_move c StateClarificationRequired u RunCostExceededCompletionCode h) = Inr n"
    "RunStateOf n = StateClarificationRequired"
    using Apply_terminal_move [OF v nt, of StateClarificationRequired u now RunCostExceededCompletionCode h] u h now ver
    by (auto simp: refusing_def RunCostExceededCompletionCode_def completion_code_ok_def char_between_def)
  moreover have "?L \<noteq> []" using l(1) by auto
  ultimately show ?thesis
    using v nt u sem st flags sc found pos ev fine ge img
    by (simp add: BuildRunCostExceededTermination_def list_all_iff)
qed

definition sample_understanding :: Run where
  "sample_understanding = sample_run\<lparr> RunStateOf := StateUnderstanding \<rparr>"

definition sample_cost_request :: QuotaCheckRequest where
  "sample_cost_request = sample_request\<lparr> rqRunID := RunID sample_understanding \<rparr>"

definition sample_cost_snapshot :: QuotaSnapshot where
  "sample_cost_snapshot = sample_snapshot\<lparr> snScopeID := RunID sample_understanding \<rparr>"

lemma sample_cost_quota:
  "\<exists>d. EvaluateQuota sample_cost_request [sample_cost_snapshot] = Inr d \<and> qdStatus d = QuotaRunCostExceeded"
proof -
  have "validateQuotaRequest sample_cost_request = None" by code_simp
  moreover have "validateQuotaSnapshot sample_cost_request sample_cost_snapshot = None" by code_simp
  ultimately obtain d where d: "EvaluateQuota sample_cost_request [sample_cost_snapshot] = Inr d"
    by (auto simp: EvaluateQuota_def Let_def)
  have i64: "\<forall>s\<in>set [sample_cost_snapshot]. snapshot_int64 s"
    by (simp add: snapshot_int64_def governed_def amount_def sample_snapshot_def sample_cost_snapshot_def
        in_int64_def int64_min_def int64_max_def split: QuotaDimension.splits option.splits)
  obtain ls where ls: "d = decide_quota sample_cost_request (sort_slice limiter_before ls)"
    "ls = concat (map (\<lambda>s. concat (map (limiter_of sample_cost_request s) dimensions)) [sample_cost_snapshot])"
    and v: "quota_nonneg (rqReserve sample_cost_request)"
      "\<forall>s\<in>set [sample_cost_snapshot]. validateQuotaSnapshot sample_cost_request s = None"
    using d by (rule EvaluateQuota_Inr)
  have "\<forall>s\<in>set [sample_cost_snapshot]. quota_ok sample_cost_request s"
    using v i64 by (auto simp: quota_ok_def)
  from decide_quota_spec [OF this, of "sort_slice limiter_before ls"] ls
  have "decision_abs d = quota_spec sample_cost_request (set [sample_cost_snapshot])" by simp
  moreover have "exhausts sample_cost_request sample_cost_snapshot QuotaDimensionCostCents"
    "snScope sample_cost_snapshot = QuotaScopeRun"
    by (simp_all add: exhausts_def governed_def demand_def amount_def sample_request_def sample_snapshot_def
        sample_cost_request_def sample_cost_snapshot_def)
  ultimately show ?thesis using d by (simp add: quota_spec_def decision_abs_def)
qed

theorem run_cost_stop_lands_witness:
  "\<exists>d bt. EvaluateQuota sample_cost_request [sample_cost_snapshot] = Inr d \<and>
     BuildRunCostExceededTermination uuid_shape sample_understanding zero_usage d [''e1''] = Inr bt"
proof -
  obtain d where d: "EvaluateQuota sample_cost_request [sample_cost_snapshot] = Inr d"
    "qdStatus d = QuotaRunCostExceeded"
    using sample_cost_quota by blast
  have i64: "\<forall>s\<in>set [sample_cost_snapshot]. snapshot_int64 s"
    by (simp add: snapshot_int64_def governed_def amount_def sample_snapshot_def sample_cost_snapshot_def
        in_int64_def int64_min_def int64_max_def split: QuotaDimension.splits option.splits)
  have r: "rqRunID sample_cost_request = RunID sample_understanding" "0 < rqAt sample_cost_request"
    by (simp_all add: sample_cost_request_def sample_request_def)
  have js: "\<forall>s\<in>set [sample_cost_snapshot]. json_time_ok (snResetAt s)" by code_simp
  have v: "run_valid uuid_shape sample_understanding" by code_simp
  have t: "\<not> Terminal sample_understanding"
    "semanticBudgetClarificationAllowed (RunStateOf sample_understanding)"
    by (simp_all add: Terminal_def sample_understanding_def semanticBudgetClarificationAllowed_def)
  have u: "usage_valid zero_usage (Limits sample_understanding)"
    "monotonicFrom zero_usage (Usage sample_understanding)" by code_simp+
  have ev: "normalizedEvidenceIDs [''e1''] = Inr [''e1'']"
    by (simp add: normalizedEvidenceIDs_def valid_id_def alnum_def char_between_def)
  have h: "valid_hash (sample_hash CHR ''e'')" by code_simp
  have "\<not> last_version sample_understanding"
    by (simp add: last_version_def sample_understanding_def sample_run_def new_run_def)
  from run_cost_stop_lands [OF d(1) i64 d(2) r js v t u ev h _ this, of 7] d(1)
  show ?thesis by auto
qed

end
