(* ===== verification/ReportModel.thy ===== *)
theory ReportModel imports Float64 begin

text \<open>
  The Report Definition of \<open>internal/report/model.go\<close>: pages of sections of blocks of zones
  of slots, and the components, data contexts, filters and interactions beside them.

  A Go slice is a list (a nil slice is the empty one: the difference shows only in the JSON
  encoding); a pointer field is an option. A \<open>float64\<close> field is a rational. Documents the
  editor carries without looking inside (the semantic IR, the resolved time
  specification, a local filter's literal) are their JSON text.
\<close>

section \<open>Header\<close>

datatype ReportType = ReportTypeReport | ReportTypeDashboard | OtherReportType string

record Metadata =
  mdID :: ID
  mdCode :: string
  mdName :: string
  mdDescription :: string
  mdReportType :: ReportType
  mdHeaderStyle :: string
  mdLocale :: string

record TemplateReference =
  trReportTemplateID :: ID
  trReportTemplateVersion :: string
  trStructureTemplateVersion :: string
  trLayoutTemplateVersion :: string
  trNarrativeTemplateVersion :: string

record ThemeReference =
  thThemeID :: ID
  thVersion :: string

record DesktopCanvas =
  dcDesignWidth :: int
  dcColumns :: int
  dcBaseCellWidth :: int
  dcBaseRowHeight :: int
  dcGapX :: int
  dcGapY :: int
  dcPaddingX :: int
  dcPaddingY :: int

record MobileCanvas =
  mcColumns :: int
  mcGapY :: int
  mcPaddingX :: int
  mcPaddingY :: int

record Canvas =
  cvDesktop :: DesktopCanvas
  cvMobile :: MobileCanvas

datatype RefreshMode = RefreshManual | RefreshOnOpen | RefreshInterval | OtherRefreshMode string

datatype FailureMode = FailurePartial | FailureStrict | OtherFailureMode string

record RuntimePolicy =
  rpRefreshMode :: RefreshMode
  rpRefreshIntervalSeconds :: int
  rpMaxConcurrentQueries :: int
  rpComponentTimeoutMS :: int
  rpExportEnabled :: bool
  rpFailureMode :: FailureMode

datatype CreatedFrom = CreatedManually | CreatedTemplate | CreatedAI | CreatedAskData
  | CreatedImport | OtherCreatedFrom string

record Provenance =
  pvCreatedFrom :: CreatedFrom
  pvSourceQuestionRunIDs :: "ID list"
  pvAIRunIDs :: "ID list"
  pvAnalysisMethodVersions :: "(string \<times> string) list"
  pvPromptVersions :: "string list"
  pvModelPolicies :: "string list"

section \<open>Data contexts and filters\<close>

datatype ParameterType = ParameterString | ParameterNumber | ParameterBoolean
  | OtherParameterType string

record DefaultParameter =
  dpName :: string
  dpType :: ParameterType
  dpStringValue :: "string option"
  dpNumberValue :: "rat option"
  dpBooleanValue :: "bool option"

record QueryPolicy =
  qpTimeoutMS :: int
  qpMaxRows :: int
  qpCacheTTLSeconds :: int

record DataContext =
  dxID :: ID
  dxDatasetID :: ID
  dxDatasetVersionID :: ID
  dxAlias :: string
  dxDefaultParameters :: "DefaultParameter list"
  dxQueryPolicy :: QueryPolicy

datatype FilterType = FilterSingleSelect | FilterMultiSelect | FilterDate | FilterDateRange
  | FilterRelativeTime | FilterNumberRange | FilterSearchSelect | FilterParameterInput
  | FilterSelect | FilterBoolean | OtherFilterType string

record FieldReference =
  frDataContextID :: ID
  frField :: string

datatype FilterScopeType = FilterScopeReport | FilterScopePage | FilterScopeSection
  | FilterScopeBlock | FilterScopeComponent | OtherFilterScope string

record FilterScope =
  fsType :: FilterScopeType
  fsTargetIDs :: "ID list"

record FilterDefaultValue =
  fvMode :: string
  fvUnit :: string
  fvOffset :: "int option"
  fvValues :: "string list"
  fvMinimum :: "rat option"
  fvMaximum :: "rat option"
  fvBoolean :: "bool option"

record GlobalFilter =
  gfID :: ID
  gfType :: FilterType
  gfLabel :: string
  gfOptions :: "string list"
  gfFieldRef :: FieldReference
  gfScope :: FilterScope
  gfDefaultValue :: "FilterDefaultValue option"

section \<open>Pages, sections, blocks, zones and slots\<close>

record SlotGrid =
  sgX :: int
  sgY :: int
  sgW :: int
  sgH :: int

record Slot =
  slID :: ID
  slGrid :: SlotGrid
  slComponentID :: ID
  slCardKind :: string
  slMergedFrom :: "ID list"

datatype ZoneType = ZoneHeader | ZoneFilter | ZoneInsight | ZoneContent | ZoneFooter
  | OtherZoneType string

datatype ZoneHeightMode = ZoneHeightAuto | ZoneHeightFixed | ZoneHeightFR | ZoneHeightHidden
  | OtherZoneHeight string

datatype OverflowPolicy = OverflowClip | OverflowScroll | OverflowExpand | OtherOverflow string

record ZoneLayout =
  zlHeightMode :: ZoneHeightMode
  zlMinHeight :: int
  zlMaxHeight :: "int option"
  zlFixedHeight :: "int option"
  zlFR :: "rat option"
  zlColumns :: int
  zlRows :: int
  zlOverflow :: OverflowPolicy
  zlEmptyPriority :: int

record Zone =
  znID :: ID
  znOrder :: int
  znType :: ZoneType
  znLayout :: ZoneLayout
  znSlots :: "Slot list"

record DesktopBlockLayout =
  dbX :: int
  dbY :: int
  dbW :: int
  dbH :: int

datatype MobileHeightMode = MobileHeightAuto | MobileHeightFixed | MobileHeightAspectRatio
  | OtherMobileHeight string

datatype MobileSlotMode = MobileSlotStack | MobileSlotCarousel | MobileSlotPrimaryOnly
  | MobileSlotCollapse | OtherMobileSlotMode string

record MobileBlockLayout =
  mbOrder :: int
  mbVisible :: bool
  mbHeightMode :: MobileHeightMode
  mbSlotMode :: MobileSlotMode
  mbFixedHeight :: "int option"
  mbAspectRatio :: "rat option"
  mbPrimarySlotID :: "ID option"

record BlockLayout =
  blDesktop :: DesktopBlockLayout
  blMobile :: MobileBlockLayout

record BlockLayoutIntent =
  biSpan :: int
  biMinRows :: int
  biNarrativeAttach :: string
  biManualOverride :: bool

datatype BlockType = BlockAnalysisCard | BlockKPIGroup | BlockChart | BlockTable | BlockContent
  | BlockFilter | OtherBlockType string

record Block =
  bkID :: ID
  bkType :: BlockType
  bkTitle :: string
  bkCardKind :: string
  bkLayoutIntent :: "BlockLayoutIntent option"
  bkLayout :: BlockLayout
  bkZones :: "Zone list"

record Section =
  scID :: ID
  scName :: string
  scOrder :: int
  scQuestion :: string
  scLayoutIntentMode :: "string option"
  scBlocks :: "Block list"

record Page =
  pgID :: ID
  pgName :: string
  pgOrder :: int
  pgSections :: "Section list"

section \<open>Components and interactions\<close>

record SemanticQueryRef =
  sqSemanticReleaseID :: ID
  sqSemanticContentHash :: ContentHash
  sqSemanticIR :: string
  sqQueryPlanHash :: ContentHash
  sqSourceQuestionRunID :: "ID option"
  sqCompilationArtifactID :: "ID option"
  sqDatasetVersionID :: "ID option"
  sqResolvedTimeSpec :: "string option"
  sqEvidenceRefs :: "string list"
  sqChartRuleVersion :: string

record FieldBinding =
  fbRole :: string
  fbField :: string
  fbLabel :: string
  fbAggregation :: string

record GlobalFilterMapping =
  gmFilterID :: ID
  gmField :: string

record LocalFilter =
  lfField :: string
  lfOperator :: string
  lfValue :: string

record ComponentFilterPolicy =
  cfGlobalMappings :: "GlobalFilterMapping list"
  cfLocalFilters :: "LocalFilter list"

datatype BindingMode = BindingSemanticIR | BindingDatasetField | OtherBindingMode string

record DataBinding =
  bdBindingMode :: BindingMode
  bdSemanticQueryRef :: "SemanticQueryRef option"
  bdDataContextID :: "ID option"
  bdDimensions :: "FieldBinding list"
  bdMeasures :: "FieldBinding list"
  bdFilterPolicy :: "ComponentFilterPolicy option"

record InsightApproach =
  iaHowToAnalyze :: string
  iaAnalyzeWhat :: string
  iaDoNotAnalyze :: string
  iaOutputExample :: string

text \<open>
  \<open>AngleInsightConfig\<close> and \<open>SubsectionInsightConfig\<close> have one shape: an approach and the
  weighted subsections, respectively components, to attend to.
\<close>

record InsightItem =
  iiID :: ID
  iiWeight :: int

record InsightConfig =
  icApproach :: InsightApproach
  icItems :: "InsightItem list"

record ComponentOptions =
  coTitle :: string
  coSubtitle :: string
  coShowLegend :: "bool option"
  coShowLabel :: "bool option"
  coSmooth :: "bool option"
  coOrientation :: string
  coTopN :: "int option"
  coColorPaletteRef :: string
  coNumberFormat :: string
  coNullPolicy :: string
  coAnimation :: "bool option"
  coMobileLegendMode :: string
  coRichText :: string
  coImageAssetID :: "ID option"
  coInsightRole :: string
  coTablePageSize :: "int option"
  coCardVariant :: string
  coAngleInsight :: "InsightConfig option"
  coSubsectionInsight :: "InsightConfig option"

record ComponentTemplateReference =
  ctType :: string
  ctVersion :: string

record Component =
  cpID :: ID
  cpTemplateRef :: ComponentTemplateReference
  cpDataBinding :: "DataBinding option"
  cpOptions :: ComponentOptions

record FieldMapping =
  fmSourceField :: string
  fmTargetField :: string

record Interaction =
  inID :: ID
  inSourceComponentID :: ID
  inEvent :: string
  inAction :: string
  inTargetComponentIDs :: "ID list"
  inTargetPageID :: "ID option"
  inFieldMappings :: "FieldMapping list"

record ReportDefinition =
  rdSchemaVersion :: string
  rdMetadata :: Metadata
  rdTemplateRef :: TemplateReference
  rdThemeRef :: ThemeReference
  rdCanvas :: Canvas
  rdDataContexts :: "DataContext list"
  rdGlobalFilters :: "GlobalFilter list"
  rdPages :: "Page list"
  rdComponents :: "Component list"
  rdInteractions :: "Interaction list"
  rdRuntimePolicy :: RuntimePolicy
  rdProvenance :: Provenance

end
