(* ===== verification/InsightWeights.thy ===== *)
theory InsightWeights imports ReportModel begin

text \<open>
  The insight configurations of \<open>internal/report/model.go\<close>: the author-owned approach and the
  weighted items it attends to, its validation and its default.
\<close>

section \<open>Weights of an insight configuration\<close>

definition MaxStringLength :: nat where "MaxStringLength = 4096"
definition MaxBlocks :: nat where "MaxBlocks = 300"
definition MaxComponents :: nat where "MaxComponents = 500"

text \<open>
  \<open>strings.TrimSpace\<close> for the ASCII white space (the multi-byte spaces of Unicode are not
  trimmed by the model), and \<open>len([]rune(s))\<close> of a valid UTF-8 text: the bytes that do not
  continue a rune.
\<close>

definition space :: "char \<Rightarrow> bool" where
  "space c \<longleftrightarrow> c \<in> {CHR 0x09, CHR 0x0A, CHR 0x0B, CHR 0x0C, CHR 0x0D, CHR 0x20}"

definition trim_space :: "string \<Rightarrow> string" where
  "trim_space s = rev (dropWhile space (rev (dropWhile space s)))"

definition rune_count :: "string \<Rightarrow> nat" where
  "rune_count s = length (filter (\<lambda>c. \<not> char_between CHR 0x80 CHR 0xBF c) s)"

datatype insight_error = InsightText | InsightCount | InsightItemID | InsightDuplicate
  | InsightWeight | InsightTotal

definition default_items :: "ID list \<Rightarrow> InsightItem list" where
  "default_items ids =
     (let n = int (length ids) in
      if ids = [] then []
      else map (\<lambda>(index, i). \<lparr> iiID = i,
             iiWeight = (if int index < 100 mod n then 100 div n + 1 else 100 div n) \<rparr>)
           (enumerate 0 ids))"

fun check_items :: "ID set \<Rightarrow> int \<Rightarrow> InsightItem list \<Rightarrow> insight_error + int" where
  "check_items seen acc [] = Inr acc"
| "check_items seen acc (i # is) =
     (if \<not> valid_id (iiID i) then Inl InsightItemID
      else if iiID i \<in> seen then Inl InsightDuplicate
      else if iiWeight i < 1 \<or> iiWeight i > 100 then Inl InsightWeight
      else check_items (insert (iiID i) seen) (acc + iiWeight i) is)"

text \<open>\<open>limit\<close> is \<open>MaxBlocks\<close> for angles and \<open>MaxComponents\<close> for subsections.\<close>

definition insight_config_error :: "nat \<Rightarrow> InsightConfig \<Rightarrow> insight_error option" where
  "insight_config_error limit c =
     (let a = icApproach c in
      if list_ex (\<lambda>v. trim_space v = [] \<or> rune_count v > MaxStringLength)
           [iaHowToAnalyze a, iaAnalyzeWhat a, iaDoNotAnalyze a, iaOutputExample a]
      then Some InsightText
      else if icItems c = [] \<or> length (icItems c) > limit then Some InsightCount
      else (case check_items {} 0 (icItems c) of
         Inl e \<Rightarrow> Some e
       | Inr n \<Rightarrow> if n \<noteq> 100 then Some InsightTotal else None))"

definition default_config :: "InsightApproach \<Rightarrow> ID list \<Rightarrow> InsightConfig" where
  "default_config approach ids = \<lparr> icApproach = approach, icItems = default_items ids \<rparr>"

lemma default_items_ids: "map iiID (default_items ids) = ids"
  by (simp add: default_items_def Let_def o_def case_prod_beta)

definition default_weight :: "nat \<Rightarrow> nat \<Rightarrow> int" where
  "default_weight n k = (if int k < 100 mod int n then 100 div int n + 1 else 100 div int n)"

lemma default_items_length [simp]: "length (default_items ids) = length ids"
  using default_items_ids [of ids] by (metis length_map)

lemma default_items_weights:
  "map iiWeight (default_items ids) = map (default_weight (length ids)) [0..<length ids]"
proof (cases "ids = []")
  case True
  then show ?thesis by (simp add: default_items_def)
next
  case False
  show ?thesis
    by (rule nth_equalityI)
      (simp_all add: default_items_def False Let_def case_prod_beta default_weight_def nth_enumerate_eq)
qed

lemma default_weight_range:
  assumes "0 < n" and "n \<le> 100"
  shows "1 \<le> default_weight n k \<and> default_weight n k \<le> 100"
proof -
  have "1 * int n \<le> 100 div int n * int n + 100 mod int n" "100 mod int n < int n" using assms by simp_all
  then have "0 < 100 div int n" using assms by (simp add: pos_imp_zdiv_pos_iff)
  moreover have "100 div int n \<le> 100 div 1" using assms by (intro zdiv_mono2) simp_all
  moreover have "100 mod int n = 0" if "100 div int n = 100"
  proof -
    have "100 div int n * int n \<le> 100" using div_mult_mod_eq [of 100 "int n"] pos_mod_sign [of "int n" 100] assms
      by linarith
    then have "n = 1" using that assms by simp
    then show ?thesis by simp
  qed
  moreover from this have "int k < 100 mod int n \<Longrightarrow> 100 div int n \<noteq> 100" by auto
  ultimately have "100 div int n \<le> 100" "1 \<le> 100 div int n" "int k < 100 mod int n \<longrightarrow> 100 div int n \<le> 99"
    by force+
  then show ?thesis by (simp add: default_weight_def)
qed

lemma remainder_sum:
  "sum_list (map (\<lambda>k. if int k < r then b + 1 else b) [0..<n]) = b * int n + min (int n) (max 0 r)"
  by (induction n) (auto simp: algebra_simps min_def max_def)

lemma default_weights_total:
  assumes "0 < n"
  shows "sum_list (map (default_weight n) [0..<n]) = 100"
proof -
  have "sum_list (map (default_weight n) [0..<n])
      = (100 div int n) * int n + min (int n) (max 0 (100 mod int n))"
    unfolding default_weight_def by (rule remainder_sum)
  also have "min (int n) (max 0 (100 mod int n)) = 100 mod int n"
    using assms pos_mod_bound [of "int n" 100] pos_mod_sign [of "int n" 100] by linarith
  finally show ?thesis by simp
qed

lemma check_items_Inr:
  "check_items seen acc xs = Inr n \<longleftrightarrow>
     (\<forall>i\<in>set xs. valid_id (iiID i) \<and> iiID i \<notin> seen \<and> 1 \<le> iiWeight i \<and> iiWeight i \<le> 100) \<and>
     distinct (map iiID xs) \<and> n = acc + sum_list (map iiWeight xs)"
proof (induction xs arbitrary: seen acc)
  case Nil
  then show ?case by auto
next
  case (Cons i xs)
  have "(\<forall>j\<in>set xs. iiID j \<notin> insert (iiID i) seen) \<longleftrightarrow>
      (\<forall>j\<in>set xs. iiID j \<notin> seen) \<and> iiID i \<notin> set (map iiID xs)" by (auto simp: image_iff)
  then show ?case using Cons by (auto simp: not_less)
qed

text \<open>Weights of at least 1 that total 100 leave room for 100 items.\<close>

lemma sum_list_ge_length: "(\<forall>x\<in>set xs. 1 \<le> x) \<Longrightarrow> int (length xs) \<le> sum_list xs"
  by (induction xs) auto

lemma insight_config_valid:
  assumes "insight_config_error limit c = None"
  shows "sum_list (map iiWeight (icItems c)) = 100" and "length (icItems c) \<le> 100"
    and "distinct (map iiID (icItems c))"
proof -
  have c: "check_items {} 0 (icItems c) = Inr 100"
    using assms by (auto simp: insight_config_error_def Let_def split: if_splits sum.splits)
  then have f: "\<forall>w\<in>set (map iiWeight (icItems c)). 1 \<le> w" "distinct (map iiID (icItems c))"
    and s: "sum_list (map iiWeight (icItems c)) = 100"
    unfolding check_items_Inr by auto
  show "sum_list (map iiWeight (icItems c)) = 100" "distinct (map iiID (icItems c))" by (fact s f)+
  show "length (icItems c) \<le> 100" using sum_list_ge_length [OF f(1)] s by simp
qed

definition approach_ok :: "InsightApproach \<Rightarrow> bool" where
  "approach_ok a \<longleftrightarrow> list_all (\<lambda>v. trim_space v \<noteq> [] \<and> rune_count v \<le> MaxStringLength)
     [iaHowToAnalyze a, iaAnalyzeWhat a, iaDoNotAnalyze a, iaOutputExample a]"

text \<open>The weights of an insight configuration: every configuration that validates
  distributes exactly 100 over at most 100 distinct items, and the default configuration
  of valid, distinct items validates if and only if there are between 1 and 100 of them,
  although up to \<open>limit\<close> (300 blocks, 500 components) are admitted.\<close>

theorem insight_weights:
  assumes "approach_ok a" and "list_all valid_id ids" and "distinct ids" and "100 \<le> limit"
  shows "(insight_config_error limit (default_config a ids) = None \<longleftrightarrow> ids \<noteq> [] \<and> length ids \<le> 100) \<and>
    (\<forall>c. insight_config_error limit c = None \<longrightarrow>
       sum_list (map iiWeight (icItems c)) = 100 \<and> length (icItems c) \<le> 100 \<and> distinct (map iiID (icItems c)))"
proof -
  have texts: "\<not> list_ex (\<lambda>v. trim_space v = [] \<or> rune_count v > MaxStringLength)
      [iaHowToAnalyze a, iaAnalyzeWhat a, iaDoNotAnalyze a, iaOutputExample a]"
    using assms(1) by (simp add: approach_ok_def not_less)
  have "insight_config_error limit (default_config a ids) = None" if "ids \<noteq> []" "length ids \<le> 100"
  proof -
    have n: "0 < length ids" using that by simp
    have w: "\<forall>w\<in>set (map iiWeight (default_items ids)). 1 \<le> w \<and> w \<le> 100"
      unfolding default_items_weights using default_weight_range [OF n that(2)] by simp
    have i: "\<forall>j\<in>set (map iiID (default_items ids)). valid_id j"
      unfolding default_items_ids using assms(2) by (simp add: list_all_iff)
    have "check_items {} 0 (default_items ids) = Inr 100"
      unfolding check_items_Inr default_items_ids default_items_weights default_weights_total [OF n]
      using w i assms(3) by simp
    moreover have "default_items ids \<noteq> []" using that(1) by (metis default_items_length length_0_conv)
    ultimately show ?thesis using that assms(4) texts
      by (simp add: insight_config_error_def default_config_def Let_def)
  qed
  moreover have "ids \<noteq> [] \<and> length ids \<le> 100" if v: "insight_config_error limit (default_config a ids) = None"
  proof
    show "length ids \<le> 100" using insight_config_valid(2) [OF v] by (simp add: default_config_def)
    show "ids \<noteq> []" using v by (auto simp: insight_config_error_def default_config_def default_items_def Let_def
        split: if_splits)
  qed
  ultimately show ?thesis using insight_config_valid by blast
qed

definition sample_approach :: InsightApproach where
  "sample_approach = \<lparr> iaHowToAnalyze = ''compare'', iaAnalyzeWhat = ''sales'',
     iaDoNotAnalyze = ''causes'', iaOutputExample = ''summary'' \<rparr>"

theorem insight_weights_witness:
  "insight_config_error MaxBlocks (default_config sample_approach [''a'', ''b'', ''c'']) = None"
proof -
  have "approach_ok sample_approach" "list_all valid_id [''a'', ''b'', ''c'']" by code_simp+
  moreover have "distinct [''a'', ''b'', ''c'']" "100 \<le> MaxBlocks" by (simp_all add: MaxBlocks_def)
  ultimately show ?thesis using insight_weights [of sample_approach "[''a'', ''b'', ''c'']" MaxBlocks] by auto
qed

end
