(* ===== verification/IntervalTree.thy ===== *)
theory IntervalTree imports ReportModel "HOL-Library.Monad_Syntax" "HOL-Library.Product_Lexorder" begin

text \<open>
  The AVL interval tree of \<open>internal/report/compiler/layout.go\<close>, which collision detection
  searches for blocks that overlap a vertical range. A node is a constructor; the code
  updates nodes it owns in place, which is the functional update of the model. A nil
  dereference in a rotation is \<open>None\<close>: that it never happens is part of what is proved.
\<close>

section \<open>Items and trees\<close>

record collisionItem =
  ciID :: ID
  ciX :: int
  ciY :: int
  ciW :: int
  ciH :: int
  ciOrdinal :: int

definition xend :: "collisionItem \<Rightarrow> int" where "xend i = wrap64 (ciX i + ciW i)"
definition yend :: "collisionItem \<Rightarrow> int" where "yend i = wrap64 (ciY i + ciH i)"

datatype intervalNode = Nil_node
  | Node collisionItem intervalNode intervalNode int int

definition intervalItemLess :: "collisionItem \<Rightarrow> collisionItem \<Rightarrow> bool" where
  "intervalItemLess left right =
     (if ciY left \<noteq> ciY right then ciY left < ciY right
      else if ciID left \<noteq> ciID right then ciID left < ciID right
      else ciOrdinal left < ciOrdinal right)"

fun intervalHeight :: "intervalNode \<Rightarrow> int" where
  "intervalHeight Nil_node = 0"
| "intervalHeight (Node _ _ _ h _) = h"

fun intervalMaxEnd :: "intervalNode \<Rightarrow> int" where
  "intervalMaxEnd Nil_node = int64_min"
| "intervalMaxEnd (Node _ _ _ _ m) = m"

text \<open>\<open>updateIntervalNode\<close>: a node with its height and maximal end recomputed.\<close>

definition updateIntervalNode :: "collisionItem \<Rightarrow> intervalNode \<Rightarrow> intervalNode \<Rightarrow> intervalNode" where
  "updateIntervalNode i l r = Node i l r (1 + max (intervalHeight l) (intervalHeight r))
     (max (yend i) (max (intervalMaxEnd l) (intervalMaxEnd r)))"

fun rotateIntervalRight :: "intervalNode \<Rightarrow> intervalNode option" where
  "rotateIntervalRight (Node i (Node j l m _ _) r _ _) =
     Some (updateIntervalNode j l (updateIntervalNode i m r))"
| "rotateIntervalRight _ = None"

fun rotateIntervalLeft :: "intervalNode \<Rightarrow> intervalNode option" where
  "rotateIntervalLeft (Node i l (Node j m r _ _) _ _) =
     Some (updateIntervalNode j (updateIntervalNode i l m) r)"
| "rotateIntervalLeft _ = None"

fun child_left :: "intervalNode \<Rightarrow> intervalNode option" where
  "child_left Nil_node = None"
| "child_left (Node _ l _ _ _) = Some l"

fun child_right :: "intervalNode \<Rightarrow> intervalNode option" where
  "child_right Nil_node = None"
| "child_right (Node _ _ r _ _) = Some r"

text \<open>\<open>balanceIntervalNode\<close> of the non-nil node with item \<open>i\<close> and children \<open>l\<close> and \<open>r\<close>.\<close>

definition balanceIntervalNode ::
  "collisionItem \<Rightarrow> intervalNode \<Rightarrow> intervalNode \<Rightarrow> intervalNode option" where
  "balanceIntervalNode i l r =
     (let balance = intervalHeight l - intervalHeight r in
      if balance > 1 then do {
        ll \<leftarrow> child_left l;
        lr \<leftarrow> child_right l;
        l' \<leftarrow> (if intervalHeight ll < intervalHeight lr then rotateIntervalLeft l else Some l);
        rotateIntervalRight (Node i l' r 0 0)
      }
      else if balance < -1 then do {
        rr \<leftarrow> child_right r;
        rl \<leftarrow> child_left r;
        r' \<leftarrow> (if intervalHeight rr < intervalHeight rl then rotateIntervalRight r else Some r);
        rotateIntervalLeft (Node i l r' 0 0)
      }
      else Some (updateIntervalNode i l r))"

fun intervalInsert :: "intervalNode \<Rightarrow> collisionItem \<Rightarrow> intervalNode option" where
  "intervalInsert Nil_node item = Some (Node item Nil_node Nil_node 1 (yend item))"
| "intervalInsert (Node i l r _ _) item =
     (if intervalItemLess item i then do {
        l' \<leftarrow> intervalInsert l item;
        balanceIntervalNode i l' r
      } else do {
        r' \<leftarrow> intervalInsert r item;
        balanceIntervalNode i l r'
      })"

text \<open>The loop to the leftmost node below a right child.\<close>

fun leftmost :: "collisionItem \<Rightarrow> intervalNode \<Rightarrow> collisionItem" where
  "leftmost i Nil_node = i"
| "leftmost i (Node j l _ _ _) = leftmost j l"

fun intervalDelete :: "intervalNode \<Rightarrow> collisionItem \<Rightarrow> intervalNode option" where
  "intervalDelete Nil_node item = Some Nil_node"
| "intervalDelete (Node i l r h m) item =
     (if intervalItemLess item i then do {
        l' \<leftarrow> intervalDelete l item;
        balanceIntervalNode i l' r
      }
      else if intervalItemLess i item then do {
        r' \<leftarrow> intervalDelete r item;
        balanceIntervalNode i l r'
      }
      else if l = Nil_node then Some r
      else (case r of
          Nil_node \<Rightarrow> Some l
        | Node j rl rr _ _ \<Rightarrow>
           (let successor = leftmost j rl in do {
              r' \<leftarrow> intervalDelete r successor;
              balanceIntervalNode successor l r'
            })))"

fun intervalOverlaps :: "intervalNode \<Rightarrow> int \<Rightarrow> int \<Rightarrow> collisionItem list \<Rightarrow> collisionItem list" where
  "intervalOverlaps Nil_node minY maxY result = result"
| "intervalOverlaps (Node i l r h m) minY maxY result =
     (if m \<le> minY then result
      else (let r1 = intervalOverlaps l minY maxY result;
                r2 = (if ciY i < maxY \<and> yend i > minY then r1 @ [i] else r1)
            in if ciY i < maxY then intervalOverlaps r minY maxY r2 else r2))"

section \<open>Balance\<close>

fun inorder :: "intervalNode \<Rightarrow> collisionItem list" where
  "inorder Nil_node = []"
| "inorder (Node i l r _ _) = inorder l @ i # inorder r"

text \<open>The stored heights and maximal ends are right and siblings differ by at most one level.\<close>

fun avl :: "intervalNode \<Rightarrow> bool" where
  "avl Nil_node = True"
| "avl (Node i l r h m) \<longleftrightarrow> avl l \<and> avl r \<and>
     intervalHeight l \<le> intervalHeight r + 1 \<and> intervalHeight r \<le> intervalHeight l + 1 \<and>
     h = 1 + max (intervalHeight l) (intervalHeight r) \<and>
     m = max (yend i) (max (intervalMaxEnd l) (intervalMaxEnd r))"

lemma avl_height_nonneg: "avl t \<Longrightarrow> 0 \<le> intervalHeight t"
  by (induction t) auto

lemma avl_height_pos: "avl t \<Longrightarrow> 0 < intervalHeight t \<Longrightarrow> \<exists>i l r h m. t = Node i l r h m"
  by (cases t) auto

text \<open>
  Rebalancing a node whose subtrees differ by at most two levels: it never dereferences
  nil, keeps the order, restores balance, and the height is that of the node or one less.
\<close>

lemma balance_left_heavy:
  assumes "avl l" "avl r" "intervalHeight l = intervalHeight r + 2"
  shows "\<exists>t. balanceIntervalNode i l r = Some t \<and> avl t \<and> inorder t = inorder l @ i # inorder r \<and>
    intervalHeight l \<le> intervalHeight t \<and> intervalHeight t \<le> intervalHeight l + 1"
proof -
  have r0: "0 \<le> intervalHeight r" using assms(2) by (rule avl_height_nonneg)
  then obtain j ll lr h m where l: "l = Node j ll lr h m"
    using assms avl_height_pos [of l] by auto
  show ?thesis
  proof (cases "intervalHeight ll < intervalHeight lr")
    case False
    then show ?thesis using assms l
      by (auto simp: balanceIntervalNode_def updateIntervalNode_def max_def)
  next
    case True
    then obtain k a b h' m' where lr: "lr = Node k a b h' m'"
      using assms l avl_height_nonneg [of ll] avl_height_pos [of lr] by auto
    show ?thesis using True assms l lr
      by (auto simp: balanceIntervalNode_def updateIntervalNode_def max_def)
  qed
qed

lemma balance_right_heavy:
  assumes "avl l" "avl r" "intervalHeight r = intervalHeight l + 2"
  shows "\<exists>t. balanceIntervalNode i l r = Some t \<and> avl t \<and> inorder t = inorder l @ i # inorder r \<and>
    intervalHeight r \<le> intervalHeight t \<and> intervalHeight t \<le> intervalHeight r + 1"
proof -
  have l0: "0 \<le> intervalHeight l" using assms(1) by (rule avl_height_nonneg)
  then obtain j rl rr h m where r: "r = Node j rl rr h m"
    using assms avl_height_pos [of r] by auto
  show ?thesis
  proof (cases "intervalHeight rr < intervalHeight rl")
    case False
    then show ?thesis using assms r
      by (auto simp: balanceIntervalNode_def updateIntervalNode_def max_def)
  next
    case True
    then obtain k a b h' m' where rl: "rl = Node k a b h' m'"
      using assms r avl_height_nonneg [of rr] avl_height_pos [of rl] by auto
    show ?thesis using True assms r rl
      by (auto simp: balanceIntervalNode_def updateIntervalNode_def max_def)
  qed
qed

lemma balance_even:
  assumes "avl l" "avl r" "\<bar>intervalHeight l - intervalHeight r\<bar> \<le> 1"
  shows "\<exists>t. balanceIntervalNode i l r = Some t \<and> avl t \<and> inorder t = inorder l @ i # inorder r \<and>
    intervalHeight t = 1 + max (intervalHeight l) (intervalHeight r)"
proof -
  have "balanceIntervalNode i l r = Some (updateIntervalNode i l r)"
  proof -
    have "\<not> intervalHeight l - intervalHeight r > 1" "\<not> intervalHeight l - intervalHeight r < - 1"
      using assms(3) by linarith+
    then show ?thesis unfolding balanceIntervalNode_def Let_def by (simp only: if_False)
  qed
  moreover have "intervalHeight l \<le> intervalHeight r + 1" "intervalHeight r \<le> intervalHeight l + 1"
    using assms(3) by linarith+
  ultimately show ?thesis using assms(1,2) by (simp add: updateIntervalNode_def)
qed

lemma balance_node:
  assumes "avl l" "avl r" "\<bar>intervalHeight l - intervalHeight r\<bar> \<le> 2"
  shows "\<exists>t. balanceIntervalNode i l r = Some t \<and> avl t \<and> inorder t = inorder l @ i # inorder r \<and>
    max (intervalHeight l) (intervalHeight r) \<le> intervalHeight t \<and>
    intervalHeight t \<le> 1 + max (intervalHeight l) (intervalHeight r) \<and>
    (\<bar>intervalHeight l - intervalHeight r\<bar> \<le> 1 \<longrightarrow>
       intervalHeight t = 1 + max (intervalHeight l) (intervalHeight r))"
proof -
  consider "\<bar>intervalHeight l - intervalHeight r\<bar> \<le> 1" | "intervalHeight l = intervalHeight r + 2"
    | "intervalHeight r = intervalHeight l + 2"
    using assms(3) by linarith
  then show ?thesis
  proof cases
    case 1
    then show ?thesis using balance_even [OF assms(1,2), of i] by auto
  next
    case 2
    then show ?thesis using balance_left_heavy [OF assms(1,2), of i] by auto
  next
    case 3
    then show ?thesis using balance_right_heavy [OF assms(1,2), of i] by auto
  qed
qed

section \<open>Order\<close>

text \<open>\<open>intervalItemLess\<close> compares a key, which the ordinal makes unique.\<close>

definition interval_key :: "collisionItem \<Rightarrow> int \<times> ID \<times> int" where
  "interval_key i = (ciY i, ciID i, ciOrdinal i)"

lemma intervalItemLess_key: "intervalItemLess a b = lt_on interval_key a b"
  by (auto simp: intervalItemLess_def lt_on_def interval_key_def less_prod_simp)

abbreviation items_ordered :: "collisionItem list \<Rightarrow> bool" where
  "items_ordered \<equiv> sorted_wrt intervalItemLess"

lemma less_trans: "intervalItemLess a b \<Longrightarrow> intervalItemLess b c \<Longrightarrow> intervalItemLess a c"
  unfolding intervalItemLess_key by (rule key_order.lt_trans)

lemma less_irrefl [simp]: "\<not> intervalItemLess a a"
  unfolding intervalItemLess_key by (rule key_order.lt_irrefl)

lemma insort_middle_left:
  "\<not> intervalItemLess y x \<Longrightarrow>
   insort_by intervalItemLess x (as @ y # bs) = insort_by intervalItemLess x as @ y # bs"
  by (induction as) auto

lemma insort_middle_right:
  "\<forall>a\<in>set as. intervalItemLess a x \<Longrightarrow> intervalItemLess y x \<Longrightarrow>
   insort_by intervalItemLess x (as @ y # bs) = as @ y # insort_by intervalItemLess x bs"
  by (induction as) auto

lemma intervalInsert_spec:
  assumes "avl t" "items_ordered (inorder t)" "\<forall>i\<in>set (inorder t). interval_key i \<noteq> interval_key x"
  shows "\<exists>t'. intervalInsert t x = Some t' \<and> avl t' \<and>
    inorder t' = insort_by intervalItemLess x (inorder t) \<and>
    intervalHeight t \<le> intervalHeight t' \<and> intervalHeight t' \<le> intervalHeight t + 1"
  using assms
proof (induction t)
  case Nil_node
  then show ?case by (simp add: int64_min_def yend_def wrap64_def)
next
  case (Node i l r h m)
  have o: "items_ordered (inorder l)" "items_ordered (inorder r)"
    "\<forall>a\<in>set (inorder l). intervalItemLess a i"
    using Node.prems(2) by (auto simp: sorted_wrt_append)
  show ?case
  proof (cases "intervalItemLess x i")
    case True
    obtain l' where l': "intervalInsert l x = Some l'" "avl l'"
        "inorder l' = insort_by intervalItemLess x (inorder l)"
        "intervalHeight l \<le> intervalHeight l'" "intervalHeight l' \<le> intervalHeight l + 1"
      using Node.IH(1) Node.prems o by auto
    have "\<not> intervalItemLess i x" using True less_trans less_irrefl by blast
    moreover have "avl r" and "\<bar>intervalHeight l' - intervalHeight r\<bar> \<le> 2"
      using l' Node.prems(1) by auto
    then obtain t' where "balanceIntervalNode i l' r = Some t'" "avl t'"
        "inorder t' = inorder l' @ i # inorder r"
        "max (intervalHeight l') (intervalHeight r) \<le> intervalHeight t'"
        "intervalHeight t' \<le> 1 + max (intervalHeight l') (intervalHeight r)"
        "\<bar>intervalHeight l' - intervalHeight r\<bar> \<le> 1 \<longrightarrow>
           intervalHeight t' = 1 + max (intervalHeight l') (intervalHeight r)"
      using balance_node [OF l'(2)] by blast
    ultimately show ?thesis
      using True l' Node.prems(1) by (auto simp: insort_middle_left)
  next
    case False
    have ix: "intervalItemLess i x"
      using False Node.prems(3) by (auto simp: intervalItemLess_key lt_on_def not_less order_le_less)
    obtain r' where r': "intervalInsert r x = Some r'" "avl r'"
        "inorder r' = insort_by intervalItemLess x (inorder r)"
        "intervalHeight r \<le> intervalHeight r'" "intervalHeight r' \<le> intervalHeight r + 1"
      using Node.IH(2) Node.prems o by auto
    have "\<forall>a\<in>set (inorder l). intervalItemLess a x" using o(3) ix less_trans by blast
    moreover have "avl l" and "\<bar>intervalHeight l - intervalHeight r'\<bar> \<le> 2"
      using r' Node.prems(1) by auto
    then obtain t' where "balanceIntervalNode i l r' = Some t'" "avl t'"
        "inorder t' = inorder l @ i # inorder r'"
        "max (intervalHeight l) (intervalHeight r') \<le> intervalHeight t'"
        "intervalHeight t' \<le> 1 + max (intervalHeight l) (intervalHeight r')"
        "\<bar>intervalHeight l - intervalHeight r'\<bar> \<le> 1 \<longrightarrow>
           intervalHeight t' = 1 + max (intervalHeight l) (intervalHeight r')"
      using balance_node [OF _ r'(2)] by blast
    ultimately show ?thesis
      using False ix r' Node.prems(1) by (auto simp: insort_middle_right)
  qed
qed

lemma inorder_leftmost: "inorder (Node j rl rr h m) = leftmost j rl # tl (inorder (Node j rl rr h m))"
  by (induction rl arbitrary: j rr h m) (simp, metis append_Cons inorder.simps(2) leftmost.simps(2) list.sel(3))

abbreviation same_item :: "collisionItem \<Rightarrow> collisionItem \<Rightarrow> bool" where
  "same_item x i \<equiv> interval_key i = interval_key x"

lemma key_less_imp: "intervalItemLess a b \<Longrightarrow> interval_key a < interval_key b"
  by (simp add: intervalItemLess_key lt_on_def)

lemma filter_keep: "(\<forall>a\<in>set xs. interval_key a \<noteq> interval_key x) \<Longrightarrow> filter (\<lambda>i. \<not> same_item x i) xs = xs"
  by (simp add: filter_id_conv)

lemma intervalDelete_spec:
  assumes "avl t" "items_ordered (inorder t)"
  shows "\<exists>t'. intervalDelete t x = Some t' \<and> avl t' \<and>
    inorder t' = filter (\<lambda>i. \<not> same_item x i) (inorder t) \<and>
    intervalHeight t - 1 \<le> intervalHeight t' \<and> intervalHeight t' \<le> intervalHeight t"
  using assms
proof (induction t arbitrary: x)
  case Nil_node
  then show ?case by simp
next
  case (Node i l r h m)
  have o: "items_ordered (inorder l)" "items_ordered (inorder r)"
    "\<forall>a\<in>set (inorder l). intervalItemLess a i" "\<forall>b\<in>set (inorder r). intervalItemLess i b"
    using Node.prems(2) by (auto simp: sorted_wrt_append)
  have av: "avl l" "avl r" "0 \<le> intervalHeight l" "0 \<le> intervalHeight r"
    using Node.prems(1) avl_height_nonneg by auto
  consider (lt) "intervalItemLess x i" | (gt) "intervalItemLess i x" | (eq) "interval_key x = interval_key i"
    by (metis intervalItemLess_key lt_on_def less_linear)
  then show ?case
  proof cases
    case lt
    obtain l' where l': "intervalDelete l x = Some l'" "avl l'"
        "inorder l' = filter (\<lambda>i. \<not> same_item x i) (inorder l)"
        "intervalHeight l - 1 \<le> intervalHeight l'" "intervalHeight l' \<le> intervalHeight l"
      using Node.IH(1) [OF av(1) o(1), of x] by blast
    have "\<forall>b\<in>set (i # inorder r). interval_key b \<noteq> interval_key x"
      using lt o(4) less_trans key_less_imp by (metis less_irrefl order_less_irrefl set_ConsD)
    then have keep: "filter (\<lambda>i. \<not> same_item x i) (i # inorder r) = i # inorder r" by (rule filter_keep)
    have "\<bar>intervalHeight l' - intervalHeight r\<bar> \<le> 2" using l' Node.prems(1) by auto
    then obtain t' where "balanceIntervalNode i l' r = Some t'" "avl t'"
        "inorder t' = inorder l' @ i # inorder r"
        "max (intervalHeight l') (intervalHeight r) \<le> intervalHeight t'"
        "intervalHeight t' \<le> 1 + max (intervalHeight l') (intervalHeight r)"
        "\<bar>intervalHeight l' - intervalHeight r\<bar> \<le> 1 \<longrightarrow>
           intervalHeight t' = 1 + max (intervalHeight l') (intervalHeight r)"
      using balance_node [OF l'(2) av(2)] by blast
    then show ?thesis using lt l' keep Node.prems(1) by auto
  next
    case gt
    then have nlt: "\<not> intervalItemLess x i" using less_trans less_irrefl by blast
    obtain r' where r': "intervalDelete r x = Some r'" "avl r'"
        "inorder r' = filter (\<lambda>i. \<not> same_item x i) (inorder r)"
        "intervalHeight r - 1 \<le> intervalHeight r'" "intervalHeight r' \<le> intervalHeight r"
      using Node.IH(2) [OF av(2) o(2), of x] by blast
    have k: "\<forall>b\<in>set (inorder l). interval_key b \<noteq> interval_key x" "interval_key i \<noteq> interval_key x"
      using gt o(3) less_trans key_less_imp by (metis order_less_irrefl)+
    have "\<bar>intervalHeight l - intervalHeight r'\<bar> \<le> 2" using r' Node.prems(1) by auto
    then obtain t' where "balanceIntervalNode i l r' = Some t'" "avl t'"
        "inorder t' = inorder l @ i # inorder r'"
        "max (intervalHeight l) (intervalHeight r') \<le> intervalHeight t'"
        "intervalHeight t' \<le> 1 + max (intervalHeight l) (intervalHeight r')"
        "\<bar>intervalHeight l - intervalHeight r'\<bar> \<le> 1 \<longrightarrow>
           intervalHeight t' = 1 + max (intervalHeight l) (intervalHeight r')"
      using balance_node [OF av(1) r'(2)] by blast
    then show ?thesis using gt nlt r' filter_keep [OF k(1)] k(2) Node.prems(1) by auto
  next
    case eq
    then have n: "\<not> intervalItemLess x i" "\<not> intervalItemLess i x"
      by (simp_all add: intervalItemLess_key lt_on_def)
    have k: "\<forall>b\<in>set (inorder l). interval_key b \<noteq> interval_key x"
        "\<forall>b\<in>set (inorder r). interval_key b \<noteq> interval_key x"
      using eq o(3,4) key_less_imp by (metis order_less_irrefl)+
    have f: "filter (\<lambda>i. \<not> same_item x i) (inorder (Node i l r h m)) = inorder l @ inorder r"
      using filter_keep [OF k(1)] filter_keep [OF k(2)] eq by simp
    consider (a) "l = Nil_node" | (b) "l \<noteq> Nil_node" "r = Nil_node"
      | (c) j rl rr h' m' where "l \<noteq> Nil_node" "r = Node j rl rr h' m'"
      by (cases r) auto
    then show ?thesis
    proof cases
      case a
      then show ?thesis using n f Node.prems(1) av by auto
    next
      case b
      then show ?thesis using n f Node.prems(1) av by auto
    next
      case c
      define s where "s = leftmost j rl"
      have rs: "inorder r = s # tl (inorder r)"
        unfolding c(2) s_def by (rule inorder_leftmost)
      then have tl: "\<forall>b\<in>set (tl (inorder r)). interval_key b \<noteq> interval_key s"
        using o(2) key_less_imp by (metis order_less_irrefl sorted_wrt.simps(2))
      have fs: "filter (\<lambda>i. \<not> same_item s i) (inorder r) = tl (inorder r)"
        by (subst rs) (simp add: filter_keep [OF tl])
      obtain r' where r': "intervalDelete r s = Some r'" "avl r'" "inorder r' = tl (inorder r)"
          "intervalHeight r - 1 \<le> intervalHeight r'" "intervalHeight r' \<le> intervalHeight r"
        using Node.IH(2) [OF av(2) o(2), of s] fs by auto
      have "\<bar>intervalHeight l - intervalHeight r'\<bar> \<le> 2" using r' Node.prems(1) by auto
      then obtain t' where t': "balanceIntervalNode s l r' = Some t'" "avl t'"
          "inorder t' = inorder l @ s # inorder r'"
          "max (intervalHeight l) (intervalHeight r') \<le> intervalHeight t'"
          "intervalHeight t' \<le> 1 + max (intervalHeight l) (intervalHeight r')"
          "\<bar>intervalHeight l - intervalHeight r'\<bar> \<le> 1 \<longrightarrow>
             intervalHeight t' = 1 + max (intervalHeight l) (intervalHeight r')"
        using balance_node [OF av(1) r'(2)] by blast
      have "intervalDelete (Node i l r h m) x = Some t'"
        using n c r'(1) t'(1) by (simp add: s_def)
      moreover have "inorder t' = inorder l @ inorder r" using t'(3) r'(3) rs by simp
      ultimately show ?thesis using t' r' f Node.prems(1) by auto
    qed
  qed
qed

section \<open>Search\<close>

lemma avl_maxEnd: "avl t \<Longrightarrow> i \<in> set (inorder t) \<Longrightarrow> yend i \<le> intervalMaxEnd t"
  by (induction t) (auto simp: le_max_iff_disj)

lemma intervalOverlaps_spec:
  "avl t \<Longrightarrow> items_ordered (inorder t) \<Longrightarrow>
   intervalOverlaps t minY maxY result = result @ filter (\<lambda>i. ciY i < maxY \<and> yend i > minY) (inorder t)"
proof (induction t arbitrary: result)
  case Nil_node
  then show ?case by simp
next
  case (Node i l r h m)
  have o: "items_ordered (inorder l)" "items_ordered (inorder r)" "\<forall>b\<in>set (inorder r). intervalItemLess i b"
    using Node.prems(2) by (auto simp: sorted_wrt_append)
  show ?case
  proof (cases "m \<le> minY")
    case True
    have "yend a \<le> minY" if "a \<in> set (inorder (Node i l r h m))" for a
      using avl_maxEnd [OF Node.prems(1) that] True by simp
    then have "filter (\<lambda>i. ciY i < maxY \<and> yend i > minY) (inorder (Node i l r h m)) = []"
      by (auto simp: filter_empty_conv not_less)
    with True show ?thesis by simp
  next
    case False
    have "filter (\<lambda>i. ciY i < maxY \<and> yend i > minY) (inorder r) = []" if "\<not> ciY i < maxY"
      using o(3) that by (fastforce simp: filter_empty_conv intervalItemLess_def split: if_splits)
    moreover have "avl l" "avl r" using Node.prems(1) by simp_all
    ultimately show ?thesis using False Node.IH o(1,2) by (simp add: Let_def)
  qed
qed

end
