(* ===== verification/Collision.thy ===== *)
theory Collision imports IntervalTree begin

text \<open>
  Collision detection of \<open>internal/report/compiler/layout.go\<close>: blocks are swept from left to
  right with an interval tree of the blocks still open, slots are compared pairwise. The
  theory proves that the sweep never dereferences nil and reports, sorted, exactly the
  collisions of the pairwise comparison.
\<close>

section \<open>Definitions\<close>

record Collision =
  clFirstID :: ID
  clSecondID :: ID

definition rectanglesIntersect ::
  "int \<Rightarrow> int \<Rightarrow> int \<Rightarrow> int \<Rightarrow> int \<Rightarrow> int \<Rightarrow> int \<Rightarrow> int \<Rightarrow> bool" where
  "rectanglesIntersect ax ay aw ah bx by' bw bh \<longleftrightarrow>
     ax < wrap64 (bx + bw) \<and> bx < wrap64 (ax + aw) \<and> ay < wrap64 (by' + bh) \<and> by' < wrap64 (ay + ah)"

definition collision :: "ID \<Rightarrow> ID \<Rightarrow> Collision" where
  "collision first second =
     (if second < first then \<lparr> clFirstID = second, clSecondID = first \<rparr>
      else \<lparr> clFirstID = first, clSecondID = second \<rparr>)"

definition slots_intersect :: "Slot \<Rightarrow> Slot \<Rightarrow> bool" where
  "slots_intersect a b = rectanglesIntersect
     (sgX (slGrid a)) (sgY (slGrid a)) (sgW (slGrid a)) (sgH (slGrid a))
     (sgX (slGrid b)) (sgY (slGrid b)) (sgW (slGrid b)) (sgH (slGrid b))"

text \<open>The two nested index loops.\<close>

fun detectSlotCollisions :: "Slot list \<Rightarrow> Collision list" where
  "detectSlotCollisions [] = []"
| "detectSlotCollisions (a # rest) =
     map (\<lambda>b. collision (slID a) (slID b)) (filter (slots_intersect a) rest) @ detectSlotCollisions rest"

fun collision_items :: "int \<Rightarrow> Block list \<Rightarrow> collisionItem list" where
  "collision_items index [] = []"
| "collision_items index (b # bs) =
     (let grid = blDesktop (bkLayout b) in
      if dbW grid < 1 \<or> dbH grid < 1 then collision_items (index + 1) bs
      else \<lparr> ciID = bkID b, ciX = dbX grid, ciY = dbY grid, ciW = dbW grid, ciH = dbH grid,
             ciOrdinal = index \<rparr> # collision_items (index + 1) bs)"

definition item_before :: "collisionItem \<Rightarrow> collisionItem \<Rightarrow> bool" where
  "item_before a b =
     (if ciX a \<noteq> ciX b then ciX a < ciX b
      else if ciID a \<noteq> ciID b then ciID a < ciID b
      else ciOrdinal a < ciOrdinal b)"

definition ends_before :: "collisionItem \<Rightarrow> collisionItem \<Rightarrow> bool" where
  "ends_before a b = (if xend a \<noteq> xend b then xend a < xend b else intervalItemLess a b)"

fun expire :: "intervalNode \<Rightarrow> collisionItem list \<Rightarrow> int \<Rightarrow> (intervalNode \<times> collisionItem list) option" where
  "expire active [] x = Some (active, [])"
| "expire active (e # es) x =
     (if xend e \<le> x then do {
        active' \<leftarrow> intervalDelete active e;
        expire active' es x
      } else Some (active, e # es))"

fun sweep :: "intervalNode \<Rightarrow> collisionItem list \<Rightarrow> collisionItem list \<Rightarrow> Collision list \<Rightarrow>
    Collision list option" where
  "sweep active byEnd [] result = Some result"
| "sweep active byEnd (current # rest) result = do {
     (active1, byEnd1) \<leftarrow> expire active byEnd (ciX current);
     let candidates = intervalOverlaps active1 (ciY current) (yend current) [];
     active2 \<leftarrow> intervalInsert active1 current;
     sweep active2 byEnd1 rest
       (result @ map (\<lambda>candidate. collision (ciID candidate) (ciID current)) candidates)
   }"

definition collision_before :: "Collision \<Rightarrow> Collision \<Rightarrow> bool" where
  "collision_before a b =
     (if clFirstID a \<noteq> clFirstID b then clFirstID a < clFirstID b else clSecondID a < clSecondID b)"

definition DetectCollisions :: "Block list \<Rightarrow> Collision list option" where
  "DetectCollisions blocks =
     (let items = sort_slice item_before (collision_items 0 blocks);
          byEnd = sort_slice ends_before items
      in map_option (sort_slice collision_before) (sweep Nil_node byEnd items []))"

section \<open>The pairwise comparison\<close>

definition items_intersect :: "collisionItem \<Rightarrow> collisionItem \<Rightarrow> bool" where
  "items_intersect a b \<longleftrightarrow> rectanglesIntersect (ciX a) (ciY a) (ciW a) (ciH a) (ciX b) (ciY b) (ciW b) (ciH b)"

lemma items_intersect_ends:
  "items_intersect a b \<longleftrightarrow> ciX a < xend b \<and> ciX b < xend a \<and> ciY a < yend b \<and> ciY b < yend a"
  by (simp add: items_intersect_def rectanglesIntersect_def xend_def yend_def)

lemma items_intersect_sym: "items_intersect a b = items_intersect b a"
  by (auto simp: items_intersect_ends)

lemma collision_sym: "collision a b = collision b a"
  by (auto simp: collision_def)

fun pair_collisions :: "collisionItem list \<Rightarrow> Collision list" where
  "pair_collisions [] = []"
| "pair_collisions (a # rest) =
     map (\<lambda>b. collision (ciID a) (ciID b)) (filter (items_intersect a) rest) @ pair_collisions rest"

definition hits :: "collisionItem \<Rightarrow> collisionItem multiset \<Rightarrow> Collision multiset" where
  "hits a M = image_mset (\<lambda>b. collision (ciID a) (ciID b)) (filter_mset (items_intersect a) M)"

lemma hits_empty [simp]: "hits a {#} = {#}"
  by (simp add: hits_def)

lemma hits_add [simp]:
  "hits a (add_mset b M) = (if items_intersect a b then {#collision (ciID a) (ciID b)#} else {#}) + hits a M"
  by (simp add: hits_def)

lemma hits_union [simp]: "hits a (M + N) = hits a M + hits a N"
  by (simp add: hits_def)

lemma pair_Cons: "mset (pair_collisions (a # rest)) = hits a (mset rest) + mset (pair_collisions rest)"
  by (simp add: hits_def)

lemma pair_middle:
  "mset (pair_collisions (as @ x # bs)) = hits x (mset (as @ bs)) + mset (pair_collisions (as @ bs))"
proof (induction as)
  case Nil
  then show ?case by (simp add: pair_Cons del: pair_collisions.simps)
next
  case (Cons a as)
  have "hits a {#x#} = hits x {#a#}" by (simp add: items_intersect_sym collision_sym)
  with Cons show ?case by (simp add: pair_Cons ac_simps del: pair_collisions.simps)
qed

lemma pair_perm: "mset xs = mset ys \<Longrightarrow> mset (pair_collisions xs) = mset (pair_collisions ys)"
proof (induction xs arbitrary: ys)
  case Nil
  then show ?case by simp
next
  case (Cons x xs)
  then have "x \<in> set ys" by (metis list.set_intros(1) mset_eq_setD)
  then obtain as bs where ys: "ys = as @ x # bs" by (meson split_list)
  with Cons.prems have "mset xs = mset (as @ bs)" by simp
  with Cons.IH [OF this] show ?case by (simp add: ys pair_middle pair_Cons del: pair_collisions.simps)
qed

lemma pair_snoc: "mset (pair_collisions (ps @ [c])) = mset (pair_collisions ps) + hits c (mset ps)"
  using pair_middle [of ps c "[]"] by simp

section \<open>The sweep\<close>

text \<open>The comparisons of the sweep are strict weak orders.\<close>

lemma item_before_key: "item_before = lt_on (\<lambda>i. (ciX i, ciID i, ciOrdinal i))"
  by (auto simp: fun_eq_iff item_before_def lt_on_def less_prod_simp)

lemma ends_before_key: "ends_before = lt_on (\<lambda>i. (xend i, interval_key i))"
  by (auto simp: fun_eq_iff ends_before_def lt_on_def less_prod_simp intervalItemLess_key)

lemma collision_before_key: "collision_before = lt_on (\<lambda>c. (clFirstID c, clSecondID c))"
  by (auto simp: fun_eq_iff collision_before_def lt_on_def less_prod_simp)

interpretation collision_order: total_order_by collision_before
proof
  fix x y z :: Collision
  show "\<not> collision_before x x" by (simp add: collision_before_def)
  show "collision_before x y \<Longrightarrow> collision_before y z \<Longrightarrow> collision_before x z"
    unfolding collision_before_key by (rule key_order.lt_trans)
  show "\<not> collision_before x y \<Longrightarrow> \<not> collision_before y z \<Longrightarrow> \<not> collision_before x z"
    unfolding collision_before_key by (rule key_order.not_lt_trans)
  show "collision_before x y \<or> x = y \<or> collision_before y x"
    by (auto simp: collision_before_def)
qed

lemma sorted_by_ends: "sorted_by ends_before es \<Longrightarrow> sorted_wrt (\<lambda>a b. xend a \<le> xend b) es"
  unfolding sorted_by_def ends_before_key
  by (erule sorted_wrt_mono_rel [rotated]) (auto simp: lt_on_def less_prod_simp not_less)

lemma sorted_by_x: "sorted_by item_before es \<Longrightarrow> sorted_wrt (\<lambda>a b. ciX a \<le> ciX b) es"
  unfolding sorted_by_def item_before_key
  by (erule sorted_wrt_mono_rel [rotated]) (auto simp: lt_on_def less_prod_simp not_less)

definition keys_distinct :: "collisionItem list \<Rightarrow> bool" where
  "keys_distinct xs = distinct (map interval_key xs)"

lemma expire_spec:
  assumes "avl t" "items_ordered (inorder t)" "sorted_wrt (\<lambda>a b. xend a \<le> xend b) es"
    and "keys_distinct es" and "set (inorder t) = S \<inter> set es" "inj_on interval_key S"
    and "\<forall>e\<in>set es. xend e \<le> x \<longrightarrow> e \<in> S"
  shows "\<exists>t' es'. expire t es x = Some (t', es') \<and> avl t' \<and> items_ordered (inorder t') \<and>
    es' = filter (\<lambda>e. xend e > x) es \<and> set (inorder t') = S \<inter> set es'"
  using assms
proof (induction es arbitrary: t)
  case Nil
  then show ?case by auto
next
  case (Cons e es)
  show ?case
  proof (cases "xend e \<le> x")
    case False
    then have "filter (\<lambda>e. xend e > x) (e # es) = e # es"
      using Cons.prems(3) by (auto simp: filter_id_conv)
    with False Cons.prems show ?thesis by auto
  next
    case True
    obtain t' where t': "intervalDelete t e = Some t'" "avl t'"
        "inorder t' = filter (\<lambda>i. \<not> same_item e i) (inorder t)"
      using intervalDelete_spec [OF Cons.prems(1,2), of e] by blast
    have ord: "items_ordered (inorder t')"
      using Cons.prems(2) t'(3) by (simp add: sorted_wrt_filter)
    have eS: "e \<in> S" using True Cons.prems(7) by simp
    have "i = e" if "i \<in> S" "same_item e i" for i
      using that eS Cons.prems(6) by (auto dest: inj_onD)
    moreover have "\<forall>a\<in>set es. interval_key a \<noteq> interval_key e"
      using Cons.prems(4) by (auto simp: keys_distinct_def image_iff)
    ultimately have "set (inorder t') = S \<inter> set es"
      using Cons.prems(5) by (auto simp: t'(3))
    then obtain t'' es'' where "expire t' es x = Some (t'', es'')" "avl t''" "items_ordered (inorder t'')"
        "es'' = filter (\<lambda>e. xend e > x) es" "set (inorder t'') = S \<inter> set es''"
      using Cons.IH [OF t'(2) ord] Cons.prems(3,4,6,7) by (auto simp: keys_distinct_def)
    with True t'(1) show ?thesis by auto
  qed
qed

text \<open>
  What holds before the block \<open>cs ! 0\<close> is swept: \<open>ps\<close> are the blocks already swept, \<open>es\<close>
  the ends not yet expired.
\<close>

definition swept :: "collisionItem list \<Rightarrow> collisionItem list \<Rightarrow> intervalNode \<Rightarrow>
    collisionItem list \<Rightarrow> bool" where
  "swept ps cs t es \<longleftrightarrow> keys_distinct (ps @ cs) \<and> sorted_wrt (\<lambda>a b. ciX a \<le> ciX b) (ps @ cs) \<and>
     (\<forall>i\<in>set (ps @ cs). ciX i < xend i \<and> ciY i < yend i) \<and>
     avl t \<and> items_ordered (inorder t) \<and> sorted_wrt (\<lambda>a b. xend a \<le> xend b) es \<and> keys_distinct es \<and>
     set es \<subseteq> set (ps @ cs) \<and> set cs \<subseteq> set es \<and> set (inorder t) = set ps \<inter> set es \<and>
     (\<forall>a\<in>set (ps @ cs) - set es. \<forall>c\<in>set cs. xend a \<le> ciX c)"

lemma items_ordered_distinct: "items_ordered xs \<Longrightarrow> distinct xs"
  by (induction xs) auto

lemma items_ordered_insort:
  "items_ordered xs \<Longrightarrow> \<forall>i\<in>set xs. interval_key i \<noteq> interval_key x \<Longrightarrow>
   items_ordered (insort_by intervalItemLess x xs)"
proof (induction xs)
  case Nil
  then show ?case by simp
next
  case (Cons y ys)
  have "intervalItemLess x y" if "\<not> intervalItemLess y x"
    using that Cons.prems(2) by (auto simp: intervalItemLess_key lt_on_def not_less order_le_less)
  with Cons show ?case using less_trans by auto
qed

lemma swept_candidates:
  assumes s: "swept ps (c # cs) t es"
  shows "\<exists>t1 t2. expire t es (ciX c) = Some (t1, filter (\<lambda>e. xend e > ciX c) es) \<and>
    intervalInsert t1 c = Some t2 \<and>
    mset (map (\<lambda>p. collision (ciID p) (ciID c)) (intervalOverlaps t1 (ciY c) (yend c) [])) = hits c (mset ps) \<and>
    swept (ps @ [c]) cs t2 (filter (\<lambda>e. xend e > ciX c) es)"
proof -
  let ?es = "filter (\<lambda>e. xend e > ciX c) es"
  have kd: "keys_distinct (ps @ c # cs)" using s by (simp add: swept_def)
  then have inj: "inj_on interval_key (set (ps @ c # cs))" and dist: "distinct (ps @ c # cs)"
    unfolding keys_distinct_def distinct_map by blast+
  have xs: "\<forall>i\<in>set (c # cs). ciX c \<le> ciX i" "\<forall>p\<in>set ps. ciX p \<le> ciX c"
    using s by (auto simp: swept_def sorted_wrt_append)
  have pos: "\<forall>i\<in>set (ps @ c # cs). ciX i < xend i \<and> ciY i < yend i" using s by (simp add: swept_def)
  have av: "avl t" "items_ordered (inorder t)" "sorted_wrt (\<lambda>a b. xend a \<le> xend b) es" "keys_distinct es"
    and sub: "set es \<subseteq> set (ps @ c # cs)" "set (c # cs) \<subseteq> set es" "set (inorder t) = set ps \<inter> set es"
    and gone: "\<forall>a\<in>set (ps @ c # cs) - set es. \<forall>d\<in>set (c # cs). xend a \<le> ciX d"
    using s by (simp_all add: swept_def)
  have "e \<in> set ps" if "e \<in> set es" "xend e \<le> ciX c" for e
  proof (rule ccontr)
    assume "e \<notin> set ps"
    with that(1) sub(1) have "e \<in> set (c # cs)" by auto
    then have "ciX c \<le> ciX e" "ciX e < xend e" using xs(1) pos by auto
    with that(2) show False by simp
  qed
  then have old: "\<forall>e\<in>set es. xend e \<le> ciX c \<longrightarrow> e \<in> set ps" by blast
  have "inj_on interval_key (set ps)" using inj by (rule inj_on_subset) auto
  note ex = expire_spec [OF av sub(3) this old]
  obtain t1 where t1: "expire t es (ciX c) = Some (t1, ?es)" "avl t1" "items_ordered (inorder t1)"
      "set (inorder t1) = set ps \<inter> set ?es"
    using ex by auto
  have t1s: "set (inorder t1) = {p \<in> set ps. xend p > ciX c}"
    using gone unfolding t1(4) by (auto simp: not_le [symmetric])
  have "interval_key c \<notin> interval_key ` set ps" using kd by (simp add: keys_distinct_def)
  then have fresh: "\<forall>i\<in>set (inorder t1). interval_key i \<noteq> interval_key c"
    unfolding t1s by (metis (no_types, lifting) image_eqI mem_Collect_eq)
  then obtain t2 where t2: "intervalInsert t1 c = Some t2" "avl t2"
      "inorder t2 = insort_by intervalItemLess c (inorder t1)"
    using intervalInsert_spec [OF t1(2,3)] by blast
  have ord2: "items_ordered (inorder t2)"
    unfolding t2(3) using t1(3) fresh by (rule items_ordered_insort)
  define cand where "cand = intervalOverlaps t1 (ciY c) (yend c) []"
  have cand: "cand = filter (\<lambda>i. ciY i < yend c \<and> yend i > ciY c) (inorder t1)"
    unfolding cand_def using intervalOverlaps_spec [OF t1(2,3)] by simp
  have "p \<in> set cand \<longleftrightarrow> p \<in> set (filter (items_intersect c) ps)" for p
  proof (cases "p \<in> set ps")
    case True
    then have "ciX p \<le> ciX c" "ciX c < xend c" using xs(2) pos by auto
    then show ?thesis using True t1s by (auto simp: cand items_intersect_ends)
  next
    case False
    then show ?thesis using t1s by (simp add: cand)
  qed
  then have "set cand = set (filter (items_intersect c) ps)" by blast
  moreover have "distinct cand" using items_ordered_distinct [OF t1(3)] by (simp add: cand)
  moreover have "distinct (filter (items_intersect c) ps)" using dist by simp
  ultimately have "mset cand = mset (filter (items_intersect c) ps)"
    by (blast intro: set_eq_iff_mset_eq_distinct [THEN iffD1])
  then have "mset (map (\<lambda>p. collision (ciID p) (ciID c)) cand) = hits c (mset ps)"
    by (simp add: hits_def collision_sym [of _ "ciID c"])
  moreover have "swept (ps @ [c]) cs t2 ?es"
  proof -
    have "c \<in> set ?es" using sub(2) pos by simp
    then have "set (inorder t2) = set (ps @ [c]) \<inter> set ?es"
      using t1(4) by (auto simp: t2(3))
    moreover have "ciX c < xend d" if "d \<in> set cs" for d
    proof -
      have "ciX c \<le> ciX d" "ciX d < xend d" using that xs(1) pos by auto
      then show ?thesis by simp
    qed
    then have "set cs \<subseteq> set ?es" using sub(2) by auto
    moreover have "xend a \<le> ciX d" if "a \<in> set (ps @ c # cs) - set ?es" "d \<in> set cs" for a d
    proof (cases "a \<in> set es")
      case True
      then have "xend a \<le> ciX c" using that(1) by auto
      also have "\<dots> \<le> ciX d" using xs(1) that(2) by simp
      finally show ?thesis .
    next
      case False
      then show ?thesis using gone that by simp
    qed
    moreover have "sorted_wrt (\<lambda>a b. xend a \<le> xend b) ?es" using av(3) by (simp add: sorted_wrt_filter)
    moreover have "keys_distinct ?es" using av(4) by (simp add: keys_distinct_def distinct_map_filter)
    moreover have "set ?es \<subseteq> set (ps @ c # cs)" using sub(1) by auto
    moreover have "sorted_wrt (\<lambda>a b. ciX a \<le> ciX b) (ps @ c # cs)" using s by (simp add: swept_def)
    ultimately show ?thesis using kd pos t2(2) ord2 by (simp add: swept_def)
  qed
  ultimately show ?thesis using t1(1) t2(1) by (auto simp: cand_def)
qed

lemma sweep_spec:
  "swept ps cs t es \<Longrightarrow> mset result = mset (pair_collisions ps) \<Longrightarrow>
   \<exists>r. sweep t es cs result = Some r \<and> mset r = mset (pair_collisions (ps @ cs))"
proof (induction cs arbitrary: ps t es result)
  case Nil
  then show ?case by simp
next
  case (Cons c cs)
  let ?es = "filter (\<lambda>e. xend e > ciX c) es"
  obtain t1 t2 where t: "expire t es (ciX c) = Some (t1, ?es)" "intervalInsert t1 c = Some t2"
      "mset (map (\<lambda>p. collision (ciID p) (ciID c)) (intervalOverlaps t1 (ciY c) (yend c) [])) = hits c (mset ps)"
      "swept (ps @ [c]) cs t2 ?es"
    using swept_candidates [OF Cons.prems(1)] by blast
  let ?r = "result @ map (\<lambda>p. collision (ciID p) (ciID c)) (intervalOverlaps t1 (ciY c) (yend c) [])"
  have "mset ?r = mset (pair_collisions (ps @ [c]))"
    unfolding pair_snoc mset_append t(3) Cons.prems(2) ..
  from Cons.IH [OF t(4) this] show ?case by (simp add: t(1,2))
qed

section \<open>Properties\<close>

text \<open>The visible blocks, compared pairwise in the order of the section.\<close>

definition block_collisions :: "Block list \<Rightarrow> Collision list" where
  "block_collisions blocks = pair_collisions (collision_items 0 blocks)"

definition block_in_range :: "Block \<Rightarrow> bool" where
  "block_in_range b \<longleftrightarrow> in_int64 (dbX (blDesktop (bkLayout b)) + dbW (blDesktop (bkLayout b))) \<and>
     in_int64 (dbY (blDesktop (bkLayout b)) + dbH (blDesktop (bkLayout b)))"

lemma collision_items_facts:
  assumes "\<forall>b\<in>set blocks. block_in_range b"
  shows "(\<forall>i\<in>set (collision_items k blocks). ciX i < xend i \<and> ciY i < yend i \<and> k \<le> ciOrdinal i) \<and>
    distinct (map ciOrdinal (collision_items k blocks))"
  using assms
proof (induction blocks arbitrary: k)
  case Nil
  then show ?case by simp
next
  case (Cons b bs)
  have "(\<forall>i\<in>set (collision_items (k + 1) bs). ciX i < xend i \<and> ciY i < yend i \<and> k + 1 \<le> ciOrdinal i) \<and>
    distinct (map ciOrdinal (collision_items (k + 1) bs))" using Cons by simp
  moreover from this have "\<forall>i\<in>set (collision_items (k + 1) bs). k \<le> ciOrdinal i \<and> ciOrdinal i \<noteq> k" by fastforce
  moreover have "block_in_range b" using Cons.prems by simp
  ultimately show ?case
    by (auto simp: Let_def block_in_range_def xend_def yend_def wrap64_id)
qed

text \<open>C25: The sweep of collision detection is equivalent to comparing every two blocks: on blocks
  whose coordinates do not overflow it never dereferences nil, it reports every collision
  of two visible blocks exactly as often as the pairwise comparison, in sorted order, and
  the result does not depend on the order of the blocks.\<close>

theorem detect_collisions_is_pairwise:
  assumes "\<forall>b\<in>set blocks. block_in_range b"
  shows "\<exists>cs. DetectCollisions blocks = Some cs \<and> mset cs = mset (block_collisions blocks) \<and>
    sorted_by collision_before cs"
proof -
  define items where "items = sort_slice item_before (collision_items 0 blocks)"
  define es where "es = sort_slice ends_before items"
  have m: "mset items = mset (collision_items 0 blocks)" "mset es = mset items"
    by (simp_all add: items_def es_def)
  have sets: "set es = set items" "set items = set (collision_items 0 blocks)"
    by (simp_all add: items_def es_def)
  note f = collision_items_facts [OF assms, of 0]
  have "distinct (map interval_key (collision_items 0 blocks))"
    using f by (auto simp: distinct_map interval_key_def inj_on_def)
  then have k: "keys_distinct items" "keys_distinct es"
    using m by (metis keys_distinct_def mset_eq_imp_distinct_iff mset_map)+
  have "sorted_by item_before items"
    unfolding items_def item_before_key by (rule key_order.sorted_by_sort_slice)
  moreover have "sorted_by ends_before es"
    unfolding es_def ends_before_key by (rule key_order.sorted_by_sort_slice)
  ultimately have "swept [] items Nil_node es"
    using k sets f by (simp add: swept_def sorted_by_ends sorted_by_x)
  then obtain r where r: "sweep Nil_node es items [] = Some r" "mset r = mset (pair_collisions items)"
    using sweep_spec [of "[]" items Nil_node es "[]"] by auto
  have "mset (pair_collisions items) = mset (block_collisions blocks)"
    unfolding block_collisions_def by (rule pair_perm) (rule m(1))
  then show ?thesis
    using r by (simp add: DetectCollisions_def items_def es_def Let_def collision_order.sorted_by_sort_slice)
qed

definition sample_block :: "ID \<Rightarrow> int \<Rightarrow> int \<Rightarrow> int \<Rightarrow> int \<Rightarrow> Block" where
  "sample_block i x y w h = \<lparr> bkID = i, bkType = BlockChart, bkTitle = [], bkCardKind = [],
     bkLayoutIntent = None,
     bkLayout = \<lparr> blDesktop = \<lparr> dbX = x, dbY = y, dbW = w, dbH = h \<rparr>,
       blMobile = \<lparr> mbOrder = 1, mbVisible = True, mbHeightMode = MobileHeightAuto,
         mbSlotMode = MobileSlotStack, mbFixedHeight = None, mbAspectRatio = None,
         mbPrimarySlotID = None \<rparr> \<rparr>,
     bkZones = [] \<rparr>"

definition sample_blocks :: "Block list" where
  "sample_blocks = [sample_block ''c'' 4 0 8 4, sample_block ''a'' 0 0 6 2, sample_block ''b'' 0 2 4 2]"

theorem detect_collisions_is_pairwise_witness:
  "\<exists>cs. DetectCollisions sample_blocks = Some cs \<and>
     mset cs = {#\<lparr> clFirstID = ''a'', clSecondID = ''c'' \<rparr>#}"
proof -
  have "\<forall>b\<in>set sample_blocks. block_in_range b"
    by (simp add: sample_blocks_def sample_block_def block_in_range_def in_int64_def int64_min_def int64_max_def)
  moreover have "block_collisions sample_blocks = [\<lparr> clFirstID = ''a'', clSecondID = ''c'' \<rparr>]"
    by code_simp
  ultimately show ?thesis using detect_collisions_is_pairwise [of sample_blocks] by auto
qed

end
