(* ===== verification/Layout.thy ===== *)
theory Layout imports Collision "HOL-Library.Signed_Division" begin

text \<open>
  The layout rules of \<open>internal/report/compiler/layout.go\<close> on top of collision detection:
  the layout check, vertical compaction, and the merging of slots. The third-party
  \<open>deepcopy.Copy\<close> is the argument \<open>clone\<close>.
\<close>

section \<open>The layout check\<close>

text \<open>
  The path of an issue is the list of its indices (page, section, block, zone, slot); its
  message repeats the code and the identifiers.
\<close>

datatype layout_code = LayoutCollision ID ID | LayoutOutOfBounds | ZoneMinHeightRequired
  | MobilePrimarySlotMissing

type_synonym LayoutError = "layout_code \<times> nat list"

definition issue_of :: "nat list \<Rightarrow> Collision \<Rightarrow> LayoutError" where
  "issue_of path c = (LayoutCollision (clFirstID c) (clSecondID c), path)"

definition block_outside :: "int \<Rightarrow> Block \<Rightarrow> bool" where
  "block_outside columns b =
     (let g = blDesktop (bkLayout b) in
      dbX g < 0 \<or> dbY g < 0 \<or> dbW g < 1 \<or> dbH g < 1 \<or> wrap64 (dbX g + dbW g) > columns)"

definition slot_outside :: "Zone \<Rightarrow> Slot \<Rightarrow> bool" where
  "slot_outside zone s =
     (let g = slGrid s in sgX g < 0 \<or> sgY g < 0 \<or> sgW g < 1 \<or> sgH g < 1 \<or>
        wrap64 (sgX g + sgW g) > zlColumns (znLayout zone) \<or> wrap64 (sgY g + sgH g) > zlRows (znLayout zone))"

definition zone_issues :: "nat list \<Rightarrow> Zone \<Rightarrow> LayoutError list" where
  "zone_issues path zone =
     (if zlHeightMode (znLayout zone) \<noteq> ZoneHeightHidden \<and> zlMinHeight (znLayout zone) \<le> 0
      then [(ZoneMinHeightRequired, path)] else []) @
     map (issue_of path) (detectSlotCollisions (znSlots zone)) @
     concat (map (\<lambda>(slotIndex, slot). if slot_outside zone slot
       then [(LayoutOutOfBounds, path @ [slotIndex])] else []) (enumerate 0 (znSlots zone)))"

definition primary_candidates :: "Block \<Rightarrow> ID list" where
  "primary_candidates b = concat (map (\<lambda>zone.
     if zlHeightMode (znLayout zone) \<noteq> ZoneHeightHidden \<and> znType zone \<noteq> ZoneFilter
     then map slID (znSlots zone) else []) (bkZones b))"

definition primary_issues :: "nat list \<Rightarrow> Block \<Rightarrow> LayoutError list" where
  "primary_issues path b =
     (if mbSlotMode (blMobile (bkLayout b)) = MobileSlotPrimaryOnly then
        (case mbPrimarySlotID (blMobile (bkLayout b)) of
           None \<Rightarrow> [(MobilePrimarySlotMissing, path)]
         | Some primary \<Rightarrow> if primary \<in> set (primary_candidates b) then []
             else [(MobilePrimarySlotMissing, path)])
      else [])"

definition block_issues :: "int \<Rightarrow> nat list \<Rightarrow> Block \<Rightarrow> LayoutError list" where
  "block_issues columns path b =
     (if block_outside columns b then [(LayoutOutOfBounds, path)] else []) @
     concat (map (\<lambda>(zoneIndex, zone). zone_issues (path @ [zoneIndex]) zone) (enumerate 0 (bkZones b))) @
     primary_issues path b"

definition section_issues :: "int \<Rightarrow> nat list \<Rightarrow> Section \<Rightarrow> LayoutError list option" where
  "section_issues columns path sec =
     map_option (\<lambda>cs. map (issue_of path) cs @
       concat (map (\<lambda>(blockIndex, b). block_issues columns (path @ [blockIndex]) b)
         (enumerate 0 (scBlocks sec)))) (DetectCollisions (scBlocks sec))"

fun concat_options :: "'a list option list \<Rightarrow> 'a list option" where
  "concat_options [] = Some []"
| "concat_options (x # xs) = do { a \<leftarrow> x; b \<leftarrow> concat_options xs; Some (a @ b) }"

definition ValidateLayout :: "ReportDefinition \<Rightarrow> LayoutError list option" where
  "ValidateLayout d = concat_options
     (concat (map (\<lambda>(pageIndex, page).
        map (\<lambda>(sectionIndex, sec). section_issues (dcColumns (cvDesktop (rdCanvas d)))
               [pageIndex, sectionIndex] sec)
          (enumerate 0 (pgSections page))) (enumerate 0 (rdPages d))))"

section \<open>Compaction\<close>

datatype CompactMode = CompactNone | CompactVertical | OtherCompactMode string

datatype 'e layout_failure = CloneFailed 'e | UnsupportedCompactMode string

abbreviation desktop :: "Block \<Rightarrow> DesktopBlockLayout" where
  "desktop b \<equiv> blDesktop (bkLayout b)"

definition set_top :: "int \<Rightarrow> Block \<Rightarrow> Block" where
  "set_top upper b = b\<lparr> bkLayout := (bkLayout b)\<lparr> blDesktop := (desktop b)\<lparr> dbY := upper \<rparr> \<rparr> \<rparr>"

definition compact_before :: "Block \<Rightarrow> Block \<Rightarrow> bool" where
  "compact_before a b =
     (if dbY (desktop a) \<noteq> dbY (desktop b) then dbY (desktop a) < dbY (desktop b)
      else if dbX (desktop a) \<noteq> dbX (desktop b) then dbX (desktop a) < dbX (desktop b)
      else bkID a < bkID b)"

definition beside :: "DesktopBlockLayout \<Rightarrow> DesktopBlockLayout \<Rightarrow> bool" where
  "beside previous current \<longleftrightarrow> dbX previous < wrap64 (dbX current + dbW current) \<and>
     dbX current < wrap64 (dbX previous + dbW previous)"

fun stack_top :: "Block list \<Rightarrow> DesktopBlockLayout \<Rightarrow> int \<Rightarrow> nat list \<Rightarrow> int" where
  "stack_top result current upper [] = upper"
| "stack_top result current upper (p # ps) =
     (let previous = desktop (result ! p) in
      stack_top result current
        (if beside previous current then max upper (wrap64 (dbY previous + dbH previous)) else upper) ps)"

fun place_all :: "Block list \<Rightarrow> nat list \<Rightarrow> nat list \<Rightarrow> Block list" where
  "place_all result placed [] = result"
| "place_all result placed (index # rest) =
     (let upper = stack_top result (desktop (result ! index)) 0 placed in
      place_all (result[index := set_top upper (result ! index)]) (placed @ [index]) rest)"

definition CompactBlocks ::
  "(Block list \<Rightarrow> 'e + Block list) \<Rightarrow> Block list \<Rightarrow> CompactMode \<Rightarrow> 'e layout_failure + Block list" where
  "CompactBlocks clone blocks mode = (case clone blocks of
     Inl e \<Rightarrow> Inl (CloneFailed e)
   | Inr result \<Rightarrow> (case mode of
       CompactNone \<Rightarrow> Inr result
     | OtherCompactMode s \<Rightarrow> Inl (UnsupportedCompactMode s)
     | CompactVertical \<Rightarrow>
         (let order = sort_slice (\<lambda>l r. compact_before (result ! l) (result ! r)) [0..<length result]
          in Inr (place_all result [] order))))"

section \<open>Merging slots\<close>

record GridSize =
  gsW :: int
  gsH :: int

datatype slot_merge_error = MergeNotRectangular | MergeMultipleComponents | MergeBelowMinSize



record merge_bounds =
  bdMinX :: int
  bdMinY :: int
  bdMaxX :: int
  bdMaxY :: int
  bdArea :: int
  bdOccupied :: int

fun merge_extent :: "merge_bounds \<Rightarrow> Slot list \<Rightarrow> merge_bounds" where
  "merge_extent b [] = b"
| "merge_extent b (s # ss) =
     (let g = slGrid s in
      merge_extent \<lparr> bdMinX = min (bdMinX b) (sgX g), bdMinY = min (bdMinY b) (sgY g),
        bdMaxX = max (bdMaxX b) (wrap64 (sgX g + sgW g)), bdMaxY = max (bdMaxY b) (wrap64 (sgY g + sgH g)),
        bdArea = wrap64 (bdArea b + wrap64 (sgW g * sgH g)),
        bdOccupied = (if slComponentID s \<noteq> [] then bdOccupied b + 1 else bdOccupied b) \<rparr> ss)"

definition no_extent :: merge_bounds where
  "no_extent = \<lparr> bdMinX = int64_max, bdMinY = int64_max, bdMaxX = 0, bdMaxY = 0, bdArea = 0, bdOccupied = 0 \<rparr>"

text \<open>The first slot of each wanted identifier, in the order of the zone.\<close>

fun select_wanted :: "ID set \<Rightarrow> Slot list \<Rightarrow> Slot list \<times> ID set" where
  "select_wanted wanted [] = ([], wanted)"
| "select_wanted wanted (s # ss) =
     (if slID s \<in> wanted then
        (let (selected, left) = select_wanted (wanted - {slID s}) ss in (s # selected, left))
      else select_wanted wanted ss)"

definition ValidateSlotMergeWithMinSize ::
  "Zone \<Rightarrow> ID list \<Rightarrow> GridSize \<Rightarrow> slot_merge_error option" where
  "ValidateSlotMergeWithMinSize zone slotIDs minimum =
     (if length slotIDs < 2 then Some MergeNotRectangular
      else if \<not> distinct slotIDs then Some MergeNotRectangular
      else (let (selected, wanted) = select_wanted (set slotIDs) (znSlots zone) in
        if wanted \<noteq> {} then Some MergeNotRectangular
        else (let e = merge_extent no_extent selected in
          if detectSlotCollisions selected \<noteq> [] \<or>
             bdArea e \<noteq> wrap64 (wrap64 (bdMaxX e - bdMinX e) * wrap64 (bdMaxY e - bdMinY e))
          then Some MergeNotRectangular
          else if bdOccupied e > 1 then Some MergeMultipleComponents
          else if wrap64 (bdMaxX e - bdMinX e) < gsW minimum \<or> wrap64 (bdMaxY e - bdMinY e) < gsH minimum
          then Some MergeBelowMinSize
          else None)))"

definition ValidateSlotMerge :: "Zone \<Rightarrow> ID list \<Rightarrow> slot_merge_error option" where
  "ValidateSlotMerge zone slotIDs = ValidateSlotMergeWithMinSize zone slotIDs \<lparr> gsW = 1, gsH = 1 \<rparr>"

definition MergeSlots :: "Zone \<Rightarrow> ID list \<Rightarrow> ID \<Rightarrow> GridSize \<Rightarrow> slot_merge_error + Slot" where
  "MergeSlots zone slotIDs newID minimum =
     (case ValidateSlotMergeWithMinSize zone slotIDs minimum of
        Some e \<Rightarrow> Inl e
      | None \<Rightarrow>
         (if \<not> valid_id newID then Inl MergeNotRectangular
          else if newID \<in> set slotIDs then Inl MergeNotRectangular
          else (let chosen = filter (\<lambda>s. slID s \<in> set slotIDs) (znSlots zone);
                    e = merge_extent no_extent chosen;
                    componentID = fold (\<lambda>s c. if slComponentID s \<noteq> [] then slComponentID s else c) chosen []
                in Inr \<lparr> slID = newID,
                     slGrid = \<lparr> sgX = bdMinX e, sgY = bdMinY e, sgW = wrap64 (bdMaxX e - bdMinX e),
                                sgH = wrap64 (bdMaxY e - bdMinY e) \<rparr>,
                     slComponentID = componentID, slCardKind = [],
                     slMergedFrom = sort_slice (<) slotIDs \<rparr>)))"

definition SlotRenderSize :: "Block \<Rightarrow> Zone \<Rightarrow> SlotGrid \<Rightarrow> GridSize" where
  "SlotRenderSize b zone grid =
     (if dbW (desktop b) < 1 \<or> dbH (desktop b) < 1 \<or> zlColumns (znLayout zone) < 1 \<or>
         zlRows (znLayout zone) < 1 \<or> sgW grid < 1 \<or> sgH grid < 1
      then \<lparr> gsW = 0, gsH = 0 \<rparr>
      else \<lparr> gsW = wrap64 (wrap64 (dbW (desktop b) * sgW grid) + zlColumns (znLayout zone) - 1)
                     sdiv zlColumns (znLayout zone),
             gsH = wrap64 (wrap64 (dbH (desktop b) * sgH grid) + zlRows (znLayout zone) - 1)
                     sdiv zlRows (znLayout zone) \<rparr>)"

section \<open>Compaction leaves no overlap\<close>

text \<open>Blocks that can be laid out: visible, and small enough that no sum overflows.\<close>

definition stackable :: "Block list \<Rightarrow> bool" where
  "stackable bs \<longleftrightarrow> (\<forall>b\<in>set bs. 1 \<le> dbW (desktop b) \<and> 1 \<le> dbH (desktop b) \<and>
      in_int64 (dbX (desktop b) + dbW (desktop b))) \<and>
    (\<Sum>b\<leftarrow>bs. dbH (desktop b)) \<le> int64_max"

text \<open>Everything but the vertical position.\<close>

definition same_but_top :: "Block \<Rightarrow> Block \<Rightarrow> bool" where
  "same_but_top a b \<longleftrightarrow> set_top 0 a = set_top 0 b"

lemma set_top_simps [simp]:
  "dbX (desktop (set_top t b)) = dbX (desktop b)" "dbW (desktop (set_top t b)) = dbW (desktop b)"
  "dbH (desktop (set_top t b)) = dbH (desktop b)" "dbY (desktop (set_top t b)) = t"
  "bkID (set_top t b) = bkID b" "set_top u (set_top t b) = set_top u b"
  by (simp_all add: set_top_def)

lemma same_but_top_facts:
  assumes "same_but_top a b"
  shows "dbX (desktop a) = dbX (desktop b)" "dbW (desktop a) = dbW (desktop b)"
    "dbH (desktop a) = dbH (desktop b)" "bkID a = bkID b"
proof -
  have "dbX (desktop (set_top 0 a)) = dbX (desktop (set_top 0 b))"
    "dbW (desktop (set_top 0 a)) = dbW (desktop (set_top 0 b))"
    "dbH (desktop (set_top 0 a)) = dbH (desktop (set_top 0 b))" "bkID (set_top 0 a) = bkID (set_top 0 b)"
    using assms by (simp_all only: same_but_top_def)
  then show "dbX (desktop a) = dbX (desktop b)" "dbW (desktop a) = dbW (desktop b)"
    "dbH (desktop a) = dbH (desktop b)" "bkID a = bkID b" by simp_all
qed

definition bottom :: "Block \<Rightarrow> int" where "bottom b = dbY (desktop b) + dbH (desktop b)"

text \<open>Exact overlap of the columns, and of the rectangles, of two blocks.\<close>

definition columns_meet :: "Block \<Rightarrow> Block \<Rightarrow> bool" where
  "columns_meet a b \<longleftrightarrow> dbX (desktop a) < dbX (desktop b) + dbW (desktop b) \<and>
     dbX (desktop b) < dbX (desktop a) + dbW (desktop a)"

definition blocks_meet :: "Block \<Rightarrow> Block \<Rightarrow> bool" where
  "blocks_meet a b \<longleftrightarrow> columns_meet a b \<and> dbY (desktop a) < bottom b \<and> dbY (desktop b) < bottom a"

text \<open>The state of the loop: the placed blocks rest at or above the sum of their heights.\<close>

definition stacked :: "Block list \<Rightarrow> nat list \<Rightarrow> bool" where
  "stacked rs ps \<longleftrightarrow> distinct ps \<and> (\<forall>i\<in>set ps. i < length rs) \<and>
     (\<forall>i\<in>set ps. 0 \<le> dbY (desktop (rs ! i)) \<and> bottom (rs ! i) \<le> (\<Sum>p\<leftarrow>ps. dbH (desktop (rs ! p)))) \<and>
     (\<forall>i\<in>set ps. \<forall>j\<in>set ps. i \<noteq> j \<longrightarrow> \<not> blocks_meet (rs ! i) (rs ! j)) \<and>
     (\<forall>i\<in>set ps. dbY (desktop (rs ! i)) = 0 \<or>
        (\<exists>j\<in>set ps. columns_meet (rs ! i) (rs ! j) \<and> dbY (desktop (rs ! i)) = bottom (rs ! j)))"

lemma stack_top_max:
  assumes "\<forall>p\<in>set ps. beside (desktop (rs ! p)) c = columns_meet (rs ! p) b"
    and "\<forall>p\<in>set ps. wrap64 (dbY (desktop (rs ! p)) + dbH (desktop (rs ! p))) = bottom (rs ! p)"
  shows "u \<le> stack_top rs c u ps \<and>
    (\<forall>p\<in>set ps. columns_meet (rs ! p) b \<longrightarrow> bottom (rs ! p) \<le> stack_top rs c u ps) \<and>
    (stack_top rs c u ps = u \<or>
      (\<exists>p\<in>set ps. columns_meet (rs ! p) b \<and> stack_top rs c u ps = bottom (rs ! p)))"
  using assms
proof (induction ps arbitrary: u)
  case Nil
  then show ?case by simp
next
  case (Cons p ps)
  let ?u = "if columns_meet (rs ! p) b then max u (bottom (rs ! p)) else u"
  have "stack_top rs c u (p # ps) = stack_top rs c ?u ps" using Cons.prems by (simp add: Let_def)
  with Cons.IH [of ?u] Cons.prems show ?case
    by (cases "columns_meet (rs ! p) b") (auto simp: max_def split: if_splits)
qed

lemma heights_of_some:
  assumes "distinct ps" "\<forall>i\<in>set ps. i < length bs" "\<forall>b\<in>set bs. 0 \<le> h b"
  shows "(\<Sum>p\<leftarrow>ps. h (bs ! p)) \<le> (\<Sum>b\<leftarrow>bs. (h b :: int))"
proof -
  have "(\<Sum>p\<leftarrow>ps. h (bs ! p)) = (\<Sum>p\<in>set ps. h (bs ! p))"
    using assms(1) by (rule sum_list_distinct_conv_sum_set)
  also have "\<dots> \<le> (\<Sum>p\<in>{0..<length bs}. h (bs ! p))"
    using assms(2,3) by (intro sum_mono2) auto
  also have "\<dots> = (\<Sum>b\<leftarrow>bs. h b)" by (simp add: sum_list_sum_nth)
  finally show ?thesis .
qed

lemma stackable_heights_nonneg: "stackable bs \<Longrightarrow> \<forall>b\<in>set bs. 0 \<le> dbH (desktop b)"
  unfolding stackable_def by fastforce

lemma stacked_no_overflow:
  assumes "stackable rs" "stacked rs ps" "p \<in> set ps"
  shows "wrap64 (dbY (desktop (rs ! p)) + dbH (desktop (rs ! p))) = bottom (rs ! p)"
proof -
  have p: "p < length rs" "0 \<le> dbY (desktop (rs ! p))" "bottom (rs ! p) \<le> (\<Sum>p\<leftarrow>ps. dbH (desktop (rs ! p)))"
    and d: "distinct ps" "\<forall>i\<in>set ps. i < length rs"
    using assms(2,3) by (simp_all add: stacked_def)
  have "bottom (rs ! p) \<le> (\<Sum>b\<leftarrow>rs. dbH (desktop b))"
    using p(3) heights_of_some [OF d stackable_heights_nonneg [OF assms(1)]] by (rule order_trans)
  also have "\<dots> \<le> int64_max" using assms(1) by (simp add: stackable_def)
  finally have "bottom (rs ! p) \<le> int64_max" .
  moreover have "0 \<le> dbH (desktop (rs ! p))"
    using stackable_heights_nonneg [OF assms(1)] p(1) by simp
  ultimately show ?thesis
    using p(2) by (simp add: bottom_def in_int64_def int64_min_def wrap64_id)
qed

lemma stackable_beside:
  assumes "stackable rs" "p < length rs" "i < length rs"
  shows "beside (desktop (rs ! p)) (desktop (rs ! i)) = columns_meet (rs ! p) (rs ! i)"
  using assms by (auto simp: beside_def columns_meet_def stackable_def wrap64_id)

lemma place_one:
  assumes sb: "stackable rs" and st: "stacked rs ps" and i: "i < length rs" "i \<notin> set ps"
  shows "stacked (rs[i := set_top (stack_top rs (desktop (rs ! i)) 0 ps) (rs ! i)]) (ps @ [i])"
proof -
  define t where "t = stack_top rs (desktop (rs ! i)) 0 ps"
  define rs' where "rs' = rs[i := set_top t (rs ! i)]"
  have ps: "\<forall>p\<in>set ps. p < length rs" "distinct ps" using st by (auto simp: stacked_def)
  have old: "rs' ! p = rs ! p" if "p \<in> set ps" for p unfolding rs'_def using that i(2) by (metis nth_list_update_neq)
  have new: "rs' ! i = set_top t (rs ! i)" using i by (simp add: rs'_def)
  have top0: "0 \<le> t \<and> (\<forall>p\<in>set ps. columns_meet (rs ! p) (rs ! i) \<longrightarrow> bottom (rs ! p) \<le> t) \<and>
      (t = 0 \<or> (\<exists>p\<in>set ps. columns_meet (rs ! p) (rs ! i) \<and> t = bottom (rs ! p)))"
    unfolding t_def using ps(1) i stackable_beside [OF sb] stacked_no_overflow [OF sb st]
    by (intro stack_top_max) simp_all
  define S where "S = (\<Sum>p\<leftarrow>ps. dbH (desktop (rs ! p)))"
  have h: "\<forall>k<length rs. 1 \<le> dbH (desktop (rs ! k))" using sb by (auto simp: stackable_def)
  have "0 \<le> S" unfolding S_def using h ps(1) by (intro sum_list_nonneg) fastforce
  moreover have bS: "\<forall>p\<in>set ps. bottom (rs ! p) \<le> S \<and> 0 \<le> dbY (desktop (rs ! p))"
    using st by (simp add: stacked_def S_def)
  ultimately have tS: "t \<le> S" using top0 by auto
  have S': "(\<Sum>p\<leftarrow>ps @ [i]. dbH (desktop (rs' ! p))) = S + dbH (desktop (rs ! i))"
    using old by (simp add: S_def new cong: map_cong)
  have cm: "columns_meet (set_top u (rs ! i)) b = columns_meet (rs ! i) b"
    "columns_meet b (set_top u (rs ! i)) = columns_meet b (rs ! i)" for u b
    by (simp_all add: columns_meet_def)
  have sym: "columns_meet a b = columns_meet b a" for a b by (auto simp: columns_meet_def)
  have free: "\<not> blocks_meet (rs ! p) (rs' ! i) \<and> \<not> blocks_meet (rs' ! i) (rs ! p)" if "p \<in> set ps" for p
  proof -
    have "columns_meet (rs ! p) (rs ! i) \<longrightarrow> bottom (rs ! p) \<le> t" using top0 that by blast
    then show ?thesis using sym [of "rs ! p" "rs ! i"] by (auto simp: blocks_meet_def cm new)
  qed
  have "\<forall>k\<in>set (ps @ [i]). 0 \<le> dbY (desktop (rs' ! k)) \<and> bottom (rs' ! k) \<le> S + dbH (desktop (rs ! i))"
  proof
    fix k assume "k \<in> set (ps @ [i])"
    moreover have "1 \<le> dbH (desktop (rs ! i))" using h i(1) by simp
    ultimately show "0 \<le> dbY (desktop (rs' ! k)) \<and> bottom (rs' ! k) \<le> S + dbH (desktop (rs ! i))"
      using bS tS top0 by (cases "k = i") (auto simp: old new bottom_def dest!: bspec)
  qed
  moreover have "\<forall>k\<in>set (ps @ [i]). \<forall>j\<in>set (ps @ [i]). k \<noteq> j \<longrightarrow> \<not> blocks_meet (rs' ! k) (rs' ! j)"
    using st free by (auto simp: old stacked_def)
  moreover have "\<forall>k\<in>set (ps @ [i]). dbY (desktop (rs' ! k)) = 0 \<or>
      (\<exists>j\<in>set (ps @ [i]). columns_meet (rs' ! k) (rs' ! j) \<and> dbY (desktop (rs' ! k)) = bottom (rs' ! j))"
  proof
    fix k assume "k \<in> set (ps @ [i])"
    then consider "k \<in> set ps" | "k = i" by auto
    then show "dbY (desktop (rs' ! k)) = 0 \<or>
      (\<exists>j\<in>set (ps @ [i]). columns_meet (rs' ! k) (rs' ! j) \<and> dbY (desktop (rs' ! k)) = bottom (rs' ! j))"
    proof cases
      case 1
      then have "dbY (desktop (rs ! k)) = 0 \<or>
          (\<exists>j\<in>set ps. columns_meet (rs ! k) (rs ! j) \<and> dbY (desktop (rs ! k)) = bottom (rs ! j))"
        using st by (simp add: stacked_def)
      then show ?thesis using old 1 by (metis Un_iff set_append)
    next
      case 2
      have dy: "dbY (desktop (rs' ! i)) = t" by (simp add: new)
      show ?thesis
      proof (cases "t = 0")
        case True
        then show ?thesis using dy 2 by simp
      next
        case False
        then obtain p where p: "p \<in> set ps" "columns_meet (rs ! p) (rs ! i)" "t = bottom (rs ! p)"
          using top0 by blast
        then have "columns_meet (rs' ! i) (rs' ! p)" "t = bottom (rs' ! p)"
          using sym [of "rs ! p" "rs ! i"] by (simp_all add: old new cm)
        then show ?thesis using dy 2 p(1) by auto
      qed
    qed
  qed
  ultimately show ?thesis
    using ps i unfolding stacked_def t_def [symmetric] rs'_def [symmetric] S' by (auto simp: rs'_def)
qed

lemma stackable_same:
  assumes "list_all2 same_but_top rs rs'" and "stackable rs"
  shows "stackable rs'"
proof -
  have "map (\<lambda>b. dbH (desktop b)) rs = map (\<lambda>b. dbH (desktop b)) rs'"
    using assms(1) by (induction rule: list_all2_induct) (auto dest: same_but_top_facts)
  moreover have "1 \<le> dbW (desktop b') \<and> 1 \<le> dbH (desktop b') \<and> in_int64 (dbX (desktop b') + dbW (desktop b'))"
    if "b' \<in> set rs'" for b'
  proof -
    from that obtain j where j: "j < length rs'" "b' = rs' ! j" by (auto simp: in_set_conv_nth)
    then have "j < length rs" and s: "same_but_top (rs ! j) b'" using assms(1) by (auto simp: list_all2_conv_all_nth)
    then have "rs ! j \<in> set rs" by simp
    then have "1 \<le> dbW (desktop (rs ! j)) \<and> 1 \<le> dbH (desktop (rs ! j)) \<and>
        in_int64 (dbX (desktop (rs ! j)) + dbW (desktop (rs ! j)))"
      using assms(2) unfolding stackable_def by blast
    with same_but_top_facts [OF s] show ?thesis by simp
  qed
  ultimately show ?thesis using assms(2) by (simp add: stackable_def)
qed

lemma place_all_spec:
  assumes "stackable rs" "stacked rs ps" "distinct (ps @ is)" "\<forall>i\<in>set is. i < length rs"
  shows "stacked (place_all rs ps is) (ps @ is) \<and> list_all2 same_but_top rs (place_all rs ps is)"
  using assms
proof (induction "is" arbitrary: rs ps)
  case Nil
  then show ?case by (simp add: same_but_top_def list_all2_same)
next
  case (Cons i xs)
  let ?rs = "rs[i := set_top (stack_top rs (desktop (rs ! i)) 0 ps) (rs ! i)]"
  have l2: "list_all2 same_but_top rs ?rs"
    using Cons.prems(4) by (auto simp: list_all2_conv_all_nth same_but_top_def nth_list_update)
  have sb: "stackable ?rs" using l2 Cons.prems(1) by (rule stackable_same)
  have st: "stacked ?rs (ps @ [i])" using Cons.prems by (intro place_one) auto
  have "stacked (place_all ?rs (ps @ [i]) xs) ((ps @ [i]) @ xs) \<and> list_all2 same_but_top ?rs (place_all ?rs (ps @ [i]) xs)"
    by (rule Cons.IH [OF sb st]) (use Cons.prems in auto)
  moreover have "same_but_top a b \<Longrightarrow> same_but_top b c \<Longrightarrow> same_but_top a c" for a b c
    by (simp add: same_but_top_def)
  ultimately show ?case using l2 by (auto simp: Let_def intro: list_all2_trans)
qed

lemma item_origin:
  "i \<in> set (collision_items m bs) \<Longrightarrow> \<exists>c\<in>set bs. ciX i = dbX (desktop c) \<and> ciW i = dbW (desktop c) \<and>
     ciY i = dbY (desktop c) \<and> ciH i = dbH (desktop c)"
proof (induction bs arbitrary: m)
  case Nil
  then show ?case by simp
next
  case (Cons b bs)
  then consider "i \<in> set (collision_items (m + 1) bs)"
    | "i = \<lparr> ciID = bkID b, ciX = dbX (desktop b), ciY = dbY (desktop b), ciW = dbW (desktop b),
             ciH = dbH (desktop b), ciOrdinal = m \<rparr>"
    by (auto simp: Let_def split: if_splits)
  then show ?case
  proof cases
    case 1
    then show ?thesis using Cons.IH by auto
  next
    case 2
    then show ?thesis by simp
  qed
qed

lemma stacked_pairs:
  assumes "\<forall>i<length bs. \<forall>j<length bs. i \<noteq> j \<longrightarrow> \<not> blocks_meet (bs ! i) (bs ! j)"
    and "\<forall>b\<in>set bs. block_in_range b"
  shows "pair_collisions (collision_items k bs) = []"
  using assms
proof (induction bs arbitrary: k)
  case Nil
  then show ?case by simp
next
  case (Cons b bs)
  have "\<not> blocks_meet (bs ! i) (bs ! j)" if "i < length bs" "j < length bs" "i \<noteq> j" for i j
    using Cons.prems(1) [rule_format, of "Suc i" "Suc j"] that by simp
  then have ih: "pair_collisions (collision_items m bs) = []" for m using Cons by simp
  have nb: "\<not> blocks_meet b c" if c: "c \<in> set bs" for c
  proof -
    from c obtain j where "j < length bs" "bs ! j = c" by (auto simp: in_set_conv_nth)
    then show ?thesis using Cons.prems(1) [rule_format, of 0 "Suc j"] by simp
  qed
  have "\<not> items_intersect \<lparr> ciID = bkID b, ciX = dbX (desktop b), ciY = dbY (desktop b), ciW = dbW (desktop b),
      ciH = dbH (desktop b), ciOrdinal = k \<rparr> i" if i: "i \<in> set (collision_items m bs)" for i m
  proof -
    from item_origin [OF i] obtain c where c: "c \<in> set bs" "ciX i = dbX (desktop c)" "ciW i = dbW (desktop c)"
      "ciY i = dbY (desktop c)" "ciH i = dbH (desktop c)" by blast
    have "block_in_range b" "block_in_range c" using Cons.prems(2) c(1) by simp_all
    then show ?thesis using nb [OF c(1)] c
      by (auto simp: items_intersect_def rectanglesIntersect_def blocks_meet_def columns_meet_def bottom_def
          block_in_range_def wrap64_id)
  qed
  then show ?case using ih by (auto simp: Let_def filter_empty_conv)
qed

text \<open>C26: Vertical compaction removes every overlap: it keeps each block's identity, column,
  width and height and the order of the list; afterwards collision detection reports
  nothing, no block lies above the grid, and each block touches the top or the bottom of
  another block in its columns.\<close>

theorem compaction_removes_overlaps:
  assumes "clone blocks = Inr blocks" and "stackable blocks"
  shows "\<exists>bs. CompactBlocks clone blocks CompactVertical = Inr bs \<and> list_all2 same_but_top blocks bs \<and>
    DetectCollisions bs = Some [] \<and>
    (\<forall>b\<in>set bs. 0 \<le> dbY (desktop b) \<and>
       (dbY (desktop b) = 0 \<or> (\<exists>c\<in>set bs. columns_meet b c \<and> dbY (desktop b) = bottom c)))"
proof -
  define order where "order = sort_slice (\<lambda>l r. compact_before (blocks ! l) (blocks ! r)) [0..<length blocks]"
  define bs where "bs = place_all blocks [] order"
  have so: "set order = {..<length blocks}" "distinct order" by (auto simp: order_def)
  have "stacked blocks []" by (simp add: stacked_def)
  then have st: "stacked bs order" and l2: "list_all2 same_but_top blocks bs"
    using place_all_spec [OF assms(2), of "[]" order] so by (auto simp: bs_def)
  have len: "length bs = length blocks" using l2 by (metis list_all2_lengthD)
  have sb: "stackable bs" using l2 assms(2) by (rule stackable_same)
  have rng: "\<forall>b\<in>set bs. block_in_range b"
  proof
    fix b assume b: "b \<in> set bs"
    then obtain i where i: "i < length bs" "b = bs ! i" by (auto simp: in_set_conv_nth)
    have d: "distinct order" "\<forall>i\<in>set order. i < length bs" using so len by auto
    have "bottom b \<le> (\<Sum>p\<leftarrow>order. dbH (desktop (bs ! p)))" "0 \<le> dbY (desktop b)"
      using st i so len by (auto simp: stacked_def)
    moreover have "(\<Sum>p\<leftarrow>order. dbH (desktop (bs ! p))) \<le> int64_max"
      using heights_of_some [OF d stackable_heights_nonneg [OF sb]] sb by (simp add: stackable_def)
    ultimately show "block_in_range b"
      using sb b by (auto simp: block_in_range_def stackable_def bottom_def in_int64_def int64_min_def)
  qed
  have "\<forall>i<length bs. \<forall>j<length bs. i \<noteq> j \<longrightarrow> \<not> blocks_meet (bs ! i) (bs ! j)"
    using st so len by (auto simp: stacked_def)
  then have "block_collisions bs = []" unfolding block_collisions_def using rng by (rule stacked_pairs)
  then have det: "DetectCollisions bs = Some []" using detect_collisions_is_pairwise [OF rng] by auto
  have "0 \<le> dbY (desktop b) \<and> (dbY (desktop b) = 0 \<or>
      (\<exists>c\<in>set bs. columns_meet b c \<and> dbY (desktop b) = bottom c))" if b: "b \<in> set bs" for b
  proof -
    from b obtain i where i: "i \<in> set order" "b = bs ! i" using so len by (auto simp: in_set_conv_nth)
    then show ?thesis using st so len unfolding stacked_def by (metis lessThan_iff nth_mem)
  qed
  moreover have "CompactBlocks clone blocks CompactVertical = Inr bs"
    by (simp add: CompactBlocks_def assms(1) bs_def order_def Let_def)
  ultimately show ?thesis using l2 det by blast
qed

lemma sample_stackable: "stackable sample_blocks"
  by (simp add: stackable_def sample_blocks_def sample_block_def in_int64_def int64_min_def int64_max_def)

theorem compaction_removes_overlaps_witness:
  "\<exists>bs. CompactBlocks (Inr :: Block list \<Rightarrow> unit + Block list) sample_blocks CompactVertical = Inr bs \<and>
     DetectCollisions bs = Some []"
  using compaction_removes_overlaps [of "Inr :: Block list \<Rightarrow> unit + Block list", OF refl sample_stackable] by blast

end
