(* ===== verification/SlotMerge.thy ===== *)
theory SlotMerge imports Layout begin

text \<open>
  The geometry of merged slots (\<open>MergeSlots\<close> of \<open>internal/report/compiler/layout.go\<close>): a merge
  that is accepted covers exactly the cells of the slots it replaces.
\<close>

section \<open>Cells\<close>

definition slot_cells :: "Slot \<Rightarrow> (int \<times> int) set" where
  "slot_cells s = {sgX (slGrid s)..<sgX (slGrid s) + sgW (slGrid s)} \<times>
     {sgY (slGrid s)..<sgY (slGrid s) + sgH (slGrid s)}"

text \<open>A slot of a zone whose grid has at most 1000 columns and rows (validation allows 24 and 100).\<close>

definition slot_fits :: "Slot \<Rightarrow> bool" where
  "slot_fits s \<longleftrightarrow> (let g = slGrid s in 0 \<le> sgX g \<and> 0 \<le> sgY g \<and> 1 \<le> sgW g \<and> 1 \<le> sgH g \<and>
     sgX g + sgW g \<le> 1000 \<and> sgY g + sgH g \<le> 1000)"

definition slot_area :: "Slot \<Rightarrow> int" where
  "slot_area s = sgW (slGrid s) * sgH (slGrid s)"

lemma small_in_int64: "0 \<le> x \<Longrightarrow> x \<le> 1000000 \<Longrightarrow> wrap64 x = x"
  by (simp add: wrap64_id in_int64_def int64_min_def int64_max_def)

lemma wrap64_add_left: "wrap64 (wrap64 a + b) = wrap64 (a + b)"
proof -
  have "(a + 2 ^ 63) mod 2 ^ 64 - 2 ^ 63 + b + 2 ^ 63 = (a + 2 ^ 63) mod 2 ^ 64 + b" by simp
  then have "((a + 2 ^ 63) mod 2 ^ 64 - 2 ^ 63 + b + 2 ^ 63) mod 2 ^ 64 = (a + 2 ^ 63 + b) mod (2 ^ 64 :: int)"
    by (simp only: mod_add_left_eq)
  then show ?thesis by (simp add: wrap64_def add_ac)
qed

lemma card_slot_cells:
  "slot_fits s \<Longrightarrow> finite (slot_cells s) \<and> int (card (slot_cells s)) = slot_area s"
  by (simp add: slot_cells_def slot_fits_def slot_area_def Let_def card_cartesian_product)

lemma slots_intersect_cells:
  assumes "slot_fits a" "slot_fits b" "\<not> slots_intersect a b"
  shows "slot_cells a \<inter> slot_cells b = {}"
  using assms by (auto simp: slots_intersect_def rectanglesIntersect_def slot_cells_def slot_fits_def
      Let_def small_in_int64)

lemma no_slot_collisions:
  assumes "detectSlotCollisions ss = []" and "\<forall>s\<in>set ss. slot_fits s"
  shows "int (card (\<Union>s\<in>set ss. slot_cells s)) = (\<Sum>s\<leftarrow>ss. slot_area s)"
    and "finite (\<Union>s\<in>set ss. slot_cells s)"
proof -
  have "finite (\<Union>s\<in>set ss. slot_cells s) \<and> int (card (\<Union>s\<in>set ss. slot_cells s)) = (\<Sum>s\<leftarrow>ss. slot_area s)"
    using assms
  proof (induction ss)
    case Nil
    then show ?case by simp
  next
    case (Cons a ss)
    then have "\<forall>b\<in>set ss. \<not> slots_intersect a b" by (auto simp: filter_empty_conv)
    then have d: "slot_cells a \<inter> (\<Union>s\<in>set ss. slot_cells s) = {}"
      using Cons.prems(2) slots_intersect_cells by fastforce
    have "finite (slot_cells a) \<and> int (card (slot_cells a)) = slot_area a"
      using Cons.prems(2) by (intro card_slot_cells) simp
    then show ?case using Cons d by (simp add: card_Un_disjoint)
  qed
  then show "int (card (\<Union>s\<in>set ss. slot_cells s)) = (\<Sum>s\<leftarrow>ss. slot_area s)"
    and "finite (\<Union>s\<in>set ss. slot_cells s)" by simp_all
qed

section \<open>The bounding box\<close>

lemma merge_extent_spec:
  assumes "\<forall>s\<in>set ss. slot_fits s"
  shows "bdMinX (merge_extent b ss) \<le> bdMinX b \<and> bdMinY (merge_extent b ss) \<le> bdMinY b \<and>
    bdMaxX b \<le> bdMaxX (merge_extent b ss) \<and> bdMaxY b \<le> bdMaxY (merge_extent b ss) \<and>
    (0 \<le> bdMinX b \<longrightarrow> 0 \<le> bdMinX (merge_extent b ss)) \<and> (0 \<le> bdMinY b \<longrightarrow> 0 \<le> bdMinY (merge_extent b ss)) \<and>
    (bdMaxX b \<le> 1000 \<longrightarrow> bdMaxX (merge_extent b ss) \<le> 1000) \<and>
    (bdMaxY b \<le> 1000 \<longrightarrow> bdMaxY (merge_extent b ss) \<le> 1000) \<and>
    (\<forall>s\<in>set ss. bdMinX (merge_extent b ss) \<le> sgX (slGrid s) \<and> bdMinY (merge_extent b ss) \<le> sgY (slGrid s) \<and>
       sgX (slGrid s) + sgW (slGrid s) \<le> bdMaxX (merge_extent b ss) \<and>
       sgY (slGrid s) + sgH (slGrid s) \<le> bdMaxY (merge_extent b ss)) \<and>
    wrap64 (bdArea (merge_extent b ss)) = wrap64 (bdArea b + (\<Sum>s\<leftarrow>ss. slot_area s)) \<and>
    bdOccupied (merge_extent b ss) = bdOccupied b + int (length (filter (\<lambda>s. slComponentID s \<noteq> []) ss))"
  using assms
proof (induction ss arbitrary: b)
  case Nil
  then show ?case by simp
next
  case (Cons s ss)
  let ?g = "slGrid s"
  have f: "slot_fits s" using Cons.prems by simp
  have w: "wrap64 (sgX ?g + sgW ?g) = sgX ?g + sgW ?g" "wrap64 (sgY ?g + sgH ?g) = sgY ?g + sgH ?g"
    using f by (simp_all add: slot_fits_def Let_def small_in_int64)
  have "0 \<le> sgW ?g" "0 \<le> sgH ?g" "sgW ?g \<le> 1000" "sgH ?g \<le> 1000"
    using f by (auto simp: slot_fits_def Let_def)
  then have "sgW ?g * sgH ?g \<le> 1000 * 1000" "0 \<le> sgW ?g * sgH ?g"
    by (intro mult_mono mult_nonneg_nonneg; simp)+
  then have wa: "wrap64 (sgW ?g * sgH ?g) = slot_area s" by (simp add: small_in_int64 slot_area_def)
  define b1 where "b1 = \<lparr> bdMinX = min (bdMinX b) (sgX ?g), bdMinY = min (bdMinY b) (sgY ?g),
        bdMaxX = max (bdMaxX b) (sgX ?g + sgW ?g), bdMaxY = max (bdMaxY b) (sgY ?g + sgH ?g),
        bdArea = wrap64 (bdArea b + slot_area s),
        bdOccupied = (if slComponentID s \<noteq> [] then bdOccupied b + 1 else bdOccupied b) \<rparr>"
  have e: "merge_extent b (s # ss) = merge_extent b1 ss" by (simp add: b1_def w wa Let_def)
  have ih: "bdMinX (merge_extent b1 ss) \<le> bdMinX b1" "bdMinY (merge_extent b1 ss) \<le> bdMinY b1"
    "bdMaxX b1 \<le> bdMaxX (merge_extent b1 ss)" "bdMaxY b1 \<le> bdMaxY (merge_extent b1 ss)"
    "0 \<le> bdMinX b1 \<longrightarrow> 0 \<le> bdMinX (merge_extent b1 ss)" "0 \<le> bdMinY b1 \<longrightarrow> 0 \<le> bdMinY (merge_extent b1 ss)"
    "bdMaxX b1 \<le> 1000 \<longrightarrow> bdMaxX (merge_extent b1 ss) \<le> 1000"
    "bdMaxY b1 \<le> 1000 \<longrightarrow> bdMaxY (merge_extent b1 ss) \<le> 1000"
    "\<forall>s\<in>set ss. bdMinX (merge_extent b1 ss) \<le> sgX (slGrid s) \<and> bdMinY (merge_extent b1 ss) \<le> sgY (slGrid s) \<and>
       sgX (slGrid s) + sgW (slGrid s) \<le> bdMaxX (merge_extent b1 ss) \<and>
       sgY (slGrid s) + sgH (slGrid s) \<le> bdMaxY (merge_extent b1 ss)"
    "wrap64 (bdArea (merge_extent b1 ss)) = wrap64 (bdArea b1 + (\<Sum>s\<leftarrow>ss. slot_area s))"
    "bdOccupied (merge_extent b1 ss) = bdOccupied b1 + int (length (filter (\<lambda>s. slComponentID s \<noteq> []) ss))"
    using Cons.IH [of b1] Cons.prems by simp_all
  have b1: "bdMinX b1 = min (bdMinX b) (sgX ?g)" "bdMinY b1 = min (bdMinY b) (sgY ?g)"
    "bdMaxX b1 = max (bdMaxX b) (sgX ?g + sgW ?g)" "bdMaxY b1 = max (bdMaxY b) (sgY ?g + sgH ?g)"
    "bdArea b1 = wrap64 (bdArea b + slot_area s)"
    by (simp_all add: b1_def)
  have fits: "0 \<le> sgX ?g" "0 \<le> sgY ?g" "sgX ?g + sgW ?g \<le> 1000" "sgY ?g + sgH ?g \<le> 1000"
    using f by (simp_all add: slot_fits_def Let_def)
  have ar: "wrap64 (bdArea (merge_extent b1 ss)) = wrap64 (bdArea b + (\<Sum>s\<leftarrow>s # ss. slot_area s))"
    unfolding ih(10) b1(5) wrap64_add_left by (simp add: add_ac)
  have oc: "bdOccupied (merge_extent b1 ss) = bdOccupied b + int (length (filter (\<lambda>s. slComponentID s \<noteq> []) (s # ss)))"
    using ih(11) by (simp add: b1_def)
  show ?case
    unfolding e
    using ih(1-9) fits ar oc by (simp add: b1)
qed

section \<open>The merge\<close>

lemma select_wanted_distinct:
  "distinct (map slID ss) \<Longrightarrow>
   select_wanted W ss = (filter (\<lambda>s. slID s \<in> W) ss, W - slID ` set ss)"
proof (induction ss arbitrary: W)
  case Nil
  then show ?case by simp
next
  case (Cons s ss)
  have "filter (\<lambda>t. slID t \<in> W - {slID s}) ss = filter (\<lambda>t. slID t \<in> W) ss"
    using Cons.prems by (intro filter_cong) (auto simp: image_iff)
  moreover have "W - {slID s} - slID ` set ss = W - slID ` set (s # ss)" by auto
  ultimately show ?case using Cons by auto
qed

lemma last_component:
  fixes ss :: "Slot list"
  assumes "length (filter (\<lambda>s. slComponentID s \<noteq> []) ss) \<le> 1"
  shows "\<forall>s\<in>set ss. slComponentID s \<noteq> [] \<longrightarrow>
      fold (\<lambda>s c. if slComponentID s \<noteq> [] then slComponentID s else c) ss c0 = slComponentID s"
    and "fold (\<lambda>s c. if slComponentID s \<noteq> [] then slComponentID s else c) ss c0 = c0 \<or>
      (\<exists>s\<in>set ss. slComponentID s \<noteq> [] \<and> fold (\<lambda>s c. if slComponentID s \<noteq> [] then slComponentID s else c) ss c0 = slComponentID s)"
proof -
  show "fold (\<lambda>s c. if slComponentID s \<noteq> [] then slComponentID s else c) ss c0 = c0 \<or>
      (\<exists>s\<in>set ss. slComponentID s \<noteq> [] \<and> fold (\<lambda>s c. if slComponentID s \<noteq> [] then slComponentID s else c) ss c0 = slComponentID s)"
    by (induction ss arbitrary: c0) (simp, force)
  have none: "\<forall>s\<in>set ts. slComponentID s = [] \<Longrightarrow>
      fold (\<lambda>s c. if slComponentID s \<noteq> [] then slComponentID s else c) ts c = c" for ts :: "Slot list" and c
    by (induction ts arbitrary: c) auto
  show "\<forall>s\<in>set ss. slComponentID s \<noteq> [] \<longrightarrow>
      fold (\<lambda>s c. if slComponentID s \<noteq> [] then slComponentID s else c) ss c0 = slComponentID s"
    using assms
  proof (induction ss arbitrary: c0)
    case Nil
    then show ?case by simp
  next
    case (Cons t ts)
    show ?case
    proof (cases "slComponentID t = []")
      case True
      then show ?thesis using Cons by simp
    next
      case False
      then have "filter (\<lambda>s. slComponentID s \<noteq> []) ts = []" using Cons.prems by simp
      then have "\<forall>s\<in>set ts. slComponentID s = []" by (simp add: filter_empty_conv)
      then show ?thesis using none False by auto
    qed
  qed
qed

text \<open>A merge of slots that is accepted tiles: the merged slot covers exactly the cells of the
  slots it names, which do not overlap each other; it carries the one component they hold,
  if any, and its provenance is the sorted list of their identifiers.\<close>

theorem merged_slot_tiles:
  assumes m: "MergeSlots zone ids newID minimum = Inr merged"
    and d: "distinct (map slID (znSlots zone))" and fits: "\<forall>s\<in>set (znSlots zone). slot_fits s"
  shows "\<exists>sel. set sel \<subseteq> set (znSlots zone) \<and> slID ` set sel = set ids \<and>
    slot_cells merged = (\<Union>s\<in>set sel. slot_cells s) \<and>
    (\<forall>a\<in>set sel. \<forall>b\<in>set sel. a \<noteq> b \<longrightarrow> slot_cells a \<inter> slot_cells b = {}) \<and>
    (\<forall>s\<in>set sel. slComponentID s \<noteq> [] \<longrightarrow> slComponentID merged = slComponentID s) \<and>
    (slComponentID merged \<noteq> [] \<longrightarrow> (\<exists>s\<in>set sel. slComponentID merged = slComponentID s)) \<and>
    slMergedFrom merged = sort_slice (<) ids \<and> newID \<notin> set ids \<and> slID merged = newID"
proof -
  define sel where "sel = filter (\<lambda>s. slID s \<in> set ids) (znSlots zone)"
  define e where "e = merge_extent no_extent sel"
  have sw: "select_wanted (set ids) (znSlots zone) = (sel, set ids - slID ` set (znSlots zone))"
    unfolding sel_def using d by (rule select_wanted_distinct)
  have v: "ValidateSlotMergeWithMinSize zone ids minimum = None" and nid: "newID \<notin> set ids"
    and mg: "slID merged = newID" "slGrid merged = \<lparr> sgX = bdMinX e, sgY = bdMinY e,
        sgW = wrap64 (bdMaxX e - bdMinX e), sgH = wrap64 (bdMaxY e - bdMinY e) \<rparr>"
      "slMergedFrom merged = sort_slice (<) ids"
      "slComponentID merged = fold (\<lambda>s c. if slComponentID s \<noteq> [] then slComponentID s else c) sel []"
    using m by (auto simp: MergeSlots_def Let_def e_def sel_def split: option.splits if_splits)
  have c: "2 \<le> length ids" "set ids \<subseteq> slID ` set (znSlots zone)" "detectSlotCollisions sel = []"
      "bdArea e = wrap64 (wrap64 (bdMaxX e - bdMinX e) * wrap64 (bdMaxY e - bdMinY e))" "bdOccupied e \<le> 1"
    using v by (auto simp: ValidateSlotMergeWithMinSize_def sw e_def Let_def split: if_splits)
  have ids: "slID ` set sel = set ids" using c(2) by (auto simp: sel_def)
  have sf: "\<forall>s\<in>set sel. slot_fits s" using fits by (simp add: sel_def)
  note ex = merge_extent_spec [OF sf, of no_extent, folded e_def]
  have "ids \<noteq> []" using c(1) by auto
  then have "sel \<noteq> []" using ids by auto
  then obtain s0 where s0: "s0 \<in> set sel" by (cases sel) auto
  have f0: "0 \<le> sgX (slGrid s0)" "0 \<le> sgY (slGrid s0)" "1 \<le> sgW (slGrid s0)" "1 \<le> sgH (slGrid s0)"
    using sf s0 by (auto simp: slot_fits_def Let_def)
  have box: "0 \<le> bdMinX e" "0 \<le> bdMinY e" "bdMaxX e \<le> 1000" "bdMaxY e \<le> 1000"
      "bdMinX e \<le> bdMaxX e" "bdMinY e \<le> bdMaxY e"
    and inside: "\<forall>s\<in>set sel. bdMinX e \<le> sgX (slGrid s) \<and> bdMinY e \<le> sgY (slGrid s) \<and>
       sgX (slGrid s) + sgW (slGrid s) \<le> bdMaxX e \<and> sgY (slGrid s) + sgH (slGrid s) \<le> bdMaxY e"
    and area: "wrap64 (bdArea e) = wrap64 (\<Sum>s\<leftarrow>sel. slot_area s)"
    and occ: "bdOccupied e = int (length (filter (\<lambda>s. slComponentID s \<noteq> []) sel))"
    using ex s0 f0 by (auto simp: no_extent_def int64_max_def)
  have w: "wrap64 (bdMaxX e - bdMinX e) = bdMaxX e - bdMinX e" "wrap64 (bdMaxY e - bdMinY e) = bdMaxY e - bdMinY e"
    using box by (simp_all add: small_in_int64)
  define B where "B = {bdMinX e..<bdMaxX e} \<times> {bdMinY e..<bdMaxY e}"
  have cells: "slot_cells merged = B" by (simp add: slot_cells_def mg(2) w B_def)
  have sub: "(\<Union>s\<in>set sel. slot_cells s) \<subseteq> B"
    using inside by (fastforce simp: slot_cells_def B_def)
  have B: "finite B" "int (card B) = (bdMaxX e - bdMinX e) * (bdMaxY e - bdMinY e)"
    using box by (simp_all add: B_def card_cartesian_product)
  have "(bdMaxX e - bdMinX e) * (bdMaxY e - bdMinY e) \<le> 1000 * 1000" using box by (intro mult_mono) auto
  then have small: "0 \<le> int (card B)" "int (card B) \<le> 1000000" using B(2) by simp_all
  have un: "int (card (\<Union>s\<in>set sel. slot_cells s)) = (\<Sum>s\<leftarrow>sel. slot_area s)"
    by (rule no_slot_collisions(1) [OF c(3) sf])
  moreover have le: "card (\<Union>s\<in>set sel. slot_cells s) \<le> card B" using B(1) sub by (rule card_mono)
  ultimately have "wrap64 (\<Sum>s\<leftarrow>sel. slot_area s) = int (card (\<Union>s\<in>set sel. slot_cells s))"
    using small by (simp add: small_in_int64 flip: un)
  moreover have "wrap64 (bdArea e) = int (card B)"
    using small by (simp add: c(4) w small_in_int64 flip: B(2))
  ultimately have "card (\<Union>s\<in>set sel. slot_cells s) = card B" using area by simp
  then have tile: "(\<Union>s\<in>set sel. slot_cells s) = B" using B(1) sub by (simp add: card_subset_eq)
  have disj: "\<forall>a\<in>set sel. \<forall>b\<in>set sel. a \<noteq> b \<longrightarrow> slot_cells a \<inter> slot_cells b = {}"
    using c(3) sf
  proof (induction sel)
    case Nil
    then show ?case by simp
  next
    case (Cons a ss)
    then have "\<forall>b\<in>set ss. slot_cells a \<inter> slot_cells b = {}"
      using slots_intersect_cells by (auto simp: filter_empty_conv)
    then show ?case using Cons by auto
  qed
  have "length (filter (\<lambda>s. slComponentID s \<noteq> []) sel) \<le> 1" using c(5) occ by simp
  note lc = last_component [OF this, of "[]", folded mg(4)]
  have "set sel \<subseteq> set (znSlots zone)" by (simp add: sel_def)
  with ids cells tile disj lc mg nid show ?thesis by (intro exI [of _ sel]) auto
qed

definition grid_slot :: "ID \<Rightarrow> int \<Rightarrow> int \<Rightarrow> int \<Rightarrow> int \<Rightarrow> ID \<Rightarrow> Slot" where
  "grid_slot i x y w h c = \<lparr> slID = i, slGrid = \<lparr> sgX = x, sgY = y, sgW = w, sgH = h \<rparr>,
     slComponentID = c, slCardKind = [], slMergedFrom = [] \<rparr>"

definition sample_zone :: Zone where
  "sample_zone = \<lparr> znID = ''z'', znOrder = 1, znType = ZoneContent,
     znLayout = \<lparr> zlHeightMode = ZoneHeightAuto, zlMinHeight = 1, zlMaxHeight = None, zlFixedHeight = None,
       zlFR = None, zlColumns = 12, zlRows = 2, zlOverflow = OverflowExpand, zlEmptyPriority = 1 \<rparr>,
     znSlots = [grid_slot ''s1'' 0 0 4 2 [], grid_slot ''s2'' 4 0 4 1 ''c'', grid_slot ''s3'' 4 1 4 1 []] \<rparr>"

theorem merged_slot_tiles_witness:
  "\<exists>m. MergeSlots sample_zone [''s3'', ''s1'', ''s2''] ''m'' \<lparr> gsW = 1, gsH = 1 \<rparr> = Inr m \<and>
     slComponentID m = ''c'' \<and> slMergedFrom m = [''s1'', ''s2'', ''s3'']"
proof -
  have "\<not> isl (MergeSlots sample_zone [''s3'', ''s1'', ''s2''] ''m'' \<lparr> gsW = 1, gsH = 1 \<rparr>)" by code_simp
  then obtain m where m: "MergeSlots sample_zone [''s3'', ''s1'', ''s2''] ''m'' \<lparr> gsW = 1, gsH = 1 \<rparr> = Inr m"
    by (cases "MergeSlots sample_zone [''s3'', ''s1'', ''s2''] ''m'' \<lparr> gsW = 1, gsH = 1 \<rparr>") simp_all
  have d: "distinct (map slID (znSlots sample_zone))" by code_simp
  have f: "\<forall>s\<in>set (znSlots sample_zone). slot_fits s" by code_simp
  from merged_slot_tiles [OF m d f] obtain sel where sel: "set sel \<subseteq> set (znSlots sample_zone)"
      "slID ` set sel = set [''s3'', ''s1'', ''s2'']"
      "\<forall>s\<in>set sel. slComponentID s \<noteq> [] \<longrightarrow> slComponentID m = slComponentID s"
      "slMergedFrom m = sort_slice (<) [''s3'', ''s1'', ''s2'']" by blast
  have "''s2'' \<in> slID ` set sel" using sel(2) by simp
  then obtain s where "s \<in> set sel" "slID s = ''s2''" by auto
  moreover from this have "slComponentID s = ''c''"
    using sel(1) by (auto simp: sample_zone_def grid_slot_def)
  moreover have "sort_slice (<) [''s3'', ''s1'', ''s2''] = [''s1'', ''s2'', ''s3'']" by code_simp
  ultimately show ?thesis using m sel(3,4) by auto
qed

end
