(* ===== verification/ZoneHeights.thy ===== *)
theory ZoneHeights imports ReportModel begin

text \<open>
  The heights of the zones of a card (\<open>CalculateZoneHeights\<close> of
  \<open>internal/report/compiler/layout.go\<close>): fixed and automatic zones first, the rest shared by
  weight, the space of empty zones given to others by priority. Weights are \<open>float64\<close>;
  every sum and difference of heights is reduced to 64 bits. A share is converted from
  \<open>float64\<close> where it is within int64, as it is for cards of at most \<open>2 ^ 62\<close>. A nil weight of a zone that is
  asked for its share is the nil dereference \<open>None\<close>.
\<close>

section \<open>Definitions\<close>

text \<open>The validation of a zone's layout, \<open>ZoneLayout.validate\<close> of \<open>internal/report/model.go\<close>.\<close>

definition zone_layout_valid :: "ZoneLayout \<Rightarrow> bool" where
  "zone_layout_valid l \<longleftrightarrow>
     \<not> (zlColumns l < 1 \<or> zlColumns l > 24 \<or> zlRows l < 1 \<or> zlRows l > 100) \<and>
     \<not> (zlMinHeight l < 0 \<or> (case zlMaxHeight l of None \<Rightarrow> False | Some m \<Rightarrow> m < zlMinHeight l)) \<and>
     zlOverflow l \<in> {OverflowClip, OverflowScroll, OverflowExpand} \<and>
     (case zlHeightMode l of
        ZoneHeightAuto \<Rightarrow> zlFixedHeight l = None \<and> zlFR l = None
      | ZoneHeightHidden \<Rightarrow> zlFixedHeight l = None \<and> zlFR l = None
      | ZoneHeightFixed \<Rightarrow> (case zlFixedHeight l of None \<Rightarrow> False | Some h \<Rightarrow> zlMinHeight l \<le> h) \<and> zlFR l = None
      | ZoneHeightFR \<Rightarrow> (case zlFR l of None \<Rightarrow> False | Some f \<Rightarrow> f > 0) \<and> zlFixedHeight l = None
      | OtherZoneHeight _ \<Rightarrow> False)"

type_synonym heights = "ID \<rightharpoonup> int"

text \<open>Reading a missing key of a Go map of integers gives 0.\<close>

definition height_at :: "heights \<Rightarrow> ID \<Rightarrow> int" where
  "height_at m i = (case m i of None \<Rightarrow> 0 | Some h \<Rightarrow> h)"

record zone_acc =
  zaResult :: heights
  zaRemaining :: int
  zaWeighted :: "Zone list"
  zaTotalWeight :: rat

definition start_zone :: "Zone \<Rightarrow> zone_acc \<Rightarrow> zone_acc" where
  "start_zone z a =
     (let l = znLayout z in
      case zlHeightMode l of
        ZoneHeightHidden \<Rightarrow> a\<lparr> zaResult := (zaResult a)(znID z \<mapsto> 0) \<rparr>
      | ZoneHeightFixed \<Rightarrow>
          (let h = (case zlFixedHeight l of None \<Rightarrow> zlMinHeight l | Some f \<Rightarrow> f) in
           a\<lparr> zaResult := (zaResult a)(znID z \<mapsto> h), zaRemaining := wrap64 (zaRemaining a - h) \<rparr>)
      | ZoneHeightAuto \<Rightarrow>
          a\<lparr> zaResult := (zaResult a)(znID z \<mapsto> zlMinHeight l), zaRemaining := wrap64 (zaRemaining a - zlMinHeight l) \<rparr>
      | ZoneHeightFR \<Rightarrow>
          a\<lparr> zaWeighted := zaWeighted a @ [z], zaResult := (zaResult a)(znID z \<mapsto> zlMinHeight l),
             zaRemaining := wrap64 (zaRemaining a - zlMinHeight l),
             zaTotalWeight := (case zlFR l of None \<Rightarrow> zaTotalWeight a
               | Some f \<Rightarrow> if f > 0 then fl_add (zaTotalWeight a) f else zaTotalWeight a) \<rparr>
      | OtherZoneHeight _ \<Rightarrow> a)"

record round_acc =
  raRemaining :: int
  raProgress :: int
  raResult :: heights
  raNext :: "Zone list"
  raNextWeight :: rat

text \<open>
  One round over the weighted zones; it ends early when nothing remains. \<open>share_one\<close> is the
  body of its loop for a zone with weight \<open>fr\<close>.
\<close>

definition zone_share :: "int \<Rightarrow> rat \<Rightarrow> rat \<Rightarrow> Zone \<Rightarrow> round_acc \<Rightarrow> int" where
  "zone_share available totalWeight fr z a =
     (let share0 = max 1 \<lfloor>fl_div (fl_mult (fl_of_int available) fr) totalWeight\<rfloor>;
          share1 = min share0 (raRemaining a)
      in case zlMaxHeight (znLayout z) of None \<Rightarrow> share1
         | Some m \<Rightarrow> min share1 (wrap64 (m - height_at (raResult a) (znID z))))"

definition share_one :: "int \<Rightarrow> rat \<Rightarrow> rat \<Rightarrow> Zone \<Rightarrow> round_acc \<Rightarrow> round_acc" where
  "share_one available totalWeight fr z a =
     (let share = zone_share available totalWeight fr z a;
          a1 = (if share > 0
                then a\<lparr> raResult := (raResult a)(znID z \<mapsto> wrap64 (height_at (raResult a) (znID z) + share)),
                        raRemaining := wrap64 (raRemaining a - share), raProgress := wrap64 (raProgress a + share) \<rparr>
                else a);
          still = (case zlMaxHeight (znLayout z) of None \<Rightarrow> True
             | Some m \<Rightarrow> height_at (raResult a1) (znID z) < m)
      in if still then a1\<lparr> raNext := raNext a1 @ [z], raNextWeight := fl_add (raNextWeight a1) fr \<rparr> else a1)"

fun share_round :: "int \<Rightarrow> rat \<Rightarrow> Zone list \<Rightarrow> round_acc \<Rightarrow> round_acc option" where
  "share_round available totalWeight [] a = Some a"
| "share_round available totalWeight (z # zs) a = (case zlFR (znLayout z) of
     None \<Rightarrow> None
   | Some fr \<Rightarrow>
      (let a2 = share_one available totalWeight fr z a
       in if raRemaining a2 = 0 then Some a2 else share_round available totalWeight zs a2))"

lemma share_one_fields:
  "raRemaining (share_one v w fr z a) = (if 0 < zone_share v w fr z a then wrap64 (raRemaining a - zone_share v w fr z a) else raRemaining a)"
  "raProgress (share_one v w fr z a) = (if 0 < zone_share v w fr z a then wrap64 (raProgress a + zone_share v w fr z a) else raProgress a)"
  "raResult (share_one v w fr z a) = (if 0 < zone_share v w fr z a
     then (raResult a)(znID z \<mapsto> wrap64 (height_at (raResult a) (znID z) + zone_share v w fr z a)) else raResult a)"
  "set (raNext (share_one v w fr z a)) \<subseteq> insert z (set (raNext a))"
  by (auto simp: share_one_def Let_def)

lemma zone_share_le: "zone_share v w fr z a \<le> raRemaining a"
  by (auto simp: zone_share_def Let_def split: option.splits)

lemma wrap64_le: "0 \<le> x \<Longrightarrow> wrap64 x \<le> x"
  unfolding wrap64_def using zmod_le_nonneg_dividend [of "x + 2 ^ 63" "2 ^ 64"] by simp

definition round_start :: "int \<Rightarrow> heights \<Rightarrow> round_acc" where
  "round_start remaining result = \<lparr> raRemaining = remaining, raProgress = 0, raResult = result,
     raNext = [], raNextWeight = 0 \<rparr>"

lemma share_round_progress:
  "share_round v w zs a = Some b \<Longrightarrow> raRemaining b \<le> raRemaining a \<and>
     (raRemaining b = raRemaining a \<longrightarrow> raProgress b = raProgress a)"
proof (induction zs arbitrary: a)
  case Nil
  then show ?case by simp
next
  case (Cons z zs)
  then obtain fr where fr: "zlFR (znLayout z) = Some fr" by (auto split: option.splits)
  let ?a = "share_one v w fr z a"
  have "raRemaining ?a \<le> raRemaining a" "raRemaining ?a = raRemaining a \<longrightarrow> raProgress ?a = raProgress a"
    using zone_share_le [of v w fr z a] wrap64_le [of "raRemaining a - zone_share v w fr z a"]
    by (auto simp: share_one_fields)
  moreover have "b = ?a \<or> share_round v w zs ?a = Some b"
    using Cons.prems fr by (simp add: Let_def split: if_splits)
  ultimately show ?case using Cons.IH [of ?a] by auto
qed

function distribute :: "int \<Rightarrow> Zone list \<Rightarrow> rat \<Rightarrow> heights \<Rightarrow> heights option" where
  "distribute remaining weighted totalWeight result =
     (if remaining > 0 \<and> weighted \<noteq> [] \<and> totalWeight > 0 then
        (case share_round remaining totalWeight weighted (round_start remaining result) of
           None \<Rightarrow> None
         | Some a \<Rightarrow>
            (if raProgress a = 0 then Some (raResult a)
             else distribute (raRemaining a) (raNext a) (raNextWeight a) (raResult a)))
      else Some result)"
  by pat_completeness auto

termination
proof (relation "measure (\<lambda>(remaining, _). nat remaining)")
  show "wf (measure (\<lambda>(remaining :: int, _ :: Zone list \<times> rat \<times> heights). nat remaining))" by simp
next
  fix remaining totalWeight a
  fix weighted :: "Zone list" and result :: heights
  assume "remaining > 0 \<and> weighted \<noteq> [] \<and> totalWeight > 0"
    and "share_round remaining totalWeight weighted (round_start remaining result) = Some a"
    and "raProgress a \<noteq> 0"
  then show "((raRemaining a, raNext a, raNextWeight a, raResult a), remaining, weighted, totalWeight, result)
      \<in> measure (\<lambda>(remaining, _). nat remaining)"
    using share_round_progress [of remaining totalWeight weighted "round_start remaining result" a]
    by (auto simp: round_start_def)
qed

declare distribute.simps [simp del]

definition vacate :: "Zone \<Rightarrow> heights \<times> int \<Rightarrow> heights \<times> int" where
  "vacate z p = (case p of (result, freed) \<Rightarrow>
     if zlHeightMode (znLayout z) \<noteq> ZoneHeightHidden \<and> znSlots z = []
     then (result(znID z \<mapsto> 0), wrap64 (freed + height_at result (znID z))) else (result, freed))"

fun redistribute :: "(ID \<rightharpoonup> Zone) \<Rightarrow> ID list \<Rightarrow> heights \<Rightarrow> int \<Rightarrow> heights" where
  "redistribute byID [] result freed = result"
| "redistribute byID (i # is) result freed =
     (if freed = 0 then result
      else (case byID i of
        None \<Rightarrow> redistribute byID is result freed
      | Some z \<Rightarrow>
         (if znSlots z = [] \<or> (zlHeightMode (znLayout z) \<noteq> ZoneHeightAuto \<and> zlHeightMode (znLayout z) \<noteq> ZoneHeightFR)
          then redistribute byID is result freed
          else (let capacity = (case zlMaxHeight (znLayout z) of None \<Rightarrow> freed
                      | Some m \<Rightarrow> min freed (wrap64 (m - height_at result i)))
                in if capacity > 0
                   then redistribute byID is (result(i \<mapsto> wrap64 (height_at result i + capacity))) (wrap64 (freed - capacity))
                   else redistribute byID is result freed))))"

definition CalculateZoneHeightsWithPriority ::
  "Zone list \<Rightarrow> int \<Rightarrow> ID list \<Rightarrow> heights option" where
  "CalculateZoneHeightsWithPriority zones totalHeight priority =
     (let a = fold start_zone zones \<lparr> zaResult = Map.empty, zaRemaining = totalHeight,
                zaWeighted = [], zaTotalWeight = 0 \<rparr> in
      case distribute (zaRemaining a) (zaWeighted a) (zaTotalWeight a) (zaResult a) of
        None \<Rightarrow> None
      | Some result \<Rightarrow>
         (let byID = map_of (rev (map (\<lambda>z. (znID z, z)) zones));
              (vacated, freed) = fold vacate zones (result, 0)
          in Some (redistribute byID priority vacated freed)))"

definition priority_before :: "Zone \<Rightarrow> Zone \<Rightarrow> bool" where
  "priority_before a b =
     (if zlEmptyPriority (znLayout a) \<noteq> zlEmptyPriority (znLayout b)
      then zlEmptyPriority (znLayout a) > zlEmptyPriority (znLayout b) else znID a < znID b)"

definition CalculateZoneHeights :: "Zone list \<Rightarrow> int \<Rightarrow> heights option" where
  "CalculateZoneHeights zones totalHeight =
     CalculateZoneHeightsWithPriority zones totalHeight (map znID (sort_slice priority_before zones))"

section \<open>Totals\<close>

definition total_height :: "Zone list \<Rightarrow> heights \<Rightarrow> int" where
  "total_height zones m = (\<Sum>z\<leftarrow>zones. height_at m (znID z))"

lemma height_at_upd [simp]: "height_at (m(i \<mapsto> h)) j = (if i = j then h else height_at m j)"
  by (simp add: height_at_def)

lemma total_height_fresh: "i \<notin> set (map znID zones) \<Longrightarrow> total_height zones (m(i \<mapsto> h)) = total_height zones m"
  unfolding total_height_def by (intro arg_cong [where f = sum_list] map_cong) auto

lemma total_height_Cons: "total_height (z # zs) m = height_at m (znID z) + total_height zs m"
  by (simp add: total_height_def)

lemma total_height_upd:
  assumes "distinct (map znID zones)" "i \<in> set (map znID zones)"
  shows "total_height zones (m(i \<mapsto> h)) = total_height zones m - height_at m i + h"
  using assms
proof (induction zones)
  case Nil
  then show ?case by simp
next
  case (Cons z zs)
  show ?case
  proof (cases "i = znID z")
    case True
    then have "i \<notin> set (map znID zs)" using Cons.prems by simp
    then have "total_height zs (m(i \<mapsto> h)) = total_height zs m" by (rule total_height_fresh)
    then show ?thesis unfolding total_height_Cons height_at_upd using True by simp
  next
    case False
    then have "i \<in> set (map znID zs)" using Cons.prems(2) by simp
    moreover have "distinct (map znID zs)" using Cons.prems(1) by simp
    ultimately have "total_height zs (m(i \<mapsto> h)) = total_height zs m - height_at m i + h"
      by (intro Cons.IH)
    then show ?thesis unfolding total_height_Cons height_at_upd using False by simp
  qed
qed

text \<open>The height a zone starts with.\<close>

definition base_height :: "Zone \<Rightarrow> int" where
  "base_height z = (case zlHeightMode (znLayout z) of
     ZoneHeightHidden \<Rightarrow> 0
   | ZoneHeightFixed \<Rightarrow> (case zlFixedHeight (znLayout z) of None \<Rightarrow> zlMinHeight (znLayout z) | Some h \<Rightarrow> h)
   | ZoneHeightAuto \<Rightarrow> zlMinHeight (znLayout z)
   | ZoneHeightFR \<Rightarrow> zlMinHeight (znLayout z)
   | OtherZoneHeight _ \<Rightarrow> 0)"

definition flexible :: "Zone \<Rightarrow> bool" where
  "flexible z \<longleftrightarrow> zlHeightMode (znLayout z) = ZoneHeightAuto \<or> zlHeightMode (znLayout z) = ZoneHeightFR"

text \<open>
  What every stage keeps: no zone shrinks below its base height, a flexible zone stays
  within its maximum, and only the zones' own keys are present.
\<close>

definition heights_ok :: "Zone list \<Rightarrow> heights \<Rightarrow> bool" where
  "heights_ok zones m \<longleftrightarrow> dom m = set (map znID zones) \<and>
     (\<forall>z\<in>set zones. base_height z \<le> height_at m (znID z)) \<and>
     (\<forall>z\<in>set zones. \<forall>mx. flexible z \<longrightarrow> zlMaxHeight (znLayout z) = Some mx \<longrightarrow> height_at m (znID z) \<le> mx) \<and>
     (\<forall>z\<in>set zones. \<not> flexible z \<longrightarrow> height_at m (znID z) = base_height z)"

definition zones_valid :: "Zone list \<Rightarrow> bool" where
  "zones_valid zones \<longleftrightarrow> distinct (map znID zones) \<and> (\<forall>z\<in>set zones. zone_layout_valid (znLayout z))"

lemma valid_base:
  assumes "zone_layout_valid (znLayout z)"
  shows "0 \<le> base_height z" and "flexible z \<Longrightarrow> zlMaxHeight (znLayout z) = Some mx \<Longrightarrow> base_height z \<le> mx"
    and "zlHeightMode (znLayout z) = ZoneHeightFR \<Longrightarrow> \<exists>f. zlFR (znLayout z) = Some f \<and> 0 < f"
  using assms
  by (auto simp: zone_layout_valid_def base_height_def flexible_def split: ZoneHeightMode.splits option.splits)

lemma same_zone: "distinct (map znID zones) \<Longrightarrow> z \<in> set zones \<Longrightarrow> y \<in> set zones \<Longrightarrow> znID z = znID y \<Longrightarrow> z = y"
  by (auto simp: distinct_map dest: inj_onD)

lemma heights_ok_grow:
  assumes v: "zones_valid zones" and ok: "heights_ok zones m" and z: "z \<in> set zones" "flexible z"
    and h: "height_at m (znID z) \<le> h" and mx: "\<And>mx. zlMaxHeight (znLayout z) = Some mx \<Longrightarrow> h \<le> mx"
  shows "heights_ok zones (m(znID z \<mapsto> h))"
proof -
  have d: "distinct (map znID zones)" using v by (simp add: zones_valid_def)
  have same: "y = z" if "y \<in> set zones" "znID z = znID y" for y using same_zone [OF d that(1) z(1)] that(2) by simp
  have "dom (m(znID z \<mapsto> h)) = set (map znID zones)" using ok z by (auto simp: heights_ok_def)
  moreover have "base_height y \<le> height_at (m(znID z \<mapsto> h)) (znID y)" if "y \<in> set zones" for y
    using ok h same that by (fastforce simp: heights_ok_def)
  moreover have "height_at (m(znID z \<mapsto> h)) (znID y) \<le> k"
    if "y \<in> set zones" "flexible y" "zlMaxHeight (znLayout y) = Some k" for y k
    using ok mx same that by (cases "znID z = znID y") (auto simp: heights_ok_def)
  moreover have "height_at (m(znID z \<mapsto> h)) (znID y) = base_height y" if "y \<in> set zones" "\<not> flexible y" for y
    using ok same that z(2) by (cases "znID z = znID y") (auto simp: heights_ok_def)
  ultimately show ?thesis unfolding heights_ok_def by blast
qed

section \<open>Bounds\<close>

text \<open>The declared maxima are int64; sums stay within int64 when the card and the base heights do.\<close>

definition maxima_int64 :: "Zone list \<Rightarrow> bool" where
  "maxima_int64 zones \<longleftrightarrow> list_all (\<lambda>z. case zlMaxHeight (znLayout z) of None \<Rightarrow> True | Some m \<Rightarrow> in_int64 m) zones"

lemma wrap64_small: "- int64_max \<le> x \<Longrightarrow> x \<le> int64_max \<Longrightarrow> wrap64 x = x"
  by (rule wrap64_id) (simp add: in_int64_def int64_min_def int64_max_def)

lemma total_nonneg: "\<forall>z\<in>set zones. 0 \<le> height_at m (znID z) \<Longrightarrow> 0 \<le> total_height zones m"
  unfolding total_height_def by (intro sum_list_nonneg) auto

lemma height_le_total:
  "\<forall>z\<in>set zones. 0 \<le> height_at m (znID z) \<Longrightarrow> z \<in> set zones \<Longrightarrow> height_at m (znID z) \<le> total_height zones m"
proof (induction zones)
  case (Cons y ys)
  have "0 \<le> total_height ys m" using Cons.prems(1) by (intro total_nonneg) simp
  then show ?case using Cons by (auto simp: total_height_Cons)
qed simp

lemma heights_ok_nonneg: "zones_valid zones \<Longrightarrow> heights_ok zones m \<Longrightarrow> \<forall>z\<in>set zones. 0 \<le> height_at m (znID z)"
  unfolding zones_valid_def heights_ok_def using valid_base(1) by (meson order_trans)

lemma max_minus_small:
  assumes "maxima_int64 zones" "z \<in> set zones" "zlMaxHeight (znLayout z) = Some m" "zone_layout_valid (znLayout z)"
    and "0 \<le> h" "h \<le> int64_max"
  shows "wrap64 (m - h) = m - h"
  using assms by (intro wrap64_small) (auto simp: maxima_int64_def list_all_iff in_int64_def zone_layout_valid_def)

section \<open>The stages\<close>

lemma start_zones:
  assumes "distinct (map znID (xs @ zs))" "\<forall>z\<in>set (xs @ zs). zone_layout_valid (znLayout z)"
    and "heights_ok xs (zaResult a)" "\<forall>z\<in>set (zaWeighted a). z \<in> set xs \<and> zlHeightMode (znLayout z) = ZoneHeightFR"
    and "total_height xs (zaResult a) = (\<Sum>z\<leftarrow>xs. base_height z)"
    and "zaRemaining a = t - (\<Sum>z\<leftarrow>xs. base_height z)" "\<bar>t\<bar> + (\<Sum>z\<leftarrow>xs @ zs. base_height z) \<le> int64_max"
  shows "heights_ok (xs @ zs) (zaResult (fold start_zone zs a)) \<and>
    (\<forall>z\<in>set (zaWeighted (fold start_zone zs a)). z \<in> set (xs @ zs) \<and> zlHeightMode (znLayout z) = ZoneHeightFR) \<and>
    total_height (xs @ zs) (zaResult (fold start_zone zs a)) = (\<Sum>z\<leftarrow>xs @ zs. base_height z) \<and>
    zaRemaining (fold start_zone zs a) = t - (\<Sum>z\<leftarrow>xs @ zs. base_height z)"
  using assms
proof (induction zs arbitrary: xs a)
  case Nil
  then show ?case by simp
next
  case (Cons z zs)
  have v: "zone_layout_valid (znLayout z)" and fresh: "znID z \<notin> set (map znID xs)" using Cons.prems(1,2) by auto
  let ?a = "start_zone z a"
  have nn: "0 \<le> (\<Sum>y\<leftarrow>zs. base_height y)" "0 \<le> (\<Sum>y\<leftarrow>xs. base_height y)" "0 \<le> base_height z"
    using Cons.prems(2) valid_base(1) by (auto intro!: sum_list_nonneg)
  have "wrap64 (zaRemaining a - base_height z) = zaRemaining a - base_height z"
    using Cons.prems(6,7) nn by (intro wrap64_small) auto
  then have r: "zaResult ?a = (zaResult a)(znID z \<mapsto> base_height z)" "zaRemaining ?a = zaRemaining a - base_height z"
    "set (zaWeighted ?a) = (if zlHeightMode (znLayout z) = ZoneHeightFR then insert z (set (zaWeighted a)) else set (zaWeighted a))"
    using v by (auto simp: start_zone_def base_height_def zone_layout_valid_def Let_def split: ZoneHeightMode.splits)
  have other: "height_at (zaResult ?a) (znID y) = height_at (zaResult a) (znID y)" if "y \<in> set xs" for y
    using that fresh by (auto simp: r(1))
  have "heights_ok (xs @ [z]) (zaResult ?a)"
    using Cons.prems(3) other valid_base [OF v] by (auto simp: heights_ok_def r(1))
  moreover have "\<forall>y\<in>set (zaWeighted ?a). y \<in> set (xs @ [z]) \<and> zlHeightMode (znLayout y) = ZoneHeightFR"
    using Cons.prems(4) by (auto simp: r(3) split: if_splits)
  moreover have "total_height (xs @ [z]) (zaResult ?a) = (\<Sum>z\<leftarrow>xs @ [z]. base_height z)"
    using Cons.prems(5) total_height_fresh [OF fresh] by (simp add: r(1) total_height_def)
  ultimately show ?case
    using Cons.IH [of "xs @ [z]" ?a] Cons.prems by (simp add: r(2))
qed

text \<open>A round and the distribution keep the sum of heights and remainder.\<close>

lemma share_round_spec:
  assumes "zones_valid zones" "set zs \<subseteq> set zones" "\<forall>z\<in>set zs. zlHeightMode (znLayout z) = ZoneHeightFR"
    and "heights_ok zones (raResult a)" "0 \<le> raRemaining a" "maxima_int64 zones"
    and "total_height zones (raResult a) + raRemaining a \<le> int64_max"
  shows "\<exists>b. share_round v w zs a = Some b \<and> heights_ok zones (raResult b) \<and> 0 \<le> raRemaining b \<and>
    total_height zones (raResult b) + raRemaining b = total_height zones (raResult a) + raRemaining a \<and>
    set (raNext b) \<subseteq> set (raNext a) \<union> set zs"
  using assms
proof (induction zs arbitrary: a)
  case Nil
  then show ?case by simp
next
  case (Cons z zs)
  have z: "z \<in> set zones" "flexible z" using Cons.prems(2,3) by (auto simp: flexible_def)
  have vz: "zone_layout_valid (znLayout z)" "distinct (map znID zones)" using z(1) Cons.prems(1) by (auto simp: zones_valid_def)
  obtain fr where fr: "zlFR (znLayout z) = Some fr" using valid_base(3) [OF vz(1)] Cons.prems(3) by auto
  let ?s = "zone_share v w fr z a" and ?b = "share_one v w fr z a"
  let ?h = "height_at (raResult a) (znID z)"
  have h: "0 \<le> ?h" "?h \<le> total_height zones (raResult a)"
    using heights_ok_nonneg [OF Cons.prems(1,4)] height_le_total z(1) by blast+
  have le: "?s \<le> raRemaining a" by (rule zone_share_le)
  have mx: "\<And>m. zlMaxHeight (znLayout z) = Some m \<Longrightarrow> ?s \<le> m - ?h"
    using max_minus_small [OF Cons.prems(6) z(1) _ vz(1) h(1)] h(2) Cons.prems(5,7) by (auto simp: zone_share_def Let_def)
  have f: "raRemaining ?b = raRemaining a - max 0 ?s"
    "raResult ?b = (if 0 < ?s then (raResult a)(znID z \<mapsto> ?h + ?s) else raResult a)"
    using h le Cons.prems(5,7) wrap64_small [of "raRemaining a - ?s"] wrap64_small [of "?h + ?s"]
    by (auto simp: share_one_fields)
  have "heights_ok zones (raResult ?b)"
  proof (cases "0 < ?s")
    case True
    have "heights_ok zones ((raResult a)(znID z \<mapsto> height_at (raResult a) (znID z) + ?s))"
      using True mx by (intro heights_ok_grow [OF Cons.prems(1,4) z]) fastforce+
    then show ?thesis by (simp add: f True)
  next
    case False
    then show ?thesis using Cons.prems(4) by (simp add: f)
  qed
  moreover have "0 \<le> raRemaining ?b" using le Cons.prems(5) by (simp add: f)
  moreover have "total_height zones (raResult ?b) + raRemaining ?b = total_height zones (raResult a) + raRemaining a"
    using total_height_upd [OF vz(2), of "znID z"] z(1) by (simp add: f max_def)
  moreover have "set (raNext ?b) \<subseteq> set (raNext a) \<union> set (z # zs)" using share_one_fields(4) by fastforce
  ultimately show ?case
    using Cons.IH [of ?b] Cons.prems(1-3,6,7) fr by (fastforce simp: Let_def)
qed

lemma distribute_spec:
  assumes "zones_valid zones" "set weighted \<subseteq> set zones" "\<forall>z\<in>set weighted. zlHeightMode (znLayout z) = ZoneHeightFR"
    and "heights_ok zones result" "maxima_int64 zones" "total_height zones result + max 0 remaining \<le> int64_max"
  shows "\<exists>m. distribute remaining weighted tw result = Some m \<and> heights_ok zones m \<and>
    total_height zones m \<le> total_height zones result + max 0 remaining"
  using assms
proof (induction remaining weighted tw result rule: distribute.induct)
  case (1 remaining weighted tw result)
  show ?case
  proof (cases "remaining > 0 \<and> weighted \<noteq> [] \<and> tw > 0")
    case False
    then have "distribute remaining weighted tw result = Some result"
      by (subst distribute.simps) (simp only: if_False)
    then show ?thesis using 1 by simp
  next
    case True
    let ?a = "round_start remaining result"
    obtain b where b: "share_round remaining tw weighted ?a = Some b" "heights_ok zones (raResult b)"
        "0 \<le> raRemaining b"
        "total_height zones (raResult b) + raRemaining b = total_height zones result + remaining"
        "set (raNext b) \<subseteq> set weighted"
      using share_round_spec [OF "1.prems"(1,2,3), of ?a remaining tw] "1.prems"(4-6) True
      by (auto simp: round_start_def)
    show ?thesis
    proof (cases "raProgress b = 0")
      case p: True
      then have "distribute remaining weighted tw result = Some (raResult b)"
        by (subst distribute.simps) (simp add: True b(1))
      then show ?thesis using b True by simp
    next
      case p: False
      have "distribute remaining weighted tw result =
          distribute (raRemaining b) (raNext b) (raNextWeight b) (raResult b)"
        by (subst distribute.simps) (simp add: True b(1) p)
      moreover have "\<exists>m. distribute (raRemaining b) (raNext b) (raNextWeight b) (raResult b) = Some m \<and>
          heights_ok zones m \<and> total_height zones m \<le> total_height zones (raResult b) + max 0 (raRemaining b)"
        using "1.IH" [OF True b(1) p "1.prems"(1)] b(2-5) "1.prems"(2,3,5,6) True by fastforce
      ultimately show ?thesis using b(3,4) True by fastforce
    qed
  qed
qed

definition vacant :: "Zone \<Rightarrow> bool" where
  "vacant z \<longleftrightarrow> zlHeightMode (znLayout z) \<noteq> ZoneHeightHidden \<and> znSlots z = []"

lemma vacate_eq: "vacate z (m, f) = (if vacant z then (m(znID z \<mapsto> 0), wrap64 (f + height_at m (znID z))) else (m, f))"
  by (simp add: vacate_def vacant_def)

lemma fold_vacate:
  assumes "distinct (map znID zones)" "set zs \<subseteq> set zones" "\<forall>z\<in>set zones. 0 \<le> height_at m (znID z)"
    and "dom m = set (map znID zones)" "0 \<le> f" "f + total_height zones m \<le> int64_max"
  shows "\<exists>m' f'. fold vacate zs (m, f) = (m', f') \<and> dom m' = set (map znID zones) \<and> f \<le> f' \<and>
    f' + total_height zones m' = f + total_height zones m \<and>
    (\<forall>y\<in>set zones. height_at m' (znID y) = (if y \<in> set zs \<and> vacant y then 0 else height_at m (znID y)))"
  using assms
proof (induction zs arbitrary: m f)
  case Nil
  then show ?case by simp
next
  case (Cons z zs)
  have z: "z \<in> set zones" "znID z \<in> set (map znID zones)" using Cons.prems(2) by auto
  show ?case
  proof (cases "vacant z")
    case False
    then obtain m' f' where "fold vacate zs (m, f) = (m', f')" "dom m' = set (map znID zones)" "f \<le> f'"
        "f' + total_height zones m' = f + total_height zones m"
        "\<forall>y\<in>set zones. height_at m' (znID y) = (if y \<in> set zs \<and> vacant y then 0 else height_at m (znID y))"
      using Cons.IH [of m f] Cons.prems by auto
    with False show ?thesis by (auto simp: vacate_eq)
  next
    case True
    define m2 where "m2 = m(znID z \<mapsto> 0)"
    have at2: "height_at m2 k = (if znID z = k then 0 else height_at m k)" for k by (simp add: m2_def)
    have same: "y = z" if "y \<in> set zones" "znID z = znID y" for y
      using same_zone [OF Cons.prems(1) that(1) z(1)] that(2) by simp
    have "\<forall>y\<in>set zones. 0 \<le> height_at m2 (znID y)" using Cons.prems(3) by (simp add: at2)
    moreover have "dom m2 = set (map znID zones)" using Cons.prems(4) z by (auto simp: m2_def)
    moreover have h: "0 \<le> height_at m (znID z)" "height_at m (znID z) \<le> total_height zones m"
      using Cons.prems(3) height_le_total z(1) by blast+
    moreover have "wrap64 (f + height_at m (znID z)) = f + height_at m (znID z)"
      using h Cons.prems(5,6) by (intro wrap64_small) auto
    moreover have "total_height zones m2 = total_height zones m - height_at m (znID z)"
      using total_height_upd [OF Cons.prems(1) z(2), of m 0] by (simp add: m2_def)
    ultimately obtain m' f' where ih: "fold vacate zs (m2, f + height_at m (znID z)) = (m', f')"
        "dom m' = set (map znID zones)" "f + height_at m (znID z) \<le> f'"
        "f' + total_height zones m' = f + height_at m (znID z) + total_height zones m2"
        "\<forall>y\<in>set zones. height_at m' (znID y) = (if y \<in> set zs \<and> vacant y then 0 else height_at m2 (znID y))"
      using Cons.IH [of m2 "f + height_at m (znID z)"] Cons.prems(1,2,5,6) by auto
    have "height_at m' (znID y) = (if y \<in> set (z # zs) \<and> vacant y then 0 else height_at m (znID y))"
      if "y \<in> set zones" for y
    proof (cases "znID z = znID y")
      case yz: True
      then have "y = z" using same that by blast
      then show ?thesis using ih(5) z(1) True by (simp add: at2)
    next
      case False
      then have "y \<noteq> z" by auto
      then show ?thesis using ih(5) that False by (simp add: at2)
    qed
    moreover have "f' + total_height zones m' = f + total_height zones m"
      using ih(4) total_height_upd [OF Cons.prems(1) z(2), of m 0] by (simp add: m2_def)
    moreover have "f \<le> f'" using ih(3) Cons.prems(3) z(1) by force
    ultimately show ?thesis using ih(1,2) True \<open>wrap64 _ = _\<close> by (simp add: vacate_eq m2_def)
  qed
qed

text \<open>What the calculation promises of the zones' heights.\<close>

definition heights_final :: "Zone list \<Rightarrow> heights \<Rightarrow> bool" where
  "heights_final zones m \<longleftrightarrow> dom m = set (map znID zones) \<and>
     (\<forall>z\<in>set zones. znSlots z = [] \<longrightarrow> height_at m (znID z) = 0) \<and>
     (\<forall>z\<in>set zones. znSlots z \<noteq> [] \<longrightarrow> base_height z \<le> height_at m (znID z) \<and>
        (flexible z \<longrightarrow> (\<forall>mx. zlMaxHeight (znLayout z) = Some mx \<longrightarrow> height_at m (znID z) \<le> mx)) \<and>
        (\<not> flexible z \<longrightarrow> height_at m (znID z) = base_height z))"

lemma heights_final_grow:
  assumes d: "distinct (map znID zones)" and ok: "heights_final zones m"
    and z: "z \<in> set zones" "flexible z" "znSlots z \<noteq> []"
    and h: "height_at m (znID z) \<le> h" and mx: "\<And>mx. zlMaxHeight (znLayout z) = Some mx \<Longrightarrow> h \<le> mx"
  shows "heights_final zones (m(znID z \<mapsto> h))"
proof -
  have same: "y = z" if "y \<in> set zones" "znID z = znID y" for y using same_zone [OF d that(1) z(1)] that(2) by simp
  have "dom (m(znID z \<mapsto> h)) = set (map znID zones)" using ok z by (auto simp: heights_final_def)
  moreover have "height_at (m(znID z \<mapsto> h)) (znID y) = 0" if "y \<in> set zones" "znSlots y = []" for y
    using ok same that z(3) by (cases "znID z = znID y") (auto simp: heights_final_def)
  moreover have "base_height y \<le> height_at (m(znID z \<mapsto> h)) (znID y) \<and>
      (flexible y \<longrightarrow> (\<forall>mx. zlMaxHeight (znLayout y) = Some mx \<longrightarrow> height_at (m(znID z \<mapsto> h)) (znID y) \<le> mx)) \<and>
      (\<not> flexible y \<longrightarrow> height_at (m(znID z \<mapsto> h)) (znID y) = base_height y)"
    if "y \<in> set zones" "znSlots y \<noteq> []" for y
  proof (cases "znID z = znID y")
    case True
    then have "y = z" using same that(1) by blast
    moreover have "base_height z \<le> height_at m (znID z)" using ok z by (simp add: heights_final_def)
    ultimately show ?thesis using z h mx by auto
  next
    case False
    then show ?thesis using ok that by (simp add: heights_final_def)
  qed
  ultimately show ?thesis unfolding heights_final_def by blast
qed

lemma heights_final_nonneg: "zones_valid zones \<Longrightarrow> heights_final zones m \<Longrightarrow> \<forall>z\<in>set zones. 0 \<le> height_at m (znID z)"
  unfolding zones_valid_def heights_final_def using valid_base(1) by (metis order_refl order_trans)

lemma redistribute_spec:
  assumes "zones_valid zones" "\<And>i z. byID i = Some z \<Longrightarrow> z \<in> set zones \<and> znID z = i"
    and "heights_final zones m" "0 \<le> freed" "maxima_int64 zones" "total_height zones m + freed \<le> int64_max"
  shows "heights_final zones (redistribute byID ids m freed) \<and>
    total_height zones (redistribute byID ids m freed) \<le> total_height zones m + freed"
  using assms(3,4,6)
proof (induction ids arbitrary: m freed)
  case Nil
  then show ?case by simp
next
  case (Cons i ids)
  show ?case
  proof (cases "freed = 0 \<or> byID i = None")
    case True
    then show ?thesis using Cons by auto
  next
    case False
    then obtain z where b: "byID i = Some z" and f: "freed \<noteq> 0" by blast
    have z: "z \<in> set zones" "znID z = i" using assms(2) [OF b] by simp_all
    define c where "c = (case zlMaxHeight (znLayout z) of None \<Rightarrow> freed | Some m' \<Rightarrow> min freed (m' - height_at m i))"
    have h: "0 \<le> height_at m i" "height_at m i \<le> total_height zones m"
      using heights_final_nonneg [OF assms(1) Cons.prems(1)] height_le_total z by blast+
    have vz: "zone_layout_valid (znLayout z)" "distinct (map znID zones)" using assms(1) z(1) by (auto simp: zones_valid_def)
    have wrapped: "wrap64 (m' - height_at m i) = m' - height_at m i" if "zlMaxHeight (znLayout z) = Some m'" for m'
      using max_minus_small [OF assms(5) z(1) that vz(1) h(1)] h(2) Cons.prems(2,3) by simp
    show ?thesis
    proof (cases "znSlots z \<noteq> [] \<and> flexible z \<and> c > 0")
      case no: False
      then have "redistribute byID (i # ids) m freed = redistribute byID ids m freed"
        using f b wrapped by (auto simp: flexible_def c_def Let_def split: option.splits)
      then show ?thesis using Cons by simp
    next
      case yes: True
      define m2 where "m2 = m(i \<mapsto> height_at m i + c)"
      have c: "c \<le> freed" "\<And>mx. zlMaxHeight (znLayout z) = Some mx \<Longrightarrow> height_at m i + c \<le> mx"
        by (auto simp: c_def split: option.splits)
      have "wrap64 (height_at m i + c) = height_at m i + c" "wrap64 (freed - c) = freed - c"
        using c(1) h yes Cons.prems(2,3) by (auto intro!: wrap64_small)
      then have "redistribute byID (i # ids) m freed = redistribute byID ids m2 (freed - c)"
        using f b yes wrapped by (auto simp: flexible_def c_def Let_def m2_def split: option.splits)
      moreover have "heights_final zones m2"
        using heights_final_grow [OF vz(2) Cons.prems(1) z(1), of "height_at m i + c"] yes c z(2)
        by (auto simp: m2_def)
      moreover have "total_height zones m2 = total_height zones m + c"
        using total_height_upd [OF vz(2), of i m "height_at m i + c"] z by (auto simp: m2_def)
      moreover have "0 \<le> freed - c" using c(1) by simp
      ultimately show ?thesis using Cons.IH [of m2 "freed - c"] Cons.prems(3) by simp
    qed
  qed
qed

section \<open>Properties\<close>

text \<open>C27: On a validated card whose own height and base heights are together at most 2^62, and
  whose declared maxima are int64, the zone heights are computed (the sharing loop ends, never
  reads a missing weight and never overflows), for any priority list: every zone and nothing else gets a
  height, empty zones get none, a zone with slots gets at least its base height, flexible
  zones stay within their maximum, fixed and hidden zones keep their height, and together
  they fit the card, or the base heights if those are larger.\<close>

theorem zone_heights_fit:
  assumes "zones_valid zones" "maxima_int64 zones" "\<bar>totalHeight\<bar> + (\<Sum>z\<leftarrow>zones. base_height z) \<le> 2 ^ 62"
  shows "\<exists>m. CalculateZoneHeightsWithPriority zones totalHeight priority = Some m \<and> heights_final zones m \<and>
    total_height zones m \<le> max totalHeight (\<Sum>z\<leftarrow>zones. base_height z)"
proof -
  have d: "distinct (map znID zones)" and vl: "\<forall>z\<in>set zones. zone_layout_valid (znLayout z)"
    using assms by (simp_all add: zones_valid_def)
  have t: "\<bar>totalHeight\<bar> + (\<Sum>z\<leftarrow>zones. base_height z) \<le> int64_max" using assms(3) by (simp add: int64_max_def)
  define a where "a = fold start_zone zones \<lparr> zaResult = Map.empty, zaRemaining = totalHeight,
                zaWeighted = [], zaTotalWeight = 0 \<rparr>"
  have a: "heights_ok zones (zaResult a)" "\<forall>z\<in>set (zaWeighted a). z \<in> set zones \<and> zlHeightMode (znLayout z) = ZoneHeightFR"
      "total_height zones (zaResult a) = (\<Sum>z\<leftarrow>zones. base_height z)"
      "zaRemaining a = totalHeight - (\<Sum>z\<leftarrow>zones. base_height z)"
    using start_zones [of "[]" zones "\<lparr> zaResult = Map.empty, zaRemaining = totalHeight, zaWeighted = [], zaTotalWeight = 0 \<rparr>" totalHeight]
      d vl t by (auto simp: a_def heights_ok_def total_height_def)
  have b0: "0 \<le> (\<Sum>z\<leftarrow>zones. base_height z)" using vl valid_base(1) by (auto intro!: sum_list_nonneg)
  obtain m where m: "distribute (zaRemaining a) (zaWeighted a) (zaTotalWeight a) (zaResult a) = Some m"
      "heights_ok zones m" "total_height zones m \<le> max totalHeight (\<Sum>z\<leftarrow>zones. base_height z)"
    using distribute_spec [OF assms(1) _ _ a(1) assms(2), of "zaWeighted a" "zaRemaining a" "zaTotalWeight a"] a(2-4) t b0 by fastforce
  have small: "total_height zones m \<le> int64_max" using m(3) t b0 by auto
  have nn: "\<forall>z\<in>set zones. 0 \<le> height_at m (znID z)"
    using m(2) vl valid_base(1) unfolding heights_ok_def by (meson order_trans)
  obtain m' f' where v: "fold vacate zones (m, 0) = (m', f')" "dom m' = set (map znID zones)" "0 \<le> f'"
      "f' + total_height zones m' = total_height zones m"
      "\<forall>y\<in>set zones. height_at m' (znID y) = (if vacant y then 0 else height_at m (znID y))"
    using fold_vacate [OF d order.refl nn, of 0] m(2) small by (auto simp: heights_ok_def)
  have fin: "heights_final zones m'"
    using v(2,5) m(2) by (auto simp: heights_final_def heights_ok_def vacant_def flexible_def base_height_def)
  define byID where "byID = map_of (rev (map (\<lambda>z. (znID z, z)) zones))"
  have b: "z \<in> set zones \<and> znID z = i" if "byID i = Some z" for i z
    using map_of_SomeD [OF that [unfolded byID_def]] by auto
  have "CalculateZoneHeightsWithPriority zones totalHeight priority = Some (redistribute byID priority m' f')"
    by (simp add: CalculateZoneHeightsWithPriority_def a_def [symmetric] m(1) v(1) byID_def Let_def)
  moreover have "heights_final zones (redistribute byID priority m' f') \<and>
      total_height zones (redistribute byID priority m' f') \<le> total_height zones m' + f'"
    by (rule redistribute_spec [OF assms(1) _ fin v(3) assms(2)]) (use b v(4) small in auto)
  ultimately show ?thesis using v(4) m(3) by auto
qed

definition card_zone :: "ID \<Rightarrow> ZoneHeightMode \<Rightarrow> int \<Rightarrow> int option \<Rightarrow> rat option \<Rightarrow> Slot list \<Rightarrow> Zone" where
  "card_zone i mode mn mx fr slots = \<lparr> znID = i, znOrder = 1, znType = ZoneContent,
     znLayout = \<lparr> zlHeightMode = mode, zlMinHeight = mn, zlMaxHeight = mx, zlFixedHeight = None, zlFR = fr,
       zlColumns = 12, zlRows = 2, zlOverflow = OverflowExpand, zlEmptyPriority = 1 \<rparr>,
     znSlots = slots \<rparr>"

definition sample_slot :: Slot where
  "sample_slot = \<lparr> slID = ''s'', slGrid = \<lparr> sgX = 0, sgY = 0, sgW = 1, sgH = 1 \<rparr>, slComponentID = [],
     slCardKind = [], slMergedFrom = [] \<rparr>"

definition sample_card :: "Zone list" where
  "sample_card = [card_zone ''head'' ZoneHeightAuto 2 None None [sample_slot],
     card_zone ''body'' ZoneHeightFR 4 (Some 8) (Some 1) [sample_slot],
     card_zone ''side'' ZoneHeightFR 2 None (Some 1) []]"

theorem zone_heights_fit_witness:
  "\<exists>m. CalculateZoneHeightsWithPriority sample_card 20 [''body'', ''head''] = Some m \<and>
     height_at m ''side'' = 0 \<and> 4 \<le> height_at m ''body'' \<and> height_at m ''body'' \<le> 8 \<and>
     total_height sample_card m \<le> 20"
proof -
  have "zones_valid sample_card" by code_simp
  moreover have "maxima_int64 sample_card" "\<bar>20\<bar> + (\<Sum>z\<leftarrow>sample_card. base_height z) \<le> 2 ^ 62" by code_simp+
  ultimately obtain m where
    "CalculateZoneHeightsWithPriority sample_card 20 [''body'', ''head''] = Some m" "heights_final sample_card m"
    "total_height sample_card m \<le> max 20 (\<Sum>z\<leftarrow>sample_card. base_height z)"
    using zone_heights_fit [of sample_card 20 "[''body'', ''head'']"] by blast
  moreover have "(\<Sum>z\<leftarrow>sample_card. base_height z) = 8"
    by (simp add: sample_card_def card_zone_def base_height_def)
  ultimately show ?thesis
    by (simp add: heights_final_def sample_card_def card_zone_def base_height_def flexible_def sample_slot_def)
qed

end
