(* ===== verification/MobileLayout.thy ===== *)
theory MobileLayout imports SlotMerge begin

text \<open>
  The runtime geometry of \<open>internal/report/compiler/layout.go\<close>: desktop pixels, mobile block
  heights and the mobile layout of a page. A component manifest is the two fields of
  \<open>internal/report/template/manifest.go\<close> the layout reads; a registry is the map \<open>Get\<close> looks
  in, and \<open>default_registry\<close> the result of loading the embedded one.
\<close>

section \<open>Pixels\<close>

record PixelRect =
  prX :: rat
  prY :: rat
  prWidth :: rat
  prHeight :: rat

definition DesktopPixelRect :: "DesktopCanvas \<Rightarrow> DesktopBlockLayout \<Rightarrow> rat \<Rightarrow> PixelRect option" where
  "DesktopPixelRect canvas grid containerWidth =
     (if dcColumns canvas < 1 \<or> containerWidth \<le> 0 \<or> dbX grid < 0 \<or> dbY grid < 0 \<or> dbW grid < 1 \<or>
         dbH grid < 1 \<or> wrap64 (dbX grid + dbW grid) > dcColumns canvas
      then None
      else (let usableWidth = fl_sub (fl_sub containerWidth (fl_mult 2 (fl_of_int (dcPaddingX canvas))))
                  (fl_mult (fl_of_int (wrap64 (dcColumns canvas - 1))) (fl_of_int (dcGapX canvas)))
            in if usableWidth \<le> 0 then None
               else (let columnWidth = fl_div usableWidth (fl_of_int (dcColumns canvas)) in
                 Some \<lparr> prX = fl_add (fl_of_int (dcPaddingX canvas))
                          (fl_mult (fl_of_int (dbX grid)) (fl_add columnWidth (fl_of_int (dcGapX canvas)))),
                        prY = fl_add (fl_of_int (dcPaddingY canvas))
                          (fl_mult (fl_of_int (dbY grid))
                             (fl_of_int (wrap64 (dcBaseRowHeight canvas + dcGapY canvas)))),
                        prWidth = fl_add (fl_mult (fl_of_int (dbW grid)) columnWidth)
                          (fl_mult (fl_of_int (wrap64 (dbW grid - 1))) (fl_of_int (dcGapX canvas))),
                        prHeight = fl_of_int (wrap64 (wrap64 (dbH grid * dcBaseRowHeight canvas) +
                          wrap64 (wrap64 (dbH grid - 1) * dcGapY canvas))) \<rparr>)))"

text \<open>\<open>math.Round\<close> rounds half away from zero.\<close>

definition math_round :: "rat \<Rightarrow> int" where
  "math_round x = (if x < 0 then - \<lfloor>- x + 1 / 2\<rfloor> else \<lfloor>x + 1 / 2\<rfloor>)"

definition MobileBlockHeight :: "MobileBlockLayout \<Rightarrow> int \<Rightarrow> int \<Rightarrow> int option" where
  "MobileBlockHeight layout containerWidth autoHeight = (case mbHeightMode layout of
     MobileHeightAuto \<Rightarrow> if autoHeight < 0 then None else Some autoHeight
   | MobileHeightFixed \<Rightarrow> (case mbFixedHeight layout of
       None \<Rightarrow> None | Some h \<Rightarrow> if h < 40 then None else Some h)
   | MobileHeightAspectRatio \<Rightarrow> (case mbAspectRatio layout of
       None \<Rightarrow> None
     | Some r \<Rightarrow> if containerWidth \<le> 0 \<or> r \<le> 0 then None
         else Some (math_round (fl_div (fl_of_int containerWidth) r)))
   | OtherMobileHeight _ \<Rightarrow> None)"

section \<open>The mobile layout\<close>

record MobilePolicy =
  mpSupported :: bool
  mpDefaultLegendMode :: string
  mpLabelDegradation :: string

record Manifest =
  mfMinSize :: GridSize
  mfMobilePolicy :: MobilePolicy

type_synonym Registry = "string \<Rightarrow> string \<Rightarrow> Manifest option"

record MobileComponentPolicy =
  mcpComponentID :: ID
  mcpSupported :: bool
  mcpLegendMode :: string
  mcpLabelDegradation :: string

record MobileBlock =
  mbkID :: ID
  mbkOrder :: int
  mbkHeightMode :: MobileHeightMode
  mbkSlotMode :: MobileSlotMode
  mbkSlots :: "Slot list"
  mbkFilterDrawerSlots :: "Slot list"
  mbkQueriedComponentIDs :: "ID list"
  mbkPrimarySlotID :: "ID option"
  mbkFixedHeight :: "int option"
  mbkAspectRatio :: "rat option"
  mbkFullWidth :: bool
  mbkComponentPolicies :: "MobileComponentPolicy list"

record MobilePage =
  mpgID :: ID
  mpgBlocks :: "MobileBlock list"

datatype 'e mobile_error = RegistryFailed 'e | ManifestMissing string string

definition slot_before :: "Slot \<Rightarrow> Slot \<Rightarrow> bool" where
  "slot_before a b =
     (if sgY (slGrid a) \<noteq> sgY (slGrid b) then sgY (slGrid a) < sgY (slGrid b)
      else if sgX (slGrid a) \<noteq> sgX (slGrid b) then sgX (slGrid a) < sgX (slGrid b)
      else slID a < slID b)"

text \<open>The slots of the visible zones, those of filter zones apart.\<close>

definition zone_slots :: "bool \<Rightarrow> Zone list \<Rightarrow> Slot list" where
  "zone_slots filters zones = concat (map (\<lambda>zone.
     if zlHeightMode (znLayout zone) \<noteq> ZoneHeightHidden \<and> (znType zone = ZoneFilter) = filters
     then znSlots zone else []) zones)"

definition shown_slots :: "Block \<Rightarrow> Slot list" where
  "shown_slots b =
     (let slots = sort_slice slot_before (zone_slots False (bkZones b)) in
      if mbSlotMode (blMobile (bkLayout b)) = MobileSlotPrimaryOnly then
        (case mbPrimarySlotID (blMobile (bkLayout b)) of
           None \<Rightarrow> []
         | Some p \<Rightarrow> (case find (\<lambda>s. slID s = p) slots of None \<Rightarrow> [] | Some s \<Rightarrow> [s]))
      else slots)"

text \<open>The policies of the shown components; a registry may be nil when there are none.\<close>

fun component_policies :: "(ID \<rightharpoonup> Component) \<Rightarrow> Registry option \<Rightarrow> Slot list \<Rightarrow>
    'e mobile_error + MobileComponentPolicy list" where
  "component_policies byID registry [] = Inr []"
| "component_policies byID registry (s # ss) =
     (case (if slComponentID s = [] then None else byID (slComponentID s)) of
        None \<Rightarrow> component_policies byID registry ss
      | Some c \<Rightarrow>
         (let t = ctType (cpTemplateRef c); v = ctVersion (cpTemplateRef c) in
          case (case registry of None \<Rightarrow> None | Some get \<Rightarrow> get t v) of
            None \<Rightarrow> Inl (ManifestMissing t v)
          | Some mf \<Rightarrow>
             (case component_policies byID registry ss of
                Inl e \<Rightarrow> Inl e
              | Inr ps \<Rightarrow> Inr (\<lparr> mcpComponentID = cpID c, mcpSupported = mpSupported (mfMobilePolicy mf),
                    mcpLegendMode = mpDefaultLegendMode (mfMobilePolicy mf),
                    mcpLabelDegradation = mpLabelDegradation (mfMobilePolicy mf) \<rparr> # ps))))"

definition mobile_block :: "(ID \<rightharpoonup> Component) \<Rightarrow> Registry option \<Rightarrow> Block \<Rightarrow> 'e mobile_error + MobileBlock" where
  "mobile_block byID registry b =
     (let m = blMobile (bkLayout b); slots = shown_slots b in
      case component_policies byID registry slots of
        Inl e \<Rightarrow> Inl e
      | Inr policies \<Rightarrow> Inr
         \<lparr> mbkID = bkID b, mbkOrder = mbOrder m, mbkHeightMode = mbHeightMode m, mbkSlotMode = mbSlotMode m,
           mbkSlots = slots,
           mbkFilterDrawerSlots = sort_slice slot_before (zone_slots True (bkZones b)),
           mbkQueriedComponentIDs = filter (\<lambda>i. i \<noteq> []) (map slComponentID slots),
           mbkPrimarySlotID = mbPrimarySlotID m, mbkFixedHeight = mbFixedHeight m,
           mbkAspectRatio = mbAspectRatio m, mbkFullWidth = True, mbkComponentPolicies = policies \<rparr>)"

fun mobile_blocks :: "(ID \<rightharpoonup> Component) \<Rightarrow> Registry option \<Rightarrow> Block list \<Rightarrow>
    'e mobile_error + MobileBlock list" where
  "mobile_blocks byID registry [] = Inr []"
| "mobile_blocks byID registry (b # bs) =
     (if \<not> mbVisible (blMobile (bkLayout b)) then mobile_blocks byID registry bs
      else (case mobile_block byID registry b of
          Inl e \<Rightarrow> Inl e
        | Inr m \<Rightarrow> (case mobile_blocks byID registry bs of Inl e \<Rightarrow> Inl e | Inr ms \<Rightarrow> Inr (m # ms))))"

definition mobile_before :: "MobileBlock \<Rightarrow> MobileBlock \<Rightarrow> bool" where
  "mobile_before a b = (if mbkOrder a \<noteq> mbkOrder b then mbkOrder a < mbkOrder b else mbkID a < mbkID b)"

definition page_blocks :: "Page \<Rightarrow> Block list" where
  "page_blocks page = concat (map scBlocks (pgSections page))"

definition ToMobileLayoutWithComponents ::
  "'e + Registry \<Rightarrow> Page \<Rightarrow> Component list \<Rightarrow> Registry option \<Rightarrow> 'e mobile_error + MobilePage" where
  "ToMobileLayoutWithComponents default_registry page components registry =
     (case (if components \<noteq> [] \<and> registry = None
            then (case default_registry of Inl e \<Rightarrow> Inl (RegistryFailed e) | Inr r \<Rightarrow> Inr (Some r))
            else Inr registry) of
        Inl e \<Rightarrow> Inl e
      | Inr reg \<Rightarrow>
         (case mobile_blocks (map_of (rev (map (\<lambda>c. (cpID c, c)) components))) reg (page_blocks page) of
            Inl e \<Rightarrow> Inl e
          | Inr ms \<Rightarrow> Inr \<lparr> mpgID = pgID page, mpgBlocks = sort_slice mobile_before ms \<rparr>))"

definition ToMobileLayout :: "Page \<Rightarrow> MobilePage" where
  "ToMobileLayout page =
     (case ToMobileLayoutWithComponents (Inl ()) page [] None of
        Inl _ \<Rightarrow> \<lparr> mpgID = [], mpgBlocks = [] \<rparr> | Inr m \<Rightarrow> m)"

section \<open>Properties\<close>

lemma find_mem: "find P xs = Some x \<Longrightarrow> x \<in> set xs \<and> P x"
  by (auto simp: find_Some_iff)

lemma list_all2_flip: "list_all2 R xs ys \<Longrightarrow> list_all2 (\<lambda>y x. R x y) ys xs"
  by (induction rule: list_all2_induct) simp_all

lemma mobile_before_key: "mobile_before = lt_on (\<lambda>b. (mbkOrder b, mbkID b))"
  by (auto simp: fun_eq_iff mobile_before_def lt_on_def less_prod_simp)

lemma slot_before_key: "slot_before = lt_on (\<lambda>s. (sgY (slGrid s), sgX (slGrid s), slID s))"
  by (auto simp: fun_eq_iff slot_before_def lt_on_def less_prod_simp)

lemma component_policies_none: "component_policies Map.empty registry ss = Inr []"
  by (induction ss) simp_all

lemma mobile_blocks_Inr:
  "mobile_blocks byID registry bs = (Inr ms :: 'e mobile_error + MobileBlock list) \<Longrightarrow>
   list_all2 (\<lambda>b m. mobile_block byID registry b = (Inr m :: 'e mobile_error + MobileBlock)) (filter (\<lambda>b. mbVisible (blMobile (bkLayout b))) bs) ms"
  by (induction bs arbitrary: ms) (auto split: if_splits sum.splits)

lemma mobile_blocks_Inl:
  "mobile_blocks byID registry bs = (Inl e :: 'e mobile_error + MobileBlock list) \<Longrightarrow>
   \<exists>b \<in> set bs. mbVisible (blMobile (bkLayout b)) \<and> mobile_block byID registry b = (Inl e :: 'e mobile_error + MobileBlock)"
  by (induction bs) (auto split: if_splits sum.splits)

lemma mobile_blocks_none: "mobile_blocks Map.empty registry bs = mobile_blocks Map.empty None bs"
  by (induction bs) (auto simp: mobile_block_def component_policies_none Let_def)

lemma mobile_blocks_total: "\<exists>ms. mobile_blocks Map.empty registry bs = Inr ms"
  by (induction bs) (auto simp: mobile_block_def component_policies_none Let_def)

text \<open>A block whose primary slot passed the layout check shows exactly that slot.\<close>

lemma primary_shown:
  assumes "mbSlotMode (blMobile (bkLayout b)) = MobileSlotPrimaryOnly" and "primary_issues path b = []"
  shows "\<exists>s p. mbPrimarySlotID (blMobile (bkLayout b)) = Some p \<and> shown_slots b = [s] \<and> slID s = p \<and>
    s \<in> set (zone_slots False (bkZones b))"
proof -
  obtain p where p: "mbPrimarySlotID (blMobile (bkLayout b)) = Some p" "p \<in> set (primary_candidates b)"
    using assms by (auto simp: primary_issues_def split: option.splits if_splits)
  have "set (primary_candidates b) = slID ` set (zone_slots False (bkZones b))"
    by (auto simp: primary_candidates_def zone_slots_def split: if_splits)
  with p(2) have "\<exists>s\<in>set (sort_slice slot_before (zone_slots False (bkZones b))). slID s = p" by auto
  then obtain s where s: "find (\<lambda>s. slID s = p) (sort_slice slot_before (zone_slots False (bkZones b))) = Some s"
    by (metis (mono_tags, lifting) find_None_iff not_None_eq)
  then have "slID s = p" "s \<in> set (zone_slots False (bkZones b))"
    by (auto simp: find_Some_iff) (metis nth_mem set_sort_slice length_sort_slice)
  then show ?thesis using assms(1) p(1) s by (simp add: shown_slots_def)
qed

section \<open>What a mobile layout shows\<close>

definition shown_zone :: "Zone \<Rightarrow> bool" where
  "shown_zone z \<longleftrightarrow> zlHeightMode (znLayout z) \<noteq> ZoneHeightHidden \<and> znType z \<noteq> ZoneFilter"

definition drawer_zone :: "Zone \<Rightarrow> bool" where
  "drawer_zone z \<longleftrightarrow> zlHeightMode (znLayout z) \<noteq> ZoneHeightHidden \<and> znType z = ZoneFilter"

definition slots_in :: "(Zone \<Rightarrow> bool) \<Rightarrow> Block \<Rightarrow> Slot multiset" where
  "slots_in P b = sum_mset (image_mset (\<lambda>z. mset (znSlots z)) (filter_mset P (mset (bkZones b))))"

text \<open>The component a slot holds, among the given ones; of two with the same identifier the last counts.\<close>

definition component_in :: "Component list \<Rightarrow> Slot \<Rightarrow> Component option" where
  "component_in components s = (if slComponentID s = [] then None else find (\<lambda>c. cpID c = slComponentID s) (rev components))"

definition registered_manifest :: "Registry option \<Rightarrow> Component \<Rightarrow> Manifest option" where
  "registered_manifest registry c = Option.bind registry (\<lambda>get. get (ctType (cpTemplateRef c)) (ctVersion (cpTemplateRef c)))"

definition policy_of :: "Component \<Rightarrow> Manifest \<Rightarrow> MobileComponentPolicy" where
  "policy_of c mf = \<lparr> mcpComponentID = cpID c, mcpSupported = mpSupported (mfMobilePolicy mf),
     mcpLegendMode = mpDefaultLegendMode (mfMobilePolicy mf), mcpLabelDegradation = mpLabelDegradation (mfMobilePolicy mf) \<rparr>"

definition copies_settings :: "MobileBlockLayout \<Rightarrow> MobileBlock \<Rightarrow> bool" where
  "copies_settings l m \<longleftrightarrow> mbkOrder m = mbOrder l \<and> mbkHeightMode m = mbHeightMode l \<and> mbkSlotMode m = mbSlotMode l \<and>
     mbkPrimarySlotID m = mbPrimarySlotID l \<and> mbkFixedHeight m = mbFixedHeight l \<and> mbkAspectRatio m = mbAspectRatio l \<and> mbkFullWidth m"

definition primary_only :: "Block \<Rightarrow> bool" where
  "primary_only b \<longleftrightarrow> mbSlotMode (blMobile (bkLayout b)) = MobileSlotPrimaryOnly"

definition primary_slot :: "Block \<Rightarrow> Slot \<Rightarrow> bool" where
  "primary_slot b s \<longleftrightarrow> s \<in># slots_in shown_zone b \<and> mbPrimarySlotID (blMobile (bkLayout b)) = Some (slID s)"

text \<open>What the entry of a block shows: every slot of its visible zones, by position, or the primary slot alone.\<close>

definition mobile_entry :: "Component list \<Rightarrow> Registry option \<Rightarrow> Block \<Rightarrow> MobileBlock \<Rightarrow> bool" where
  "mobile_entry components registry b m \<longleftrightarrow> mbkID m = bkID b \<and> copies_settings (blMobile (bkLayout b)) m \<and>
     (if \<not> primary_only b then mset (mbkSlots m) = slots_in shown_zone b
      else if \<exists>s. primary_slot b s then \<exists>s. primary_slot b s \<and> mbkSlots m = [s]
      else mbkSlots m = []) \<and>
     (primary_only b \<and> primary_issues [] b = [] \<longrightarrow> (\<exists>s. primary_slot b s)) \<and>
     sorted_by slot_before (mbkSlots m) \<and>
     mset (mbkFilterDrawerSlots m) = slots_in drawer_zone b \<and> sorted_by slot_before (mbkFilterDrawerSlots m) \<and>
     mbkQueriedComponentIDs m = filter (\<lambda>i. i \<noteq> []) (map slComponentID (mbkSlots m)) \<and>
     list_all2 (\<lambda>c p. \<exists>mf. registered_manifest registry c = Some mf \<and> p = policy_of c mf)
       (List.map_filter (component_in components) (mbkSlots m)) (mbkComponentPolicies m)"

text \<open>A slot of a visible zone whose component has no manifest in the registry.\<close>

definition unregistered_slot :: "Component list \<Rightarrow> Registry option \<Rightarrow> string \<Rightarrow> string \<Rightarrow> Block \<Rightarrow> bool" where
  "unregistered_slot components registry t v b \<longleftrightarrow> (\<exists>s c. s \<in># slots_in shown_zone b \<and> (primary_only b \<longrightarrow> primary_slot b s) \<and>
     component_in components s = Some c \<and> registered_manifest registry c = None \<and>
     t = ctType (cpTemplateRef c) \<and> v = ctVersion (cpTemplateRef c))"

lemma mset_zone_slots: "mset (zone_slots filters zones) =
    sum_mset (image_mset (\<lambda>z. mset (znSlots z)) (filter_mset (\<lambda>z. zlHeightMode (znLayout z) \<noteq> ZoneHeightHidden \<and> (znType z = ZoneFilter) = filters) (mset zones)))"
  by (induction zones) (auto simp: zone_slots_def)

lemma shown_drawer: "mset (zone_slots False (bkZones b)) = slots_in shown_zone b" "mset (zone_slots True (bkZones b)) = slots_in drawer_zone b"
  by (simp_all add: mset_zone_slots slots_in_def shown_zone_def [abs_def] drawer_zone_def [abs_def])

lemma set_shown: "set (zone_slots False (bkZones b)) = set_mset (slots_in shown_zone b)"
  by (metis shown_drawer(1) set_mset_mset)

lemma sorted_slots: "sorted_by slot_before (sort_slice slot_before ss)"
  unfolding slot_before_key by (rule key_order.sorted_by_sort_slice)

lemma shown_slots_exact:
  "if \<not> primary_only b then shown_slots b = sort_slice slot_before (zone_slots False (bkZones b))
   else if \<exists>s. primary_slot b s then \<exists>s. primary_slot b s \<and> shown_slots b = [s] else shown_slots b = []"
proof (cases "mbPrimarySlotID (blMobile (bkLayout b))")
  case None
  then show ?thesis by (simp add: shown_slots_def primary_only_def primary_slot_def)
next
  case (Some p)
  let ?ss = "sort_slice slot_before (zone_slots False (bkZones b))"
  show ?thesis
  proof (cases "find (\<lambda>s. slID s = p) ?ss")
    case None
    then have "\<not> primary_slot b s" for s using Some by (auto simp: primary_slot_def find_None_iff set_shown)
    with None Some show ?thesis by (simp add: shown_slots_def primary_only_def)
  next
    case (Some s)
    from find_mem [OF this] have "primary_slot b s" using \<open>mbPrimarySlotID _ = Some p\<close> by (simp add: primary_slot_def set_shown)
    with Some \<open>mbPrimarySlotID _ = Some p\<close> show ?thesis by (auto simp: shown_slots_def primary_only_def)
  qed
qed

lemma shown_member: "s \<in> set (shown_slots b) \<Longrightarrow> s \<in># slots_in shown_zone b \<and> (primary_only b \<longrightarrow> primary_slot b s)"
  using shown_slots_exact [of b] by (auto simp: primary_slot_def set_shown split: if_splits)

lemma component_lookup: "map_of (rev (map (\<lambda>c. (cpID c, c)) components)) i = find (\<lambda>c. cpID c = i) (rev components)"
proof -
  have "map_of (map (\<lambda>c. (cpID c, c)) cs) i = find (\<lambda>c. cpID c = i) cs" for cs by (induction cs) auto
  then show ?thesis by (simp add: rev_map)
qed

lemma component_policies_cases:
  "case component_policies (map_of (rev (map (\<lambda>c. (cpID c, c)) components))) registry ss of
     Inr ps \<Rightarrow> list_all2 (\<lambda>c p. \<exists>mf. registered_manifest registry c = Some mf \<and> p = policy_of c mf)
       (List.map_filter (component_in components) ss) ps
   | Inl e \<Rightarrow> \<exists>s \<in> set ss. \<exists>c. component_in components s = Some c \<and> registered_manifest registry c = None \<and>
       e = ManifestMissing (ctType (cpTemplateRef c)) (ctVersion (cpTemplateRef c))"
proof (induction ss)
  case (Cons s ss)
  have known: "(if slComponentID s = [] then None else map_of (rev (map (\<lambda>c. (cpID c, c)) components)) (slComponentID s)) =
    component_in components s" by (simp add: component_in_def component_lookup)
  show ?case
  proof (cases "component_in components s")
    case None
    with Cons known show ?thesis by (auto simp: map_filter_simps split: sum.splits)
  next
    case (Some c)
    have reg: "(case registry of None \<Rightarrow> None | Some get \<Rightarrow> get (ctType (cpTemplateRef c)) (ctVersion (cpTemplateRef c))) =
      registered_manifest registry c" by (cases registry) (simp_all add: registered_manifest_def)
    show ?thesis using Cons Some known reg
      by (auto simp: map_filter_simps Let_def policy_of_def split: sum.splits option.splits)
  qed
qed (simp add: map_filter_simps)

lemma primary_checked: "primary_only b \<Longrightarrow> primary_issues [] b = [] \<Longrightarrow> \<exists>s. primary_slot b s"
  using primary_shown [of b "[]"] by (auto simp: primary_only_def primary_slot_def set_shown)

lemma shown_block_entry:
  assumes "mobile_block (map_of (rev (map (\<lambda>c. (cpID c, c)) components))) registry b = (Inr m :: 'e mobile_error + MobileBlock)"
  shows "mobile_entry components registry b m"
proof -
  let ?byID = "map_of (rev (map (\<lambda>c. (cpID c, c)) components))"
  obtain ps where ps: "component_policies ?byID registry (shown_slots b) = (Inr ps :: 'e mobile_error + MobileComponentPolicy list)"
    using assms by (auto simp: mobile_block_def Let_def split: sum.splits)
  have pol: "list_all2 (\<lambda>c p. \<exists>mf. registered_manifest registry c = Some mf \<and> p = policy_of c mf)
      (List.map_filter (component_in components) (shown_slots b)) ps"
    using component_policies_cases [where components = components and registry = registry and ss = "shown_slots b" and ?'a = 'e] unfolding ps by simp
  have f: "mbkID m = bkID b" "copies_settings (blMobile (bkLayout b)) m" "mbkSlots m = shown_slots b"
      "mbkFilterDrawerSlots m = sort_slice slot_before (zone_slots True (bkZones b))"
      "mbkQueriedComponentIDs m = filter (\<lambda>i. i \<noteq> []) (map slComponentID (shown_slots b))" "mbkComponentPolicies m = ps"
    using assms ps by (auto simp: mobile_block_def Let_def copies_settings_def)
  have sorted: "sorted_by slot_before (shown_slots b)"
    using shown_slots_exact [of b] sorted_slots by (auto simp: sorted_by_def split: if_splits)
  have shown: "if \<not> primary_only b then mset (shown_slots b) = slots_in shown_zone b
      else if \<exists>s. primary_slot b s then \<exists>s. primary_slot b s \<and> shown_slots b = [s] else shown_slots b = []"
    using shown_slots_exact [of b] shown_drawer(1) [of b] by (auto split: if_splits)
  show ?thesis unfolding mobile_entry_def f
    using shown sorted pol primary_checked [of b] shown_drawer(2) [of b] sorted_slots f(2) by simp
qed

lemma block_unregistered:
  assumes "mobile_block (map_of (rev (map (\<lambda>c. (cpID c, c)) components))) registry b = (Inl e :: 'e mobile_error + MobileBlock)"
  shows "\<exists>t v. e = ManifestMissing t v \<and> unregistered_slot components registry t v b"
proof -
  have "component_policies (map_of (rev (map (\<lambda>c. (cpID c, c)) components))) registry (shown_slots b) =
      (Inl e :: 'e mobile_error + MobileComponentPolicy list)"
    using assms by (auto simp: mobile_block_def Let_def split: sum.splits)
  with component_policies_cases [where components = components and registry = registry and ss = "shown_slots b" and ?'a = 'e] show ?thesis
    using shown_member unfolding unregistered_slot_def by fastforce
qed

definition registry_used :: "'e + Registry \<Rightarrow> Component list \<Rightarrow> Registry option \<Rightarrow> 'e + Registry option" where
  "registry_used default_registry components registry =
     (if components \<noteq> [] \<and> registry = None then map_sum id Some default_registry else Inr registry)"

definition visible_blocks :: "Page \<Rightarrow> Block list" where
  "visible_blocks page = filter (\<lambda>b. mbVisible (blMobile (bkLayout b))) (page_blocks page)"

lemma sorted_entries:
  assumes "list_all2 R bs ms"
  shows "\<exists>bs'. mset bs' = mset bs \<and> list_all2 R bs' (sort_slice lt ms)"
proof -
  from list_all2_reorder_left_invariance [OF list_all2_flip [OF assms] mset_sort_slice [of lt ms]]
  obtain bs' where "list_all2 (\<lambda>y x. R x y) (sort_slice lt ms) bs'" "mset bs' = mset bs" by blast
  then show ?thesis using list_all2_flip [of "\<lambda>y x. R x y"] by blast
qed

lemma layout_of_registry:
  assumes "registry_used default_registry components registry = Inr reg"
  shows "ToMobileLayoutWithComponents default_registry page components registry =
    map_sum id (\<lambda>ms. \<lparr> mpgID = pgID page, mpgBlocks = sort_slice mobile_before ms \<rparr>)
      (mobile_blocks (map_of (rev (map (\<lambda>c. (cpID c, c)) components))) reg (page_blocks page))"
  using assms by (auto simp: ToMobileLayoutWithComponents_def registry_used_def split: sum.splits if_splits)

lemma layout_without_components:
  "ToMobileLayoutWithComponents default_registry page [] registry = Inr (ToMobileLayout page)"
proof -
  let ?m = "\<lambda>ms. \<lparr> mpgID = pgID page, mpgBlocks = sort_slice mobile_before ms \<rparr>"
  obtain ms where ms: "mobile_blocks Map.empty None (page_blocks page) = (Inr ms :: unit mobile_error + MobileBlock list)"
    using mobile_blocks_total by blast
  obtain ms' where ms': "mobile_blocks Map.empty None (page_blocks page) = (Inr ms' :: 'a mobile_error + MobileBlock list)"
    using mobile_blocks_total by blast
  have "list_all2 (\<lambda>b m. mobile_block Map.empty None b = (Inr m :: unit mobile_error + MobileBlock)) (visible_blocks page) ms"
    "list_all2 (\<lambda>b m. mobile_block Map.empty None b = (Inr m :: 'a mobile_error + MobileBlock)) (visible_blocks page) ms'"
    using mobile_blocks_Inr [OF ms] mobile_blocks_Inr [OF ms'] by (simp_all add: visible_blocks_def)
  then have "ms = ms'"
    by (auto simp: list_all2_conv_all_nth mobile_block_def component_policies_none Let_def intro!: nth_equalityI)
  with ms ms' show ?thesis
    by (simp add: ToMobileLayout_def ToMobileLayoutWithComponents_def mobile_blocks_none [of registry])
qed

definition sample_primary_block :: Block where
  "sample_primary_block = (sample_block ''b1'' 0 0 6 2)\<lparr>
     bkLayout := (bkLayout (sample_block ''b1'' 0 0 6 2))\<lparr>
       blMobile := (blMobile (bkLayout (sample_block ''b1'' 0 0 6 2)))\<lparr>
         mbSlotMode := MobileSlotPrimaryOnly, mbPrimarySlotID := Some ''s2'' \<rparr> \<rparr>,
     bkZones := [sample_zone] \<rparr>"

definition sample_page :: Page where
  "sample_page = \<lparr> pgID = ''p'', pgName = ''Page'', pgOrder = 1,
     pgSections = [\<lparr> scID = ''sec'', scName = ''Section'', scOrder = 1, scQuestion = [],
       scLayoutIntentMode = None, scBlocks = [sample_primary_block] \<rparr>] \<rparr>"

text \<open>The page with its zone hidden instead.\<close>

definition hidden_page :: Page where
  "hidden_page = sample_page \<lparr> pgSections := map (\<lambda>sec. sec \<lparr> scBlocks := map (\<lambda>b. b \<lparr>
     bkZones := map (\<lambda>z. z \<lparr> znLayout := (znLayout z) \<lparr> zlHeightMode := ZoneHeightHidden \<rparr> \<rparr>) (bkZones b) \<rparr>) (scBlocks sec) \<rparr>)
     (pgSections sample_page) \<rparr>"

lemma shown_and_hidden:
  "map (\<lambda>m. map slID (mbkSlots m)) (mpgBlocks (ToMobileLayout sample_page)) = [[''s2'']]"
  "map (\<lambda>m. map slID (mbkSlots m)) (mpgBlocks (ToMobileLayout hidden_page)) = [[]]"
  by code_simp+

text \<open>C28: The mobile layout of a page has one entry per visible block, ordered by mobile order and then
  identifier, with the settings of the block. An entry shows every slot of the zones that are neither
  hidden nor filters, by row, column and identifier, and in PRIMARY_ONLY mode the primary slot alone, if
  it is one of them, which the layout check guarantees; the filter zones that are not hidden are in the
  drawer; it queries exactly the components of its shown slots and gives each of them the mobile policy of
  its manifest. The layout fails only for lack of a registry or because a shown component has no manifest there, and
  never without components.\<close>

theorem mobile_layout_faithful:
  "(case registry_used default_registry components registry of
     Inl e \<Rightarrow> ToMobileLayoutWithComponents default_registry page components registry = Inl (RegistryFailed e)
   | Inr reg \<Rightarrow> (case ToMobileLayoutWithComponents default_registry page components registry of
       Inr mp \<Rightarrow> mpgID mp = pgID page \<and> sorted_by mobile_before (mpgBlocks mp) \<and>
         (\<exists>bs. mset bs = mset (visible_blocks page) \<and> list_all2 (mobile_entry components reg) bs (mpgBlocks mp))
     | Inl err \<Rightarrow> \<exists>b t v. b \<in> set (visible_blocks page) \<and> err = ManifestMissing t v \<and> unregistered_slot components reg t v b)) \<and>
   ToMobileLayoutWithComponents default_registry page [] registry = Inr (ToMobileLayout page)"
proof (cases "registry_used default_registry components registry")
  case (Inl e)
  then have "ToMobileLayoutWithComponents default_registry page components registry = Inl (RegistryFailed e)"
    by (auto simp: registry_used_def ToMobileLayoutWithComponents_def split: if_splits sum.splits)
  with Inl layout_without_components show ?thesis by auto
next
  case (Inr reg)
  let ?blocks = "mobile_blocks (map_of (rev (map (\<lambda>c. (cpID c, c)) components))) reg (page_blocks page) :: 'a mobile_error + MobileBlock list"
  note layout = layout_of_registry [OF Inr, of page]
  show ?thesis
  proof (cases ?blocks)
    case blocks: (Inl err)
    from mobile_blocks_Inl [OF this] obtain b where b: "b \<in> set (visible_blocks page)"
      "mobile_block (map_of (rev (map (\<lambda>c. (cpID c, c)) components))) reg b = (Inl err :: 'a mobile_error + MobileBlock)"
      by (auto simp: visible_blocks_def)
    from b(1) block_unregistered [OF b(2)] layout blocks Inr layout_without_components show ?thesis by auto
  next
    case blocks: (Inr ms)
    have "list_all2 (mobile_entry components reg) (visible_blocks page) ms"
      using mobile_blocks_Inr [OF blocks] unfolding visible_blocks_def by (rule list_all2_mono) (rule shown_block_entry)
    from sorted_entries [OF this] have "\<exists>bs. mset bs = mset (visible_blocks page) \<and>
        list_all2 (mobile_entry components reg) bs (sort_slice mobile_before ms)" .
    moreover have "sorted_by mobile_before (sort_slice mobile_before ms)"
      unfolding mobile_before_key by (rule key_order.sorted_by_sort_slice)
    ultimately show ?thesis using layout blocks Inr layout_without_components by simp
  qed
qed

end
