(* ===== verification/ReportOperation.thy ===== *)
theory ReportOperation imports MobileLayout InsightWeights begin

text \<open>
  The Report Operation protocol: \<open>internal/report/operation/model.go\<close> (the operations and
  their validation) and \<open>apply.go\<close> (their application). A pair of an operation type and a
  payload of another type, or a nil payload, which \<open>Operation.Validate\<close> rejects, cannot be
  written down here: a payload is a constructor named after its type.

  A pointer into the definition that the code changes in place is a function applied to
  the first match, in the order of the code's search loops. Third-party and environment
  code are the fields of \<open>op_env\<close>: \<open>deepcopy.Copy\<close>, the default registry, the hash behind
  \<open>askdata.HashBytes\<close>, and the validation of a whole Report Definition.
\<close>

section \<open>Operations\<close>

datatype DataBindingUpdateMode = DataBindingSet | DataBindingClear | OtherBindingUpdate string

datatype Payload =
    ReportCreate ReportDefinition
  | ReportSettingsUpdate Metadata RuntimePolicy
  | TemplateApply TemplateReference
  | ThemeUpdate ThemeReference
  | PageCreate Page
  | PageUpdate string
  | PageDelete
  | PageReorder int
  | SectionCreate Section
  | SectionUpdate string
  | SectionDelete
  | SectionReorder int
  | BlockCreate Block
  | BlockMove int int
  | BlockResize int int
  | BlockUpdate BlockType "string option"
  | BlockCopy ID
  | BlockDelete
  | ZoneCreate Zone
  | ZoneUpdate ZoneType ZoneLayout
  | ZoneDelete
  | ZoneReorder int
  | SlotCreate Slot
  | SlotMerge "ID list" Slot bool
  | SlotSplit "Slot list"
  | SlotUpdate SlotGrid ID
  | SlotDelete
  | ComponentCreate Component
  | ComponentUpdate ComponentOptions
  | ComponentReplace Component
  | ComponentCopy ID
  | ComponentDelete
  | DataBindingUpdate DataBindingUpdateMode "DataBinding option"
  | DataContextCreate DataContext
  | DataContextDelete
  | FilterCreate GlobalFilter
  | FilterUpdate GlobalFilter
  | FilterDelete
  | InteractionCreate Interaction
  | InteractionUpdate Interaction
  | InteractionDelete
  | InsightUpdate string ID
  | InsightRegenerate ID string string

record Operation =
  opTargetID :: ID
  opPayload :: Payload

definition op_type :: "Payload \<Rightarrow> string" where
  "op_type p = (case p of
     ReportCreate _ \<Rightarrow> ''REPORT_CREATE'' | ReportSettingsUpdate _ _ \<Rightarrow> ''REPORT_SETTINGS_UPDATE''
   | TemplateApply _ \<Rightarrow> ''TEMPLATE_APPLY'' | ThemeUpdate _ \<Rightarrow> ''THEME_UPDATE''
   | PageCreate _ \<Rightarrow> ''PAGE_CREATE'' | PageUpdate _ \<Rightarrow> ''PAGE_UPDATE''
   | PageDelete \<Rightarrow> ''PAGE_DELETE'' | PageReorder _ \<Rightarrow> ''PAGE_REORDER''
   | SectionCreate _ \<Rightarrow> ''SECTION_CREATE'' | SectionUpdate _ \<Rightarrow> ''SECTION_UPDATE''
   | SectionDelete \<Rightarrow> ''SECTION_DELETE'' | SectionReorder _ \<Rightarrow> ''SECTION_REORDER''
   | BlockCreate _ \<Rightarrow> ''BLOCK_CREATE'' | BlockMove _ _ \<Rightarrow> ''BLOCK_MOVE''
   | BlockResize _ _ \<Rightarrow> ''BLOCK_RESIZE'' | BlockUpdate _ _ \<Rightarrow> ''BLOCK_UPDATE''
   | BlockCopy _ \<Rightarrow> ''BLOCK_COPY'' | BlockDelete \<Rightarrow> ''BLOCK_DELETE''
   | ZoneCreate _ \<Rightarrow> ''ZONE_CREATE'' | ZoneUpdate _ _ \<Rightarrow> ''ZONE_UPDATE''
   | ZoneDelete \<Rightarrow> ''ZONE_DELETE'' | ZoneReorder _ \<Rightarrow> ''ZONE_REORDER''
   | SlotCreate _ \<Rightarrow> ''SLOT_CREATE'' | SlotMerge _ _ _ \<Rightarrow> ''SLOT_MERGE''
   | SlotSplit _ \<Rightarrow> ''SLOT_SPLIT'' | SlotUpdate _ _ \<Rightarrow> ''SLOT_UPDATE'' | SlotDelete \<Rightarrow> ''SLOT_DELETE''
   | ComponentCreate _ \<Rightarrow> ''COMPONENT_CREATE'' | ComponentUpdate _ \<Rightarrow> ''COMPONENT_UPDATE''
   | ComponentReplace _ \<Rightarrow> ''COMPONENT_REPLACE'' | ComponentCopy _ \<Rightarrow> ''COMPONENT_COPY''
   | ComponentDelete \<Rightarrow> ''COMPONENT_DELETE'' | DataBindingUpdate _ _ \<Rightarrow> ''DATA_BINDING_UPDATE''
   | DataContextCreate _ \<Rightarrow> ''DATA_CONTEXT_CREATE'' | DataContextDelete \<Rightarrow> ''DATA_CONTEXT_DELETE''
   | FilterCreate _ \<Rightarrow> ''FILTER_CREATE'' | FilterUpdate _ \<Rightarrow> ''FILTER_UPDATE''
   | FilterDelete \<Rightarrow> ''FILTER_DELETE'' | InteractionCreate _ \<Rightarrow> ''INTERACTION_CREATE''
   | InteractionUpdate _ \<Rightarrow> ''INTERACTION_UPDATE'' | InteractionDelete \<Rightarrow> ''INTERACTION_DELETE''
   | InsightUpdate _ _ \<Rightarrow> ''INSIGHT_UPDATE'' | InsightRegenerate _ _ _ \<Rightarrow> ''INSIGHT_REGENERATE'')"

record ('e) op_env =
  envClone :: "ReportDefinition \<Rightarrow> 'e + ReportDefinition"
  envRegistry :: "'e + Registry"
  envHash :: "string \<Rightarrow> string"
  envDefinitionOK :: "ReportDefinition \<Rightarrow> bool"

definition MaxRichTextBytes :: nat where "MaxRichTextBytes = 65536"
definition MaxSlotsPerBlock :: nat where "MaxSlotsPerBlock = 16"

definition validateName :: "string \<Rightarrow> bool" where
  "validateName name \<longleftrightarrow> \<not> (trim_space name = [] \<or> rune_count name > 4096)"

definition payload_valid :: "'e op_env \<Rightarrow> Payload \<Rightarrow> bool" where
  "payload_valid env p = (case p of
     ReportCreate d \<Rightarrow> envDefinitionOK env d
   | PageCreate page \<Rightarrow> valid_id (pgID page)
   | PageUpdate name \<Rightarrow> validateName name
   | PageReorder n \<Rightarrow> \<not> n < 1
   | SectionCreate sec \<Rightarrow> valid_id (scID sec)
   | SectionUpdate name \<Rightarrow> validateName name
   | SectionReorder n \<Rightarrow> \<not> n < 1
   | BlockCreate b \<Rightarrow> valid_id (bkID b)
   | BlockMove x y \<Rightarrow> \<not> (x < 0 \<or> y < 0)
   | BlockResize w h \<Rightarrow> \<not> (w < 1 \<or> h < 1 \<or> w > 24)
   | BlockUpdate t _ \<Rightarrow> t \<in> {BlockAnalysisCard, BlockKPIGroup, BlockChart, BlockTable, BlockContent, BlockFilter}
   | BlockCopy i \<Rightarrow> valid_id i
   | ZoneCreate z \<Rightarrow> valid_id (znID z)
   | ZoneUpdate t _ \<Rightarrow> t \<in> {ZoneHeader, ZoneFilter, ZoneInsight, ZoneContent, ZoneFooter}
   | ZoneReorder n \<Rightarrow> \<not> n < 1
   | SlotCreate s \<Rightarrow> valid_id (slID s)
   | SlotMerge ids s _ \<Rightarrow> \<not> (length ids < 2 \<or> length ids > MaxSlotsPerBlock) \<and> list_all valid_id ids \<and>
       distinct ids \<and> valid_id (slID s)
   | SlotSplit ss \<Rightarrow> \<not> (length ss < 2 \<or> length ss > MaxSlotsPerBlock) \<and> list_all valid_id (map slID ss) \<and>
       distinct (map slID ss)
   | SlotUpdate _ c \<Rightarrow> c = [] \<or> valid_id c
   | ComponentCreate c \<Rightarrow> valid_id (cpID c)
   | ComponentReplace c \<Rightarrow> valid_id (cpID c)
   | ComponentCopy i \<Rightarrow> valid_id i
   | DataBindingUpdate m b \<Rightarrow> (case m of DataBindingSet \<Rightarrow> b \<noteq> None | DataBindingClear \<Rightarrow> b = None
       | OtherBindingUpdate _ \<Rightarrow> False)
   | DataContextCreate c \<Rightarrow> list_all valid_id [dxID c, dxDatasetID c, dxDatasetVersionID c]
   | FilterCreate f \<Rightarrow> valid_id (gfID f)
   | FilterUpdate f \<Rightarrow> valid_id (gfID f)
   | InteractionCreate i \<Rightarrow> valid_id (inID i)
   | InteractionUpdate i \<Rightarrow> valid_id (inID i)
   | InsightUpdate t e \<Rightarrow> \<not> (trim_space t = [] \<or> length t > MaxRichTextBytes) \<and> valid_id e
   | InsightRegenerate e m v \<Rightarrow> valid_id e \<and> \<not> (trim_space m = [] \<or> trim_space v = [])
   | _ \<Rightarrow> True)"

definition operation_valid :: "'e op_env \<Rightarrow> Operation \<Rightarrow> bool" where
  "operation_valid env op \<longleftrightarrow> valid_id (opTargetID op) \<and> payload_valid env (opPayload op)"

section \<open>Finding the target\<close>

datatype 'e op_error = OpInvalid | OpMissing string ID | OpSlotMerge slot_merge_error
  | OpRegistry 'e | OpManifestMissing string string | OpContextExists ID | OpLastContext

text \<open>Apply a partial update to the first element it applies to.\<close>

fun at_first :: "('a \<Rightarrow> ('e + 'a) option) \<Rightarrow> 'a list \<Rightarrow> ('e + 'a list) option" where
  "at_first g [] = None"
| "at_first g (x # xs) = (case g x of
     Some (Inl e) \<Rightarrow> Some (Inl e)
   | Some (Inr y) \<Rightarrow> Some (Inr (y # xs))
   | None \<Rightarrow> (case at_first g xs of
       None \<Rightarrow> None
     | Some (Inl e) \<Rightarrow> Some (Inl e)
     | Some (Inr ys) \<Rightarrow> Some (Inr (x # ys))))"

definition remove_at :: "nat \<Rightarrow> 'a list \<Rightarrow> 'a list" where
  "remove_at k xs = take k xs @ drop (Suc k) xs"

definition rebuild :: "('b \<Rightarrow> 'a) \<Rightarrow> ('e + 'b) option \<Rightarrow> ('e + 'a) option" where
  "rebuild put r = (case r of None \<Rightarrow> None | Some (Inl e) \<Rightarrow> Some (Inl e) | Some (Inr v) \<Rightarrow> Some (Inr (put v)))"

definition in_page :: "(Section \<Rightarrow> ('e + Section) option) \<Rightarrow> Page \<Rightarrow> ('e + Page) option" where
  "in_page g p = rebuild (\<lambda>ss. p\<lparr> pgSections := ss \<rparr>) (at_first g (pgSections p))"

definition in_section :: "(Block \<Rightarrow> ('e + Block) option) \<Rightarrow> Section \<Rightarrow> ('e + Section) option" where
  "in_section g s = rebuild (\<lambda>bs. s\<lparr> scBlocks := bs \<rparr>) (at_first g (scBlocks s))"

definition in_block :: "(Zone \<Rightarrow> ('e + Zone) option) \<Rightarrow> Block \<Rightarrow> ('e + Block) option" where
  "in_block g b = rebuild (\<lambda>zs. b\<lparr> bkZones := zs \<rparr>) (at_first g (bkZones b))"

text \<open>
  The code's location functions give a parent and the index of the child: \<open>page_of f\<close>
  applies \<open>f\<close> to the page and the index of its section, and so on down to the zone (with
  its block) and the index of its slot.
\<close>

definition page_at :: "ID \<Rightarrow> (Page \<Rightarrow> 'e + Page) \<Rightarrow> Page \<Rightarrow> ('e + Page) option" where
  "page_at i f p = (if pgID p = i then Some (f p) else None)"

definition page_of :: "ID \<Rightarrow> (Page \<Rightarrow> nat \<Rightarrow> 'e + Page) \<Rightarrow> Page \<Rightarrow> ('e + Page) option" where
  "page_of i f p = map_option (f p) (find_index (\<lambda>s. scID s = i) (pgSections p))"

definition section_of :: "ID \<Rightarrow> (Section \<Rightarrow> nat \<Rightarrow> 'e + Section) \<Rightarrow> Page \<Rightarrow> ('e + Page) option" where
  "section_of i f = in_page (\<lambda>s. map_option (f s) (find_index (\<lambda>b. bkID b = i) (scBlocks s)))"

definition block_of :: "ID \<Rightarrow> (Block \<Rightarrow> nat \<Rightarrow> 'e + Block) \<Rightarrow> Page \<Rightarrow> ('e + Page) option" where
  "block_of i f = in_page (in_section (\<lambda>b. map_option (f b) (find_index (\<lambda>z. znID z = i) (bkZones b))))"

definition zone_of :: "ID \<Rightarrow> (Block \<Rightarrow> Zone \<Rightarrow> nat \<Rightarrow> 'e + Zone) \<Rightarrow> Page \<Rightarrow> ('e + Page) option" where
  "zone_of i f = in_page (in_section (\<lambda>b. in_block (\<lambda>z.
     map_option (f b z) (find_index (\<lambda>s. slID s = i) (znSlots z))) b))"

definition on_pages :: "string \<Rightarrow> ID \<Rightarrow> (Page \<Rightarrow> ('e op_error + Page) option) \<Rightarrow> ReportDefinition \<Rightarrow>
    'e op_error + ReportDefinition" where
  "on_pages kind i g d = (case at_first g (rdPages d) of
     None \<Rightarrow> Inl (OpMissing kind i)
   | Some (Inl e) \<Rightarrow> Inl e
   | Some (Inr ps) \<Rightarrow> Inr (d\<lparr> rdPages := ps \<rparr>))"

definition update_page :: "ID \<Rightarrow> (Page \<Rightarrow> Page) \<Rightarrow> ReportDefinition \<Rightarrow> 'e op_error + ReportDefinition" where
  "update_page i f = on_pages ''page'' i (page_at i (\<lambda>p. Inr (f p)))"

definition update_section :: "ID \<Rightarrow> (Section \<Rightarrow> Section) \<Rightarrow> ReportDefinition \<Rightarrow> 'e op_error + ReportDefinition" where
  "update_section i f = on_pages ''section'' i
     (page_of i (\<lambda>p k. Inr (p\<lparr> pgSections := (pgSections p)[k := f (pgSections p ! k)] \<rparr>)))"

definition update_block :: "ID \<Rightarrow> (Block \<Rightarrow> Block) \<Rightarrow> ReportDefinition \<Rightarrow> 'e op_error + ReportDefinition" where
  "update_block i f = on_pages ''block'' i
     (section_of i (\<lambda>s k. Inr (s\<lparr> scBlocks := (scBlocks s)[k := f (scBlocks s ! k)] \<rparr>)))"

definition update_zone :: "ID \<Rightarrow> (Zone \<Rightarrow> Zone) \<Rightarrow> ReportDefinition \<Rightarrow> 'e op_error + ReportDefinition" where
  "update_zone i f = on_pages ''zone'' i
     (block_of i (\<lambda>b k. Inr (b\<lparr> bkZones := (bkZones b)[k := f (bkZones b ! k)] \<rparr>)))"

definition update_slot :: "ID \<Rightarrow> (Slot \<Rightarrow> Slot) \<Rightarrow> ReportDefinition \<Rightarrow> 'e op_error + ReportDefinition" where
  "update_slot i f = on_pages ''slot'' i
     (zone_of i (\<lambda>b z k. Inr (z\<lparr> znSlots := (znSlots z)[k := f (znSlots z ! k)] \<rparr>)))"

definition update_component :: "ID \<Rightarrow> (Component \<Rightarrow> Component) \<Rightarrow> ReportDefinition \<Rightarrow>
    'e op_error + ReportDefinition" where
  "update_component i f d = (case find_index (\<lambda>c. cpID c = i) (rdComponents d) of
     None \<Rightarrow> Inl (OpMissing ''component'' i)
   | Some k \<Rightarrow> Inr (d\<lparr> rdComponents := (rdComponents d)[k := f (rdComponents d ! k)] \<rparr>))"

section \<open>Canonical order\<close>

definition upgradeLegacyZoneOrders :: "Block \<Rightarrow> Block" where
  "upgradeLegacyZoneOrders b =
     (if bkZones b = [] then b
      else if list_ex (\<lambda>z. znOrder z \<noteq> 0) (bkZones b) then b
      else (let zs = sort_slice (\<lambda>x y. if zlEmptyPriority (znLayout x) \<noteq> zlEmptyPriority (znLayout y)
                       then zlEmptyPriority (znLayout x) < zlEmptyPriority (znLayout y)
                       else znID x < znID y) (bkZones b)
            in b\<lparr> bkZones := map (\<lambda>(index, z). z\<lparr> znOrder := int index + 1 \<rparr>) (enumerate 0 zs) \<rparr>))"

definition sort_block :: "Block \<Rightarrow> Block" where
  "sort_block b = (let b' = upgradeLegacyZoneOrders b in b'\<lparr> bkZones := sort_slice (lt_on znOrder) (bkZones b') \<rparr>)"

definition sort_section :: "Section \<Rightarrow> Section" where
  "sort_section s = s\<lparr> scBlocks := map sort_block
     (sort_slice (lt_on (\<lambda>b. mbOrder (blMobile (bkLayout b)))) (scBlocks s)) \<rparr>"

definition sort_page :: "Page \<Rightarrow> Page" where
  "sort_page p = p\<lparr> pgSections := map sort_section (sort_slice (lt_on scOrder) (pgSections p)) \<rparr>"

definition sortDefinition :: "ReportDefinition \<Rightarrow> ReportDefinition" where
  "sortDefinition d = d\<lparr> rdPages := map sort_page (sort_slice (lt_on pgOrder) (rdPages d)) \<rparr>"

section \<open>Helpers of the application\<close>

definition derivedID :: "(string \<Rightarrow> string) \<Rightarrow> ID \<Rightarrow> ID \<Rightarrow> ID" where
  "derivedID hash prefix original =
     (let v = prefix @ ''/'' @ original in
      if length v \<le> MaxIDLength then v else prefix @ ''/'' @ take 16 (hash original))"

definition copyNestedBlockIDs :: "(string \<Rightarrow> string) \<Rightarrow> Block \<Rightarrow> Block" where
  "copyNestedBlockIDs hash b = b\<lparr> bkZones := map (\<lambda>z. z\<lparr> znID := derivedID hash (bkID b) (znID z),
     znSlots := map (\<lambda>s. s\<lparr> slID := derivedID hash (bkID b) (slID s) \<rparr>) (znSlots z) \<rparr>) (bkZones b) \<rparr>"

definition removeSlots :: "Slot list \<Rightarrow> ID list \<Rightarrow> Slot list" where
  "removeSlots slots ids = filter (\<lambda>s. slID s \<notin> set ids) slots"

definition replace_in_slot :: "ID \<Rightarrow> ID \<Rightarrow> Slot \<Rightarrow> Slot" where
  "replace_in_slot oldID newID s = (if slComponentID s = oldID then s\<lparr> slComponentID := newID \<rparr> else s)"

definition replaceSlotComponentID :: "ID \<Rightarrow> ID \<Rightarrow> ReportDefinition \<Rightarrow> ReportDefinition" where
  "replaceSlotComponentID oldID newID d = d\<lparr> rdPages := map (\<lambda>p. p\<lparr> pgSections := map (\<lambda>s.
     s\<lparr> scBlocks := map (\<lambda>b. b\<lparr> bkZones := map (\<lambda>z.
       z\<lparr> znSlots := map (replace_in_slot oldID newID) (znSlots z) \<rparr>) (bkZones b) \<rparr>) (scBlocks s) \<rparr>)
       (pgSections p) \<rparr>) (rdPages d) \<rparr>"

definition unit_size :: GridSize where "unit_size = \<lparr> gsW = 1, gsH = 1 \<rparr>"

text \<open>The case \<open>SlotMerge\<close>, in the block and zone of the target slot.\<close>

definition merge_slots :: "'e op_env \<Rightarrow> Component list \<Rightarrow> ID \<Rightarrow> ID list \<Rightarrow> Slot \<Rightarrow> bool \<Rightarrow> Block \<Rightarrow> Zone \<Rightarrow> nat \<Rightarrow>
    'e op_error + Zone" where
  "merge_slots env components target ids newSlot restore b z k =
     (if target \<notin> set ids then Inl (OpSlotMerge MergeNotRectangular)
      else (case MergeSlots z ids (slID newSlot) unit_size of
        Inl e \<Rightarrow> Inl (OpSlotMerge e)
      | Inr merged \<Rightarrow>
         (case (if slComponentID merged = [] then Inr () else
             (case find_index (\<lambda>c. cpID c = slComponentID merged) components of
                None \<Rightarrow> Inl (OpMissing ''component'' (slComponentID merged))
              | Some j \<Rightarrow> (case envRegistry env of
                  Inl e \<Rightarrow> Inl (OpRegistry e)
                | Inr get \<Rightarrow>
                   (let t = ctType (cpTemplateRef (components ! j)); v = ctVersion (cpTemplateRef (components ! j)) in
                    case get t v of
                      None \<Rightarrow> Inl (OpManifestMissing t v)
                    | Some mf \<Rightarrow>
                       (let size = SlotRenderSize b z (slGrid merged) in
                        if gsW size < gsW (mfMinSize mf) \<or> gsH size < gsH (mfMinSize mf)
                        then Inl (OpSlotMerge MergeBelowMinSize) else Inr ()))))) of
            Inl e \<Rightarrow> Inl e
          | Inr _ \<Rightarrow>
             (let merged' = (if restore then merged\<lparr> slMergedFrom := slMergedFrom newSlot \<rparr> else merged);
                  merged'' = merged'\<lparr> slMergedFrom := sort_slice (<) (slMergedFrom merged') \<rparr>
              in Inr (z\<lparr> znSlots := removeSlots (znSlots z) ids @ [merged''] \<rparr>)))))"

definition split_slot :: "Slot list \<Rightarrow> Block \<Rightarrow> Zone \<Rightarrow> nat \<Rightarrow> 'e op_error + Zone" where
  "split_slot splitSlots b z k =
     (let current = znSlots z ! k in
      if length (slMergedFrom current) < 2 then Inl (OpSlotMerge MergeNotRectangular)
      else (let provided = sort_slice (<) (map slID splitSlots);
                expected = sort_slice (<) (slMergedFrom current) in
        if provided \<noteq> expected then Inl (OpSlotMerge MergeNotRectangular)
        else (case MergeSlots (z\<lparr> znSlots := splitSlots \<rparr>) provided (slID current) unit_size of
          Inl e \<Rightarrow> Inl (OpSlotMerge e)
        | Inr rebuilt \<Rightarrow>
           (if slGrid rebuilt \<noteq> slGrid current \<or> slComponentID rebuilt \<noteq> slComponentID current
            then Inl (OpSlotMerge MergeNotRectangular)
            else Inr (z\<lparr> znSlots := remove_at k (znSlots z) @ splitSlots \<rparr>)))))"

section \<open>Applying an operation\<close>

definition remove_item :: "string \<Rightarrow> ID \<Rightarrow> ('a \<Rightarrow> ID) \<Rightarrow> 'a list \<Rightarrow> 'e op_error + 'a list" where
  "remove_item kind i key xs = (case find_index (\<lambda>x. key x = i) xs of
     None \<Rightarrow> Inl (OpMissing kind i) | Some k \<Rightarrow> Inr (remove_at k xs))"

definition replace_item :: "string \<Rightarrow> ID \<Rightarrow> ('a \<Rightarrow> ID) \<Rightarrow> 'a \<Rightarrow> 'a list \<Rightarrow> 'e op_error + 'a list" where
  "replace_item kind i key v xs = (case find_index (\<lambda>x. key x = i) xs of
     None \<Rightarrow> Inl (OpMissing kind i) | Some k \<Rightarrow> Inr (xs[k := v]))"

definition map_result :: "('b \<Rightarrow> 'a) \<Rightarrow> 'e + 'b \<Rightarrow> 'e + 'a" where
  "map_result f r = (case r of Inl e \<Rightarrow> Inl e | Inr v \<Rightarrow> Inr (f v))"

definition set_desktop :: "(DesktopBlockLayout \<Rightarrow> DesktopBlockLayout) \<Rightarrow> Block \<Rightarrow> Block" where
  "set_desktop f b = b\<lparr> bkLayout := (bkLayout b)\<lparr> blDesktop := f (blDesktop (bkLayout b)) \<rparr> \<rparr>"

text \<open>The switch of \<open>applyOne\<close>: everything but the final sort.\<close>

definition change :: "'e op_env \<Rightarrow> ReportDefinition \<Rightarrow> Operation \<Rightarrow> 'e op_error + ReportDefinition" where
  "change env d op = (let target = opTargetID op in case opPayload op of
     ReportCreate d' \<Rightarrow> Inr d'
   | ReportSettingsUpdate m rp \<Rightarrow> Inr (d\<lparr> rdMetadata := m, rdRuntimePolicy := rp \<rparr>)
   | TemplateApply t \<Rightarrow> Inr (d\<lparr> rdTemplateRef := t \<rparr>)
   | ThemeUpdate t \<Rightarrow> Inr (d\<lparr> rdThemeRef := t \<rparr>)
   | PageCreate p \<Rightarrow> Inr (d\<lparr> rdPages := rdPages d @ [p] \<rparr>)
   | PageUpdate name \<Rightarrow> update_page target (\<lambda>p. p\<lparr> pgName := name \<rparr>) d
   | PageDelete \<Rightarrow> map_result (\<lambda>ps. d\<lparr> rdPages := ps \<rparr>) (remove_item ''page'' target pgID (rdPages d))
   | PageReorder n \<Rightarrow> update_page target (\<lambda>p. p\<lparr> pgOrder := n \<rparr>) d
   | SectionCreate s \<Rightarrow> update_page target (\<lambda>p. p\<lparr> pgSections := pgSections p @ [s] \<rparr>) d
   | SectionUpdate name \<Rightarrow> update_section target (\<lambda>s. s\<lparr> scName := name \<rparr>) d
   | SectionDelete \<Rightarrow> on_pages ''section'' target
       (page_of target (\<lambda>p k. Inr (p\<lparr> pgSections := remove_at k (pgSections p) \<rparr>))) d
   | SectionReorder n \<Rightarrow> update_section target (\<lambda>s. s\<lparr> scOrder := n \<rparr>) d
   | BlockCreate b \<Rightarrow> update_section target (\<lambda>s. s\<lparr> scBlocks := scBlocks s @ [b] \<rparr>) d
   | BlockMove x y \<Rightarrow> update_block target (set_desktop (\<lambda>r. r\<lparr> dbX := x, dbY := y \<rparr>)) d
   | BlockResize w h \<Rightarrow> update_block target (set_desktop (\<lambda>r. r\<lparr> dbW := w, dbH := h \<rparr>)) d
   | BlockUpdate t title \<Rightarrow> update_block target (\<lambda>b. (case title of
         None \<Rightarrow> b\<lparr> bkType := t \<rparr> | Some v \<Rightarrow> b\<lparr> bkType := t, bkTitle := trim_space v \<rparr>)) d
   | BlockCopy newID \<Rightarrow> on_pages ''block'' target (section_of target (\<lambda>s k. Inr (s\<lparr> scBlocks :=
         scBlocks s @ [copyNestedBlockIDs (envHash env) ((scBlocks s ! k)\<lparr> bkID := newID \<rparr>)] \<rparr>))) d
   | BlockDelete \<Rightarrow> on_pages ''block'' target
       (section_of target (\<lambda>s k. Inr (s\<lparr> scBlocks := remove_at k (scBlocks s) \<rparr>))) d
   | ZoneCreate z \<Rightarrow> update_block target (\<lambda>b. b\<lparr> bkZones := bkZones b @ [z] \<rparr>) d
   | ZoneUpdate t l \<Rightarrow> update_zone target (\<lambda>z. z\<lparr> znType := t, znLayout := l \<rparr>) d
   | ZoneDelete \<Rightarrow> on_pages ''zone'' target
       (block_of target (\<lambda>b k. Inr (b\<lparr> bkZones := remove_at k (bkZones b) \<rparr>))) d
   | ZoneReorder n \<Rightarrow> update_zone target (\<lambda>z. z\<lparr> znOrder := n \<rparr>) d
   | SlotCreate s \<Rightarrow> update_zone target (\<lambda>z. z\<lparr> znSlots := znSlots z @ [s] \<rparr>) d
   | SlotMerge ids newSlot restore \<Rightarrow> on_pages ''slot'' target
       (zone_of target (merge_slots env (rdComponents d) target ids newSlot restore)) d
   | SlotSplit ss \<Rightarrow> on_pages ''slot'' target (zone_of target (split_slot ss)) d
   | SlotUpdate g c \<Rightarrow> update_slot target (\<lambda>s. s\<lparr> slGrid := g, slComponentID := c \<rparr>) d
   | SlotDelete \<Rightarrow> on_pages ''slot'' target
       (zone_of target (\<lambda>b z k. Inr (z\<lparr> znSlots := remove_at k (znSlots z) \<rparr>))) d
   | ComponentCreate c \<Rightarrow> Inr (d\<lparr> rdComponents := rdComponents d @ [c] \<rparr>)
   | ComponentUpdate opts \<Rightarrow> update_component target (\<lambda>c. c\<lparr> cpOptions := opts \<rparr>) d
   | ComponentReplace r \<Rightarrow> map_result (\<lambda>cs. let d' = d\<lparr> rdComponents := cs \<rparr> in
         if cpID r \<noteq> target then replaceSlotComponentID target (cpID r) d' else d')
       (replace_item ''component'' target cpID r (rdComponents d))
   | ComponentCopy newID \<Rightarrow> (case find_index (\<lambda>c. cpID c = target) (rdComponents d) of
         None \<Rightarrow> Inl (OpMissing ''component'' target)
       | Some k \<Rightarrow> Inr (d\<lparr> rdComponents := rdComponents d @ [(rdComponents d ! k)\<lparr> cpID := newID \<rparr>] \<rparr>))
   | ComponentDelete \<Rightarrow> map_result (\<lambda>cs. d\<lparr> rdComponents := cs \<rparr>)
       (remove_item ''component'' target cpID (rdComponents d))
   | DataBindingUpdate _ b \<Rightarrow> update_component target (\<lambda>c. c\<lparr> cpDataBinding := b \<rparr>) d
   | DataContextCreate c \<Rightarrow> if find_index (\<lambda>x. dxID x = dxID c) (rdDataContexts d) \<noteq> None
       then Inl (OpContextExists (dxID c)) else Inr (d\<lparr> rdDataContexts := rdDataContexts d @ [c] \<rparr>)
   | DataContextDelete \<Rightarrow> (case find_index (\<lambda>x. dxID x = target) (rdDataContexts d) of
         None \<Rightarrow> Inl (OpMissing ''data context'' target)
       | Some k \<Rightarrow> if length (rdDataContexts d) = 1 then Inl OpLastContext
           else Inr (d\<lparr> rdDataContexts := remove_at k (rdDataContexts d) \<rparr>))
   | FilterCreate f \<Rightarrow> Inr (d\<lparr> rdGlobalFilters := rdGlobalFilters d @ [f] \<rparr>)
   | FilterUpdate f \<Rightarrow> map_result (\<lambda>fs. d\<lparr> rdGlobalFilters := fs \<rparr>)
       (replace_item ''filter'' target gfID f (rdGlobalFilters d))
   | FilterDelete \<Rightarrow> map_result (\<lambda>fs. d\<lparr> rdGlobalFilters := fs \<rparr>)
       (remove_item ''filter'' target gfID (rdGlobalFilters d))
   | InteractionCreate i \<Rightarrow> Inr (d\<lparr> rdInteractions := rdInteractions d @ [i] \<rparr>)
   | InteractionUpdate i \<Rightarrow> map_result (\<lambda>is'. d\<lparr> rdInteractions := is' \<rparr>)
       (replace_item ''interaction'' target inID i (rdInteractions d))
   | InteractionDelete \<Rightarrow> map_result (\<lambda>is'. d\<lparr> rdInteractions := is' \<rparr>)
       (remove_item ''interaction'' target inID (rdInteractions d))
   | InsightUpdate richText _ \<Rightarrow>
       update_component target (\<lambda>c. c\<lparr> cpOptions := (cpOptions c)\<lparr> coRichText := richText \<rparr> \<rparr>) d
   | InsightRegenerate _ _ _ \<Rightarrow> (case find_index (\<lambda>c. cpID c = target) (rdComponents d) of
         None \<Rightarrow> Inl (OpMissing ''component'' target) | Some _ \<Rightarrow> Inr d))"

definition applyOne :: "'e op_env \<Rightarrow> ReportDefinition \<Rightarrow> Operation \<Rightarrow> 'e op_error + ReportDefinition" where
  "applyOne env d op = map_result sortDefinition (change env d op)"

definition slot_merge_code :: "slot_merge_error \<Rightarrow> string" where
  "slot_merge_code e = (case e of MergeNotRectangular \<Rightarrow> ''REPORT_SLOT_MERGE_NOT_RECTANGULAR''
     | MergeMultipleComponents \<Rightarrow> ''REPORT_SLOT_MERGE_MULTIPLE_COMPONENTS''
     | MergeBelowMinSize \<Rightarrow> ''REPORT_SLOT_MERGE_BELOW_MIN_SIZE'')"

definition apply_code :: "'e op_error \<Rightarrow> string" where
  "apply_code e = (case e of OpInvalid \<Rightarrow> ''REPORT_OPERATION_INVALID''
     | OpSlotMerge m \<Rightarrow> slot_merge_code m | _ \<Rightarrow> ''REPORT_OPERATION_APPLY_FAILED'')"

datatype 'e apply_failure = CloneFailed 'e | ApplyError int string

fun apply_loop :: "'e op_env \<Rightarrow> int \<Rightarrow> ReportDefinition \<Rightarrow> Operation list \<Rightarrow> 'e apply_failure + ReportDefinition" where
  "apply_loop env index d [] = Inr d"
| "apply_loop env index d (op # ops) =
     (if \<not> operation_valid env op then Inl (ApplyError index ''REPORT_OPERATION_INVALID'')
      else (case applyOne env d op of
        Inl e \<Rightarrow> Inl (ApplyError index (apply_code e))
      | Inr d' \<Rightarrow> apply_loop env (index + 1) d' ops))"

definition Apply :: "'e op_env \<Rightarrow> ReportDefinition \<Rightarrow> Operation list \<Rightarrow> ReportDefinition \<times> 'e apply_failure option" where
  "Apply env d ops = (case envClone env d of
     Inl e \<Rightarrow> (d, Some (CloneFailed e))
   | Inr working \<Rightarrow> (case apply_loop env 0 working ops of
       Inl e \<Rightarrow> (d, Some e) | Inr d' \<Rightarrow> (d', None)))"

end
