(* ===== verification/ReportApply.thy ===== *)
theory ReportApply imports ReportOperation begin

text \<open>
  Laws of the operations of \<open>ReportOperation\<close>: the canonical order every applied operation
  leaves behind, and the atomicity and composition of \<open>Apply\<close>.
\<close>

section \<open>Stable sorting by a key\<close>

lemma sort_slice_map:
  "(\<And>x. key (f x) = key x) \<Longrightarrow> sort_slice (lt_on key) (map f xs) = map f (sort_slice (lt_on key) xs)"
  by (rule sort_slice_map_lt) (simp add: lt_on_def)

lemma filter_insort_by:
  "sorted_by (lt_on key) xs \<Longrightarrow> filter P (insort_by (lt_on key) x xs) =
     (if P x then insort_by (lt_on key) x (filter P xs) else filter P xs)"
proof (induction xs)
  case Nil
  then show ?case by simp
next
  case (Cons y ys)
  show ?case
  proof (cases "lt_on key y x")
    case True
    with Cons show ?thesis by auto
  next
    case False
    then have "\<forall>z\<in>set (filter P (y # ys)). \<not> lt_on key z x"
      using Cons.prems by (auto simp: lt_on_def)
    with False show ?thesis by (auto simp: insort_by_head)
  qed
qed

lemma filter_sort_slice: "filter P (sort_slice (lt_on key) xs) = sort_slice (lt_on key) (filter P xs)"
  by (induction xs) (simp_all add: filter_insort_by key_order.sorted_by_sort_slice)

lemma sorted_by_map: "(\<And>x. key (f x) = key x) \<Longrightarrow> sorted_by (lt_on key) (map f xs) = sorted_by (lt_on key) xs"
  by (induction xs) (simp_all add: lt_on_def)

section \<open>The canonical order\<close>

definition block_canonical :: "Block \<Rightarrow> bool" where
  "block_canonical b \<longleftrightarrow> sorted_by (lt_on znOrder) (bkZones b) \<and>
     (bkZones b \<noteq> [] \<longrightarrow> (\<exists>z\<in>set (bkZones b). znOrder z \<noteq> 0))"

definition section_canonical :: "Section \<Rightarrow> bool" where
  "section_canonical s \<longleftrightarrow> sorted_by (lt_on (\<lambda>b. mbOrder (blMobile (bkLayout b)))) (scBlocks s) \<and>
     (\<forall>b\<in>set (scBlocks s). block_canonical b)"

definition page_canonical :: "Page \<Rightarrow> bool" where
  "page_canonical p \<longleftrightarrow> sorted_by (lt_on scOrder) (pgSections p) \<and> (\<forall>s\<in>set (pgSections p). section_canonical s)"

definition canonical :: "ReportDefinition \<Rightarrow> bool" where
  "canonical d \<longleftrightarrow> sorted_by (lt_on pgOrder) (rdPages d) \<and> (\<forall>p\<in>set (rdPages d). page_canonical p)"

abbreviation mobile_order :: "Block \<Rightarrow> int" where
  "mobile_order b \<equiv> mbOrder (blMobile (bkLayout b))"

lemma upgrade_nonzero:
  assumes "bkZones b \<noteq> []"
  shows "\<exists>z\<in>set (bkZones (upgradeLegacyZoneOrders b)). znOrder z \<noteq> 0"
proof (cases "list_ex (\<lambda>z. znOrder z \<noteq> 0) (bkZones b)")
  case True
  then show ?thesis by (auto simp: upgradeLegacyZoneOrders_def list_ex_iff)
next
  case False
  define zs where "zs = sort_slice (\<lambda>x y. if zlEmptyPriority (znLayout x) \<noteq> zlEmptyPriority (znLayout y)
     then zlEmptyPriority (znLayout x) < zlEmptyPriority (znLayout y) else znID x < znID y) (bkZones b)"
  have "length zs = length (bkZones b)" by (simp add: zs_def)
  with assms obtain z rest where z: "zs = z # rest" by (cases zs) auto
  have "bkZones (upgradeLegacyZoneOrders b) = map (\<lambda>(index, z). z\<lparr> znOrder := int index + 1 \<rparr>) (enumerate 0 zs)"
    using assms False by (simp add: upgradeLegacyZoneOrders_def zs_def Let_def)
  with z show ?thesis by simp
qed

lemma upgrade_keeps [simp]:
  "bkID (upgradeLegacyZoneOrders b) = bkID b" "bkLayout (upgradeLegacyZoneOrders b) = bkLayout b"
  "bkZones b = [] \<Longrightarrow> bkZones (upgradeLegacyZoneOrders b) = []"
  by (simp_all add: upgradeLegacyZoneOrders_def Let_def)

lemma sort_block_keeps [simp]:
  "bkID (sort_block b) = bkID b" "bkLayout (sort_block b) = bkLayout b"
  by (simp_all add: sort_block_def Let_def)

lemma sort_section_keeps [simp]: "scID (sort_section s) = scID s" "scOrder (sort_section s) = scOrder s"
  by (simp_all add: sort_section_def)

lemma sort_page_keeps [simp]: "pgID (sort_page p) = pgID p" "pgOrder (sort_page p) = pgOrder p"
  by (simp_all add: sort_page_def)

lemma sort_block_canonical: "block_canonical (sort_block b)"
proof (cases "bkZones b = []")
  case True
  then show ?thesis by (simp add: block_canonical_def sort_block_def)
next
  case False
  from upgrade_nonzero [OF this] show ?thesis
    by (simp add: block_canonical_def sort_block_def Let_def key_order.sorted_by_sort_slice)
qed

lemma sort_section_canonical: "section_canonical (sort_section s)"
  by (simp add: section_canonical_def sort_section_def sorted_by_map key_order.sorted_by_sort_slice
      sort_block_canonical)

lemma sort_page_canonical: "page_canonical (sort_page p)"
  by (simp add: page_canonical_def sort_page_def sorted_by_map key_order.sorted_by_sort_slice
      sort_section_canonical)

lemma sortDefinition_canonical: "canonical (sortDefinition d)"
  by (simp add: canonical_def sortDefinition_def sorted_by_map key_order.sorted_by_sort_slice sort_page_canonical)

lemma sort_block_id: "block_canonical b \<Longrightarrow> sort_block b = b"
  by (auto simp: block_canonical_def sort_block_def upgradeLegacyZoneOrders_def list_ex_iff sort_slice_id)

lemma sort_section_id: "section_canonical s \<Longrightarrow> sort_section s = s"
  by (simp add: section_canonical_def sort_section_def sort_slice_id sort_block_id map_idI)

lemma sort_page_id: "page_canonical p \<Longrightarrow> sort_page p = p"
  by (simp add: page_canonical_def sort_page_def sort_slice_id sort_section_id map_idI)

lemma sortDefinition_id: "canonical d \<Longrightarrow> sortDefinition d = d"
  by (simp add: canonical_def sortDefinition_def sort_slice_id sort_page_id map_idI)


section \<open>The loop over the operations\<close>

definition shift_failure :: "nat \<Rightarrow> 'e apply_failure \<Rightarrow> 'e apply_failure" where
  "shift_failure n e = (case e of CloneFailed c \<Rightarrow> CloneFailed c | ApplyError i code \<Rightarrow> ApplyError (i + int n) code)"

lemma applyOne_canonical: "applyOne env d op = Inr d' \<Longrightarrow> canonical d'"
  by (auto simp: applyOne_def map_result_def sortDefinition_canonical split: sum.splits)

lemma apply_loop_canonical:
  "apply_loop env n d ops = Inr d' \<Longrightarrow> (if ops = [] then d' = d else canonical d')"
proof (induction ops arbitrary: n d)
  case Nil
  then show ?case by simp
next
  case (Cons op ops)
  then obtain d1 where "applyOne env d op = Inr d1" "apply_loop env (n + 1) d1 ops = Inr d'"
    by (auto split: if_splits sum.splits)
  with Cons.IH [of "n + 1" d1] show ?case by (auto dest: applyOne_canonical split: if_splits)
qed

lemma apply_loop_append:
  "apply_loop env n d (xs @ ys) = (case apply_loop env n d xs of
     Inl e \<Rightarrow> Inl e | Inr d' \<Rightarrow> apply_loop env (n + int (length xs)) d' ys)"
  by (induction xs arbitrary: n d) (auto simp: algebra_simps split: sum.splits)

lemma apply_loop_shift:
  "apply_loop env (n + int k) d ops = (case apply_loop env n d ops of
     Inl e \<Rightarrow> Inl (shift_failure k e) | Inr d' \<Rightarrow> Inr d')"
proof (induction ops arbitrary: n d)
  case Nil
  then show ?case by simp
next
  case (Cons op ops)
  have e: "n + int k + 1 = n + 1 + int k" by simp
  have IH: "apply_loop env (n + int k + 1) d1 ops = (case apply_loop env (n + 1) d1 ops of
      Inl e \<Rightarrow> Inl (shift_failure k e) | Inr d' \<Rightarrow> Inr d')" for d1
    unfolding e by (rule Cons.IH)
  show ?case by (auto simp: shift_failure_def IH split: sum.splits)
qed

text \<open>Where a failing loop stops.\<close>

definition stops_at :: "'e op_env \<Rightarrow> ReportDefinition \<Rightarrow> Operation list \<Rightarrow> nat \<Rightarrow> string \<Rightarrow> bool" where
  "stops_at env d ops k code \<longleftrightarrow> k < length ops \<and> (\<exists>d'. apply_loop env 0 d (take k ops) = Inr d' \<and>
     (\<not> operation_valid env (ops ! k) \<and> code = ''REPORT_OPERATION_INVALID'' \<or>
      operation_valid env (ops ! k) \<and> (\<exists>e. applyOne env d' (ops ! k) = Inl e \<and> code = apply_code e)))"

lemma apply_loop_error:
  "apply_loop env 0 d ops = Inl e \<Longrightarrow> \<exists>k code. e = ApplyError (int k) code \<and> stops_at env d ops k code"
proof (induction ops rule: rev_induct)
  case Nil
  then show ?case by simp
next
  case (snoc op ops)
  show ?case
  proof (cases "apply_loop env 0 d ops")
    case (Inl e')
    with snoc.prems have "e' = e" by (simp add: apply_loop_append)
    with snoc.IH Inl obtain k code where "e = ApplyError (int k) code" "stops_at env d ops k code" by auto
    then show ?thesis by (intro exI [of _ k] exI [of _ code]) (auto simp: stops_at_def nth_append)
  next
    case (Inr d1)
    with snoc.prems have "apply_loop env (int (length ops)) d1 [op] = Inl e"
      by (simp add: apply_loop_append)
    then obtain code where "e = ApplyError (int (length ops)) code"
      "\<not> operation_valid env op \<and> code = ''REPORT_OPERATION_INVALID'' \<or>
       operation_valid env op \<and> (\<exists>x. applyOne env d1 op = Inl x \<and> code = apply_code x)"
      by (auto split: if_splits sum.splits)
    with Inr show ?thesis
      by (intro exI [of _ "length ops"] exI [of _ code]) (auto simp: stops_at_def)
  qed
qed


text \<open>C29: \<open>Apply\<close> is atomic: when any operation is invalid or does not apply, the definition
  it was given comes back unchanged, and the error names the first such operation; when all
  apply, the result is in the canonical order of pages, sections, blocks and zones. With a
  faithful deep copy two bundles in sequence are one bundle, error positions shifted.\<close>

theorem apply_is_atomic:
  assumes clone: "\<And>x. envClone env x = Inr x"
  shows "(\<forall>e. snd (Apply env d ops) = Some e \<longrightarrow> fst (Apply env d ops) = d \<and>
       (\<exists>k code. e = ApplyError (int k) code \<and> stops_at env d ops k code)) \<and>
     (snd (Apply env d ops) = None \<longrightarrow> (if ops = [] then fst (Apply env d ops) = d
       else canonical (fst (Apply env d ops)))) \<and>
     Apply env d (ops @ ops') = (case Apply env d ops of
        (_, Some e) \<Rightarrow> (d, Some e)
      | (d1, None) \<Rightarrow> (case Apply env d1 ops' of
          (_, Some e) \<Rightarrow> (d, Some (shift_failure (length ops) e)) | (d2, None) \<Rightarrow> (d2, None)))"
proof (cases "apply_loop env 0 d ops")
  case (Inl e)
  then show ?thesis using apply_loop_error [OF Inl]
    by (simp add: Apply_def clone apply_loop_append)
next
  case (Inr d1)
  have "apply_loop env (int (length ops)) d1 ops' = (case apply_loop env 0 d1 ops' of
      Inl e \<Rightarrow> Inl (shift_failure (length ops) e) | Inr d' \<Rightarrow> Inr d')"
    using apply_loop_shift [of env 0 "length ops" d1 ops'] by simp
  with Inr show ?thesis using apply_loop_canonical [OF Inr]
    by (simp add: Apply_def clone apply_loop_append split: sum.splits)
qed


text \<open>A small report for the examples: a page with one card, and an empty second page.\<close>

definition sample_env :: "unit op_env" where
  "sample_env = \<lparr> envClone = Inr, envRegistry = Inl (), envHash = (\<lambda>s. replicate 64 CHR ''a''),
     envDefinitionOK = (\<lambda>_. True) \<rparr>"

definition sample_report :: ReportDefinition where
  "sample_report = \<lparr> rdSchemaVersion = ''1.0'',
     rdMetadata = \<lparr> mdID = ''report'', mdCode = ''sales'', mdName = ''Sales'', mdDescription = [],
       mdReportType = ReportTypeReport, mdHeaderStyle = [], mdLocale = ''en'' \<rparr>,
     rdTemplateRef = \<lparr> trReportTemplateID = ''template'', trReportTemplateVersion = ''1.0.0'',
       trStructureTemplateVersion = ''1.0.0'', trLayoutTemplateVersion = ''1.0.0'',
       trNarrativeTemplateVersion = ''1.0.0'' \<rparr>,
     rdThemeRef = \<lparr> thThemeID = ''theme'', thVersion = ''1.0.0'' \<rparr>,
     rdCanvas = \<lparr> cvDesktop = \<lparr> dcDesignWidth = 1440, dcColumns = 24, dcBaseCellWidth = 40,
         dcBaseRowHeight = 40, dcGapX = 8, dcGapY = 8, dcPaddingX = 16, dcPaddingY = 16 \<rparr>,
       cvMobile = \<lparr> mcColumns = 1, mcGapY = 8, mcPaddingX = 8, mcPaddingY = 8 \<rparr> \<rparr>,
     rdDataContexts = [], rdGlobalFilters = [],
     rdPages = [sample_page, \<lparr> pgID = ''p2'', pgName = ''Second'', pgOrder = 2, pgSections = [] \<rparr>],
     rdComponents = [], rdInteractions = [],
     rdRuntimePolicy = \<lparr> rpRefreshMode = RefreshManual, rpRefreshIntervalSeconds = 0,
       rpMaxConcurrentQueries = 4, rpComponentTimeoutMS = 1000, rpExportEnabled = True,
       rpFailureMode = FailurePartial \<rparr>,
     rdProvenance = \<lparr> pvCreatedFrom = CreatedManually, pvSourceQuestionRunIDs = [], pvAIRunIDs = [],
       pvAnalysisMethodVersions = [], pvPromptVersions = [], pvModelPolicies = [] \<rparr> \<rparr>"

theorem apply_is_atomic_witness:
  "snd (Apply sample_env sample_report
     ([\<lparr> opTargetID = ''p'', opPayload = PageUpdate ''Renamed'' \<rparr>] @ [\<lparr> opTargetID = ''b9'', opPayload = BlockDelete \<rparr>])) =
     Some (ApplyError 1 ''REPORT_OPERATION_APPLY_FAILED'')"
proof -
  have clone: "\<And>x. envClone sample_env x = Inr x" by (simp add: sample_env_def)
  let ?ops = "[\<lparr> opTargetID = ''p'', opPayload = PageUpdate ''Renamed'' \<rparr>]"
  have "snd (Apply sample_env sample_report ?ops) = None" by code_simp
  moreover have "snd (Apply sample_env (fst (Apply sample_env sample_report ?ops))
      [\<lparr> opTargetID = ''b9'', opPayload = BlockDelete \<rparr>]) = Some (ApplyError 0 ''REPORT_OPERATION_APPLY_FAILED'')"
    by code_simp
  ultimately show ?thesis
    using apply_is_atomic [OF clone, of sample_report ?ops "[\<lparr> opTargetID = ''b9'', opPayload = BlockDelete \<rparr>]"]
    by (auto simp: shift_failure_def split: prod.splits option.splits)
qed

end
