(* ===== verification/ReportGuard.thy ===== *)
theory ReportGuard imports ReportApply begin

text \<open>
  The guard on operation bundles written by a model, \<open>internal/report/operation/guard.go\<close>,
  with \<open>Bundle\<close> and \<open>Scope\<close> of \<open>operation/model.go\<close>: a bundle declares a page, a section or a
  block, and every operation must target something inside it. The index of targets is built
  from the current definition. A map from identifiers to slices of paths is a function to
  lists, where an absent key is the empty list. \<open>GuardPanic\<close> is the nil dereference of a scope
  without a page, which \<open>Scope.Validate\<close> rules out.
\<close>

section \<open>Bundles and scopes\<close>

datatype Source = SourceUser | SourceAI | SourceImport | SourceSystem | OtherSource string

record Scope =
  sPageID :: "ID option"
  sSectionID :: "ID option"
  sBlockID :: "ID option"

record Bundle =
  buSchemaVersion :: string
  buReportID :: ID
  buBaseRevision :: int
  buSource :: Source
  buAIRunID :: "ID option"
  buScope :: "Scope option"
  buOperations :: "Operation list"

definition MaxOperations :: nat where "MaxOperations = 100"
definition MaxAIOperations :: nat where "MaxAIOperations = 30"
definition MaxAIDeleteOperations :: nat where "MaxAIDeleteOperations = 5"

definition scope_valid :: "Scope \<Rightarrow> bool" where
  "scope_valid sc \<longleftrightarrow> sPageID sc \<noteq> None \<and> \<not> (sBlockID sc \<noteq> None \<and> sSectionID sc = None) \<and>
     list_all (\<lambda>i. case i of None \<Rightarrow> True | Some v \<Rightarrow> valid_id v) [sPageID sc, sSectionID sc, sBlockID sc]"

definition bundle_valid :: "'e op_env \<Rightarrow> Bundle \<Rightarrow> bool" where
  "bundle_valid env b \<longleftrightarrow>
     buSchemaVersion b = ''1.0'' \<and> valid_id (buReportID b) \<and> \<not> buBaseRevision b < 0 \<and>
     buSource b \<in> {SourceUser, SourceAI, SourceImport, SourceSystem} \<and>
     \<not> (buOperations b = [] \<or> length (buOperations b) > MaxOperations) \<and>
     (if buSource b = SourceAI
      then buAIRunID b \<noteq> None \<and> buScope b \<noteq> None \<and> \<not> length (buOperations b) > MaxAIOperations
      else buAIRunID b = None) \<and>
     (case buAIRunID b of None \<Rightarrow> True | Some i \<Rightarrow> valid_id i) \<and>
     (case buScope b of None \<Rightarrow> True | Some sc \<Rightarrow> scope_valid sc) \<and>
     list_all (operation_valid env) (buOperations b)"

section \<open>The target index\<close>

record targetPath =
  tpPageID :: ID
  tpSectionID :: ID
  tpBlockID :: ID

type_synonym target_index = "ID \<Rightarrow> targetPath list"

definition addPath :: "target_index \<Rightarrow> ID \<Rightarrow> targetPath \<Rightarrow> target_index" where
  "addPath index i path =
     (if i = [] then index else if path \<in> set (index i) then index else index(i := index i @ [path]))"

text \<open>The paths of one block, one section, one page, in the order of the nested loops.\<close>

definition block_entries :: "targetPath \<Rightarrow> Block \<Rightarrow> (ID \<times> targetPath) list" where
  "block_entries path b = (bkID b, path) # concat (map (\<lambda>z. (znID z, path) # concat (map (\<lambda>s.
     (slID s, path) # (if slComponentID s \<noteq> [] then [(slComponentID s, path)] else [])) (znSlots z))) (bkZones b))"

definition section_entries :: "ID \<Rightarrow> Section \<Rightarrow> (ID \<times> targetPath) list" where
  "section_entries page s =
     (scID s, \<lparr> tpPageID = page, tpSectionID = scID s, tpBlockID = [] \<rparr>) #
     concat (map (\<lambda>b. block_entries \<lparr> tpPageID = page, tpSectionID = scID s, tpBlockID = bkID b \<rparr> b) (scBlocks s))"

definition page_entries :: "Page \<Rightarrow> (ID \<times> targetPath) list" where
  "page_entries p = (pgID p, \<lparr> tpPageID = pgID p, tpSectionID = [], tpBlockID = [] \<rparr>) #
     concat (map (section_entries (pgID p)) (pgSections p))"

definition no_path :: targetPath where
  "no_path = \<lparr> tpPageID = [], tpSectionID = [], tpBlockID = [] \<rparr>"

definition add_entries :: "(ID \<times> targetPath) list \<Rightarrow> target_index \<Rightarrow> target_index" where
  "add_entries es index = foldl (\<lambda>m (i, path). addPath m i path) index es"

definition pathsForFilter :: "GlobalFilter \<Rightarrow> target_index \<Rightarrow> targetPath list" where
  "pathsForFilter f index =
     (if fsType (gfScope f) = FilterScopeReport then [no_path]
      else concat (map index (fsTargetIDs (gfScope f))))"

definition add_filter :: "target_index \<Rightarrow> GlobalFilter \<Rightarrow> target_index" where
  "add_filter index f = add_entries (map (Pair (gfID f)) (pathsForFilter f index)) index"

definition add_interaction :: "target_index \<Rightarrow> Interaction \<Rightarrow> target_index" where
  "add_interaction index i = add_entries (map (Pair (inID i)) (index (inSourceComponentID i))) index"

definition buildTargetIndex :: "ReportDefinition \<Rightarrow> target_index" where
  "buildTargetIndex d =
     (let index0 = addPath (\<lambda>_. []) (mdID (rdMetadata d)) no_path;
          index1 = add_entries (concat (map page_entries (rdPages d))) index0;
          index2 = foldl add_filter index1 (rdGlobalFilters d)
      in foldl add_interaction index2 (rdInteractions d))"

section \<open>The guard\<close>

definition id_matches :: "ID option \<Rightarrow> ID \<Rightarrow> bool" where
  "id_matches wanted actual = (case wanted of None \<Rightarrow> True | Some i \<Rightarrow> actual = i)"

definition scope_contains :: "Scope \<Rightarrow> targetPath \<Rightarrow> bool" where
  "scope_contains sc path \<longleftrightarrow> id_matches (sPageID sc) (tpPageID path) \<and>
     id_matches (sSectionID sc) (tpSectionID path) \<and> id_matches (sBlockID sc) (tpBlockID path)"

definition containsExactAncestry :: "targetPath list \<Rightarrow> ID \<Rightarrow> ID option \<Rightarrow> ID \<Rightarrow> bool" where
  "containsExactAncestry paths page sec block = list_ex (\<lambda>path. tpPageID path = page \<and>
     id_matches sec (tpSectionID path) \<and> \<not> (block \<noteq> [] \<and> tpBlockID path \<noteq> block)) paths"

definition validateScope :: "ID \<Rightarrow> Scope \<Rightarrow> target_index \<Rightarrow> bool" where
  "validateScope page sc index =
     (if index page = [] then False
      else if (case sSectionID sc of None \<Rightarrow> False
        | Some s \<Rightarrow> index s = [] \<or> \<not> containsExactAncestry (index s) page (sSectionID sc) []) then False
      else (case sBlockID sc of None \<Rightarrow> True
        | Some b \<Rightarrow> \<not> (index b = [] \<or> \<not> containsExactAncestry (index b) page (sSectionID sc) b)))"

datatype guard_outcome = GuardPass | GuardNotAllowedForAI | GuardOutOfScope | GuardPanic

definition has_suffix :: "string \<Rightarrow> string \<Rightarrow> bool" where
  "has_suffix s t \<longleftrightarrow> length t \<le> length s \<and> drop (length s - length t) s = t"

definition needs_human :: "Payload \<Rightarrow> bool" where
  "needs_human p = (case p of TemplateApply _ \<Rightarrow> True | PageDelete \<Rightarrow> True | SectionDelete \<Rightarrow> True | _ \<Rightarrow> False)"

definition is_delete :: "Operation \<Rightarrow> bool" where
  "is_delete op = has_suffix (op_type (opPayload op)) ''_DELETE''"

definition blank_draft :: "ReportDefinition \<Rightarrow> bool" where
  "blank_draft d \<longleftrightarrow> (case rdPages d of [p] \<Rightarrow> pgSections p = [] | _ \<Rightarrow> False) \<and> rdComponents d = []"

fun guard_loop :: "Scope \<Rightarrow> ReportDefinition \<Rightarrow> target_index \<Rightarrow> Operation list \<Rightarrow> guard_outcome" where
  "guard_loop sc d index [] = GuardPass"
| "guard_loop sc d index (op # ops) = (case opPayload op of
     ReportCreate d' \<Rightarrow>
       (if opTargetID op \<noteq> mdID (rdMetadata d) \<or> mdID (rdMetadata d') \<noteq> mdID (rdMetadata d) \<or> \<not> blank_draft d
        then GuardNotAllowedForAI else guard_loop sc d index ops)
   | _ \<Rightarrow>
       (let paths = index (opTargetID op) in
        if paths = [] then GuardOutOfScope
        else if list_ex (\<lambda>path. \<not> scope_contains sc path) paths then GuardOutOfScope
        else guard_loop sc d index ops))"

definition GuardAI :: "Bundle \<Rightarrow> ReportDefinition option \<Rightarrow> guard_outcome" where
  "GuardAI bundle current =
     (if buSource bundle \<noteq> SourceAI then GuardPass
      else (case buScope bundle of
        None \<Rightarrow> GuardOutOfScope
      | Some sc \<Rightarrow>
         (if list_ex (\<lambda>op. needs_human (opPayload op)) (buOperations bundle) then GuardNotAllowedForAI
          else if length (filter is_delete (buOperations bundle)) > MaxAIDeleteOperations
          then GuardNotAllowedForAI
          else (case current of
            None \<Rightarrow> GuardOutOfScope
          | Some d \<Rightarrow>
             (if mdID (rdMetadata d) \<noteq> buReportID bundle then GuardOutOfScope
              else (case sPageID sc of
                None \<Rightarrow> GuardPanic
              | Some page \<Rightarrow>
                 (let index = buildTargetIndex d in
                  if \<not> validateScope page sc index then GuardOutOfScope
                  else guard_loop sc d index (buOperations bundle))))))))"

section \<open>The target index covers the structure\<close>

lemma addPath_mono: "path \<in> set (index i) \<Longrightarrow> path \<in> set (addPath index j q i)"
  by (auto simp: addPath_def)

lemma addPath_adds: "i \<noteq> [] \<Longrightarrow> path \<in> set (addPath index i path i)"
  by (simp add: addPath_def)

lemma add_entries_simps [simp]:
  "add_entries [] index = index"
  "add_entries (e # es) index = add_entries es (addPath index (fst e) (snd e))"
  by (simp_all add: add_entries_def case_prod_beta)

lemma add_entries_mono: "path \<in> set (index i) \<Longrightarrow> path \<in> set (add_entries es index i)"
  by (induction es arbitrary: index) (simp_all add: addPath_mono)

lemma add_entries_adds: "(i, path) \<in> set es \<Longrightarrow> i \<noteq> [] \<Longrightarrow> path \<in> set (add_entries es index i)"
  by (induction es arbitrary: index) (auto simp: add_entries_mono addPath_adds)

lemma foldl_add_filter_mono: "path \<in> set (index i) \<Longrightarrow> path \<in> set (foldl add_filter index fs i)"
  by (induction fs arbitrary: index) (simp_all add: add_filter_def add_entries_mono)

lemma foldl_add_interaction_mono: "path \<in> set (index i) \<Longrightarrow> path \<in> set (foldl add_interaction index xs i)"
  by (induction xs arbitrary: index) (simp_all add: add_interaction_def add_entries_mono)

lemma index_of_page:
  assumes "p \<in> set (rdPages d)" and "(i, path) \<in> set (page_entries p)" and "i \<noteq> []"
  shows "path \<in> set (buildTargetIndex d i)"
  unfolding buildTargetIndex_def Let_def using assms
  by (intro foldl_add_interaction_mono foldl_add_filter_mono add_entries_adds) auto

end
