(* ===== verification/ReportScope.thy ===== *)
theory ReportScope imports ReportGuard begin

text \<open>
  What the guard of \<open>ReportGuard\<close> guarantees about the operations of \<open>ReportOperation\<close>: the part
  of the pages outside the declared scope. \<open>outside\<close> cuts the scope out of the report; a
  change is confined when it leaves the rest as it is, up to the canonical order.
\<close>

section \<open>The part outside a scope\<close>

text \<open>
  At every level the elements that are not the scope's ancestor are kept whole, the ancestor
  itself is kept without its descendant in scope, and the scope itself is cut.
\<close>

definition cutout :: "('a \<Rightarrow> bool) \<Rightarrow> ('a \<Rightarrow> 'a) \<Rightarrow> 'a list \<Rightarrow> 'a list" where
  "cutout kept strip xs = map strip (filter kept xs)"

definition block_kept :: "Scope \<Rightarrow> Block \<Rightarrow> bool" where
  "block_kept sc b \<longleftrightarrow> sBlockID sc \<noteq> Some (bkID b)"

definition section_kept :: "Scope \<Rightarrow> Section \<Rightarrow> bool" where
  "section_kept sc s \<longleftrightarrow> sSectionID sc \<noteq> Some (scID s) \<or> sBlockID sc \<noteq> None"

definition section_strip :: "Scope \<Rightarrow> Section \<Rightarrow> Section" where
  "section_strip sc s = (if sSectionID sc = Some (scID s)
     then s\<lparr> scBlocks := cutout (block_kept sc) (\<lambda>b. b) (scBlocks s) \<rparr> else s)"

definition page_kept :: "Scope \<Rightarrow> Page \<Rightarrow> bool" where
  "page_kept sc p \<longleftrightarrow> sPageID sc \<noteq> Some (pgID p) \<or> sSectionID sc \<noteq> None"

definition page_strip :: "Scope \<Rightarrow> Page \<Rightarrow> Page" where
  "page_strip sc p = (if sPageID sc = Some (pgID p)
     then p\<lparr> pgSections := cutout (section_kept sc) (section_strip sc) (pgSections p) \<rparr> else p)"

definition outside :: "Scope \<Rightarrow> ReportDefinition \<Rightarrow> Page list" where
  "outside sc d = cutout (page_kept sc) (page_strip sc) (rdPages d)"

text \<open>The identifiers by which an operation can reach a part of the pages: those of its parts,
  and those of the components its slots show.\<close>

definition block_ids :: "Block \<Rightarrow> ID set" where
  "block_ids b = insert (bkID b) (\<Union>z\<in>set (bkZones b). insert (znID z) (slID ` set (znSlots z) \<union> slComponentID ` set (znSlots z)))"

definition section_ids :: "Section \<Rightarrow> ID set" where
  "section_ids s = insert (scID s) (\<Union> (block_ids ` set (scBlocks s)))"

definition page_ids :: "Page \<Rightarrow> ID set" where
  "page_ids p = insert (pgID p) (\<Union> (section_ids ` set (pgSections p)))"

definition outside_ids :: "Scope \<Rightarrow> ReportDefinition \<Rightarrow> ID set" where
  "outside_ids sc d = \<Union> (page_ids ` set (outside sc d))"

section \<open>Local changes keep what is cut around them\<close>

lemma at_first_cut:
  assumes "at_first g xs = Some (Inr ys)"
    and "\<And>x y. x \<in> set xs \<Longrightarrow> g x = Some (Inr y) \<Longrightarrow> kept y = kept x \<and> (kept x \<longrightarrow> strip y = strip x)"
  shows "cutout kept strip ys = cutout kept strip xs"
  using assms
proof (induction xs arbitrary: ys)
  case Nil
  then show ?case by simp
next
  case (Cons x xs)
  show ?case
  proof (cases "g x")
    case None
    with Cons.prems obtain zs where "at_first g xs = Some (Inr zs)" "ys = x # zs"
      by (auto split: option.splits sum.splits)
    with Cons show ?thesis by (auto simp: cutout_def)
  next
    case (Some r)
    with Cons.prems obtain y where "r = Inr y" "ys = y # xs" by (cases r) auto
    with Cons.prems(2) [of x y] Some show ?thesis by (auto simp: cutout_def)
  qed
qed

lemma cut_Cons [simp]: "cutout kept strip (x # xs) = (if kept x then strip x # cutout kept strip xs else cutout kept strip xs)"
  and cut_Nil [simp]: "cutout kept strip [] = []"
  by (simp_all add: cutout_def)

lemma cut_update:
  assumes "k < length xs" and "kept y = kept (xs ! k)" and "kept (xs ! k) \<longrightarrow> strip y = strip (xs ! k)"
  shows "cutout kept strip (xs[k := y]) = cutout kept strip xs"
  using assms by (induction xs arbitrary: k) (auto split: nat.splits simp: nth_Cons')

lemma cut_remove: "k < length xs \<Longrightarrow> \<not> kept (xs ! k) \<Longrightarrow> cutout kept strip (remove_at k xs) = cutout kept strip xs"
proof (induction xs arbitrary: k)
  case Nil
  then show ?case by simp
next
  case (Cons x xs)
  then show ?case by (cases k) (auto simp: remove_at_def)
qed

lemma cut_append: "\<not> kept y \<Longrightarrow> cutout kept strip (xs @ [y]) = cutout kept strip xs"
  by (simp add: cutout_def)


text \<open>
  A partial update hits an identifier when it applies only to elements that carry it. A
  block-level update that hits \<open>i\<close> and keeps the block's identifier is confined, and so are
  the updates built from it level by level.
\<close>

definition hits :: "('a \<Rightarrow> ID set) \<Rightarrow> ID \<Rightarrow> ('a \<Rightarrow> ('e + 'a) option) \<Rightarrow> bool" where
  "hits ids i g \<longleftrightarrow> (\<forall>x r. g x = Some r \<longrightarrow> i \<in> ids x)"

definition keeps :: "('a \<Rightarrow> 'b) \<Rightarrow> ('a \<Rightarrow> ('e + 'a) option) \<Rightarrow> bool" where
  "keeps key g \<longleftrightarrow> (\<forall>x y. g x = Some (Inr y) \<longrightarrow> key y = key x)"

definition confined :: "('a \<Rightarrow> bool) \<Rightarrow> ('a \<Rightarrow> 'a) \<Rightarrow> ('a \<Rightarrow> ID set) \<Rightarrow> ID \<Rightarrow> ('a \<Rightarrow> ('e + 'a) option) \<Rightarrow> bool" where
  "confined kept strip ids i g \<longleftrightarrow> (\<forall>x y. (kept x \<longrightarrow> i \<notin> ids (strip x)) \<longrightarrow> g x = Some (Inr y) \<longrightarrow>
     kept y = kept x \<and> (kept x \<longrightarrow> strip y = strip x))"

lemma at_first_hit: "at_first g xs = Some r \<Longrightarrow> \<exists>x\<in>set xs. \<exists>r'. g x = Some r'"
  by (induction xs arbitrary: r) (auto split: option.splits sum.splits)

lemma rebuild_Some: "rebuild put r = Some (Inr y) \<longleftrightarrow> (\<exists>v. r = Some (Inr v) \<and> y = put v)"
  by (auto simp: rebuild_def split: option.splits sum.splits)

lemma rebuild_None: "rebuild put r = None \<longleftrightarrow> r = None"
  by (auto simp: rebuild_def split: option.splits sum.splits)

lemma in_page_hits: "hits section_ids i g \<Longrightarrow> hits page_ids i (in_page g)"
  unfolding hits_def in_page_def page_ids_def
  by (auto simp: rebuild_def dest!: at_first_hit split: option.splits)

lemma in_section_hits: "hits block_ids i g \<Longrightarrow> hits section_ids i (in_section g)"
  unfolding hits_def in_section_def section_ids_def
  by (auto simp: rebuild_def dest!: at_first_hit split: option.splits)

lemma confined_cut:
  assumes "confined kept strip ids i g" and "at_first g xs = Some (Inr ys)"
    and "\<forall>x\<in>set (cutout kept strip xs). i \<notin> ids x"
  shows "cutout kept strip ys = cutout kept strip xs"
  using assms(2)
proof (rule at_first_cut)
  fix x y assume "x \<in> set xs" "g x = Some (Inr y)"
  moreover from this(1) have "kept x \<Longrightarrow> i \<notin> ids (strip x)" using assms(3) by (auto simp: cutout_def)
  ultimately show "kept y = kept x \<and> (kept x \<longrightarrow> strip y = strip x)"
    using assms(1) unfolding confined_def by blast
qed

lemma block_confined:
  assumes "hits block_ids i g" and "keeps bkID g"
  shows "confined (block_kept sc) (\<lambda>b. b) block_ids i g"
  using assms unfolding confined_def hits_def keeps_def block_kept_def by metis

lemma in_section_confined:
  assumes "confined (block_kept sc) (\<lambda>b. b) block_ids i g" and "hits block_ids i g"
  shows "confined (section_kept sc) (section_strip sc) section_ids i (in_section g)"
  unfolding confined_def
proof (intro allI impI)
  fix s s' assume out: "section_kept sc s \<longrightarrow> i \<notin> section_ids (section_strip sc s)"
    and "in_section g s = Some (Inr s')"
  then obtain bs where bs: "at_first g (scBlocks s) = Some (Inr bs)" "s' = s\<lparr> scBlocks := bs \<rparr>"
    by (auto simp: in_section_def rebuild_Some)
  have hit: "i \<in> section_ids s"
    using in_section_hits [OF assms(2)] \<open>in_section g s = _\<close> by (auto simp: hits_def)
  have "section_strip sc s' = section_strip sc s" if kept: "section_kept sc s"
  proof (cases "sSectionID sc = Some (scID s)")
    case True
    with out kept have "\<forall>b\<in>set (cutout (block_kept sc) (\<lambda>b. b) (scBlocks s)). i \<notin> block_ids b"
      by (auto simp: section_strip_def section_ids_def)
    from confined_cut [OF assms(1) bs(1) this] True bs(2) show ?thesis
      by (simp add: section_strip_def)
  next
    case False
    with out kept hit show ?thesis by (simp add: section_strip_def)
  qed
  with bs(2) show "section_kept sc s' = section_kept sc s \<and>
      (section_kept sc s \<longrightarrow> section_strip sc s' = section_strip sc s)"
    by (simp add: section_kept_def)
qed

lemma in_page_confined:
  assumes "confined (section_kept sc) (section_strip sc) section_ids i g" and "hits section_ids i g"
  shows "confined (page_kept sc) (page_strip sc) page_ids i (in_page g)"
  unfolding confined_def
proof (intro allI impI)
  fix p p' assume out: "page_kept sc p \<longrightarrow> i \<notin> page_ids (page_strip sc p)"
    and "in_page g p = Some (Inr p')"
  then obtain ss where ss: "at_first g (pgSections p) = Some (Inr ss)" "p' = p\<lparr> pgSections := ss \<rparr>"
    by (auto simp: in_page_def rebuild_Some)
  have hit: "i \<in> page_ids p"
    using in_page_hits [OF assms(2)] \<open>in_page g p = _\<close> by (auto simp: hits_def)
  have "page_strip sc p' = page_strip sc p" if kept: "page_kept sc p"
  proof (cases "sPageID sc = Some (pgID p)")
    case True
    with out kept have "\<forall>s\<in>set (cutout (section_kept sc) (section_strip sc) (pgSections p)). i \<notin> section_ids s"
      by (auto simp: page_strip_def page_ids_def)
    from confined_cut [OF assms(1) ss(1) this] True ss(2) show ?thesis
      by (simp add: page_strip_def)
  next
    case False
    with out kept hit show ?thesis by (simp add: page_strip_def)
  qed
  with ss(2) show "page_kept sc p' = page_kept sc p \<and> (page_kept sc p \<longrightarrow> page_strip sc p' = page_strip sc p)"
    by (simp add: page_kept_def)
qed

lemma on_pages_confined:
  assumes "confined (page_kept sc) (page_strip sc) page_ids i g"
    and "on_pages kind j g d = Inr d'" and "i \<notin> outside_ids sc d"
  shows "outside sc d' = outside sc d"
proof -
  from assms(2) obtain ps where ps: "at_first g (rdPages d) = Some (Inr ps)" "d' = d\<lparr> rdPages := ps \<rparr>"
    by (auto simp: on_pages_def split: option.splits sum.splits)
  have "\<forall>p\<in>set (cutout (page_kept sc) (page_strip sc) (rdPages d)). i \<notin> page_ids p"
    using assms(3) by (auto simp: outside_ids_def outside_def)
  from confined_cut [OF assms(1) ps(1) this] ps(2) show ?thesis by (simp add: outside_def)
qed


section \<open>The locators\<close>

lemma find_index_hit: "find_index (\<lambda>x. key x = i) xs = Some k \<Longrightarrow> k < length xs \<and> key (xs ! k) = i"
  using find_index_Some by fastforce

lemma zone_hits: "hits block_ids i (in_block (\<lambda>z. map_option (f z) (find_index (\<lambda>s. slID s = i) (znSlots z))))"
  unfolding hits_def in_block_def block_ids_def
  by (fastforce simp: rebuild_def dest!: at_first_hit find_index_hit split: option.splits)

lemma zone_of_hits:
  "hits block_ids i (\<lambda>b. in_block (\<lambda>z. map_option (f b z) (find_index (\<lambda>s. slID s = i) (znSlots z))) b)"
  using zone_hits unfolding hits_def by fast

lemma zone_of_keeps:
  "keeps bkID (\<lambda>b. in_block (\<lambda>z. map_option (f b z) (find_index (\<lambda>s. slID s = i) (znSlots z))) b)"
  unfolding keeps_def in_block_def by (auto simp: rebuild_Some)

lemma zone_of_confined: "confined (page_kept sc) (page_strip sc) page_ids i (zone_of i f)"
  unfolding zone_of_def
  by (intro in_page_confined in_section_confined in_section_hits block_confined zone_of_hits zone_of_keeps)

lemma block_of_confined:
  assumes "\<And>b k b'. f b k = Inr b' \<Longrightarrow> bkID b' = bkID b"
  shows "confined (page_kept sc) (page_strip sc) page_ids i (block_of i f)"
proof -
  let ?g = "\<lambda>b. map_option (f b) (find_index (\<lambda>z. znID z = i) (bkZones b))"
  have "hits block_ids i ?g"
    unfolding hits_def block_ids_def by (fastforce dest!: find_index_hit)
  moreover have "keeps bkID ?g" using assms by (auto simp: keeps_def)
  ultimately show ?thesis unfolding block_of_def
    by (intro in_page_confined in_section_confined in_section_hits block_confined)
qed

text \<open>A change of the list of blocks of a section that leaves the blocks outside the scope alone.\<close>

lemma section_of_confined:
  assumes "\<And>s k. k < length (scBlocks s) \<Longrightarrow> bkID (scBlocks s ! k) = i \<Longrightarrow> sBlockID sc = Some i \<Longrightarrow>
      cutout (block_kept sc) (\<lambda>b. b) (h s k) = cutout (block_kept sc) (\<lambda>b. b) (scBlocks s)"
  shows "confined (page_kept sc) (page_strip sc) page_ids i (section_of i (\<lambda>s k. Inr (s\<lparr> scBlocks := h s k \<rparr>)))"
proof -
  let ?g = "\<lambda>s. map_option (\<lambda>k. Inr (s\<lparr> scBlocks := h s k \<rparr>)) (find_index (\<lambda>b. bkID b = i) (scBlocks s))"
  have hits: "hits section_ids i ?g"
    unfolding hits_def section_ids_def block_ids_def by (fastforce dest!: find_index_hit)
  have "confined (section_kept sc) (section_strip sc) section_ids i ?g"
    unfolding confined_def
  proof (intro allI impI)
    fix s s' assume out: "section_kept sc s \<longrightarrow> i \<notin> section_ids (section_strip sc s)" and "?g s = Some (Inr s')"
    then obtain k where k: "k < length (scBlocks s)" "bkID (scBlocks s ! k) = i" "s' = s\<lparr> scBlocks := h s k \<rparr>"
      by (auto dest!: find_index_hit)
    have in_s: "i \<in> block_ids (scBlocks s ! k)" "scBlocks s ! k \<in> set (scBlocks s)"
      using k by (auto simp: block_ids_def)
    have "section_strip sc s' = section_strip sc s" if kept: "section_kept sc s"
    proof (cases "sSectionID sc = Some (scID s)")
      case True
      with out kept have "\<forall>b\<in>set (cutout (block_kept sc) (\<lambda>b. b) (scBlocks s)). i \<notin> block_ids b"
        by (auto simp: section_strip_def section_ids_def)
      with in_s have "\<not> block_kept sc (scBlocks s ! k)" by (auto simp: cutout_def)
      then have "sBlockID sc = Some i" using k(2) by (simp add: block_kept_def)
      from assms [OF k(1,2) this] True k(3) show ?thesis by (simp add: section_strip_def)
    next
      case False
      with out kept in_s show ?thesis by (auto simp: section_strip_def section_ids_def)
    qed
    with k(3) show "section_kept sc s' = section_kept sc s \<and>
        (section_kept sc s \<longrightarrow> section_strip sc s' = section_strip sc s)"
      by (simp add: section_kept_def)
  qed
  with hits show ?thesis unfolding section_of_def by (intro in_page_confined)
qed

lemma page_of_confined:
  assumes "\<And>p k. k < length (pgSections p) \<Longrightarrow> scID (pgSections p ! k) = i \<Longrightarrow> sSectionID sc = Some i \<Longrightarrow>
      sBlockID sc = None \<Longrightarrow>
      cutout (section_kept sc) (section_strip sc) (h p k) = cutout (section_kept sc) (section_strip sc) (pgSections p)"
  shows "confined (page_kept sc) (page_strip sc) page_ids i (page_of i (\<lambda>p k. Inr (p\<lparr> pgSections := h p k \<rparr>)))"
  unfolding confined_def
proof (intro allI impI)
  fix p p' assume out: "page_kept sc p \<longrightarrow> i \<notin> page_ids (page_strip sc p)"
    and "page_of i (\<lambda>p k. Inr (p\<lparr> pgSections := h p k \<rparr>)) p = Some (Inr p')"
  then obtain k where k: "k < length (pgSections p)" "scID (pgSections p ! k) = i" "p' = p\<lparr> pgSections := h p k \<rparr>"
    by (auto simp: page_of_def dest!: find_index_hit)
  let ?s = "pgSections p ! k"
  have in_p: "i \<in> section_ids ?s" "i \<in> section_ids (section_strip sc ?s)" "?s \<in> set (pgSections p)"
    using k by (auto simp: section_ids_def section_strip_def)
  have "page_strip sc p' = page_strip sc p" if kept: "page_kept sc p"
  proof (cases "sPageID sc = Some (pgID p)")
    case True
    with out kept have "\<forall>s\<in>set (cutout (section_kept sc) (section_strip sc) (pgSections p)). i \<notin> section_ids s"
      by (auto simp: page_strip_def page_ids_def)
    with in_p have "\<not> section_kept sc ?s" by (auto simp: cutout_def)
    then have "sSectionID sc = Some i" "sBlockID sc = None" using k(2) by (auto simp: section_kept_def)
    from assms [OF k(1,2) this] True k(3) show ?thesis by (simp add: page_strip_def)
  next
    case False
    with out kept in_p show ?thesis by (auto simp: page_strip_def page_ids_def)
  qed
  with k(3) show "page_kept sc p' = page_kept sc p \<and> (page_kept sc p \<longrightarrow> page_strip sc p' = page_strip sc p)"
    by (simp add: page_kept_def)
qed

lemma page_at_confined:
  assumes "\<And>p. pgID (f p) = pgID p"
  shows "confined (page_kept sc) (page_strip sc) page_ids i (page_at i (\<lambda>p. Inr (f p)))"
proof -
  have "i \<in> page_ids (page_strip sc p)" if "pgID p = i" for p
    using that by (simp add: page_strip_def page_ids_def)
  then show ?thesis unfolding confined_def page_at_def using assms by (auto simp: page_kept_def)
qed

section \<open>The operations\<close>

lemma update_page_outside:
  assumes "update_page i f d = Inr d'" and "i \<notin> outside_ids sc d" and "\<And>p. pgID (f p) = pgID p"
  shows "outside sc d' = outside sc d"
  using on_pages_confined [OF page_at_confined] assms unfolding update_page_def by blast

lemma update_section_outside:
  assumes "update_section i f d = Inr d'" and "i \<notin> outside_ids sc d" and "\<And>s. scID (f s) = scID s"
  shows "outside sc d' = outside sc d"
  using assms(1) unfolding update_section_def
  by (rule on_pages_confined [rotated, OF _ assms(2)])
    (intro page_of_confined cut_update, auto simp: section_kept_def assms(3))

lemma update_block_outside:
  assumes "update_block i f d = Inr d'" and "i \<notin> outside_ids sc d" and "\<And>b. bkID (f b) = bkID b"
  shows "outside sc d' = outside sc d"
  using assms(1) unfolding update_block_def
  by (rule on_pages_confined [rotated, OF _ assms(2)])
    (intro section_of_confined cut_update, auto simp: block_kept_def assms(3))

lemma update_zone_outside:
  assumes "update_zone i f d = Inr d'" and "i \<notin> outside_ids sc d"
  shows "outside sc d' = outside sc d"
  using assms(1) unfolding update_zone_def
  by (rule on_pages_confined [rotated, OF _ assms(2)]) (intro block_of_confined, auto)

lemma zone_of_outside:
  assumes "on_pages kind i (zone_of i f) d = Inr d'" and "i \<notin> outside_ids sc d"
  shows "outside sc d' = outside sc d"
  using on_pages_confined [OF zone_of_confined assms] .

lemma update_component_outside: "update_component i f d = Inr d' \<Longrightarrow> outside sc d' = outside sc d"
  by (auto simp: update_component_def outside_def split: option.splits)


text \<open>Replacing a component that no slot outside the scope shows.\<close>

definition replace_block :: "ID \<Rightarrow> ID \<Rightarrow> Block \<Rightarrow> Block" where
  "replace_block old new b = b\<lparr> bkZones := map (\<lambda>z.
     z\<lparr> znSlots := map (replace_in_slot old new) (znSlots z) \<rparr>) (bkZones b) \<rparr>"

definition replace_section :: "ID \<Rightarrow> ID \<Rightarrow> Section \<Rightarrow> Section" where
  "replace_section old new s = s\<lparr> scBlocks := map (replace_block old new) (scBlocks s) \<rparr>"

definition replace_page :: "ID \<Rightarrow> ID \<Rightarrow> Page \<Rightarrow> Page" where
  "replace_page old new p = p\<lparr> pgSections := map (replace_section old new) (pgSections p) \<rparr>"

lemma replaceSlotComponentID_pages:
  "replaceSlotComponentID old new d = d\<lparr> rdPages := map (replace_page old new) (rdPages d) \<rparr>"
  unfolding replaceSlotComponentID_def replace_page_def replace_section_def replace_block_def ..

lemma replace_keeps [simp]:
  "bkID (replace_block old new b) = bkID b" "scID (replace_section old new s) = scID s"
  "pgID (replace_page old new p) = pgID p"
  by (simp_all add: replace_block_def replace_section_def replace_page_def)

lemma replace_block_id:
  assumes "old \<notin> block_ids b" shows "replace_block old new b = b"
proof -
  have "map (replace_in_slot old new) (znSlots z) = znSlots z" if "z \<in> set (bkZones b)" for z
    using assms that by (intro map_idI) (auto simp: block_ids_def replace_in_slot_def)
  then have "map (\<lambda>z. z\<lparr> znSlots := map (replace_in_slot old new) (znSlots z) \<rparr>) (bkZones b) = bkZones b"
    by (intro map_idI) simp
  then show ?thesis by (simp add: replace_block_def)
qed

lemma replace_section_id:
  assumes "old \<notin> section_ids s" shows "replace_section old new s = s"
proof -
  have "map (replace_block old new) (scBlocks s) = scBlocks s"
    using assms by (intro map_idI) (auto simp: section_ids_def replace_block_id)
  then show ?thesis by (simp add: replace_section_def)
qed

lemma replace_page_id:
  assumes "old \<notin> page_ids p" shows "replace_page old new p = p"
proof -
  have "map (replace_section old new) (pgSections p) = pgSections p"
    using assms by (intro map_idI) (auto simp: page_ids_def replace_section_id)
  then show ?thesis by (simp add: replace_page_def)
qed

text \<open>A map that keeps what is kept and commutes with the cut below it.\<close>

lemma cut_map:
  assumes "\<And>x. kept (f x) = kept x" and "\<And>x. strip (f x) = f (strip x)"
  shows "cutout kept strip (map f xs) = map f (cutout kept strip xs)"
  by (induction xs) (simp_all add: assms)

lemma replace_section_strip: "section_strip sc (replace_section old new s) = replace_section old new (section_strip sc s)"
proof -
  have "cutout (block_kept sc) (\<lambda>b. b) (map (replace_block old new) bs) =
      map (replace_block old new) (cutout (block_kept sc) (\<lambda>b. b) bs)" for bs
    by (rule cut_map) (simp_all add: block_kept_def)
  then show ?thesis by (simp add: section_strip_def replace_section_def)
qed

lemma replace_page_strip: "page_strip sc (replace_page old new p) = replace_page old new (page_strip sc p)"
proof -
  have "cutout (section_kept sc) (section_strip sc) (map (replace_section old new) ss) =
      map (replace_section old new) (cutout (section_kept sc) (section_strip sc) ss)" for ss
    by (rule cut_map) (simp_all add: section_kept_def replace_section_strip)
  then show ?thesis by (simp add: page_strip_def replace_page_def)
qed

lemma replace_outside:
  assumes "old \<notin> outside_ids sc d"
  shows "outside sc (replaceSlotComponentID old new d) = outside sc d"
proof -
  have "outside sc (replaceSlotComponentID old new d) = map (replace_page old new) (outside sc d)"
    unfolding outside_def replaceSlotComponentID_pages
    by (simp, rule cut_map) (simp_all add: page_kept_def replace_page_strip)
  also have "\<dots> = outside sc d"
    using assms by (intro map_idI) (auto simp: outside_ids_def replace_page_id)
  finally show ?thesis .
qed


text \<open>What a page-level change may be under the guard, for the scope's level.\<close>

definition confined_op :: "Scope \<Rightarrow> Operation \<Rightarrow> bool" where
  "confined_op sc op \<longleftrightarrow> (case opPayload op of ReportCreate _ \<Rightarrow> False | PageCreate _ \<Rightarrow> False
     | BlockCopy _ \<Rightarrow> sBlockID sc = None | _ \<Rightarrow> \<not> needs_human (opPayload op))"

lemma map_result_Inr: "map_result f r = Inr y \<longleftrightarrow> (\<exists>v. r = Inr v \<and> y = f v)"
  by (auto simp: map_result_def split: sum.splits)

lemma outside_other [simp]:
  "outside sc (d\<lparr> rdComponents := cs \<rparr>) = outside sc d" "outside sc (d\<lparr> rdGlobalFilters := fs \<rparr>) = outside sc d"
  "outside sc (d\<lparr> rdInteractions := is \<rparr>) = outside sc d" "outside sc (d\<lparr> rdDataContexts := xs \<rparr>) = outside sc d"
  "outside sc (d\<lparr> rdThemeRef := t \<rparr>) = outside sc d" "outside sc (d\<lparr> rdTemplateRef := r \<rparr>) = outside sc d"
  "outside sc (d\<lparr> rdMetadata := m, rdRuntimePolicy := rp \<rparr>) = outside sc d"
  by (simp_all add: outside_def)

lemma outside_ids_components [simp]: "outside_ids sc (d\<lparr> rdComponents := cs \<rparr>) = outside_ids sc d"
  by (simp add: outside_ids_def)

lemma block_delete_outside:
  assumes "on_pages kind i (section_of i (\<lambda>s k. Inr (s\<lparr> scBlocks := remove_at k (scBlocks s) \<rparr>))) d = Inr d'"
    and "i \<notin> outside_ids sc d"
  shows "outside sc d' = outside sc d"
  using assms by (rule on_pages_confined [rotated]) (intro section_of_confined cut_remove, auto simp: block_kept_def)

lemma block_copy_outside:
  assumes "on_pages kind i (section_of i (\<lambda>s k. Inr (s\<lparr> scBlocks := h s k \<rparr>))) d = Inr d'"
    and "i \<notin> outside_ids sc d" and "sBlockID sc = None"
  shows "outside sc d' = outside sc d"
  using assms(1,2) by (rule on_pages_confined [rotated]) (intro section_of_confined, simp add: assms(3))

lemma zone_delete_outside:
  assumes "on_pages kind i (block_of i (\<lambda>b k. Inr (b\<lparr> bkZones := h b k \<rparr>))) d = Inr d'"
    and "i \<notin> outside_ids sc d"
  shows "outside sc d' = outside sc d"
  using assms by (rule on_pages_confined [rotated]) (intro block_of_confined, auto)

lemmas outside_rules = update_page_outside update_section_outside update_block_outside update_zone_outside
  zone_of_outside update_component_outside block_delete_outside block_copy_outside zone_delete_outside

lemma change_outside:
  assumes "change env d op = Inr d'" and "confined_op sc op" and "opTargetID op \<notin> outside_ids sc d"
  shows "outside sc d' = outside sc d"
proof (cases "opPayload op")
  case (ComponentReplace c)
  then show ?thesis using assms
    by (auto simp: change_def Let_def map_result_Inr replace_outside split: if_splits)
next
  case (BlockUpdate t title)
  then show ?thesis using assms
    by (auto simp: change_def elim!: update_block_outside split: option.splits)
qed (use assms in \<open>auto simp: change_def Let_def confined_op_def needs_human_def map_result_Inr update_slot_def set_desktop_def
   dest: outside_rules split: if_splits option.splits\<close>)

end
