(* ===== verification/ReportScopeProperties.thy ===== *)
theory ReportScopeProperties imports ReportScope begin

text \<open>
  The scope of a model's edit: a bundle that passes the guard leaves the pages outside its
  scope alone, while the guard does not look at what an operation does besides its target.
\<close>

section \<open>Sorting and the cut\<close>

lemma cutout_sort:
  assumes "\<And>x. kept (f x) = kept x" and "\<And>x. strip (f x) = f (strip x)" and "\<And>x. key (strip x) = key x"
  shows "cutout kept strip (map f (sort_slice (lt_on key) xs)) =
    map f (sort_slice (lt_on key) (cutout kept strip xs))"
proof -
  have "cutout kept strip (map f (sort_slice (lt_on key) xs)) =
      map f (cutout kept strip (sort_slice (lt_on key) xs))"
    by (rule cut_map) (simp_all add: assms)
  also have "cutout kept strip (sort_slice (lt_on key) xs) = sort_slice (lt_on key) (cutout kept strip xs)"
    unfolding cutout_def filter_sort_slice using assms(3) by (simp add: sort_slice_map)
  finally show ?thesis .
qed

lemma section_strip_sort: "section_strip sc (sort_section s) = sort_section (section_strip sc s)"
proof -
  have "cutout (block_kept sc) (\<lambda>b. b) (map sort_block (sort_slice (lt_on mobile_order) bs)) =
      map sort_block (sort_slice (lt_on mobile_order) (cutout (block_kept sc) (\<lambda>b. b) bs))" for bs
    by (rule cutout_sort) (simp_all add: block_kept_def)
  then show ?thesis by (simp add: section_strip_def sort_section_def)
qed

lemma page_strip_sort: "page_strip sc (sort_page p) = sort_page (page_strip sc p)"
proof -
  have "cutout (section_kept sc) (section_strip sc) (map sort_section (sort_slice (lt_on scOrder) ss)) =
      map sort_section (sort_slice (lt_on scOrder) (cutout (section_kept sc) (section_strip sc) ss))" for ss
    by (rule cutout_sort) (simp_all add: section_kept_def section_strip_sort, simp add: section_strip_def)
  then show ?thesis by (simp add: page_strip_def sort_page_def)
qed

definition sort_pages :: "Page list \<Rightarrow> Page list" where
  "sort_pages ps = map sort_page (sort_slice (lt_on pgOrder) ps)"

lemma outside_sort: "outside sc (sortDefinition d) = sort_pages (outside sc d)"
  unfolding outside_def sort_pages_def sortDefinition_def
  by (simp, rule cutout_sort) (simp_all add: page_kept_def page_strip_sort, simp add: page_strip_def)

lemma outside_sort_idem: "outside sc (sortDefinition (sortDefinition d)) = outside sc (sortDefinition d)"
  by (simp add: sortDefinition_id sortDefinition_canonical)

section \<open>Sorting keeps the identifiers\<close>

definition zone_shape :: "Zone \<Rightarrow> ID \<times> Slot list" where "zone_shape z = (znID z, znSlots z)"

lemma block_ids_shape:
  "block_ids b = insert (bkID b) (\<Union>(i, slots)\<in>zone_shape ` set (bkZones b).
     insert i (slID ` set slots \<union> slComponentID ` set slots))"
  by (auto simp: block_ids_def zone_shape_def)

lemma sort_block_shapes: "zone_shape ` set (bkZones (sort_block b)) = zone_shape ` set (bkZones b)"
proof -
  have "zone_shape ` set (bkZones (upgradeLegacyZoneOrders b)) = zone_shape ` set (bkZones b)"
  proof (cases "bkZones b = [] \<or> list_ex (\<lambda>z. znOrder z \<noteq> 0) (bkZones b)")
    case True
    then show ?thesis by (auto simp: upgradeLegacyZoneOrders_def)
  next
    case False
    have "map zone_shape (map (\<lambda>(index, z). z\<lparr> znOrder := int index + 1 \<rparr>) (enumerate n zs)) = map zone_shape zs"
      for zs and n :: nat
      by (induction zs arbitrary: n) (simp_all add: zone_shape_def)
    then have "zone_shape ` set (map (\<lambda>(index, z). z\<lparr> znOrder := int index + 1 \<rparr>) (enumerate 0 zs)) =
        zone_shape ` set zs" for zs by (metis list.set_map)
    with False show ?thesis by (simp add: upgradeLegacyZoneOrders_def Let_def del: set_map)
  qed
  then show ?thesis by (simp add: sort_block_def Let_def)
qed

lemma sort_ids [simp]:
  "block_ids (sort_block b) = block_ids b" "section_ids (sort_section s) = section_ids s"
  "page_ids (sort_page p) = page_ids p" "\<Union> (page_ids ` set (sort_pages ps)) = \<Union> (page_ids ` set ps)"
proof -
  show b: "block_ids (sort_block b) = block_ids b" for b
    unfolding block_ids_shape sort_block_shapes by simp
  show s: "section_ids (sort_section s) = section_ids s" for s
    unfolding section_ids_def by (simp add: sort_section_def image_image b)
  show p: "page_ids (sort_page p) = page_ids p" for p
    unfolding page_ids_def by (simp add: sort_page_def image_image s)
  show "\<Union> (page_ids ` set (sort_pages ps)) = \<Union> (page_ids ` set ps)"
    by (simp add: sort_pages_def image_image p)
qed

lemma applyOne_outside:
  assumes "applyOne env d op = Inr d'" and "confined_op sc op" and "opTargetID op \<notin> outside_ids sc d"
  shows "outside sc d' = outside sc (sortDefinition d)" and "outside_ids sc d' = outside_ids sc d"
proof -
  from assms(1) obtain d1 where d1: "change env d op = Inr d1" "d' = sortDefinition d1"
    by (auto simp: applyOne_def map_result_Inr)
  from change_outside [OF d1(1) assms(2,3)] d1(2)
  show "outside sc d' = outside sc (sortDefinition d)" by (simp add: outside_sort)
  then show "outside_ids sc d' = outside_ids sc d" by (simp add: outside_ids_def outside_sort)
qed

lemma apply_loop_outside:
  assumes "apply_loop env n d ops = Inr d'" and "ops \<noteq> []"
    and "\<forall>op\<in>set ops. confined_op sc op \<and> opTargetID op \<notin> outside_ids sc d"
  shows "outside sc d' = outside sc (sortDefinition d)"
  using assms
proof (induction ops arbitrary: n d)
  case Nil
  then show ?case by simp
next
  case (Cons op ops)
  then obtain d1 where d1: "applyOne env d op = Inr d1" "apply_loop env (n + 1) d1 ops = Inr d'"
    by (auto split: if_splits sum.splits)
  from Cons.prems have c: "confined_op sc op" "opTargetID op \<notin> outside_ids sc d" by auto
  note o = applyOne_outside [OF d1(1) c]
  show ?case
  proof (cases "ops = []")
    case True
    with d1 o show ?thesis by simp
  next
    case False
    with Cons.IH [OF d1(2) False] Cons.prems(3) o(2)
    have "outside sc d' = outside sc (sortDefinition d1)" by simp
    also have "\<dots> = outside sc (sortDefinition d)"
      using o(1) by (metis outside_sort outside_sort_idem)
    finally show ?thesis .
  qed
qed

section \<open>The guard puts every target inside\<close>

lemma block_entry: "i \<in> block_ids b \<Longrightarrow> i \<noteq> [] \<Longrightarrow> (i, path) \<in> set (block_entries path b)"
  by (auto simp: block_ids_def block_entries_def)

lemma block_entry_in_section:
  "b \<in> set (scBlocks s) \<Longrightarrow> i \<in> block_ids b \<Longrightarrow> i \<noteq> [] \<Longrightarrow>
     (i, \<lparr> tpPageID = page, tpSectionID = scID s, tpBlockID = bkID b \<rparr>) \<in> set (section_entries page s)"
  by (auto simp: section_entries_def intro: block_entry)

lemma section_entry:
  assumes "i \<in> section_ids s" and "i \<noteq> []"
  shows "\<exists>block. (i, \<lparr> tpPageID = page, tpSectionID = scID s, tpBlockID = block \<rparr>) \<in> set (section_entries page s)"
proof (cases "i = scID s")
  case True
  then show ?thesis by (auto simp: section_entries_def)
next
  case False
  with assms obtain b where "b \<in> set (scBlocks s)" "i \<in> block_ids b" by (auto simp: section_ids_def)
  with block_entry_in_section [OF this assms(2)] show ?thesis by blast
qed

lemma section_entry_in_page:
  "s \<in> set (pgSections p) \<Longrightarrow> e \<in> set (section_entries (pgID p) s) \<Longrightarrow> e \<in> set (page_entries p)"
  by (auto simp: page_entries_def)

lemma page_entry:
  assumes "i \<in> page_ids p" and "i \<noteq> []"
  shows "\<exists>sec block. (i, \<lparr> tpPageID = pgID p, tpSectionID = sec, tpBlockID = block \<rparr>) \<in> set (page_entries p)"
proof (cases "i = pgID p")
  case True
  then show ?thesis by (auto simp: page_entries_def)
next
  case False
  with assms obtain s where "s \<in> set (pgSections p)" "i \<in> section_ids s" by (auto simp: page_ids_def)
  with section_entry [OF this(2) assms(2), of "pgID p"] section_entry_in_page show ?thesis by blast
qed

text \<open>Whatever is outside the scope has a path in the index that the scope does not contain.\<close>

lemma outside_entry:
  assumes sc: "scope_valid sc" and p: "page_kept sc p" "i \<in> page_ids (page_strip sc p)" and i: "i \<noteq> []"
  shows "\<exists>path. (i, path) \<in> set (page_entries p) \<and> \<not> scope_contains sc path"
proof (cases "sPageID sc = Some (pgID p)")
  case False
  with p(2) have "i \<in> page_ids p" by (simp add: page_strip_def)
  from page_entry [OF this i] False sc show ?thesis
    by (fastforce simp: scope_contains_def id_matches_def scope_valid_def split: option.splits)
next
  case True
  with p(1) obtain sid where sid: "sSectionID sc = Some sid" by (auto simp: page_kept_def)
  with sc have "sid \<noteq> []" by (auto simp: scope_valid_def dest: valid_id_nonempty)
  show ?thesis
  proof (cases "i = pgID p")
    case True
    with sid \<open>sid \<noteq> []\<close> show ?thesis
      by (intro exI [of _ "\<lparr> tpPageID = pgID p, tpSectionID = [], tpBlockID = [] \<rparr>"])
        (auto simp: page_entries_def scope_contains_def id_matches_def)
  next
    case False
    with p(2) True obtain s where s: "s \<in> set (pgSections p)" "section_kept sc s" "i \<in> section_ids (section_strip sc s)"
      by (auto simp: page_strip_def page_ids_def cutout_def)
    have up: "(i, path) \<in> set (section_entries (pgID p) s) \<Longrightarrow> (i, path) \<in> set (page_entries p)" for path
      using s(1) by (rule section_entry_in_page)
    show ?thesis
    proof (cases "scID s = sid")
      case False
      with s(3) sid have "i \<in> section_ids s" by (simp add: section_strip_def split: if_splits)
      from section_entry [OF this i, of "pgID p"] obtain block where
        "(i, \<lparr> tpPageID = pgID p, tpSectionID = scID s, tpBlockID = block \<rparr>) \<in> set (section_entries (pgID p) s)" ..
      from up [OF this] False sid show ?thesis
        by (intro exI [of _ "\<lparr> tpPageID = pgID p, tpSectionID = scID s, tpBlockID = block \<rparr>"])
          (simp add: scope_contains_def id_matches_def)
    next
      case True
      with s(2) sid obtain bid where bid: "sBlockID sc = Some bid" by (auto simp: section_kept_def)
      with sc have "bid \<noteq> []" by (auto simp: scope_valid_def dest: valid_id_nonempty)
      show ?thesis
      proof (cases "i = scID s")
        case True
        have "(i, \<lparr> tpPageID = pgID p, tpSectionID = scID s, tpBlockID = [] \<rparr>) \<in> set (section_entries (pgID p) s)"
          by (simp add: section_entries_def True)
        from up [OF this] bid \<open>bid \<noteq> []\<close> show ?thesis
          by (intro exI [of _ "\<lparr> tpPageID = pgID p, tpSectionID = scID s, tpBlockID = [] \<rparr>"])
            (simp add: scope_contains_def id_matches_def)
      next
        case False
        with s(3) True sid obtain b where b: "b \<in> set (scBlocks s)" "bkID b \<noteq> bid" "i \<in> block_ids b"
          using bid by (auto simp: section_strip_def section_ids_def cutout_def block_kept_def)
        from up [OF block_entry_in_section [OF b(1,3) i]] b(2) bid show ?thesis
          by (auto simp: scope_contains_def id_matches_def)
      qed
    qed
  qed
qed

lemma guard_loop_pass:
  "guard_loop sc d index ops = GuardPass \<Longrightarrow> op \<in> set ops \<Longrightarrow> (\<forall>d'. opPayload op \<noteq> ReportCreate d') \<Longrightarrow>
     index (opTargetID op) \<noteq> [] \<and> (\<forall>path\<in>set (index (opTargetID op)). scope_contains sc path)"
proof (induction ops)
  case Nil
  then show ?case by simp
next
  case (Cons op1 ops)
  have rest: "guard_loop sc d index ops = GuardPass"
    using Cons.prems(1) by (auto simp: Let_def split: Payload.splits if_splits)
  show ?case
  proof (cases "op = op1")
    case True
    with Cons.prems show ?thesis by (auto simp: Let_def list_ex_iff split: Payload.splits if_splits)
  next
    case False
    with Cons.prems Cons.IH [OF rest] show ?thesis by simp
  qed
qed


lemma guard_pass_parts:
  assumes "GuardAI b (Some d) = GuardPass" and "buSource b = SourceAI"
  obtains sc page where "buScope b = Some sc" "sPageID sc = Some page"
    "mdID (rdMetadata d) = buReportID b" "validateScope page sc (buildTargetIndex d)"
    "\<forall>op\<in>set (buOperations b). \<not> needs_human (opPayload op)"
    "guard_loop sc d (buildTargetIndex d) (buOperations b) = GuardPass"
  using assms by (auto simp: GuardAI_def Let_def list_ex_iff split: option.splits if_splits)

lemma guarded_target_inside:
  assumes "GuardAI b (Some d) = GuardPass" and "buSource b = SourceAI" and "buScope b = Some sc"
    and "scope_valid sc" and "op \<in> set (buOperations b)" and "\<forall>d'. opPayload op \<noteq> ReportCreate d'"
    and "valid_id (opTargetID op)"
  shows "opTargetID op \<notin> outside_ids sc d"
proof
  assume "opTargetID op \<in> outside_ids sc d"
  then obtain p where p: "p \<in> set (rdPages d)" "page_kept sc p" "opTargetID op \<in> page_ids (page_strip sc p)"
    by (auto simp: outside_ids_def outside_def cutout_def)
  have ne: "opTargetID op \<noteq> []" using assms(7) by (rule valid_id_nonempty)
  from outside_entry [OF assms(4) p(2,3) ne] obtain path
    where path: "(opTargetID op, path) \<in> set (page_entries p)" "\<not> scope_contains sc path" by blast
  from index_of_page [OF p(1) path(1) ne] have "path \<in> set (buildTargetIndex d (opTargetID op))" .
  moreover obtain page where "guard_loop sc d (buildTargetIndex d) (buOperations b) = GuardPass"
    using guard_pass_parts [OF assms(1,2)] assms(3) by (metis option.inject)
  ultimately show False using guard_loop_pass assms(5,6) path(2) by blast
qed

section \<open>The properties\<close>

text \<open>C30: A model's edit stays in its scope: when the guard passes a valid AI bundle that creates
  no page, no report and (below a block scope) no copy of the block, applying it leaves every
  page outside the declared page untouched, in a section or block scope also the other
  sections and blocks of that page, up to the canonical order that sorting gives anyway.\<close>

theorem guarded_edit_stays_in_scope:
  assumes guard: "GuardAI b (Some d) = GuardPass" and ai: "buSource b = SourceAI" "buScope b = Some sc"
    and valid: "bundle_valid env b" and clone: "envClone env d = Inr d"
    and ops: "\<forall>op\<in>set (buOperations b). case opPayload op of ReportCreate _ \<Rightarrow> False | PageCreate _ \<Rightarrow> False
       | BlockCopy _ \<Rightarrow> sBlockID sc = None | _ \<Rightarrow> True"
    and run: "Apply env d (buOperations b) = (d', None)"
  shows "outside sc d' = outside sc (sortDefinition d)"
proof -
  from run clone have loop: "apply_loop env 0 d (buOperations b) = Inr d'"
    by (auto simp: Apply_def split: sum.splits)
  from valid ai have sc: "scope_valid sc" and ne: "buOperations b \<noteq> []"
    and targets: "\<forall>op\<in>set (buOperations b). valid_id (opTargetID op)"
    by (auto simp: bundle_valid_def operation_valid_def list_all_iff)
  from guard_pass_parts [OF guard ai(1)] have human: "\<forall>op\<in>set (buOperations b). \<not> needs_human (opPayload op)" .
  have "confined_op sc op \<and> opTargetID op \<notin> outside_ids sc d" if op: "op \<in> set (buOperations b)" for op
  proof
    show "confined_op sc op"
      using ops human op unfolding confined_op_def by (fastforce split: Payload.splits)
    show "opTargetID op \<notin> outside_ids sc d"
      using ops op targets by (intro guarded_target_inside [OF guard ai sc op]) fastforce+
  qed
  then show ?thesis by (intro apply_loop_outside [OF loop ne]) blast
qed

definition sample_bundle :: Bundle where
  "sample_bundle = \<lparr> buSchemaVersion = ''1.0'', buReportID = ''report'', buBaseRevision = 3, buSource = SourceAI,
     buAIRunID = Some ''run-1'', buScope = Some \<lparr> sPageID = Some ''p'', sSectionID = None, sBlockID = None \<rparr>,
     buOperations = [\<lparr> opTargetID = ''b1'', opPayload = BlockMove 6 0 \<rparr>] \<rparr>"

theorem guarded_edit_stays_in_scope_witness:
  "outside \<lparr> sPageID = Some ''p'', sSectionID = None, sBlockID = None \<rparr>
     (fst (Apply sample_env sample_report (buOperations sample_bundle))) =
   outside \<lparr> sPageID = Some ''p'', sSectionID = None, sBlockID = None \<rparr> (sortDefinition sample_report)"
proof -
  have g: "GuardAI sample_bundle (Some sample_report) = GuardPass" by code_simp
  have v: "bundle_valid sample_env sample_bundle" by code_simp
  have r: "snd (Apply sample_env sample_report (buOperations sample_bundle)) = None" by code_simp
  then have "Apply sample_env sample_report (buOperations sample_bundle) =
      (fst (Apply sample_env sample_report (buOperations sample_bundle)), None)" by (metis prod.collapse)
  from guarded_edit_stays_in_scope [OF g _ _ v _ _ this] show ?thesis
    by (simp add: sample_bundle_def sample_env_def)
qed

text \<open>The guard looks at targets only: once it lets one operation of an AI bundle through, it
  lets any other operation on that target through that is not one of the three kinds kept for
  humans and no whole-report creation, and some of those change the report outside any scope:
  the metadata and runtime policy, the theme, or the number of pages.\<close>

theorem guard_checks_targets_only:
  assumes guard: "GuardAI b (Some d) = GuardPass" and ai: "buSource b = SourceAI"
    and op: "op \<in> set (buOperations b)" "\<forall>d'. opPayload op \<noteq> ReportCreate d'" "operation_valid env op"
    and clone: "envClone env d = Inr d"
  shows "(\<forall>p. \<not> needs_human p \<and> (\<forall>d'. p \<noteq> ReportCreate d') \<longrightarrow>
       GuardAI (b\<lparr> buOperations := [\<lparr> opTargetID = opTargetID op, opPayload = p \<rparr>] \<rparr>) (Some d) = GuardPass) \<and>
     Apply env d [\<lparr> opTargetID = opTargetID op, opPayload = ReportSettingsUpdate m rp \<rparr>] =
       (sortDefinition (d\<lparr> rdMetadata := m, rdRuntimePolicy := rp \<rparr>), None) \<and>
     Apply env d [\<lparr> opTargetID = opTargetID op, opPayload = ThemeUpdate t \<rparr>] =
       (sortDefinition (d\<lparr> rdThemeRef := t \<rparr>), None) \<and>
     (valid_id (pgID q) \<longrightarrow> Apply env d [\<lparr> opTargetID = opTargetID op, opPayload = PageCreate q \<rparr>] =
       (sortDefinition (d\<lparr> rdPages := rdPages d @ [q] \<rparr>), None))"
proof -
  obtain sc page where sc: "buScope b = Some sc" "sPageID sc = Some page"
    "mdID (rdMetadata d) = buReportID b" "validateScope page sc (buildTargetIndex d)"
    "guard_loop sc d (buildTargetIndex d) (buOperations b) = GuardPass"
    using guard_pass_parts [OF guard ai] by metis
  let ?paths = "buildTargetIndex d (opTargetID op)"
  have "?paths \<noteq> []" and "\<forall>path\<in>set ?paths. scope_contains sc path"
    using guard_loop_pass [OF sc(5) op(1,2)] by blast+
  then have "guard_loop sc d (buildTargetIndex d) [\<lparr> opTargetID = opTargetID op, opPayload = p \<rparr>] = GuardPass"
    if "\<forall>d'. p \<noteq> ReportCreate d'" for p
    using that by (auto simp: Let_def list_ex_iff split: Payload.splits)
  then have "GuardAI (b\<lparr> buOperations := [\<lparr> opTargetID = opTargetID op, opPayload = p \<rparr>] \<rparr>) (Some d) = GuardPass"
    if "\<not> needs_human p" "\<forall>d'. p \<noteq> ReportCreate d'" for p
    using that sc ai by (simp add: GuardAI_def MaxAIDeleteOperations_def)
  moreover have "valid_id (opTargetID op)" using op(3) by (simp add: operation_valid_def)
  ultimately show ?thesis using clone
    by (simp add: Apply_def operation_valid_def payload_valid_def applyOne_def change_def map_result_def)
qed


theorem guard_checks_targets_only_witness:
  "Apply sample_env sample_report [\<lparr> opTargetID = ''b1'', opPayload = ThemeUpdate \<lparr> thThemeID = ''dark'', thVersion = ''2.0.0'' \<rparr> \<rparr>] =
     (sortDefinition (sample_report\<lparr> rdThemeRef := \<lparr> thThemeID = ''dark'', thVersion = ''2.0.0'' \<rparr> \<rparr>), None)"
proof -
  have g: "GuardAI sample_bundle (Some sample_report) = GuardPass" by code_simp
  have o: "\<lparr> opTargetID = ''b1'', opPayload = BlockMove 6 0 \<rparr> \<in> set (buOperations sample_bundle)"
    by (simp add: sample_bundle_def)
  have v: "operation_valid sample_env \<lparr> opTargetID = ''b1'', opPayload = BlockMove 6 0 \<rparr>" by code_simp
  show ?thesis
    using guard_checks_targets_only [OF g _ o _ v, of "rdMetadata sample_report" "rdRuntimePolicy sample_report"]
    by (simp add: sample_bundle_def sample_env_def)
qed

end
