(* ===== verification/ReportUndo.thy ===== *)
theory ReportUndo imports ReportApply begin

text \<open>
  Undo of operations, \<open>internal/report/operation/inverse.go\<close>: \<open>Invert\<close> derives from the
  definition before an operation the operation that takes it back, \<open>InvertBundle\<close> those of a
  bundle in reverse order. A pointer the code reads is the value it points to, with its
  parents, found by the same nested loops.
\<close>

section \<open>Reading the target\<close>

fun first_of :: "('a \<Rightarrow> 'b option) \<Rightarrow> 'a list \<Rightarrow> 'b option" where
  "first_of get [] = None"
| "first_of get (x # xs) = (case get x of None \<Rightarrow> first_of get xs | Some v \<Rightarrow> Some v)"

definition find_id :: "('a \<Rightarrow> ID) \<Rightarrow> ID \<Rightarrow> 'a list \<Rightarrow> 'a option" where
  "find_id key i xs = map_option (nth xs) (find_index (\<lambda>x. key x = i) xs)"

definition pageByID :: "ID \<Rightarrow> ReportDefinition \<Rightarrow> Page option" where
  "pageByID i d = first_of (\<lambda>p. if pgID p = i then Some p else None) (rdPages d)"

definition sectionByID :: "ID \<Rightarrow> ReportDefinition \<Rightarrow> (Page \<times> Section) option" where
  "sectionByID i d = first_of (\<lambda>p. map_option (Pair p) (find_id scID i (pgSections p))) (rdPages d)"

definition blockByID :: "ID \<Rightarrow> ReportDefinition \<Rightarrow> (Page \<times> Section \<times> Block) option" where
  "blockByID i d = first_of (\<lambda>p. first_of (\<lambda>s. map_option (\<lambda>b. (p, s, b)) (find_id bkID i (scBlocks s)))
     (pgSections p)) (rdPages d)"

definition zoneByID :: "ID \<Rightarrow> ReportDefinition \<Rightarrow> (Page \<times> Section \<times> Block \<times> Zone) option" where
  "zoneByID i d = first_of (\<lambda>p. first_of (\<lambda>s. first_of (\<lambda>b.
     map_option (\<lambda>z. (p, s, b, z)) (find_id znID i (bkZones b))) (scBlocks s)) (pgSections p)) (rdPages d)"

definition slotValueByID :: "ID \<Rightarrow> ReportDefinition \<Rightarrow> (Page \<times> Section \<times> Block \<times> Zone \<times> Slot) option" where
  "slotValueByID i d = first_of (\<lambda>p. first_of (\<lambda>s. first_of (\<lambda>b. first_of (\<lambda>z.
     map_option (\<lambda>v. (p, s, b, z, v)) (find_id slID i (znSlots z))) (bkZones b)) (scBlocks s))
     (pgSections p)) (rdPages d)"

definition componentByID :: "ID \<Rightarrow> ReportDefinition \<Rightarrow> Component option" where
  "componentByID i d = find_id cpID i (rdComponents d)"

fun slotsByID :: "ReportDefinition \<Rightarrow> ID list \<Rightarrow> (ID + Slot list)" where
  "slotsByID d [] = Inr []"
| "slotsByID d (i # is) = (case slotValueByID i d of
     None \<Rightarrow> Inl i
   | Some (_, _, _, _, v) \<Rightarrow> (case slotsByID d is of Inl e \<Rightarrow> Inl e | Inr vs \<Rightarrow> Inr (v # vs)))"

section \<open>Inverses\<close>

datatype 'e invert_error = InvertInvalidOperation | InvertClone 'e | InvertMissing string ID
  | InvertInvalidInverse

definition inverse_of :: "string \<Rightarrow> ID \<Rightarrow> 'a option \<Rightarrow> ('a \<Rightarrow> Operation) \<Rightarrow> 'e invert_error + Operation" where
  "inverse_of kind i found build = (case found of None \<Rightarrow> Inl (InvertMissing kind i) | Some v \<Rightarrow> Inr (build v))"

definition make_op :: "ID \<Rightarrow> Payload \<Rightarrow> Operation" where
  "make_op i p = \<lparr> opTargetID = i, opPayload = p \<rparr>"

text \<open>The switch of \<open>Invert\<close>.\<close>

definition invert_payload :: "ReportDefinition \<Rightarrow> Operation \<Rightarrow> 'e invert_error + Operation" where
  "invert_payload before op = (let target = opTargetID op; report = mdID (rdMetadata before);
       component = componentByID target before in
     case opPayload op of
       ReportCreate _ \<Rightarrow> Inr (make_op report (ReportCreate before))
     | ReportSettingsUpdate _ _ \<Rightarrow>
         Inr (make_op report (ReportSettingsUpdate (rdMetadata before) (rdRuntimePolicy before)))
     | TemplateApply _ \<Rightarrow> Inr (make_op report (ReportCreate before))
     | ThemeUpdate _ \<Rightarrow> Inr (make_op report (ReportCreate before))
     | PageCreate p \<Rightarrow> Inr (make_op (pgID p) PageDelete)
     | PageUpdate _ \<Rightarrow> inverse_of ''page'' target (pageByID target before)
         (\<lambda>p. make_op (pgID p) (PageUpdate (pgName p)))
     | PageDelete \<Rightarrow> inverse_of ''page'' target (pageByID target before) (\<lambda>p. make_op report (PageCreate p))
     | PageReorder _ \<Rightarrow> inverse_of ''page'' target (pageByID target before)
         (\<lambda>p. make_op (pgID p) (PageReorder (pgOrder p)))
     | SectionCreate s \<Rightarrow> Inr (make_op (scID s) SectionDelete)
     | SectionUpdate _ \<Rightarrow> inverse_of ''section'' target (sectionByID target before)
         (\<lambda>(p, s). make_op (scID s) (SectionUpdate (scName s)))
     | SectionDelete \<Rightarrow> inverse_of ''section'' target (sectionByID target before)
         (\<lambda>(p, s). make_op (pgID p) (SectionCreate s))
     | SectionReorder _ \<Rightarrow> inverse_of ''section'' target (sectionByID target before)
         (\<lambda>(p, s). make_op (scID s) (SectionReorder (scOrder s)))
     | BlockCreate b \<Rightarrow> Inr (make_op (bkID b) BlockDelete)
     | BlockMove _ _ \<Rightarrow> inverse_of ''block'' target (blockByID target before)
         (\<lambda>(p, s, b). make_op (bkID b) (BlockMove (dbX (blDesktop (bkLayout b))) (dbY (blDesktop (bkLayout b)))))
     | BlockResize _ _ \<Rightarrow> inverse_of ''block'' target (blockByID target before)
         (\<lambda>(p, s, b). make_op (bkID b) (BlockResize (dbW (blDesktop (bkLayout b))) (dbH (blDesktop (bkLayout b)))))
     | BlockUpdate _ _ \<Rightarrow> inverse_of ''block'' target (blockByID target before)
         (\<lambda>(p, s, b). make_op (bkID b) (BlockUpdate (bkType b) (Some (bkTitle b))))
     | BlockCopy newID \<Rightarrow> Inr (make_op newID BlockDelete)
     | BlockDelete \<Rightarrow> inverse_of ''block'' target (blockByID target before)
         (\<lambda>(p, s, b). make_op (scID s) (BlockCreate b))
     | ZoneCreate z \<Rightarrow> Inr (make_op (znID z) ZoneDelete)
     | ZoneUpdate _ _ \<Rightarrow> inverse_of ''zone'' target (zoneByID target before)
         (\<lambda>(p, s, b, z). make_op (znID z) (ZoneUpdate (znType z) (znLayout z)))
     | ZoneDelete \<Rightarrow> inverse_of ''zone'' target (zoneByID target before)
         (\<lambda>(p, s, b, z). make_op (bkID b) (ZoneCreate z))
     | ZoneReorder _ \<Rightarrow> inverse_of ''zone'' target (zoneByID target before)
         (\<lambda>(p, s, b, z). make_op (znID z) (ZoneReorder (znOrder z)))
     | SlotCreate v \<Rightarrow> Inr (make_op (slID v) SlotDelete)
     | SlotMerge ids newSlot _ \<Rightarrow> (case slotsByID before ids of
           Inl i \<Rightarrow> Inl (InvertMissing ''slot'' i)
         | Inr originals \<Rightarrow> Inr (make_op (slID newSlot) (SlotSplit originals)))
     | SlotSplit slots \<Rightarrow> inverse_of ''slot'' target (slotValueByID target before)
         (\<lambda>(p, s, b, z, v). make_op (hd (map slID slots)) (SlotMerge (map slID slots) v True))
     | SlotUpdate _ _ \<Rightarrow> inverse_of ''slot'' target (slotValueByID target before)
         (\<lambda>(p, s, b, z, v). make_op (slID v) (SlotUpdate (slGrid v) (slComponentID v)))
     | SlotDelete \<Rightarrow> inverse_of ''slot'' target (slotValueByID target before)
         (\<lambda>(p, s, b, z, v). make_op (znID z) (SlotCreate v))
     | ComponentCreate c \<Rightarrow> Inr (make_op (cpID c) ComponentDelete)
     | ComponentUpdate _ \<Rightarrow> inverse_of ''component'' target component
         (\<lambda>c. make_op (cpID c) (ComponentUpdate (cpOptions c)))
     | ComponentReplace r \<Rightarrow> inverse_of ''component'' target component
         (\<lambda>c. make_op (cpID r) (ComponentReplace c))
     | ComponentCopy newID \<Rightarrow> Inr (make_op newID ComponentDelete)
     | ComponentDelete \<Rightarrow> inverse_of ''component'' target component (\<lambda>c. make_op report (ComponentCreate c))
     | DataBindingUpdate _ _ \<Rightarrow> inverse_of ''component'' target component
         (\<lambda>c. make_op (cpID c) (DataBindingUpdate
            (if cpDataBinding c \<noteq> None then DataBindingSet else DataBindingClear) (cpDataBinding c)))
     | DataContextCreate c \<Rightarrow> Inr (make_op (dxID c) DataContextDelete)
     | DataContextDelete \<Rightarrow> inverse_of ''data context'' target (find_id dxID target (rdDataContexts before))
         (\<lambda>c. make_op report (DataContextCreate c))
     | FilterCreate f \<Rightarrow> Inr (make_op (gfID f) FilterDelete)
     | FilterUpdate _ \<Rightarrow> inverse_of ''filter'' target (find_id gfID target (rdGlobalFilters before))
         (\<lambda>f. make_op target (FilterUpdate f))
     | FilterDelete \<Rightarrow> inverse_of ''filter'' target (find_id gfID target (rdGlobalFilters before))
         (\<lambda>f. make_op report (FilterCreate f))
     | InteractionCreate i \<Rightarrow> Inr (make_op (inID i) InteractionDelete)
     | InteractionUpdate _ \<Rightarrow> inverse_of ''interaction'' target (find_id inID target (rdInteractions before))
         (\<lambda>i. make_op target (InteractionUpdate i))
     | InteractionDelete \<Rightarrow> inverse_of ''interaction'' target (find_id inID target (rdInteractions before))
         (\<lambda>i. make_op report (InteractionCreate i))
     | InsightUpdate _ _ \<Rightarrow> inverse_of ''component'' target component
         (\<lambda>c. make_op (cpID c) (ComponentUpdate (cpOptions c)))
     | InsightRegenerate e m v \<Rightarrow> Inr (make_op target (InsightRegenerate e m v)))"

definition Invert :: "'e op_env \<Rightarrow> Operation \<Rightarrow> ReportDefinition \<Rightarrow> 'e invert_error + Operation" where
  "Invert env op beforeDefinition =
     (if \<not> operation_valid env op then Inl InvertInvalidOperation
      else (case envClone env beforeDefinition of
        Inl e \<Rightarrow> Inl (InvertClone e)
      | Inr before \<Rightarrow> (case invert_payload before op of
          Inl e \<Rightarrow> Inl e
        | Inr result \<Rightarrow> if operation_valid env result then Inr result else Inl InvertInvalidInverse)))"

text \<open>
  \<open>InvertBundle\<close> records the state before every operation, then inverts them last first.
\<close>

datatype 'e bundle_error = BundleApply "'e apply_failure" | BundleInvert nat "'e invert_error"

fun bundle_states :: "'e op_env \<Rightarrow> ReportDefinition \<Rightarrow> Operation list \<Rightarrow>
    'e apply_failure + (Operation \<times> ReportDefinition) list" where
  "bundle_states env d [] = Inr []"
| "bundle_states env d (op # ops) = (case Apply env d [op] of
     (_, Some e) \<Rightarrow> Inl e
   | (d', None) \<Rightarrow> (case bundle_states env d' ops of
       Inl e \<Rightarrow> Inl e | Inr states \<Rightarrow> Inr ((op, d) # states)))"

fun invert_states :: "'e op_env \<Rightarrow> (Operation \<times> ReportDefinition) list \<Rightarrow> 'e bundle_error + Operation list" where
  "invert_states env [] = Inr []"
| "invert_states env ((op, d) # rest) = (case Invert env op d of
     Inl e \<Rightarrow> Inl (BundleInvert (length rest) e)
   | Inr result \<Rightarrow> (case invert_states env rest of Inl e \<Rightarrow> Inl e | Inr invs \<Rightarrow> Inr (result # invs)))"

definition InvertBundle :: "'e op_env \<Rightarrow> Operation list \<Rightarrow> ReportDefinition \<Rightarrow> 'e bundle_error + Operation list" where
  "InvertBundle env ops before = (case bundle_states env before ops of
     Inl e \<Rightarrow> Inl (BundleApply e) | Inr states \<Rightarrow> invert_states env (rev states))"

end
