(* ===== verification/ReportUndoCreate.thy ===== *)
theory ReportUndoCreate imports ReportUndo begin

text \<open>
  Additions inside the pages of a report are taken back exactly: the new element is appended, the
  definition is sorted, and the deletion of an element with a fresh identifier leaves what there was
  before. A deletion is described as a filter, which commutes with stable sorting.
\<close>

section \<open>Sorting and filtering\<close>

lemma sort_map_key: "(\<And>x. key (f x) = key x) \<Longrightarrow> map f (sort_slice (lt_on key) xs) = sort_slice (lt_on key) (map f xs)"
  by (rule sort_slice_map [symmetric]) (simp add: lt_on_def)

text \<open>Children \<open>xs\<close> are sorted by \<open>key\<close> and each by \<open>S\<close>; \<open>f\<close> takes something out of each of them.\<close>

lemma sorted_map:
  assumes "\<And>x. key (f x) = key x" "\<And>x. x \<in> set xs \<Longrightarrow> f (S x) = f x" "sorted_by (lt_on key) (map f xs)"
  shows "map f (map S (sort_slice (lt_on key) xs)) = map f xs"
proof -
  have "map f (map S (sort_slice (lt_on key) xs)) = map f (sort_slice (lt_on key) xs)" using assms(2) by simp
  also have "\<dots> = map f xs" by (simp only: sort_map_key [of key f, OF assms(1)] sort_slice_id [OF assms(3)])
  finally show ?thesis .
qed

lemma sorted_filter:
  assumes "\<And>x. name (S x) = name x" "\<And>x. x \<in> set xs \<Longrightarrow> name x \<noteq> i \<Longrightarrow> S x = x"
    "sorted_by (lt_on key) (filter (\<lambda>x. name x \<noteq> i) xs)"
  shows "filter (\<lambda>x. name x \<noteq> i) (map S (sort_slice (lt_on key) xs)) = filter (\<lambda>x. name x \<noteq> i) xs"
proof -
  have "filter (\<lambda>x. name x \<noteq> i) (map S (sort_slice (lt_on key) xs)) = map S (filter (\<lambda>x. name x \<noteq> i) (sort_slice (lt_on key) xs))"
    by (simp add: filter_map comp_def assms(1))
  also have "\<dots> = filter (\<lambda>x. name x \<noteq> i) (sort_slice (lt_on key) xs)" using assms(2) by (intro map_idI) auto
  also have "\<dots> = filter (\<lambda>x. name x \<noteq> i) xs" by (simp only: filter_sort_slice sort_slice_id [OF assms(3)])
  finally show ?thesis .
qed

section \<open>Adding to a child and taking it out again\<close>

text \<open>\<open>y\<close> is \<open>x\<close> with one element named \<open>i\<close> added, which \<open>f\<close> takes out.\<close>

definition adds :: "ID \<Rightarrow> ('a \<Rightarrow> ID list) \<Rightarrow> ('a \<Rightarrow> 'a) \<Rightarrow> 'a \<Rightarrow> 'a \<Rightarrow> bool" where
  "adds i ids f x y \<longleftrightarrow> f y = x \<and> count_list (ids y) i = 1"

text \<open>\<open>g\<close> deletes the element named \<open>i\<close> wherever there is exactly one, as \<open>f\<close> does, and fails to find it where there is none.\<close>

definition deletes :: "ID \<Rightarrow> ('a \<Rightarrow> ID list) \<Rightarrow> ('a \<Rightarrow> 'a) \<Rightarrow> ('a \<Rightarrow> ('e + 'a) option) \<Rightarrow> bool" where
  "deletes i ids f g \<longleftrightarrow> (\<forall>x. (i \<notin> set (ids x) \<longrightarrow> g x = None \<and> f x = x) \<and>
     (count_list (ids x) i = 1 \<longrightarrow> g x = Some (Inr (f x))))"

lemma at_first_deletes:
  assumes "deletes i ids f g" "count_list (concat (map ids xs)) i = 1"
  shows "at_first g xs = Some (Inr (map f xs))"
  using assms(2)
proof (induction xs)
  case (Cons x xs)
  show ?case
  proof (cases "i \<in> set (ids x)")
    case True
    then have "count_list (ids x) i \<noteq> 0" by (simp add: count_list_0_iff)
    then have c: "count_list (ids x) i = 1" "count_list (concat (map ids xs)) i = 0" using Cons.prems by auto
    then have "i \<notin> set (concat (map ids xs))" unfolding count_list_0_iff by blast
    then have "map f xs = xs" using assms(1) by (intro map_idI) (auto simp: deletes_def)
    with c(1) assms(1) show ?thesis by (simp add: deletes_def)
  next
    case False
    then have "count_list (concat (map ids xs)) i = 1" using Cons.prems by (simp add: count_list_0_iff)
    with Cons.IH False assms(1) show ?thesis by (simp add: deletes_def)
  qed
qed simp

lemma at_first_absent:
  assumes "deletes i ids f g" "i \<notin> set (concat (map ids xs))"
  shows "at_first g xs = None" "map f xs = xs"
proof -
  show "at_first g xs = None" using assms(2) by (induction xs) (use assms(1) in \<open>auto simp: deletes_def\<close>)
  show "map f xs = xs" using assms by (intro map_idI) (auto simp: deletes_def)
qed

lemma at_first_adds:
  assumes "at_first g xs = Some (Inr ys)" "\<And>x. i \<notin> set (ids x) \<Longrightarrow> f x = x" "i \<notin> set (concat (map ids xs))"
    "\<And>x y. x \<in> set xs \<Longrightarrow> g x = Some (Inr y) \<Longrightarrow> adds i ids f x y"
  shows "map f ys = xs \<and> count_list (concat (map ids ys)) i = 1"
  using assms(1,3,4)
proof (induction xs arbitrary: ys)
  case (Cons x xs)
  have same: "f x = x" "map f xs = xs" "count_list (concat (map ids xs)) i = 0" "count_list (ids x) i = 0"
  proof -
    show "f x = x" using assms(2) Cons.prems(2) by simp
    show "map f xs = xs" using assms(2) Cons.prems(2) by (intro map_idI) auto
    show "count_list (concat (map ids xs)) i = 0" "count_list (ids x) i = 0"
      using Cons.prems(2) by (simp_all add: count_list_0_iff)
  qed
  show ?case
  proof (cases "g x")
    case None
    then obtain zs where zs: "at_first g xs = Some (Inr zs)" "ys = x # zs"
      using Cons.prems(1) by (auto split: option.splits sum.splits)
    have "map f zs = xs \<and> count_list (concat (map ids zs)) i = 1" using Cons.IH [OF zs(1)] Cons.prems(2,3) by simp
    with zs(2) same show ?thesis by simp
  next
    case (Some r)
    then obtain y where y: "g x = Some (Inr y)" "ys = y # xs" using Cons.prems(1) by (cases r) auto
    then have "adds i ids f x y" using Cons.prems(3) by simp
    with y(2) same show ?thesis by (simp add: adds_def)
  qed
qed simp

lemma list_update_adds:
  assumes "k < length xs" "\<And>x. i \<notin> set (ids x) \<Longrightarrow> f x = x" "i \<notin> set (concat (map ids xs))" "adds i ids f (xs ! k) y"
  shows "map f (xs[k := y]) = xs \<and> count_list (concat (map ids (xs[k := y]))) i = 1"
proof
  have "map f xs = xs" using assms(2,3) by (intro map_idI) auto
  then show "map f (xs[k := y]) = xs" using assms(1,4) by (simp add: map_update adds_def)
  have "set (take k xs) \<subseteq> set xs" "set (drop (Suc k) xs) \<subseteq> set xs" by (rule set_take_subset, rule set_drop_subset)
  then have "i \<notin> set (concat (map ids (take k xs)))" "i \<notin> set (concat (map ids (drop (Suc k) xs)))" using assms(3) by auto
  then have "count_list (concat (map ids (take k xs))) i = 0" "count_list (concat (map ids (drop (Suc k) xs))) i = 0"
    by (simp_all add: count_list_0_iff)
  with assms(1,4) show "count_list (concat (map ids (xs[k := y]))) i = 1"
    by (simp add: upd_conv_take_nth_drop adds_def)
qed

section \<open>Containers\<close>

text \<open>A page holds sections, a section blocks, and so on: a list that can be read and replaced.\<close>

locale container =
  fixes items :: "'a \<Rightarrow> 'b list" and put :: "'a \<Rightarrow> 'b list \<Rightarrow> 'a"
  assumes items_put: "items (put x ys) = ys"
    and put_items: "put x (items x) = x"
    and put_put: "put (put x ys) zs = put x zs"
begin

definition ids_within :: "('b \<Rightarrow> ID list) \<Rightarrow> 'a \<Rightarrow> ID list" where "ids_within ids x = concat (map ids (items x))"
definition drop_within :: "('b \<Rightarrow> 'b) \<Rightarrow> 'a \<Rightarrow> 'a" where "drop_within f x = put x (map f (items x))"
definition ids_here :: "('b \<Rightarrow> ID) \<Rightarrow> 'a \<Rightarrow> ID list" where "ids_here key x = map key (items x)"
definition drop_here :: "('b \<Rightarrow> ID) \<Rightarrow> ID \<Rightarrow> 'a \<Rightarrow> 'a" where
  "drop_here key i x = put x (filter (\<lambda>y. key y \<noteq> i) (items x))"

lemma drop_within_absent:
  "(\<And>y. i \<notin> set (ids y) \<Longrightarrow> f y = y) \<Longrightarrow> i \<notin> set (ids_within ids x) \<Longrightarrow> drop_within f x = x"
proof -
  assume "\<And>y. i \<notin> set (ids y) \<Longrightarrow> f y = y" "i \<notin> set (ids_within ids x)"
  then have "map f (items x) = items x" by (intro map_idI) (auto simp: ids_within_def)
  then show "drop_within f x = x" by (simp add: drop_within_def put_items)
qed

lemma drop_here_absent: "i \<notin> set (ids_here key x) \<Longrightarrow> drop_here key i x = x"
proof -
  assume "i \<notin> set (ids_here key x)"
  then have "filter (\<lambda>y. key y \<noteq> i) (items x) = items x" by (intro filter_True) (auto simp: ids_here_def)
  then show "drop_here key i x = x" by (simp add: drop_here_def put_items)
qed

lemma adds_within:
  assumes "rebuild (put x) (at_first g (items x)) = Some (Inr y)" "\<And>y. i \<notin> set (ids y) \<Longrightarrow> f y = y"
    "i \<notin> set (ids_within ids x)" "\<And>a b. a \<in> set (items x) \<Longrightarrow> g a = Some (Inr b) \<Longrightarrow> adds i ids f a b"
  shows "adds i (ids_within ids) (drop_within f) x y"
proof -
  obtain bs where bs: "at_first g (items x) = Some (Inr bs)" "y = put x bs"
    using assms(1) by (auto simp: rebuild_def split: option.splits sum.splits)
  have "i \<notin> set (concat (map ids (items x)))" using assms(3) by (simp add: ids_within_def)
  with assms(2,4) have "map f bs = items x \<and> count_list (concat (map ids bs)) i = 1"
    by (intro at_first_adds [OF bs(1)]) blast+
  with bs(2) show ?thesis by (simp add: adds_def drop_within_def ids_within_def items_put put_put put_items)
qed

lemma adds_at:
  assumes "k < length (items x)" "\<And>y. i \<notin> set (ids y) \<Longrightarrow> f y = y" "i \<notin> set (ids_within ids x)" "adds i ids f (items x ! k) b"
  shows "adds i (ids_within ids) (drop_within f) x (put x ((items x)[k := b]))"
proof -
  have "i \<notin> set (concat (map ids (items x)))" using assms(3) by (simp add: ids_within_def)
  with assms(2,4) have "map f ((items x)[k := b]) = items x \<and> count_list (concat (map ids ((items x)[k := b]))) i = 1"
    by (intro list_update_adds [OF assms(1)]) blast+
  then show ?thesis by (simp add: adds_def drop_within_def ids_within_def items_put put_put put_items)
qed

lemma adds_last:
  assumes "i \<notin> set (ids_here key x)" "key b = i"
  shows "adds i (ids_here key) (drop_here key i) x (put x (items x @ [b]))"
proof -
  have "filter (\<lambda>y. key y \<noteq> i) (items x) = items x" using assms(1) by (intro filter_True) (auto simp: ids_here_def)
  moreover have "count_list (map key (items x)) i = 0" using assms(1) by (simp add: ids_here_def count_list_0_iff)
  ultimately show ?thesis using assms(2) by (simp add: adds_def drop_here_def ids_here_def items_put put_put put_items)
qed

lemma deletes_within:
  assumes "deletes i ids f g"
  shows "deletes i (ids_within ids) (drop_within f) (\<lambda>x. rebuild (put x) (at_first g (items x)))"
  using at_first_deletes [OF assms] at_first_absent [OF assms] unfolding deletes_def
  by (simp add: ids_within_def drop_within_def rebuild_def put_items)

lemma deletes_here:
  "deletes i (ids_here key) (drop_here key i)
     (\<lambda>x. map_option (\<lambda>k. Inr (put x (remove_at k (items x)))) (find_index (\<lambda>y. key y = i) (items x)))"
proof -
  have one: "\<exists>k. find_index (\<lambda>y. key y = i) ys = Some k \<and> remove_at k ys = filter (\<lambda>y. key y \<noteq> i) ys"
    if "count_list (map key ys) i = 1" for ys
    using that
  proof (induction ys)
    case (Cons y ys)
    show ?case
    proof (cases "key y = i")
      case True
      with Cons.prems have "i \<notin> set (map key ys)" by (simp add: count_list_0_iff [of "map key ys", symmetric] del: set_map)
      then have "filter (\<lambda>y. key y \<noteq> i) ys = ys" by (intro filter_True) auto
      with True show ?thesis by (simp add: remove_at_def)
    next
      case False
      with Cons obtain k where "find_index (\<lambda>y. key y = i) ys = Some k" "remove_at k ys = filter (\<lambda>y. key y \<noteq> i) ys" by auto
      with False show ?thesis by (simp add: remove_at_def)
    qed
  qed simp
  show ?thesis unfolding deletes_def
  proof (intro allI conjI impI)
    fix x assume "i \<notin> set (ids_here key x)"
    then show "drop_here key i x = x" "map_option (\<lambda>k. Inr (put x (remove_at k (items x)))) (find_index (\<lambda>y. key y = i) (items x)) = None"
      by (simp_all add: drop_here_absent) (auto simp: find_index_None ids_here_def)
  next
    fix x assume "count_list (ids_here key x) i = 1"
    then show "map_option (\<lambda>k. Inr (put x (remove_at k (items x)))) (find_index (\<lambda>y. key y = i) (items x)) = Some (Inr (drop_here key i x))"
      using one [of "items x"] by (auto simp: ids_here_def drop_here_def)
  qed
qed

end

interpretation in_report: container rdPages "\<lambda>d ps. d\<lparr> rdPages := ps \<rparr>" by unfold_locales simp_all
interpretation in_page: container pgSections "\<lambda>p ss. p\<lparr> pgSections := ss \<rparr>" by unfold_locales simp_all
interpretation in_section: container scBlocks "\<lambda>s bs. s\<lparr> scBlocks := bs \<rparr>" by unfold_locales simp_all
interpretation in_block: container bkZones "\<lambda>b zs. b\<lparr> bkZones := zs \<rparr>" by unfold_locales simp_all
interpretation in_zone: container znSlots "\<lambda>z ss. z\<lparr> znSlots := ss \<rparr>" by unfold_locales simp_all

text \<open>Names of the elements of each kind in a page, and a page without one of them.\<close>

abbreviation (input) "section_ids \<equiv> in_page.ids_here scID"
abbreviation (input) "block_ids \<equiv> in_page.ids_within (in_section.ids_here bkID)"
abbreviation (input) "zone_ids \<equiv> in_page.ids_within (in_section.ids_within (in_block.ids_here znID))"
abbreviation (input) "slot_ids \<equiv> in_page.ids_within (in_section.ids_within (in_block.ids_within (in_zone.ids_here slID)))"

abbreviation (input) "drop_section \<equiv> in_page.drop_here scID"
abbreviation (input) "drop_block i \<equiv> in_page.drop_within (in_section.drop_here bkID i)"
abbreviation (input) "drop_zone i \<equiv> in_page.drop_within (in_section.drop_within (in_block.drop_here znID i))"
abbreviation (input) "drop_slot i \<equiv> in_page.drop_within (in_section.drop_within (in_block.drop_within (in_zone.drop_here slID i)))"

lemmas drop_defs = in_report.drop_here_def in_report.drop_within_def in_page.drop_here_def in_page.drop_within_def
  in_section.drop_here_def in_section.drop_within_def in_block.drop_here_def in_block.drop_within_def in_zone.drop_here_def
lemmas ids_defs = in_report.ids_here_def in_report.ids_within_def in_page.ids_here_def in_page.ids_within_def
  in_section.ids_here_def in_section.ids_within_def in_block.ids_here_def in_block.ids_within_def in_zone.ids_here_def

section \<open>Taking out of what is sorted\<close>

text \<open>Sorting a block leaves everything about its zones but their order numbers.\<close>

lemma sorted_zones:
  assumes "\<And>z n. h (z\<lparr> znOrder := n \<rparr>) = h z"
  shows "mset (map h (bkZones (sort_block b))) = mset (map h (bkZones b))"
proof -
  have e: "map h (map (\<lambda>(index, z). z\<lparr> znOrder := int index + 1 \<rparr>) (enumerate 0 zs)) = map h zs" for zs
    by (intro nth_equalityI) (simp_all add: assms nth_enumerate_eq)
  have "mset (map h (bkZones (upgradeLegacyZoneOrders b))) = mset (map h (bkZones b))"
  proof (cases "bkZones b = [] \<or> list_ex (\<lambda>z. znOrder z \<noteq> 0) (bkZones b)")
    case False
    then obtain lt where "bkZones (upgradeLegacyZoneOrders b) =
        map (\<lambda>(index, z). z\<lparr> znOrder := int index + 1 \<rparr>) (enumerate 0 (sort_slice lt (bkZones b)))"
      by (auto simp: upgradeLegacyZoneOrders_def Let_def)
    then have "map h (bkZones (upgradeLegacyZoneOrders b)) = map h (sort_slice lt (bkZones b))" by (simp only: e)
    then show ?thesis by simp
  qed (auto simp: upgradeLegacyZoneOrders_def)
  then show ?thesis by (simp add: sort_block_def Let_def)
qed

lemma sorted_children: "(\<And>x. mset (ids (S x)) = mset (ids x)) \<Longrightarrow>
    mset (concat (map ids (map S (sort_slice lt xs)))) = mset (concat (map ids xs))"
proof -
  assume same: "\<And>x. mset (ids (S x)) = mset (ids x)"
  have c: "mset (concat (map f ys)) = sum_mset (image_mset (\<lambda>y. mset (f y)) (mset ys))" for f :: "'a \<Rightarrow> 'b list" and ys
    by (induction ys) simp_all
  have "mset (concat (map ids (map S (sort_slice lt xs)))) = sum_mset (image_mset (\<lambda>y. mset (ids (S y))) (mset xs))"
    by (simp only: map_map c comp_def mset_sort_slice)
  then show ?thesis by (simp only: same c)
qed

lemma sorted_names: "(\<And>x. key (S x) = key x) \<Longrightarrow> mset (map key (map S (sort_slice lt xs))) = mset (map key xs)"
  by (simp add: comp_def)

lemma kept_keys [simp]:
  "bkID (sort_block b) = bkID b" "scID (sort_section s) = scID s" "pgID (sort_page p) = pgID p"
  by (simp_all add: sort_block_def sort_section_def sort_page_def upgradeLegacyZoneOrders_def Let_def)

lemma sorted_ids:
  "mset (in_block.ids_here znID (sort_block b)) = mset (in_block.ids_here znID b)"
  "mset (in_block.ids_within (in_zone.ids_here slID) (sort_block b)) = mset (in_block.ids_within (in_zone.ids_here slID) b)"
  "mset (in_section.ids_here bkID (sort_section s)) = mset (in_section.ids_here bkID s)"
  "mset (in_page.ids_here scID (sort_page p)) = mset (in_page.ids_here scID p)"
proof -
  show "mset (in_block.ids_here znID (sort_block b)) = mset (in_block.ids_here znID b)"
    unfolding ids_defs by (rule sorted_zones) simp
  have "mset (map (\<lambda>z. map slID (znSlots z)) (bkZones (sort_block b))) = mset (map (\<lambda>z. map slID (znSlots z)) (bkZones b))"
    by (rule sorted_zones) simp
  then have "sum_mset (image_mset mset (mset (map (\<lambda>z. map slID (znSlots z)) (bkZones (sort_block b))))) =
      sum_mset (image_mset mset (mset (map (\<lambda>z. map slID (znSlots z)) (bkZones b))))" by (rule arg_cong)
  moreover have "mset (concat yss) = sum_mset (image_mset mset (mset yss))" for yss :: "ID list list" by (induction yss) simp_all
  ultimately show "mset (in_block.ids_within (in_zone.ids_here slID) (sort_block b)) = mset (in_block.ids_within (in_zone.ids_here slID) b)"
    unfolding ids_defs by simp
  show "mset (in_section.ids_here bkID (sort_section s)) = mset (in_section.ids_here bkID s)"
    unfolding ids_defs sort_section_def by (simp add: comp_def)
  show "mset (in_page.ids_here scID (sort_page p)) = mset (in_page.ids_here scID p)"
    unfolding ids_defs sort_page_def by (simp add: comp_def)
qed

lemma sorted_section_ids: "(\<And>b. mset (ids (sort_block b)) = mset (ids b)) \<Longrightarrow>
    mset (in_section.ids_within ids (sort_section s)) = mset (in_section.ids_within ids s)"
  using sorted_children [of ids sort_block] by (simp add: ids_defs sort_section_def del: map_map mset_map)

lemma sorted_page_ids: "(\<And>s. mset (ids (sort_section s)) = mset (ids s)) \<Longrightarrow>
    mset (in_page.ids_within ids (sort_page p)) = mset (in_page.ids_within ids p)"
  using sorted_children [of ids sort_section] by (simp add: ids_defs sort_page_def del: map_map mset_map)

lemma block_without_zone:
  assumes "block_canonical (in_block.drop_here znID i b)"
  shows "in_block.drop_here znID i (sort_block b) = in_block.drop_here znID i b"
proof (cases "filter (\<lambda>z. znID z \<noteq> i) (bkZones b) = []")
  case True
  have "set (map znID (bkZones (sort_block b))) = set (map znID (bkZones b))"
    by (rule mset_eq_setD) (rule sorted_zones, simp)
  then have "znID ` set (bkZones (sort_block b)) = znID ` set (bkZones b)" by simp
  moreover have "\<forall>z \<in> set (bkZones b). znID z = i" using True by (simp add: filter_empty_conv)
  ultimately have "filter (\<lambda>z. znID z \<noteq> i) (bkZones (sort_block b)) = []" by (auto simp: filter_empty_conv)
  moreover have "(sort_block b)\<lparr> bkZones := [] \<rparr> = b\<lparr> bkZones := [] \<rparr>"
    by (simp add: sort_block_def upgradeLegacyZoneOrders_def Let_def)
  ultimately show ?thesis using True by (simp add: in_block.drop_here_def)
next
  case False
  then obtain z where "z \<in> set (bkZones b)" "znOrder z \<noteq> 0"
    using assms by (auto simp: block_canonical_def in_block.drop_here_def)
  then have "upgradeLegacyZoneOrders b = b" by (auto simp: upgradeLegacyZoneOrders_def list_ex_iff)
  moreover have "sorted_by (lt_on znOrder) (filter (\<lambda>z. znID z \<noteq> i) (bkZones b))"
    using assms by (simp add: block_canonical_def in_block.drop_here_def)
  ultimately show ?thesis by (simp add: sort_block_def in_block.drop_here_def filter_sort_slice sort_slice_id)
qed

lemma block_without_slot:
  assumes "block_canonical (in_block.drop_within (in_zone.drop_here slID i) b)"
  shows "in_block.drop_within (in_zone.drop_here slID i) (sort_block b) = in_block.drop_within (in_zone.drop_here slID i) b"
proof -
  have order: "znOrder (in_zone.drop_here slID i z) = znOrder z" for z by (simp add: in_zone.drop_here_def)
  have "sorted_by (lt_on znOrder) (map (in_zone.drop_here slID i) (bkZones b)) = sorted_by (lt_on znOrder) (bkZones b)"
    by (rule sorted_by_map) (rule order)
  then have "block_canonical b" using assms by (auto simp: block_canonical_def in_block.drop_within_def order)
  then show ?thesis by (simp add: sort_block_id)
qed

lemma section_within:
  assumes "\<And>b. mobile_order (f b) = mobile_order b" "\<And>b. block_canonical (f b) \<Longrightarrow> f (sort_block b) = f b"
    "section_canonical (in_section.drop_within f s)"
  shows "in_section.drop_within f (sort_section s) = in_section.drop_within f s"
  using sorted_map [of mobile_order f "scBlocks s" sort_block] assms
  by (auto simp: in_section.drop_within_def sort_section_def section_canonical_def simp del: map_map)

lemma section_here:
  assumes "section_canonical (in_section.drop_here bkID i s)"
  shows "in_section.drop_here bkID i (sort_section s) = in_section.drop_here bkID i s"
  using sorted_filter [of bkID sort_block "scBlocks s" i mobile_order] assms
  by (auto simp: in_section.drop_here_def sort_section_def section_canonical_def sort_block_id)

lemma page_within:
  assumes "\<And>s. scOrder (f s) = scOrder s" "\<And>s. section_canonical (f s) \<Longrightarrow> f (sort_section s) = f s"
    "page_canonical (in_page.drop_within f p)"
  shows "in_page.drop_within f (sort_page p) = in_page.drop_within f p"
  using sorted_map [of scOrder f "pgSections p" sort_section] assms
  by (auto simp: in_page.drop_within_def sort_page_def page_canonical_def simp del: map_map)

lemma page_here:
  assumes "page_canonical (in_page.drop_here scID i p)"
  shows "in_page.drop_here scID i (sort_page p) = in_page.drop_here scID i p"
  using sorted_filter [of scID sort_section "pgSections p" i scOrder] assms
  by (auto simp: in_page.drop_here_def sort_page_def page_canonical_def sort_section_id)

lemma report_within:
  assumes "\<And>p. pgOrder (f p) = pgOrder p" "\<And>p. page_canonical (f p) \<Longrightarrow> f (sort_page p) = f p"
    "canonical (in_report.drop_within f d)"
  shows "in_report.drop_within f (sortDefinition d) = in_report.drop_within f d"
  using sorted_map [of pgOrder f "rdPages d" sort_page] assms
  by (auto simp: in_report.drop_within_def sortDefinition_def canonical_def simp del: map_map)

lemma report_here:
  assumes "canonical (in_report.drop_here pgID i d)"
  shows "in_report.drop_here pgID i (sortDefinition d) = in_report.drop_here pgID i d"
  using sorted_filter [of pgID sort_page "rdPages d" i pgOrder] assms
  by (auto simp: in_report.drop_here_def sortDefinition_def canonical_def sort_page_id)

lemma kept_orders [simp]:
  "pgOrder (in_page.drop_here scID i p) = pgOrder p" "pgOrder (in_page.drop_within f p) = pgOrder p"
  "scOrder (in_section.drop_here bkID i s) = scOrder s" "scOrder (in_section.drop_within g s) = scOrder s"
  "mobile_order (in_block.drop_here znID i b) = mobile_order b" "mobile_order (in_block.drop_within h b) = mobile_order b"
  by (simp_all add: drop_defs)

section \<open>Additions are taken back\<close>

lemma taken_back:
  assumes c: "canonical d" and create: "on_pages kind j g d = Inr d1"
    and absent: "\<And>p. i \<notin> set (ids p) \<Longrightarrow> f p = p" and fresh: "i \<notin> set (in_report.ids_within ids d)"
    and adds: "\<And>p q. p \<in> set (rdPages d) \<Longrightarrow> i \<notin> set (ids p) \<Longrightarrow> g p = Some (Inr q) \<Longrightarrow> adds i ids f p q"
    and deleted: "deletes i ids f g'" and order: "\<And>p. pgOrder (f p) = pgOrder p"
    and sorted: "\<And>p. page_canonical (f p) \<Longrightarrow> f (sort_page p) = f p" and names: "\<And>p. mset (ids (sort_page p)) = mset (ids p)"
  shows "on_pages kind' i g' (sortDefinition d1) = Inr d"
proof -
  obtain ps where ps: "at_first g (rdPages d) = Some (Inr ps)" "d1 = d\<lparr> rdPages := ps \<rparr>"
    using create by (auto simp: on_pages_def split: option.splits sum.splits)
  have fresh': "i \<notin> set (concat (map ids (rdPages d)))" using fresh by (simp add: in_report.ids_within_def)
  then have "i \<notin> set (ids p)" if "p \<in> set (rdPages d)" for p using that by auto
  then have added: "map f ps = rdPages d \<and> count_list (concat (map ids ps)) i = 1"
    using absent adds by (intro at_first_adds [OF ps(1) _ fresh']) blast+
  then have "in_report.drop_within f d1 = d" by (simp add: ps(2) in_report.drop_within_def)
  then have restored: "in_report.drop_within f (sortDefinition d1) = d" using report_within [of f d1, OF order sorted] c by simp
  have "mset (concat (map ids (rdPages (sortDefinition d1)))) = mset (concat (map ids ps))"
    using sorted_children [of ids sort_page, OF names] by (simp add: sortDefinition_def ps(2) del: map_map mset_map)
  then have "count_list (concat (map ids (rdPages (sortDefinition d1)))) i = 1" using added by (simp only: count_list_mset)
  from at_first_deletes [OF deleted this] restored show ?thesis by (simp add: on_pages_def in_report.drop_within_def)
qed

lemma found_index: "find_index P xs = Some k \<Longrightarrow> k < length xs"
  using find_index_Some by blast

lemma page_created_back:
  assumes "canonical d" "pgID p \<notin> set (map pgID (rdPages d))"
  shows "map_result (\<lambda>ps. (sortDefinition (d\<lparr> rdPages := rdPages d @ [p] \<rparr>))\<lparr> rdPages := ps \<rparr>)
    (remove_item kind (pgID p) pgID (rdPages (sortDefinition (d\<lparr> rdPages := rdPages d @ [p] \<rparr>)))) = Inr d"
proof -
  let ?d1 = "d\<lparr> rdPages := rdPages d @ [p] \<rparr>" and ?drop = "in_report.drop_here pgID (pgID p)"
  have a: "adds (pgID p) (in_report.ids_here pgID) ?drop d ?d1"
    by (rule in_report.adds_last) (use assms(2) in \<open>simp_all add: in_report.ids_here_def\<close>)
  then have restored: "?drop (sortDefinition ?d1) = d" using report_here [of "pgID p" ?d1] assms(1) by (simp add: adds_def)
  have "mset (in_report.ids_here pgID (sortDefinition ?d1)) = mset (in_report.ids_here pgID ?d1)"
    by (simp add: in_report.ids_here_def sortDefinition_def comp_def)
  then have "count_list (in_report.ids_here pgID (sortDefinition ?d1)) (pgID p) = 1" using a by (simp add: adds_def count_list_mset)
  with in_report.deletes_here [of "pgID p" pgID] restored have "map_option (\<lambda>k. Inr ((sortDefinition ?d1)\<lparr> rdPages := remove_at k (rdPages (sortDefinition ?d1)) \<rparr>))
      (find_index (\<lambda>y. pgID y = pgID p) (rdPages (sortDefinition ?d1))) = Some (Inr d :: string + ReportDefinition)"
    unfolding deletes_def by metis
  then show ?thesis by (auto simp: remove_item_def map_result_def)
qed

lemma section_created_back:
  assumes "canonical d" "update_page j (\<lambda>p. p\<lparr> pgSections := pgSections p @ [s] \<rparr>) d = Inr d1"
    "scID s \<notin> set (in_report.ids_within section_ids d)"
  shows "on_pages kind (scID s) (page_of (scID s) (\<lambda>p k. Inr (p\<lparr> pgSections := remove_at k (pgSections p) \<rparr>))) (sortDefinition d1) = Inr d"
proof (rule taken_back [OF assms(1) assms(2) [unfolded update_page_def], where ids = section_ids and f = "drop_section (scID s)"])
  show "deletes (scID s) section_ids (drop_section (scID s)) (page_of (scID s) (\<lambda>p k. Inr (p\<lparr> pgSections := remove_at k (pgSections p) \<rparr>)))"
    unfolding page_of_def [abs_def] by (rule in_page.deletes_here)
  fix p q assume "scID s \<notin> set (section_ids p)" "page_at j (\<lambda>p. Inr (p\<lparr> pgSections := pgSections p @ [s] \<rparr>)) p = Some (Inr q)"
  then show "adds (scID s) section_ids (drop_section (scID s)) p q"
    using in_page.adds_last by (auto simp: page_at_def split: if_splits)
qed (use assms(3) in \<open>simp_all add: in_page.drop_here_absent page_here sorted_ids\<close>)

lemma blocks_drop: "page_canonical (drop_block i p) \<Longrightarrow> drop_block i (sort_page p) = drop_block i p"
  by (rule page_within) (simp_all add: section_here)

lemma blocks_absent: "i \<notin> set (block_ids p) \<Longrightarrow> drop_block i p = p"
  by (rule in_page.drop_within_absent) (rule in_section.drop_here_absent)

lemma block_deletion: "deletes i block_ids (drop_block i) (section_of i (\<lambda>s k. Inr (s\<lparr> scBlocks := remove_at k (scBlocks s) \<rparr>)))"
  unfolding section_of_def in_page_def [abs_def] by (intro in_page.deletes_within in_section.deletes_here)

lemma block_created_back:
  assumes "canonical d" "update_section j (\<lambda>s. s\<lparr> scBlocks := scBlocks s @ [b] \<rparr>) d = Inr d1"
    "bkID b \<notin> set (in_report.ids_within block_ids d)"
  shows "on_pages kind (bkID b) (section_of (bkID b) (\<lambda>s k. Inr (s\<lparr> scBlocks := remove_at k (scBlocks s) \<rparr>))) (sortDefinition d1) = Inr d"
proof (rule taken_back [OF assms(1) assms(2) [unfolded update_section_def], where ids = block_ids and f = "drop_block (bkID b)"])
  let ?i = "bkID b" and ?f = "\<lambda>s. s\<lparr> scBlocks := scBlocks s @ [b] \<rparr>"
  fix p q assume p: "?i \<notin> set (block_ids p)" "page_of j (\<lambda>p k. Inr (p\<lparr> pgSections := (pgSections p)[k := ?f (pgSections p ! k)] \<rparr>)) p = Some (Inr q)"
  then obtain k where k: "k < length (pgSections p)" "q = p\<lparr> pgSections := (pgSections p)[k := ?f (pgSections p ! k)] \<rparr>"
    by (auto simp: page_of_def dest: found_index)
  have "?i \<notin> set (in_section.ids_here bkID (pgSections p ! k))" using p(1) k(1) by (auto simp: in_page.ids_within_def)
  then have "adds ?i (in_section.ids_here bkID) (in_section.drop_here bkID ?i) (pgSections p ! k) (?f (pgSections p ! k))"
    by (rule in_section.adds_last) simp
  then show "adds ?i block_ids (drop_block ?i) p q" unfolding k(2)
    by (intro in_page.adds_at [OF k(1) _ p(1)] in_section.drop_here_absent)
qed (use assms(3) in \<open>simp_all add: blocks_absent block_deletion blocks_drop sorted_page_ids sorted_ids\<close>)

lemma block_copied_back:
  assumes "canonical d" "on_pages kind j (section_of j (\<lambda>s k. Inr (s\<lparr> scBlocks := scBlocks s @ [copy s k] \<rparr>))) d = Inr d1"
    "\<And>s k. bkID (copy s k) = i" "i \<notin> set (in_report.ids_within block_ids d)"
  shows "on_pages kind' i (section_of i (\<lambda>s k. Inr (s\<lparr> scBlocks := remove_at k (scBlocks s) \<rparr>))) (sortDefinition d1) = Inr d"
proof (rule taken_back [OF assms(1,2), where ids = block_ids and f = "drop_block i"])
  let ?g = "\<lambda>s. map_option (\<lambda>k. Inr (s\<lparr> scBlocks := scBlocks s @ [copy s k] \<rparr>)) (find_index (\<lambda>b. bkID b = j) (scBlocks s))"
  fix p q assume p: "i \<notin> set (block_ids p)" "section_of j (\<lambda>s k. Inr (s\<lparr> scBlocks := scBlocks s @ [copy s k] \<rparr>)) p = Some (Inr q)"
  show "adds i block_ids (drop_block i) p q"
  proof (rule in_page.adds_within [OF p(2) [unfolded section_of_def in_page_def] in_section.drop_here_absent p(1)])
    fix s t assume "s \<in> set (pgSections p)" "?g s = Some (Inr t)"
    then obtain k where k: "s \<in> set (pgSections p)" "t = s\<lparr> scBlocks := scBlocks s @ [copy s k] \<rparr>" by auto
    from k(1) p(1) have "i \<notin> set (in_section.ids_here bkID s)" by (auto simp: in_page.ids_within_def)
    then show "adds i (in_section.ids_here bkID) (in_section.drop_here bkID i) s t" unfolding k(2)
      by (rule in_section.adds_last) (rule assms(3))
  qed
qed (use assms(4) in \<open>simp_all add: blocks_absent block_deletion blocks_drop sorted_page_ids sorted_ids\<close>)

lemma zones_drop: "page_canonical (drop_zone i p) \<Longrightarrow> drop_zone i (sort_page p) = drop_zone i p"
  by (rule page_within) (simp_all add: section_within block_without_zone)

lemma zones_absent: "i \<notin> set (zone_ids p) \<Longrightarrow> drop_zone i p = p"
  by (rule in_page.drop_within_absent, rule in_section.drop_within_absent, rule in_block.drop_here_absent)

lemma zone_deletion: "deletes i zone_ids (drop_zone i) (block_of i (\<lambda>b k. Inr (b\<lparr> bkZones := remove_at k (bkZones b) \<rparr>)))"
  unfolding block_of_def in_page_def [abs_def] in_section_def [abs_def]
  by (intro in_page.deletes_within in_section.deletes_within in_block.deletes_here)

lemma zone_created_back:
  assumes "canonical d" "update_block j (\<lambda>b. b\<lparr> bkZones := bkZones b @ [z] \<rparr>) d = Inr d1"
    "znID z \<notin> set (in_report.ids_within zone_ids d)"
  shows "on_pages kind (znID z) (block_of (znID z) (\<lambda>b k. Inr (b\<lparr> bkZones := remove_at k (bkZones b) \<rparr>))) (sortDefinition d1) = Inr d"
proof (rule taken_back [OF assms(1) assms(2) [unfolded update_block_def], where ids = zone_ids and f = "drop_zone (znID z)"])
  let ?i = "znID z" and ?f = "\<lambda>b. b\<lparr> bkZones := bkZones b @ [z] \<rparr>"
  let ?g = "\<lambda>s. map_option (\<lambda>k. Inr (s\<lparr> scBlocks := (scBlocks s)[k := ?f (scBlocks s ! k)] \<rparr>)) (find_index (\<lambda>b. bkID b = j) (scBlocks s))"
  have none: "\<And>s. ?i \<notin> set (in_section.ids_within (in_block.ids_here znID) s) \<Longrightarrow> in_section.drop_within (in_block.drop_here znID ?i) s = s"
    by (rule in_section.drop_within_absent) (rule in_block.drop_here_absent)
  fix p q assume p: "?i \<notin> set (zone_ids p)"
    "section_of j (\<lambda>s k. Inr (s\<lparr> scBlocks := (scBlocks s)[k := ?f (scBlocks s ! k)] \<rparr>)) p = Some (Inr q)"
  show "adds ?i zone_ids (drop_zone ?i) p q"
  proof (rule in_page.adds_within [OF p(2) [unfolded section_of_def in_page_def] none p(1)])
    fix s t assume "s \<in> set (pgSections p)" "?g s = Some (Inr t)"
    then obtain k where k: "s \<in> set (pgSections p)" "k < length (scBlocks s)" "t = s\<lparr> scBlocks := (scBlocks s)[k := ?f (scBlocks s ! k)] \<rparr>"
      by (auto dest: found_index)
    from k(1) p(1) have s: "?i \<notin> set (in_section.ids_within (in_block.ids_here znID) s)" by (auto simp: in_page.ids_within_def)
    with k(2) have "?i \<notin> set (in_block.ids_here znID (scBlocks s ! k))" by (auto simp: in_section.ids_within_def)
    then have "adds ?i (in_block.ids_here znID) (in_block.drop_here znID ?i) (scBlocks s ! k) (?f (scBlocks s ! k))"
      by (rule in_block.adds_last) simp
    then show "adds ?i (in_section.ids_within (in_block.ids_here znID)) (in_section.drop_within (in_block.drop_here znID ?i)) s t"
      unfolding k(3) by (intro in_section.adds_at [OF k(2) _ s] in_block.drop_here_absent)
  qed
qed (use assms(3) in \<open>simp_all add: zones_absent zone_deletion zones_drop sorted_page_ids sorted_section_ids sorted_ids\<close>)

lemma slots_drop: "page_canonical (drop_slot i p) \<Longrightarrow> drop_slot i (sort_page p) = drop_slot i p"
  by (rule page_within) (simp_all add: section_within block_without_slot)

lemma slots_absent: "i \<notin> set (slot_ids p) \<Longrightarrow> drop_slot i p = p"
  by (rule in_page.drop_within_absent, rule in_section.drop_within_absent, rule in_block.drop_within_absent, rule in_zone.drop_here_absent)

lemma slot_deletion: "deletes i slot_ids (drop_slot i) (zone_of i (\<lambda>b z k. Inr (z\<lparr> znSlots := remove_at k (znSlots z) \<rparr>)))"
  unfolding zone_of_def in_page_def [abs_def] in_section_def [abs_def] in_block_def [abs_def]
  by (intro in_page.deletes_within in_section.deletes_within in_block.deletes_within in_zone.deletes_here)

lemma slot_created_back:
  assumes "canonical d" "update_zone j (\<lambda>z. z\<lparr> znSlots := znSlots z @ [v] \<rparr>) d = Inr d1"
    "slID v \<notin> set (in_report.ids_within slot_ids d)"
  shows "on_pages kind (slID v) (zone_of (slID v) (\<lambda>b z k. Inr (z\<lparr> znSlots := remove_at k (znSlots z) \<rparr>))) (sortDefinition d1) = Inr d"
proof (rule taken_back [OF assms(1) assms(2) [unfolded update_zone_def], where ids = slot_ids and f = "drop_slot (slID v)"])
  let ?i = "slID v" and ?f = "\<lambda>z. z\<lparr> znSlots := znSlots z @ [v] \<rparr>"
  let ?ids = "in_block.ids_within (in_zone.ids_here slID)" and ?drop = "in_block.drop_within (in_zone.drop_here slID ?i)"
  let ?h = "\<lambda>b. map_option (\<lambda>k. Inr (b\<lparr> bkZones := (bkZones b)[k := ?f (bkZones b ! k)] \<rparr>)) (find_index (\<lambda>z. znID z = j) (bkZones b))"
  let ?g = "\<lambda>s. rebuild (\<lambda>bs. s\<lparr> scBlocks := bs \<rparr>) (at_first ?h (scBlocks s))"
  have none: "\<And>b. ?i \<notin> set (?ids b) \<Longrightarrow> ?drop b = b"
    by (rule in_block.drop_within_absent) (rule in_zone.drop_here_absent)
  have none': "\<And>s. ?i \<notin> set (in_section.ids_within ?ids s) \<Longrightarrow> in_section.drop_within ?drop s = s"
    by (rule in_section.drop_within_absent) (rule none)
  fix p q assume p: "?i \<notin> set (slot_ids p)"
    "block_of j (\<lambda>b k. Inr (b\<lparr> bkZones := (bkZones b)[k := ?f (bkZones b ! k)] \<rparr>)) p = Some (Inr q)"
  show "adds ?i slot_ids (drop_slot ?i) p q"
  proof (rule in_page.adds_within [OF p(2) [unfolded block_of_def in_page_def in_section_def [abs_def]] none' p(1)])
    fix s t assume s: "s \<in> set (pgSections p)" "?g s = Some (Inr t)"
    from s(1) p(1) have fresh: "?i \<notin> set (in_section.ids_within ?ids s)" by (auto simp: in_page.ids_within_def)
    show "adds ?i (in_section.ids_within ?ids) (in_section.drop_within ?drop) s t"
    proof (rule in_section.adds_within [OF s(2) none fresh])
      fix b c assume "b \<in> set (scBlocks s)" "?h b = Some (Inr c)"
      then obtain k where k: "b \<in> set (scBlocks s)" "k < length (bkZones b)" "c = b\<lparr> bkZones := (bkZones b)[k := ?f (bkZones b ! k)] \<rparr>"
        by (auto dest: found_index)
      from k(1) fresh have b: "?i \<notin> set (?ids b)" by (auto simp: in_section.ids_within_def)
      with k(2) have "?i \<notin> set (in_zone.ids_here slID (bkZones b ! k))" by (auto simp: in_block.ids_within_def)
      then have "adds ?i (in_zone.ids_here slID) (in_zone.drop_here slID ?i) (bkZones b ! k) (?f (bkZones b ! k))"
        by (rule in_zone.adds_last) simp
      then show "adds ?i ?ids ?drop b c" unfolding k(3) by (intro in_block.adds_at [OF k(2) _ b] in_zone.drop_here_absent)
    qed
  qed
qed (use assms(3) in \<open>simp_all add: slots_absent slot_deletion slots_drop sorted_page_ids sorted_section_ids sorted_ids\<close>)

end
