(* ===== verification/ReportValidate.thy ===== *)
theory ReportValidate imports ReportModel InsightWeights Layout ZoneHeights begin

text \<open>
  \<open>ReportDefinition.Validate\<close> of \<open>internal/report/model.go\<close> and the \<open>validate\<close> methods below it,
  as predicates: which error comes first is not modelled. The namespaces the code fills while it
  walks the pages are a state that every step extends or refuses. The checks that a slice is not
  nil (they concern the JSON encoding) have no counterpart, since a nil slice and an empty one are
  one list here.

  What the definition carries as opaque text is read through \<open>val_env\<close>: the encoding limits of
  \<open>decode.go\<close>, the sanitizer of \<open>sanitize.go\<close>, the semantic IR and its pin, the resolved
  time, an evidence reference, and the JSON literal of a local filter.
\<close>

section \<open>Patterns\<close>

definition lower :: "char \<Rightarrow> bool" where "lower c \<longleftrightarrow> char_between CHR ''a'' CHR ''z'' c"
definition upper :: "char \<Rightarrow> bool" where "upper c \<longleftrightarrow> char_between CHR ''A'' CHR ''Z'' c"
definition digit :: "char \<Rightarrow> bool" where "digit c \<longleftrightarrow> char_between CHR ''0'' CHR ''9'' c"

text \<open>A first character, then at most \<open>n\<close> more of a class.\<close>

definition word_pattern :: "(char \<Rightarrow> bool) \<Rightarrow> (char \<Rightarrow> bool) \<Rightarrow> nat \<Rightarrow> string \<Rightarrow> bool" where
  "word_pattern first rest n s = (case s of [] \<Rightarrow> False | c # cs \<Rightarrow> first c \<and> length cs \<le> n \<and> list_all rest cs)"

definition codePattern :: "string \<Rightarrow> bool" where
  "codePattern = word_pattern lower (\<lambda>c. lower c \<or> digit c \<or> c \<in> {CHR ''_'', CHR ''-''}) 127"

definition componentPattern :: "string \<Rightarrow> bool" where
  "componentPattern = word_pattern lower (\<lambda>c. lower c \<or> digit c \<or> c = CHR ''-'') 63"

definition fieldPattern :: "string \<Rightarrow> bool" where
  "fieldPattern = word_pattern (\<lambda>c. lower c \<or> upper c) (\<lambda>c. alnum c \<or> c \<in> set ''._:-'') 127"

definition parameterPattern :: "string \<Rightarrow> bool" where
  "parameterPattern = word_pattern (\<lambda>c. lower c \<or> upper c) (\<lambda>c. alnum c \<or> c \<in> set ''_.-'') 127"

definition localePattern :: "string \<Rightarrow> bool" where
  "localePattern s = (let a = takeWhile lower s; b = dropWhile lower s in
     (length a = 2 \<or> length a = 3) \<and>
     (case b of [] \<Rightarrow> True | c # cs \<Rightarrow> c = CHR ''-'' \<and> length cs = 2 \<and> list_all upper cs))"

fun split_on :: "char \<Rightarrow> string \<Rightarrow> string list" where
  "split_on sep [] = [[]]"
| "split_on sep (c # cs) = (if c = sep then [] # split_on sep cs
     else (case split_on sep cs of [] \<Rightarrow> [[c]] | p # ps \<Rightarrow> (c # p) # ps))"

definition version_number :: "string \<Rightarrow> bool" where
  "version_number s = (case s of [] \<Rightarrow> False
     | c # cs \<Rightarrow> s = ''0'' \<or> char_between CHR ''1'' CHR ''9'' c \<and> list_all digit cs)"

definition semverPattern :: "string \<Rightarrow> bool" where
  "semverPattern s \<longleftrightarrow> length (split_on CHR ''.'' s) = 3 \<and> list_all version_number (split_on CHR ''.'' s)"

definition to_upper_char :: "char \<Rightarrow> char" where
  "to_upper_char c = (if lower c then char_of (of_char c - 32 :: nat) else c)"

definition to_upper :: "string \<Rightarrow> string" where "to_upper = map to_upper_char"

section \<open>The environment\<close>

datatype json_literal = LiteralString string | LiteralScalar | LiteralOther

record val_env =
  veEncoding :: "ReportDefinition \<Rightarrow> bool"
  veSanitizeRichText :: "string \<Rightarrow> string"
  veIRPin :: "string \<Rightarrow> ID \<times> ContentHash"
  veIRValid :: "string \<Rightarrow> bool"
  veTimeSpecComplete :: "string \<Rightarrow> bool"
  veEvidence :: "string \<Rightarrow> ID option"
  veLiteral :: "string \<Rightarrow> json_literal"

section \<open>Header\<close>

definition SchemaVersion :: string where "SchemaVersion = ''1.0''"
definition MaxPages :: nat where "MaxPages = 20"
definition MaxSectionsPerPage :: nat where "MaxSectionsPerPage = 30"
definition MaxSlotsInBlock :: nat where "MaxSlotsInBlock = 16"
definition MaxDataContexts :: nat where "MaxDataContexts = 128"
definition MaxGlobalFilters :: nat where "MaxGlobalFilters = 128"
definition MaxInteractions :: nat where "MaxInteractions = 500"
definition MaxZonesPerBlock :: nat where "MaxZonesPerBlock = 16"
definition MaxBindingsPerRole :: nat where "MaxBindingsPerRole = 32"
definition MaxParameters :: nat where "MaxParameters = 64"
definition MaxInteractionLinks :: nat where "MaxInteractionLinks = 64"

definition metadata_valid :: "Metadata \<Rightarrow> bool" where
  "metadata_valid m \<longleftrightarrow> valid_id (mdID m) \<and> codePattern (mdCode m) \<and> trim_space (mdName m) \<noteq> [] \<and>
     (mdReportType m = ReportTypeReport \<or> mdReportType m = ReportTypeDashboard) \<and>
     mdHeaderStyle m \<in> {[], ''01'', ''02'', ''03''} \<and> localePattern (mdLocale m)"

definition template_ref_valid :: "TemplateReference \<Rightarrow> bool" where
  "template_ref_valid r \<longleftrightarrow> valid_id (trReportTemplateID r) \<and>
     list_all semverPattern [trReportTemplateVersion r, trStructureTemplateVersion r,
       trLayoutTemplateVersion r, trNarrativeTemplateVersion r]"

definition theme_ref_valid :: "ThemeReference \<Rightarrow> bool" where
  "theme_ref_valid r \<longleftrightarrow> valid_id (thThemeID r) \<and> semverPattern (thVersion r)"

definition canvas_valid :: "Canvas \<Rightarrow> bool" where
  "canvas_valid c \<longleftrightarrow>
     cvDesktop c = \<lparr> dcDesignWidth = 1920, dcColumns = 24, dcBaseCellWidth = 80, dcBaseRowHeight = 54,
       dcGapX = 12, dcGapY = 12, dcPaddingX = 24, dcPaddingY = 24 \<rparr> \<and>
     cvMobile c = \<lparr> mcColumns = 1, mcGapY = 12, mcPaddingX = 12, mcPaddingY = 12 \<rparr>"

definition parameter_valid :: "DefaultParameter \<Rightarrow> bool" where
  "parameter_valid p \<longleftrightarrow>
     length (filter id [dpStringValue p \<noteq> None, dpNumberValue p \<noteq> None, dpBooleanValue p \<noteq> None]) = 1 \<and>
     (case dpType p of ParameterString \<Rightarrow> dpStringValue p \<noteq> None | ParameterNumber \<Rightarrow> dpNumberValue p \<noteq> None
      | ParameterBoolean \<Rightarrow> dpBooleanValue p \<noteq> None | OtherParameterType _ \<Rightarrow> False)"

definition context_valid :: "DataContext \<Rightarrow> bool" where
  "context_valid c \<longleftrightarrow> list_all valid_id [dxID c, dxDatasetID c, dxDatasetVersionID c] \<and>
     trim_space (dxAlias c) \<noteq> [] \<and> length (dxDefaultParameters c) \<le> MaxParameters \<and>
     list_all (\<lambda>p. parameterPattern (dpName p) \<and> parameter_valid p) (dxDefaultParameters c) \<and>
     distinct (map dpName (dxDefaultParameters c)) \<and>
     (let q = dxQueryPolicy c in
      \<not> (qpTimeoutMS q < 100 \<or> qpTimeoutMS q > 120000) \<and> \<not> (qpMaxRows q < 1 \<or> qpMaxRows q > 10000) \<and>
      \<not> (qpCacheTTLSeconds q < 0 \<or> qpCacheTTLSeconds q > 86400))"

definition runtime_policy_valid :: "RuntimePolicy \<Rightarrow> bool" where
  "runtime_policy_valid p \<longleftrightarrow> rpRefreshMode p \<in> {RefreshManual, RefreshOnOpen, RefreshInterval} \<and>
     (if rpRefreshMode p = RefreshInterval
      then \<not> (rpRefreshIntervalSeconds p < 60 \<or> rpRefreshIntervalSeconds p > 86400)
      else rpRefreshIntervalSeconds p = 0) \<and>
     \<not> (rpMaxConcurrentQueries p < 1 \<or> rpMaxConcurrentQueries p > 32) \<and>
     \<not> (rpComponentTimeoutMS p < 100 \<or> rpComponentTimeoutMS p > 120000) \<and>
     rpFailureMode p \<in> {FailurePartial, FailureStrict}"

definition ids_valid :: "ID list \<Rightarrow> bool" where
  "ids_valid is \<longleftrightarrow> length is \<le> 128 \<and> list_all valid_id is \<and> distinct is"

definition provenance_valid :: "Provenance \<Rightarrow> bool" where
  "provenance_valid p \<longleftrightarrow>
     pvCreatedFrom p \<in> {CreatedManually, CreatedTemplate, CreatedAI, CreatedAskData, CreatedImport} \<and>
     ids_valid (pvSourceQuestionRunIDs p) \<and> ids_valid (pvAIRunIDs p) \<and>
     \<not> (length (pvAnalysisMethodVersions p) > 128 \<or> length (pvPromptVersions p) > 128 \<or>
        length (pvModelPolicies p) > 128) \<and>
     list_all (\<lambda>(m, v). valid_id m \<and> semverPattern v) (pvAnalysisMethodVersions p) \<and>
     distinct (map (\<lambda>(m, v). m @ [CHR 0x00] @ v) (pvAnalysisMethodVersions p)) \<and>
     list_all (\<lambda>vs. list_all (\<lambda>v. trim_space v = v \<and> valid_id v) vs \<and> distinct vs)
       [pvPromptVersions p, pvModelPolicies p]"

section \<open>Components\<close>

definition binding_roles :: "string list" where
  "binding_roles = [''DIMENSION'', ''SERIES'', ''X_AXIS'', ''Y_AXIS'', ''VALUE'', ''CATEGORY'', ''TIME'',
     ''COLOR'', ''SIZE'', ''LABEL'', ''DETAIL'', ''TOOLTIP'']"

definition field_binding_valid :: "FieldBinding \<Rightarrow> bool" where
  "field_binding_valid b \<longleftrightarrow> fbRole b \<in> set binding_roles \<and> fieldPattern (fbField b) \<and>
     rune_count (fbLabel b) \<le> 200 \<and>
     \<not> (fbAggregation b \<noteq> [] \<and> to_upper (fbAggregation b) \<notin>
        set [''SUM'', ''AVG'', ''MIN'', ''MAX'', ''COUNT'', ''COUNT_DISTINCT''])"

definition validLocalFilterValue :: "json_literal \<Rightarrow> bool" where
  "validLocalFilterValue v = (case v of LiteralString s \<Rightarrow> trim_space s \<noteq> [] \<and> rune_count s \<le> MaxStringLength
     | LiteralScalar \<Rightarrow> True | LiteralOther \<Rightarrow> False)"

definition filter_policy_valid :: "val_env \<Rightarrow> ComponentFilterPolicy \<Rightarrow> bool" where
  "filter_policy_valid env p \<longleftrightarrow>
     \<not> (length (cfGlobalMappings p) > 16 \<or> length (cfLocalFilters p) > 16) \<and>
     list_all (\<lambda>m. valid_id (gmFilterID m) \<and> fieldPattern (gmField m)) (cfGlobalMappings p) \<and>
     distinct (map gmFilterID (cfGlobalMappings p)) \<and>
     list_all (\<lambda>f. fieldPattern (lfField f) \<and> to_upper (lfOperator f) \<in> set [''EQUALS'', ''NOT_EQUALS''] \<and>
       validLocalFilterValue (veLiteral env (lfValue f))) (cfLocalFilters p) \<and>
     distinct (map lfField (cfLocalFilters p))"

definition opt_id_valid :: "ID option \<Rightarrow> bool" where
  "opt_id_valid i = (case i of None \<Rightarrow> True | Some v \<Rightarrow> valid_id v)"

definition semantic_ref_valid :: "val_env \<Rightarrow> SemanticQueryRef \<Rightarrow> bool" where
  "semantic_ref_valid env r \<longleftrightarrow> valid_id (sqSemanticReleaseID r) \<and> valid_hash (sqSemanticContentHash r) \<and>
     veIRPin env (sqSemanticIR r) = (sqSemanticReleaseID r, sqSemanticContentHash r) \<and>
     veIRValid env (sqSemanticIR r) \<and> valid_hash (sqQueryPlanHash r) \<and>
     opt_id_valid (sqSourceQuestionRunID r) \<and> opt_id_valid (sqCompilationArtifactID r) \<and>
     \<not> (sqSourceQuestionRunID r \<noteq> None \<and> sqCompilationArtifactID r \<noteq> None) \<and>
     opt_id_valid (sqDatasetVersionID r) \<and>
     (case sqResolvedTimeSpec r of None \<Rightarrow> True | Some t \<Rightarrow> veTimeSpecComplete env t) \<and>
     length (sqEvidenceRefs r) \<le> 64 \<and> list_all (\<lambda>e. veEvidence env e \<noteq> None) (sqEvidenceRefs r) \<and>
     distinct (map (veEvidence env) (sqEvidenceRefs r)) \<and>
     (sqChartRuleVersion r = [] \<or> semverPattern (sqChartRuleVersion r))"

definition binding_key :: "FieldBinding \<Rightarrow> string" where
  "binding_key b = fbRole b @ [CHR 0x00] @ fbField b"

definition binding_valid :: "val_env \<Rightarrow> ID set \<Rightarrow> DataBinding \<Rightarrow> bool" where
  "binding_valid env contextIDs b = (case bdBindingMode b of
     BindingSemanticIR \<Rightarrow> (case bdSemanticQueryRef b of None \<Rightarrow> False
       | Some r \<Rightarrow> bdDataContextID b = None \<and> bdDimensions b = [] \<and> bdMeasures b = [] \<and>
           bdFilterPolicy b = None \<and> semantic_ref_valid env r)
   | BindingDatasetField \<Rightarrow> bdSemanticQueryRef b = None \<and> (case bdDataContextID b of None \<Rightarrow> False
       | Some c \<Rightarrow> c \<in> contextIDs \<and>
           \<not> (length (bdDimensions b) > MaxBindingsPerRole \<or> bdMeasures b = [] \<or>
              length (bdMeasures b) > MaxBindingsPerRole) \<and>
           list_all field_binding_valid (bdDimensions b @ bdMeasures b) \<and>
           distinct (map binding_key (bdDimensions b @ bdMeasures b)) \<and>
           (case bdFilterPolicy b of None \<Rightarrow> True | Some p \<Rightarrow> filter_policy_valid env p))
   | OtherBindingMode _ \<Rightarrow> False)"

definition in_bounds :: "int \<Rightarrow> int \<Rightarrow> int option \<Rightarrow> bool" where
  "in_bounds a b v = (case v of None \<Rightarrow> True | Some n \<Rightarrow> \<not> (n < a \<or> n > b))"

definition insight_ok :: "nat \<Rightarrow> InsightConfig option \<Rightarrow> bool" where
  "insight_ok limit c = (case c of None \<Rightarrow> True | Some v \<Rightarrow> insight_config_error limit v = None)"

definition options_valid :: "val_env \<Rightarrow> ComponentOptions \<Rightarrow> bool" where
  "options_valid env o' \<longleftrightarrow> coRichText o' = veSanitizeRichText env (coRichText o') \<and>
     coOrientation o' \<in> {[], ''HORIZONTAL'', ''VERTICAL''} \<and> in_bounds 1 1000 (coTopN o') \<and>
     coNullPolicy o' \<in> {[], ''GAP'', ''ZERO'', ''HIDE''} \<and>
     coMobileLegendMode o' \<in> {[], ''VISIBLE'', ''HIDDEN'', ''SCROLL''} \<and>
     coCardVariant o' \<in> {[], ''01'', ''02'', ''03''} \<and> opt_id_valid (coImageAssetID o') \<and>
     in_bounds 1 1000 (coTablePageSize o') \<and>
     insight_ok MaxBlocks (coAngleInsight o') \<and> insight_ok MaxComponents (coSubsectionInsight o')"

definition component_valid :: "val_env \<Rightarrow> ID set \<Rightarrow> Component \<Rightarrow> bool" where
  "component_valid env contextIDs c \<longleftrightarrow> valid_id (cpID c) \<and> componentPattern (ctType (cpTemplateRef c)) \<and>
     semverPattern (ctVersion (cpTemplateRef c)) \<and>
     (case cpDataBinding c of None \<Rightarrow> True | Some b \<Rightarrow> binding_valid env contextIDs b) \<and>
     options_valid env (cpOptions c)"

section \<open>Namespaces\<close>

text \<open>A loop whose body extends the state or refuses.\<close>

fun each :: "('a \<Rightarrow> 's \<Rightarrow> 's option) \<Rightarrow> 'a list \<Rightarrow> 's \<Rightarrow> 's option" where
  "each step [] s = Some s"
| "each step (x # xs) s = (case step x s of None \<Rightarrow> None | Some s' \<Rightarrow> each step xs s')"

definition addUniqueID :: "ID \<Rightarrow> ID set \<Rightarrow> ID set option" where
  "addUniqueID i names = (if valid_id i \<and> i \<notin> names then Some (insert i names) else None)"

text \<open>
  The five namespaces of the pages, how often each component is placed, and the blocks so far
  (\<open>totalBlocks\<close>).
\<close>

record namespaces =
  nsPages :: "ID set"
  nsSections :: "ID set"
  nsBlocks :: "ID set"
  nsZones :: "ID set"
  nsSlots :: "ID set"
  nsPlaced :: "ID \<Rightarrow> nat"
  nsTotal :: nat

definition no_names :: namespaces where
  "no_names = \<lparr> nsPages = {}, nsSections = {}, nsBlocks = {}, nsZones = {}, nsSlots = {},
     nsPlaced = (\<lambda>_. 0), nsTotal = 0 \<rparr>"

section \<open>Slots, zones, blocks\<close>

definition slot_valid :: "int \<Rightarrow> int \<Rightarrow> ID set \<Rightarrow> Slot \<Rightarrow> bool" where
  "slot_valid columns rows componentIDs s \<longleftrightarrow> valid_id (slID s) \<and>
     (let g = slGrid s in \<not> (sgX g < 0 \<or> sgY g < 0 \<or> sgW g < 1 \<or> sgH g < 1 \<or>
        wrap64 (sgX g + sgW g) > columns \<or> wrap64 (sgY g + sgH g) > rows)) \<and>
     (slComponentID s \<noteq> [] \<longrightarrow> slComponentID s \<in> componentIDs) \<and>
     rune_count (slCardKind s) \<le> 64 \<and> length (slMergedFrom s) \<noteq> 1 \<and>
     list_all (\<lambda>i. valid_id i \<and> i \<noteq> slID s) (slMergedFrom s) \<and> distinct (slMergedFrom s)"

definition slot_step :: "ZoneLayout \<Rightarrow> ID set \<Rightarrow> Slot \<Rightarrow> namespaces \<Rightarrow> namespaces option" where
  "slot_step l componentIDs s ns = (case addUniqueID (slID s) (nsSlots ns) of None \<Rightarrow> None
     | Some ids \<Rightarrow> if slot_valid (zlColumns l) (zlRows l) componentIDs s
         then Some (ns\<lparr> nsSlots := ids \<rparr>) else None)"

definition zone_step :: "ID set \<Rightarrow> Zone \<Rightarrow> namespaces \<Rightarrow> namespaces option" where
  "zone_step componentIDs z ns = (case addUniqueID (znID z) (nsZones ns) of None \<Rightarrow> None
     | Some ids \<Rightarrow> if valid_id (znID z) \<and> \<not> znOrder z < 0 \<and>
           znType z \<in> {ZoneHeader, ZoneFilter, ZoneInsight, ZoneContent, ZoneFooter} \<and>
           zone_layout_valid (znLayout z)
         then each (slot_step (znLayout z) componentIDs) (znSlots z) (ns\<lparr> nsZones := ids \<rparr>) else None)"

definition mobile_layout_valid :: "MobileBlockLayout \<Rightarrow> bool" where
  "mobile_layout_valid l \<longleftrightarrow> \<not> mbOrder l < 1 \<and>
     mbSlotMode l \<in> {MobileSlotStack, MobileSlotCarousel, MobileSlotPrimaryOnly, MobileSlotCollapse} \<and>
     (if mbSlotMode l = MobileSlotPrimaryOnly
      then (case mbPrimarySlotID l of None \<Rightarrow> False | Some i \<Rightarrow> valid_id i)
      else mbPrimarySlotID l = None) \<and>
     (case mbHeightMode l of
        MobileHeightAuto \<Rightarrow> mbFixedHeight l = None \<and> mbAspectRatio l = None
      | MobileHeightFixed \<Rightarrow> (case mbFixedHeight l of None \<Rightarrow> False | Some h \<Rightarrow> \<not> h < 40) \<and> mbAspectRatio l = None
      | MobileHeightAspectRatio \<Rightarrow> (case mbAspectRatio l of None \<Rightarrow> False | Some r \<Rightarrow> r > 0) \<and> mbFixedHeight l = None
      | OtherMobileHeight _ \<Rightarrow> False)"

definition validBlockType :: "BlockType \<Rightarrow> bool" where
  "validBlockType t \<longleftrightarrow> t \<in> {BlockAnalysisCard, BlockKPIGroup, BlockChart, BlockTable, BlockContent, BlockFilter}"

definition block_fits :: "int \<Rightarrow> DesktopBlockLayout \<Rightarrow> bool" where
  "block_fits columns g \<longleftrightarrow>
     \<not> (dbX g < 0 \<or> dbY g < 0 \<or> dbW g < 1 \<or> dbH g < 1 \<or> wrap64 (dbX g + dbW g) > columns)"

definition block_valid :: "int \<Rightarrow> ID set \<Rightarrow> Block \<Rightarrow> namespaces \<Rightarrow> namespaces option" where
  "block_valid columns componentIDs b ns =
     (if valid_id (bkID b) \<and> validBlockType (bkType b) \<and> rune_count (bkTitle b) \<le> 200 \<and>
         block_fits columns (blDesktop (bkLayout b)) \<and> mobile_layout_valid (blMobile (bkLayout b)) \<and>
         length (bkZones b) \<le> MaxZonesPerBlock \<and>
         (\<Sum>z\<leftarrow>bkZones b. length (znSlots z)) \<le> MaxSlotsInBlock \<and>
         (let orderedZones = length (filter (\<lambda>z. znOrder z > 0) (bkZones b)) in
          \<not> (orderedZones \<noteq> 0 \<and> orderedZones \<noteq> length (bkZones b)))
      then each (zone_step componentIDs) (bkZones b) ns else None)"

section \<open>Pages\<close>

definition count_placed :: "Block \<Rightarrow> (ID \<Rightarrow> nat) \<Rightarrow> ID \<Rightarrow> nat" where
  "count_placed b placed = fold (\<lambda>z. fold (\<lambda>s p. if slComponentID s \<noteq> []
       then p(slComponentID s := p (slComponentID s) + 1) else p) (znSlots z)) (bkZones b) placed"

definition block_step :: "int \<Rightarrow> ID set \<Rightarrow> Block \<Rightarrow> namespaces \<Rightarrow> namespaces option" where
  "block_step columns componentIDs b ns = (case addUniqueID (bkID b) (nsBlocks ns) of None \<Rightarrow> None
     | Some ids \<Rightarrow> (case block_valid columns componentIDs b (ns\<lparr> nsBlocks := ids \<rparr>) of None \<Rightarrow> None
         | Some ns' \<Rightarrow> Some (ns'\<lparr> nsPlaced := count_placed b (nsPlaced ns') \<rparr>)))"

definition section_step :: "int \<Rightarrow> ID set \<Rightarrow> Section \<Rightarrow> namespaces \<Rightarrow> namespaces option" where
  "section_step columns componentIDs sec ns = (case addUniqueID (scID sec) (nsSections ns) of None \<Rightarrow> None
     | Some ids \<Rightarrow>
         let n = nsTotal ns + length (scBlocks sec) in
         if \<not> (trim_space (scName sec) = [] \<or> scOrder sec < 1) \<and> n \<le> MaxBlocks
         then each (block_step columns componentIDs) (scBlocks sec) (ns\<lparr> nsSections := ids, nsTotal := n \<rparr>)
         else None)"

definition page_step :: "int \<Rightarrow> ID set \<Rightarrow> Page \<Rightarrow> namespaces \<Rightarrow> namespaces option" where
  "page_step columns componentIDs p ns = (case addUniqueID (pgID p) (nsPages ns) of None \<Rightarrow> None
     | Some ids \<Rightarrow>
         if \<not> (trim_space (pgName p) = [] \<or> pgOrder p < 1) \<and> length (pgSections p) \<le> MaxSectionsPerPage
         then each (section_step columns componentIDs) (pgSections p) (ns\<lparr> nsPages := ids \<rparr>) else None)"

section \<open>Filters and interactions\<close>

definition select_types :: "FilterType list" where
  "select_types = [FilterSingleSelect, FilterMultiSelect, FilterSearchSelect, FilterSelect]"

definition scope_names :: "namespaces \<Rightarrow> ID set \<Rightarrow> FilterScopeType \<Rightarrow> ID set option" where
  "scope_names ns componentIDs t = (case t of FilterScopePage \<Rightarrow> Some (nsPages ns)
     | FilterScopeSection \<Rightarrow> Some (nsSections ns) | FilterScopeBlock \<Rightarrow> Some (nsBlocks ns)
     | FilterScopeComponent \<Rightarrow> Some componentIDs | _ \<Rightarrow> None)"

definition filter_valid :: "ID set \<Rightarrow> namespaces \<Rightarrow> ID set \<Rightarrow> GlobalFilter \<Rightarrow> bool" where
  "filter_valid contextIDs ns componentIDs f \<longleftrightarrow> valid_id (gfID f) \<and>
     (case gfType f of OtherFilterType _ \<Rightarrow> False | _ \<Rightarrow> True) \<and>
     length (gfLabel f) \<le> MaxStringLength \<and> length (gfOptions f) \<le> 100 \<and>
     (gfOptions f \<noteq> [] \<longrightarrow> gfType f \<in> set select_types \<and>
        list_all (\<lambda>v. trim_space v \<noteq> [] \<and> length v \<le> MaxStringLength) (gfOptions f) \<and>
        distinct (gfOptions f)) \<and>
     frDataContextID (gfFieldRef f) \<in> contextIDs \<and> fieldPattern (frField (gfFieldRef f)) \<and>
     (let ts = fsTargetIDs (gfScope f) in
      if fsType (gfScope f) = FilterScopeReport then ts = []
      else (case scope_names ns componentIDs (fsType (gfScope f)) of None \<Rightarrow> False
        | Some names \<Rightarrow> ts \<noteq> [] \<and> list_all (\<lambda>t. t \<in> names) ts \<and> distinct ts))"

definition interaction_valid :: "ID set \<Rightarrow> ID set \<Rightarrow> Interaction \<Rightarrow> bool" where
  "interaction_valid componentIDs pageIDs i \<longleftrightarrow> valid_id (inID i) \<and> inSourceComponentID i \<in> componentIDs \<and>
     inEvent i \<in> {''CLICK'', ''SELECT'', ''BRUSH'', ''ZOOM''} \<and>
     (if inAction i \<in> {''FILTER'', ''DRILL_DOWN'', ''HIGHLIGHT''}
      then \<not> (inTargetComponentIDs i = [] \<or> inTargetPageID i \<noteq> None)
      else if inAction i = ''NAVIGATE_PAGE''
      then (case inTargetPageID i of None \<Rightarrow> False | Some p \<Rightarrow> inTargetComponentIDs i = [] \<and> p \<in> pageIDs)
      else False) \<and>
     \<not> (length (inTargetComponentIDs i) > MaxInteractionLinks \<or> length (inFieldMappings i) > MaxInteractionLinks) \<and>
     list_all (\<lambda>t. t \<in> componentIDs) (inTargetComponentIDs i) \<and> distinct (inTargetComponentIDs i) \<and>
     list_all (\<lambda>m. fieldPattern (fmSourceField m) \<and> fieldPattern (fmTargetField m)) (inFieldMappings i)"

section \<open>The definition\<close>

definition unique_ids :: "ID list \<Rightarrow> ID set option" where
  "unique_ids is = each addUniqueID is {}"

definition mapping_resolves :: "GlobalFilter list \<Rightarrow> GlobalFilterMapping \<Rightarrow> bool" where
  "mapping_resolves fs m = (case map_of (map (\<lambda>f. (gfID f, f)) (rev fs)) (gmFilterID m) of None \<Rightarrow> False
     | Some f \<Rightarrow> fsType (gfScope f) = FilterScopeReport)"

definition mappings_of :: "Component \<Rightarrow> GlobalFilterMapping list" where
  "mappings_of c = (case cpDataBinding c of None \<Rightarrow> [] | Some b \<Rightarrow>
     (case bdFilterPolicy b of None \<Rightarrow> [] | Some p \<Rightarrow> cfGlobalMappings p))"

definition counts_valid :: "ReportDefinition \<Rightarrow> bool" where
  "counts_valid d \<longleftrightarrow> length (rdDataContexts d) \<le> MaxDataContexts \<and> length (rdGlobalFilters d) \<le> MaxGlobalFilters \<and>
     \<not> (rdPages d = [] \<or> length (rdPages d) > MaxPages) \<and> length (rdComponents d) \<le> MaxComponents \<and>
     length (rdInteractions d) \<le> MaxInteractions"

definition filters_valid :: "ReportDefinition \<Rightarrow> ID set \<Rightarrow> namespaces \<Rightarrow> ID set \<Rightarrow> bool" where
  "filters_valid d contextIDs ns componentIDs \<longleftrightarrow>
     unique_ids (map gfID (rdGlobalFilters d)) \<noteq> None \<and>
     list_all (filter_valid contextIDs ns componentIDs) (rdGlobalFilters d) \<and>
     list_all (\<lambda>c. list_all (mapping_resolves (rdGlobalFilters d)) (mappings_of c)) (rdComponents d)"

definition definition_valid :: "val_env \<Rightarrow> ReportDefinition \<Rightarrow> bool" where
  "definition_valid env d \<longleftrightarrow> veEncoding env d \<and> rdSchemaVersion d = SchemaVersion \<and>
     metadata_valid (rdMetadata d) \<and> template_ref_valid (rdTemplateRef d) \<and> theme_ref_valid (rdThemeRef d) \<and>
     canvas_valid (rdCanvas d) \<and> counts_valid d \<and>
     (case (unique_ids (map dxID (rdDataContexts d)), unique_ids (map cpID (rdComponents d))) of
        (Some contextIDs, Some componentIDs) \<Rightarrow>
          list_all context_valid (rdDataContexts d) \<and>
          list_all (component_valid env contextIDs) (rdComponents d) \<and>
          (case each (page_step (dcColumns (cvDesktop (rdCanvas d))) componentIDs) (rdPages d) no_names of
             None \<Rightarrow> False
           | Some ns \<Rightarrow>
               list_all (\<lambda>c. nsPlaced ns (cpID c) = 1) (rdComponents d) \<and>
               filters_valid d contextIDs ns componentIDs \<and>
               unique_ids (map inID (rdInteractions d)) \<noteq> None \<and>
               list_all (interaction_valid componentIDs (nsPages ns)) (rdInteractions d))
      | _ \<Rightarrow> False) \<and>
     runtime_policy_valid (rdRuntimePolicy d) \<and> provenance_valid (rdProvenance d)"

end
