(* ===== verification/ReportValidateProperties.thy ===== *)
theory ReportValidateProperties imports ReportValidate begin

text \<open>
  What a Report Definition that passes \<open>Validate\<close> promises to the code that edits, lays out and
  runs it: identifiers that are unique per namespace, references that resolve, every component in
  one slot, and rectangles inside their grids (up to the wrap-around of a 64-bit sum).
\<close>

section \<open>Walking a definition\<close>

definition all_sections :: "ReportDefinition \<Rightarrow> Section list" where
  "all_sections d = concat (map pgSections (rdPages d))"

definition all_blocks :: "ReportDefinition \<Rightarrow> Block list" where
  "all_blocks d = concat (map scBlocks (all_sections d))"

definition all_zones :: "ReportDefinition \<Rightarrow> Zone list" where
  "all_zones d = concat (map bkZones (all_blocks d))"

definition all_slots :: "ReportDefinition \<Rightarrow> Slot list" where
  "all_slots d = concat (map znSlots (all_zones d))"

definition filled :: "Slot list \<Rightarrow> ID list" where
  "filled ss = filter (\<lambda>i. i \<noteq> []) (map slComponentID ss)"

lemma filled_simps [simp]: "filled [] = []" "filled (xs @ ys) = filled xs @ filled ys"
  "filled (s # xs) = (if slComponentID s \<noteq> [] then slComponentID s # filled xs else filled xs)"
  by (simp_all add: filled_def)

lemma filled_concat: "filled (concat xss) = concat (map filled xss)"
  by (induction xss) simp_all

section \<open>What a step adds\<close>

text \<open>
  A step \<open>extends\<close> a namespace by the identifiers of its element when it refuses invalid and
  repeated ones; a loop over such a step extends it by all of them.
\<close>

definition extends :: "('s \<Rightarrow> ID set) \<Rightarrow> ('a \<Rightarrow> ID list) \<Rightarrow> ('a \<Rightarrow> 's \<Rightarrow> 's option) \<Rightarrow> bool" where
  "extends names ids step \<longleftrightarrow> (\<forall>x s s'. step x s = Some s' \<longrightarrow>
     distinct (ids x) \<and> (\<forall>i\<in>set (ids x). valid_id i) \<and> set (ids x) \<inter> names s = {} \<and>
     names s' = names s \<union> set (ids x))"

lemma extendsD:
  "extends names ids step \<Longrightarrow> step x s = Some s' \<Longrightarrow> distinct (ids x) \<and> (\<forall>i\<in>set (ids x). valid_id i) \<and>
     set (ids x) \<inter> names s = {} \<and> names s' = names s \<union> set (ids x)"
  unfolding extends_def by blast

lemma extends_each:
  assumes "extends names ids step"
  shows "extends names (\<lambda>xs. concat (map ids xs)) (each step)"
  unfolding extends_def
proof (intro allI)
  fix xs s s'
  show "each step xs s = Some s' \<longrightarrow> distinct (concat (map ids xs)) \<and>
     (\<forall>i\<in>set (concat (map ids xs)). valid_id i) \<and> set (concat (map ids xs)) \<inter> names s = {} \<and>
     names s' = names s \<union> set (concat (map ids xs))"
  proof (induction xs arbitrary: s)
    case Nil
    then show ?case by simp
  next
    case (Cons x xs)
    show ?case
    proof
      assume "each step (x # xs) s = Some s'"
      then obtain s1 where 1: "step x s = Some s1" and 2: "each step xs s1 = Some s'"
        by (auto split: option.splits)
      show "distinct (concat (map ids (x # xs))) \<and>
        (\<forall>i\<in>set (concat (map ids (x # xs))). valid_id i) \<and> set (concat (map ids (x # xs))) \<inter> names s = {} \<and>
        names s' = names s \<union> set (concat (map ids (x # xs)))"
        using extendsD [OF assms 1] Cons.IH [of s1] 2 by auto
    qed
  qed
qed

lemma extends_each_none:
  assumes "extends names (\<lambda>_. []) step"
  shows "extends names (\<lambda>_. []) (each step)"
proof -
  have "(\<lambda>xs :: 'b list. concat (map (\<lambda>_. [] :: ID list) xs)) = (\<lambda>_. [])" by auto
  with extends_each [OF assms] show ?thesis by simp
qed

definition places :: "('a \<Rightarrow> ID list) \<Rightarrow> ('a \<Rightarrow> namespaces \<Rightarrow> namespaces option) \<Rightarrow> bool" where
  "places ids step \<longleftrightarrow> (\<forall>x s s'. step x s = Some s' \<longrightarrow>
     nsPlaced s' = (\<lambda>c. nsPlaced s c + count_list (ids x) c))"

lemma places_each: "places ids step \<Longrightarrow> places (\<lambda>xs. concat (map ids xs)) (each step)"
  unfolding places_def
proof (intro allI)
  fix xs s s'
  assume p: "\<forall>x s s'. step x s = Some s' \<longrightarrow> nsPlaced s' = (\<lambda>c. nsPlaced s c + count_list (ids x) c)"
  show "each step xs s = Some s' \<longrightarrow> nsPlaced s' = (\<lambda>c. nsPlaced s c + count_list (concat (map ids xs)) c)"
  proof (induction xs arbitrary: s)
    case Nil
    then show ?case by auto
  next
    case (Cons x xs)
    then show ?case using p by (auto split: option.splits simp: fun_eq_iff)
  qed
qed

lemma each_elements:
  assumes "each step xs s = Some s'" and "x \<in> set xs"
  obtains a b where "step x a = Some b"
proof -
  have "x \<in> set xs \<Longrightarrow> each step xs s = Some s' \<Longrightarrow> \<exists>a b. step x a = Some b"
  proof (induction xs arbitrary: s)
    case Nil
    then show ?case by simp
  next
    case (Cons y ys)
    then show ?case by (auto split: option.splits)
  qed
  with assms that show thesis by blast
qed

lemma addUniqueID_Some: "addUniqueID i names = Some r \<longleftrightarrow> valid_id i \<and> i \<notin> names \<and> r = insert i names"
  by (auto simp: addUniqueID_def)

lemma extends_unique: "extends (\<lambda>s. s) (\<lambda>i. [i]) addUniqueID"
  by (auto simp: extends_def addUniqueID_Some)

lemma unique_ids_Some: "unique_ids is = Some r \<Longrightarrow> distinct is \<and> (\<forall>i\<in>set is. valid_id i) \<and> r = set is"
  using extendsD [OF extends_each [OF extends_unique], of "is" "{}" r] by (simp add: unique_ids_def concat_map_singleton)

section \<open>The steps of the walk\<close>

named_theorems walk_defs \<open>the steps of the walk, with the namespace each one extends\<close>

declare slot_step_def [walk_defs] zone_step_def [walk_defs] block_valid_def [walk_defs]
  block_step_def [walk_defs] section_step_def [walk_defs] page_step_def [walk_defs]
  addUniqueID_Some [walk_defs] Let_def [walk_defs]

abbreviation block_slots :: "Block \<Rightarrow> Slot list" where
  "block_slots b \<equiv> concat (map znSlots (bkZones b))"

abbreviation section_blocks :: "Page \<Rightarrow> Block list" where
  "section_blocks p \<equiv> concat (map scBlocks (pgSections p))"

lemma slot_step_extends:
  "extends nsSlots (\<lambda>s. [slID s]) (slot_step l cs)" "extends nsZones (\<lambda>_. []) (slot_step l cs)"
  "extends nsBlocks (\<lambda>_. []) (slot_step l cs)" "extends nsSections (\<lambda>_. []) (slot_step l cs)"
  "extends nsPages (\<lambda>_. []) (slot_step l cs)" "places (\<lambda>_. []) (slot_step l cs)"
  by (auto simp: extends_def places_def walk_defs split: option.splits if_splits)

lemmas slots_extend = slot_step_extends(1) [THEN extends_each] slot_step_extends(2-5) [THEN extends_each_none]
  slot_step_extends(6) [THEN places_each]

lemma zone_step_extends:
  "extends nsZones (\<lambda>z. [znID z]) (zone_step cs)" "extends nsSlots (\<lambda>z. map slID (znSlots z)) (zone_step cs)"
  "extends nsBlocks (\<lambda>_. []) (zone_step cs)" "extends nsSections (\<lambda>_. []) (zone_step cs)"
  "extends nsPages (\<lambda>_. []) (zone_step cs)" "places (\<lambda>_. []) (zone_step cs)"
proof -
  have *: "valid_id (znID z) \<and> znID z \<notin> nsZones s \<and> nsZones s' = insert (znID z) (nsZones s) \<and>
      distinct (map slID (znSlots z)) \<and> (\<forall>x\<in>set (znSlots z). valid_id (slID x)) \<and>
      slID ` set (znSlots z) \<inter> nsSlots s = {} \<and> nsSlots s' = nsSlots s \<union> slID ` set (znSlots z) \<and>
      nsBlocks s' = nsBlocks s \<and> nsSections s' = nsSections s \<and> nsPages s' = nsPages s \<and> nsPlaced s' = nsPlaced s"
    if "zone_step cs z s = Some s'" for z s s'
  proof -
    from that have id: "valid_id (znID z)" "znID z \<notin> nsZones s"
      and e: "each (slot_step (znLayout z) cs) (znSlots z) (s\<lparr>nsZones := insert (znID z) (nsZones s)\<rparr>) = Some s'"
      by (auto simp: walk_defs split: option.splits if_splits)
    show ?thesis
      using id slots_extend(1-5) [THEN extendsD, OF e] slots_extend(6) [unfolded places_def, rule_format, OF e]
      by (simp add: concat_map_singleton)
  qed
  from * show "extends nsZones (\<lambda>z. [znID z]) (zone_step cs)" "extends nsSlots (\<lambda>z. map slID (znSlots z)) (zone_step cs)"
    "extends nsBlocks (\<lambda>_. []) (zone_step cs)" "extends nsSections (\<lambda>_. []) (zone_step cs)"
    "extends nsPages (\<lambda>_. []) (zone_step cs)" "places (\<lambda>_. []) (zone_step cs)"
    unfolding extends_def places_def by - (intro allI impI, drule *, simp add: concat_map_singleton)+
qed

lemmas zones_extend = zone_step_extends(1,2) [THEN extends_each]
  zone_step_extends(3-5) [THEN extends_each_none] zone_step_extends(6) [THEN places_each]

lemma count_placed_slots:
  "fold (\<lambda>s p. if slComponentID s \<noteq> [] then p(slComponentID s := p (slComponentID s) + 1) else p) ss p =
     (\<lambda>c. p c + count_list (filled ss) c)"
  by (induction ss arbitrary: p) (auto simp: fun_eq_iff)

lemma count_placed: "count_placed b p = (\<lambda>c. p c + count_list (filled (block_slots b)) c)"
proof -
  have "fold (\<lambda>z. fold (\<lambda>s p. if slComponentID s \<noteq> []
       then p(slComponentID s := p (slComponentID s) + 1) else p) (znSlots z)) zs p =
     (\<lambda>c. p c + count_list (filled (concat (map znSlots zs))) c)" for zs
    by (induction zs arbitrary: p) (simp_all add: count_placed_slots fun_eq_iff)
  then show ?thesis by (simp add: count_placed_def)
qed

lemma block_step_extends:
  "extends nsBlocks (\<lambda>b. [bkID b]) (block_step n cs)" "extends nsZones (\<lambda>b. map znID (bkZones b)) (block_step n cs)"
  "extends nsSlots (\<lambda>b. map slID (block_slots b)) (block_step n cs)"
  "extends nsSections (\<lambda>_. []) (block_step n cs)" "extends nsPages (\<lambda>_. []) (block_step n cs)"
  "places (\<lambda>b. filled (block_slots b)) (block_step n cs)"
proof -
  have *: "valid_id (bkID b) \<and> bkID b \<notin> nsBlocks s \<and> nsBlocks s' = insert (bkID b) (nsBlocks s) \<and>
      distinct (map znID (bkZones b)) \<and> (\<forall>i\<in>znID ` set (bkZones b). valid_id i) \<and>
      znID ` set (bkZones b) \<inter> nsZones s = {} \<and> nsZones s' = nsZones s \<union> znID ` set (bkZones b) \<and>
      distinct (map slID (block_slots b)) \<and> (\<forall>i\<in>set (map slID (block_slots b)). valid_id i) \<and>
      set (map slID (block_slots b)) \<inter> nsSlots s = {} \<and> nsSlots s' = nsSlots s \<union> set (map slID (block_slots b)) \<and>
      nsSections s' = nsSections s \<and> nsPages s' = nsPages s \<and>
      nsPlaced s' = (\<lambda>c. nsPlaced s c + count_list (filled (block_slots b)) c)"
    if st: "block_step n cs b s = Some s'" for b s s'
  proof -
    from st obtain ns where id: "valid_id (bkID b)" "bkID b \<notin> nsBlocks s"
      and e: "each (zone_step cs) (bkZones b) (s\<lparr>nsBlocks := insert (bkID b) (nsBlocks s)\<rparr>) = Some ns"
      and s': "s' = ns\<lparr> nsPlaced := count_placed b (nsPlaced ns) \<rparr>"
      by (auto simp: walk_defs split: option.splits if_splits)
    have m: "concat (map (\<lambda>z. map slID (znSlots z)) (bkZones b)) = map slID (block_slots b)"
      by (simp add: map_concat comp_def)
    show ?thesis
      using id zones_extend(1-5) [THEN extendsD, OF e] zones_extend(6) [unfolded places_def, rule_format, OF e]
      by (simp add: s' concat_map_singleton count_placed m)
  qed
  from * show "extends nsBlocks (\<lambda>b. [bkID b]) (block_step n cs)" "extends nsZones (\<lambda>b. map znID (bkZones b)) (block_step n cs)"
    "extends nsSlots (\<lambda>b. map slID (block_slots b)) (block_step n cs)"
    "extends nsSections (\<lambda>_. []) (block_step n cs)" "extends nsPages (\<lambda>_. []) (block_step n cs)"
    "places (\<lambda>b. filled (block_slots b)) (block_step n cs)"
    unfolding extends_def places_def by - (intro allI impI, drule *, simp)+
qed

lemmas blocks_extend = block_step_extends(1-3) [THEN extends_each]
  block_step_extends(4,5) [THEN extends_each_none] block_step_extends(6) [THEN places_each]

abbreviation section_slots :: "Section \<Rightarrow> Slot list" where
  "section_slots sec \<equiv> concat (map block_slots (scBlocks sec))"

abbreviation page_slots :: "Page \<Rightarrow> Slot list" where
  "page_slots p \<equiv> concat (map section_slots (pgSections p))"

lemma section_step_extends:
  "extends nsSections (\<lambda>x. [scID x]) (section_step n cs)"
  "extends nsBlocks (\<lambda>x. map bkID (scBlocks x)) (section_step n cs)"
  "extends nsZones (\<lambda>x. concat (map (\<lambda>b. map znID (bkZones b)) (scBlocks x))) (section_step n cs)"
  "extends nsSlots (\<lambda>x. concat (map (\<lambda>b. map slID (block_slots b)) (scBlocks x))) (section_step n cs)"
  "extends nsPages (\<lambda>_. []) (section_step n cs)"
  "places (\<lambda>x. concat (map (\<lambda>b. filled (block_slots b)) (scBlocks x))) (section_step n cs)"
proof -
  have *: "valid_id (scID x) \<and> scID x \<notin> nsSections s \<and> (\<exists>t.
      each (block_step n cs) (scBlocks x) (s\<lparr>nsSections := insert (scID x) (nsSections s), nsTotal := t\<rparr>) = Some s')"
    if "section_step n cs x s = Some s'" for x s s'
    using that by (auto simp: walk_defs split: option.splits if_splits)
  show "extends nsSections (\<lambda>x. [scID x]) (section_step n cs)" unfolding extends_def
    by (intro allI impI, drule *) (auto dest!: blocks_extend(4) [THEN extendsD])
  show "extends nsBlocks (\<lambda>x. map bkID (scBlocks x)) (section_step n cs)" unfolding extends_def
    by (intro allI impI, drule *, elim conjE exE, drule blocks_extend(1) [THEN extendsD]) (simp add: concat_map_singleton)
  show "extends nsZones (\<lambda>x. concat (map (\<lambda>b. map znID (bkZones b)) (scBlocks x))) (section_step n cs)" unfolding extends_def
    by (intro allI impI, drule *, elim conjE exE, drule blocks_extend(2) [THEN extendsD]) simp
  show "extends nsSlots (\<lambda>x. concat (map (\<lambda>b. map slID (block_slots b)) (scBlocks x))) (section_step n cs)" unfolding extends_def
    by (intro allI impI, drule *, elim conjE exE, drule blocks_extend(3) [THEN extendsD]) simp
  show "extends nsPages (\<lambda>_. []) (section_step n cs)" unfolding extends_def
    by (intro allI impI, drule *, elim conjE exE, drule blocks_extend(5) [THEN extendsD]) simp
  show "places (\<lambda>x. concat (map (\<lambda>b. filled (block_slots b)) (scBlocks x))) (section_step n cs)" unfolding places_def
    by (intro allI impI, drule *, elim conjE exE, drule blocks_extend(6) [unfolded places_def, rule_format]) simp
qed

lemmas sections_extend = section_step_extends(1-4) [THEN extends_each]
  section_step_extends(5) [THEN extends_each_none] section_step_extends(6) [THEN places_each]

lemma page_step_extends:
  "extends nsPages (\<lambda>x. [pgID x]) (page_step n cs)"
  "extends nsSections (\<lambda>x. map scID (pgSections x)) (page_step n cs)"
  "extends nsBlocks (\<lambda>x. concat (map (\<lambda>y. map bkID (scBlocks y)) (pgSections x))) (page_step n cs)"
  "extends nsZones (\<lambda>x. concat (map (\<lambda>y. concat (map (\<lambda>b. map znID (bkZones b)) (scBlocks y))) (pgSections x))) (page_step n cs)"
  "extends nsSlots (\<lambda>x. concat (map (\<lambda>y. concat (map (\<lambda>b. map slID (block_slots b)) (scBlocks y))) (pgSections x))) (page_step n cs)"
  "places (\<lambda>x. concat (map (\<lambda>y. concat (map (\<lambda>b. filled (block_slots b)) (scBlocks y))) (pgSections x))) (page_step n cs)"
proof -
  have *: "valid_id (pgID x) \<and> pgID x \<notin> nsPages s \<and>
      each (section_step n cs) (pgSections x) (s\<lparr>nsPages := insert (pgID x) (nsPages s)\<rparr>) = Some s'"
    if "page_step n cs x s = Some s'" for x s s'
    using that by (auto simp: walk_defs split: option.splits if_splits)
  show "extends nsPages (\<lambda>x. [pgID x]) (page_step n cs)" unfolding extends_def
    by (intro allI impI, drule *) (auto dest!: sections_extend(5) [THEN extendsD])
  show "extends nsSections (\<lambda>x. map scID (pgSections x)) (page_step n cs)" unfolding extends_def
    by (intro allI impI, drule *, elim conjE, drule sections_extend(1) [THEN extendsD]) (simp add: concat_map_singleton)
  show "extends nsBlocks (\<lambda>x. concat (map (\<lambda>y. map bkID (scBlocks y)) (pgSections x))) (page_step n cs)" unfolding extends_def
    by (intro allI impI, drule *, elim conjE, drule sections_extend(2) [THEN extendsD]) simp
  show "extends nsZones (\<lambda>x. concat (map (\<lambda>y. concat (map (\<lambda>b. map znID (bkZones b)) (scBlocks y))) (pgSections x))) (page_step n cs)"
    unfolding extends_def by (intro allI impI, drule *, elim conjE, drule sections_extend(3) [THEN extendsD]) simp
  show "extends nsSlots (\<lambda>x. concat (map (\<lambda>y. concat (map (\<lambda>b. map slID (block_slots b)) (scBlocks y))) (pgSections x))) (page_step n cs)"
    unfolding extends_def by (intro allI impI, drule *, elim conjE, drule sections_extend(4) [THEN extendsD]) simp
  show "places (\<lambda>x. concat (map (\<lambda>y. concat (map (\<lambda>b. filled (block_slots b)) (scBlocks y))) (pgSections x))) (page_step n cs)"
    unfolding places_def by (intro allI impI, drule *, elim conjE, drule sections_extend(6) [unfolded places_def, rule_format]) simp
qed

lemmas pages_extend = page_step_extends(1-5) [THEN extends_each] page_step_extends(6) [THEN places_each]

text \<open>Every element of an accepted walk was accepted by its own step.\<close>

lemma page_stepD: "page_step n cs x s = Some s' \<Longrightarrow>
    each (section_step n cs) (pgSections x) (s\<lparr>nsPages := insert (pgID x) (nsPages s)\<rparr>) = Some s'"
  by (auto simp: walk_defs split: option.splits if_splits)

lemma section_stepD: "section_step n cs x s = Some s' \<Longrightarrow> each (block_step n cs) (scBlocks x)
    (s\<lparr>nsSections := insert (scID x) (nsSections s), nsTotal := nsTotal s + length (scBlocks x)\<rparr>) = Some s'"
  by (auto simp: walk_defs split: option.splits if_splits)

lemma block_stepD: "block_step n cs b s = Some s' \<Longrightarrow>
    block_valid n cs b (s\<lparr>nsBlocks := insert (bkID b) (nsBlocks s)\<rparr>) \<noteq> None"
  by (auto simp: block_step_def addUniqueID_Some split: option.splits)

lemma block_validD: "block_valid n cs b s = Some s' \<Longrightarrow> each (zone_step cs) (bkZones b) s = Some s' \<and>
    block_fits n (blDesktop (bkLayout b)) \<and> mobile_layout_valid (blMobile (bkLayout b))"
  by (auto simp: block_valid_def split: if_splits)

lemma zone_stepD: "zone_step cs z s = Some s' \<Longrightarrow> zone_layout_valid (znLayout z) \<and>
    each (slot_step (znLayout z) cs) (znSlots z) (s\<lparr>nsZones := insert (znID z) (nsZones s)\<rparr>) = Some s'"
  by (auto simp: walk_defs split: option.splits if_splits)

lemma slot_stepD: "slot_step l cs x s = Some s' \<Longrightarrow> slot_valid (zlColumns l) (zlRows l) cs x"
  by (auto simp: walk_defs split: option.splits if_splits)

lemma walk_elements:
  assumes e: "each (page_step n cs) ps s = Some s'" and p: "p \<in> set ps" and sec: "sec \<in> set (pgSections p)"
    and b: "b \<in> set (scBlocks sec)"
  shows "block_fits n (blDesktop (bkLayout b))" and "mobile_layout_valid (blMobile (bkLayout b))"
    and "z \<in> set (bkZones b) \<Longrightarrow> zone_layout_valid (znLayout z)"
    and "z \<in> set (bkZones b) \<Longrightarrow> x \<in> set (znSlots z) \<Longrightarrow> slot_valid (zlColumns (znLayout z)) (zlRows (znLayout z)) cs x"
    and "distinct (map znID (bkZones b))"
proof -
  obtain s1 s2 where "page_step n cs p s1 = Some s2" using each_elements [OF e p] .
  note ps = page_stepD [OF this]
  obtain s4 s5 where "section_step n cs sec s4 = Some s5" using each_elements [OF ps sec] .
  note ss = section_stepD [OF this]
  obtain s6 s7 where bs: "block_step n cs b s6 = Some s7" using each_elements [OF ss b] .
  show "distinct (map znID (bkZones b))" using block_step_extends(2) [THEN extendsD, OF bs] by blast
  from block_stepD [OF bs] obtain s8 s9 where bv: "block_valid n cs b s8 = Some s9" by blast
  note zs = block_validD [OF bv]
  from zs show "block_fits n (blDesktop (bkLayout b))" "mobile_layout_valid (blMobile (bkLayout b))" by blast+
  have step: "\<exists>t u. zone_step cs z t = Some u" if "z \<in> set (bkZones b)" for z
    using each_elements [OF zs [THEN conjunct1] that] by blast
  show "zone_layout_valid (znLayout z)" if z: "z \<in> set (bkZones b)"
    using step [OF z] zone_stepD by blast
  show "slot_valid (zlColumns (znLayout z)) (zlRows (znLayout z)) cs x" if z: "z \<in> set (bkZones b)" and x: "x \<in> set (znSlots z)"
  proof -
    obtain t u where "zone_step cs z t = Some u" using step [OF z] by blast
    then obtain v w where "slot_step (znLayout z) cs x v = Some w"
      using each_elements [OF zone_stepD [THEN conjunct2] x] by metis
    then show ?thesis by (rule slot_stepD)
  qed
qed

section \<open>Referential integrity\<close>

definition unique_and_valid :: "ID list \<Rightarrow> bool" where
  "unique_and_valid is \<longleftrightarrow> distinct is \<and> list_all valid_id is"

definition identifiers_unique :: "ReportDefinition \<Rightarrow> bool" where
  "identifiers_unique d \<longleftrightarrow> list_all unique_and_valid
     [map pgID (rdPages d), map scID (all_sections d), map bkID (all_blocks d), map znID (all_zones d),
      map slID (all_slots d), map cpID (rdComponents d), map dxID (rdDataContexts d),
      map gfID (rdGlobalFilters d), map inID (rdInteractions d)]"

fun scope_ids :: "ReportDefinition \<Rightarrow> FilterScopeType \<Rightarrow> ID list" where
  "scope_ids d FilterScopePage = map pgID (rdPages d)"
| "scope_ids d FilterScopeSection = map scID (all_sections d)"
| "scope_ids d FilterScopeBlock = map bkID (all_blocks d)"
| "scope_ids d FilterScopeComponent = map cpID (rdComponents d)"
| "scope_ids d _ = []"

definition filter_resolves :: "ReportDefinition \<Rightarrow> GlobalFilter \<Rightarrow> bool" where
  "filter_resolves d f \<longleftrightarrow> frDataContextID (gfFieldRef f) \<in> set (map dxID (rdDataContexts d)) \<and>
     set (fsTargetIDs (gfScope f)) \<subseteq> set (scope_ids d (fsType (gfScope f))) \<and>
     (fsTargetIDs (gfScope f) = [] \<longleftrightarrow> fsType (gfScope f) = FilterScopeReport)"

definition interaction_resolves :: "ReportDefinition \<Rightarrow> Interaction \<Rightarrow> bool" where
  "interaction_resolves d i \<longleftrightarrow>
     set (inSourceComponentID i # inTargetComponentIDs i) \<subseteq> set (map cpID (rdComponents d)) \<and>
     set_option (inTargetPageID i) \<subseteq> set (map pgID (rdPages d)) \<and>
     (inTargetComponentIDs i = []) = (inTargetPageID i \<noteq> None)"

definition component_resolves :: "ReportDefinition \<Rightarrow> Component \<Rightarrow> bool" where
  "component_resolves d c \<longleftrightarrow>
     (case cpDataBinding c of None \<Rightarrow> True | Some b \<Rightarrow>
        set_option (bdDataContextID b) \<subseteq> set (map dxID (rdDataContexts d)) \<and>
        (bdDataContextID b = None) = (bdSemanticQueryRef b \<noteq> None)) \<and>
     (\<forall>m\<in>set (mappings_of c). \<exists>f\<in>set (rdGlobalFilters d). gfID f = gmFilterID m \<and> fsType (gfScope f) = FilterScopeReport)"

definition references_resolve :: "ReportDefinition \<Rightarrow> bool" where
  "references_resolve d \<longleftrightarrow> list_all (filter_resolves d) (rdGlobalFilters d) \<and>
     list_all (interaction_resolves d) (rdInteractions d) \<and> list_all (component_resolves d) (rdComponents d)"

lemma concat_map_concat': "concat (map f (concat xss)) = concat (map (\<lambda>xs. concat (map f xs)) xss)"
  by (induction xss) simp_all

lemma concat_concat': "concat (concat xss) = concat (map concat xss)"
  by (induction xss) simp_all

lemma all_ids:
  "concat (map (\<lambda>x. map scID (pgSections x)) (rdPages d)) = map scID (all_sections d)"
  "concat (map (\<lambda>x. concat (map (\<lambda>y. map bkID (scBlocks y)) (pgSections x))) (rdPages d)) = map bkID (all_blocks d)"
  "concat (map (\<lambda>x. concat (map (\<lambda>y. concat (map (\<lambda>b. map znID (bkZones b)) (scBlocks y))) (pgSections x))) (rdPages d)) =
     map znID (all_zones d)"
  "concat (map (\<lambda>x. concat (map (\<lambda>y. concat (map (\<lambda>b. map slID (block_slots b)) (scBlocks y))) (pgSections x))) (rdPages d)) =
     map slID (all_slots d)"
  "concat (map (\<lambda>x. concat (map (\<lambda>y. concat (map (\<lambda>b. filled (block_slots b)) (scBlocks y))) (pgSections x))) (rdPages d)) =
     filled (all_slots d)"
  by (simp_all add: all_slots_def all_zones_def all_blocks_def all_sections_def concat_map_concat' map_concat
      concat_concat' filled_concat comp_def)

text \<open>What an accepted definition has gone through, in one place.\<close>

lemma definition_validD:
  assumes "definition_valid env d"
  obtains ns where
    "each (page_step 24 (set (map cpID (rdComponents d)))) (rdPages d) no_names = Some ns"
    "unique_and_valid (map dxID (rdDataContexts d))" "unique_and_valid (map cpID (rdComponents d))"
    "unique_and_valid (map gfID (rdGlobalFilters d))" "unique_and_valid (map inID (rdInteractions d))"
    "list_all (component_valid env (set (map dxID (rdDataContexts d)))) (rdComponents d)"
    "list_all (\<lambda>c. nsPlaced ns (cpID c) = 1) (rdComponents d)"
    "filters_valid d (set (map dxID (rdDataContexts d))) ns (set (map cpID (rdComponents d)))"
    "list_all (interaction_valid (set (map cpID (rdComponents d))) (nsPages ns)) (rdInteractions d)"
proof -
  have "dcColumns (cvDesktop (rdCanvas d)) = 24" using assms by (auto simp: definition_valid_def canvas_valid_def)
  with assms that show thesis
    by (auto simp: definition_valid_def filters_valid_def unique_and_valid_def list_all_iff
        dest!: unique_ids_Some split: option.splits)
qed

lemma walk_names:
  assumes "each (page_step n cs) (rdPages d) no_names = Some ns"
  shows "unique_and_valid (map pgID (rdPages d))" "unique_and_valid (map scID (all_sections d))"
    "unique_and_valid (map bkID (all_blocks d))" "unique_and_valid (map znID (all_zones d))"
    "unique_and_valid (map slID (all_slots d))"
    "nsPages ns = set (map pgID (rdPages d))" "nsSections ns = set (map scID (all_sections d))"
    "nsBlocks ns = set (map bkID (all_blocks d))"
    "nsPlaced ns = count_list (filled (all_slots d))"
  using pages_extend(1-5) [THEN extendsD, OF assms] pages_extend(6) [unfolded places_def, rule_format, OF assms]
  unfolding all_ids
  by (simp_all add: unique_and_valid_def list_all_iff no_names_def concat_map_singleton)

lemma all_slots_in:
  assumes "x \<in> set (all_slots d)"
  obtains p sec b z where "p \<in> set (rdPages d)" "sec \<in> set (pgSections p)" "b \<in> set (scBlocks sec)"
    "z \<in> set (bkZones b)" "x \<in> set (znSlots z)"
  using assms by (auto simp: all_slots_def all_zones_def all_blocks_def all_sections_def)

lemma mset_from_counts:
  assumes "distinct xs" and "\<forall>x\<in>set xs. count_list ys x = 1" and "set ys \<subseteq> set xs"
  shows "mset ys = mset xs"
proof (rule multiset_eqI)
  fix x
  show "count (mset ys) x = count (mset xs) x"
  proof (cases "x \<in> set xs")
    case True
    with assms(1) have "count (mset xs) x = 1" by (simp add: distinct_count_atmost_1)
    with True assms(2) show ?thesis by (simp add: count_mset count_list_eq_length_filter)
  next
    case False
    with assms(3) have "x \<notin> set ys" by blast
    with False show ?thesis by (metis count_mset_0_iff)
  qed
qed

lemma filter_valid_resolves:
  assumes v: "filter_valid (set (map dxID (rdDataContexts d))) ns (set (map cpID (rdComponents d))) f"
    and ns: "nsPages ns = set (map pgID (rdPages d))" "nsSections ns = set (map scID (all_sections d))"
      "nsBlocks ns = set (map bkID (all_blocks d))"
  shows "filter_resolves d f"
  using v unfolding filter_valid_def filter_resolves_def
  by (cases "fsType (gfScope f)") (auto simp: scope_names_def ns list_all_iff Let_def simp del: set_map)

lemma interaction_valid_resolves:
  "interaction_valid (set (map cpID (rdComponents d))) (set (map pgID (rdPages d))) i \<Longrightarrow> interaction_resolves d i"
  unfolding interaction_valid_def interaction_resolves_def
  by (auto simp: list_all_iff split: if_splits option.splits)

lemma mapping_resolvesD:
  "mapping_resolves fs m \<Longrightarrow> \<exists>f\<in>set fs. gfID f = gmFilterID m \<and> fsType (gfScope f) = FilterScopeReport"
  unfolding mapping_resolves_def by (force dest: map_of_SomeD split: option.splits)

lemma component_valid_resolves:
  "component_valid env (set (map dxID (rdDataContexts d))) c \<Longrightarrow>
   list_all (mapping_resolves (rdGlobalFilters d)) (mappings_of c) \<Longrightarrow> component_resolves d c"
  unfolding component_valid_def component_resolves_def
  by (auto simp: list_all_iff binding_valid_def dest!: mapping_resolvesD split: option.splits BindingMode.splits)

lemma slots_reference_components:
  assumes e: "each (page_step n cs) (rdPages d) no_names = Some ns"
  shows "set (filled (all_slots d)) \<subseteq> cs"
proof
  fix i assume "i \<in> set (filled (all_slots d))"
  then obtain x where x: "x \<in> set (all_slots d)" "slComponentID x = i" "i \<noteq> []" by (auto simp: filled_def)
  from x(1) show "i \<in> cs"
  proof (rule all_slots_in)
    fix p sec b z
    assume "p \<in> set (rdPages d)" "sec \<in> set (pgSections p)" "b \<in> set (scBlocks sec)" "z \<in> set (bkZones b)" "x \<in> set (znSlots z)"
    from walk_elements(4) [OF e this(1-5)] x(2,3) show "i \<in> cs" by (simp add: slot_valid_def)
  qed
qed

lemma resolves_if_valid:
  assumes "definition_valid env d"
  shows "references_resolve d"
proof -
  obtain ns where e: "each (page_step 24 (set (map cpID (rdComponents d)))) (rdPages d) no_names = Some ns"
    and c: "list_all (component_valid env (set (map dxID (rdDataContexts d)))) (rdComponents d)"
    and f: "filters_valid d (set (map dxID (rdDataContexts d))) ns (set (map cpID (rdComponents d)))"
    and i: "list_all (interaction_valid (set (map cpID (rdComponents d))) (nsPages ns)) (rdInteractions d)"
    by (rule definition_validD [OF assms])
  note names = walk_names(6-8) [OF e]
  have "list_all (filter_resolves d) (rdGlobalFilters d)"
    using f filter_valid_resolves [OF _ names] by (auto simp: filters_valid_def list_all_iff simp del: set_map)
  moreover have "list_all (interaction_resolves d) (rdInteractions d)"
    using i interaction_valid_resolves by (auto simp: names list_all_iff simp del: set_map)
  moreover have "list_all (component_resolves d) (rdComponents d)"
    using c f component_valid_resolves by (auto simp: filters_valid_def list_all_iff simp del: set_map)
  ultimately show ?thesis by (simp add: references_resolve_def)
qed

lemma unique_if_valid:
  assumes "definition_valid env d"
  shows "identifiers_unique d"
proof -
  obtain ns where e: "each (page_step 24 (set (map cpID (rdComponents d)))) (rdPages d) no_names = Some ns"
    and u: "unique_and_valid (map dxID (rdDataContexts d))" "unique_and_valid (map cpID (rdComponents d))"
      "unique_and_valid (map gfID (rdGlobalFilters d))" "unique_and_valid (map inID (rdInteractions d))"
    by (rule definition_validD [OF assms])
  show ?thesis using walk_names(1-5) [OF e] u by (simp add: identifiers_unique_def)
qed

lemma placed_if_valid:
  assumes "definition_valid env d"
  shows "mset (filled (all_slots d)) = mset (map cpID (rdComponents d))"
proof -
  obtain ns where e: "each (page_step 24 (set (map cpID (rdComponents d)))) (rdPages d) no_names = Some ns"
    and u: "unique_and_valid (map cpID (rdComponents d))"
    and p: "list_all (\<lambda>c. nsPlaced ns (cpID c) = 1) (rdComponents d)"
    by (rule definition_validD [OF assms])
  show ?thesis using u p slots_reference_components [OF e]
    by (intro mset_from_counts) (simp_all add: unique_and_valid_def walk_names(9) [OF e] list_all_iff)
qed

text \<open>C32: a definition that passes \<open>Validate\<close> is referentially whole: the identifiers of its
  pages, sections, blocks, zones, slots, components, data contexts, filters and interactions are
  valid and unique each in its namespace across the whole document; every filter target, filter
  field, binding context, filter mapping and interaction end names something that exists; and the
  slots that hold a component hold every component exactly once.\<close>

theorem valid_definition_is_consistent:
  assumes "definition_valid env d"
  shows "identifiers_unique d \<and> references_resolve d \<and>
    mset (filled (all_slots d)) = mset (map cpID (rdComponents d))"
  using unique_if_valid [OF assms] resolves_if_valid [OF assms] placed_if_valid [OF assms] by simp

section \<open>Rectangles\<close>

definition inside :: "int \<Rightarrow> int \<Rightarrow> int \<Rightarrow> bool" where
  "inside limit start extent \<longleftrightarrow> 0 \<le> start \<and> 1 \<le> extent \<and> (in_int64 (start + extent) \<longrightarrow> start + extent \<le> limit)"

definition block_inside :: "Block \<Rightarrow> bool" where
  "block_inside b \<longleftrightarrow> inside 24 (dbX (desktop b)) (dbW (desktop b)) \<and>
     0 \<le> dbY (desktop b) \<and> 1 \<le> dbH (desktop b) \<and>
     (\<forall>z\<in>set (bkZones b). \<forall>x\<in>set (znSlots z).
        inside (zlColumns (znLayout z)) (sgX (slGrid x)) (sgW (slGrid x)) \<and>
        inside (zlRows (znLayout z)) (sgY (slGrid x)) (sgH (slGrid x)))"

lemma slot_valid_inside:
  "slot_valid columns rows cs x \<Longrightarrow> inside columns (sgX (slGrid x)) (sgW (slGrid x)) \<and>
     inside rows (sgY (slGrid x)) (sgH (slGrid x))"
  by (auto simp: slot_valid_def inside_def wrap64_id Let_def)

lemma block_fits_inside: "block_fits n (desktop b) \<Longrightarrow> inside n (dbX (desktop b)) (dbW (desktop b)) \<and>
    0 \<le> dbY (desktop b) \<and> 1 \<le> dbH (desktop b)"
  by (auto simp: block_fits_def inside_def wrap64_id)

lemma in_enumerate: "(i, x) \<in> set (enumerate n xs) \<Longrightarrow> x \<in> set xs"
  by (auto simp: in_set_enumerate_eq)

lemma zone_issues_inside:
  assumes "\<forall>x\<in>set (znSlots z). slot_valid (zlColumns (znLayout z)) (zlRows (znLayout z)) cs x"
    and "(c, q) \<in> set (zone_issues path z)"
  shows "c \<noteq> LayoutOutOfBounds"
  using assms by (auto simp: zone_issues_def issue_of_def slot_outside_def slot_valid_def Let_def in_set_enumerate_eq
      split: if_splits)

lemma block_issues_inside:
  assumes "block_fits n (desktop b)"
    and z: "\<forall>z\<in>set (bkZones b). \<forall>x\<in>set (znSlots z). slot_valid (zlColumns (znLayout z)) (zlRows (znLayout z)) cs x"
    and "(c, q) \<in> set (block_issues n path b)"
  shows "c \<noteq> LayoutOutOfBounds"
proof -
  have "\<not> block_outside n b" using assms(1) by (simp add: block_fits_def block_outside_def Let_def)
  with assms(3) have "(\<exists>i z. z \<in> set (bkZones b) \<and> (c, q) \<in> set (zone_issues (path @ [i]) z)) \<or> (c, q) \<in> set (primary_issues path b)"
    by (auto simp: block_issues_def dest!: in_enumerate)
  moreover have "(c, q) \<in> set (primary_issues path b) \<Longrightarrow> c \<noteq> LayoutOutOfBounds"
    by (auto simp: primary_issues_def split: if_splits option.splits)
  moreover have "c \<noteq> LayoutOutOfBounds" if "y \<in> set (bkZones b)" "(c, q) \<in> set (zone_issues (path @ [i]) y)" for i y
    using zone_issues_inside [OF bspec [OF z that(1)] that(2)] .
  ultimately show ?thesis by blast
qed

lemma concat_options_in: "concat_options xs = Some ys \<Longrightarrow> y \<in> set ys \<Longrightarrow> \<exists>zs. Some zs \<in> set xs \<and> y \<in> set zs"
  by (induction xs arbitrary: ys) (auto simp: bind_eq_Some_conv, blast+)

lemma all_blocks_in:
  assumes "b \<in> set (all_blocks d)"
  obtains p sec where "p \<in> set (rdPages d)" "sec \<in> set (pgSections p)" "b \<in> set (scBlocks sec)"
  using assms by (auto simp: all_blocks_def all_sections_def)

lemma layout_issue_source:
  assumes "ValidateLayout d = Some issues" and "(LayoutOutOfBounds, q) \<in> set issues"
  obtains p sec b path where "p \<in> set (rdPages d)" "sec \<in> set (pgSections p)" "b \<in> set (scBlocks sec)"
    "(LayoutOutOfBounds, q) \<in> set (block_issues (dcColumns (cvDesktop (rdCanvas d))) path b)"
proof -
  from concat_options_in [OF assms [unfolded ValidateLayout_def]]
  obtain i p j sec zs where "p \<in> set (rdPages d)" "sec \<in> set (pgSections p)"
    "section_issues (dcColumns (cvDesktop (rdCanvas d))) [i, j] sec = Some zs" "(LayoutOutOfBounds, q) \<in> set zs"
    by (auto dest!: in_enumerate) (metis (no_types))
  with that show thesis by (auto simp: section_issues_def issue_of_def dest!: in_enumerate)
qed

text \<open>a definition that passes \<open>Validate\<close> is fit for layout: unless a start plus an
  extent leaves the 64-bit range, every block lies in the 24 columns and every slot in the grid of
  its zone; the zones of every block meet the contract of the height distribution; and
  \<open>ValidateLayout\<close> reports no rectangle out of bounds.\<close>

theorem valid_definition_in_bounds:
  assumes v: "definition_valid env d"
  shows "(\<forall>b\<in>set (all_blocks d). block_inside b \<and> zones_valid (bkZones b)) \<and>
    (\<forall>issues q. ValidateLayout d = Some issues \<longrightarrow> (LayoutOutOfBounds, q) \<notin> set issues)"
proof -
  obtain ns where e: "each (page_step 24 (set (map cpID (rdComponents d)))) (rdPages d) no_names = Some ns"
    by (rule definition_validD [OF v])
  note w = walk_elements [OF e]
  have "block_inside b \<and> zones_valid (bkZones b)" if "b \<in> set (all_blocks d)" for b
    using that
  proof (rule all_blocks_in)
    fix p sec assume at: "p \<in> set (rdPages d)" "sec \<in> set (pgSections p)" "b \<in> set (scBlocks sec)"
    show ?thesis using block_fits_inside [OF w(1) [OF at]] slot_valid_inside [OF w(4) [OF at]] w(3,5) [OF at]
      by (simp add: block_inside_def zones_valid_def)
  qed
  moreover have "(LayoutOutOfBounds, q) \<notin> set issues" if i: "ValidateLayout d = Some issues" for issues q
  proof
    assume "(LayoutOutOfBounds, q) \<in> set issues"
    from i this show False
    proof (rule layout_issue_source)
      fix p sec b path assume at: "p \<in> set (rdPages d)" "sec \<in> set (pgSections p)" "b \<in> set (scBlocks sec)"
        and "(LayoutOutOfBounds, q) \<in> set (block_issues (dcColumns (cvDesktop (rdCanvas d))) path b)"
      moreover have "dcColumns (cvDesktop (rdCanvas d)) = 24" using v by (auto simp: definition_valid_def canvas_valid_def)
      ultimately show False using block_issues_inside [OF w(1) [OF at]] w(4) [OF at] by auto blast
    qed
  qed
  ultimately show ?thesis by blast
qed

section \<open>Examples\<close>

definition sample_val_env :: val_env where
  "sample_val_env = \<lparr> veEncoding = (\<lambda>_. True), veSanitizeRichText = (\<lambda>s. s), veIRPin = (\<lambda>_. ([], [])),
     veIRValid = (\<lambda>_. True), veTimeSpecComplete = (\<lambda>_. True), veEvidence = Some, veLiteral = LiteralString \<rparr>"

definition plain_options :: ComponentOptions where
  "plain_options = \<lparr> coTitle = [], coSubtitle = [], coShowLegend = None, coShowLabel = None, coSmooth = None,
     coOrientation = [], coTopN = Some 10, coColorPaletteRef = [], coNumberFormat = [], coNullPolicy = ''GAP'',
     coAnimation = None, coMobileLegendMode = [], coRichText = [], coImageAssetID = None, coInsightRole = [],
     coTablePageSize = None, coCardVariant = [], coAngleInsight = None, coSubsectionInsight = None \<rparr>"

definition chart :: "ID \<Rightarrow> GlobalFilterMapping list \<Rightarrow> Component" where
  "chart i ms = \<lparr> cpID = i, cpTemplateRef = \<lparr> ctType = ''bar'', ctVersion = ''1.0.0'' \<rparr>,
     cpDataBinding = Some \<lparr> bdBindingMode = BindingDatasetField, bdSemanticQueryRef = None,
       bdDataContextID = Some ''sales'', bdDimensions = [],
       bdMeasures = [\<lparr> fbRole = ''VALUE'', fbField = ''amount'', fbLabel = [], fbAggregation = ''sum'' \<rparr>],
       bdFilterPolicy = Some \<lparr> cfGlobalMappings = ms, cfLocalFilters = [] \<rparr> \<rparr>, cpOptions = plain_options \<rparr>"

definition chart_block :: "int \<Rightarrow> Block" where
  "chart_block x = \<lparr> bkID = ''b1'', bkType = BlockChart, bkTitle = [], bkCardKind = [], bkLayoutIntent = None,
     bkLayout = \<lparr> blDesktop = \<lparr> dbX = x, dbY = 0, dbW = 1, dbH = 4 \<rparr>,
       blMobile = \<lparr> mbOrder = 1, mbVisible = True, mbHeightMode = MobileHeightAuto, mbSlotMode = MobileSlotStack,
         mbFixedHeight = None, mbAspectRatio = None, mbPrimarySlotID = None \<rparr> \<rparr>,
     bkZones = [\<lparr> znID = ''z1'', znOrder = 1, znType = ZoneContent,
       znLayout = \<lparr> zlHeightMode = ZoneHeightAuto, zlMinHeight = 1, zlMaxHeight = None, zlFixedHeight = None,
         zlFR = None, zlColumns = 2, zlRows = 1, zlOverflow = OverflowClip, zlEmptyPriority = 0 \<rparr>,
       znSlots = [\<lparr> slID = ''s1'', slGrid = \<lparr> sgX = 0, sgY = 0, sgW = 1, sgH = 1 \<rparr>, slComponentID = ''c1'',
         slCardKind = [], slMergedFrom = [] \<rparr>,
         \<lparr> slID = ''s2'', slGrid = \<lparr> sgX = 1, sgY = 0, sgW = 1, sgH = 1 \<rparr>, slComponentID = ''c2'',
         slCardKind = [], slMergedFrom = [] \<rparr>] \<rparr>] \<rparr>"

text \<open>A report of one block with two charts, the block at column \<open>x\<close>.\<close>

definition chart_report :: "int \<Rightarrow> ReportDefinition" where
  "chart_report x = \<lparr> rdSchemaVersion = ''1.0'',
     rdMetadata = \<lparr> mdID = ''report'', mdCode = ''sales'', mdName = ''Sales'', mdDescription = [],
       mdReportType = ReportTypeReport, mdHeaderStyle = [], mdLocale = ''en-US'' \<rparr>,
     rdTemplateRef = \<lparr> trReportTemplateID = ''template'', trReportTemplateVersion = ''1.0.0'',
       trStructureTemplateVersion = ''1.0.0'', trLayoutTemplateVersion = ''1.0.0'',
       trNarrativeTemplateVersion = ''1.0.0'' \<rparr>,
     rdThemeRef = \<lparr> thThemeID = ''theme'', thVersion = ''1.0.0'' \<rparr>,
     rdCanvas = \<lparr> cvDesktop = \<lparr> dcDesignWidth = 1920, dcColumns = 24, dcBaseCellWidth = 80,
         dcBaseRowHeight = 54, dcGapX = 12, dcGapY = 12, dcPaddingX = 24, dcPaddingY = 24 \<rparr>,
       cvMobile = \<lparr> mcColumns = 1, mcGapY = 12, mcPaddingX = 12, mcPaddingY = 12 \<rparr> \<rparr>,
     rdDataContexts = [\<lparr> dxID = ''sales'', dxDatasetID = ''ds'', dxDatasetVersionID = ''ds-1'', dxAlias = ''Sales'',
       dxDefaultParameters = [], dxQueryPolicy = \<lparr> qpTimeoutMS = 1000, qpMaxRows = 100, qpCacheTTLSeconds = 0 \<rparr> \<rparr>],
     rdGlobalFilters = [\<lparr> gfID = ''f1'', gfType = FilterSelect, gfLabel = ''Region'', gfOptions = [''North'', ''South''],
       gfFieldRef = \<lparr> frDataContextID = ''sales'', frField = ''region'' \<rparr>,
       gfScope = \<lparr> fsType = FilterScopeReport, fsTargetIDs = [] \<rparr>, gfDefaultValue = None \<rparr>,
       \<lparr> gfID = ''f2'', gfType = FilterBoolean, gfLabel = [], gfOptions = [],
       gfFieldRef = \<lparr> frDataContextID = ''sales'', frField = ''open'' \<rparr>,
       gfScope = \<lparr> fsType = FilterScopeBlock, fsTargetIDs = [''b1''] \<rparr>, gfDefaultValue = None \<rparr>],
     rdPages = [\<lparr> pgID = ''p1'', pgName = ''First'', pgOrder = 1, pgSections =
       [\<lparr> scID = ''x1'', scName = ''Charts'', scOrder = 1, scQuestion = [], scLayoutIntentMode = None,
          scBlocks = [chart_block x] \<rparr>] \<rparr>],
     rdComponents = [chart ''c1'' [\<lparr> gmFilterID = ''f1'', gmField = ''region'' \<rparr>], chart ''c2'' []],
     rdInteractions = [\<lparr> inID = ''i1'', inSourceComponentID = ''c1'', inEvent = ''CLICK'', inAction = ''FILTER'',
       inTargetComponentIDs = [''c2''], inTargetPageID = None,
       inFieldMappings = [\<lparr> fmSourceField = ''region'', fmTargetField = ''region'' \<rparr>] \<rparr>],
     rdRuntimePolicy = \<lparr> rpRefreshMode = RefreshManual, rpRefreshIntervalSeconds = 0,
       rpMaxConcurrentQueries = 4, rpComponentTimeoutMS = 1000, rpExportEnabled = True,
       rpFailureMode = FailurePartial \<rparr>,
     rdProvenance = \<lparr> pvCreatedFrom = CreatedManually, pvSourceQuestionRunIDs = [], pvAIRunIDs = [],
       pvAnalysisMethodVersions = [], pvPromptVersions = [], pvModelPolicies = [] \<rparr> \<rparr>"

lemma chart_report_valid: "definition_valid sample_val_env (chart_report 3)"
  by code_simp

theorem valid_definition_is_consistent_witness:
  "mset (filled (all_slots (chart_report 3))) = {#''c1'', ''c2''#} \<and> references_resolve (chart_report 3)"
  using valid_definition_is_consistent [OF chart_report_valid] by (simp add: chart_report_def chart_def)

theorem valid_definition_in_bounds_witness:
  "block_inside (chart_block 3) \<and> zones_valid (bkZones (chart_block 3))"
proof -
  have "chart_block 3 \<in> set (all_blocks (chart_report 3))"
    by (simp add: all_blocks_def all_sections_def chart_report_def)
  with valid_definition_in_bounds [OF chart_report_valid] show ?thesis by blast
qed

text \<open>the bounds check of a block accepts exactly the blocks that fit and those
  whose right edge overflows: since the sum wraps, a whole definition with a block at column
  \<open>2^63 - 1\<close> passes \<open>Validate\<close>, and \<open>ValidateLayout\<close> finds nothing either.\<close>

theorem overflow_passes_validation:
  "(\<forall>g. in_int64 (dbX g) \<and> in_int64 (dbW g) \<longrightarrow> block_fits 24 g =
      (0 \<le> dbX g \<and> 0 \<le> dbY g \<and> 1 \<le> dbW g \<and> 1 \<le> dbH g \<and> (dbX g + dbW g \<le> 24 \<or> int64_max < dbX g + dbW g))) \<and>
   definition_valid sample_val_env (chart_report int64_max) \<and> ValidateLayout (chart_report int64_max) = Some []"
proof -
  have "block_fits 24 g = (0 \<le> dbX g \<and> 0 \<le> dbY g \<and> 1 \<le> dbW g \<and> 1 \<le> dbH g \<and>
      (dbX g + dbW g \<le> 24 \<or> int64_max < dbX g + dbW g))" if "in_int64 (dbX g)" "in_int64 (dbW g)" for g
  proof (cases "0 \<le> dbX g \<and> 1 \<le> dbW g \<and> int64_max < dbX g + dbW g")
    case True
    with that have "(dbX g + dbW g - 2 ^ 63 + 2 ^ 64) mod 2 ^ 64 = dbX g + dbW g - 2 ^ 63"
      unfolding mod_add_self2 by (intro mod_pos_pos_trivial) (simp_all add: in_int64_def int64_max_def)
    then have "wrap64 (dbX g + dbW g) = dbX g + dbW g - 2 ^ 64"
      by (simp add: wrap64_def algebra_simps)
    with True that show ?thesis by (auto simp: block_fits_def in_int64_def int64_max_def)
  next
    case False
    then have "0 \<le> dbX g \<Longrightarrow> 1 \<le> dbW g \<Longrightarrow> in_int64 (dbX g + dbW g)" by (simp add: in_int64_def int64_min_def)
    with False show ?thesis by (auto simp: block_fits_def wrap64_id)
  qed
  moreover have "definition_valid sample_val_env (chart_report int64_max)" by code_simp
  moreover have "ValidateLayout (chart_report int64_max) = Some []" by code_simp
  ultimately show ?thesis by blast
qed

theorem overflow_passes_validation_witness:
  "block_fits 24 \<lparr> dbX = int64_max, dbY = 0, dbW = 1, dbH = 1 \<rparr>"
  using conjunct1 [OF overflow_passes_validation, rule_format, of "\<lparr> dbX = int64_max, dbY = 0, dbW = 1, dbH = 1 \<rparr>"]
  by (simp add: in_int64_def int64_min_def int64_max_def)

end
