(* ===== verification/ReportUndoProperties.thy ===== *)
theory ReportUndoProperties imports ReportUndoCreate ReportValidateProperties begin

text \<open>
  Round trips of \<open>ReportUndo\<close>: an update that leaves the sort keys alone and an addition are taken back
  exactly, one operation or a whole bundle.
\<close>

section \<open>Undoing a partial update\<close>

text \<open>
  \<open>get\<close> reads the value a partial update \<open>g\<close> works on; \<open>g'\<close> undoes \<open>g\<close> where that value is \<open>v\<close>.
\<close>

definition undoes :: "'b \<Rightarrow> ('a \<Rightarrow> 'b option) \<Rightarrow> ('a \<Rightarrow> ('e + 'a) option) \<Rightarrow> ('a \<Rightarrow> ('e + 'a) option) \<Rightarrow> bool" where
  "undoes v get g g' \<longleftrightarrow> (\<forall>x. (get x = None \<longrightarrow> g x = None \<and> g' x = None) \<and>
     (get x = Some v \<longrightarrow> (\<exists>y. g x = Some (Inr y) \<and> g' y = Some (Inr x))))"

lemma at_first_undo:
  assumes "undoes v get g g'" and "first_of get xs = Some v"
  shows "\<exists>ys. at_first g xs = Some (Inr ys) \<and> at_first g' ys = Some (Inr xs)"
  using assms(2)
proof (induction xs)
  case Nil
  then show ?case by simp
next
  case (Cons x xs)
  show ?case
  proof (cases "get x")
    case None
    with Cons obtain ys where "at_first g xs = Some (Inr ys)" "at_first g' ys = Some (Inr xs)" by auto
    moreover have "g x = None" "g' x = None" using assms(1) None by (simp_all add: undoes_def)
    ultimately show ?thesis by (intro exI [of _ "x # ys"]) simp
  next
    case (Some w)
    with Cons.prems have "get x = Some v" by simp
    then obtain y where "g x = Some (Inr y)" "g' y = Some (Inr x)"
      using assms(1) unfolding undoes_def by blast
    then show ?thesis by (intro exI [of _ "y # xs"]) simp
  qed
qed

lemma at_first_none: "(\<And>x. get x = None \<Longrightarrow> g x = None) \<Longrightarrow> first_of get xs = None \<Longrightarrow> at_first g xs = None"
  by (induction xs) (auto split: option.splits)

lemma in_page_undo:
  assumes "\<And>p. undoes v (get p) g g'"
  shows "undoes v (\<lambda>p. first_of (get p) (pgSections p)) (in_page g) (in_page g')"
  unfolding undoes_def
proof (intro allI conjI impI)
  fix p :: Page assume "first_of (get p) (pgSections p) = None"
  with assms [of p] have "at_first g (pgSections p) = None" "at_first g' (pgSections p) = None"
    by (auto simp: undoes_def intro: at_first_none [of "get p"])
  then show "in_page g p = None" "in_page g' p = None" by (simp_all add: in_page_def rebuild_def)
next
  fix p :: Page assume "first_of (get p) (pgSections p) = Some v"
  from at_first_undo [OF assms this] show "\<exists>y. in_page g p = Some (Inr y) \<and> in_page g' y = Some (Inr p)"
    by (auto simp: in_page_def rebuild_def)
qed

lemma in_section_undo:
  assumes "\<And>s. undoes v (get s) g g'"
  shows "undoes v (\<lambda>s. first_of (get s) (scBlocks s)) (in_section g) (in_section g')"
  unfolding undoes_def
proof (intro allI conjI impI)
  fix s :: Section assume "first_of (get s) (scBlocks s) = None"
  with assms [of s] have "at_first g (scBlocks s) = None" "at_first g' (scBlocks s) = None"
    by (auto simp: undoes_def intro: at_first_none [of "get s"])
  then show "in_section g s = None" "in_section g' s = None" by (simp_all add: in_section_def rebuild_def)
next
  fix s :: Section assume "first_of (get s) (scBlocks s) = Some v"
  from at_first_undo [OF assms this] show "\<exists>y. in_section g s = Some (Inr y) \<and> in_section g' y = Some (Inr s)"
    by (auto simp: in_section_def rebuild_def)
qed

lemma in_block_undo:
  assumes "\<And>b. undoes v (get b) g g'"
  shows "undoes v (\<lambda>b. first_of (get b) (bkZones b)) (in_block g) (in_block g')"
  unfolding undoes_def
proof (intro allI conjI impI)
  fix b :: Block assume "first_of (get b) (bkZones b) = None"
  with assms [of b] have "at_first g (bkZones b) = None" "at_first g' (bkZones b) = None"
    by (auto simp: undoes_def intro: at_first_none [of "get b"])
  then show "in_block g b = None" "in_block g' b = None" by (simp_all add: in_block_def rebuild_def)
next
  fix b :: Block assume "first_of (get b) (bkZones b) = Some v"
  from at_first_undo [OF assms this] show "\<exists>y. in_block g b = Some (Inr y) \<and> in_block g' y = Some (Inr b)"
    by (auto simp: in_block_def rebuild_def)
qed

text \<open>Updating the element with a given identifier in a list, and back.\<close>

lemma find_index_update:
  assumes "find_index P xs = Some k" and "P y"
  shows "find_index P (xs[k := y]) = Some k"
  using assms by (induction xs arbitrary: k) (auto split: if_splits nat.splits)

lemma find_id_update:
  assumes "find_id key i xs = Some v" and "key (f v) = i" and "f' (f v) = v"
  shows "\<exists>k. find_index (\<lambda>x. key x = i) xs = Some k \<and> xs ! k = v \<and>
     find_index (\<lambda>x. key x = i) (xs[k := f v]) = Some k \<and> k < length xs \<and> (xs[k := f v])[k := f' (f v)] = xs"
  using assms find_index_update [of "\<lambda>x. key x = i" xs _ "f v"] find_index_Some
  by (fastforce simp: find_id_def)

text \<open>A pair of functions that change and restore the value found.\<close>

definition restores :: "('a \<Rightarrow> ID) \<Rightarrow> ID \<Rightarrow> 'a \<Rightarrow> ('a \<Rightarrow> 'a) \<Rightarrow> ('a \<Rightarrow> 'a) \<Rightarrow> bool" where
  "restores key i v f f' \<longleftrightarrow> key (f v) = key v \<and> f' (f v) = v"

lemma find_id_key: "find_id key i xs = Some v \<Longrightarrow> key v = i"
  using find_index_Some by (fastforce simp: find_id_def)

lemma find_id_None: "find_id key i xs = None \<longleftrightarrow> find_index (\<lambda>x. key x = i) xs = None"
  by (simp add: find_id_def)

lemma item_undo:
  assumes "\<And>x y. get x = None \<Longrightarrow> find_id key i (items x) = None"
    and "\<And>x. get x = Some v \<Longrightarrow> find_id key i (items x) = Some w"
    and "restores key i w f f'"
    and put: "\<And>x ys. items (put x ys) = ys" "\<And>x ys zs. put (put x ys) zs = put x zs" "\<And>x. put x (items x) = x"
  shows "undoes v get
    (\<lambda>x. map_option (\<lambda>k. Inr (put x ((items x)[k := f (items x ! k)]))) (find_index (\<lambda>y. key y = i) (items x)))
    (\<lambda>x. map_option (\<lambda>k. Inr (put x ((items x)[k := f' (items x ! k)]))) (find_index (\<lambda>y. key y = i) (items x)))"
  unfolding undoes_def
proof (intro allI conjI impI)
  fix x assume "get x = None"
  from assms(1) [OF this] show
    "map_option (\<lambda>k. Inr (put x ((items x)[k := f (items x ! k)]))) (find_index (\<lambda>y. key y = i) (items x)) = None"
    "map_option (\<lambda>k. Inr (put x ((items x)[k := f' (items x ! k)]))) (find_index (\<lambda>y. key y = i) (items x)) = None"
    by (simp_all add: find_id_None)
next
  fix x assume "get x = Some v"
  from assms(2) [OF this] have found: "find_id key i (items x) = Some w" .
  with assms(3) have "key (f w) = i" "f' (f w) = w" by (simp_all add: restores_def find_id_key)
  from find_id_update [where f = f and f' = f', OF found this] obtain k where k:
    "find_index (\<lambda>x. key x = i) (items x) = Some k" "items x ! k = w"
    "find_index (\<lambda>x. key x = i) ((items x)[k := f w]) = Some k" "k < length (items x)"
    "(items x)[k := f w, k := f' (f w)] = items x" using \<open>f' (f w) = w\<close> by auto
  then show "\<exists>y. map_option (\<lambda>k. Inr (put x ((items x)[k := f (items x ! k)]))) (find_index (\<lambda>y. key y = i) (items x)) =
      Some (Inr y) \<and>
    map_option (\<lambda>k. Inr (put y ((items y)[k := f' (items y ! k)]))) (find_index (\<lambda>z. key z = i) (items y)) = Some (Inr x)"
    using put by (intro exI [of _ "put x ((items x)[k := f w])"]) simp
qed

lemma on_pages_undo:
  assumes "undoes v get g g'" and "first_of get (rdPages d) = Some v"
  shows "\<exists>d'. on_pages kind i g d = Inr d' \<and> on_pages kind i g' d' = Inr d"
  using at_first_undo [OF assms] by (auto simp: on_pages_def)


section \<open>Updates by level\<close>

type_synonym 'e step = "ReportDefinition \<Rightarrow> 'e op_error + ReportDefinition"

definition undone :: "'e step \<Rightarrow> 'e step \<Rightarrow> ReportDefinition \<Rightarrow> bool" where
  "undone u u' d \<longleftrightarrow> (\<exists>d'. u d = Inr d' \<and> u' d' = Inr d)"

lemma on_pages_undone:
  "undoes v get g g' \<Longrightarrow> first_of get (rdPages d) = Some v \<Longrightarrow> undone (on_pages kind i g) (on_pages kind i g') d"
  using at_first_undo by (fastforce simp: undone_def on_pages_def)

lemma update_page_undo:
  assumes "pageByID i d = Some v" and "restores pgID i v f f'"
  shows "undone (update_page i f) (update_page i f') d"
  unfolding update_page_def
  by (rule on_pages_undone [OF _ assms(1) [unfolded pageByID_def]])
    (use assms(2) in \<open>auto simp: undoes_def page_at_def restores_def\<close>)

lemma update_section_undo:
  assumes "sectionByID i d = Some (p, v)" and "restores scID i v f f'"
  shows "undone (update_section i f) (update_section i f') d"
  unfolding update_section_def page_of_def
  by (rule on_pages_undone [OF item_undo [where put = "\<lambda>p ss. p\<lparr> pgSections := ss \<rparr>" and w = v]
        assms(1) [unfolded sectionByID_def]]) (auto intro: assms(2))

lemma update_block_undo:
  assumes "blockByID i d = Some (p, s, v)" and "restores bkID i v f f'"
  shows "undone (update_block i f) (update_block i f') d"
  unfolding update_block_def section_of_def
  by (rule on_pages_undone [OF in_page_undo [OF item_undo [where put = "\<lambda>s bs. s\<lparr> scBlocks := bs \<rparr>" and w = v]]
        assms(1) [unfolded blockByID_def]]) (auto intro: assms(2))

lemma update_zone_undo:
  assumes "zoneByID i d = Some (p, s, b, v)" and "restores znID i v f f'"
  shows "undone (update_zone i f) (update_zone i f') d"
  unfolding update_zone_def block_of_def
  by (rule on_pages_undone [OF in_page_undo [OF in_section_undo [OF
        item_undo [where put = "\<lambda>b zs. b\<lparr> bkZones := zs \<rparr>" and w = v]]] assms(1) [unfolded zoneByID_def]])
    (auto intro: assms(2))

lemma update_slot_undo:
  assumes "slotValueByID i d = Some (p, s, b, z, v)" and "restores slID i v f f'"
  shows "undone (update_slot i f) (update_slot i f') d"
  unfolding update_slot_def zone_of_def
  by (rule on_pages_undone [OF in_page_undo [OF in_section_undo [OF in_block_undo [OF
        item_undo [where put = "\<lambda>z ss. z\<lparr> znSlots := ss \<rparr>" and w = v]]]] assms(1) [unfolded slotValueByID_def]])
    (auto intro: assms(2))

lemma update_component_undo:
  assumes "componentByID i d = Some v" and "restores cpID i v f f'"
  shows "undone (update_component i f) (update_component i f') d"
proof -
  from assms have found: "find_id cpID i (rdComponents d) = Some v" by (simp add: componentByID_def)
  with assms(2) have "cpID (f v) = i" "f' (f v) = v" by (simp_all add: restores_def find_id_key)
  from find_id_update [where f = f and f' = f', OF found this] obtain k where
    "find_index (\<lambda>x. cpID x = i) (rdComponents d) = Some k" "rdComponents d ! k = v"
    "find_index (\<lambda>x. cpID x = i) ((rdComponents d)[k := f v]) = Some k" "k < length (rdComponents d)"
    "(rdComponents d)[k := f v, k := f' (f v)] = rdComponents d" by auto
  with \<open>f' (f v) = v\<close> show ?thesis by (auto simp: undone_def update_component_def)
qed

lemma replace_item_undo:
  assumes "find_id key i xs = Some v" and "key w = i"
  shows "\<exists>ys. (replace_item kind i key w xs :: 'e op_error + _) = Inr ys \<and>
    (replace_item kind i key v ys :: 'e op_error + _) = Inr xs"
proof -
  from find_id_update [where f = "\<lambda>_. w" and f' = "\<lambda>_. v", OF assms(1) assms(2) refl] obtain k where
    "find_index (\<lambda>x. key x = i) xs = Some k" "xs ! k = v"
    "find_index (\<lambda>x. key x = i) (xs[k := w]) = Some k" "k < length xs" "xs[k := w, k := v] = xs" by auto
  then show ?thesis by (auto simp: replace_item_def)
qed


section \<open>Updates that leave the order alone\<close>

definition tame :: "('a \<Rightarrow> int) \<Rightarrow> ('a \<Rightarrow> bool) \<Rightarrow> ('a \<Rightarrow> ('e + 'a) option) \<Rightarrow> bool" where
  "tame key can g \<longleftrightarrow> (\<forall>x y. can x \<longrightarrow> g x = Some (Inr y) \<longrightarrow> key y = key x \<and> can y)"

lemma sorted_by_keys: "map key xs = map key ys \<Longrightarrow> sorted_by (lt_on key) xs = sorted_by (lt_on key) ys"
proof (induction xs arbitrary: ys)
  case Nil
  then show ?case by simp
next
  case (Cons x xs)
  then obtain y zs where ys: "ys = y # zs" "key x = key y" "map key xs = map key zs" by auto
  from ys(3) have "(\<forall>v\<in>key ` set xs. \<not> v < key y) = (\<forall>v\<in>key ` set zs. \<not> v < key y)"
    by (metis list.set_map)
  then have "(\<forall>z\<in>set xs. \<not> key z < key y) = (\<forall>z\<in>set zs. \<not> key z < key y)" by simp
  with Cons.IH [OF ys(3)] ys(1,2) show ?case by (simp add: lt_on_def)
qed

lemma at_first_tame:
  assumes "tame key can g" and "at_first g xs = Some (Inr ys)" and "\<forall>x\<in>set xs. can x"
  shows "map key ys = map key xs \<and> (\<forall>y\<in>set ys. can y)"
  using assms(2,3)
proof (induction xs arbitrary: ys)
  case Nil
  then show ?case by simp
next
  case (Cons x xs)
  show ?case
  proof (cases "g x")
    case None
    with Cons.prems obtain zs where "at_first g xs = Some (Inr zs)" "ys = x # zs"
      by (auto split: option.splits sum.splits)
    with Cons show ?thesis by auto
  next
    case (Some r)
    with Cons.prems obtain y where "r = Inr y" "ys = y # xs" by (cases r) auto
    with Some Cons.prems(2) assms(1) show ?thesis by (auto simp: tame_def)
  qed
qed

lemma in_page_tame: "tame scOrder section_canonical g \<Longrightarrow> tame pgOrder page_canonical (in_page g)"
  unfolding tame_def [of pgOrder] page_canonical_def
  by (auto simp: in_page_def rebuild_def dest: at_first_tame sorted_by_keys split: option.splits sum.splits)

lemma in_section_tame: "tame mobile_order block_canonical g \<Longrightarrow> tame scOrder section_canonical (in_section g)"
  unfolding tame_def [of scOrder] section_canonical_def
  by (auto simp: in_section_def rebuild_def dest: at_first_tame sorted_by_keys split: option.splits sum.splits)

lemma in_block_tame:
  assumes "tame znOrder (\<lambda>_. True) g" shows "tame mobile_order block_canonical (in_block g)"
  unfolding tame_def
proof (intro allI impI)
  fix b b' assume b: "block_canonical b" and "in_block g b = Some (Inr b')"
  then obtain zs where zs: "at_first g (bkZones b) = Some (Inr zs)" "b' = b\<lparr> bkZones := zs \<rparr>"
    by (auto simp: in_block_def rebuild_def split: option.splits sum.splits)
  from at_first_tame [OF assms zs(1)] have keys: "map znOrder zs = map znOrder (bkZones b)" by simp
  then have "(\<exists>v\<in>znOrder ` set zs. v \<noteq> 0) = (\<exists>v\<in>znOrder ` set (bkZones b). v \<noteq> 0)" by (metis list.set_map)
  then have nonzero: "(\<exists>z\<in>set zs. znOrder z \<noteq> 0) = (\<exists>z\<in>set (bkZones b). znOrder z \<noteq> 0)" by simp
  have "zs = [] \<longleftrightarrow> bkZones b = []" using keys by (metis map_is_Nil_conv)
  with b zs(2) nonzero sorted_by_keys [OF keys] show "mobile_order b' = mobile_order b \<and> block_canonical b'"
    by (simp add: block_canonical_def)
qed


lemma update_tame:
  assumes "find_index P xs = Some k" and "\<forall>x\<in>set xs. can x"
    and "\<And>x. can x \<Longrightarrow> key (f x) = key x \<and> can (f x)"
  shows "map key (xs[k := f (xs ! k)]) = map key xs" and "\<forall>y\<in>set (xs[k := f (xs ! k)]). can y"
proof -
  from assms(1) have k: "k < length xs" using find_index_Some by fast
  with assms(2,3) show "map key (xs[k := f (xs ! k)]) = map key xs"
    by (intro nth_equalityI) (auto simp: nth_list_update)
  show "\<forall>y\<in>set (xs[k := f (xs ! k)]). can y"
    using k assms(2,3) set_update_subset_insert [of xs k "f (xs ! k)"] by auto
qed

lemma sections_tame:
  assumes "\<And>s. section_canonical s \<Longrightarrow> scOrder (f s) = scOrder s \<and> section_canonical (f s)"
  shows "tame pgOrder page_canonical (page_of i (\<lambda>p k. Inr (p\<lparr> pgSections := (pgSections p)[k := f (pgSections p ! k)] \<rparr>)))"
  unfolding tame_def
proof (intro allI impI)
  fix p p' assume p: "page_canonical p"
    and "page_of i (\<lambda>p k. Inr (p\<lparr> pgSections := (pgSections p)[k := f (pgSections p ! k)] \<rparr>)) p = Some (Inr p')"
  then obtain k where k: "find_index (\<lambda>s. scID s = i) (pgSections p) = Some k"
    "p' = p\<lparr> pgSections := (pgSections p)[k := f (pgSections p ! k)] \<rparr>"
    by (auto simp: page_of_def)
  from p have can: "\<forall>s\<in>set (pgSections p). section_canonical s" by (simp add: page_canonical_def)
  note u = update_tame [where key = scOrder and f = f, OF k(1) can assms]
  show "pgOrder p' = pgOrder p \<and> page_canonical p'"
    using p k(2) u(2) sorted_by_keys [OF u(1)] by (simp add: page_canonical_def)
qed

lemma blocks_tame:
  assumes "\<And>b. block_canonical b \<Longrightarrow> mobile_order (f b) = mobile_order b \<and> block_canonical (f b)"
  shows "tame scOrder section_canonical
    (\<lambda>s. map_option (\<lambda>k. Inr (s\<lparr> scBlocks := (scBlocks s)[k := f (scBlocks s ! k)] \<rparr>)) (find_index P (scBlocks s)))"
  unfolding tame_def
proof (intro allI impI)
  fix s s' assume s: "section_canonical s"
    and "map_option (\<lambda>k. Inr (s\<lparr> scBlocks := (scBlocks s)[k := f (scBlocks s ! k)] \<rparr>)) (find_index P (scBlocks s)) =
      Some (Inr s')"
  then obtain k where k: "find_index P (scBlocks s) = Some k"
    "s' = s\<lparr> scBlocks := (scBlocks s)[k := f (scBlocks s ! k)] \<rparr>" by auto
  from s have can: "\<forall>b\<in>set (scBlocks s). block_canonical b" by (simp add: section_canonical_def)
  note u = update_tame [where key = mobile_order and f = f, OF k(1) can assms]
  show "scOrder s' = scOrder s \<and> section_canonical s'"
    using s k(2) u(2) sorted_by_keys [OF u(1)] by (simp add: section_canonical_def)
qed

lemma zones_tame:
  assumes "\<And>z. znOrder (f z) = znOrder z"
  shows "tame mobile_order block_canonical
    (\<lambda>b. map_option (\<lambda>k. Inr (b\<lparr> bkZones := (bkZones b)[k := f (bkZones b ! k)] \<rparr>)) (find_index P (bkZones b)))"
  unfolding tame_def
proof (intro allI impI)
  fix b b' assume b: "block_canonical b"
    and "map_option (\<lambda>k. Inr (b\<lparr> bkZones := (bkZones b)[k := f (bkZones b ! k)] \<rparr>)) (find_index P (bkZones b)) =
      Some (Inr b')"
  then obtain k where k: "find_index P (bkZones b) = Some k" "b' = b\<lparr> bkZones := (bkZones b)[k := f (bkZones b ! k)] \<rparr>"
    by auto
  let ?zs = "(bkZones b)[k := f (bkZones b ! k)]"
  have keys: "map znOrder ?zs = map znOrder (bkZones b)"
    using update_tame(1) [OF k(1), where can = "\<lambda>_. True" and key = znOrder and f = f] assms by simp
  then have "(\<exists>v\<in>znOrder ` set ?zs. v \<noteq> 0) = (\<exists>v\<in>znOrder ` set (bkZones b). v \<noteq> 0)" by (metis list.set_map)
  then have nonzero: "(\<exists>z\<in>set ?zs. znOrder z \<noteq> 0) = (\<exists>z\<in>set (bkZones b). znOrder z \<noteq> 0)" by simp
  with b k(2) sorted_by_keys [OF keys] show "mobile_order b' = mobile_order b \<and> block_canonical b'"
    by (simp add: block_canonical_def)
qed

lemma slots_tame: "tame znOrder (\<lambda>_. True)
    (\<lambda>z. map_option (\<lambda>k. Inr (z\<lparr> znSlots := h z k \<rparr>)) (find_index P (znSlots z)))"
  by (auto simp: tame_def)

lemma on_pages_canonical:
  assumes "tame pgOrder page_canonical g" and "on_pages kind i g d = Inr d'" and "canonical d"
  shows "canonical d'"
proof -
  from assms(2) obtain ps where ps: "at_first g (rdPages d) = Some (Inr ps)" "d' = d\<lparr> rdPages := ps \<rparr>"
    by (auto simp: on_pages_def split: option.splits sum.splits)
  from assms(3) have "\<forall>p\<in>set (rdPages d). page_canonical p" by (simp add: canonical_def)
  from at_first_tame [OF assms(1) ps(1) this]
  have keys: "map pgOrder ps = map pgOrder (rdPages d)" and can: "\<forall>p\<in>set ps. page_canonical p" by auto
  from assms(3) ps(2) can sorted_by_keys [OF keys] show ?thesis by (simp add: canonical_def)
qed

lemma update_page_canonical:
  assumes "update_page i f d = Inr d'" "canonical d"
    and "\<And>p. page_canonical p \<Longrightarrow> pgOrder (f p) = pgOrder p \<and> page_canonical (f p)"
  shows "canonical d'"
proof -
  have "tame pgOrder page_canonical (page_at i (\<lambda>p. Inr (f p)))"
    using assms(3) by (simp add: tame_def page_at_def)
  from on_pages_canonical [OF this assms(1) [unfolded update_page_def] assms(2)] show ?thesis .
qed

lemma update_section_canonical:
  assumes "update_section i f d = Inr d'" "canonical d"
    and "\<And>s. section_canonical s \<Longrightarrow> scOrder (f s) = scOrder s \<and> section_canonical (f s)"
  shows "canonical d'"
  using on_pages_canonical [OF sections_tame [OF assms(3)] assms(1) [unfolded update_section_def] assms(2)] .

lemma update_block_canonical:
  assumes "update_block i f d = Inr d'" "canonical d"
    and "\<And>b. block_canonical b \<Longrightarrow> mobile_order (f b) = mobile_order b \<and> block_canonical (f b)"
  shows "canonical d'"
  using on_pages_canonical [OF in_page_tame [OF blocks_tame [OF assms(3)]]
      assms(1) [unfolded update_block_def section_of_def] assms(2)] .

lemma update_zone_canonical:
  assumes "update_zone i f d = Inr d'" "canonical d" and "\<And>z. znOrder (f z) = znOrder z"
  shows "canonical d'"
  using on_pages_canonical [OF in_page_tame [OF in_section_tame [OF zones_tame [OF assms(3)]]]
      assms(1) [unfolded update_zone_def block_of_def] assms(2)] .

lemma update_slot_canonical:
  assumes "update_slot i f d = Inr d'" "canonical d"
  shows "canonical d'"
  using on_pages_canonical [OF in_page_tame [OF in_section_tame [OF in_block_tame [OF slots_tame]]]
      assms(1) [unfolded update_slot_def zone_of_def] assms(2)] .


section \<open>Operations that are taken back exactly\<close>

text \<open>
  The updates in place and the additions with a fresh identifier. A block keeps its title
  exactly only when that title is trimmed (the inverse goes through the trimming update), and a
  filter or an interaction only when the update keeps its identifier. Deletions, new positions and merged, split or
  replaced elements are not among them.
\<close>

definition reversible :: "ReportDefinition \<Rightarrow> Operation \<Rightarrow> bool" where
  "reversible d op = (let target = opTargetID op in case opPayload op of
     ReportCreate _ \<Rightarrow> True | ReportSettingsUpdate _ _ \<Rightarrow> True | TemplateApply _ \<Rightarrow> True | ThemeUpdate _ \<Rightarrow> True
   | PageUpdate _ \<Rightarrow> True | SectionUpdate _ \<Rightarrow> True | BlockMove _ _ \<Rightarrow> True | BlockResize _ _ \<Rightarrow> True
   | BlockUpdate _ _ \<Rightarrow> (case blockByID target d of None \<Rightarrow> False
       | Some (_, _, b) \<Rightarrow> trim_space (bkTitle b) = bkTitle b)
   | ZoneUpdate _ _ \<Rightarrow> True | SlotUpdate _ _ \<Rightarrow> True | ComponentUpdate _ \<Rightarrow> True | DataBindingUpdate _ _ \<Rightarrow> True
   | InsightUpdate _ _ \<Rightarrow> True | InsightRegenerate _ _ _ \<Rightarrow> True
   | FilterUpdate f \<Rightarrow> gfID f = target
   | InteractionUpdate i \<Rightarrow> inID i = target
   | PageCreate p \<Rightarrow> pgID p \<notin> pgID ` set (rdPages d)
   | SectionCreate s \<Rightarrow> scID s \<notin> scID ` set (all_sections d)
   | BlockCreate b \<Rightarrow> bkID b \<notin> bkID ` set (all_blocks d)
   | BlockCopy newID \<Rightarrow> newID \<notin> bkID ` set (all_blocks d)
   | ZoneCreate z \<Rightarrow> znID z \<notin> znID ` set (all_zones d)
   | SlotCreate v \<Rightarrow> slID v \<notin> slID ` set (all_slots d)
   | ComponentCreate c \<Rightarrow> cpID c \<notin> cpID ` set (rdComponents d)
   | ComponentCopy newID \<Rightarrow> newID \<notin> cpID ` set (rdComponents d)
   | FilterCreate f \<Rightarrow> gfID f \<notin> gfID ` set (rdGlobalFilters d)
   | InteractionCreate i \<Rightarrow> inID i \<notin> inID ` set (rdInteractions d)
   | DataContextCreate _ \<Rightarrow> rdDataContexts d \<noteq> []
   | _ \<Rightarrow> False)"

lemma undone_apply:
  assumes "undone u u' d" and "canonical d" and "\<And>d1. u d = Inr d1 \<Longrightarrow> canonical d1"
    and "change env d op = u d" and "\<And>x. change env x back = u' x" and "applyOne env d op = Inr d2"
  shows "applyOne env d2 back = Inr d"
proof -
  from assms(1) obtain d1 where d1: "u d = Inr d1" "u' d1 = Inr d" by (auto simp: undone_def)
  with assms(4,6) have "d2 = sortDefinition d1" by (simp add: applyOne_def map_result_def)
  also have "\<dots> = d1" using assms(3) d1(1) by (simp add: sortDefinition_id)
  finally show ?thesis using d1(2) assms(2,5) by (simp add: applyOne_def map_result_def sortDefinition_id)
qed

lemma fresh_index: "i \<notin> key ` set xs \<Longrightarrow> key y = i \<Longrightarrow> find_index (\<lambda>x. key x = i) (xs @ [y]) = Some (length xs)"
  by (induction xs) auto

lemma remove_last [simp]: "remove_at (length xs) (xs @ [y]) = xs"
  by (simp add: remove_at_def)

lemma remove_fresh: "i \<notin> key ` set xs \<Longrightarrow> key y = i \<Longrightarrow> remove_item kind i key (xs @ [y]) = Inr xs"
  by (simp add: remove_item_def fresh_index)

lemma canonical_fields [simp]:
  "canonical (d\<lparr> rdComponents := cs \<rparr>) = canonical d" "canonical (d\<lparr> rdGlobalFilters := fs \<rparr>) = canonical d"
  "canonical (d\<lparr> rdInteractions := xs \<rparr>) = canonical d" "canonical (d\<lparr> rdDataContexts := ys \<rparr>) = canonical d"
  "canonical (d\<lparr> rdMetadata := m, rdRuntimePolicy := rp \<rparr>) = canonical d"
  by (simp_all add: canonical_def)

lemma update_component_canonical: "update_component i f d = Inr d' \<Longrightarrow> canonical d \<Longrightarrow> canonical d'"
  by (auto simp: update_component_def split: option.splits)

lemmas apply_parts = applyOne_def map_result_def change_def invert_payload_def inverse_of_def make_op_def Let_def

lemma page_canonical_name [simp]: "page_canonical (p\<lparr> pgName := n \<rparr>) = page_canonical p"
  by (simp add: page_canonical_def)

lemma section_canonical_name [simp]: "section_canonical (s\<lparr> scName := n \<rparr>) = section_canonical s"
  by (simp add: section_canonical_def)

lemma block_canonical_fields [simp]:
  "block_canonical (b\<lparr> bkLayout := l \<rparr>) = block_canonical b" "block_canonical (b\<lparr> bkType := t \<rparr>) = block_canonical b"
  "block_canonical (b\<lparr> bkType := t, bkTitle := x \<rparr>) = block_canonical b"
  by (simp_all add: block_canonical_def)

lemma first_of_Some: "first_of get xs = Some v \<Longrightarrow> \<exists>x\<in>set xs. get x = Some v"
  by (induction xs) (auto split: option.splits)

lemma found_keys:
  "pageByID i d = Some p \<Longrightarrow> pgID p = i" "sectionByID i d = Some (p, s) \<Longrightarrow> scID s = i"
  "blockByID i d = Some (p, s, b) \<Longrightarrow> bkID b = i" "zoneByID i d = Some (p, s, b, z) \<Longrightarrow> znID z = i"
  "slotValueByID i d = Some (p, s, b, z, v) \<Longrightarrow> slID v = i" "componentByID i d = Some c \<Longrightarrow> cpID c = i"
  unfolding pageByID_def sectionByID_def blockByID_def zoneByID_def slotValueByID_def componentByID_def
  by (auto dest!: first_of_Some find_id_key split: if_splits)

lemma inverse_of_Inr: "inverse_of kind i found build = Inr r \<longleftrightarrow> (\<exists>v. found = Some v \<and> r = build v)"
  by (auto simp: inverse_of_def split: option.splits)

text \<open>An operation that updates a block, say, and one that puts the old value back.\<close>

lemma page_step:
  assumes "canonical d" "pageByID i d = Some v" "change env d op = update_page i f d"
    "\<And>x. change env x back = update_page i f' x" "restores pgID i v f f'"
    "\<And>p. page_canonical p \<Longrightarrow> pgOrder (f p) = pgOrder p \<and> page_canonical (f p)" "applyOne env d op = Inr d2"
  shows "applyOne env d2 back = Inr d"
  using undone_apply [OF update_page_undo [OF assms(2,5)] assms(1) _ assms(3,4,7)]
    update_page_canonical [OF _ assms(1,6)] by blast

lemma section_step:
  assumes "canonical d" "sectionByID i d = Some (p, v)" "change env d op = update_section i f d"
    "\<And>x. change env x back = update_section i f' x" "restores scID i v f f'"
    "\<And>s. section_canonical s \<Longrightarrow> scOrder (f s) = scOrder s \<and> section_canonical (f s)" "applyOne env d op = Inr d2"
  shows "applyOne env d2 back = Inr d"
  using undone_apply [OF update_section_undo [OF assms(2,5)] assms(1) _ assms(3,4,7)]
    update_section_canonical [OF _ assms(1,6)] by blast

lemma block_step:
  assumes "canonical d" "blockByID i d = Some (p, s, v)" "change env d op = update_block i f d"
    "\<And>x. change env x back = update_block i f' x" "restores bkID i v f f'"
    "\<And>b. block_canonical b \<Longrightarrow> mobile_order (f b) = mobile_order b \<and> block_canonical (f b)" "applyOne env d op = Inr d2"
  shows "applyOne env d2 back = Inr d"
  using undone_apply [OF update_block_undo [OF assms(2,5)] assms(1) _ assms(3,4,7)]
    update_block_canonical [OF _ assms(1,6)] by blast

lemma zone_step:
  assumes "canonical d" "zoneByID i d = Some (p, s, b, v)" "change env d op = update_zone i f d"
    "\<And>x. change env x back = update_zone i f' x" "restores znID i v f f'"
    "\<And>z. znOrder (f z) = znOrder z" "applyOne env d op = Inr d2"
  shows "applyOne env d2 back = Inr d"
  using undone_apply [OF update_zone_undo [OF assms(2,5)] assms(1) _ assms(3,4,7)]
    update_zone_canonical [OF _ assms(1,6)] by blast

lemma slot_step:
  assumes "canonical d" "slotValueByID i d = Some (p, s, b, z, v)" "change env d op = update_slot i f d"
    "\<And>x. change env x back = update_slot i f' x" "restores slID i v f f'" "applyOne env d op = Inr d2"
  shows "applyOne env d2 back = Inr d"
  using undone_apply [OF update_slot_undo [OF assms(2,5)] assms(1) _ assms(3,4,6)]
    update_slot_canonical [OF _ assms(1)] by blast

lemma component_step:
  assumes "canonical d" "componentByID i d = Some v" "change env d op = update_component i f d"
    "\<And>x. change env x back = update_component i f' x" "restores cpID i v f f'" "applyOne env d op = Inr d2"
  shows "applyOne env d2 back = Inr d"
  using undone_apply [OF update_component_undo [OF assms(2,5)] assms(1) _ assms(3,4,6)]
    update_component_canonical [OF _ assms(1)] by blast

text \<open>A flat list of the report, changed by a step that keeps everything else.\<close>

lemma list_step:
  assumes "canonical d" "change env d op = Inr mid" "canonical mid" "change env mid back = Inr d"
    "applyOne env d op = Inr d2"
  shows "applyOne env d2 back = Inr d"
  using assms by (simp add: applyOne_def map_result_def sortDefinition_id)


lemma set_desktop_tame [simp]:
  "bkID (set_desktop f b) = bkID b" "mobile_order (set_desktop f b) = mobile_order b"
  "block_canonical (set_desktop f b) = block_canonical b"
  by (simp_all add: set_desktop_def)

lemma set_desktop_back:
  "set_desktop (\<lambda>r. r\<lparr> dbX := dbX (blDesktop (bkLayout b)), dbY := dbY (blDesktop (bkLayout b)) \<rparr>)
     (set_desktop (\<lambda>r. r\<lparr> dbX := x, dbY := y \<rparr>) b) = b"
  "set_desktop (\<lambda>r. r\<lparr> dbW := dbW (blDesktop (bkLayout b)), dbH := dbH (blDesktop (bkLayout b)) \<rparr>)
     (set_desktop (\<lambda>r. r\<lparr> dbW := w, dbH := h \<rparr>) b) = b"
  by (simp_all add: set_desktop_def)

lemmas inverse_simps = invert_payload_def Let_def inverse_of_Inr make_op_def

lemma undo_pages:
  assumes c: "canonical d" and undo: "invert_payload d op = Inr back" and run: "applyOne env d op = Inr d2"
  shows "opPayload op = PageUpdate n \<Longrightarrow> applyOne env d2 back = Inr d"
    and "opPayload op = SectionUpdate n \<Longrightarrow> applyOne env d2 back = Inr d"
    and "opPayload op = ZoneUpdate zt l \<Longrightarrow> applyOne env d2 back = Inr d"
    and "opPayload op = SlotUpdate g ci \<Longrightarrow> applyOne env d2 back = Inr d"
proof -
  let ?i = "opTargetID op"
  { assume op: "opPayload op = PageUpdate n"
    with undo obtain v where v: "pageByID ?i d = Some v"
      "back = \<lparr> opTargetID = pgID v, opPayload = PageUpdate (pgName v) \<rparr>" by (auto simp: inverse_simps)
    show "applyOne env d2 back = Inr d"
      by (rule page_step [where f = "\<lambda>p. p\<lparr> pgName := n \<rparr>" and f' = "\<lambda>p. p\<lparr> pgName := pgName v \<rparr>", OF c v(1) _ _ _ _ run])
        (simp_all add: op v(2) found_keys(1) [OF v(1)] restores_def change_def) }
  { assume op: "opPayload op = SectionUpdate n"
    with undo obtain p v where v: "sectionByID ?i d = Some (p, v)"
      "back = \<lparr> opTargetID = scID v, opPayload = SectionUpdate (scName v) \<rparr>" by (auto simp: inverse_simps)
    show "applyOne env d2 back = Inr d"
      by (rule section_step [where f = "\<lambda>s. s\<lparr> scName := n \<rparr>" and f' = "\<lambda>s. s\<lparr> scName := scName v \<rparr>", OF c v(1) _ _ _ _ run])
        (simp_all add: op v(2) found_keys(2) [OF v(1)] restores_def change_def) }
  { assume op: "opPayload op = ZoneUpdate zt l"
    with undo obtain p s b v where v: "zoneByID ?i d = Some (p, s, b, v)"
      "back = \<lparr> opTargetID = znID v, opPayload = ZoneUpdate (znType v) (znLayout v) \<rparr>" by (auto simp: inverse_simps)
    show "applyOne env d2 back = Inr d"
      by (rule zone_step [where f = "\<lambda>z. z\<lparr> znType := zt, znLayout := l \<rparr>"
            and f' = "\<lambda>z. z\<lparr> znType := znType v, znLayout := znLayout v \<rparr>", OF c v(1) _ _ _ _ run])
        (simp_all add: op v(2) found_keys(4) [OF v(1)] restores_def change_def) }
  { assume op: "opPayload op = SlotUpdate g ci"
    with undo obtain p s b z v where v: "slotValueByID ?i d = Some (p, s, b, z, v)"
      "back = \<lparr> opTargetID = slID v, opPayload = SlotUpdate (slGrid v) (slComponentID v) \<rparr>" by (auto simp: inverse_simps)
    show "applyOne env d2 back = Inr d"
      by (rule slot_step [where f = "\<lambda>s. s\<lparr> slGrid := g, slComponentID := ci \<rparr>"
            and f' = "\<lambda>s. s\<lparr> slGrid := slGrid v, slComponentID := slComponentID v \<rparr>", OF c v(1) _ _ _ run])
        (simp_all add: op v(2) found_keys(5) [OF v(1)] restores_def change_def) }
qed

lemma undo_blocks:
  assumes c: "canonical d" and rev: "reversible d op" and undo: "invert_payload d op = Inr back"
    and run: "applyOne env d op = Inr d2"
  shows "opPayload op = BlockMove x y \<Longrightarrow> applyOne env d2 back = Inr d"
    and "opPayload op = BlockResize x y \<Longrightarrow> applyOne env d2 back = Inr d"
    and "opPayload op = BlockUpdate t title \<Longrightarrow> applyOne env d2 back = Inr d"
proof -
  let ?i = "opTargetID op"
  let ?l = "\<lambda>v. blDesktop (bkLayout v)"
  { assume op: "opPayload op = BlockMove x y"
    with undo obtain p s v where v: "blockByID ?i d = Some (p, s, v)"
      "back = \<lparr> opTargetID = bkID v, opPayload = BlockMove (dbX (?l v)) (dbY (?l v)) \<rparr>" by (auto simp: inverse_simps)
    show "applyOne env d2 back = Inr d"
      by (rule block_step [where f = "set_desktop (\<lambda>r. r\<lparr> dbX := x, dbY := y \<rparr>)"
            and f' = "set_desktop (\<lambda>r. r\<lparr> dbX := dbX (?l v), dbY := dbY (?l v) \<rparr>)", OF c v(1) _ _ _ _ run])
        (simp_all add: op v(2) found_keys(3) [OF v(1)] restores_def change_def set_desktop_back) }
  { assume op: "opPayload op = BlockResize x y"
    with undo obtain p s v where v: "blockByID ?i d = Some (p, s, v)"
      "back = \<lparr> opTargetID = bkID v, opPayload = BlockResize (dbW (?l v)) (dbH (?l v)) \<rparr>" by (auto simp: inverse_simps)
    show "applyOne env d2 back = Inr d"
      by (rule block_step [where f = "set_desktop (\<lambda>r. r\<lparr> dbW := x, dbH := y \<rparr>)"
            and f' = "set_desktop (\<lambda>r. r\<lparr> dbW := dbW (?l v), dbH := dbH (?l v) \<rparr>)", OF c v(1) _ _ _ _ run])
        (simp_all add: op v(2) found_keys(3) [OF v(1)] restores_def change_def set_desktop_back) }
  { assume op: "opPayload op = BlockUpdate t title"
    with undo obtain p s v where v: "blockByID ?i d = Some (p, s, v)"
      "back = \<lparr> opTargetID = bkID v, opPayload = BlockUpdate (bkType v) (Some (bkTitle v)) \<rparr>" by (auto simp: inverse_simps)
    from rev op v(1) have "trim_space (bkTitle v) = bkTitle v" by (simp add: reversible_def)
    then show "applyOne env d2 back = Inr d"
      by (intro block_step [where f = "\<lambda>b. case title of None \<Rightarrow> b\<lparr> bkType := t \<rparr> | Some w \<Rightarrow> b\<lparr> bkType := t, bkTitle := trim_space w \<rparr>"
            and f' = "\<lambda>b. b\<lparr> bkType := bkType v, bkTitle := trim_space (bkTitle v) \<rparr>", OF c v(1) _ _ _ _ run])
        (simp_all add: op v(2) found_keys(3) [OF v(1)] restores_def change_def split: option.splits) }
qed


lemma undo_components:
  assumes c: "canonical d" and undo: "invert_payload d op = Inr back" and run: "applyOne env d op = Inr d2"
  shows "opPayload op = ComponentUpdate opts \<Longrightarrow> applyOne env d2 back = Inr d"
    and "opPayload op = DataBindingUpdate m bd \<Longrightarrow> applyOne env d2 back = Inr d"
    and "opPayload op = InsightUpdate rich ev \<Longrightarrow> applyOne env d2 back = Inr d"
proof -
  let ?i = "opTargetID op"
  { assume op: "opPayload op = ComponentUpdate opts"
    with undo obtain v where v: "componentByID ?i d = Some v"
      "back = \<lparr> opTargetID = cpID v, opPayload = ComponentUpdate (cpOptions v) \<rparr>" by (auto simp: inverse_simps)
    show "applyOne env d2 back = Inr d"
      by (rule component_step [where f = "\<lambda>c. c\<lparr> cpOptions := opts \<rparr>"
            and f' = "\<lambda>c. c\<lparr> cpOptions := cpOptions v \<rparr>", OF c v(1) _ _ _ run])
        (simp_all add: op v(2) found_keys(6) [OF v(1)] restores_def change_def) }
  { assume op: "opPayload op = DataBindingUpdate m bd"
    with undo obtain v where v: "componentByID ?i d = Some v"
      "back = \<lparr> opTargetID = cpID v, opPayload = DataBindingUpdate
         (if cpDataBinding v \<noteq> None then DataBindingSet else DataBindingClear) (cpDataBinding v) \<rparr>"
      by (auto simp: inverse_simps)
    show "applyOne env d2 back = Inr d"
      by (rule component_step [where f = "\<lambda>c. c\<lparr> cpDataBinding := bd \<rparr>"
            and f' = "\<lambda>c. c\<lparr> cpDataBinding := cpDataBinding v \<rparr>", OF c v(1) _ _ _ run])
        (simp_all add: op v(2) found_keys(6) [OF v(1)] restores_def change_def) }
  { assume op: "opPayload op = InsightUpdate rich ev"
    with undo obtain v where v: "componentByID ?i d = Some v"
      "back = \<lparr> opTargetID = cpID v, opPayload = ComponentUpdate (cpOptions v) \<rparr>" by (auto simp: inverse_simps)
    show "applyOne env d2 back = Inr d"
      by (rule component_step [where f = "\<lambda>c. c\<lparr> cpOptions := (cpOptions c)\<lparr> coRichText := rich \<rparr> \<rparr>"
            and f' = "\<lambda>c. c\<lparr> cpOptions := cpOptions v \<rparr>", OF c v(1) _ _ _ run])
        (simp_all add: op v(2) found_keys(6) [OF v(1)] restores_def change_def) }
qed

lemma undo_lists:
  fixes env :: "'e op_env"
  assumes c: "canonical d" and rev: "reversible d op" and undo: "invert_payload d op = Inr back"
    and run: "applyOne env d op = Inr d2"
  shows "opPayload op = FilterUpdate f \<Longrightarrow> applyOne env d2 back = Inr d"
    and "opPayload op = InteractionUpdate j \<Longrightarrow> applyOne env d2 back = Inr d"
    and "opPayload op = ComponentCreate cp \<Longrightarrow> applyOne env d2 back = Inr d"
    and "opPayload op = ComponentCopy newID \<Longrightarrow> applyOne env d2 back = Inr d"
    and "opPayload op = FilterCreate f \<Longrightarrow> applyOne env d2 back = Inr d"
    and "opPayload op = InteractionCreate j \<Longrightarrow> applyOne env d2 back = Inr d"
    and "opPayload op = DataContextCreate x \<Longrightarrow> applyOne env d2 back = Inr d"
proof -
  let ?i = "opTargetID op"
  { assume op: "opPayload op = FilterUpdate f"
    with undo obtain v where v: "find_id gfID ?i (rdGlobalFilters d) = Some v"
      "back = \<lparr> opTargetID = ?i, opPayload = FilterUpdate v \<rparr>" by (auto simp: inverse_simps)
    from rev op have "gfID f = ?i" by (simp add: reversible_def)
    from replace_item_undo [OF v(1) this, of "''filter''"] obtain fs where
      fs: "replace_item ''filter'' ?i gfID f (rdGlobalFilters d) = (Inr fs :: 'e op_error + _)"
      "replace_item ''filter'' ?i gfID v fs = (Inr (rdGlobalFilters d) :: 'e op_error + _)" by blast
    show "applyOne env d2 back = Inr d"
      by (rule list_step [where mid = "d\<lparr> rdGlobalFilters := fs \<rparr>", OF c _ _ _ run])
        (simp_all add: c op v(2) fs change_def map_result_def) }
  { assume op: "opPayload op = InteractionUpdate j"
    with undo obtain v where v: "find_id inID ?i (rdInteractions d) = Some v"
      "back = \<lparr> opTargetID = ?i, opPayload = InteractionUpdate v \<rparr>" by (auto simp: inverse_simps)
    from rev op have "inID j = ?i" by (simp add: reversible_def)
    from replace_item_undo [OF v(1) this, of "''interaction''"] obtain fs where
      fs: "replace_item ''interaction'' ?i inID j (rdInteractions d) = (Inr fs :: 'e op_error + _)"
      "replace_item ''interaction'' ?i inID v fs = (Inr (rdInteractions d) :: 'e op_error + _)" by blast
    show "applyOne env d2 back = Inr d"
      by (rule list_step [where mid = "d\<lparr> rdInteractions := fs \<rparr>", OF c _ _ _ run])
        (simp_all add: c op v(2) fs change_def map_result_def) }
  { assume op: "opPayload op = ComponentCreate cp"
    with rev have "cpID cp \<notin> cpID ` set (rdComponents d)" by (simp add: reversible_def)
    with op undo show "applyOne env d2 back = Inr d"
      by (intro list_step [where mid = "d\<lparr> rdComponents := rdComponents d @ [cp] \<rparr>", OF c _ _ _ run])
        (auto simp: c inverse_simps change_def map_result_def remove_fresh) }
  { assume op: "opPayload op = ComponentCopy newID"
    with rev have fresh: "newID \<notin> cpID ` set (rdComponents d)" by (simp add: reversible_def)
    from op run obtain k where "find_index (\<lambda>c. cpID c = ?i) (rdComponents d) = Some k"
      by (auto simp: applyOne_def map_result_def change_def Let_def split: option.splits)
    with op undo fresh show "applyOne env d2 back = Inr d"
      by (intro list_step [where mid = "d\<lparr> rdComponents := rdComponents d @ [(rdComponents d ! k)\<lparr> cpID := newID \<rparr>] \<rparr>", OF c _ _ _ run])
        (auto simp: c inverse_simps change_def map_result_def remove_fresh) }
  { assume op: "opPayload op = FilterCreate f"
    with rev have "gfID f \<notin> gfID ` set (rdGlobalFilters d)" by (simp add: reversible_def)
    with op undo show "applyOne env d2 back = Inr d"
      by (intro list_step [where mid = "d\<lparr> rdGlobalFilters := rdGlobalFilters d @ [f] \<rparr>", OF c _ _ _ run])
        (auto simp: c inverse_simps change_def map_result_def remove_fresh) }
  { assume op: "opPayload op = InteractionCreate j"
    with rev have "inID j \<notin> inID ` set (rdInteractions d)" by (simp add: reversible_def)
    with op undo show "applyOne env d2 back = Inr d"
      by (intro list_step [where mid = "d\<lparr> rdInteractions := rdInteractions d @ [j] \<rparr>", OF c _ _ _ run])
        (auto simp: c inverse_simps change_def map_result_def remove_fresh) }
  { assume op: "opPayload op = DataContextCreate x"
    with rev have ne: "rdDataContexts d \<noteq> []" by (simp add: reversible_def)
    from op run have "find_index (\<lambda>y. dxID y = dxID x) (rdDataContexts d) = None"
      by (auto simp: applyOne_def map_result_def change_def split: if_splits)
    then have "dxID x \<notin> dxID ` set (rdDataContexts d)" by (auto simp: find_index_None)
    with op undo ne \<open>find_index _ _ = None\<close> show "applyOne env d2 back = Inr d"
      by (intro list_step [where mid = "d\<lparr> rdDataContexts := rdDataContexts d @ [x] \<rparr>", OF c _ _ _ run])
        (auto simp: c inverse_simps change_def fresh_index) }
qed

lemma set_concat_map: "set (concat (map f xs)) = (\<Union>x \<in> set xs. set (f x))" by simp

lemma names_in:
  "set (in_report.ids_within section_ids d) = scID ` set (all_sections d)"
  "set (in_report.ids_within block_ids d) = bkID ` set (all_blocks d)"
  "set (in_report.ids_within zone_ids d) = znID ` set (all_zones d)"
  "set (in_report.ids_within slot_ids d) = slID ` set (all_slots d)"
  unfolding ids_defs all_slots_def all_zones_def all_blocks_def all_sections_def set_concat_map UN_UN_flatten set_map by blast+

lemma creation_step:
  assumes "canonical d" "applyOne env d op = Inr d2"
    "\<And>d1. change env d op = Inr d1 \<Longrightarrow> change env (sortDefinition d1) back = Inr d"
  shows "applyOne env d2 back = Inr d"
  using assms by (auto simp: applyOne_def map_result_def sortDefinition_id split: sum.splits)

lemma copied_name [simp]: "bkID (copyNestedBlockIDs hash (b\<lparr> bkID := i \<rparr>)) = i"
  by (simp add: copyNestedBlockIDs_def)

lemma undo_creations:
  fixes env :: "'e op_env"
  assumes c: "canonical d" and rev: "reversible d op" and undo: "invert_payload d op = Inr back"
    and run: "applyOne env d op = Inr d2"
  shows "opPayload op = PageCreate p \<Longrightarrow> applyOne env d2 back = Inr d"
    and "opPayload op = SectionCreate s \<Longrightarrow> applyOne env d2 back = Inr d"
    and "opPayload op = BlockCreate b \<Longrightarrow> applyOne env d2 back = Inr d"
    and "opPayload op = BlockCopy newID \<Longrightarrow> applyOne env d2 back = Inr d"
    and "opPayload op = ZoneCreate z \<Longrightarrow> applyOne env d2 back = Inr d"
    and "opPayload op = SlotCreate v \<Longrightarrow> applyOne env d2 back = Inr d"
proof -
  note step = creation_step [OF c run] and fresh = names_in [symmetric]
  { assume op: "opPayload op = PageCreate p"
    with undo have b: "back = \<lparr> opTargetID = pgID p, opPayload = PageDelete \<rparr>" by (simp add: inverse_simps)
    show "applyOne env d2 back = Inr d"
      by (rule step) (use page_created_back [OF c, of p "''page''"] rev op in \<open>auto simp: b change_def reversible_def\<close>) }
  { assume op: "opPayload op = SectionCreate s"
    with undo have b: "back = \<lparr> opTargetID = scID s, opPayload = SectionDelete \<rparr>" by (simp add: inverse_simps)
    show "applyOne env d2 back = Inr d"
      by (rule step) (use section_created_back [OF c, of "opTargetID op" s] rev op in \<open>simp add: b change_def reversible_def names_in Let_def\<close>) }
  { assume op: "opPayload op = BlockCreate b"
    with undo have b: "back = \<lparr> opTargetID = bkID b, opPayload = BlockDelete \<rparr>" by (simp add: inverse_simps)
    show "applyOne env d2 back = Inr d"
      by (rule step) (use block_created_back [OF c, of "opTargetID op" b] rev op in \<open>simp add: b change_def reversible_def names_in Let_def\<close>) }
  { assume op: "opPayload op = BlockCopy newID"
    with undo have b: "back = \<lparr> opTargetID = newID, opPayload = BlockDelete \<rparr>" by (simp add: inverse_simps)
    show "applyOne env d2 back = Inr d"
      by (rule step) (use block_copied_back [OF c, where i = newID and j = "opTargetID op" and kind = "''block''" and
          copy = "\<lambda>s k. copyNestedBlockIDs (envHash env) ((scBlocks s ! k)\<lparr> bkID := newID \<rparr>)"] rev op in \<open>simp add: b change_def reversible_def names_in Let_def\<close>) }
  { assume op: "opPayload op = ZoneCreate z"
    with undo have b: "back = \<lparr> opTargetID = znID z, opPayload = ZoneDelete \<rparr>" by (simp add: inverse_simps)
    show "applyOne env d2 back = Inr d"
      by (rule step) (use zone_created_back [OF c, of "opTargetID op" z] rev op in \<open>simp add: b change_def reversible_def names_in Let_def\<close>) }
  { assume op: "opPayload op = SlotCreate v"
    with undo have b: "back = \<lparr> opTargetID = slID v, opPayload = SlotDelete \<rparr>" by (simp add: inverse_simps)
    show "applyOne env d2 back = Inr d"
      by (rule step) (use slot_created_back [OF c, of "opTargetID op" v] rev op in \<open>simp add: b change_def reversible_def names_in Let_def\<close>) }
qed

lemma applyOne_undo:
  assumes "canonical d" and "reversible d op" and "invert_payload d op = Inr back" and "applyOne env d op = Inr d2"
  shows "applyOne env d2 back = Inr d"
proof (cases "opPayload op")
  case (ReportSettingsUpdate m rp)
  with assms show ?thesis
    by (intro list_step [where mid = "d\<lparr> rdMetadata := m, rdRuntimePolicy := rp \<rparr>", OF assms(1) _ _ _ assms(4)])
      (auto simp: inverse_simps change_def)
next
  case (InsightRegenerate e m v)
  with assms show ?thesis
    by (auto simp: inverse_simps applyOne_def map_result_def change_def sortDefinition_id split: option.splits)
qed (use assms undo_pages [OF assms(1,3,4)] undo_blocks [OF assms] undo_components [OF assms(1,3,4)]
    undo_lists [OF assms] undo_creations [OF assms] in
  \<open>auto simp: inverse_simps applyOne_def map_result_def change_def sortDefinition_id reversible_def\<close>)


section \<open>Bundles\<close>

text \<open>The success of the loop does not depend on where its positions start.\<close>

lemma apply_loop_chain:
  "apply_loop env 0 d xs = Inr d1 \<Longrightarrow> apply_loop env 0 d1 ys = Inr d2 \<Longrightarrow> apply_loop env 0 d (xs @ ys) = Inr d2"
  using apply_loop_shift [of env 0 "length xs" d1 ys] by (simp add: apply_loop_append)

lemma apply_loop_step:
  "operation_valid env op \<Longrightarrow> applyOne env d op = Inr d1 \<Longrightarrow> apply_loop env 0 d1 ops = Inr d2 \<Longrightarrow>
     apply_loop env 0 d (op # ops) = Inr d2"
  using apply_loop_shift [of env 0 1 d1 ops] by simp

fun reversible_run :: "'e op_env \<Rightarrow> ReportDefinition \<Rightarrow> Operation list \<Rightarrow> bool" where
  "reversible_run env d [] \<longleftrightarrow> True"
| "reversible_run env d (op # ops) \<longleftrightarrow> reversible d op \<and>
     (case applyOne env d op of Inl _ \<Rightarrow> False | Inr d1 \<Rightarrow> reversible_run env d1 ops)"

lemma invert_states_append:
  "invert_states env (xs @ [(op, d)]) = Inr invs \<Longrightarrow> \<exists>invs1 undo. invs = invs1 @ [undo] \<and>
     invert_states env xs = Inr invs1 \<and> Invert env op d = Inr undo"
proof (induction xs arbitrary: invs)
  case Nil
  then show ?case by (auto split: sum.splits)
next
  case (Cons x xs)
  obtain o1 d1 where x: "x = (o1, d1)" by (cases x)
  with Cons.prems obtain b rest where b: "Invert env o1 d1 = Inr b"
    "invert_states env (xs @ [(op, d)]) = Inr rest" "invs = b # rest" by (auto split: sum.splits)
  from Cons.IH [OF b(2)] obtain invs1 undo where
    "rest = invs1 @ [undo]" "invert_states env xs = Inr invs1" "Invert env op d = Inr undo" by blast
  with b x show ?case by (intro exI [of _ "b # invs1"] exI [of _ undo]) simp
qed

lemma undo_bundle:
  fixes env :: "'e op_env"
  assumes clone: "\<And>x. envClone env x = Inr x"
    and "canonical d" and "bundle_states env d ops = Inr states" and "invert_states env (rev states) = Inr invs"
    and "reversible_run env d ops"
  shows "\<exists>d'. apply_loop env 0 d ops = Inr d' \<and> apply_loop env 0 d' invs = Inr d"
  using assms(2-)
proof (induction ops arbitrary: d states invs)
  case Nil
  then show ?case by simp
next
  case (Cons op ops)
  from Cons.prems(4) obtain d1 where rev: "reversible d op" "applyOne env d op = Inr d1" "reversible_run env d1 ops"
    by (auto split: sum.splits)
  have "Apply env d [op] = (d1, None)" if "operation_valid env op"
    using that rev(2) clone by (simp add: Apply_def)
  with Cons.prems(2) clone have valid: "operation_valid env op"
    by (cases "operation_valid env op") (simp_all add: Apply_def)
  with \<open>_ \<Longrightarrow> Apply env d [op] = _\<close> Cons.prems(2) obtain rest where
    rest: "bundle_states env d1 ops = Inr rest" "states = (op, d) # rest" by (auto split: sum.splits)
  from Cons.prems(3) rest(2) obtain invs1 undo where
    invs: "invs = invs1 @ [undo]" "invert_states env (rev rest) = Inr invs1" "Invert env op d = Inr undo"
    using invert_states_append [of env "rev rest" op d invs] by auto
  have "canonical d1" using applyOne_canonical rev(2) .
  from Cons.IH [OF this rest(1) invs(2) rev(3)] obtain d' where
    d': "apply_loop env 0 d1 ops = Inr d'" "apply_loop env 0 d' invs1 = Inr d1" by blast
  from invs(3) valid clone have "(invert_payload d op :: 'e invert_error + _) = Inr undo" "operation_valid env undo"
    by (auto simp: Invert_def split: sum.splits if_splits)
  with applyOne_undo [OF Cons.prems(1) rev(1) this(1) rev(2)] have "apply_loop env 0 d1 [undo] = Inr d" by simp
  from apply_loop_chain [OF d'(2) this] invs(1) apply_loop_step [OF valid rev(2) d'(1)] show ?case by blast
qed

text \<open>C31: Undo is a round trip: on a definition in canonical order, a bundle followed by the bundle
  \<open>InvertBundle\<close> derives for it gives the definition back exactly, when every operation of the bundle
  is an addition or an update in place. Additions are those of pages, sections, blocks, zones, slots,
  components, filters, interactions and (where there is one already) data contexts, and the copies of
  blocks and components, under an identifier that no element of that kind has. Updates are those of
  the report, its settings, template and theme, of the names, types, desktop positions and sizes and
  layouts of elements, of slots, components, bindings and insights; a filter or interaction must keep
  its identifier, and the old title of a block must have no outer spaces. Deletions, new orders,
  merged, split and replaced elements are left out: undoing them need not be exact.\<close>

theorem undo_restores_definition:
  assumes "\<And>x. envClone env x = Inr x" and "canonical d" and "reversible_run env d ops"
    and "InvertBundle env ops d = Inr undos"
  shows "Apply env d (ops @ undos) = (d, None)"
proof -
  from assms(4) obtain states where "bundle_states env d ops = Inr states" "invert_states env (rev states) = Inr undos"
    by (auto simp: InvertBundle_def split: sum.splits)
  from undo_bundle [OF assms(1,2) this assms(3)] obtain d' where
    "apply_loop env 0 d ops = Inr d'" "apply_loop env 0 d' undos = Inr d" by blast
  from apply_loop_chain [OF this] assms(1) show ?thesis by (simp add: Apply_def)
qed

definition sample_edit :: "Operation list" where
  "sample_edit = [\<lparr> opTargetID = ''p'', opPayload = PageUpdate ''Overview'' \<rparr>,
     \<lparr> opTargetID = ''b1'', opPayload = BlockResize 12 4 \<rparr>,
     \<lparr> opTargetID = ''b1'', opPayload = BlockCopy ''b9'' \<rparr>,
     \<lparr> opTargetID = ''p'', opPayload = SectionCreate \<lparr> scID = ''sec0'', scName = ''First'', scOrder = 0, scQuestion = [],
       scLayoutIntentMode = None, scBlocks = [] \<rparr> \<rparr>,
     \<lparr> opTargetID = ''report'', opPayload = ThemeUpdate \<lparr> thThemeID = ''dark'', thVersion = ''2.0.0'' \<rparr> \<rparr>]"

theorem undo_restores_definition_witness:
  "\<exists>undos. InvertBundle sample_env sample_edit (sortDefinition sample_report) = Inr undos \<and> length undos = 5 \<and>
     Apply sample_env (sortDefinition sample_report) (sample_edit @ undos) = (sortDefinition sample_report, None)"
proof -
  let ?d = "sortDefinition sample_report"
  have "case InvertBundle sample_env sample_edit ?d of Inl _ \<Rightarrow> False | Inr u \<Rightarrow> length u = 5" by code_simp
  then obtain undos where u: "InvertBundle sample_env sample_edit ?d = Inr undos" "length undos = 5"
    by (auto split: sum.splits)
  have r: "reversible_run sample_env ?d sample_edit" by code_simp
  have clone: "\<And>x. envClone sample_env x = Inr x" by (simp add: sample_env_def)
  from u undo_restores_definition [OF clone sortDefinition_canonical r u(1)] show ?thesis by blast
qed


text \<open>Where undo is not exact: the inverse of an update that renames a filter looks for the old
  identifier and fails, when no other filter has it; and undoing the deletion of a component
  brings it back at the end of the component list instead of its place.\<close>

theorem undo_limits:
  fixes env :: "'e op_env"
  assumes clone: "\<And>x. envClone env x = Inr x" and d: "canonical d"
    and inv: "Invert env op d = Inr undo" and run: "Apply env d [op] = (d1, None)"
  shows "(\<forall>f. opPayload op = FilterUpdate f \<and> gfID f \<noteq> opTargetID op \<and>
       length (filter (\<lambda>x. gfID x = opTargetID op) (rdGlobalFilters d)) = 1 \<longrightarrow>
       Apply env d1 [undo] = (d1, Some (ApplyError 0 ''REPORT_OPERATION_APPLY_FAILED''))) \<and>
     (opPayload op = ComponentDelete \<longrightarrow> (\<exists>before c after. rdComponents d = before @ c # after \<and>
       cpID c = opTargetID op \<and>
       Apply env d1 [undo] = (d\<lparr> rdComponents := before @ after @ [c] \<rparr>, None)))"
proof (intro conjI allI impI)
  from run clone have a: "applyOne env d op = Inr d1" "operation_valid env op"
    by (auto simp: Apply_def split: if_splits sum.splits)
  from inv clone a(2) have i: "(invert_payload d op :: 'e invert_error + _) = Inr undo" "operation_valid env undo"
    by (auto simp: Invert_def split: sum.splits if_splits)
  { fix f assume f: "opPayload op = FilterUpdate f \<and> gfID f \<noteq> opTargetID op \<and>
       length (filter (\<lambda>x. gfID x = opTargetID op) (rdGlobalFilters d)) = 1"
    let ?i = "opTargetID op"
    from f i(1) obtain v where v: "undo = \<lparr> opTargetID = ?i, opPayload = FilterUpdate v \<rparr>"
      by (auto simp: inverse_simps)
    from a(1) f obtain k where k: "find_index (\<lambda>x. gfID x = ?i) (rdGlobalFilters d) = Some k"
      "d1 = sortDefinition (d\<lparr> rdGlobalFilters := (rdGlobalFilters d)[k := f] \<rparr>)"
      by (auto simp: applyOne_def map_result_def change_def Let_def replace_item_def split: option.splits)
    have "find_index (\<lambda>x. gfID x = ?i) (xs[k := f]) = None"
      if "find_index (\<lambda>x. gfID x = ?i) xs = Some k" "length (filter (\<lambda>x. gfID x = ?i) xs) = 1" for xs k
      using that f
      by (induction xs arbitrary: k) (auto split: if_splits nat.splits simp: find_index_None filter_empty_conv)
    with k f have none: "find_index (\<lambda>x. gfID x = ?i) (rdGlobalFilters d1) = None" by (simp add: sortDefinition_def)
    show "Apply env d1 [undo] = (d1, Some (ApplyError 0 ''REPORT_OPERATION_APPLY_FAILED''))"
      using none i(2) clone v
      by (simp add: Apply_def applyOne_def map_result_def change_def replace_item_def apply_code_def) }
  { assume op: "opPayload op = ComponentDelete"
    let ?i = "opTargetID op"
    from op i(1) obtain c where c: "find_id cpID ?i (rdComponents d) = Some c"
      "undo = \<lparr> opTargetID = mdID (rdMetadata d), opPayload = ComponentCreate c \<rparr>"
      by (auto simp: inverse_simps componentByID_def)
    then obtain k where k: "find_index (\<lambda>x. cpID x = ?i) (rdComponents d) = Some k" "c = rdComponents d ! k"
      by (auto simp: find_id_def)
    then have len: "k < length (rdComponents d)" using find_index_Some by fast
    from k(1) a(1) op have d1: "d1 = d\<lparr> rdComponents := remove_at k (rdComponents d) \<rparr>"
      using d by (simp add: applyOne_def map_result_def change_def remove_item_def sortDefinition_id)
    have "Apply env d1 [undo] = (d\<lparr> rdComponents := remove_at k (rdComponents d) @ [c] \<rparr>, None)"
      using i(2) clone c(2) d1 d by (simp add: Apply_def applyOne_def map_result_def change_def sortDefinition_id)
    with len k(2) find_id_key [OF c(1)] show "\<exists>before c after. rdComponents d = before @ c # after \<and>
       cpID c = opTargetID op \<and>
       Apply env d1 [undo] = (d\<lparr> rdComponents := before @ after @ [c] \<rparr>, None)"
      by (intro exI [of _ "take k (rdComponents d)"] exI [of _ c] exI [of _ "drop (Suc k) (rdComponents d)"])
        (simp add: remove_at_def id_take_nth_drop [symmetric]) }
qed

definition sample_filter :: GlobalFilter where
  "sample_filter = \<lparr> gfID = ''f1'', gfType = FilterSelect, gfLabel = ''Region'', gfOptions = [],
     gfFieldRef = \<lparr> frDataContextID = ''ctx'', frField = ''region'' \<rparr>,
     gfScope = \<lparr> fsType = FilterScopeReport, fsTargetIDs = [] \<rparr>, gfDefaultValue = None \<rparr>"

definition sample_rename :: Operation where
  "sample_rename = \<lparr> opTargetID = ''f1'', opPayload = FilterUpdate (sample_filter\<lparr> gfID := ''f2'' \<rparr>) \<rparr>"

theorem undo_limits_witness:
  "\<exists>undo d1. Invert sample_env sample_rename (sortDefinition (sample_report\<lparr> rdGlobalFilters := [sample_filter] \<rparr>)) = Inr undo \<and>
     Apply sample_env (sortDefinition (sample_report\<lparr> rdGlobalFilters := [sample_filter] \<rparr>)) [sample_rename] = (d1, None) \<and>
     Apply sample_env d1 [undo] = (d1, Some (ApplyError 0 ''REPORT_OPERATION_APPLY_FAILED''))"
proof -
  let ?d = "sortDefinition (sample_report\<lparr> rdGlobalFilters := [sample_filter] \<rparr>)"
  have "\<not> isl (Invert sample_env sample_rename ?d)" by code_simp
  then obtain undo where u: "Invert sample_env sample_rename ?d = Inr undo"
    by (cases "Invert sample_env sample_rename ?d") auto
  have "snd (Apply sample_env ?d [sample_rename]) = None" by code_simp
  then obtain d1 where r: "Apply sample_env ?d [sample_rename] = (d1, None)" by (metis prod.collapse)
  have clone: "\<And>x. envClone sample_env x = Inr x" by (simp add: sample_env_def)
  have f: "opPayload sample_rename = FilterUpdate (sample_filter\<lparr> gfID := ''f2'' \<rparr>) \<and>
      gfID (sample_filter\<lparr> gfID := ''f2'' \<rparr>) \<noteq> opTargetID sample_rename \<and>
      length (filter (\<lambda>x. gfID x = opTargetID sample_rename) (rdGlobalFilters ?d)) = 1"
    by (simp add: sample_rename_def sample_filter_def sortDefinition_def)
  from undo_limits [OF clone sortDefinition_canonical u r] f u r show ?thesis by blast
qed

end
