(* ===== verification/DepthFirst.thy ===== *)
theory DepthFirst imports Prelude begin

text \<open>
  The three-coloured depth-first search of \<open>hasInteractionCycle\<close>
  (\<open>internal/report/compiler/interaction.go\<close>): a node met again while it is being visited closes
  a cycle. The colours are a Go map whose missing keys read as \<open>Unseen\<close>. Recursion is bounded by
  fuel; one more than the number of nodes is enough, and the graph is cyclic exactly when the
  search says so, whatever the iteration order of the map of edges.
\<close>

section \<open>The search\<close>

datatype colour = Unseen | Visiting | Done

type_synonym graph = "ID \<Rightarrow> ID list"
type_synonym colours = "ID \<Rightarrow> colour"

fun visit :: "nat \<Rightarrow> graph \<Rightarrow> colours \<Rightarrow> ID \<Rightarrow> (bool \<times> colours) option"
  and visit_targets :: "nat \<Rightarrow> graph \<Rightarrow> colours \<Rightarrow> ID list \<Rightarrow> (bool \<times> colours) option" where
  "visit 0 g c node = None"
| "visit (Suc fuel) g c node = (case c node of
     Visiting \<Rightarrow> Some (True, c)
   | Done \<Rightarrow> Some (False, c)
   | Unseen \<Rightarrow> (case visit_targets fuel g (c(node := Visiting)) (g node) of
        None \<Rightarrow> None
      | Some (True, c') \<Rightarrow> Some (True, c')
      | Some (False, c') \<Rightarrow> Some (False, c'(node := Done))))"
| "visit_targets fuel g c [] = Some (False, c)"
| "visit_targets fuel g c (target # targets) = (case visit fuel g c target of
     None \<Rightarrow> None
   | Some (True, c') \<Rightarrow> Some (True, c')
   | Some (False, c') \<Rightarrow> visit_targets fuel g c' targets)"

fun search :: "nat \<Rightarrow> graph \<Rightarrow> colours \<Rightarrow> ID list \<Rightarrow> bool option" where
  "search fuel g c [] = Some False"
| "search fuel g c (node # nodes) =
     (if c node = Unseen then (case visit fuel g c node of
        None \<Rightarrow> None | Some (True, c') \<Rightarrow> Some True | Some (False, c') \<Rightarrow> search fuel g c' nodes)
      else search fuel g c nodes)"

text \<open>
  The code ranges over the keys of the map of edges, in no particular order: the argument is any
  list of them.
\<close>

definition graph_fuel :: "graph \<Rightarrow> ID list \<Rightarrow> nat" where
  "graph_fuel g nodes = Suc (length nodes + length (concat (map g nodes)))"

definition hasInteractionCycle :: "graph \<Rightarrow> ID list \<Rightarrow> bool option" where
  "hasInteractionCycle g nodes = search (graph_fuel g nodes) g (\<lambda>_. Unseen) nodes"

section \<open>Cycles\<close>

definition edges :: "graph \<Rightarrow> (ID \<times> ID) set" where
  "edges g = {(a, b). b \<in> set (g a)}"

definition cyclic :: "graph \<Rightarrow> bool" where
  "cyclic g \<longleftrightarrow> (\<exists>x. (x, x) \<in> (edges g)\<^sup>+)"

definition coloured :: "colour \<Rightarrow> colours \<Rightarrow> ID set" where
  "coloured k c = {n. c n = k}"

text \<open>What the colours of a search without a cycle so far satisfy.\<close>

definition explored :: "graph \<Rightarrow> colours \<Rightarrow> bool" where
  "explored g c \<longleftrightarrow> (\<forall>n\<in>coloured Done c. set (g n) \<subseteq> coloured Done c \<and> (n, n) \<notin> (edges g)\<^sup>+)"

text \<open>A node being visited leads to every node of the list.\<close>

definition leads :: "graph \<Rightarrow> colours \<Rightarrow> ID list \<Rightarrow> bool" where
  "leads g c ts \<longleftrightarrow> (\<forall>v\<in>coloured Visiting c. \<forall>t\<in>set ts. (v, t) \<in> (edges g)\<^sup>+)"

lemma coloured_simps [simp]: "n \<in> coloured k c \<longleftrightarrow> c n = k"
  by (simp add: coloured_def)

text \<open>A search that finds no cycle only turns unseen nodes into done ones.\<close>

definition settles :: "colours \<Rightarrow> colours \<Rightarrow> ID list \<Rightarrow> bool" where
  "settles c c' ts \<longleftrightarrow> (\<forall>n. c n \<noteq> Unseen \<longrightarrow> c' n = c n) \<and> (\<forall>n. c n = Unseen \<longrightarrow> c' n \<noteq> Visiting) \<and>
     (\<forall>t\<in>set ts. c' t = Done)"

lemma visit_settles:
  "visit fuel g c n = Some (False, c') \<Longrightarrow> settles c c' [n]"
  "visit_targets fuel g c ts = Some (False, c') \<Longrightarrow> settles c c' ts"
proof (induction fuel g c n and fuel g c ts arbitrary: c' and c' rule: visit_visit_targets.induct)
  case (2 fuel g c node)
  show ?case
  proof (cases "c node")
    case Unseen
    with "2.prems" obtain c1 where v: "visit_targets fuel g (c(node := Visiting)) (g node) = Some (False, c1)"
      and c': "c' = c1(node := Done)"
      by (auto split: option.splits prod.splits bool.splits)
    have "settles (c(node := Visiting)) c1 (g node)" using "2.IH" Unseen v by (simp add: fun_upd_def)
    then show ?thesis using Unseen unfolding c' settles_def by (auto split: if_splits)
  qed (use "2.prems" in \<open>auto simp: settles_def\<close>)
next
  case (4 fuel g c t ts)
  from "4.prems" obtain c1 where 1: "visit fuel g c t = Some (False, c1)" "visit_targets fuel g c1 ts = Some (False, c')"
    by (auto split: option.splits prod.splits bool.splits)
  have "settles c c1 [t]" using "4.IH"(1) [OF 1(1)] .
  moreover have "settles c1 c' ts" using "4.IH"(2) [OF 1(1) _ _ 1(2)] by blast
  ultimately have "settles c c1 [t]" "settles c1 c' ts" .
  then show ?case unfolding settles_def by (auto dest!: spec)
qed (auto simp: settles_def)

lemma settles_visiting: "settles c c' ts \<Longrightarrow> c' n = Visiting \<longleftrightarrow> c n = Visiting"
  by (cases "c n") (auto simp: settles_def)

lemma settles_done: "settles c c' ts \<Longrightarrow> c n = Done \<Longrightarrow> c' n = Done"
  by (auto simp: settles_def)

lemma settles_unseen: "settles c c' ts \<Longrightarrow> c' n = Unseen \<Longrightarrow> c n = Unseen"
  by (cases "c n") (auto simp: settles_def)

section \<open>A cycle that is found exists\<close>

lemma leads_down: "leads g c [n] \<Longrightarrow> c n \<noteq> Visiting \<Longrightarrow> leads g (c(n := Visiting)) (g n)"
  unfolding leads_def
proof (intro ballI)
  fix v t
  assume l: "\<forall>v\<in>coloured Visiting c. \<forall>t\<in>set [n]. (v, t) \<in> (edges g)\<^sup>+"
    and v: "v \<in> coloured Visiting (c(n := Visiting))" and t: "t \<in> set (g n)"
  have "(n, t) \<in> edges g" using t by (simp add: edges_def)
  with l v show "(v, t) \<in> (edges g)\<^sup>+" by (cases "v = n") (auto intro: trancl_into_trancl)
qed

lemma visit_cycle:
  "visit fuel g c n = Some (True, c') \<Longrightarrow> leads g c [n] \<Longrightarrow> cyclic g"
  "visit_targets fuel g c ts = Some (True, c') \<Longrightarrow> leads g c ts \<Longrightarrow> cyclic g"
proof (induction fuel g c n and fuel g c ts arbitrary: c' and c' rule: visit_visit_targets.induct)
  case (2 fuel g c node)
  show ?case
  proof (cases "c node")
    case Unseen
    with "2.prems" have "visit_targets fuel g (c(node := Visiting)) (g node) = Some (True, c')"
      by (auto split: option.splits prod.splits bool.splits)
    with "2.IH" Unseen leads_down [OF "2.prems"(2)] show ?thesis by (simp add: fun_upd_def)
  next
    case Visiting
    with "2.prems"(2) show ?thesis by (auto simp: cyclic_def leads_def)
  next
    case Done
    with "2.prems" show ?thesis by simp
  qed
next
  case (4 fuel g c t ts)
  show ?case
  proof (cases "visit fuel g c t")
    case None
    with "4.prems" show ?thesis by simp
  next
    case (Some r)
    obtain b c1 where r: "r = (b, c1)" by fastforce
    have l: "leads g c [t]" "leads g c ts" using "4.prems"(2) by (auto simp: leads_def)
    show ?thesis
    proof (cases b)
      case True
      with Some r l(1) "4.IH"(1) show ?thesis by auto
    next
      case False
      with Some r have s: "settles c c1 [t]" using visit_settles(1) by auto
      have "leads g c1 ts" using l(2) settles_visiting [OF s] by (simp add: leads_def)
      with "4.IH"(2) "4.prems"(1) Some r False show ?thesis by auto
    qed
  qed
qed auto

section \<open>A search that finds none has explored\<close>

lemma closed_trancl: "(a, b) \<in> (edges g)\<^sup>+ \<Longrightarrow> (\<And>x. x \<in> S \<Longrightarrow> set (g x) \<subseteq> S) \<Longrightarrow> a \<in> S \<Longrightarrow> b \<in> S"
  by (induction rule: trancl_induct) (auto simp: edges_def)

lemma explored_done:
  assumes e: "explored g c" and t: "\<forall>t\<in>set (g n). c t = Done" and n: "c n \<noteq> Done"
  shows "explored g (c(n := Done))"
proof -
  let ?D = "coloured Done c"
  have closed: "\<And>x. x \<in> ?D \<Longrightarrow> set (g x) \<subseteq> ?D" using e unfolding explored_def by blast
  have "(n, n) \<notin> (edges g)\<^sup>+"
  proof
    assume "(n, n) \<in> (edges g)\<^sup>+"
    then obtain t' where "(n, t') \<in> edges g" "t' = n \<or> (t', n) \<in> (edges g)\<^sup>+"
      by (meson tranclD rtranclD)
    moreover from this t have "t' \<in> ?D" by (auto simp: edges_def)
    ultimately have "n \<in> ?D" using closed_trancl [of t' n g ?D] closed by blast
    with n show False by simp
  qed
  with e t show ?thesis unfolding explored_def by (auto simp: subset_iff split: if_splits)
qed

lemma visit_explored:
  "visit fuel g c n = Some (False, c') \<Longrightarrow> explored g c \<Longrightarrow> explored g c'"
  "visit_targets fuel g c ts = Some (False, c') \<Longrightarrow> explored g c \<Longrightarrow> explored g c'"
proof (induction fuel g c n and fuel g c ts arbitrary: c' and c' rule: visit_visit_targets.induct)
  case (2 fuel g c node)
  show ?case
  proof (cases "c node")
    case Unseen
    with "2.prems" obtain c1 where v: "visit_targets fuel g (c(node := Visiting)) (g node) = Some (False, c1)"
      and c': "c' = c1(node := Done)"
      by (auto split: option.splits prod.splits bool.splits)
    have "coloured Done (c(node := Visiting)) = coloured Done c" using Unseen by (auto simp: coloured_def)
    then have "explored g (c(node := Visiting))" using "2.prems"(2) by (simp add: explored_def)
    then have "explored g c1" using "2.IH" Unseen v by (simp add: fun_upd_def)
    moreover note s = visit_settles(2) [OF v]
    have "\<forall>t\<in>set (g node). c1 t = Done" using s by (simp add: settles_def)
    moreover have "c1 node \<noteq> Done" using settles_visiting [OF s, of node] by simp
    ultimately show ?thesis unfolding c' by (rule explored_done)
  qed (use "2.prems" in auto)
next
  case (4 fuel g c t ts)
  then show ?case by (auto split: option.splits prod.splits bool.splits)
qed auto

section \<open>Enough fuel\<close>

lemma visit_total:
  "finite N \<Longrightarrow> n \<in> N \<Longrightarrow> (\<And>x. x \<in> N \<Longrightarrow> set (g x) \<subseteq> N) \<Longrightarrow> card (N \<inter> coloured Unseen c) < fuel \<Longrightarrow> visit fuel g c n \<noteq> None"
  "finite N \<Longrightarrow> set ts \<subseteq> N \<Longrightarrow> (\<And>x. x \<in> N \<Longrightarrow> set (g x) \<subseteq> N) \<Longrightarrow> card (N \<inter> coloured Unseen c) < fuel \<Longrightarrow> visit_targets fuel g c ts \<noteq> None"
proof (induction fuel g c n and fuel g c ts rule: visit_visit_targets.induct)
  case (2 fuel g c node)
  show ?case
  proof (cases "c node")
    case Unseen
    have "N \<inter> coloured Unseen (c(node := Visiting)) = N \<inter> coloured Unseen c - {node}" by (auto split: if_splits)
    moreover have "card (N \<inter> coloured Unseen c - {node}) < card (N \<inter> coloured Unseen c)"
      using "2.prems"(1,2) Unseen by (intro card_Diff1_less) auto
    ultimately have "card (N \<inter> coloured Unseen (c(node := Visiting))) < fuel" using "2.prems"(4) by simp
    then have "visit_targets fuel g (c(node := Visiting)) (g node) \<noteq> None"
      using "2.IH" Unseen "2.prems" by (simp add: fun_upd_def)
    with Unseen show ?thesis by (auto split: bool.splits)
  qed auto
next
  case (4 fuel g c t ts)
  have v: "visit fuel g c t \<noteq> None" using "4.IH"(1) "4.prems" by auto
  have "visit_targets fuel g c1 ts \<noteq> None" if s: "visit fuel g c t = Some (False, c1)" for c1
  proof -
    have "N \<inter> coloured Unseen c1 \<subseteq> N \<inter> coloured Unseen c"
      using settles_unseen [OF visit_settles(1) [OF s]] by auto
    then have "card (N \<inter> coloured Unseen c1) < fuel"
      using card_mono [of "N \<inter> coloured Unseen c"] "4.prems"(1,4) by (meson finite_Int order_le_less_trans)
    with "4.IH"(2) [OF s] "4.prems" s show ?thesis by auto
  qed
  with v show ?case by (auto split: option.splits prod.splits bool.splits)
qed auto

section \<open>The search decides\<close>

lemma search_spec:
  assumes fin: "finite N" and closed: "\<And>x. x \<in> N \<Longrightarrow> set (g x) \<subseteq> N"
  shows "set nodes \<subseteq> N \<Longrightarrow> explored g c \<Longrightarrow> coloured Visiting c = {} \<Longrightarrow> card (N \<inter> coloured Unseen c) < fuel \<Longrightarrow>
    search fuel g c nodes = Some False \<and> (\<exists>c'. explored g c' \<and> coloured Done c \<union> set nodes \<subseteq> coloured Done c') \<or>
    search fuel g c nodes = Some True \<and> cyclic g"
proof (induction nodes arbitrary: c)
  case Nil
  then show ?case by auto
next
  case (Cons n nodes)
  show ?case
  proof (cases "c n = Unseen")
    case True
    obtain b c1 where v: "visit fuel g c n = Some (b, c1)"
      using visit_total(1) [OF fin _ closed Cons.prems(4)] Cons.prems(1) by fastforce
    show ?thesis
    proof (cases b)
      case True
      have "leads g c [n]" using Cons.prems(3) by (auto simp: leads_def)
      with v True have "cyclic g" using visit_cycle(1) by simp
      with v True \<open>c n = Unseen\<close> show ?thesis by simp
    next
      case False
      with v have s: "settles c c1 [n]" using visit_settles(1) by simp
      have "N \<inter> coloured Unseen c1 \<subseteq> N \<inter> coloured Unseen c" using settles_unseen [OF s] by auto
      then have "card (N \<inter> coloured Unseen c1) < fuel"
        using card_mono [of "N \<inter> coloured Unseen c"] fin Cons.prems(4) by (meson finite_Int order_le_less_trans)
      moreover have "explored g c1" using visit_explored(1) v False Cons.prems(2) by simp
      moreover have "coloured Visiting c1 = {}"
        using settles_visiting [OF s] Cons.prems(3) by (auto simp: coloured_def)
      moreover have "c1 n = Done" "coloured Done c \<subseteq> coloured Done c1"
        using s by (auto simp: settles_def)
      ultimately have "search fuel g c1 nodes = Some False \<and> (\<exists>c'. explored g c' \<and> coloured Done c1 \<union> set nodes \<subseteq> coloured Done c') \<or>
          search fuel g c1 nodes = Some True \<and> cyclic g" "coloured Done c \<union> {n} \<subseteq> coloured Done c1"
        using Cons.IH [of c1] Cons.prems(1) by auto
      moreover have "search fuel g c (n # nodes) = search fuel g c1 nodes" using v False \<open>c n = Unseen\<close> by simp
      ultimately show ?thesis by (simp only: set_simps) blast
    qed
  next
    case False
    then have "c n = Done" using Cons.prems(3) by (cases "c n") (auto simp: coloured_def)
    then have "coloured Done c \<union> {n} \<subseteq> coloured Done c" by simp
    moreover have "search fuel g c (n # nodes) = search fuel g c nodes" using False by simp
    moreover note Cons.IH [of c] Cons.prems
    ultimately show ?thesis by (simp only: set_simps) blast
  qed
qed

lemma edge_start: "(x, y) \<in> (edges g)\<^sup>+ \<Longrightarrow> g x \<noteq> []"
  by (induction rule: trancl_induct) (auto simp: edges_def)

lemma cycle_decided:
  assumes keys: "\<And>n. g n \<noteq> [] \<Longrightarrow> n \<in> set nodes"
  shows "hasInteractionCycle g nodes = Some (cyclic g)"
proof -
  let ?N = "set nodes \<union> set (concat (map g nodes))"
  have closed: "set (g x) \<subseteq> ?N" if "x \<in> ?N" for x
    using keys [of x] by (cases "g x = []") auto
  have "card ?N \<le> length nodes + length (concat (map g nodes))"
    by (rule order_trans [OF card_Un_le]) (intro add_mono card_length)
  then have f: "card (?N \<inter> coloured Unseen (\<lambda>_. Unseen)) < graph_fuel g nodes"
    by (simp add: coloured_def graph_fuel_def)
  have "explored g (\<lambda>_. Unseen)" "coloured Visiting (\<lambda>_. Unseen) = {}"
    by (auto simp: explored_def coloured_def)
  from search_spec [OF _ closed Un_upper1 this f, simplified] consider
      (none) c' where "hasInteractionCycle g nodes = Some False" "explored g c'" "set nodes \<subseteq> coloured Done c'"
    | (some) "hasInteractionCycle g nodes = Some True" "cyclic g"
    by (auto simp: hasInteractionCycle_def)
  then show ?thesis
  proof cases
    case none
    have "\<not> cyclic g" unfolding cyclic_def
      using none(2,3) keys edge_start unfolding explored_def by (metis subsetD)
    with none(1) show ?thesis by simp
  next
    case some
    then show ?thesis by simp
  qed
qed

end
