(* ===== verification/Json.thy ===== *)
theory Json imports Complex_Main Prelude begin

text \<open>
  The values JSON decodes to where a program keeps them open (\<open>map[string]any\<close>, \<open>json.RawMessage\<close>). An
  object is an association list, read by \<open>map_of\<close>.
\<close>

datatype json = JNull | JBool bool | JInteger int | JReal rat | JString string
  | JArray "json list" | JObject "(string \<times> json) list"

end
