(* ===== verification/Manifest.thy ===== *)
theory Manifest imports ReportValidate Layout Json begin

text \<open>
  Component manifests of \<open>internal/report/template/manifest.go\<close>: the versioned contract of a
  component type (sizes, data contract, option schema, interactions), its validation, and the
  validation of a component's options against it.

  A JSON value is given by its tree: an integer literal by its value, a literal with a fraction or
  an exponent by the finite \<open>float64\<close> it decodes to; objects have distinct keys, as
  \<open>DecodeStrictJSON\<close> demands. A Go map is an association list, read by \<open>map_of\<close>. The
  checks that a slice or map is not nil have no counterpart.
\<close>

section \<open>Data\<close>

datatype Renderer = RendererECharts | RendererReact | RendererText | RendererImage | RendererControl
  | OtherRenderer string

datatype Category = CategoryChart | CategoryTable | CategoryContent | CategoryControl | OtherCategory string

record Cardinality =
  cdMin :: int
  cdMax :: int

record DataContract =
  dcDimensions :: Cardinality
  dcMeasures :: Cardinality
  dcTimeRequired :: bool
  dcRoles :: "string list"

datatype OptionValueType = OptionBoolean | OptionString | OptionInteger | OptionNumber | OptionObject
  | OptionArray | OtherOption string

datatype OptionPropertySchema = Property
  (opType: OptionValueType) (opDescription: string) (opEnum: "string list")
  (opMinimum: "rat option") (opMaximum: "rat option") (opMinLength: "int option") (opMaxLength: "int option")
  (opMinItems: "int option") (opMaxItems: "int option") (opAdditionalProperties: bool)
  (opRequired: "string list") (opProperties: "(string \<times> OptionPropertySchema) list")
  (opItems: "OptionPropertySchema option")

record OptionSchema =
  osType :: string
  osAdditionalProperties :: bool
  osRequired :: "string list"
  osProperties :: "(string \<times> OptionPropertySchema) list"

record MobilePolicy =
  mpSupported :: bool
  mpDefaultLegendMode :: string
  mpLabelDegradation :: string

record Migration =
  mgFrom :: string
  mgMigratorID :: string

record Manifest =
  mfType :: string
  mfVersion :: string
  mfRenderer :: Renderer
  mfDisplayName :: string
  mfCategory :: Category
  mfMinSize :: GridSize
  mfRecommendedSize :: GridSize
  mfDataContract :: DataContract
  mfOptionSchema :: OptionSchema
  mfDefaultOptions :: "(string \<times> json) list"
  mfMobilePolicy :: MobilePolicy
  mfSupportedInteractions :: "string list"
  mfMigration :: "Migration option"

definition MaxOptionProperties :: nat where "MaxOptionProperties = 64"
definition MaxRoles :: nat where "MaxRoles = 16"
definition MaxManifestInteractions :: nat where "MaxManifestInteractions = 16"

section \<open>Versions\<close>

text \<open>
  \<open>parseSemver\<close> scans three numbers and demands that printing them gives the text back: three
  decimal numbers without sign or leading zero, each an \<open>int\<close>.
\<close>

definition decimal :: "string \<Rightarrow> int" where
  "decimal s = foldl (\<lambda>n c. n * 10 + (of_char c - 48)) 0 s"

definition parseSemver :: "string \<Rightarrow> (int \<times> int \<times> int) option" where
  "parseSemver raw = (case split_on CHR ''.'' raw of
     [a, b, c] \<Rightarrow> if list_all (\<lambda>v. version_number v \<and> decimal v \<le> int64_max) [a, b, c]
       then Some (decimal a, decimal b, decimal c) else None
   | _ \<Rightarrow> None)"

fun compareSemver :: "int \<times> int \<times> int \<Rightarrow> int \<times> int \<times> int \<Rightarrow> int" where
  "compareSemver (a, b, c) (a', b', c') = (if a \<noteq> a' then a - a' else if b \<noteq> b' then b - b' else c - c')"

text \<open>A version that does not parse compares as \<open>0.0.0\<close>.\<close>

definition semver :: "string \<Rightarrow> int \<times> int \<times> int" where
  "semver v = (case parseSemver v of None \<Rightarrow> (0, 0, 0) | Some x \<Rightarrow> x)"

definition compareSemverMust :: "string \<Rightarrow> string \<Rightarrow> int" where
  "compareSemverMust a b = compareSemver (semver a) (semver b)"

section \<open>Validation\<close>

definition optionNamePattern :: "string \<Rightarrow> bool" where
  "optionNamePattern = word_pattern lower alnum 63"

definition migratorIDPattern :: "string \<Rightarrow> bool" where
  "migratorIDPattern = word_pattern lower (\<lambda>c. lower c \<or> digit c \<or> c = CHR ''-'') 127"

definition at_most :: "'a::linorder option \<Rightarrow> 'a option \<Rightarrow> bool" where
  "at_most a b = (case (a, b) of (Some x, Some y) \<Rightarrow> \<not> x > y | _ \<Rightarrow> True)"

definition not_negative :: "int option \<Rightarrow> bool" where
  "not_negative a = (case a of Some x \<Rightarrow> \<not> x < 0 | None \<Rightarrow> True)"

definition required_known :: "string list \<Rightarrow> (string \<times> 'p) list \<Rightarrow> bool" where
  "required_known req props \<longleftrightarrow> list_all (\<lambda>n. map_of props n \<noteq> None) req \<and> distinct req"

fun property_valid :: "OptionPropertySchema \<Rightarrow> bool" where
  "property_valid (Property ty desc enum mn mx mnl mxl mni mxi addl req props items) \<longleftrightarrow>
     (case ty of OtherOption _ \<Rightarrow> False | _ \<Rightarrow> True) \<and> rune_count desc \<le> 4096 \<and> length enum \<le> 64 \<and>
     \<not> (enum \<noteq> [] \<and> ty \<noteq> OptionString) \<and> list_all (\<lambda>v. rune_count v \<le> 4096) enum \<and> distinct enum \<and>
     at_most mn mx \<and> not_negative mnl \<and> not_negative mxl \<and> at_most mnl mxl \<and>
     not_negative mni \<and> not_negative mxi \<and> at_most mni mxi \<and>
     (ty = OptionObject \<longrightarrow> \<not> addl \<and> length props \<le> MaxOptionProperties \<and>
        list_all (\<lambda>e. optionNamePattern (fst e) \<and> property_valid (snd e)) props \<and> required_known req props) \<and>
     (ty = OptionArray \<longrightarrow> (case items of None \<Rightarrow> False | Some i \<Rightarrow> property_valid i))"

definition schema_valid :: "OptionSchema \<Rightarrow> bool" where
  "schema_valid s \<longleftrightarrow> osType s = ''object'' \<and> \<not> osAdditionalProperties s \<and>
     length (osProperties s) \<le> MaxOptionProperties \<and>
     list_all (\<lambda>e. optionNamePattern (fst e) \<and> property_valid (snd e)) (osProperties s) \<and>
     required_known (osRequired s) (osProperties s)"

section \<open>Options\<close>

text \<open>
  Decoding the JSON \<open>null\<close> into a Go \<open>bool\<close>, \<open>string\<close> or number succeeds and leaves
  the zero value.
\<close>

definition decode_bool :: "json \<Rightarrow> bool option" where
  "decode_bool v = (case v of JBool b \<Rightarrow> Some b | JNull \<Rightarrow> Some False | _ \<Rightarrow> None)"

definition decode_string :: "json \<Rightarrow> string option" where
  "decode_string v = (case v of JString s \<Rightarrow> Some s | JNull \<Rightarrow> Some [] | _ \<Rightarrow> None)"

definition decode_int64 :: "json \<Rightarrow> int option" where
  "decode_int64 v = (case v of JInteger n \<Rightarrow> if in_int64 n then Some n else None | JNull \<Rightarrow> Some 0 | _ \<Rightarrow> None)"

definition decode_float64 :: "json \<Rightarrow> rat option" where
  "decode_float64 v = (case v of JInteger n \<Rightarrow> Some (fl64 (of_int n)) | JReal r \<Rightarrow> Some r | JNull \<Rightarrow> Some 0 | _ \<Rightarrow> None)"

definition validateNumber :: "OptionPropertySchema \<Rightarrow> rat \<Rightarrow> bool" where
  "validateNumber p v \<longleftrightarrow> \<not> (case opMinimum p of Some m \<Rightarrow> v < m | None \<Rightarrow> False) \<and>
     \<not> (case opMaximum p of Some m \<Rightarrow> v > m | None \<Rightarrow> False)"

definition length_within :: "int option \<Rightarrow> int option \<Rightarrow> nat \<Rightarrow> bool" where
  "length_within a b n \<longleftrightarrow> \<not> (case a of Some m \<Rightarrow> int n < m | None \<Rightarrow> False) \<and>
     \<not> (case b of Some m \<Rightarrow> int n > m | None \<Rightarrow> False)"

definition string_ok :: "OptionPropertySchema \<Rightarrow> string \<Rightarrow> bool" where
  "string_ok p s \<longleftrightarrow> rune_count s \<le> 4096 \<and> length_within (opMinLength p) (opMaxLength p) (rune_count s) \<and>
     \<not> (opEnum p \<noteq> [] \<and> s \<notin> set (opEnum p))"

text \<open>A missing item schema is a nil dereference of the code; a valid schema has one.\<close>

fun validateValue :: "OptionPropertySchema \<Rightarrow> json \<Rightarrow> bool" where
  "validateValue p (JObject kvs) \<longleftrightarrow> opType p = OptionObject \<and>
     list_all (\<lambda>r. map_of kvs r \<noteq> None) (opRequired p) \<and>
     list_all (\<lambda>e. case map_of (opProperties p) (fst e) of None \<Rightarrow> False | Some q \<Rightarrow> validateValue q (snd e)) kvs"
| "validateValue p (JArray vs) \<longleftrightarrow> opType p = OptionArray \<and>
     length_within (opMinItems p) (opMaxItems p) (length vs) \<and>
     list_all (\<lambda>v. case opItems p of None \<Rightarrow> False | Some q \<Rightarrow> validateValue q v) vs"
| "validateValue p v \<longleftrightarrow> (case opType p of
     OptionBoolean \<Rightarrow> decode_bool v \<noteq> None
   | OptionString \<Rightarrow> (case decode_string v of None \<Rightarrow> False | Some s \<Rightarrow> string_ok p s)
   | OptionInteger \<Rightarrow> (case decode_int64 v of None \<Rightarrow> False | Some n \<Rightarrow> validateNumber p (fl64 (of_int n)))
   | OptionNumber \<Rightarrow> (case decode_float64 v of None \<Rightarrow> False | Some r \<Rightarrow> validateNumber p r)
   | _ \<Rightarrow> False)"

definition ValidateObject :: "OptionSchema \<Rightarrow> (string \<times> json) list \<Rightarrow> bool" where
  "ValidateObject s options \<longleftrightarrow> schema_valid s \<and>
     list_all (\<lambda>r. map_of options r \<noteq> None) (osRequired s) \<and>
     list_all (\<lambda>e. case map_of (osProperties s) (fst e) of None \<Rightarrow> False | Some p \<Rightarrow> validateValue p (snd e)) options"

definition ValidateJSON :: "OptionSchema \<Rightarrow> json \<Rightarrow> bool" where
  "ValidateJSON s v = (case v of JObject options \<Rightarrow> ValidateObject s options | _ \<Rightarrow> False)"

section \<open>The manifest\<close>

definition size_valid :: "GridSize \<Rightarrow> bool" where
  "size_valid g \<longleftrightarrow> \<not> (gsW g < 1 \<or> gsW g > 24 \<or> gsH g < 1 \<or> gsH g > 100)"

definition cardinality_valid :: "Cardinality \<Rightarrow> bool" where
  "cardinality_valid c \<longleftrightarrow> \<not> (cdMin c < 0 \<or> cdMax c < cdMin c \<or> cdMax c > 32)"

definition contract_valid :: "DataContract \<Rightarrow> bool" where
  "contract_valid c \<longleftrightarrow> cardinality_valid (dcDimensions c) \<and> cardinality_valid (dcMeasures c) \<and>
     length (dcRoles c) \<le> MaxRoles \<and> list_all (\<lambda>r. r \<in> set binding_roles) (dcRoles c) \<and> distinct (dcRoles c)"

definition interaction_kinds :: "string list" where
  "interaction_kinds = [''CLICK_FILTER'', ''DRILL_DOWN'', ''BRUSH'', ''ZOOM'', ''SORT'', ''PAGINATE'']"

definition manifest_valid :: "Manifest \<Rightarrow> bool" where
  "manifest_valid m \<longleftrightarrow> componentPattern (mfType m) \<and> parseSemver (mfVersion m) \<noteq> None \<and>
     (case mfRenderer m of OtherRenderer _ \<Rightarrow> False | _ \<Rightarrow> True) \<and>
     \<not> (trim_space (mfDisplayName m) = [] \<or> rune_count (mfDisplayName m) > 128) \<and>
     (case mfCategory m of OtherCategory _ \<Rightarrow> False | _ \<Rightarrow> True) \<and>
     size_valid (mfMinSize m) \<and> size_valid (mfRecommendedSize m) \<and>
     \<not> (gsW (mfRecommendedSize m) < gsW (mfMinSize m) \<or> gsH (mfRecommendedSize m) < gsH (mfMinSize m)) \<and>
     contract_valid (mfDataContract m) \<and> schema_valid (mfOptionSchema m) \<and>
     ValidateObject (mfOptionSchema m) (mfDefaultOptions m) \<and>
     mpDefaultLegendMode (mfMobilePolicy m) \<in> {''VISIBLE'', ''HIDDEN'', ''SCROLL''} \<and>
     mpLabelDegradation (mfMobilePolicy m) \<in> {''NONE'', ''HIDE_WHEN_DENSE'', ''ELLIPSIS'', ''ROTATE''} \<and>
     length (mfSupportedInteractions m) \<le> MaxManifestInteractions \<and>
     list_all (\<lambda>i. i \<in> set interaction_kinds) (mfSupportedInteractions m) \<and> distinct (mfSupportedInteractions m) \<and>
     (case mfMigration m of None \<Rightarrow> True
      | Some g \<Rightarrow> parseSemver (mgFrom g) \<noteq> None \<and> migratorIDPattern (mgMigratorID g))"

end
