(* ===== verification/ManifestRegistry.thy ===== *)
theory ManifestRegistry imports Manifest begin

text \<open>
  The manifest registry of \<open>internal/report/template/registry.go\<close>: which upgrade of a manifest is
  admitted, how the registry is built from a list of manifests, and what it checks of a component.
  Migrators are known by the identifiers that have one. What a semantic query groups, measures and
  whether it has a time is read from its IR text by the argument \<open>shape\<close>; so is the JSON form of
  the options by \<open>encode\<close>.
\<close>

section \<open>Upgrades\<close>

definition constraintIsCompatible :: "rat option \<Rightarrow> rat option \<Rightarrow> bool \<Rightarrow> bool" where
  "constraintIsCompatible previous next' isMinimum = (case previous of None \<Rightarrow> next' = None
     | Some p \<Rightarrow> (case next' of None \<Rightarrow> True | Some n \<Rightarrow> if isMinimum then n \<le> p else n \<ge> p))"

definition enumIsCompatible :: "string list \<Rightarrow> string list \<Rightarrow> bool" where
  "enumIsCompatible previous next' = (if previous = [] then next' = []
     else if next' = [] then True else list_all (\<lambda>v. v \<in> set next') previous)"

definition checkOptionSchemaCompatibility :: "OptionSchema \<Rightarrow> OptionSchema \<Rightarrow> bool" where
  "checkOptionSchemaCompatibility previous next' \<longleftrightarrow>
     list_all (\<lambda>r. r \<in> set (osRequired previous)) (osRequired next') \<and>
     list_all (\<lambda>(name, p). case map_of (osProperties next') name of None \<Rightarrow> False
       | Some n \<Rightarrow> opType p = opType n \<and> constraintIsCompatible (opMinimum p) (opMinimum n) True \<and>
           constraintIsCompatible (opMaximum p) (opMaximum n) False \<and> enumIsCompatible (opEnum p) (opEnum n))
       (osProperties previous)"

definition isSuperset :: "string list \<Rightarrow> string list \<Rightarrow> bool" where
  "isSuperset next' previous \<longleftrightarrow> list_all (\<lambda>v. v \<in> set next') previous"

definition major :: "string \<Rightarrow> int" where "major v = fst (semver v)"

definition CheckUpgrade :: "string set \<Rightarrow> Manifest \<Rightarrow> Manifest \<Rightarrow> bool" where
  "CheckUpgrade migrators previous next' \<longleftrightarrow> mfType previous = mfType next' \<and>
     manifest_valid previous \<and> manifest_valid next' \<and>
     \<not> compareSemverMust (mfVersion previous) (mfVersion next') \<ge> 0 \<and>
     (if major (mfVersion previous) \<noteq> major (mfVersion next') then
        (case mfMigration next' of None \<Rightarrow> False
         | Some g \<Rightarrow> mgFrom g = mfVersion previous \<and> mgMigratorID g \<in> migrators)
      else mfMigration next' = None \<and>
        checkOptionSchemaCompatibility (mfOptionSchema previous) (mfOptionSchema next') \<and>
        \<not> (gsW (mfMinSize next') > gsW (mfMinSize previous) \<or> gsH (mfMinSize next') > gsH (mfMinSize previous)) \<and>
        (let p = mfDataContract previous; n = mfDataContract next' in
         \<not> (cdMin (dcDimensions n) > cdMin (dcDimensions p) \<or> cdMax (dcDimensions n) < cdMax (dcDimensions p) \<or>
            cdMin (dcMeasures n) > cdMin (dcMeasures p) \<or> cdMax (dcMeasures n) < cdMax (dcMeasures p) \<or>
            \<not> dcTimeRequired p \<and> dcTimeRequired n) \<and>
         isSuperset (dcRoles n) (dcRoles p)) \<and>
        isSuperset (mfSupportedInteractions next') (mfSupportedInteractions previous) \<and>
        \<not> (mpSupported (mfMobilePolicy previous) \<and> \<not> mpSupported (mfMobilePolicy next')))"

section \<open>The registry\<close>

text \<open>
  The code's key is the type, a zero byte and the version; neither of a valid manifest has a zero
  byte, so the pair is the same key.
\<close>

type_synonym manifest_key = "string \<times> string"

abbreviation manifestKey :: "Manifest \<Rightarrow> manifest_key" where
  "manifestKey m \<equiv> (mfType m, mfVersion m)"

record Registry =
  rgManifests :: "Manifest list"
  rgMigrators :: "string set"

definition Get :: "Registry \<Rightarrow> string \<Rightarrow> string \<Rightarrow> Manifest option" where
  "Get r ty v = map_of (map (\<lambda>m. (manifestKey m, m)) (rgManifests r)) (ty, v)"

definition version_before :: "Manifest \<Rightarrow> Manifest \<Rightarrow> bool" where
  "version_before a b \<longleftrightarrow> compareSemverMust (mfVersion a) (mfVersion b) < 0"

definition versions_of :: "Manifest list \<Rightarrow> string \<Rightarrow> Manifest list" where
  "versions_of ms ty = sort_slice version_before (filter (\<lambda>m. mfType m = ty) ms)"

fun upgrades_checked :: "string set \<Rightarrow> Manifest list \<Rightarrow> bool" where
  "upgrades_checked migrators (a # b # rest) \<longleftrightarrow> CheckUpgrade migrators a b \<and> upgrades_checked migrators (b # rest)"
| "upgrades_checked migrators _ \<longleftrightarrow> True"

text \<open>
  The collision test of the content hashes concerns the hash function only; it is left out.
\<close>

definition NewRegistry :: "Manifest list \<Rightarrow> string list \<Rightarrow> Registry option" where
  "NewRegistry manifests migrators =
     (if list_all migratorIDPattern migrators \<and> list_all manifest_valid manifests \<and>
         distinct (map manifestKey manifests) \<and>
         list_all (\<lambda>m. upgrades_checked (set migrators) (versions_of manifests (mfType m))) manifests
      then Some \<lparr> rgManifests = manifests, rgMigrators = set migrators \<rparr> else None)"

section \<open>Components\<close>

record query_shape =
  qsGroupBy :: nat
  qsMetrics :: nat
  qsTimeRange :: bool
  qsTimeGrain :: bool

text \<open>The dimensions, measures and time of a component, or \<open>None\<close> where the code refuses the binding.\<close>

definition data_shape :: "(string \<Rightarrow> query_shape) \<Rightarrow> string list \<Rightarrow> Component \<Rightarrow> (nat \<times> nat \<times> bool) option" where
  "data_shape shape roles c = (case cpDataBinding c of None \<Rightarrow> Some (0, 0, False)
     | Some b \<Rightarrow> (case bdBindingMode b of
         BindingSemanticIR \<Rightarrow> (case bdSemanticQueryRef b of None \<Rightarrow> None
           | Some r \<Rightarrow> (let q = shape (sqSemanticIR r) in
               Some (qsGroupBy q, qsMetrics q, qsTimeRange q \<or> qsTimeGrain q)))
       | BindingDatasetField \<Rightarrow>
           if list_all (\<lambda>f. fbRole f \<in> set roles) (bdDimensions b @ bdMeasures b)
           then Some (length (bdDimensions b), length (bdMeasures b),
             list_ex (\<lambda>f. fbRole f = ''TIME'') (bdDimensions b @ bdMeasures b)) else None
       | OtherBindingMode _ \<Rightarrow> None))"

definition validateComponentData :: "(string \<Rightarrow> query_shape) \<Rightarrow> Manifest \<Rightarrow> Component \<Rightarrow> bool" where
  "validateComponentData shape m c = (case data_shape shape (dcRoles (mfDataContract m)) c of None \<Rightarrow> False
     | Some (dims, meas, hasTime) \<Rightarrow>
         (let k = mfDataContract m in
          \<not> (int dims < cdMin (dcDimensions k) \<or> int dims > cdMax (dcDimensions k)) \<and>
          \<not> (int meas < cdMin (dcMeasures k) \<or> int meas > cdMax (dcMeasures k)) \<and>
          \<not> (dcTimeRequired k \<and> \<not> hasTime)))"

definition ValidateComponentData :: "(string \<Rightarrow> query_shape) \<Rightarrow> Registry \<Rightarrow> Component \<Rightarrow> bool" where
  "ValidateComponentData shape r c = (case Get r (ctType (cpTemplateRef c)) (ctVersion (cpTemplateRef c)) of
     None \<Rightarrow> False | Some m \<Rightarrow> validateComponentData shape m c)"

definition ValidateComponentSchema :: "(ComponentOptions \<Rightarrow> json) \<Rightarrow> Registry \<Rightarrow> Component \<Rightarrow> GridSize \<Rightarrow> bool" where
  "ValidateComponentSchema encode r c size' = (case Get r (ctType (cpTemplateRef c)) (ctVersion (cpTemplateRef c)) of
     None \<Rightarrow> False
   | Some m \<Rightarrow> \<not> (gsW size' < gsW (mfMinSize m) \<or> gsH size' < gsH (mfMinSize m)) \<and>
       ValidateJSON (mfOptionSchema m) (encode (cpOptions c)))"

definition ValidateComponent ::
  "(ComponentOptions \<Rightarrow> json) \<Rightarrow> (string \<Rightarrow> query_shape) \<Rightarrow> Registry \<Rightarrow> Component \<Rightarrow> GridSize \<Rightarrow> bool" where
  "ValidateComponent encode shape r c size' \<longleftrightarrow>
     ValidateComponentSchema encode r c size' \<and> ValidateComponentData shape r c"

section \<open>Migration\<close>

text \<open>
  \<open>MigrateComponent\<close>: the options go through every later version up to the target, through the
  migrator where the major version changes; \<open>decode\<close> reads options back from JSON.
\<close>

fun migrate_options ::
  "Registry \<Rightarrow> (string \<Rightarrow> json \<Rightarrow> json option) \<Rightarrow> Manifest \<Rightarrow> Manifest list \<Rightarrow> json \<Rightarrow> (Manifest \<times> json) option" where
  "migrate_options r run previous [] options = Some (previous, options)"
| "migrate_options r run previous (n # rest) options =
     (case (if major (mfVersion previous) \<noteq> major (mfVersion n)
        then (case mfMigration n of None \<Rightarrow> None
          | Some g \<Rightarrow> if mgFrom g = mfVersion previous \<and> mgMigratorID g \<in> rgMigrators r
              then run (mgMigratorID g) options else None)
        else Some options) of
        None \<Rightarrow> None
      | Some v \<Rightarrow> if ValidateJSON (mfOptionSchema n) v then migrate_options r run n rest v else None)"

definition MigrateComponent ::
  "(ComponentOptions \<Rightarrow> json) \<Rightarrow> (json \<Rightarrow> ComponentOptions option) \<Rightarrow> (string \<Rightarrow> query_shape) \<Rightarrow>
   (string \<Rightarrow> json \<Rightarrow> json option) \<Rightarrow> Registry \<Rightarrow> Component \<Rightarrow> string \<Rightarrow> Component option" where
  "MigrateComponent encode decode shape run r c targetVersion =
     (case Get r (ctType (cpTemplateRef c)) (ctVersion (cpTemplateRef c)) of None \<Rightarrow> None
      | Some current \<Rightarrow> (case Get r (ctType (cpTemplateRef c)) targetVersion of None \<Rightarrow> None
          | Some target \<Rightarrow>
              if \<not> compareSemverMust (mfVersion target) (mfVersion current) > 0 then None else
              (let versions = filter (\<lambda>m. compareSemverMust (mfVersion m) (mfVersion current) > 0 \<and>
                     compareSemverMust (mfVersion m) (mfVersion target) \<le> 0) (versions_of (rgManifests r) (mfType current)) in
               case migrate_options r run current versions (encode (cpOptions c)) of None \<Rightarrow> None
               | Some (previous, options) \<Rightarrow>
                   if mfVersion previous \<noteq> mfVersion target then None else
                   (case decode options of None \<Rightarrow> None
                    | Some o' \<Rightarrow>
                        (let result = c\<lparr> cpTemplateRef := (cpTemplateRef c)\<lparr> ctVersion := mfVersion target \<rparr>,
                               cpOptions := o' \<rparr> in
                         if ValidateComponentData shape r result then Some result else None)))))"

end
