(* ===== verification/ReportStages.thy ===== *)
theory ReportStages imports ReportValidate DepthFirst ManifestRegistry begin

text \<open>
  The staged checker of \<open>internal/report/compiler/validate.go\<close> and \<open>interaction.go\<close>:
  unique identifiers, references, layout, the model's own \<open>Validate\<close>, manifests, interactions.
  An issue is its code and path (the indexed steps and the field at the end); its message repeats
  them. A nil registry is replaced by the default one before the model starts; encoding the
  options to JSON does not fail, since they hold texts, integers and booleans only.
\<close>

type_synonym path = "(string \<times> nat) list \<times> string"

datatype issue = Issue string path | LayoutIssue LayoutError

abbreviation at_item :: "string \<Rightarrow> nat \<Rightarrow> string \<Rightarrow> path" where
  "at_item k i field \<equiv> ([(k, i)], field)"

section \<open>Unique identifiers\<close>

datatype name_space = Contexts | Components | Pages | Sections | Blocks | Zones | Slots | Filters | Interactions

type_synonym entry = "name_space \<times> ID \<times> path"

definition zone_entries :: "(string \<times> nat) list \<Rightarrow> nat \<times> Zone \<Rightarrow> entry list" where
  "zone_entries p = (\<lambda>(k, z). (Zones, znID z, (p @ [(''zones'', k)], ''id'')) #
     map (\<lambda>(j, s). (Slots, slID s, (p @ [(''zones'', k), (''slots'', j)], ''id''))) (enumerate 0 (znSlots z)))"

definition block_entries :: "(string \<times> nat) list \<Rightarrow> nat \<times> Block \<Rightarrow> entry list" where
  "block_entries p = (\<lambda>(k, b). (Blocks, bkID b, (p @ [(''blocks'', k)], ''id'')) #
     concat (map (zone_entries (p @ [(''blocks'', k)])) (enumerate 0 (bkZones b))))"

definition section_entries :: "(string \<times> nat) list \<Rightarrow> nat \<times> Section \<Rightarrow> entry list" where
  "section_entries p = (\<lambda>(k, s). (Sections, scID s, (p @ [(''sections'', k)], ''id'')) #
     concat (map (block_entries (p @ [(''sections'', k)])) (enumerate 0 (scBlocks s))))"

definition page_entries :: "nat \<times> Page \<Rightarrow> entry list" where
  "page_entries = (\<lambda>(k, p). (Pages, pgID p, at_item ''pages'' k ''id'') #
     concat (map (section_entries [(''pages'', k)]) (enumerate 0 (pgSections p))))"

definition item_entries :: "name_space \<Rightarrow> string \<Rightarrow> ('a \<Rightarrow> ID) \<Rightarrow> 'a list \<Rightarrow> entry list" where
  "item_entries ns key f xs = map (\<lambda>(k, x). (ns, f x, at_item key k ''id'')) (enumerate 0 xs)"

definition id_entries :: "ReportDefinition \<Rightarrow> entry list" where
  "id_entries d = item_entries Contexts ''dataContexts'' dxID (rdDataContexts d) @
     item_entries Components ''components'' cpID (rdComponents d) @
     concat (map page_entries (enumerate 0 (rdPages d))) @
     item_entries Filters ''globalFilters'' gfID (rdGlobalFilters d) @
     item_entries Interactions ''interactions'' inID (rdInteractions d)"

text \<open>The nine maps of the code, as one set of pairs.\<close>

fun add_entries :: "(name_space \<times> ID) set \<Rightarrow> entry list \<Rightarrow> issue list" where
  "add_entries seen [] = []"
| "add_entries seen ((ns, i, p) # es) = (if (ns, i) \<in> seen then Issue ''REPORT_ID_DUPLICATE'' p # add_entries seen es
     else add_entries (insert (ns, i) seen) es)"

definition validateUniqueIDs :: "ReportDefinition \<Rightarrow> issue list" where
  "validateUniqueIDs d = add_entries {} (id_entries d)"

section \<open>References\<close>

definition missingReference :: "path \<Rightarrow> issue" where
  "missingReference p = Issue ''REPORT_REFERENCE_MISSING'' p"

definition indexed_slots :: "ReportDefinition \<Rightarrow> ((string \<times> nat) list \<times> Slot) list" where
  "indexed_slots d = concat (map (\<lambda>(i, p). concat (map (\<lambda>(j, s). concat (map (\<lambda>(k, b). concat (map (\<lambda>(l, z).
     map (\<lambda>(n, x). ([(''pages'', i), (''sections'', j), (''blocks'', k), (''zones'', l), (''slots'', n)], x))
       (enumerate 0 (znSlots z)))
       (enumerate 0 (bkZones b)))) (enumerate 0 (scBlocks s)))) (enumerate 0 (pgSections p)))) (enumerate 0 (rdPages d)))"

definition slot_issues :: "ID set \<Rightarrow> (string \<times> nat) list \<times> Slot \<Rightarrow> issue list" where
  "slot_issues components = (\<lambda>(p, s). if slComponentID s \<noteq> [] \<and> slComponentID s \<notin> components
     then [missingReference (p, ''componentId'')] else [])"

definition placements :: "ReportDefinition \<Rightarrow> ID \<Rightarrow> nat" where
  "placements d i = count_list (filter (\<lambda>c. c \<noteq> [] \<and> c \<in> set (map cpID (rdComponents d)))
     (map (slComponentID \<circ> snd) (indexed_slots d))) i"

definition component_issues :: "ReportDefinition \<Rightarrow> nat \<times> Component \<Rightarrow> issue list" where
  "component_issues d = (\<lambda>(k, c).
     (if placements d (cpID c) \<noteq> 1 then [Issue ''REPORT_COMPONENT_PLACEMENT_INVALID'' (at_item ''components'' k ''id'')] else []) @
     (case cpDataBinding c of None \<Rightarrow> [] | Some b \<Rightarrow> (case bdDataContextID b of None \<Rightarrow> []
        | Some x \<Rightarrow> if x \<in> set (map dxID (rdDataContexts d)) then []
            else [missingReference (at_item ''components'' k ''dataBinding.dataContextId'')])))"

text \<open>Targets of a list: repeated ones, then missing ones, position by position.\<close>

fun target_issues :: "ID set option \<Rightarrow> string \<Rightarrow> path \<Rightarrow> ID set \<Rightarrow> nat \<Rightarrow> ID list \<Rightarrow> issue list" where
  "target_issues names code p seen k [] = []"
| "target_issues names code p seen k (t # ts) =
     (if t \<in> seen then [Issue ''REPORT_REFERENCE_DUPLICATE'' (fst p @ [(snd p, k)], [])] else []) @
     (case names of None \<Rightarrow> [] | Some n \<Rightarrow> if t \<in> n then [] else [Issue code (fst p @ [(snd p, k)], [])]) @
     target_issues names code p (insert t seen) (Suc k) ts"

definition page_blocks_of :: "ReportDefinition \<Rightarrow> Block list" where
  "page_blocks_of d = concat (map scBlocks (concat (map pgSections (rdPages d))))"

definition scope_target_names :: "ReportDefinition \<Rightarrow> FilterScopeType \<Rightarrow> ID set option" where
  "scope_target_names d t = (case t of FilterScopePage \<Rightarrow> Some (set (map pgID (rdPages d)))
     | FilterScopeSection \<Rightarrow> Some (set (map scID (concat (map pgSections (rdPages d)))))
     | FilterScopeBlock \<Rightarrow> Some (set (map bkID (page_blocks_of d)))
     | FilterScopeComponent \<Rightarrow> Some (set (map cpID (rdComponents d))) | _ \<Rightarrow> None)"

definition filter_issues :: "ReportDefinition \<Rightarrow> nat \<times> GlobalFilter \<Rightarrow> issue list" where
  "filter_issues d = (\<lambda>(k, f).
     (if frDataContextID (gfFieldRef f) \<in> set (map dxID (rdDataContexts d)) then []
      else [missingReference (at_item ''globalFilters'' k ''fieldRef.dataContextId'')]) @
     target_issues (scope_target_names d (fsType (gfScope f))) ''REPORT_REFERENCE_MISSING''
       (at_item ''globalFilters'' k ''scope.targetIds'') {} 0 (fsTargetIDs (gfScope f)))"

definition interaction_issues :: "ReportDefinition \<Rightarrow> nat \<times> Interaction \<Rightarrow> issue list" where
  "interaction_issues d = (\<lambda>(k, i).
     (if inSourceComponentID i \<in> set (map cpID (rdComponents d)) then []
      else [Issue ''REPORT_INTERACTION_TARGET_MISSING'' (at_item ''interactions'' k ''sourceComponentId'')]) @
     target_issues (Some (set (map cpID (rdComponents d)))) ''REPORT_INTERACTION_TARGET_MISSING''
       (at_item ''interactions'' k ''targetComponentIds'') {} 0 (inTargetComponentIDs i) @
     (case inTargetPageID i of None \<Rightarrow> [] | Some p \<Rightarrow> if p \<in> set (map pgID (rdPages d)) then []
        else [missingReference (at_item ''interactions'' k ''targetPageId'')]))"

definition validateReferences :: "ReportDefinition \<Rightarrow> issue list" where
  "validateReferences d =
     concat (map (slot_issues (set (map cpID (rdComponents d)))) (indexed_slots d)) @
     concat (map (component_issues d) (enumerate 0 (rdComponents d))) @
     concat (map (filter_issues d) (enumerate 0 (rdGlobalFilters d))) @
     concat (map (interaction_issues d) (enumerate 0 (rdInteractions d)))"

section \<open>Interactions\<close>

definition requiredEventKind :: "string \<Rightarrow> string" where
  "requiredEventKind event = (if event = ''BRUSH'' then ''BRUSH'' else if event = ''ZOOM'' then ''ZOOM''
     else if event \<in> {''CLICK'', ''SELECT''} then ''CLICK_FILTER'' else [])"

definition requiredActionKind :: "string \<Rightarrow> string" where
  "requiredActionKind action = (if action \<in> {''FILTER'', ''HIGHLIGHT''} then ''CLICK_FILTER''
     else if action = ''DRILL_DOWN'' then ''DRILL_DOWN''
     else if action = ''NAVIGATE_PAGE'' then ''CLICK_FILTER'' else [])"

definition narrowsTarget :: "string \<Rightarrow> bool" where
  "narrowsTarget action \<longleftrightarrow> action = ''FILTER'' \<or> action = ''DRILL_DOWN''"

definition bindingsCompatible :: "DataBinding option \<Rightarrow> DataBinding option \<Rightarrow> bool" where
  "bindingsCompatible left right = (case (left, right) of
     (Some l, Some r) \<Rightarrow> bdBindingMode l = bdBindingMode r \<and> (case bdBindingMode l of
        BindingDatasetField \<Rightarrow> bdDataContextID l \<noteq> None \<and> bdDataContextID l = bdDataContextID r
      | BindingSemanticIR \<Rightarrow> (case (bdSemanticQueryRef l, bdSemanticQueryRef r) of
          (Some a, Some b) \<Rightarrow> sqSemanticReleaseID a = sqSemanticReleaseID b | _ \<Rightarrow> False)
      | OtherBindingMode _ \<Rightarrow> False)
   | _ \<Rightarrow> False)"

definition find_component :: "ReportDefinition \<Rightarrow> ID \<Rightarrow> Component option" where
  "find_component d i = map_of (map (\<lambda>c. (cpID c, c)) (rev (rdComponents d))) i"

definition supports :: "Registry \<Rightarrow> Component \<Rightarrow> string \<Rightarrow> bool" where
  "supports r c kind \<longleftrightarrow> (case Get r (ctType (cpTemplateRef c)) (ctVersion (cpTemplateRef c)) of None \<Rightarrow> False
     | Some m \<Rightarrow> kind \<in> set (mfSupportedInteractions m))"

definition target_checks :: "Registry \<Rightarrow> nat \<Rightarrow> Interaction \<Rightarrow> Component \<Rightarrow> Component option \<Rightarrow> issue list" where
  "target_checks r k i source target = (case target of
     None \<Rightarrow> [Issue ''REPORT_INTERACTION_TARGET_MISSING'' (at_item ''interactions'' k ''targetComponentIds'')]
   | Some t \<Rightarrow>
       (if requiredActionKind (inAction i) = [] \<or> \<not> supports r t (requiredActionKind (inAction i))
        then [Issue ''REPORT_INTERACTION_ACTION_UNSUPPORTED'' (at_item ''interactions'' k ''action'')] else []) @
       (if \<not> bindingsCompatible (cpDataBinding source) (cpDataBinding t) \<and> inFieldMappings i \<noteq> []
        then [Issue ''REPORT_INTERACTION_FIELD_INCOMPATIBLE'' (at_item ''interactions'' k ''fieldMappings'')] else []) @
       (if narrowsTarget (inAction i) \<and> (case cpDataBinding t of None \<Rightarrow> False | Some b \<Rightarrow> bdBindingMode b = BindingSemanticIR)
        then [Issue ''REPORT_INTERACTION_TARGET_PINNED'' (at_item ''interactions'' k ''targetComponentIds'')] else []))"

definition interaction_checks :: "Registry \<Rightarrow> ReportDefinition \<Rightarrow> nat \<times> Interaction \<Rightarrow> issue list" where
  "interaction_checks r d = (\<lambda>(k, i). case find_component d (inSourceComponentID i) of
     None \<Rightarrow> [Issue ''REPORT_INTERACTION_TARGET_MISSING'' (at_item ''interactions'' k ''sourceComponentId'')]
   | Some source \<Rightarrow>
       (if requiredEventKind (inEvent i) = [] \<or> \<not> supports r source (requiredEventKind (inEvent i))
        then [Issue ''REPORT_INTERACTION_EVENT_UNSUPPORTED'' (at_item ''interactions'' k ''event'')] else []) @
       concat (map (\<lambda>t. target_checks r k i source (find_component d t)) (inTargetComponentIDs i)))"

text \<open>The edges collected on the way; only sources with a target become keys of the code's map.\<close>

definition add_edges :: "ReportDefinition \<Rightarrow> Interaction \<Rightarrow> graph \<Rightarrow> graph" where
  "add_edges d i g = (if find_component d (inSourceComponentID i) = None then g
     else g(inSourceComponentID i := g (inSourceComponentID i) @
       filter (\<lambda>t. find_component d t \<noteq> None) (inTargetComponentIDs i)))"

definition interaction_graph :: "ReportDefinition \<Rightarrow> graph" where
  "interaction_graph d = fold (add_edges d) (rdInteractions d) (\<lambda>_. [])"

definition graph_keys :: "ReportDefinition \<Rightarrow> ID list" where
  "graph_keys d = remdups (filter (\<lambda>i. interaction_graph d i \<noteq> []) (map inSourceComponentID (rdInteractions d)))"

definition ValidateInteractions :: "Registry \<Rightarrow> ReportDefinition \<Rightarrow> issue list option" where
  "ValidateInteractions r d = map_option (\<lambda>cycle.
       concat (map (interaction_checks r d) (enumerate 0 (rdInteractions d))) @
       (if cycle then [Issue ''REPORT_INTERACTION_CYCLE'' ([], ''interactions'')] else []))
     (hasInteractionCycle (interaction_graph d) (graph_keys d))"

section \<open>The stages\<close>

definition widen :: "Block \<Rightarrow> Slot \<Rightarrow> (ID \<Rightarrow> GridSize) \<Rightarrow> ID \<Rightarrow> GridSize" where
  "widen b s sizes = (let w = dbW (blDesktop (bkLayout b)); h = dbH (blDesktop (bkLayout b));
       current = sizes (slComponentID s) in
     if slComponentID s \<noteq> [] \<and> wrap64 (w * h) > wrap64 (gsW current * gsH current)
     then sizes(slComponentID s := \<lparr> gsW = w, gsH = h \<rparr>) else sizes)"

definition componentRenderSizes :: "ReportDefinition \<Rightarrow> ID \<Rightarrow> GridSize" where
  "componentRenderSizes d = fold (\<lambda>b. fold (widen b) (concat (map znSlots (bkZones b)))) (page_blocks_of d)
     (\<lambda>_. \<lparr> gsW = 0, gsH = 0 \<rparr>)"

definition render_size :: "ReportDefinition \<Rightarrow> Component \<Rightarrow> GridSize" where
  "render_size d c = (let g = componentRenderSizes d (cpID c) in if gsW g = 0 then \<lparr> gsW = 1, gsH = 1 \<rparr> else g)"

record stage_env =
  seValidate :: val_env
  seEncode :: "ComponentOptions \<Rightarrow> json"
  seShape :: "string \<Rightarrow> query_shape"

definition failing :: "string \<Rightarrow> string \<Rightarrow> (Component \<Rightarrow> bool) \<Rightarrow> ReportDefinition \<Rightarrow> issue list" where
  "failing code field ok d = concat (map (\<lambda>(k, c). if ok c then [] else [Issue code (at_item ''components'' k field)])
     (enumerate 0 (rdComponents d)))"

fun first_stage :: "issue list list \<Rightarrow> issue list option \<Rightarrow> issue list option" where
  "first_stage [] rest = rest"
| "first_stage (issues # stages) rest = (if issues \<noteq> [] then Some issues else first_stage stages rest)"

definition ValidateDefinition :: "stage_env \<Rightarrow> Registry \<Rightarrow> ReportDefinition \<Rightarrow> issue list option" where
  "ValidateDefinition env r d = (case ValidateLayout d of
     None \<Rightarrow> first_stage [validateUniqueIDs d, validateReferences d] None
   | Some layout \<Rightarrow> first_stage
       [validateUniqueIDs d, validateReferences d, map LayoutIssue layout,
        if definition_valid (seValidate env) d then [] else [Issue ''REPORT_DEFINITION_INVALID'' ([], ''$'')],
        failing ''REPORT_COMPONENT_INVALID'' [] (\<lambda>c. ValidateComponentSchema (seEncode env) r c (render_size d c)) d,
        failing ''REPORT_COMPONENT_DATA_INVALID'' ''dataBinding'' (ValidateComponentData (seShape env) r) d]
       (ValidateInteractions r d))"

end
