(* ===== verification/ManifestProperties.thy ===== *)
theory ManifestProperties imports ManifestRegistry ReportValidateProperties begin

text \<open>
  What the registry's upgrade check buys: a patch or minor upgrade keeps every component that was
  valid, and its migration is the identity on the options, as long as the constraints the check
  does not look at (string lengths, array sizes, nested schemas) stay as they are; and what
  happens when they do not.
\<close>

section \<open>One upgrade\<close>

text \<open>The fields of an option that \<open>checkOptionSchemaCompatibility\<close> does not compare.\<close>

definition lengths_kept :: "OptionPropertySchema \<Rightarrow> OptionPropertySchema \<Rightarrow> bool" where
  "lengths_kept p n \<longleftrightarrow> opMinLength n = opMinLength p \<and> opMaxLength n = opMaxLength p \<and>
     opMinItems n = opMinItems p \<and> opMaxItems n = opMaxItems p \<and> opRequired n = opRequired p \<and>
     opProperties n = opProperties p \<and> opItems n = opItems p"

definition schema_lengths_kept :: "Manifest \<Rightarrow> Manifest \<Rightarrow> bool" where
  "schema_lengths_kept a b \<longleftrightarrow> (\<forall>(name, p)\<in>set (osProperties (mfOptionSchema a)).
     \<forall>n. map_of (osProperties (mfOptionSchema b)) name = Some n \<longrightarrow> lengths_kept p n)"

lemma constraint_minimum: "constraintIsCompatible a b True \<Longrightarrow> \<not> (case a of Some m \<Rightarrow> v < m | None \<Rightarrow> False) \<Longrightarrow>
    \<not> (case b of Some m \<Rightarrow> v < m | None \<Rightarrow> False)"
  by (auto simp: constraintIsCompatible_def split: option.splits)

lemma constraint_maximum: "constraintIsCompatible a b False \<Longrightarrow> \<not> (case a of Some m \<Rightarrow> v > m | None \<Rightarrow> False) \<Longrightarrow>
    \<not> (case b of Some m \<Rightarrow> v > m | None \<Rightarrow> False)"
  by (auto simp: constraintIsCompatible_def split: option.splits)

lemma enum_wider: "enumIsCompatible a b \<Longrightarrow> \<not> (a \<noteq> [] \<and> v \<notin> set a) \<Longrightarrow> \<not> (b \<noteq> [] \<and> v \<notin> set b)"
  by (auto simp: enumIsCompatible_def list_all_iff split: if_splits)

text \<open>What the check compares of one option.\<close>

definition option_compatible :: "OptionPropertySchema \<Rightarrow> OptionPropertySchema \<Rightarrow> bool" where
  "option_compatible p n \<longleftrightarrow> opType p = opType n \<and> constraintIsCompatible (opMinimum p) (opMinimum n) True \<and>
     constraintIsCompatible (opMaximum p) (opMaximum n) False \<and> enumIsCompatible (opEnum p) (opEnum n)"

lemma value_kept:
  assumes c: "option_compatible p n" and k: "lengths_kept p n" and v: "validateValue p v"
  shows "validateValue n v"
proof -
  have num: "validateNumber p x \<Longrightarrow> validateNumber n x" for x
    using c constraint_minimum constraint_maximum by (simp add: validateNumber_def option_compatible_def) blast
  have str: "string_ok p x \<Longrightarrow> string_ok n x" for x
    using c k enum_wider by (simp add: string_ok_def option_compatible_def lengths_kept_def) blast
  have ty: "opType n = opType p" using c by (simp add: option_compatible_def)
  show ?thesis
  proof (cases "\<exists>kvs. v = JObject kvs")
    case True
    with v ty k show ?thesis by (auto simp: lengths_kept_def)
  next
    case no_object: False
    show ?thesis
    proof (cases "\<exists>vs. v = JArray vs")
      case True
      with v ty k show ?thesis by (auto simp: lengths_kept_def)
    next
      case False
      with no_object v ty num str show ?thesis
        by (cases v) (auto split: OptionValueType.splits option.splits)
    qed
  qed
qed

lemma object_kept:
  assumes c: "checkOptionSchemaCompatibility (mfOptionSchema a) (mfOptionSchema b)"
    and k: "schema_lengths_kept a b" and b: "schema_valid (mfOptionSchema b)"
    and v: "ValidateObject (mfOptionSchema a) options"
  shows "ValidateObject (mfOptionSchema b) options"
proof -
  have "case map_of (osProperties (mfOptionSchema b)) (fst e) of None \<Rightarrow> False | Some q \<Rightarrow> validateValue q (snd e)"
    if e: "e \<in> set options" for e
  proof -
    from v e obtain p where p: "map_of (osProperties (mfOptionSchema a)) (fst e) = Some p" "validateValue p (snd e)"
      by (auto simp: ValidateObject_def list_all_iff split: option.splits)
    from p(1) have "(fst e, p) \<in> set (osProperties (mfOptionSchema a))" by (rule map_of_SomeD)
    moreover from this c obtain n where "map_of (osProperties (mfOptionSchema b)) (fst e) = Some n" "option_compatible p n"
      by (auto simp: checkOptionSchemaCompatibility_def option_compatible_def list_all_iff split: option.splits)
    ultimately show ?thesis using value_kept p(2) k by (fastforce simp: schema_lengths_kept_def)
  qed
  moreover have "list_all (\<lambda>r. map_of options r \<noteq> None) (osRequired (mfOptionSchema b))"
    using c v by (auto simp: checkOptionSchemaCompatibility_def ValidateObject_def list_all_iff)
  ultimately show ?thesis using b by (simp add: ValidateObject_def list_all_iff)
qed

lemma json_kept:
  "checkOptionSchemaCompatibility (mfOptionSchema a) (mfOptionSchema b) \<Longrightarrow> schema_lengths_kept a b \<Longrightarrow>
   schema_valid (mfOptionSchema b) \<Longrightarrow> ValidateJSON (mfOptionSchema a) v \<Longrightarrow> ValidateJSON (mfOptionSchema b) v"
  by (auto simp: ValidateJSON_def object_kept split: json.splits)

lemma data_shape_wider: "data_shape shape roles c = Some x \<Longrightarrow> isSuperset roles' roles \<Longrightarrow> data_shape shape roles' c = Some x"
  unfolding data_shape_def isSuperset_def list_all_iff
  by (auto split: option.splits BindingMode.splits if_splits simp: Let_def)

lemma data_kept:
  assumes u: "CheckUpgrade mg a b" and m: "major (mfVersion a) = major (mfVersion b)" and v: "validateComponentData shape a c"
  shows "validateComponentData shape b c"
proof -
  from v obtain d ms t where s: "data_shape shape (dcRoles (mfDataContract a)) c = Some (d, ms, t)"
    by (auto simp: validateComponentData_def split: option.splits)
  moreover from u m have "isSuperset (dcRoles (mfDataContract b)) (dcRoles (mfDataContract a))"
    by (simp add: CheckUpgrade_def Let_def)
  ultimately have "data_shape shape (dcRoles (mfDataContract b)) c = Some (d, ms, t)" by (rule data_shape_wider)
  with s u m v show ?thesis by (auto simp: validateComponentData_def CheckUpgrade_def Let_def)
qed

text \<open>What a manifest asks of a component of given size.\<close>

definition admits ::
  "(ComponentOptions \<Rightarrow> json) \<Rightarrow> (string \<Rightarrow> query_shape) \<Rightarrow> Component \<Rightarrow> GridSize \<Rightarrow> Manifest \<Rightarrow> bool" where
  "admits encode shape c g m \<longleftrightarrow> gsW (mfMinSize m) \<le> gsW g \<and> gsH (mfMinSize m) \<le> gsH g \<and>
     ValidateJSON (mfOptionSchema m) (encode (cpOptions c)) \<and> validateComponentData shape m c"

lemma upgrade_admits:
  assumes u: "CheckUpgrade mg a b" and m: "major (mfVersion a) = major (mfVersion b)" and k: "schema_lengths_kept a b"
    and a: "admits encode shape c g a"
  shows "admits encode shape c g b"
proof -
  from u have "schema_valid (mfOptionSchema b)" by (simp add: CheckUpgrade_def manifest_valid_def)
  moreover from u m have "checkOptionSchemaCompatibility (mfOptionSchema a) (mfOptionSchema b)"
    "gsW (mfMinSize b) \<le> gsW (mfMinSize a)" "gsH (mfMinSize b) \<le> gsH (mfMinSize a)"
    by (simp_all add: CheckUpgrade_def)
  ultimately show ?thesis using a json_kept [OF _ k] data_kept [OF u m] by (auto simp: admits_def)
qed

section \<open>The chain of versions\<close>

lemma compareSemver_order: "compareSemver x y < 0 \<longleftrightarrow> x < y" "compareSemver x y > 0 \<longleftrightarrow> y < x"
  "compareSemver x y \<le> 0 \<longleftrightarrow> x \<le> y"
  by (cases x; cases y; auto simp: less_prod_simp less_eq_prod_simp)+

abbreviation version :: "Manifest \<Rightarrow> int \<times> int \<times> int" where
  "version m \<equiv> semver (mfVersion m)"

lemma version_before_key: "version_before = lt_on version"
  by (simp add: version_before_def lt_on_def compareSemverMust_def compareSemver_order fun_eq_iff)

lemma CheckUpgrade_later: "CheckUpgrade mg a b \<Longrightarrow> version a < version b"
  by (simp add: CheckUpgrade_def compareSemverMust_def compareSemver_order flip: not_less)

lemma chain_sorted: "upgrades_checked mg vs \<Longrightarrow> sorted_wrt (\<lambda>a b. version a < version b) vs"
proof (induction mg vs rule: upgrades_checked.induct)
  case (1 mg a b rest)
  then have "version a < version b" using CheckUpgrade_later [of mg a b] by simp
  with 1 show ?case by (auto dest: less_trans)
qed auto

text \<open>The versions after one and up to another are a consecutive part of the chain.\<close>

lemma between_versions:
  assumes "sorted_wrt (\<lambda>a b. version a < version b) (xs @ m # ys @ m' # zs)"
  shows "filter (\<lambda>x. compareSemverMust (mfVersion x) (mfVersion m) > 0 \<and> compareSemverMust (mfVersion x) (mfVersion m') \<le> 0)
     (xs @ m # ys @ m' # zs) = ys @ [m']"
proof -
  have "\<forall>x\<in>set xs. \<not> version m < version x" "\<forall>y\<in>set ys. version m < version y \<and> version y \<le> version m'"
    "version m < version m'" "\<forall>z\<in>set zs. \<not> version z \<le> version m'"
    using assms by (auto simp: sorted_wrt_append intro: less_imp_le dest: less_asym)
  then show ?thesis
    by (simp add: compareSemverMust_def compareSemver_order filter_empty_conv filter_id_conv)
qed

lemma upgrades_checked_suffix: "upgrades_checked mg (xs @ ys) \<Longrightarrow> upgrades_checked mg ys"
  by (induction mg xs rule: upgrades_checked.induct) (auto, (cases ys; auto)+)

lemma migrate_chain:
  assumes "upgrades_checked mg (m # ys @ zs)" and "\<forall>y\<in>set ys. major (mfVersion y) = major (mfVersion m)"
    and "\<forall>a\<in>set (m # ys). \<forall>b\<in>set ys. version_before a b \<longrightarrow> schema_lengths_kept a b"
    and "admits encode shape c g m"
  shows "migrate_options r run m ys (encode (cpOptions c)) = Some (last (m # ys), encode (cpOptions c)) \<and>
     admits encode shape c g (last (m # ys))"
  using assms
proof (induction ys arbitrary: m)
  case Nil
  then show ?case by simp
next
  case (Cons y ys)
  have u: "CheckUpgrade mg m y" "upgrades_checked mg (y # ys @ zs)" using Cons.prems(1) by simp_all
  have k: "schema_lengths_kept m y"
    using Cons.prems(3) CheckUpgrade_later [OF u(1)] by (simp add: version_before_key lt_on_def)
  have a: "admits encode shape c g y" using upgrade_admits [OF u(1) _ k Cons.prems(4)] Cons.prems(2) by simp
  have "migrate_options r run y ys (encode (cpOptions c)) = Some (last (y # ys), encode (cpOptions c)) \<and>
     admits encode shape c g (last (y # ys))"
    using Cons.prems(2,3) by (intro Cons.IH [OF u(2) _ _ a]) auto
  moreover have "ValidateJSON (mfOptionSchema y) (encode (cpOptions c))" using a by (simp add: admits_def)
  ultimately show ?case using Cons.prems(2) by simp
qed

lemma registry_chain:
  assumes r: "NewRegistry ms mg = Some r" and m: "m \<in> set ms"
  shows "upgrades_checked (set mg) (versions_of (rgManifests r) (mfType m))" and "rgManifests r = ms"
    and "distinct (map manifestKey ms)"
  using assms by (auto simp: NewRegistry_def list_all_iff split: if_splits)

lemma Get_in: "Get r ty v = Some m \<Longrightarrow> m \<in> set (rgManifests r) \<and> mfType m = ty \<and> mfVersion m = v"
  by (auto simp: Get_def dest!: map_of_SomeD)

lemma Get_self: "distinct (map manifestKey (rgManifests r)) \<Longrightarrow> m \<in> set (rgManifests r) \<Longrightarrow>
    Get r (mfType m) (mfVersion m) = Some m"
  by (auto simp: Get_def comp_def intro!: map_of_is_SomeI)

lemma split_chain:
  assumes "sorted_wrt (\<lambda>a b. version a < version b) vs" and "m \<in> set vs" and "m' \<in> set vs" and "version m < version m'"
  obtains xs ys zs where "vs = xs @ m # ys @ m' # zs"
proof -
  obtain xs ws where vs: "vs = xs @ m # ws" using assms(2) by (meson split_list)
  with assms have "m' \<in> set ws" by (auto simp: sorted_wrt_append dest: less_asym)
  with vs that show thesis by (metis split_list)
qed

definition at_version :: "string \<Rightarrow> Component \<Rightarrow> Component" where
  "at_version v c = c\<lparr> cpTemplateRef := (cpTemplateRef c)\<lparr> ctVersion := v \<rparr> \<rparr>"

lemma admits_at_version [simp]: "admits encode shape (at_version v c) g m = admits encode shape c g m"
  by (simp add: admits_def at_version_def validateComponentData_def data_shape_def split: option.splits)

lemma ValidateComponent_admits:
  "Get r (ctType (cpTemplateRef c)) (ctVersion (cpTemplateRef c)) = Some m \<Longrightarrow>
   ValidateComponent encode shape r c g = admits encode shape c g m"
  by (auto simp: ValidateComponent_def ValidateComponentSchema_def ValidateComponentData_def admits_def)

lemma same_major_between:
  "x < y \<Longrightarrow> y \<le> z \<Longrightarrow> fst x = fst z \<Longrightarrow> fst y = fst (z :: int \<times> int \<times> int)"
  by (cases x; cases y; cases z) (auto simp: less_prod_simp less_eq_prod_simp)

text \<open>a patch or minor upgrade in an accepted registry is substitutable: when no two of
  its versions of the component type with one major version differ in the lengths, sizes and
  nested schemas the check ignores, a component valid at one of them is valid at every later one,
  and \<open>MigrateComponent\<close> moves it there changing nothing but the version.\<close>

theorem minor_migration_keeps_component:
  assumes r: "NewRegistry ms mg = Some r"
    and m: "Get r (ctType (cpTemplateRef c)) (ctVersion (cpTemplateRef c)) = Some m"
    and m': "Get r (ctType (cpTemplateRef c)) v' = Some m'"
    and later: "compareSemverMust (ctVersion (cpTemplateRef c)) v' < 0"
    and same: "major (ctVersion (cpTemplateRef c)) = major v'"
    and kept: "\<And>a b. a \<in> set ms \<Longrightarrow> b \<in> set ms \<Longrightarrow> mfType a = mfType b \<Longrightarrow>
      major (mfVersion a) = major (mfVersion b) \<Longrightarrow> version_before a b \<Longrightarrow> schema_lengths_kept a b"
    and codec: "decode (encode (cpOptions c)) = Some (cpOptions c)"
    and ok: "ValidateComponent encode shape r c g"
  shows "MigrateComponent encode decode shape run r c v' = Some (at_version v' c) \<and>
    ValidateComponent encode shape r (at_version v' c) g"
proof -
  have ms: "rgManifests r = ms" "distinct (map manifestKey ms)"
    using r by (auto simp: NewRegistry_def split: if_splits)
  have mi: "m \<in> set ms" "mfType m = ctType (cpTemplateRef c)" "mfVersion m = ctVersion (cpTemplateRef c)"
    using Get_in [OF m] ms by auto
  have m'i: "m' \<in> set ms" "mfType m' = ctType (cpTemplateRef c)" "mfVersion m' = v'"
    using Get_in [OF m'] ms by auto
  let ?vs = "versions_of ms (mfType m)"
  have lt: "version m < version m'"
    using later mi(3) m'i(3) by (simp add: compareSemverMust_def compareSemver_order)
  have chain: "upgrades_checked (set mg) ?vs" using registry_chain(1) [OF r mi(1)] ms by simp
  have sorted: "sorted_wrt (\<lambda>a b. version a < version b) ?vs" using chain_sorted [OF chain] .
  have "m \<in> set ?vs" "m' \<in> set ?vs" using mi m'i by (simp_all add: versions_of_def)
  with sorted lt obtain xs ys zs where vs: "?vs = xs @ m # ys @ m' # zs" by (blast elim: split_chain)
  have in_vs: "y \<in> set ms \<and> mfType y = mfType m" if "y \<in> set ?vs" for y using that by (auto simp: versions_of_def)
  have "version m < version y \<and> version y \<le> version m'" if "y \<in> set (ys @ [m'])" for y
    using that sorted lt by (auto simp: vs sorted_wrt_append intro: less_imp_le)
  then have major: "major (mfVersion y) = major (mfVersion m)" if "y \<in> set (ys @ [m'])" for y
    using that same mi(3) m'i(3) same_major_between [of "version m" "version y" "version m'"] by (simp add: major_def)
  have "\<forall>a\<in>set (m # ys @ [m']). \<forall>b\<in>set (ys @ [m']). version_before a b \<longrightarrow> schema_lengths_kept a b"
  proof (intro ballI impI)
    fix a b assume ab: "a \<in> set (m # ys @ [m'])" "b \<in> set (ys @ [m'])" "version_before a b"
    then have "a \<in> set ?vs" "b \<in> set ?vs" by (auto simp: vs)
    moreover have "major (mfVersion a) = major (mfVersion b)" using ab(1,2) major by auto
    ultimately show "schema_lengths_kept a b" using kept ab(3) in_vs by metis
  qed
  moreover have "upgrades_checked (set mg) (m # (ys @ [m']) @ zs)"
    using chain upgrades_checked_suffix [of "set mg" xs "m # (ys @ [m']) @ zs"] by (simp add: vs)
  moreover have "\<forall>y\<in>set (ys @ [m']). major (mfVersion y) = major (mfVersion m)" using major by blast
  moreover have "admits encode shape c g m" using ok m by (simp add: ValidateComponent_admits)
  ultimately have mig: "migrate_options r run m (ys @ [m']) (encode (cpOptions c)) = Some (m', encode (cpOptions c))"
    and adm: "admits encode shape c g m'"
    using migrate_chain [of "set mg" m "ys @ [m']" zs encode shape c g r run] by simp_all
  have get: "Get r (ctType (cpTemplateRef (at_version v' c))) (ctVersion (cpTemplateRef (at_version v' c))) = Some m'"
    using m' by (simp add: at_version_def)
  have valid: "ValidateComponent encode shape r (at_version v' c) g"
    using ValidateComponent_admits [OF get] adm by simp
  have "filter (\<lambda>x. compareSemverMust (mfVersion x) (mfVersion m) > 0 \<and> compareSemverMust (mfVersion x) (mfVersion m') \<le> 0)
      ?vs = ys @ [m']"
    using between_versions [of xs m ys m' zs] sorted by (simp add: vs)
  with mig m m' lt codec valid ms m'i(3) have "MigrateComponent encode decode shape run r c v' = Some (at_version v' c)"
    by (simp add: MigrateComponent_def Let_def compareSemverMust_def compareSemver_order ValidateComponent_def at_version_def)
  with valid show ?thesis by simp
qed

section \<open>Examples\<close>

definition text_option :: "int option \<Rightarrow> OptionPropertySchema" where
  "text_option limit = Property OptionString [] [] None None None limit None None False [] [] None"

text \<open>A bar chart's manifest with two texts, and one with a shorter limit on the first.\<close>

definition bar_manifest :: "string \<Rightarrow> int option \<Rightarrow> string list \<Rightarrow> Manifest" where
  "bar_manifest v limit kinds = \<lparr> mfType = ''bar'', mfVersion = v, mfRenderer = RendererECharts, mfDisplayName = ''Bar'',
     mfCategory = CategoryChart, mfMinSize = \<lparr> gsW = 1, gsH = 1 \<rparr>, mfRecommendedSize = \<lparr> gsW = 4, gsH = 4 \<rparr>,
     mfDataContract = \<lparr> dcDimensions = \<lparr> cdMin = 0, cdMax = 2 \<rparr>, dcMeasures = \<lparr> cdMin = 1, cdMax = 4 \<rparr>,
       dcTimeRequired = False, dcRoles = [''DIMENSION'', ''VALUE''] \<rparr>,
     mfOptionSchema = \<lparr> osType = ''object'', osAdditionalProperties = False, osRequired = [],
       osProperties = [(''title'', text_option limit), (''subtitle'', text_option None)] \<rparr>,
     mfDefaultOptions = [], mfMobilePolicy = \<lparr> mpSupported = True, mpDefaultLegendMode = ''VISIBLE'', mpLabelDegradation = ''NONE'' \<rparr>,
     mfSupportedInteractions = kinds, mfMigration = None \<rparr>"

definition titled :: "string \<Rightarrow> Component" where
  "titled t = (chart ''c1'' [])\<lparr> cpOptions := plain_options\<lparr> coTitle := t \<rparr> \<rparr>"

definition title_json :: "ComponentOptions \<Rightarrow> json" where
  "title_json o' = JObject [(''title'', JString (coTitle o'))]"

definition title_options :: "json \<Rightarrow> ComponentOptions option" where
  "title_options v = (case v of JObject [(_, JString t)] \<Rightarrow> Some (plain_options\<lparr> coTitle := t \<rparr>) | _ \<Rightarrow> None)"

definition no_shape :: "string \<Rightarrow> query_shape" where
  "no_shape ir = \<lparr> qsGroupBy = 0, qsMetrics = 0, qsTimeRange = False, qsTimeGrain = False \<rparr>"

definition bars :: "int option \<Rightarrow> int option \<Rightarrow> Manifest list" where
  "bars a b = [bar_manifest ''1.10.0'' b [''SORT'', ''BRUSH''], bar_manifest ''1.9.0'' a [''BRUSH'']]"

definition bar_registry :: "int option \<Rightarrow> int option \<Rightarrow> Registry" where
  "bar_registry a b = \<lparr> rgManifests = bars a b, rgMigrators = {} \<rparr>"

theorem minor_migration_keeps_component_witness:
  "MigrateComponent title_json title_options no_shape (\<lambda>_ _. None) (bar_registry (Some 9) (Some 9))
     (at_version ''1.9.0'' (titled ''Revenue'')) ''1.10.0'' =
   Some (at_version ''1.10.0'' (at_version ''1.9.0'' (titled ''Revenue'')))"
proof -
  let ?c = "at_version ''1.9.0'' (titled ''Revenue'')"
  have at: "ctType (cpTemplateRef ?c) = ''bar''" "ctVersion (cpTemplateRef ?c) = ''1.9.0''"
    by (simp_all add: at_version_def titled_def chart_def)
  have r: "NewRegistry (bars (Some 9) (Some 9)) [] = Some (bar_registry (Some 9) (Some 9))" by code_simp
  have "Get (bar_registry (Some 9) (Some 9)) ''bar'' ''1.9.0'' = Some (bar_manifest ''1.9.0'' (Some 9) [''BRUSH''])"
    "Get (bar_registry (Some 9) (Some 9)) ''bar'' ''1.10.0'' = Some (bar_manifest ''1.10.0'' (Some 9) [''SORT'', ''BRUSH''])"
    by code_simp+
  then have g: "Get (bar_registry (Some 9) (Some 9)) (ctType (cpTemplateRef ?c)) (ctVersion (cpTemplateRef ?c)) =
      Some (bar_manifest ''1.9.0'' (Some 9) [''BRUSH''])"
    "Get (bar_registry (Some 9) (Some 9)) (ctType (cpTemplateRef ?c)) ''1.10.0'' =
      Some (bar_manifest ''1.10.0'' (Some 9) [''SORT'', ''BRUSH''])"
    by (simp_all only: at)
  have k: "schema_lengths_kept a b" if "a \<in> set (bars (Some 9) (Some 9))" "b \<in> set (bars (Some 9) (Some 9))" for a b
    using that by (auto simp: bars_def bar_manifest_def schema_lengths_kept_def lengths_kept_def)
  have v: "ValidateComponent title_json no_shape (bar_registry (Some 9) (Some 9)) ?c \<lparr> gsW = 2, gsH = 2 \<rparr>" by code_simp
  have d: "title_options (title_json (cpOptions ?c)) = Some (cpOptions ?c)"
    by (simp add: title_options_def title_json_def at_version_def titled_def)
  have "compareSemverMust ''1.9.0'' ''1.10.0'' < 0" "major ''1.9.0'' = major ''1.10.0''" by code_simp+
  then have l: "compareSemverMust (ctVersion (cpTemplateRef ?c)) ''1.10.0'' < 0"
    "major (ctVersion (cpTemplateRef ?c)) = major ''1.10.0''"
    by (simp_all only: at)
  show ?thesis
    using minor_migration_keeps_component [where encode = title_json and decode = title_options, OF r g l k d v] by blast
qed

text \<open>the upgrade check does not look at lengths: the registry admits a minor version whose
  text option is limited to 5 characters after 9, and then a valid component with a title of 7
  characters neither migrates nor is valid at the new version. Nor does the option check refuse
  the JSON \<open>null\<close> for a required text, boolean or number.\<close>

theorem upgrade_check_misses_lengths:
  "NewRegistry (bars (Some 9) (Some 5)) [] = Some (bar_registry (Some 9) (Some 5)) \<and>
   ValidateComponent title_json no_shape (bar_registry (Some 9) (Some 5)) (at_version ''1.9.0'' (titled ''Revenue''))
     \<lparr> gsW = 2, gsH = 2 \<rparr> \<and>
   MigrateComponent title_json title_options no_shape (\<lambda>_ _. None) (bar_registry (Some 9) (Some 5))
     (at_version ''1.9.0'' (titled ''Revenue'')) ''1.10.0'' = None \<and>
   \<not> ValidateComponent title_json no_shape (bar_registry (Some 9) (Some 5)) (at_version ''1.10.0'' (titled ''Revenue''))
     \<lparr> gsW = 2, gsH = 2 \<rparr> \<and>
   ValidateObject \<lparr> osType = ''object'', osAdditionalProperties = False, osRequired = [''title''],
     osProperties = [(''title'', text_option None)] \<rparr> [(''title'', JNull)]"
proof (intro conjI)
  show "NewRegistry (bars (Some 9) (Some 5)) [] = Some (bar_registry (Some 9) (Some 5))" by code_simp
  show "ValidateComponent title_json no_shape (bar_registry (Some 9) (Some 5)) (at_version ''1.9.0'' (titled ''Revenue''))
     \<lparr> gsW = 2, gsH = 2 \<rparr>" by code_simp
  show "MigrateComponent title_json title_options no_shape (\<lambda>_ _. None) (bar_registry (Some 9) (Some 5))
     (at_version ''1.9.0'' (titled ''Revenue'')) ''1.10.0'' = None" by code_simp
  show "\<not> ValidateComponent title_json no_shape (bar_registry (Some 9) (Some 5)) (at_version ''1.10.0'' (titled ''Revenue''))
     \<lparr> gsW = 2, gsH = 2 \<rparr>" by code_simp
  show "ValidateObject \<lparr> osType = ''object'', osAdditionalProperties = False, osRequired = [''title''],
     osProperties = [(''title'', text_option None)] \<rparr> [(''title'', JNull)]" by code_simp
qed

end
