(* ===== verification/ReportStageProperties.thy ===== *)
theory ReportStageProperties imports ReportStages ManifestProperties begin

text \<open>
  The staged checker against the model's own \<open>Validate\<close>: a definition the latter accepts passes
  the first two stages, so the checker's acceptance splits into independent parts; and what an
  empty list of interaction issues guarantees for the run-time propagation of interactions.
\<close>

section \<open>Unique identifiers\<close>

abbreviation key_of :: "entry \<Rightarrow> name_space \<times> ID" where
  "key_of e \<equiv> (fst e, fst (snd e))"

lemma add_entries_empty:
  "add_entries seen es = [] \<longleftrightarrow> distinct (map key_of es) \<and> set (map key_of es) \<inter> seen = {}"
  by (induction seen es rule: add_entries.induct) auto

lemma distinct_by_space: "distinct xs \<longleftrightarrow> (\<forall>ns. distinct (filter (\<lambda>x. fst x = ns) xs))"
proof (induction xs)
  case Nil
  then show ?case by simp
next
  case (Cons x xs)
  have "x \<in> set xs \<longleftrightarrow> x \<in> set (filter (\<lambda>y. fst y = fst x) xs)" by auto
  with Cons show ?case by (auto split: if_splits)
qed

lemma map_enumerate_snd: "(\<And>i x. f (i, x) = g x) \<Longrightarrow> map f (enumerate n xs) = map g xs"
  by (induction xs arbitrary: n) auto

definition zone_keys :: "Zone \<Rightarrow> (name_space \<times> ID) list" where
  "zone_keys z = (Zones, znID z) # map (\<lambda>s. (Slots, slID s)) (znSlots z)"

definition block_keys :: "Block \<Rightarrow> (name_space \<times> ID) list" where
  "block_keys b = (Blocks, bkID b) # concat (map zone_keys (bkZones b))"

definition section_keys :: "Section \<Rightarrow> (name_space \<times> ID) list" where
  "section_keys s = (Sections, scID s) # concat (map block_keys (scBlocks s))"

definition page_keys :: "Page \<Rightarrow> (name_space \<times> ID) list" where
  "page_keys p = (Pages, pgID p) # concat (map section_keys (pgSections p))"

lemma entry_keys:
  "map key_of (zone_entries p (k, z)) = zone_keys z"
  "map key_of (block_entries p (k, b)) = block_keys b"
  "map key_of (section_entries p (k, s)) = section_keys s"
  "map key_of (page_entries (k, pg)) = page_keys pg"
proof -
  show 1: "map key_of (zone_entries p (k, z)) = zone_keys z" for p k z
    by (simp add: zone_entries_def zone_keys_def comp_def map_enumerate_snd [where g = "\<lambda>s. (Slots, slID s)"])
  show 2: "map key_of (block_entries p (k, b)) = block_keys b" for p k b
    by (simp add: block_entries_def block_keys_def map_concat comp_def
        map_enumerate_snd [where g = zone_keys] 1)
  show 3: "map key_of (section_entries p (k, s)) = section_keys s" for p k s
    by (simp add: section_entries_def section_keys_def map_concat comp_def
        map_enumerate_snd [where g = block_keys] 2)
  show "map key_of (page_entries (k, pg)) = page_keys pg"
    by (simp add: page_entries_def page_keys_def map_concat comp_def
        map_enumerate_snd [where g = section_keys] 3)
qed

lemma item_entries_keys: "map key_of (item_entries ns key f xs) = map (Pair ns) (map f xs)"
  by (simp add: item_entries_def comp_def map_enumerate_snd [where g = "\<lambda>x. (ns, f x)"])

lemma id_entries_keys: "map key_of (id_entries d) =
    map (Pair Contexts) (map dxID (rdDataContexts d)) @ map (Pair Components) (map cpID (rdComponents d)) @
    concat (map page_keys (rdPages d)) @ map (Pair Filters) (map gfID (rdGlobalFilters d)) @
    map (Pair Interactions) (map inID (rdInteractions d))"
  by (simp add: id_entries_def item_entries_keys map_concat comp_def
      map_enumerate_snd [where g = page_keys] entry_keys)

text \<open>The keys of one namespace, taken from an interleaved list.\<close>

lemma filter_Pair: "filter (\<lambda>x. fst x = ns) (map (Pair n) xs) = (if n = ns then map (Pair n) xs else [])"
  by (induction xs) auto

lemma filter_Pair': "filter (\<lambda>x. fst x = ns) (map (\<lambda>s. (n, f s)) xs) = (if n = ns then map (Pair n) (map f xs) else [])"
  by (induction xs) auto

lemma concat_map_nil: "(\<And>x. f x = []) \<Longrightarrow> concat (map f xs) = []"
  by (induction xs) auto

lemma concat_map_one: "concat (map (\<lambda>x. [f x]) xs) = map f xs"
  by (induction xs) auto

lemmas walk_lists = all_slots_def all_zones_def all_blocks_def all_sections_def concat_map_concat' map_concat
  concat_concat' concat_map_one concat_map_nil filter_concat comp_def filter_Pair'

lemma page_keys_of:
  "filter (\<lambda>x. fst x = ns) (concat (map page_keys (rdPages d))) = map (Pair ns) (case ns of
     Pages \<Rightarrow> map pgID (rdPages d) | Sections \<Rightarrow> map scID (all_sections d) | Blocks \<Rightarrow> map bkID (all_blocks d)
   | Zones \<Rightarrow> map znID (all_zones d) | Slots \<Rightarrow> map slID (all_slots d) | _ \<Rightarrow> [])"
  by (cases ns) (simp_all add: page_keys_def section_keys_def block_keys_def zone_keys_def walk_lists)

lemma unique_stage_empty: "validateUniqueIDs d = [] \<longleftrightarrow> list_all distinct
    [map dxID (rdDataContexts d), map cpID (rdComponents d), map pgID (rdPages d), map scID (all_sections d),
     map bkID (all_blocks d), map znID (all_zones d), map slID (all_slots d), map gfID (rdGlobalFilters d),
     map inID (rdInteractions d)]"
proof -
  have ex: "(\<forall>ns. P ns) \<longleftrightarrow> list_all P [Contexts, Components, Pages, Sections, Blocks, Zones, Slots, Filters, Interactions]"
    for P by (auto intro: name_space.exhaust) (metis name_space.exhaust)
  have d: "distinct (map (Pair ns) xs) = distinct xs" for ns :: name_space and xs :: "ID list"
    by (simp add: distinct_map inj_on_def)
  have "validateUniqueIDs d = [] \<longleftrightarrow> (\<forall>ns. distinct (filter (\<lambda>x. fst x = ns) (map key_of (id_entries d))))"
    unfolding validateUniqueIDs_def add_entries_empty distinct_by_space [symmetric] by simp
  then show ?thesis
    by (simp add: id_entries_keys ex page_keys_of filter_Pair d del: map_map)
qed

section \<open>References\<close>

lemma snd_walk: "(\<And>i x. map snd (F (i, x)) = G x) \<Longrightarrow> map snd (concat (map F (enumerate n xs))) = concat (map G xs)"
  by (induction xs arbitrary: n) simp_all

lemma map_snd_indexed: "map snd (map (\<lambda>(n, x). (h n, x)) (enumerate k xs)) = xs"
  by (induction xs arbitrary: k) auto

lemma indexed_slots_all: "map snd (indexed_slots d) = all_slots d"
proof -
  have "map snd (indexed_slots d) = concat (map page_slots (rdPages d))"
    unfolding indexed_slots_def
    by (intro snd_walk) (auto intro!: snd_walk simp only: prod.case map_snd_indexed)
  also have "\<dots> = all_slots d"
    by (simp add: all_slots_def all_zones_def all_blocks_def all_sections_def concat_map_concat' map_concat concat_concat' comp_def)
  finally show ?thesis .
qed

lemma target_issues_empty: "target_issues names code p seen k ts = [] \<longleftrightarrow>
    distinct ts \<and> set ts \<inter> seen = {} \<and> (\<forall>n. names = Some n \<longrightarrow> set ts \<subseteq> n)"
  by (induction names code p seen k ts rule: target_issues.induct) (auto split: option.splits)

lemma count_filter: "count_list (filter P xs) i = (if P i then count_list xs i else 0)"
  by (induction xs) auto

lemma reference_stage_empty:
  assumes v: "definition_valid env d"
  shows "validateReferences d = []"
proof -
  let ?ids = "set (map cpID (rdComponents d))"
  obtain ns where e: "each (page_step 24 ?ids) (rdPages d) no_names = Some ns"
    and u: "unique_and_valid (map cpID (rdComponents d))"
    and fs: "filters_valid d (set (map dxID (rdDataContexts d))) ns ?ids"
    and ints: "list_all (interaction_valid ?ids (nsPages ns)) (rdInteractions d)"
    by (rule definition_validD [OF v])
  note names = walk_names(6-8) [OF e] and res = resolves_if_valid [OF v, unfolded references_resolve_def]
  have "slot_issues ?ids x = []" if "x \<in> set (indexed_slots d)" for x
  proof -
    have "snd x \<in> set (all_slots d)" using that by (metis indexed_slots_all image_eqI set_map)
    with slots_reference_components [OF e] show ?thesis by (auto simp: slot_issues_def filled_def split: prod.splits)
  qed
  moreover have "component_issues d (k, c) = []" if c: "c \<in> set (rdComponents d)" for k c
  proof -
    have "cpID c \<in> ?ids" "cpID c \<noteq> []" using c u valid_id_nonempty by (auto simp: unique_and_valid_def list_all_iff)
    then have "placements d (cpID c) = count_list (filled (all_slots d)) (cpID c)"
      by (simp add: placements_def count_filter filled_def flip: indexed_slots_all)
    also have "\<dots> = 1" using placed_if_valid [OF v] u \<open>cpID c \<in> ?ids\<close>
      by (simp add: count_list_mset unique_and_valid_def distinct_count_atmost_1)
    finally have "placements d (cpID c) = 1" .
    moreover have "component_resolves d c" using res c by (simp add: list_all_iff)
    ultimately show ?thesis by (auto simp: component_issues_def component_resolves_def split: option.splits)
  qed
  moreover have "filter_issues d (k, f) = []" if f: "f \<in> set (rdGlobalFilters d)" for k f
  proof -
    have "filter_valid (set (map dxID (rdDataContexts d))) ns ?ids f" using fs f by (simp add: filters_valid_def list_all_iff)
    then show ?thesis
      by (cases "fsType (gfScope f)")
        (auto simp: filter_issues_def filter_valid_def target_issues_empty scope_target_names_def scope_names_def names
          page_blocks_of_def all_blocks_def all_sections_def list_all_iff Let_def simp del: set_map)
  qed
  moreover have "interaction_issues d (k, i) = []" if i: "i \<in> set (rdInteractions d)" for k i
  proof -
    have "interaction_valid ?ids (nsPages ns) i" using ints i by (simp add: list_all_iff)
    then show ?thesis
      by (auto simp: interaction_issues_def interaction_valid_def target_issues_empty names list_all_iff
          split: option.splits if_splits simp del: set_map)
  qed
  ultimately show ?thesis
    unfolding validateReferences_def by (auto dest!: in_enumerate)
qed

section \<open>The stages\<close>

lemma first_stage_accepts: "first_stage stages rest = Some [] \<longleftrightarrow> list_all (\<lambda>s. s = []) stages \<and> rest = Some []"
  by (induction stages) auto

lemma failing_empty: "failing code field ok d = [] \<longleftrightarrow> list_all ok (rdComponents d)"
proof -
  have "concat (map (\<lambda>(k, c). if ok c then [] else [Issue code (at_item ''components'' k field)]) (enumerate n cs)) = []
      \<longleftrightarrow> list_all ok cs" for n cs
    by (induction cs arbitrary: n) auto
  then show ?thesis by (simp add: failing_def)
qed

text \<open>C33: the staged checker accepts exactly the definitions that the model's own
  \<open>Validate\<close> accepts, whose layout has no issue, whose components fit their manifests at their
  rendered size, and whose interactions have no issue: its first two stages, the unique
  identifiers and the references, add nothing to \<open>Validate\<close>.\<close>

theorem checker_accepts:
  "ValidateDefinition env r d = Some [] \<longleftrightarrow> definition_valid (seValidate env) d \<and> ValidateLayout d = Some [] \<and>
     list_all (\<lambda>c. ValidateComponent (seEncode env) (seShape env) r c (render_size d c)) (rdComponents d) \<and>
     ValidateInteractions r d = Some []"
proof -
  have "validateUniqueIDs d = [] \<and> validateReferences d = []" if "definition_valid (seValidate env) d"
    using unique_if_valid [OF that] reference_stage_empty [OF that]
    by (simp add: unique_stage_empty identifiers_unique_def unique_and_valid_def)
  then show ?thesis
    by (auto simp: ValidateDefinition_def first_stage_accepts failing_empty list_all_iff ValidateComponent_def
        split: option.splits if_splits)
qed

section \<open>Interactions\<close>

text \<open>How an interaction spreads: from its source to each of its targets.\<close>

definition spread :: "ReportDefinition \<Rightarrow> (ID \<times> ID) set" where
  "spread d = {(s, t). \<exists>i\<in>set (rdInteractions d). s = inSourceComponentID i \<and> t \<in> set (inTargetComponentIDs i)}"

lemma add_edges_fold: "edges (fold (add_edges d) is g) = edges g \<union>
    {(s, t). \<exists>i\<in>set is. s = inSourceComponentID i \<and> t \<in> set (inTargetComponentIDs i) \<and>
       find_component d s \<noteq> None \<and> find_component d t \<noteq> None}"
proof (induction "is" arbitrary: g)
  case Nil
  then show ?case by simp
next
  case (Cons i "is")
  have "edges (add_edges d i g) = edges g \<union> {(s, t). s = inSourceComponentID i \<and> t \<in> set (inTargetComponentIDs i) \<and>
       find_component d s \<noteq> None \<and> find_component d t \<noteq> None}"
    by (auto simp: edges_def add_edges_def split: if_splits)
  with Cons show ?case by auto
qed

lemma find_component_Some: "find_component d i = Some c \<Longrightarrow> c \<in> set (rdComponents d) \<and> cpID c = i"
  by (auto simp: find_component_def dest!: map_of_SomeD)

lemma find_component_known: "i \<in> set (map cpID (rdComponents d)) \<Longrightarrow> find_component d i \<noteq> None"
  by (auto simp: find_component_def map_of_eq_None_iff image_image simp del: not_None_eq)

lemma graph_edges: "edges (interaction_graph d) = {(s, t). (s, t) \<in> spread d \<and> find_component d s \<noteq> None \<and> find_component d t \<noteq> None}"
  unfolding interaction_graph_def add_edges_fold by (auto simp: spread_def edges_def [of "\<lambda>_. []"])

lemma graph_keys_cover: "interaction_graph d n \<noteq> [] \<Longrightarrow> n \<in> set (graph_keys d)"
proof -
  assume n: "interaction_graph d n \<noteq> []"
  then obtain t where "(n, t) \<in> edges (interaction_graph d)" by (cases "interaction_graph d n") (auto simp: edges_def)
  then have "n \<in> inSourceComponentID ` set (rdInteractions d)" by (auto simp: graph_edges spread_def)
  with n show ?thesis by (simp add: graph_keys_def)
qed

lemma ValidateInteractions_total: "ValidateInteractions r d =
    Some (concat (map (interaction_checks r d) (enumerate 0 (rdInteractions d))) @
      (if cyclic (interaction_graph d) then [Issue ''REPORT_INTERACTION_CYCLE'' ([], ''interactions'')] else []))"
  by (simp add: ValidateInteractions_def cycle_decided graph_keys_cover)

lemma finite_spread: "finite (spread d)"
proof (rule finite_subset)
  show "spread d \<subseteq> set (map inSourceComponentID (rdInteractions d)) \<times> set (concat (map inTargetComponentIDs (rdInteractions d)))"
    by (auto simp: spread_def)
qed simp

text \<open>What an interaction without an issue of its own satisfies.\<close>

definition executable :: "Registry \<Rightarrow> ReportDefinition \<Rightarrow> Interaction \<Rightarrow> bool" where
  "executable r d i \<longleftrightarrow> (\<forall>t\<in>set (inTargetComponentIDs i). \<exists>c. find_component d t = Some c \<and> cpID c = t \<and>
     supports r c (requiredActionKind (inAction i)) \<and>
     (narrowsTarget (inAction i) \<longrightarrow> (\<forall>b. cpDataBinding c = Some b \<longrightarrow> bdBindingMode b \<noteq> BindingSemanticIR)))"

lemma interaction_checks_empty:
  assumes "interaction_checks r d (k, i) = []"
  shows "executable r d i"
  unfolding executable_def
proof
  fix t assume t: "t \<in> set (inTargetComponentIDs i)"
  from assms obtain source where "find_component d (inSourceComponentID i) = Some source"
    by (auto simp: interaction_checks_def split: option.splits)
  with assms t have tc: "target_checks r k i source (find_component d t) = []"
    by (auto simp: interaction_checks_def)
  then obtain c where c: "find_component d t = Some c" by (auto simp: target_checks_def split: option.splits)
  moreover from this have "cpID c = t" using find_component_Some by blast
  ultimately show "\<exists>c. find_component d t = Some c \<and> cpID c = t \<and> supports r c (requiredActionKind (inAction i)) \<and>
     (narrowsTarget (inAction i) \<longrightarrow> (\<forall>b. cpDataBinding c = Some b \<longrightarrow> bdBindingMode b \<noteq> BindingSemanticIR))"
    using tc by (auto simp: target_checks_def split: if_splits option.splits)
qed

lemma no_target_missing:
  assumes "interaction_resolves d i"
  shows "Issue ''REPORT_INTERACTION_TARGET_MISSING'' q \<notin> set (interaction_checks r d (k, i))"
proof -
  have "find_component d (inSourceComponentID i) \<noteq> None" "\<forall>t\<in>set (inTargetComponentIDs i). find_component d t \<noteq> None"
    using assms find_component_known unfolding interaction_resolves_def by (fastforce simp del: set_map)+
  then show ?thesis by (auto simp: interaction_checks_def target_checks_def split: if_splits option.splits)
qed

lemma checks_no_cycle: "Issue ''REPORT_INTERACTION_CYCLE'' q \<notin> set (interaction_checks r d (k, i))"
  by (auto simp: interaction_checks_def target_checks_def split: option.splits if_splits)

text \<open>C34: on a definition that passes \<open>Validate\<close>, the interaction check finds no missing end,
  and it reports a cycle exactly when some component reaches itself along interactions; without
  any issue, propagation terminates (no component can be followed for ever), and every
  interaction acts on existing components that support its action, none of them pinned to a
  semantic query when the action would narrow it.\<close>

theorem interactions_checked:
  assumes v: "definition_valid env d"
  shows "\<exists>issues. ValidateInteractions r d = Some issues \<and>
    (\<forall>q. Issue ''REPORT_INTERACTION_TARGET_MISSING'' q \<notin> set issues) \<and>
    ((\<exists>q. Issue ''REPORT_INTERACTION_CYCLE'' q \<in> set issues) \<longleftrightarrow> (\<exists>x. (x, x) \<in> (spread d)\<^sup>+)) \<and>
    (issues = [] \<longrightarrow> wf ((spread d)\<inverse>) \<and> list_all (executable r d) (rdInteractions d))"
proof (intro exI conjI allI impI)
  let ?checks = "concat (map (interaction_checks r d) (enumerate 0 (rdInteractions d)))"
  let ?cycle = "if cyclic (interaction_graph d) then [Issue ''REPORT_INTERACTION_CYCLE'' ([], ''interactions'')] else []"
  show "ValidateInteractions r d = Some (?checks @ ?cycle)" by (rule ValidateInteractions_total)
  have ir: "interaction_resolves d i" if "i \<in> set (rdInteractions d)" for i
    using resolves_if_valid [OF v] that by (simp add: references_resolve_def list_all_iff)
  show "Issue ''REPORT_INTERACTION_TARGET_MISSING'' q \<notin> set (?checks @ ?cycle)" for q
    using no_target_missing [OF ir, of _ q r] by (auto dest!: in_enumerate)
  have "find_component d s \<noteq> None \<and> find_component d t \<noteq> None" if "(s, t) \<in> spread d" for s t
    using that ir find_component_known unfolding spread_def interaction_resolves_def
    by (fastforce simp del: set_map)
  then have spread: "edges (interaction_graph d) = spread d" by (auto simp: graph_edges)
  show cyc: "(\<exists>q. Issue ''REPORT_INTERACTION_CYCLE'' q \<in> set (?checks @ ?cycle)) \<longleftrightarrow> (\<exists>x. (x, x) \<in> (spread d)\<^sup>+)"
    using checks_no_cycle by (auto simp: cyclic_def spread)
  show "wf ((spread d)\<inverse>)" if empty: "?checks @ ?cycle = []"
  proof (rule finite_acyclic_wf_converse [OF finite_spread])
    show "acyclic (spread d)" using empty cyc by (simp add: acyclic_def)
  qed
  show "list_all (executable r d) (rdInteractions d)" if empty: "?checks @ ?cycle = []"
    unfolding list_all_iff
  proof
    fix i assume "i \<in> set (rdInteractions d)"
    then have "i \<in> snd ` set (enumerate 0 (rdInteractions d))" by (simp flip: set_map)
    then obtain k where "(k, i) \<in> set (enumerate 0 (rdInteractions d))" by auto
    with empty have "interaction_checks r d (k, i) = []" by simp
    then show "executable r d i" by (rule interaction_checks_empty)
  qed
qed

definition click_registry :: Registry where
  "click_registry = \<lparr> rgManifests = [bar_manifest ''1.0.0'' None [''CLICK_FILTER'']], rgMigrators = {} \<rparr>"

theorem interactions_checked_witness:
  "wf ((spread (chart_report 3))\<inverse>) \<and> (''c1'', ''c2'') \<in> spread (chart_report 3)"
proof -
  have "ValidateInteractions click_registry (chart_report 3) = Some []" by code_simp
  with interactions_checked [OF chart_report_valid, of click_registry] show ?thesis
    by (auto simp: spread_def chart_report_def)
qed

end
