(* ===== verification/RowPolicy.thy ===== *)
theory RowPolicy imports Prelude begin

text \<open>
  Row and column policies of \<open>internal/policy/model.go\<close> and \<open>compiler.go\<close>: an expression tree is
  compiled to the text of an SQL condition whose values are all parameters. A value (Go's
  \<open>any\<close>) is of the type parameter \<open>'v\<close>; an expression keeps its type tag as text, as the code does,
  and its raw JSON, which the compiler never reads, is left out.
\<close>

section \<open>Data\<close>

datatype 'v Expression = Expression (exType: string) (exFieldCode: string) (exAttribute: string)
  (exValue: 'v) (exLeft: "'v Expression option") (exRight: "'v Expression option") (exChildren: "'v Expression list")

record 'v RowPolicy =
  rpID :: string
  rpEffect :: string
  rpCombineMode :: string
  rpPriority :: int
  rpVersion :: int
  rpExpression :: "'v Expression"

record 'v UserScope =
  usTenantID :: string
  usUserID :: string
  usAttributes :: "string \<rightharpoonup> 'v"

record MaskRule =
  mrType :: string
  mrPrefixLength :: int
  mrSuffixLength :: int
  mrMaskChar :: string

record ColumnPolicy =
  cpFieldCode :: string
  cpPolicyType :: string
  cpMaskRule :: MaskRule
  cpAllowedAggregations :: "string list"
  cpMinimumGroupSize :: int
  cpDenyDetailExport :: bool
  cpVersion :: int

record QueryContext =
  qcDetail :: bool
  qcExport :: bool
  qcAggregation :: string

record ColumnPlan =
  clProjection :: string
  clHaving :: string

datatype policy_error = InvalidField | MissingAttribute string | MissingOperand | TooFewChildren
  | UnsupportedExpression string | UnsupportedCombineMode | ScopeRequired | ColumnDenied | InvalidMask
  | AggregateOnly | AggregationNotAllowed | UnsupportedColumnPolicy

section \<open>Text\<close>

text \<open>The regular expression \<open>[A-Za-z_][A-Za-z0-9_]*\<close>.\<close>

definition letter_or_underscore :: "char \<Rightarrow> bool" where
  "letter_or_underscore c \<longleftrightarrow> char_between CHR ''A'' CHR ''Z'' c \<or> char_between CHR ''a'' CHR ''z'' c \<or> c = CHR ''_''"

definition field_identifier :: "string \<Rightarrow> bool" where
  "field_identifier s = (case s of [] \<Rightarrow> False
     | c # cs \<Rightarrow> letter_or_underscore c \<and> list_all (\<lambda>d. letter_or_underscore d \<or> char_between CHR ''0'' CHR ''9'' d) cs)"

fun show_nat :: "nat \<Rightarrow> string" where
  "show_nat n = (if n < 10 then [char_of (48 + n)] else show_nat (n div 10) @ [char_of (48 + n mod 10)])"

declare show_nat.simps [simp del]

definition show_int :: "int \<Rightarrow> string" where
  "show_int i = (if i < 0 then ''-'' @ show_nat (nat (- i)) else show_nat (nat i))"

fun join :: "string \<Rightarrow> string list \<Rightarrow> string" where
  "join sep [] = []"
| "join sep [s] = s"
| "join sep (s # ss) = s @ sep @ join sep ss"

definition quoted :: "string \<Rightarrow> string" where "quoted s = [CHR 0x22] @ s @ [CHR 0x22]"

section \<open>Row policies\<close>

text \<open>The compiler appends the values to \<open>args\<close> and refers to them by position.\<close>

definition parameter :: "'v list \<Rightarrow> 'v \<Rightarrow> string \<times> 'v list" where
  "parameter args v = (''$'' @ show_nat (length args + 1), args @ [v])"

definition binary_sql :: "string \<Rightarrow> string \<Rightarrow> string \<Rightarrow> string" where
  "binary_sql ty left right =
     (if ty = ''IN'' then ''('' @ left @ '' = ANY('' @ right @ ''))''
      else ''('' @ left @ (if ty = ''EQUALS'' then '' = '' else '' <> '') @ right @ '')'')"

datatype expression_kind = FieldRef | UserAttributeRef | LiteralValue | BinaryOperator | LogicalOperator | UnknownKind

text \<open>The cases of the switch on the type tag.\<close>

definition expression_kind :: "string \<Rightarrow> expression_kind" where
  "expression_kind ty = (if ty = ''FIELD_REF'' then FieldRef else if ty = ''USER_ATTRIBUTE_REF'' then UserAttributeRef
     else if ty = ''LITERAL'' then LiteralValue
     else if ty = ''EQUALS'' \<or> ty = ''NOT_EQUALS'' \<or> ty = ''IN'' then BinaryOperator
     else if ty = ''AND'' \<or> ty = ''OR'' then LogicalOperator else UnknownKind)"

fun compileExpression :: "(string \<rightharpoonup> 'v) \<Rightarrow> 'v Expression \<Rightarrow> 'v list \<Rightarrow> policy_error + string \<times> 'v list"
  and compileChildren :: "(string \<rightharpoonup> 'v) \<Rightarrow> 'v Expression list \<Rightarrow> 'v list \<Rightarrow> policy_error + string list \<times> 'v list" where
  "compileExpression attrs (Expression ty field attr v left right children) args =
     (case expression_kind ty of
        FieldRef \<Rightarrow> if field_identifier field then Inr (quoted field, args) else Inl InvalidField
      | UserAttributeRef \<Rightarrow> (case attrs attr of None \<Rightarrow> Inl (MissingAttribute attr) | Some x \<Rightarrow> Inr (parameter args x))
      | LiteralValue \<Rightarrow> Inr (parameter args v)
      | BinaryOperator \<Rightarrow> (case left of None \<Rightarrow> Inl MissingOperand | Some l \<Rightarrow>
          (case right of None \<Rightarrow> Inl MissingOperand | Some r \<Rightarrow>
           (case compileExpression attrs l args of Inl e \<Rightarrow> Inl e
            | Inr (ls, args1) \<Rightarrow> (case compileExpression attrs r args1 of Inl e \<Rightarrow> Inl e
                | Inr (rs, args2) \<Rightarrow> Inr (binary_sql ty ls rs, args2)))))
      | LogicalOperator \<Rightarrow> if length children < 2 then Inl TooFewChildren
         else (case compileChildren attrs children args of Inl e \<Rightarrow> Inl e
           | Inr (parts, args') \<Rightarrow> Inr (''('' @ join ('' '' @ ty @ '' '') parts @ '')'', args'))
      | UnknownKind \<Rightarrow> Inl (UnsupportedExpression ty))"
| "compileChildren attrs [] args = Inr ([], args)"
| "compileChildren attrs (e # es) args = (case compileExpression attrs e args of Inl x \<Rightarrow> Inl x
     | Inr (s, args1) \<Rightarrow> (case compileChildren attrs es args1 of Inl x \<Rightarrow> Inl x
         | Inr (ss, args2) \<Rightarrow> Inr (s # ss, args2)))"

record 'v CompiledFilter =
  ciSQL :: string
  ciArgs :: "'v list"

record parts =
  ptAllowAND :: "string list"
  ptAllowOR :: "string list"
  ptDenies :: "string list"

fun compile_policies ::
  "(string \<rightharpoonup> 'v) \<Rightarrow> 'v RowPolicy list \<Rightarrow> parts \<Rightarrow> 'v list \<Rightarrow> policy_error + parts \<times> 'v list" where
  "compile_policies attrs [] ps args = Inr (ps, args)"
| "compile_policies attrs (p # rest) ps args = (case compileExpression attrs (rpExpression p) args of
     Inl e \<Rightarrow> Inl e
   | Inr (sql, args') \<Rightarrow>
       if rpEffect p = ''DENY'' \<or> rpCombineMode p = ''DENY_OVERRIDE''
       then compile_policies attrs rest (ps\<lparr> ptDenies := ptDenies ps @ [sql] \<rparr>) args'
       else if rpCombineMode p = ''AND'' then compile_policies attrs rest (ps\<lparr> ptAllowAND := ptAllowAND ps @ [sql] \<rparr>) args'
       else if rpCombineMode p = ''OR'' then compile_policies attrs rest (ps\<lparr> ptAllowOR := ptAllowOR ps @ [sql] \<rparr>) args'
       else Inl UnsupportedCombineMode)"

definition group_sql :: "string \<Rightarrow> string \<Rightarrow> string list \<Rightarrow> string list" where
  "group_sql start sep ss = (if ss = [] then [] else [start @ ''('' @ join sep ss @ '')''])"

definition CompileRows :: "'v RowPolicy list \<Rightarrow> 'v UserScope \<Rightarrow> policy_error + 'v CompiledFilter" where
  "CompileRows policies scope =
     (if usTenantID scope = [] \<or> usUserID scope = [] then Inl ScopeRequired
      else (case compile_policies (usAttributes scope) (sort_slice (lt_on rpPriority) policies)
                \<lparr> ptAllowAND = [], ptAllowOR = [], ptDenies = [] \<rparr> [] of
         Inl e \<Rightarrow> Inl e
       | Inr (ps, args) \<Rightarrow>
           (let parts = group_sql [] '' AND '' (ptAllowAND ps) @ group_sql [] '' OR '' (ptAllowOR ps) @
                  group_sql ''NOT '' '' OR '' (ptDenies ps) in
            if parts = [] then Inr \<lparr> ciSQL = ''TRUE'', ciArgs = [] \<rparr>
            else Inr \<lparr> ciSQL = join '' AND '' parts, ciArgs = args \<rparr>)))"

section \<open>Column policies\<close>

definition to_upper_ascii :: "string \<Rightarrow> string" where
  "to_upper_ascii = map (\<lambda>c. if char_between CHR ''a'' CHR ''z'' c then char_of (of_char c - 32 :: nat) else c)"

fun escape_quotes :: "string \<Rightarrow> string" where
  "escape_quotes [] = []"
| "escape_quotes (c # cs) = (if c = CHR 0x27 then [CHR 0x27, CHR 0x27] else [c]) @ escape_quotes cs"

definition mask_sql :: "string \<Rightarrow> MaskRule \<Rightarrow> string" where
  "mask_sql col r = (let m = if mrMaskChar r = [] then ''*'' else mrMaskChar r in
     ''left('' @ col @ '', '' @ show_int (mrPrefixLength r) @ '') || repeat('' @ [CHR 0x27] @ escape_quotes m @ [CHR 0x27] @
     '', greatest(length('' @ col @ '')-'' @ show_int (wrap64 (mrPrefixLength r + mrSuffixLength r)) @ '', 0)) || right('' @ col @
     '', '' @ show_int (mrSuffixLength r) @ '')'')"

definition CompileColumnPlan :: "string \<Rightarrow> ColumnPolicy option \<Rightarrow> QueryContext \<Rightarrow> policy_error + ColumnPlan" where
  "CompileColumnPlan field policy ctx =
     (if \<not> field_identifier field then Inl InvalidField else
      (case policy of None \<Rightarrow> Inr \<lparr> clProjection = quoted field, clHaving = [] \<rparr>
       | Some p \<Rightarrow>
           if cpPolicyType p = ''ALLOW'' then Inr \<lparr> clProjection = quoted field, clHaving = [] \<rparr>
           else if cpPolicyType p = ''DENY'' then Inl ColumnDenied
           else if cpPolicyType p = ''NULLIFY'' then Inr \<lparr> clProjection = ''NULL'', clHaving = [] \<rparr>
           else if cpPolicyType p = ''HASH'' then
             Inr \<lparr> clProjection = ''encode(digest('' @ quoted field @ ''::text, '' @ [CHR 0x27] @ ''sha256'' @ [CHR 0x27] @
               ''), '' @ [CHR 0x27] @ ''hex'' @ [CHR 0x27] @ '')'', clHaving = [] \<rparr>
           else if cpPolicyType p = ''MASK'' then
             (let r = cpMaskRule p in
              if mrType r \<noteq> ''KEEP_PREFIX_SUFFIX'' \<or> mrPrefixLength r < 0 \<or> mrSuffixLength r < 0 then Inl InvalidMask
              else Inr \<lparr> clProjection = mask_sql (quoted field) r, clHaving = [] \<rparr>)
           else if cpPolicyType p = ''AGGREGATE_ONLY'' then
             (if qcDetail ctx \<or> qcExport ctx \<and> cpDenyDetailExport p then Inl AggregateOnly
              else (case find (\<lambda>a. to_upper_ascii a = to_upper_ascii (qcAggregation ctx)) (cpAllowedAggregations p) of
                 None \<Rightarrow> Inl AggregationNotAllowed
               | Some a \<Rightarrow> Inr \<lparr> clProjection = to_upper_ascii a @ ''('' @ quoted field @ '')'',
                   clHaving = (if cpMinimumGroupSize p > 0 then ''COUNT(*) >= '' @ show_int (cpMinimumGroupSize p) else []) \<rparr>))
           else Inl UnsupportedColumnPolicy))"

definition CompileColumn :: "string \<Rightarrow> ColumnPolicy option \<Rightarrow> QueryContext \<Rightarrow> policy_error + string" where
  "CompileColumn field policy ctx = (case CompileColumnPlan field policy ctx of Inl e \<Rightarrow> Inl e | Inr p \<Rightarrow> Inr (clProjection p))"

end
