(* ===== verification/RowPolicyProperties.thy ===== *)
theory RowPolicyProperties imports RowPolicy begin

text \<open>
  What a compiled row policy means: the SQL text is the rendering of a condition tree, whose
  three-valued truth under the collected arguments is the policies' own; and values never reach
  the text.
\<close>

section \<open>Conditions\<close>

datatype sql = Column string | Param nat | Compare string sql sql | Logic string "sql list"

fun render :: "sql \<Rightarrow> string" where
  "render (Column f) = quoted f"
| "render (Param n) = ''$'' @ show_nat n"
| "render (Compare ty l r) = binary_sql ty (render l) (render r)"
| "render (Logic ty cs) = ''('' @ join ('' '' @ ty @ '' '') (map render cs) @ '')''"

text \<open>
  A database gives meaning to comparisons; a truth value is three-valued, and a value that is not
  a truth value counts as unknown.
\<close>

datatype 'v sql_value = Null | Truth bool | Value 'v

definition truth :: "'v sql_value \<Rightarrow> bool option" where
  "truth x = (case x of Truth b \<Rightarrow> Some b | _ \<Rightarrow> None)"

definition of_truth :: "bool option \<Rightarrow> 'v sql_value" where
  "of_truth b = (case b of None \<Rightarrow> Null | Some x \<Rightarrow> Truth x)"

fun and3 :: "bool option list \<Rightarrow> bool option" where
  "and3 [] = Some True"
| "and3 (b # bs) = (if b = Some False \<or> and3 bs = Some False then Some False
     else if b = Some True \<and> and3 bs = Some True then Some True else None)"

definition not3 :: "bool option \<Rightarrow> bool option" where "not3 = map_option Not"

definition or3 :: "bool option list \<Rightarrow> bool option" where "or3 bs = not3 (and3 (map not3 bs))"

definition logic3 :: "string \<Rightarrow> bool option list \<Rightarrow> bool option" where
  "logic3 ty bs = (if ty = ''AND'' then and3 bs else or3 bs)"

type_synonym 'v database = "string \<Rightarrow> 'v sql_value \<Rightarrow> 'v sql_value \<Rightarrow> bool option"
type_synonym 'v row = "string \<Rightarrow> 'v sql_value"

fun eval :: "'v database \<Rightarrow> 'v row \<Rightarrow> 'v list \<Rightarrow> sql \<Rightarrow> 'v sql_value" where
  "eval db row args (Column f) = row f"
| "eval db row args (Param n) = Value (args ! (n - 1))"
| "eval db row args (Compare ty l r) = of_truth (db ty (eval db row args l) (eval db row args r))"
| "eval db row args (Logic ty cs) = of_truth (logic3 ty (map (\<lambda>c. truth (eval db row args c)) cs))"

text \<open>The meaning of an expression for a user, without any SQL.\<close>

fun meaning :: "'v database \<Rightarrow> 'v row \<Rightarrow> (string \<rightharpoonup> 'v) \<Rightarrow> 'v Expression \<Rightarrow> 'v sql_value" where
  "meaning db row attrs (Expression ty field attr v left right children) =
     (case expression_kind ty of
        FieldRef \<Rightarrow> row field
      | UserAttributeRef \<Rightarrow> (case attrs attr of None \<Rightarrow> Null | Some x \<Rightarrow> Value x)
      | LiteralValue \<Rightarrow> Value v
      | BinaryOperator \<Rightarrow> (case left of None \<Rightarrow> Null | Some l \<Rightarrow> (case right of None \<Rightarrow> Null
          | Some r \<Rightarrow> of_truth (db ty (meaning db row attrs l) (meaning db row attrs r))))
      | LogicalOperator \<Rightarrow> of_truth (logic3 ty (map (\<lambda>c. truth (meaning db row attrs c)) children))
      | UnknownKind \<Rightarrow> Null)"

text \<open>The parameters of a condition all have an argument.\<close>

fun within_args :: "nat \<Rightarrow> sql \<Rightarrow> bool" where
  "within_args n (Column f) \<longleftrightarrow> True"
| "within_args n (Param k) \<longleftrightarrow> 0 < k \<and> k \<le> n"
| "within_args n (Compare ty l r) \<longleftrightarrow> within_args n l \<and> within_args n r"
| "within_args n (Logic ty cs) \<longleftrightarrow> list_all (within_args n) cs"

lemma within_args_mono: "within_args n c \<Longrightarrow> n \<le> m \<Longrightarrow> within_args m c"
  by (induction c) (auto simp: list_all_iff)

lemma eval_more_args: "within_args (length args) c \<Longrightarrow> eval db row (args @ ext) c = eval db row args c"
  by (induction c) (auto simp: list_all_iff nth_append cong: map_cong)

text \<open>A text means an expression when it renders a condition with the expression's truth.\<close>

definition means :: "(string \<rightharpoonup> 'v) \<Rightarrow> 'v Expression \<Rightarrow> 'v list \<Rightarrow> string \<Rightarrow> bool" where
  "means attrs e args s \<longleftrightarrow> (\<exists>c. s = render c \<and> within_args (length args) c \<and>
     (\<forall>db row. eval db row args c = meaning db row attrs e))"

lemma means_more: "means attrs e args s \<Longrightarrow> means attrs e (args @ ext) s"
  unfolding means_def by (metis eval_more_args within_args_mono length_append le_add1)

lemma means_parameter: "means attrs e (args @ [v]) (fst (parameter args v))"
  if "\<And>db row. meaning db row attrs e = Value v"
  unfolding means_def parameter_def using that
  by (intro exI [of _ "Param (length args + 1)"]) (simp add: nth_append)

lemma means_children: "list_all2 (\<lambda>e. means attrs e args) es ss \<Longrightarrow>
   \<exists>cs. ss = map render cs \<and> list_all (within_args (length args)) cs \<and>
     (\<forall>db row. map (eval db row args) cs = map (meaning db row attrs) es)"
proof (induction es ss rule: list_all2_induct)
  case Nil
  then show ?case by simp
next
  case (Cons e es s ss)
  then obtain c cs where "s = render c" "within_args (length args) c" "\<forall>db row. eval db row args c = meaning db row attrs e"
    "ss = map render cs" "list_all (within_args (length args)) cs"
    "\<forall>db row. map (eval db row args) cs = map (meaning db row attrs) es"
    by (auto simp: means_def)
  then show ?case by (intro exI [of _ "c # cs"]) simp
qed

lemma compile_means:
  "compileExpression attrs e args = Inr (s, args') \<Longrightarrow> (\<exists>ext. args' = args @ ext) \<and> means attrs e args' s"
  "compileChildren attrs es args = Inr (ss, args') \<Longrightarrow>
     (\<exists>ext. args' = args @ ext) \<and> list_all2 (\<lambda>e. means attrs e args') es ss"
proof (induction attrs e args and attrs es args arbitrary: s args' and ss args' rule: compileExpression_compileChildren.induct)
  case (1 attrs ty field attr v left right children args)
  show ?case
  proof (cases "expression_kind ty")
    case FieldRef
    with "1.prems" have "s = render (Column field)" "args' = args" by (auto split: if_splits)
    with FieldRef show ?thesis by (auto simp: means_def intro!: exI [of _ "Column field"])
  next
    case UserAttributeRef
    with "1.prems" obtain x where x: "attrs attr = Some x" "s = fst (parameter args x)" "args' = args @ [x]"
      by (auto simp: parameter_def split: option.splits)
    have "means attrs (Expression ty field attr v left right children) args' s"
      unfolding x(2,3) by (rule means_parameter) (simp add: UserAttributeRef x(1))
    with x(3) show ?thesis by simp
  next
    case LiteralValue
    with "1.prems" have x: "s = fst (parameter args v)" "args' = args @ [v]" by (auto simp: parameter_def)
    have "means attrs (Expression ty field attr v left right children) args' s"
      unfolding x by (rule means_parameter) (simp add: LiteralValue)
    with x(2) show ?thesis by simp
  next
    case BinaryOperator
    with "1.prems" obtain l r ls a1 rs where lr: "left = Some l" "right = Some r"
      and c: "compileExpression attrs l args = Inr (ls, a1)" "compileExpression attrs r a1 = Inr (rs, args')"
      and s: "s = binary_sql ty ls rs"
      by (auto split: option.splits sum.splits)
    obtain m1 where a1: "a1 = args @ m1" and ml: "means attrs l a1 ls" using "1.IH"(1) [OF BinaryOperator lr(1,2) c(1)] by blast
    obtain m2 where a2: "args' = a1 @ m2" and mr: "means attrs r args' rs"
      using "1.IH"(2) [OF BinaryOperator lr(1,2) c(1) refl c(2)] by blast
    from means_more [OF ml, of m2] mr obtain x y where "ls = render x" "within_args (length args') x"
      "\<forall>db row. eval db row args' x = meaning db row attrs l" "rs = render y" "within_args (length args') y"
      "\<forall>db row. eval db row args' y = meaning db row attrs r"
      unfolding means_def a2 by blast
    then have "means attrs (Expression ty field attr v left right children) args' s"
      using BinaryOperator lr s by (auto simp: means_def intro!: exI [of _ "Compare ty x y"])
    with a1 a2 show ?thesis by simp
  next
    case LogicalOperator
    with "1.prems" obtain ss where c: "compileChildren attrs children args = Inr (ss, args')"
      and s: "s = ''('' @ join ('' '' @ ty @ '' '') ss @ '')''" and two: "\<not> length children < 2"
      by (auto split: sum.splits if_splits)
    from "1.IH"(3) [OF LogicalOperator two c] obtain ext where ext: "args' = args @ ext"
      and "list_all2 (\<lambda>e. means attrs e args') children ss" by blast
    from means_children [OF this(2)] obtain cs where cs: "ss = map render cs" "list_all (within_args (length args')) cs"
      "\<forall>db row. map (eval db row args') cs = map (meaning db row attrs) children" by blast
    have "map truth (map (eval db row args') cs) = map truth (map (meaning db row attrs) children)" for db row
      using cs(3) by simp
    then have "map (\<lambda>c. truth (eval db row args' c)) cs = map (\<lambda>c. truth (meaning db row attrs c)) children" for db row
      by (simp add: comp_def)
    then have "means attrs (Expression ty field attr v left right children) args' s"
      using LogicalOperator cs s by (auto simp: means_def intro!: exI [of _ "Logic ty cs"])
    with ext show ?thesis by simp
  next
    case UnknownKind
    with "1.prems" show ?thesis by simp
  qed
next
  case (2 attrs args)
  then show ?case by simp
next
  case (3 attrs e es args)
  from "3.prems" obtain s a1 ts where c: "compileExpression attrs e args = Inr (s, a1)"
    "compileChildren attrs es a1 = Inr (ts, args')" and ss: "ss = s # ts"
    by (auto split: sum.splits)
  obtain m1 where a1: "a1 = args @ m1" and me: "means attrs e a1 s" using "3.IH"(1) [OF c(1)] by blast
  obtain m2 where a2: "args' = a1 @ m2" and ms: "list_all2 (\<lambda>e. means attrs e args') es ts"
    using "3.IH"(2) [OF c(1) refl c(2)] by blast
  with a1 ss means_more [OF me, of m2] show ?case by simp
qed

section \<open>Filters\<close>

text \<open>
  The three groups of a compiled filter, how they are written, and the truth SQL gives the text:
  a row is selected when it is true.
\<close>

definition render_filter :: "sql list \<Rightarrow> sql list \<Rightarrow> sql list \<Rightarrow> string" where
  "render_filter as os ds = (let parts =
       (if as = [] then [] else [''('' @ join '' AND '' (map render as) @ '')'']) @
       (if os = [] then [] else [''('' @ join '' OR '' (map render os) @ '')'']) @
       (if ds = [] then [] else [''NOT ('' @ join '' OR '' (map render ds) @ '')'']) in
     if parts = [] then ''TRUE'' else join '' AND '' parts)"

definition eval_filter :: "'v database \<Rightarrow> 'v row \<Rightarrow> 'v list \<Rightarrow> sql list \<Rightarrow> sql list \<Rightarrow> sql list \<Rightarrow> bool option" where
  "eval_filter db row args as os ds = (let t = (\<lambda>c. truth (eval db row args c)) in
     and3 ((if as = [] then [] else [and3 (map t as)]) @ (if os = [] then [] else [or3 (map t os)]) @
       (if ds = [] then [] else [not3 (or3 (map t ds))])))"

definition denies :: "'v RowPolicy \<Rightarrow> bool" where
  "denies p \<longleftrightarrow> rpEffect p = ''DENY'' \<or> rpCombineMode p = ''DENY_OVERRIDE''"

abbreviation policy_truth :: "'v database \<Rightarrow> 'v row \<Rightarrow> (string \<rightharpoonup> 'v) \<Rightarrow> 'v RowPolicy \<Rightarrow> bool option" where
  "policy_truth db row attrs p \<equiv> truth (meaning db row attrs (rpExpression p))"

text \<open>
  Which rows the policies admit, whatever their order: every denial is known not to apply, every
  \<open>AND\<close> policy holds, and some \<open>OR\<close> policy holds if there is one.
\<close>

definition admitted :: "'v database \<Rightarrow> 'v row \<Rightarrow> (string \<rightharpoonup> 'v) \<Rightarrow> 'v RowPolicy set \<Rightarrow> bool" where
  "admitted db row attrs ps \<longleftrightarrow>
     (\<forall>p\<in>ps. denies p \<longrightarrow> policy_truth db row attrs p = Some False) \<and>
     (\<forall>p\<in>ps. \<not> denies p \<and> rpCombineMode p = ''AND'' \<longrightarrow> policy_truth db row attrs p = Some True) \<and>
     ((\<exists>p\<in>ps. \<not> denies p \<and> rpCombineMode p = ''OR'') \<longrightarrow>
      (\<exists>p\<in>ps. \<not> denies p \<and> rpCombineMode p = ''OR'' \<and> policy_truth db row attrs p = Some True))"

definition and_policies :: "'v RowPolicy list \<Rightarrow> 'v RowPolicy list" where
  "and_policies ps = filter (\<lambda>p. \<not> denies p \<and> rpCombineMode p = ''AND'') ps"

definition or_policies :: "'v RowPolicy list \<Rightarrow> 'v RowPolicy list" where
  "or_policies ps = filter (\<lambda>p. \<not> denies p \<and> rpCombineMode p = ''OR'') ps"

definition deny_policies :: "'v RowPolicy list \<Rightarrow> 'v RowPolicy list" where
  "deny_policies ps = filter denies ps"

abbreviation texts_mean :: "(string \<rightharpoonup> 'v) \<Rightarrow> 'v list \<Rightarrow> 'v RowPolicy list \<Rightarrow> string list \<Rightarrow> bool" where
  "texts_mean attrs args ps ss \<equiv> list_all2 (\<lambda>e. means attrs e args) (map rpExpression ps) ss"

lemma texts_mean_ext: "texts_mean attrs args ps ss \<Longrightarrow> texts_mean attrs (args @ ext) ps ss"
  by (erule list_all2_mono) (rule means_more)

lemma compile_policies_mean:
  assumes "compile_policies attrs ps parts args = Inr (parts', args')"
  shows "(\<exists>ext. args' = args @ ext) \<and> (\<exists>as os ds.
     ptAllowAND parts' = ptAllowAND parts @ as \<and> texts_mean attrs args' (and_policies ps) as \<and>
     ptAllowOR parts' = ptAllowOR parts @ os \<and> texts_mean attrs args' (or_policies ps) os \<and>
     ptDenies parts' = ptDenies parts @ ds \<and> texts_mean attrs args' (deny_policies ps) ds)"
  using assms
proof (induction ps arbitrary: parts args)
  case Nil
  then show ?case by (simp add: and_policies_def or_policies_def deny_policies_def)
next
  case (Cons p ps)
  from Cons.prems obtain s a1 where c: "compileExpression attrs (rpExpression p) args = Inr (s, a1)"
    by (auto split: sum.splits)
  obtain e1 where a1: "a1 = args @ e1" and m: "means attrs (rpExpression p) a1 s" using compile_means(1) [OF c] by blast
  show ?case
  proof (cases "denies p")
    case True
    with Cons.prems c have "compile_policies attrs ps (parts\<lparr> ptDenies := ptDenies parts @ [s] \<rparr>) a1 = Inr (parts', args')"
      by (simp add: denies_def)
    from Cons.IH [OF this] obtain e2 as os ds where *: "args' = a1 @ e2"
      "ptAllowAND parts' = ptAllowAND parts @ as" "texts_mean attrs args' (and_policies ps) as"
      "ptAllowOR parts' = ptAllowOR parts @ os" "texts_mean attrs args' (or_policies ps) os"
      "ptDenies parts' = ptDenies parts @ s # ds" "texts_mean attrs args' (deny_policies ps) ds"
      by auto
    with True a1 means_more [OF m, of e2] show ?thesis
      by (simp add: and_policies_def or_policies_def deny_policies_def)
  next
    case False
    with Cons.prems c consider (conj) "rpCombineMode p = ''AND''" | (disj) "rpCombineMode p = ''OR''"
      by (auto simp: denies_def split: if_splits)
    then show ?thesis
    proof cases
      case conj
      with Cons.prems c False have "compile_policies attrs ps (parts\<lparr> ptAllowAND := ptAllowAND parts @ [s] \<rparr>) a1 = Inr (parts', args')"
        by (simp add: denies_def)
      from Cons.IH [OF this] obtain e2 as os ds where *: "args' = a1 @ e2"
        "ptAllowAND parts' = ptAllowAND parts @ s # as" "texts_mean attrs args' (and_policies ps) as"
        "ptAllowOR parts' = ptAllowOR parts @ os" "texts_mean attrs args' (or_policies ps) os"
        "ptDenies parts' = ptDenies parts @ ds" "texts_mean attrs args' (deny_policies ps) ds"
        by auto
      with False conj a1 means_more [OF m, of e2] show ?thesis
        by (simp add: and_policies_def or_policies_def deny_policies_def)
    next
      case disj
      with Cons.prems c False have "compile_policies attrs ps (parts\<lparr> ptAllowOR := ptAllowOR parts @ [s] \<rparr>) a1 = Inr (parts', args')"
        by (simp add: denies_def)
      from Cons.IH [OF this] obtain e2 as os ds where *: "args' = a1 @ e2"
        "ptAllowAND parts' = ptAllowAND parts @ as" "texts_mean attrs args' (and_policies ps) as"
        "ptAllowOR parts' = ptAllowOR parts @ s # os" "texts_mean attrs args' (or_policies ps) os"
        "ptDenies parts' = ptDenies parts @ ds" "texts_mean attrs args' (deny_policies ps) ds"
        by auto
      with False disj a1 means_more [OF m, of e2] show ?thesis
        by (simp add: and_policies_def or_policies_def deny_policies_def)
    qed
  qed
qed

lemma and3_true: "and3 bs = Some True \<longleftrightarrow> (\<forall>b\<in>set bs. b = Some True)"
  by (induction bs) auto

lemma and3_false: "and3 bs = Some False \<longleftrightarrow> (\<exists>b\<in>set bs. b = Some False)"
  by (induction bs) auto

lemma not3_simps [simp]: "not3 x = Some True \<longleftrightarrow> x = Some False" "not3 x = Some False \<longleftrightarrow> x = Some True"
  by (cases x; simp add: not3_def)+

lemma image_member: "y \<in> f ` S \<longleftrightarrow> (\<exists>x\<in>S. f x = y)"
  by auto

lemma or3_true: "or3 bs = Some True \<longleftrightarrow> (\<exists>b\<in>set bs. b = Some True)"
  by (auto simp: or3_def and3_false image_member)

lemma or3_false: "or3 bs = Some False \<longleftrightarrow> (\<forall>b\<in>set bs. b = Some False)"
  by (auto simp: or3_def and3_true image_member)

text \<open>The conditions of a group of policies, and the truth of each.\<close>

lemma group_conditions:
  assumes "texts_mean attrs args ps ss"
  obtains cs where "ss = map render cs" and
    "\<And>db row. map (\<lambda>c. truth (eval db row args c)) cs = map (policy_truth db row attrs) ps"
proof -
  from means_children [OF assms] obtain cs where cs: "ss = map render cs"
    "\<forall>db row. map (eval db row args) cs = map (meaning db row attrs) (map rpExpression ps)" by blast
  have "map (\<lambda>c. truth (eval db row args c)) cs = map (policy_truth db row attrs) ps" for db row
    using arg_cong [OF spec [OF spec [OF cs(2), of db], of row], of "map truth"] by (simp add: comp_def)
  with cs(1) that show thesis by blast
qed

text \<open>C35: a compiled row filter selects exactly the rows the policies admit. The text is the
  rendering of three groups of conditions, and in any database, for any row, their conjunction
  under the collected arguments is true exactly when every denial is known not to apply, every
  \<open>AND\<close> policy holds and, if there are \<open>OR\<close> policies, one of them holds: a
  denial wins over any permission, also when its truth is unknown, and the order and the priorities
  of the policies play no part.\<close>

theorem compiled_rows_admit:
  assumes "CompileRows policies scope = Inr f"
  shows "\<exists>as os ds. ciSQL f = render_filter as os ds \<and>
    (\<forall>db row. eval_filter db row (ciArgs f) as os ds = Some True \<longleftrightarrow>
       admitted db row (usAttributes scope) (set policies))"
proof -
  let ?ps = "sort_slice (lt_on rpPriority) policies"
  let ?attrs = "usAttributes scope"
  from assms obtain parts args where c: "compile_policies ?attrs ?ps \<lparr> ptAllowAND = [], ptAllowOR = [], ptDenies = [] \<rparr> [] = Inr (parts, args)"
    by (auto simp: CompileRows_def split: if_splits sum.splits)
  from compile_policies_mean [OF c] have t: "texts_mean ?attrs args (and_policies ?ps) (ptAllowAND parts)"
    "texts_mean ?attrs args (or_policies ?ps) (ptAllowOR parts)" "texts_mean ?attrs args (deny_policies ?ps) (ptDenies parts)"
    by auto
  obtain as where as: "ptAllowAND parts = map render as"
    "\<And>db row. map (\<lambda>c. truth (eval db row args c)) as = map (policy_truth db row ?attrs) (and_policies ?ps)"
    using group_conditions [OF t(1)] by metis
  obtain os where os: "ptAllowOR parts = map render os"
    "\<And>db row. map (\<lambda>c. truth (eval db row args c)) os = map (policy_truth db row ?attrs) (or_policies ?ps)"
    using group_conditions [OF t(2)] by metis
  obtain ds where ds: "ptDenies parts = map render ds"
    "\<And>db row. map (\<lambda>c. truth (eval db row args c)) ds = map (policy_truth db row ?attrs) (deny_policies ?ps)"
    using group_conditions [OF t(3)] by metis
  have sql: "ciSQL f = render_filter as os ds" and args: "as = [] \<and> os = [] \<and> ds = [] \<or> ciArgs f = args"
    using assms c by (auto simp: CompileRows_def render_filter_def group_sql_def Let_def as(1) os(1) ds(1) split: if_splits)
  have empty: "(as = []) = (and_policies ?ps = [])" "(os = []) = (or_policies ?ps = [])" "(ds = []) = (deny_policies ?ps = [])"
    using arg_cong [OF as(2), of length] arg_cong [OF os(2), of length] arg_cong [OF ds(2), of length] by fastforce+
  have "eval_filter db row (ciArgs f) as os ds = Some True \<longleftrightarrow> admitted db row ?attrs (set policies)" for db row
  proof -
    have "eval_filter db row (ciArgs f) as os ds = eval_filter db row args as os ds"
      using args by (auto simp: eval_filter_def)
    also have "\<dots> = Some True \<longleftrightarrow> (\<forall>p\<in>set (and_policies ?ps). policy_truth db row ?attrs p = Some True) \<and>
        (or_policies ?ps = [] \<or> (\<exists>p\<in>set (or_policies ?ps). policy_truth db row ?attrs p = Some True)) \<and>
        (\<forall>p\<in>set (deny_policies ?ps). policy_truth db row ?attrs p = Some False)"
      unfolding eval_filter_def Let_def as(2) os(2) ds(2) empty
      by (auto simp: and3_true or3_true or3_false image_member)
    also have "\<dots> \<longleftrightarrow> admitted db row ?attrs (set policies)"
      by (auto simp: admitted_def and_policies_def or_policies_def deny_policies_def filter_empty_conv)
    finally show ?thesis .
  qed
  with sql show ?thesis by blast
qed

definition region_policies :: "string RowPolicy list" where
  "region_policies =
     [\<lparr> rpID = ''allow'', rpEffect = ''ALLOW'', rpCombineMode = ''AND'', rpPriority = 2, rpVersion = 1,
        rpExpression = Expression ''EQUALS'' [] [] [] (Some (Expression ''FIELD_REF'' ''region'' [] [] None None []))
          (Some (Expression ''USER_ATTRIBUTE_REF'' [] ''region'' [] None None [])) [] \<rparr>,
      \<lparr> rpID = ''deny'', rpEffect = ''DENY'', rpCombineMode = ''OR'', rpPriority = 1, rpVersion = 1,
        rpExpression = Expression ''EQUALS'' [] [] [] (Some (Expression ''FIELD_REF'' ''level'' [] [] None None []))
          (Some (Expression ''LITERAL'' [] [] ''secret'' None None [])) [] \<rparr>]"

definition region_scope :: "string UserScope" where
  "region_scope = \<lparr> usTenantID = ''t'', usUserID = ''u'', usAttributes = [''region'' \<mapsto> ''north''] \<rparr>"

theorem compiled_rows_admit_witness:
  "\<exists>f. CompileRows region_policies region_scope = Inr f \<and> ciArgs f = [''secret'', ''north''] \<and>
     (\<exists>as os ds. ciSQL f = render_filter as os ds \<and>
       (\<forall>db row. eval_filter db row (ciArgs f) as os ds = Some True \<longleftrightarrow>
          admitted db row (usAttributes region_scope) (set region_policies)))"
proof -
  have kinds: "expression_kind ''EQUALS'' = BinaryOperator" "expression_kind ''FIELD_REF'' = FieldRef"
    "expression_kind ''LITERAL'' = LiteralValue" "expression_kind ''USER_ATTRIBUTE_REF'' = UserAttributeRef"
    "field_identifier ''region''" "field_identifier ''level''" by code_simp+
  have "\<exists>f. CompileRows region_policies region_scope = Inr f \<and> ciArgs f = [''secret'', ''north'']"
    by (simp add: CompileRows_def region_policies_def region_scope_def kinds parameter_def lt_on_def group_sql_def Let_def)
  then obtain f where f: "CompileRows region_policies region_scope = Inr f" "ciArgs f = [''secret'', ''north'']" by blast
  show ?thesis using f compiled_rows_admit [OF f(1)] by blast
qed

section \<open>Values and text\<close>

definition map_policy :: "('v \<Rightarrow> 'w) \<Rightarrow> 'v RowPolicy \<Rightarrow> 'w RowPolicy" where
  "map_policy g p = \<lparr> rpID = rpID p, rpEffect = rpEffect p, rpCombineMode = rpCombineMode p,
     rpPriority = rpPriority p, rpVersion = rpVersion p, rpExpression = map_Expression g (rpExpression p) \<rparr>"

definition map_scope :: "('v \<Rightarrow> 'w) \<Rightarrow> 'v UserScope \<Rightarrow> 'w UserScope" where
  "map_scope g s = \<lparr> usTenantID = usTenantID s, usUserID = usUserID s, usAttributes = map_option g \<circ> usAttributes s \<rparr>"

definition map_filter_args :: "('v \<Rightarrow> 'w) \<Rightarrow> 'v CompiledFilter \<Rightarrow> 'w CompiledFilter" where
  "map_filter_args g f = \<lparr> ciSQL = ciSQL f, ciArgs = map g (ciArgs f) \<rparr>"

lemma compile_natural:
  "compileExpression (map_option g \<circ> attrs) (map_Expression g e) (map g args) =
     map_sum id (apsnd (map g)) (compileExpression attrs e args)"
  "compileChildren (map_option g \<circ> attrs) (map (map_Expression g) es) (map g args) =
     map_sum id (apsnd (map g)) (compileChildren attrs es args)"
proof (induction attrs e args and attrs es args rule: compileExpression_compileChildren.induct)
  case (1 attrs ty field attr v left right children args)
  then show ?case
    by (cases "expression_kind ty"; cases left; cases right) (auto simp: parameter_def split: option.splits sum.splits)
next
  case (2 attrs args)
  then show ?case by simp
next
  case (3 attrs e es args)
  then show ?case by (auto split: sum.splits)
qed

lemma compile_policies_natural:
  "compile_policies (map_option g \<circ> attrs) (map (map_policy g) ps) parts (map g args) =
     map_sum id (apsnd (map g)) (compile_policies attrs ps parts args)"
  by (induction ps arbitrary: parts args) (auto simp: map_policy_def compile_natural split: sum.splits)

text \<open>values never reach the SQL text. Replacing every literal of the policies and every
  attribute of the user through any function leaves the outcome (the error, or the text of the
  filter) as it is and replaces the arguments the same way, so no value can change the query.\<close>

theorem values_never_reach_the_text:
  "CompileRows (map (map_policy g) policies) (map_scope g scope) =
     map_sum id (map_filter_args g) (CompileRows policies scope)"
proof -
  have sort: "sort_slice (lt_on rpPriority) (map (map_policy g) policies) = map (map_policy g) (sort_slice (lt_on rpPriority) policies)"
    by (rule sort_slice_map_lt) (simp add: lt_on_def map_policy_def)
  show ?thesis
    using compile_policies_natural [of g "usAttributes scope" "sort_slice (lt_on rpPriority) policies" _ "[]"]
    by (auto simp: CompileRows_def sort map_scope_def map_filter_args_def Let_def split: sum.splits)
qed

end
