(* ===== verification/Sharing.thy ===== *)
theory Sharing imports Prelude InsightWeights begin

text \<open>
  Report shares: \<open>internal/report/sharing\<close> (the service, its Postgres repository and the expiry
  worker), \<open>internal/report/authorization\<close>, and the row-level security, checks and trigger of the
  table \<open>platform.report_shares\<close> (migrations 238, 261, 266), which the repository relies on.

  The table is a list of rows. An identifier is text in the form Postgres prints a UUID in, a time
  is an \<open>int\<close>, 0 being Go's zero time, at the resolution of the database, and a filter
  snapshot is an optional map to decoded JSON values of type \<open>'f\<close>. The tables of users, roles,
  reports and versions, the UUID parser and SHA-256 are given by a \<open>directory\<close>.
\<close>

section \<open>Data\<close>

record Identity =
  idTenant :: ID
  idActor :: ID
  idDomain :: ID

definition identity_valid :: "Identity \<Rightarrow> bool" where
  "identity_valid i \<longleftrightarrow> valid_id (idTenant i) \<and> valid_id (idActor i) \<and> (idDomain i \<noteq> [] \<longrightarrow> valid_id (idDomain i))"

record 'f Record =
  reID :: ID
  reTenantID :: ID
  reReportID :: ID
  reReportVersionID :: ID
  reReportVersionNo :: "int option"
  reType :: string
  rePrincipalID :: ID
  reTokenHash :: string
  reFilterSnapshot :: "(string \<rightharpoonup> 'f) option"
  reCreatedBy :: ID
  reCreatedAt :: go_time
  reExpiresAt :: go_time
  reExpiredAt :: "go_time option"
  reRevokedAt :: "go_time option"

text \<open>
  A row of \<open>report_shares\<close>. The number of the version is not stored; an absent version is the empty
  text (\<open>NULLIF\<close> on the way in, \<open>COALESCE\<close> on the way out).
\<close>

record 'f share_row =
  srRecord :: "'f Record"
  srAccessCount :: int
  srLastAccessed :: "go_time option"

type_synonym 'f share_table = "'f share_row list"

datatype share_error = LoginRequired | NotConfigured | ExternalNotImplemented | TypeInvalid | RequestInvalid
  | Forbidden | ExpiryInvalid | TokenUnavailable | ShareNotFound | ShareExpired | VersionUnavailable
  | StoreFailure | StoreNotFound | VersionLoadFailure | CacheFailure

text \<open>
  The context of a transaction: its tenant, and the user unless it runs in \<open>SYSTEM\<close> mode
  (\<open>WithTenantTx\<close>). Permissions on reports (\<open>report_v2_can_access\<close>) depend on it.
\<close>

record session =
  seTenant :: ID
  seUser :: "ID option"
  seDomain :: ID

record directory =
  dirUUID :: "string \<Rightarrow> bool"
  dirHash :: "string \<Rightarrow> string"
  dirCanAccess :: "session \<Rightarrow> ID \<Rightarrow> string list \<Rightarrow> bool"
  dirUser :: "ID \<Rightarrow> ID \<Rightarrow> bool"
  dirActiveUser :: "ID \<Rightarrow> ID \<Rightarrow> bool"
  dirActiveRole :: "ID \<Rightarrow> ID \<Rightarrow> bool"
  dirAssigned :: "ID \<Rightarrow> ID \<Rightarrow> ID \<Rightarrow> bool"
  dirReport :: "ID \<Rightarrow> ID \<Rightarrow> bool"
  dirVersion :: "ID \<Rightarrow> ID \<Rightarrow> ID \<Rightarrow> bool"
  dirVersionNo :: "session \<Rightarrow> ID \<Rightarrow> ID \<Rightarrow> int option"

definition user_session :: "Identity \<Rightarrow> session" where
  "user_session i = \<lparr> seTenant = idTenant i, seUser = (if idActor i = [] then None else Some (idActor i)), seDomain = idDomain i \<rparr>"

definition system_session :: "ID \<Rightarrow> session" where
  "system_session tenant = \<lparr> seTenant = tenant, seUser = None, seDomain = [] \<rparr>"

section \<open>The table\<close>

subsection \<open>Policies\<close>

definition current_user :: "session \<Rightarrow> ID \<Rightarrow> bool" where "current_user ses u \<longleftrightarrow> seUser ses = Some u"
definition is_system_access :: "session \<Rightarrow> bool" where "is_system_access ses \<longleftrightarrow> seUser ses = None"

definition group_member :: "directory \<Rightarrow> ID \<Rightarrow> ID \<Rightarrow> ID option \<Rightarrow> bool" where
  "group_member D tenant role user = (case user of None \<Rightarrow> False
     | Some u \<Rightarrow> dirAssigned D tenant u role \<and> dirActiveRole D tenant role)"

text \<open>The policies \<open>report_shares_read\<close> and \<open>report_shares_update\<close> have the same condition.\<close>

definition report_shares_read :: "directory \<Rightarrow> session \<Rightarrow> 'f share_row \<Rightarrow> bool" where
  "report_shares_read D ses r = (let s = srRecord r in
     reTenantID s = seTenant ses \<and> dirCanAccess D ses (reReportID s) [''VIEW'', ''EDIT'', ''PUBLISH''] \<and>
     (is_system_access ses \<or> current_user ses (reCreatedBy s) \<or>
      reType s = ''INTERNAL_USER'' \<and> current_user ses (rePrincipalID s) \<or>
      reType s = ''INTERNAL_GROUP'' \<and> group_member D (reTenantID s) (rePrincipalID s) (seUser ses)))"

definition report_shares_create :: "directory \<Rightarrow> session \<Rightarrow> 'f share_row \<Rightarrow> bool" where
  "report_shares_create D ses r = (let s = srRecord r in
     reTenantID s = seTenant ses \<and> (is_system_access ses \<or> current_user ses (reCreatedBy s)) \<and>
     dirCanAccess D ses (reReportID s) [''EDIT'', ''PUBLISH''])"

subsection \<open>Checks and trigger\<close>

definition day :: int where "day = 24 * 60 * 60 * 1000000000"

definition share_types :: "string list" where
  "share_types = [''INTERNAL_USER'', ''INTERNAL_GROUP'', ''EXTERNAL_ACCOUNT'']"

text \<open>The \<open>CHECK\<close> constraints.\<close>

definition row_checks :: "'f share_row \<Rightarrow> bool" where
  "row_checks r = (let s = srRecord r in
     reType s \<in> set share_types \<and> valid_hash (reTokenHash s) \<and> srAccessCount r \<ge> 0 \<and>
     reExpiresAt s > reCreatedAt s \<and> reExpiresAt s \<le> reCreatedAt s + 180 * day \<and>
     (case reRevokedAt s of None \<Rightarrow> True | Some t \<Rightarrow> t \<ge> reCreatedAt s) \<and>
     (case reExpiredAt s of None \<Rightarrow> True | Some t \<Rightarrow> t \<ge> reExpiresAt s) \<and>
     (case srLastAccessed r of None \<Rightarrow> True | Some t \<Rightarrow> t \<ge> reCreatedAt s))"

definition foreign_keys :: "directory \<Rightarrow> 'f share_row \<Rightarrow> bool" where
  "foreign_keys D r = (let s = srRecord r in
     dirReport D (reTenantID s) (reReportID s) \<and>
     (reReportVersionID s \<noteq> [] \<longrightarrow> dirVersion D (reTenantID s) (reReportID s) (reReportVersionID s)) \<and>
     dirUser D (reTenantID s) (reCreatedBy s))"

definition report_share_principal_valid :: "directory \<Rightarrow> ID \<Rightarrow> string \<Rightarrow> ID \<Rightarrow> bool" where
  "report_share_principal_valid D tenant ty p \<longleftrightarrow>
     (if ty = ''INTERNAL_USER'' then dirActiveUser D tenant p
      else if ty = ''INTERNAL_GROUP'' then dirActiveRole D tenant p
      else ty = ''EXTERNAL_ACCOUNT'')"

definition guard_insert :: "directory \<Rightarrow> 'f share_row \<Rightarrow> bool" where
  "guard_insert D r = (let s = srRecord r in
     srAccessCount r = 0 \<and> srLastAccessed r = None \<and> reRevokedAt s = None \<and> reExpiredAt s = None \<and>
     report_share_principal_valid D (reTenantID s) (reType s) (rePrincipalID s))"

text \<open>What the trigger keeps fixed: all but the two terminal times and the access counters.\<close>

definition fixed_part :: "'f share_row \<Rightarrow> 'f Record" where
  "fixed_part r = (srRecord r)\<lparr> reExpiredAt := None, reRevokedAt := None \<rparr>"

definition guard_update :: "session \<Rightarrow> go_time \<Rightarrow> 'f share_row \<Rightarrow> 'f share_row \<Rightarrow> bool" where
  "guard_update ses clock old new = (let p = srRecord old; q = srRecord new;
       same_use = (srAccessCount new = srAccessCount old \<and> srLastAccessed new = srLastAccessed old) in
     fixed_part new = fixed_part old \<and>
     (reRevokedAt p = None \<and> reRevokedAt q \<noteq> None \<and> reExpiredAt q = reExpiredAt p \<and> same_use \<and>
        (is_system_access ses \<or> current_user ses (reCreatedBy p)) \<or>
      reExpiredAt p = None \<and> (case reExpiredAt q of None \<Rightarrow> False | Some t \<Rightarrow> t \<ge> reExpiresAt p) \<and>
        reRevokedAt q = reRevokedAt p \<and> same_use \<and> is_system_access ses \<or>
      reRevokedAt p = None \<and> reExpiredAt p = None \<and> clock < reExpiresAt p \<and>
        reRevokedAt q = None \<and> reExpiredAt q = None \<and> srAccessCount new = srAccessCount old + 1 \<and>
        (case srLastAccessed new of None \<Rightarrow> False
         | Some t \<Rightarrow> t \<ge> (case srLastAccessed old of None \<Rightarrow> reCreatedAt p | Some u \<Rightarrow> u) \<and> t \<le> clock + 60 * 1000000000)))"

subsection \<open>Statements\<close>

text \<open>
  An \<open>UPDATE\<close> sees the rows its condition selects among the readable ones. Each new row passes
  the trigger, the policy and the checks, or the statement fails as a whole.
\<close>

fun update_rows :: "('r \<Rightarrow> bool) \<Rightarrow> ('r \<Rightarrow> 'r \<Rightarrow> bool) \<Rightarrow> ('r \<Rightarrow> 'r) \<Rightarrow> 'r list \<Rightarrow> ('r list \<times> nat) option" where
  "update_rows sel ok f [] = Some ([], 0)"
| "update_rows sel ok f (r # rs) = (case update_rows sel ok f rs of None \<Rightarrow> None
     | Some (rs', n) \<Rightarrow> if sel r then (if ok r (f r) then Some (f r # rs', Suc n) else None) else Some (r # rs', n))"

definition update_shares ::
  "directory \<Rightarrow> session \<Rightarrow> go_time \<Rightarrow> ('f share_row \<Rightarrow> bool) \<Rightarrow> ('f share_row \<Rightarrow> 'f share_row) \<Rightarrow> 'f share_table \<Rightarrow>
     ('f share_table \<times> nat) option" where
  "update_shares D ses clock sel =
     update_rows (\<lambda>r. report_shares_read D ses r \<and> sel r)
       (\<lambda>old new. guard_update ses clock old new \<and> report_shares_read D ses new \<and> row_checks new)"

definition insert_share :: "directory \<Rightarrow> session \<Rightarrow> 'f share_row \<Rightarrow> 'f share_table \<Rightarrow> 'f share_table option" where
  "insert_share D ses r db =
     (if guard_insert D r \<and> report_shares_create D ses r \<and> row_checks r \<and> foreign_keys D r \<and>
         \<not> list_ex (\<lambda>q. reID (srRecord q) = reID (srRecord r) \<or> reTokenHash (srRecord q) = reTokenHash (srRecord r)) db
      then Some (db @ [r]) else None)"

section \<open>The repository\<close>

definition request_ok :: "directory \<Rightarrow> Identity \<Rightarrow> ID list \<Rightarrow> bool" where
  "request_ok D i ids \<longleftrightarrow> identity_valid i \<and> list_all (dirUUID D) ids"

definition repo_create :: "directory \<Rightarrow> Identity \<Rightarrow> 'f Record \<Rightarrow> 'f share_table \<Rightarrow> share_error + 'f share_table" where
  "repo_create D i s db =
     (if \<not> request_ok D i [reID s, reReportID s] then Inl StoreFailure
      else if reTenantID s \<noteq> idTenant i \<or> reCreatedBy s \<noteq> idActor i \<or>
        reReportVersionID s \<noteq> [] \<and> \<not> dirUUID D (reReportVersionID s) then Inl StoreFailure
      else (case insert_share D (user_session i)
          \<lparr> srRecord = s\<lparr> reReportVersionNo := None, reExpiredAt := None, reRevokedAt := None \<rparr>,
             srAccessCount = 0, srLastAccessed = None \<rparr> db of
        None \<Rightarrow> Inl StoreFailure | Some db' \<Rightarrow> Inr db'))"

definition read_record :: "directory \<Rightarrow> session \<Rightarrow> 'f share_row \<Rightarrow> 'f Record" where
  "read_record D ses r = (let s = srRecord r in
     s\<lparr> reReportVersionNo := (if reReportVersionID s = [] then None else dirVersionNo D ses (reReportID s) (reReportVersionID s)) \<rparr>)"

definition repo_find :: "directory \<Rightarrow> Identity \<Rightarrow> string \<Rightarrow> 'f share_table \<Rightarrow> 'f Record option" where
  "repo_find D i h db =
     (if \<not> request_ok D i [] \<or> length h \<noteq> 64 then None
      else map_option (read_record D (user_session i))
        (find (\<lambda>r. report_shares_read D (user_session i) r \<and> reTokenHash (srRecord r) = h) db))"

definition list_order :: "'f share_row \<Rightarrow> 'f share_row \<Rightarrow> bool" where
  "list_order x y = (let a = srRecord x; b = srRecord y in
     reCreatedAt a > reCreatedAt b \<or> reCreatedAt a = reCreatedAt b \<and> reID a > reID b)"

definition repo_list :: "directory \<Rightarrow> Identity \<Rightarrow> ID \<Rightarrow> int \<Rightarrow> 'f share_table \<Rightarrow> share_error + 'f Record list" where
  "repo_list D i report limit db =
     (if \<not> request_ok D i [report] \<or> limit < 1 \<or> limit > 200 then Inl StoreFailure
      else Inr (map (\<lambda>r. (srRecord r)\<lparr> reTokenHash := [], reReportVersionNo := None \<rparr>)
        (take (nat limit) (sort_slice list_order
          (filter (\<lambda>r. report_shares_read D (user_session i) r \<and> reTenantID (srRecord r) = idTenant i \<and>
             reReportID (srRecord r) = report \<and> reCreatedBy (srRecord r) = idActor i) db)))))"

definition repo_revoke :: "directory \<Rightarrow> Identity \<Rightarrow> go_time \<Rightarrow> ID \<Rightarrow> go_time \<Rightarrow> 'f share_table \<Rightarrow> share_error + 'f share_table" where
  "repo_revoke D i clock share now db =
     (if \<not> request_ok D i [share] \<or> now = 0 then Inl StoreFailure
      else (case update_shares D (user_session i) clock
          (\<lambda>r. reID (srRecord r) = share \<and> reCreatedBy (srRecord r) = idActor i \<and> reRevokedAt (srRecord r) = None)
          (\<lambda>r. r\<lparr> srRecord := (srRecord r)\<lparr> reRevokedAt := Some now \<rparr> \<rparr>) db of
        None \<Rightarrow> Inl StoreFailure
      | Some (db', n) \<Rightarrow> if n \<noteq> 1 then Inl StoreNotFound else Inr db'))"

text \<open>
  \<open>clock_timestamp()\<close> advances within the statement: it is read by the condition, by the
  assignment and by the trigger.
\<close>

record db_clock =
  ckWhere :: go_time
  ckSet :: go_time
  ckGuard :: go_time

definition repo_record_access :: "directory \<Rightarrow> Identity \<Rightarrow> db_clock \<Rightarrow> ID \<Rightarrow> go_time \<Rightarrow> 'f share_table \<Rightarrow> share_error + 'f share_table" where
  "repo_record_access D i clock share now db =
     (if \<not> request_ok D i [share] \<or> now = 0 then Inl StoreFailure
      else (case update_shares D (user_session i) (ckGuard clock)
          (\<lambda>r. reID (srRecord r) = share \<and> reRevokedAt (srRecord r) = None \<and> reExpiredAt (srRecord r) = None \<and>
             reExpiresAt (srRecord r) > ckWhere clock)
          (\<lambda>r. r\<lparr> srAccessCount := srAccessCount r + 1, srLastAccessed := Some (ckSet clock) \<rparr>) db of
        None \<Rightarrow> Inl StoreFailure
      | Some (db', n) \<Rightarrow> if n \<noteq> 1 then Inl StoreNotFound else Inr db'))"

subsection \<open>The expiry worker\<close>

definition MaxShareExpiryBatch :: int where "MaxShareExpiryBatch = 500"

definition expiry_order :: "'f share_row \<Rightarrow> 'f share_row \<Rightarrow> bool" where
  "expiry_order x y = (let a = srRecord x; b = srRecord y in
     reExpiresAt a < reExpiresAt b \<or> reExpiresAt a = reExpiresAt b \<and> reID a < reID b)"

definition repo_mark_expired :: "directory \<Rightarrow> go_time \<Rightarrow> ID \<Rightarrow> go_time \<Rightarrow> int \<Rightarrow> 'f share_table \<Rightarrow> share_error + 'f share_table \<times> nat" where
  "repo_mark_expired D clock tenant now limit db =
     (let ses = system_session tenant;
          picked = map (\<lambda>r. reID (srRecord r)) (take (nat limit) (sort_slice expiry_order
            (filter (\<lambda>r. report_shares_read D ses r \<and> reTenantID (srRecord r) = tenant \<and> reRevokedAt (srRecord r) = None \<and>
               reExpiredAt (srRecord r) = None \<and> reExpiresAt (srRecord r) \<le> now) db))) in
      (case update_shares D ses clock (\<lambda>r. reID (srRecord r) \<in> set picked \<and> reTenantID (srRecord r) = tenant)
          (\<lambda>r. r\<lparr> srRecord := (srRecord r)\<lparr> reExpiredAt := Some now \<rparr> \<rparr>) db of
        None \<Rightarrow> Inl StoreFailure | Some x \<Rightarrow> Inr x))"

definition ProcessTenant :: "directory \<Rightarrow> go_time \<Rightarrow> ID \<Rightarrow> go_time \<Rightarrow> int \<Rightarrow> 'f share_table \<Rightarrow> share_error + 'f share_table \<times> nat" where
  "ProcessTenant D clock tenant now limit db =
     (if \<not> dirUUID D tenant \<or> now = 0 \<or> limit < 1 \<or> limit > MaxShareExpiryBatch then Inl StoreFailure
      else repo_mark_expired D clock tenant now limit db)"

section \<open>The service\<close>

text \<open>\<open>PostgresAuthorizer.check\<close>.\<close>

definition report_check :: "directory \<Rightarrow> Identity \<Rightarrow> ID \<Rightarrow> string \<Rightarrow> bool" where
  "report_check D i report action \<longleftrightarrow> identity_valid i \<and> valid_id report \<and> dirCanAccess D (user_session i) report [action]"

record 'c Version =
  veID :: ID
  veContent :: 'c

text \<open>
  The collaborators that may be missing. The repository and the authorizer are the ones above; the
  version loader is a function of the caller.
\<close>

record 'c Service =
  svRepository :: bool
  svAuthorizer :: bool
  svVersions :: "(Identity \<Rightarrow> ID \<Rightarrow> int option \<Rightarrow> 'c Version option) option"
  svCache :: "(Identity \<Rightarrow> ID \<Rightarrow> bool) option"

record 'f CreateRequest =
  crID :: ID
  crReportID :: ID
  crReportVersionID :: ID
  crType :: string
  crPrincipalID :: ID
  crFilterSnapshot :: "(string \<rightharpoonup> 'f) option"
  crExpiresAt :: "go_time option"

definition validateCreate :: "directory \<Rightarrow> Identity \<Rightarrow> 'f CreateRequest \<Rightarrow> bool" where
  "validateCreate D i q \<longleftrightarrow> identity_valid i \<and> dirUUID D (crID q) \<and> dirUUID D (crReportID q) \<and>
     dirUUID D (crPrincipalID q) \<and> (crReportVersionID q \<noteq> [] \<longrightarrow> dirUUID D (crReportVersionID q))"

subsection \<open>Tokens\<close>

text \<open>The unpadded URL encoding of \<open>encoding/base64\<close>.\<close>

definition url_alphabet :: string where
  "url_alphabet = ''ABCDEFGHIJKLMNOPQRSTUVWXYZabcdefghijklmnopqrstuvwxyz0123456789-_''"

fun base64_url :: "nat list \<Rightarrow> nat list" where
  "base64_url [] = []"
| "base64_url [a] = [a div 4, a mod 4 * 16]"
| "base64_url [a, b] = [a div 4, a mod 4 * 16 + b div 16, b mod 16 * 4]"
| "base64_url (a # b # c # rest) =
     a div 4 # (a mod 4 * 16 + b div 16) # (b mod 16 * 4 + c div 64) # c mod 64 # base64_url rest"

text \<open>\<open>random\<close> are the bytes of the random generator, if it does not fail.\<close>

definition newToken :: "string option \<Rightarrow> string option" where
  "newToken random = map_option (\<lambda>bs. map (\<lambda>n. url_alphabet ! n) (base64_url (map of_char bs))) random"

subsection \<open>Operations\<close>

definition CreateShare ::
  "directory \<Rightarrow> 'c Service \<Rightarrow> go_time \<Rightarrow> string option \<Rightarrow> Identity \<Rightarrow> 'f CreateRequest \<Rightarrow> 'f share_table \<Rightarrow>
     share_error + ('f Record \<times> string) \<times> 'f share_table" where
  "CreateShare D sv now random i q db =
     (if idActor i = [] then Inl LoginRequired
      else if \<not> svRepository sv \<or> \<not> svAuthorizer sv then Inl NotConfigured
      else if crType q = ''EXTERNAL_ACCOUNT'' then Inl ExternalNotImplemented
      else if crType q \<noteq> ''INTERNAL_USER'' \<and> crType q \<noteq> ''INTERNAL_GROUP'' then Inl TypeInvalid
      else if \<not> validateCreate D i q then Inl RequestInvalid
      else if \<not> report_check D i (crReportID q) ''EDIT'' then Inl Forbidden
      else (let expires = (case crExpiresAt q of None \<Rightarrow> now + 30 * day | Some t \<Rightarrow> t) in
        if \<not> expires > now \<or> expires > now + 180 * day then Inl ExpiryInvalid
        else (case newToken random of None \<Rightarrow> Inl TokenUnavailable
         | Some tok \<Rightarrow>
             (let s = \<lparr> reID = crID q, reTenantID = idTenant i, reReportID = crReportID q,
                  reReportVersionID = crReportVersionID q, reReportVersionNo = None, reType = crType q,
                  rePrincipalID = crPrincipalID q, reTokenHash = dirHash D tok, reFilterSnapshot = crFilterSnapshot q,
                  reCreatedBy = idActor i, reCreatedAt = now, reExpiresAt = expires, reExpiredAt = None, reRevokedAt = None \<rparr> in
              (case repo_create D i s db of Inl e \<Rightarrow> Inl e | Inr db' \<Rightarrow> Inr ((s, tok), db'))))))"

text \<open>
  \<open>AccessShare\<close> runs two transactions. The first part ends before \<open>RecordAccess\<close>: what happens to
  the table in between is up to other callers.
\<close>

definition access_lookup ::
  "directory \<Rightarrow> 'c Service \<Rightarrow> go_time \<Rightarrow> string \<Rightarrow> Identity \<Rightarrow> 'f share_table \<Rightarrow> share_error + 'f Record \<times> 'c Version" where
  "access_lookup D sv now token viewer db =
     (if idActor viewer = [] then Inl LoginRequired
      else (case svVersions sv of None \<Rightarrow> Inl NotConfigured | Some get_version \<Rightarrow>
       if \<not> svRepository sv \<or> \<not> svAuthorizer sv then Inl NotConfigured
       else (let tok = trim_space token in
        if tok = [] \<or> length tok > 512 \<or> \<not> identity_valid viewer then Inl ShareNotFound
        else (case repo_find D viewer (dirHash D tok) db of None \<Rightarrow> Inl ShareNotFound
         | Some s \<Rightarrow>
             if reRevokedAt s \<noteq> None then Inl ShareNotFound
             else if reExpiredAt s \<noteq> None \<or> \<not> now < reExpiresAt s then Inl ShareExpired
             else if reType s = ''EXTERNAL_ACCOUNT'' then Inl ExternalNotImplemented
             else if reType s = ''INTERNAL_USER'' \<and> rePrincipalID s \<noteq> idActor viewer then Inl ShareNotFound
             else if \<not> report_check D viewer (reReportID s) ''VIEW'' then Inl Forbidden
             else (case get_version viewer (reReportID s) (reReportVersionNo s) of None \<Rightarrow> Inl VersionLoadFailure
               | Some v \<Rightarrow> if reReportVersionID s \<noteq> [] \<and> veID v \<noteq> reReportVersionID s then Inl VersionUnavailable
                   else Inr (s, v))))))"

definition access_commit ::
  "directory \<Rightarrow> db_clock \<Rightarrow> go_time \<Rightarrow> Identity \<Rightarrow> 'f Record \<times> 'c Version \<Rightarrow> 'f share_table \<Rightarrow>
     share_error + ('c Version \<times> (string \<rightharpoonup> 'f) option) \<times> 'f share_table" where
  "access_commit D clock now viewer found db = (case found of (s, v) \<Rightarrow>
     (case repo_record_access D viewer clock (reID s) now db of Inl e \<Rightarrow> Inl e
      | Inr db' \<Rightarrow> Inr ((v, reFilterSnapshot s), db')))"

text \<open>The service reads its clock before the lookup is judged and before the access is recorded.\<close>

definition AccessShare ::
  "directory \<Rightarrow> 'c Service \<Rightarrow> db_clock \<Rightarrow> go_time \<times> go_time \<Rightarrow> string \<Rightarrow> Identity \<Rightarrow> 'f share_table \<Rightarrow>
     share_error + ('c Version \<times> (string \<rightharpoonup> 'f) option) \<times> 'f share_table" where
  "AccessShare D sv clock nows token viewer db = (case access_lookup D sv (fst nows) token viewer db of
       Inl e \<Rightarrow> Inl e | Inr found \<Rightarrow> access_commit D clock (snd nows) viewer found db)"

definition RevokeShare ::
  "directory \<Rightarrow> 'c Service \<Rightarrow> go_time \<Rightarrow> go_time \<Rightarrow> Identity \<Rightarrow> ID \<Rightarrow> 'f share_table \<Rightarrow> share_error option \<times> 'f share_table" where
  "RevokeShare D sv clock now i share db =
     (if idActor i = [] then (Some LoginRequired, db)
      else if \<not> svRepository sv \<or> \<not> identity_valid i \<or> \<not> dirUUID D share then (Some NotConfigured, db)
      else (case repo_revoke D i clock share now db of
        Inl e \<Rightarrow> (Some (if e = StoreNotFound then ShareNotFound else e), db)
      | Inr db' \<Rightarrow> (case svCache sv of None \<Rightarrow> (None, db')
          | Some cache \<Rightarrow> (if cache i share then None else Some CacheFailure, db'))))"

definition ListShares :: "directory \<Rightarrow> 'c Service \<Rightarrow> Identity \<Rightarrow> ID \<Rightarrow> int \<Rightarrow> 'f share_table \<Rightarrow> share_error + 'f Record list" where
  "ListShares D sv i report limit db =
     (if idActor i = [] then Inl LoginRequired
      else if \<not> svRepository sv \<or> \<not> identity_valid i \<or> \<not> dirUUID D report \<or> limit < 1 \<or> limit > 200 then Inl RequestInvalid
      else repo_list D i report limit db)"

end
