(* ===== verification/SharingProperties.thy ===== *)
theory SharingProperties imports Sharing begin

text \<open>
  The life of a share under any interleaving of transactions, who an access succeeds for, and that
  a created share opens for its addressee.
\<close>

section \<open>Statements\<close>

lemma update_rows_Some:
  assumes "update_rows sel ok f rs = Some (rs', n)"
  shows "rs' = map (\<lambda>r. if sel r then f r else r) rs" and "\<forall>r\<in>set rs. sel r \<longrightarrow> ok r (f r)" and "n = length (filter sel rs)"
  using assms by (induction rs arbitrary: rs' n) (auto split: option.splits if_splits)

lemma update_rows_ok:
  "(\<forall>r\<in>set rs. sel r \<longrightarrow> ok r (f r)) \<Longrightarrow>
   update_rows sel ok f rs = Some (map (\<lambda>r. if sel r then f r else r) rs, length (filter sel rs))"
  by (induction rs) auto

text \<open>How a row may change: only the terminal times and the counter, and none of them back.\<close>

definition evolves :: "'f share_row \<Rightarrow> 'f share_row \<Rightarrow> bool" where
  "evolves old new \<longleftrightarrow> fixed_part new = fixed_part old \<and>
     (reRevokedAt (srRecord old) \<noteq> None \<longrightarrow> reRevokedAt (srRecord new) = reRevokedAt (srRecord old)) \<and>
     (reExpiredAt (srRecord old) \<noteq> None \<longrightarrow> reExpiredAt (srRecord new) = reExpiredAt (srRecord old)) \<and>
     srAccessCount old \<le> srAccessCount new"

lemma evolves_refl: "evolves r r"
  by (simp add: evolves_def)

lemma evolves_trans: "evolves p q \<Longrightarrow> evolves q r \<Longrightarrow> evolves p r"
  by (auto simp: evolves_def)

lemma guard_evolves: "guard_update ses clock old new \<Longrightarrow> evolves old new"
  by (auto simp: guard_update_def evolves_def Let_def)

lemma fixed_part_fields:
  assumes "fixed_part new = fixed_part old"
  shows "reID (srRecord new) = reID (srRecord old)" and "reTokenHash (srRecord new) = reTokenHash (srRecord old)"
    and "reExpiresAt (srRecord new) = reExpiresAt (srRecord old)"
  using arg_cong [OF assms, of reID] arg_cong [OF assms, of reTokenHash] arg_cong [OF assms, of reExpiresAt]
  by (simp_all add: fixed_part_def)

definition share_lookup :: "'f share_table \<Rightarrow> ID \<Rightarrow> 'f share_row option" where
  "share_lookup db k = find (\<lambda>r. reID (srRecord r) = k) db"

definition shares_ok :: "'f share_table \<Rightarrow> bool" where
  "shares_ok db \<longleftrightarrow> distinct (map (reID \<circ> srRecord) db) \<and> distinct (map (reTokenHash \<circ> srRecord) db) \<and>
     list_all row_checks db"

lemma share_unique:
  assumes "shares_ok db" and "q \<in> set db" "r \<in> set db"
  shows "reID (srRecord q) = reID (srRecord r) \<Longrightarrow> q = r" and "reTokenHash (srRecord q) = reTokenHash (srRecord r) \<Longrightarrow> q = r"
  using assms by (auto simp: shares_ok_def distinct_map inj_on_def)

lemma find_map_key: "(\<And>r. r \<in> set db \<Longrightarrow> key (g r) = key r) \<Longrightarrow>
   find (\<lambda>r. key r = k) (map g db) = map_option g (find (\<lambda>r. key r = k) db)"
  by (induction db) auto

lemma find_key_mem: "distinct (map key db) \<Longrightarrow> r \<in> set db \<Longrightarrow> find (\<lambda>x. key x = key r) db = Some r"
  by (induction db) (auto simp: image_iff)

lemma find_keyD: "find (\<lambda>x. key x = k) db = Some r \<Longrightarrow> r \<in> set db \<and> key r = k"
  by (induction db) (auto split: if_splits)

text \<open>Every repository statement is one of these.\<close>

definition rows_updated :: "'f share_table \<Rightarrow> 'f share_table \<Rightarrow> bool" where
  "rows_updated db db' \<longleftrightarrow> (\<exists>g. db' = map g db \<and> (\<forall>r\<in>set db. evolves r (g r)) \<and> (list_all row_checks db \<longrightarrow> list_all row_checks db'))"

lemma update_shares_rows:
  assumes "update_shares D ses clock sel f db = Some (db', n)"
  shows "rows_updated db db'"
proof -
  note u = update_rows_Some [OF assms [unfolded update_shares_def]]
  show ?thesis unfolding rows_updated_def
    using u(2) by (intro exI [of _ "\<lambda>r. if report_shares_read D ses r \<and> sel r then f r else r"] conjI)
      (auto simp: u(1) evolves_refl list_all_iff intro: guard_evolves)
qed

lemma rows_updated_lookup:
  assumes "rows_updated db db'" and "share_lookup db k = Some r"
  shows "\<exists>r'. share_lookup db' k = Some r' \<and> evolves r r'"
proof -
  from assms(1) obtain g where g: "db' = map g db" "\<forall>r\<in>set db. evolves r (g r)" by (auto simp: rows_updated_def)
  have "find (\<lambda>r. (reID \<circ> srRecord) r = k) (map g db) = map_option g (find (\<lambda>r. (reID \<circ> srRecord) r = k) db)"
    using g(2) by (intro find_map_key) (auto simp: evolves_def dest: fixed_part_fields)
  with assms(2) g find_keyD [of "reID \<circ> srRecord" k db r] show ?thesis by (auto simp: share_lookup_def)
qed

lemma rows_updated_ok:
  assumes "rows_updated db db'" and "shares_ok db"
  shows "shares_ok db'"
proof -
  from assms(1) obtain g where g: "db' = map g db" "\<forall>r\<in>set db. evolves r (g r)" "list_all row_checks db \<longrightarrow> list_all row_checks db'"
    by (auto simp: rows_updated_def)
  have "map (reID \<circ> srRecord) db' = map (reID \<circ> srRecord) db" "map (reTokenHash \<circ> srRecord) db' = map (reTokenHash \<circ> srRecord) db"
    using g(1,2) by (auto simp: evolves_def dest: fixed_part_fields)
  with assms(2) g(3) show ?thesis by (simp add: shares_ok_def)
qed

lemma insert_share_row: "insert_share D ses r db = Some db' \<Longrightarrow> db' = db @ [r] \<and> row_checks r \<and>
   (\<forall>q\<in>set db. reID (srRecord q) \<noteq> reID (srRecord r) \<and> reTokenHash (srRecord q) \<noteq> reTokenHash (srRecord r))"
  by (auto simp: insert_share_def list_ex_iff split: if_splits)

lemma find_append: "find P (xs @ ys) = (case find P xs of None \<Rightarrow> find P ys | Some x \<Rightarrow> Some x)"
  by (induction xs) auto

lemma insert_share_ok: "insert_share D ses r db = Some db' \<Longrightarrow> shares_ok db \<Longrightarrow> shares_ok db'"
  by (drule insert_share_row) (auto simp: shares_ok_def)

lemma insert_share_lookup: "insert_share D ses r db = Some db' \<Longrightarrow> share_lookup db k = Some q \<Longrightarrow> share_lookup db' k = Some q"
  by (drule insert_share_row) (auto simp: share_lookup_def find_append)

section \<open>Interleaved transactions\<close>

text \<open>
  A step is any transaction of the repository or of the worker that succeeds, for any caller and
  any state of the other tables.
\<close>

inductive share_step :: "'f share_table \<Rightarrow> 'f share_table \<Rightarrow> bool" where
  create: "repo_create D i s db = Inr db' \<Longrightarrow> share_step db db'"
| revoke: "repo_revoke D i clock k now db = Inr db' \<Longrightarrow> share_step db db'"
| record_access: "repo_record_access D i clk k now db = Inr db' \<Longrightarrow> share_step db db'"
| mark_expired: "ProcessTenant D clock tenant now limit db = Inr (db', n) \<Longrightarrow> share_step db db'"

lemma step_cases:
  assumes "share_step db db'"
  shows "rows_updated db db' \<or> (\<exists>D ses r. insert_share D ses r db = Some db')"
  using assms
proof cases
  case (create D i s)
  then show ?thesis by (auto simp: repo_create_def split: if_splits option.splits)
next
  case (revoke D i clock k now)
  then show ?thesis by (auto simp: repo_revoke_def split: if_splits option.splits dest: update_shares_rows)
next
  case (record_access D i clk k now)
  then show ?thesis by (auto simp: repo_record_access_def split: if_splits option.splits dest: update_shares_rows)
next
  case (mark_expired D clock tenant now limit n)
  then show ?thesis
    by (auto simp: ProcessTenant_def repo_mark_expired_def Let_def split: if_splits option.splits dest: update_shares_rows)
qed

lemma step_ok: "share_step db db' \<Longrightarrow> shares_ok db \<Longrightarrow> shares_ok db'"
  using step_cases rows_updated_ok insert_share_ok by metis

lemma steps_ok: "share_step\<^sup>*\<^sup>* db db' \<Longrightarrow> shares_ok db \<Longrightarrow> shares_ok db'"
  by (induction rule: rtranclp_induct) (auto intro: step_ok)

text \<open>A store of keyed entries whose steps keep every entry, changed at most in a given way.\<close>

locale keyed_history =
  fixes step :: "'s \<Rightarrow> 's \<Rightarrow> bool" and entry :: "'s \<Rightarrow> 'k \<Rightarrow> 'r option" and grows :: "'r \<Rightarrow> 'r \<Rightarrow> bool"
  assumes grows_refl: "grows r r"
    and grows_trans: "grows p q \<Longrightarrow> grows q r \<Longrightarrow> grows p r"
    and kept: "step s t \<Longrightarrow> entry s k = Some r \<Longrightarrow> \<exists>r'. entry t k = Some r' \<and> grows r r'"
begin

lemma kept_by_steps:
  assumes "step\<^sup>*\<^sup>* s t" and "entry s k = Some r"
  shows "\<exists>r'. entry t k = Some r' \<and> grows r r'"
  using assms
proof (induction rule: rtranclp_induct)
  case base
  then show ?case using grows_refl by auto
next
  case (step t u)
  then obtain q where "entry t k = Some q" "grows r q" by blast
  with kept [OF step.hyps(2)] grows_trans show ?case by blast
qed

end

lemma step_keeps_rows: "share_step db db' \<Longrightarrow> share_lookup db k = Some r \<Longrightarrow> \<exists>r'. share_lookup db' k = Some r' \<and> evolves r r'"
  using step_cases rows_updated_lookup insert_share_lookup evolves_refl by metis

interpretation shares: keyed_history share_step share_lookup evolves
  by unfold_locales (fact evolves_refl evolves_trans step_keeps_rows)+

section \<open>Access\<close>

definition counted :: "go_time \<Rightarrow> 'f share_row \<Rightarrow> 'f share_row" where
  "counted t r = r\<lparr> srAccessCount := srAccessCount r + 1, srLastAccessed := Some t \<rparr>"

definition access_selects :: "directory \<Rightarrow> session \<Rightarrow> db_clock \<Rightarrow> ID \<Rightarrow> 'f share_row \<Rightarrow> bool" where
  "access_selects D ses clock k r \<longleftrightarrow> report_shares_read D ses r \<and> reID (srRecord r) = k \<and> reRevokedAt (srRecord r) = None \<and>
     reExpiredAt (srRecord r) = None \<and> reExpiresAt (srRecord r) > ckWhere clock"

lemma record_access_row:
  assumes "repo_record_access D i clock k now db = Inr db'"
  shows "\<exists>r\<in>set db. access_selects D (user_session i) clock k r" and
    "db' = map (\<lambda>r. if access_selects D (user_session i) clock k r then counted (ckSet clock) r else r) db"
proof -
  from assms obtain n where "update_shares D (user_session i) (ckGuard clock)
      (\<lambda>r. reID (srRecord r) = k \<and> reRevokedAt (srRecord r) = None \<and> reExpiredAt (srRecord r) = None \<and>
         reExpiresAt (srRecord r) > ckWhere clock)
      (\<lambda>r. r\<lparr> srAccessCount := srAccessCount r + 1, srLastAccessed := Some (ckSet clock) \<rparr>) db = Some (db', n)" "n = 1"
    by (auto simp: repo_record_access_def split: if_splits option.splits)
  note u = update_rows_Some [OF this(1) [unfolded update_shares_def]] and n = this(2)
  show "db' = map (\<lambda>r. if access_selects D (user_session i) clock k r then counted (ckSet clock) r else r) db"
    using u(1) by (simp add: access_selects_def counted_def)
  from u(3) n have "filter (access_selects D (user_session i) clock k) db \<noteq> []" by (auto simp: access_selects_def [abs_def])
  then show "\<exists>r\<in>set db. access_selects D (user_session i) clock k r" by (auto simp: filter_empty_conv)
qed

lemma repo_findD:
  assumes "repo_find D i h db = Some s"
  shows "\<exists>r\<in>set db. report_shares_read D (user_session i) r \<and> reTokenHash (srRecord r) = h \<and>
     s = read_record D (user_session i) r"
proof -
  from assms obtain r where "find (\<lambda>r. report_shares_read D (user_session i) r \<and> reTokenHash (srRecord r) = h) db = Some r"
    "s = read_record D (user_session i) r"
    by (auto simp: repo_find_def split: if_splits)
  then show ?thesis by (auto simp: find_Some_iff)
qed

text \<open>Who a share is for.\<close>

definition addressed_to :: "directory \<Rightarrow> Identity \<Rightarrow> 'f Record \<Rightarrow> bool" where
  "addressed_to D viewer s \<longleftrightarrow>
     reType s = ''INTERNAL_USER'' \<and> rePrincipalID s = idActor viewer \<or>
     reType s = ''INTERNAL_GROUP'' \<and> (reCreatedBy s = idActor viewer \<or>
       dirAssigned D (idTenant viewer) (idActor viewer) (rePrincipalID s) \<and> dirActiveRole D (idTenant viewer) (rePrincipalID s))"

lemma access_lookup_row:
  assumes "access_lookup D sv now token viewer db = Inr (s, v)" and "shares_ok db"
  shows "\<exists>r\<in>set db. s = read_record D (user_session viewer) r \<and> reTokenHash (srRecord r) = dirHash D (trim_space token) \<and>
     reTenantID s = idTenant viewer \<and> now < reExpiresAt s \<and> addressed_to D viewer s \<and>
     report_check D viewer (reReportID s) ''VIEW'' \<and> (reReportVersionID s \<noteq> [] \<longrightarrow> veID v = reReportVersionID s)"
proof -
  let ?ses = "user_session viewer"
  from assms(1) have f: "repo_find D viewer (dirHash D (trim_space token)) db = Some s" and viewer: "idActor viewer \<noteq> []"
    and not_revoked: "reRevokedAt s = None" and not_expired: "reExpiredAt s = None" "now < reExpiresAt s"
    and ty: "reType s \<noteq> ''EXTERNAL_ACCOUNT''" "reType s = ''INTERNAL_USER'' \<Longrightarrow> rePrincipalID s = idActor viewer"
    and check: "report_check D viewer (reReportID s) ''VIEW''" and ver: "reReportVersionID s \<noteq> [] \<longrightarrow> veID v = reReportVersionID s"
    by (auto simp: access_lookup_def Let_def split: if_splits option.splits)
  from repo_findD [OF f] obtain r where r: "r \<in> set db" "report_shares_read D ?ses r"
    "reTokenHash (srRecord r) = dirHash D (trim_space token)" and s: "s = read_record D ?ses r" by blast
  have fields: "reType s = reType (srRecord r)" "reTenantID s = reTenantID (srRecord r)" "rePrincipalID s = rePrincipalID (srRecord r)"
    "reCreatedBy s = reCreatedBy (srRecord r)"
    by (simp_all add: s read_record_def Let_def)
  have "row_checks r" using assms(2) r(1) by (auto simp: shares_ok_def list_all_iff)
  then have "reType s \<in> set share_types" by (simp add: row_checks_def Let_def fields)
  with ty(1) have types: "reType s = ''INTERNAL_USER'' \<or> reType s = ''INTERNAL_GROUP''" by (simp add: share_types_def)
  have "addressed_to D viewer s"
    using types ty(2) r(2) viewer
    by (auto simp: addressed_to_def report_shares_read_def Let_def fields user_session_def current_user_def is_system_access_def group_member_def)
  moreover have "reTenantID s = idTenant viewer"
    using r(2) by (simp add: report_shares_read_def Let_def fields user_session_def)
  ultimately show ?thesis using r(1,3) s not_expired check ver by blast
qed

text \<open>C36: an access that succeeds had the authority to. There is a share in the table whose token is
  the one presented, in the viewer's tenant, neither revoked nor marked expired, not past its deadline
  by the service's clock nor by the database's, addressed to the viewer (as the named user, or as an
  active member of the group or the creator for a group share), and the viewer may view the report;
  the version is the pinned one if one is pinned, and the only effect is one more counted access of
  that share.\<close>

theorem access_requires_authority:
  assumes "shares_ok db" and "AccessShare D sv clock nows token viewer db = Inr ((v, snapshot), db')"
  shows "\<exists>r\<in>set db. reTokenHash (srRecord r) = dirHash D (trim_space token) \<and> reTenantID (srRecord r) = idTenant viewer \<and>
    reRevokedAt (srRecord r) = None \<and> reExpiredAt (srRecord r) = None \<and>
    fst nows < reExpiresAt (srRecord r) \<and> ckWhere clock < reExpiresAt (srRecord r) \<and>
    addressed_to D viewer (srRecord r) \<and> report_check D viewer (reReportID (srRecord r)) ''VIEW'' \<and>
    (reReportVersionID (srRecord r) \<noteq> [] \<longrightarrow> veID v = reReportVersionID (srRecord r)) \<and>
    snapshot = reFilterSnapshot (srRecord r) \<and>
    db' = map (\<lambda>q. if q = r then counted (ckSet clock) r else q) db"
proof -
  from assms(2) obtain s where l: "access_lookup D sv (fst nows) token viewer db = Inr (s, v)"
    and c: "repo_record_access D viewer clock (reID s) (snd nows) db = Inr db'" and snap: "snapshot = reFilterSnapshot s"
    by (auto simp: AccessShare_def access_commit_def split: sum.splits)
  from access_lookup_row [OF l assms(1)] obtain r where r: "r \<in> set db" "s = read_record D (user_session viewer) r"
    and facts: "reTokenHash (srRecord r) = dirHash D (trim_space token)" "reTenantID s = idTenant viewer" "fst nows < reExpiresAt s"
      "addressed_to D viewer s" "report_check D viewer (reReportID s) ''VIEW''" "reReportVersionID s \<noteq> [] \<longrightarrow> veID v = reReportVersionID s"
    by blast
  have id: "reID s = reID (srRecord r)" by (simp add: r(2) read_record_def Let_def)
  have unique: "q = r" if "q \<in> set db" "reID (srRecord q) = reID (srRecord r)" for q
    using share_unique [OF assms(1)] that r(1) by blast
  from record_access_row(1) [OF c] unique id have sel: "access_selects D (user_session viewer) clock (reID s) r"
    by (auto simp: access_selects_def)
  have "db' = map (\<lambda>q. if q = r then counted (ckSet clock) r else q) db"
    unfolding record_access_row(2) [OF c] using sel unique id by (auto simp: access_selects_def)
  with facts sel r snap show ?thesis
    by (intro bexI [of _ r]) (auto simp: read_record_def Let_def addressed_to_def access_selects_def)
qed

section \<open>Revocation\<close>

lemma share_lookup_mem: "share_lookup db k = Some r \<Longrightarrow> r \<in> set db \<and> reID (srRecord r) = k"
  unfolding share_lookup_def by (rule find_keyD)

lemma share_lookup_unique:
  "shares_ok db \<Longrightarrow> share_lookup db k = Some r \<Longrightarrow> q \<in> set db \<Longrightarrow> reID (srRecord q) = k \<Longrightarrow> q = r"
  using share_lookup_mem share_unique(1) by metis

lemma revoke_marks:
  assumes "shares_ok db" and "repo_revoke D i clock k now db = Inr db'"
  shows "\<exists>r'. share_lookup db' k = Some r' \<and> reRevokedAt (srRecord r') = Some now"
proof -
  let ?sel = "\<lambda>r. report_shares_read D (user_session i) r \<and> reID (srRecord r) = k \<and> reCreatedBy (srRecord r) = idActor i \<and>
    reRevokedAt (srRecord r) = None"
  let ?f = "\<lambda>r. r\<lparr> srRecord := (srRecord r)\<lparr> reRevokedAt := Some now \<rparr> \<rparr>"
  from assms(2) obtain n where "update_shares D (user_session i) clock
      (\<lambda>r. reID (srRecord r) = k \<and> reCreatedBy (srRecord r) = idActor i \<and> reRevokedAt (srRecord r) = None) ?f db = Some (db', n)" "n = 1"
    by (auto simp: repo_revoke_def split: if_splits option.splits)
  note u = update_rows_Some [OF this(1) [unfolded update_shares_def]] and n = this(2)
  from u(3) n have "filter ?sel db \<noteq> []" by auto
  then obtain r where r: "r \<in> set db" "?sel r" by (auto simp: filter_empty_conv)
  have l: "share_lookup db k = Some r"
    using find_key_mem [of "reID \<circ> srRecord" db r] assms(1) r by (auto simp: share_lookup_def shares_ok_def)
  have "share_lookup db' k = map_option (\<lambda>r. if ?sel r then ?f r else r) (share_lookup db k)"
    unfolding share_lookup_def u(1) by (rule find_map_key [of _ "reID \<circ> srRecord", unfolded comp_def]) auto
  with l r(2) show ?thesis by auto
qed

lemma revoked_refuses_commit:
  assumes "shares_ok db" and "share_lookup db k = Some r" and "reRevokedAt (srRecord r) \<noteq> None" and "reID s = k"
  shows "\<exists>e. access_commit D clock now viewer (s, v) db = Inl e"
proof (cases "access_commit D clock now viewer (s, v) db")
  case (Inr x)
  then obtain db' where "repo_record_access D viewer clock k now db = Inr db'"
    using assms(4) by (auto simp: access_commit_def split: sum.splits)
  from record_access_row(1) [OF this] share_lookup_unique [OF assms(1,2)] assms(3) show ?thesis
    by (auto simp: access_selects_def)
qed blast

lemma revoked_refuses_access:
  assumes "shares_ok db" and "share_lookup db k = Some r" and "reRevokedAt (srRecord r) \<noteq> None"
    and "dirHash D (trim_space token) = reTokenHash (srRecord r)"
  shows "\<exists>e. AccessShare D sv clock nows token viewer db = Inl e"
proof (cases "access_lookup D sv (fst nows) token viewer db")
  case (Inr x)
  obtain s v where x: "x = (s, v)" by (cases x)
  from access_lookup_row [OF Inr [unfolded x] assms(1)] obtain q where q: "q \<in> set db"
    "s = read_record D (user_session viewer) q" "reTokenHash (srRecord q) = dirHash D (trim_space token)" by blast
  have "q = r"
    using share_unique(2) [OF assms(1) q(1)] q(3) assms(4) share_lookup_mem [OF assms(2)] by simp
  with q(2) share_lookup_mem [OF assms(2)] have "reID s = k" by (simp add: read_record_def Let_def)
  from revoked_refuses_commit [OF assms(1-3) this] Inr x show ?thesis by (auto simp: AccessShare_def)
qed (auto simp: AccessShare_def)

lemma revoke_share_cases:
  assumes "RevokeShare D sv clock now i k db = (outcome, db1)"
  shows "outcome \<in> {None, Some CacheFailure} \<longleftrightarrow> repo_revoke D i clock k now db = Inr db1 \<and> outcome \<noteq> Some LoginRequired \<and> outcome \<noteq> Some NotConfigured"
  using assms
  by (auto simp: RevokeShare_def repo_revoke_def split: if_splits sum.splits option.splits)

text \<open>C37: revocation is final. Once the creator's revocation has gone through (also when
  invalidating the cache then failed), and whatever transactions follow, the row keeps its time of
  revocation, every access with the share's token fails for every viewer, and so does an access that
  had looked the share up before the revocation and only then records itself.\<close>

theorem revocation_is_final:
  assumes "shares_ok db" and "share_lookup db k = Some r"
    and "RevokeShare D sv clock now i k db = (outcome, db1)" and "outcome \<in> {None, Some CacheFailure}"
    and "share_step\<^sup>*\<^sup>* db1 db2"
  shows "(\<exists>r'. share_lookup db2 k = Some r' \<and> reRevokedAt (srRecord r') = Some now) \<and>
    (dirHash D' (trim_space token) = reTokenHash (srRecord r) \<longrightarrow> (\<exists>e. AccessShare D' sv' clk nows token viewer db2 = Inl e)) \<and>
    (reID s = k \<longrightarrow> (\<exists>e. access_commit D' clk now' viewer (s, v) db2 = Inl e))"
proof -
  from revoke_share_cases [OF assms(3)] assms(4) have rv: "repo_revoke D i clock k now db = Inr db1" by blast
  then have ok: "shares_ok db1" using step_ok assms(1) share_step.revoke by blast
  from revoke_marks [OF assms(1) rv] obtain r1 where r1: "share_lookup db1 k = Some r1" "reRevokedAt (srRecord r1) = Some now" by blast
  from shares.kept_by_steps [OF assms(5) r1(1)] r1(2) obtain r2 where r2: "share_lookup db2 k = Some r2"
    "reRevokedAt (srRecord r2) = Some now" and e2: "evolves r1 r2" by (auto simp: evolves_def)
  have "share_step\<^sup>*\<^sup>* db db1" using rv share_step.revoke by blast
  from shares.kept_by_steps [OF this assms(2)] r1(1) e2 have "fixed_part r2 = fixed_part r" by (auto simp: evolves_def)
  then have hash: "reTokenHash (srRecord r2) = reTokenHash (srRecord r)" by (rule fixed_part_fields)
  note ok2 = steps_ok [OF assms(5) ok]
  show ?thesis
  proof (intro conjI impI)
    show "\<exists>r'. share_lookup db2 k = Some r' \<and> reRevokedAt (srRecord r') = Some now" using r2 by blast
  next
    assume "dirHash D' (trim_space token) = reTokenHash (srRecord r)"
    then show "\<exists>e. AccessShare D' sv' clk nows token viewer db2 = Inl e"
      by (intro revoked_refuses_access [OF ok2 r2(1)]) (simp_all add: r2(2) hash)
  next
    assume "reID s = k"
    then show "\<exists>e. access_commit D' clk now' viewer (s, v) db2 = Inl e"
      by (intro revoked_refuses_commit [OF ok2 r2(1)]) (simp_all add: r2(2))
  qed
qed

section \<open>History\<close>

text \<open>C38: whatever transactions run, in any order and for any callers, the table stays consistent
  (no two shares with one identifier or one token, every share with a lifetime of at most 180 days
  and well-ordered times), no share disappears, nothing that identifies or authorizes it ever
  changes, a revoked or expired share stays so with the same time, and its use only grows.\<close>

theorem share_history:
  assumes "share_step\<^sup>*\<^sup>* [] db" and "share_step\<^sup>*\<^sup>* db db'"
  shows "shares_ok db' \<and> (\<forall>k r. share_lookup db k = Some r \<longrightarrow> (\<exists>r'. share_lookup db' k = Some r' \<and> evolves r r'))"
proof -
  have "shares_ok db'" using steps_ok [OF rtranclp_trans [OF assms]] by (simp add: shares_ok_def)
  with shares.kept_by_steps [OF assms(2)] show ?thesis by blast
qed

section \<open>Opening a created share\<close>

lemma url_alphabet_facts: "length url_alphabet = 64" "list_all (\<lambda>c. \<not> space c) url_alphabet"
  by (simp_all add: url_alphabet_def space_def)

lemma base64_url_range: "list_all (\<lambda>n. n < 256) bs \<Longrightarrow> list_all (\<lambda>n. n < 64) (base64_url bs)"
  by (induction bs rule: base64_url.induct) (auto simp: less_mult_imp_div_less)

lemma base64_url_length: "length (base64_url bs) = (4 * length bs + 2) div 3"
  by (induction bs rule: base64_url.induct) auto

lemma trim_space_id: "list_all (\<lambda>c. \<not> space c) s \<Longrightarrow> trim_space s = s"
proof -
  have d: "list_all (\<lambda>c. \<not> space c) t \<Longrightarrow> dropWhile space t = t" for t by (cases t) auto
  assume "list_all (\<lambda>c. \<not> space c) s"
  then show ?thesis by (simp add: trim_space_def d)
qed

lemma newToken_form:
  assumes "newToken (Some bs) = Some tok" and "length bs = 32"
  shows "length tok = 43" and "trim_space tok = tok"
proof -
  let ?ns = "base64_url (map of_char bs)"
  from assms(1) have tok: "tok = map (\<lambda>n. url_alphabet ! n) ?ns" by (simp add: newToken_def)
  then show "length tok = 43" by (simp add: base64_url_length assms(2))
  have "list_all (\<lambda>n. n < 64) ?ns" by (rule base64_url_range) (simp add: list_all_iff)
  then have "list_all (\<lambda>c. \<not> space c) tok"
    using url_alphabet_facts by (auto simp: tok list_all_iff)
  then show "trim_space tok = tok" by (rule trim_space_id)
qed

text \<open>Someone who may open a share of a request, at a time when it is open.\<close>

definition may_open :: "directory \<Rightarrow> Identity \<Rightarrow> Identity \<Rightarrow> 'f CreateRequest \<Rightarrow> bool" where
  "may_open D creator viewer q \<longleftrightarrow> identity_valid viewer \<and> idTenant viewer = idTenant creator \<and>
     (crType q = ''INTERNAL_USER'' \<and> crPrincipalID q = idActor viewer \<or>
      crType q = ''INTERNAL_GROUP'' \<and> dirAssigned D (idTenant viewer) (idActor viewer) (crPrincipalID q) \<and>
        dirActiveRole D (idTenant viewer) (crPrincipalID q)) \<and>
     dirCanAccess D (user_session viewer) (crReportID q) [''VIEW'', ''EDIT'', ''PUBLISH''] \<and>
     report_check D viewer (crReportID q) ''VIEW''"

definition open_at :: "go_time \<Rightarrow> go_time \<Rightarrow> db_clock \<Rightarrow> go_time \<times> go_time \<Rightarrow> bool" where
  "open_at created expires clock nows \<longleftrightarrow> fst nows < expires \<and> snd nows \<noteq> 0 \<and> ckWhere clock < expires \<and>
     ckGuard clock < expires \<and> created \<le> ckSet clock \<and> ckSet clock \<le> ckGuard clock + 60 * 1000000000"

lemma create_share_row:
  assumes "CreateShare D sv now random i q db = Inr ((s, tok), db')"
  shows "db' = db @ [\<lparr> srRecord = s, srAccessCount = 0, srLastAccessed = None \<rparr>]"
    and "row_checks \<lparr> srRecord = s, srAccessCount = 0, srLastAccessed = None \<rparr>"
    and "\<forall>r\<in>set db. reID (srRecord r) \<noteq> reID s \<and> reTokenHash (srRecord r) \<noteq> reTokenHash s"
    and "newToken random = Some tok"
    and "svRepository sv" "svAuthorizer sv" "dirUUID D (crID q)"
    and "s = \<lparr> reID = crID q, reTenantID = idTenant i, reReportID = crReportID q,
        reReportVersionID = crReportVersionID q, reReportVersionNo = None, reType = crType q,
        rePrincipalID = crPrincipalID q, reTokenHash = dirHash D tok, reFilterSnapshot = crFilterSnapshot q,
        reCreatedBy = idActor i, reCreatedAt = now, reExpiresAt = (case crExpiresAt q of None \<Rightarrow> now + 30 * day | Some t \<Rightarrow> t),
        reExpiredAt = None, reRevokedAt = None \<rparr>"
proof -
  from assms have req: "newToken random = Some tok" "svRepository sv" "svAuthorizer sv" "validateCreate D i q"
    and s: "s = \<lparr> reID = crID q, reTenantID = idTenant i, reReportID = crReportID q,
        reReportVersionID = crReportVersionID q, reReportVersionNo = None, reType = crType q,
        rePrincipalID = crPrincipalID q, reTokenHash = dirHash D tok, reFilterSnapshot = crFilterSnapshot q,
        reCreatedBy = idActor i, reCreatedAt = now, reExpiresAt = (case crExpiresAt q of None \<Rightarrow> now + 30 * day | Some t \<Rightarrow> t),
        reExpiredAt = None, reRevokedAt = None \<rparr>"
    and c: "repo_create D i s db = Inr db'"
    by (auto simp: CreateShare_def Let_def split: if_splits option.splits sum.splits)
  have "s\<lparr> reReportVersionNo := None, reExpiredAt := None, reRevokedAt := None \<rparr> = s" by (simp add: s)
  with c have "insert_share D (user_session i) \<lparr> srRecord = s, srAccessCount = 0, srLastAccessed = None \<rparr> db = Some db'"
    by (auto simp: repo_create_def split: if_splits option.splits)
  from insert_share_row [OF this] show "db' = db @ [\<lparr> srRecord = s, srAccessCount = 0, srLastAccessed = None \<rparr>]"
    and "row_checks \<lparr> srRecord = s, srAccessCount = 0, srLastAccessed = None \<rparr>"
    and "\<forall>r\<in>set db. reID (srRecord r) \<noteq> reID s \<and> reTokenHash (srRecord r) \<noteq> reTokenHash s" by auto
  show "newToken random = Some tok" "svRepository sv" "svAuthorizer sv" by fact+
  show "dirUUID D (crID q)" using req(4) by (simp add: validateCreate_def)
  show "s = \<lparr> reID = crID q, reTenantID = idTenant i, reReportID = crReportID q,
        reReportVersionID = crReportVersionID q, reReportVersionNo = None, reType = crType q,
        rePrincipalID = crPrincipalID q, reTokenHash = dirHash D tok, reFilterSnapshot = crFilterSnapshot q,
        reCreatedBy = idActor i, reCreatedAt = now, reExpiresAt = (case crExpiresAt q of None \<Rightarrow> now + 30 * day | Some t \<Rightarrow> t),
        reExpiredAt = None, reRevokedAt = None \<rparr>" by (rule s)
qed

text \<open>An access is recorded when it finds exactly the row it is for.\<close>

lemma record_access_ok:
  assumes "db' = db @ [r]" and "\<forall>x\<in>set db. reID (srRecord x) \<noteq> k" and "request_ok D i [k]" and "now \<noteq> 0"
    and "access_selects D (user_session i) clock k r"
    and "guard_update (user_session i) (ckGuard clock) r (counted (ckSet clock) r)" and "row_checks (counted (ckSet clock) r)"
  shows "\<exists>db''. repo_record_access D i clock k now db' = Inr db''"
proof -
  let ?ses = "user_session i"
  let ?sel = "\<lambda>x. report_shares_read D ?ses x \<and> reID (srRecord x) = k \<and> reRevokedAt (srRecord x) = None \<and>
    reExpiredAt (srRecord x) = None \<and> reExpiresAt (srRecord x) > ckWhere clock"
  have r: "?sel r" using assms(5) by (simp add: access_selects_def)
  then have "report_shares_read D ?ses (counted (ckSet clock) r)" by (simp add: report_shares_read_def counted_def)
  with assms(6,7) r assms(2) have "\<forall>x\<in>set db'. ?sel x \<longrightarrow> guard_update ?ses (ckGuard clock) x (counted (ckSet clock) x) \<and>
      report_shares_read D ?ses (counted (ckSet clock) x) \<and> row_checks (counted (ckSet clock) x)"
    by (auto simp: assms(1))
  from update_rows_ok [where sel = ?sel and f = "counted (ckSet clock)" and
      ok = "\<lambda>x y. guard_update ?ses (ckGuard clock) x y \<and> report_shares_read D ?ses y \<and> row_checks y", OF this]
  have "update_shares D ?ses (ckGuard clock)
      (\<lambda>x. reID (srRecord x) = k \<and> reRevokedAt (srRecord x) = None \<and> reExpiredAt (srRecord x) = None \<and>
         reExpiresAt (srRecord x) > ckWhere clock) (counted (ckSet clock)) db' =
      Some (map (\<lambda>x. if ?sel x then counted (ckSet clock) x else x) db', length (filter ?sel db'))"
    by (simp add: update_shares_def)
  moreover have "filter ?sel db = []" using assms(2) by (auto simp: filter_empty_conv)
  then have "length (filter ?sel db') = 1" using r by (simp add: assms(1))
  ultimately show ?thesis using assms(3,4) by (simp add: repo_record_access_def counted_def [abs_def])
qed

text \<open>C39: a created share opens. With the token that creation returned, the addressee (who may
  view the report, in the creator's tenant) gets the version the loader serves and the filters
  the share was created with, at any time before the deadline.\<close>

theorem created_share_opens:
  assumes "CreateShare D sv now (Some bs) i q db = Inr ((s, tok), db')" and "length bs = 32"
    and "svVersions sv = Some load" and "may_open D i viewer q" and "open_at now (reExpiresAt s) clock nows"
    and "load viewer (crReportID q) (if crReportVersionID q = [] then None
      else dirVersionNo D (user_session viewer) (crReportID q) (crReportVersionID q)) = Some v"
    and "crReportVersionID q \<noteq> [] \<Longrightarrow> veID v = crReportVersionID q"
  shows "\<exists>db''. AccessShare D sv clock nows tok viewer db' = Inr ((v, crFilterSnapshot q), db'')"
proof -
  let ?ses = "user_session viewer"
  define r :: "'a share_row" where "r = \<lparr> srRecord = s, srAccessCount = 0, srLastAccessed = None \<rparr>"
  note row = create_share_row [OF assms(1), folded r_def]
  note s = row(8)
  have tok: "trim_space tok = tok" "length tok = 43" using newToken_form [OF row(4) assms(2)] by simp_all
  have viewer: "identity_valid viewer" "idActor viewer \<noteq> []" "seUser ?ses = Some (idActor viewer)" "seTenant ?ses = idTenant viewer"
    using assms(4) valid_id_nonempty by (auto simp: may_open_def identity_valid_def user_session_def)
  have read: "report_shares_read D ?ses r"
    using assms(4) viewer by (auto simp: may_open_def report_shares_read_def Let_def r_def s current_user_def group_member_def)
  have "find (\<lambda>x. report_shares_read D ?ses x \<and> reTokenHash (srRecord x) = dirHash D tok) db' = Some r"
  proof -
    have "find (\<lambda>x. report_shares_read D ?ses x \<and> reTokenHash (srRecord x) = dirHash D tok) db = None"
      using row(3) by (auto simp: find_None_iff s)
    with read show ?thesis by (simp add: row(1) find_append) (simp add: r_def s)
  qed
  moreover have "length (dirHash D tok) = 64"
    using row(2) by (simp add: row_checks_def r_def s Let_def valid_hash_def)
  ultimately have find: "repo_find D viewer (dirHash D tok) db' = Some (read_record D ?ses r)"
    using viewer(1) by (simp add: repo_find_def request_ok_def)
  have lookup: "access_lookup D sv (fst nows) tok viewer db' = Inr (read_record D ?ses r, v)"
    using assms(3-7) row(5,6) viewer(1,2) tok find
    by (auto simp: access_lookup_def Let_def read_record_def r_def s may_open_def open_at_def)
  have "\<exists>db''. repo_record_access D viewer clock (reID s) (snd nows) db' = Inr db''"
  proof (rule record_access_ok)
    show "db' = db @ [r]" by (rule row(1))
    show "\<forall>x\<in>set db. reID (srRecord x) \<noteq> reID s" using row(3) by blast
    show "request_ok D viewer [reID s]" using viewer(1) row(7) by (simp add: request_ok_def s)
    show "access_selects D ?ses clock (reID s) r" using read assms(5) by (simp add: access_selects_def r_def s open_at_def)
    show "guard_update ?ses (ckGuard clock) r (counted (ckSet clock) r)"
      using assms(5) by (simp add: guard_update_def Let_def counted_def r_def fixed_part_def s open_at_def)
    show "row_checks (counted (ckSet clock) r)"
      using row(2) assms(5) by (simp add: row_checks_def counted_def Let_def r_def s open_at_def)
  qed (use assms(5) in \<open>simp add: open_at_def\<close>)
  then obtain db'' where "repo_record_access D viewer clock (reID s) (snd nows) db' = Inr db''" ..
  with lookup show ?thesis
    by (simp add: AccessShare_def access_commit_def read_record_def Let_def r_def s)
qed

section \<open>An example\<close>

definition alice :: Identity where "alice = \<lparr> idTenant = ''t1'', idActor = ''alice'', idDomain = [] \<rparr>"
definition bob :: Identity where "bob = \<lparr> idTenant = ''t1'', idActor = ''bob'', idDomain = [] \<rparr>"

definition demo_directory :: directory where
  "demo_directory = \<lparr> dirUUID = (\<lambda>s. s \<noteq> []), dirHash = (\<lambda>s. replicate 64 CHR ''a''), dirCanAccess = (\<lambda>ses r as. True),
     dirUser = (\<lambda>t u. True), dirActiveUser = (\<lambda>t u. True), dirActiveRole = (\<lambda>t r. False), dirAssigned = (\<lambda>t u r. False),
     dirReport = (\<lambda>t r. True), dirVersion = (\<lambda>t r v. True), dirVersionNo = (\<lambda>ses r v. Some 3) \<rparr>"

definition demo_version :: "string Version" where "demo_version = \<lparr> veID = ''v3'', veContent = ''content'' \<rparr>"

definition demo_service :: "string Service" where
  "demo_service = \<lparr> svRepository = True, svAuthorizer = True,
     svVersions = Some (\<lambda>i r n. if n = Some 3 then Some demo_version else None), svCache = None \<rparr>"

definition demo_request :: "string CreateRequest" where
  "demo_request = \<lparr> crID = ''s1'', crReportID = ''r1'', crReportVersionID = ''v3'', crType = ''INTERNAL_USER'',
     crPrincipalID = ''bob'', crFilterSnapshot = None, crExpiresAt = Some 2000 \<rparr>"

definition demo_token :: string where "demo_token = replicate 43 CHR ''A''"

definition demo_share :: "string Record" where
  "demo_share = \<lparr> reID = ''s1'', reTenantID = ''t1'', reReportID = ''r1'', reReportVersionID = ''v3'', reReportVersionNo = None,
     reType = ''INTERNAL_USER'', rePrincipalID = ''bob'', reTokenHash = replicate 64 CHR ''a'', reFilterSnapshot = None,
     reCreatedBy = ''alice'', reCreatedAt = 1000, reExpiresAt = 2000, reExpiredAt = None, reRevokedAt = None \<rparr>"

definition demo_row :: "string share_row" where
  "demo_row = \<lparr> srRecord = demo_share, srAccessCount = 0, srLastAccessed = None \<rparr>"

definition demo_clock :: db_clock where "demo_clock = \<lparr> ckWhere = 1500, ckSet = 1501, ckGuard = 1502 \<rparr>"

lemma demo_ids: "identity_valid alice" "identity_valid bob" "valid_id ''r1''" "valid_hash (replicate 64 CHR ''a'')"
  by code_simp+

lemmas demo_ids_unfolded = demo_ids [unfolded alice_def bob_def]

lemma demo_random: "newToken (Some (replicate 32 CHR 0x00)) = Some demo_token"
  by code_simp

lemma demo_trim: "trim_space demo_token = demo_token" "length demo_token = 43" "demo_token \<noteq> []"
  using newToken_form [OF demo_random] by (simp_all add: demo_token_def)

lemmas demo_defs = demo_directory_def demo_service_def demo_request_def demo_share_def demo_row_def demo_version_def
  alice_def bob_def demo_clock_def

lemma demo_row_checks: "row_checks demo_row"
  by (simp add: row_checks_def Let_def demo_row_def demo_share_def share_types_def demo_ids day_def)

lemma demo_ok: "shares_ok [demo_row]" "share_lookup [demo_row] ''s1'' = Some demo_row"
  by (simp_all add: shares_ok_def demo_row_checks share_lookup_def) (simp add: demo_row_def demo_share_def)

lemma demo_check: "report_check demo_directory alice ''r1'' ''EDIT''" "report_check demo_directory bob ''r1'' ''VIEW''"
  by (simp_all add: report_check_def demo_ids) (simp_all add: demo_directory_def)

lemma demo_create: "CreateShare demo_directory demo_service 1000 (Some (replicate 32 CHR 0x00)) alice demo_request [] =
    Inr ((demo_share, demo_token), [demo_row])"
proof -
  have v: "validateCreate demo_directory alice demo_request"
    by (simp add: validateCreate_def demo_ids) (simp add: demo_directory_def demo_request_def)
  have "insert_share demo_directory (user_session alice) demo_row [] = Some [demo_row]"
    by (simp add: insert_share_def demo_row_checks guard_insert_def report_shares_create_def foreign_keys_def Let_def
        report_share_principal_valid_def user_session_def current_user_def)
      (simp add: demo_defs)
  then have r: "repo_create demo_directory alice demo_share [] = Inr [demo_row]"
    by (simp add: repo_create_def request_ok_def demo_ids) (simp add: demo_defs)
  show ?thesis
    using v r demo_check(1)
    by (simp add: CreateShare_def demo_random demo_request_def) (simp add: demo_defs day_def Let_def)
qed

lemma demo_read: "report_shares_read demo_directory (user_session bob) demo_row"
  "report_shares_read demo_directory (user_session alice) demo_row"
  by (simp_all add: report_shares_read_def Let_def user_session_def current_user_def) (simp_all add: demo_defs)

lemma demo_access: "AccessShare demo_directory demo_service demo_clock (1400, 1450) demo_token bob [demo_row] =
    Inr ((demo_version, None), [counted 1501 demo_row])"
proof -
  have h: "dirHash demo_directory demo_token = reTokenHash (srRecord demo_row)" by (simp add: demo_defs)
  have f: "repo_find demo_directory bob (dirHash demo_directory demo_token) [demo_row] =
      Some (read_record demo_directory (user_session bob) demo_row)"
    using demo_read(1) by (simp add: repo_find_def request_ok_def demo_ids h) (simp add: demo_defs)
  have l: "access_lookup demo_directory demo_service 1400 demo_token bob [demo_row] =
      Inr (read_record demo_directory (user_session bob) demo_row, demo_version)"
    using f demo_check(2) demo_trim
    by (simp add: access_lookup_def Let_def demo_ids read_record_def) (simp add: demo_defs demo_ids_unfolded)
  have "repo_record_access demo_directory bob demo_clock ''s1'' 1450 [demo_row] = Inr [counted 1501 demo_row]"
    using demo_read(1)
    by (simp add: repo_record_access_def request_ok_def demo_ids update_shares_def guard_update_def row_checks_def
        share_types_def Let_def fixed_part_def report_shares_read_def counted_def day_def)
      (simp add: demo_defs demo_ids_unfolded)
  with l show ?thesis
    by (simp add: AccessShare_def access_commit_def read_record_def Let_def) (simp add: demo_row_def demo_share_def)
qed

definition demo_revoked :: "string share_row" where
  "demo_revoked = demo_row\<lparr> srRecord := demo_share\<lparr> reRevokedAt := Some 1600 \<rparr> \<rparr>"

lemma demo_revoke: "RevokeShare demo_directory demo_service 1601 1600 alice ''s1'' [demo_row] = (None, [demo_revoked])"
proof -
  have "repo_revoke demo_directory alice 1601 ''s1'' 1600 [demo_row] = Inr [demo_revoked]"
    using demo_read(2)
    by (simp add: repo_revoke_def request_ok_def demo_ids update_shares_def guard_update_def row_checks_def
        share_types_def Let_def fixed_part_def report_shares_read_def day_def demo_revoked_def current_user_def user_session_def)
      (simp add: demo_defs demo_ids_unfolded)
  then show ?thesis
    by (simp add: RevokeShare_def demo_ids) (simp add: demo_defs)
qed

theorem access_requires_authority_witness:
  "\<exists>r\<in>set [demo_row]. reTokenHash (srRecord r) = replicate 64 CHR ''a'' \<and> addressed_to demo_directory bob (srRecord r) \<and>
     [counted 1501 demo_row] = map (\<lambda>q. if q = r then counted 1501 r else q) [demo_row]"
  using access_requires_authority [OF demo_ok(1) demo_access] by (simp add: demo_directory_def demo_clock_def)

theorem revocation_is_final_witness:
  "(\<exists>e. AccessShare demo_directory demo_service demo_clock (1650, 1650) demo_token bob [demo_revoked] = Inl e) \<and>
   (\<exists>e. access_commit demo_directory demo_clock 1650 bob (demo_share, demo_version) [demo_revoked] = Inl e)"
proof -
  have "dirHash demo_directory (trim_space demo_token) = reTokenHash (srRecord demo_row)" "reID demo_share = ''s1''"
    by (simp_all add: demo_defs)
  with revocation_is_final [OF demo_ok demo_revoke _ rtranclp.rtrancl_refl, of demo_directory demo_token demo_service demo_clock
      "(1650, 1650)" bob demo_share 1650 demo_version]
  show ?thesis by simp
qed

lemma demo_steps: "share_step [] [demo_row]" "share_step [demo_row] [demo_revoked]"
proof -
  from create_share_row(1) [OF demo_create] have "repo_create demo_directory alice demo_share [] = Inr [demo_row]"
    using demo_create by (auto simp: CreateShare_def Let_def demo_row_def split: if_splits option.splits sum.splits)
  then show "share_step [] [demo_row]" by (rule share_step.create)
  have "repo_revoke demo_directory alice 1601 ''s1'' 1600 [demo_row] = Inr [demo_revoked]"
    using revoke_share_cases [OF demo_revoke] by simp
  then show "share_step [demo_row] [demo_revoked]" by (rule share_step.revoke)
qed

theorem share_history_witness:
  "\<exists>r'. share_lookup [demo_revoked] ''s1'' = Some r' \<and> evolves demo_row r'"
proof -
  have "share_step\<^sup>*\<^sup>* [] [demo_row]" "share_step\<^sup>*\<^sup>* [demo_row] [demo_revoked]" using demo_steps by blast+
  from share_history [OF this] demo_ok(2) show ?thesis by blast
qed

theorem created_share_opens_witness:
  "CreateShare demo_directory demo_service 1000 (Some (replicate 32 CHR 0x00)) alice demo_request [] = Inr ((demo_share, demo_token), [demo_row]) \<and>
   (\<exists>db. AccessShare demo_directory demo_service demo_clock (1400, 1450) demo_token bob [demo_row] = Inr ((demo_version, None), db))"
proof -
  have "may_open demo_directory alice bob demo_request"
    using demo_check(2) by (simp add: may_open_def demo_ids demo_request_def) (simp add: demo_defs)
  moreover have "open_at 1000 (reExpiresAt demo_share) demo_clock (1400, 1450)" by (simp add: open_at_def demo_defs)
  moreover have "crFilterSnapshot demo_request = None" by (simp add: demo_request_def)
  ultimately show ?thesis
    using created_share_opens [OF demo_create, of "\<lambda>i r n. if n = Some 3 then Some demo_version else None" bob demo_clock "(1400, 1450)" demo_version]
    by (simp add: demo_create) (simp add: demo_defs)
qed

end
