(* ===== verification/ReportImpact.thy ===== *)
theory ReportImpact imports ReportValidate begin

text \<open>
  Impact analysis of reports: the index projection of \<open>internal/report/compiler/index.go\<close>, the
  writes of \<open>internal/report/store/postgres.go\<close> that keep it, and \<open>compiler/impact.go\<close>, which answers
  from it what a changed object affects. The semantic IR of a query is known by the references
  \<open>semantic\<close> reads off it; row-level security is left to the rows a caller passes.
\<close>

section \<open>The index of a definition\<close>

record ComponentIndex =
  ciComponentID :: ID
  ciComponentType :: string
  ciComponentVersion :: string
  ciPageID :: ID
  ciSectionID :: ID
  ciBlockID :: ID
  ciSlotID :: ID
  ciBindingMode :: "BindingMode option"

record DependencyIndex =
  diType :: string
  diID :: string
  diComponentIDs :: "ID list"

record Indexes =
  ixComponents :: "ComponentIndex list"
  ixDependencies :: "DependencyIndex list"

record ir_references =
  irMetrics :: "ID list"
  irGroupBy :: "ID list"
  irFilters :: "(ID \<times> ID list) list"
  irTimeRange :: "ID option"

text \<open>A Go map built by assignments in order keeps the last element of a key.\<close>

definition last_with :: "('a \<Rightarrow> ID) \<Rightarrow> 'a list \<Rightarrow> ID \<Rightarrow> 'a option" where
  "last_with key xs k = find (\<lambda>x. key x = k) (rev xs)"

text \<open>
  The dependencies are collected in a map from the key \<open>type NUL id\<close> to a set of components, here
  an association list without repeated keys.
\<close>

definition dependency_key :: "string \<Rightarrow> string \<Rightarrow> string" where
  "dependency_key ty i = ty @ CHR 0x00 # i"

definition insert_new :: "'a \<Rightarrow> 'a list \<Rightarrow> 'a list" where
  "insert_new x xs = (if x \<in> set xs then xs else xs @ [x])"

fun add_component :: "string \<Rightarrow> ID \<Rightarrow> (string \<times> ID list) list \<Rightarrow> (string \<times> ID list) list" where
  "add_component key c [] = [(key, if c = [] then [] else [c])]"
| "add_component key c ((k, cs) # m) =
     (if k = key then (k, if c = [] then cs else insert_new c cs) # m else (k, cs) # add_component key c m)"

definition addDependency :: "string \<times> string \<times> ID \<Rightarrow> (string \<times> ID list) list \<Rightarrow> (string \<times> ID list) list" where
  "addDependency e m = (case e of (ty, i, c) \<Rightarrow> if trim_space i = [] then m else add_component (dependency_key ty i) c m)"

definition definition_dependencies :: "ReportDefinition \<Rightarrow> (string \<times> string \<times> ID) list" where
  "definition_dependencies d = (let t = rdTemplateRef d; p = rdProvenance d in
     [(''REPORT_TEMPLATE'', trReportTemplateID t @ ''@'' @ trReportTemplateVersion t, []),
      (''STRUCTURE_TEMPLATE'', trStructureTemplateVersion t, []),
      (''LAYOUT_TEMPLATE'', trLayoutTemplateVersion t, []),
      (''NARRATIVE_TEMPLATE'', trNarrativeTemplateVersion t, []),
      (''THEME'', thThemeID (rdThemeRef d) @ ''@'' @ thVersion (rdThemeRef d), [])] @
     map (\<lambda>(m, v). (''ANALYSIS_METHOD'', m @ ''@'' @ v, [])) (pvAnalysisMethodVersions p) @
     map (\<lambda>v. (''PROMPT_VERSION'', v, [])) (pvPromptVersions p) @
     map (\<lambda>v. (''MODEL_POLICY'', v, [])) (pvModelPolicies p) @
     map (\<lambda>x. (''DATASET_VERSION'', dxDatasetVersionID x, [])) (rdDataContexts d))"

definition semantic_dependencies :: "(string \<Rightarrow> ir_references) \<Rightarrow> SemanticQueryRef \<Rightarrow> (string \<times> string) list" where
  "semantic_dependencies semantic r = (let ir = semantic (sqSemanticIR r) in
     (''SEMANTIC_RELEASE'', sqSemanticReleaseID r) #
     (case sqDatasetVersionID r of None \<Rightarrow> [] | Some v \<Rightarrow> [(''DATASET_VERSION'', v)]) @
     map (Pair ''METRIC_VERSION'') (irMetrics ir) @
     map (Pair ''DIMENSION_VERSION'') (irGroupBy ir) @
     concat (map (\<lambda>(dim, members). (''DIMENSION_VERSION'', dim) # map (Pair ''MEMBER_VERSION'') members) (irFilters ir)) @
     (case irTimeRange ir of None \<Rightarrow> [] | Some v \<Rightarrow> [(''DIMENSION_VERSION'', v)]))"

definition binding_dependencies :: "(string \<Rightarrow> ir_references) \<Rightarrow> ReportDefinition \<Rightarrow> DataBinding \<Rightarrow> (string \<times> string) list" where
  "binding_dependencies semantic d b = (case bdBindingMode b of
       BindingDatasetField \<Rightarrow> (case bdDataContextID b of None \<Rightarrow> []
         | Some k \<Rightarrow> (case last_with dxID (rdDataContexts d) k of None \<Rightarrow> []
             | Some x \<Rightarrow> [(''DATASET_VERSION'', dxDatasetVersionID x)]))
     | BindingSemanticIR \<Rightarrow> (case bdSemanticQueryRef b of None \<Rightarrow> []
         | Some r \<Rightarrow> semantic_dependencies semantic r)
     | OtherBindingMode _ \<Rightarrow> [])"

definition component_dependencies ::
  "(string \<Rightarrow> ir_references) \<Rightarrow> ReportDefinition \<Rightarrow> Component \<Rightarrow> (string \<times> string) list" where
  "component_dependencies semantic d c = (let t = cpTemplateRef c in
     (''COMPONENT_TEMPLATE'', ctType t @ ''@'' @ ctVersion t) #
     (case cpDataBinding c of None \<Rightarrow> [] | Some b \<Rightarrow> binding_dependencies semantic d b))"

text \<open>The slots in the order of the nested loops, each with the identifiers above it.\<close>

definition slot_places :: "ReportDefinition \<Rightarrow> (ID \<times> ID \<times> ID \<times> Slot) list" where
  "slot_places d = concat (map (\<lambda>p. concat (map (\<lambda>s. concat (map (\<lambda>b. concat (map (\<lambda>z.
     map (\<lambda>sl. (pgID p, scID s, bkID b, sl)) (znSlots z)) (bkZones b))) (scBlocks s))) (pgSections p))) (rdPages d))"

definition placed_components :: "ReportDefinition \<Rightarrow> ((ID \<times> ID \<times> ID \<times> Slot) \<times> Component) list" where
  "placed_components d = concat (map (\<lambda>place. case place of (_, _, _, sl) \<Rightarrow>
     (case last_with cpID (rdComponents d) (slComponentID sl) of None \<Rightarrow> [] | Some c \<Rightarrow> [(place, c)])) (slot_places d))"

definition component_row :: "(ID \<times> ID \<times> ID \<times> Slot) \<times> Component \<Rightarrow> ComponentIndex" where
  "component_row x = (case x of ((page, sec, block, sl), c) \<Rightarrow>
     \<lparr> ciComponentID = cpID c, ciComponentType = ctType (cpTemplateRef c), ciComponentVersion = ctVersion (cpTemplateRef c),
       ciPageID = page, ciSectionID = sec, ciBlockID = block, ciSlotID = slID sl,
       ciBindingMode = map_option bdBindingMode (cpDataBinding c) \<rparr>)"

fun split_key :: "string \<Rightarrow> string \<times> string" where
  "split_key [] = ([], [])"
| "split_key (c # cs) = (if c = CHR 0x00 then ([], cs) else (case split_key cs of (ty, i) \<Rightarrow> (c # ty, i)))"

definition dependency_calls :: "(string \<Rightarrow> ir_references) \<Rightarrow> ReportDefinition \<Rightarrow> (string \<times> string \<times> ID) list" where
  "dependency_calls semantic d = definition_dependencies d @
     concat (map (\<lambda>(place, c). map (\<lambda>(ty, i). (ty, i, cpID c)) (component_dependencies semantic d c)) (placed_components d))"

definition BuildIndexes :: "(string \<Rightarrow> ir_references) \<Rightarrow> ReportDefinition \<Rightarrow> Indexes" where
  "BuildIndexes semantic d = (let m = fold addDependency (dependency_calls semantic d) [] in
     \<lparr> ixComponents = sort_slice (lt_on ciComponentID) (map component_row (placed_components d)),
       ixDependencies = map (\<lambda>(key, cs). case split_key key of (ty, i) \<Rightarrow>
         \<lparr> diType = ty, diID = i, diComponentIDs = sort_slice (<) cs \<rparr>) (sort_slice (lt_on fst) m) \<rparr>)"

section \<open>The dependency tables\<close>

text \<open>
  The rows of \<open>report_draft_dependencies\<close> (no version) and \<open>report_version_dependencies\<close> of a tenant.
\<close>

record dependency_row =
  drReportID :: ID
  drVersionID :: "ID option"
  drType :: string
  drID :: string
  drComponentIDs :: "ID list"

definition dependency_rows :: "ID \<Rightarrow> ID option \<Rightarrow> Indexes \<Rightarrow> dependency_row list" where
  "dependency_rows report version ix = map (\<lambda>x. \<lparr> drReportID = report, drVersionID = version,
     drType = diType x, drID = diID x, drComponentIDs = diComponentIDs x \<rparr>) (ixDependencies ix)"

text \<open>The rows of a draft are replaced as a whole; those of a version are inserted once.\<close>

definition rebuildDraftIndexes :: "ID \<Rightarrow> Indexes \<Rightarrow> dependency_row list \<Rightarrow> dependency_row list" where
  "rebuildDraftIndexes report ix db =
     filter (\<lambda>r. \<not> (drReportID r = report \<and> drVersionID r = None)) db @ dependency_rows report None ix"

definition insertVersionIndexes :: "ID \<Rightarrow> ID \<Rightarrow> Indexes \<Rightarrow> dependency_row list \<Rightarrow> dependency_row list option" where
  "insertVersionIndexes report version ix db =
     (let new = dependency_rows report (Some version) ix;
          key = (\<lambda>r. (drVersionID r, drType r, drID r)) in
      if distinct (map key new) \<and> list_all (\<lambda>r. \<not> list_ex (\<lambda>q. key q = key r) db) new then Some (db @ new) else None)"

section \<open>Impact\<close>

datatype ChangeKind = ChangeMetricVersion | ChangeDimensionVersion | ChangeMemberVersion | ChangeDatasetVersion
  | ChangeComponentTemplate | ChangeSemanticRelease | OtherChangeKind string

definition change_kind_name :: "ChangeKind \<Rightarrow> string" where
  "change_kind_name k = (case k of ChangeMetricVersion \<Rightarrow> ''METRIC_VERSION'' | ChangeDimensionVersion \<Rightarrow> ''DIMENSION_VERSION''
     | ChangeMemberVersion \<Rightarrow> ''MEMBER_VERSION'' | ChangeDatasetVersion \<Rightarrow> ''DATASET_VERSION''
     | ChangeComponentTemplate \<Rightarrow> ''COMPONENT_TEMPLATE'' | ChangeSemanticRelease \<Rightarrow> ''SEMANTIC_RELEASE''
     | OtherChangeKind s \<Rightarrow> s)"

datatype ImpactSeverity = SeverityBreaking | SeverityCompatible | SeverityInformational

record ChangeSpec =
  chKind :: ChangeKind
  chObjectID :: string
  chChangedFields :: "string list"

text \<open>\<open>canonical\<close> tells whether a text is a UUID in canonical form.\<close>

definition change_valid :: "(string \<Rightarrow> bool) \<Rightarrow> ChangeSpec \<Rightarrow> bool" where
  "change_valid canonical c = (case chKind c of
       ChangeComponentTemplate \<Rightarrow> (case split_on CHR ''@'' (chObjectID c) of
           [a, b] \<Rightarrow> trim_space a \<noteq> [] \<and> trim_space b \<noteq> [] \<and> length (chObjectID c) \<le> 512 | _ \<Rightarrow> False)
     | OtherChangeKind _ \<Rightarrow> False
     | _ \<Rightarrow> canonical (chObjectID c))"

record ReportImpact =
  imReportID :: ID
  imReportName :: string
  imOwnerID :: ID
  imComponentIDs :: "ID list"
  imVersionIDs :: "ID list"
  imDraftAffected :: bool
  imPublishedImpact :: bool

record report_row =
  rrID :: ID
  rrName :: string
  rrOwnerID :: ID

definition row_impact :: "report_row \<Rightarrow> dependency_row \<Rightarrow> ReportImpact" where
  "row_impact report r = \<lparr> imReportID = rrID report, imReportName = rrName report, imOwnerID = rrOwnerID report,
     imComponentIDs = drComponentIDs r, imVersionIDs = (case drVersionID r of None \<Rightarrow> [] | Some v \<Rightarrow> [v]),
     imDraftAffected = (drVersionID r = None), imPublishedImpact = (drVersionID r \<noteq> None) \<rparr>"

text \<open>The accumulators of \<open>normalizeReportImpacts\<close>: the first item of a report, its sets as lists.\<close>

definition merge_impact :: "ReportImpact \<Rightarrow> ReportImpact \<Rightarrow> ReportImpact" where
  "merge_impact acc item = acc\<lparr> imDraftAffected := imDraftAffected acc \<or> imDraftAffected item,
     imPublishedImpact := imPublishedImpact acc \<or> imPublishedImpact item,
     imComponentIDs := fold insert_new (imComponentIDs item) (imComponentIDs acc),
     imVersionIDs := fold insert_new (imVersionIDs item) (imVersionIDs acc) \<rparr>"

fun accumulate_impact :: "ReportImpact \<Rightarrow> ReportImpact list \<Rightarrow> ReportImpact list" where
  "accumulate_impact item [] = [merge_impact (item\<lparr> imComponentIDs := [], imVersionIDs := [] \<rparr>) item]"
| "accumulate_impact item (a # as) = (if imReportID a = imReportID item then merge_impact a item # as
     else a # accumulate_impact item as)"

definition normalizeReportImpacts :: "ReportImpact list \<Rightarrow> ReportImpact list" where
  "normalizeReportImpacts items = sort_slice (lt_on imReportID)
     (map (\<lambda>a. a\<lparr> imComponentIDs := sort_slice (<) (imComponentIDs a), imVersionIDs := sort_slice (<) (imVersionIDs a) \<rparr>)
       (fold accumulate_impact items []))"

text \<open>The query joins the matching rows of both tables with the reports, versions first.\<close>

definition FindReportImpacts :: "(string \<Rightarrow> bool) \<Rightarrow> ID \<Rightarrow> report_row list \<Rightarrow> dependency_row list \<Rightarrow> ChangeSpec \<Rightarrow> ReportImpact list option" where
  "FindReportImpacts canonical tenant reports db c =
     (if \<not> valid_id tenant \<or> \<not> change_valid canonical c then None
      else (let hits = filter (\<lambda>r. drType r = change_kind_name (chKind c) \<and> drID r = chObjectID c) db;
                rows = filter (\<lambda>r. drVersionID r \<noteq> None) hits @ filter (\<lambda>r. drVersionID r = None) hits in
        Some (normalizeReportImpacts (concat (map (\<lambda>r. map (\<lambda>p. row_impact p r)
          (filter (\<lambda>p. rrID p = drReportID r) reports)) rows)))))"

definition lower_ascii :: "string \<Rightarrow> string" where
  "lower_ascii = map (\<lambda>c. if char_between CHR ''A'' CHR ''Z'' c then char_of (of_char c + 32 :: nat) else c)"

definition breakingChangeFields :: "string list" where
  "breakingChangeFields = [''formula'', ''formulaast'', ''defaultfilter'', ''defaultfilters'', ''defaultfiltersast'',
     ''dedupkey'', ''deduplicationkey'', ''additivity'', ''nonadditivedimensions'', ''timecontract'', ''timegrain'',
     ''incompleteperiodpolicy'', ''semiadditivetimeaggregation'']"

definition informationalChangeFields :: "string list" where
  "informationalChangeFields = [''description'', ''alias'', ''aliases'', ''label'', ''labels'']"

definition normalized_field :: "string \<Rightarrow> string" where
  "normalized_field s = filter (\<lambda>c. c \<noteq> CHR ''_'' \<and> c \<noteq> CHR ''-'' \<and> c \<noteq> CHR ''.'') (lower_ascii (trim_space s))"

definition ClassifyImpact :: "string list \<Rightarrow> ImpactSeverity" where
  "ClassifyImpact fs =
     (if fs = [] then SeverityBreaking
      else if list_ex (\<lambda>f. normalized_field f \<in> set breakingChangeFields) fs then SeverityBreaking
      else if list_all (\<lambda>f. normalized_field f \<in> set informationalChangeFields) fs then SeverityInformational
      else SeverityCompatible)"

definition AnalyzeImpact ::
  "(string \<Rightarrow> bool) \<Rightarrow> ID \<Rightarrow> report_row list \<Rightarrow> dependency_row list \<Rightarrow> ChangeSpec \<Rightarrow> (ReportImpact list \<times> ImpactSeverity) option" where
  "AnalyzeImpact canonical tenant reports db c =
     (if \<not> valid_id tenant \<or> \<not> change_valid canonical c then None
      else (case FindReportImpacts canonical tenant reports db c of None \<Rightarrow> None
        | Some items \<Rightarrow> Some (normalizeReportImpacts items, ClassifyImpact (chChangedFields c))))"

end
