(* ===== verification/ReportImpactProperties.thy ===== *)
theory ReportImpactProperties imports ReportImpact ReportValidateProperties begin

text \<open>
  Impact analysis is exact: after any writes of the index it names the reports, versions and
  components that use the changed object, no more and no fewer.
\<close>

section \<open>Collecting dependencies\<close>

lemma set_insert_new [simp]: "set (insert_new x xs) = insert x (set xs)"
  by (auto simp: insert_new_def)

lemma set_fold_insert_new [simp]: "set (fold insert_new ys xs) = set xs \<union> set ys"
  by (induction ys arbitrary: xs) auto

text \<open>A map of sets represents the pairs of a relation; the empty component only marks the key.\<close>

definition represents :: "(string \<times> ID list) list \<Rightarrow> (string \<times> ID) set \<Rightarrow> bool" where
  "represents m E \<longleftrightarrow> distinct (map fst m) \<and> (\<forall>k. case map_of m k of
     None \<Rightarrow> (\<forall>c. (k, c) \<notin> E) | Some cs \<Rightarrow> (\<exists>c. (k, c) \<in> E) \<and> set cs = {c. (k, c) \<in> E \<and> c \<noteq> []})"

lemma map_of_add_component: "map_of (add_component key c m) = (map_of m)(key \<mapsto> case map_of m key of
     None \<Rightarrow> (if c = [] then [] else [c]) | Some cs \<Rightarrow> (if c = [] then cs else insert_new c cs))"
  by (induction m) auto

lemma keys_add_component: "map fst (add_component key c m) = insert_new key (map fst m)"
  by (induction m) (auto simp: insert_new_def split: if_splits)

lemma distinct_insert_new [simp]: "distinct (insert_new x xs) = distinct xs"
  by (simp add: insert_new_def)

lemma represents_at: "represents m E \<Longrightarrow> (case map_of m k of
     None \<Rightarrow> (\<forall>c. (k, c) \<notin> E) | Some cs \<Rightarrow> (\<exists>c. (k, c) \<in> E) \<and> set cs = {c. (k, c) \<in> E \<and> c \<noteq> []})"
  by (simp add: represents_def)

lemma represents_entry: "represents m E \<Longrightarrow> (k, cs) \<in> set m \<Longrightarrow> (\<exists>c. (k, c) \<in> E) \<and> set cs = {c. (k, c) \<in> E \<and> c \<noteq> []}"
  using represents_at [of m E k] by (simp add: represents_def)

lemma represents_key: "represents m E \<Longrightarrow> (k, c) \<in> E \<Longrightarrow> \<exists>cs. (k, cs) \<in> set m"
  using represents_at [of m E k] by (cases "map_of m k") (auto dest: map_of_SomeD)

lemma represents_add:
  assumes "represents m E"
  shows "represents (add_component key c m) (insert (key, c) E)"
proof -
  have "case map_of (add_component key c m) k of None \<Rightarrow> (\<forall>x. (k, x) \<notin> insert (key, c) E)
      | Some cs \<Rightarrow> (\<exists>x. (k, x) \<in> insert (key, c) E) \<and> set cs = {x. (k, x) \<in> insert (key, c) E \<and> x \<noteq> []}" for k
  proof (cases "map_of m k")
    case None
    with represents_at [OF assms, of k] show ?thesis by (cases "k = key") (auto simp: map_of_add_component)
  next
    case (Some cs)
    with represents_at [OF assms, of k] show ?thesis by (cases "k = key") (auto simp: map_of_add_component)
  qed
  with assms show ?thesis unfolding represents_def by (simp add: keys_add_component)
qed

definition entries_of :: "(string \<times> string \<times> ID) list \<Rightarrow> (string \<times> ID) set" where
  "entries_of calls = {(dependency_key ty i, c) |ty i c. (ty, i, c) \<in> set calls \<and> trim_space i \<noteq> []}"

lemma represents_fold: "represents m E \<Longrightarrow> represents (fold addDependency calls m) (E \<union> entries_of calls)"
proof (induction calls arbitrary: m E)
  case Nil
  then show ?case by (simp add: entries_of_def)
next
  case (Cons e calls)
  obtain ty i c where e: "e = (ty, i, c)" by (cases e)
  show ?case
  proof (cases "trim_space i = []")
    case True
    then have "entries_of (e # calls) = entries_of calls" by (auto simp: e entries_of_def)
    with Cons True show ?thesis by (simp add: e addDependency_def)
  next
    case False
    then have "entries_of (e # calls) = insert (dependency_key ty i, c) (entries_of calls)" by (auto simp: e entries_of_def)
    with Cons.IH [OF represents_add [OF Cons.prems, of "dependency_key ty i" c]] False show ?thesis
      by (simp add: e addDependency_def)
  qed
qed

subsection \<open>Keys\<close>

abbreviation plain :: "string \<Rightarrow> bool" where "plain ty \<equiv> CHR 0x00 \<notin> set ty"

lemma split_dependency_key: "plain ty \<Longrightarrow> split_key (dependency_key ty i) = (ty, i)"
  by (induction ty) (auto simp: dependency_key_def)

lemma dependency_key_inj:
  assumes "plain ty" "plain ty'" and "dependency_key ty i = dependency_key ty' i'"
  shows "ty = ty' \<and> i = i'"
proof -
  have "(ty, i) = (ty', i')"
    by (rule trans [OF split_dependency_key [OF assms(1), symmetric]]) (simp only: assms(3) split_dependency_key [OF assms(2)])
  then show ?thesis by simp
qed

lemma definition_dependencies_plain: "(ty, i, c) \<in> set (definition_dependencies d) \<Longrightarrow> plain ty"
  by (auto simp: definition_dependencies_def Let_def)

lemma semantic_dependencies_plain: "(ty, i) \<in> set (semantic_dependencies semantic r) \<Longrightarrow> plain ty"
  by (auto simp: semantic_dependencies_def Let_def split: option.splits)

lemma component_dependencies_plain: "(ty, i) \<in> set (component_dependencies semantic d c) \<Longrightarrow> plain ty"
proof -
  have "plain ty" if "(ty, i) \<in> set (binding_dependencies semantic d b)" for b
  proof (cases "bdBindingMode b")
    case BindingSemanticIR
    with that show ?thesis by (cases "bdSemanticQueryRef b") (auto simp: binding_dependencies_def dest!: semantic_dependencies_plain)
  qed (use that in \<open>auto simp: binding_dependencies_def split: option.splits\<close>)
  moreover assume "(ty, i) \<in> set (component_dependencies semantic d c)"
  ultimately show ?thesis by (auto simp: component_dependencies_def Let_def split: option.splits)
qed

lemma dependency_calls_plain: "(ty, i, c) \<in> set (dependency_calls semantic d) \<Longrightarrow> plain ty"
  unfolding dependency_calls_def
  using definition_dependencies_plain component_dependencies_plain by fastforce

lemma entries_key:
  assumes "plain ty" and "\<forall>(ty, i, c)\<in>set calls. plain ty"
  shows "(dependency_key ty i, c) \<in> entries_of calls \<longleftrightarrow> (ty, i, c) \<in> set calls \<and> trim_space i \<noteq> []"
proof
  assume "(dependency_key ty i, c) \<in> entries_of calls"
  then obtain ty' i' where "dependency_key ty i = dependency_key ty' i'" "(ty', i', c) \<in> set calls" "trim_space i' \<noteq> []"
    by (auto simp: entries_of_def)
  moreover from this(2) assms(2) have "plain ty'" by auto
  ultimately show "(ty, i, c) \<in> set calls \<and> trim_space i \<noteq> []" using dependency_key_inj [OF assms(1)] by blast
next
  assume "(ty, i, c) \<in> set calls \<and> trim_space i \<noteq> []"
  then show "(dependency_key ty i, c) \<in> entries_of calls" by (auto simp: entries_of_def)
qed

text \<open>The dependencies of an index: one entry per object, with the components that call for it.\<close>

lemma index_entry:
  assumes "x \<in> set (ixDependencies (BuildIndexes semantic d))"
  shows "trim_space (diID x) \<noteq> [] \<and> (\<exists>c. (diType x, diID x, c) \<in> set (dependency_calls semantic d)) \<and>
    set (diComponentIDs x) = {c. (diType x, diID x, c) \<in> set (dependency_calls semantic d) \<and> c \<noteq> []}"
proof -
  let ?calls = "dependency_calls semantic d"
  define m where "m = fold addDependency ?calls []"
  have r: "represents m (entries_of ?calls)"
    using represents_fold [of "[]" "{}" ?calls] by (simp add: represents_def m_def)
  have plain: "\<forall>(ty, i, c)\<in>set ?calls. plain ty" using dependency_calls_plain by auto
  from assms obtain k cs where k: "(k, cs) \<in> set m"
    "x = (case split_key k of (ty, i) \<Rightarrow> \<lparr> diType = ty, diID = i, diComponentIDs = sort_slice (<) cs \<rparr>)"
    by (auto simp: BuildIndexes_def Let_def m_def)
  from represents_entry [OF r k(1)] obtain c0 where c0: "(k, c0) \<in> entries_of ?calls"
    and cs: "set cs = {c. (k, c) \<in> entries_of ?calls \<and> c \<noteq> []}" by blast
  from c0 obtain ty i where c: "k = dependency_key ty i" "(ty, i, c0) \<in> set ?calls" "trim_space i \<noteq> []"
    by (auto simp: entries_of_def)
  have p: "plain ty" using c(2) dependency_calls_plain by blast
  have "x = \<lparr> diType = ty, diID = i, diComponentIDs = sort_slice (<) cs \<rparr>"
    by (simp add: k(2) c(1) split_dependency_key [OF p])
  with c cs entries_key [OF p plain] show ?thesis by auto
qed

lemma index_has_entry:
  assumes "(ty, i, c) \<in> set (dependency_calls semantic d)" and "trim_space i \<noteq> []"
  shows "\<exists>x\<in>set (ixDependencies (BuildIndexes semantic d)). diType x = ty \<and> diID x = i"
proof -
  let ?calls = "dependency_calls semantic d"
  define m where "m = fold addDependency ?calls []"
  have r: "represents m (entries_of ?calls)"
    using represents_fold [of "[]" "{}" ?calls] by (simp add: represents_def m_def)
  have "(dependency_key ty i, c) \<in> entries_of ?calls" using assms by (auto simp: entries_of_def)
  from represents_key [OF r this] obtain cs where "(dependency_key ty i, cs) \<in> set m" by blast
  moreover have "split_key (dependency_key ty i) = (ty, i)" by (rule split_dependency_key) (rule dependency_calls_plain [OF assms(1)])
  ultimately show ?thesis by (force simp: BuildIndexes_def Let_def m_def)
qed

section \<open>What uses an object\<close>

text \<open>Stated of the definition itself: a query, a binding, a placed component, the report.\<close>

definition query_uses :: "ir_references \<Rightarrow> SemanticQueryRef \<Rightarrow> string \<Rightarrow> string \<Rightarrow> bool" where
  "query_uses ir r ty i \<longleftrightarrow>
     ty = ''SEMANTIC_RELEASE'' \<and> i = sqSemanticReleaseID r \<or>
     ty = ''DATASET_VERSION'' \<and> sqDatasetVersionID r = Some i \<or>
     ty = ''METRIC_VERSION'' \<and> i \<in> set (irMetrics ir) \<or>
     ty = ''DIMENSION_VERSION'' \<and> (i \<in> set (irGroupBy ir) \<or> i \<in> fst ` set (irFilters ir) \<or> irTimeRange ir = Some i) \<or>
     ty = ''MEMBER_VERSION'' \<and> (\<exists>f\<in>set (irFilters ir). i \<in> set (snd f))"

definition binding_uses :: "(string \<Rightarrow> ir_references) \<Rightarrow> ReportDefinition \<Rightarrow> DataBinding \<Rightarrow> string \<Rightarrow> string \<Rightarrow> bool" where
  "binding_uses semantic d b ty i \<longleftrightarrow>
     bdBindingMode b = BindingDatasetField \<and> ty = ''DATASET_VERSION'' \<and>
       (\<exists>x\<in>set (rdDataContexts d). bdDataContextID b = Some (dxID x) \<and> i = dxDatasetVersionID x) \<or>
     bdBindingMode b = BindingSemanticIR \<and>
       (\<exists>r. bdSemanticQueryRef b = Some r \<and> query_uses (semantic (sqSemanticIR r)) r ty i)"

definition component_uses :: "(string \<Rightarrow> ir_references) \<Rightarrow> ReportDefinition \<Rightarrow> ID \<Rightarrow> string \<Rightarrow> string \<Rightarrow> bool" where
  "component_uses semantic d k ty i \<longleftrightarrow> (\<exists>sl\<in>set (all_slots d). slComponentID sl = k) \<and>
     (\<exists>c\<in>set (rdComponents d). cpID c = k \<and>
        (ty = ''COMPONENT_TEMPLATE'' \<and> i = ctType (cpTemplateRef c) @ ''@'' @ ctVersion (cpTemplateRef c) \<or>
         (\<exists>b. cpDataBinding c = Some b \<and> binding_uses semantic d b ty i)))"

definition definition_uses :: "(string \<Rightarrow> ir_references) \<Rightarrow> ReportDefinition \<Rightarrow> string \<Rightarrow> string \<Rightarrow> bool" where
  "definition_uses semantic d ty i \<longleftrightarrow>
     ty = ''DATASET_VERSION'' \<and> i \<in> dxDatasetVersionID ` set (rdDataContexts d) \<or> (\<exists>k. component_uses semantic d k ty i)"

lemma dependency_list:
  "(ty, i) \<in> set ((r, x) # (case dv of None \<Rightarrow> [] | Some v \<Rightarrow> [(ds, v)]) @ map (Pair m) ms @ map (Pair g) gs @
      concat (map (\<lambda>(dim, members). (g, dim) # map (Pair e) members) fs) @ (case tr of None \<Rightarrow> [] | Some v \<Rightarrow> [(g, v)])) \<longleftrightarrow>
     ty = r \<and> i = x \<or> ty = ds \<and> dv = Some i \<or> ty = m \<and> i \<in> set ms \<or>
     ty = g \<and> (i \<in> set gs \<or> i \<in> fst ` set fs \<or> tr = Some i) \<or> ty = e \<and> (\<exists>f\<in>set fs. i \<in> set (snd f))"
  by (cases dv; cases tr; simp add: split_def image_iff Bex_def; blast)

lemma semantic_dependencies_uses: "(ty, i) \<in> set (semantic_dependencies semantic r) \<longleftrightarrow> query_uses (semantic (sqSemanticIR r)) r ty i"
  by (simp only: semantic_dependencies_def query_uses_def Let_def dependency_list)

lemma last_with_iff: "distinct (map key xs) \<Longrightarrow> last_with key xs k = Some x \<longleftrightarrow> x \<in> set xs \<and> key x = k"
proof -
  assume "distinct (map key xs)"
  then have d: "distinct (map key (rev xs))" by (simp add: rev_map [symmetric])
  have "distinct (map key ys) \<Longrightarrow> find (\<lambda>x. key x = k) ys = Some x \<longleftrightarrow> x \<in> set ys \<and> key x = k" for ys
    by (induction ys) (auto simp: image_iff)
  from this [OF d] show ?thesis by (simp add: last_with_def)
qed

lemma binding_dependencies_uses:
  assumes "distinct (map dxID (rdDataContexts d))"
  shows "(ty, i) \<in> set (binding_dependencies semantic d b) \<longleftrightarrow> binding_uses semantic d b ty i"
proof (cases "bdBindingMode b")
  case BindingSemanticIR
  then show ?thesis
    by (cases "bdSemanticQueryRef b") (auto simp: binding_dependencies_def binding_uses_def semantic_dependencies_uses)
next
  case BindingDatasetField
  show ?thesis
  proof (cases "bdDataContextID b")
    case (Some k)
    show ?thesis
    proof (cases "last_with dxID (rdDataContexts d) k")
      case None
      with last_with_iff [OF assms, of k] BindingDatasetField Some show ?thesis
        by (auto simp: binding_dependencies_def binding_uses_def)
    next
      case (Some x)
      then have "y \<in> set (rdDataContexts d) \<and> dxID y = k \<longleftrightarrow> y = x" for y using last_with_iff [OF assms, of k y] by auto
      then have "binding_uses semantic d b ty i \<longleftrightarrow> ty = ''DATASET_VERSION'' \<and> i = dxDatasetVersionID x"
        unfolding binding_uses_def using BindingDatasetField \<open>bdDataContextID b = Some k\<close> by (metis BindingMode.distinct(1) option.inject)
      then show ?thesis using BindingDatasetField \<open>bdDataContextID b = Some k\<close> Some by (simp add: binding_dependencies_def)
    qed
  qed (simp add: BindingDatasetField binding_dependencies_def binding_uses_def)
qed (simp add: binding_dependencies_def binding_uses_def)

lemma slot_places_slots: "map (\<lambda>(_, _, _, sl). sl) (slot_places d) = all_slots d"
  by (simp add: slot_places_def all_slots_def all_zones_def all_blocks_def all_sections_def map_concat concat_concat' comp_def)

lemma placed_components_iff:
  assumes "distinct (map cpID (rdComponents d))"
  shows "c \<in> snd ` set (placed_components d) \<longleftrightarrow> c \<in> set (rdComponents d) \<and> (\<exists>sl\<in>set (all_slots d). slComponentID sl = cpID c)"
proof -
  have slots: "set (all_slots d) = (\<lambda>(_, _, _, sl). sl) ` set (slot_places d)"
    by (simp add: slot_places_slots [symmetric])
  have "c \<in> snd ` set (placed_components d) \<longleftrightarrow>
      (\<exists>sl\<in>set (all_slots d). last_with cpID (rdComponents d) (slComponentID sl) = Some c)"
    unfolding slots by (force simp: placed_components_def split: option.splits)
  then show ?thesis using last_with_iff [OF assms, of _ c] by metis
qed

text \<open>The types of dependency that a change can name.\<close>

definition change_types :: "string list" where
  "change_types = [''METRIC_VERSION'', ''DIMENSION_VERSION'', ''MEMBER_VERSION'', ''DATASET_VERSION'', ''COMPONENT_TEMPLATE'', ''SEMANTIC_RELEASE'']"

lemma definition_dependencies_changes:
  assumes "ty \<in> set change_types"
  shows "(ty, i, k) \<in> set (definition_dependencies d) \<longleftrightarrow>
     k = [] \<and> ty = ''DATASET_VERSION'' \<and> i \<in> dxDatasetVersionID ` set (rdDataContexts d)"
proof -
  have "ty \<notin> set [''REPORT_TEMPLATE'', ''STRUCTURE_TEMPLATE'', ''LAYOUT_TEMPLATE'', ''NARRATIVE_TEMPLATE'', ''THEME'',
      ''ANALYSIS_METHOD'', ''PROMPT_VERSION'', ''MODEL_POLICY'']"
    using assms by (auto simp: change_types_def)
  then have "ty \<noteq> ''REPORT_TEMPLATE''" "ty \<noteq> ''STRUCTURE_TEMPLATE''" "ty \<noteq> ''LAYOUT_TEMPLATE''" "ty \<noteq> ''NARRATIVE_TEMPLATE''"
    "ty \<noteq> ''THEME''" "ty \<noteq> ''ANALYSIS_METHOD''" "ty \<noteq> ''PROMPT_VERSION''" "ty \<noteq> ''MODEL_POLICY''" by simp_all
  note ne = this
  show ?thesis
    by (simp only: definition_dependencies_def Let_def set_append Un_iff set_map set_simps insert_iff empty_iff
        image_iff prod.inject ne split_def simp_thms) blast
qed

lemma component_calls:
  assumes "identifiers_unique d"
  shows "(ty, i, k) \<in> set (concat (map (\<lambda>(place, c). map (\<lambda>(ty, i). (ty, i, cpID c)) (component_dependencies semantic d c)) (placed_components d)))
     \<longleftrightarrow> component_uses semantic d k ty i"
proof -
  have dist: "distinct (map cpID (rdComponents d))" "distinct (map dxID (rdDataContexts d))"
    using assms by (auto simp: identifiers_unique_def unique_and_valid_def)
  define uses :: "Component \<Rightarrow> bool" where "uses c \<longleftrightarrow> ty = ''COMPONENT_TEMPLATE'' \<and> i = ctType (cpTemplateRef c) @ ''@'' @ ctVersion (cpTemplateRef c) \<or>
      (\<exists>b. cpDataBinding c = Some b \<and> binding_uses semantic d b ty i)" for c
  have dep: "(ty, i) \<in> set (component_dependencies semantic d c) \<longleftrightarrow> uses c" for c
    unfolding uses_def
    by (cases "cpDataBinding c") (simp_all add: component_dependencies_def Let_def binding_dependencies_uses [OF dist(2)])
  have "(ty, i, k) \<in> set (concat (map (\<lambda>(place, c). map (\<lambda>(ty, i). (ty, i, cpID c)) (component_dependencies semantic d c)) (placed_components d)))
      \<longleftrightarrow> (\<exists>c\<in>snd ` set (placed_components d). cpID c = k \<and> (ty, i) \<in> set (component_dependencies semantic d c))"
    by (force simp: split_def)
  also have "\<dots> \<longleftrightarrow> component_uses semantic d k ty i"
    unfolding component_uses_def uses_def [symmetric] Bex_def placed_components_iff [OF dist(1)] dep by metis
  finally show ?thesis .
qed

lemma component_id_nonempty: "identifiers_unique d \<Longrightarrow> \<not> component_uses semantic d [] ty i"
  using valid_id_nonempty by (fastforce simp: component_uses_def identifiers_unique_def unique_and_valid_def list_all_iff)

lemma calls_uses:
  assumes "identifiers_unique d" and "ty \<in> set change_types"
  shows "(\<exists>k. (ty, i, k) \<in> set (dependency_calls semantic d)) \<longleftrightarrow> definition_uses semantic d ty i"
    and "{k. (ty, i, k) \<in> set (dependency_calls semantic d) \<and> k \<noteq> []} = {k. component_uses semantic d k ty i}"
  using component_calls [OF assms(1), of ty i _ semantic] definition_dependencies_changes [OF assms(2), of i _ d]
    component_id_nonempty [OF assms(1), of semantic ty i]
  by (auto simp: dependency_calls_def definition_uses_def)

section \<open>Merging impacts\<close>

definition sum_of :: "ReportImpact list \<Rightarrow> ReportImpact \<Rightarrow> bool" where
  "sum_of items x \<longleftrightarrow> (let own = {y \<in> set items. imReportID y = imReportID x} in own \<noteq> {} \<and>
     set (imComponentIDs x) = (\<Union>y\<in>own. set (imComponentIDs y)) \<and> set (imVersionIDs x) = (\<Union>y\<in>own. set (imVersionIDs y)) \<and>
     (imDraftAffected x \<longleftrightarrow> (\<exists>y\<in>own. imDraftAffected y)) \<and> (imPublishedImpact x \<longleftrightarrow> (\<exists>y\<in>own. imPublishedImpact y)))"

lemma merge_impact_fields [simp]:
  "imReportID (merge_impact a y) = imReportID a"
  "set (imComponentIDs (merge_impact a y)) = set (imComponentIDs a) \<union> set (imComponentIDs y)"
  "set (imVersionIDs (merge_impact a y)) = set (imVersionIDs a) \<union> set (imVersionIDs y)"
  "imDraftAffected (merge_impact a y) \<longleftrightarrow> imDraftAffected a \<or> imDraftAffected y"
  "imPublishedImpact (merge_impact a y) \<longleftrightarrow> imPublishedImpact a \<or> imPublishedImpact y"
  by (simp_all add: merge_impact_def)

lemma accumulate_ids: "map imReportID (accumulate_impact y as) = insert_new (imReportID y) (map imReportID as)"
  by (induction as) (auto simp: insert_new_def split: if_splits)

lemma accumulate_cases:
  "distinct (map imReportID as) \<Longrightarrow> x \<in> set (accumulate_impact y as) \<Longrightarrow>
     x \<in> set as \<and> imReportID x \<noteq> imReportID y \<or>
     (\<exists>a\<in>set as. imReportID a = imReportID y \<and> x = merge_impact a y) \<or>
     imReportID y \<notin> imReportID ` set as \<and> x = merge_impact (y\<lparr> imComponentIDs := [], imVersionIDs := [] \<rparr>) y"
proof (induction as)
  case Nil
  then show ?case by simp
next
  case (Cons a as)
  show ?case
  proof (cases "imReportID a = imReportID y")
    case True
    with Cons.prems have "x = merge_impact a y \<or> x \<in> set as \<and> imReportID x \<in> imReportID ` set as" by auto
    with Cons.prems(1) True show ?thesis by (auto split: if_splits)
  next
    case False
    with Cons show ?thesis by auto
  qed
qed

lemma accumulate_spec:
  assumes "distinct (map imReportID as)" and "imReportID ` set as = imReportID ` set items" and "\<forall>a\<in>set as. sum_of items a"
    and "x \<in> set (accumulate_impact y as)"
  shows "sum_of (items @ [y]) x"
  using accumulate_cases [OF assms(1,4)]
proof (elim disjE conjE bexE)
  assume "x \<in> set as" "imReportID x \<noteq> imReportID y"
  with assms(3) show ?thesis by (force simp: sum_of_def Let_def)
next
  fix a assume a: "a \<in> set as" "imReportID a = imReportID y" "x = merge_impact a y"
  from assms(3) a(1) have "sum_of items a" by blast
  with a(2) show ?thesis unfolding a(3) sum_of_def Let_def by auto
next
  assume new: "imReportID y \<notin> imReportID ` set as" "x = merge_impact (y\<lparr> imComponentIDs := [], imVersionIDs := [] \<rparr>) y"
  have "\<forall>z\<in>set items. imReportID z \<noteq> imReportID y" using new(1) assms(2) by (metis imageI)
  then have "{z \<in> set (items @ [y]). imReportID z = imReportID y} = {y}" by auto
  then show ?thesis unfolding new(2) sum_of_def Let_def by simp
qed

lemma accumulate_all:
  "distinct (map imReportID (fold accumulate_impact items [])) \<and>
   imReportID ` set (fold accumulate_impact items []) = imReportID ` set items \<and>
   (\<forall>a\<in>set (fold accumulate_impact items []). sum_of items a)"
proof (induction items rule: rev_induct)
  case Nil
  then show ?case by simp
next
  case (snoc y items)
  let ?as = "fold accumulate_impact items []"
  have ids: "imReportID ` set (accumulate_impact y ?as) = insert (imReportID y) (imReportID ` set ?as)"
    using arg_cong [OF accumulate_ids [of y ?as], of set] by simp
  from snoc ids accumulate_spec [of ?as items _ y] show ?case by (auto simp: accumulate_ids)
qed

lemma normalize_spec:
  "distinct (map imReportID (normalizeReportImpacts items))"
  "imReportID ` set (normalizeReportImpacts items) = imReportID ` set items"
  "x \<in> set (normalizeReportImpacts items) \<Longrightarrow> sum_of items x"
proof -
  let ?g = "\<lambda>a. a\<lparr> imComponentIDs := sort_slice (<) (imComponentIDs a), imVersionIDs := sort_slice (<) (imVersionIDs a) \<rparr>"
  have g: "imReportID (?g a) = imReportID a" "sum_of items (?g a) = sum_of items a" for a by (simp_all add: sum_of_def Let_def)
  have "distinct (map imReportID (map ?g (fold accumulate_impact items [])))" using accumulate_all [of items] by (simp add: comp_def)
  moreover have "mset (map imReportID (normalizeReportImpacts items)) = mset (map imReportID (map ?g (fold accumulate_impact items [])))"
    by (simp add: normalizeReportImpacts_def multiset.map_comp comp_def)
  ultimately show "distinct (map imReportID (normalizeReportImpacts items))"
    by (simp only: mset_eq_imp_distinct_iff [of "map imReportID (normalizeReportImpacts items)"])
  show "imReportID ` set (normalizeReportImpacts items) = imReportID ` set items"
    using accumulate_all [of items] by (simp add: normalizeReportImpacts_def image_image)
  show "x \<in> set (normalizeReportImpacts items) \<Longrightarrow> sum_of items x"
    using accumulate_all [of items] g(2) by (auto simp: normalizeReportImpacts_def)
qed

lemma normalize_twice:
  "imReportID ` set (normalizeReportImpacts (normalizeReportImpacts items)) = imReportID ` set items"
  "x \<in> set (normalizeReportImpacts (normalizeReportImpacts items)) \<Longrightarrow> sum_of items x"
proof -
  show "imReportID ` set (normalizeReportImpacts (normalizeReportImpacts items)) = imReportID ` set items"
    by (simp add: normalize_spec(2))
  let ?n = "normalizeReportImpacts items"
  assume "x \<in> set (normalizeReportImpacts ?n)"
  then have x: "sum_of ?n x" by (rule normalize_spec)
  then obtain y where y: "y \<in> set ?n" "imReportID y = imReportID x" by (auto simp: sum_of_def Let_def)
  have "{z \<in> set ?n. imReportID z = imReportID x} = {y}"
    using y normalize_spec(1) [of items] by (auto simp: distinct_map inj_on_def)
  with x y(2) normalize_spec(3) [OF y(1)] show "sum_of items x" by (simp add: sum_of_def Let_def)
qed

section \<open>The stored definitions\<close>

text \<open>The writes of the store, and which definitions it then holds: versions, and the last draft of a report.\<close>

datatype index_write = DraftSaved ID ReportDefinition | VersionPublished ID ID ReportDefinition

fun write_index :: "(string \<Rightarrow> ir_references) \<Rightarrow> index_write \<Rightarrow> dependency_row list \<Rightarrow> dependency_row list option" where
  "write_index semantic (DraftSaved r d) db = Some (rebuildDraftIndexes r (BuildIndexes semantic d) db)"
| "write_index semantic (VersionPublished r v d) db = insertVersionIndexes r v (BuildIndexes semantic d) db"

fun write_all :: "(string \<Rightarrow> ir_references) \<Rightarrow> index_write list \<Rightarrow> dependency_row list \<Rightarrow> dependency_row list option" where
  "write_all semantic [] db = Some db"
| "write_all semantic (w # ws) db = (case write_index semantic w db of None \<Rightarrow> None | Some db' \<Rightarrow> write_all semantic ws db')"

type_synonym holdings = "(ID \<times> ID option \<times> ReportDefinition) set"

fun hold :: "index_write \<Rightarrow> holdings \<Rightarrow> holdings" where
  "hold (DraftSaved r d) S = insert (r, None, d) {(q, v, e) \<in> S. \<not> (q = r \<and> v = None)}"
| "hold (VersionPublished r v d) S = insert (r, Some v, d) S"

abbreviation held :: "index_write list \<Rightarrow> holdings" where "held ws \<equiv> fold hold ws {}"

definition rows_of :: "(string \<Rightarrow> ir_references) \<Rightarrow> holdings \<Rightarrow> dependency_row set" where
  "rows_of semantic S = (\<Union>(r, v, d)\<in>S. set (dependency_rows r v (BuildIndexes semantic d)))"

lemma dependency_rows_key: "x \<in> set (dependency_rows r v ix) \<Longrightarrow> drReportID x = r \<and> drVersionID x = v"
  by (auto simp: dependency_rows_def)

lemma rows_of_mem: "x \<in> rows_of semantic S \<longleftrightarrow> (\<exists>d. (drReportID x, drVersionID x, d) \<in> S \<and>
    x \<in> set (dependency_rows (drReportID x) (drVersionID x) (BuildIndexes semantic d)))"
  unfolding rows_of_def using dependency_rows_key by fastforce

lemma rows_of_insert: "rows_of semantic (insert (r, v, d) S) = set (dependency_rows r v (BuildIndexes semantic d)) \<union> rows_of semantic S"
  by (simp add: rows_of_def)

lemma write_index_rows:
  assumes "write_index semantic w db = Some db'" and "set db = rows_of semantic S"
  shows "set db' = rows_of semantic (hold w S)"
proof (cases w)
  case (DraftSaved r d)
  have "{x \<in> rows_of semantic S. \<not> (drReportID x = r \<and> drVersionID x = None)} =
      rows_of semantic {(q, v, e) \<in> S. \<not> (q = r \<and> v = None)}"
    by (auto simp: rows_of_mem)
  moreover have "set db' = {x \<in> set db. \<not> (drReportID x = r \<and> drVersionID x = None)} \<union>
      set (dependency_rows r None (BuildIndexes semantic d))"
    using assms(1) DraftSaved by (auto simp: rebuildDraftIndexes_def)
  ultimately show ?thesis using assms(2) DraftSaved by (simp add: rows_of_insert Un_commute)
next
  case (VersionPublished r v d)
  then have "set db' = set db \<union> set (dependency_rows r (Some v) (BuildIndexes semantic d))"
    using assms(1) by (auto simp: insertVersionIndexes_def Let_def split: if_splits)
  with assms(2) VersionPublished show ?thesis by (auto simp: rows_of_insert)
qed

lemma write_all_rows: "write_all semantic ws db = Some db' \<Longrightarrow> set db = rows_of semantic S \<Longrightarrow> set db' = rows_of semantic (fold hold ws S)"
proof (induction ws arbitrary: db S)
  case (Cons w ws)
  then obtain db1 where w: "write_index semantic w db = Some db1" "write_all semantic ws db1 = Some db'" by (auto split: option.splits)
  from Cons.IH [OF w(2) write_index_rows [OF w(1) Cons.prems(2)]] show ?case by simp
qed simp

text \<open>The rows for a change, in terms of what uses the object.\<close>

lemma change_rows:
  assumes "identifiers_unique d" and "ty \<in> set change_types" and "trim_space i \<noteq> []"
  shows "x \<in> set (dependency_rows r v (BuildIndexes semantic d)) \<Longrightarrow> drType x = ty \<Longrightarrow> drID x = i \<Longrightarrow>
      definition_uses semantic d ty i \<and> set (drComponentIDs x) = {k. component_uses semantic d k ty i}"
    and "definition_uses semantic d ty i \<Longrightarrow>
      \<exists>x\<in>set (dependency_rows r v (BuildIndexes semantic d)). drType x = ty \<and> drID x = i"
proof -
  assume "x \<in> set (dependency_rows r v (BuildIndexes semantic d))" "drType x = ty" "drID x = i"
  then obtain y where y: "y \<in> set (ixDependencies (BuildIndexes semantic d))" "diType y = ty" "diID y = i"
    "drComponentIDs x = diComponentIDs y" by (auto simp: dependency_rows_def)
  from index_entry [OF y(1)] y(2-4) calls_uses [OF assms(1,2), of i semantic]
  show "definition_uses semantic d ty i \<and> set (drComponentIDs x) = {k. component_uses semantic d k ty i}" by simp
next
  assume "definition_uses semantic d ty i"
  with calls_uses(1) [OF assms(1,2)] obtain k where "(ty, i, k) \<in> set (dependency_calls semantic d)" by blast
  from index_has_entry [OF this assms(3)] show "\<exists>x\<in>set (dependency_rows r v (BuildIndexes semantic d)). drType x = ty \<and> drID x = i"
    by (auto simp: dependency_rows_def)
qed

abbreviation object_uses :: "(string \<Rightarrow> ir_references) \<Rightarrow> ReportDefinition \<Rightarrow> ChangeSpec \<Rightarrow> bool" where
  "object_uses semantic d ch \<equiv> definition_uses semantic d (change_kind_name (chKind ch)) (chObjectID ch)"

lemma change_valid_facts:
  assumes "change_valid canonical ch" and "\<And>s. canonical s \<Longrightarrow> trim_space s \<noteq> []"
  shows "change_kind_name (chKind ch) \<in> set change_types" and "trim_space (chObjectID ch) \<noteq> []"
proof -
  show "change_kind_name (chKind ch) \<in> set change_types"
    using assms(1) by (cases "chKind ch") (simp_all add: change_valid_def change_kind_name_def change_types_def)
  have at: "trim_space s \<noteq> []" if "CHR ''@'' \<in> set s" for s
  proof -
    have keep: "CHR ''@'' \<in> set (dropWhile space t)" if "CHR ''@'' \<in> set t" for t
      using that by (induction t) (auto simp: space_def)
    from keep [of "rev (dropWhile space s)"] keep [OF that] have "CHR ''@'' \<in> set (trim_space s)" by (simp add: trim_space_def)
    then show ?thesis by auto
  qed
  have split: "CHR ''@'' \<in> set s" if "split_on CHR ''@'' s = [a, b]" for s a b
    using that by (induction s arbitrary: a b) (auto split: if_splits list.splits)
  show "trim_space (chObjectID ch) \<noteq> []"
  proof (cases "chKind ch = ChangeComponentTemplate")
    case True
    with assms(1) obtain a b where "split_on CHR ''@'' (chObjectID ch) = [a, b]"
      by (auto simp: change_valid_def split: list.splits)
    then show ?thesis using at split by blast
  next
    case False
    with assms show ?thesis by (cases "chKind ch") (auto simp: change_valid_def)
  qed
qed

section \<open>Exactness\<close>

text \<open>The rows of a report that a change hits.\<close>

definition hit_rows :: "dependency_row list \<Rightarrow> ChangeSpec \<Rightarrow> ID \<Rightarrow> dependency_row set" where
  "hit_rows db ch r = {x \<in> set db. drType x = change_kind_name (chKind ch) \<and> drID x = chObjectID ch \<and> drReportID x = r}"

lemma row_versions: "v \<in> set (imVersionIDs (row_impact p r)) \<longleftrightarrow> drVersionID r = Some v"
  by (cases "drVersionID r") (auto simp: row_impact_def)

lemma analyzed:
  assumes "AnalyzeImpact canonical tenant reports db ch = Some (impacts, severity)"
  shows "change_valid canonical ch"
    and "imReportID ` set impacts = {r \<in> rrID ` set reports. hit_rows db ch r \<noteq> {}}"
    and "distinct (map imReportID impacts)"
    and "x \<in> set impacts \<Longrightarrow> set (imComponentIDs x) = (\<Union>y\<in>hit_rows db ch (imReportID x). set (drComponentIDs y))"
    and "x \<in> set impacts \<Longrightarrow> set (imVersionIDs x) = {v. \<exists>y\<in>hit_rows db ch (imReportID x). drVersionID y = Some v}"
    and "x \<in> set impacts \<Longrightarrow> imDraftAffected x \<longleftrightarrow> (\<exists>y\<in>hit_rows db ch (imReportID x). drVersionID y = None)"
    and "x \<in> set impacts \<Longrightarrow> imPublishedImpact x \<longleftrightarrow> (\<exists>y\<in>hit_rows db ch (imReportID x). drVersionID y \<noteq> None)"
proof -
  define hits where "hits = filter (\<lambda>r. drType r = change_kind_name (chKind ch) \<and> drID r = chObjectID ch) db"
  define items where "items = concat (map (\<lambda>r. map (\<lambda>p. row_impact p r) (filter (\<lambda>p. rrID p = drReportID r) reports))
    (filter (\<lambda>r. drVersionID r \<noteq> None) hits @ filter (\<lambda>r. drVersionID r = None) hits))"
  from assms show "change_valid canonical ch" by (auto simp: AnalyzeImpact_def split: if_splits)
  from assms have impacts: "impacts = normalizeReportImpacts (normalizeReportImpacts items)"
    by (auto simp: AnalyzeImpact_def FindReportImpacts_def items_def hits_def Let_def split: if_splits)
  have mem: "y \<in> set items \<longleftrightarrow> (\<exists>p\<in>set reports. \<exists>r\<in>hit_rows db ch (rrID p). y = row_impact p r)" for y
  proof -
    have rows: "r \<in> set (filter (\<lambda>r. drVersionID r \<noteq> None) hits @ filter (\<lambda>r. drVersionID r = None) hits) \<longleftrightarrow>
        r \<in> hit_rows db ch (drReportID r)" for r by (auto simp: hits_def hit_rows_def)
    have key: "r \<in> hit_rows db ch q \<Longrightarrow> drReportID r = q" for r q by (simp add: hit_rows_def)
    have "y \<in> set items \<longleftrightarrow> (\<exists>r. r \<in> hit_rows db ch (drReportID r) \<and> (\<exists>p\<in>set reports. rrID p = drReportID r \<and> y = row_impact p r))"
      unfolding items_def set_concat set_map UN_iff image_iff Bex_def rows by auto metis
    then show ?thesis using key by metis
  qed
  have ids: "imReportID ` set items = {r \<in> rrID ` set reports. hit_rows db ch r \<noteq> {}}"
    by (force simp: mem row_impact_def image_iff)
  then show "imReportID ` set impacts = {r \<in> rrID ` set reports. hit_rows db ch r \<noteq> {}}"
    by (simp add: impacts normalize_twice(1))
  show "distinct (map imReportID impacts)" by (simp add: impacts normalize_spec(1))
  assume x: "x \<in> set impacts"
  then have s: "sum_of items x" by (simp add: impacts normalize_twice(2))
  from x have "imReportID x \<in> imReportID ` set impacts" by simp
  then have "imReportID x \<in> rrID ` set reports" by (simp add: impacts normalize_twice(1) ids)
  then obtain p where p: "p \<in> set reports" "rrID p = imReportID x" by (metis imageE)
  have own: "(\<exists>y\<in>{y \<in> set items. imReportID y = imReportID x}. P y) \<longleftrightarrow>
      (\<exists>p\<in>set reports. rrID p = imReportID x \<and> (\<exists>r\<in>hit_rows db ch (imReportID x). P (row_impact p r)))" for P
    by (force simp: mem row_impact_def)
  show "set (imComponentIDs x) = (\<Union>y\<in>hit_rows db ch (imReportID x). set (drComponentIDs y))"
  proof (rule set_eqI)
    fix k
    have "k \<in> set (imComponentIDs x) \<longleftrightarrow> (\<exists>y\<in>{y \<in> set items. imReportID y = imReportID x}. k \<in> set (imComponentIDs y))"
      using s by (auto simp: sum_of_def Let_def)
    also have "\<dots> \<longleftrightarrow> k \<in> (\<Union>y\<in>hit_rows db ch (imReportID x). set (drComponentIDs y))"
      unfolding own using p by (auto simp: row_impact_def)
    finally show "k \<in> set (imComponentIDs x) \<longleftrightarrow> k \<in> (\<Union>y\<in>hit_rows db ch (imReportID x). set (drComponentIDs y))" .
  qed
  show "set (imVersionIDs x) = {v. \<exists>y\<in>hit_rows db ch (imReportID x). drVersionID y = Some v}"
  proof (rule set_eqI)
    fix v
    have "v \<in> set (imVersionIDs x) \<longleftrightarrow> (\<exists>y\<in>{y \<in> set items. imReportID y = imReportID x}. v \<in> set (imVersionIDs y))"
      using s by (auto simp: sum_of_def Let_def)
    also have "\<dots> \<longleftrightarrow> v \<in> {v. \<exists>y\<in>hit_rows db ch (imReportID x). drVersionID y = Some v}"
      unfolding own row_versions using p by auto
    finally show "v \<in> set (imVersionIDs x) \<longleftrightarrow> v \<in> {v. \<exists>y\<in>hit_rows db ch (imReportID x). drVersionID y = Some v}" .
  qed
  have "imDraftAffected x \<longleftrightarrow> (\<exists>y\<in>{y \<in> set items. imReportID y = imReportID x}. imDraftAffected y)"
    using s by (simp add: sum_of_def Let_def)
  then show "imDraftAffected x \<longleftrightarrow> (\<exists>y\<in>hit_rows db ch (imReportID x). drVersionID y = None)"
    unfolding own using p by (auto simp: row_impact_def)
  have "imPublishedImpact x \<longleftrightarrow> (\<exists>y\<in>{y \<in> set items. imReportID y = imReportID x}. imPublishedImpact y)"
    using s by (simp add: sum_of_def Let_def)
  then show "imPublishedImpact x \<longleftrightarrow> (\<exists>y\<in>hit_rows db ch (imReportID x). drVersionID y \<noteq> None)"
    unfolding own using p by (auto simp: row_impact_def)
qed

lemma hit_rows_held:
  assumes "set db = rows_of semantic S" and "\<forall>(r, v, d)\<in>S. identifiers_unique d"
    and "change_kind_name (chKind ch) \<in> set change_types" and "trim_space (chObjectID ch) \<noteq> []"
  shows "y \<in> hit_rows db ch r \<Longrightarrow> \<exists>d. (r, drVersionID y, d) \<in> S \<and> object_uses semantic d ch \<and>
      set (drComponentIDs y) = {k. component_uses semantic d k (change_kind_name (chKind ch)) (chObjectID ch)}"
    and "(r, v, d) \<in> S \<Longrightarrow> object_uses semantic d ch \<Longrightarrow> \<exists>y\<in>hit_rows db ch r. drVersionID y = v \<and>
      set (drComponentIDs y) = {k. component_uses semantic d k (change_kind_name (chKind ch)) (chObjectID ch)}"
proof -
  note rows = change_rows [OF _ assms(3,4)]
  show "\<exists>d. (r, drVersionID y, d) \<in> S \<and> object_uses semantic d ch \<and>
      set (drComponentIDs y) = {k. component_uses semantic d k (change_kind_name (chKind ch)) (chObjectID ch)}"
    if y: "y \<in> hit_rows db ch r"
  proof -
    from y have "y \<in> rows_of semantic S" "drReportID y = r" using assms(1) by (auto simp: hit_rows_def)
    then obtain d where d: "(r, drVersionID y, d) \<in> S" "y \<in> set (dependency_rows r (drVersionID y) (BuildIndexes semantic d))"
      by (auto simp: rows_of_mem)
    then have "identifiers_unique d" using assms(2) by blast
    from rows(1) [OF this d(2)] y d(1) show ?thesis by (auto simp: hit_rows_def)
  qed
  show "\<exists>y\<in>hit_rows db ch r. drVersionID y = v \<and>
      set (drComponentIDs y) = {k. component_uses semantic d k (change_kind_name (chKind ch)) (chObjectID ch)}"
    if d: "(r, v, d) \<in> S" "object_uses semantic d ch"
  proof -
    from d(1) assms(2) have u: "identifiers_unique d" by blast
    from rows(2) [OF u d(2)] obtain y where y: "y \<in> set (dependency_rows r v (BuildIndexes semantic d))"
      "drType y = change_kind_name (chKind ch)" "drID y = chObjectID ch" by blast
    note k = dependency_rows_key [OF y(1)]
    have "y \<in> set db" using y(1) d(1) k by (auto simp: assms(1) rows_of_mem)
    with rows(1) [OF u y] y k show ?thesis by (intro bexI [of _ y]) (auto simp: hit_rows_def)
  qed
qed

text \<open>C40: impact analysis is exact. After any writes of drafts and versions (whose definitions have
  unique identifiers, as validated ones do), the analysis of a change lists exactly the visible
  reports of which some stored definition uses the changed object, each once; for each of them
  exactly the placed components that use it in some stored definition, the published versions that
  use it, and whether the draft and whether any version does. Overwritten drafts play no part.\<close>

theorem impact_analysis_is_exact:
  assumes "write_all semantic ws [] = Some db" and "\<forall>(r, v, d)\<in>held ws. identifiers_unique d"
    and "\<And>s. canonical s \<Longrightarrow> trim_space s \<noteq> []"
    and "AnalyzeImpact canonical tenant reports db ch = Some (impacts, severity)"
  shows "distinct (map imReportID impacts) \<and>
    imReportID ` set impacts = {r \<in> rrID ` set reports. \<exists>v d. (r, v, d) \<in> held ws \<and> object_uses semantic d ch} \<and>
    (\<forall>x\<in>set impacts.
       set (imComponentIDs x) = {k. \<exists>v d. (imReportID x, v, d) \<in> held ws \<and>
         component_uses semantic d k (change_kind_name (chKind ch)) (chObjectID ch)} \<and>
       set (imVersionIDs x) = {v. \<exists>d. (imReportID x, Some v, d) \<in> held ws \<and> object_uses semantic d ch} \<and>
       (imDraftAffected x \<longleftrightarrow> (\<exists>d. (imReportID x, None, d) \<in> held ws \<and> object_uses semantic d ch)) \<and>
       (imPublishedImpact x \<longleftrightarrow> (\<exists>v d. (imReportID x, Some v, d) \<in> held ws \<and> object_uses semantic d ch)))"
proof -
  note a = analyzed [OF assms(4)]
  have rows: "set db = rows_of semantic (held ws)"
    using write_all_rows [OF assms(1)] by (simp add: rows_of_def)
  note hit = hit_rows_held [OF rows assms(2) change_valid_facts [OF a(1) assms(3)]]
  have some: "(\<exists>y\<in>hit_rows db ch r. drVersionID y = v) \<longleftrightarrow> (\<exists>d. (r, v, d) \<in> held ws \<and> object_uses semantic d ch)" for r v
    using hit by blast
  have any: "hit_rows db ch r \<noteq> {} \<longleftrightarrow> (\<exists>v d. (r, v, d) \<in> held ws \<and> object_uses semantic d ch)" for r
    using some by blast
  have comps: "(\<Union>y\<in>hit_rows db ch r. set (drComponentIDs y)) = {k. \<exists>v d. (r, v, d) \<in> held ws \<and>
      component_uses semantic d k (change_kind_name (chKind ch)) (chObjectID ch)}" for r
  proof -
    have "component_uses semantic d k (change_kind_name (chKind ch)) (chObjectID ch) \<Longrightarrow> object_uses semantic d ch" for d k
      by (auto simp: definition_uses_def)
    with hit show ?thesis by blast
  qed
  have pub: "(\<exists>y\<in>hit_rows db ch r. drVersionID y \<noteq> None) \<longleftrightarrow> (\<exists>v d. (r, Some v, d) \<in> held ws \<and> object_uses semantic d ch)" for r
    using some by (metis option.exhaust option.distinct(1))
  show ?thesis
  proof (intro conjI ballI)
    show "distinct (map imReportID impacts)" by (rule a(3))
    show "imReportID ` set impacts = {r \<in> rrID ` set reports. \<exists>v d. (r, v, d) \<in> held ws \<and> object_uses semantic d ch}"
      unfolding a(2) any ..
  next
    fix x assume x: "x \<in> set impacts"
    show "set (imComponentIDs x) = {k. \<exists>v d. (imReportID x, v, d) \<in> held ws \<and>
         component_uses semantic d k (change_kind_name (chKind ch)) (chObjectID ch)}"
      unfolding a(4) [OF x] comps ..
    show "set (imVersionIDs x) = {v. \<exists>d. (imReportID x, Some v, d) \<in> held ws \<and> object_uses semantic d ch}"
      unfolding a(5) [OF x] some ..
    show "imDraftAffected x \<longleftrightarrow> (\<exists>d. (imReportID x, None, d) \<in> held ws \<and> object_uses semantic d ch)"
      unfolding a(6) [OF x] some ..
    show "imPublishedImpact x \<longleftrightarrow> (\<exists>v d. (imReportID x, Some v, d) \<in> held ws \<and> object_uses semantic d ch)"
      unfolding a(7) [OF x] pub ..
  qed
qed

definition no_references :: "string \<Rightarrow> ir_references" where
  "no_references s = \<lparr> irMetrics = [], irGroupBy = [], irFilters = [], irTimeRange = None \<rparr>"

definition sample_writes :: "index_write list" where
  "sample_writes = [DraftSaved ''r1'' (chart_report 3), VersionPublished ''r1'' ''v1'' (chart_report 3)]"

definition sample_change :: ChangeSpec where
  "sample_change = \<lparr> chKind = ChangeDatasetVersion, chObjectID = ''ds-1'', chChangedFields = [''label'', ''timeGrain''] \<rparr>"

definition sample_reports :: "report_row list" where
  "sample_reports = [\<lparr> rrID = ''r0'', rrName = ''Other'', rrOwnerID = ''u'' \<rparr>, \<lparr> rrID = ''r1'', rrName = ''Sales'', rrOwnerID = ''u'' \<rparr>]"

lemma sample_analysis:
  "\<exists>db. write_all no_references sample_writes [] = Some db \<and>
     AnalyzeImpact (\<lambda>s. s = ''ds-1'') ''t'' sample_reports db sample_change = Some
       ([\<lparr> imReportID = ''r1'', imReportName = ''Sales'', imOwnerID = ''u'', imComponentIDs = [''c1'', ''c2''],
           imVersionIDs = [''v1''], imDraftAffected = True, imPublishedImpact = True \<rparr>], SeverityBreaking)"
proof -
  have "(case write_all no_references sample_writes [] of None \<Rightarrow> None
      | Some db \<Rightarrow> AnalyzeImpact (\<lambda>s. s = ''ds-1'') ''t'' sample_reports db sample_change) = Some
       ([\<lparr> imReportID = ''r1'', imReportName = ''Sales'', imOwnerID = ''u'', imComponentIDs = [''c1'', ''c2''],
           imVersionIDs = [''v1''], imDraftAffected = True, imPublishedImpact = True \<rparr>], SeverityBreaking)"
    by code_simp
  then show ?thesis by (auto split: option.splits)
qed

theorem impact_analysis_is_exact_witness:
  "{''c1'', ''c2''} = {k. \<exists>v d. (''r1'', v, d) \<in> held sample_writes \<and> component_uses no_references d k ''DATASET_VERSION'' ''ds-1''} \<and>
   {''v1''} = {v. \<exists>d. (''r1'', Some v, d) \<in> held sample_writes \<and> definition_uses no_references d ''DATASET_VERSION'' ''ds-1''}"
proof -
  obtain db where w: "write_all no_references sample_writes [] = Some db"
    and a: "AnalyzeImpact (\<lambda>s. s = ''ds-1'') ''t'' sample_reports db sample_change = Some
       ([\<lparr> imReportID = ''r1'', imReportName = ''Sales'', imOwnerID = ''u'', imComponentIDs = [''c1'', ''c2''],
           imVersionIDs = [''v1''], imDraftAffected = True, imPublishedImpact = True \<rparr>], SeverityBreaking)"
    using sample_analysis by blast
  have u: "\<forall>(r, v, d)\<in>held sample_writes. identifiers_unique d"
    using unique_if_valid [OF chart_report_valid] by (auto simp: sample_writes_def)
  have n: "s = ''ds-1'' \<Longrightarrow> trim_space s \<noteq> []" for s by (simp add: trim_space_def space_def)
  have k: "change_kind_name (chKind sample_change) = ''DATASET_VERSION''" "chObjectID sample_change = ''ds-1''"
    by (simp_all add: sample_change_def change_kind_name_def)
  from impact_analysis_is_exact [OF w u n a] show ?thesis unfolding k by simp
qed

end
