(* ===== verification/DatasetExpression.thy ===== *)
theory DatasetExpression imports Complex_Main Prelude begin

text \<open>
  The expression language of \<open>internal/dataset\<close> (\<open>model.go\<close>, \<open>dsl.go\<close>): the tree a semantic query is
  compiled into, the check of its shape, and the check of the filters applied at a source. A Go
  struct with a type tag and optional parts is a datatype with one constructor; the tag is an
  enumeration with every tag the two expression languages know.
\<close>

section \<open>Data\<close>

text \<open>A value of type \<open>any\<close>: what JSON decodes to, \<open>VOther\<close> for an object or a number no float64 holds.\<close>

datatype go_value = VNil | VBool bool | VNumber rat | VString string | VList "go_value list" | VOther

datatype ArithmeticType = Add | Subtract | Multiply | Divide
datatype FunctionType = Abs | Floor | Ceil | Trim | Upper | Lower
datatype ComparisonType = Equals | NotEquals | Gt | Gte | Lt | Lte | Like | Contains | NotContains | In | NotIn
datatype TestType = IsNull | IsNotNull | Negation
datatype DateType = Trunc | Format | CurrentDate | Diff | Extract | Start | End

datatype NodeType = TyFieldRef | TyParamRef | TyMeasureRef | TyLiteral | TyTruth bool | TySubjectAttribute
  | TyArray | TyArithmetic ArithmeticType | TyCoalesce | TyConcat | TyFunction FunctionType | TyRound
  | TyCast | TyNullif | TyAggregate | TyWindow | TyCase | TyComparison ComparisonType
  | TyBetween | TyTest TestType | TyAnd | TyOr | TyDate DateType | TySubstring | TyReplace | OtherType string

abbreviation TyTrue where "TyTrue \<equiv> TyTruth True"
abbreviation TyFalse where "TyFalse \<equiv> TyTruth False"

definition arithmetic_name :: "ArithmeticType \<Rightarrow> string" where
  "arithmetic_name t = (case t of Add \<Rightarrow> ''ADD'' | Subtract \<Rightarrow> ''SUBTRACT'' | Multiply \<Rightarrow> ''MULTIPLY'' | Divide \<Rightarrow> ''DIVIDE'')"

definition function_name :: "FunctionType \<Rightarrow> string" where
  "function_name t = (case t of Abs \<Rightarrow> ''ABS'' | Floor \<Rightarrow> ''FLOOR'' | Ceil \<Rightarrow> ''CEIL'' | Trim \<Rightarrow> ''TRIM'' | Upper \<Rightarrow> ''UPPER'' | Lower \<Rightarrow> ''LOWER'')"

definition comparison_name :: "ComparisonType \<Rightarrow> string" where
  "comparison_name t = (case t of Equals \<Rightarrow> ''EQUALS'' | NotEquals \<Rightarrow> ''NOT_EQUALS'' | Gt \<Rightarrow> ''GT'' | Gte \<Rightarrow> ''GTE''
     | Lt \<Rightarrow> ''LT'' | Lte \<Rightarrow> ''LTE'' | Like \<Rightarrow> ''LIKE'' | Contains \<Rightarrow> ''CONTAINS'' | NotContains \<Rightarrow> ''NOT_CONTAINS''
     | In \<Rightarrow> ''IN'' | NotIn \<Rightarrow> ''NOT_IN'')"

definition test_name :: "TestType \<Rightarrow> string" where
  "test_name t = (case t of IsNull \<Rightarrow> ''IS_NULL'' | IsNotNull \<Rightarrow> ''IS_NOT_NULL'' | Negation \<Rightarrow> ''NOT'')"

definition date_name :: "DateType \<Rightarrow> string" where
  "date_name t = (case t of Trunc \<Rightarrow> ''DATE_TRUNC'' | Format \<Rightarrow> ''DATE_FORMAT'' | CurrentDate \<Rightarrow> ''CURRENT_DATE''
     | Diff \<Rightarrow> ''DATE_DIFF'' | Extract \<Rightarrow> ''DATE_EXTRACT'' | Start \<Rightarrow> ''DATE_START'' | End \<Rightarrow> ''DATE_END'')"

definition type_name :: "NodeType \<Rightarrow> string" where
  "type_name t = (case t of TyFieldRef \<Rightarrow> ''FIELD_REF'' | TyParamRef \<Rightarrow> ''PARAM_REF'' | TyMeasureRef \<Rightarrow> ''MEASURE_REF''
     | TyLiteral \<Rightarrow> ''LITERAL'' | TyTruth b \<Rightarrow> (if b then ''TRUE'' else ''FALSE'') | TySubjectAttribute \<Rightarrow> ''SUBJECT_ATTRIBUTE''
     | TyArray \<Rightarrow> ''ARRAY'' | TyArithmetic a \<Rightarrow> arithmetic_name a | TyCoalesce \<Rightarrow> ''COALESCE'' | TyConcat \<Rightarrow> ''CONCAT''
     | TyFunction f \<Rightarrow> function_name f | TyRound \<Rightarrow> ''ROUND'' | TyCast \<Rightarrow> ''CAST'' | TyNullif \<Rightarrow> ''NULLIF''
     | TyAggregate \<Rightarrow> ''AGGREGATE'' | TyWindow \<Rightarrow> ''WINDOW'' | TyCase \<Rightarrow> ''CASE'' | TyComparison c \<Rightarrow> comparison_name c
     | TyBetween \<Rightarrow> ''BETWEEN'' | TyTest t \<Rightarrow> test_name t | TyAnd \<Rightarrow> ''AND'' | TyOr \<Rightarrow> ''OR'' | TyDate d \<Rightarrow> date_name d
     | TySubstring \<Rightarrow> ''SUBSTRING'' | TyReplace \<Rightarrow> ''REPLACE'' | OtherType s \<Rightarrow> s)"

datatype DatasetExpression = DatasetExpression (deType: NodeType) (deNodeID: string) (deField: string) (deCode: string)
  (deFunction: string) (deUnit: string) (deTargetType: string) (deValue: go_value)
  (deArgument: "DatasetExpression option") (deArguments: "DatasetExpression list")
  (deLeft: "DatasetExpression option") (deRight: "DatasetExpression option")
  (deLower: "DatasetExpression option") (deUpper: "DatasetExpression option")
  (deWhens: "(DatasetExpression \<times> DatasetExpression) list") (deElse: "DatasetExpression option")
  (dePartitionBy: "DatasetExpression list") (deOrderBy: "(DatasetExpression \<times> string) list")

text \<open>Composite literals as the code writes them; what a literal does not name has its zero value.\<close>

definition e_field :: "string \<Rightarrow> string \<Rightarrow> DatasetExpression" where
  "e_field n f = DatasetExpression TyFieldRef n f [] [] [] [] VNil None [] None None None None [] None [] []"

definition e_literal :: "go_value \<Rightarrow> DatasetExpression" where
  "e_literal v = DatasetExpression TyLiteral [] [] [] [] [] [] v None [] None None None None [] None [] []"

definition e_unary :: "NodeType \<Rightarrow> DatasetExpression \<Rightarrow> DatasetExpression" where
  "e_unary t a = DatasetExpression t [] [] [] [] [] [] VNil (Some a) [] None None None None [] None [] []"

definition e_cast :: "string \<Rightarrow> DatasetExpression \<Rightarrow> DatasetExpression" where
  "e_cast tt a = DatasetExpression TyCast [] [] [] [] [] tt VNil (Some a) [] None None None None [] None [] []"

definition e_nary :: "NodeType \<Rightarrow> DatasetExpression list \<Rightarrow> DatasetExpression" where
  "e_nary t as = DatasetExpression t [] [] [] [] [] [] VNil None as None None None None [] None [] []"

definition e_binary :: "NodeType \<Rightarrow> DatasetExpression \<Rightarrow> DatasetExpression \<Rightarrow> DatasetExpression" where
  "e_binary t l r = DatasetExpression t [] [] [] [] [] [] VNil None [] (Some l) (Some r) None None [] None [] []"

definition e_between :: "DatasetExpression \<Rightarrow> DatasetExpression \<Rightarrow> DatasetExpression \<Rightarrow> DatasetExpression" where
  "e_between l lo up = DatasetExpression TyBetween [] [] [] [] [] [] VNil None [] (Some l) None (Some lo) (Some up) [] None [] []"

definition e_case :: "(DatasetExpression \<times> DatasetExpression) list \<Rightarrow> DatasetExpression \<Rightarrow> DatasetExpression" where
  "e_case ws el = DatasetExpression TyCase [] [] [] [] [] [] VNil None [] None None None None ws (Some el) [] []"

definition e_aggregate :: "string \<Rightarrow> DatasetExpression \<Rightarrow> (DatasetExpression \<times> string) list \<Rightarrow> DatasetExpression" where
  "e_aggregate fn a ob = DatasetExpression TyAggregate [] [] [] fn [] [] VNil (Some a) [] None None None None [] None [] ob"

lemmas e_defs = e_field_def e_literal_def e_unary_def e_cast_def e_nary_def e_binary_def e_between_def e_case_def e_aggregate_def

section \<open>Shape\<close>

text \<open>\<open>visitDatasetExpression\<close> calls its argument on these, in this order.\<close>

primrec subexpressions :: "DatasetExpression \<Rightarrow> DatasetExpression list" where
  "subexpressions (DatasetExpression ty n f c fn u tt v arg args l r lo up whens els pb ob) =
     DatasetExpression ty n f c fn u tt v arg args l r lo up whens els pb ob #
     concat (map (\<lambda>x. case x of None \<Rightarrow> [] | Some es \<Rightarrow> es)
       [map_option subexpressions arg, map_option subexpressions l, map_option subexpressions r,
        map_option subexpressions lo, map_option subexpressions up, map_option subexpressions els]) @
     concat (map subexpressions args) @
     concat (map (\<lambda>(ws, ts). ws @ ts) (map (map_prod subexpressions subexpressions) whens)) @
     concat (map subexpressions pb) @ concat (map fst (map (map_prod subexpressions id) ob))"

definition expressionHasAggregate :: "DatasetExpression \<Rightarrow> bool" where
  "expressionHasAggregate e = list_ex (\<lambda>x. deType x = TyAggregate) (subexpressions e)"

definition expressionHasWindow :: "DatasetExpression \<Rightarrow> bool" where
  "expressionHasWindow e = list_ex (\<lambda>x. deType x = TyWindow) (subexpressions e)"

text \<open>A float64 outside the int64 range is refused; the bound itself wraps on conversion.\<close>

definition expressionLiteralInteger :: "DatasetExpression \<Rightarrow> int option" where
  "expressionLiteralInteger e = (if deType e \<noteq> TyLiteral then None else (case deValue e of
       VNumber q \<Rightarrow> if of_int \<lfloor>q\<rfloor> \<noteq> q \<or> q < - (2 ^ 63) \<or> 2 ^ 63 < q then None else Some (wrap64 \<lfloor>q\<rfloor>)
     | _ \<Rightarrow> None))"

definition expressionLiteralString :: "DatasetExpression \<Rightarrow> string option" where
  "expressionLiteralString e = (if deType e \<noteq> TyLiteral then None else (case deValue e of VString s \<Rightarrow> Some s | _ \<Rightarrow> None))"

definition cast_targets :: "string list" where
  "cast_targets = [''STRING'', ''INTEGER'', ''DECIMAL'', ''BOOLEAN'', ''DATE'', ''DATETIME'']"

definition aggregate_functions :: "string list" where
  "aggregate_functions = [''SUM'', ''AVG'', ''MIN'', ''MAX'', ''COUNT'', ''COUNT_DISTINCT'', ''PERIOD_END'', ''PERIOD_BEGIN'']"

definition window_rankings :: "string list" where
  "window_rankings = [''ROW_NUMBER'', ''RANK'', ''DENSE_RANK'']"

definition window_functions :: "string list" where
  "window_functions = window_rankings @ [''SUM'', ''AVG'', ''COUNT'', ''MIN'', ''MAX'']"

definition plain :: "DatasetExpression \<Rightarrow> bool" where
  "plain e \<longleftrightarrow> \<not> expressionHasAggregate e \<and> \<not> expressionHasWindow e"

text \<open>\<open>nodes\<close> and \<open>parameters\<close> are absent where the code passes a nil map.\<close>

definition declared :: "string list option \<Rightarrow> string \<Rightarrow> bool" where
  "declared names x = (case names of None \<Rightarrow> True | Some xs \<Rightarrow> x \<in> set xs)"

text \<open>
  The check of a node from the checks of its parts. A part is paired with whether it is valid; \<open>plain\<close>
  parts contain neither aggregate nor window.
\<close>

type_synonym checked = "DatasetExpression \<times> bool"

definition required :: "checked option \<Rightarrow> bool" where
  "required x = (case x of None \<Rightarrow> False | Some (_, ok) \<Rightarrow> ok)"

definition literal_at :: "checked list \<Rightarrow> nat \<Rightarrow> int option" where
  "literal_at args i = expressionLiteralInteger (fst (args ! i))"

definition date_units :: "DateType \<Rightarrow> string list" where
  "date_units d = (case d of Trunc \<Rightarrow> [''DAY'', ''WEEK'', ''MONTH'', ''QUARTER'', ''YEAR'']
     | Format \<Rightarrow> [''DAY'', ''MONTH'', ''QUARTER'', ''YEAR''] | CurrentDate \<Rightarrow> [] | Diff \<Rightarrow> [''DAY'', ''MONTH'', ''YEAR'']
     | Extract \<Rightarrow> [''DAY'', ''WEEK'', ''MONTH'', ''QUARTER'', ''YEAR'', ''WEEKDAY'', ''DAY_OF_YEAR'']
     | Start \<Rightarrow> [''WEEK'', ''MONTH'', ''QUARTER'', ''YEAR''] | End \<Rightarrow> [''WEEK'', ''MONTH'', ''QUARTER'', ''YEAR''])"

definition date_valid :: "DateType \<Rightarrow> string \<Rightarrow> checked option \<Rightarrow> checked list \<Rightarrow> bool" where
  "date_valid d u arg args = (case d of CurrentDate \<Rightarrow> True
     | Diff \<Rightarrow> u \<in> set (date_units d) \<and> length args = 2 \<and> list_all snd args
     | _ \<Rightarrow> u \<in> set (date_units d) \<and> required arg)"

definition aggregate_valid :: "string \<Rightarrow> checked option \<Rightarrow> (checked \<times> string) list \<Rightarrow> bool" where
  "aggregate_valid fn arg ob \<longleftrightarrow> fn \<in> set aggregate_functions \<and> (fn \<noteq> ''COUNT'' \<or> arg \<noteq> None \<longrightarrow> required arg) \<and>
     (if fn = ''PERIOD_END'' \<or> fn = ''PERIOD_BEGIN'' then length ob = 1 \<and>
        list_all (\<lambda>((e, ok), d). ok \<and> plain e \<and> d = (if fn = ''PERIOD_END'' then ''DESC'' else ''ASC'')) ob
      else ob = [])"

definition window_valid :: "string \<Rightarrow> checked option \<Rightarrow> checked list \<Rightarrow> (checked \<times> string) list \<Rightarrow> bool" where
  "window_valid fn arg pb ob \<longleftrightarrow> fn \<in> set window_functions \<and>
     (if fn \<in> set window_rankings then arg = None else required arg \<and> plain (fst (the arg))) \<and>
     pb \<noteq> [] \<and> list_all (\<lambda>(e, ok). ok \<and> plain e) pb \<and>
     ob \<noteq> [] \<and> list_all (\<lambda>((e, ok), d). ok \<and> plain e \<and> d \<in> set [''ASC'', ''DESC'']) ob"

definition node_valid ::
  "string list option \<Rightarrow> string list option \<Rightarrow> NodeType \<Rightarrow> string \<Rightarrow> string \<Rightarrow> string \<Rightarrow> string \<Rightarrow> string \<Rightarrow> string \<Rightarrow>
   checked option \<Rightarrow> checked list \<Rightarrow> checked option \<Rightarrow> checked option \<Rightarrow> checked option \<Rightarrow> checked option \<Rightarrow>
   (checked \<times> checked) list \<Rightarrow> checked option \<Rightarrow> checked list \<Rightarrow> (checked \<times> string) list \<Rightarrow> bool" where
  "node_valid nodes params ty n f c fn u tt arg args l r lo up whens els pb ob = (case ty of
       TyFieldRef \<Rightarrow> declared nodes n \<and> f \<noteq> []
     | TyParamRef \<Rightarrow> declared params c
     | TyLiteral \<Rightarrow> True
     | TyArray \<Rightarrow> args \<noteq> [] \<and> list_all snd args
     | TyDate d \<Rightarrow> date_valid d u arg args
     | TyAggregate \<Rightarrow> aggregate_valid fn arg ob
     | TyNullif \<Rightarrow> length args = 2 \<and> list_all snd args
     | TyWindow \<Rightarrow> window_valid fn arg pb ob
     | TyCast \<Rightarrow> tt \<in> set cast_targets \<and> required arg
     | TyFunction _ \<Rightarrow> required arg
     | TyRound \<Rightarrow> length args = 2 \<and> list_all snd args \<and>
         (case literal_at args 1 of None \<Rightarrow> False | Some p \<Rightarrow> - 10 \<le> p \<and> p \<le> 10)
     | TySubstring \<Rightarrow> length args = 3 \<and> list_all snd args \<and>
         (case literal_at args 1 of None \<Rightarrow> False | Some s \<Rightarrow> 1 \<le> s) \<and>
         (case literal_at args 2 of None \<Rightarrow> False | Some s \<Rightarrow> 0 \<le> s)
     | TyReplace \<Rightarrow> length args = 3 \<and> list_all snd args \<and>
         (case expressionLiteralString (fst (args ! 1)) of None \<Rightarrow> False | Some s \<Rightarrow> s \<noteq> []) \<and>
         expressionLiteralString (fst (args ! 2)) \<noteq> None
     | TyArithmetic _ \<Rightarrow> 2 \<le> length args \<and> list_all snd args
     | TyConcat \<Rightarrow> 2 \<le> length args \<and> list_all snd args
     | TyCoalesce \<Rightarrow> 2 \<le> length args \<and> list_all snd args
     | TyAnd \<Rightarrow> 2 \<le> length args \<and> list_all snd args
     | TyOr \<Rightarrow> 2 \<le> length args \<and> list_all snd args
     | TyComparison _ \<Rightarrow> required l \<and> required r
     | TyBetween \<Rightarrow> required l \<and> required lo \<and> required up
     | TyTest _ \<Rightarrow> required arg
     | TyCase \<Rightarrow> whens \<noteq> [] \<and> list_all (\<lambda>((_, w), (_, t)). w \<and> t) whens \<and> (els = None \<or> required els)
     | _ \<Rightarrow> False)"

primrec check_expression :: "string list option \<Rightarrow> string list option \<Rightarrow> DatasetExpression \<Rightarrow> checked" where
  "check_expression nodes params (DatasetExpression ty n f c fn u tt v arg args l r lo up whens els pb ob) =
     (DatasetExpression ty n f c fn u tt v arg args l r lo up whens els pb ob,
      node_valid nodes params ty n f c fn u tt (map_option (check_expression nodes params) arg)
       (map (check_expression nodes params) args) (map_option (check_expression nodes params) l)
       (map_option (check_expression nodes params) r) (map_option (check_expression nodes params) lo)
       (map_option (check_expression nodes params) up)
       (map (map_prod (check_expression nodes params) (check_expression nodes params)) whens)
       (map_option (check_expression nodes params) els) (map (check_expression nodes params) pb)
       (map (map_prod (check_expression nodes params) id) ob))"

definition validateExpression :: "string list option \<Rightarrow> string list option \<Rightarrow> DatasetExpression \<Rightarrow> bool" where
  "validateExpression nodes params e = snd (check_expression nodes params e)"

lemma check_expression_eq: "check_expression nodes params e = (e, validateExpression nodes params e)"
  by (cases e) (simp add: validateExpression_def)

declare check_expression.simps [simp del] subexpressions.simps [simp del]

definition boolean_types :: "NodeType list" where
  "boolean_types = map TyComparison [Equals, NotEquals, Gt, Gte, Lt, Lte, Like, Contains, NotContains, In, NotIn] @
     [TyBetween, TyTest IsNull, TyTest IsNotNull, TyAnd, TyOr, TyTest Negation]"

text \<open>A filter applied at a source is a predicate over the fields of its own node, without aggregates.\<close>

definition validateSourceFilterExpression :: "string \<Rightarrow> DatasetExpression \<Rightarrow> bool" where
  "validateSourceFilterExpression node e \<longleftrightarrow> deType e \<in> set boolean_types \<and>
     list_all (\<lambda>x. (deType x = TyFieldRef \<longrightarrow> deNodeID x = node) \<and> deType x \<noteq> TyAggregate \<and> deType x \<noteq> TyWindow)
       (subexpressions e)"

end
