(* ===== verification/SemanticAst.thy ===== *)
theory SemanticAst imports DatasetExpression ReportValidate begin

text \<open>
  The semantic expression language and its translation (\<open>askdata/compiler/adapter_ast.go\<close>): formulas of
  measures and metrics, default filters and row policies are trees over governed identifiers; the
  translator turns them into dataset expressions. JSON decoding is that of \<open>encoding/json\<close>: a tree is
  what a document decodes to, with the keys it had; \<open>None\<close> stands for a document that does not decode.
\<close>

section \<open>Trees\<close>

datatype semanticAST = SemanticAST (saType: NodeType) (saFieldID: ID) (saMeasureVersionID: ID) (saMeasureID: ID)
  (saTargetType: string) (saAttributeKey: string) (saValue: "go_value option")
  (saArgument: "semanticAST option") (saArguments: "semanticAST list")
  (saLeft: "semanticAST option") (saRight: "semanticAST option")
  (saLower: "semanticAST option") (saUpper: "semanticAST option") (saPresent: "string list")

definition semantic_comparisons :: "ComparisonType list" where
  "semantic_comparisons = [Equals, NotEquals, Gt, Gte, Lt, Lte, In, NotIn]"

definition semanticBooleanType :: "NodeType \<Rightarrow> bool" where
  "semanticBooleanType t = (case t of TyTruth _ \<Rightarrow> True | TyComparison c \<Rightarrow> c \<in> set semantic_comparisons
     | TyBetween \<Rightarrow> True | TyTest _ \<Rightarrow> True | TyAnd \<Rightarrow> True | TyOr \<Rightarrow> True | _ \<Rightarrow> False)"

definition subjectAttributeKeyPattern :: "string \<Rightarrow> bool" where
  "subjectAttributeKeyPattern k = (case k of [] \<Rightarrow> False
     | c # cs \<Rightarrow> lower c \<and> length cs \<le> 63 \<and> list_all (\<lambda>x. lower x \<or> digit x \<or> x = CHR ''_'') cs)"

definition measureReference :: "semanticAST \<Rightarrow> ID" where
  "measureReference n = (if saMeasureVersionID n \<noteq> [] then saMeasureVersionID n else saMeasureID n)"

text \<open>A literal is null, a truth value, a finite number or a string of at most 4096 bytes without NUL.\<close>

definition decodeLiteral :: "go_value option \<Rightarrow> go_value option" where
  "decodeLiteral raw = (case raw of None \<Rightarrow> None
     | Some (VString s) \<Rightarrow> if length s \<le> 4096 \<and> CHR 0x00 \<notin> set s then Some (VString s) else None
     | Some (VList _) \<Rightarrow> None | Some VOther \<Rightarrow> None | Some v \<Rightarrow> Some v)"

definition exact :: "semanticAST \<Rightarrow> string list \<Rightarrow> string list \<Rightarrow> bool" where
  "exact n must may \<longleftrightarrow> list_all (\<lambda>k. k \<in> set (saPresent n)) must \<and>
     list_all (\<lambda>k. k \<in> set must \<or> k \<in> set may) (saPresent n)"

section \<open>Validation\<close>

text \<open>The checks of a node itself, and the children the code goes on to.\<close>

definition argument_type :: "semanticAST \<Rightarrow> NodeType option" where
  "argument_type n = map_option saType (saArgument n)"

definition key_type :: string where "key_type = ''type''"
definition key_argument :: string where "key_argument = ''argument''"
definition key_arguments :: string where "key_arguments = ''arguments''"

definition measure_ref_valid :: "semanticAST \<Rightarrow> bool" where
  "measure_ref_valid n \<longleftrightarrow> (''measureVersionId'' \<in> set (saPresent n)) \<noteq> (''measureId'' \<in> set (saPresent n)) \<and>
     exact n [key_type] [''measureVersionId'', ''measureId''] \<and> valid_id (measureReference n)"

definition in_operand :: "ComparisonType \<Rightarrow> semanticAST option \<Rightarrow> bool" where
  "in_operand c r \<longleftrightarrow> (c = In \<or> c = NotIn \<longrightarrow> (case r of None \<Rightarrow> False | Some x \<Rightarrow> saType x = TyArray \<or> saType x = TySubjectAttribute))"

definition ast_shape :: "semanticAST \<Rightarrow> bool" where
  "ast_shape n \<longleftrightarrow> key_type \<in> set (saPresent n) \<and> saType n \<noteq> OtherType [] \<and> (case saType n of
       TyFieldRef \<Rightarrow> exact n [key_type, ''fieldId''] [] \<and> valid_id (saFieldID n)
     | TyMeasureRef \<Rightarrow> measure_ref_valid n
     | TyLiteral \<Rightarrow> exact n [key_type, ''value''] [] \<and> decodeLiteral (saValue n) \<noteq> None
     | TyTruth _ \<Rightarrow> exact n [key_type] []
     | TySubjectAttribute \<Rightarrow> exact n [key_type, ''attributeKey''] [] \<and> subjectAttributeKeyPattern (saAttributeKey n)
     | TyArray \<Rightarrow> exact n [key_type, key_arguments] [] \<and> 1 \<le> length (saArguments n) \<and> length (saArguments n) \<le> 1000 \<and>
         list_all (\<lambda>a. saType a = TyLiteral) (saArguments n)
     | TyArithmetic _ \<Rightarrow> exact n [key_type, key_arguments] [] \<and> 2 \<le> length (saArguments n) \<and> length (saArguments n) \<le> 32
     | TyCoalesce \<Rightarrow> exact n [key_type, key_arguments] [] \<and> 2 \<le> length (saArguments n) \<and> length (saArguments n) \<le> 32
     | TyAnd \<Rightarrow> exact n [key_type, key_arguments] [] \<and> 2 \<le> length (saArguments n) \<and> length (saArguments n) \<le> 32 \<and>
         list_all (\<lambda>a. semanticBooleanType (saType a)) (saArguments n)
     | TyOr \<Rightarrow> exact n [key_type, key_arguments] [] \<and> 2 \<le> length (saArguments n) \<and> length (saArguments n) \<le> 32 \<and>
         list_all (\<lambda>a. semanticBooleanType (saType a)) (saArguments n)
     | TyFunction f \<Rightarrow> f \<in> {Abs, Floor, Ceil} \<and> exact n [key_type, key_argument] [] \<and> saArgument n \<noteq> None
     | TyTest t \<Rightarrow> exact n [key_type, key_argument] [] \<and> (case argument_type n of None \<Rightarrow> False
         | Some a \<Rightarrow> t = Negation \<longrightarrow> semanticBooleanType a)
     | TyRound \<Rightarrow> exact n [key_type, key_arguments] [] \<and> length (saArguments n) = 2
     | TyCast \<Rightarrow> exact n [key_type, ''targetType'', key_argument] [] \<and> saTargetType n \<in> set cast_targets \<and> saArgument n \<noteq> None
     | TyComparison c \<Rightarrow> c \<in> set semantic_comparisons \<and> exact n [key_type, ''left'', ''right''] [] \<and>
         saLeft n \<noteq> None \<and> saRight n \<noteq> None \<and> in_operand c (saRight n)
     | TyBetween \<Rightarrow> exact n [key_type, ''left'', ''lower'', ''upper''] [] \<and>
         saLeft n \<noteq> None \<and> saLower n \<noteq> None \<and> saUpper n \<noteq> None
     | _ \<Rightarrow> False)"

definition visited_lists :: "NodeType \<Rightarrow> bool" where
  "visited_lists t = (case t of TyArray \<Rightarrow> True | TyArithmetic _ \<Rightarrow> True | TyCoalesce \<Rightarrow> True | TyAnd \<Rightarrow> True | TyOr \<Rightarrow> True
     | TyRound \<Rightarrow> True | _ \<Rightarrow> False)"

definition visited_argument :: "NodeType \<Rightarrow> bool" where
  "visited_argument t = (case t of TyFunction _ \<Rightarrow> True | TyTest _ \<Rightarrow> True | TyCast \<Rightarrow> True | _ \<Rightarrow> False)"

definition visited_left :: "NodeType \<Rightarrow> bool" where
  "visited_left t = (case t of TyComparison _ \<Rightarrow> True | TyBetween \<Rightarrow> True | _ \<Rightarrow> False)"

definition visited_right :: "NodeType \<Rightarrow> bool" where
  "visited_right t = (case t of TyComparison _ \<Rightarrow> True | _ \<Rightarrow> False)"

definition part_valid :: "(nat \<Rightarrow> bool) option \<Rightarrow> nat \<Rightarrow> bool" where
  "part_valid p depth = (case p of None \<Rightarrow> True | Some f \<Rightarrow> f depth)"

definition MaxDepth :: nat where "MaxDepth = 48"

primrec validateSemanticAST :: "semanticAST \<Rightarrow> nat \<Rightarrow> bool" where
  "validateSemanticAST (SemanticAST ty f mv m tt ak v arg args l r lo up pres) = (\<lambda>depth.
     depth \<le> MaxDepth \<and> ast_shape (SemanticAST ty f mv m tt ak v arg args l r lo up pres) \<and>
     (visited_lists ty \<longrightarrow> list_all (\<lambda>p. p (depth + 1)) (map validateSemanticAST args)) \<and>
     (visited_argument ty \<longrightarrow> part_valid (map_option validateSemanticAST arg) (depth + 1)) \<and>
     (visited_left ty \<longrightarrow> part_valid (map_option validateSemanticAST l) (depth + 1)) \<and>
     (visited_right ty \<longrightarrow> part_valid (map_option validateSemanticAST r) (depth + 1)) \<and>
     (ty = TyBetween \<longrightarrow> part_valid (map_option validateSemanticAST lo) (depth + 1) \<and>
        part_valid (map_option validateSemanticAST up) (depth + 1)))"

definition decodeSemanticAST :: "semanticAST option \<Rightarrow> semanticAST option" where
  "decodeSemanticAST raw = (case raw of None \<Rightarrow> None | Some n \<Rightarrow> if validateSemanticAST n 0 then Some n else None)"

primrec semanticASTContainsType :: "NodeType \<Rightarrow> semanticAST \<Rightarrow> bool" where
  "semanticASTContainsType target (SemanticAST ty f mv m tt ak v arg args l r lo up pres) =
     (ty = target \<or> list_ex (\<lambda>x. x = Some True)
        [map_option (semanticASTContainsType target) arg, map_option (semanticASTContainsType target) l,
         map_option (semanticASTContainsType target) r, map_option (semanticASTContainsType target) lo,
         map_option (semanticASTContainsType target) up] \<or>
      list_ex id (map (semanticASTContainsType target) args))"

section \<open>Translation\<close>

record FieldContract =
  fcFieldID :: ID
  fcCode :: string
  fcCanonicalType :: string
  fcNullable :: bool

datatype astMode = AstMeasure | AstMetric | AstFilter | AstRowPolicy

datatype ZeroDenominatorPolicy = ZeroDenominatorNull | ZeroDenominatorZero | OtherZeroPolicy string

record astTranslator =
  trSubjectAttributes :: "string \<Rightarrow> string list option"
  trFields :: "ID \<Rightarrow> FieldContract option"
  trMeasures :: "ID \<Rightarrow> DatasetExpression option"
  trMeasureVersions :: "ID \<Rightarrow> ID option"
  trZeroPolicy :: ZeroDenominatorPolicy

text \<open>\<open>NilPointer\<close> is the panic on a part that is not there; the validation excludes it.\<close>

datatype translate_error = SubjectAttributeUnmatched | NotAllowed | NilPointer

text \<open>A translation gives the expression, the fields and the measures it has referenced, in order.\<close>

type_synonym 'a translated = "translate_error + 'a \<times> ID list \<times> ID list"

definition anchorNodeID :: string where "anchorNodeID = ''semantic_model''"

definition fieldReference :: "FieldContract \<Rightarrow> DatasetExpression" where
  "fieldReference f = e_field anchorNodeID (fcCode f)"

definition and_then :: "'a translated \<Rightarrow> ('a \<Rightarrow> 'b translated) \<Rightarrow> 'b translated" where
  "and_then t g = (case t of Inl e \<Rightarrow> Inl e | Inr (x, fs, ms) \<Rightarrow>
     (case g x of Inl e \<Rightarrow> Inl e | Inr (y, fs', ms') \<Rightarrow> Inr (y, fs @ fs', ms @ ms')))"

definition pure :: "'a \<Rightarrow> 'a translated" where "pure x = Inr (x, [], [])"

fun translateArguments :: "DatasetExpression translated list \<Rightarrow> DatasetExpression list translated" where
  "translateArguments [] = pure []"
| "translateArguments (t # ts) = and_then t (\<lambda>x. and_then (translateArguments ts) (\<lambda>xs. pure (x # xs)))"

definition translate_part :: "(nat \<Rightarrow> DatasetExpression translated) option \<Rightarrow> nat \<Rightarrow> DatasetExpression translated" where
  "translate_part p depth = (case p of None \<Rightarrow> Inl NilPointer | Some f \<Rightarrow> f (depth + 1))"

definition predicate_mode :: "astMode \<Rightarrow> bool" where "predicate_mode m \<longleftrightarrow> m = AstFilter \<or> m = AstRowPolicy"

definition constant_condition :: "bool \<Rightarrow> DatasetExpression" where
  "constant_condition b = e_binary (TyComparison Equals) (e_literal (VNumber 1)) (e_literal (VNumber (if b then 1 else 0)))"

definition guarded_quotient :: "astMode \<Rightarrow> ZeroDenominatorPolicy \<Rightarrow> DatasetExpression list \<Rightarrow> DatasetExpression" where
  "guarded_quotient mode policy as =
     (let zero = e_literal (VNumber 0);
          as' = (if mode = AstMetric then (case as of [] \<Rightarrow> [] | a # bs \<Rightarrow> a # map (\<lambda>b. e_nary TyNullif [b, zero]) bs) else as);
          result = e_nary (TyArithmetic Divide) as' in
      if mode = AstMetric \<and> policy = ZeroDenominatorZero then e_nary TyCoalesce [result, zero] else result)"

definition translate_field :: "astTranslator \<Rightarrow> astMode \<Rightarrow> ID \<Rightarrow> DatasetExpression translated" where
  "translate_field tr mode i = (if mode = AstMetric then Inl NotAllowed
     else (case trFields tr i of None \<Rightarrow> Inl NotAllowed | Some f \<Rightarrow> Inr (fieldReference f, [i], [])))"

definition translate_measure :: "astTranslator \<Rightarrow> astMode \<Rightarrow> ID \<Rightarrow> DatasetExpression translated" where
  "translate_measure tr mode i = (if mode \<noteq> AstMetric then Inl NotAllowed
     else (case trMeasures tr i of None \<Rightarrow> Inl NotAllowed
       | Some e \<Rightarrow> Inr (e, [], [case trMeasureVersions tr i of None \<Rightarrow> [] | Some v \<Rightarrow> v])))"

definition translate_attribute :: "astTranslator \<Rightarrow> astMode \<Rightarrow> string \<Rightarrow> DatasetExpression translated" where
  "translate_attribute tr mode k = (if mode \<noteq> AstRowPolicy then Inl NotAllowed
     else (case trSubjectAttributes tr k of None \<Rightarrow> Inl SubjectAttributeUnmatched
       | Some vs \<Rightarrow> if vs = [] then Inl SubjectAttributeUnmatched else if length vs > 1000 then Inl NotAllowed
           else pure (e_nary TyArray (map (\<lambda>v. e_literal (VString v)) vs))))"

text \<open>One node, its parts given as their translations from a depth on.\<close>

type_synonym part = "nat \<Rightarrow> DatasetExpression translated"

definition translate_node ::
  "astTranslator \<Rightarrow> astMode \<Rightarrow> semanticAST \<Rightarrow> part option \<Rightarrow> part list \<Rightarrow> part option \<Rightarrow> part option \<Rightarrow> part option \<Rightarrow> part option \<Rightarrow> part" where
  "translate_node tr mode n arg args l r lo up depth =
     (let arguments = translateArguments (map (\<lambda>p. p (depth + 1)) args);
          nary = and_then arguments (\<lambda>as. pure (e_nary (saType n) as));
          predicates = predicate_mode mode in
      if MaxDepth < depth then Inl NotAllowed else (case saType n of
        TyFieldRef \<Rightarrow> translate_field tr mode (saFieldID n)
      | TyMeasureRef \<Rightarrow> translate_measure tr mode (measureReference n)
      | TyLiteral \<Rightarrow> (case decodeLiteral (saValue n) of None \<Rightarrow> Inl NotAllowed | Some v \<Rightarrow> pure (e_literal v))
      | TyTruth b \<Rightarrow> if predicates then pure (constant_condition b) else Inl NotAllowed
      | TySubjectAttribute \<Rightarrow> translate_attribute tr mode (saAttributeKey n)
      | TyArray \<Rightarrow> if predicates then nary else Inl NotAllowed
      | TyArithmetic Divide \<Rightarrow> and_then arguments (\<lambda>as. pure (guarded_quotient mode (trZeroPolicy tr) as))
      | TyArithmetic _ \<Rightarrow> nary
      | TyCoalesce \<Rightarrow> nary
      | TyFunction f \<Rightarrow> if f \<in> {Abs, Floor, Ceil} then and_then (translate_part arg depth) (\<lambda>a. pure (e_unary (TyFunction f) a))
          else Inl NotAllowed
      | TyRound \<Rightarrow> nary
      | TyCast \<Rightarrow> and_then (translate_part arg depth) (\<lambda>a. pure (e_cast (saTargetType n) a))
      | TyComparison c \<Rightarrow> if predicates \<and> c \<in> set semantic_comparisons
          then and_then (translate_part l depth) (\<lambda>x. and_then (translate_part r depth) (\<lambda>y. pure (e_binary (TyComparison c) x y)))
          else Inl NotAllowed
      | TyBetween \<Rightarrow> if predicates
          then and_then (translate_part l depth) (\<lambda>x. and_then (translate_part lo depth) (\<lambda>a.
                 and_then (translate_part up depth) (\<lambda>b. pure (e_between x a b))))
          else Inl NotAllowed
      | TyTest t \<Rightarrow> if predicates then and_then (translate_part arg depth) (\<lambda>a. pure (e_unary (TyTest t) a)) else Inl NotAllowed
      | TyAnd \<Rightarrow> if predicates then nary else Inl NotAllowed
      | TyOr \<Rightarrow> if predicates then nary else Inl NotAllowed
      | _ \<Rightarrow> Inl NotAllowed))"

primrec translate :: "astTranslator \<Rightarrow> astMode \<Rightarrow> semanticAST \<Rightarrow> part" where
  "translate tr mode (SemanticAST ty f mv m tt ak v arg args l r lo up pres) =
     translate_node tr mode (SemanticAST ty f mv m tt ak v arg args l r lo up pres)
       (map_option (translate tr mode) arg) (map (translate tr mode) args)
       (map_option (translate tr mode) l) (map_option (translate tr mode) r)
       (map_option (translate tr mode) lo) (map_option (translate tr mode) up)"

declare translate.simps [simp del] validateSemanticAST.simps [simp del]

end
