(* ===== verification/RowAccess.thy ===== *)
theory RowAccess imports SemanticAst begin

text \<open>
  Row access policies: their certification (\<open>askdata/registry/row_access_policy.go\<close>), their translation
  into the filters of a source (\<open>askdata/compiler/row_access.go\<close>), and the check a generated document
  makes of such filters (\<open>dataset/dsl.go\<close>).
\<close>

section \<open>Translation\<close>

record RowAccessPolicyContract =
  raCode :: string
  raPredicateAST :: "semanticAST option"
  raSubjectAttributeKeys :: "string list"

record SourceFilter =
  sfField :: string
  sfOperator :: string
  sfValue :: go_value
  sfExpression :: "DatasetExpression option"

definition falseExpression :: DatasetExpression where "falseExpression = constant_condition False"

type_synonym granted = "string \<Rightarrow> string list option"
type_synonym columns = "ID \<Rightarrow> FieldContract option"

definition policy_translator :: "columns \<Rightarrow> granted \<Rightarrow> astTranslator" where
  "policy_translator cols attrs = \<lparr> trSubjectAttributes = attrs, trFields = cols, trMeasures = (\<lambda>_. None),
     trMeasureVersions = (\<lambda>_. None), trZeroPolicy = OtherZeroPolicy [] \<rparr>"

definition compileRowAccessPredicate :: "RowAccessPolicyContract \<Rightarrow> columns \<Rightarrow> granted \<Rightarrow> DatasetExpression option" where
  "compileRowAccessPredicate policy cols attrs = (case decodeSemanticAST (raPredicateAST policy) of None \<Rightarrow> None
     | Some predicate \<Rightarrow> if \<not> semanticBooleanType (saType predicate) then None
         else (case translate (policy_translator cols attrs) AstRowPolicy predicate 0 of
             Inl SubjectAttributeUnmatched \<Rightarrow> Some falseExpression
           | Inl _ \<Rightarrow> None
           | Inr (e, refs, _) \<Rightarrow> if refs = [] then None else Some e))"

definition compileRowAccessPolicies :: "RowAccessPolicyContract list \<Rightarrow> columns \<Rightarrow> granted \<Rightarrow> SourceFilter list option" where
  "compileRowAccessPolicies policies cols attrs = those (map (\<lambda>p. map_option
     (\<lambda>e. \<lparr> sfField = [], sfOperator = [], sfValue = VNil, sfExpression = Some e \<rparr>) (compileRowAccessPredicate p cols attrs)) policies)"

text \<open>The filters of the joined models by node; a later model of the same node replaces an earlier one.\<close>

record ModelContract =
  mdModelVersionID :: ID
  mdRowAccessPolicies :: "RowAccessPolicyContract list"

fun joinedRowAccessFilters ::
  "(ID \<Rightarrow> string) \<Rightarrow> ModelContract list \<Rightarrow> columns \<Rightarrow> granted \<Rightarrow> (string \<Rightarrow> SourceFilter list option) \<Rightarrow>
   (string \<Rightarrow> SourceFilter list option) option" where
  "joinedRowAccessFilters node_of [] cols attrs result = Some result"
| "joinedRowAccessFilters node_of (m # ms) cols attrs result =
     (case compileRowAccessPolicies (mdRowAccessPolicies m) cols attrs of None \<Rightarrow> None
      | Some fs \<Rightarrow> joinedRowAccessFilters node_of ms cols attrs
          (if fs = [] then result else result(node_of (mdModelVersionID m) := Some fs)))"

section \<open>The check of a source filter\<close>

text \<open>A filter without expression names a column of the projection and an operator.\<close>

definition source_operators :: "string list" where
  "source_operators = [''EQUALS'', ''NOT_EQUALS'', ''GT'', ''GTE'', ''LT'', ''LTE'', ''IN'', ''NOT_IN'', ''IS_NULL'', ''IS_NOT_NULL'']"

definition source_filter_valid ::
  "(string \<Rightarrow> bool) \<Rightarrow> string list \<Rightarrow> string list \<Rightarrow> string \<Rightarrow> string list \<Rightarrow> SourceFilter \<Rightarrow> bool" where
  "source_filter_valid physical nodes params node projection f = (case sfExpression f of
       Some e \<Rightarrow> validateExpression (Some nodes) (Some params) e \<and> validateSourceFilterExpression node e
     | None \<Rightarrow> physical (sfField f) \<and> sfField f \<in> set projection \<and> sfOperator f \<in> set source_operators)"

section \<open>Certification\<close>

definition node_types :: "NodeType list" where
  "node_types = [TyFieldRef, TyLiteral, TyTrue, TyFalse, TySubjectAttribute, TyArray, TyCoalesce, TyCast, TyBetween, TyAnd, TyOr] @
     map TyTest [IsNull, IsNotNull, Negation] @ map TyComparison semantic_comparisons"

text \<open>The registry folds case and trims before it compares a type; \<open>node_types\<close> are those it knows.\<close>

definition registry_type :: "semanticAST \<Rightarrow> NodeType option" where
  "registry_type n = find (\<lambda>t. type_name t = to_upper (trim_space (type_name (saType n)))) node_types"

definition registry_keys :: "string list" where
  "registry_keys = [''type'', ''fieldId'', ''attributeKey'', ''targetType'', ''value'', ''argument'', ''arguments'',
     ''left'', ''right'', ''lower'', ''upper'']"

definition maxRowAccessPredicateDepth :: nat where "maxRowAccessPredicateDepth = 24"

definition subject_leaf :: "semanticAST \<Rightarrow> bool" where
  "subject_leaf n \<longleftrightarrow> subjectAttributeKeyPattern (saAttributeKey n) \<and> saFieldID n = [] \<and> saArgument n = None \<and>
     saArguments n = [] \<and> saLeft n = None \<and> saRight n = None \<and> saLower n = None \<and> saUpper n = None \<and> saValue n = None"

text \<open>Whether a node that is not a leaf has the parts its type needs.\<close>

definition inner_shape :: "NodeType \<Rightarrow> semanticAST \<Rightarrow> bool" where
  "inner_shape t n = (case t of
       TyAnd \<Rightarrow> saArguments n \<noteq> [] | TyOr \<Rightarrow> saArguments n \<noteq> [] | TyArray \<Rightarrow> saArguments n \<noteq> []
     | TyCoalesce \<Rightarrow> saArguments n \<noteq> []
     | TyTest _ \<Rightarrow> saArgument n \<noteq> None | TyCast \<Rightarrow> saArgument n \<noteq> None
     | TyComparison _ \<Rightarrow> saLeft n \<noteq> None \<and> saRight n \<noteq> None
     | TyBetween \<Rightarrow> saArgument n \<noteq> None \<and> saLower n \<noteq> None \<and> saUpper n \<noteq> None
     | _ \<Rightarrow> False)"

text \<open>The registry decodes the document into a type with fewer keys, case aside, and refuses any other key, at any depth.\<close>

primrec registry_decodes :: "semanticAST \<Rightarrow> bool" where
  "registry_decodes (SemanticAST ty f mv m tt ak v arg args l r lo up pres) \<longleftrightarrow>
     list_all (\<lambda>k. to_upper k \<in> set (map to_upper registry_keys)) pres \<and>
     list_all (\<lambda>p. p \<noteq> Some False) [map_option registry_decodes arg, map_option registry_decodes l,
       map_option registry_decodes r, map_option registry_decodes lo, map_option registry_decodes up] \<and>
     list_all id (map registry_decodes args)"

text \<open>The attribute keys of a predicate, or nothing when it is refused.\<close>

type_synonym walk = "nat \<Rightarrow> string list option"

definition collect :: "string list option list \<Rightarrow> string list option" where
  "collect xs = map_option concat (those xs)"

definition walk_node :: "semanticAST \<Rightarrow> walk option list \<Rightarrow> walk list \<Rightarrow> walk" where
  "walk_node n parts arguments depth =
     (if maxRowAccessPredicateDepth < depth then None
      else (case registry_type n of None \<Rightarrow> None
        | Some t \<Rightarrow> (case t of
            TySubjectAttribute \<Rightarrow> if subject_leaf n then Some [saAttributeKey n] else None
          | TyFieldRef \<Rightarrow> if trim_space (saFieldID n) = [] then None else Some []
          | TyLiteral \<Rightarrow> if saValue n = None then None else Some []
          | TyTruth _ \<Rightarrow> Some []
          | _ \<Rightarrow> if inner_shape t n
              then collect (concat (map (\<lambda>p. case p of None \<Rightarrow> [] | Some f \<Rightarrow> [f (depth + 1)]) parts) @ map (\<lambda>f. f (depth + 1)) arguments)
              else None)))"

primrec walkRowAccessPredicate :: "semanticAST \<Rightarrow> walk" where
  "walkRowAccessPredicate (SemanticAST ty f mv m tt ak v arg args l r lo up pres) =
     walk_node (SemanticAST ty f mv m tt ak v arg args l r lo up pres)
       [map_option walkRowAccessPredicate arg, map_option walkRowAccessPredicate l, map_option walkRowAccessPredicate r,
        map_option walkRowAccessPredicate lo, map_option walkRowAccessPredicate up]
       (map walkRowAccessPredicate args)"

declare walkRowAccessPredicate.simps [simp del]

definition row_access_root :: "NodeType \<Rightarrow> bool" where
  "row_access_root t = (case t of TyAnd \<Rightarrow> True | TyOr \<Rightarrow> True | TyTest _ \<Rightarrow> True | TyComparison _ \<Rightarrow> True | TyBetween \<Rightarrow> True | _ \<Rightarrow> False)"

definition ParseRowAccessPredicate :: "semanticAST option \<Rightarrow> string list option" where
  "ParseRowAccessPredicate raw = (case raw of None \<Rightarrow> None
     | Some n \<Rightarrow> if \<not> registry_decodes n then None else (case registry_type n of None \<Rightarrow> None
         | Some t \<Rightarrow> if \<not> row_access_root t then None
             else (case walkRowAccessPredicate n 0 of None \<Rightarrow> None
               | Some keys \<Rightarrow> if keys = [] \<or> 16 < length (remdups keys) then None else Some (sort_slice (<) (remdups keys)))))"

end
