(* ===== verification/SqlMeaning.thy ===== *)
theory SqlMeaning imports DatasetExpression begin

text \<open>
  What a dataset expression means: its value on a row, or on a group of rows where it aggregates,
  by the rules of SQL (null values propagate, comparisons are three-valued, aggregates skip
  nulls). This is the reference the compilers of semantic queries are judged by. Casts are a
  parameter; window functions and date arithmetic, which no metric or policy contains, have no meaning here.
\<close>

section \<open>Values\<close>

datatype sql_value = SqlNull | SqlBool bool | SqlNumber rat | SqlText string | SqlDate int | SqlList "sql_value list"

datatype sql_error = DivisionByZero | CastFailure | TypeMismatch | NoMeaning

type_synonym sql_result = "sql_error + sql_value"
type_synonym row = "string \<times> string \<Rightarrow> sql_value"
type_synonym cast_function = "string \<Rightarrow> sql_value \<Rightarrow> sql_result"

definition bind_result :: "'e + 'a \<Rightarrow> ('a \<Rightarrow> 'e + 'b) \<Rightarrow> 'e + 'b" where
  "bind_result r f = (case r of Inl e \<Rightarrow> Inl e | Inr x \<Rightarrow> f x)"

lemma bind_result_simps [simp]: "bind_result (Inl e) f = Inl e" "bind_result (Inr x) f = f x"
  by (simp_all add: bind_result_def)

fun sequence :: "('e + 'a) list \<Rightarrow> 'e + 'a list" where
  "sequence [] = Inr []"
| "sequence (r # rs) = bind_result r (\<lambda>x. bind_result (sequence rs) (\<lambda>xs. Inr (x # xs)))"

lemma sequence_map_Inr [simp]: "sequence (map (\<lambda>x. Inr (f x)) xs) = Inr (map f xs)"
  by (induction xs) auto

lemma sequence_Inr_iff: "sequence rs = Inr xs \<longleftrightarrow> rs = map Inr xs"
  by (induction rs arbitrary: xs) (auto simp: bind_result_def split: sum.splits)

lemma sequence_length: "sequence rs = Inr xs \<Longrightarrow> length xs = length rs"
  by (auto simp: sequence_Inr_iff)

section \<open>Operators\<close>

definition truth :: "bool option \<Rightarrow> sql_value" where
  "truth b = (case b of None \<Rightarrow> SqlNull | Some x \<Rightarrow> SqlBool x)"

fun truth_of :: "sql_value \<Rightarrow> sql_error + bool option" where
  "truth_of SqlNull = Inr None"
| "truth_of (SqlBool b) = Inr (Some b)"
| "truth_of _ = Inl TypeMismatch"

text \<open>The sign of a comparison, none when an operand is null.\<close>

definition sign_of :: "'a::linorder \<Rightarrow> 'a \<Rightarrow> int" where
  "sign_of a b = (if a < b then - 1 else if a = b then 0 else 1)"

fun sql_compare :: "sql_value \<Rightarrow> sql_value \<Rightarrow> sql_error + int option" where
  "sql_compare (SqlNumber a) (SqlNumber b) = Inr (Some (sign_of a b))"
| "sql_compare (SqlText a) (SqlText b) = Inr (Some (sign_of a b))"
| "sql_compare (SqlDate a) (SqlDate b) = Inr (Some (sign_of a b))"
| "sql_compare (SqlBool a) (SqlBool b) = Inr (Some (sign_of a b))"
| "sql_compare (SqlList _) _ = Inl TypeMismatch"
| "sql_compare _ (SqlList _) = Inl TypeMismatch"
| "sql_compare SqlNull _ = Inr None"
| "sql_compare _ SqlNull = Inr None"
| "sql_compare _ _ = Inl TypeMismatch"

definition holds :: "ComparisonType \<Rightarrow> int \<Rightarrow> bool" where
  "holds t k = (case t of Equals \<Rightarrow> k = 0 | NotEquals \<Rightarrow> k \<noteq> 0 | Gt \<Rightarrow> 0 < k | Gte \<Rightarrow> 0 \<le> k
     | Lt \<Rightarrow> k < 0 | Lte \<Rightarrow> k \<le> 0 | _ \<Rightarrow> False)"

definition sql_comparison :: "ComparisonType \<Rightarrow> sql_value \<Rightarrow> sql_value \<Rightarrow> sql_result" where
  "sql_comparison t a b = bind_result (sql_compare a b) (\<lambda>k. Inr (truth (map_option (holds t) k)))"

fun sql_and :: "bool option list \<Rightarrow> bool option" where
  "sql_and bs = (if Some False \<in> set bs then Some False else if None \<in> set bs then None else Some True)"

fun sql_or :: "bool option list \<Rightarrow> bool option" where
  "sql_or bs = (if Some True \<in> set bs then Some True else if None \<in> set bs then None else Some False)"

definition sql_in :: "sql_value \<Rightarrow> sql_value list \<Rightarrow> sql_error + bool option" where
  "sql_in x vs = bind_result (sequence (map (\<lambda>v. sql_compare x v) vs))
     (\<lambda>ks. Inr (sql_or (map (map_option (\<lambda>k. k = 0)) ks)))"

definition sql_not :: "bool option \<Rightarrow> bool option" where "sql_not = map_option Not"

text \<open>Arithmetic: a null operand makes the result null, also where another divides by zero.\<close>

fun numbers_of :: "sql_value list \<Rightarrow> (sql_error + rat list) option" where
  "numbers_of [] = Some (Inr [])"
| "numbers_of (SqlNumber q # vs) = (case numbers_of vs of None \<Rightarrow> None | Some r \<Rightarrow> Some (bind_result r (\<lambda>qs. Inr (q # qs))))"
| "numbers_of (SqlNull # vs) = (case numbers_of vs of Some (Inl e) \<Rightarrow> Some (Inl e) | _ \<Rightarrow> None)"
| "numbers_of (_ # vs) = Some (Inl TypeMismatch)"

definition arithmetic :: "ArithmeticType \<Rightarrow> rat list \<Rightarrow> sql_result" where
  "arithmetic t qs = (case t of
       Add \<Rightarrow> Inr (SqlNumber (foldl (+) (hd qs) (tl qs)))
     | Subtract \<Rightarrow> Inr (SqlNumber (foldl (-) (hd qs) (tl qs)))
     | Multiply \<Rightarrow> Inr (SqlNumber (foldl (*) (hd qs) (tl qs)))
     | Divide \<Rightarrow> if 0 \<in> set (tl qs) then Inl DivisionByZero else Inr (SqlNumber (foldl (/) (hd qs) (tl qs))))"

definition sql_arithmetic :: "ArithmeticType \<Rightarrow> sql_value list \<Rightarrow> sql_result" where
  "sql_arithmetic t vs = (if vs = [] then Inl NoMeaning else case numbers_of vs of None \<Rightarrow> Inr SqlNull | Some r \<Rightarrow> bind_result r (arithmetic t))"

fun sql_unary :: "FunctionType \<Rightarrow> sql_value \<Rightarrow> sql_result" where
  "sql_unary _ SqlNull = Inr SqlNull"
| "sql_unary t (SqlNumber q) = (case t of Abs \<Rightarrow> Inr (SqlNumber \<bar>q\<bar>) | Floor \<Rightarrow> Inr (SqlNumber (of_int \<lfloor>q\<rfloor>))
     | Ceil \<Rightarrow> Inr (SqlNumber (of_int \<lceil>q\<rceil>)) | _ \<Rightarrow> Inl NoMeaning)"
| "sql_unary _ _ = Inl TypeMismatch"

definition round_at :: "rat \<Rightarrow> int \<Rightarrow> rat" where
  "round_at q p = sgn q * of_int \<lfloor>\<bar>q\<bar> * 10 powi p + 1 / 2\<rfloor> / 10 powi p"

fun sql_round :: "sql_value list \<Rightarrow> sql_result" where
  "sql_round [SqlNumber q, SqlNumber p] = (if of_int \<lfloor>p\<rfloor> = p then Inr (SqlNumber (round_at q \<lfloor>p\<rfloor>)) else Inl TypeMismatch)"
| "sql_round [SqlNull, SqlNumber _] = Inr SqlNull"
| "sql_round [SqlNumber _, SqlNull] = Inr SqlNull"
| "sql_round [SqlNull, SqlNull] = Inr SqlNull"
| "sql_round _ = Inl TypeMismatch"

text \<open>\<open>COALESCE\<close> and \<open>CASE\<close> stop at the first value they need.\<close>

fun sql_coalesce :: "sql_result list \<Rightarrow> sql_result" where
  "sql_coalesce [] = Inr SqlNull"
| "sql_coalesce (Inl e # _) = Inl e"
| "sql_coalesce (Inr SqlNull # rs) = sql_coalesce rs"
| "sql_coalesce (Inr v # _) = Inr v"

fun sql_nullif :: "sql_value list \<Rightarrow> sql_result" where
  "sql_nullif [a, b] = bind_result (sql_compare a b) (\<lambda>k. Inr (if k = Some 0 then SqlNull else a))"
| "sql_nullif _ = Inl NoMeaning"

fun sql_case :: "(sql_result \<times> sql_result) list \<Rightarrow> sql_result \<Rightarrow> sql_result" where
  "sql_case [] e = e"
| "sql_case ((w, t) # ws) e = bind_result w (\<lambda>v. bind_result (truth_of v) (\<lambda>b. if b = Some True then t else sql_case ws e))"

fun literal_value :: "go_value \<Rightarrow> sql_result" where
  "literal_value VNil = Inr SqlNull"
| "literal_value (VBool b) = Inr (SqlBool b)"
| "literal_value (VNumber q) = Inr (SqlNumber q)"
| "literal_value (VString s) = Inr (SqlText s)"
| "literal_value _ = Inl NoMeaning"

section \<open>Aggregates\<close>

fun typed_values :: "(sql_value \<Rightarrow> 'a option) \<Rightarrow> sql_value list \<Rightarrow> 'a list option" where
  "typed_values f [] = Some []"
| "typed_values f (v # vs) = (case f v of None \<Rightarrow> None | Some x \<Rightarrow> map_option (Cons x) (typed_values f vs))"

definition number :: "sql_value \<Rightarrow> rat option" where "number v = (case v of SqlNumber q \<Rightarrow> Some q | _ \<Rightarrow> None)"
definition text_of :: "sql_value \<Rightarrow> string option" where "text_of v = (case v of SqlText s \<Rightarrow> Some s | _ \<Rightarrow> None)"
definition date_of :: "sql_value \<Rightarrow> int option" where "date_of v = (case v of SqlDate d \<Rightarrow> Some d | _ \<Rightarrow> None)"

definition present :: "sql_value list \<Rightarrow> sql_value list" where "present vs = filter (\<lambda>v. v \<noteq> SqlNull) vs"

definition least_of :: "sql_value list \<Rightarrow> sql_result" where
  "least_of vs = (case typed_values number vs of Some qs \<Rightarrow> Inr (SqlNumber (Min (set qs)))
     | None \<Rightarrow> (case typed_values text_of vs of Some ss \<Rightarrow> Inr (SqlText (Min (set ss)))
       | None \<Rightarrow> (case typed_values date_of vs of Some ds \<Rightarrow> Inr (SqlDate (Min (set ds))) | None \<Rightarrow> Inl TypeMismatch)))"

definition greatest_of :: "sql_value list \<Rightarrow> sql_result" where
  "greatest_of vs = (case typed_values number vs of Some qs \<Rightarrow> Inr (SqlNumber (Max (set qs)))
     | None \<Rightarrow> (case typed_values text_of vs of Some ss \<Rightarrow> Inr (SqlText (Max (set ss)))
       | None \<Rightarrow> (case typed_values date_of vs of Some ds \<Rightarrow> Inr (SqlDate (Max (set ds))) | None \<Rightarrow> Inl TypeMismatch)))"

definition with_numbers :: "(rat list \<Rightarrow> rat) \<Rightarrow> sql_value list \<Rightarrow> sql_result" where
  "with_numbers f vs = (case typed_values number vs of None \<Rightarrow> Inl TypeMismatch | Some qs \<Rightarrow> Inr (SqlNumber (f qs)))"

definition sql_aggregate :: "string \<Rightarrow> sql_value list \<Rightarrow> sql_result" where
  "sql_aggregate fn vs = (let xs = present vs in
     if fn = ''COUNT'' then Inr (SqlNumber (of_nat (length xs)))
     else if fn = ''COUNT_DISTINCT'' then Inr (SqlNumber (of_nat (length (remdups xs))))
     else if xs = [] then (if fn \<in> {''SUM'', ''AVG'', ''MIN'', ''MAX''} then Inr SqlNull else Inl NoMeaning)
     else if fn = ''SUM'' then with_numbers sum_list xs
     else if fn = ''AVG'' then with_numbers (\<lambda>qs. sum_list qs / of_nat (length qs)) xs
     else if fn = ''MIN'' then least_of xs
     else if fn = ''MAX'' then greatest_of xs
     else Inl NoMeaning)"

text \<open>The value of the row first in the order, nulls last; rows equal in the order keep their place.\<close>

definition period_before :: "bool \<Rightarrow> sql_value \<times> sql_value \<Rightarrow> sql_value \<times> sql_value \<Rightarrow> bool" where
  "period_before desc x y = (if fst x = SqlNull then False else if fst y = SqlNull then True
     else (case sql_compare (fst x) (fst y) of Inr (Some k) \<Rightarrow> (if desc then 0 < k else k < 0) | _ \<Rightarrow> False))"

definition sql_period :: "string \<Rightarrow> sql_value list \<Rightarrow> sql_value list \<Rightarrow> sql_result" where
  "sql_period fn order vs = (case sort_slice (period_before (fn = ''PERIOD_END'')) (zip order vs) of
     [] \<Rightarrow> Inr SqlNull | x # _ \<Rightarrow> Inr (snd x))"

section \<open>Expressions\<close>

text \<open>The meaning of a node from the meanings of its parts; a meaning takes the rows of the group and a row.\<close>

type_synonym meaning = "row list \<Rightarrow> row \<Rightarrow> sql_result"

definition test_meaning :: "TestType \<Rightarrow> sql_value \<Rightarrow> sql_result" where
  "test_meaning t x = (case t of IsNull \<Rightarrow> Inr (SqlBool (x = SqlNull)) | IsNotNull \<Rightarrow> Inr (SqlBool (x \<noteq> SqlNull))
     | Negation \<Rightarrow> bind_result (truth_of x) (\<lambda>b. Inr (truth (sql_not b))))"

definition logical_meaning :: "(bool option list \<Rightarrow> bool option) \<Rightarrow> sql_value list \<Rightarrow> sql_result" where
  "logical_meaning f vs = bind_result (sequence (map truth_of vs)) (\<lambda>bs. Inr (truth (f bs)))"

definition comparison_meaning :: "ComparisonType \<Rightarrow> sql_value \<Rightarrow> sql_value \<Rightarrow> sql_result" where
  "comparison_meaning t x y =
     (if t = In \<or> t = NotIn then
        (case y of SqlList vs \<Rightarrow> bind_result (sql_in x vs) (\<lambda>k. Inr (truth (if t = In then k else sql_not k)))
         | _ \<Rightarrow> Inl NoMeaning)
      else if t \<in> {Like, Contains, NotContains} then Inl NoMeaning
      else sql_comparison t x y)"

definition between_meaning :: "sql_value \<Rightarrow> sql_value \<Rightarrow> sql_value \<Rightarrow> sql_result" where
  "between_meaning x a b = bind_result (sql_comparison Gte x a) (\<lambda>p. bind_result (sql_comparison Lte x b) (\<lambda>q.
     logical_meaning sql_and [p, q]))"

definition aggregate_meaning :: "string \<Rightarrow> meaning option \<Rightarrow> (meaning \<times> string) list \<Rightarrow> row list \<Rightarrow> sql_result" where
  "aggregate_meaning fn arg ob rows = (case arg of
       None \<Rightarrow> if fn = ''COUNT'' then Inr (SqlNumber (of_nat (length rows))) else Inl NoMeaning
     | Some m \<Rightarrow> bind_result (sequence (map (m []) rows)) (\<lambda>vs.
         if fn = ''PERIOD_END'' \<or> fn = ''PERIOD_BEGIN'' then
           (case ob of [(o1, _)] \<Rightarrow> bind_result (sequence (map (o1 []) rows)) (\<lambda>os. sql_period fn os vs)
             | _ \<Rightarrow> Inl NoMeaning)
         else sql_aggregate fn vs))"

definition on_part :: "meaning option \<Rightarrow> row list \<Rightarrow> row \<Rightarrow> (sql_value \<Rightarrow> sql_result) \<Rightarrow> sql_result" where
  "on_part m rows row f = (case m of None \<Rightarrow> Inl NoMeaning | Some m \<Rightarrow> bind_result (m rows row) f)"

definition on_parts :: "meaning list \<Rightarrow> row list \<Rightarrow> row \<Rightarrow> (sql_value list \<Rightarrow> sql_result) \<Rightarrow> sql_result" where
  "on_parts ms rows row f = bind_result (sequence (map (\<lambda>m. m rows row) ms)) f"

definition node_meaning ::
  "cast_function \<Rightarrow> (string \<Rightarrow> sql_value) \<Rightarrow> NodeType \<Rightarrow> string \<Rightarrow> string \<Rightarrow> string \<Rightarrow> string \<Rightarrow> string \<Rightarrow> go_value \<Rightarrow>
   meaning option \<Rightarrow> meaning list \<Rightarrow> meaning option \<Rightarrow> meaning option \<Rightarrow> meaning option \<Rightarrow> meaning option \<Rightarrow>
   (meaning \<times> meaning) list \<Rightarrow> meaning option \<Rightarrow> (meaning \<times> string) list \<Rightarrow> meaning" where
  "node_meaning cast params ty n f c fn tt v arg args l r lo up whens els ob rows row = (case ty of
       TyFieldRef \<Rightarrow> Inr (row (n, f))
     | TyParamRef \<Rightarrow> Inr (params c)
     | TyLiteral \<Rightarrow> literal_value v
     | TyArray \<Rightarrow> on_parts args rows row (\<lambda>vs. Inr (SqlList vs))
     | TyArithmetic t \<Rightarrow> on_parts args rows row (sql_arithmetic t)
     | TyCoalesce \<Rightarrow> sql_coalesce (map (\<lambda>m. m rows row) args)
     | TyFunction t \<Rightarrow> on_part arg rows row (sql_unary t)
     | TyRound \<Rightarrow> on_parts args rows row sql_round
     | TyCast \<Rightarrow> on_part arg rows row (cast tt)
     | TyNullif \<Rightarrow> on_parts args rows row sql_nullif
     | TyAggregate \<Rightarrow> aggregate_meaning fn arg ob rows
     | TyCase \<Rightarrow> sql_case (map (\<lambda>(w, t). (w rows row, t rows row)) whens)
         (case els of None \<Rightarrow> Inr SqlNull | Some m \<Rightarrow> m rows row)
     | TyComparison t \<Rightarrow> on_part l rows row (\<lambda>x. on_part r rows row (comparison_meaning t x))
     | TyBetween \<Rightarrow> on_part l rows row (\<lambda>x. on_part lo rows row (\<lambda>a. on_part up rows row (between_meaning x a)))
     | TyTest t \<Rightarrow> on_part arg rows row (test_meaning t)
     | TyAnd \<Rightarrow> on_parts args rows row (logical_meaning sql_and)
     | TyOr \<Rightarrow> on_parts args rows row (logical_meaning sql_or)
     | _ \<Rightarrow> Inl NoMeaning)"

primrec eval :: "cast_function \<Rightarrow> (string \<Rightarrow> sql_value) \<Rightarrow> DatasetExpression \<Rightarrow> meaning" where
  "eval cast params (DatasetExpression ty n f c fn u tt v arg args l r lo up whens els pb ob) =
     node_meaning cast params ty n f c fn tt v (map_option (eval cast params) arg) (map (eval cast params) args)
       (map_option (eval cast params) l) (map_option (eval cast params) r) (map_option (eval cast params) lo)
       (map_option (eval cast params) up) (map (map_prod (eval cast params) (eval cast params)) whens)
       (map_option (eval cast params) els) (map (map_prod (eval cast params) id) ob)"

declare eval.simps [simp del]

text \<open>The meaning of each literal the compilers build.\<close>

lemma eval_literals:
  "eval cast ps (e_field n f) rows row = Inr (row (n, f))"
  "eval cast ps (e_literal v) rows row = literal_value v"
  "eval cast ps (e_cast tt a) rows row = bind_result (eval cast ps a rows row) (cast tt)"
  "eval cast ps (e_between x a b) rows row = bind_result (eval cast ps x rows row) (\<lambda>x.
     bind_result (eval cast ps a rows row) (\<lambda>a. bind_result (eval cast ps b rows row) (between_meaning x a)))"
  "eval cast ps (e_binary (TyComparison t) a b) rows row = bind_result (eval cast ps a rows row) (\<lambda>x.
     bind_result (eval cast ps b rows row) (comparison_meaning t x))"
  "eval cast ps (e_unary (TyFunction g) a) rows row = bind_result (eval cast ps a rows row) (sql_unary g)"
  "eval cast ps (e_unary (TyTest t') a) rows row = bind_result (eval cast ps a rows row) (test_meaning t')"
  "eval cast ps (e_nary (TyArithmetic t'') as) rows row =
     bind_result (sequence (map (\<lambda>a. eval cast ps a rows row) as)) (sql_arithmetic t'')"
  "eval cast ps (e_nary TyArray as) rows row = bind_result (sequence (map (\<lambda>a. eval cast ps a rows row) as)) (\<lambda>vs. Inr (SqlList vs))"
  "eval cast ps (e_nary TyRound as) rows row = bind_result (sequence (map (\<lambda>a. eval cast ps a rows row) as)) sql_round"
  "eval cast ps (e_nary TyNullif as) rows row = bind_result (sequence (map (\<lambda>a. eval cast ps a rows row) as)) sql_nullif"
  "eval cast ps (e_nary TyAnd as) rows row = bind_result (sequence (map (\<lambda>a. eval cast ps a rows row) as)) (logical_meaning sql_and)"
  "eval cast ps (e_nary TyOr as) rows row = bind_result (sequence (map (\<lambda>a. eval cast ps a rows row) as)) (logical_meaning sql_or)"
  "eval cast ps (e_nary TyCoalesce as) rows row = sql_coalesce (map (\<lambda>a. eval cast ps a rows row) as)"
  "eval cast ps (e_case ws e) rows row = sql_case (map (\<lambda>(w, t). (eval cast ps w rows row, eval cast ps t rows row)) ws) (eval cast ps e rows row)"
  "eval cast ps (e_aggregate fn a ob) rows row =
     aggregate_meaning fn (Some (eval cast ps a)) (map (map_prod (eval cast ps) id) ob) rows"
  by (simp_all add: e_defs eval.simps node_meaning_def on_part_def on_parts_def comp_def case_prod_unfold)

text \<open>A condition of a \<open>WHERE\<close> clause keeps a row when it is true.\<close>

definition keeps :: "sql_result \<Rightarrow> bool" where "keeps r \<longleftrightarrow> r = Inr (SqlBool True)"

end
