(* ===== verification/SemanticTrace.thy ===== *)
theory SemanticTrace imports SemanticAst begin

text \<open>
  The runs of the translator as a relation: a tree, the expression it becomes, and the fields it
  references. What holds of every translation is proved by induction over the relation.
\<close>

definition plain_nary :: "astMode \<Rightarrow> NodeType \<Rightarrow> bool" where
  "plain_nary mode t \<longleftrightarrow> t = TyArray \<and> predicate_mode mode \<or> (\<exists>a. t = TyArithmetic a \<and> a \<noteq> Divide) \<or> t = TyCoalesce \<or> t = TyRound
     \<or> (t = TyAnd \<or> t = TyOr) \<and> predicate_mode mode"

inductive translates :: "astTranslator \<Rightarrow> astMode \<Rightarrow> semanticAST \<Rightarrow> DatasetExpression \<Rightarrow> ID list \<Rightarrow> bool"
  for tr mode where
  field: "saType n = TyFieldRef \<Longrightarrow> mode \<noteq> AstMetric \<Longrightarrow> trFields tr (saFieldID n) = Some f \<Longrightarrow>
    translates tr mode n (fieldReference f) [saFieldID n]"
| metric_measure: "saType n = TyMeasureRef \<Longrightarrow> mode = AstMetric \<Longrightarrow> trMeasures tr (measureReference n) = Some e \<Longrightarrow>
    translates tr mode n e []"
| literal: "saType n = TyLiteral \<Longrightarrow> decodeLiteral (saValue n) = Some v \<Longrightarrow> translates tr mode n (e_literal v) []"
| truth: "saType n = TyTruth b \<Longrightarrow> predicate_mode mode \<Longrightarrow> translates tr mode n (constant_condition b) []"
| attribute: "saType n = TySubjectAttribute \<Longrightarrow> mode = AstRowPolicy \<Longrightarrow> trSubjectAttributes tr (saAttributeKey n) = Some vs \<Longrightarrow>
    vs \<noteq> [] \<Longrightarrow> translates tr mode n (e_nary TyArray (map (\<lambda>v. e_literal (VString v)) vs)) []"
| nary: "plain_nary mode (saType n) \<Longrightarrow> length xs = length (saArguments n) \<Longrightarrow> length rs = length xs \<Longrightarrow>
    (\<forall>i < length xs. translates tr mode (saArguments n ! i) (xs ! i) (rs ! i)) \<Longrightarrow>
    translates tr mode n (e_nary (saType n) xs) (concat rs)"
| quotient: "saType n = TyArithmetic Divide \<Longrightarrow> length xs = length (saArguments n) \<Longrightarrow> length rs = length xs \<Longrightarrow>
    (\<forall>i < length xs. translates tr mode (saArguments n ! i) (xs ! i) (rs ! i)) \<Longrightarrow>
    translates tr mode n (guarded_quotient mode (trZeroPolicy tr) xs) (concat rs)"
| numeric: "saType n = TyFunction g \<Longrightarrow> g \<in> {Abs, Floor, Ceil} \<Longrightarrow> saArgument n = Some a \<Longrightarrow> translates tr mode a x r \<Longrightarrow>
    translates tr mode n (e_unary (TyFunction g) x) r"
| cast: "saType n = TyCast \<Longrightarrow> saArgument n = Some a \<Longrightarrow> translates tr mode a x r \<Longrightarrow>
    translates tr mode n (e_cast (saTargetType n) x) r"
| test: "saType n = TyTest t \<Longrightarrow> predicate_mode mode \<Longrightarrow> saArgument n = Some a \<Longrightarrow> translates tr mode a x r \<Longrightarrow>
    translates tr mode n (e_unary (TyTest t) x) r"
| comparison: "saType n = TyComparison c \<Longrightarrow> predicate_mode mode \<Longrightarrow> c \<in> set semantic_comparisons \<Longrightarrow>
    saLeft n = Some a \<Longrightarrow> saRight n = Some b \<Longrightarrow> translates tr mode a x r \<Longrightarrow> translates tr mode b y r' \<Longrightarrow>
    translates tr mode n (e_binary (TyComparison c) x y) (r @ r')"
| between: "saType n = TyBetween \<Longrightarrow> predicate_mode mode \<Longrightarrow>
    saLeft n = Some a \<Longrightarrow> saLower n = Some b \<Longrightarrow> saUpper n = Some c \<Longrightarrow>
    translates tr mode a x r \<Longrightarrow> translates tr mode b y r' \<Longrightarrow> translates tr mode c z r'' \<Longrightarrow>
    translates tr mode n (e_between x y z) (r @ r' @ r'')"

lemma and_then_Inr: "and_then t g = Inr (y, fs, ms) \<longleftrightarrow>
    (\<exists>x fs1 ms1 fs2 ms2. t = Inr (x, fs1, ms1) \<and> g x = Inr (y, fs2, ms2) \<and> fs = fs1 @ fs2 \<and> ms = ms1 @ ms2)"
  by (auto simp: and_then_def split: sum.splits prod.splits)

lemma and_then_Inl: "and_then t g = Inl e \<longleftrightarrow> t = Inl e \<or> (\<exists>x fs ms. t = Inr (x, fs, ms) \<and> g x = Inl e)"
  by (auto simp: and_then_def split: sum.splits prod.splits)

lemma pure_Inr [simp]: "pure x = Inr (y, fs, ms) \<longleftrightarrow> y = x \<and> fs = [] \<and> ms = []"
  by (auto simp: pure_def)

lemma pure_Inl [simp]: "pure x \<noteq> Inl e" by (simp add: pure_def)

lemma translate_part_Inr: "translate_part p d = Inr (e, fs, ms) \<longleftrightarrow> (\<exists>f. p = Some f \<and> f (d + 1) = Inr (e, fs, ms))"
  by (auto simp: translate_part_def split: option.splits)

lemma translateArguments_Inr: "translateArguments ts = Inr (xs, fs, ms) \<Longrightarrow>
    \<exists>rs. length xs = length ts \<and> length rs = length ts \<and> fs = concat rs \<and>
      (\<forall>i < length ts. \<exists>ms'. ts ! i = Inr (xs ! i, rs ! i, ms'))"
proof (induction ts arbitrary: xs fs ms)
  case (Cons t ts)
  then obtain x xs' f1 m1 f2 m2 where x: "t = Inr (x, f1, m1)" "translateArguments ts = Inr (xs', f2, m2)" "xs = x # xs'" "fs = f1 @ f2"
    by (auto simp: and_then_Inr)
  with Cons.IH obtain rs where "length xs' = length ts" "length rs = length ts" "f2 = concat rs"
    "\<forall>i < length ts. \<exists>ms'. ts ! i = Inr (xs' ! i, rs ! i, ms')" by blast
  with x show ?case by (intro exI [of _ "f1 # rs"]) (auto simp: nth_Cons split: nat.splits)
qed auto

lemma translateArguments_Inl: "translateArguments ts = Inl e \<Longrightarrow> Inl e \<in> set ts"
  by (induction ts) (auto simp: and_then_Inl)

lemma translates_sound: "translate tr mode n depth = Inr (e, fs, ms) \<Longrightarrow> translates tr mode n e fs"
proof (induction n arbitrary: depth e fs ms)
  case (SemanticAST ty f mv m tt ak v arg args l r lo up pres)
  note tr = SemanticAST.prems [unfolded translate.simps translate_node_def Let_def]
  have list: "\<exists>rs. length xs = length args \<and> length rs = length xs \<and> fs' = concat rs \<and>
      (\<forall>i < length xs. translates tr mode (args ! i) (xs ! i) (rs ! i))"
    if "translateArguments (map (\<lambda>p. p (depth + 1)) (map (translate tr mode) args)) = Inr (xs, fs', ms')" for xs fs' ms'
    using translateArguments_Inr [OF that] SemanticAST.IH(2) by (auto simp: nth_mem) (metis nth_mem)
  note IH = SemanticAST.IH(1,3-6)
  let ?n = "SemanticAST ty f mv m tt ak v arg args l r lo up pres"
  have nary: "translates tr mode ?n e fs" if "plain_nary mode ty"
    "and_then (translateArguments (map (\<lambda>p. p (depth + 1)) (map (translate tr mode) args))) (\<lambda>as. pure (e_nary ty as)) = Inr (e, fs, ms)"
    using that list translates.nary [of mode ?n _ _ tr] by (fastforce simp: and_then_Inr)
  show ?case
  proof (cases ty)
    case (TyArithmetic t)
    show ?thesis
    proof (cases "t = Divide")
      case True
      with tr TyArithmetic list translates.quotient [of ?n _ _ tr mode] show ?thesis
        by (fastforce simp: and_then_Inr split: if_splits)
    next
      case False
      then have "plain_nary mode ty" by (simp add: TyArithmetic plain_nary_def)
      moreover from False tr TyArithmetic have
        "and_then (translateArguments (map (\<lambda>p. p (depth + 1)) (map (translate tr mode) args))) (\<lambda>as. pure (e_nary ty as)) = Inr (e, fs, ms)"
        by (cases t) (auto split: if_splits)
      ultimately show ?thesis by (rule nary)
    qed
  next
    case (TyFunction g)
    with tr IH(1) show ?thesis by (auto simp: and_then_Inr translate_part_Inr intro!: translates.numeric split: if_splits)
  next
    case (TyTest t)
    with tr IH(1) show ?thesis by (auto simp: and_then_Inr translate_part_Inr intro!: translates.test split: if_splits)
  next
    case TyCast
    with tr IH(1) translates.cast [of ?n _ tr mode] show ?thesis by (fastforce simp: and_then_Inr translate_part_Inr split: if_splits)
  next
    case (TyComparison c)
    with tr IH(2,3) show ?thesis
      by (auto simp: and_then_Inr translate_part_Inr intro!: translates.comparison split: if_splits)
  next
    case TyBetween
    with tr IH(2,4,5) show ?thesis
      by (auto simp: and_then_Inr translate_part_Inr intro!: translates.between split: if_splits)
  next
    case TyFieldRef
    with tr translates.field [of ?n mode tr] show ?thesis by (auto simp: translate_field_def split: if_splits option.splits)
  next
    case TyMeasureRef
    with tr translates.metric_measure [of ?n mode tr] show ?thesis by (auto simp: translate_measure_def split: if_splits option.splits)
  next
    case TyLiteral
    with tr translates.literal [of ?n _ tr mode] show ?thesis by (auto split: if_splits option.splits)
  next
    case TySubjectAttribute
    with tr translates.attribute [of ?n mode tr] show ?thesis by (auto simp: translate_attribute_def split: if_splits option.splits)
  next
    case (TyTruth b)
    with tr translates.truth [of ?n b mode tr] show ?thesis by (auto split: if_splits)
  qed (use tr nary in \<open>auto simp: plain_nary_def split: if_splits\<close>)
qed

end
