(* ===== verification/SemanticMeaning.thy ===== *)
theory SemanticMeaning imports SqlMeaning SemanticTrace begin

text \<open>
  What a semantic tree means, independent of any translation: the values of fields, measures and
  attributes come from an environment, and so does the rule of division. The translation of a tree
  has the meaning of the tree.
\<close>

section \<open>Meaning\<close>

record ast_env =
  evField :: "ID \<Rightarrow> sql_result"
  evMeasure :: "ID \<Rightarrow> sql_result"
  evAttribute :: "string \<Rightarrow> string list"
  evQuotient :: "sql_result list \<Rightarrow> sql_result"
  evCast :: cast_function

definition ast_part :: "sql_result option \<Rightarrow> (sql_value \<Rightarrow> sql_result) \<Rightarrow> sql_result" where
  "ast_part p f = (case p of None \<Rightarrow> Inl NoMeaning | Some r \<Rightarrow> bind_result r f)"

definition ast_node_meaning ::
  "ast_env \<Rightarrow> semanticAST \<Rightarrow> sql_result option \<Rightarrow> sql_result list \<Rightarrow> sql_result option \<Rightarrow> sql_result option \<Rightarrow>
   sql_result option \<Rightarrow> sql_result option \<Rightarrow> sql_result" where
  "ast_node_meaning env n arg args l r lo up = (case saType n of
       TyFieldRef \<Rightarrow> evField env (saFieldID n)
     | TyMeasureRef \<Rightarrow> evMeasure env (measureReference n)
     | TyLiteral \<Rightarrow> (case saValue n of None \<Rightarrow> Inl NoMeaning | Some v \<Rightarrow> literal_value v)
     | TyTruth b \<Rightarrow> Inr (SqlBool b)
     | TySubjectAttribute \<Rightarrow> Inr (SqlList (map SqlText (evAttribute env (saAttributeKey n))))
     | TyArray \<Rightarrow> bind_result (sequence args) (\<lambda>vs. Inr (SqlList vs))
     | TyArithmetic t \<Rightarrow> if t = Divide then evQuotient env args else bind_result (sequence args) (sql_arithmetic t)
     | TyCoalesce \<Rightarrow> sql_coalesce args
     | TyFunction t \<Rightarrow> ast_part arg (sql_unary t)
     | TyRound \<Rightarrow> bind_result (sequence args) sql_round
     | TyCast \<Rightarrow> ast_part arg (evCast env (saTargetType n))
     | TyComparison t \<Rightarrow> ast_part l (\<lambda>x. ast_part r (comparison_meaning t x))
     | TyBetween \<Rightarrow> ast_part l (\<lambda>x. ast_part lo (\<lambda>a. ast_part up (between_meaning x a)))
     | TyTest t \<Rightarrow> ast_part arg (test_meaning t)
     | TyAnd \<Rightarrow> bind_result (sequence args) (logical_meaning sql_and)
     | TyOr \<Rightarrow> bind_result (sequence args) (logical_meaning sql_or)
     | _ \<Rightarrow> Inl NoMeaning)"

primrec ast_meaning :: "ast_env \<Rightarrow> semanticAST \<Rightarrow> sql_result" where
  "ast_meaning env (SemanticAST ty f mv m tt ak v arg args l r lo up pres) =
     ast_node_meaning env (SemanticAST ty f mv m tt ak v arg args l r lo up pres)
       (map_option (ast_meaning env) arg) (map (ast_meaning env) args) (map_option (ast_meaning env) l)
       (map_option (ast_meaning env) r) (map_option (ast_meaning env) lo) (map_option (ast_meaning env) up)"

declare ast_meaning.simps [simp del]

text \<open>Division of a metric: a zero denominator makes the quotient null, or zero when the policy says so.\<close>

fun nonzero :: "sql_value \<Rightarrow> sql_result" where
  "nonzero (SqlNumber q) = Inr (if q = 0 then SqlNull else SqlNumber q)"
| "nonzero SqlNull = Inr SqlNull"
| "nonzero _ = Inl TypeMismatch"

definition metric_quotient :: "ZeroDenominatorPolicy \<Rightarrow> sql_result list \<Rightarrow> sql_result" where
  "metric_quotient policy rs = (case rs of [] \<Rightarrow> Inl NoMeaning | a # bs \<Rightarrow>
     (let q = bind_result (sequence (a # map (\<lambda>b. bind_result b nonzero) bs)) (sql_arithmetic Divide) in
      if policy = ZeroDenominatorZero then bind_result q (\<lambda>x. Inr (if x = SqlNull then SqlNumber 0 else x)) else q))"

definition row_quotient :: "sql_result list \<Rightarrow> sql_result" where
  "row_quotient rs = bind_result (sequence rs) (sql_arithmetic Divide)"

section \<open>The translation keeps the meaning\<close>

text \<open>When an environment says what a translator puts in.\<close>

definition agrees ::
  "cast_function \<Rightarrow> (string \<Rightarrow> sql_value) \<Rightarrow> row list \<Rightarrow> row \<Rightarrow> astTranslator \<Rightarrow> astMode \<Rightarrow> ast_env \<Rightarrow> bool" where
  "agrees cast ps rows row tr mode env \<longleftrightarrow> evCast env = cast \<and>
     (\<forall>i f. mode \<noteq> AstMetric \<longrightarrow> trFields tr i = Some f \<longrightarrow> evField env i = Inr (row (anchorNodeID, fcCode f))) \<and>
     (\<forall>i e. mode = AstMetric \<longrightarrow> trMeasures tr i = Some e \<longrightarrow> evMeasure env i = eval cast ps e rows row) \<and>
     (\<forall>k vs. trSubjectAttributes tr k = Some vs \<longrightarrow> evAttribute env k = vs) \<and>
     evQuotient env = (if mode = AstMetric then metric_quotient (trZeroPolicy tr) else row_quotient)"

lemma nonzero_nullif: "bind_result (sql_compare v (SqlNumber 0)) (\<lambda>k. Inr (if k = Some 0 then SqlNull else v)) = nonzero v"
  by (cases v) (auto simp: sign_of_def)

lemma coalesce_zero: "sql_coalesce [q, Inr (SqlNumber 0)] = bind_result q (\<lambda>x. Inr (if x = SqlNull then SqlNumber 0 else x))"
proof (cases q)
  case (Inr v)
  then show ?thesis by (cases v) auto
qed simp

lemma metric_quotient_eval:
  assumes "map (\<lambda>e. eval cast ps e rows row) as = rs"
  shows "eval cast ps (guarded_quotient AstMetric policy as) rows row = metric_quotient policy rs"
proof (cases as)
  case Nil
  with assms show ?thesis
    by (auto simp: guarded_quotient_def metric_quotient_def Let_def eval_literals(8) eval_literals(14) eval_literals(2) sql_arithmetic_def)
next
  case as: (Cons a bs)
  have nz: "eval cast ps (e_nary TyNullif [b, e_literal (VNumber 0)]) rows row = bind_result (eval cast ps b rows row) nonzero" for b
    by (cases "eval cast ps b rows row") (simp_all add: eval_literals nonzero_nullif)
  have "eval cast ps (e_nary (TyArithmetic Divide) (a # map (\<lambda>b. e_nary TyNullif [b, e_literal (VNumber 0)]) bs)) rows row
      = bind_result (sequence (eval cast ps a rows row # map (\<lambda>b. bind_result (eval cast ps b rows row) nonzero) bs)) (sql_arithmetic Divide)"
    by (simp only: eval_literals(8)) (simp add: nz comp_def)
  then show ?thesis
    using assms(1) by (auto simp: as guarded_quotient_def metric_quotient_def Let_def eval_literals(14) eval_literals(2) coalesce_zero comp_def)
qed

lemma row_quotient_eval:
  assumes "map (\<lambda>e. eval cast ps e rows row) as = rs" "mode \<noteq> AstMetric"
  shows "eval cast ps (guarded_quotient mode policy as) rows row = row_quotient rs"
  using assms by (auto simp: guarded_quotient_def row_quotient_def Let_def eval_literals)

lemma ast_meaning_node: "ast_meaning env n = ast_node_meaning env n (map_option (ast_meaning env) (saArgument n))
    (map (ast_meaning env) (saArguments n)) (map_option (ast_meaning env) (saLeft n)) (map_option (ast_meaning env) (saRight n))
    (map_option (ast_meaning env) (saLower n)) (map_option (ast_meaning env) (saUpper n))"
  by (cases n) (simp add: ast_meaning.simps)

lemmas meaning_cases = ast_meaning_node ast_node_meaning_def ast_part_def

lemma arguments_meaning:
  assumes "length xs = length as" "\<forall>i < length xs. translates tr mode (as ! i) (xs ! i) (rs ! i) \<and>
      eval cast ps (xs ! i) rows row = ast_meaning env (as ! i)"
  shows "map (\<lambda>e. eval cast ps e rows row) xs = map (ast_meaning env) as"
  using assms by (intro nth_equalityI) auto

lemma translation_has_meaning:
  assumes "translates tr mode n e fs" "agrees cast ps rows row tr mode env"
  shows "eval cast ps e rows row = ast_meaning env n"
  using assms
proof induction
  case (nary n xs rs)
  then have "map (\<lambda>e. eval cast ps e rows row) xs = map (ast_meaning env) (saArguments n)"
    by (intro arguments_meaning) auto
  with nary(1) show ?case
    by (auto simp: plain_nary_def meaning_cases eval_literals split: ArithmeticType.splits)
next
  case (quotient n xs rs)
  then have "map (\<lambda>e. eval cast ps e rows row) xs = map (ast_meaning env) (saArguments n)"
    by (intro arguments_meaning) auto
  with quotient(1,5) show ?case
    by (cases "mode = AstMetric") (auto simp: meaning_cases agrees_def metric_quotient_eval row_quotient_eval)
next
  case (literal n v)
  then show ?case by (auto simp: meaning_cases eval_literals decodeLiteral_def split: if_splits option.splits go_value.splits)
next
  case (truth n b)
  then show ?case
    by (auto simp: meaning_cases constant_condition_def eval_literals comparison_meaning_def sql_comparison_def sign_of_def truth_def holds_def)
next
  case (attribute n vs)
  then show ?case by (auto simp: meaning_cases agrees_def eval_literals comp_def)
qed (auto simp: meaning_cases agrees_def eval_literals fieldReference_def)

end
