(* ===== verification/RowAccessMeaning.thy ===== *)
theory RowAccessMeaning imports RowAccess SemanticMeaning begin

text \<open>
  What the filters of row access policies mean: a policy admits a row to a reader who holds every
  attribute it needs and for whom its predicate is true; the filters keep exactly those rows.
\<close>

section \<open>Attributes of a predicate\<close>

definition keys_of :: "string list option \<Rightarrow> string list" where "keys_of x = (case x of None \<Rightarrow> [] | Some ks \<Rightarrow> ks)"

lemma keys_of_simps [simp]: "keys_of None = []" "keys_of (Some ks) = ks" by (simp_all add: keys_of_def)

primrec subject_keys :: "semanticAST \<Rightarrow> string list" where
  "subject_keys (SemanticAST ty f mv m tt ak v arg args l r lo up pres) =
     (if ty = TySubjectAttribute then [ak] else
       (if visited_lists ty then concat (map subject_keys args) else []) @
       (if visited_argument ty then keys_of (map_option subject_keys arg) else []) @
       (if visited_left ty then keys_of (map_option subject_keys l) else []) @
       (if visited_right ty then keys_of (map_option subject_keys r) else []) @
       (if ty = TyBetween then keys_of (map_option subject_keys lo) @
          keys_of (map_option subject_keys up) else []))"

lemma subject_keys_node: "subject_keys n =
    (if saType n = TySubjectAttribute then [saAttributeKey n] else
       (if visited_lists (saType n) then concat (map subject_keys (saArguments n)) else []) @
       (if visited_argument (saType n) then keys_of (map_option subject_keys (saArgument n)) else []) @
       (if visited_left (saType n) then keys_of (map_option subject_keys (saLeft n)) else []) @
       (if visited_right (saType n) then keys_of (map_option subject_keys (saRight n)) else []) @
       (if saType n = TyBetween then keys_of (map_option subject_keys (saLower n)) @
          keys_of (map_option subject_keys (saUpper n)) else []))"
  by (cases n) simp

lemmas visited_defs = visited_lists_def visited_argument_def visited_left_def visited_right_def

lemma subject_keys_of:
  "saType n = TyFieldRef \<Longrightarrow> subject_keys n = []"
  "saType n = TyMeasureRef \<Longrightarrow> subject_keys n = []"
  "saType n = TyLiteral \<Longrightarrow> subject_keys n = []"
  "saType n = TyTruth b \<Longrightarrow> subject_keys n = []"
  "saType n = TySubjectAttribute \<Longrightarrow> subject_keys n = [saAttributeKey n]"
  "saType n = TyFunction g \<Longrightarrow> subject_keys n = keys_of (map_option subject_keys (saArgument n))"
  "saType n = TyCast \<Longrightarrow> subject_keys n = keys_of (map_option subject_keys (saArgument n))"
  "saType n = TyTest t \<Longrightarrow> subject_keys n = keys_of (map_option subject_keys (saArgument n))"
  "saType n = TyComparison c \<Longrightarrow> subject_keys n =
     keys_of (map_option subject_keys (saLeft n)) @ keys_of (map_option subject_keys (saRight n))"
  "saType n = TyBetween \<Longrightarrow> subject_keys n = keys_of (map_option subject_keys (saLeft n)) @
     keys_of (map_option subject_keys (saLower n)) @ keys_of (map_option subject_keys (saUpper n))"
  by (subst subject_keys_node, simp add: visited_defs)+

definition has_grant :: "granted \<Rightarrow> string \<Rightarrow> bool" where
  "has_grant attrs k \<longleftrightarrow> (\<exists>vs. attrs k = Some vs \<and> vs \<noteq> [])"

lemma translated_keys_granted:
  assumes "translates tr mode n e fs"
  shows "\<forall>k \<in> set (subject_keys n). has_grant (trSubjectAttributes tr) k"
  using assms
proof induction
  case (nary n xs rs)
  then have "\<forall>a \<in> set (saArguments n). \<forall>k \<in> set (subject_keys a). has_grant (trSubjectAttributes tr) k"
    by (metis in_set_conv_nth)
  with nary(1) show ?case unfolding subject_keys_node [of n] by (auto simp: plain_nary_def visited_defs)
next
  case (quotient n xs rs)
  then have "\<forall>a \<in> set (saArguments n). \<forall>k \<in> set (subject_keys a). has_grant (trSubjectAttributes tr) k"
    by (metis in_set_conv_nth)
  with quotient(1) show ?case unfolding subject_keys_node [of n] by (auto simp: visited_defs)
qed (auto simp: subject_keys_of has_grant_def)

lemma unmatched_key:
  "translate tr mode n depth = Inl SubjectAttributeUnmatched \<Longrightarrow> \<exists>k \<in> set (subject_keys n). \<not> has_grant (trSubjectAttributes tr) k"
proof (induction n arbitrary: depth)
  case (SemanticAST ty f mv m tt ak v arg args l r lo up pres)
  note tr = SemanticAST.prems [unfolded translate.simps translate_node_def Let_def]
  note IH = SemanticAST.IH
  have list: "\<exists>a \<in> set args. \<exists>k \<in> set (subject_keys a). \<not> has_grant (trSubjectAttributes tr) k"
    if "translateArguments (map (\<lambda>p. p (depth + 1)) (map (translate tr mode) args)) = Inl SubjectAttributeUnmatched"
    using translateArguments_Inl [OF that] IH(2) by (force simp: comp_def)
  have part: "\<exists>a. x = Some a \<and> translate tr mode a (depth + 1) = Inl SubjectAttributeUnmatched"
    if "translate_part (map_option (translate tr mode) x) depth = Inl SubjectAttributeUnmatched" for x
    using that by (auto simp: translate_part_def split: option.splits)
  show ?case
  proof (cases ty)
    case (TyArithmetic t)
    with tr list show ?thesis by (cases t) (auto simp: and_then_Inl visited_defs split: if_splits)
  next
    case TyFieldRef
    with tr show ?thesis by (auto simp: translate_field_def split: if_splits option.splits)
  next
    case TyMeasureRef
    with tr show ?thesis by (auto simp: translate_measure_def split: if_splits option.splits)
  next
    case TyLiteral
    with tr show ?thesis by (auto split: if_splits option.splits)
  next
    case TySubjectAttribute
    with tr show ?thesis by (auto simp: translate_attribute_def has_grant_def split: if_splits option.splits)
  next
    case (TyComparison c)
    with tr part [of l] part [of r] IH(3,4) show ?thesis
      by (fastforce simp: and_then_Inl visited_defs split: if_splits)
  next
    case TyBetween
    with tr part [of l] part [of lo] part [of up] IH(3,5,6) show ?thesis
      by (fastforce simp: and_then_Inl visited_defs split: if_splits)
  next
    case (TyTest t)
    with tr part [of arg] IH(1) show ?thesis by (fastforce simp: and_then_Inl visited_defs split: if_splits)
  next
    case (TyFunction t)
    with tr part [of arg] IH(1) show ?thesis by (fastforce simp: and_then_Inl visited_defs split: if_splits)
  next
    case TyCast
    with tr part [of arg] IH(1) show ?thesis by (fastforce simp: and_then_Inl visited_defs split: if_splits)
  qed (use tr list in \<open>auto simp: and_then_Inl visited_defs split: if_splits\<close>)
qed


section \<open>Filters and policies\<close>

definition policy_env :: "cast_function \<Rightarrow> columns \<Rightarrow> granted \<Rightarrow> row \<Rightarrow> ast_env" where
  "policy_env cast cols attrs row = \<lparr>
     evField = (\<lambda>i. case cols i of None \<Rightarrow> Inl NoMeaning | Some f \<Rightarrow> Inr (row (anchorNodeID, fcCode f))),
     evMeasure = (\<lambda>_. Inl NoMeaning), evAttribute = (\<lambda>k. case attrs k of None \<Rightarrow> [] | Some vs \<Rightarrow> vs),
     evQuotient = row_quotient, evCast = cast \<rparr>"

text \<open>A policy admits a row to a reader who holds every attribute it needs and for whom it is true.\<close>

definition admits :: "cast_function \<Rightarrow> columns \<Rightarrow> granted \<Rightarrow> row \<Rightarrow> RowAccessPolicyContract \<Rightarrow> bool" where
  "admits cast cols attrs row p = (case raPredicateAST p of None \<Rightarrow> False
     | Some n \<Rightarrow> (\<forall>k \<in> set (subject_keys n). has_grant attrs k) \<and> keeps (ast_meaning (policy_env cast cols attrs row) n))"

definition passes :: "cast_function \<Rightarrow> row \<Rightarrow> SourceFilter \<Rightarrow> bool" where
  "passes cast row f = (case sfExpression f of None \<Rightarrow> False | Some e \<Rightarrow> keeps (eval cast (\<lambda>_. SqlNull) e [] row))"

lemma false_keeps_nothing: "\<not> keeps (eval cast ps falseExpression rows row)"
  by (simp add: keeps_def falseExpression_def constant_condition_def eval_literals comparison_meaning_def
      sql_comparison_def sign_of_def truth_def holds_def)

lemma policy_agrees: "agrees cast ps rows row (policy_translator cols attrs) AstRowPolicy (policy_env cast cols attrs row)"
  by (simp add: agrees_def policy_translator_def policy_env_def)

lemma compiled_predicate_exact:
  assumes "compileRowAccessPredicate p cols attrs = Some e"
  shows "keeps (eval cast ps e rows row) \<longleftrightarrow> admits cast cols attrs row p"
proof -
  obtain n where n: "raPredicateAST p = Some n" "validateSemanticAST n 0"
    using assms by (auto simp: compileRowAccessPredicate_def decodeSemanticAST_def split: option.splits if_splits)
  let ?tr = "translate (policy_translator cols attrs) AstRowPolicy n 0"
  have e: "(case ?tr of Inl SubjectAttributeUnmatched \<Rightarrow> Some falseExpression | Inl _ \<Rightarrow> None
      | Inr (e, refs, _) \<Rightarrow> if refs = [] then None else Some e) = Some e"
    using assms n by (simp add: compileRowAccessPredicate_def decodeSemanticAST_def split: if_splits)
  have attrs: "trSubjectAttributes (policy_translator cols attrs) = attrs" by (simp add: policy_translator_def)
  show ?thesis
  proof (cases ?tr)
    case (Inl err)
    with e have err: "?tr = Inl SubjectAttributeUnmatched" "e = falseExpression" by (auto split: translate_error.splits)
    from unmatched_key [OF err(1)] n err(2) show ?thesis by (auto simp: admits_def false_keeps_nothing attrs)
  next
    case (Inr x)
    obtain e' fs ms where x: "?tr = Inr (e', fs, ms)" using Inr by (cases x) auto
    with e have "e' = e" by (simp split: if_splits)
    with x have tr: "translates (policy_translator cols attrs) AstRowPolicy n e fs" by (auto intro: translates_sound)
    show ?thesis
      using translation_has_meaning [OF tr policy_agrees] translated_keys_granted [OF tr] n by (simp add: admits_def attrs)
  qed
qed

lemma those_Some: "those xs = Some ys \<longleftrightarrow> xs = map Some ys"
  by (induction xs arbitrary: ys) (auto split: option.splits)

lemma compiled_policies:
  assumes "compileRowAccessPolicies ps cols attrs = Some fs"
  shows "length fs = length ps" "\<And>i. i < length ps \<Longrightarrow> \<exists>e. sfExpression (fs ! i) = Some e \<and>
    compileRowAccessPredicate (ps ! i) cols attrs = Some e"
proof -
  from assms have eq: "map (\<lambda>p. map_option (\<lambda>e. \<lparr> sfField = [], sfOperator = [], sfValue = VNil, sfExpression = Some e \<rparr>)
      (compileRowAccessPredicate p cols attrs)) ps = map Some fs"
    by (simp add: compileRowAccessPolicies_def those_Some)
  then show len: "length fs = length ps" using map_eq_imp_length_eq by fastforce
  fix i assume "i < length ps"
  with eq len show "\<exists>e. sfExpression (fs ! i) = Some e \<and> compileRowAccessPredicate (ps ! i) cols attrs = Some e"
    by (auto dest!: arg_cong [where f = "\<lambda>xs. xs ! i"]) (metis SourceFilter.select_convs(4))
qed

lemma filters_exact:
  assumes "compileRowAccessPolicies ps cols attrs = Some fs"
  shows "(\<forall>f \<in> set fs. passes cast row f) \<longleftrightarrow> (\<forall>p \<in> set ps. admits cast cols attrs row p)"
proof -
  have "passes cast row (fs ! i) \<longleftrightarrow> admits cast cols attrs row (ps ! i)" if "i < length ps" for i
    using compiled_policies(2) [OF assms that] compiled_predicate_exact [of "ps ! i" cols attrs] by (auto simp: passes_def)
  with compiled_policies(1) [OF assms] show ?thesis by (simp add: all_set_conv_all_nth)
qed

end
