(* ===== verification/SemanticTree.thy ===== *)
theory SemanticTree imports SemanticAst begin

text \<open>
  The parts of a semantic tree, induction over them, and all trees within a tree.
\<close>

section \<open>Parts\<close>

definition part_list :: "semanticAST option \<Rightarrow> semanticAST list" where
  "part_list p = (case p of None \<Rightarrow> [] | Some a \<Rightarrow> [a])"

lemma in_part_list [simp]: "a \<in> set (part_list p) \<longleftrightarrow> p = Some a" by (auto simp: part_list_def split: option.splits)

definition kids :: "semanticAST \<Rightarrow> semanticAST list" where
  "kids n = part_list (saArgument n) @ part_list (saLeft n) @ part_list (saRight n) @ part_list (saLower n) @
     part_list (saUpper n) @ saArguments n"

lemma in_kids: "a \<in> set (kids n) \<longleftrightarrow> saArgument n = Some a \<or> saLeft n = Some a \<or> saRight n = Some a \<or>
    saLower n = Some a \<or> saUpper n = Some a \<or> a \<in> set (saArguments n)"
  by (simp add: kids_def)

lemma kids_size: "a \<in> set (kids n) \<Longrightarrow> size a < size n"
proof (cases n)
  case (SemanticAST ty f mv m tt ak v arg args l r lo up pres)
  assume "a \<in> set (kids n)"
  then have "arg = Some a \<or> l = Some a \<or> r = Some a \<or> lo = Some a \<or> up = Some a \<or> a \<in> set args"
    unfolding SemanticAST in_kids semanticAST.sel .
  then show "size a < size n" unfolding SemanticAST
    by (elim disjE) (simp_all add: less_Suc_eq_le add.assoc trans_le_add1 trans_le_add2 size_list_estimation' [of a args])
qed

lemma kids_induct: "(\<And>n. (\<And>a. a \<in> set (kids n) \<Longrightarrow> P a) \<Longrightarrow> P n) \<Longrightarrow> P n"
  by (induction n rule: measure_induct_rule [of size]) (blast intro: kids_size)

lemma part_true: "Some True = map_option f p \<longleftrightarrow> (\<exists>a. p = Some a \<and> f a)" "map_option f p = Some True \<longleftrightarrow> (\<exists>a. p = Some a \<and> f a)"
  by (cases p; auto)+

lemma contains_kids: "semanticASTContainsType t n \<longleftrightarrow> saType n = t \<or> (\<exists>a \<in> set (kids n). semanticASTContainsType t a)"
proof (cases n)
  case (SemanticAST ty f mv m tt ak v arg args l r lo up pres)
  show ?thesis unfolding SemanticAST semanticASTContainsType.simps Bex_def in_kids semanticAST.sel
    by (auto simp: part_true list_ex_iff)
qed

section \<open>All trees within a tree\<close>

primrec subtrees :: "semanticAST \<Rightarrow> semanticAST list" where
  "subtrees (SemanticAST ty f mv m tt ak v arg args l r lo up pres) =
     SemanticAST ty f mv m tt ak v arg args l r lo up pres #
     concat (map (\<lambda>x. case x of None \<Rightarrow> [] | Some es \<Rightarrow> es) [map_option subtrees arg, map_option subtrees l,
       map_option subtrees r, map_option subtrees lo, map_option subtrees up]) @ concat (map subtrees args)"

lemma subtrees_kids: "set (subtrees n) = insert n (\<Union>a \<in> set (kids n). set (subtrees a))"
proof (cases n)
  case (SemanticAST ty f mv m tt ak v arg args l r lo up pres)
  have part: "set (case map_option subtrees x of None \<Rightarrow> [] | Some es \<Rightarrow> es) = (\<Union>a \<in> set (part_list x). set (subtrees a))" for x
    by (cases x) (auto simp: part_list_def)
  show ?thesis unfolding SemanticAST by (simp add: kids_def part del: in_part_list) auto
qed

end
