(* ===== verification/RowAccessWalk.thy ===== *)
theory RowAccessWalk imports RowAccessMeaning SemanticTree begin

text \<open>
  What certification establishes: the walk of the registry goes through the parts the compiler
  visits and finds exactly the attributes the predicate needs; no range condition survives it.
\<close>

section \<open>Certified policies\<close>

text \<open>What decoding guarantees: a part whose key the document does not have is absent.\<close>

definition decoded_node :: "semanticAST \<Rightarrow> bool" where
  "decoded_node n \<longleftrightarrow> (key_argument \<notin> set (saPresent n) \<longrightarrow> saArgument n = None) \<and>
     (key_arguments \<notin> set (saPresent n) \<longrightarrow> saArguments n = []) \<and>
     (''left'' \<notin> set (saPresent n) \<longrightarrow> saLeft n = None) \<and> (''right'' \<notin> set (saPresent n) \<longrightarrow> saRight n = None) \<and>
     (''lower'' \<notin> set (saPresent n) \<longrightarrow> saLower n = None) \<and> (''upper'' \<notin> set (saPresent n) \<longrightarrow> saUpper n = None)"

primrec decoded :: "semanticAST \<Rightarrow> bool" where
  "decoded (SemanticAST ty f mv m tt ak v arg args l r lo up pres) \<longleftrightarrow>
     decoded_node (SemanticAST ty f mv m tt ak v arg args l r lo up pres) \<and>
     list_all (\<lambda>p. p \<noteq> Some False) [map_option decoded arg, map_option decoded l, map_option decoded r,
       map_option decoded lo, map_option decoded up] \<and> list_all id (map decoded args)"

definition governed_types :: "NodeType list" where
  "governed_types = [TyFieldRef, TyMeasureRef, TyLiteral, TyTrue, TyFalse, TySubjectAttribute, TyArray, TyCoalesce, TyRound,
     TyCast, TyBetween, TyAnd, TyOr] @ map TyArithmetic [Add, Subtract, Multiply, Divide] @ map TyFunction [Abs, Floor, Ceil] @
     map TyTest [IsNull, IsNotNull, Negation] @ map TyComparison semantic_comparisons"

lemma shape_governed: "ast_shape n \<Longrightarrow> saType n \<in> set governed_types"
proof (cases "saType n")
  case (TyTruth b)
  then show ?thesis by (cases b) (simp_all add: governed_types_def)
next
  case (TyArithmetic a)
  then show ?thesis by (cases a) (simp_all add: governed_types_def)
next
  case (TyTest t)
  then show ?thesis by (cases t) (simp_all add: governed_types_def)
qed (auto simp: ast_shape_def governed_types_def)

lemma governed_registry_type: "list_all (\<lambda>ty. (case find (\<lambda>t. type_name t = to_upper (trim_space (type_name ty))) node_types of
    None \<Rightarrow> True | Some t \<Rightarrow> t = ty)) governed_types"
  by code_simp

lemma registry_type_same: "ast_shape n \<Longrightarrow> registry_type n = Some t \<Longrightarrow> t = saType n"
  using governed_registry_type shape_governed [of n] by (auto simp: list_all_iff registry_type_def split: option.splits)

lemma collect_Some: "collect xs = Some ks \<longleftrightarrow> (\<exists>kss. xs = map Some kss \<and> ks = concat kss)"
  by (auto simp: collect_def those_Some)

lemma collect_arguments:
  assumes "collect (map (\<lambda>f. f d) (map walk as)) = Some ks" "k \<in> set ks"
  shows "\<exists>a \<in> set as. \<exists>ks'. walk a d = Some ks' \<and> k \<in> set ks'"
proof -
  obtain kss where kss: "map (\<lambda>a. walk a d) as = map Some kss" "ks = concat kss"
    using assms(1) by (auto simp: collect_Some comp_def)
  then obtain ks' where "ks' \<in> set kss" "k \<in> set ks'" using assms(2) by auto
  then obtain i where i: "i < length kss" "k \<in> set (kss ! i)" by (auto simp: in_set_conv_nth [of ks' kss])
  moreover have "length as = length kss" using kss(1) map_eq_imp_length_eq by blast
  moreover have "walk (as ! i) d = Some (kss ! i)"
    using arg_cong [OF kss(1), of "\<lambda>xs. xs ! i"] i(1) \<open>length as = length kss\<close> by simp
  ultimately show ?thesis by (metis nth_mem)
qed

lemma collect_arguments_all:
  assumes "collect (map (\<lambda>f. f d) (map walk as)) = Some ks" "a \<in> set as"
  shows "walk a d \<noteq> None"
proof -
  have "map (\<lambda>a. walk a d) as = map Some kss \<Longrightarrow> walk a d \<noteq> None" for kss
    using assms(2) by (metis (no_types, lifting) image_iff list.set_map option.distinct(1))
  with assms(1) show ?thesis by (auto simp: collect_Some comp_def)
qed


lemma decoded_part: "map_option decoded p \<noteq> Some False \<longleftrightarrow> (\<forall>a. p = Some a \<longrightarrow> decoded a)" by (cases p) auto

lemma decoded_kids: "decoded n \<longleftrightarrow> decoded_node n \<and> (\<forall>a \<in> set (kids n). decoded a)"
proof (cases n)
  case (SemanticAST ty f mv m tt ak v arg args l r lo up pres)
  show ?thesis unfolding SemanticAST decoded.simps Ball_def in_kids semanticAST.sel
    by (auto simp: decoded_part list_all_iff)
qed

lemma no_parts:
  assumes "exact n must may" "decoded_node n"
  shows "key_argument \<notin> set must \<union> set may \<Longrightarrow> saArgument n = None"
    "key_arguments \<notin> set must \<union> set may \<Longrightarrow> saArguments n = []"
    "''left'' \<notin> set must \<union> set may \<Longrightarrow> saLeft n = None" "''right'' \<notin> set must \<union> set may \<Longrightarrow> saRight n = None"
    "''lower'' \<notin> set must \<union> set may \<Longrightarrow> saLower n = None" "''upper'' \<notin> set must \<union> set may \<Longrightarrow> saUpper n = None"
proof -
  have k: "k \<notin> set (saPresent n)" if "k \<notin> set must \<union> set may" for k
    using assms(1) that by (auto simp: exact_def list_all_iff)
  note d = assms(2) [unfolded decoded_node_def]
  show "key_argument \<notin> set must \<union> set may \<Longrightarrow> saArgument n = None"
    "key_arguments \<notin> set must \<union> set may \<Longrightarrow> saArguments n = []"
    "''left'' \<notin> set must \<union> set may \<Longrightarrow> saLeft n = None" "''right'' \<notin> set must \<union> set may \<Longrightarrow> saRight n = None"
    "''lower'' \<notin> set must \<union> set may \<Longrightarrow> saLower n = None" "''upper'' \<notin> set must \<union> set may \<Longrightarrow> saUpper n = None"
    using d k by blast+
qed

lemmas key_defs = key_type_def key_argument_def key_arguments_def

definition node_keys :: "NodeType \<Rightarrow> string list \<times> string list" where
  "node_keys ty = (case ty of TyFieldRef \<Rightarrow> ([key_type, ''fieldId''], []) | TyMeasureRef \<Rightarrow> ([key_type], [''measureVersionId'', ''measureId''])
     | TyLiteral \<Rightarrow> ([key_type, ''value''], []) | TySubjectAttribute \<Rightarrow> ([key_type, ''attributeKey''], [])
     | TyFunction _ \<Rightarrow> ([key_type, key_argument], []) | TyTest _ \<Rightarrow> ([key_type, key_argument], [])
     | TyCast \<Rightarrow> ([key_type, ''targetType'', key_argument], []) | TyComparison _ \<Rightarrow> ([key_type, ''left'', ''right''], [])
     | TyBetween \<Rightarrow> ([key_type, ''left'', ''lower'', ''upper''], []) | TyTruth _ \<Rightarrow> ([key_type], [])
     | _ \<Rightarrow> ([key_type, key_arguments], []))"

lemma shape_exact: "ast_shape n \<Longrightarrow> exact n (fst (node_keys (saType n))) (snd (node_keys (saType n)))"
  by (cases "saType n") (simp_all add: ast_shape_def node_keys_def measure_ref_valid_def)

lemma node_keys_visited:
  "\<not> visited_argument ty \<Longrightarrow> key_argument \<notin> set (fst (node_keys ty)) \<union> set (snd (node_keys ty))"
  "\<not> visited_left ty \<Longrightarrow> ''left'' \<notin> set (fst (node_keys ty)) \<union> set (snd (node_keys ty))"
  "\<not> visited_right ty \<Longrightarrow> ''right'' \<notin> set (fst (node_keys ty)) \<union> set (snd (node_keys ty))"
  "ty \<noteq> TyBetween \<Longrightarrow> ''lower'' \<notin> set (fst (node_keys ty)) \<union> set (snd (node_keys ty))"
  "ty \<noteq> TyBetween \<Longrightarrow> ''upper'' \<notin> set (fst (node_keys ty)) \<union> set (snd (node_keys ty))"
  by (cases ty; simp add: node_keys_def visited_defs key_defs)+

lemma node_keys_lists:
  "ast_shape n \<Longrightarrow> \<not> visited_lists (saType n) \<Longrightarrow> key_arguments \<notin> set (fst (node_keys (saType n))) \<union> set (snd (node_keys (saType n)))"
  by (cases "saType n") (simp_all add: ast_shape_def node_keys_def visited_defs key_defs)

lemma visited_parts:
  assumes "ast_shape n" "decoded_node n"
  shows "saArgument n \<noteq> None \<Longrightarrow> visited_argument (saType n)" "saArguments n \<noteq> [] \<Longrightarrow> visited_lists (saType n)"
    "saLeft n \<noteq> None \<Longrightarrow> visited_left (saType n)" "saRight n \<noteq> None \<Longrightarrow> visited_right (saType n)"
    "saLower n \<noteq> None \<Longrightarrow> saType n = TyBetween" "saUpper n \<noteq> None \<Longrightarrow> saType n = TyBetween"
proof -
  note no = no_parts [OF shape_exact [OF assms(1)] assms(2)] and keys = node_keys_visited [of "saType n"]
  show "saArgument n \<noteq> None \<Longrightarrow> visited_argument (saType n)" by (erule contrapos_np) (erule no(1) [OF keys(1)])
  show "saArguments n \<noteq> [] \<Longrightarrow> visited_lists (saType n)" by (erule contrapos_np) (erule no(2) [OF node_keys_lists [OF assms(1)]])
  show "saLeft n \<noteq> None \<Longrightarrow> visited_left (saType n)" by (erule contrapos_np) (erule no(3) [OF keys(2)])
  show "saRight n \<noteq> None \<Longrightarrow> visited_right (saType n)" by (erule contrapos_np) (erule no(4) [OF keys(3)])
  show "saLower n \<noteq> None \<Longrightarrow> saType n = TyBetween" by (erule contrapos_np) (erule no(5) [OF keys(4)])
  show "saUpper n \<noteq> None \<Longrightarrow> saType n = TyBetween" by (erule contrapos_np) (erule no(6) [OF keys(5)])
qed

lemma valid_node: "validateSemanticAST n d \<Longrightarrow> ast_shape n"
  by (cases n) (simp add: validateSemanticAST.simps)

lemma valid_parts:
  assumes "validateSemanticAST n d"
  shows "visited_lists (saType n) \<Longrightarrow> a \<in> set (saArguments n) \<Longrightarrow> validateSemanticAST a (d + 1)"
    "visited_argument (saType n) \<Longrightarrow> saArgument n = Some a \<Longrightarrow> validateSemanticAST a (d + 1)"
    "visited_left (saType n) \<Longrightarrow> saLeft n = Some a \<Longrightarrow> validateSemanticAST a (d + 1)"
    "visited_right (saType n) \<Longrightarrow> saRight n = Some a \<Longrightarrow> validateSemanticAST a (d + 1)"
    "saType n = TyBetween \<Longrightarrow> saLower n = Some a \<Longrightarrow> validateSemanticAST a (d + 1)"
    "saType n = TyBetween \<Longrightarrow> saUpper n = Some a \<Longrightarrow> validateSemanticAST a (d + 1)"
  using assms by (cases n; simp add: validateSemanticAST.simps part_valid_def list_all_iff)+

lemma valid_kids:
  assumes "validateSemanticAST n d" "decoded n" "a \<in> set (kids n)"
  shows "validateSemanticAST a (d + 1)" "decoded a"
proof -
  show "decoded a" using assms(2,3) decoded_kids by blast
  have node: "ast_shape n" "decoded_node n" using assms(1,2) valid_node decoded_kids by blast+
  note vp = visited_parts [OF node] and valid = valid_parts [OF assms(1), of a]
  from assms(3) [unfolded in_kids] show "validateSemanticAST a (d + 1)"
  proof (elim disjE)
    assume a: "a \<in> set (saArguments n)"
    then have "saArguments n \<noteq> []" by auto
    from valid(1) [OF vp(2) [OF this] a] show ?thesis .
  qed (use vp valid in \<open>blast\<close>)+
qed

definition key_set :: "semanticAST option \<Rightarrow> string set" where
  "key_set p = (\<Union>a \<in> set (part_list p). set (subject_keys a))"

lemma key_set_if: "(p \<noteq> None \<Longrightarrow> b) \<Longrightarrow> set (if b then keys_of (map_option subject_keys p) else []) = key_set p"
  by (cases p) (auto simp: part_list_def key_set_def)

lemma subject_keys_kids:
  assumes "ast_shape n" "decoded_node n" "saType n \<noteq> TySubjectAttribute"
  shows "set (subject_keys n) = (\<Union>a \<in> set (kids n). set (subject_keys a))"
proof -
  note vp = visited_parts [OF assms(1,2)]
  have up: "set (if saType n = TyBetween then keys_of (map_option subject_keys (saLower n)) @
      keys_of (map_option subject_keys (saUpper n)) else []) = key_set (saLower n) \<union> key_set (saUpper n)"
    using vp(5,6) key_set_if [of "saLower n" True] key_set_if [of "saUpper n" True]
    by (cases "saType n = TyBetween"; cases "saLower n"; cases "saUpper n") (auto simp: key_set_def part_list_def)
  have parts: "set (if visited_argument (saType n) then keys_of (map_option subject_keys (saArgument n)) else []) = key_set (saArgument n)"
    "set (if visited_left (saType n) then keys_of (map_option subject_keys (saLeft n)) else []) = key_set (saLeft n)"
    "set (if visited_right (saType n) then keys_of (map_option subject_keys (saRight n)) else []) = key_set (saRight n)"
    by (rule key_set_if, erule vp(1), rule key_set_if, erule vp(3), rule key_set_if, erule vp(4))
  have "set (if visited_lists (saType n) then concat (map subject_keys (saArguments n)) else []) =
      (\<Union>a \<in> set (saArguments n). set (subject_keys a))" using vp(2) by (cases "saArguments n = []") auto
  then have "set (subject_keys n) = (\<Union>a \<in> set (saArguments n). set (subject_keys a)) \<union> (key_set (saArgument n) \<union>
      (key_set (saLeft n) \<union> (key_set (saRight n) \<union> (key_set (saLower n) \<union> key_set (saUpper n)))))"
    unfolding subject_keys_node [of n] set_append if_not_P [OF assms(3)] parts up by simp
  then show ?thesis by (auto simp: kids_def key_set_def)
qed


definition leaf_type :: "NodeType \<Rightarrow> bool" where
  "leaf_type t \<longleftrightarrow> t = TySubjectAttribute \<or> t = TyFieldRef \<or> t = TyLiteral \<or> (\<exists>b. t = TyTruth b)"

lemma no_kids:
  assumes "ast_shape n" "decoded_node n" "leaf_type (saType n)"
  shows "kids n = []"
proof -
  have "\<not> visited_argument (saType n)" "\<not> visited_lists (saType n)" "\<not> visited_left (saType n)" "\<not> visited_right (saType n)"
    "saType n \<noteq> TyBetween" using assms(3) by (auto simp: leaf_type_def visited_defs)
  with visited_parts [OF assms(1,2)] have "saArgument n = None" "saArguments n = []" "saLeft n = None" "saRight n = None"
    "saLower n = None" "saUpper n = None" by metis+
  then show ?thesis by (simp add: kids_def part_list_def)
qed

text \<open>The registry's walk goes through the same parts.\<close>

lemma walk_eq: "walkRowAccessPredicate n = walk_node n
    [map_option walkRowAccessPredicate (saArgument n), map_option walkRowAccessPredicate (saLeft n),
     map_option walkRowAccessPredicate (saRight n), map_option walkRowAccessPredicate (saLower n),
     map_option walkRowAccessPredicate (saUpper n)] (map walkRowAccessPredicate (saArguments n))"
  by (cases n) (simp add: walkRowAccessPredicate.simps)

lemma walk_leaf:
  assumes "walkRowAccessPredicate n d = Some ks" "registry_type n = Some t" "leaf_type t"
  shows "ks = (if t = TySubjectAttribute then [saAttributeKey n] else [])"
  using assms unfolding walk_eq [of n] by (auto simp: walk_node_def leaf_type_def split: if_splits)

lemma walk_inner:
  assumes "walkRowAccessPredicate n d = Some ks" "registry_type n = Some t" "\<not> leaf_type t"
  shows "inner_shape t n" "collect (map (\<lambda>a. walkRowAccessPredicate a (d + 1)) (kids n)) = Some ks"
proof -
  have "inner_shape t n \<and> collect (concat (map (\<lambda>p. case p of None \<Rightarrow> [] | Some f \<Rightarrow> [f (d + 1)])
      [map_option walkRowAccessPredicate (saArgument n), map_option walkRowAccessPredicate (saLeft n),
       map_option walkRowAccessPredicate (saRight n), map_option walkRowAccessPredicate (saLower n),
       map_option walkRowAccessPredicate (saUpper n)]) @ map (\<lambda>f. f (d + 1)) (map walkRowAccessPredicate (saArguments n))) = Some ks"
    using assms unfolding walk_eq [of n] by (cases t) (auto simp: walk_node_def leaf_type_def simp del: list.map concat.simps split: if_splits)
  moreover have "(case map_option walkRowAccessPredicate p of None \<Rightarrow> [] | Some f \<Rightarrow> [f (d + 1)]) =
      map (\<lambda>a. walkRowAccessPredicate a (d + 1)) (part_list p)" for p by (cases p) (simp_all add: part_list_def)
  ultimately show "inner_shape t n" "collect (map (\<lambda>a. walkRowAccessPredicate a (d + 1)) (kids n)) = Some ks"
    by (simp_all add: kids_def comp_def)
qed

lemma collect_parts:
  assumes "collect (map f as) = Some ks"
  shows "a \<in> set as \<Longrightarrow> \<exists>ks'. f a = Some ks'" "set ks = (\<Union>a \<in> set as. set (keys_of (f a)))"
proof -
  obtain kss where kss: "map f as = map Some kss" "ks = concat kss" using assms by (auto simp: collect_Some)
  from kss(1) show "a \<in> set as \<Longrightarrow> \<exists>ks'. f a = Some ks'" by (metis (no_types, lifting) image_iff list.set_map)
  have "(\<Union>x \<in> set (map f as). set (keys_of x)) = (\<Union>x \<in> set (map Some kss). set (keys_of x))" using kss(1) by simp
  then show "set ks = (\<Union>a \<in> set as. set (keys_of (f a)))" using kss(2) by simp
qed

lemma walked:
  assumes "validateSemanticAST n d" "decoded n" "walkRowAccessPredicate n d' = Some ks"
  shows "set ks = set (subject_keys n)" "\<not> semanticASTContainsType TyBetween n" "\<not> semanticASTContainsType TyMeasureRef n"
proof -
  let ?absent = "\<lambda>a. \<not> semanticASTContainsType TyBetween a \<and> \<not> semanticASTContainsType TyMeasureRef a"
  have "set ks = set (subject_keys n) \<and> ?absent n"
    using assms
  proof (induction n arbitrary: d d' ks rule: kids_induct)
    case (1 n)
    have node: "ast_shape n" "decoded_node n" using 1(2,3) valid_node decoded_kids by blast+
    obtain t where "registry_type n = Some t" using 1(4) unfolding walk_eq [of n] by (auto simp: walk_node_def split: option.splits if_splits)
    with registry_type_same [OF node(1)] have t: "registry_type n = Some (saType n)" by simp
    show ?case
    proof (cases "leaf_type (saType n)")
      case True
      from walk_leaf [OF 1(4) t True] True no_kids [OF node] show ?thesis
        unfolding contains_kids [of TyBetween n] contains_kids [of TyMeasureRef n] by (auto simp: leaf_type_def subject_keys_of)
    next
      case False
      note walk = walk_inner [OF 1(4) t False]
      have kid: "\<exists>ks'. walkRowAccessPredicate a (d' + 1) = Some ks' \<and> set ks' = set (subject_keys a) \<and>
          ?absent a" if "a \<in> set (kids n)" for a
        using 1(1) [OF that valid_kids [OF 1(2,3) that]] collect_parts(1) [OF walk(2) that] by blast
      have "saType n \<noteq> TyBetween" using walk(1) no_parts(1) [OF shape_exact [OF node(1)] node(2)]
        by (auto simp: inner_shape_def node_keys_def key_defs)
      moreover have "saType n \<noteq> TyMeasureRef" using walk(1) by (auto simp: inner_shape_def)
      ultimately have "?absent n" using kid unfolding contains_kids [of TyBetween n] contains_kids [of TyMeasureRef n] by auto
      moreover have "set ks = set (subject_keys n)"
      proof -
        have no_leaf: "saType n \<noteq> TySubjectAttribute" using False by (auto simp: leaf_type_def)
        have keys: "set (keys_of (walkRowAccessPredicate a (d' + 1))) = set (subject_keys a)" if a: "a \<in> set (kids n)" for a
        proof -
          obtain ks' where "walkRowAccessPredicate a (d' + 1) = Some ks'" "set ks' = set (subject_keys a)" using kid [OF a] by blast
          then show ?thesis by simp
        qed
        show ?thesis by (simp only: collect_parts(2) [OF walk(2)] subject_keys_kids [OF node no_leaf] keys cong: SUP_cong)
      qed
      ultimately show ?thesis by simp
    qed
  qed
  then show "set ks = set (subject_keys n)" "\<not> semanticASTContainsType TyBetween n" "\<not> semanticASTContainsType TyMeasureRef n"
    by blast+
qed


lemma certified_keys:
  assumes "ParseRowAccessPredicate (Some n) = Some ks" "validateSemanticAST n 0" "decoded n"
  shows "set ks = set (subject_keys n)" "\<not> semanticASTContainsType TyBetween n" "\<not> semanticASTContainsType TyMeasureRef n"
    "row_access_root (saType n)"
proof -
  obtain t ks' where t: "registry_type n = Some t" "row_access_root t" "walkRowAccessPredicate n 0 = Some ks'"
      "ks = sort_slice (<) (remdups ks')"
    using assms(1) by (auto simp: ParseRowAccessPredicate_def split: option.splits if_splits)
  note walk = walked [OF assms(2,3) t(3)]
  show "set ks = set (subject_keys n)" using t(4) walk(1) by simp
  show "\<not> semanticASTContainsType TyBetween n" "\<not> semanticASTContainsType TyMeasureRef n" by (rule walk(2), rule walk(3))
  show "row_access_root (saType n)" using registry_type_same [OF valid_node [OF assms(2)] t(1)] t(2) by simp
qed

end
