(* ===== verification/RowAccessCompile.thy ===== *)
theory RowAccessCompile imports RowAccessWalk begin

text \<open>
  When a policy compiles, and which fields the compiled filter refers to.
\<close>

section \<open>When a policy compiles\<close>

definition refused :: "'a translated \<Rightarrow> bool" where
  "refused t \<longleftrightarrow> (case t of Inl SubjectAttributeUnmatched \<Rightarrow> False | Inl _ \<Rightarrow> True | Inr _ \<Rightarrow> False)"

lemma refused_and_then: "refused (and_then t g) \<longleftrightarrow> refused t \<or> (\<exists>x fs ms. t = Inr (x, fs, ms) \<and> refused (g x))"
  by (auto simp: refused_def and_then_def split: sum.splits prod.splits translate_error.splits)

lemma refused_pure [simp]: "\<not> refused (pure x)" by (simp add: refused_def pure_def)

lemma refused_simps [simp]: "refused (Inl SubjectAttributeUnmatched) = False" "refused (Inl NotAllowed) = True"
  "refused (Inl NilPointer) = True" "refused (Inr y) = False"
  by (simp_all add: refused_def)

lemma refused_arguments: "refused (translateArguments ts) \<Longrightarrow> \<exists>t \<in> set ts. refused t"
  by (induction ts) (auto simp: refused_and_then)

lemma translate_eq: "translate tr mode n = translate_node tr mode n (map_option (translate tr mode) (saArgument n))
    (map (translate tr mode) (saArguments n)) (map_option (translate tr mode) (saLeft n))
    (map_option (translate tr mode) (saRight n)) (map_option (translate tr mode) (saLower n))
    (map_option (translate tr mode) (saUpper n))"
  by (cases n) (simp add: translate.simps)

definition known_columns :: "columns \<Rightarrow> semanticAST \<Rightarrow> bool" where
  "known_columns cols n \<longleftrightarrow> (\<forall>x \<in> set (subtrees n). saType x = TyFieldRef \<longrightarrow> cols (saFieldID x) \<noteq> None)"

definition few_values :: "granted \<Rightarrow> bool" where "few_values attrs \<longleftrightarrow> (\<forall>k vs. attrs k = Some vs \<longrightarrow> length vs \<le> 1000)"

lemma translates_or_unmatched:
  assumes "validateSemanticAST n d" "decoded n" "\<not> semanticASTContainsType TyMeasureRef n" "known_columns cols n" "few_values attrs"
  shows "\<not> refused (translate (policy_translator cols attrs) AstRowPolicy n d)"
  using assms(1-4)
proof (induction n arbitrary: d rule: kids_induct)
  case (1 n)
  let ?t = "translate (policy_translator cols attrs) AstRowPolicy"
  have node: "ast_shape n" "decoded_node n" using 1(2,3) valid_node decoded_kids by blast+
  have kid: "\<not> refused (?t a (d + 1))" if "a \<in> set (kids n)" for a
    using 1(1) [OF that valid_kids [OF 1(2,3) that]] 1(4,5) that
    unfolding contains_kids [of TyMeasureRef n] known_columns_def subtrees_kids [of n] by blast
  have list: "\<not> refused (translateArguments (map (\<lambda>p. p (d + 1)) (map ?t (saArguments n))))"
    using refused_arguments kid by (fastforce simp: in_kids)
  have part: "\<not> refused (translate_part (map_option ?t p) d)" if "p = Some a" "a \<in> set (kids n)" for p a
    using kid [OF that(2)] that(1) by (simp add: translate_part_def)
  have depth: "d \<le> MaxDepth" using 1(2) by (cases n) (simp add: validateSemanticAST.simps)
  have pol: "predicate_mode AstRowPolicy" by (simp add: predicate_mode_def)
  note shape = node(1) [unfolded ast_shape_def]
  show ?case
  proof (cases "saType n")
    case TyFieldRef
    moreover from this 1(5) have "cols (saFieldID n) \<noteq> None" by (auto simp: known_columns_def subtrees_kids [of n])
    ultimately show ?thesis unfolding translate_eq [of _ _ n] using depth
      by (auto simp: translate_node_def translate_field_def policy_translator_def)
  next
    case TyMeasureRef
    with 1(4) show ?thesis by (simp add: contains_kids [of TyMeasureRef n])
  next
    case TySubjectAttribute
    have few: "length vs \<le> 1000" if "attrs (saAttributeKey n) = Some vs" for vs
      using assms(5) that by (simp add: few_values_def)
    with depth TySubjectAttribute show ?thesis unfolding translate_eq [of _ _ n]
      by (auto simp: translate_node_def translate_attribute_def policy_translator_def not_less split: option.splits)
  next
    case (TyArithmetic a)
    with depth list show ?thesis unfolding translate_eq [of _ _ n]
      by (cases a) (simp_all add: translate_node_def Let_def refused_and_then)
  next
    case (TyFunction g)
    with shape obtain a where "g \<in> {Abs, Floor, Ceil}" "saArgument n = Some a" by auto
    with depth TyFunction part [of _ a] show ?thesis unfolding translate_eq [of _ _ n]
      by (auto simp: translate_node_def Let_def refused_and_then in_kids)
  next
    case (TyTest t)
    with shape obtain a where "saArgument n = Some a" by (auto simp: argument_type_def split: option.splits)
    with depth TyTest part [of _ a] pol show ?thesis unfolding translate_eq [of _ _ n]
      by (auto simp: translate_node_def Let_def refused_and_then in_kids)
  next
    case TyCast
    with shape obtain a where "saArgument n = Some a" by auto
    with depth TyCast part [of _ a] show ?thesis unfolding translate_eq [of _ _ n]
      by (auto simp: translate_node_def Let_def refused_and_then in_kids)
  next
    case (TyComparison c)
    with shape obtain a b where "c \<in> set semantic_comparisons" "saLeft n = Some a" "saRight n = Some b" by auto
    with depth TyComparison part [of "Some a" a] part [of "Some b" b] pol show ?thesis unfolding translate_eq [of _ _ n]
      by (simp add: translate_node_def Let_def refused_and_then in_kids)
  next
    case TyBetween
    with shape obtain a b c where "saLeft n = Some a" "saLower n = Some b" "saUpper n = Some c" by auto
    with depth TyBetween part [of "Some a" a] part [of "Some b" b] part [of "Some c" c] pol show ?thesis
      unfolding translate_eq [of _ _ n] by (simp add: translate_node_def Let_def refused_and_then in_kids)
  next
    case (TyLiteral)
    with shape depth show ?thesis unfolding translate_eq [of _ _ n] by (auto simp: translate_node_def)
  qed (use depth list pol shape in \<open>simp_all add: translate_eq [of _ _ n] translate_node_def Let_def refused_and_then\<close>)
qed


definition visits :: "semanticAST \<Rightarrow> semanticAST \<Rightarrow> bool" where
  "visits n a \<longleftrightarrow> visited_argument (saType n) \<and> saArgument n = Some a \<or> visited_lists (saType n) \<and> a \<in> set (saArguments n) \<or>
    visited_left (saType n) \<and> saLeft n = Some a \<or> visited_right (saType n) \<and> saRight n = Some a \<or>
    saType n = TyBetween \<and> (saLower n = Some a \<or> saUpper n = Some a)"

lemma visits_of:
  "visited_lists (saType n) \<Longrightarrow> visits n a \<longleftrightarrow> a \<in> set (saArguments n)"
  "visited_argument (saType n) \<Longrightarrow> visits n a \<longleftrightarrow> saArgument n = Some a"
  "saType n = TyComparison c \<Longrightarrow> visits n a \<longleftrightarrow> saLeft n = Some a \<or> saRight n = Some a"
  "saType n = TyBetween \<Longrightarrow> visits n a \<longleftrightarrow> saLeft n = Some a \<or> saLower n = Some a \<or> saUpper n = Some a"
  "leaf_type (saType n) \<Longrightarrow> \<not> visits n a"
  "saType n = TyMeasureRef \<Longrightarrow> \<not> visits n a"
  by (cases "saType n"; auto simp: visits_def visited_defs leaf_type_def)+

lemma kids_visited:
  assumes "validateSemanticAST n d" "decoded n" "a \<in> set (kids n)"
  shows "visits n a"
proof -
  have node: "ast_shape n" "decoded_node n" using assms(1,2) valid_node decoded_kids by blast+
  note vp = visited_parts [OF node]
  from assms(3) [unfolded in_kids] show ?thesis
  proof (elim disjE)
    assume a: "a \<in> set (saArguments n)"
    then have "saArguments n \<noteq> []" by auto
    from vp(2) [OF this] a show "visits n a" by (simp add: visits_def)
  qed (use vp in \<open>simp_all add: visits_def\<close>)
qed

definition has_field :: "semanticAST \<Rightarrow> bool" where "has_field n \<longleftrightarrow> (\<exists>x \<in> set (subtrees n). saType x = TyFieldRef)"

lemma has_field_kids: "has_field n \<longleftrightarrow> saType n = TyFieldRef \<or> (\<exists>a \<in> set (kids n). has_field a)"
  unfolding has_field_def subtrees_kids [of n] by blast

lemma field_kid:
  assumes "validateSemanticAST n d" "decoded n" "has_field n" "saType n \<noteq> TyFieldRef"
  obtains a where "has_field a" "validateSemanticAST a (d + 1)" "decoded a"
    "visits n a"
proof -
  obtain a where a: "a \<in> set (kids n)" "has_field a" using assms(3,4) has_field_kids [of n] by blast
  show thesis using that [OF a(2) valid_kids [OF assms(1,2) a(1)] kids_visited [OF assms(1,2) a(1)]] .
qed

lemma argument_kid:
  assumes "validateSemanticAST n d" "decoded n" "has_field n" "visited_argument (saType n)" "saArgument n = Some a"
  shows "has_field a" "validateSemanticAST a (d + 1)" "decoded a"
proof -
  from assms(4) have type: "saType n \<noteq> TyFieldRef" by (auto simp: visited_defs)
  obtain a' where a': "has_field a'" "validateSemanticAST a' (d + 1)" "decoded a'" "visits n a'"
    by (rule field_kid [OF assms(1-3) type])
  moreover have "a' = a" using a'(4) assms(5) visits_of(2) [OF assms(4), of a'] by simp
  ultimately show "has_field a" "validateSemanticAST a (d + 1)" "decoded a" by simp_all
qed

lemma leaf_field:
  assumes "validateSemanticAST n d" "decoded n" "has_field n" "leaf_type (saType n) \<or> saType n = TyMeasureRef"
  shows "saType n = TyFieldRef"
proof (rule ccontr)
  assume type: "saType n \<noteq> TyFieldRef"
  obtain a where "visits n a" by (rule field_kid [OF assms(1-3) type])
  with assms(4) visits_of(5,6) show False by blast
qed

lemma list_referenced:
  assumes "a \<in> set as" "length xs = length as" "length rs = length xs"
    "\<And>i. i < length xs \<Longrightarrow> as ! i = a \<Longrightarrow> rs ! i \<noteq> []"
  shows "concat rs \<noteq> []"
proof -
  obtain i where "i < length as" "as ! i = a" using assms(1) by (auto simp: in_set_conv_nth)
  with assms(2-4) have "rs ! i \<noteq> []" "rs ! i \<in> set rs" by auto
  then show ?thesis by auto
qed

lemma fields_referenced:
  assumes "translates tr mode n e fs" "validateSemanticAST n d" "decoded n" "has_field n"
  shows "fs \<noteq> []"
  using assms
proof (induction arbitrary: d)
  case (nary n xs rs)
  then have type: "saType n \<noteq> TyFieldRef" "visited_lists (saType n)" by (auto simp: plain_nary_def visited_defs)
  from field_kid [OF nary(5-7) type(1)] obtain a where "has_field a" "validateSemanticAST a (d + 1)" "decoded a" "visits n a" .
  with nary(2-4) visits_of(1) [OF type(2)] show ?case by (intro list_referenced [of a]) auto
next
  case (quotient n xs rs)
  then have type: "saType n \<noteq> TyFieldRef" "visited_lists (saType n)" by (auto simp: visited_defs)
  from field_kid [OF quotient(5-7) type(1)] obtain a where "has_field a" "validateSemanticAST a (d + 1)" "decoded a" "visits n a" .
  with quotient(2-4) visits_of(1) [OF type(2)] show ?case by (intro list_referenced [of a]) auto
next
  case (metric_measure n e)
  with leaf_field [OF metric_measure.prems] show ?case by simp
next
  case (literal n v)
  with leaf_field [OF literal.prems] show ?case by (simp add: leaf_type_def)
next
  case (truth n b)
  with leaf_field [OF truth.prems] show ?case by (simp add: leaf_type_def)
next
  case (attribute n vs)
  with leaf_field [OF attribute.prems] show ?case by (simp add: leaf_type_def)
next
  case (numeric n g a x r)
  with argument_kid [OF numeric.prems] show ?case by (simp add: visited_defs)
next
  case (cast n a x r)
  with argument_kid [OF cast.prems] show ?case by (simp add: visited_defs)
next
  case (test n t a x r)
  with argument_kid [OF test.prems] show ?case by (simp add: visited_defs)
next
  case (comparison n c a b x r y r')
  then have type: "saType n \<noteq> TyFieldRef" by simp
  from field_kid [OF comparison.prems type] obtain a' where "has_field a'" "validateSemanticAST a' (d + 1)" "decoded a'" "visits n a'" .
  with comparison.hyps(4,5) comparison.IH visits_of(3) [OF comparison.hyps(1)] show ?case by auto
next
  case (between n a b c x r y r' z r'')
  then have type: "saType n \<noteq> TyFieldRef" by simp
  from field_kid [OF between.prems type] obtain a' where "has_field a'" "validateSemanticAST a' (d + 1)" "decoded a'" "visits n a'" .
  with between.hyps(3-5) between.IH visits_of(4) [OF between.hyps(1)] show ?case by auto
qed simp

section \<open>The fields of a translation\<close>

lemma subexpressions_literals:
  "subexpressions (e_field n f) = [e_field n f]" "subexpressions (e_literal v) = [e_literal v]"
  "subexpressions (e_unary t a) = e_unary t a # subexpressions a"
  "subexpressions (e_cast tt a) = e_cast tt a # subexpressions a"
  "subexpressions (e_nary t as) = e_nary t as # concat (map subexpressions as)"
  "subexpressions (e_binary t a b) = e_binary t a b # subexpressions a @ subexpressions b"
  "subexpressions (e_between a b c) = e_between a b c # subexpressions a @ subexpressions b @ subexpressions c"
  by (simp_all add: e_defs subexpressions.simps)

definition anchored :: "DatasetExpression \<Rightarrow> bool" where
  "anchored e \<longleftrightarrow> (\<exists>x \<in> set (subexpressions e). deType x = TyFieldRef \<and> deNodeID x = anchorNodeID)"

lemma anchored_literals:
  "anchored (e_field n f) \<longleftrightarrow> n = anchorNodeID" "\<not> anchored (e_literal v)"
  "anchored (e_unary (TyFunction g) a) = anchored a" "anchored (e_unary (TyTest t) a) = anchored a"
  "anchored (e_cast tt a) = anchored a"
  "t' \<noteq> TyFieldRef \<Longrightarrow> anchored (e_nary t' as) \<longleftrightarrow> (\<exists>a \<in> set as. anchored a)"
  "anchored (e_binary (TyComparison c) a b) \<longleftrightarrow> anchored a \<or> anchored b"
  "anchored (e_between a b d) \<longleftrightarrow> anchored a \<or> anchored b \<or> anchored d"
  unfolding anchored_def subexpressions_literals by (auto simp: e_defs)

lemma anchored_list:
  assumes "concat rs \<noteq> []" "length rs = length xs" "\<And>i. i < length xs \<Longrightarrow> rs ! i \<noteq> [] \<Longrightarrow> anchored (xs ! i)"
  shows "\<exists>a \<in> set xs. anchored a"
proof -
  obtain r where "r \<in> set rs" "r \<noteq> []" using assms(1) by auto
  then obtain i where "i < length rs" "rs ! i \<noteq> []" by (auto simp: in_set_conv_nth)
  with assms(2,3) show ?thesis by (metis nth_mem)
qed

lemma translation_anchored: "translates tr AstRowPolicy n e fs \<Longrightarrow> fs \<noteq> [] \<Longrightarrow> anchored e"
proof (induction rule: translates.induct)
  case (nary n xs rs)
  then have "\<exists>a \<in> set xs. anchored a" by (intro anchored_list) auto
  with nary(1) show ?case by (subst anchored_literals(6)) (auto simp: plain_nary_def)
next
  case (quotient n xs rs)
  then have "\<exists>a \<in> set xs. anchored a" by (intro anchored_list) auto
  then show ?case by (simp add: guarded_quotient_def Let_def anchored_literals)
qed (auto simp: fieldReference_def anchored_literals)

lemma translation_own_fields: "translates tr AstRowPolicy n e fs \<Longrightarrow>
    \<forall>x \<in> set (subexpressions e). (deType x = TyFieldRef \<longrightarrow> deNodeID x = anchorNodeID) \<and> deType x \<noteq> TyAggregate \<and> deType x \<noteq> TyWindow"
proof (induction rule: translates.induct)
  case (nary n xs rs)
  from nary(2-4) have "\<forall>a \<in> set xs. \<forall>x \<in> set (subexpressions a). (deType x = TyFieldRef \<longrightarrow> deNodeID x = anchorNodeID) \<and>
      deType x \<noteq> TyAggregate \<and> deType x \<noteq> TyWindow" by (metis in_set_conv_nth)
  with nary(1) show ?case unfolding subexpressions_literals by (auto simp: e_defs plain_nary_def)
next
  case (quotient n xs rs)
  then have "\<forall>a \<in> set xs. \<forall>x \<in> set (subexpressions a). (deType x = TyFieldRef \<longrightarrow> deNodeID x = anchorNodeID) \<and>
      deType x \<noteq> TyAggregate \<and> deType x \<noteq> TyWindow" by (metis in_set_conv_nth)
  then show ?case by (simp add: guarded_quotient_def Let_def subexpressions_literals) (auto simp: e_defs)
next
  case (truth n b)
  show ?case unfolding constant_condition_def subexpressions_literals by (simp add: e_defs)
next
  case (attribute n vs)
  show ?case unfolding subexpressions_literals by (auto simp: e_defs subexpressions.simps)
qed (auto simp: fieldReference_def subexpressions_literals, (auto simp: e_defs))

end
