(* ===== verification/RowAccessProperties.thy ===== *)
theory RowAccessProperties imports RowAccessCompile begin

text \<open>
  What row access policies guarantee: the filters keep the rows every policy admits, a reader without
  an attribute a certified policy needs gets no row, which certified policies compile, and what
  becomes of the policies of joined models.
\<close>

section \<open>Examples\<close>

text \<open>A model with one column, and policies on it.\<close>

definition sample_columns :: columns where
  "sample_columns i = (if i = ''region_code'' then Some \<lparr> fcFieldID = i, fcCode = ''region'', fcCanonicalType = ''STRING'', fcNullable = False \<rparr> else None)"

definition sample_field :: semanticAST where
  "sample_field = SemanticAST TyFieldRef ''region_code'' [] [] [] [] None None [] None None None None [key_type, ''fieldId'']"

definition sample_attribute :: "string \<Rightarrow> semanticAST" where
  "sample_attribute k = SemanticAST TySubjectAttribute [] [] [] [] k None None [] None None None None [key_type, ''attributeKey'']"

definition sample_text :: "string \<Rightarrow> semanticAST" where
  "sample_text s = SemanticAST TyLiteral [] [] [] [] [] (Some (VString s)) None [] None None None None [key_type, ''value'']"

definition sample_in :: semanticAST where
  "sample_in = SemanticAST (TyComparison In) [] [] [] [] [] None None [] (Some sample_field) (Some (sample_attribute ''region'')) None None
     [key_type, ''left'', ''right'']"

definition sample_range :: semanticAST where
  "sample_range = SemanticAST TyBetween [] [] [] [] [] None (Some sample_field) [] None None (Some (sample_text ''a'')) (Some (sample_text ''m''))
     [key_type, key_argument, ''lower'', ''upper'']"

definition sample_and :: semanticAST where
  "sample_and = SemanticAST TyAnd [] [] [] [] [] None None [sample_in, sample_range] None None None None [key_type, key_arguments]"

definition sample_policy :: "semanticAST \<Rightarrow> RowAccessPolicyContract" where
  "sample_policy n = \<lparr> raCode = ''scope'', raPredicateAST = Some n, raSubjectAttributeKeys = [''region''] \<rparr>"

definition sample_grants :: granted where
  "sample_grants k = (if k = ''region'' then Some [''north'', ''east''] else None)"

lemmas samples = sample_columns_def sample_field_def sample_attribute_def sample_text_def sample_in_def sample_range_def
  sample_and_def sample_policy_def sample_grants_def

definition nobody :: granted where "nobody k = None"

definition sample_filter :: DatasetExpression where
  "sample_filter = e_binary (TyComparison In) (e_field anchorNodeID ''region'')
     (e_nary TyArray [e_literal (VString ''north''), e_literal (VString ''east'')])"

lemma sample_compiled: "compileRowAccessPredicate (sample_policy sample_in) sample_columns sample_grants = Some sample_filter"
  "compileRowAccessPredicate (sample_policy sample_in) sample_columns nobody = Some falseExpression"
  by code_simp+

lemma known_keys: "set pres \<subseteq> set registry_keys \<Longrightarrow> list_all (\<lambda>k. to_upper k \<in> set (map to_upper registry_keys)) pres"
  by (auto simp: list_all_iff)

lemma sample_decodes: "registry_decodes sample_in" "registry_decodes sample_and"
  by (simp_all only: samples registry_decodes.simps known_keys option.map list.map list.pred_inject list.set insert_subset
      empty_subsetI id_apply simp_thms option.inject option.distinct) (simp_all add: registry_keys_def key_defs)

lemma sample_walks: "walkRowAccessPredicate sample_in 0 = Some [''region'']" "walkRowAccessPredicate sample_and 0 = Some [''region'']"
  "registry_type sample_in = Some (TyComparison In)" "registry_type sample_and = Some TyAnd"
  by code_simp+

lemma sample_certified: "ParseRowAccessPredicate (Some sample_in) = Some [''region'']"
  "ParseRowAccessPredicate (Some sample_and) = Some [''region'']" "decoded sample_in" "decoded sample_and"
  "semanticASTContainsType TyBetween sample_and"
  by (simp_all add: ParseRowAccessPredicate_def sample_decodes sample_walks row_access_root_def)
    (simp_all add: samples decoded_node_def key_defs)

lemma sample_valid: "validateSemanticAST sample_in 0" by code_simp

lemma sample_policies: "compileRowAccessPolicies [sample_policy sample_in] sample_columns attrs =
    map_option (\<lambda>e. [\<lparr> sfField = [], sfOperator = [], sfValue = VNil, sfExpression = Some e \<rparr>])
      (compileRowAccessPredicate (sample_policy sample_in) sample_columns attrs)"
  by (simp add: compileRowAccessPolicies_def option.map_comp comp_def split: option.splits)

section \<open>Filters of joined models\<close>

lemma joined_result: "joinedRowAccessFilters node_of ms cols attrs result0 = Some result \<Longrightarrow> result node = Some fs \<Longrightarrow>
    result0 node = Some fs \<or> (\<exists>m \<in> set ms. compileRowAccessPolicies (mdRowAccessPolicies m) cols attrs = Some fs)"
  by (induction node_of ms cols attrs result0 rule: joinedRowAccessFilters.induct)
    (fastforce split: option.splits if_splits)+

lemma false_filter: "validateExpression (Some nodes) (Some params) falseExpression" "validateSourceFilterExpression node falseExpression"
  by (simp_all add: falseExpression_def constant_condition_def e_defs validateExpression_def check_expression.simps node_valid_def
      required_def validateSourceFilterExpression_def boolean_types_def subexpressions.simps)

lemma boolean_root: "translates tr AstRowPolicy n e fs \<Longrightarrow> semanticBooleanType (saType n) \<Longrightarrow> deType e \<in> set boolean_types"
proof (induction rule: translates.induct)
  case (test n t a x r)
  show ?case by (cases t) (simp_all add: boolean_types_def e_defs)
next
  case (comparison n c a b x r y r')
  then show ?case by (auto simp: boolean_types_def e_defs semantic_comparisons_def)
qed (auto simp: semanticBooleanType_def boolean_types_def e_defs constant_condition_def plain_nary_def)

lemma compiled_filter:
  assumes "compileRowAccessPredicate p cols attrs = Some e"
  shows "validateSourceFilterExpression anchorNodeID e" "e = falseExpression \<or> anchored e"
proof -
  obtain n where n: "semanticBooleanType (saType n)"
    "(case translate (policy_translator cols attrs) AstRowPolicy n 0 of Inl SubjectAttributeUnmatched \<Rightarrow> Some falseExpression
      | Inl _ \<Rightarrow> None | Inr (e, refs, _) \<Rightarrow> if refs = [] then None else Some e) = Some e"
    using assms by (auto simp: compileRowAccessPredicate_def split: option.splits if_splits)
  then consider "e = falseExpression" | fs ms where "translate (policy_translator cols attrs) AstRowPolicy n 0 = Inr (e, fs, ms)" "fs \<noteq> []"
    by (auto split: sum.splits translate_error.splits prod.splits if_splits)
  then have "validateSourceFilterExpression anchorNodeID e \<and> (e = falseExpression \<or> anchored e)"
  proof cases
    case 2
    from translates_sound [OF 2(1)] have tr: "translates (policy_translator cols attrs) AstRowPolicy n e fs" .
    from translation_own_fields [OF tr] boolean_root [OF tr n(1)] translation_anchored [OF tr 2(2)]
    show ?thesis by (simp add: validateSourceFilterExpression_def list_all_iff)
  qed (simp add: false_filter)
  then show "validateSourceFilterExpression anchorNodeID e" "e = falseExpression \<or> anchored e" by blast+
qed

section \<open>Properties\<close>

text \<open>C14: the filters that the row access policies of a model are compiled into keep exactly the rows that
  every policy admits to the reader. A policy admits a row when the reader holds a value for every
  attribute it needs and the predicate is true of the row, in SQL's three-valued logic; with a further
  policy only rows that passed before pass.\<close>

theorem row_access_exact:
  assumes "compileRowAccessPolicies ps cols attrs = Some fs" "compileRowAccessPolicies (ps @ qs) cols attrs = Some gs"
  shows "((\<forall>f \<in> set fs. passes cast row f) \<longleftrightarrow> (\<forall>p \<in> set ps. admits cast cols attrs row p)) \<and>
    ((\<forall>f \<in> set gs. passes cast row f) \<longleftrightarrow> (\<forall>f \<in> set fs. passes cast row f) \<and> (\<forall>q \<in> set qs. admits cast cols attrs row q))"
  using filters_exact [OF assms(1), of cast row] filters_exact [OF assms(2), of cast row] by auto

theorem row_access_exact_witness:
  "(\<forall>f \<in> {\<lparr> sfField = [], sfOperator = [], sfValue = VNil, sfExpression = Some sample_filter \<rparr>}.
      passes (\<lambda>_ _. Inl NoMeaning) (\<lambda>_. SqlText ''east'') f) \<longleftrightarrow>
   admits (\<lambda>_ _. Inl NoMeaning) sample_columns sample_grants (\<lambda>_. SqlText ''east'') (sample_policy sample_in)"
  using row_access_exact [of "[sample_policy sample_in]" sample_columns sample_grants _ "[]" _ "\<lambda>_ _. Inl NoMeaning" "\<lambda>_. SqlText ''east''"]
  by (simp add: sample_policies sample_compiled)

text \<open>C15: a reader who holds no value for an attribute that a certified policy of the model references sees
  no row of the model: one of the filters keeps no row at all, whatever the row holds.\<close>

theorem unknown_reader_sees_nothing:
  assumes "compileRowAccessPolicies ps cols attrs = Some fs" "p \<in> set ps" "raPredicateAST p = Some n" "decoded n"
    "ParseRowAccessPredicate (Some n) = Some ks" "k \<in> set ks" "\<not> has_grant attrs k"
  shows "\<exists>f \<in> set fs. \<forall>cast row. \<not> passes cast row f"
proof -
  obtain i where i: "i < length ps" "ps ! i = p" using assms(2) by (auto simp: in_set_conv_nth)
  obtain e where e: "sfExpression (fs ! i) = Some e" "compileRowAccessPredicate p cols attrs = Some e"
    using compiled_policies(2) [OF assms(1) i(1)] i(2) by auto
  have "validateSemanticAST n 0"
    using e(2) assms(3) by (auto simp: compileRowAccessPredicate_def decodeSemanticAST_def split: if_splits)
  with certified_keys(1) [OF assms(5) _ assms(4)] assms(6) have "k \<in> set (subject_keys n)" by simp
  with assms(3,7) have "\<not> admits cast cols attrs row p" for cast row by (auto simp: admits_def)
  with compiled_predicate_exact [OF e(2)] e(1) have "\<not> passes cast row (fs ! i)" for cast row by (simp add: passes_def)
  with i(1) compiled_policies(1) [OF assms(1)] show ?thesis by (metis nth_mem)
qed

theorem unknown_reader_sees_nothing_witness:
  "\<exists>f \<in> set [\<lparr> sfField = [], sfOperator = [], sfValue = VNil, sfExpression = Some falseExpression \<rparr>]. \<forall>cast row. \<not> passes cast row f"
  by (rule unknown_reader_sees_nothing [where ps = "[sample_policy sample_in]" and cols = sample_columns and attrs = nobody
      and p = "sample_policy sample_in" and n = sample_in and ks = "[''region'']" and k = "''region''"])
    (simp_all add: sample_policies sample_compiled sample_certified sample_valid has_grant_def nobody_def, simp add: sample_policy_def)

text \<open>C16: a certified policy without range condition compiles for every reader: when the registry has
  accepted the predicate, it has the shape the compiler reads, mentions a column of the model and no
  column the model lacks, and no reader holds more than a thousand values of an attribute.\<close>

theorem certified_policy_compiles:
  assumes "raPredicateAST p = Some n" "ParseRowAccessPredicate (Some n) = Some ks" "decoded n" "validateSemanticAST n 0"
    "has_field n" "known_columns cols n" "few_values attrs"
  shows "\<exists>e. compileRowAccessPredicate p cols attrs = Some e"
proof -
  note cert = certified_keys [OF assms(2,4,3)]
  let ?t = "translate (policy_translator cols attrs) AstRowPolicy n 0"
  have "semanticBooleanType (saType n)"
    using cert(4) valid_node [OF assms(4)] by (cases "saType n") (auto simp: row_access_root_def semanticBooleanType_def ast_shape_def)
  moreover have "\<not> refused ?t" by (rule translates_or_unmatched [OF assms(4,3) cert(3) assms(6,7)])
  moreover have "refs \<noteq> []" if "?t = Inr (e, refs, ms)" for e refs ms
    using fields_referenced [OF translates_sound [OF that] assms(4,3,5)] .
  ultimately show ?thesis using assms(1,4)
    by (auto simp: compileRowAccessPredicate_def decodeSemanticAST_def refused_def split: sum.splits translate_error.splits)
qed

theorem certified_policy_compiles_witness:
  "\<exists>e. compileRowAccessPredicate (sample_policy sample_in) sample_columns nobody = Some e"
proof (rule certified_policy_compiles [OF _ sample_certified(1,3) sample_valid])
  show "raPredicateAST (sample_policy sample_in) = Some sample_in" by (simp add: sample_policy_def)
  show "has_field sample_in" "known_columns sample_columns sample_in" by (simp_all add: has_field_def known_columns_def samples)
  show "few_values nobody" by (simp add: few_values_def nobody_def)
qed

text \<open>C17: a policy the registry certifies that contains a range condition never compiles, for any model and
  any reader: the registry asks a \<open>BETWEEN\<close> for the key \<open>argument\<close>, the compiler for the key \<open>left\<close>
  and no other. A query of such a model fails for everyone.\<close>

theorem certified_range_never_compiles:
  assumes "ParseRowAccessPredicate (Some n) = Some ks" "decoded n" "semanticASTContainsType TyBetween n" "raPredicateAST p = Some n"
  shows "compileRowAccessPredicate p cols attrs = None"
proof -
  have "\<not> validateSemanticAST n 0" using certified_keys(2) [OF assms(1) _ assms(2)] assms(3) by blast
  with assms(4) show ?thesis by (simp add: compileRowAccessPredicate_def decodeSemanticAST_def)
qed

theorem certified_range_never_compiles_witness:
  "compileRowAccessPredicate (sample_policy sample_and) sample_columns sample_grants = None"
  by (rule certified_range_never_compiles [OF sample_certified(2,4,5)]) (simp add: sample_policy_def)

text \<open>C18: the filters of a joined model never pass the check of the generated document, unless they keep no
  row at all: a field of a policy is always translated into a field of the anchor's node, and the check
  wants every field of a filter on the node it is applied to. The anchor's own filters always pass it,
  so a query over one model is not affected, while a reader who holds the attributes cannot join a model
  that has a policy.\<close>

theorem joined_policies_never_validate:
  assumes "joinedRowAccessFilters node_of ms cols attrs (\<lambda>_. None) = Some result" "result node = Some fs" "f \<in> set fs"
    "node \<noteq> anchorNodeID"
  shows "(source_filter_valid physical nodes params node projection f \<longleftrightarrow> sfExpression f = Some falseExpression) \<and>
    (\<forall>e. sfExpression f = Some e \<longrightarrow> validateSourceFilterExpression anchorNodeID e)"
proof -
  obtain m :: ModelContract where "compileRowAccessPolicies (mdRowAccessPolicies m) cols attrs = Some fs"
    using joined_result [OF assms(1,2)] by blast
  note fs = compiled_policies [OF this]
  obtain i where i: "i < length fs" "fs ! i = f" using assms(3) by (auto simp: in_set_conv_nth)
  with fs(1) fs(2) [of i] obtain e p where e: "sfExpression f = Some e" "compileRowAccessPredicate p cols attrs = Some e" by auto
  from compiled_filter [OF e(2)] have own: "validateSourceFilterExpression anchorNodeID e"
    and other: "e = falseExpression \<or> anchored e" by auto
  have "\<not> validateSourceFilterExpression node e" if "anchored e"
    using that assms(4) by (auto simp: anchored_def validateSourceFilterExpression_def list_all_iff)
  with e(1) other false_filter own show ?thesis by (auto simp: source_filter_valid_def)
qed

theorem joined_policies_never_validate_witness:
  "\<not> source_filter_valid (\<lambda>_. True) [anchorNodeID, ''j''] [] ''j'' [''region'']
      \<lparr> sfField = [], sfOperator = [], sfValue = VNil, sfExpression = Some sample_filter \<rparr>"
proof -
  let ?f = "\<lparr> sfField = [], sfOperator = [], sfValue = VNil, sfExpression = Some sample_filter \<rparr>"
  have "joinedRowAccessFilters (\<lambda>_. ''j'') [\<lparr> mdModelVersionID = ''m'', mdRowAccessPolicies = [sample_policy sample_in] \<rparr>]
      sample_columns sample_grants (\<lambda>_. None) = Some ((\<lambda>_. None)(''j'' := Some [?f]))"
    by (simp add: sample_policies sample_compiled)
  from joined_policies_never_validate [OF this, of "''j''" _ ?f "\<lambda>_. True" "[anchorNodeID, ''j'']" "[]" "[''region'']"]
  show ?thesis by (simp add: anchorNodeID_def sample_filter_def falseExpression_def constant_condition_def e_defs)
qed

end
