(* ===== verification/MetricCompiler.thy ===== *)
theory MetricCompiler imports SemanticAst begin

text \<open>
  Measures and metrics as dataset expressions (\<open>askdata/compiler/adapter_ast.go\<close>, \<open>semiadditive.go\<close>): the
  formula of each measure, limited to the rows of the default filter, is aggregated, and the formula
  of the metric combines the aggregates; with a time reduction the aggregates are computed per
  period first and aggregated again.
\<close>

section \<open>Contracts\<close>

datatype Aggregation = AggregationSum | AggregationAverage | AggregationMinimum | AggregationMaximum
  | AggregationCount | AggregationCountDistinct | OtherAggregation string

definition aggregation_name :: "Aggregation \<Rightarrow> string" where
  "aggregation_name a = (case a of AggregationSum \<Rightarrow> ''SUM'' | AggregationAverage \<Rightarrow> ''AVG'' | AggregationMinimum \<Rightarrow> ''MIN''
     | AggregationMaximum \<Rightarrow> ''MAX'' | AggregationCount \<Rightarrow> ''COUNT'' | AggregationCountDistinct \<Rightarrow> ''COUNT_DISTINCT''
     | OtherAggregation s \<Rightarrow> s)"

datatype Additivity = FullyAdditive | SemiAdditive | NonAdditive | OtherAdditivity string
datatype SemiAdditiveTimeAggregation = SemiAdditivePeriodEnd | SemiAdditivePeriodBegin | SemiAdditivePeriodAverage
  | OtherTimeAggregation string
datatype AggregationRestriction = PreAggregate | PostAggregate | OtherRestriction string
datatype NumericDataType = NumericInteger | NumericDecimal | OtherDataType string

definition data_type_name :: "NumericDataType \<Rightarrow> string" where
  "data_type_name t = (case t of NumericInteger \<Rightarrow> ''INTEGER'' | NumericDecimal \<Rightarrow> ''DECIMAL'' | OtherDataType s \<Rightarrow> s)"

record MeasureContract =
  meMeasureID :: ID
  meMeasureVersionID :: ID
  meFormulaAST :: "semanticAST option"
  meAggregation :: Aggregation
  meDataType :: NumericDataType

record MetricContract =
  mcMetricVersionID :: ID
  mcFormulaAST :: "semanticAST option"
  mcDefaultFilterAST :: "semanticAST option"
  mcUnit :: string
  mcCurrency :: string
  mcAdditivity :: Additivity
  mcSemiAdditiveTimeAggregation :: SemiAdditiveTimeAggregation
  mcAggregationRestriction :: AggregationRestriction
  mcNonAdditiveDimensions :: "ID list"
  mcZeroDenominatorPolicy :: ZeroDenominatorPolicy
  mcNullPolicy :: string
  mcMeasures :: "MeasureContract list"

section \<open>Properties of formulas\<close>

definition numeric_canonical :: "string \<Rightarrow> bool" where
  "numeric_canonical t \<longleftrightarrow> t = ''INTEGER'' \<or> t = ''DECIMAL''"

primrec semanticNumericExpression :: "(ID \<Rightarrow> FieldContract option) \<Rightarrow> semanticAST \<Rightarrow> bool" where
  "semanticNumericExpression columns (SemanticAST ty f mv m tt ak v arg args l r lo up pres) =
     (let argument = map_option (semanticNumericExpression columns) arg;
          arguments = map (semanticNumericExpression columns) args in
      case ty of
        TyFieldRef \<Rightarrow> (case columns f of None \<Rightarrow> False | Some c \<Rightarrow> numeric_canonical (fcCanonicalType c))
      | TyLiteral \<Rightarrow> (case decodeLiteral v of Some (VNumber _) \<Rightarrow> True | _ \<Rightarrow> False)
      | TyCast \<Rightarrow> numeric_canonical tt
      | TyFunction g \<Rightarrow> g \<in> {Abs, Floor, Ceil} \<and> argument = Some True
      | TyRound \<Rightarrow> length arguments = 2 \<and> hd arguments
      | TyArithmetic _ \<Rightarrow> 2 \<le> length arguments \<and> list_all id arguments
      | TyCoalesce \<Rightarrow> 2 \<le> length arguments \<and> list_all id arguments
      | _ \<Rightarrow> False)"

definition metricExpressionType :: "semanticAST \<Rightarrow> (ID \<Rightarrow> string option) \<Rightarrow> string" where
  "metricExpressionType n types = (case saType n of
       TyMeasureRef \<Rightarrow> if types (measureReference n) = Some ''INTEGER'' then ''INTEGER'' else ''DECIMAL''
     | TyCast \<Rightarrow> if numeric_canonical (saTargetType n) then saTargetType n else ''DECIMAL''
     | TyFunction Floor \<Rightarrow> ''INTEGER'' | TyFunction Ceil \<Rightarrow> ''INTEGER''
     | _ \<Rightarrow> ''DECIMAL'')"

section \<open>Measures\<close>

definition row_translator :: "(ID \<Rightarrow> FieldContract option) \<Rightarrow> astTranslator" where
  "row_translator columns = \<lparr> trSubjectAttributes = (\<lambda>_. None), trFields = columns, trMeasures = (\<lambda>_. None),
     trMeasureVersions = (\<lambda>_. None), trZeroPolicy = OtherZeroPolicy [] \<rparr>"

text \<open>The default filter: refused, absent (\<open>TRUE\<close>), or a condition.\<close>

definition default_predicate :: "MetricContract \<Rightarrow> (ID \<Rightarrow> FieldContract option) \<Rightarrow> DatasetExpression option option" where
  "default_predicate metric columns = (case decodeSemanticAST (mcDefaultFilterAST metric) of None \<Rightarrow> None
     | Some f \<Rightarrow> if saType f = TyTrue then Some None
         else (case translate (row_translator columns) AstFilter f 0 of Inl _ \<Rightarrow> None
           | Inr (p, _, _) \<Rightarrow> if semanticBooleanType (saType f) then Some (Some p) else None))"

definition limited :: "DatasetExpression option \<Rightarrow> DatasetExpression \<Rightarrow> DatasetExpression" where
  "limited predicate scalar = (case predicate of None \<Rightarrow> scalar
     | Some condition \<Rightarrow> e_case [(condition, scalar)] (e_literal VNil))"

definition measure_input :: "(ID \<Rightarrow> FieldContract option) \<Rightarrow> MeasureContract \<Rightarrow> DatasetExpression option" where
  "measure_input columns me = (case decodeSemanticAST (meFormulaAST me) of None \<Rightarrow> None
     | Some formula \<Rightarrow> (case translate (row_translator columns) AstMeasure formula 0 of Inl _ \<Rightarrow> None
         | Inr (scalar, refs, _) \<Rightarrow>
             if refs = [] \<or> semanticBooleanType (saType formula) \<or> saType formula = TyArray then None
             else if meAggregation me \<noteq> AggregationCount \<and> meAggregation me \<noteq> AggregationCountDistinct \<and>
               \<not> semanticNumericExpression columns formula then None
             else Some scalar))"

definition compileMetricMeasureInputs ::
  "MetricContract \<Rightarrow> (ID \<Rightarrow> FieldContract option) \<Rightarrow> (MeasureContract \<times> DatasetExpression) list option" where
  "compileMetricMeasureInputs metric columns = (case default_predicate metric columns of None \<Rightarrow> None
     | Some predicate \<Rightarrow>
         those (map (\<lambda>me. map_option (\<lambda>scalar. (me, limited predicate scalar)) (measure_input columns me))
           (mcMeasures metric)))"

text \<open>What the measures are known by, for the formula of the metric.\<close>

record registered =
  rgExpressions :: "ID \<Rightarrow> DatasetExpression option"
  rgTypes :: "ID \<Rightarrow> string option"
  rgVersions :: "ID \<Rightarrow> ID option"

definition nothing_registered :: registered where
  "nothing_registered = \<lparr> rgExpressions = (\<lambda>_. None), rgTypes = (\<lambda>_. None), rgVersions = (\<lambda>_. None) \<rparr>"

definition register_reference :: "MeasureContract \<Rightarrow> DatasetExpression \<Rightarrow> ID \<Rightarrow> registered \<Rightarrow> registered option" where
  "register_reference me e reference g = (case rgVersions g reference of
       Some existing \<Rightarrow> if existing \<noteq> meMeasureVersionID me then None
         else Some (g\<lparr> rgExpressions := (rgExpressions g)(reference := Some e),
           rgTypes := (rgTypes g)(reference := Some (data_type_name (meDataType me))) \<rparr>)
     | None \<Rightarrow> Some (g\<lparr> rgExpressions := (rgExpressions g)(reference := Some e),
         rgTypes := (rgTypes g)(reference := Some (data_type_name (meDataType me))),
         rgVersions := (rgVersions g)(reference := Some (meMeasureVersionID me)) \<rparr>))"

definition registerMeasureExpression :: "MeasureContract \<Rightarrow> DatasetExpression \<Rightarrow> registered \<Rightarrow> registered option" where
  "registerMeasureExpression me e g =
     Option.bind (register_reference me e (meMeasureID me) g) (register_reference me e (meMeasureVersionID me))"

fun register_all :: "(MeasureContract \<times> DatasetExpression) list \<Rightarrow> registered \<Rightarrow> registered option" where
  "register_all [] g = Some g"
| "register_all ((me, e) # xs) g = Option.bind (registerMeasureExpression me e g) (register_all xs)"

section \<open>Metrics\<close>

definition metric_translator :: "MetricContract \<Rightarrow> registered \<Rightarrow> astTranslator" where
  "metric_translator metric g = \<lparr> trSubjectAttributes = (\<lambda>_. None), trFields = (\<lambda>_. None), trMeasures = rgExpressions g,
     trMeasureVersions = rgVersions g, trZeroPolicy = mcZeroDenominatorPolicy metric \<rparr>"

definition null_guard :: "MetricContract \<Rightarrow> semanticAST \<Rightarrow> DatasetExpression \<Rightarrow> DatasetExpression" where
  "null_guard metric formula e =
     (if mcNullPolicy metric = ''ZERO'' \<and>
         \<not> (mcZeroDenominatorPolicy metric = ZeroDenominatorNull \<and> semanticASTContainsType (TyArithmetic Divide) formula)
      then e_nary TyCoalesce [e, e_literal (VNumber 0)] else e)"

definition compileMetricFormula :: "MetricContract \<Rightarrow> registered \<Rightarrow> (DatasetExpression \<times> string) option" where
  "compileMetricFormula metric g = (case decodeSemanticAST (mcFormulaAST metric) of None \<Rightarrow> None
     | Some formula \<Rightarrow> (case translate (metric_translator metric g) AstMetric formula 0 of Inl _ \<Rightarrow> None
         | Inr (e, _, refs) \<Rightarrow>
             if length (remdups refs) \<noteq> length (mcMeasures metric) then None
             else if \<not> list_all (\<lambda>m. meMeasureVersionID m \<in> set refs) (mcMeasures metric) then None
             else Some (null_guard metric formula e, metricExpressionType formula (rgTypes g))))"

definition compileMetricExpression :: "MetricContract \<Rightarrow> (ID \<Rightarrow> FieldContract option) \<Rightarrow> (DatasetExpression \<times> string) option" where
  "compileMetricExpression metric columns = Option.bind (compileMetricMeasureInputs metric columns) (\<lambda>inputs.
     Option.bind (register_all (map (\<lambda>(m, scalar). (m, e_aggregate (aggregation_name (meAggregation m)) scalar [])) inputs)
       nothing_registered) (compileMetricFormula metric))"

section \<open>With a time reduction\<close>

record PreAggregationMetric =
  pmField :: string
  pmFunction :: string
  pmExpression :: DatasetExpression

text \<open>\<open>column\<close> names the column of a measure of a metric: a stable identifier computed by hashing.\<close>

definition semiAdditiveMeasureExpression :: "MetricContract \<Rightarrow> string \<Rightarrow> FieldContract \<Rightarrow> DatasetExpression option" where
  "semiAdditiveMeasureExpression metric code time = (let argument = e_field anchorNodeID code in
     case mcSemiAdditiveTimeAggregation metric of
       SemiAdditivePeriodAverage \<Rightarrow> Some (e_aggregate ''AVG'' argument [])
     | SemiAdditivePeriodEnd \<Rightarrow> Some (e_aggregate ''PERIOD_END'' argument [(fieldReference time, ''DESC'')])
     | SemiAdditivePeriodBegin \<Rightarrow> Some (e_aggregate ''PERIOD_BEGIN'' argument [(fieldReference time, ''ASC'')])
     | OtherTimeAggregation _ \<Rightarrow> None)"

definition reaggregateMeasureExpression :: "MeasureContract \<Rightarrow> string \<Rightarrow> DatasetExpression option" where
  "reaggregateMeasureExpression me code = (let argument = e_field anchorNodeID code in
     case meAggregation me of
       AggregationSum \<Rightarrow> Some (e_aggregate ''SUM'' argument [])
     | AggregationCount \<Rightarrow> Some (e_aggregate ''SUM'' argument [])
     | AggregationMinimum \<Rightarrow> Some (e_aggregate ''MIN'' argument [])
     | AggregationMaximum \<Rightarrow> Some (e_aggregate ''MAX'' argument [])
     | _ \<Rightarrow> None)"

definition outer_measure :: "MetricContract \<Rightarrow> FieldContract \<Rightarrow> MeasureContract \<Rightarrow> string \<Rightarrow> DatasetExpression option" where
  "outer_measure metric time me code =
     (if mcAdditivity metric = SemiAdditive then semiAdditiveMeasureExpression metric code time
      else reaggregateMeasureExpression me code)"

definition compileMetricExpressionPreAggregated ::
  "(ID \<Rightarrow> ID \<Rightarrow> string) \<Rightarrow> MetricContract \<Rightarrow> (ID \<Rightarrow> FieldContract option) \<Rightarrow> FieldContract \<Rightarrow>
   (DatasetExpression \<times> string \<times> PreAggregationMetric list) option" where
  "compileMetricExpressionPreAggregated column metric columns time =
     Option.bind (compileMetricMeasureInputs metric columns) (\<lambda>inputs.
       let code = (\<lambda>m. column (mcMetricVersionID metric) (meMeasureVersionID m)) in
       Option.bind (those (map (\<lambda>(m, _). map_option (Pair m) (outer_measure metric time m (code m))) inputs)) (\<lambda>outers.
         Option.bind (register_all outers nothing_registered) (\<lambda>g.
           map_option (\<lambda>(e, t). (e, t, map (\<lambda>(m, scalar). \<lparr> pmField = code m,
             pmFunction = aggregation_name (meAggregation m), pmExpression = scalar \<rparr>) inputs)) (compileMetricFormula metric g))))"

end
