(* ===== verification/MetricMeaning.thy ===== *)
theory MetricMeaning imports MetricCompiler SemanticMeaning begin

text \<open>
  What a metric means, stated over its contract: each measure aggregates its formula over the rows the
  default filter keeps, and the formula of the metric combines the values. The compiled expression has
  that meaning.
\<close>

section \<open>Reference\<close>

definition row_env :: "cast_function \<Rightarrow> (ID \<Rightarrow> FieldContract option) \<Rightarrow> row \<Rightarrow> ast_env" where
  "row_env cast columns row = \<lparr>
     evField = (\<lambda>i. case columns i of None \<Rightarrow> Inl NoMeaning | Some f \<Rightarrow> Inr (row (anchorNodeID, fcCode f))),
     evMeasure = (\<lambda>_. Inl NoMeaning), evAttribute = (\<lambda>_. []), evQuotient = row_quotient, evCast = cast \<rparr>"

definition tree_meaning :: "ast_env \<Rightarrow> semanticAST option \<Rightarrow> sql_result" where
  "tree_meaning env n = (case n of None \<Rightarrow> Inl NoMeaning | Some t \<Rightarrow> ast_meaning env t)"

definition default_condition :: "cast_function \<Rightarrow> (ID \<Rightarrow> FieldContract option) \<Rightarrow> MetricContract \<Rightarrow> row \<Rightarrow> sql_result" where
  "default_condition cast columns metric row = tree_meaning (row_env cast columns row) (mcDefaultFilterAST metric)"

definition measure_value ::
  "cast_function \<Rightarrow> (ID \<Rightarrow> FieldContract option) \<Rightarrow> MetricContract \<Rightarrow> row list \<Rightarrow> MeasureContract \<Rightarrow> sql_result" where
  "measure_value cast columns metric rows m =
     aggregate_meaning (aggregation_name (meAggregation m))
       (Some (\<lambda>_ row. tree_meaning (row_env cast columns row) (meFormulaAST m))) []
       (filter (\<lambda>r. keeps (default_condition cast columns metric r)) rows)"

definition metric_env ::
  "cast_function \<Rightarrow> (ID \<Rightarrow> FieldContract option) \<Rightarrow> MetricContract \<Rightarrow> row list \<Rightarrow> ast_env" where
  "metric_env cast columns metric rows = \<lparr> evField = (\<lambda>_. Inl NoMeaning),
     evMeasure = (\<lambda>i. case find (\<lambda>m. meMeasureID m = i \<or> meMeasureVersionID m = i) (mcMeasures metric) of
         None \<Rightarrow> Inl NoMeaning | Some m \<Rightarrow> measure_value cast columns metric rows m),
     evAttribute = (\<lambda>_. []), evQuotient = metric_quotient (mcZeroDenominatorPolicy metric), evCast = cast \<rparr>"

text \<open>Null becomes zero under the null policy, except where the denominator policy asks for null.\<close>

definition null_policy :: "MetricContract \<Rightarrow> sql_result \<Rightarrow> sql_result" where
  "null_policy metric r =
     (if mcNullPolicy metric = ''ZERO'' \<and> \<not> (mcZeroDenominatorPolicy metric = ZeroDenominatorNull \<and>
          (case mcFormulaAST metric of None \<Rightarrow> False | Some f \<Rightarrow> semanticASTContainsType (TyArithmetic Divide) f))
      then bind_result r (\<lambda>x. Inr (if x = SqlNull then SqlNumber 0 else x)) else r)"

definition metric_value :: "cast_function \<Rightarrow> (ID \<Rightarrow> FieldContract option) \<Rightarrow> MetricContract \<Rightarrow> row list \<Rightarrow> sql_result" where
  "metric_value cast columns metric rows =
     null_policy metric (tree_meaning (metric_env cast columns metric rows) (mcFormulaAST metric))"

section \<open>Rows a filter leaves out\<close>

lemma sequence_kept:
  "sequence (map f (filter k rows)) = Inl e \<Longrightarrow> sequence (map (\<lambda>r. if k r then f r else Inr SqlNull) rows) = Inl e"
proof (induction rows)
  case (Cons r rows)
  then show ?case by (cases "k r"; cases "f r"; cases "sequence (map f (filter k rows))") simp_all
qed simp

lemma present_kept:
  "sequence (map f (filter k rows)) = Inr vs \<Longrightarrow>
     \<exists>ws. sequence (map (\<lambda>r. if k r then f r else Inr SqlNull) rows) = Inr ws \<and> present ws = present vs"
proof (induction rows arbitrary: vs)
  case (Cons r rows)
  show ?case
  proof (cases "k r")
    case True
    with Cons.prems obtain v us where vs: "f r = Inr v" "sequence (map f (filter k rows)) = Inr us" "vs = v # us"
      by (cases "f r"; cases "sequence (map f (filter k rows))") simp_all
    from Cons.IH [OF vs(2)] obtain ws where "sequence (map (\<lambda>r. if k r then f r else Inr SqlNull) rows) = Inr ws"
      "present ws = present us" by blast
    with vs True show ?thesis by (intro exI [of _ "v # ws"]) (simp add: present_def)
  next
    case False
    with Cons obtain ws where "sequence (map (\<lambda>r. if k r then f r else Inr SqlNull) rows) = Inr ws"
      "present ws = present vs" by auto
    with False show ?thesis by (intro exI [of _ "SqlNull # ws"]) (simp add: present_def)
  qed
qed simp

lemma sql_aggregate_present: "present vs = present ws \<Longrightarrow> sql_aggregate fn vs = sql_aggregate fn ws"
  by (simp add: sql_aggregate_def)

lemma aggregate_kept:
  "aggregate_meaning fn (Some (\<lambda>_ r. if k r then f r else Inr SqlNull)) [] rows =
     aggregate_meaning fn (Some (\<lambda>_. f)) [] (filter k rows)"
proof (cases "sequence (map f (filter k rows))")
  case (Inl e)
  with sequence_kept [OF Inl] show ?thesis by (simp add: aggregate_meaning_def)
next
  case (Inr vs)
  from present_kept [OF Inr] obtain ws where "sequence (map (\<lambda>r. if k r then f r else Inr SqlNull) rows) = Inr ws"
    "present ws = present vs" by blast
  with Inr sql_aggregate_present [of ws vs] show ?thesis by (simp add: aggregate_meaning_def)
qed

lemma aggregate_cong: "map (m []) rows = map (m' []) rows \<Longrightarrow> aggregate_meaning fn (Some m) [] rows = aggregate_meaning fn (Some m') [] rows"
  by (simp only: aggregate_meaning_def option.case)

section \<open>Measures\<close>

lemma row_agrees: "mode \<noteq> AstMetric \<Longrightarrow> agrees cast ps rows row (row_translator columns) mode (row_env cast columns row)"
  by (simp add: agrees_def row_translator_def row_env_def)

definition determined :: "sql_result \<Rightarrow> bool" where "determined r \<longleftrightarrow> (\<exists>b. r = Inr (truth b))"

lemma limited_meaning:
  assumes "default_predicate metric columns = Some predicate" "determined (default_condition cast columns metric row)"
  shows "eval cast ps (limited predicate scalar) rows row =
    (if keeps (default_condition cast columns metric row) then eval cast ps scalar rows row else Inr SqlNull)"
proof (cases predicate)
  case None
  then obtain f where f: "mcDefaultFilterAST metric = Some f" "saType f = TyTrue"
    using assms(1) by (auto simp: default_predicate_def decodeSemanticAST_def split: option.splits if_splits sum.splits)
  have "ast_meaning env f = Inr (SqlBool True)" for env
    using f(2) by (cases f) (simp add: ast_meaning.simps ast_node_meaning_def)
  with f(1) have "default_condition cast columns metric row = Inr (SqlBool True)"
    by (simp add: default_condition_def tree_meaning_def)
  with None show ?thesis by (simp add: limited_def keeps_def)
next
  case (Some p)
  with assms(1) obtain f fs ms where f: "mcDefaultFilterAST metric = Some f" "translate (row_translator columns) AstFilter f 0 = Inr (p, fs, ms)"
    by (auto simp: default_predicate_def decodeSemanticAST_def split: option.splits if_splits sum.splits)
  have "eval cast ps p rows row = default_condition cast columns metric row"
    using translation_has_meaning [OF translates_sound [OF f(2)] row_agrees] f(1) by (simp add: default_condition_def tree_meaning_def)
  moreover obtain b where "default_condition cast columns metric row = Inr (truth b)" using assms(2) by (auto simp: determined_def)
  ultimately show ?thesis using Some
    by (cases b) (auto simp: limited_def eval_literals keeps_def truth_def)
qed

lemma measure_input_meaning:
  assumes "measure_input columns m = Some scalar"
  shows "eval cast ps scalar rows row = tree_meaning (row_env cast columns row) (meFormulaAST m)"
proof -
  obtain f fs ms where f: "meFormulaAST m = Some f" "translate (row_translator columns) AstMeasure f 0 = Inr (scalar, fs, ms)"
    using assms by (auto simp: measure_input_def decodeSemanticAST_def split: option.splits if_splits sum.splits)
  from translation_has_meaning [OF translates_sound [OF f(2)] row_agrees] f(1) show ?thesis by (simp add: tree_meaning_def)
qed

lemma measure_aggregate_meaning:
  assumes "default_predicate metric columns = Some predicate" "measure_input columns m = Some scalar"
    "\<forall>r \<in> set rows. determined (default_condition cast columns metric r)"
  shows "eval cast ps (e_aggregate (aggregation_name (meAggregation m)) (limited predicate scalar) []) rows row =
    measure_value cast columns metric rows m"
proof -
  let ?c = "default_condition cast columns metric" and ?f = "\<lambda>r. tree_meaning (row_env cast columns r) (meFormulaAST m)"
  have "map (eval cast ps (limited predicate scalar) []) rows = map (\<lambda>r. if keeps (?c r) then ?f r else Inr SqlNull) rows"
    using limited_meaning [OF assms(1)] measure_input_meaning [OF assms(2)] assms(3) by simp
  then have "aggregate_meaning fn (Some (eval cast ps (limited predicate scalar))) [] rows =
      aggregate_meaning fn (Some (\<lambda>_ r. if keeps (?c r) then ?f r else Inr SqlNull)) [] rows" for fn
    by (rule aggregate_cong)
  then show ?thesis by (simp add: eval_literals aggregate_kept measure_value_def)
qed

section \<open>Registration\<close>

definition names :: "MeasureContract \<Rightarrow> ID \<Rightarrow> bool" where
  "names m i \<longleftrightarrow> meMeasureID m = i \<or> meMeasureVersionID m = i"

lemma register_reference_effect:
  assumes "register_reference m e i g = Some g'"
  shows "rgExpressions g' = (rgExpressions g)(i := Some e)" "rgTypes g' = (rgTypes g)(i := Some (data_type_name (meDataType m)))"
    "rgVersions g' = (rgVersions g)(i := Some (meMeasureVersionID m))"
  using assms by (auto simp: register_reference_def fun_upd_idem_iff split: option.splits if_splits)

lemma register_reference_keeps:
  "register_reference m e i g = Some g' \<Longrightarrow> rgVersions g k = Some v \<Longrightarrow> rgVersions g' k = Some v"
  by (auto simp: register_reference_def split: option.splits if_splits)

lemma registered_measure:
  assumes "registerMeasureExpression m e g = Some g'"
  shows "rgVersions g k = Some v \<Longrightarrow> rgVersions g' k = Some v"
    "names m i \<Longrightarrow> rgVersions g' i = Some (meMeasureVersionID m)"
    "rgExpressions g' i = (if names m i then Some e else rgExpressions g i)"
    "\<not> names m i \<Longrightarrow> rgVersions g' i = rgVersions g i"
proof -
  obtain h where h: "register_reference m e (meMeasureID m) g = Some h" "register_reference m e (meMeasureVersionID m) h = Some g'"
    using assms by (auto simp: registerMeasureExpression_def Option.bind_eq_Some_conv)
  note eff = register_reference_effect [OF h(1)] register_reference_effect [OF h(2)]
  show "rgVersions g k = Some v \<Longrightarrow> rgVersions g' k = Some v"
    by (rule register_reference_keeps [OF h(2) register_reference_keeps [OF h(1)]])
  show "names m i \<Longrightarrow> rgVersions g' i = Some (meMeasureVersionID m)" "rgExpressions g' i = (if names m i then Some e else rgExpressions g i)"
    "\<not> names m i \<Longrightarrow> rgVersions g' i = rgVersions g i"
    using eff by (auto simp: names_def)
qed

lemma registered_all:
  assumes "register_all xs g = Some g'"
  shows "rgVersions g k = Some v \<Longrightarrow> rgVersions g' k = Some v"
    "(m, e) \<in> set xs \<Longrightarrow> names m i \<Longrightarrow> rgVersions g' i = Some (meMeasureVersionID m)"
    "rgExpressions g' i = Some e' \<Longrightarrow> rgExpressions g i = Some e' \<or> (\<exists>m. (m, e') \<in> set xs \<and> names m i)"
    "rgVersions g' i = Some v' \<Longrightarrow> rgVersions g i = Some v' \<or> (\<exists>m e. (m, e) \<in> set xs \<and> v' = meMeasureVersionID m)"
proof -
  have "(\<forall>k v. rgVersions g k = Some v \<longrightarrow> rgVersions g' k = Some v) \<and>
    (\<forall>m e i. (m, e) \<in> set xs \<longrightarrow> names m i \<longrightarrow> rgVersions g' i = Some (meMeasureVersionID m)) \<and>
    (\<forall>i e'. rgExpressions g' i = Some e' \<longrightarrow> rgExpressions g i = Some e' \<or> (\<exists>m. (m, e') \<in> set xs \<and> names m i)) \<and>
    (\<forall>i v'. rgVersions g' i = Some v' \<longrightarrow> rgVersions g i = Some v' \<or> (\<exists>m e. (m, e) \<in> set xs \<and> v' = meMeasureVersionID m))"
    using assms
  proof (induction xs arbitrary: g)
    case (Cons x xs)
    obtain m e where x: "x = (m, e)" by (cases x)
    with Cons.prems obtain h where h: "registerMeasureExpression m e g = Some h" "register_all xs h = Some g'"
      by (auto simp: Option.bind_eq_Some_conv)
    note IH = Cons.IH [OF h(2)] and reg = registered_measure [OF h(1)]
    have 1: "rgVersions g' k = Some v" if "rgVersions g k = Some v" for k v using IH reg(1) [OF that] by blast
    have 2: "rgVersions g' i = Some (meMeasureVersionID m')" if "(m', e') \<in> set (x # xs)" "names m' i" for m' e' i
      using IH reg(2) that x by auto
    have 3: "rgExpressions g i = Some e' \<or> (\<exists>m. (m, e') \<in> set (x # xs) \<and> names m i)" if "rgExpressions g' i = Some e'" for i e'
    proof -
      have "rgExpressions h i = Some e' \<or> (\<exists>m. (m, e') \<in> set xs \<and> names m i)" using IH that by blast
      with reg(3) [of i] x show ?thesis by (cases "names m i") auto
    qed
    have 4: "rgVersions g i = Some v' \<or> (\<exists>m e. (m, e) \<in> set (x # xs) \<and> v' = meMeasureVersionID m)" if "rgVersions g' i = Some v'" for i v'
    proof -
      have "rgVersions h i = Some v' \<or> (\<exists>m e. (m, e) \<in> set xs \<and> v' = meMeasureVersionID m)" using IH that by blast
      with reg(2,4) [of i] x show ?thesis by (cases "names m i") auto
    qed
    from 1 2 3 4 show ?case by blast
  qed simp
  then show "rgVersions g k = Some v \<Longrightarrow> rgVersions g' k = Some v"
    "(m, e) \<in> set xs \<Longrightarrow> names m i \<Longrightarrow> rgVersions g' i = Some (meMeasureVersionID m)"
    "rgExpressions g' i = Some e' \<Longrightarrow> rgExpressions g i = Some e' \<or> (\<exists>m. (m, e') \<in> set xs \<and> names m i)"
    "rgVersions g' i = Some v' \<Longrightarrow> rgVersions g i = Some v' \<or> (\<exists>m e. (m, e) \<in> set xs \<and> v' = meMeasureVersionID m)"
    by blast+
qed

text \<open>The measures a translation references are registered ones.\<close>

definition only :: "ID set \<Rightarrow> 'a translated \<Rightarrow> bool" where
  "only V t \<longleftrightarrow> (\<forall>x fs ms. t = Inr (x, fs, ms) \<longrightarrow> set ms \<subseteq> V)"

lemma only_and_then: "only V t \<Longrightarrow> (\<And>x. only V (g x)) \<Longrightarrow> only V (and_then t g)"
  by (fastforce simp: only_def and_then_Inr)

lemma only_simps [simp]: "only V (pure x)" "only V (Inl e)" by (simp_all add: only_def)

lemma only_arguments: "\<forall>t \<in> set ts. only V t \<Longrightarrow> only V (translateArguments ts)"
  by (induction ts) (auto intro!: only_and_then)

lemma references_registered:
  assumes "\<And>i. trMeasures tr i \<noteq> None \<Longrightarrow> trMeasureVersions tr i \<noteq> None"
  shows "only (ran (trMeasureVersions tr)) (translate tr mode n d)"
proof (induction n arbitrary: d)
  case (SemanticAST ty f mv m tt ak v arg args l r lo up pres)
  let ?V = "ran (trMeasureVersions tr)"
  note IH = SemanticAST.IH
  have list: "only ?V (and_then (translateArguments (map (\<lambda>p. p (d + 1)) (map (translate tr mode) args))) g)"
    if "\<And>x. only ?V (g x)" for g
    using IH(2) that by (intro only_and_then only_arguments) auto
  note lists = list list [simplified]
  have part: "only ?V (and_then (translate_part (map_option (translate tr mode) p) d) g)"
    if "\<And>x. only ?V (g x)" "p \<in> {arg, l, r, lo, up}" for g p
    using that IH(1,3-6) by (intro only_and_then) (auto simp: translate_part_def split: option.splits)
  show ?case
  proof (cases ty)
    case (TyArithmetic a)
    then show ?thesis unfolding translate.simps translate_node_def Let_def by (cases a) (auto intro!: lists)
  next
    case TyMeasureRef
    have "only ?V (translate_measure tr mode i)" for i
      using assms [of i] by (cases "trMeasureVersions tr i") (auto simp: translate_measure_def only_def ran_def split: option.splits)
    with TyMeasureRef show ?thesis unfolding translate.simps translate_node_def Let_def by simp
  next
    case TyFieldRef
    then show ?thesis unfolding translate.simps translate_node_def Let_def
      by (auto simp: translate_field_def only_def split: option.splits)
  next
    case TySubjectAttribute
    then show ?thesis unfolding translate.simps translate_node_def Let_def
      by (auto simp: translate_attribute_def split: option.splits)
  qed (unfold translate.simps translate_node_def Let_def, auto intro!: lists part split: option.splits)
qed

lemma metric_fields: "translates tr AstMetric n e fs \<Longrightarrow> fs = []"
proof (induction rule: translates.induct)
  case (nary n xs rs)
  then show ?case by (auto simp: in_set_conv_nth)
next
  case (quotient n xs rs)
  then show ?case by (auto simp: in_set_conv_nth)
qed (simp_all add: predicate_mode_def)

section \<open>The expression of a metric\<close>

definition inputs_of :: "DatasetExpression option \<Rightarrow> (ID \<Rightarrow> FieldContract option) \<Rightarrow> MeasureContract \<Rightarrow> DatasetExpression" where
  "inputs_of predicate columns m = limited predicate (the (measure_input columns m))"

lemma those_map_option: "those (map (\<lambda>x. map_option (f x) (g x)) xs) = Some ys \<longleftrightarrow>
    (\<forall>x \<in> set xs. g x \<noteq> None) \<and> ys = map (\<lambda>x. f x (the (g x))) xs"
  by (induction xs arbitrary: ys) (auto split: option.splits)

lemma measure_inputs:
  assumes "compileMetricMeasureInputs metric columns = Some inputs"
  obtains predicate where "default_predicate metric columns = Some predicate"
    "\<And>m. m \<in> set (mcMeasures metric) \<Longrightarrow> measure_input columns m = Some (the (measure_input columns m))"
    "inputs = map (\<lambda>m. (m, inputs_of predicate columns m)) (mcMeasures metric)"
proof -
  obtain predicate where p: "default_predicate metric columns = Some predicate"
    "those (map (\<lambda>me. map_option (\<lambda>scalar. (me, limited predicate scalar)) (measure_input columns me)) (mcMeasures metric)) = Some inputs"
    using assms by (auto simp: compileMetricMeasureInputs_def split: option.splits)
  from p(2) [unfolded those_map_option] show thesis
    by (intro that [OF p(1)]) (auto simp: inputs_of_def)
qed

lemma registered_expression:
  assumes "register_all (map (\<lambda>m. (m, f m)) ms) nothing_registered = Some g" "rgExpressions g i = Some e"
  shows "\<exists>m \<in> set ms. e = f m \<and> names m i"
proof -
  have "rgExpressions nothing_registered i = None" by (simp add: nothing_registered_def)
  with registered_all(3) [OF assms] obtain m where "(m, e) \<in> set (map (\<lambda>m. (m, f m)) ms)" "names m i" by auto
  then show ?thesis by auto
qed

lemma registered_translator:
  assumes "register_all (map (\<lambda>m. (m, f m)) ms) nothing_registered = Some g"
  shows "trMeasures (metric_translator metric g) i \<noteq> None \<Longrightarrow> trMeasureVersions (metric_translator metric g) i \<noteq> None"
proof -
  assume "trMeasures (metric_translator metric g) i \<noteq> None"
  then obtain e where "rgExpressions g i = Some e" by (auto simp: metric_translator_def)
  from registered_expression [OF assms this] obtain m where "m \<in> set ms" "names m i" by blast
  then have "rgVersions g i = Some (meMeasureVersionID m)" by (intro registered_all(2) [OF assms, of m "f m"]) auto
  then show ?thesis by (simp add: metric_translator_def)
qed

lemma metric_formula:
  assumes "register_all (map (\<lambda>m. (m, f m)) (mcMeasures metric)) nothing_registered = Some g"
    "compileMetricFormula metric g = Some (e, t)"
  obtains formula e' where "mcFormulaAST metric = Some formula" "e = null_guard metric formula e'"
    "translates (metric_translator metric g) AstMetric formula e' []"
    "\<And>m m'. m \<in> set (mcMeasures metric) \<Longrightarrow> m' \<in> set (mcMeasures metric) \<Longrightarrow>
       meMeasureVersionID m = meMeasureVersionID m' \<Longrightarrow> m = m'"
proof -
  let ?tr = "metric_translator metric g" and ?ms = "mcMeasures metric"
  obtain formula e' fs refs where f: "mcFormulaAST metric = Some formula" "translate ?tr AstMetric formula 0 = Inr (e', fs, refs)"
    "length (remdups refs) = length ?ms" "list_all (\<lambda>m. meMeasureVersionID m \<in> set refs) ?ms" "e = null_guard metric formula e'"
    using assms(2) by (auto simp: compileMetricFormula_def decodeSemanticAST_def split: option.splits if_splits sum.splits prod.splits)
  have "set refs \<subseteq> ran (rgVersions g)"
    using references_registered [of "metric_translator metric g" AstMetric formula 0, OF registered_translator [OF assms(1)]] f(2)
    by (simp add: only_def metric_translator_def)
  also have "\<dots> \<subseteq> meMeasureVersionID ` set ?ms"
    using registered_all(4) [OF assms(1)] by (fastforce simp: ran_def nothing_registered_def)
  finally have "set refs = meMeasureVersionID ` set ?ms" using f(4) by (auto simp: list_all_iff)
  then have "card (meMeasureVersionID ` set ?ms) = length ?ms" using f(3) by (metis length_remdups_card_conv)
  then have "inj_on meMeasureVersionID (set ?ms)"
    by (metis card_image_le card_length eq_card_imp_inj_on finite_set le_antisym)
  moreover have "translates ?tr AstMetric formula e' fs" by (rule translates_sound [OF f(2)])
  moreover have "fs = []" by (rule metric_fields [OF calculation(2)])
  ultimately show thesis using that [OF f(1,5)] by (auto dest: inj_onD)
qed

lemma null_guard_meaning:
  assumes "mcFormulaAST metric = Some formula"
  shows "eval cast ps (null_guard metric formula e) rows row = null_policy metric (eval cast ps e rows row)"
  using assms by (auto simp: null_guard_def null_policy_def eval_literals coalesce_zero)

lemma compiled_metric_meaning:
  assumes "compileMetricExpression metric columns = Some (e, t)"
    "\<forall>r \<in> set rows. determined (default_condition cast columns metric r)"
  shows "eval cast ps e rows row = metric_value cast columns metric rows"
proof -
  obtain inputs where inputs: "compileMetricMeasureInputs metric columns = Some inputs"
    using assms(1) by (auto simp: compileMetricExpression_def Option.bind_eq_Some_conv)
  obtain predicate where p: "default_predicate metric columns = Some predicate"
    "\<And>m. m \<in> set (mcMeasures metric) \<Longrightarrow> measure_input columns m = Some (the (measure_input columns m))"
    "inputs = map (\<lambda>m. (m, inputs_of predicate columns m)) (mcMeasures metric)"
    using measure_inputs [OF inputs] by blast
  let ?f = "\<lambda>m. e_aggregate (aggregation_name (meAggregation m)) (inputs_of predicate columns m) []"
  obtain g where g: "register_all (map (\<lambda>m. (m, ?f m)) (mcMeasures metric)) nothing_registered = Some g"
    "compileMetricFormula metric g = Some (e, t)"
    using assms(1) inputs p(3) by (auto simp: compileMetricExpression_def Option.bind_eq_Some_conv comp_def)
  obtain formula e' where f: "mcFormulaAST metric = Some formula" "e = null_guard metric formula e'"
    "translates (metric_translator metric g) AstMetric formula e' []"
    "\<And>m m'. m \<in> set (mcMeasures metric) \<Longrightarrow> m' \<in> set (mcMeasures metric) \<Longrightarrow>
       meMeasureVersionID m = meMeasureVersionID m' \<Longrightarrow> m = m'"
    using metric_formula [OF g] by metis
  have "evMeasure (metric_env cast columns metric rows) i = eval cast ps e'' rows row" if rg: "rgExpressions g i = Some e''" for i e''
  proof -
    obtain m where m: "m \<in> set (mcMeasures metric)" "e'' = ?f m" "names m i"
      using registered_expression [OF g(1) rg] by blast
    obtain m' where m': "find (\<lambda>m. names m i) (mcMeasures metric) = Some m'"
      using m by (metis find_None_iff not_Some_eq)
    then have "m' \<in> set (mcMeasures metric)" "names m' i" by (auto simp: find_Some_iff)
    have version: "rgVersions g i = Some (meMeasureVersionID x)" if "x \<in> set (mcMeasures metric)" "names x i" for x
      using that by (intro registered_all(2) [OF g(1), of x "?f x"]) auto
    have "m' = m" using version [OF m(1,3)] version [OF \<open>m' \<in> _\<close> \<open>names m' i\<close>] f(4) [OF \<open>m' \<in> _\<close> m(1)] by simp
    with m' p(2) [OF m(1)] m(2) measure_aggregate_meaning [OF p(1) _ assms(2)] show ?thesis
      by (simp add: metric_env_def names_def inputs_of_def)
  qed
  then have "agrees cast ps rows row (metric_translator metric g) AstMetric (metric_env cast columns metric rows)"
    by (simp add: agrees_def metric_translator_def) (simp add: metric_env_def)
  from translation_has_meaning [OF f(3) this] f(1,2) show ?thesis
    by (simp add: null_guard_meaning metric_value_def tree_meaning_def)
qed

end
