(* ===== verification/MetricPreAggregation.thy ===== *)
theory MetricPreAggregation imports MetricMeaning begin

text \<open>
  Aggregating twice: a metric with a time reduction first aggregates the rows of each period and then
  the results. For sums, counts, minima and maxima this gives what one aggregation over all rows gives.
\<close>

section \<open>Aggregates of numbers\<close>

definition numeric_value :: "sql_value \<Rightarrow> bool" where "numeric_value v \<longleftrightarrow> v = SqlNull \<or> (\<exists>q. v = SqlNumber q)"

fun nums :: "sql_value list \<Rightarrow> rat list" where
  "nums [] = []"
| "nums (SqlNumber q # vs) = q # nums vs"
| "nums (_ # vs) = nums vs"

lemma typed_numbers: "list_all numeric_value vs \<Longrightarrow> typed_values number (present vs) = Some (nums vs)"
  by (induction vs rule: nums.induct) (auto simp: present_def numeric_value_def number_def)

lemma present_nums: "list_all numeric_value vs \<Longrightarrow> present vs = [] \<longleftrightarrow> nums vs = []"
  by (induction vs rule: nums.induct) (auto simp: present_def numeric_value_def)

lemma nums_append: "nums (vs @ ws) = nums vs @ nums ws" by (induction vs rule: nums.induct) auto

definition null_or :: "(rat list \<Rightarrow> rat) \<Rightarrow> rat list \<Rightarrow> sql_value" where
  "null_or f qs = (if qs = [] then SqlNull else SqlNumber (f qs))"

lemma aggregate_numbers:
  assumes "list_all numeric_value vs"
  shows "sql_aggregate ''SUM'' vs = Inr (null_or sum_list (nums vs))"
    "sql_aggregate ''MIN'' vs = Inr (null_or (\<lambda>qs. Min (set qs)) (nums vs))"
    "sql_aggregate ''MAX'' vs = Inr (null_or (\<lambda>qs. Max (set qs)) (nums vs))"
  using typed_numbers [OF assms] present_nums [OF assms]
  by (simp_all add: sql_aggregate_def Let_def null_or_def with_numbers_def least_of_def greatest_of_def)

lemma aggregate_count: "sql_aggregate ''COUNT'' vs = Inr (SqlNumber (of_nat (length (present vs))))"
  by (simp add: sql_aggregate_def)

section \<open>Groups of groups\<close>

text \<open>Numbers of a list of groups, up to their order.\<close>

lemma nums_set: "set (nums vs) = {q. SqlNumber q \<in> set vs}"
  by (induction vs rule: nums.induct) auto

lemma nums_sum: "sum_list (nums vs) = sum_list (map (\<lambda>v. case v of SqlNumber q \<Rightarrow> q | _ \<Rightarrow> 0) vs)"
  by (induction vs rule: nums.induct) auto

lemma nums_perm:
  assumes "mset vs = mset ws"
  shows "sum_list (nums vs) = sum_list (nums ws)" "set (nums vs) = set (nums ws)" "nums vs = [] \<longleftrightarrow> nums ws = []"
    "length (present vs) = length (present ws)"
proof -
  show "sum_list (nums vs) = sum_list (nums ws)" unfolding nums_sum
    by (simp add: assms flip: sum_mset_sum_list mset_map) (metis assms mset_map sum_mset_sum_list)
  show set: "set (nums vs) = set (nums ws)" by (simp add: nums_set mset_eq_setD [OF assms])
  from set show "nums vs = [] \<longleftrightarrow> nums ws = []" by (metis set_empty)
  have "mset (present vs) = mset (present ws)" by (simp add: present_def assms)
  then show "length (present vs) = length (present ws)" by (rule mset_eq_length)
qed

lemma present_concat: "present (concat vss) = concat (map present vss)"
  by (induction vss) (auto simp: present_def)

lemma nums_concat: "nums (concat vss) = concat (map nums vss)"
  by (induction vss) (auto simp: nums_append)

lemma nums_null_or: "nums (map (\<lambda>vs. null_or f (nums vs)) vss) = map f (filter (\<lambda>qs. qs \<noteq> []) (map nums vss))"
  by (induction vss) (auto simp: null_or_def)

lemma sum_of_sums: "sum_list (map sum_list (filter (\<lambda>qs. qs \<noteq> []) qss)) = sum_list (concat (qss :: rat list list))"
  by (induction qss) auto

lemma all_empty: "filter (\<lambda>qs. qs \<noteq> []) qss = [] \<longleftrightarrow> concat qss = []"
  by (induction qss) auto

lemma extreme_of_extremes:
  assumes "concat qss \<noteq> []"
  shows "Min (set (map (\<lambda>qs. Min (set qs)) (filter (\<lambda>qs. qs \<noteq> []) qss))) = Min (set (concat (qss :: rat list list)))"
    "Max (set (map (\<lambda>qs. Max (set qs)) (filter (\<lambda>qs. qs \<noteq> []) qss))) = Max (set (concat qss))"
proof -
  let ?F = "set ` set (filter (\<lambda>qs. qs \<noteq> []) qss)"
  have F: "finite ?F" "?F \<noteq> {}" "\<And>S. S \<in> ?F \<Longrightarrow> finite S \<and> S \<noteq> {}" using assms all_empty [of qss] by auto
  have union: "\<Union> ?F = set (concat qss)" by auto
  have fin: "finite (\<Union> ?F)" "\<Union> ?F \<noteq> {}" using F by auto
  have "Min (\<Union> ?F) = Min (Min ` ?F)"
  proof (rule antisym)
    show "Min (Min ` ?F) \<le> Min (\<Union> ?F)"
    proof -
      obtain S where "S \<in> ?F" "Min (\<Union> ?F) \<in> S" using Min_in [OF fin] by blast
      then have "Min S \<le> Min (\<Union> ?F)" using F(3) Min_le by blast
      moreover have "Min (Min ` ?F) \<le> Min S" using F(1) \<open>S \<in> ?F\<close> by (intro Min_le imageI) (rule finite_imageI)
      ultimately show ?thesis by (rule order.trans [rotated])
    qed
    show "Min (\<Union> ?F) \<le> Min (Min ` ?F)" using F fin by (intro Min.boundedI) (auto intro!: Min_antimono)
  qed
  moreover have "Max (\<Union> ?F) = Max (Max ` ?F)"
  proof (rule antisym)
    show "Max (\<Union> ?F) \<le> Max (Max ` ?F)"
    proof -
      obtain S where "S \<in> ?F" "Max (\<Union> ?F) \<in> S" using Max_in [OF fin] by blast
      then have "Max (\<Union> ?F) \<le> Max S" using F(3) Max_ge by blast
      moreover have "Max S \<le> Max (Max ` ?F)" using F(1) \<open>S \<in> ?F\<close> by (intro Max_ge imageI) (rule finite_imageI)
      ultimately show ?thesis by (rule order.trans)
    qed
    show "Max (Max ` ?F) \<le> Max (\<Union> ?F)" using F fin by (intro Max.boundedI) (auto intro!: Max_mono)
  qed
  ultimately show "Min (set (map (\<lambda>qs. Min (set qs)) (filter (\<lambda>qs. qs \<noteq> []) qss))) = Min (set (concat qss))"
    "Max (set (map (\<lambda>qs. Max (set qs)) (filter (\<lambda>qs. qs \<noteq> []) qss))) = Max (set (concat qss))"
    unfolding union by (simp_all add: image_image)
qed

section \<open>One measure\<close>

lemma reaggregate_numbers:
  assumes "mset vs = mset (concat vss)" "list_all (list_all numeric_value) vss"
  shows "sql_aggregate ''SUM'' (map (\<lambda>vs. null_or sum_list (nums vs)) vss) = sql_aggregate ''SUM'' vs"
    "sql_aggregate ''MIN'' (map (\<lambda>vs. null_or (\<lambda>qs. Min (set qs)) (nums vs)) vss) = sql_aggregate ''MIN'' vs"
    "sql_aggregate ''MAX'' (map (\<lambda>vs. null_or (\<lambda>qs. Max (set qs)) (nums vs)) vss) = sql_aggregate ''MAX'' vs"
proof -
  have "list_all numeric_value (concat vss)" using assms(2) by (auto simp: list_all_iff)
  then have vs: "list_all numeric_value vs" using mset_eq_setD [OF assms(1)] by (simp add: list_all_iff)
  have outer: "list_all numeric_value (map (\<lambda>vs. null_or f (nums vs)) vss)" for f
    by (auto simp: list_all_iff null_or_def numeric_value_def)
  note perm = nums_perm [OF assms(1), unfolded nums_concat]
  note empty = all_empty [of "map nums vss"] and extremes = extreme_of_extremes [of "map nums vss"]
  show "sql_aggregate ''SUM'' (map (\<lambda>vs. null_or sum_list (nums vs)) vss) = sql_aggregate ''SUM'' vs"
    unfolding aggregate_numbers(1) [OF outer] aggregate_numbers(1) [OF vs] nums_null_or
    using perm(1,3) empty sum_of_sums [of "map nums vss"] by (auto simp: null_or_def)
  show "sql_aggregate ''MIN'' (map (\<lambda>vs. null_or (\<lambda>qs. Min (set qs)) (nums vs)) vss) = sql_aggregate ''MIN'' vs"
    unfolding aggregate_numbers(2) [OF outer] aggregate_numbers(2) [OF vs] nums_null_or
    using perm(2,3) empty extremes(1) by (simp add: null_or_def del: set_map set_concat set_filter)
  show "sql_aggregate ''MAX'' (map (\<lambda>vs. null_or (\<lambda>qs. Max (set qs)) (nums vs)) vss) = sql_aggregate ''MAX'' vs"
    unfolding aggregate_numbers(3) [OF outer] aggregate_numbers(3) [OF vs] nums_null_or
    using perm(2,3) empty extremes(2) by (simp add: null_or_def del: set_map set_concat set_filter)
qed

lemma reaggregate_counts:
  assumes "mset vs = mset (concat vss)" "vss \<noteq> []"
  shows "sql_aggregate ''SUM'' (map (\<lambda>vs. SqlNumber (of_nat (length (present vs)))) vss) = sql_aggregate ''COUNT'' vs"
proof -
  let ?os = "map (\<lambda>vs. SqlNumber (of_nat (length (present vs)))) vss"
  have os: "list_all numeric_value ?os" by (simp add: list_all_iff numeric_value_def)
  have "nums ?os = map (\<lambda>vs. of_nat (length (present vs))) vss" by (induction vss) auto
  moreover have "sum_list (map (\<lambda>vs. of_nat (length (present vs)) :: rat) vss) = of_nat (length (present (concat vss)))"
    by (induction vss) (auto simp: present_def)
  ultimately show ?thesis
    using aggregate_numbers(1) [OF os] nums_perm(4) [OF assms(1)] assms(2) by (simp add: aggregate_count null_or_def)
qed

lemma aggregate_values:
  assumes "\<forall>r \<in> set rows. m [] r = Inr (val r)" "fn \<notin> {''PERIOD_END'', ''PERIOD_BEGIN''}"
  shows "aggregate_meaning fn (Some m) [] rows = sql_aggregate fn (map val rows)"
proof -
  have "sequence (map (m []) rows) = Inr (map val rows)" using assms(1) by (simp add: sequence_Inr_iff)
  with assms(2) show ?thesis by (simp add: aggregate_meaning_def)
qed

lemma eval_aggregate:
  assumes "\<forall>r \<in> set rows. eval cast ps scalar [] r = Inr (val r)" "fn \<notin> {''PERIOD_END'', ''PERIOD_BEGIN''}"
  shows "eval cast ps (e_aggregate fn scalar []) rows row = sql_aggregate fn (map val rows)"
  using aggregate_values [of rows "eval cast ps scalar" val fn] assms by (simp add: eval_literals(16))

lemma outer_values:
  assumes "list_all2 (\<lambda>g r. H g = Inr (r c)) groups outer" "\<forall>g \<in> set groups. H g = Inr (F g)"
  shows "map (\<lambda>r. r c) outer = map F groups"
  using assms by (induction rule: list_all2_induct) auto

lemma reaggregated_measure:
  assumes e2: "reaggregateMeasureExpression m code = Some e2" and rows: "mset rows = mset (concat groups)" "groups = [] \<longrightarrow> meAggregation m \<noteq> AggregationCount"
    and val: "\<forall>r \<in> set rows. eval cast ps scalar [] r = Inr (val r) \<and> (meAggregation m = AggregationCount \<or> numeric_value (val r))"
    and outer: "list_all2 (\<lambda>g r. eval cast ps (e_aggregate (aggregation_name (meAggregation m)) scalar []) g r0 = Inr (r (anchorNodeID, code))) groups outer"
  shows "eval cast ps e2 outer row = eval cast ps (e_aggregate (aggregation_name (meAggregation m)) scalar []) rows row'"
proof -
  let ?fn = "aggregation_name (meAggregation m)" and ?vss = "map (map val) groups"
  have fn: "?fn \<notin> {''PERIOD_END'', ''PERIOD_BEGIN''}" using e2
    by (auto simp: reaggregateMeasureExpression_def aggregation_name_def split: Aggregation.splits)
  have part: "\<forall>g \<in> set groups. set g \<subseteq> set rows" using mset_eq_setD [OF rows(1)] by auto
  have inner: "eval cast ps (e_aggregate ?fn scalar []) g r0 = sql_aggregate ?fn (map val g)" if "g \<in> set groups" for g
    using val part that by (intro eval_aggregate [OF _ fn]) blast
  have all: "eval cast ps (e_aggregate ?fn scalar []) rows row' = sql_aggregate ?fn (map val rows)"
    using val by (intro eval_aggregate [OF _ fn]) blast
  have vs: "mset (map val rows) = mset (concat ?vss)" by (simp add: rows(1) flip: map_concat)
  have numeric: "list_all (list_all numeric_value) ?vss" if "meAggregation m \<noteq> AggregationCount"
    using val part that by (fastforce simp: list_all_iff)
  have two: "eval cast ps (e_aggregate f (e_field anchorNodeID code) []) outer row = sql_aggregate f (map F ?vss)"
    if "f \<notin> {''PERIOD_END'', ''PERIOD_BEGIN''}" "\<And>g. g \<in> set groups \<Longrightarrow> sql_aggregate ?fn (map val g) = Inr (F (map val g))" for f F
  proof -
    have "map (\<lambda>r. r (anchorNodeID, code)) outer = map (\<lambda>g. F (map val g)) groups"
      using that(2) inner by (intro outer_values [OF outer]) simp
    moreover have "eval cast ps (e_aggregate f (e_field anchorNodeID code) []) outer row = sql_aggregate f (map (\<lambda>r. r (anchorNodeID, code)) outer)"
      by (rule eval_aggregate [OF _ that(1)]) (simp add: eval_literals(1))
    ultimately show ?thesis by (simp add: comp_def)
  qed
  show ?thesis
  proof (cases "meAggregation m")
    case AggregationSum
    with numeric have n: "list_all (list_all numeric_value) ?vss" by simp
    then have "sql_aggregate ''SUM'' (map val g) = Inr (null_or sum_list (nums (map val g)))" if "g \<in> set groups" for g
      using that by (intro aggregate_numbers(1)) (simp add: list_all_iff)
    with two [of "''SUM''" "\<lambda>vs. null_or sum_list (nums vs)"] AggregationSum e2 all reaggregate_numbers(1) [OF vs n] show ?thesis
      by (simp add: reaggregateMeasureExpression_def aggregation_name_def)
  next
    case AggregationMinimum
    with numeric have n: "list_all (list_all numeric_value) ?vss" by simp
    then have "sql_aggregate ''MIN'' (map val g) = Inr (null_or (\<lambda>qs. Min (set qs)) (nums (map val g)))" if "g \<in> set groups" for g
      using that by (intro aggregate_numbers(2)) (simp add: list_all_iff)
    with two [of "''MIN''" "\<lambda>vs. null_or (\<lambda>qs. Min (set qs)) (nums vs)"] AggregationMinimum e2 all reaggregate_numbers(2) [OF vs n]
    show ?thesis by (simp add: reaggregateMeasureExpression_def aggregation_name_def)
  next
    case AggregationMaximum
    with numeric have n: "list_all (list_all numeric_value) ?vss" by simp
    then have "sql_aggregate ''MAX'' (map val g) = Inr (null_or (\<lambda>qs. Max (set qs)) (nums (map val g)))" if "g \<in> set groups" for g
      using that by (intro aggregate_numbers(3)) (simp add: list_all_iff)
    with two [of "''MAX''" "\<lambda>vs. null_or (\<lambda>qs. Max (set qs)) (nums vs)"] AggregationMaximum e2 all reaggregate_numbers(3) [OF vs n]
    show ?thesis by (simp add: reaggregateMeasureExpression_def aggregation_name_def)
  next
    case AggregationCount
    then have nonempty: "?vss \<noteq> []" using rows(2) by simp
    with AggregationCount two [of "''SUM''" "\<lambda>vs. SqlNumber (of_nat (length (present vs)))"] e2 all reaggregate_counts [OF vs nonempty] show ?thesis
      by (simp add: reaggregateMeasureExpression_def aggregation_name_def aggregate_count)
  qed (use e2 in \<open>simp_all add: reaggregateMeasureExpression_def\<close>)
qed

section \<open>The metric\<close>

lemma registered_types: "registerMeasureExpression m e g = Some g' \<Longrightarrow>
    rgTypes g' i = (if names m i then Some (data_type_name (meDataType m)) else rgTypes g i)"
  by (auto simp: registerMeasureExpression_def Option.bind_eq_Some_conv names_def dest!: register_reference_effect(2))

lemma registered_alike:
  assumes "register_all (map (\<lambda>m. (m, f m)) ms) g = Some h" "register_all (map (\<lambda>m. (m, f' m)) ms) g' = Some h'"
    "rgTypes g = rgTypes g'" "\<And>i. rel_option (\<lambda>e e'. \<exists>m \<in> M. e = f m \<and> e' = f' m) (rgExpressions g i) (rgExpressions g' i)"
    "set ms \<subseteq> M"
  shows "rgTypes h = rgTypes h' \<and> (\<forall>i. rel_option (\<lambda>e e'. \<exists>m \<in> M. e = f m \<and> e' = f' m) (rgExpressions h i) (rgExpressions h' i))"
  using assms
proof (induction ms arbitrary: g g')
  case (Cons m ms)
  obtain k k' where k: "registerMeasureExpression m (f m) g = Some k" "register_all (map (\<lambda>m. (m, f m)) ms) k = Some h"
    "registerMeasureExpression m (f' m) g' = Some k'" "register_all (map (\<lambda>m. (m, f' m)) ms) k' = Some h'"
    using Cons.prems(1,2) by (auto simp: Option.bind_eq_Some_conv)
  show ?case
  proof (rule Cons.IH [OF k(2,4)])
    show "rgTypes k = rgTypes k'" using registered_types [OF k(1)] registered_types [OF k(3)] Cons.prems(3) by auto
    show "rel_option (\<lambda>e e'. \<exists>m \<in> M. e = f m \<and> e' = f' m) (rgExpressions k i) (rgExpressions k' i)" for i
      using registered_measure(3) [OF k(1), of i] registered_measure(3) [OF k(3), of i] Cons.prems(4) [of i] Cons.prems(5) by auto
    show "set ms \<subseteq> M" using Cons.prems(5) by simp
  qed
qed auto

text \<open>
  Rows grouped by period: each outer row holds, in the columns of the measures, what the inner
  aggregates give for its group.
\<close>

definition period_rows ::
  "cast_function \<Rightarrow> (string \<Rightarrow> sql_value) \<Rightarrow> PreAggregationMetric list \<Rightarrow> row list list \<Rightarrow> row list \<Rightarrow> bool" where
  "period_rows cast ps pms groups outer \<longleftrightarrow> list_all2 (\<lambda>g r. \<forall>pm \<in> set pms.
     eval cast ps (e_aggregate (pmFunction pm) (pmExpression pm) []) g (\<lambda>_. SqlNull) = Inr (r (anchorNodeID, pmField pm))) groups outer"

definition usable_inputs :: "cast_function \<Rightarrow> (string \<Rightarrow> sql_value) \<Rightarrow> PreAggregationMetric list \<Rightarrow> row list \<Rightarrow> bool" where
  "usable_inputs cast ps pms rows \<longleftrightarrow> (\<forall>r \<in> set rows. \<forall>pm \<in> set pms. \<exists>v. eval cast ps (pmExpression pm) [] r = Inr v \<and>
     (pmFunction pm = ''COUNT'' \<or> numeric_value v))"

lemma pre_aggregated_parts:
  assumes "compileMetricExpressionPreAggregated column metric columns time = Some (e, t, pms)" "mcAdditivity metric \<noteq> SemiAdditive"
    "default_predicate metric columns = Some predicate"
  obtains g where "register_all (map (\<lambda>m. (m, the (reaggregateMeasureExpression m (column (mcMetricVersionID metric) (meMeasureVersionID m)))))
      (mcMeasures metric)) nothing_registered = Some g"
    "compileMetricFormula metric g = Some (e, t)"
    "\<forall>m \<in> set (mcMeasures metric). reaggregateMeasureExpression m (column (mcMetricVersionID metric) (meMeasureVersionID m)) \<noteq> None"
    "pms = map (\<lambda>m. \<lparr> pmField = column (mcMetricVersionID metric) (meMeasureVersionID m),
      pmFunction = aggregation_name (meAggregation m), pmExpression = inputs_of predicate columns m \<rparr>) (mcMeasures metric)"
proof -
  let ?c = "\<lambda>m. column (mcMetricVersionID metric) (meMeasureVersionID m)"
  obtain inputs where inputs: "compileMetricMeasureInputs metric columns = Some inputs"
    using assms(1) by (auto simp: compileMetricExpressionPreAggregated_def Option.bind_eq_Some_conv)
  have eq: "inputs = map (\<lambda>m. (m, inputs_of predicate columns m)) (mcMeasures metric)"
    using measure_inputs [OF inputs] assms(3) by (metis option.inject)
  have "those (map (\<lambda>(m, _). map_option (Pair m) (outer_measure metric time m (?c m))) inputs) =
      those (map (\<lambda>m. map_option (Pair m) (reaggregateMeasureExpression m (?c m))) (mcMeasures metric))"
    using assms(2) by (simp add: eq outer_measure_def comp_def)
  then obtain outers g where g: "those (map (\<lambda>m. map_option (Pair m) (reaggregateMeasureExpression m (?c m))) (mcMeasures metric)) = Some outers"
      "register_all outers nothing_registered = Some g" "compileMetricFormula metric g = Some (e, t)"
      "pms = map (\<lambda>(m, scalar). \<lparr> pmField = ?c m, pmFunction = aggregation_name (meAggregation m), pmExpression = scalar \<rparr>) inputs"
    using assms(1) inputs by (auto simp: compileMetricExpressionPreAggregated_def Option.bind_eq_Some_conv Let_def)
  from g(1) [unfolded those_map_option] g(2-4) eq show thesis by (intro that [of g]) auto
qed

lemma pre_aggregated_meaning:
  assumes c1: "compileMetricExpression metric columns = Some (e1, t1)"
    and c2: "compileMetricExpressionPreAggregated column metric columns time = Some (e2, t2, pms)"
    and semi: "mcAdditivity metric \<noteq> SemiAdditive"
    and rows: "mset rows = mset (concat groups)" "groups = [] \<longrightarrow> (\<forall>m \<in> set (mcMeasures metric). meAggregation m \<noteq> AggregationCount)"
    and outer: "period_rows cast ps pms groups outer" and usable: "usable_inputs cast ps pms rows"
  shows "t2 = t1" "eval cast ps e2 outer row = eval cast ps e1 rows row"
proof -
  let ?ms = "mcMeasures metric" and ?c = "\<lambda>m. column (mcMetricVersionID metric) (meMeasureVersionID m)"
  obtain inputs where inputs: "compileMetricMeasureInputs metric columns = Some inputs"
    using c1 by (auto simp: compileMetricExpression_def Option.bind_eq_Some_conv)
  obtain predicate where p: "default_predicate metric columns = Some predicate"
    "inputs = map (\<lambda>m. (m, inputs_of predicate columns m)) ?ms"
    using measure_inputs [OF inputs] by blast
  let ?s = "inputs_of predicate columns"
  let ?f = "\<lambda>m. e_aggregate (aggregation_name (meAggregation m)) (?s m) []"
  let ?f' = "\<lambda>m. the (reaggregateMeasureExpression m (?c m))"
  obtain g where g: "register_all (map (\<lambda>m. (m, ?f m)) ?ms) nothing_registered = Some g" "compileMetricFormula metric g = Some (e1, t1)"
    using c1 inputs p(2) by (auto simp: compileMetricExpression_def Option.bind_eq_Some_conv comp_def)
  obtain g' where g': "register_all (map (\<lambda>m. (m, ?f' m)) ?ms) nothing_registered = Some g'" "compileMetricFormula metric g' = Some (e2, t2)"
    "\<forall>m \<in> set ?ms. reaggregateMeasureExpression m (?c m) \<noteq> None"
    "pms = map (\<lambda>m. \<lparr> pmField = ?c m, pmFunction = aggregation_name (meAggregation m), pmExpression = ?s m \<rparr>) ?ms"
    by (rule pre_aggregated_parts [OF c2 semi p(1)])
  have alike: "rgTypes g = rgTypes g'"
    "rel_option (\<lambda>e e'. \<exists>m \<in> set ?ms. e = ?f m \<and> e' = ?f' m) (rgExpressions g i) (rgExpressions g' i)" for i
    using registered_alike [OF g(1) g'(1) _ _ subset_refl] by (simp_all add: nothing_registered_def)
  have measure: "eval cast ps (?f' m) outer row = eval cast ps (?f m) rows row" if m: "m \<in> set ?ms" for m
  proof -
    let ?val = "\<lambda>r. case eval cast ps (?s m) [] r of Inr v \<Rightarrow> v | _ \<Rightarrow> SqlNull"
    have "reaggregateMeasureExpression m (?c m) = Some (?f' m)" using g'(3) m by auto
    then show ?thesis
    proof (rule reaggregated_measure [OF _ rows(1), where val = ?val])
      show "groups = [] \<longrightarrow> meAggregation m \<noteq> AggregationCount" using rows(2) m by blast
      have "meAggregation m = AggregationCount" if "aggregation_name (meAggregation m) = ''COUNT''" "reaggregateMeasureExpression m (?c m) \<noteq> None"
        using that by (auto simp: aggregation_name_def reaggregateMeasureExpression_def split: Aggregation.splits)
      with usable g'(3,4) m show "\<forall>r \<in> set rows. eval cast ps (?s m) [] r = Inr (?val r) \<and>
          (meAggregation m = AggregationCount \<or> numeric_value (?val r))"
        by (fastforce simp: usable_inputs_def)
      show "list_all2 (\<lambda>g r. eval cast ps (e_aggregate (aggregation_name (meAggregation m)) (?s m) []) g (\<lambda>_. SqlNull) =
          Inr (r (anchorNodeID, ?c m))) groups outer"
        using outer unfolding period_rows_def g'(4) by (rule list_all2_mono) (use m in auto)
    qed
  qed
  obtain formula e1' where f: "mcFormulaAST metric = Some formula" "e1 = null_guard metric formula e1'"
    "translates (metric_translator metric g) AstMetric formula e1' []" using metric_formula [OF g] by metis
  obtain formula' e2' where f': "mcFormulaAST metric = Some formula'" "e2 = null_guard metric formula' e2'"
    "translates (metric_translator metric g') AstMetric formula' e2' []" using metric_formula [OF g'(1,2)] by metis
  have same: "formula' = formula" using f(1) f'(1) by simp
  show "t2 = t1" using g(2) g'(2) f(1) alike(1)
    by (auto simp: compileMetricFormula_def decodeSemanticAST_def split: sum.splits prod.splits if_splits)
  define env where "env = \<lparr> evField = (\<lambda>_. Inl NoMeaning),
     evMeasure = (\<lambda>i. case rgExpressions g i of None \<Rightarrow> Inl NoMeaning | Some e \<Rightarrow> eval cast ps e rows row),
     evAttribute = (\<lambda>_. []), evQuotient = metric_quotient (mcZeroDenominatorPolicy metric), evCast = cast \<rparr>"
  have "agrees cast ps rows row (metric_translator metric g) AstMetric env"
    by (simp add: agrees_def metric_translator_def env_def)
  from translation_has_meaning [OF f(3) this] have one: "eval cast ps e1' rows row = ast_meaning env formula" .
  have "evMeasure env i = eval cast ps e outer row" if rg: "rgExpressions g' i = Some e" for i e
  proof -
    from alike(2) [of i] rg obtain m where "m \<in> set ?ms" "rgExpressions g i = Some (?f m)" "e = ?f' m"
      by (auto simp: option_rel_Some2)
    with measure show ?thesis by (simp add: env_def)
  qed
  then have "agrees cast ps outer row (metric_translator metric g') AstMetric env"
    by (simp add: agrees_def metric_translator_def) (simp add: env_def)
  from translation_has_meaning [OF f'(3) this] one show "eval cast ps e2 outer row = eval cast ps e1 rows row"
    by (simp add: f(2) f'(2) same null_guard_meaning [OF f(1)])
qed

end
