(* ===== verification/MetricTypes.thy ===== *)
theory MetricTypes imports MetricPreAggregation SemanticTree begin

text \<open>
  The type check of measures: a formula the compiler takes for numeric has a number or null on every
  row, never a value of another type.
\<close>

definition numeric_result :: "sql_result \<Rightarrow> bool" where
  "numeric_result r \<longleftrightarrow> (case r of Inr v \<Rightarrow> numeric_value v | Inl e \<Rightarrow> e = DivisionByZero \<or> e = CastFailure)"

definition typed_row :: "(ID \<Rightarrow> FieldContract option) \<Rightarrow> row \<Rightarrow> bool" where
  "typed_row columns row \<longleftrightarrow> (\<forall>i f. columns i = Some f \<longrightarrow> numeric_canonical (fcCanonicalType f) \<longrightarrow> numeric_value (row (anchorNodeID, fcCode f)))"

definition lawful_cast :: "cast_function \<Rightarrow> bool" where
  "lawful_cast cast \<longleftrightarrow> (\<forall>t v. numeric_canonical t \<longrightarrow> numeric_result (cast t v))"

text \<open>A conversion of a column, a constant or a number; the check of the code does not look into conversions.\<close>

definition plain_casts :: "(ID \<Rightarrow> FieldContract option) \<Rightarrow> semanticAST \<Rightarrow> bool" where
  "plain_casts columns n \<longleftrightarrow> (\<forall>x \<in> set (subtrees n). \<forall>a. saType x = TyCast \<longrightarrow> saArgument x = Some a \<longrightarrow>
     saType a = TyFieldRef \<or> saType a = TyLiteral \<or> semanticNumericExpression columns a)"

lemma plain_casts_kids: "plain_casts columns n \<longleftrightarrow>
    (\<forall>a. saType n = TyCast \<longrightarrow> saArgument n = Some a \<longrightarrow> saType a = TyFieldRef \<or> saType a = TyLiteral \<or> semanticNumericExpression columns a) \<and>
    (\<forall>a \<in> set (kids n). plain_casts columns a)"
  unfolding plain_casts_def subtrees_kids [of n] by blast

lemma numeric_leaves:
  "saType n = TyFieldRef \<Longrightarrow> semanticNumericExpression columns n \<longleftrightarrow> (\<exists>c. columns (saFieldID n) = Some c \<and> numeric_canonical (fcCanonicalType c))"
  "saType n = TyLiteral \<Longrightarrow> semanticNumericExpression columns n \<longleftrightarrow> (\<exists>q. decodeLiteral (saValue n) = Some (VNumber q))"
  "saType n = TyCast \<Longrightarrow> semanticNumericExpression columns n \<longleftrightarrow> numeric_canonical (saTargetType n)"
  "saType n = TyMeasureRef \<Longrightarrow> \<not> semanticNumericExpression columns n"
  "saType n = TyArray \<Longrightarrow> \<not> semanticNumericExpression columns n"
  "saType n = TySubjectAttribute \<Longrightarrow> \<not> semanticNumericExpression columns n"
  by (cases n; simp split: option.splits go_value.splits; fail | cases n; auto split: option.splits go_value.splits)+

lemma numeric_function: "saType n = TyFunction g \<Longrightarrow> semanticNumericExpression columns n \<longleftrightarrow>
    g \<in> {Abs, Floor, Ceil} \<and> (\<exists>a. saArgument n = Some a \<and> semanticNumericExpression columns a)"
  by (cases n) (simp add: map_option_eq_Some)

lemma numeric_rounding: "saType n = TyRound \<Longrightarrow> semanticNumericExpression columns n \<longleftrightarrow>
    length (saArguments n) = 2 \<and> semanticNumericExpression columns (saArguments n ! 0)"
proof (cases n)
  case (SemanticAST ty f mv m tt ak v arg args l r lo up pres)
  have "hd (map (semanticNumericExpression columns) args) = semanticNumericExpression columns (args ! 0)" if "length args = 2"
    using that by (cases args) auto
  then show "saType n = TyRound \<Longrightarrow> ?thesis" using SemanticAST by auto
qed

lemma numeric_lists:
  "saType n = TyArithmetic t \<Longrightarrow> semanticNumericExpression columns n \<longleftrightarrow> 2 \<le> length (saArguments n) \<and> (\<forall>a \<in> set (saArguments n). semanticNumericExpression columns a)"
  "saType n = TyCoalesce \<Longrightarrow> semanticNumericExpression columns n \<longleftrightarrow> 2 \<le> length (saArguments n) \<and> (\<forall>a \<in> set (saArguments n). semanticNumericExpression columns a)"
  by (cases n; simp add: list_all_iff)+

lemmas numeric_formula = numeric_leaves numeric_function numeric_rounding numeric_lists

section \<open>Operators on numbers\<close>

lemma numeric_bind: "numeric_result r \<Longrightarrow> (\<And>v. numeric_value v \<Longrightarrow> numeric_result (f v)) \<Longrightarrow> numeric_result (bind_result r f)"
  by (cases r) (auto simp: numeric_result_def)

lemma numeric_sequence: "\<forall>r \<in> set rs. numeric_result r \<Longrightarrow> (\<And>vs. list_all numeric_value vs \<Longrightarrow> length vs = length rs \<Longrightarrow> numeric_result (f vs)) \<Longrightarrow>
    numeric_result (bind_result (sequence rs) f)"
proof (induction rs arbitrary: f)
  case (Cons r rs)
  show ?case
  proof (cases r)
    case (Inr v)
    with Cons.prems(1) have v: "numeric_value v" by (simp add: numeric_result_def)
    have "numeric_result (bind_result (sequence rs) (\<lambda>vs. f (v # vs)))"
      using Cons.prems v by (intro Cons.IH) auto
    then show ?thesis using Inr by (cases "sequence rs") simp_all
  qed (use Cons.prems(1) in \<open>simp add: numeric_result_def\<close>)
qed simp

lemma numbers_numeric: "list_all numeric_value vs \<Longrightarrow> numbers_of vs = None \<or> (\<exists>qs. numbers_of vs = Some (Inr qs))"
  by (induction vs rule: numbers_of.induct) (auto simp: numeric_value_def)

lemma numeric_arithmetic: "list_all numeric_value vs \<Longrightarrow> vs \<noteq> [] \<Longrightarrow> numeric_result (sql_arithmetic t vs)"
  using numbers_numeric [of vs] by (cases t) (auto simp: sql_arithmetic_def arithmetic_def numeric_result_def numeric_value_def)

lemma numeric_coalesce: "\<forall>r \<in> set rs. numeric_result r \<Longrightarrow> numeric_result (sql_coalesce rs)"
  by (induction rs rule: sql_coalesce.induct) (auto simp: numeric_result_def numeric_value_def)

lemma numeric_unary: "g \<in> {Abs, Floor, Ceil} \<Longrightarrow> numeric_value v \<Longrightarrow> numeric_result (sql_unary g v)"
  by (auto simp: numeric_value_def numeric_result_def)

lemma numeric_round: "numeric_value v \<Longrightarrow> of_int \<lfloor>q\<rfloor> = q \<Longrightarrow> numeric_result (sql_round [v, SqlNumber q])"
  by (auto simp: numeric_value_def numeric_result_def)

section \<open>Formulas of measures\<close>

lemma fst_check: "fst (check_expression nodes ps e) = e" by (simp add: check_expression_eq)

lemma valid_literals:
  "validateExpression nodes ps (e_nary (TyArithmetic t) as) \<Longrightarrow> \<forall>a \<in> set as. validateExpression nodes ps a"
  "validateExpression nodes ps (e_nary TyCoalesce as) \<Longrightarrow> \<forall>a \<in> set as. validateExpression nodes ps a"
  "validateExpression nodes ps (e_nary TyRound as) \<Longrightarrow> (\<forall>a \<in> set as. validateExpression nodes ps a) \<and> length as = 2 \<and>
     expressionLiteralInteger (as ! 1) \<noteq> None"
  "validateExpression nodes ps (e_unary (TyFunction g) a) \<Longrightarrow> validateExpression nodes ps a"
  "validateExpression nodes ps (e_cast tt a) \<Longrightarrow> validateExpression nodes ps a"
  by (auto simp: validateExpression_def e_defs check_expression.simps node_valid_def list_all_iff required_def literal_at_def
      fst_check split: option.splits prod.splits)

lemma literal_eval: "deType e = TyLiteral \<Longrightarrow> eval cast ps e rows row = literal_value (deValue e)"
  by (cases e) (simp add: eval.simps node_meaning_def)

lemma literal_integer_eval:
  "expressionLiteralInteger e \<noteq> None \<Longrightarrow> \<exists>q. eval cast ps e rows row = Inr (SqlNumber q) \<and> of_int \<lfloor>q\<rfloor> = q"
  by (auto simp: expressionLiteralInteger_def literal_eval split: if_splits go_value.splits)

lemma known_value:
  assumes "translates tr AstMeasure n e fs" "saType n = TyFieldRef \<or> saType n = TyLiteral"
  shows "\<exists>v. eval cast ps e rows row = Inr v"
  using assms by (cases rule: translates.cases)
    (auto simp: eval_literals fieldReference_def decodeLiteral_def plain_nary_def split: option.splits go_value.splits if_splits)

lemma numeric_formula_value:
  assumes "translates (row_translator columns) AstMeasure n e fs" "semanticNumericExpression columns n" "plain_casts columns n"
    "validateExpression nodes params e" "typed_row columns row" "lawful_cast cast"
  shows "numeric_result (eval cast ps e rows row)"
  using assms(1-4)
proof induction
  case (field n f)
  then show ?case using assms(5) by (auto simp: fieldReference_def eval_literals numeric_formula typed_row_def row_translator_def numeric_result_def)
next
  case (metric_measure n e)
  then show ?case by simp
next
  case (literal n v)
  then show ?case by (auto simp: numeric_formula eval_literals numeric_result_def numeric_value_def)
next
  case (truth n b)
  then show ?case by (simp add: predicate_mode_def)
next
  case (attribute n vs)
  then show ?case by simp
next
  case (nary n xs rs)
  have casts: "\<forall>a \<in> set (saArguments n). plain_casts columns a" using nary.prems(2) plain_casts_kids [of columns n] by (auto simp: in_kids)
  have all: "\<forall>r \<in> set (map (\<lambda>x. eval cast ps x rows row) xs). numeric_result r"
    if "\<forall>a \<in> set (saArguments n). semanticNumericExpression columns a" "\<forall>x \<in> set xs. validateExpression nodes params x"
    using that nary.IH nary.hyps(2) casts by (fastforce simp: in_set_conv_nth)
  consider t where "saType n = TyArithmetic t" | "saType n = TyCoalesce" | "saType n = TyRound"
    using nary.hyps(1) nary.prems(1) numeric_leaves(5) [of n columns] by (auto simp: plain_nary_def predicate_mode_def)
  then show ?case
  proof cases
    case 1
    then have "2 \<le> length xs" using nary.prems(1) nary.hyps(2) by (simp add: numeric_formula)
    moreover have "\<forall>r \<in> set (map (\<lambda>x. eval cast ps x rows row) xs). numeric_result r"
      using nary.prems(1,3) valid_literals(1) 1 by (intro all) (auto simp: numeric_formula)
    ultimately show ?thesis using 1 by (auto simp: eval_literals intro!: numeric_sequence numeric_arithmetic)
  next
    case 2
    then have "\<forall>r \<in> set (map (\<lambda>x. eval cast ps x rows row) xs). numeric_result r"
      using nary.prems(1,3) valid_literals(2) by (intro all) (auto simp: numeric_formula)
    with 2 show ?thesis by (simp add: eval_literals numeric_coalesce)
  next
    case 3
    with nary.prems(3) valid_literals(3) have valid: "\<forall>x \<in> set xs. validateExpression nodes params x" "length xs = 2"
      "expressionLiteralInteger (xs ! 1) \<noteq> None" by force+
    then obtain x y where xs: "xs = [x, y]" by (auto simp: numeral_2_eq_2 length_Suc_conv)
    have first: "semanticNumericExpression columns (saArguments n ! 0)" "length (saArguments n) = 2"
      using 3 nary.prems(1) by (simp_all add: numeric_formula)
    have "plain_casts columns (saArguments n ! 0)" using casts first(2) by simp
    with nary.IH first(1) valid(1) xs have x: "numeric_result (eval cast ps x rows row)" by fastforce
    obtain q where q: "eval cast ps y rows row = Inr (SqlNumber q)" "of_int \<lfloor>q\<rfloor> = q"
      using literal_integer_eval [of y cast ps rows row] valid(3) xs by auto
    have "eval cast ps (e_nary (saType n) xs) rows row = bind_result (eval cast ps x rows row) (\<lambda>v. sql_round [v, SqlNumber q])"
      using 3 xs q(1) by (cases "eval cast ps x rows row") (simp_all add: eval_literals)
    with x q(2) show ?thesis by (auto intro!: numeric_bind numeric_round)
  qed
next
  case (quotient n xs rs)
  have casts: "\<forall>a \<in> set (saArguments n). plain_casts columns a" using quotient.prems(2) plain_casts_kids [of columns n] by (auto simp: in_kids)
  have valid: "\<forall>x \<in> set xs. validateExpression nodes params x"
    using quotient.prems(3) valid_literals(1) by (simp add: guarded_quotient_def Let_def)
  have "\<forall>a \<in> set (saArguments n). semanticNumericExpression columns a" "2 \<le> length xs"
    using quotient by (auto simp: numeric_formula)
  then have "\<forall>r \<in> set (map (\<lambda>x. eval cast ps x rows row) xs). numeric_result r"
    using quotient.IH quotient.hyps(2) casts valid by (fastforce simp: in_set_conv_nth)
  with \<open>2 \<le> length xs\<close> show ?case
    by (auto simp: guarded_quotient_def Let_def eval_literals intro!: numeric_sequence numeric_arithmetic)
next
  case (numeric n g a x r)
  then have "numeric_result (eval cast ps x rows row)"
    using plain_casts_kids [of columns n] valid_literals(4) by (auto simp: numeric_formula in_kids)
  with numeric.hyps(2) show ?case by (auto simp: eval_literals intro!: numeric_bind numeric_unary)
next
  case (cast n a x r)
  have tt: "numeric_canonical (saTargetType n)" using cast.prems(1) cast.hyps(1) by (simp add: numeric_formula)
  have law: "numeric_result (cast (saTargetType n) v)" for v using assms(6) tt by (simp add: lawful_cast_def)
  have valid: "validateExpression nodes params x" using cast.prems(3) by (rule valid_literals(5))
  from cast.prems(2) cast.hyps(1,2) have "saType a = TyFieldRef \<or> saType a = TyLiteral \<or> semanticNumericExpression columns a"
    "plain_casts columns a" using plain_casts_kids [of columns n] by (auto simp: in_kids)
  then consider v where "eval cast ps x rows row = Inr v" | "numeric_result (eval cast ps x rows row)"
    using known_value [OF cast.hyps(3)] cast.IH valid by blast
  then show ?case by cases (auto simp: eval_literals law intro!: numeric_bind)
next
  case (test n t a x r)
  then show ?case by (simp add: predicate_mode_def)
next
  case (comparison n c a b x r y r')
  then show ?case by (simp add: predicate_mode_def)
next
  case (between n a b c x r y r' z r'')
  then show ?case by (simp add: predicate_mode_def)
qed

lemma numeric_aggregate:
  assumes "list_all numeric_value vs" "a \<in> {AggregationSum, AggregationAverage, AggregationMinimum, AggregationMaximum}"
  shows "numeric_result (sql_aggregate (aggregation_name a) vs)"
  using assms(2) aggregate_numbers [OF assms(1)] typed_numbers [OF assms(1)] present_nums [OF assms(1)]
  by (auto simp: aggregation_name_def numeric_result_def numeric_value_def null_or_def sql_aggregate_def Let_def with_numbers_def)

lemma numeric_measure:
  assumes "\<forall>r \<in> set rows. numeric_result (eval cast ps scalar [] r)"
    "a \<in> {AggregationSum, AggregationAverage, AggregationMinimum, AggregationMaximum}"
  shows "numeric_result (eval cast ps (e_aggregate (aggregation_name a) scalar []) rows row)"
proof -
  have "eval cast ps (e_aggregate (aggregation_name a) scalar []) rows row =
      bind_result (sequence (map (eval cast ps scalar []) rows)) (sql_aggregate (aggregation_name a))"
    using assms(2) by (auto simp: eval_literals(16) aggregate_meaning_def aggregation_name_def)
  then show ?thesis using assms by (auto intro!: numeric_sequence numeric_aggregate)
qed

end
