(* ===== verification/MetricReference.thy ===== *)
theory MetricReference imports MetricMeaning SemanticTree begin

text \<open>
  What a metric is worth, from its contract alone: a quotient with a zero denominator is what the
  denominator policy says, a quotient with a missing operand is missing, and the null policy decides
  about a missing result. The compiler replaces the whole quotient instead; the two agree unless an operand of a
  quotient is missing and the policy for zero denominators is zero.
\<close>

section \<open>Reference\<close>

text \<open>Operands of a division are numbers or missing.\<close>

fun operand :: "sql_value \<Rightarrow> sql_result" where
  "operand (SqlNumber q) = Inr (SqlNumber q)"
| "operand SqlNull = Inr SqlNull"
| "operand _ = Inl TypeMismatch"

definition contract_quotient :: "ZeroDenominatorPolicy \<Rightarrow> sql_result list \<Rightarrow> sql_result" where
  "contract_quotient policy rs = (case rs of [] \<Rightarrow> Inl NoMeaning | a # bs \<Rightarrow>
     bind_result a (\<lambda>n. bind_result (sequence (map (\<lambda>b. bind_result b operand) bs)) (\<lambda>ds. bind_result (operand n) (\<lambda>_.
       if SqlNumber 0 \<in> set ds then Inr (if policy = ZeroDenominatorZero then SqlNumber 0 else SqlNull)
       else if SqlNull \<in> set (n # ds) then Inr SqlNull
       else sql_arithmetic Divide (n # ds)))))"

definition contract_env ::
  "cast_function \<Rightarrow> (ID \<Rightarrow> FieldContract option) \<Rightarrow> MetricContract \<Rightarrow> row list \<Rightarrow> ast_env" where
  "contract_env cast columns metric rows = \<lparr> evField = (\<lambda>_. Inl NoMeaning),
     evMeasure = (\<lambda>i. case find (\<lambda>m. meMeasureID m = i \<or> meMeasureVersionID m = i) (mcMeasures metric) of
         None \<Rightarrow> Inl NoMeaning | Some m \<Rightarrow> measure_value cast columns metric rows m),
     evAttribute = (\<lambda>_. []), evQuotient = contract_quotient (mcZeroDenominatorPolicy metric), evCast = cast \<rparr>"

definition quotients :: "semanticAST \<Rightarrow> semanticAST list" where
  "quotients f = filter (\<lambda>t. saType t = TyArithmetic Divide) (subtrees f)"

text \<open>A missing value of the formula reads zero under the null policy \<open>ZERO\<close>, except that it stays missing
  where it may come from a zero denominator that the denominator policy keeps missing.\<close>

definition reads_zero :: "MetricContract \<Rightarrow> semanticAST \<Rightarrow> bool" where
  "reads_zero metric f \<longleftrightarrow> mcNullPolicy metric = ''ZERO'' \<and> (mcZeroDenominatorPolicy metric = ZeroDenominatorNull \<longrightarrow> quotients f = [])"

definition contract_value ::
  "cast_function \<Rightarrow> (ID \<Rightarrow> FieldContract option) \<Rightarrow> MetricContract \<Rightarrow> row list \<Rightarrow> sql_result" where
  "contract_value cast columns metric rows = (case mcFormulaAST metric of None \<Rightarrow> Inl NoMeaning | Some f \<Rightarrow>
     bind_result (ast_meaning (contract_env cast columns metric rows) f) (\<lambda>v.
       Inr (if v = SqlNull \<and> reads_zero metric f then SqlNumber 0 else v)))"

text \<open>Whether some quotient of the formula has a missing operand.\<close>

definition missing_operand ::
  "cast_function \<Rightarrow> (ID \<Rightarrow> FieldContract option) \<Rightarrow> MetricContract \<Rightarrow> row list \<Rightarrow> bool" where
  "missing_operand cast columns metric rows \<longleftrightarrow> (case mcFormulaAST metric of None \<Rightarrow> False | Some f \<Rightarrow>
     list_ex (\<lambda>t. Inr SqlNull \<in> set (map (ast_meaning (contract_env cast columns metric rows)) (saArguments t))) (quotients f))"

section \<open>Agreement with the compiler\<close>

lemma numbers_of_null: "list_all (\<lambda>v. operand v = Inr v) vs \<Longrightarrow> SqlNull \<in> set vs \<Longrightarrow> numbers_of vs = None"
proof (induction vs)
  case (Cons v vs)
  have "\<exists>r. numbers_of vs = None \<or> numbers_of vs = Some (Inr r)" using Cons.prems(1) 
    by (simp, induction vs rule: numbers_of.induct) (auto split: option.splits sum.splits)
  with Cons show ?case by (cases v) (auto split: option.splits)
qed simp

lemma operand_id: "operand v = Inr w \<Longrightarrow> w = v" by (cases v) auto

lemma nonzero_operand: "nonzero v = bind_result (operand v) (\<lambda>w. Inr (if w = SqlNumber 0 then SqlNull else w))"
  by (cases v) auto

lemma sequence_bind_map:
  "sequence (map (\<lambda>b. bind_result (bind_result b f) (\<lambda>w. Inr (g w))) bs) =
     bind_result (sequence (map (\<lambda>b. bind_result b f) bs)) (\<lambda>ws. Inr (map g ws))"
proof (induction bs)
  case (Cons b bs)
  then show ?case
    by (cases "bind_result b f"; cases "sequence (map (\<lambda>b. bind_result b f) bs)") auto
qed simp

lemma no_null_numbers: "SqlNull \<notin> set vs \<Longrightarrow> \<exists>r. numbers_of vs = Some r"
  by (induction vs rule: numbers_of.induct) (auto split: option.splits)

lemma division_not_null:
  assumes "SqlNull \<notin> set vs"
  shows "sql_arithmetic Divide vs \<noteq> Inr SqlNull"
proof -
  obtain r where "numbers_of vs = Some r" using no_null_numbers [OF assms] by blast
  then show ?thesis by (cases r) (auto simp: sql_arithmetic_def arithmetic_def)
qed

lemma fill_not_null: "r \<noteq> Inr SqlNull \<Longrightarrow> bind_result r (\<lambda>x. Inr (if x = SqlNull then SqlNumber 0 else x)) = r"
  by (cases r) auto

lemma quotient_of_values:
  fixes n :: sql_value and ds :: "sql_value list"
  defines "q \<equiv> sql_arithmetic Divide (n # map (\<lambda>w. if w = SqlNumber 0 then SqlNull else w) ds)"
  assumes "list_all (\<lambda>v. operand v = Inr v) ds" "policy = ZeroDenominatorZero \<longrightarrow> SqlNull \<notin> set (n # ds)"
  shows "(if policy = ZeroDenominatorZero then bind_result q (\<lambda>x. Inr (if x = SqlNull then SqlNumber 0 else x)) else q) =
    bind_result (operand n) (\<lambda>_.
       if SqlNumber 0 \<in> set ds then Inr (if policy = ZeroDenominatorZero then SqlNumber 0 else SqlNull)
       else if SqlNull \<in> set (n # ds) then Inr SqlNull
       else sql_arithmetic Divide (n # ds))"
proof (cases "operand n")
  case (Inl e)
  then have "q = Inl TypeMismatch" "e = TypeMismatch" unfolding q_def by (cases n; simp add: sql_arithmetic_def)+
  with Inl show ?thesis by simp
next
  case (Inr n')
  then have n: "n' = n" "operand n = Inr n" using operand_id by auto
  let ?g = "\<lambda>w. if w = SqlNumber 0 then SqlNull else w"
  have all: "list_all (\<lambda>v. operand v = Inr v) (n # map ?g ds)" using assms(2) n(2) by (auto simp: list_all_iff)
  show ?thesis
  proof (cases "SqlNumber 0 \<in> set ds")
    case True
    then have "SqlNull \<in> set (n # map ?g ds)" by force
    with all have "q = Inr SqlNull" unfolding q_def by (simp only: sql_arithmetic_def numbers_of_null) simp
    with True n show ?thesis by simp
  next
    case False
    then have "map ?g ds = ds" by (intro map_idI) auto
    then have q: "q = sql_arithmetic Divide (n # ds)" unfolding q_def by simp
    show ?thesis
    proof (cases "SqlNull \<in> set (n # ds)")
      case True
      with all \<open>map ?g ds = ds\<close> have "q = Inr SqlNull" unfolding q by (simp only: sql_arithmetic_def numbers_of_null) simp
      with True False n assms(3) show ?thesis by auto
    next
      case no: False
      with division_not_null [OF no] fill_not_null False n q show ?thesis by auto
    qed
  qed
qed

lemma metric_quotient_contract:
  assumes "policy = ZeroDenominatorZero \<longrightarrow> Inr SqlNull \<notin> set rs"
  shows "metric_quotient policy rs = contract_quotient policy rs"
proof (cases rs)
  case (Cons a bs)
  show ?thesis
  proof (cases a)
    case (Inl e)
    with Cons show ?thesis by (simp add: metric_quotient_def contract_quotient_def Let_def)
  next
    case a: (Inr n)
    let ?g = "\<lambda>w. if w = SqlNumber 0 then SqlNull else w"
    have nz: "sequence (map (\<lambda>b. bind_result b nonzero) bs) =
        bind_result (sequence (map (\<lambda>b. bind_result b operand) bs)) (\<lambda>ws. Inr (map ?g ws))"
    proof -
      have "(\<lambda>b. bind_result b nonzero) = (\<lambda>b. bind_result (bind_result b operand) (\<lambda>w. Inr (?g w)))"
        by (rule ext) (simp add: bind_result_def nonzero_operand split: sum.splits)
      then show ?thesis by (simp only: sequence_bind_map)
    qed
    show ?thesis
    proof (cases "sequence (map (\<lambda>b. bind_result b operand) bs)")
      case (Inl e)
      with Cons a nz show ?thesis by (simp add: metric_quotient_def contract_quotient_def Let_def)
    next
      case (Inr ds)
      then have ds: "map (\<lambda>b. bind_result b operand) bs = map Inr ds" by (simp add: sequence_Inr_iff)
      have each: "b = Inr d \<and> operand d = Inr d" if "bind_result b operand = Inr d" for b d
        using that by (cases b) (auto dest: operand_id)
      have "bs = map Inr ds \<and> list_all (\<lambda>v. operand v = Inr v) ds" using ds
        by (induction bs arbitrary: ds) (auto simp: Cons_eq_map_conv dest!: each)
      with assms Cons a have "policy = ZeroDenominatorZero \<longrightarrow> SqlNull \<notin> set (n # ds)" by auto
      note eq = quotient_of_values [OF conjunct2 [OF \<open>bs = map Inr ds \<and> _\<close>] this]
      show ?thesis
        by (simp only: metric_quotient_def contract_quotient_def Let_def Cons list.case a sequence.simps nz Inr bind_result_simps)
          (rule eq)
    qed
  qed
qed (simp add: metric_quotient_def contract_quotient_def)

lemma in_quotients: "t \<in> set (quotients f) \<longleftrightarrow> t \<in> set (subtrees f) \<and> saType t = TyArithmetic Divide"
  by (auto simp: quotients_def)

lemma quotients_kids: "a \<in> set (kids n) \<Longrightarrow> set (quotients a) \<subseteq> set (quotients n)"
  by (auto simp: in_quotients subtrees_kids [of n])

lemma set_quotients:
  "set (quotients n) = (if saType n = TyArithmetic Divide then {n} else {}) \<union> (\<Union>a \<in> set (kids n). set (quotients a))"
  by (auto simp: in_quotients subtrees_kids [of n])

lemma divides_quotients: "semanticASTContainsType (TyArithmetic Divide) f \<longleftrightarrow> quotients f \<noteq> []"
proof (induction f rule: kids_induct)
  case (1 n)
  have "quotients n \<noteq> [] \<longleftrightarrow> saType n = TyArithmetic Divide \<or> (\<exists>a \<in> set (kids n). quotients a \<noteq> [])"
    by (simp only: set_quotients [of n] flip: set_empty) auto
  with 1 show ?case by (simp add: contains_kids [of _ n])
qed

lemma node_cong:
  assumes "evField env = evField env'" "evMeasure env = evMeasure env'" "evAttribute env = evAttribute env'" "evCast env = evCast env'"
    "saType n = TyArithmetic Divide \<Longrightarrow> evQuotient env args = evQuotient env' args"
  shows "ast_node_meaning env n arg args l r lo up = ast_node_meaning env' n arg args l r lo up"
  using assms by (cases "saType n") (auto simp: ast_node_meaning_def)

lemma meaning_cong:
  assumes "evField env = evField env'" "evMeasure env = evMeasure env'" "evAttribute env = evAttribute env'" "evCast env = evCast env'"
    "\<And>t. t \<in> set (quotients f) \<Longrightarrow> evQuotient env (map (ast_meaning env') (saArguments t)) = evQuotient env' (map (ast_meaning env') (saArguments t))"
  shows "ast_meaning env f = ast_meaning env' f"
  using assms(5)
proof (induction f rule: kids_induct)
  case (1 n)
  have kid: "ast_meaning env a = ast_meaning env' a" if "a \<in> set (kids n)" for a
    using 1 quotients_kids [OF that] that by blast
  have parts: "map_option (ast_meaning env) p = map_option (ast_meaning env') p" if "\<And>a. p = Some a \<Longrightarrow> a \<in> set (kids n)" for p
    using that kid by (cases p) auto
  have args: "map (ast_meaning env) (saArguments n) = map (ast_meaning env') (saArguments n)"
    using kid by (auto simp: in_kids)
  have "evQuotient env (map (ast_meaning env') (saArguments n)) = evQuotient env' (map (ast_meaning env') (saArguments n))"
    if "saType n = TyArithmetic Divide" using 1(2) [of n] that by (simp add: in_quotients subtrees_kids [of n])
  then show ?case unfolding ast_meaning_node [of _ n] args
    by (subst (1 2 3 4 5) parts) (auto simp: in_kids intro!: node_cong assms(1-4))
qed

lemma metric_value_contract:
  assumes "mcZeroDenominatorPolicy metric = ZeroDenominatorZero \<longrightarrow> \<not> missing_operand cast columns metric rows"
  shows "metric_value cast columns metric rows = contract_value cast columns metric rows"
proof (cases "mcFormulaAST metric")
  case None
  then show ?thesis by (simp add: metric_value_def contract_value_def null_policy_def tree_meaning_def)
next
  case (Some f)
  have "ast_meaning (metric_env cast columns metric rows) f = ast_meaning (contract_env cast columns metric rows) f"
  proof (rule meaning_cong)
    fix t assume "t \<in> set (quotients f)"
    with assms Some have "mcZeroDenominatorPolicy metric = ZeroDenominatorZero \<longrightarrow>
        Inr SqlNull \<notin> set (map (ast_meaning (contract_env cast columns metric rows)) (saArguments t))"
      by (auto simp: missing_operand_def list_ex_iff)
    from metric_quotient_contract [OF this]
    show "evQuotient (metric_env cast columns metric rows) (map (ast_meaning (contract_env cast columns metric rows)) (saArguments t)) =
        evQuotient (contract_env cast columns metric rows) (map (ast_meaning (contract_env cast columns metric rows)) (saArguments t))"
      by (simp add: metric_env_def contract_env_def)
  qed (simp_all add: metric_env_def contract_env_def)
  then show ?thesis using Some
    by (cases "ast_meaning (contract_env cast columns metric rows) f")
      (auto simp: metric_value_def contract_value_def null_policy_def tree_meaning_def reads_zero_def divides_quotients)
qed

end
