(* ===== verification/MetricProperties.thy ===== *)
theory MetricProperties imports MetricTypes MetricReference begin

text \<open>
  What the compiled expression of a metric guarantees: its value is the one the contract defines, a
  time reduction in two stages gives the value of one stage, and the numeric check is sound.
\<close>

section \<open>Examples\<close>

text \<open>The total amount of the north, from rows with a region and an amount.\<close>

definition metric_columns :: "ID \<Rightarrow> FieldContract option" where
  "metric_columns i =
     (if i = ''amount'' then Some \<lparr> fcFieldID = i, fcCode = ''amount'', fcCanonicalType = ''DECIMAL'', fcNullable = False \<rparr>
      else if i = ''region'' then Some \<lparr> fcFieldID = i, fcCode = ''region'', fcCanonicalType = ''STRING'', fcNullable = False \<rparr>
      else None)"

definition field_tree :: "ID \<Rightarrow> semanticAST" where
  "field_tree i = SemanticAST TyFieldRef i [] [] [] [] None None [] None None None None [key_type, ''fieldId'']"

definition north_tree :: semanticAST where
  "north_tree = SemanticAST (TyComparison Equals) [] [] [] [] [] None None [] (Some (field_tree ''region''))
     (Some (SemanticAST TyLiteral [] [] [] [] [] (Some (VString ''north'')) None [] None None None None [key_type, ''value'']))
     None None [key_type, ''left'', ''right'']"

definition measure_tree :: semanticAST where
  "measure_tree = SemanticAST TyMeasureRef [] ''v1'' [] [] [] None None [] None None None None [key_type, ''measureVersionId'']"

definition amount_measure :: MeasureContract where
  "amount_measure = \<lparr> meMeasureID = ''m1'', meMeasureVersionID = ''v1'', meFormulaAST = Some (field_tree ''amount''),
     meAggregation = AggregationSum, meDataType = NumericDecimal \<rparr>"

definition north_metric :: MetricContract where
  "north_metric = \<lparr> mcMetricVersionID = ''mv'', mcFormulaAST = Some measure_tree, mcDefaultFilterAST = Some north_tree,
     mcUnit = ''CNY'', mcCurrency = ''CNY'', mcAdditivity = FullyAdditive, mcSemiAdditiveTimeAggregation = SemiAdditivePeriodEnd,
     mcAggregationRestriction = PreAggregate, mcNonAdditiveDimensions = [], mcZeroDenominatorPolicy = ZeroDenominatorNull,
     mcNullPolicy = ''ZERO'', mcMeasures = [amount_measure] \<rparr>"

definition no_casts :: cast_function where "no_casts t v = Inl CastFailure"

definition sale :: "string \<Rightarrow> rat \<Rightarrow> row" where
  "sale r q = (\<lambda>(_, c). if c = ''amount'' then SqlNumber q else if c = ''region'' then SqlText r else SqlNull)"

definition north_expression :: DatasetExpression where "north_expression = fst (the (compileMetricExpression north_metric metric_columns))"
definition north_type :: string where "north_type = snd (the (compileMetricExpression north_metric metric_columns))"

lemma north_compiled: "compileMetricExpression north_metric metric_columns = Some (north_expression, north_type)"
proof -
  have "compileMetricExpression north_metric metric_columns \<noteq> None" by code_simp
  then show ?thesis by (auto simp: north_expression_def north_type_def)
qed

lemma north_condition: "default_condition no_casts metric_columns north_metric (sale r q) = Inr (truth (Some (r = ''north'')))"
  by (simp add: default_condition_def tree_meaning_def north_metric_def north_tree_def field_tree_def row_env_def metric_columns_def
      sale_def ast_meaning.simps ast_node_meaning_def ast_part_def comparison_meaning_def sql_comparison_def holds_def sign_of_def)

text \<open>The amount per piece in the north: a quotient of two measures that is zero when nothing was sold.\<close>

definition ratio_columns :: "ID \<Rightarrow> FieldContract option" where
  "ratio_columns = metric_columns(''pieces'' \<mapsto>
     \<lparr> fcFieldID = ''pieces'', fcCode = ''pieces'', fcCanonicalType = ''DECIMAL'', fcNullable = False \<rparr>)"

definition pieces_tree :: semanticAST where
  "pieces_tree = SemanticAST TyMeasureRef [] ''v2'' [] [] [] None None [] None None None None [key_type, ''measureVersionId'']"

definition ratio_metric :: MetricContract where
  "ratio_metric = north_metric \<lparr> mcFormulaAST := Some (SemanticAST (TyArithmetic Divide) [] [] [] [] [] None None
       [measure_tree, pieces_tree] None None None None [key_type, ''arguments'']),
     mcZeroDenominatorPolicy := ZeroDenominatorZero, mcNullPolicy := ''PRESERVE'',
     mcMeasures := [amount_measure, amount_measure \<lparr> meMeasureID := ''m2'', meMeasureVersionID := ''v2'',
       meFormulaAST := Some (field_tree ''pieces'') \<rparr>] \<rparr>"

definition ratio_expression :: DatasetExpression where "ratio_expression = fst (the (compileMetricExpression ratio_metric ratio_columns))"
definition ratio_type :: string where "ratio_type = snd (the (compileMetricExpression ratio_metric ratio_columns))"

lemma ratio_compiled: "compileMetricExpression ratio_metric ratio_columns = Some (ratio_expression, ratio_type)"
proof -
  have "compileMetricExpression ratio_metric ratio_columns \<noteq> None" by code_simp
  then show ?thesis by (auto simp: ratio_expression_def ratio_type_def)
qed

definition sold :: "string \<Rightarrow> sql_value \<Rightarrow> rat \<Rightarrow> row" where
  "sold r q n = (\<lambda>(_, c). if c = ''amount'' then q else if c = ''pieces'' then SqlNumber n else if c = ''region'' then SqlText r else SqlNull)"

section \<open>Properties\<close>

text \<open>C19: The expression a metric is compiled into has the value its contract defines, over any rows on
  which the default filter is true, false or unknown: every measure aggregates its formula over the rows
  the default filter keeps (the compiled expression blanks the others out instead) and the formula
  combines the measures by their identifiers; a quotient with a zero denominator is missing or zero by
  the denominator policy, and a quotient with a missing operand is missing. A missing value of the whole
  formula reads zero under the null policy ZERO, unless the formula divides and zero denominators are to
  stay missing. One case is excepted, where the program departs from this: when the denominator policy
  is zero, no quotient of the formula may have a missing operand, for the compiler turns it into zero.\<close>

theorem metric_value_exact:
  assumes "compileMetricExpression metric columns = Some (e, t)"
    "\<forall>r \<in> set rows. determined (default_condition cast columns metric r)"
    "mcZeroDenominatorPolicy metric = ZeroDenominatorZero \<longrightarrow> \<not> missing_operand cast columns metric rows"
  shows "eval cast ps e rows row = contract_value cast columns metric rows"
  using compiled_metric_meaning [OF assms(1,2)] metric_value_contract [OF assms(3)] by simp

theorem metric_value_exact_witness:
  "eval no_casts (\<lambda>_. SqlNull) ratio_expression [sold ''north'' (SqlNumber 2) 0, sold ''north'' SqlNull 0] (\<lambda>_. SqlNull) = Inr (SqlNumber 0) \<and>
   eval no_casts (\<lambda>_. SqlNull) ratio_expression
     [sold ''north'' (SqlNumber 2) 1, sold ''south'' (SqlNumber 9) 7, sold ''north'' (SqlNumber 4) 2] (\<lambda>_. SqlNull) = Inr (SqlNumber 2)"
proof
  let ?empty = "[sold ''north'' (SqlNumber 2) 0, sold ''north'' SqlNull 0]"
  let ?rows = "[sold ''north'' (SqlNumber 2) 1, sold ''south'' (SqlNumber 9) 7, sold ''north'' (SqlNumber 4) 2]"
  have "eval no_casts (\<lambda>_. SqlNull) ratio_expression ?empty (\<lambda>_. SqlNull) = contract_value no_casts ratio_columns ratio_metric ?empty"
  proof (rule metric_value_exact [OF ratio_compiled])
    have "list_all (\<lambda>r. default_condition no_casts ratio_columns ratio_metric r = Inr (truth (Some True))) ?empty" by code_simp
    then show "\<forall>r \<in> set ?empty. determined (default_condition no_casts ratio_columns ratio_metric r)"
      by (auto simp: determined_def)
    have "\<not> missing_operand no_casts ratio_columns ratio_metric ?empty" by code_simp
    then show "mcZeroDenominatorPolicy ratio_metric = ZeroDenominatorZero \<longrightarrow>
        \<not> missing_operand no_casts ratio_columns ratio_metric ?empty" by blast
  qed
  also have "\<dots> = Inr (SqlNumber 0)" by code_simp
  finally show "eval no_casts (\<lambda>_. SqlNull) ratio_expression ?empty (\<lambda>_. SqlNull) = Inr (SqlNumber 0)" .
  have "eval no_casts (\<lambda>_. SqlNull) ratio_expression ?rows (\<lambda>_. SqlNull) = contract_value no_casts ratio_columns ratio_metric ?rows"
  proof (rule metric_value_exact [OF ratio_compiled])
    have "list_all (\<lambda>r. default_condition no_casts ratio_columns ratio_metric r \<in> {Inr (truth (Some True)), Inr (truth (Some False))}) ?rows"
      by code_simp
    then show "\<forall>r \<in> set ?rows. determined (default_condition no_casts ratio_columns ratio_metric r)"
      unfolding determined_def by (simp only: list_all_iff) blast
    have "\<not> missing_operand no_casts ratio_columns ratio_metric ?rows" by code_simp
    then show "mcZeroDenominatorPolicy ratio_metric = ZeroDenominatorZero \<longrightarrow>
        \<not> missing_operand no_casts ratio_columns ratio_metric ?rows" by blast
  qed
  also have "\<dots> = Inr (SqlNumber 2)" by code_simp
  finally show "eval no_casts (\<lambda>_. SqlNull) ratio_expression ?rows (\<lambda>_. SqlNull) = Inr (SqlNumber 2)" .
qed

text \<open>The exception is real: with no amount at all the contract makes the ratio missing, and the null policy keeps it
  missing, but the compiled expression makes it zero.\<close>

theorem zero_policy_hides_missing:
  "eval no_casts (\<lambda>_. SqlNull) ratio_expression [sold ''north'' SqlNull 5] (\<lambda>_. SqlNull) = Inr (SqlNumber 0) \<and>
   contract_value no_casts ratio_columns ratio_metric [sold ''north'' SqlNull 5] = Inr SqlNull"
  by (rule conjI) code_simp+

lemma reaggregated_kinds: "reaggregateMeasureExpression m c \<noteq> None \<Longrightarrow>
    meAggregation m \<in> {AggregationSum, AggregationCount, AggregationMinimum, AggregationMaximum}"
  by (cases "meAggregation m") (simp_all add: reaggregateMeasureExpression_def Let_def)

text \<open>C20: Computing a metric in two stages, per period and then over the periods, gives the value and the
  type of computing it at once, for every split of the rows into periods, in any order: sums, minima and maxima
  are aggregated again by themselves and counts are summed. The metric is not semi-additive, every
  measure has a value on every row, a number or null unless it is counted, and where there is no
  period at all no measure is a count (over no rows a count is zero at once and null in two stages). A metric with an
  average or a distinct count is refused rather than aggregated twice.\<close>

theorem preaggregation_is_exact:
  assumes "compileMetricExpression metric columns = Some (e1, t1)"
    "compileMetricExpressionPreAggregated column metric columns time = Some (e2, t2, pms)"
    "mcAdditivity metric \<noteq> SemiAdditive" "mset rows = mset (concat groups)"
    "groups = [] \<longrightarrow> (\<forall>m \<in> set (mcMeasures metric). meAggregation m \<noteq> AggregationCount)"
    "period_rows cast ps pms groups outer" "usable_inputs cast ps pms rows"
  shows "eval cast ps e2 outer row = eval cast ps e1 rows row \<and> t2 = t1 \<and>
    (\<forall>m \<in> set (mcMeasures metric). meAggregation m \<in> {AggregationSum, AggregationCount, AggregationMinimum, AggregationMaximum})"
proof -
  obtain inputs where "compileMetricMeasureInputs metric columns = Some inputs"
    using assms(1) by (auto simp: compileMetricExpression_def Option.bind_eq_Some_conv)
  then obtain predicate where p: "default_predicate metric columns = Some predicate" using measure_inputs by blast
  have "\<forall>m \<in> set (mcMeasures metric). reaggregateMeasureExpression m (column (mcMetricVersionID metric) (meMeasureVersionID m)) \<noteq> None"
    by (rule pre_aggregated_parts [OF assms(2,3) p])
  then have "\<forall>m \<in> set (mcMeasures metric). meAggregation m \<in> {AggregationSum, AggregationCount, AggregationMinimum, AggregationMaximum}"
    using reaggregated_kinds by blast
  with pre_aggregated_meaning [OF assms] show ?thesis by blast
qed

definition north_column :: "ID \<Rightarrow> ID \<Rightarrow> string" where "north_column a b = ''total''"
definition north_time :: FieldContract where
  "north_time = \<lparr> fcFieldID = ''day'', fcCode = ''day'', fcCanonicalType = ''DATE'', fcNullable = False \<rparr>"

definition north_outer :: "DatasetExpression \<times> string \<times> PreAggregationMetric list" where
  "north_outer = the (compileMetricExpressionPreAggregated north_column north_metric metric_columns north_time)"

lemma north_outer: "compileMetricExpressionPreAggregated north_column north_metric metric_columns north_time =
    Some (fst north_outer, fst (snd north_outer), snd (snd north_outer))"
proof -
  have "compileMetricExpressionPreAggregated north_column north_metric metric_columns north_time \<noteq> None" by code_simp
  then show ?thesis by (auto simp: north_outer_def)
qed

definition period_total :: "rat \<Rightarrow> row" where "period_total q = (\<lambda>_. SqlNumber q)"

theorem preaggregation_is_exact_witness:
  "eval no_casts (\<lambda>_. SqlNull) (fst north_outer) [period_total 5, period_total 4] (\<lambda>_. SqlNull) =
   eval no_casts (\<lambda>_. SqlNull) north_expression [sale ''north'' 4, sale ''north'' 2, sale ''north'' 3] (\<lambda>_. SqlNull)"
proof -
  let ?groups = "[[sale ''north'' 2, sale ''north'' 3], [sale ''north'' 4]]" and ?rows = "[sale ''north'' 4, sale ''north'' 2, sale ''north'' 3]"
  have "period_rows no_casts (\<lambda>_. SqlNull) (snd (snd north_outer)) ?groups [period_total 5, period_total 4]" by code_simp
  moreover have "usable_inputs no_casts (\<lambda>_. SqlNull) (snd (snd north_outer)) ?rows"
  proof -
    have "list_all (\<lambda>r. list_all (\<lambda>pm. case eval no_casts (\<lambda>_. SqlNull) (pmExpression pm) [] r of Inr (SqlNumber q) \<Rightarrow> True | _ \<Rightarrow> False)
        (snd (snd north_outer))) ?rows" by code_simp
    then show ?thesis unfolding usable_inputs_def list_all_iff
      by (fastforce simp: numeric_value_def split: sum.splits sql_value.splits)
  qed
  moreover have "mcAdditivity north_metric \<noteq> SemiAdditive" by (simp add: north_metric_def)
  ultimately show ?thesis
    using preaggregation_is_exact [OF north_compiled north_outer, where rows = ?rows and groups = ?groups] by auto
qed

text \<open>The exception is real: over no rows a count that keeps missing values is zero, but null when it is aggregated in two stages.\<close>

definition count_metric :: MetricContract where
  "count_metric = north_metric \<lparr> mcNullPolicy := ''PRESERVE'',
     mcMeasures := [amount_measure \<lparr> meAggregation := AggregationCount, meDataType := NumericInteger \<rparr>] \<rparr>"

theorem empty_count_is_lost:
  "map_option (\<lambda>(e, t). eval no_casts (\<lambda>_. SqlNull) e [] (\<lambda>_. SqlNull)) (compileMetricExpression count_metric metric_columns) =
     Some (Inr (SqlNumber 0)) \<and>
   map_option (\<lambda>(e, t, pms). eval no_casts (\<lambda>_. SqlNull) e [] (\<lambda>_. SqlNull))
     (compileMetricExpressionPreAggregated north_column count_metric metric_columns north_time) = Some (Inr SqlNull)"
  by (rule conjI) code_simp+

text \<open>C21: the type check of measures is sound: when the compiler takes the formula of a measure for numeric
  and the document check accepts its expression, the expression has a number or null on every row whose
  numeric columns hold numbers, and so has its sum, average, minimum or maximum; the only failures are a
  division by zero and a conversion that fails. Conversions must be of a column, a constant or a number:
  the check accepts a conversion of anything.\<close>

theorem numeric_measures_are_numeric:
  assumes "measure_input columns m = Some scalar" "meFormulaAST m = Some formula" "plain_casts columns formula"
    "meAggregation m \<in> {AggregationSum, AggregationAverage, AggregationMinimum, AggregationMaximum}"
    "validateExpression nodes params scalar" "\<forall>r \<in> set rows. typed_row columns r" "lawful_cast cast"
  shows "(\<forall>r \<in> set rows. numeric_result (eval cast ps scalar [] r)) \<and>
    numeric_result (eval cast ps (e_aggregate (aggregation_name (meAggregation m)) scalar []) rows row)"
proof -
  obtain fs ms where tr: "translate (row_translator columns) AstMeasure formula 0 = Inr (scalar, fs, ms)"
    "semanticNumericExpression columns formula"
    using assms(1,2,4) by (auto simp: measure_input_def decodeSemanticAST_def split: option.splits if_splits sum.splits prod.splits)
  have "\<forall>r \<in> set rows. numeric_result (eval cast ps scalar [] r)"
    using numeric_formula_value [OF translates_sound [OF tr(1)] tr(2) assms(3,5) _ assms(7)] assms(6) by blast
  with numeric_measure [OF _ assms(4)] show ?thesis by blast
qed

theorem numeric_measures_are_numeric_witness:
  "numeric_result (eval no_casts (\<lambda>_. SqlNull) (e_aggregate ''SUM'' (e_field anchorNodeID ''amount'') []) [sale ''north'' 2] (\<lambda>_. SqlNull))"
proof -
  have "numeric_result (eval no_casts (\<lambda>_. SqlNull) (e_aggregate (aggregation_name (meAggregation amount_measure))
      (e_field anchorNodeID ''amount'') []) [sale ''north'' 2] (\<lambda>_. SqlNull))"
  proof (rule conjunct2 [OF numeric_measures_are_numeric])
    show "measure_input metric_columns amount_measure = Some (e_field anchorNodeID ''amount'')" by code_simp
    show "meFormulaAST amount_measure = Some (field_tree ''amount'')" by (simp add: amount_measure_def)
    show "plain_casts metric_columns (field_tree ''amount'')" by (simp add: plain_casts_def field_tree_def)
    show "meAggregation amount_measure \<in> {AggregationSum, AggregationAverage, AggregationMinimum, AggregationMaximum}"
      by (simp add: amount_measure_def)
    show "validateExpression (Some [anchorNodeID]) (Some []) (e_field anchorNodeID ''amount'')" by code_simp
    show "\<forall>r \<in> set [sale ''north'' 2]. typed_row metric_columns r"
      by (auto simp: typed_row_def metric_columns_def sale_def numeric_value_def numeric_canonical_def)
    show "lawful_cast no_casts" by (simp add: lawful_cast_def no_casts_def numeric_result_def)
  qed
  then show ?thesis by (simp add: amount_measure_def aggregation_name_def)
qed

end
