(* ===== verification/SqlText.thy ===== *)
theory SqlText imports RowAccess RowPolicy begin

text \<open>
  The text a query is compiled to (\<open>querycompiler/compiler.go\<close>): pieces of fixed text, quoted names and
  placeholders. A placeholder is printed with its number or without one, as the dialect wants it; the
  value it stands for is kept beside it and never printed. Compiling is a step on the list of the
  values bound so far, and nothing when the compiler returns an error.
\<close>

section \<open>Dialects\<close>

datatype Dialect = MySQL | Oracle | PostgreSQL | SQLServer | OtherDialect string

definition supportedDialect :: "Dialect \<Rightarrow> bool" where
  "supportedDialect d = (case d of OtherDialect _ \<Rightarrow> False | _ \<Rightarrow> True)"

definition DialectForSourceType :: "string \<Rightarrow> Dialect option" where
  "DialectForSourceType s = (let t = to_upper (trim_space s) in
     if t \<in> set [''MYSQL'', ''MARIADB'', ''CLICKHOUSE''] then Some MySQL else if t = ''POSTGRESQL'' then Some PostgreSQL
     else if t = ''ORACLE'' then Some Oracle else if t = ''SQLSERVER'' then Some SQLServer else None)"

text \<open>Placeholders with a number, and those that are read in the order of the text.\<close>

definition numbered :: "Dialect \<Rightarrow> bool" where "numbered d \<longleftrightarrow> d = Oracle \<or> d = PostgreSQL"

section \<open>Pieces\<close>

datatype piece = Text string | Name string | Hole nat go_value

type_synonym sql = "piece list"

definition quote :: "Dialect \<Rightarrow> string \<Rightarrow> string" where
  "quote d s = (case d of MySQL \<Rightarrow> [CHR 0x60] @ s @ [CHR 0x60] | PostgreSQL \<Rightarrow> [CHR 0x22] @ s @ [CHR 0x22]
     | SQLServer \<Rightarrow> [CHR 0x22] @ s @ [CHR 0x22] | _ \<Rightarrow> [CHR 0x22] @ to_upper s @ [CHR 0x22])"

fun render_piece :: "Dialect \<Rightarrow> piece \<Rightarrow> string" where
  "render_piece d (Text s) = s"
| "render_piece d (Name s) = quote d s"
| "render_piece d (Hole n v) = (if d = Oracle then '':'' @ show_nat n else if d = PostgreSQL then ''$'' @ show_nat n else ''%s'')"

definition render :: "Dialect \<Rightarrow> sql \<Rightarrow> string" where "render d q = concat (map (render_piece d) q)"

fun sql_join :: "string \<Rightarrow> sql list \<Rightarrow> sql" where
  "sql_join sep [] = []"
| "sql_join sep [q] = q"
| "sql_join sep (q # qs) = q @ [Text sep] @ sql_join sep qs"

definition call :: "string \<Rightarrow> sql \<Rightarrow> sql" where "call f q = [Text (f @ ''('')] @ q @ [Text '')'']"

definition parens :: "sql \<Rightarrow> sql" where "parens q = [Text ''(''] @ q @ [Text '')'']"

section \<open>Binding\<close>

type_synonym 'a emit = "go_value list \<Rightarrow> ('a \<times> go_value list) option"

definition emit_return :: "'a \<Rightarrow> 'a emit" where "emit_return x args = Some (x, args)"

definition emit_fail :: "'a emit" where "emit_fail args = None"

definition emit_bind :: "'a emit \<Rightarrow> ('a \<Rightarrow> 'b emit) \<Rightarrow> 'b emit" where
  "emit_bind m f args = (case m args of None \<Rightarrow> None | Some (x, args') \<Rightarrow> f x args')"

definition emit_map :: "('a \<Rightarrow> 'b) \<Rightarrow> 'a emit \<Rightarrow> 'b emit" where "emit_map f m = emit_bind m (\<lambda>x. emit_return (f x))"

fun emit_all :: "'a emit list \<Rightarrow> 'a list emit" where
  "emit_all [] = emit_return []"
| "emit_all (m # ms) = emit_bind m (\<lambda>x. emit_bind (emit_all ms) (\<lambda>xs. emit_return (x # xs)))"

definition emit_option :: "'a option \<Rightarrow> 'a emit" where
  "emit_option x = (case x of None \<Rightarrow> emit_fail | Some y \<Rightarrow> emit_return y)"

definition bind :: "go_value \<Rightarrow> sql emit" where
  "bind v args = Some ([Hole (length args + 1) v], args @ [v])"

definition bindCollection :: "go_value \<Rightarrow> sql emit" where
  "bindCollection v = (case v of VList vs \<Rightarrow> if vs = [] \<or> 1000 < length vs then emit_fail
       else emit_map (sql_join '','') (emit_all (map bind vs)) | _ \<Rightarrow> emit_fail)"

text \<open>Compile with an empty list of values and hand both back; add values; repeat all values \<open>n\<close> times.\<close>

definition emit_nested :: "'a emit \<Rightarrow> ('a \<times> go_value list) emit" where
  "emit_nested m args = (case m [] of None \<Rightarrow> None | Some r \<Rightarrow> Some (r, args))"

definition emit_append :: "go_value list \<Rightarrow> unit emit" where "emit_append vs args = Some ((), args @ vs)"

definition emit_repeat :: "nat \<Rightarrow> unit emit" where "emit_repeat n args = Some ((), concat (replicate n args))"

definition comparison :: "ComparisonType \<Rightarrow> string option" where
  "comparison t = (case t of Equals \<Rightarrow> Some ''='' | NotEquals \<Rightarrow> Some ''<>'' | Gt \<Rightarrow> Some ''>'' | Gte \<Rightarrow> Some ''>=''
     | Lt \<Rightarrow> Some ''<'' | Lte \<Rightarrow> Some ''<='' | Like \<Rightarrow> Some ''LIKE'' | In \<Rightarrow> Some ''IN'' | NotIn \<Rightarrow> Some ''NOT IN'' | _ \<Rightarrow> None)"

text \<open>An operator that a document gives as text.\<close>

definition comparison_of_name :: "string \<Rightarrow> string option" where
  "comparison_of_name s = (case find (\<lambda>t. comparison_name t = s)
     [Equals, NotEquals, Gt, Gte, Lt, Lte, Like, In, NotIn] of None \<Rightarrow> None | Some t \<Rightarrow> comparison t)"

end
