(* ===== verification/QueryExpression.thy ===== *)
theory QueryExpression imports SqlText begin

text \<open>
  Expressions as SQL (\<open>compiler.expression\<close> and the date functions of \<open>querycompiler/compiler.go\<close>): the
  parts of a node are compiled in a fixed order, each value is bound when it is met, and the pieces are
  put together. A part used twice in the text is compiled once.
\<close>

section \<open>The query\<close>

record TableRef =
  trefNodeID :: string
  trefSchema :: string
  trefName :: string
  trefColumns :: "(string \<times> bool) list"
  trefColumnTypes :: "(string \<times> string) list"

definition column_of :: "TableRef \<Rightarrow> string \<Rightarrow> bool" where
  "column_of ref c \<longleftrightarrow> map_of (trefColumns ref) c = Some True"

text \<open>What compiling an expression needs of the query: the dialect, the tables, the columns derived before a join, the parameters, the alias of each node.\<close>

record scope =
  scDialect :: Dialect
  scTables :: "string \<Rightarrow> TableRef option"
  scProduces :: "string \<Rightarrow> string \<Rightarrow> bool"
  scParameters :: "string \<Rightarrow> go_value option"
  scAliases :: "string \<Rightarrow> string"

section \<open>Dates\<close>

definition date_key :: "(string \<times> string) list \<Rightarrow> string \<Rightarrow> string option" where
  "date_key table u = map_of table u"

definition ticked :: "string \<Rightarrow> string" where "ticked s = [CHR 0x27] @ s @ [CHR 0x27]"

definition oracle_truncations :: "(string \<times> string) list" where
  "oracle_truncations = [(''DAY'', ''DD''), (''WEEK'', ''IW''), (''MONTH'', ''MM''), (''QUARTER'', ''Q''), (''YEAR'', ''YYYY'')]"

definition postgres_truncations :: "(string \<times> string) list" where
  "postgres_truncations = [(''DAY'', ''day''), (''WEEK'', ''week''), (''MONTH'', ''month''), (''QUARTER'', ''quarter''), (''YEAR'', ''year'')]"

definition datePartExpression :: "Dialect \<Rightarrow> string \<Rightarrow> sql \<Rightarrow> sql option" where
  "datePartExpression d u a = (case d of
       Oracle \<Rightarrow>
         if u \<in> set [''YEAR'', ''MONTH'', ''DAY''] then Some ([Text (''EXTRACT('' @ u @ '' FROM '')] @ a @ [Text '')''])
         else if u = ''QUARTER'' then Some ([Text ''TO_NUMBER(TO_CHAR(''] @ a @ [Text ('', '' @ ticked ''Q'' @ ''))'')])
         else if u = ''WEEK'' then Some ([Text ''TO_NUMBER(TO_CHAR(''] @ a @ [Text ('', '' @ ticked ''IW'' @ ''))'')])
         else if u = ''WEEKDAY'' then Some ([Text ''(TRUNC(''] @ a @ [Text '') - TRUNC(''] @ a @ [Text ('', '' @ ticked ''IW'' @ '') + 1)'')])
         else if u = ''DAY_OF_YEAR'' then Some ([Text ''TO_NUMBER(TO_CHAR(''] @ a @ [Text ('', '' @ ticked ''DDD'' @ ''))'')])
         else None
     | PostgreSQL \<Rightarrow> map_option (\<lambda>p. [Text (''EXTRACT('' @ p @ '' FROM '')] @ a @ [Text '')''])
         (date_key [(''YEAR'', ''YEAR''), (''QUARTER'', ''QUARTER''), (''MONTH'', ''MONTH''), (''WEEK'', ''WEEK''), (''DAY'', ''DAY''),
            (''WEEKDAY'', ''ISODOW''), (''DAY_OF_YEAR'', ''DOY'')] u)
     | _ \<Rightarrow> (case date_key [(''YEAR'', ''YEAR''), (''QUARTER'', ''QUARTER''), (''MONTH'', ''MONTH''), (''DAY'', ''DAY''),
            (''DAY_OF_YEAR'', ''DAYOFYEAR'')] u of Some f \<Rightarrow> Some (call f a)
         | None \<Rightarrow> if u = ''WEEK'' then Some ([Text ''WEEK(''] @ a @ [Text '', 3)''])
             else if u = ''WEEKDAY'' then Some ([Text ''(WEEKDAY(''] @ a @ [Text '') + 1)'']) else None))"

definition dateBoundaryStartExpression :: "Dialect \<Rightarrow> string \<Rightarrow> sql \<Rightarrow> sql option" where
  "dateBoundaryStartExpression d u a = (case d of
       Oracle \<Rightarrow> map_option (\<lambda>p. [Text ''TRUNC(''] @ a @ [Text ('', '' @ ticked p @ '')'')])
         (date_key [(''WEEK'', ''IW''), (''MONTH'', ''MM''), (''QUARTER'', ''Q''), (''YEAR'', ''YYYY'')] u)
     | PostgreSQL \<Rightarrow> map_option (\<lambda>p. [Text (''CAST(DATE_TRUNC('' @ ticked p @ '', '')] @ a @ [Text '') AS DATE)''])
         (date_key [(''WEEK'', ''week''), (''MONTH'', ''month''), (''QUARTER'', ''quarter''), (''YEAR'', ''year'')] u)
     | _ \<Rightarrow>
         if u = ''WEEK'' then Some ([Text ''DATE_SUB(DATE(''] @ a @ [Text ''), INTERVAL WEEKDAY(''] @ a @ [Text '') DAY)''])
         else if u = ''MONTH'' then Some ([Text ''DATE_SUB(DATE(''] @ a @ [Text ''), INTERVAL (DAYOFMONTH(''] @ a @ [Text '') - 1) DAY)''])
         else if u = ''QUARTER'' then Some ([Text ''DATE_ADD(MAKEDATE(YEAR(''] @ a @ [Text ''), 1), INTERVAL ((QUARTER(''] @ a @ [Text '') - 1) * 3) MONTH)''])
         else if u = ''YEAR'' then Some ([Text ''MAKEDATE(YEAR(''] @ a @ [Text ''), 1)'']) else None)"

definition dateBoundaryEndExpression :: "Dialect \<Rightarrow> string \<Rightarrow> sql \<Rightarrow> sql option" where
  "dateBoundaryEndExpression d u a = (case d of
       Oracle \<Rightarrow>
         if u = ''WEEK'' then Some ([Text ''(TRUNC(''] @ a @ [Text ('', '' @ ticked ''IW'' @ '') + 6)'')])
         else if u = ''MONTH'' then Some ([Text ''(ADD_MONTHS(TRUNC(''] @ a @ [Text ('', '' @ ticked ''MM'' @ ''), 1) - 1)'')])
         else if u = ''QUARTER'' then Some ([Text ''(ADD_MONTHS(TRUNC(''] @ a @ [Text ('', '' @ ticked ''Q'' @ ''), 3) - 1)'')])
         else if u = ''YEAR'' then Some ([Text ''(ADD_MONTHS(TRUNC(''] @ a @ [Text ('', '' @ ticked ''YYYY'' @ ''), 12) - 1)'')])
         else None
     | PostgreSQL \<Rightarrow> map_option (\<lambda>(p, i). [Text (''CAST(DATE_TRUNC('' @ ticked p @ '', '')] @ a @
           [Text ('') + INTERVAL '' @ ticked i @ '' - INTERVAL '' @ ticked ''1 day'' @ '' AS DATE)'')])
         (map_of [(''WEEK'', (''week'', ''1 week'')), (''MONTH'', (''month'', ''1 month'')), (''QUARTER'', (''quarter'', ''3 months'')),
            (''YEAR'', (''year'', ''1 year''))] u)
     | _ \<Rightarrow>
         if u = ''WEEK'' then Some ([Text ''DATE_ADD(DATE_SUB(DATE(''] @ a @ [Text ''), INTERVAL WEEKDAY(''] @ a @ [Text '') DAY), INTERVAL 6 DAY)''])
         else if u = ''MONTH'' then Some (call ''LAST_DAY'' a)
         else if u = ''QUARTER'' then Some ([Text ''LAST_DAY(DATE_ADD(MAKEDATE(YEAR(''] @ a @ [Text ''), 1), INTERVAL (QUARTER(''] @ a @
           [Text '') * 3 - 1) MONTH))''])
         else if u = ''YEAR'' then Some ([Text ''DATE(CONCAT(YEAR(''] @ a @ [Text (''), '' @ ticked ''-12-31'' @ ''))'')]) else None)"

definition date_trunc_sql :: "Dialect \<Rightarrow> string \<Rightarrow> sql \<Rightarrow> sql option" where
  "date_trunc_sql d u a = (case d of
       Oracle \<Rightarrow> Some ([Text ''TRUNC(''] @ a @ [Text ('', '' @ ticked (case date_key oracle_truncations u of None \<Rightarrow> [] | Some f \<Rightarrow> f) @ '')'')])
     | PostgreSQL \<Rightarrow> map_option (\<lambda>p. [Text (''DATE_TRUNC('' @ ticked p @ '', '')] @ a @ [Text '')'']) (date_key postgres_truncations u)
     | _ \<Rightarrow>
         if u = ''QUARTER'' then Some ([Text ''STR_TO_DATE(CONCAT(YEAR(''] @ a @ [Text (''),'' @ ticked ''-'' @ '',LPAD((QUARTER('')] @ a @
           [Text (''-1)*3+1,2,'' @ ticked ''0'' @ ''),'' @ ticked ''-01'' @ ''),'' @ ticked ''%%Y-%%m-%%d'' @ '')'')])
         else map_option (\<lambda>f. [Text ''DATE_FORMAT(''] @ a @ [Text ('', '' @ ticked f @ '')'')])
           (date_key [(''DAY'', ''%%Y-%%m-%%d''), (''WEEK'', ''%%x-%%v''), (''MONTH'', ''%%Y-%%m-01''), (''YEAR'', ''%%Y-01-01'')] u))"

definition date_format_sql :: "Dialect \<Rightarrow> string \<Rightarrow> sql \<Rightarrow> sql option" where
  "date_format_sql d u a =
     (if d = Oracle \<or> d = PostgreSQL then
        (case date_key [(''YEAR'', ''YYYY''), (''MONTH'', ''YYYYMM''), (''DAY'', ''YYYYMMDD'')] u of
           Some f \<Rightarrow> Some ([Text ''TO_CHAR(''] @ a @ [Text ('', '' @ ticked f @ '')'')])
         | None \<Rightarrow> if u = ''QUARTER'' then Some ([Text ''TO_CHAR(''] @ a @ [Text ('', '' @ ticked ''YYYY'' @ '') || '' @ ticked ''Q'' @ '' || TO_CHAR('')] @
             a @ [Text ('', '' @ ticked ''Q'' @ '')'')]) else None)
      else (case date_key [(''YEAR'', ''%%Y''), (''MONTH'', ''%%Y%%m''), (''DAY'', ''%%Y%%m%%d'')] u of
           Some f \<Rightarrow> Some ([Text ''DATE_FORMAT(''] @ a @ [Text ('', '' @ ticked f @ '')'')])
         | None \<Rightarrow> if u = ''QUARTER'' then Some ([Text ''CONCAT(DATE_FORMAT(''] @ a @ [Text ('', '' @ ticked ''%%Y'' @ ''), '' @ ticked ''Q'' @ '', QUARTER('')] @
             a @ [Text ''))'']) else None))"

definition current_date_sql :: "Dialect \<Rightarrow> sql" where
  "current_date_sql d = [Text (if d = Oracle then ''TRUNC(CURRENT_DATE)'' else if d = PostgreSQL then ''CURRENT_DATE'' else ''CURRENT_DATE()'')]"

text \<open>The difference of two dates; a month counts from the first of the month.\<close>

definition date_diff_sql :: "Dialect \<Rightarrow> string \<Rightarrow> sql \<Rightarrow> sql \<Rightarrow> sql option" where
  "date_diff_sql d u s e =
     (if u = ''DAY'' then Some (case d of
          Oracle \<Rightarrow> [Text ''(TRUNC(''] @ e @ [Text '') - TRUNC(''] @ s @ [Text ''))'']
        | PostgreSQL \<Rightarrow> [Text ''(CAST(''] @ e @ [Text '' AS DATE) - CAST(''] @ s @ [Text '' AS DATE))'']
        | _ \<Rightarrow> [Text ''DATEDIFF(''] @ e @ [Text '', ''] @ s @ [Text '')''])
      else Option.bind (datePartExpression d ''YEAR'' s) (\<lambda>sy. Option.bind (datePartExpression d ''YEAR'' e) (\<lambda>ey.
        if u = ''YEAR'' then Some ([Text ''((''] @ ey @ [Text '') - (''] @ sy @ [Text ''))''])
        else if u \<noteq> ''MONTH'' then None
        else Option.bind (datePartExpression d ''MONTH'' s) (\<lambda>sm. Option.bind (datePartExpression d ''MONTH'' e) (\<lambda>em.
          Some ([Text ''(((''] @ ey @ [Text '') - (''] @ sy @ [Text '')) * 12 + ((''] @ em @ [Text '') - (''] @ sm @ [Text '')))'']))))))"

section \<open>Nodes\<close>

definition cast_type :: "Dialect \<Rightarrow> string \<Rightarrow> string option" where
  "cast_type d t = (case d of
       MySQL \<Rightarrow> map_of [(''STRING'', ''CHAR''), (''INTEGER'', ''SIGNED''), (''DECIMAL'', ''DECIMAL(38,10)''), (''BOOLEAN'', ''UNSIGNED''),
         (''DATE'', ''DATE''), (''DATETIME'', ''DATETIME'')] t
     | Oracle \<Rightarrow> map_of [(''STRING'', ''VARCHAR2(4000)''), (''INTEGER'', ''NUMBER(38)''), (''DECIMAL'', ''NUMBER''), (''BOOLEAN'', ''NUMBER(1)''),
         (''DATE'', ''DATE''), (''DATETIME'', ''TIMESTAMP'')] t
     | PostgreSQL \<Rightarrow> map_of [(''STRING'', ''TEXT''), (''INTEGER'', ''BIGINT''), (''DECIMAL'', ''NUMERIC(38,10)''), (''BOOLEAN'', ''BOOLEAN''),
         (''DATE'', ''DATE''), (''DATETIME'', ''TIMESTAMP'')] t
     | _ \<Rightarrow> None)"

definition field_sql :: "scope \<Rightarrow> string \<Rightarrow> string \<Rightarrow> sql emit" where
  "field_sql sc n f = (case scTables sc n of None \<Rightarrow> emit_fail
     | Some ref \<Rightarrow> if \<not> column_of ref f \<and> \<not> scProduces sc n f then emit_fail
         else emit_return [Name (scAliases sc n), Text ''.'', Name f])"

definition param_sql :: "scope \<Rightarrow> string \<Rightarrow> sql emit" where
  "param_sql sc c = (case scParameters sc c of None \<Rightarrow> emit_fail | Some v \<Rightarrow> bind v)"

definition required_part :: "sql emit option \<Rightarrow> sql emit" where
  "required_part p = (case p of None \<Rightarrow> emit_fail | Some m \<Rightarrow> m)"

definition two_parts :: "sql emit list \<Rightarrow> (sql \<Rightarrow> sql \<Rightarrow> sql option) \<Rightarrow> sql emit" where
  "two_parts ms f = (case ms of [x, y] \<Rightarrow> emit_bind x (\<lambda>a. emit_bind y (\<lambda>b. emit_option (f a b))) | _ \<Rightarrow> emit_fail)"

definition aggregate_sql :: "Dialect \<Rightarrow> string \<Rightarrow> sql emit option \<Rightarrow> (sql emit \<times> string) list \<Rightarrow> sql emit" where
  "aggregate_sql d fn arg ob = emit_bind (case arg of None \<Rightarrow> emit_return [Text ''*''] | Some m \<Rightarrow> m) (\<lambda>a.
     if fn = ''COUNT_DISTINCT'' then emit_return ([Text ''COUNT(DISTINCT ''] @ a @ [Text '')''])
     else if fn = ''PERIOD_END'' \<or> fn = ''PERIOD_BEGIN'' then
       (if d \<noteq> PostgreSQL then emit_fail else (case ob of
          [(o1, direction)] \<Rightarrow> emit_bind o1 (\<lambda>q.
            if direction \<noteq> (if fn = ''PERIOD_END'' then ''DESC'' else ''ASC'') then emit_fail
            else emit_return ([Text ''(ARRAY_AGG(''] @ a @ [Text '' ORDER BY ''] @ q @ [Text ('' '' @ direction @ '' NULLS LAST))[1]'')]))
        | _ \<Rightarrow> emit_fail))
     else if fn \<in> set [''SUM'', ''AVG'', ''MIN'', ''MAX'', ''COUNT''] then emit_return (call fn a) else emit_fail)"

text \<open>The partitions and the order are compiled before the argument, which stands first in the text.\<close>

definition window_order :: "sql emit \<times> string \<Rightarrow> sql emit" where
  "window_order p = emit_bind (fst p) (\<lambda>q. if snd p \<notin> set [''ASC'', ''DESC''] then emit_fail else emit_return (q @ [Text ('' '' @ snd p)]))"

definition window_sql :: "string \<Rightarrow> sql emit option \<Rightarrow> sql emit list \<Rightarrow> (sql emit \<times> string) list \<Rightarrow> sql emit" where
  "window_sql fn arg pb ob =
     (if fn \<notin> set window_functions \<or> pb = [] \<or> ob = [] then emit_fail
      else emit_bind (emit_all pb) (\<lambda>ps. emit_bind (emit_all (map window_order ob)) (\<lambda>os.
        let over = (\<lambda>c frame. c @ [Text '' OVER (PARTITION BY ''] @ sql_join '', '' ps @ [Text '' ORDER BY ''] @ sql_join '', '' os @ [Text (frame @ '')'')]) in
        if fn \<in> set [''SUM'', ''AVG'', ''COUNT'', ''MIN'', ''MAX''] then emit_bind (required_part arg) (\<lambda>a.
          emit_return (over (call fn a) '' ROWS BETWEEN UNBOUNDED PRECEDING AND UNBOUNDED FOLLOWING''))
        else emit_return (over [Text (fn @ ''()'')] []))))"

definition date_sql :: "Dialect \<Rightarrow> DateType \<Rightarrow> string \<Rightarrow> sql emit option \<Rightarrow> sql emit list \<Rightarrow> sql emit" where
  "date_sql d t u arg args = (case t of
       CurrentDate \<Rightarrow> emit_return (current_date_sql d)
     | Diff \<Rightarrow> two_parts args (date_diff_sql d u)
     | Extract \<Rightarrow> emit_bind (required_part arg) (\<lambda>a. emit_option (datePartExpression d u a))
     | Start \<Rightarrow> emit_bind (required_part arg) (\<lambda>a. emit_option (dateBoundaryStartExpression d u a))
     | End \<Rightarrow> emit_bind (required_part arg) (\<lambda>a. emit_option (dateBoundaryEndExpression d u a))
     | Trunc \<Rightarrow> emit_bind (required_part arg) (\<lambda>a. emit_option (date_trunc_sql d u a))
     | Format \<Rightarrow> emit_bind (required_part arg) (\<lambda>a. emit_option (date_format_sql d u a)))"

text \<open>A compiled part keeps the expression and the compiled arguments, which \<open>IN\<close> looks into.\<close>

type_synonym compiled_part = "DatasetExpression \<times> sql emit list \<times> sql emit"

definition in_values :: "scope \<Rightarrow> compiled_part \<Rightarrow> sql emit" where
  "in_values sc r = (case r of (e, args, _) \<Rightarrow> (case deType e of
       TyArray \<Rightarrow> if args = [] then emit_fail else emit_map (sql_join '','') (emit_all args)
     | TyParamRef \<Rightarrow> (case scParameters sc (deCode e) of None \<Rightarrow> emit_fail | Some v \<Rightarrow> bindCollection v)
     | TyLiteral \<Rightarrow> bindCollection (deValue e)
     | _ \<Rightarrow> emit_fail))"

definition comparison_sql :: "scope \<Rightarrow> ComparisonType \<Rightarrow> sql emit option \<Rightarrow> compiled_part option \<Rightarrow> sql emit" where
  "comparison_sql sc t l r = (case l of None \<Rightarrow> emit_fail | Some left \<Rightarrow> (case r of None \<Rightarrow> emit_fail | Some right \<Rightarrow>
     emit_bind left (\<lambda>a.
       if t = In \<or> t = NotIn then emit_map (\<lambda>vs. [Text ''(''] @ a @ [Text ('' '' @ the (comparison t) @ '' ('')] @ vs @ [Text ''))'']) (in_values sc right)
       else emit_bind (snd (snd right)) (\<lambda>b.
         if t = Contains \<or> t = NotContains then emit_return
           ([Text (''('' @ (if scDialect sc = PostgreSQL then ''STRPOS('' else ''INSTR(''))] @ a @ [Text '',''] @ b @
            [Text (if t = Contains then '') > 0)'' else '') = 0)'')])
         else emit_option (map_option (\<lambda>op. [Text ''(''] @ a @ [Text ('' '' @ op @ '' '')] @ b @ [Text '')'']) (comparison t))))))"

definition case_branch :: "sql emit \<times> sql emit \<Rightarrow> sql emit" where
  "case_branch p = emit_bind (fst p) (\<lambda>w. emit_map (\<lambda>t. [Text ''WHEN ''] @ w @ [Text '' THEN ''] @ t) (snd p))"

definition case_sql :: "(sql emit \<times> sql emit) list \<Rightarrow> sql emit option \<Rightarrow> sql emit" where
  "case_sql whens els = emit_bind (emit_all (map case_branch whens)) (\<lambda>ws.
     emit_bind (case els of None \<Rightarrow> emit_return [] | Some m \<Rightarrow> emit_map (\<lambda>q. [[Text ''ELSE ''] @ q]) m) (\<lambda>es.
       emit_return ([Text ''(CASE ''] @ sql_join '' '' (ws @ es) @ [Text '' END)''])))"

definition operator_sql :: "ArithmeticType \<Rightarrow> string" where
  "operator_sql t = (case t of Add \<Rightarrow> '' + '' | Subtract \<Rightarrow> '' - '' | Multiply \<Rightarrow> '' * '' | Divide \<Rightarrow> '' / '')"

definition test_sql :: "TestType \<Rightarrow> sql \<Rightarrow> sql" where
  "test_sql t a = (case t of Negation \<Rightarrow> [Text ''(NOT ''] @ a @ [Text '')''] | IsNull \<Rightarrow> [Text ''(''] @ a @ [Text '' IS NULL)'']
     | IsNotNull \<Rightarrow> [Text ''(''] @ a @ [Text '' IS NOT NULL)''])"

definition node_sql ::
  "scope \<Rightarrow> NodeType \<Rightarrow> string \<Rightarrow> string \<Rightarrow> string \<Rightarrow> string \<Rightarrow> string \<Rightarrow> string \<Rightarrow> go_value \<Rightarrow>
   sql emit option \<Rightarrow> sql emit list \<Rightarrow> sql emit option \<Rightarrow> compiled_part option \<Rightarrow> sql emit option \<Rightarrow> sql emit option \<Rightarrow>
   (sql emit \<times> sql emit) list \<Rightarrow> sql emit option \<Rightarrow> sql emit list \<Rightarrow> (sql emit \<times> string) list \<Rightarrow> sql emit" where
  "node_sql sc ty n f c fn u tt v arg args l r lo up whens els pb ob = (case ty of
       TyFieldRef \<Rightarrow> field_sql sc n f
     | TyParamRef \<Rightarrow> param_sql sc c
     | TyLiteral \<Rightarrow> bind v
     | TyAggregate \<Rightarrow> aggregate_sql (scDialect sc) fn arg ob
     | TyNullif \<Rightarrow> two_parts args (\<lambda>a b. Some ([Text ''NULLIF(''] @ a @ [Text '',''] @ b @ [Text '')'']))
     | TyWindow \<Rightarrow> window_sql fn arg pb ob
     | TyDate t \<Rightarrow> date_sql (scDialect sc) t u arg args
     | TyCast \<Rightarrow> emit_bind (required_part arg) (\<lambda>a. emit_option
         (map_option (\<lambda>t. [Text ''CAST(''] @ a @ [Text ('' AS '' @ t @ '')'')]) (cast_type (scDialect sc) tt)))
     | TyArithmetic t \<Rightarrow> if length args < 2 then emit_fail else emit_map (\<lambda>ps. parens (sql_join (operator_sql t) ps)) (emit_all args)
     | TyFunction t \<Rightarrow> emit_map (call (function_name t)) (required_part arg)
     | TyRound \<Rightarrow> if length args \<noteq> 2 then emit_fail else emit_map (\<lambda>ps. call ''ROUND'' (sql_join '','' ps)) (emit_all args)
     | TyCoalesce \<Rightarrow> emit_map (\<lambda>ps. call ''COALESCE'' (sql_join '','' ps)) (emit_all args)
     | TyConcat \<Rightarrow> emit_map (\<lambda>ps. if scDialect sc = MySQL then call ''CONCAT'' (sql_join '','' ps) else parens (sql_join '' || '' ps)) (emit_all args)
     | TySubstring \<Rightarrow> if length args \<noteq> 3 then emit_fail
         else emit_map (\<lambda>ps. call (if scDialect sc = Oracle then ''SUBSTR'' else ''SUBSTRING'') (sql_join '','' ps)) (emit_all args)
     | TyReplace \<Rightarrow> if length args \<noteq> 3 then emit_fail else emit_map (\<lambda>ps. call ''REPLACE'' (sql_join '','' ps)) (emit_all args)
     | TyComparison t \<Rightarrow> comparison_sql sc t l r
     | TyBetween \<Rightarrow> emit_bind (required_part l) (\<lambda>a. emit_bind (required_part lo) (\<lambda>b. emit_bind (required_part up) (\<lambda>c.
         emit_return ([Text ''(''] @ a @ [Text '' BETWEEN ''] @ b @ [Text '' AND ''] @ c @ [Text '')'']))))
     | TyTest t \<Rightarrow> emit_map (test_sql t) (required_part arg)
     | TyAnd \<Rightarrow> if length args < 2 then emit_fail else emit_map (\<lambda>ps. parens (sql_join '' AND '' ps)) (emit_all args)
     | TyOr \<Rightarrow> if length args < 2 then emit_fail else emit_map (\<lambda>ps. parens (sql_join '' OR '' ps)) (emit_all args)
     | TyCase \<Rightarrow> case_sql whens els
     | _ \<Rightarrow> emit_fail)"

primrec compile_part :: "scope \<Rightarrow> DatasetExpression \<Rightarrow> compiled_part" where
  "compile_part sc (DatasetExpression ty n f c fn u tt v arg args l r lo up whens els pb ob) =
     (DatasetExpression ty n f c fn u tt v arg args l r lo up whens els pb ob,
      map (\<lambda>p. snd (snd p)) (map (compile_part sc) args),
      node_sql sc ty n f c fn u tt v (map_option (\<lambda>p. snd (snd p)) (map_option (compile_part sc) arg))
        (map (\<lambda>p. snd (snd p)) (map (compile_part sc) args)) (map_option (\<lambda>p. snd (snd p)) (map_option (compile_part sc) l))
        (map_option (compile_part sc) r) (map_option (\<lambda>p. snd (snd p)) (map_option (compile_part sc) lo))
        (map_option (\<lambda>p. snd (snd p)) (map_option (compile_part sc) up))
        (map (\<lambda>(w, t). (snd (snd w), snd (snd t))) (map (map_prod (compile_part sc) (compile_part sc)) whens))
        (map_option (\<lambda>p. snd (snd p)) (map_option (compile_part sc) els))
        (map (\<lambda>p. snd (snd p)) (map (compile_part sc) pb))
        (map (\<lambda>(p, direction). (snd (snd p), direction)) (map (map_prod (compile_part sc) id) ob)))"

declare compile_part.simps [simp del]

definition expression :: "scope \<Rightarrow> DatasetExpression \<Rightarrow> sql emit" where "expression sc e = snd (snd (compile_part sc e))"

end
