(* ===== verification/DatasetDocument.thy ===== *)
theory DatasetDocument imports RowAccess Json begin

text \<open>
  The dataset document (\<open>internal/dataset/model.go\<close>): its types, and what \<open>dsl.go\<close> reads off a document, its
  lineage, whether it aggregates, and the layer a document without one belongs to. Text is a list of
  bytes; an optional part is an option.
\<close>

section \<open>Types\<close>

datatype Layer = LayerODS | LayerDIM | LayerDWD | LayerDWS | LayerADS | OtherLayer string

datatype Lineage = LineageSource | LineageModeled

datatype GroupByMode = GroupByModeStandard | GroupByModeCube | GroupByModeRollup | GroupByModeSets | OtherGroupByMode string

record OutputGrain =
  ogDescription :: string
  ogKeyFields :: "string list"
  ogTimeField :: string
  ogDefaultTimeGrain :: string

record Descriptor =
  dcCode :: string
  dcName :: string
  dcDescription :: string
  dcDomain :: string
  dcSubject :: string
  dcType :: string
  dcLayer :: Layer
  dcSourceMode :: string
  dcSemanticContractVersion :: string
  dcConsumerContractID :: string
  dcGrain :: "OutputGrain option"

record DatasetNode =
  ndID :: string
  ndType :: string
  ndDataSourceID :: string
  ndTableID :: string
  ndDatasetVersionID :: string
  ndFileVersionID :: string
  ndAlias :: string
  ndProjection :: "string list"
  ndSourceFilters :: "SourceFilter list"

record JoinCondition =
  jcLeftExpression :: DatasetExpression
  jcOperator :: string
  jcRightExpression :: DatasetExpression

text \<open>The contracts of a bridge and of validity in time are only decoded, to be dropped.\<close>

record BridgeContract =
  bcBridgeNodeID :: string
  bcRelationshipTypeField :: string
  bcAllocationWeightField :: string
  bcPrimaryFlagField :: string
  bcValidFromField :: string
  bcValidToField :: string

record TemporalJoinContract =
  tcEventNodeID :: string
  tcEventTimeField :: string
  tcValidityNodeID :: string
  tcValidFromField :: string
  tcValidToField :: string
  tcValidToInclusive :: bool

record DatasetJoin =
  djID :: string
  djLeftNodeID :: string
  djRightNodeID :: string
  djJoinType :: string
  djCardinality :: string
  djRelationshipType :: string
  djRelationshipRole :: string
  djFanoutPolicy :: string
  djBridge :: "BridgeContract option"
  djTemporal :: "TemporalJoinContract option"
  djConditions :: "JoinCondition list"
  djManualConfirmed :: bool

record PreAggregationGroup =
  pagField :: string
  pagUnit :: string
  pagExpression :: "DatasetExpression option"

record PreAggregationMetric =
  pamField :: string
  pamFunction :: string
  pamCountRows :: bool
  pamExpression :: "DatasetExpression option"

record PreAggregation =
  paID :: string
  paNodeID :: string
  paJoinID :: string
  paJoinSide :: string
  paGroupBy :: "PreAggregationGroup list"
  paGroupByMode :: GroupByMode
  paGroupingSets :: "string list list"
  paMetrics :: "PreAggregationMetric list"

record AtomicMeasureContract =
  amField :: string
  amAdditivity :: string
  amValueBehavior :: string
  amDefaultAggregation :: string
  amTimeAggregation :: string
  amUnit :: string
  amCurrency :: string
  amNullPolicy :: string

record FactContract =
  faBusinessAction :: string
  faGrainKeyFields :: "string list"
  faEventTimeField :: string
  faAtomicMeasures :: "AtomicMeasureContract list"

record AnalysisMeasureContract =
  nmField :: string
  nmSourceNodeIDs :: "string list"
  nmAggregation :: string
  nmAdditivity :: string
  nmValueBehavior :: string
  nmTimeAggregation :: string
  nmUnit :: string
  nmCurrency :: string

record AnalysisContract =
  anIntent :: string
  anInputMode :: string
  anCommonGrainFields :: "string list"
  anConformedDimensions :: "string list"
  anTimeField :: string
  anTimeGrain :: string
  anMeasures :: "AnalysisMeasureContract list"

record TransformOutput =
  toID :: string
  toName :: string
  toCode :: string
  toCanonicalType :: string

record TransformRule =
  trlID :: string
  trlOperation :: string
  trlInputKeys :: "string list"
  trlOutput :: TransformOutput
  trlExpression :: DatasetExpression
  trlReplaceSourceKey :: string

record Transform =
  tfID :: string
  tfName :: string
  tfFamily :: string
  tfComponentType :: string
  tfInputKind :: string
  tfInputID :: string
  tfRules :: "TransformRule list"

record DatasetField =
  dfID :: string
  dfCode :: string
  dfName :: string
  dfDescription :: string
  dfRole :: string
  dfExpression :: DatasetExpression
  dfCanonicalType :: string
  dfSemanticType :: string
  dfSensitivityLevel :: string
  dfAggregation :: string
  dfFormat :: string
  dfUnit :: string
  dfNullable :: bool
  dfVisible :: "bool option"

record DatasetFilter =
  dflID :: string
  dflStage :: string
  dflOptional :: bool
  dflExpression :: DatasetExpression

record DatasetSort =
  dsFieldID :: string
  dsDirection :: string
  dsNulls :: string

record DatasetParameter =
  dpCode :: string
  dpName :: string
  dpDataType :: string
  dpMultiValue :: bool
  dpRequired :: bool
  dpDefaultValue :: go_value

record MaterializationPolicy =
  mpEnabled :: bool
  mpRefreshMode :: string
  mpCron :: string

record ExecutionPolicy =
  xpMode :: string
  xpTimeoutMS :: int
  xpPreviewLimit :: int
  xpResultLimit :: int
  xpCacheTTLSeconds :: int
  xpMaterialization :: MaterializationPolicy

record Document =
  doDSLVersion :: string
  doDataset :: Descriptor
  doNodes :: "DatasetNode list"
  doJoins :: "DatasetJoin list"
  doTransforms :: "Transform list"
  doPreAggregations :: "PreAggregation list"
  doFactContract :: "FactContract option"
  doAnalysisContract :: "AnalysisContract option"
  doFields :: "DatasetField list"
  doDistinct :: bool
  doFilters :: "DatasetFilter list"
  doGroupBy :: "string list"
  doGroupByMode :: GroupByMode
  doGroupingSets :: "string list list"
  doHaving :: "DatasetFilter list"
  doSorts :: "DatasetSort list"
  doParameters :: "DatasetParameter list"
  doOutputGrain :: OutputGrain
  doExecutionPolicy :: ExecutionPolicy
  doDesigner :: "(string \<times> json) list option"
  doLayerInferred :: bool
  doLayerSpecified :: bool
  doInferredLayer :: Layer
  doSourcePreview :: bool
  doRuntimeRollup :: bool

section \<open>Lineage, aggregation and layer\<close>

text \<open>What is valid of an enumeration that is open in the code.\<close>

definition layer_valid :: "Layer \<Rightarrow> bool" where
  "layer_valid l \<longleftrightarrow> l \<in> set [LayerODS, LayerDIM, LayerDWD, LayerDWS, LayerADS]"

definition lineage :: "Document \<Rightarrow> Lineage" where
  "lineage doc = (if length (doNodes doc) = 1 \<and> ndType (hd (doNodes doc)) = ''TABLE'' \<and> doJoins doc = []
     then LineageSource else LineageModeled)"

definition IsSourceBackedMaterialization :: "Document \<Rightarrow> bool" where
  "IsSourceBackedMaterialization doc \<longleftrightarrow> lineage doc = LineageSource"

definition EnableSourceBackedMaterialization :: "Document \<Rightarrow> Document option" where
  "EnableSourceBackedMaterialization doc = (if \<not> IsSourceBackedMaterialization doc then None
     else Some (doc\<lparr> doExecutionPolicy := (doExecutionPolicy doc)\<lparr> xpMode := ''MATERIALIZED_PREFERRED'',
       xpMaterialization := (xpMaterialization (doExecutionPolicy doc))\<lparr> mpEnabled := True, mpRefreshMode := ''ON_DEMAND'' \<rparr> \<rparr> \<rparr>))"

definition AsSourcePreviewExecution :: "Document \<Rightarrow> Document" where
  "AsSourcePreviewExecution doc = doc\<lparr> doSourcePreview := True \<rparr>"

definition documentHasMeasureField :: "Document \<Rightarrow> bool" where
  "documentHasMeasureField doc \<longleftrightarrow> list_ex (\<lambda>f. dfRole f = ''MEASURE'') (doFields doc)"

definition documentHasBusinessAggregation :: "Document \<Rightarrow> bool" where
  "documentHasBusinessAggregation doc \<longleftrightarrow> list_ex (\<lambda>p. paMetrics p \<noteq> []) (doPreAggregations doc) \<or>
     list_ex (\<lambda>f. list_ex (\<lambda>e. deType e = TyAggregate) (subexpressions (dfExpression f))) (doFields doc)"

definition documentHasGroupingOrAggregation :: "Document \<Rightarrow> bool" where
  "documentHasGroupingOrAggregation doc \<longleftrightarrow> doGroupBy doc \<noteq> [] \<or> doHaving doc \<noteq> [] \<or> doPreAggregations doc \<noteq> [] \<or>
     documentHasBusinessAggregation doc"

definition InferLayer :: "Document \<Rightarrow> Layer" where
  "InferLayer doc = (if documentHasGroupingOrAggregation doc then LayerDWS
     else if length (doNodes doc) = 1 \<and> ndType (hd (doNodes doc)) = ''TABLE'' \<and> doJoins doc = [] then LayerODS
     else LayerDWD)"

definition joinCardinalityForType :: "string \<Rightarrow> string" where
  "joinCardinalityForType t = (if t = ''INNER'' then ''ONE_TO_ONE'' else if t = ''RIGHT'' then ''ONE_TO_MANY''
     else if t = ''FULL'' then ''MANY_TO_MANY'' else ''MANY_TO_ONE'')"

end
