(* ===== verification/QueryDocument.thy ===== *)
theory QueryDocument imports QueryExpression DatasetDocument begin

text \<open>
  What the query compiler is given beside a dataset document (\<open>Input\<close> of \<open>querycompiler/compiler.go\<close>), the normalisation of parameter values, and the checks of
  physical names. A map of the code is a list of entries with different keys.
\<close>

section \<open>Input\<close>

datatype LimitKind = LimitPreview | LimitResult | OtherLimit string

record Input =
  inDocument :: Document
  inDialect :: Dialect
  inTables :: "(string \<times> TableRef) list"
  inParameters :: "(string \<times> go_value) list"
  inAttributes :: "string \<Rightarrow> go_value option"
  inRowPolicies :: "go_value RowPolicy list"
  inColumnPolicies :: "ColumnPolicy list"
  inMaxRows :: int
  inLimitKind :: LimitKind

section \<open>Parameter values\<close>

text \<open>
  \<open>strconv.ParseInt\<close> in base 10 and \<open>strconv.ParseBool\<close>. What of the standard library reads a float and
  a time is an argument: whether \<open>ParseFloat\<close> accepts a text, and how \<open>time.Parse\<close> and \<open>Format\<close> give a
  date and a date with a time back.
\<close>

record parsers =
  parseFloat :: "string \<Rightarrow> bool"
  formatDate :: "string \<Rightarrow> string option"
  formatDateTime :: "string \<Rightarrow> string option"

definition digits_value :: "string \<Rightarrow> int option" where
  "digits_value s = (if s = [] \<or> \<not> list_all (char_between CHR ''0'' CHR ''9'') s then None
     else Some (foldl (\<lambda>n c. 10 * n + (int (of_char c) - 48)) 0 s))"

definition ParseInt :: "string \<Rightarrow> int option" where
  "ParseInt s = Option.bind (case s of [] \<Rightarrow> None
       | c # cs \<Rightarrow> if c = CHR ''-'' then map_option uminus (digits_value cs) else if c = CHR ''+'' then digits_value cs else digits_value s)
     (\<lambda>n. if - (2 ^ 63) \<le> n \<and> n < 2 ^ 63 then Some n else None)"

definition ParseBool :: "string \<Rightarrow> bool option" where
  "ParseBool s = (if s \<in> set [''1'', ''t'', ''T'', ''true'', ''TRUE'', ''True''] then Some True
     else if s \<in> set [''0'', ''f'', ''F'', ''false'', ''FALSE'', ''False''] then Some False else None)"

text \<open>A number of a document is a float64. The test lets \<open>2 ^ 63\<close> pass, which wraps when it is converted.\<close>

definition normalizeInteger :: "go_value \<Rightarrow> go_value option" where
  "normalizeInteger v = (case v of
       VNumber q \<Rightarrow> if of_int \<lfloor>q\<rfloor> \<noteq> q \<or> q > 2 ^ 63 \<or> q < - (2 ^ 63) then None else Some (VNumber (of_int (wrap64 \<lfloor>q\<rfloor>)))
     | VString s \<Rightarrow> map_option (\<lambda>n. VNumber (of_int n)) (ParseInt (trim_space s))
     | _ \<Rightarrow> None)"

definition normalizeDecimal :: "parsers \<Rightarrow> go_value \<Rightarrow> go_value option" where
  "normalizeDecimal ps v = (case v of
       VNumber q \<Rightarrow> Some v
     | VString s \<Rightarrow> if parseFloat ps (trim_space s) then Some (VString (trim_space s)) else None
     | _ \<Rightarrow> None)"

definition normalizeScalar :: "parsers \<Rightarrow> string \<Rightarrow> go_value \<Rightarrow> go_value option" where
  "normalizeScalar ps t v = (if v = VNil then Some VNil
     else if t = ''STRING'' then (case v of VString s \<Rightarrow> Some v | _ \<Rightarrow> None)
     else if t = ''INTEGER'' then normalizeInteger v
     else if t = ''DECIMAL'' then normalizeDecimal ps v
     else if t = ''BOOLEAN'' then (case v of VBool b \<Rightarrow> Some v | VString s \<Rightarrow> map_option VBool (ParseBool (trim_space s)) | _ \<Rightarrow> None)
     else if t = ''DATE'' then (case v of VString s \<Rightarrow> map_option VString (formatDate ps s) | _ \<Rightarrow> None)
     else if t = ''DATETIME'' then (case v of VString s \<Rightarrow> map_option VString (formatDateTime ps s) | _ \<Rightarrow> None)
     else None)"

definition normalizeParameterValue :: "parsers \<Rightarrow> DatasetParameter \<Rightarrow> go_value \<Rightarrow> go_value option" where
  "normalizeParameterValue ps p v =
     (if dpMultiValue p then (case v of
          VList vs \<Rightarrow> if vs = [] \<or> 1000 < length vs then None else map_option VList (those (map (normalizeScalar ps (dpDataType p)) vs))
        | _ \<Rightarrow> None)
      else (case v of VList _ \<Rightarrow> None | _ \<Rightarrow> normalizeScalar ps (dpDataType p) v))"

text \<open>The value of a parameter: what is given, else the default, else none.\<close>

definition supplied_value :: "(string \<times> go_value) list \<Rightarrow> DatasetParameter \<Rightarrow> go_value option" where
  "supplied_value values p = (case map_of values (dpCode p) of Some v \<Rightarrow> Some v
     | None \<Rightarrow> if dpDefaultValue p \<noteq> VNil then Some (dpDefaultValue p) else None)"

definition normalized_parameter :: "parsers \<Rightarrow> (string \<times> go_value) list \<Rightarrow> DatasetParameter \<Rightarrow> go_value option" where
  "normalized_parameter ps values p = (case supplied_value values p of
       None \<Rightarrow> if dpRequired p then None else Some VNil
     | Some v \<Rightarrow> normalizeParameterValue ps p v)"

text \<open>A later definition of the same code replaces an earlier one.\<close>

definition NormalizeParameters :: "parsers \<Rightarrow> DatasetParameter list \<Rightarrow> (string \<times> go_value) list \<Rightarrow> (string \<times> go_value) list option" where
  "NormalizeParameters ps definitions values =
     (if \<not> list_all (\<lambda>(c, _). c \<in> set (map dpCode definitions)) values then None
      else map_option rev (those (map (\<lambda>p. map_option (Pair (dpCode p)) (normalized_parameter ps values p)) definitions)))"

section \<open>Names\<close>

text \<open>
  The runes of a UTF-8 text, as their bytes. Which of them are letters and numbers of Unicode is an argument.
\<close>

fun runes :: "string \<Rightarrow> string list" where
  "runes [] = []"
| "runes (c # cs) = (case runes cs of [] \<Rightarrow> [[c]]
     | r # rs \<Rightarrow> if char_between CHR 0x80 CHR 0xBF (hd r) then (c # r) # rs else [c] # r # rs)"

record unicode =
  letter :: "string \<Rightarrow> bool"
  number :: "string \<Rightarrow> bool"

definition safeIdentifier :: "unicode \<Rightarrow> string \<Rightarrow> bool" where
  "safeIdentifier u s = (case runes s of [] \<Rightarrow> False
     | r # rs \<Rightarrow> letter u r \<and> length rs \<le> 127 \<and> list_all (\<lambda>x. letter u x \<or> number u x \<or> x \<in> set [''_'', ''$'', ''#'']) rs)"

definition full_width_parentheses :: "string list" where
  "full_width_parentheses = [[CHR 0xEF, CHR 0xBC, CHR 0x88], [CHR 0xEF, CHR 0xBC, CHR 0x89]]"

definition ValidColumn :: "unicode \<Rightarrow> string \<Rightarrow> bool" where
  "ValidColumn u s = (case runes s of [] \<Rightarrow> False
     | r # rs \<Rightarrow> letter u r \<and> length rs \<le> 127 \<and>
         list_all (\<lambda>x. letter u x \<or> number u x \<or> x \<in> set ([''_'', ''$'', ''#'', ''('', '')''] @ full_width_parentheses)) rs)"

definition safeMaskCharacter :: "unicode \<Rightarrow> string \<Rightarrow> bool" where
  "safeMaskCharacter u s = (case runes s of [r] \<Rightarrow> letter u r \<or> number u r \<or> r = ''*'' \<or> r = [CHR 0xE2, CHR 0x80, CHR 0xA2] | _ \<Rightarrow> False)"

definition validateTable :: "unicode \<Rightarrow> Dialect \<Rightarrow> TableRef \<Rightarrow> bool" where
  "validateTable u d ref \<longleftrightarrow> safeIdentifier u (trefName ref) \<and> (trefSchema ref = [] \<or> safeIdentifier u (trefSchema ref)) \<and>
     (d = PostgreSQL \<longrightarrow> length (trefName ref) \<le> 63 \<and> length (trefSchema ref) \<le> 63) \<and>
     list_all (\<lambda>(c, _). ValidColumn u c \<and> (d = PostgreSQL \<longrightarrow> length c \<le> 63)) (trefColumns ref)"

definition validatePostgreSQLDocumentIdentifiers :: "Document \<Rightarrow> bool" where
  "validatePostgreSQLDocumentIdentifiers doc \<longleftrightarrow>
     list_all (\<lambda>n. length (ndAlias n) \<le> 63 \<and> list_all (\<lambda>f. length f \<le> 63) (ndProjection n)) (doNodes doc) \<and>
     list_all (\<lambda>f. length (dfCode f) \<le> 63) (doFields doc)"

section \<open>Lookups\<close>

definition preAggregation :: "Document \<Rightarrow> string \<Rightarrow> PreAggregation option" where
  "preAggregation doc n = find (\<lambda>p. paNodeID p = n) (doPreAggregations doc)"

definition preAggregationProduces :: "Document \<Rightarrow> string \<Rightarrow> string \<Rightarrow> bool" where
  "preAggregationProduces doc n f = (case preAggregation doc n of None \<Rightarrow> False
     | Some p \<Rightarrow> list_ex (\<lambda>g. pagField g = f) (paGroupBy p) \<or> list_ex (\<lambda>m. pamField m = f) (paMetrics p))"

text \<open>The node, or a zero one.\<close>

definition documentNode :: "Document \<Rightarrow> string \<Rightarrow> DatasetNode" where
  "documentNode doc n = (case find (\<lambda>d. ndID d = n) (doNodes doc) of Some d \<Rightarrow> d
     | None \<Rightarrow> \<lparr> ndID = [], ndType = [], ndDataSourceID = [], ndTableID = [], ndDatasetVersionID = [], ndFileVersionID = [],
         ndAlias = [], ndProjection = [], ndSourceFilters = [] \<rparr>)"

definition query_scope :: "Input \<Rightarrow> (string \<Rightarrow> string) \<Rightarrow> scope" where
  "query_scope q aliases = \<lparr> scDialect = inDialect q, scTables = map_of (inTables q), scProduces = preAggregationProduces (inDocument q),
     scParameters = map_of (inParameters q), scAliases = aliases \<rparr>"

text \<open>In a map that is filled in the order of a list the last entry of a key stays.\<close>

definition last_entry :: "('a \<times> 'b) list \<Rightarrow> 'a \<Rightarrow> 'b option" where "last_entry xs = map_of (rev xs)"

definition index_of :: "string list \<Rightarrow> string \<Rightarrow> nat option" where
  "index_of xs = last_entry (zip xs [0..<length xs])"

definition node_aliases :: "Document \<Rightarrow> string \<Rightarrow> string" where
  "node_aliases doc n = (case last_entry (map (\<lambda>d. (ndID d, ndAlias d)) (doNodes doc)) n of None \<Rightarrow> [] | Some a \<Rightarrow> a)"

end
