(* ===== verification/QueryInner.thy ===== *)
theory QueryInner imports QueryDocument begin

text \<open>
  The inner query (\<open>compileInner\<close> and \<open>nodeRelation\<close> in \<open>querycompiler/compiler.go\<close>): the tables and the
  tables derived before a join, the order of the joins, the projections, the filters, and the groups.
\<close>

section \<open>Filters\<close>

definition table_name_sql :: "TableRef \<Rightarrow> sql" where
  "table_name_sql ref = (if trefSchema ref = [] then [Name (trefName ref)] else [Name (trefSchema ref), Text ''.'', Name (trefName ref)])"

definition as_name :: "sql \<Rightarrow> string \<Rightarrow> sql" where "as_name q n = q @ [Text '' AS '', Name n]"

text \<open>A filter on a source: an expression, or a column, an operator and a value.\<close>

definition plain_filter_sql :: "Input \<Rightarrow> string \<Rightarrow> string \<Rightarrow> SourceFilter \<Rightarrow> sql emit" where
  "plain_filter_sql q node alias f =
     (if \<not> (case map_of (inTables q) node of None \<Rightarrow> False | Some ref \<Rightarrow> column_of ref (sfField f)) then emit_fail
      else let left = [Name alias, Text ''.'', Name (sfField f)] in
        if sfOperator f = ''IS_NULL'' then emit_return (left @ [Text '' IS NULL''])
        else if sfOperator f = ''IS_NOT_NULL'' then emit_return (left @ [Text '' IS NOT NULL''])
        else (case comparison_of_name (sfOperator f) of None \<Rightarrow> emit_fail
          | Some op \<Rightarrow> if sfOperator f = ''IN'' \<or> sfOperator f = ''NOT_IN''
              then emit_map (\<lambda>vs. [Text ''(''] @ left @ [Text ('' '' @ op @ '' ('')] @ vs @ [Text ''))'']) (bindCollection (sfValue f))
              else emit_map (\<lambda>v. [Text ''(''] @ left @ [Text ('' '' @ op @ '' '')] @ v @ [Text '')'']) (bind (sfValue f))))"

definition sourceFilterExpression :: "Input \<Rightarrow> string \<Rightarrow> (string \<Rightarrow> string) \<Rightarrow> string \<Rightarrow> SourceFilter \<Rightarrow> sql emit" where
  "sourceFilterExpression q node aliases alias f = (case sfExpression f of Some e \<Rightarrow> expression (query_scope q aliases) e
     | None \<Rightarrow> plain_filter_sql q node alias f)"

text \<open>An optional filter with a null parameter in it is left out.\<close>

primrec hasNilParameter :: "(string \<times> go_value) list \<Rightarrow> DatasetExpression \<Rightarrow> bool" where
  "hasNilParameter params (DatasetExpression ty n f c fn u tt v arg args l r lo up whens els pb ob) =
     (if ty = TyParamRef then map_of params c = None \<or> map_of params c = Some VNil
      else list_ex (\<lambda>x. x = Some True)
          [map_option (hasNilParameter params) arg, map_option (hasNilParameter params) l, map_option (hasNilParameter params) r,
           map_option (hasNilParameter params) lo, map_option (hasNilParameter params) up, map_option (hasNilParameter params) els] \<or>
        list_ex id (map (hasNilParameter params) args) \<or>
        list_ex (\<lambda>(w, t). w \<or> t) (map (map_prod (hasNilParameter params) (hasNilParameter params)) whens) \<or>
        list_ex id (map (hasNilParameter params) pb) \<or> list_ex fst (map (map_prod (hasNilParameter params) id) ob))"

declare hasNilParameter.simps [simp del]

definition active_filters :: "Input \<Rightarrow> DatasetFilter list \<Rightarrow> DatasetExpression list" where
  "active_filters q fs = map dflExpression (filter (\<lambda>f. \<not> (dflOptional f \<and> hasNilParameter (inParameters q) (dflExpression f))) fs)"

section \<open>Grouping\<close>

text \<open>The masks of \<open>n\<close> bits, downwards; the first bit is the lowest.\<close>

fun cube_masks :: "nat \<Rightarrow> bool list list" where
  "cube_masks 0 = [[]]"
| "cube_masks (Suc n) = concat (map (\<lambda>b. map (\<lambda>m. m @ [b]) (cube_masks n)) [True, False])"

definition groupingSelectionsForFields :: "GroupByMode \<Rightarrow> string list \<Rightarrow> string list list \<Rightarrow> bool list list option" where
  "groupingSelectionsForFields mode dims sets =
     (if mode = GroupByModeCube then Some (cube_masks (length dims))
      else if mode \<noteq> GroupByModeSets then Some [map (\<lambda>_. True) dims]
      else if \<not> list_all (list_all (\<lambda>d. index_of dims d \<noteq> None)) sets then None
      else Some (map (\<lambda>s. map (\<lambda>i. Some i \<in> set (map (index_of dims) s)) [0..<length dims]) sets))"

text \<open>MySQL writes the groups of a cube and of grouping sets as branches; the groups of other queries are compiled a second time.\<close>

definition expanded_grouping :: "Dialect \<Rightarrow> GroupByMode \<Rightarrow> bool" where
  "expanded_grouping d mode \<longleftrightarrow> d = MySQL \<and> mode \<in> {GroupByModeCube, GroupByModeSets}"

definition native_grouping :: "Dialect \<Rightarrow> GroupByMode \<Rightarrow> bool" where
  "native_grouping d mode \<longleftrightarrow> mode \<noteq> GroupByModeSets \<and> (d \<noteq> MySQL \<or> mode \<notin> {GroupByModeCube, GroupByModeRollup})"

definition grouping_sets_sql :: "scope \<Rightarrow> (string \<Rightarrow> DatasetExpression option) \<Rightarrow> string list list \<Rightarrow> sql list emit" where
  "grouping_sets_sql sc dims sets = emit_all (map (\<lambda>s. emit_map (\<lambda>vs. parens (sql_join '', '' vs))
     (emit_all (map (\<lambda>d. case dims d of None \<Rightarrow> emit_fail | Some e \<Rightarrow> expression sc e) s))) sets)"

definition group_clause ::
  "scope \<Rightarrow> GroupByMode \<Rightarrow> sql list \<Rightarrow> sql list \<Rightarrow> (string \<Rightarrow> DatasetExpression option) \<Rightarrow> string list list \<Rightarrow> sql emit" where
  "group_clause sc mode groups aliases dims sets = (let native = scDialect sc \<noteq> MySQL in case mode of
       GroupByModeCube \<Rightarrow> emit_return (if native then call ''CUBE '' (sql_join '', '' groups) else sql_join '', '' groups)
     | GroupByModeRollup \<Rightarrow> emit_return (if native then call ''ROLLUP '' (sql_join '', '' groups)
         else sql_join '', '' aliases @ [Text '' WITH ROLLUP''])
     | GroupByModeSets \<Rightarrow> if native then emit_map (\<lambda>ss. call ''GROUPING SETS '' (sql_join '', '' ss)) (grouping_sets_sql sc dims sets)
         else emit_return (sql_join '', '' groups)
     | _ \<Rightarrow> emit_return (sql_join '', '' groups))"

definition select_sql :: "string \<Rightarrow> sql list \<Rightarrow> sql \<Rightarrow> sql list \<Rightarrow> sql \<Rightarrow> sql list \<Rightarrow> sql" where
  "select_sql start projections table filters groups having =
     [Text start] @ sql_join '', '' projections @ [Text '' FROM ''] @ table @
     (if filters = [] then [] else [Text '' WHERE ''] @ sql_join '' AND '' filters) @
     (if groups = [] then [] else [Text '' GROUP BY ''] @ groups) @
     (if having = [] then [] else [Text '' HAVING ''] @ sql_join '' AND '' having)"

text \<open>
  A branch: the projection of each dimension that is not selected becomes NULL. A dimension is given
  with the place of its projection, its text and its name.
\<close>

definition hidden_projection :: "sql \<Rightarrow> string \<Rightarrow> sql" where
  "hidden_projection e n = as_name ([Text ''CASE WHEN 1 = 1 THEN NULL ELSE ''] @ e @ [Text '' END'']) n"

definition branch_projections :: "(nat \<times> sql \<times> string) list \<Rightarrow> sql list \<Rightarrow> bool list \<Rightarrow> sql list" where
  "branch_projections dims projections selected =
     foldl (\<lambda>ps (b, i, e, n). if b then ps else ps[i := hidden_projection e n]) projections (zip selected dims)"

definition active_groups :: "sql list \<Rightarrow> bool list \<Rightarrow> sql list" where
  "active_groups aliases selected = map snd (filter fst (zip selected aliases))"

definition branches_sql :: "(sql list \<Rightarrow> sql \<Rightarrow> sql) \<Rightarrow> (nat \<times> sql \<times> string) list \<Rightarrow> sql list \<Rightarrow> sql list \<Rightarrow> bool list list \<Rightarrow> sql emit" where
  "branches_sql build dims projections aliases selections = emit_bind (emit_repeat (length selections)) (\<lambda>_. emit_return
     (sql_join '' UNION ALL '' (map (\<lambda>s. build (branch_projections dims projections s) (sql_join '', '' (active_groups aliases s))) selections)))"

section \<open>Tables derived before a join\<close>

definition e_trunc :: "string \<Rightarrow> DatasetExpression \<Rightarrow> DatasetExpression" where
  "e_trunc u a = DatasetExpression (TyDate Trunc) [] [] [] [] u [] VNil (Some a) [] None None None None [] None [] []"

definition group_expression :: "string \<Rightarrow> PreAggregationGroup \<Rightarrow> DatasetExpression" where
  "group_expression node g = (let e = (case pagExpression g of None \<Rightarrow> e_field node (pagField g) | Some e \<Rightarrow> e) in
     if pagUnit g \<noteq> [] then e_trunc (pagUnit g) e else e)"

definition preaggregate_expression :: "string \<Rightarrow> PreAggregationMetric \<Rightarrow> DatasetExpression" where
  "preaggregate_expression node m = DatasetExpression TyAggregate [] [] [] (pamFunction m) [] [] VNil
     (if pamCountRows m then None else Some (case pamExpression m of None \<Rightarrow> e_field node (pamField m) | Some e \<Rightarrow> e))
     [] None None None None [] None [] []"

definition derived_table :: "Input \<Rightarrow> PreAggregation \<Rightarrow> DatasetNode \<Rightarrow> TableRef \<Rightarrow> sql emit" where
  "derived_table q item node ref =
     (let alias = (\<lambda>n. if n = ndID node then ''pre_source'' else []); sc = query_scope q alias; mode = paGroupByMode item;
          group_es = map (group_expression (ndID node)) (paGroupBy item); names = map pagField (paGroupBy item);
          aliases = map (\<lambda>n. [Name n]) names; d = inDialect q in
      emit_bind (emit_all (map (expression sc) group_es)) (\<lambda>gs.
      emit_bind (emit_all (map (\<lambda>m. expression sc (preaggregate_expression (ndID node) m)) (paMetrics item))) (\<lambda>ms.
      emit_bind (emit_all (map (sourceFilterExpression q (ndID node) alias (alias (ndID node))) (ndSourceFilters node))) (\<lambda>filters.
      emit_bind (if native_grouping d mode then emit_all (map (expression sc) group_es) else emit_return gs) (\<lambda>groups.
      emit_bind (group_clause sc mode groups aliases (last_entry (zip names group_es)) (paGroupingSets item)) (\<lambda>clause.
        let projections = map2 as_name gs names @ map2 as_name ms (map pamField (paMetrics item));
            build = (\<lambda>ps gc. select_sql ''SELECT '' ps (table_name_sql ref @ [Text '' '', Name ''pre_source'']) filters gc []) in
        emit_map parens
          (if expanded_grouping d mode then emit_bind (emit_option (groupingSelectionsForFields mode names (paGroupingSets item)))
              (branches_sql build (zip [0..<length gs] (zip groups names)) projections aliases)
           else emit_return (build projections clause))))))))"

definition nodeRelation :: "Input \<Rightarrow> DatasetNode \<Rightarrow> TableRef \<Rightarrow> (sql \<times> go_value list) emit" where
  "nodeRelation q node ref = (case preAggregation (inDocument q) (ndID node) of
       None \<Rightarrow> emit_return (table_name_sql ref, [])
     | Some item \<Rightarrow> emit_nested (derived_table q item node ref))"

section \<open>Joins\<close>

text \<open>The root is the first node that no join leads to, or the first node.\<close>

definition root_node :: "Document \<Rightarrow> string" where
  "root_node doc = (case find (\<lambda>n. ndID n \<notin> set (map djRightNodeID (doJoins doc))) (doNodes doc) of Some n \<Rightarrow> ndID n
     | None \<Rightarrow> (case doNodes doc of [] \<Rightarrow> [] | n # _ \<Rightarrow> ndID n))"

text \<open>
  A pass takes each join whose left node is in and whose right node is not, and leaves the others to
  the next pass; a pass that takes none is an error. Which joins are taken does not depend on what
  they are compiled to.
\<close>

fun join_pass :: "string list \<Rightarrow> DatasetJoin list \<Rightarrow> DatasetJoin list \<times> DatasetJoin list" where
  "join_pass joined [] = ([], [])"
| "join_pass joined (j # js) =
     (if djLeftNodeID j \<notin> set joined \<or> djRightNodeID j \<in> set joined
      then map_prod id (Cons j) (join_pass joined js) else map_prod (Cons j) id (join_pass (djRightNodeID j # joined) js))"

lemma join_pass_length: "length (fst (join_pass joined js)) + length (snd (join_pass joined js)) = length js"
  by (induction joined js rule: join_pass.induct) auto

function join_order :: "string list \<Rightarrow> DatasetJoin list \<Rightarrow> DatasetJoin list option" where
  "join_order joined js = (if js = [] then Some []
     else let taken = fst (join_pass joined js); left = snd (join_pass joined js) in
       if taken = [] then None else map_option (append taken) (join_order (rev (map djRightNodeID taken) @ joined) left))"
  by pat_completeness auto

termination join_order
proof (relation "measure (length \<circ> snd)", goal_cases)
  case (2 joined js taken left)
  then show ?case using join_pass_length [of joined js] by (cases "fst (join_pass joined js)") simp_all
qed simp

declare join_order.simps [simp del]

definition join_condition_sql :: "scope \<Rightarrow> JoinCondition \<Rightarrow> sql emit" where
  "join_condition_sql sc c = emit_bind (expression sc (jcLeftExpression c)) (\<lambda>a. emit_bind (expression sc (jcRightExpression c)) (\<lambda>b.
     emit_option (map_option (\<lambda>op. a @ [Text ('' '' @ op @ '' '')] @ b) (comparison_of_name (jcOperator c)))))"

definition compile_join :: "Input \<Rightarrow> scope \<Rightarrow> DatasetJoin \<Rightarrow> (sql \<times> go_value list) emit" where
  "compile_join q sc j = (case map_of (inTables q) (djRightNodeID j) of None \<Rightarrow> emit_fail
     | Some ref \<Rightarrow> if inDialect q = MySQL \<and> djJoinType j = ''FULL'' then emit_fail
         else emit_bind (emit_all (map (join_condition_sql sc) (djConditions j))) (\<lambda>conditions.
           emit_map (\<lambda>(relation, vs). ([Text ('' '' @ djJoinType j @ '' JOIN '')] @ relation @ [Text '' '', Name (scAliases sc (djRightNodeID j)),
               Text '' ON ''] @ sql_join '' AND '' conditions, vs))
             (nodeRelation q (documentNode (inDocument q) (djRightNodeID j)) ref)))"

text \<open>Every node must be in the whitelist; the root is the start of the FROM clause.\<close>

fun compile_nodes :: "unicode \<Rightarrow> Input \<Rightarrow> string \<Rightarrow> DatasetNode list \<Rightarrow> sql \<times> go_value list \<Rightarrow> (sql \<times> go_value list) emit" where
  "compile_nodes u q base [] start = emit_return start"
| "compile_nodes u q base (n # ns) start = (case map_of (inTables q) (ndID n) of None \<Rightarrow> emit_fail
     | Some ref \<Rightarrow> if trefNodeID ref \<noteq> ndID n \<or> \<not> validateTable u (inDialect q) ref then emit_fail
         else if ndID n \<noteq> base then compile_nodes u q base ns start
         else emit_bind (nodeRelation q n ref) (\<lambda>(relation, vs).
           compile_nodes u q base ns (relation @ [Text '' '', Name (ndAlias n)], snd start @ vs)))"

section \<open>The inner query\<close>

text \<open>The first policy of a field is the one that counts.\<close>

fun first_policies :: "string list \<Rightarrow> ColumnPolicy list \<Rightarrow> ColumnPolicy list" where
  "first_policies seen [] = []"
| "first_policies seen (c # cs) = (if cpFieldCode c \<in> set seen then first_policies seen cs
     else c # first_policies (cpFieldCode c # seen) cs)"

definition minimumGroupSize :: "Input \<Rightarrow> int" where
  "minimumGroupSize q = foldl (\<lambda>r c. if cpPolicyType c = ''AGGREGATE_ONLY'' \<and> cpMinimumGroupSize c > r then cpMinimumGroupSize c else r) 0
     (first_policies [] (inColumnPolicies q))"

definition where_filters :: "Input \<Rightarrow> scope \<Rightarrow> sql emit list" where
  "where_filters q sc = concat (map (\<lambda>n. map (sourceFilterExpression q (ndID n) (scAliases sc) (ndAlias n)) (ndSourceFilters n))
       (filter (\<lambda>n. preAggregation (inDocument q) (ndID n) = None) (doNodes (inDocument q)))) @
     map (expression sc) (active_filters q (doFilters (inDocument q)))"

definition minimum_size_sql :: "Input \<Rightarrow> sql list emit" where
  "minimum_size_sql q = (if minimumGroupSize q \<le> 0 then emit_return [] else if doGroupBy (inDocument q) = [] then emit_fail
     else emit_map (\<lambda>h. [[Text ''COUNT(*) >= ''] @ h]) (bind (VNumber (of_int (minimumGroupSize q)))))"

definition compileInner :: "unicode \<Rightarrow> Input \<Rightarrow> sql emit" where
  "compileInner u q =
     (let doc = inDocument q; sc = query_scope q (node_aliases doc); d = inDialect q; fields = doFields doc; mode = doGroupByMode doc;
          base = root_node doc in
      emit_bind (compile_nodes u q base (doNodes doc) ([], [])) (\<lambda>(from0, args0).
      emit_bind (emit_option (join_order [base] (doJoins doc))) (\<lambda>js.
      emit_bind (emit_all (map (compile_join q sc) js)) (\<lambda>joined.
      emit_bind (emit_all (map (\<lambda>f. expression sc (dfExpression f)) fields)) (\<lambda>values.
      emit_bind (emit_append (args0 @ concat (map snd joined))) (\<lambda>_.
      emit_bind (emit_all (where_filters q sc)) (\<lambda>filters.
      emit_bind (emit_option (those (map (index_of (map dfID fields)) (doGroupBy doc)))) (\<lambda>places.
      emit_bind (if mode = GroupByModeSets then emit_return []
          else if native_grouping d mode then emit_all (map (\<lambda>i. expression sc (dfExpression (fields ! i))) places)
          else emit_return (map (\<lambda>i. values ! i) places)) (\<lambda>groups.
      let names = map (\<lambda>i. dfCode (fields ! i)) places; aliases = map (\<lambda>n. [Name n]) names;
          projections = map2 as_name values (map dfCode fields) in
      emit_bind (group_clause sc mode groups aliases
          (last_entry (zip (doGroupBy doc) (map (\<lambda>i. dfExpression (fields ! i)) places))) (doGroupingSets doc)) (\<lambda>clause.
      emit_bind (emit_all (map (expression sc) (active_filters q (doHaving doc)))) (\<lambda>having.
      emit_bind (minimum_size_sql q) (\<lambda>floor_filter.
        let build = (\<lambda>ps gc. select_sql (if doDistinct doc then ''SELECT DISTINCT '' else ''SELECT '') ps
              (from0 @ concat (map fst joined)) filters gc (having @ floor_filter)) in
        if expanded_grouping d mode then emit_bind (emit_option (groupingSelectionsForFields mode (doGroupBy doc) (doGroupingSets doc)))
            (branches_sql build (zip places (zip (map (\<lambda>i. values ! i) places) names)) projections aliases)
        else emit_return (build projections clause)))))))))))))"

end
