(* ===== verification/QueryCompiler.thy ===== *)
theory QueryCompiler imports QueryInner begin

text \<open>
  The outer query and \<open>Compile\<close> (\<open>querycompiler/compiler.go\<close>): the inner query as a table, the row and
  column policies over its output fields, the sorts, the row limit, the last check of the text, and the
  plan that is fingerprinted.
\<close>

section \<open>Row policies\<close>

definition secure_field :: "string \<Rightarrow> sql" where "secure_field f = [Name ''secure_base'', Text ''.'', Name f]"

fun policyExpression :: "(string \<Rightarrow> go_value option) \<Rightarrow> string list \<Rightarrow> go_value Expression \<Rightarrow> sql emit" where
  "policyExpression attrs allowed (Expression ty field attr v left right children) =
     (case expression_kind ty of
        FieldRef \<Rightarrow> if field \<in> set allowed then emit_return (secure_field field) else emit_fail
      | UserAttributeRef \<Rightarrow> (case attrs attr of None \<Rightarrow> emit_fail | Some x \<Rightarrow> bind x)
      | LiteralValue \<Rightarrow> bind v
      | BinaryOperator \<Rightarrow> (case left of None \<Rightarrow> emit_fail | Some l \<Rightarrow> (case right of None \<Rightarrow> emit_fail | Some r \<Rightarrow>
          emit_bind (policyExpression attrs allowed l) (\<lambda>a.
            if ty = ''IN'' then emit_map (\<lambda>vs. [Text ''(''] @ a @ [Text '' IN (''] @ vs @ [Text ''))''])
              (case expression_kind (exType r) of LiteralValue \<Rightarrow> bindCollection (exValue r)
               | UserAttributeRef \<Rightarrow> bindCollection (case attrs (exAttribute r) of None \<Rightarrow> VNil | Some x \<Rightarrow> x)
               | _ \<Rightarrow> emit_fail)
            else emit_map (\<lambda>b. [Text ''(''] @ a @ [Text (if ty = ''EQUALS'' then '' = '' else '' <> '')] @ b @ [Text '')''])
              (policyExpression attrs allowed r))))
      | LogicalOperator \<Rightarrow> if length children < 2 then emit_fail
          else emit_map (\<lambda>ps. parens (sql_join ('' '' @ ty @ '' '') ps)) (emit_all (map (policyExpression attrs allowed) children))
      | UnknownKind \<Rightarrow> emit_fail)"

datatype row_class = AllowAND | AllowOR | Deny

definition row_class :: "go_value RowPolicy \<Rightarrow> row_class option" where
  "row_class p = (if rpEffect p = ''DENY'' \<or> rpCombineMode p = ''DENY_OVERRIDE'' then Some Deny
     else if rpCombineMode p = ''AND'' then Some AllowAND else if rpCombineMode p = ''OR'' then Some AllowOR else None)"

text \<open>Every condition that all allowed rows meet, one of the alternatives, and none of the denials.\<close>

definition row_group :: "string \<Rightarrow> string \<Rightarrow> sql list \<Rightarrow> sql list" where
  "row_group start sep qs = (if qs = [] then [] else [[Text (start @ ''('')] @ sql_join sep qs @ [Text '')'']])"

definition rows_sql :: "(row_class \<times> sql) list \<Rightarrow> sql" where
  "rows_sql rows = (let of_class = (\<lambda>c. map snd (filter (\<lambda>r. fst r = c) rows)) in
     sql_join '' AND '' (row_group [] '' AND '' (of_class AllowAND) @ row_group [] '' OR '' (of_class AllowOR) @
       row_group ''NOT '' '' OR '' (of_class Deny)))"

definition row_sql :: "Input \<Rightarrow> go_value RowPolicy \<Rightarrow> (row_class \<times> sql) emit" where
  "row_sql q p = emit_bind (policyExpression (inAttributes q) (map dfCode (doFields (inDocument q))) (rpExpression p)) (\<lambda>s.
     emit_option (map_option (\<lambda>c. (c, s)) (row_class p)))"

definition compileRows :: "Input \<Rightarrow> sql emit" where
  "compileRows q = emit_map rows_sql (emit_all (map (row_sql q) (sort_slice (lt_on rpPriority) (inRowPolicies q))))"

section \<open>Columns\<close>

text \<open>The first policy of a field is the one that counts.\<close>

definition column_policy :: "Input \<Rightarrow> string \<Rightarrow> ColumnPolicy option" where
  "column_policy q f = find (\<lambda>c. cpFieldCode c = f) (inColumnPolicies q)"

definition mask_char :: "MaskRule \<Rightarrow> string" where
  "mask_char r = ticked (escape_quotes (if mrMaskChar r = [] then ''*'' else mrMaskChar r))"

definition mask_rule_sql :: "Dialect \<Rightarrow> sql \<Rightarrow> MaskRule \<Rightarrow> sql" where
  "mask_rule_sql d b r = (let m = mask_char r; kept = show_int (wrap64 (mrPrefixLength r + mrSuffixLength r));
       prefix = show_int (mrPrefixLength r); suffix = show_int (mrSuffixLength r) in case d of
     MySQL \<Rightarrow> [Text ''CONCAT(LEFT(''] @ b @ [Text ('','' @ prefix @ ''),REPEAT('' @ m @ '',GREATEST(CHAR_LENGTH('')] @ b @
       [Text ('')-'' @ kept @ '',0)),RIGHT('')] @ b @ [Text ('','' @ suffix @ ''))'')]
   | PostgreSQL \<Rightarrow> [Text ''CONCAT(LEFT(CAST(''] @ b @ [Text ('' AS TEXT),'' @ prefix @ ''),REPEAT('' @ m @ '',GREATEST(LENGTH(CAST('')] @ b @
       [Text ('' AS TEXT))-'' @ kept @ '',0)),RIGHT(CAST('')] @ b @ [Text ('' AS TEXT),'' @ suffix @ ''))'')]
   | _ \<Rightarrow> [Text ''SUBSTR(''] @ b @ [Text ('',1,'' @ prefix @ '')||RPAD('' @ m @ '',GREATEST(LENGTH('')] @ b @
       [Text ('')-'' @ kept @ '',0),'' @ m @ '')||SUBSTR('')] @ b @ [Text ('',-'' @ suffix @ '')'')])"

definition hash_sql :: "Dialect \<Rightarrow> sql \<Rightarrow> sql" where
  "hash_sql d b = (case d of
     MySQL \<Rightarrow> [Text ''SHA2(CAST(''] @ b @ [Text '' AS CHAR), 256)'']
   | PostgreSQL \<Rightarrow> [Text ''ENCODE(DIGEST(CAST(''] @ b @ [Text ('' AS TEXT), '' @ ticked ''sha256'' @ ''), '' @ ticked ''hex'' @ '')'')]
   | _ \<Rightarrow> [Text ''STANDARD_HASH(TO_CHAR(''] @ b @ [Text (''), '' @ ticked ''SHA256'' @ '')'')])"

definition column_sql :: "unicode \<Rightarrow> Input \<Rightarrow> DatasetField \<Rightarrow> sql option" where
  "column_sql u q f = (let b = secure_field (dfCode f) in case column_policy q (dfCode f) of
       None \<Rightarrow> Some b
     | Some p \<Rightarrow>
         if cpPolicyType p = ''ALLOW'' then Some b
         else if cpPolicyType p = ''DENY'' then None
         else if cpPolicyType p = ''NULLIFY'' then Some [Text ''NULL'']
         else if cpPolicyType p = ''HASH'' then Some (hash_sql (inDialect q) b)
         else if cpPolicyType p = ''MASK'' then
           (let r = cpMaskRule p in
            if mrType r \<noteq> ''KEEP_PREFIX_SUFFIX'' \<or> mrPrefixLength r < 0 \<or> mrSuffixLength r < 0 then None
            else if mrMaskChar r \<noteq> [] \<and> \<not> safeMaskCharacter u (mrMaskChar r) then None
            else Some (mask_rule_sql (inDialect q) b r))
         else if cpPolicyType p = ''AGGREGATE_ONLY'' then
           (let fn = deFunction (dfExpression f) in
            if fn = [] \<or> \<not> list_ex (\<lambda>a. to_upper_ascii a = to_upper_ascii fn) (cpAllowedAggregations p) then None else Some b)
         else None)"

definition compileColumns :: "unicode \<Rightarrow> Input \<Rightarrow> sql list option" where
  "compileColumns u q = those (map (\<lambda>f. map_option (\<lambda>s. as_name s (dfCode f)) (column_sql u q f)) (doFields (inDocument q)))"

section \<open>Sorts\<close>

text \<open>MySQL sorts by whether the value is null first.\<close>

definition sort_sql :: "Input \<Rightarrow> DatasetSort \<Rightarrow> sql list option" where
  "sort_sql q s = map_option (\<lambda>c.
     (if inDialect q = MySQL \<and> dsNulls s \<noteq> []
      then [[Text ''('', Name c, Text ('' IS NULL) '' @ (if dsNulls s = ''FIRST'' then ''DESC'' else ''ASC''))]] else []) @
     [[Name c, Text ('' '' @ dsDirection s @
        (if (inDialect q = Oracle \<or> inDialect q = PostgreSQL) \<and> dsNulls s \<noteq> [] then '' NULLS '' @ dsNulls s else []))]])
     (last_entry (map (\<lambda>f. (dfID f, dfCode f)) (doFields (inDocument q))) (dsFieldID s))"

definition compileSorts :: "Input \<Rightarrow> sql option" where
  "compileSorts q = map_option (\<lambda>ps. sql_join '', '' (concat ps)) (those (map (sort_sql q) (doSorts (inDocument q))))"

section \<open>The plan\<close>

record compiledPlanParameter =
  cppCode :: string
  cppDataType :: string
  cppMultiValue :: bool
  cppRequired :: bool

record compiledPlanTable =
  cptNodeID :: string
  cptSchema :: string
  cptName :: string
  cptColumns :: "(string \<times> string) list"

record compiledPlan =
  cplDialect :: Dialect
  cplLimitKind :: LimitKind
  cplMaxRows :: int
  cplSQL :: string
  cplParameters :: "compiledPlanParameter list"
  cplTables :: "compiledPlanTable list"

text \<open>The part of an input that is fingerprinted, in the order of the names; the hash of its JSON is an argument.\<close>

definition plan_parameter :: "DatasetParameter \<Rightarrow> compiledPlanParameter" where
  "plan_parameter p = \<lparr> cppCode = dpCode p, cppDataType = dpDataType p, cppMultiValue = dpMultiValue p, cppRequired = dpRequired p \<rparr>"

definition plan_table :: "TableRef \<Rightarrow> compiledPlanTable" where
  "plan_table ref = \<lparr> cptNodeID = trefNodeID ref, cptSchema = trefSchema ref, cptName = trefName ref,
     cptColumns = map (\<lambda>c. (c, case map_of (trefColumnTypes ref) c of None \<Rightarrow> [] | Some t \<Rightarrow> t))
       (sort_slice (<) (map fst (filter snd (trefColumns ref)))) \<rparr>"

definition compiledPlanHash :: "(compiledPlan \<Rightarrow> string) \<Rightarrow> Input \<Rightarrow> string \<Rightarrow> string" where
  "compiledPlanHash digest q s = digest \<lparr> cplDialect = inDialect q, cplLimitKind = inLimitKind q, cplMaxRows = inMaxRows q, cplSQL = s,
     cplParameters = map plan_parameter (doParameters (inDocument q)),
     cplTables = map (\<lambda>(_, ref). plan_table ref) (sort_slice (lt_on fst) (inTables q)) \<rparr>"

section \<open>Compile\<close>

definition limit_kind :: "LimitKind \<Rightarrow> LimitKind" where
  "limit_kind k = (if k = OtherLimit [] then LimitPreview else k)"

definition limitCeiling :: "Document \<Rightarrow> LimitKind \<Rightarrow> int option" where
  "limitCeiling doc k = (case k of LimitPreview \<Rightarrow> Some (xpPreviewLimit (doExecutionPolicy doc)) | LimitResult \<Rightarrow> Some (xpResultLimit (doExecutionPolicy doc)) | OtherLimit _ \<Rightarrow> None)"

fun contains_text :: "string \<Rightarrow> string \<Rightarrow> bool" where
  "contains_text [] t \<longleftrightarrow> t = []"
| "contains_text (c # cs) t \<longleftrightarrow> take (length t) (c # cs) = t \<or> contains_text cs t"

definition forbidden :: "string \<Rightarrow> bool" where
  "forbidden s \<longleftrightarrow> list_ex (\<lambda>c. c = CHR '';'' \<or> c = CHR 0x00) s \<or> contains_text s ''--'' \<or> contains_text s ''/*''"

definition limit_sql :: "Input \<Rightarrow> sql \<Rightarrow> sql emit" where
  "limit_sql q order = (let rows = bind (VNumber (of_int (inMaxRows q))) in
     if inDialect q = Oracle then emit_map (\<lambda>n. [Text '' FETCH FIRST ''] @ n @ [Text '' ROWS ONLY'']) rows
     else if inDialect q = SQLServer then emit_map (\<lambda>n. (if order = [] then [Text '' ORDER BY (SELECT NULL)''] else []) @
         [Text '' OFFSET 0 ROWS FETCH NEXT ''] @ n @ [Text '' ROWS ONLY'']) rows
     else emit_map (\<lambda>n. [Text '' LIMIT ''] @ n) rows)"

definition compile_outer :: "unicode \<Rightarrow> Input \<Rightarrow> sql emit" where
  "compile_outer u q =
     emit_bind (compileInner u q) (\<lambda>inner_query.
     emit_bind (compileRows q) (\<lambda>rows.
     emit_bind (emit_option (compileColumns u q)) (\<lambda>columns.
     emit_bind (emit_option (compileSorts q)) (\<lambda>order.
       emit_map (\<lambda>limit. [Text ''SELECT ''] @ sql_join '', '' columns @ [Text '' FROM (''] @ inner_query @ [Text '') '', Name ''secure_base''] @
           (if rows = [] then [] else [Text '' WHERE ''] @ rows) @ (if order = [] then [] else [Text '' ORDER BY ''] @ order) @ limit)
         (limit_sql q order)))))"

definition input_ok :: "(Document \<Rightarrow> bool) \<Rightarrow> Input \<Rightarrow> bool" where
  "input_ok valid q \<longleftrightarrow> supportedDialect (inDialect q) \<and> valid (inDocument q) \<and>
     (inDialect q = PostgreSQL \<longrightarrow> validatePostgreSQLDocumentIdentifiers (inDocument q)) \<and> doNodes (inDocument q) \<noteq> [] \<and>
     (dcType (doDataset (inDocument q)) = ''SINGLE_SOURCE'' \<or> inDialect q = PostgreSQL \<and> dcType (doDataset (inDocument q)) = ''CROSS_SOURCE'') \<and>
     (case limitCeiling (inDocument q) (limit_kind (inLimitKind q)) of None \<Rightarrow> False | Some n \<Rightarrow> 1 \<le> inMaxRows q \<and> inMaxRows q \<le> n)"

record CompiledQuery =
  cqSQL :: sql
  cqArgs :: "go_value list"
  cqMaxRows :: int
  cqPlanHash :: string

text \<open>\<open>valid\<close> stands for \<open>dataset.Validate\<close>.\<close>

definition prepared :: "parsers \<Rightarrow> Input \<Rightarrow> Input option" where
  "prepared ps q = map_option (\<lambda>params. q\<lparr> inParameters := params, inLimitKind := limit_kind (inLimitKind q) \<rparr>)
     (NormalizeParameters ps (doParameters (inDocument q)) (inParameters q))"

definition Compile ::
  "unicode \<Rightarrow> parsers \<Rightarrow> (Document \<Rightarrow> bool) \<Rightarrow> (compiledPlan \<Rightarrow> string) \<Rightarrow> Input \<Rightarrow> CompiledQuery option" where
  "Compile u ps valid digest q =
     (if \<not> input_ok valid q then None
      else case prepared ps q of None \<Rightarrow> None
        | Some q' \<Rightarrow> (case compile_outer u q' [] of None \<Rightarrow> None
            | Some (s, args) \<Rightarrow> if forbidden (render (inDialect q') s) then None
                else Some \<lparr> cqSQL = s, cqArgs = args, cqMaxRows = inMaxRows q',
                  cqPlanHash = compiledPlanHash digest q' (render (inDialect q') s) \<rparr>))"

section \<open>An example\<close>

text \<open>A small dataset document and a query over it, on which the properties of documents and queries are tried.\<close>

definition example_unicode :: unicode where
  "example_unicode = \<lparr> letter = (\<lambda>s. case s of [c] \<Rightarrow> letter_or_underscore c | _ \<Rightarrow> False),
     number = (\<lambda>s. case s of [c] \<Rightarrow> char_between CHR ''0'' CHR ''9'' c | _ \<Rightarrow> False) \<rparr>"

definition example_parsers :: parsers where
  "example_parsers = \<lparr> parseFloat = (\<lambda>_. False), formatDate = Some, formatDateTime = Some \<rparr>"

definition plain_node :: "string \<Rightarrow> string list \<Rightarrow> SourceFilter list \<Rightarrow> DatasetNode" where
  "plain_node i cs filters = \<lparr> ndID = i, ndType = ''TABLE'', ndDataSourceID = ''s'', ndTableID = i, ndDatasetVersionID = [], ndFileVersionID = [],
     ndAlias = i, ndProjection = cs, ndSourceFilters = filters \<rparr>"

definition plain_field :: "string \<Rightarrow> DatasetExpression \<Rightarrow> DatasetField" where
  "plain_field i e = \<lparr> dfID = i, dfCode = i, dfName = i, dfDescription = [], dfRole = ''ATTRIBUTE'', dfExpression = e, dfCanonicalType = ''DECIMAL'',
     dfSemanticType = [], dfSensitivityLevel = [], dfAggregation = [], dfFormat = [], dfUnit = [], dfNullable = True, dfVisible = Some True \<rparr>"

definition plain_filter :: "bool \<Rightarrow> DatasetExpression \<Rightarrow> DatasetFilter" where
  "plain_filter optional e = \<lparr> dflID = ''w'', dflStage = ''PRE_AGGREGATION'', dflOptional = optional, dflExpression = e \<rparr>"

definition example_document :: Document where
  "example_document = \<lparr> doDSLVersion = ''1.0'',
     doDataset = \<lparr> dcCode = ''orders'', dcName = ''orders'', dcDescription = [], dcDomain = [], dcSubject = [], dcType = ''SINGLE_SOURCE'',
       dcLayer = LayerODS, dcSourceMode = [], dcSemanticContractVersion = [], dcConsumerContractID = [], dcGrain = None \<rparr>,
     doNodes = [plain_node ''n1'' [''amount''] []], doJoins = [], doTransforms = [], doPreAggregations = [], doFactContract = None,
     doAnalysisContract = None, doFields = [plain_field ''amount'' (e_field ''n1'' ''amount'')], doDistinct = False,
     doFilters = [plain_filter False (e_binary (TyComparison Gt) (e_field ''n1'' ''amount'') (e_literal (VNumber 5)))],
     doGroupBy = [], doGroupByMode = GroupByModeStandard, doGroupingSets = [], doHaving = [], doSorts = [], doParameters = [],
     doOutputGrain = \<lparr> ogDescription = ''an order'', ogKeyFields = [], ogTimeField = [], ogDefaultTimeGrain = [] \<rparr>,
     doExecutionPolicy = \<lparr> xpMode = ''REALTIME'', xpTimeoutMS = 5000, xpPreviewLimit = 100, xpResultLimit = 1000, xpCacheTTLSeconds = 0,
       xpMaterialization = \<lparr> mpEnabled = False, mpRefreshMode = [], mpCron = [] \<rparr> \<rparr>,
     doDesigner = None, doLayerInferred = False, doLayerSpecified = True, doInferredLayer = OtherLayer [], doSourcePreview = False,
     doRuntimeRollup = False \<rparr>"

definition example_input :: "Dialect \<Rightarrow> go_value RowPolicy list \<Rightarrow> Input" where
  "example_input d rows = \<lparr> inDocument = example_document, inDialect = d,
     inTables = [(''n1'', \<lparr> trefNodeID = ''n1'', trefSchema = [], trefName = ''orders'', trefColumns = [(''amount'', True)], trefColumnTypes = [] \<rparr>)],
     inParameters = [], inAttributes = (\<lambda>a. if a = ''region'' then Some (VString ''east'') else None), inRowPolicies = rows,
     inColumnPolicies = [], inMaxRows = 10, inLimitKind = LimitPreview \<rparr>"

end
