(* ===== verification/QueryBinding.thy ===== *)
theory QueryBinding imports QueryCompiler begin

text \<open>
  Placeholders and the values they stand for. A step is \<open>bound\<close> when it only adds values and each
  placeholder of its text, those of a context apart, has the number of its value; or, with \<open>b\<close> false, when
  it adds no value and no placeholder.
\<close>

section \<open>Placeholders\<close>

fun piece_holes :: "piece \<Rightarrow> (nat \<times> go_value) list" where
  "piece_holes (Hole n v) = [(n, v)]"
| "piece_holes _ = []"

definition holes :: "sql \<Rightarrow> (nat \<times> go_value) list" where "holes q = concat (map piece_holes q)"

lemma holes_simps [simp]:
  "holes [] = []" "holes (Text s # q) = holes q" "holes (Name s # q) = holes q" "holes (Hole n v # q) = (n, v) # holes q"
  "holes (p @ q) = holes p @ holes q"
  by (simp_all add: holes_def)

lemma holes_join [simp]: "holes (sql_join sep qs) = concat (map holes qs)"
  by (induction sep qs rule: sql_join.induct) simp_all

lemma holes_wrapped [simp]: "holes (call f q) = holes q" "holes (parens q) = holes q" "holes (as_name q n) = holes q"
  by (simp_all add: call_def parens_def as_name_def)

definition numbered_in :: "go_value list \<Rightarrow> nat \<times> go_value \<Rightarrow> bool" where
  "numbered_in args p \<longleftrightarrow> 1 \<le> fst p \<and> fst p \<le> length args \<and> args ! (fst p - 1) = snd p"

lemma numbered_in_append: "numbered_in args p \<Longrightarrow> numbered_in (args @ vs) p"
  by (auto simp: numbered_in_def nth_append)

lemma those_values: "those xs = Some ys \<Longrightarrow> xs = map Some ys"
  by (induction xs arbitrary: ys) (auto split: option.splits)

lemma those_map:
  assumes "those (map f xs) = Some ys" "y \<in> set ys"
  shows "\<exists>x \<in> set xs. f x = Some y"
proof -
  have "Some y \<in> set (map f xs)" using assms by (simp add: those_values [OF assms(1)])
  then show ?thesis by auto
qed

lemma index_of_bound: "index_of ns x = Some i \<Longrightarrow> i < length ns"
  unfolding index_of_def last_entry_def by (drule map_of_SomeD) (auto dest: set_zip_rightD)

lemma places_bound: "those (map (index_of ns) ids) = Some places \<Longrightarrow> i \<in> set places \<Longrightarrow> i < length ns"
  using those_map [of "index_of ns" ids places i] index_of_bound by blast

section \<open>Bound steps\<close>

definition bound :: "bool \<Rightarrow> (nat \<times> go_value) set \<Rightarrow> ('a \<Rightarrow> (nat \<times> go_value) set) \<Rightarrow> 'a emit \<Rightarrow> bool" where
  "bound b C h m \<longleftrightarrow> (\<forall>args x args'. m args = Some (x, args') \<longrightarrow> (\<exists>vs. args' = args @ vs \<and> (b \<or> vs = [])) \<and> (\<forall>p \<in> h x. p \<in> C \<or> b \<and> numbered_in args' p))"

abbreviation texts :: "sql list \<Rightarrow> (nat \<times> go_value) set" where "texts qs \<equiv> \<Union> (set ` holes ` set qs)"

abbreviation bound_sql :: "bool \<Rightarrow> sql emit \<Rightarrow> bool" where "bound_sql b m \<equiv> bound b {} (\<lambda>q. set (holes q)) m"

named_theorems bound_intros

lemma bound_fail [bound_intros]: "bound b C h emit_fail" by (simp add: bound_def emit_fail_def)

lemma bound_return [bound_intros]: "h x \<subseteq> C \<Longrightarrow> bound b C h (emit_return x)" by (auto simp: bound_def emit_return_def)

lemma bound_option [bound_intros]: "(\<And>y. x = Some y \<Longrightarrow> h y \<subseteq> C) \<Longrightarrow> bound b C h (emit_option x)"
  by (cases x) (auto simp: emit_option_def bound_fail intro: bound_return)

lemma bound_weaken: "bound b D h m \<Longrightarrow> D \<subseteq> C \<Longrightarrow> bound b C h m" unfolding bound_def by blast

lemma bound_emit_bind:
  assumes m: "bound b C h m" and f: "\<And>x. bound b (C \<union> h x) g (f x)"
  shows "bound b C g (emit_bind m f)"
  unfolding bound_def
proof (intro allI impI)
  fix args y args' assume r: "emit_bind m f args = Some (y, args')"
  then obtain x args1 where a: "m args = Some (x, args1)" "f x args1 = Some (y, args')"
    by (auto simp: emit_bind_def split: option.splits)
  obtain vs where v: "args1 = args @ vs" "b \<or> vs = []" "\<forall>p \<in> h x. p \<in> C \<or> b \<and> numbered_in args1 p" using m a(1) unfolding bound_def by blast
  obtain ws where w: "args' = args1 @ ws" "b \<or> ws = []" "\<forall>p \<in> g y. p \<in> C \<union> h x \<or> b \<and> numbered_in args' p"
    using f [of x] a(2) unfolding bound_def by blast
  have "p \<in> C \<or> b \<and> numbered_in args' p" if p: "p \<in> g y" for p
    using w(3) p v(3) numbered_in_append [of args1 p ws] w(1) by blast
  then show "(\<exists>vs. args' = args @ vs \<and> (b \<or> vs = [])) \<and> (\<forall>p \<in> g y. p \<in> C \<or> b \<and> numbered_in args' p)" using v(1,2) w(1,2) by auto
qed

lemmas bound_bind_sql = bound_emit_bind [where h = "\<lambda>q. set (holes q)"]
lemmas bound_bind_list = bound_emit_bind [where h = texts]

lemma bound_map: "bound b C h m \<Longrightarrow> (\<And>x. g (f x) \<subseteq> C \<union> h x) \<Longrightarrow> bound b C g (emit_map f m)"
  unfolding emit_map_def by (rule bound_emit_bind) (auto intro: bound_return)

lemma bound_all: "(\<And>m. m \<in> set ms \<Longrightarrow> bound b C h m) \<Longrightarrow> bound b C (\<lambda>xs. \<Union> (h ` set xs)) (emit_all ms)"
proof (induction ms)
  case (Cons m ms)
  have "bound b C h m" "bound b C (\<lambda>xs. \<Union> (h ` set xs)) (emit_all ms)" using Cons by simp_all
  then show ?case by (auto intro!: bound_emit_bind bound_return intro: bound_weaken)
qed (simp add: bound_return)

lemma bound_bind [bound_intros]: "b \<Longrightarrow> bound b C (\<lambda>q. set (holes q)) (bind v)"
  by (auto simp: bound_def bind_def numbered_in_def)

lemma bound_part: "bound_sql b m \<Longrightarrow> bound b C (\<lambda>q. set (holes q)) m" by (erule bound_weaken) simp

lemma bound_parts:
  assumes "\<And>m. m \<in> set ms \<Longrightarrow> bound_sql b m"
  shows "bound b C texts (emit_all ms)"
  using bound_all [of ms b C "\<lambda>q. set (holes q)"] assms by (simp add: image_image bound_part)

lemma bound_bind_part:
  "bound_sql b m \<Longrightarrow> (\<And>x. bound b (C \<union> set (holes x)) g (f x)) \<Longrightarrow> bound b C g (emit_bind m f)"
  by (rule bound_bind_sql) (rule bound_part)

lemma bound_bind_parts:
  "(\<And>m. m \<in> set ms \<Longrightarrow> bound_sql b m) \<Longrightarrow> (\<And>xs. bound b (C \<union> texts xs) g (f xs)) \<Longrightarrow> bound b C g (emit_bind (emit_all ms) f)"
  by (rule bound_bind_list) (rule bound_parts)

lemma bound_map_part: "bound_sql b m \<Longrightarrow> (\<And>x. g (f x) \<subseteq> C \<union> set (holes x)) \<Longrightarrow> bound b C g (emit_map f m)"
  by (rule bound_map) (rule bound_part)

lemma bound_map_parts:
  "(\<And>m. m \<in> set ms \<Longrightarrow> bound_sql b m) \<Longrightarrow> (\<And>xs. g (f xs) \<subseteq> C \<union> texts xs) \<Longrightarrow> bound b C g (emit_map f (emit_all ms))"
  by (rule bound_map) (rule bound_parts)

lemma bound_collection [bound_intros]: "b \<Longrightarrow> bound b C (\<lambda>q. set (holes q)) (bindCollection v)"
  unfolding bindCollection_def
  by (auto intro!: bound_map_parts bound_intros split: go_value.split)

end
