(* ===== verification/QueryNumbering.thy ===== *)
theory QueryNumbering imports QueryBinding begin

text \<open>
  Every expression is compiled by a bound step.
\<close>

section \<open>Dates\<close>

lemma holes_date_part: "datePartExpression d u a = Some q \<Longrightarrow> set (holes q) \<subseteq> set (holes a)"
  by (auto simp: datePartExpression_def split: Dialect.splits if_splits option.splits)

lemma holes_date_boundary:
  "dateBoundaryStartExpression d u a = Some q \<Longrightarrow> set (holes q) \<subseteq> set (holes a)"
  "dateBoundaryEndExpression d u a = Some q \<Longrightarrow> set (holes q) \<subseteq> set (holes a)"
  by (auto simp: dateBoundaryStartExpression_def dateBoundaryEndExpression_def split: Dialect.splits if_splits)

lemma holes_date_trunc: "date_trunc_sql d u a = Some q \<Longrightarrow> set (holes q) \<subseteq> set (holes a)"
  by (auto simp: date_trunc_sql_def split: Dialect.splits if_splits)

lemma holes_date_format: "date_format_sql d u a = Some q \<Longrightarrow> set (holes q) \<subseteq> set (holes a)"
  by (auto simp: date_format_sql_def split: if_splits option.splits)

lemma holes_date_diff: "date_diff_sql d u s e = Some q \<Longrightarrow> set (holes q) \<subseteq> set (holes s) \<union> set (holes e)"
  by (auto simp: date_diff_sql_def split: Dialect.splits if_splits bind_splits dest!: holes_date_part)

lemma holes_current_date: "holes (current_date_sql d) = []" by (simp add: current_date_sql_def)

lemmas holes_dates = holes_date_part holes_date_boundary holes_date_trunc holes_date_format

section \<open>Nodes\<close>

lemma bound_required [bound_intros]:
  "(\<And>m. p = Some m \<Longrightarrow> bound_sql b m) \<Longrightarrow> bound b C (\<lambda>q. set (holes q)) (required_part p)"
  by (cases p) (auto simp: required_part_def intro: bound_part bound_intros)

lemma bound_two_parts:
  assumes "\<And>m. m \<in> set ms \<Longrightarrow> bound_sql b m" "\<And>a b q. f a b = Some q \<Longrightarrow> set (holes q) \<subseteq> set (holes a) \<union> set (holes b)"
  shows "bound_sql b (two_parts ms f)"
proof -
  have "bound_sql b (emit_bind x (\<lambda>a. emit_bind y (\<lambda>b. emit_option (f a b))))" if "ms = [x, y]" for x y
    using assms that by (intro bound_bind_part bound_option) auto
  then show ?thesis unfolding two_parts_def by (auto intro: bound_intros split: list.splits)
qed

lemma bound_context: "bound_sql b m \<Longrightarrow> (\<And>a q. f a = Some q \<Longrightarrow> set (holes q) \<subseteq> set (holes a)) \<Longrightarrow>
    bound_sql b (emit_bind m (\<lambda>a. emit_option (f a)))"
  by (rule bound_bind_part) (auto intro!: bound_option)

lemma bound_period:
  assumes "\<And>o1 w. (o1, w) \<in> set ob \<Longrightarrow> bound_sql b o1" "\<And>q w. set (holes (f q w)) \<subseteq> C \<union> set (holes q)"
  shows "bound b C (\<lambda>q. set (holes q)) (case ob of [(o1, w)] \<Rightarrow> emit_bind o1 (\<lambda>q. if w \<noteq> x then emit_fail else emit_return (f q w)) | _ \<Rightarrow> emit_fail)"
proof (cases "\<exists>o1 w. ob = [(o1, w)]")
  case True
  then obtain o1 w where o: "ob = [(o1, w)]" by blast
  then have "bound_sql b o1" using assms(1) by simp
  then show ?thesis using o by (auto intro!: bound_bind_part bound_fail bound_return dest!: subsetD [OF assms(2)])
next
  case False
  then show ?thesis by (auto intro: bound_fail split: list.splits)
qed

lemma bound_aggregate:
  assumes "\<And>m. arg = Some m \<Longrightarrow> bound_sql b m" "\<And>o1 w. (o1, w) \<in> set ob \<Longrightarrow> bound_sql b o1"
  shows "bound_sql b (aggregate_sql d fn arg ob)"
proof -
  have "bound_sql b (case arg of None \<Rightarrow> emit_return [Text ''*''] | Some m \<Rightarrow> m)"
    using assms(1) by (cases arg) (auto intro: bound_return)
  then show ?thesis unfolding aggregate_sql_def
    by (rule bound_bind_part) (simp add: bound_fail bound_return assms(2) bound_period [where f = "\<lambda>q w. [Text ''(ARRAY_AGG(''] @ _ @ [Text '' ORDER BY ''] @ q @ [Text ('' '' @ w @ '' NULLS LAST))[1]'')]", simplified])
qed

lemma bound_window_order: "bound_sql b (fst p) \<Longrightarrow> bound_sql b (window_order p)"
  unfolding window_order_def by (auto intro!: bound_bind_part bound_fail bound_return)

lemma bound_window:
  assumes "\<And>m. arg = Some m \<Longrightarrow> bound_sql b m" "\<And>m. m \<in> set pb \<Longrightarrow> bound_sql b m" "\<And>p. p \<in> set ob \<Longrightarrow> bound_sql b (fst p)"
  shows "bound_sql b (window_sql fn arg pb ob)"
proof -
  have o: "bound b C texts (emit_all (map window_order ob))" for C
    using assms(3) by (intro bound_parts) (auto intro: bound_window_order)
  show ?thesis unfolding window_sql_def Let_def
    using assms(1,2) by (auto simp: bound_fail intro!: bound_bind_list [OF bound_parts] bound_bind_list [OF o] bound_bind_part bound_return bound_required)
qed

lemma bound_date:
  assumes "\<And>m. arg = Some m \<Longrightarrow> bound_sql b m" "\<And>m. m \<in> set args \<Longrightarrow> bound_sql b m"
  shows "bound_sql b (date_sql d t u arg args)"
  using assms by (cases t) (simp_all add: date_sql_def bound_return holes_current_date bound_two_parts holes_date_diff
      bound_context bound_required holes_date_part holes_date_boundary holes_date_trunc holes_date_format)

lemma bound_in_values:
  assumes "\<And>m. m \<in> set (fst (snd r)) \<Longrightarrow> bound_sql b m" "deType (fst r) \<in> {TyLiteral, TyParamRef} \<Longrightarrow> b"
  shows "bound b C (\<lambda>q. set (holes q)) (in_values sc r)"
  using assms unfolding in_values_def
  by (auto intro!: bound_map_parts bound_fail bound_collection split: NodeType.split option.split prod.split)

lemma bound_comparison:
  assumes "\<And>m. l = Some m \<Longrightarrow> bound_sql b m" "\<And>p m. r = Some p \<Longrightarrow> m \<in> set (fst (snd p)) \<Longrightarrow> bound_sql b m"
    "\<And>p. r = Some p \<Longrightarrow> bound_sql b (snd (snd p))" "\<And>p. r = Some p \<Longrightarrow> deType (fst p) \<in> {TyLiteral, TyParamRef} \<Longrightarrow> b"
  shows "bound_sql b (comparison_sql sc t l r)"
proof (cases "\<exists>m p. l = Some m \<and> r = Some p")
  case True
  then obtain m p where lr: "l = Some m" "r = Some p" by blast
  have vals: "bound b C (\<lambda>q. set (holes q)) (in_values sc p)" for C using assms(2) [OF lr(2)] assms(4) [OF lr(2)] by (rule bound_in_values)
  show ?thesis unfolding comparison_sql_def lr option.case
    by (rule bound_bind_part [OF assms(1) [OF lr(1)]])
      (auto intro!: bound_map [OF vals] bound_bind_part [OF assms(3) [OF lr(2)]] bound_return bound_option)
next
  case False
  then show ?thesis unfolding comparison_sql_def by (auto intro: bound_fail split: option.split)
qed

lemma bound_case:
  assumes "\<And>w t. (w, t) \<in> set whens \<Longrightarrow> bound_sql b w \<and> bound_sql b t" "\<And>m. els = Some m \<Longrightarrow> bound_sql b m"
  shows "bound_sql b (case_sql whens els)"
proof -
  have "bound_sql b (case_branch p)" if "p \<in> set whens" for p
    using assms(1) [of "fst p" "snd p"] that unfolding case_branch_def by (auto intro!: bound_bind_part bound_map_part)
  then have branches: "bound b C texts (emit_all (map case_branch whens))" for C by (intro bound_parts) auto
  have other: "bound b C texts (case els of None \<Rightarrow> emit_return [] | Some m \<Rightarrow> emit_map (\<lambda>q. [[Text ''ELSE ''] @ q]) m)" for C
    using assms(2) by (cases els) (auto intro!: bound_return bound_map_part)
  show ?thesis unfolding case_sql_def by (auto intro!: bound_bind_list [OF branches] bound_bind_list [OF other] bound_return)
qed

lemma bound_between:
  assumes "\<And>m. l = Some m \<Longrightarrow> bound_sql b m" "\<And>m. lo = Some m \<Longrightarrow> bound_sql b m" "\<And>m. up = Some m \<Longrightarrow> bound_sql b m"
  shows "bound_sql b (emit_bind (required_part l) (\<lambda>a. emit_bind (required_part lo) (\<lambda>b. emit_bind (required_part up) (\<lambda>c.
     emit_return ([Text ''(''] @ a @ [Text '' BETWEEN ''] @ b @ [Text '' AND ''] @ c @ [Text '')''])))))"
  using assms by (intro bound_bind_part bound_required bound_return) auto

lemma bound_node:
  assumes "\<And>m. arg = Some m \<Longrightarrow> bound_sql b m" "\<And>m. m \<in> set args \<Longrightarrow> bound_sql b m"
    "\<And>m. l = Some m \<Longrightarrow> bound_sql b m" "\<And>p m. r = Some p \<Longrightarrow> m \<in> set (fst (snd p)) \<Longrightarrow> bound_sql b m"
    "\<And>p. r = Some p \<Longrightarrow> bound_sql b (snd (snd p))" "\<And>m. lo = Some m \<Longrightarrow> bound_sql b m" "\<And>m. up = Some m \<Longrightarrow> bound_sql b m"
    "\<And>w t. (w, t) \<in> set whens \<Longrightarrow> bound_sql b w \<and> bound_sql b t" "\<And>m. els = Some m \<Longrightarrow> bound_sql b m"
    "\<And>m. m \<in> set pb \<Longrightarrow> bound_sql b m" "\<And>p. p \<in> set ob \<Longrightarrow> bound_sql b (fst p)"
    "\<And>p. r = Some p \<Longrightarrow> deType (fst p) \<in> {TyLiteral, TyParamRef} \<Longrightarrow> b" "ty \<in> {TyLiteral, TyParamRef} \<Longrightarrow> b"
  shows "bound_sql b (node_sql sc ty n f c fn u tt v arg args l r lo up whens els pb ob)"
proof -
  have args: "bound_sql b (emit_map g (emit_all args))" if "\<And>xs. holes (g xs) = concat (map holes xs)" for g
    using assms(2) that by (intro bound_map_parts) auto
  have required: "bound_sql b (required_part arg)" using assms(1) by (rule bound_required)
  have field: "bound_sql b (field_sql sc n f)" unfolding field_sql_def by (auto intro!: bound_fail bound_return split: option.split)
  have param: "bound_sql b (param_sql sc c)" if b for b using that unfolding param_sql_def by (auto intro!: bound_fail bound_bind split: option.split)
  have two: "bound_sql b (two_parts args (\<lambda>a b. Some ([Text ''NULLIF(''] @ a @ [Text '',''] @ b @ [Text '')''])))"
    using assms(2) by (intro bound_two_parts) auto
  have cast: "bound_sql b (emit_bind (required_part arg) (\<lambda>a. emit_option
      (map_option (\<lambda>t. [Text ''CAST(''] @ a @ [Text ('' AS '' @ t @ '')'')]) (cast_type (scDialect sc) tt))))"
    by (rule bound_context) (auto intro: required)
  have aggregate: "bound_sql b (aggregate_sql (scDialect sc) fn arg ob)"
    using assms(1,11) by (intro bound_aggregate) (auto simp: Ball_def)
  have compare: "bound_sql b (comparison_sql sc t l r)" for t
    using assms(3,4,5,12) by (intro bound_comparison) auto
  have test: "holes (test_sql t a) = holes a" for t a by (cases t) (simp_all add: test_sql_def)
  show ?thesis
    by (cases ty) (simp_all add: node_sql_def bound_fail bound_bind field param two [simplified] cast [simplified] args bound_date assms aggregate
        bound_window compare bound_between [simplified] bound_case bound_map_part [OF required] test)
qed

section \<open>Expressions\<close>

text \<open>The direct parts of an expression, and induction over them.\<close>

definition direct_parts :: "DatasetExpression \<Rightarrow> DatasetExpression set" where
  "direct_parts e = set_option (deArgument e) \<union> set (deArguments e) \<union> set_option (deLeft e) \<union> set_option (deRight e) \<union>
     set_option (deLower e) \<union> set_option (deUpper e) \<union> fst ` set (deWhens e) \<union> snd ` set (deWhens e) \<union> set_option (deElse e) \<union>
     set (dePartitionBy e) \<union> fst ` set (deOrderBy e)"

lemma expression_induct:
  assumes "\<And>e. (\<And>x. x \<in> direct_parts e \<Longrightarrow> P x) \<Longrightarrow> P e"
  shows "P e"
proof (induction e)
  case (DatasetExpression ty n f c fn u tt v arg args l r lo up whens els pb ob)
  note IH = DatasetExpression.IH
  have whens: "P (fst p) \<and> P (snd p)" if "p \<in> set whens" for p
    using IH(7) [OF that] IH(8) [OF that] by (cases p) auto
  have ob: "P (fst p)" if "p \<in> set ob" for p
    using IH(11) [OF that] by (cases p) auto
  show ?case
    by (rule assms) (use IH(1-6,9,10) whens ob in \<open>auto simp: direct_parts_def\<close>)
qed

lemma subexpressions_parts: "set (subexpressions e) = insert e (\<Union> (set ` subexpressions ` direct_parts e))"
  by (cases e) (force simp: subexpressions.simps direct_parts_def split: option.splits)

text \<open>An expression that holds no values binds none.\<close>

definition valueless :: "DatasetExpression \<Rightarrow> bool" where
  "valueless e \<longleftrightarrow> (\<forall>x \<in> set (subexpressions e). deType x \<notin> {TyLiteral, TyParamRef})"

lemma valueless_parts: "valueless e \<longleftrightarrow> deType e \<notin> {TyLiteral, TyParamRef} \<and> (\<forall>x \<in> direct_parts e. valueless x)"
  unfolding valueless_def subexpressions_parts [of e] by auto

lemma compile_part_expression: "fst (compile_part sc e) = e"
  by (cases e) (simp add: compile_part.simps)

lemma compile_part_arguments: "fst (snd (compile_part sc e)) = map (expression sc) (deArguments e)"
  by (cases e) (simp add: compile_part.simps expression_def)

lemma compile_part_triple: "compile_part sc e = (e, map (expression sc) (deArguments e), expression sc e)"
  by (simp add: prod_eq_iff compile_part_expression compile_part_arguments expression_def)

text \<open>An expression is compiled from its parts.\<close>

lemma expression_node:
  "expression sc e = node_sql sc (deType e) (deNodeID e) (deField e) (deCode e) (deFunction e) (deUnit e) (deTargetType e) (deValue e)
     (map_option (expression sc) (deArgument e)) (map (expression sc) (deArguments e)) (map_option (expression sc) (deLeft e))
     (map_option (compile_part sc) (deRight e)) (map_option (expression sc) (deLower e)) (map_option (expression sc) (deUpper e))
     (map (map_prod (expression sc) (expression sc)) (deWhens e)) (map_option (expression sc) (deElse e))
     (map (expression sc) (dePartitionBy e)) (map (map_prod (expression sc) id) (deOrderBy e))"
  by (cases e) (simp add: expression_def [abs_def] compile_part.simps comp_def option.map_comp map_prod_def split_def)

lemma bound_expression_parts:
  "b \<or> valueless e \<Longrightarrow> bound_sql b (expression sc e) \<and> (\<forall>x \<in> direct_parts e. bound_sql b (expression sc x))"
proof (induction e rule: expression_induct)
  case (1 e)
  have v: "b \<or> valueless x" if "x \<in> direct_parts e" for x using 1(2) valueless_parts [of e] that by blast
  have IH: "bound_sql b (expression sc x)" if "x \<in> direct_parts e" for x using 1(1) [OF that v [OF that]] by simp
  have IH2: "bound_sql b (expression sc y)" if "x \<in> direct_parts e" "y \<in> direct_parts x" for x y
    using 1(1) [OF that(1) v [OF that(1)]] that(2) by simp
  have self: "deType e \<in> {TyLiteral, TyParamRef} \<Longrightarrow> b" using 1(2) valueless_parts [of e] by blast
  have r: "deType x \<in> {TyLiteral, TyParamRef} \<Longrightarrow> b" if "x \<in> direct_parts e" for x using v [OF that] valueless_parts [of x] by blast
  have "bound_sql b (expression sc e)"
    unfolding expression_node [of sc e]
  proof (rule bound_node)
    fix p assume "map_option (compile_part sc) (deRight e) = Some p"
    then obtain x where x: "deRight e = Some x" "p = compile_part sc x" by auto
    then have p: "x \<in> direct_parts e" by (simp add: direct_parts_def)
    show "bound_sql b (snd (snd p))" "deType (fst p) \<in> {TyLiteral, TyParamRef} \<Longrightarrow> b"
      using IH [OF p] r [OF p] by (simp_all add: x(2) compile_part_triple)
    show "bound_sql b m" if "m \<in> set (fst (snd p))" for m
      using that IH2 [OF p] by (auto simp: x(2) compile_part_triple direct_parts_def)
  qed (use IH self in \<open>auto simp: direct_parts_def rev_image_eqI\<close>)
  then show ?case using IH by blast
qed

lemma bound_expression: "b \<or> valueless e \<Longrightarrow> bound_sql b (expression sc e)"
  using bound_expression_parts by blast

end
