(* ===== verification/QueryNumbered.thy ===== *)
theory QueryNumbered imports QueryNumbering begin

text \<open>
  The whole query is compiled by a bound step, in a dialect whose placeholders have numbers: the value
  of each placeholder stands at its number in the list of values. A table derived before a join counts
  from one again, so this is the case when such tables bind nothing.
\<close>

section \<open>Filters and groups\<close>

definition quiet_filter :: "SourceFilter \<Rightarrow> bool" where
  "quiet_filter f = (case sfExpression f of Some e \<Rightarrow> valueless e | None \<Rightarrow> sfOperator f \<in> {''IS_NULL'', ''IS_NOT_NULL''})"

definition quiet_table :: "Document \<Rightarrow> PreAggregation \<Rightarrow> bool" where
  "quiet_table doc item \<longleftrightarrow> list_all (\<lambda>g. case pagExpression g of None \<Rightarrow> True | Some e \<Rightarrow> valueless e) (paGroupBy item) \<and>
     list_all (\<lambda>m. pamCountRows m \<or> (case pamExpression m of None \<Rightarrow> True | Some e \<Rightarrow> valueless e)) (paMetrics item) \<and>
     list_all (\<lambda>n. ndID n = paNodeID item \<longrightarrow> list_all quiet_filter (ndSourceFilters n)) (doNodes doc)"

lemma bound_plain_filter:
  "b \<or> sfOperator f \<in> {''IS_NULL'', ''IS_NOT_NULL''} \<Longrightarrow> bound_sql b (plain_filter_sql q n a f)"
  unfolding plain_filter_sql_def Let_def
  by (auto intro!: bound_fail bound_return bound_map_part [OF bound_bind] bound_map_part [OF bound_collection] split: option.split)

lemma bound_source_filter: "b \<or> quiet_filter f \<Longrightarrow> bound_sql b (sourceFilterExpression q n al a f)"
  unfolding sourceFilterExpression_def
  by (auto simp: quiet_filter_def intro!: bound_expression bound_plain_filter split: option.splits)

lemma bound_grouping_sets:
  assumes "\<And>d e. dims d = Some e \<Longrightarrow> b \<or> valueless e"
  shows "bound b C texts (grouping_sets_sql sc dims sets)"
  unfolding grouping_sets_sql_def
proof (rule bound_parts)
  have d: "bound_sql b (case dims d of None \<Rightarrow> emit_fail | Some e \<Rightarrow> expression sc e)" for d
    using assms [of d] by (cases "dims d") (simp_all add: bound_fail bound_expression)
  fix m assume "m \<in> set (map (\<lambda>s. emit_map (\<lambda>vs. parens (sql_join '', '' vs))
     (emit_all (map (\<lambda>d. case dims d of None \<Rightarrow> emit_fail | Some e \<Rightarrow> expression sc e) s))) sets)"
  then show "bound_sql b m"
    using d by (auto intro!: bound_map_parts)
qed

lemma holes_names [simp]: "concat (map holes (map (\<lambda>n. [Name n]) ns)) = []" by (induction ns) simp_all

lemma bound_group_clause:
  assumes "\<And>d e. dims d = Some e \<Longrightarrow> b \<or> valueless e" "texts groups \<subseteq> C"
  shows "bound b C (\<lambda>q. set (holes q)) (group_clause sc mode groups (map (\<lambda>n. [Name n]) names) dims sets)"
  using assms(2) unfolding group_clause_def Let_def
  by (auto intro!: bound_return bound_map [OF bound_grouping_sets [OF assms(1)]] split: GroupByMode.split)

lemma holes_select [simp]:
  "holes (select_sql s ps t fs g h) = concat (map holes ps) @ holes t @ concat (map holes fs) @ holes g @ concat (map holes h)"
  by (simp add: select_sql_def)

lemma holes_table [simp]: "holes (table_name_sql ref) = []" by (simp add: table_name_sql_def)

lemma texts_as_name: "texts (map2 as_name qs ns) \<subseteq> texts qs"
  by (auto dest: set_zip_leftD)

lemma texts_select: "set (holes (select_sql s (map2 as_name x ns @ map2 as_name y ms) t fs g h)) \<subseteq>
    texts x \<union> texts y \<union> set (holes t) \<union> texts fs \<union> set (holes g) \<union> texts h"
  using texts_as_name [of x ns] texts_as_name [of y ms] by fastforce

lemma not_mysql: "numbered d \<Longrightarrow> d \<noteq> MySQL" by (auto simp: numbered_def)

lemma not_expanded: "numbered d \<Longrightarrow> \<not> expanded_grouping d mode" by (auto simp: numbered_def expanded_grouping_def)

section \<open>Derived tables\<close>

lemma valueless_made:
  "valueless (e_field n f)" "valueless (e_trunc u a) \<longleftrightarrow> valueless a"
  "valueless (preaggregate_expression n m) \<longleftrightarrow> pamCountRows m \<or> (case pamExpression m of None \<Rightarrow> True | Some e \<Rightarrow> valueless e)"
proof -
  have f: "valueless (e_field n f)" for n f by (subst valueless_parts) (simp add: e_field_def direct_parts_def)
  then show "valueless (e_field n f)" .
  show "valueless (e_trunc u a) \<longleftrightarrow> valueless a" by (subst valueless_parts) (simp add: e_trunc_def direct_parts_def)
  show "valueless (preaggregate_expression n m) \<longleftrightarrow> pamCountRows m \<or> (case pamExpression m of None \<Rightarrow> True | Some e \<Rightarrow> valueless e)"
    by (subst valueless_parts) (use f in \<open>auto simp: preaggregate_expression_def direct_parts_def split: option.split\<close>)
qed

lemma quiet_group:
  "quiet_table doc item \<Longrightarrow> g \<in> set (paGroupBy item) \<Longrightarrow> valueless (group_expression n g)"
  by (auto simp: quiet_table_def list_all_iff group_expression_def Let_def valueless_made split: option.splits)

lemma quiet_metric: "quiet_table doc item \<Longrightarrow> m \<in> set (paMetrics item) \<Longrightarrow> valueless (preaggregate_expression n m)"
  by (auto simp: quiet_table_def list_all_iff valueless_made)

lemma last_entry_zip: "last_entry (zip xs ys) x = Some y \<Longrightarrow> y \<in> set ys"
  unfolding last_entry_def by (drule map_of_SomeD) (auto dest: set_zip_rightD)

lemma bound_derived_table:
  assumes q: "numbered (inDialect q)" and quiet: "b \<or> quiet_table (inDocument q) item \<and> list_all quiet_filter (ndSourceFilters node)"
  shows "bound_sql b (derived_table q item node ref)"
proof -
  let ?names = "\<lambda>n. if n = ndID node then ''pre_source'' else []"
  let ?es = "map (expression (query_scope q ?names)) (map (group_expression (ndID node)) (paGroupBy item))"
  have g: "bound_sql b m" if "m \<in> set ?es" for m
    using that quiet_group [of "inDocument q" item] quiet by (auto intro!: bound_expression)
  have groups: "bound b C texts (emit_all ?es)" for C by (rule bound_parts) (rule g)
  have again: "bound b (C \<union> texts gs) texts (if x then emit_all ?es else emit_return gs)" for C gs x
    using groups by (auto intro: bound_return)
  have metrics: "bound b C texts (emit_all (map (\<lambda>m. expression (query_scope q ?names) (preaggregate_expression (ndID node) m)) (paMetrics item)))" for C
    using quiet_metric [of "inDocument q" item] quiet by (intro bound_parts) (auto intro!: bound_expression)
  have filters: "bound b C texts (emit_all (map (sourceFilterExpression q (ndID node) ?names (?names (ndID node))) (ndSourceFilters node)))" for C
    using quiet by (intro bound_parts) (auto intro!: bound_source_filter simp: list_all_iff)
  have dims: "b \<or> valueless e" if "last_entry (zip (map pagField (paGroupBy item)) (map (group_expression (ndID node)) (paGroupBy item))) d = Some e" for d e
    using last_entry_zip [OF that] quiet_group [of "inDocument q" item] quiet by auto
  show ?thesis
    unfolding derived_table_def Let_def if_not_P [OF not_expanded [OF q]]
    apply (rule bound_bind_list [OF groups], rule bound_bind_list [OF metrics], rule bound_bind_list [OF filters])
    apply (rule bound_bind_list [OF bound_weaken [OF again [where C = "{}"]]], force)
    apply (rule bound_bind_sql, rule bound_group_clause [OF dims], assumption, force)
    apply (rule bound_map, rule bound_return, rule subset_trans [OF texts_select], auto)
    done
qed

abbreviation table_holes :: "sql \<times> go_value list \<Rightarrow> (nat \<times> go_value) set" where "table_holes r \<equiv> set (holes (fst r))"

lemma bound_nested: "bound_sql False m \<Longrightarrow> bound b C table_holes (emit_nested m)"
  by (fastforce simp: bound_def emit_nested_def split: option.splits)

lemma preAggregation_item: "preAggregation doc n = Some item \<Longrightarrow> item \<in> set (doPreAggregations doc) \<and> paNodeID item = n"
  unfolding preAggregation_def by (auto simp: find_Some_iff)

definition quiet_tables :: "Document \<Rightarrow> bool" where
  "quiet_tables doc \<longleftrightarrow> list_all (quiet_table doc) (doPreAggregations doc)"

lemma bound_relation:
  assumes "numbered (inDialect q)" "quiet_tables (inDocument q)" "node \<in> set (doNodes (inDocument q)) \<or> ndSourceFilters node = []"
  shows "bound b C table_holes (nodeRelation q node ref)"
proof (cases "preAggregation (inDocument q) (ndID node)")
  case (Some item)
  then have i: "quiet_table (inDocument q) item" "paNodeID item = ndID node"
    using assms(2) preAggregation_item [OF Some] by (auto simp: quiet_tables_def list_all_iff)
  then have "list_all quiet_filter (ndSourceFilters node)" using assms(3) by (auto simp: quiet_table_def list_all_iff)
  then show ?thesis using bound_derived_table [OF assms(1), of False] i(1) Some by (simp add: nodeRelation_def bound_nested)
qed (simp add: nodeRelation_def bound_return)

lemma documentNode_in: "documentNode doc n \<in> set (doNodes doc) \<or> ndSourceFilters (documentNode doc n) = []"
  unfolding documentNode_def by (auto simp: find_Some_iff split: option.split)

section \<open>The inner query\<close>

lemma bound_join_condition: "bound_sql True (join_condition_sql sc c)"
  unfolding join_condition_sql_def by (intro bound_bind_part bound_expression bound_option) auto

lemma bound_join:
  assumes "numbered (inDialect q)" "quiet_tables (inDocument q)"
  shows "bound True C table_holes (compile_join q sc j)"
proof -
  have c: "bound True C texts (emit_all (map (join_condition_sql sc) (djConditions j)))" for C
    by (rule bound_parts) (auto intro: bound_join_condition)
  show ?thesis
    unfolding compile_join_def
    by (auto intro!: bound_fail bound_bind_list [OF c] bound_map [OF bound_relation [OF assms documentNode_in]] split: option.split)
qed

lemma bound_nodes:
  assumes "numbered (inDialect q)" "quiet_tables (inDocument q)"
  shows "set ns \<subseteq> set (doNodes (inDocument q)) \<Longrightarrow> table_holes start \<subseteq> C \<Longrightarrow> bound True C table_holes (compile_nodes u q base ns start)"
proof (induction ns arbitrary: start C)
  case (Cons n ns)
  have rest: "bound True C table_holes (compile_nodes u q base ns start')" if "table_holes start' \<subseteq> C" for start' C
    using Cons that by simp
  have "bound True C table_holes (emit_bind (nodeRelation q n ref) (\<lambda>(relation, vs).
           compile_nodes u q base ns (relation @ [Text '' '', Name (ndAlias n)], snd start @ vs)))" for ref
    using Cons.prems(1) by (intro bound_emit_bind [OF bound_relation [OF assms]]) (auto intro!: rest)
  then show ?case using rest Cons.prems(2) by (auto intro: bound_fail split: option.split)
qed (simp add: bound_return)

lemma bound_append: "bound True C (\<lambda>_. {}) (emit_append vs)" by (simp add: bound_def emit_append_def)

lemma bound_where: "bound True C texts (emit_all (where_filters q sc))"
  by (rule bound_parts) (auto simp: where_filters_def intro: bound_source_filter bound_expression)

lemma bound_minimum: "bound True C texts (minimum_size_sql q)"
  unfolding minimum_size_sql_def by (auto intro!: bound_return bound_fail bound_map [OF bound_bind])

lemma bound_expressions: "bound True C texts (emit_all (map (\<lambda>x. expression sc (f x)) xs))"
  by (rule bound_parts) (auto intro: bound_expression)

lemma native_numbered: "numbered d \<Longrightarrow> native_grouping d mode \<longleftrightarrow> mode \<noteq> GroupByModeSets"
  by (auto simp: native_grouping_def numbered_def)

lemma holes_concat: "holes (concat qs) = concat (map holes qs)" by (induction qs) simp_all

lemma texts_inner: "set (holes (select_sql s (map2 as_name x ns) (t @ concat (map fst js)) fs g (h1 @ h2))) \<subseteq>
    texts x \<union> set (holes t) \<union> \<Union> (table_holes ` set js) \<union> texts fs \<union> set (holes g) \<union> texts h1 \<union> texts h2"
  using texts_as_name [of x ns] by (fastforce simp: holes_concat)

lemma bound_inner:
  assumes q: "numbered (inDialect q)" "quiet_tables (inDocument q)"
  shows "bound_sql True (compileInner u q)"
proof -
  have tables: "bound True C table_holes (compile_nodes u q base (doNodes (inDocument q)) ([], []))" for C base
    by (rule bound_nodes [OF q]) simp_all
  have joins: "bound True C (\<lambda>xs. \<Union> (table_holes ` set xs)) (emit_all (map (compile_join q sc) js))" for C sc js
    by (rule bound_all) (auto intro: bound_join [OF q])
  have order: "bound True C (\<lambda>_. {}) (emit_option x)" for C and x :: "'x option" by (rule bound_option) simp
  have groups: "bound True C texts (if mode = GroupByModeSets then emit_return []
      else if native_grouping (inDialect q) mode then emit_all (map (\<lambda>x. expression sc (f x)) xs) else emit_return ys)" for C mode sc f xs ys
    using bound_expressions [of C sc f xs] by (simp add: native_numbered [OF q(1)] bound_return)
  show ?thesis
    unfolding compileInner_def Let_def if_not_P [OF not_expanded [OF q(1)]] split_beta
    apply (rule bound_emit_bind [OF tables], rule bound_emit_bind [OF order], rule bound_emit_bind [OF joins])
    apply (rule bound_bind_list [OF bound_expressions], rule bound_emit_bind [OF bound_append], rule bound_bind_list [OF bound_where])
    apply (rule bound_emit_bind [OF order], rule bound_bind_list [OF groups])
    apply (rule bound_bind_sql, rule bound_group_clause, simp, force)
    apply (rule bound_bind_list, rule bound_expressions [where f = "\<lambda>x. x"])
    apply (rule bound_bind_list [OF bound_minimum])
    apply (rule bound_return, rule subset_trans [OF texts_inner [unfolded split_beta]], auto)
    done
qed

section \<open>The outer query\<close>

lemma bound_policy: "bound_sql True (policyExpression attrs allowed e)"
proof (induction attrs allowed e rule: policyExpression.induct)
  case (1 attrs allowed ty field attr v left right children)
  have left: "bound_sql True (policyExpression attrs allowed l)" if "expression_kind ty = BinaryOperator" "left = Some l" "right = Some r" for l r
    using 1(1) that by simp
  have right: "bound_sql True (policyExpression attrs allowed r)"
    if "expression_kind ty = BinaryOperator" "left = Some l" "right = Some r" "ty \<noteq> ''IN''" for l r
    using 1(2) that by simp
  have children: "bound_sql True m"
    if "expression_kind ty = LogicalOperator" "\<not> length children < 2" "m \<in> set (map (policyExpression attrs allowed) children)" for m
    using 1(3) that by auto
  have collection: "bound True C (\<lambda>q. set (holes q)) (case expression_kind k of LiteralValue \<Rightarrow> bindCollection x | UserAttributeRef \<Rightarrow> bindCollection y
      | _ \<Rightarrow> emit_fail)" for C k x y
    by (auto intro: bound_collection bound_fail split: expression_kind.split)
  show ?case
  proof (cases "expression_kind ty")
    case BinaryOperator
    show ?thesis
    proof (cases "left = None \<or> right = None")
      case False
      then obtain l r where lr: "left = Some l" "right = Some r" by auto
      show ?thesis
        using right [OF BinaryOperator lr]
        by (auto simp: BinaryOperator lr intro!: bound_bind_part [OF left [OF BinaryOperator lr]] bound_map [OF collection] bound_map_part)
    qed (auto simp: BinaryOperator bound_fail split: option.split)
  next
    case LogicalOperator
    then show ?thesis using children by (auto intro!: bound_fail bound_map_parts)
  qed (auto intro: bound_fail bound_bind bound_return simp: secure_field_def split: option.split)
qed

abbreviation row_holes :: "row_class \<times> sql \<Rightarrow> (nat \<times> go_value) set" where "row_holes r \<equiv> set (holes (snd r))"

lemma holes_rows: "set (holes (rows_sql rows)) \<subseteq> \<Union> (row_holes ` set rows)"
  by (auto simp: rows_sql_def Let_def row_group_def split: if_splits)

lemma bound_rows: "bound_sql True (compileRows q)"
proof -
  have row: "bound True C row_holes (row_sql q p)" for C p
    unfolding row_sql_def by (rule bound_bind_part [OF bound_policy]) (auto intro!: bound_option)
  show ?thesis unfolding compileRows_def
    by (rule bound_map [OF bound_all [where h = row_holes]]) (use holes_rows in \<open>auto intro: row\<close>)
qed

lemma holes_column: "column_sql u q f = Some s \<Longrightarrow> holes s = []"
  by (auto simp: column_sql_def secure_field_def hash_sql_def mask_rule_sql_def Let_def split: option.splits if_splits Dialect.splits)

lemma holes_columns: "compileColumns u q = Some qs \<Longrightarrow> texts qs = {}"
  unfolding compileColumns_def by (fastforce dest: those_map holes_column)

lemma holes_sorts: "compileSorts q = Some s \<Longrightarrow> holes s = []"
  unfolding compileSorts_def by (fastforce simp: sort_sql_def dest: those_map split: if_splits)

lemma bound_limit: "bound_sql True (limit_sql q order)"
  unfolding limit_sql_def Let_def by (auto intro!: bound_map [OF bound_bind])

lemma bound_outer:
  assumes "numbered (inDialect q)" "quiet_tables (inDocument q)"
  shows "bound_sql True (compile_outer u q)"
  unfolding compile_outer_def
  apply (rule bound_bind_part [OF bound_inner [OF assms]], rule bound_bind_part [OF bound_rows])
  apply (rule bound_bind_list, rule bound_option, force dest: holes_columns)
  apply (rule bound_bind_sql, rule bound_option, force dest: holes_sorts)
  apply (rule bound_map_part [OF bound_limit], auto)
  done

end
