(* ===== verification/QueryOrder.thy ===== *)
theory QueryOrder imports QueryNumbered begin

text \<open>
  The order of the values. A step is \<open>ordered\<close> when the values it adds are those of the placeholders of
  its text, in the order of the text. Expressions are, unless a window function or a date function,
  which are not compiled in the order of their text or repeat a part, holds a value.
\<close>

section \<open>Ordered steps\<close>

definition vals :: "sql \<Rightarrow> go_value list" where "vals q = map snd (holes q)"

definition vals_all :: "sql list \<Rightarrow> go_value list" where "vals_all qs = concat (map vals qs)"

lemma vals_simps [simp]:
  "vals [] = []" "vals (Text s # q) = vals q" "vals (Name s # q) = vals q" "vals (Hole n v # q) = v # vals q"
  "vals (p @ q) = vals p @ vals q" "vals (sql_join sep qs) = vals_all qs"
  "vals (call f q) = vals q" "vals (parens q) = vals q" "vals (as_name q c) = vals q"
  by (simp_all add: vals_def [abs_def] vals_all_def map_concat comp_def)

lemma vals_all_simps [simp]:
  "vals_all [] = []" "vals_all (q # qs) = vals q @ vals_all qs" "vals_all (ps @ qs) = vals_all ps @ vals_all qs"
  by (simp_all add: vals_all_def)

definition ordered :: "go_value list \<Rightarrow> ('a \<Rightarrow> go_value list) \<Rightarrow> 'a emit \<Rightarrow> bool" where
  "ordered P h m \<longleftrightarrow> (\<forall>args x args'. m args = Some (x, args') \<longrightarrow> (\<exists>vs. args' = args @ vs \<and> h x = P @ vs))"

abbreviation "ordered_sql \<equiv> ordered [] vals"

lemma ordered_fail: "ordered P h emit_fail" by (simp add: ordered_def emit_fail_def)

lemma ordered_return: "h x = P \<Longrightarrow> ordered P h (emit_return x)" by (auto simp: ordered_def emit_return_def)

lemma ordered_option: "(\<And>y. x = Some y \<Longrightarrow> h y = P) \<Longrightarrow> ordered P h (emit_option x)"
  by (cases x) (auto simp: emit_option_def ordered_fail intro: ordered_return)

lemma ordered_emit_bind:
  assumes m: "ordered [] h m" and f: "\<And>x. ordered (P @ h x) g (f x)"
  shows "ordered P g (emit_bind m f)"
  unfolding ordered_def
proof (intro allI impI)
  fix args y args' assume r: "emit_bind m f args = Some (y, args')"
  then obtain x args1 where a: "m args = Some (x, args1)" "f x args1 = Some (y, args')"
    by (auto simp: emit_bind_def split: option.splits)
  obtain vs where v: "args1 = args @ vs" "h x = vs" using m a(1) unfolding ordered_def by fastforce
  obtain ws where w: "args' = args1 @ ws" "g y = (P @ h x) @ ws" using f [of x] a(2) unfolding ordered_def by blast
  show "\<exists>vs. args' = args @ vs \<and> g y = P @ vs" using v w by simp
qed

lemma ordered_prefix: "ordered [] h m \<Longrightarrow> ordered P (\<lambda>x. P @ h x) m" by (fastforce simp: ordered_def)

lemma ordered_map: "ordered [] h m \<Longrightarrow> (\<And>x. g (f x) = P @ h x) \<Longrightarrow> ordered P g (emit_map f m)"
  unfolding emit_map_def by (rule ordered_emit_bind) (auto intro: ordered_return)

lemma ordered_all: "(\<And>m. m \<in> set ms \<Longrightarrow> ordered [] h m) \<Longrightarrow> ordered [] (\<lambda>xs. concat (map h xs)) (emit_all ms)"
proof (induction ms)
  case (Cons m ms)
  have m: "ordered [] h m" and ms: "ordered [] (\<lambda>xs. concat (map h xs)) (emit_all ms)" using Cons by simp_all
  show ?case
    unfolding emit_all.simps
    by (rule ordered_emit_bind [OF m], rule ordered_emit_bind [OF ms]) (simp add: ordered_return)
qed (simp add: ordered_return)

lemma ordered_parts: "(\<And>m. m \<in> set ms \<Longrightarrow> ordered_sql m) \<Longrightarrow> ordered [] vals_all (emit_all ms)"
  using ordered_all [of ms vals] by (simp add: vals_all_def [abs_def])

lemma ordered_bind: "ordered_sql (bind v)" by (auto simp: ordered_def bind_def)

lemma ordered_collection: "ordered_sql (bindCollection v)"
  unfolding bindCollection_def
  by (auto intro!: ordered_map [OF ordered_parts] ordered_bind ordered_fail split: go_value.split)

lemma ordered_quiet: "bound_sql False m \<Longrightarrow> ordered_sql m"
  unfolding ordered_def
proof (intro allI impI)
  fix args x args' assume m: "bound_sql False m" "m args = Some (x, args')"
  then have "args' = args" "\<forall>p \<in> set (holes x). False" unfolding bound_def by blast+
  then show "\<exists>vs. args' = args @ vs \<and> vals x = [] @ vs" by (cases "holes x") (auto simp: vals_def)
qed

section \<open>Nodes\<close>

lemma ordered_required: "(\<And>m. p = Some m \<Longrightarrow> ordered_sql m) \<Longrightarrow> ordered_sql (required_part p)"
  by (cases p) (simp_all add: required_part_def ordered_fail)

lemma ordered_period:
  assumes "\<And>o1 w. (o1, w) \<in> set ob \<Longrightarrow> ordered_sql o1" "\<And>q w. vals (f q w) = P @ vals q"
  shows "ordered P vals (case ob of [(o1, w)] \<Rightarrow> emit_bind o1 (\<lambda>q. if w \<noteq> x then emit_fail else emit_return (f q w)) | _ \<Rightarrow> emit_fail)"
proof (cases "\<exists>o1 w. ob = [(o1, w)]")
  case True
  then obtain o1 w where o: "ob = [(o1, w)]" by blast
  then have "ordered_sql o1" using assms(1) by simp
  then have "ordered P vals (emit_bind o1 (\<lambda>q. if w \<noteq> x then emit_fail else emit_return (f q w)))"
    by (rule ordered_emit_bind) (simp add: ordered_fail ordered_return assms(2))
  then show ?thesis by (simp add: o)
next
  case False
  then show ?thesis by (auto intro: ordered_fail split: list.splits)
qed

lemma ordered_aggregate:
  assumes "\<And>m. arg = Some m \<Longrightarrow> ordered_sql m" "\<And>o1 w. (o1, w) \<in> set ob \<Longrightarrow> ordered_sql o1"
  shows "ordered_sql (aggregate_sql d fn arg ob)"
proof -
  have a: "ordered_sql (case arg of None \<Rightarrow> emit_return [Text ''*''] | Some m \<Rightarrow> m)"
    using assms(1) by (cases arg) (auto intro: ordered_return)
  show ?thesis unfolding aggregate_sql_def
    by (rule ordered_emit_bind [OF a])
      (simp add: ordered_fail ordered_return assms(2) ordered_period [where f = "\<lambda>q w. [Text ''(ARRAY_AGG(''] @ _ @ [Text '' ORDER BY ''] @ q @ [Text ('' '' @ w @ '' NULLS LAST))[1]'')]", simplified])
qed

lemma ordered_two_parts:
  assumes "\<And>m. m \<in> set ms \<Longrightarrow> ordered_sql m" "\<And>a b q. f a b = Some q \<Longrightarrow> vals q = vals a @ vals b"
  shows "ordered_sql (two_parts ms f)"
proof -
  have "ordered_sql (emit_bind x (\<lambda>a. emit_bind y (\<lambda>b. emit_option (f a b))))" if "ms = [x, y]" for x y
    using assms(1) that by (intro ordered_emit_bind [where h = vals] ordered_option) (auto simp: assms(2))
  then show ?thesis unfolding two_parts_def by (auto intro: ordered_fail split: list.splits)
qed

lemma ordered_in_values:
  assumes "\<And>m. m \<in> set (fst (snd r)) \<Longrightarrow> ordered_sql m"
  shows "ordered_sql (in_values sc r)"
  using assms unfolding in_values_def
  by (auto intro!: ordered_map [OF ordered_parts] ordered_fail ordered_collection split: NodeType.split option.split prod.split)

lemma ordered_comparison:
  assumes "\<And>m. l = Some m \<Longrightarrow> ordered_sql m" "\<And>p m. r = Some p \<Longrightarrow> m \<in> set (fst (snd p)) \<Longrightarrow> ordered_sql m"
    "\<And>p. r = Some p \<Longrightarrow> ordered_sql (snd (snd p))"
  shows "ordered_sql (comparison_sql sc t l r)"
proof (cases "\<exists>m p. l = Some m \<and> r = Some p")
  case True
  then obtain m p where lr: "l = Some m" "r = Some p" by blast
  have v: "ordered_sql (in_values sc p)" using assms(2) [OF lr(2)] by (rule ordered_in_values)
  show ?thesis unfolding comparison_sql_def lr option.case
    by (rule ordered_emit_bind [OF assms(1) [OF lr(1)]])
      (auto intro!: ordered_map [OF v] ordered_emit_bind [OF assms(3) [OF lr(2)]] ordered_return ordered_option)
next
  case False
  then show ?thesis unfolding comparison_sql_def by (auto intro: ordered_fail split: option.split)
qed

lemma ordered_case:
  assumes "\<And>w t. (w, t) \<in> set whens \<Longrightarrow> ordered_sql w \<and> ordered_sql t" "\<And>m. els = Some m \<Longrightarrow> ordered_sql m"
  shows "ordered_sql (case_sql whens els)"
proof -
  have "ordered_sql (case_branch p)" if "p \<in> set whens" for p
  proof -
    have "ordered_sql (fst p)" "ordered_sql (snd p)" using assms(1) [of "fst p" "snd p"] that by simp_all
    then show ?thesis unfolding case_branch_def by (intro ordered_emit_bind [where h = vals] ordered_map [where h = vals]) simp_all
  qed
  then have branches: "ordered [] vals_all (emit_all (map case_branch whens))" by (intro ordered_parts) auto
  have other: "ordered [] vals_all (case els of None \<Rightarrow> emit_return [] | Some m \<Rightarrow> emit_map (\<lambda>q. [[Text ''ELSE ''] @ q]) m)"
    using assms(2) by (cases els) (auto intro!: ordered_return ordered_map [where h = vals])
  show ?thesis unfolding case_sql_def
    by (rule ordered_emit_bind [OF branches], rule ordered_emit_bind [OF other]) (simp add: ordered_return)
qed

lemma ordered_node:
  assumes "\<And>m. arg = Some m \<Longrightarrow> ordered_sql m" "\<And>m. m \<in> set args \<Longrightarrow> ordered_sql m"
    "\<And>m. l = Some m \<Longrightarrow> ordered_sql m" "\<And>p m. r = Some p \<Longrightarrow> m \<in> set (fst (snd p)) \<Longrightarrow> ordered_sql m"
    "\<And>p. r = Some p \<Longrightarrow> ordered_sql (snd (snd p))" "\<And>m. lo = Some m \<Longrightarrow> ordered_sql m" "\<And>m. up = Some m \<Longrightarrow> ordered_sql m"
    "\<And>w t. (w, t) \<in> set whens \<Longrightarrow> ordered_sql w \<and> ordered_sql t" "\<And>m. els = Some m \<Longrightarrow> ordered_sql m"
    "\<And>p. p \<in> set ob \<Longrightarrow> ordered_sql (fst p)"
    "case ty of TyWindow \<Rightarrow> False | TyDate _ \<Rightarrow> False | _ \<Rightarrow> True"
  shows "ordered_sql (node_sql sc ty n f c fn u tt v arg args l r lo up whens els pb ob)"
proof -
  have args: "ordered_sql (emit_map g (emit_all args))" if "\<And>xs. vals (g xs) = vals_all xs" for g
    using that by (intro ordered_map [OF ordered_parts] assms(2)) simp_all
  have required: "ordered_sql (required_part arg)" using assms(1) by (rule ordered_required)
  have field: "ordered_sql (field_sql sc n f)" unfolding field_sql_def by (auto intro!: ordered_fail ordered_return split: option.split)
  have param: "ordered_sql (param_sql sc c)" unfolding param_sql_def by (auto intro!: ordered_fail ordered_bind split: option.split)
  have two: "ordered_sql (two_parts args (\<lambda>a b. Some ([Text ''NULLIF(''] @ a @ [Text '',''] @ b @ [Text '')''])))"
    using assms(2) by (intro ordered_two_parts) auto
  have cast: "ordered_sql (emit_bind (required_part arg) (\<lambda>a. emit_option
      (map_option (\<lambda>t. [Text ''CAST(''] @ a @ [Text ('' AS '' @ t @ '')'')]) (cast_type (scDialect sc) tt))))"
    by (rule ordered_emit_bind [OF required]) (auto intro: ordered_option)
  have aggregate: "ordered_sql (aggregate_sql (scDialect sc) fn arg ob)"
    using assms(1,10) by (intro ordered_aggregate) (auto simp: Ball_def)
  have compare: "ordered_sql (comparison_sql sc t l r)" for t
    using assms(3,4,5) by (intro ordered_comparison) auto
  have between: "ordered_sql (emit_bind (required_part l) (\<lambda>a. emit_bind (required_part lo) (\<lambda>b. emit_bind (required_part up) (\<lambda>c.
     emit_return ([Text ''(''] @ a @ [Text '' BETWEEN ''] @ b @ [Text '' AND ''] @ c @ [Text '')''])))))"
    by (rule ordered_emit_bind [OF ordered_required [OF assms(3)]], assumption,
        rule ordered_emit_bind [OF ordered_required [OF assms(6)]], assumption,
        rule ordered_emit_bind [OF ordered_required [OF assms(7)]], assumption) (simp add: ordered_return)
  have test: "vals (test_sql t a) = vals a" for t a by (cases t) (simp_all add: test_sql_def)
  show ?thesis
    using assms(11)
    by (cases ty) (simp_all add: node_sql_def ordered_fail ordered_bind field param two [simplified] cast [simplified] args aggregate
        compare between [simplified] ordered_case assms(8,9) ordered_map [OF required] test)
qed

section \<open>Expressions\<close>

definition orderly :: "DatasetExpression \<Rightarrow> bool" where
  "orderly e \<longleftrightarrow> (\<forall>x \<in> set (subexpressions e). (case deType x of TyWindow \<Rightarrow> valueless x | TyDate _ \<Rightarrow> valueless x | _ \<Rightarrow> True))"

lemma orderly_parts: "orderly e \<longleftrightarrow> (case deType e of TyWindow \<Rightarrow> valueless e | TyDate _ \<Rightarrow> valueless e | _ \<Rightarrow> True) \<and>
    (\<forall>x \<in> direct_parts e. orderly x)"
  unfolding orderly_def subexpressions_parts [of e] by auto

lemma ordered_expression_parts:
  "orderly e \<Longrightarrow> ordered_sql (expression sc e) \<and> (\<forall>x \<in> direct_parts e. ordered_sql (expression sc x))"
proof (induction e rule: expression_induct)
  case (1 e)
  have v: "orderly x" if "x \<in> direct_parts e" for x using 1(2) orderly_parts [of e] that by blast
  have IH: "ordered_sql (expression sc x)" if "x \<in> direct_parts e" for x using 1(1) [OF that v [OF that]] by simp
  have IH2: "ordered_sql (expression sc y)" if "x \<in> direct_parts e" "y \<in> direct_parts x" for x y
    using 1(1) [OF that(1) v [OF that(1)]] that(2) by simp
  have "ordered_sql (expression sc e)"
  proof (cases "deType e = TyWindow \<or> (\<exists>t. deType e = TyDate t)")
    case True
    then have "valueless e" using 1(2) orderly_parts [of e] by auto
    then show ?thesis by (intro ordered_quiet bound_expression) simp
  next
    case False
    show ?thesis
      unfolding expression_node [of sc e]
    proof (rule ordered_node)
      fix p assume "map_option (compile_part sc) (deRight e) = Some p"
      then obtain x where x: "deRight e = Some x" "p = compile_part sc x" by auto
      then have p: "x \<in> direct_parts e" by (simp add: direct_parts_def)
      show "ordered_sql (snd (snd p))" using IH [OF p] by (simp add: x(2) compile_part_triple)
      show "ordered_sql m" if "m \<in> set (fst (snd p))" for m
        using that IH2 [OF p] by (auto simp: x(2) compile_part_triple direct_parts_def)
    qed (use IH False in \<open>auto simp: direct_parts_def rev_image_eqI split: NodeType.split\<close>)
  qed
  then show ?case using IH by blast
qed

lemma ordered_expression: "orderly e \<Longrightarrow> ordered_sql (expression sc e)"
  using ordered_expression_parts by blast

lemma orderly_valueless: "valueless e \<Longrightarrow> orderly e"
proof (induction e rule: expression_induct)
  case (1 e)
  then show ?case using valueless_parts [of e] orderly_parts [of e] by (auto split: NodeType.split)
qed

end
