(* ===== verification/QueryJoins.thy ===== *)
theory QueryJoins imports QueryCompiler "HOL-Library.Multiset" begin

text \<open>
  The order in which the joins of a document are compiled: each join once, from a node that is in to one
  that is not, and an order is found whenever there is one.
\<close>

fun connected_order :: "string list \<Rightarrow> DatasetJoin list \<Rightarrow> bool" where
  "connected_order joined [] \<longleftrightarrow> True"
| "connected_order joined (j # js) \<longleftrightarrow> djLeftNodeID j \<in> set joined \<and> djRightNodeID j \<notin> set joined \<and>
     connected_order (djRightNodeID j # joined) js"

lemma connected_order_cong: "set joined = set joined' \<Longrightarrow> connected_order joined js = connected_order joined' js"
  by (induction js arbitrary: joined joined') (simp, (metis (no_types, lifting) connected_order.simps(2) list.simps(15)))

lemma connected_order_append:
  "connected_order joined (xs @ ys) \<longleftrightarrow> connected_order joined xs \<and> connected_order (rev (map djRightNodeID xs) @ joined) ys"
  by (induction xs arbitrary: joined) simp_all

lemma connected_order_rights:
  "connected_order joined js \<Longrightarrow> distinct (map djRightNodeID js) \<and> set (map djRightNodeID js) \<inter> set joined = {}"
proof (induction js arbitrary: joined)
  case (Cons j js)
  then show ?case using Cons.IH [of "djRightNodeID j # joined"] by auto
qed simp

lemma connected_order_lefts: "connected_order joined js \<Longrightarrow> j \<in> set js \<Longrightarrow> djLeftNodeID j \<in> set joined \<union> djRightNodeID ` set js"
proof (induction js arbitrary: joined)
  case (Cons a js)
  then show ?case using Cons.IH [of "djRightNodeID a # joined"] by auto
qed simp

lemma join_pass_mset: "mset (fst (join_pass joined js)) + mset (snd (join_pass joined js)) = mset js"
  by (induction joined js rule: join_pass.induct) auto

lemma join_pass_connected: "connected_order joined (fst (join_pass joined js))"
  by (induction joined js rule: join_pass.induct) auto

lemma join_pass_stuck:
  "fst (join_pass joined js) = [] \<Longrightarrow> j \<in> set js \<Longrightarrow> djLeftNodeID j \<notin> set joined \<or> djRightNodeID j \<in> set joined"
  by (induction joined js rule: join_pass.induct) (auto split: if_splits)

lemma join_order_sound:
  "join_order joined js = Some js' \<Longrightarrow> mset js' = mset js \<and> connected_order joined js'"
proof (induction joined js arbitrary: js' rule: join_order.induct)
  case (1 joined js)
  let ?p = "join_pass joined js"
  show ?case
  proof (cases "js = []")
    case False
    then obtain rest where r: "fst ?p \<noteq> []" "join_order (rev (map djRightNodeID (fst ?p)) @ joined) (snd ?p) = Some rest" "js' = fst ?p @ rest"
      using "1.prems" by (auto simp: join_order.simps [of joined js] Let_def split: if_splits)
    then have "mset rest = mset (snd ?p) \<and> connected_order (rev (map djRightNodeID (fst ?p)) @ joined) rest"
      using "1.IH" [OF False refl refl] by simp
    then show ?thesis using r join_pass_mset [of joined js] join_pass_connected [of joined js]
      by (simp add: connected_order_append)
  qed (use 1 in \<open>simp add: join_order.simps\<close>)
qed

lemma join_order_stuck:
  "join_order joined js = None \<Longrightarrow> \<exists>taken left. mset js = mset taken + mset left \<and> left \<noteq> [] \<and> connected_order joined taken \<and>
     (\<forall>j \<in> set left. djLeftNodeID j \<notin> set joined \<union> djRightNodeID ` set taken \<or> djRightNodeID j \<in> set joined \<union> djRightNodeID ` set taken)"
proof (induction joined js rule: join_order.induct)
  case (1 joined js)
  let ?p = "join_pass joined js"
  have ne: "js \<noteq> []" using "1.prems" by (auto simp: join_order.simps)
  show ?case
  proof (cases "fst ?p = []")
    case True
    show ?thesis
      by (rule exI [of _ "[]"], rule exI [of _ js]) (use join_pass_stuck [OF True] ne in auto)
  next
    case False
    then have "join_order (rev (map djRightNodeID (fst ?p)) @ joined) (snd ?p) = None"
      using "1.prems" ne by (simp add: join_order.simps [of joined js] Let_def)
    then obtain taken left where r: "mset (snd ?p) = mset taken + mset left" "left \<noteq> []"
        "connected_order (rev (map djRightNodeID (fst ?p)) @ joined) taken"
        "\<forall>j \<in> set left. djLeftNodeID j \<notin> set (rev (map djRightNodeID (fst ?p)) @ joined) \<union> djRightNodeID ` set taken \<or>
          djRightNodeID j \<in> set (rev (map djRightNodeID (fst ?p)) @ joined) \<union> djRightNodeID ` set taken"
      using "1.IH" [OF ne refl refl False] by blast
    have "mset js = mset (fst ?p @ taken) + mset left" using join_pass_mset [of joined js] r(1) by (simp add: ac_simps)
    moreover have "set (rev (map djRightNodeID (fst ?p)) @ joined) \<union> djRightNodeID ` set taken = set joined \<union> djRightNodeID ` set (fst ?p @ taken)"
      by auto
    moreover have "connected_order joined (fst ?p @ taken)" using join_pass_connected [of joined js] r(3) by (simp add: connected_order_append)
    ultimately show ?thesis using r(2,4) by metis
  qed
qed

lemma join_order_complete:
  assumes "mset js' = mset js" "connected_order joined js'"
  shows "join_order joined js \<noteq> None"
proof
  assume "join_order joined js = None"
  then obtain taken left where m: "mset js = mset taken + mset left" "left \<noteq> []"
      "\<forall>j \<in> set left. djLeftNodeID j \<notin> set joined \<union> djRightNodeID ` set taken \<or> djRightNodeID j \<in> set joined \<union> djRightNodeID ` set taken"
    using join_order_stuck by blast
  have rights: "distinct (map djRightNodeID js')" "set (map djRightNodeID js') \<inter> set joined = {}"
    using connected_order_rights [OF assms(2)] by simp_all
  then have inj: "inj_on djRightNodeID (set js')" by (simp add: distinct_map)
  have js': "set js' = set taken \<union> set left" "set taken \<inter> set left = {}"
  proof -
    have e: "mset js' = mset (taken @ left)" using assms(1) m(1) by simp
    from mset_eq_setD [OF e] show "set js' = set taken \<union> set left" by simp
    have "distinct js'" using rights(1) by (rule distinct_map [THEN iffD1, THEN conjunct1])
    then have "distinct (taken @ left)" using mset_eq_imp_distinct_iff [OF e] by blast
    then show "set taken \<inter> set left = {}" by simp
  qed
  have "\<exists>j \<in> set js'. j \<in> set left" using js'(1) m(2) by (cases left) auto
  then obtain pre j post where p: "js' = pre @ j # post" "j \<in> set left" "\<forall>x \<in> set pre. x \<notin> set left"
    using split_list_first_prop [of js' "\<lambda>j. j \<in> set left"] by blast
  then have c: "djLeftNodeID j \<in> djRightNodeID ` set pre \<union> set joined"
    using assms(2) by (auto simp: connected_order_append)
  have "set pre \<subseteq> set taken" using p js' by auto
  then have "djLeftNodeID j \<in> set joined \<union> djRightNodeID ` set taken" using c by blast
  then have "djRightNodeID j \<in> set joined \<union> djRightNodeID ` set taken" using m(3) p(2) by blast
  moreover have "djRightNodeID j \<notin> set joined" using rights(2) p(1) by auto
  ultimately obtain t where "t \<in> set taken" "djRightNodeID t = djRightNodeID j" by auto
  then have "t = j" using inj js' p(2) by (auto dest: inj_onD)
  then show False using js'(2) p(2) \<open>t \<in> set taken\<close> by blast
qed

end
