(* ===== verification/QueryPositional.thy ===== *)
theory QueryPositional imports QueryOrder QueryJoins begin

text \<open>
  The whole query lists its values in the order of its text, as the dialects with unnumbered
  placeholders read them: the tables derived before a join, the branches of a cube, the conditions of
  the row policies.
\<close>

section \<open>Steps from a list of values\<close>

definition yields :: "go_value list \<Rightarrow> 'a emit \<Rightarrow> ('a \<Rightarrow> go_value list) \<Rightarrow> bool" where
  "yields P m g \<longleftrightarrow> (\<forall>y args. m P = Some (y, args) \<longrightarrow> args = g y)"

lemma yields_bind:
  assumes "ordered [] h m" "\<And>x args args'. m args = Some (x, args') \<Longrightarrow> yields (P @ h x) (f x) g"
  shows "yields P (emit_bind m f) g"
  unfolding yields_def
proof (intro allI impI)
  fix y args assume "emit_bind m f P = Some (y, args)"
  then obtain x args1 where a: "m P = Some (x, args1)" "f x args1 = Some (y, args)"
    by (auto simp: emit_bind_def split: option.splits)
  then have "args1 = P @ h x" using assms(1) unfolding ordered_def by fastforce
  then show "args = g y" using assms(2) [OF a(1)] a(2) unfolding yields_def by blast
qed

lemma yields_option: "(\<And>y. x = Some y \<Longrightarrow> yields P (f y) g) \<Longrightarrow> yields P (emit_bind (emit_option x) f) g"
  by (cases x) (simp_all add: yields_def emit_bind_def emit_option_def emit_fail_def emit_return_def)

lemma yields_return: "g x = P \<Longrightarrow> yields P (emit_return x) g" by (simp add: yields_def emit_return_def)

lemma yields_started: "yields P (f x) g \<Longrightarrow> yields P (emit_bind (emit_return x) f) g"
  by (simp add: yields_def emit_bind_def emit_return_def)

lemma yields_append: "yields (P @ vs) (f ()) g \<Longrightarrow> yields P (emit_bind (emit_append vs) f) g"
  by (simp add: yields_def emit_bind_def emit_append_def)

lemma yields_map: "yields P m h \<Longrightarrow> (\<And>x. g (f x) = h x) \<Longrightarrow> yields P (emit_map f m) g"
  by (auto simp: yields_def emit_map_def emit_bind_def emit_return_def split: option.splits)

lemma yields_last: "ordered [] h m \<Longrightarrow> (\<And>x. g (f x) = P @ h x) \<Longrightarrow> yields P (emit_map f m) g"
  unfolding emit_map_def by (rule yields_bind, assumption) (simp add: yields_return)

lemma emit_all_length: "emit_all ms args = Some (xs, args') \<Longrightarrow> length xs = length ms"
  by (induction ms arbitrary: args xs) (auto simp: emit_return_def emit_bind_def split: option.splits)

section \<open>Groups\<close>

lemma vals_select [simp]:
  "vals (select_sql s ps t fs g h) = vals_all ps @ vals t @ vals_all fs @ vals g @ vals_all h"
  by (simp add: select_sql_def)

lemma vals_names [simp]: "vals_all (map (\<lambda>n. [Name n]) ns) = []" by (induction ns) simp_all

lemma vals_table [simp]: "vals (table_name_sql ref) = []" by (simp add: table_name_sql_def)

lemma vals_as_name: "length ns = length qs \<Longrightarrow> vals_all (map2 as_name qs ns) = vals_all qs"
  by (induction ns qs rule: list_induct2) simp_all

lemma ordered_sets:
  assumes "\<And>d e. dims d = Some e \<Longrightarrow> orderly e"
  shows "ordered [] vals_all (grouping_sets_sql sc dims sets)"
  unfolding grouping_sets_sql_def
proof (rule ordered_parts)
  have d: "ordered_sql (case dims d of None \<Rightarrow> emit_fail | Some e \<Rightarrow> expression sc e)" for d
    using assms [of d] by (cases "dims d") (simp_all add: ordered_fail ordered_expression)
  fix m assume "m \<in> set (map (\<lambda>s. emit_map (\<lambda>vs. parens (sql_join '', '' vs))
     (emit_all (map (\<lambda>d. case dims d of None \<Rightarrow> emit_fail | Some e \<Rightarrow> expression sc e) s))) sets)"
  then show "ordered_sql m"
    using d by (auto intro!: ordered_map [OF ordered_parts])
qed

lemma native_clause:
  "native_grouping (scDialect sc) mode \<Longrightarrow>
    \<exists>c. group_clause sc mode groups aliases dims sets = emit_return c \<and> vals c = vals_all groups"
  by (cases mode) (auto simp: group_clause_def Let_def native_grouping_def)

lemma other_clause:
  assumes "\<not> native_grouping (scDialect sc) mode" "\<not> expanded_grouping (scDialect sc) mode" "\<And>d e. dims d = Some e \<Longrightarrow> orderly e"
  shows "ordered_sql (group_clause sc mode groups (map (\<lambda>n. [Name n]) names) dims sets)"
  using assms(1,2) by (cases mode) (auto simp: group_clause_def Let_def native_grouping_def expanded_grouping_def
      intro!: ordered_return ordered_map [OF ordered_sets [OF assms(3)]])

lemma expanded_clause:
  "expanded_grouping (scDialect sc) mode \<Longrightarrow> \<exists>c. group_clause sc mode groups aliases dims sets = emit_return c"
  by (cases mode) (auto simp: group_clause_def Let_def expanded_grouping_def)

lemma not_native: "expanded_grouping d mode \<Longrightarrow> \<not> native_grouping d mode"
  by (auto simp: native_grouping_def expanded_grouping_def)

lemma yields_grouping:
  assumes d: "scDialect sc = d" and native: "ordered [] vals_all gm"
    and dims: "\<And>d e. dims d = Some e \<Longrightarrow> orderly e"
    and plain_case: "\<And>groups clause. \<not> expanded_grouping d mode \<Longrightarrow> yields (P @ vals clause) (K groups clause) g"
    and expanded_case: "\<And>clause. expanded_grouping d mode \<Longrightarrow> yields P (K gs clause) g"
  shows "yields P (emit_bind (if native_grouping d mode then gm else emit_return gs) (\<lambda>groups. emit_bind (group_clause sc mode groups (map (\<lambda>n. [Name n]) names) dims sets) (K groups))) g"
proof (cases "native_grouping d mode")
  case True
  then have e: "\<not> expanded_grouping d mode" using not_native by blast
  have "yields (P @ vals_all groups) (emit_bind (group_clause sc mode groups (map (\<lambda>n. [Name n]) names) dims sets) (K groups)) g" for groups
  proof -
    obtain c where c: "group_clause sc mode groups (map (\<lambda>n. [Name n]) names) dims sets = emit_return c" "vals c = vals_all groups"
      using native_clause [OF True [folded d]] by blast
    show ?thesis unfolding c(1) by (rule yields_started) (use plain_case [OF e, of c groups] c(2) in simp)
  qed
  with True show ?thesis by (simp add: yields_bind [OF native])
next
  case False
  show ?thesis
  proof (cases "expanded_grouping d mode")
    case True
    then show ?thesis using expanded_clause [OF True [folded d], of gs "map (\<lambda>n. [Name n]) names" dims sets] expanded_case
      using False by (auto intro!: yields_started)
  next
    case e: False
    show ?thesis
      unfolding if_not_P [OF False]
      by (rule yields_started, rule yields_bind [OF other_clause [OF False [folded d] e [folded d] dims]], assumption) (rule plain_case [OF e])
  qed
qed

section \<open>Branches\<close>

lemma branch_values:
  assumes "\<And>i e n. (i, e, n) \<in> set dims \<Longrightarrow> i < length projections \<and> vals (projections ! i) = vals e"
  shows "map vals (branch_projections dims projections selected) = map vals projections"
proof -
  have "map vals (foldl (\<lambda>ps (b, i, e, n). if b then ps else ps[i := hidden_projection e n]) ps bs) = map vals projections"
    if "set bs \<subseteq> UNIV \<times> set dims" "map vals ps = map vals projections" for ps bs
    using that
  proof (induction bs arbitrary: ps)
    case (Cons b bs)
    obtain s i e n where b: "b = (s, i, e, n)" by (cases b) auto
    then have i: "i < length projections" "vals (projections ! i) = vals e" using assms [of i e n] Cons.prems(1) by auto
    then have "i < length ps" "vals (ps ! i) = vals e"
      using Cons.prems(2) by (metis length_map, metis length_map nth_map)
    then have "map vals (ps[i := hidden_projection e n]) = map vals projections"
      using Cons.prems(2) by (simp add: map_update hidden_projection_def) (metis list_update_id length_map nth_map)
    then show ?case using Cons b by simp
  qed simp
  moreover have "set (zip selected dims) \<subseteq> UNIV \<times> set dims" by (auto dest: set_zip_rightD)
  ultimately show ?thesis unfolding branch_projections_def by blast
qed

lemma vals_all_cong: "map vals ps = map vals qs \<Longrightarrow> vals_all ps = vals_all qs" by (simp add: vals_all_def)

lemma yields_branches:
  assumes dims: "\<And>i e n. (i, e, n) \<in> set dims \<Longrightarrow> i < length projections \<and> vals (projections ! i) = vals e"
    and build: "\<And>ps gc. vals gc = [] \<Longrightarrow> vals (build ps gc) = vals_all ps @ R" and P: "P = vals_all projections @ R"
  shows "yields P (branches_sql build dims projections (map (\<lambda>n. [Name n]) names) selections) vals"
proof -
  have groups: "vals_all (active_groups (map (\<lambda>n. [Name n]) names) s) = []" for s
    by (auto simp: active_groups_def vals_all_def set_zip)
  have "vals (build (branch_projections dims projections s) (sql_join '', '' (active_groups (map (\<lambda>n. [Name n]) names) s))) = P" for s
    using vals_all_cong [OF branch_values [OF dims]] P by (simp add: build groups)
  then have "vals_all (map (\<lambda>s. build (branch_projections dims projections s)
      (sql_join '', '' (active_groups (map (\<lambda>n. [Name n]) names) s))) selections) = concat (replicate (length selections) P)"
    by (induction selections) simp_all
  then show ?thesis
    by (auto simp: yields_def branches_sql_def emit_bind_def emit_repeat_def emit_return_def)
qed

lemma yields_select:
  assumes dims: "\<And>i e n. x \<Longrightarrow> (i, e, n) \<in> set dims \<Longrightarrow> i < length projections \<and> vals (projections ! i) = vals e"
    and build: "\<And>ps gc. vals (build ps gc) = vals_all ps @ R1 @ vals gc @ R2"
    and P: "P = vals_all projections @ R1 @ (if x then [] else vals clause) @ R2"
  shows "yields P (if x then emit_bind (emit_option selections) (branches_sql build dims projections (map (\<lambda>n. [Name n]) names))
      else emit_return (build projections clause)) vals"
proof (cases x)
  case True
  then show ?thesis using P by (auto simp: build intro!: yields_option yields_branches [where R = "R1 @ R2"] dims [OF True])
next
  case False
  then show ?thesis using P by (simp add: build yields_return)
qed

section \<open>Derived tables\<close>

definition orderly_filter :: "SourceFilter \<Rightarrow> bool" where
  "orderly_filter f = (case sfExpression f of Some e \<Rightarrow> orderly e | None \<Rightarrow> True)"

definition orderly_table :: "PreAggregation \<Rightarrow> bool" where
  "orderly_table item \<longleftrightarrow> list_all (\<lambda>g. orderly (group_expression (paNodeID item) g)) (paGroupBy item) \<and>
     list_all (\<lambda>m. orderly (preaggregate_expression (paNodeID item) m)) (paMetrics item)"

lemma ordered_plain_filter: "ordered_sql (plain_filter_sql q n a f)"
  unfolding plain_filter_sql_def Let_def
  by (auto intro!: ordered_fail ordered_return ordered_map [OF ordered_bind] ordered_map [OF ordered_collection] split: option.split)

lemma ordered_source_filter: "orderly_filter f \<Longrightarrow> ordered_sql (sourceFilterExpression q n al a f)"
  unfolding sourceFilterExpression_def
  by (auto simp: orderly_filter_def intro!: ordered_expression ordered_plain_filter split: option.splits)

lemma ordered_expressions: "(\<And>x. x \<in> set xs \<Longrightarrow> orderly (f x)) \<Longrightarrow> ordered [] vals_all (emit_all (map (\<lambda>x. expression sc (f x)) xs))"
  by (rule ordered_parts) (auto intro: ordered_expression)

lemma scope_dialect [simp]: "scDialect (query_scope q al) = inDialect q" by (simp add: query_scope_def)

lemma yields_derived_table:
  assumes item: "orderly_table item" "paNodeID item = ndID node" and filters: "list_all orderly_filter (ndSourceFilters node)"
  shows "yields [] (derived_table q item node ref) vals"
proof -
  let ?names = "\<lambda>n. if n = ndID node then ''pre_source'' else []"
  let ?sc = "query_scope q ?names"
  let ?es = "map (expression ?sc) (map (group_expression (ndID node)) (paGroupBy item))"
  let ?ms = "map (\<lambda>m. expression ?sc (preaggregate_expression (ndID node) m)) (paMetrics item)"
  let ?fs = "map (sourceFilterExpression q (ndID node) ?names (?names (ndID node))) (ndSourceFilters node)"
  have es: "ordered [] vals_all (emit_all ?es)"
    using item by (intro ordered_parts) (auto simp: orderly_table_def list_all_iff intro: ordered_expression)
  have ms: "ordered [] vals_all (emit_all ?ms)"
    using item by (intro ordered_expressions) (simp add: orderly_table_def list_all_iff)
  have fs: "ordered [] vals_all (emit_all ?fs)"
    using filters by (intro ordered_parts) (auto simp: list_all_iff intro: ordered_source_filter)
  have dims: "orderly e" if "last_entry (zip (map pagField (paGroupBy item)) (map (group_expression (ndID node)) (paGroupBy item))) d = Some e" for d e
    using last_entry_zip [OF that] item by (auto simp: orderly_table_def list_all_iff)
  show ?thesis
    unfolding derived_table_def Let_def
  proof (rule yields_bind [OF es], rule yields_bind [OF ms], rule yields_bind [OF fs], rule yields_grouping, goal_cases)
    case (1 gs _ _ mets)
    show ?case by simp
  next
    case 2
    show ?case by (rule es)
  next
    case (3 gs _ _ mets _ _ _ _ _ d e)
    then show ?case using dims by blast
  next
    case (4 gs _ _ mets _ _ filters _ _ groups clause)
    have l: "length (map pagField (paGroupBy item)) = length gs" "length (map pamField (paMetrics item)) = length mets"
      using emit_all_length [OF 4(1)] emit_all_length [OF 4(2)] by simp_all
    show ?case
      by (rule yields_map, rule yields_select [where ?R1.0 = "vals_all filters" and ?R2.0 = "[]"])
        (use 4 l in \<open>simp_all add: vals_as_name\<close>)
  next
    case (5 gs _ _ mets _ _ filters _ _ clause)
    have l: "length (map pagField (paGroupBy item)) = length gs" "length (map pamField (paMetrics item)) = length mets"
      using emit_all_length [OF 5(1)] emit_all_length [OF 5(2)] by simp_all
    show ?case
      by (rule yields_map, rule yields_select [where ?R1.0 = "vals_all filters" and ?R2.0 = "[]"])
        (use 5 l in \<open>auto simp: vals_as_name set_zip nth_append\<close>)
  qed
qed

section \<open>Tables and joins\<close>

text \<open>The values of a derived table are handed over with it.\<close>

definition tables_ok :: "('a \<Rightarrow> sql) \<Rightarrow> ('a \<Rightarrow> go_value list) \<Rightarrow> 'a emit \<Rightarrow> bool" where
  "tables_ok s h m \<longleftrightarrow> (\<forall>args x args'. m args = Some (x, args') \<longrightarrow> args' = args \<and> vals (s x) = h x)"

abbreviation "table_ok \<equiv> tables_ok fst snd"

lemma yields_tables:
  assumes "tables_ok s h m" "\<And>x. vals (s x) = h x \<Longrightarrow> yields P (f x) g"
  shows "yields P (emit_bind m f) g"
  using assms unfolding yields_def tables_ok_def emit_bind_def by (fastforce split: option.splits)

lemma tables_bind:
  assumes "tables_ok s h m" "\<And>x. vals (s x) = h x \<Longrightarrow> tables_ok s' h' (f x)"
  shows "tables_ok s' h' (emit_bind m f)"
  unfolding tables_ok_def
proof (intro allI impI)
  fix args y args' assume "emit_bind m f args = Some (y, args')"
  then obtain x args1 where a: "m args = Some (x, args1)" "f x args1 = Some (y, args')"
    by (auto simp: emit_bind_def split: option.splits)
  then have "args1 = args" "vals (s x) = h x" using assms(1) unfolding tables_ok_def by blast+
  then show "args' = args \<and> vals (s' y) = h' y" using assms(2) [of x] a(2) unfolding tables_ok_def by blast
qed

lemma tables_all: "(\<And>m. m \<in> set ms \<Longrightarrow> table_ok m) \<Longrightarrow> tables_ok (\<lambda>rs. concat (map fst rs)) (\<lambda>rs. concat (map snd rs)) (emit_all ms)"
proof (induction ms)
  case Nil
  show ?case by (simp add: tables_ok_def emit_return_def)
next
  case (Cons m ms)
  then have "table_ok m" "tables_ok (\<lambda>rs. concat (map fst rs)) (\<lambda>rs. concat (map snd rs)) (emit_all ms)" by simp_all
  then show ?case unfolding tables_ok_def by (fastforce simp: emit_bind_def emit_return_def split: option.splits)
qed

definition orderly_document :: "Document \<Rightarrow> bool" where
  "orderly_document doc \<longleftrightarrow> distinct (map ndID (doNodes doc)) \<and>
     list_all (\<lambda>j. list_all (\<lambda>c. valueless (jcLeftExpression c) \<and> valueless (jcRightExpression c)) (djConditions j)) (doJoins doc) \<and>
     list_all (\<lambda>n. list_all orderly_filter (ndSourceFilters n)) (doNodes doc) \<and> list_all orderly_table (doPreAggregations doc) \<and>
     list_all (\<lambda>f. orderly (dfExpression f)) (doFields doc) \<and> list_all (\<lambda>f. orderly (dflExpression f)) (doFilters doc @ doHaving doc)"

lemma relation_ok:
  assumes "orderly_document (inDocument q)" "node \<in> set (doNodes (inDocument q)) \<or> ndSourceFilters node = []"
  shows "table_ok (nodeRelation q node ref)"
proof (cases "preAggregation (inDocument q) (ndID node)")
  case (Some item)
  have "yields [] (derived_table q item node ref) vals"
    using assms preAggregation_item [OF Some]
    by (intro yields_derived_table) (auto simp: orderly_document_def list_all_iff)
  then show ?thesis
    using Some by (auto simp: nodeRelation_def tables_ok_def emit_nested_def yields_def split: option.splits)
qed (simp add: nodeRelation_def tables_ok_def emit_return_def)

lemma quiet_conditions:
  assumes "list_all (\<lambda>c. valueless (jcLeftExpression c) \<and> valueless (jcRightExpression c)) cs"
  shows "bound False {} texts (emit_all (map (join_condition_sql sc) cs))"
proof (rule bound_parts)
  fix m assume "m \<in> set (map (join_condition_sql sc) cs)"
  then show "bound_sql False m"
    using assms by (auto simp: list_all_iff join_condition_sql_def intro!: bound_bind_part bound_expression bound_option)
qed

lemma join_ok:
  assumes doc: "orderly_document (inDocument q)" and j: "j \<in> set (doJoins (inDocument q))"
  shows "table_ok (compile_join q sc j)"
  unfolding tables_ok_def
proof (intro allI impI)
  fix args r args' assume "compile_join q sc j args = Some (r, args')"
  then obtain ref cs args1 rel where c: "emit_all (map (join_condition_sql sc) (djConditions j)) args = Some (cs, args1)"
      "nodeRelation q (documentNode (inDocument q) (djRightNodeID j)) ref args1 = Some (rel, args')"
      "vals (fst r) = vals (fst rel) @ vals_all cs" "snd r = snd rel"
    by (auto simp: compile_join_def emit_bind_def emit_map_def emit_fail_def emit_return_def split: option.splits if_splits prod.splits)
  have "list_all (\<lambda>c. valueless (jcLeftExpression c) \<and> valueless (jcRightExpression c)) (djConditions j)"
    using doc j by (simp add: orderly_document_def list_all_iff)
  then have q1: "args1 = args" "\<forall>c \<in> set cs. \<forall>p \<in> set (holes c). False"
    using quiet_conditions [of "djConditions j" sc] c(1) unfolding bound_def by blast+
  then have "holes c = []" if "c \<in> set cs" for c using that by (cases "holes c") force+
  then have "vals_all cs = []" by (simp add: vals_all_def vals_def)
  moreover have "args' = args1" "vals (fst rel) = snd rel"
    using relation_ok [OF doc documentNode_in, of "djRightNodeID j" ref] c(2) unfolding tables_ok_def by blast+
  ultimately show "args' = args \<and> vals (fst r) = snd r" using c(3,4) q1 by simp
qed

lemma nodes_ok:
  assumes doc: "orderly_document (inDocument q)"
  shows "set ns \<subseteq> set (doNodes (inDocument q)) \<Longrightarrow> distinct (map ndID ns) \<Longrightarrow> vals (fst start) = snd start \<Longrightarrow>
    start = ([], []) \<or> base \<notin> set (map ndID ns) \<Longrightarrow> table_ok (compile_nodes u q base ns start)"
proof (induction ns arbitrary: start)
  case (Cons n ns)
  have rest: "table_ok (compile_nodes u q base ns start')"
    if "vals (fst start') = snd start'" "start' = ([], []) \<or> base \<notin> set (map ndID ns)" for start'
    using Cons.IH [OF _ _ that] Cons.prems(1,2) by simp
  have taken: "table_ok (emit_bind (nodeRelation q n ref) (\<lambda>(relation, vs).
      compile_nodes u q base ns (relation @ [Text '' '', Name (ndAlias n)], snd start @ vs)))" if "ndID n = base" for ref
  proof -
    have s: "start = ([], [])" "base \<notin> set (map ndID ns)" using Cons.prems that by auto
    have "table_ok (nodeRelation q n ref)" using Cons.prems(1) by (intro relation_ok [OF doc]) simp
    moreover have "table_ok (compile_nodes u q base ns (fst r @ [Text '' '', Name (ndAlias n)], snd start @ snd r))" if "vals (fst r) = snd r" for r
      using that s by (intro rest) simp_all
    ultimately show ?thesis unfolding split_beta by (rule tables_bind)
  qed
  have "table_ok emit_fail" by (simp add: tables_ok_def emit_fail_def)
  then show ?case using rest [OF Cons.prems(3)] Cons.prems(4) taken by (auto split: option.split)
qed (simp add: tables_ok_def emit_return_def)

section \<open>The inner query\<close>

lemma groups_step: "(if mode = GroupByModeSets then emit_return [] else if native_grouping d mode then m else emit_return gs) =
    (if native_grouping d mode then m else emit_return (if mode = GroupByModeSets then [] else gs))"
  by (auto simp: native_grouping_def)

lemma ordered_where:
  assumes "orderly_document (inDocument q)"
  shows "ordered [] vals_all (emit_all (where_filters q sc))"
  using assms by (intro ordered_parts) (auto simp: where_filters_def active_filters_def orderly_document_def list_all_iff
      intro!: ordered_source_filter ordered_expression)

lemma ordered_minimum: "ordered [] vals_all (minimum_size_sql q)"
  unfolding minimum_size_sql_def by (auto intro!: ordered_return ordered_fail ordered_map [OF ordered_bind])

lemma yields_inner:
  assumes doc: "orderly_document (inDocument q)"
  shows "yields [] (compileInner u q) vals"
proof -
  let ?doc = "inDocument q"
  let ?sc = "query_scope q (node_aliases ?doc)"
  have tables: "table_ok (compile_nodes u q base (doNodes ?doc) ([], []))" for base
    using doc by (intro nodes_ok) (auto simp: orderly_document_def)
  have joins: "tables_ok (\<lambda>rs. concat (map fst rs)) (\<lambda>rs. concat (map snd rs)) (emit_all (map (compile_join q ?sc) js))"
    if "join_order base (doJoins ?doc) = Some js" for base js
    using mset_eq_setD [of js "doJoins ?doc"] join_order_sound [OF that] by (intro tables_all) (auto intro: join_ok [OF doc])
  have fields: "ordered [] vals_all (emit_all (map (\<lambda>f. expression ?sc (dfExpression f)) (doFields ?doc)))"
    using doc by (intro ordered_expressions) (simp add: orderly_document_def list_all_iff)
  have having: "ordered [] vals_all (emit_all (map (expression ?sc) (active_filters q (doHaving ?doc))))"
    using doc by (intro ordered_parts) (auto simp: orderly_document_def list_all_iff active_filters_def intro!: ordered_expression)
  show ?thesis
    unfolding compileInner_def Let_def groups_step split_beta
  proof (rule yields_tables [OF tables], rule yields_option, rule yields_tables [OF joins], assumption, rule yields_bind [OF fields],
      rule yields_append, rule yields_bind [OF ordered_where [OF doc]], rule yields_option, rule yields_grouping, goal_cases)
    case (1 t js rs vs)
    show ?case by simp
  next
    case (2 t js rs vs _ _ filters _ _ places)
    have "i < length (doFields ?doc)" if "i \<in> set places" for i using places_bound [OF 2(6) that] by simp
    then show ?case using doc
      by (intro ordered_expressions) (simp add: orderly_document_def list_all_iff)
  next
    case (3 t js rs vs _ _ filters _ _ places d e)
    have "i < length (doFields ?doc)" if "i \<in> set places" for i using places_bound [OF 3(6) that] by simp
    then show ?case using last_entry_zip [OF 3(7)] doc by (auto simp: orderly_document_def list_all_iff)
  next
    case (4 t js rs vs _ _ filters _ _ places groups clause)
    have l: "length (map dfCode (doFields ?doc)) = length vs" using emit_all_length [OF 4(4)] by simp
    show ?case
    proof (rule yields_bind [OF having], rule yields_bind [OF ordered_minimum], goal_cases)
      case (1 hs _ _ ms)
      show ?case
        by (rule yields_select [where ?R1.0 = "snd t @ concat (map snd rs) @ vals_all filters" and ?R2.0 = "vals_all hs @ vals_all ms"])
          (use 4 l in \<open>simp_all add: vals_as_name [unfolded split_beta]\<close>)
    qed
  next
    case (5 t js rs vs _ _ filters _ _ places clause)
    have l: "length (map dfCode (doFields ?doc)) = length vs" using emit_all_length [OF 5(4)] by simp
    have places: "i < length vs" if "i \<in> set places" for i using places_bound [OF 5(6) that] l by simp
    show ?case
    proof (rule yields_bind [OF having], rule yields_bind [OF ordered_minimum], goal_cases)
      case (1 hs _ _ ms)
      show ?case
        by (rule yields_select [where ?R1.0 = "snd t @ concat (map snd rs) @ vals_all filters" and ?R2.0 = "vals_all hs @ vals_all ms"])
          (use 5 l places in \<open>auto simp: vals_as_name [unfolded split_beta] set_zip\<close>)
    qed
  qed
qed

section \<open>Row policies\<close>

lemma ordered_policy: "ordered_sql (policyExpression attrs allowed e)"
proof (induction attrs allowed e rule: policyExpression.induct)
  case (1 attrs allowed ty field attr v left right children)
  have left: "ordered_sql (policyExpression attrs allowed l)" if "expression_kind ty = BinaryOperator" "left = Some l" "right = Some r" for l r
    using 1(1) that by simp
  have right: "ordered_sql (policyExpression attrs allowed r)"
    if "expression_kind ty = BinaryOperator" "left = Some l" "right = Some r" "ty \<noteq> ''IN''" for l r
    using 1(2) that by simp
  have children: "ordered_sql m"
    if "expression_kind ty = LogicalOperator" "\<not> length children < 2" "m \<in> set (map (policyExpression attrs allowed) children)" for m
    using 1(3) that by auto
  have collection: "ordered_sql (case expression_kind k of LiteralValue \<Rightarrow> bindCollection x | UserAttributeRef \<Rightarrow> bindCollection y
      | _ \<Rightarrow> emit_fail)" for k x y
    by (auto intro: ordered_collection ordered_fail split: expression_kind.split)
  show ?case
  proof (cases "expression_kind ty")
    case BinaryOperator
    show ?thesis
    proof (cases "left = None \<or> right = None")
      case False
      then obtain l r where lr: "left = Some l" "right = Some r" by auto
      show ?thesis
        using right [OF BinaryOperator lr]
        by (auto simp: BinaryOperator lr intro!: ordered_emit_bind [OF left [OF BinaryOperator lr]] ordered_map [OF collection] ordered_map [where h = vals])
    qed (auto simp: BinaryOperator ordered_fail split: option.split)
  next
    case LogicalOperator
    then show ?thesis using children by (auto intro!: ordered_fail ordered_map [OF ordered_parts])
  qed (auto intro: ordered_fail ordered_bind ordered_return simp: secure_field_def split: option.split)
qed

text \<open>The policies stand in the order of the text: the conditions, the alternatives, the denials.\<close>

definition class_rank :: "row_class \<Rightarrow> nat" where
  "class_rank c = (case c of AllowAND \<Rightarrow> 0 | AllowOR \<Rightarrow> 1 | Deny \<Rightarrow> 2)"

definition grouped_rows :: "Input \<Rightarrow> bool" where
  "grouped_rows q \<longleftrightarrow> sorted (map (\<lambda>p. case row_class p of None \<Rightarrow> 0 | Some c \<Rightarrow> class_rank c) (sort_slice (lt_on rpPriority) (inRowPolicies q)))"

definition rows_vals :: "(row_class \<times> sql) list \<Rightarrow> go_value list" where "rows_vals rows = concat (map (vals \<circ> snd) rows)"

lemma class_split:
  "sorted (map (class_rank \<circ> fst) rows) \<Longrightarrow>
    filter (\<lambda>r. fst r = AllowAND) rows @ filter (\<lambda>r. fst r = AllowOR) rows @ filter (\<lambda>r. fst r = Deny) rows = rows"
proof (induction rows)
  case (Cons r rows)
  have later: "class_rank (fst r) \<le> class_rank (fst x)" if "x \<in> set rows" for x using Cons.prems that by auto
  note IH = Cons.IH
  show ?case
  proof (cases "fst r")
    case AllowAND
    then show ?thesis using Cons by simp
  next
    case AllowOR
    then have "fst x \<noteq> AllowAND" if "x \<in> set rows" for x using later [OF that] by (auto simp: class_rank_def)
    then have "filter (\<lambda>r. fst r = AllowAND) rows = []" by (simp add: filter_empty_conv)
    then show ?thesis using Cons AllowOR by simp
  next
    case Deny
    then have "fst x = Deny" if "x \<in> set rows" for x using later [OF that] by (cases "fst x") (auto simp: class_rank_def)
    then have "filter (\<lambda>r. fst r = AllowAND) rows = []" "filter (\<lambda>r. fst r = AllowOR) rows = []" by (auto simp: filter_empty_conv)
    then show ?thesis using Cons Deny by simp
  qed
qed simp

lemma vals_row_group: "vals_all (row_group start sep qs) = vals_all qs" by (simp add: row_group_def)

lemma vals_all_rows: "vals_all (map snd rows) = rows_vals rows" "rows_vals (rs @ rs') = rows_vals rs @ rows_vals rs'"
  by (simp_all add: rows_vals_def vals_all_def)

lemma vals_rows:
  assumes "sorted (map (class_rank \<circ> fst) rows)"
  shows "vals (rows_sql rows) = rows_vals rows"
proof -
  have "vals (rows_sql rows) = rows_vals (filter (\<lambda>r. fst r = AllowAND) rows @ filter (\<lambda>r. fst r = AllowOR) rows @ filter (\<lambda>r. fst r = Deny) rows)"
    by (simp add: rows_sql_def Let_def vals_row_group vals_all_rows)
  then show ?thesis by (simp only: class_split [OF assms])
qed

lemma row_classes:
  "emit_all (map (row_sql q) ps) args = Some (rows, args') \<Longrightarrow> map (Some \<circ> fst) rows = map row_class ps"
  by (induction ps arbitrary: args rows)
    (auto simp: emit_return_def emit_bind_def row_sql_def emit_option_def emit_fail_def split: option.splits)

lemma yields_rows:
  assumes "grouped_rows q"
  shows "yields P (compileRows q) (\<lambda>s. P @ vals s)"
  unfolding yields_def compileRows_def
proof (intro allI impI)
  let ?ps = "sort_slice (lt_on rpPriority) (inRowPolicies q)"
  have row: "ordered [] (vals \<circ> snd) (row_sql q p)" for p
    unfolding row_sql_def by (rule ordered_emit_bind [OF ordered_policy]) (auto intro!: ordered_option)
  have all: "ordered [] rows_vals (emit_all (map (row_sql q) ?ps))"
    unfolding rows_vals_def [abs_def] by (rule ordered_all) (auto simp: row)
  fix s args assume "emit_map rows_sql (emit_all (map (row_sql q) ?ps)) P = Some (s, args)"
  then obtain rows where r: "emit_all (map (row_sql q) ?ps) P = Some (rows, args)" "s = rows_sql rows"
    by (auto simp: emit_map_def emit_bind_def emit_return_def split: option.splits)
  have "map (class_rank \<circ> fst) rows = map (\<lambda>c. case c of None \<Rightarrow> 0 | Some c \<Rightarrow> class_rank c) (map (Some \<circ> fst) rows)" by simp
  then have "map (class_rank \<circ> fst) rows = map (\<lambda>p. case row_class p of None \<Rightarrow> 0 | Some c \<Rightarrow> class_rank c) ?ps"
    unfolding row_classes [OF r(1)] by (simp add: comp_def)
  then have "sorted (map (class_rank \<circ> fst) rows)" using assms by (simp add: grouped_rows_def)
  then show "args = P @ vals s" using all r unfolding ordered_def by (fastforce simp: vals_rows)
qed

section \<open>The outer query\<close>

lemma yields_from:
  assumes "yields P m h" "\<And>x. yields (h x) (f x) g"
  shows "yields P (emit_bind m f) g"
  using assms unfolding yields_def emit_bind_def by (fastforce split: option.splits)

lemma ordered_limit: "ordered_sql (limit_sql q order)"
  unfolding limit_sql_def Let_def by (auto intro!: ordered_map [OF ordered_bind])

lemma vals_none: "holes q = [] \<Longrightarrow> vals q = []" by (simp add: vals_def)

lemma vals_columns: "compileColumns u q = Some qs \<Longrightarrow> vals_all qs = []"
  using holes_columns [of u q qs] by (auto simp: vals_all_def intro!: vals_none)

lemma yields_outer:
  assumes "orderly_document (inDocument q)" "grouped_rows q"
  shows "yields [] (compile_outer u q) vals"
  unfolding compile_outer_def
proof (rule yields_from [OF yields_inner [OF assms(1)]], rule yields_from [OF yields_rows [OF assms(2)]], rule yields_option, rule yields_option, goal_cases)
  case (1 inner_query rows columns order)
  show ?case
    by (rule yields_last [OF ordered_limit]) (use vals_columns [OF 1(1)] vals_none [OF holes_sorts [OF 1(2)]] in simp)
qed

end
