(* ===== verification/QueryErasure.thy ===== *)
theory QueryErasure imports QueryNumbered begin

text \<open>
  Two queries that differ only in the values of parameters and attributes. Their steps are \<open>alike\<close> when
  they both fail or give the same text, up to the values behind the placeholders, and bind equally many
  values. A value has a kind: null, a collection of some length, or another value.
\<close>

section \<open>Alike steps\<close>

fun blank :: "piece \<Rightarrow> piece" where
  "blank (Hole n v) = Hole n VNil"
| "blank p = p"

definition blanks :: "sql \<Rightarrow> sql" where "blanks q = map blank q"

lemma blanks_simps [simp]:
  "blanks [] = []" "blanks (p # q) = blank p # blanks q" "blanks (q1 @ q2) = blanks q1 @ blanks q2"
  "blanks q = [] \<longleftrightarrow> q = []" "[] = blanks q \<longleftrightarrow> q = []"
  by (simp_all add: blanks_def)

lemma blanks_join [simp]: "blanks (sql_join sep qs) = sql_join sep (map blanks qs)"
  by (induction sep qs rule: sql_join.induct) simp_all

lemma blanks_wrapped [simp]:
  "blanks (call f q) = call f (blanks q)" "blanks (parens q) = parens (blanks q)" "blanks (as_name q c) = as_name (blanks q) c"
  by (simp_all add: call_def parens_def as_name_def)

lemma render_blanks [simp]: "render d (blanks q) = render d q"
proof -
  have "render_piece d (blank p) = render_piece d p" for p by (cases p) simp_all
  then show ?thesis by (simp add: render_def blanks_def comp_def)
qed

fun same_kind :: "go_value \<Rightarrow> go_value \<Rightarrow> bool" where
  "same_kind (VList vs) w \<longleftrightarrow> (case w of VList ws \<Rightarrow> length vs = length ws | _ \<Rightarrow> False)"
| "same_kind VNil w \<longleftrightarrow> w = VNil"
| "same_kind v w \<longleftrightarrow> (case w of VList _ \<Rightarrow> False | VNil \<Rightarrow> False | _ \<Rightarrow> True)"

definition outcome :: "('a \<Rightarrow> 'b) \<Rightarrow> 'a emit \<Rightarrow> go_value list \<Rightarrow> ('b \<times> nat) option" where
  "outcome h m args = map_option (map_prod h length) (m args)"

definition alike :: "('a \<Rightarrow> 'b) \<Rightarrow> 'a emit \<Rightarrow> 'a emit \<Rightarrow> bool" where
  "alike h m m' \<longleftrightarrow> (\<forall>args args'. length args = length args' \<longrightarrow> outcome h m args = outcome h m' args')"

abbreviation "alike_sql \<equiv> alike blanks"

lemma alike_fail: "alike h emit_fail emit_fail" by (simp add: alike_def outcome_def emit_fail_def)

lemma alike_return: "h x = h y \<Longrightarrow> alike h (emit_return x) (emit_return y)"
  by (simp add: alike_def outcome_def emit_return_def)

lemma alike_option: "map_option h x = map_option h y \<Longrightarrow> alike h (emit_option x) (emit_option y)"
  by (cases x; cases y) (auto simp: emit_option_def alike_fail alike_return)

lemma alike_emit_bind:
  assumes m: "alike h m m'" and f: "\<And>x y. h x = h y \<Longrightarrow> alike g (f x) (f' y)"
  shows "alike g (emit_bind m f) (emit_bind m' f')"
  unfolding alike_def
proof (intro allI impI)
  fix args args' :: "go_value list" assume l: "length args = length args'"
  then have o: "outcome h m args = outcome h m' args'" using m unfolding alike_def by blast
  show "outcome g (emit_bind m f) args = outcome g (emit_bind m' f') args'"
  proof (cases "m args")
    case None
    then have "m' args' = None" using o by (simp add: outcome_def)
    with None show ?thesis by (simp add: outcome_def emit_bind_def)
  next
    case (Some r)
    obtain x a where r: "r = (x, a)" by (cases r)
    obtain y b where s: "m' args' = Some (y, b)" "h x = h y" "length a = length b" using o Some r by (cases "m' args'") (auto simp: outcome_def)
    then have "outcome g (f x) a = outcome g (f' y) b" using f [OF s(2)] unfolding alike_def by blast
    then show ?thesis using Some r s by (simp add: outcome_def emit_bind_def)
  qed
qed

lemma alike_map: "alike h m m' \<Longrightarrow> (\<And>x y. h x = h y \<Longrightarrow> g (f x) = g (f' y)) \<Longrightarrow> alike g (emit_map f m) (emit_map f' m')"
  unfolding emit_map_def by (rule alike_emit_bind, assumption) (auto intro: alike_return)

lemma alike_all: "list_all2 (alike h) ms ms' \<Longrightarrow> alike (map h) (emit_all ms) (emit_all ms')"
proof (induction rule: list_all2_induct)
  case (Cons m ms m' ms')
  show ?case unfolding emit_all.simps
    by (rule alike_emit_bind [OF Cons(1)], rule alike_emit_bind [OF Cons(3)]) (simp add: alike_return)
qed (simp add: alike_return)

lemma alike_same: "(\<And>x. x \<in> set xs \<Longrightarrow> alike h (f x) (g x)) \<Longrightarrow> alike (map h) (emit_all (map f xs)) (emit_all (map g xs))"
  by (rule alike_all) (simp add: list_all2_conv_all_nth)

lemma alike_bind: "alike_sql (bind v) (bind w)" by (simp add: alike_def outcome_def bind_def)

lemma alike_collection:
  assumes "same_kind v w"
  shows "alike_sql (bindCollection v) (bindCollection w)"
proof (cases "\<exists>vs. v = VList vs")
  case True
  then obtain vs ws where v: "v = VList vs" "w = VList ws" "length vs = length ws"
    using assms by (auto split: go_value.splits)
  have "alike (map blanks) (emit_all (map bind vs)) (emit_all (map bind ws))"
    using v(3) by (intro alike_all) (simp add: list_all2_conv_all_nth alike_bind)
  then show ?thesis
    using v by (auto simp: bindCollection_def alike_fail intro: alike_map)
next
  case False
  then show ?thesis using assms by (cases v; cases w) (simp_all add: bindCollection_def alike_fail)
qed

section \<open>Dates\<close>

text \<open>A date function puts its parts into a text that depends on nothing else.\<close>

lemma blanks_date_part: "map_option blanks (datePartExpression d u a) = datePartExpression d u (blanks a)"
  by (cases d) (auto simp: datePartExpression_def option.map_comp comp_def split: option.split)

lemma blanks_date_start: "map_option blanks (dateBoundaryStartExpression d u a) = dateBoundaryStartExpression d u (blanks a)"
  by (cases d) (auto simp: dateBoundaryStartExpression_def option.map_comp comp_def)

lemma blanks_date_end: "map_option blanks (dateBoundaryEndExpression d u a) = dateBoundaryEndExpression d u (blanks a)"
  by (cases d) (auto simp: dateBoundaryEndExpression_def option.map_comp comp_def split_def)

lemma blanks_date_trunc: "map_option blanks (date_trunc_sql d u a) = date_trunc_sql d u (blanks a)"
  by (cases d) (auto simp: date_trunc_sql_def option.map_comp comp_def)

lemma blanks_date_format: "map_option blanks (date_format_sql d u a) = date_format_sql d u (blanks a)"
  by (auto simp: date_format_sql_def split: option.split)

lemma blanks_date_diff: "map_option blanks (date_diff_sql d u s e) = date_diff_sql d u (blanks s) (blanks e)"
proof -
  have k: "Option.bind (map_option f x) g = Option.bind x (g \<circ> f)" for f :: "sql \<Rightarrow> sql" and g :: "sql \<Rightarrow> sql option" and x
    by (cases x) simp_all
  have b: "map_option f (Option.bind x g) = Option.bind x (map_option f \<circ> g)" for f :: "sql \<Rightarrow> sql" and g :: "sql \<Rightarrow> sql option" and x
    by (cases x) simp_all
  show ?thesis
    by (cases "u = ''DAY''"; cases "u = ''YEAR''"; cases "u = ''MONTH''")
      (simp_all add: date_diff_sql_def blanks_date_part [symmetric] k b comp_def split: Dialect.split)
qed

section \<open>Expressions\<close>

definition same_kinds :: "(string \<Rightarrow> go_value option) \<Rightarrow> (string \<Rightarrow> go_value option) \<Rightarrow> bool" where
  "same_kinds f g \<longleftrightarrow> (\<forall>x. rel_option same_kind (f x) (g x))"

definition alike_scopes :: "scope \<Rightarrow> scope \<Rightarrow> bool" where
  "alike_scopes sc sc' \<longleftrightarrow> sc' = sc\<lparr> scParameters := scParameters sc' \<rparr> \<and> same_kinds (scParameters sc) (scParameters sc')"

lemma alike_scopes_same:
  "alike_scopes sc sc' \<Longrightarrow> scDialect sc' = scDialect sc \<and> scTables sc' = scTables sc \<and> scProduces sc' = scProduces sc \<and> scAliases sc' = scAliases sc"
  unfolding alike_scopes_def by (cases sc; cases sc') simp

lemma alike_required: "rel_option alike_sql p p' \<Longrightarrow> alike_sql (required_part p) (required_part p')"
  by (cases p; cases p') (simp_all add: required_part_def alike_fail)

lemma alike_context: "alike_sql m m' \<Longrightarrow> (\<And>a. map_option blanks (f a) = f (blanks a)) \<Longrightarrow>
    alike_sql (emit_bind m (\<lambda>a. emit_option (f a))) (emit_bind m' (\<lambda>a. emit_option (f a)))"
  by (erule alike_emit_bind) (simp add: alike_option)

lemma alike_two_parts:
  assumes "list_all2 alike_sql ms ms'" "\<And>a b. map_option blanks (f a b) = f (blanks a) (blanks b)"
  shows "alike_sql (two_parts ms f) (two_parts ms' f)"
proof (cases "\<exists>x y. ms = [x, y]")
  case True
  then obtain x y x' y' where m: "ms = [x, y]" "ms' = [x', y']" "alike_sql x x'" "alike_sql y y'"
    using assms(1) by (auto simp: list_all2_Cons1)
  show ?thesis unfolding two_parts_def m
    by simp (rule alike_emit_bind [OF m(3)], rule alike_emit_bind [OF m(4)], simp add: alike_option assms(2))
next
  case False
  then have "two_parts ms f = emit_fail" unfolding two_parts_def by (auto split: list.split)
  moreover have "two_parts ms' f = emit_fail"
    using False assms(1) unfolding two_parts_def by (auto simp: list_all2_Cons2 split: list.split)
  ultimately show ?thesis by (simp add: alike_fail)
qed

lemma alike_aggregate:
  assumes arg: "rel_option alike_sql arg arg'" and ob: "list_all2 (rel_prod alike_sql (=)) ob ob'"
  shows "alike_sql (aggregate_sql d fn arg ob) (aggregate_sql d fn arg' ob')"
proof -
  have a: "alike_sql (case arg of None \<Rightarrow> emit_return [Text ''*''] | Some m \<Rightarrow> m) (case arg' of None \<Rightarrow> emit_return [Text ''*''] | Some m \<Rightarrow> m)"
    using arg by (cases arg; cases arg') (simp_all add: alike_return)
  have o: "alike_sql (case ob of [(o1, w)] \<Rightarrow> emit_bind o1 (\<lambda>q. if w \<noteq> x then emit_fail else emit_return (f q w)) | _ \<Rightarrow> emit_fail)
      (case ob' of [(o1, w)] \<Rightarrow> emit_bind o1 (\<lambda>q. if w \<noteq> x then emit_fail else emit_return (f' q w)) | _ \<Rightarrow> emit_fail)"
    if "\<And>q q' w. blanks q = blanks q' \<Longrightarrow> blanks (f q w) = blanks (f' q' w)" for f f' x
    using ob that by (auto simp: list_all2_Cons1 alike_fail alike_return intro!: alike_emit_bind split: list.split)
  show ?thesis unfolding aggregate_sql_def
    by (rule alike_emit_bind [OF a]) (simp add: alike_return alike_fail o [simplified])
qed

lemma alike_parts: "list_all2 alike_sql ms ms' \<Longrightarrow> alike (map blanks) (emit_all ms) (emit_all ms')" by (rule alike_all)

lemma alike_window:
  assumes arg: "rel_option alike_sql arg arg'" and pb: "list_all2 alike_sql pb pb'" and ob: "list_all2 (rel_prod alike_sql (=)) ob ob'"
  shows "alike_sql (window_sql fn arg pb ob) (window_sql fn arg' pb' ob')"
proof -
  have "alike_sql (window_order p) (window_order p')" if "rel_prod alike_sql (=) p p'" for p p'
    using that unfolding window_order_def by (cases p; cases p') (auto intro!: alike_emit_bind alike_return simp: alike_fail)
  then have o: "list_all2 alike_sql (map window_order ob) (map window_order ob')"
    using ob by (auto simp: list_all2_conv_all_nth)
  have e: "pb' = [] \<longleftrightarrow> pb = []" "ob' = [] \<longleftrightarrow> ob = []" using pb ob by auto
  show ?thesis unfolding window_sql_def Let_def e
    using alike_required [OF arg]
    by (auto simp: alike_fail intro!: alike_emit_bind [OF alike_parts [OF pb]] alike_emit_bind [OF alike_parts [OF o]]
        alike_emit_bind [where h = blanks] alike_return)
qed

lemma alike_date:
  assumes "rel_option alike_sql arg arg'" "list_all2 alike_sql args args'"
  shows "alike_sql (date_sql d t u arg args) (date_sql d t u arg' args')"
  using alike_required [OF assms(1)] assms(2)
  by (cases t) (simp_all add: date_sql_def alike_return alike_two_parts alike_context blanks_date_part blanks_date_start blanks_date_end
      blanks_date_trunc blanks_date_format blanks_date_diff)

definition alike_compiled :: "compiled_part \<Rightarrow> compiled_part \<Rightarrow> bool" where
  "alike_compiled r r' \<longleftrightarrow> fst r = fst r' \<and> list_all2 alike_sql (fst (snd r)) (fst (snd r')) \<and> alike_sql (snd (snd r)) (snd (snd r'))"

lemma same_kind_self: "same_kind v v" by (cases v) simp_all

lemma alike_in_values:
  assumes "alike_scopes sc sc'" "alike_compiled r r'"
  shows "alike_sql (in_values sc r) (in_values sc' r')"
proof -
  obtain e args m where r: "r = (e, args, m)" by (cases r)
  obtain args' m' where r': "r' = (e, args', m')" "list_all2 alike_sql args args'"
    using assms(2) by (cases r') (auto simp: alike_compiled_def r)
  have p: "rel_option same_kind (scParameters sc c) (scParameters sc' c)" for c
    using assms(1) by (simp add: alike_scopes_def same_kinds_def)
  have "args' = [] \<longleftrightarrow> args = []" using r'(2) by auto
  then show ?thesis
    using p [of "deCode e"] alike_parts [OF r'(2)]
    by (auto simp: in_values_def r r'(1) alike_fail same_kind_self intro!: alike_map [where h = "map blanks"] alike_collection
        split: NodeType.split option.splits)
qed

lemma alike_comparison:
  assumes sc: "alike_scopes sc sc'" and l: "rel_option alike_sql l l'" and r: "rel_option alike_compiled r r'"
  shows "alike_sql (comparison_sql sc t l r) (comparison_sql sc' t l' r')"
proof (cases "\<exists>m p. l = Some m \<and> r = Some p")
  case True
  then obtain m p m' p' where lr: "l = Some m" "r = Some p" "l' = Some m'" "r' = Some p'" "alike_sql m m'" "alike_compiled p p'"
    using l r by (auto simp: option_rel_Some1)
  have v: "alike_sql (in_values sc p) (in_values sc' p')" using sc lr(6) by (rule alike_in_values)
  have b: "alike_sql (snd (snd p)) (snd (snd p'))" using lr(6) by (simp add: alike_compiled_def)
  have d: "scDialect sc' = scDialect sc" using alike_scopes_same [OF sc] by simp
  show ?thesis unfolding comparison_sql_def lr(1-4) option.case d
    by (rule alike_emit_bind [OF lr(5)])
      (auto intro!: alike_map [OF v] alike_emit_bind [OF b] alike_return alike_option simp: option.map_comp comp_def)
next
  case False
  then show ?thesis using l r unfolding comparison_sql_def by (auto simp: alike_fail option_rel_Some1 split: option.split)
qed

lemma alike_case:
  assumes whens: "list_all2 (rel_prod alike_sql alike_sql) whens whens'" and els: "rel_option alike_sql els els'"
  shows "alike_sql (case_sql whens els) (case_sql whens' els')"
proof -
  have "alike_sql (case_branch p) (case_branch p')" if "rel_prod alike_sql alike_sql p p'" for p p'
    using that unfolding case_branch_def by (cases p; cases p') (auto intro!: alike_emit_bind [where h = blanks] alike_map [where h = blanks])
  then have b: "list_all2 alike_sql (map case_branch whens) (map case_branch whens')"
    using whens by (auto simp: list_all2_conv_all_nth)
  have e: "alike (map blanks) (case els of None \<Rightarrow> emit_return [] | Some m \<Rightarrow> emit_map (\<lambda>q. [[Text ''ELSE ''] @ q]) m)
      (case els' of None \<Rightarrow> emit_return [] | Some m \<Rightarrow> emit_map (\<lambda>q. [[Text ''ELSE ''] @ q]) m)"
    using els by (cases els; cases els') (auto intro!: alike_return alike_map [where h = blanks])
  show ?thesis unfolding case_sql_def
    by (rule alike_emit_bind [OF alike_parts [OF b]], rule alike_emit_bind [OF e]) (simp add: alike_return)
qed

lemma alike_node:
  assumes sc: "alike_scopes sc sc'" and arg: "rel_option alike_sql arg arg'" and args: "list_all2 alike_sql args args'"
    and l: "rel_option alike_sql l l'" and r: "rel_option alike_compiled r r'" and lo: "rel_option alike_sql lo lo'"
    and up: "rel_option alike_sql up up'" and whens: "list_all2 (rel_prod alike_sql alike_sql) whens whens'" and els: "rel_option alike_sql els els'"
    and pb: "list_all2 alike_sql pb pb'" and ob: "list_all2 (rel_prod alike_sql (=)) ob ob'"
  shows "alike_sql (node_sql sc ty n f c fn u tt v arg args l r lo up whens els pb ob)
    (node_sql sc' ty n f c fn u tt v arg' args' l' r' lo' up' whens' els' pb' ob')"
proof -
  note same = alike_scopes_same [OF sc]
  have all: "alike_sql (emit_map g (emit_all args)) (emit_map g (emit_all args'))" if "\<And>xs. blanks (g xs) = g (map blanks xs)" for g
    by (rule alike_map [OF alike_parts [OF args]]) (metis that)
  have required: "alike_sql (required_part arg) (required_part arg')" using arg by (rule alike_required)
  have field: "alike_sql (field_sql sc n f) (field_sql sc' n f)"
    by (auto simp: field_sql_def same alike_fail alike_return split: option.split)
  have param: "alike_sql (param_sql sc c) (param_sql sc' c)"
    using sc by (auto simp: param_sql_def alike_scopes_def same_kinds_def alike_fail alike_bind option_rel_Some1 split: option.split dest: spec [of _ c])
  have two: "alike_sql (two_parts args (\<lambda>a b. Some ([Text ''NULLIF(''] @ a @ [Text '',''] @ b @ [Text '')''])))
      (two_parts args' (\<lambda>a b. Some ([Text ''NULLIF(''] @ a @ [Text '',''] @ b @ [Text '')''])))"
    by (rule alike_two_parts [OF args]) simp
  have cast: "alike_sql (emit_bind (required_part arg) (\<lambda>a. emit_option
      (map_option (\<lambda>t. [Text ''CAST(''] @ a @ [Text ('' AS '' @ t @ '')'')]) (cast_type (scDialect sc) tt))))
      (emit_bind (required_part arg') (\<lambda>a. emit_option
      (map_option (\<lambda>t. [Text ''CAST(''] @ a @ [Text ('' AS '' @ t @ '')'')]) (cast_type (scDialect sc) tt))))"
    by (rule alike_context [OF required]) (simp add: option.map_comp comp_def)
  have between: "alike_sql (emit_bind (required_part l) (\<lambda>a. emit_bind (required_part lo) (\<lambda>b. emit_bind (required_part up) (\<lambda>c.
      emit_return ([Text ''(''] @ a @ [Text '' BETWEEN ''] @ b @ [Text '' AND ''] @ c @ [Text '')''])))))
      (emit_bind (required_part l') (\<lambda>a. emit_bind (required_part lo') (\<lambda>b. emit_bind (required_part up') (\<lambda>c.
      emit_return ([Text ''(''] @ a @ [Text '' BETWEEN ''] @ b @ [Text '' AND ''] @ c @ [Text '')''])))))"
    by (rule alike_emit_bind [OF alike_required [OF l]], rule alike_emit_bind [OF alike_required [OF lo]],
        rule alike_emit_bind [OF alike_required [OF up]]) (simp add: alike_return)
  have test: "blanks (test_sql t a) = test_sql t (blanks a)" for t a by (cases t) (simp_all add: test_sql_def)
  have unary: "alike_sql (emit_map g (required_part arg)) (emit_map g (required_part arg'))" if "\<And>a. blanks (g a) = g (blanks a)" for g
    by (rule alike_map [OF required]) (metis that)
  have l': "length args' = length args" using list_all2_lengthD [OF args] by simp
  show ?thesis
    by (cases ty) (simp_all add: node_sql_def same l' alike_fail alike_bind field param two [simplified] cast [simplified] all unary test
        between [simplified] alike_aggregate [OF arg ob] alike_window [OF arg pb ob] alike_date [OF arg args]
        alike_comparison [OF sc l r] alike_case [OF whens els])
qed

lemma alike_expression_parts:
  assumes sc: "alike_scopes sc sc'"
  shows "alike_sql (expression sc e) (expression sc' e) \<and> (\<forall>x \<in> direct_parts e. alike_sql (expression sc x) (expression sc' x))"
proof (induction e rule: expression_induct)
  case (1 e)
  have IH: "alike_sql (expression sc x) (expression sc' x)" if "x \<in> direct_parts e" for x using 1 [OF that] by simp
  have "alike_compiled (compile_part sc x) (compile_part sc' x)" if "x \<in> direct_parts e" for x
    using 1 [OF that] by (auto simp: alike_compiled_def compile_part_triple list_all2_conv_all_nth direct_parts_def)
  then have "alike_sql (expression sc e) (expression sc' e)"
    unfolding expression_node [of _ e]
    by (intro alike_node [OF sc]) (auto simp: option.rel_map list.rel_map prod.rel_map direct_parts_def rev_image_eqI
        intro!: option.rel_refl_strong list.rel_refl_strong IH split: prod.split)
  then show ?case using IH by blast
qed

lemma alike_expression: "alike_scopes sc sc' \<Longrightarrow> alike_sql (expression sc e) (expression sc' e)"
  using alike_expression_parts by blast

end
