(* ===== verification/QueryIndependence.thy ===== *)
theory QueryIndependence imports QueryErasure begin

text \<open>
  The text of a query depends on the values it is given only through their kinds.
\<close>

section \<open>Inputs\<close>

definition alike_inputs :: "Input \<Rightarrow> Input \<Rightarrow> bool" where
  "alike_inputs q q' \<longleftrightarrow> q' = q\<lparr> inParameters := inParameters q', inAttributes := inAttributes q' \<rparr> \<and>
     same_kinds (map_of (inParameters q)) (map_of (inParameters q')) \<and> same_kinds (inAttributes q) (inAttributes q')"

lemma alike_inputs_same:
  assumes "alike_inputs q q'"
  shows "inDocument q' = inDocument q" "inDialect q' = inDialect q" "inTables q' = inTables q" "inRowPolicies q' = inRowPolicies q"
    "inColumnPolicies q' = inColumnPolicies q" "inMaxRows q' = inMaxRows q" "inLimitKind q' = inLimitKind q"
  using assms unfolding alike_inputs_def by (cases q; cases q'; simp)+

lemma alike_scope:
  assumes "alike_inputs q q'"
  shows "alike_scopes (query_scope q al) (query_scope q' al)"
  using assms alike_inputs_same [OF assms] by (simp add: alike_scopes_def query_scope_def alike_inputs_def)

section \<open>Filters\<close>

lemma same_kinds_null:
  assumes "same_kinds f g"
  shows "(g c = None \<or> g c = Some VNil) \<longleftrightarrow> (f c = None \<or> f c = Some VNil)"
proof -
  have n: "same_kind v w \<Longrightarrow> w = VNil \<longleftrightarrow> v = VNil" for v w by (cases v; cases w) simp_all
  have "rel_option same_kind (f c) (g c)" using assms by (simp add: same_kinds_def)
  then show ?thesis by (cases "f c"; cases "g c") (simp_all add: n)
qed

lemma alike_null:
  assumes "same_kinds (map_of ps) (map_of ps')"
  shows "hasNilParameter ps' e = hasNilParameter ps e"
proof (induction e)
  case (DatasetExpression ty n f c fn u tt v arg args l r lo up whens els pb ob)
  note IH = DatasetExpression.IH
  have o: "map_option (hasNilParameter ps') x = map_option (hasNilParameter ps) x" if "\<And>y. y \<in> set_option x \<Longrightarrow> hasNilParameter ps' y = hasNilParameter ps y" for x
    using that by (cases x) simp_all
  have w: "map (map_prod (hasNilParameter ps') (hasNilParameter ps')) whens = map (map_prod (hasNilParameter ps) (hasNilParameter ps)) whens"
    using IH(7,8) by (auto simp: map_prod_def)
  have b: "map (map_prod (hasNilParameter ps') id) ob = map (map_prod (hasNilParameter ps) id) ob"
    using IH(11) by (auto simp: map_prod_def)
  have a: "map (hasNilParameter ps') args = map (hasNilParameter ps) args" "map (hasNilParameter ps') pb = map (hasNilParameter ps) pb"
    using IH(2,10) by simp_all
  have options: "map_option (hasNilParameter ps') arg = map_option (hasNilParameter ps) arg"
    "map_option (hasNilParameter ps') l = map_option (hasNilParameter ps) l" "map_option (hasNilParameter ps') r = map_option (hasNilParameter ps) r"
    "map_option (hasNilParameter ps') lo = map_option (hasNilParameter ps) lo" "map_option (hasNilParameter ps') up = map_option (hasNilParameter ps) up"
    "map_option (hasNilParameter ps') els = map_option (hasNilParameter ps) els"
    using IH(1,3-6,9) by (auto intro!: o)
  show ?case
    unfolding hasNilParameter.simps w b a options same_kinds_null [OF assms] ..
qed

lemma alike_active: "alike_inputs q q' \<Longrightarrow> active_filters q' fs = active_filters q fs"
  using alike_null [of "inParameters q" "inParameters q'"] by (simp add: active_filters_def alike_inputs_def)

lemma alike_plain_filter: "alike_inputs q q' \<Longrightarrow> alike_sql (plain_filter_sql q n a f) (plain_filter_sql q' n a f)"
  by (auto simp: plain_filter_sql_def Let_def alike_inputs_same alike_fail alike_return same_kind_self
      intro!: alike_map [OF alike_bind] alike_map [OF alike_collection] split: option.split)

lemma alike_source_filter:
  "alike_inputs q q' \<Longrightarrow> alike_sql (sourceFilterExpression q n al a f) (sourceFilterExpression q' n al a f)"
  by (auto simp: sourceFilterExpression_def alike_plain_filter intro!: alike_expression alike_scope split: option.split)

lemma alike_expressions:
  "alike_scopes sc sc' \<Longrightarrow> alike (map blanks) (emit_all (map (\<lambda>x. expression sc (f x)) xs)) (emit_all (map (\<lambda>x. expression sc' (f x)) xs))"
  by (rule alike_same) (rule alike_expression)

section \<open>Groups\<close>

lemma blanks_select [simp]:
  "blanks (select_sql s ps t fs g h) = select_sql s (map blanks ps) (blanks t) (map blanks fs) (blanks g) (map blanks h)"
  by (simp add: select_sql_def)

lemma blanks_table [simp]: "blanks (table_name_sql ref) = table_name_sql ref" by (simp add: table_name_sql_def)

lemma blanks_as_name_map: "map blanks (map2 as_name qs ns) = map2 as_name (map blanks qs) ns"
  by (induction qs arbitrary: ns) (auto simp: zip_Cons1 split: list.split)

lemma alike_clause:
  assumes sc: "alike_scopes sc sc'" and g: "map blanks gs = map blanks gs'"
  shows "alike_sql (group_clause sc mode gs aliases dims sets) (group_clause sc' mode gs' aliases dims sets)"
proof -
  have d: "alike_sql (case dims x of None \<Rightarrow> emit_fail | Some e \<Rightarrow> expression sc e) (case dims x of None \<Rightarrow> emit_fail | Some e \<Rightarrow> expression sc' e)" for x
    by (auto simp: alike_fail intro!: alike_expression [OF sc] split: option.split)
  have s: "alike (map blanks) (grouping_sets_sql sc dims sets) (grouping_sets_sql sc' dims sets)"
    unfolding grouping_sets_sql_def by (rule alike_same, rule alike_map, rule alike_same, rule d) simp
  show ?thesis
    using alike_scopes_same [OF sc] g
    by (cases mode) (auto simp: group_clause_def Let_def intro!: alike_return alike_map [OF s])
qed

lemma blanks_hidden: "blanks (hidden_projection e n) = hidden_projection (blanks e) n"
  by (simp add: hidden_projection_def)

lemma blanks_branch:
  "map blanks (branch_projections dims ps sel) = branch_projections (map (\<lambda>(i, e, n). (i, blanks e, n)) dims) (map blanks ps) sel"
proof -
  have "map blanks (foldl (\<lambda>ps (b, i, e, n). if b then ps else ps[i := hidden_projection e n]) ps bs) =
      foldl (\<lambda>ps (b, i, e, n). if b then ps else ps[i := hidden_projection e n]) (map blanks ps) (map (\<lambda>(b, i, e, n). (b, i, blanks e, n)) bs)" for ps bs
    by (induction bs arbitrary: ps) (auto simp: map_update blanks_hidden)
  then show ?thesis unfolding branch_projections_def by (simp add: zip_map2 split_def)
qed

lemma alike_branches:
  assumes "\<And>ps ps' gc. map blanks ps = map blanks ps' \<Longrightarrow> blanks (build ps gc) = blanks (build' ps' gc)"
    "map (\<lambda>(i, e, n). (i, blanks e, n)) dims = map (\<lambda>(i, e, n). (i, blanks e, n)) dims'" "map blanks ps = map blanks ps'"
  shows "alike_sql (branches_sql build dims ps aliases sels) (branches_sql build' dims' ps' aliases sels)"
proof -
  have "map (\<lambda>s. blanks (build (branch_projections dims ps s) (sql_join '', '' (active_groups aliases s)))) sels =
      map (\<lambda>s. blanks (build' (branch_projections dims' ps' s) (sql_join '', '' (active_groups aliases s)))) sels"
    using assms(1) [OF blanks_branch [of dims ps, unfolded assms(2,3), folded blanks_branch [of dims' ps']]] by simp
  moreover have "length (concat (replicate n args)) = n * length args" for n and args :: "go_value list" by (induction n) simp_all
  ultimately show ?thesis
    by (simp add: branches_sql_def alike_def outcome_def emit_bind_def emit_repeat_def emit_return_def comp_def cong: map_cong)
qed

lemma blanks_zip: "map (\<lambda>(i, e, n). (i, blanks e, n)) (zip is (zip qs ns)) = zip is (zip (map blanks qs) ns)"
  by (simp add: zip_map1 zip_map2 split_def)

section \<open>Tables\<close>

abbreviation table_view :: "sql \<times> go_value list \<Rightarrow> sql \<times> nat" where "table_view \<equiv> map_prod blanks length"

lemma alike_if: "(b \<Longrightarrow> alike h m m') \<Longrightarrow> (\<not> b \<Longrightarrow> alike h k k') \<Longrightarrow> alike h (if b then m else k) (if b then m' else k')"
  by simp

lemma alike_derived_table:
  assumes q: "alike_inputs q q'"
  shows "alike_sql (derived_table q item node ref) (derived_table q' item node ref)"
proof -
  let ?al = "\<lambda>n. if n = ndID node then ''pre_source'' else []"
  have sc: "alike_scopes (query_scope q ?al) (query_scope q' ?al)" using q by (rule alike_scope)
  have es: "alike (map blanks) (emit_all (map (expression (query_scope q ?al)) xs)) (emit_all (map (expression (query_scope q' ?al)) xs))" for xs
    by (rule alike_same) (rule alike_expression [OF sc])
  have fs: "alike (map blanks) (emit_all (map (sourceFilterExpression q (ndID node) ?al (?al (ndID node))) (ndSourceFilters node)))
      (emit_all (map (sourceFilterExpression q' (ndID node) ?al (?al (ndID node))) (ndSourceFilters node)))"
    by (rule alike_same) (rule alike_source_filter [OF q])
  show ?thesis
    unfolding derived_table_def Let_def alike_inputs_same [OF q]
  proof (rule alike_emit_bind [OF es], rule alike_emit_bind [OF alike_expressions [OF sc]], rule alike_emit_bind [OF fs],
      rule alike_emit_bind [where h = "map blanks"], goal_cases)
    case (1 gs gs' ms ms' fs fs')
    then show ?case by (intro alike_if es alike_return)
  next
    case (2 gs gs' ms ms' fs fs' groups groups')
    have p: "map blanks (map2 as_name gs ns @ map2 as_name ms ns') = map blanks (map2 as_name gs' ns @ map2 as_name ms' ns')" for ns ns'
      using 2 by (simp only: map_append blanks_as_name_map)
    have l: "length gs' = length gs" using 2(1) by (metis length_map)
    show ?case
    proof (rule alike_emit_bind [OF alike_clause [OF sc 2(4)]], rule alike_map [where h = blanks], rule alike_if, goal_cases)
      case (1 clause clause')
      show ?case
        by (rule alike_emit_bind [where h = id], rule alike_option, simp)
          (use 2 l p in \<open>auto simp: blanks_zip simp del: map_append intro!: alike_branches\<close>)
    next
      case (2 clause clause')
      then show ?case using \<open>map blanks fs = map blanks fs'\<close> p by (auto intro!: alike_return simp del: map_append)
    qed simp
  qed
qed

lemma alike_nested:
  assumes "alike_sql m m'"
  shows "alike table_view (emit_nested m) (emit_nested m')"
proof -
  have "outcome blanks m [] = outcome blanks m' []" using assms by (simp add: alike_def)
  then show ?thesis
    by (cases "m []"; cases "m' []") (auto simp: alike_def outcome_def emit_nested_def)
qed

lemma alike_relation: "alike_inputs q q' \<Longrightarrow> alike table_view (nodeRelation q node ref) (nodeRelation q' node ref)"
  by (auto simp: nodeRelation_def alike_inputs_same alike_return intro!: alike_nested alike_derived_table split: option.split)

lemma alike_join:
  assumes q: "alike_inputs q q'" and sc: "alike_scopes sc sc'"
  shows "alike table_view (compile_join q sc j) (compile_join q' sc' j)"
proof -
  have "alike_sql (join_condition_sql sc c) (join_condition_sql sc' c)" for c
    unfolding join_condition_sql_def
    by (rule alike_emit_bind [OF alike_expression [OF sc]], rule alike_emit_bind [OF alike_expression [OF sc]])
      (auto intro!: alike_option simp: option.map_comp comp_def)
  then have c: "alike (map blanks) (emit_all (map (join_condition_sql sc) (djConditions j))) (emit_all (map (join_condition_sql sc') (djConditions j)))"
    by (rule alike_same)
  show ?thesis
    by (auto simp: compile_join_def alike_inputs_same [OF q] alike_scopes_same [OF sc] alike_fail
        intro!: alike_emit_bind [OF c] alike_map [OF alike_relation [OF q]] split: option.split)
qed

lemma alike_nodes:
  assumes q: "alike_inputs q q'"
  shows "table_view start = table_view start' \<Longrightarrow> alike table_view (compile_nodes u q base ns start) (compile_nodes u q' base ns start')"
proof (induction ns arbitrary: start start')
  case (Cons n ns)
  have l: "length (snd start) = length (snd start')" using Cons.prems by (cases start; cases start') simp
  have "alike table_view (emit_bind (nodeRelation q n ref) (\<lambda>(relation, vs).
        compile_nodes u q base ns (relation @ [Text '' '', Name (ndAlias n)], snd start @ vs)))
      (emit_bind (nodeRelation q' n ref) (\<lambda>(relation, vs).
        compile_nodes u q' base ns (relation @ [Text '' '', Name (ndAlias n)], snd start' @ vs)))" for ref
    using l by (intro alike_emit_bind [OF alike_relation [OF q]]) (auto intro!: Cons.IH)
  then show ?case using Cons by (auto simp: alike_inputs_same [OF q] alike_fail split: option.split)
qed (simp add: alike_return)

section \<open>The inner query\<close>

lemma alike_choice:
  "(\<And>y. x = Some y \<Longrightarrow> alike g (f y) (f' y)) \<Longrightarrow> alike g (emit_bind (emit_option x) f) (emit_bind (emit_option x) f')"
  by (cases x) (simp_all add: emit_option_def alike_def outcome_def emit_bind_def emit_fail_def emit_return_def)

lemma alike_where:
  assumes q: "alike_inputs q q'" and sc: "alike_scopes sc sc'"
  shows "alike (map blanks) (emit_all (where_filters q sc)) (emit_all (where_filters q' sc'))"
proof (rule alike_all)
  have f: "list_all2 alike_sql (map (sourceFilterExpression q n al a) fs) (map (sourceFilterExpression q' n al a) fs)" for n al a fs
    by (simp add: list_all2_conv_all_nth alike_source_filter [OF q])
  have "list_all2 alike_sql (concat (map (\<lambda>n. map (sourceFilterExpression q (ndID n) al (ndAlias n)) (ndSourceFilters n)) ns))
      (concat (map (\<lambda>n. map (sourceFilterExpression q' (ndID n) al (ndAlias n)) (ndSourceFilters n)) ns))" for al ns
    by (induction ns) (auto intro!: list_all2_appendI f)
  moreover have "list_all2 alike_sql (map (expression sc) es) (map (expression sc') es)" for es
    by (simp add: list_all2_conv_all_nth alike_expression [OF sc])
  ultimately show "list_all2 alike_sql (where_filters q sc) (where_filters q' sc')"
    using alike_scopes_same [OF sc] by (auto simp: where_filters_def alike_inputs_same [OF q] alike_active [OF q] intro!: list_all2_appendI)
qed

lemma alike_minimum: "alike_inputs q q' \<Longrightarrow> alike (map blanks) (minimum_size_sql q) (minimum_size_sql q')"
  by (auto simp: minimum_size_sql_def minimumGroupSize_def alike_inputs_same alike_return alike_fail intro!: alike_map [OF alike_bind])

lemma alike_append: "length vs = length vs' \<Longrightarrow> alike id (emit_append vs) (emit_append vs')"
  by (simp add: alike_def outcome_def emit_append_def)

lemma nth_alike: "map f xs = map f ys \<Longrightarrow> f (xs ! i) = f (ys ! i)"
proof (induction xs arbitrary: ys i)
  case (Cons x xs)
  then obtain y ys' where y: "ys = y # ys'" "f x = f y" "map f xs = map f ys'" by (cases ys) simp_all
  show ?case using y(2) Cons.IH [OF y(3), of "i - 1"] by (cases i) (simp_all add: y(1))
qed simp

lemma table_views:
  assumes "table_view t = table_view t'" "map table_view rs = map table_view rs'"
  shows "length (snd t @ concat (map snd rs)) = length (snd t' @ concat (map snd rs'))"
    "blanks (fst t @ concat (map fst rs)) = blanks (fst t' @ concat (map fst rs'))"
proof -
  have l: "length (concat (map snd rs)) = sum_list (map (snd \<circ> table_view) rs)" for rs :: "(sql \<times> go_value list) list"
    by (induction rs) simp_all
  have b: "blanks (concat (map fst rs)) = concat (map (fst \<circ> table_view) rs)" for rs :: "(sql \<times> go_value list) list"
    by (induction rs) simp_all
  have m: "map (f \<circ> table_view) rs = map (f \<circ> table_view) rs'" for f :: "sql \<times> nat \<Rightarrow> 'x"
    using arg_cong [OF assms(2), of "map f"] by simp
  have r: "length (concat (map snd rs)) = length (concat (map snd rs')) \<and> blanks (concat (map fst rs)) = blanks (concat (map fst rs'))"
    unfolding l b using m [of snd] m [of fst] by simp
  have t: "length (snd t) = length (snd t')" "blanks (fst t) = blanks (fst t')"
    using assms(1) by (simp_all add: map_prod_def split_def)
  show "length (snd t @ concat (map snd rs)) = length (snd t' @ concat (map snd rs'))" using t r by simp
  show "blanks (fst t @ concat (map fst rs)) = blanks (fst t' @ concat (map fst rs'))" using t r by simp
qed

lemma alike_inner:
  assumes q: "alike_inputs q q'"
  shows "alike_sql (compileInner u q) (compileInner u q')"
proof -
  let ?doc = "inDocument q"
  let ?sc = "query_scope q (node_aliases ?doc)" and ?sc' = "query_scope q' (node_aliases ?doc)"
  have sc: "alike_scopes ?sc ?sc'" using q by (rule alike_scope)
  have joins: "alike (map table_view) (emit_all (map (compile_join q ?sc) js)) (emit_all (map (compile_join q' ?sc') js))" for js
    by (rule alike_same) (rule alike_join [OF q sc])
  have es: "alike (map blanks) (emit_all (map (expression ?sc) xs)) (emit_all (map (expression ?sc') xs))" for xs
    by (rule alike_same) (rule alike_expression [OF sc])
  show ?thesis
    unfolding compileInner_def Let_def alike_inputs_same [OF q] alike_active [OF q] split_beta
    apply (rule alike_emit_bind [OF alike_nodes [OF q]], simp)
    apply (rule alike_choice)
    apply (rule alike_emit_bind [OF joins])
    apply (rule alike_emit_bind [OF alike_expressions [OF sc]])
    apply (rule alike_emit_bind [OF alike_append])
    subgoal by (erule table_views) assumption
    apply (rule alike_emit_bind [OF alike_where [OF q sc]], rule alike_choice)
    subgoal for t t' js rs rs' vs vs' _ _ fs fs' places
    proof (rule alike_emit_bind [where h = "map blanks"], goal_cases)
      case 1
      then have "map blanks (map (\<lambda>i. vs ! i) places) = map blanks (map (\<lambda>i. vs' ! i) places)"
        by (simp add: nth_alike [of blanks vs vs'])
      then show ?case by (intro alike_if alike_return alike_expressions [OF sc]) simp_all
    next
      case (2 groups groups')
      have dims: "map blanks (map (\<lambda>i. vs ! i) places) = map blanks (map (\<lambda>i. vs' ! i) places)"
        using 2 by (simp add: nth_alike [of blanks vs vs'])
      have dims2: "map (\<lambda>(i, e, n). (i, blanks e, n)) (zip places (zip (map (\<lambda>i. vs ! i) places) ns)) =
          map (\<lambda>(i, e, n). (i, blanks e, n)) (zip places (zip (map (\<lambda>i. vs' ! i) places) ns))" for ns
        unfolding blanks_zip dims ..
      have views: "blanks (fst t @ concat (map fst rs)) = blanks (fst t' @ concat (map fst rs'))" using 2(1,3) by (rule table_views)
      have projections: "map blanks (map (\<lambda>p. as_name (fst p) (snd p)) (zip vs ns)) = map blanks (map (\<lambda>p. as_name (fst p) (snd p)) (zip vs' ns))" for ns
        using 2(4) blanks_as_name_map [of vs ns] blanks_as_name_map [of vs' ns] by (simp add: split_def)
      show ?case
      proof (rule alike_emit_bind [OF alike_clause [OF sc 2(8)]], rule alike_emit_bind [OF es], rule alike_emit_bind [OF alike_minimum [OF q]],
          rule alike_if, goal_cases)
        case (1 clause clause' hs hs' ms ms')
        show ?case
          by (rule alike_choice, rule alike_branches [OF _ dims2 projections]) (use 1 2 views in simp)
      next
        case (2 clause clause' hs hs' ms ms')
        show ?case
          by (rule alike_return) (use 2 views projections \<open>map blanks fs = map blanks fs'\<close> in simp)
      qed
    qed
    done
qed

section \<open>The outer query\<close>

lemma alike_policy:
  assumes "same_kinds attrs attrs'"
  shows "alike_sql (policyExpression attrs allowed e) (policyExpression attrs' allowed e)"
  using assms
proof (induction attrs allowed e rule: policyExpression.induct)
  case (1 attrs allowed ty field attr v left right children)
  note attrs = "1.prems"
  have left: "alike_sql (policyExpression attrs allowed l) (policyExpression attrs' allowed l)"
    if "expression_kind ty = BinaryOperator" "left = Some l" "right = Some r" for l r
    using "1.IH"(1) attrs that by simp
  have right: "alike_sql (policyExpression attrs allowed r) (policyExpression attrs' allowed r)"
    if "expression_kind ty = BinaryOperator" "left = Some l" "right = Some r" "ty \<noteq> ''IN''" for l r
    using "1.IH"(2) attrs that by simp
  have attr: "rel_option same_kind (attrs a) (attrs' a)" for a using attrs by (simp add: same_kinds_def)
  then have given: "same_kind (case attrs a of None \<Rightarrow> VNil | Some x \<Rightarrow> x) (case attrs' a of None \<Rightarrow> VNil | Some x \<Rightarrow> x)" for a
    by (cases "attrs a"; cases "attrs' a") (use attr [of a] in auto)
  have collection: "alike_sql (case expression_kind (exType r) of LiteralValue \<Rightarrow> bindCollection (exValue r)
        | UserAttributeRef \<Rightarrow> bindCollection (case attrs (exAttribute r) of None \<Rightarrow> VNil | Some x \<Rightarrow> x) | _ \<Rightarrow> emit_fail)
      (case expression_kind (exType r) of LiteralValue \<Rightarrow> bindCollection (exValue r)
        | UserAttributeRef \<Rightarrow> bindCollection (case attrs' (exAttribute r) of None \<Rightarrow> VNil | Some x \<Rightarrow> x) | _ \<Rightarrow> emit_fail)" for r
    by (auto simp: same_kind_self given alike_fail intro!: alike_collection split: expression_kind.split)
  show ?case
  proof (cases "expression_kind ty")
    case UserAttributeRef
    then show ?thesis using attr [of attr] by (cases "attrs attr"; cases "attrs' attr") (simp_all add: alike_fail alike_bind)
  next
    case BinaryOperator
    show ?thesis
    proof (cases "left = None \<or> right = None")
      case False
      then obtain l r where lr: "left = Some l" "right = Some r" by auto
      show ?thesis
        using right [OF BinaryOperator lr]
        by (auto simp: BinaryOperator lr intro!: alike_emit_bind [OF left [OF BinaryOperator lr]] alike_map [OF collection] alike_map [where h = blanks])
    qed (auto simp: BinaryOperator alike_fail split: option.split)
  next
    case LogicalOperator
    have "alike (map blanks) (emit_all (map (policyExpression attrs allowed) children)) (emit_all (map (policyExpression attrs' allowed) children))"
      if "\<not> length children < 2"
      by (rule alike_same) (use "1.IH"(3) attrs LogicalOperator that in simp)
    then show ?thesis using LogicalOperator by (auto intro!: alike_fail alike_map [where h = "map blanks"])
  qed (simp_all add: alike_fail alike_bind alike_return)
qed

lemma blanks_rows: "blanks (rows_sql rows) = rows_sql (map (map_prod id blanks) rows)"
  by (simp add: rows_sql_def Let_def row_group_def filter_map comp_def)

lemma alike_rows:
  assumes q: "alike_inputs q q'"
  shows "alike_sql (compileRows q) (compileRows q')"
proof -
  have a: "same_kinds (inAttributes q) (inAttributes q')" using q by (simp add: alike_inputs_def)
  have "alike (map_prod id blanks) (row_sql q p) (row_sql q' p)" for p
    unfolding row_sql_def alike_inputs_same [OF q]
    by (rule alike_emit_bind [OF alike_policy [OF a]]) (auto intro!: alike_option simp: option.map_comp comp_def)
  then show ?thesis
    unfolding compileRows_def alike_inputs_same [OF q]
    by (intro alike_map [OF alike_same [where h = "map_prod id blanks"]]) (auto simp: blanks_rows)
qed

lemma alike_outer:
  assumes q: "alike_inputs q q'"
  shows "alike_sql (compile_outer u q) (compile_outer u q')"
proof -
  note same = alike_inputs_same [OF q]
  have "compileColumns u q' = compileColumns u q" "compileSorts q' = compileSorts q"
    unfolding compileColumns_def column_sql_def [abs_def] column_policy_def compileSorts_def sort_sql_def [abs_def] same by (rule refl)+
  moreover have "alike_sql (limit_sql q order) (limit_sql q' order)" for order
    by (simp add: limit_sql_def Let_def same alike_map [OF alike_bind])
  ultimately show ?thesis
    unfolding compile_outer_def
    by (auto intro!: alike_emit_bind [OF alike_inner [OF q]] alike_emit_bind [OF alike_rows [OF q]] alike_choice alike_map [where h = blanks])
qed

section \<open>Compile\<close>

lemma alike_text:
  assumes "alike_inputs q q'"
  shows "map_option (\<lambda>(s, args). (render d s, length args)) (compile_outer u q []) =
    map_option (\<lambda>(s, args). (render d s, length args)) (compile_outer u q' [])"
proof -
  have "outcome blanks (compile_outer u q) [] = outcome blanks (compile_outer u q') []"
    using alike_outer [OF assms] by (simp add: alike_def)
  from arg_cong [OF this, of "map_option (map_prod (render d) id)"] show ?thesis
    by (simp add: outcome_def option.map_comp comp_def map_prod_def split_def)
qed

lemma prepared_same:
  "prepared ps q = Some p \<Longrightarrow> inDocument p = inDocument q \<and> inDialect p = inDialect q \<and> inTables p = inTables q \<and>
     inMaxRows p = inMaxRows q \<and> inLimitKind p = limit_kind (inLimitKind q)"
  unfolding prepared_def by auto

end
