(* ===== verification/QueryProperties.thy ===== *)
theory QueryProperties imports QueryPositional QueryIndependence begin

text \<open>
  What a compiled query promises: its placeholders stand for the right values, its text does not depend
  on the values, its joins are complete, its limits hold; and where it does not keep the promise.
\<close>

section \<open>Values\<close>

text \<open>C6: In a dialect with numbered placeholders, the placeholder with number n of a compiled query stands for the n-th value, provided that the tables derived before a join bind no values.\<close>

theorem placeholders_are_numbered:
  assumes "Compile u ps valid digest q = Some r" "numbered (inDialect q)" "quiet_tables (inDocument q)"
    "(n, v) \<in> set (holes (cqSQL r))"
  shows "1 \<le> n \<and> n \<le> length (cqArgs r) \<and> cqArgs r ! (n - 1) = v"
proof -
  obtain q' s args where p: "prepared ps q = Some q'" "compile_outer u q' [] = Some (s, args)" "cqSQL r = s" "cqArgs r = args"
    using assms(1) by (auto simp: Compile_def split: if_splits option.splits)
  then have "inDialect q' = inDialect q" "inDocument q' = inDocument q" by (auto simp: prepared_def)
  then have "bound_sql True (compile_outer u q')" using assms(2,3) by (intro bound_outer) simp_all
  then have "numbered_in args (n, v)" using p assms(4) unfolding bound_def by blast
  then show ?thesis using p by (simp add: numbered_in_def)
qed

theorem placeholders_are_numbered_witness:
  "\<exists>r. Compile example_unicode example_parsers (\<lambda>_. True) (\<lambda>_. []) (example_input PostgreSQL []) = Some r \<and>
     (1, VNumber 5) \<in> set (holes (cqSQL r)) \<and> (1 \<le> (1::nat) \<and> 1 \<le> length (cqArgs r) \<and> cqArgs r ! (1 - 1) = VNumber 5)"
proof -
  let ?q = "example_input PostgreSQL []"
  have "case Compile example_unicode example_parsers (\<lambda>_. True) (\<lambda>_. []) ?q of None \<Rightarrow> False
      | Some r \<Rightarrow> (1, VNumber 5) \<in> set (holes (cqSQL r))" by code_simp
  then obtain r where r: "Compile example_unicode example_parsers (\<lambda>_. True) (\<lambda>_. []) ?q = Some r" "(1, VNumber 5) \<in> set (holes (cqSQL r))"
    by (auto split: option.splits)
  have "numbered (inDialect ?q)" "quiet_tables (inDocument ?q)" by code_simp+
  from placeholders_are_numbered [OF r(1) this r(2)] r show ?thesis by blast
qed

text \<open>C8: A compiled query lists its values in the order of its placeholders in the text, as a dialect with unnumbered placeholders reads them: when window and date functions hold no values, join conditions bind none, and the row policies come in the order conditions, alternatives, denials.\<close>

theorem values_in_text_order:
  assumes "Compile u ps valid digest q = Some r" "orderly_document (inDocument q)" "grouped_rows q"
  shows "vals (cqSQL r) = cqArgs r"
proof -
  obtain q' s args where p: "prepared ps q = Some q'" "compile_outer u q' [] = Some (s, args)" "cqSQL r = s" "cqArgs r = args"
    using assms(1) by (auto simp: Compile_def split: if_splits option.splits)
  then have "inDocument q' = inDocument q" "inRowPolicies q' = inRowPolicies q" by (auto simp: prepared_def)
  then have "yields [] (compile_outer u q') vals" using assms(2,3) by (intro yields_outer) (simp_all add: grouped_rows_def)
  then show ?thesis using p by (simp add: yields_def)
qed

theorem values_in_text_order_witness:
  "\<exists>r. Compile example_unicode example_parsers (\<lambda>_. True) (\<lambda>_. []) (example_input MySQL []) = Some r \<and>
     vals (cqSQL r) = cqArgs r \<and> cqArgs r = [VNumber 5, VNumber 10]"
proof -
  let ?q = "example_input MySQL []"
  have "case Compile example_unicode example_parsers (\<lambda>_. True) (\<lambda>_. []) ?q of None \<Rightarrow> False
      | Some r \<Rightarrow> cqArgs r = [VNumber 5, VNumber 10]" by code_simp
  then obtain r where r: "Compile example_unicode example_parsers (\<lambda>_. True) (\<lambda>_. []) ?q = Some r" "cqArgs r = [VNumber 5, VNumber 10]"
    by (auto split: option.splits)
  have "orderly_document (inDocument ?q)" "grouped_rows ?q" by code_simp+
  from values_in_text_order [OF r(1) this] r show ?thesis by blast
qed

text \<open>C7: The text of a compiled query, the number of its values and its plan hash do not depend on the values of parameters and user attributes, only on their kinds: which are null, and how long a collection is.\<close>

theorem query_text_ignores_values:
  assumes "prepared ps q = Some p" "prepared ps q' = Some p'" "alike_inputs p p'"
  shows "map_option (\<lambda>r. (render (inDialect q) (cqSQL r), length (cqArgs r), cqMaxRows r, cqPlanHash r)) (Compile u ps valid digest q) =
    map_option (\<lambda>r. (render (inDialect q) (cqSQL r), length (cqArgs r), cqMaxRows r, cqPlanHash r)) (Compile u ps valid digest q')"
proof -
  note same = alike_inputs_same [OF assms(3)] and p = prepared_same [OF assms(1)] and p' = prepared_same [OF assms(2)]
  have ok: "input_ok valid q' = input_ok valid q"
  proof -
    have "inDocument q' = inDocument q" "inDialect q' = inDialect q" "inMaxRows q' = inMaxRows q"
        "limit_kind (inLimitKind q') = limit_kind (inLimitKind q)"
      using same p p' by simp_all
    then show ?thesis by (simp only: input_ok_def)
  qed
  have hash: "compiledPlanHash digest p' s = compiledPlanHash digest p s" for s
    using same by (simp add: compiledPlanHash_def)
  have rows: "inMaxRows p' = inMaxRows p" "inDialect p' = inDialect p" using same by simp_all
  show ?thesis
    using alike_text [OF assms(3), of "inDialect p" u] p
    by (cases "compile_outer u p []"; cases "compile_outer u p' []") (auto simp: Compile_def ok assms(1,2) hash rows)
qed

definition example_query :: "go_value \<Rightarrow> Input" where
  "example_query v = (example_input MySQL [])\<lparr>
     inDocument := example_document\<lparr>
       doFilters := [plain_filter True (e_binary (TyComparison Equals) (e_field ''n1'' ''amount'')
         (DatasetExpression TyParamRef [] [] ''p'' [] [] [] VNil None [] None None None None [] None [] []))],
       doParameters := [\<lparr> dpCode = ''p'', dpName = ''p'', dpDataType = ''STRING'', dpMultiValue = False, dpRequired = False, dpDefaultValue = VNil \<rparr>] \<rparr>,
     inParameters := [(''p'', v)] \<rparr>"

theorem query_text_ignores_values_witness:
  "map_option (\<lambda>r. (render (inDialect (example_query (VString ''x''))) (cqSQL r), length (cqArgs r), cqMaxRows r, cqPlanHash r))
      (Compile example_unicode example_parsers (\<lambda>_. True) (\<lambda>_. []) (example_query (VString ''x''))) =
    map_option (\<lambda>r. (render (inDialect (example_query (VString ''x''))) (cqSQL r), length (cqArgs r), cqMaxRows r, cqPlanHash r))
      (Compile example_unicode example_parsers (\<lambda>_. True) (\<lambda>_. []) (example_query (VString ''1 OR 1 = 1'')))"
proof -
  let ?q = "example_query (VString ''x'')" and ?q' = "example_query (VString ''1 OR 1 = 1'')"
  have "prepared example_parsers ?q = Some (?q\<lparr> inParameters := [(''p'', VString ''x'')] \<rparr>)"
      "prepared example_parsers ?q' = Some (?q'\<lparr> inParameters := [(''p'', VString ''1 OR 1 = 1'')] \<rparr>)"
    by (simp_all add: prepared_def example_query_def example_input_def NormalizeParameters_def normalized_parameter_def
        supplied_value_def normalizeParameterValue_def normalizeScalar_def limit_kind_def)
  moreover have "alike_inputs (?q\<lparr> inParameters := [(''p'', VString ''x'')] \<rparr>) (?q'\<lparr> inParameters := [(''p'', VString ''1 OR 1 = 1'')] \<rparr>)"
    by (simp add: alike_inputs_def same_kinds_def example_query_def example_input_def)
  ultimately show ?thesis by (rule query_text_ignores_values)
qed

section \<open>Values that go astray\<close>

text \<open>C12: A denial that comes before a condition is bound first and written last: without numbers its placeholder takes the value of the condition, and the condition that of the denial.\<close>

theorem early_denial_swaps_values:
  assumes "inRowPolicies q = [d, c]" "row_class d = Some Deny" "row_class c = Some AllowAND" "rpPriority d < rpPriority c"
    "compileRows q args = Some (s, args')"
  shows "\<exists>p1 p2 vs ws. policyExpression (inAttributes q) (map dfCode (doFields (inDocument q))) (rpExpression d) args = Some (p1, args @ vs) \<and>
     policyExpression (inAttributes q) (map dfCode (doFields (inDocument q))) (rpExpression c) (args @ vs) = Some (p2, args @ vs @ ws) \<and>
     args' = args @ vs @ ws \<and> vals s = ws @ vs"
proof -
  let ?e = "\<lambda>p. policyExpression (inAttributes q) (map dfCode (doFields (inDocument q))) (rpExpression p)"
  have "sort_slice (lt_on rpPriority) (inRowPolicies q) = [d, c]"
    using assms(1,4) by (simp add: lt_on_def)
  then obtain p1 args1 p2 where p: "?e d args = Some (p1, args1)" "?e c args1 = Some (p2, args')" "s = rows_sql [(Deny, p1), (AllowAND, p2)]"
    using assms(2,3,5) by (auto simp: compileRows_def emit_map_def emit_bind_def row_sql_def emit_option_def emit_return_def split: option.splits)
  have "args1 = args @ vals p1" "args' = args1 @ vals p2"
    using ordered_policy p(1,2) unfolding ordered_def by fastforce+
  moreover have "vals s = vals p2 @ vals p1" unfolding p(3) by (simp add: rows_sql_def row_group_def)
  ultimately show ?thesis using p(1,2) by fastforce
qed

definition example_policy :: "string \<Rightarrow> string \<Rightarrow> int \<Rightarrow> string \<Rightarrow> go_value RowPolicy" where
  "example_policy effect mode priority v = \<lparr> rpID = v, rpEffect = effect, rpCombineMode = mode, rpPriority = priority, rpVersion = 1,
     rpExpression = Expression ''EQUALS'' [] [] VNil (Some (Expression ''FIELD_REF'' ''amount'' [] VNil None None []))
       (Some (Expression ''LITERAL'' [] [] (VString v) None None [])) [] \<rparr>"

theorem early_denial_swaps_values_witness:
  "\<exists>s. compileRows (example_input MySQL [example_policy ''DENY'' ''AND'' 1 ''secret'', example_policy ''ALLOW'' ''AND'' 2 ''mine'']) [] =
       Some (s, [VString ''secret'', VString ''mine'']) \<and> vals s = [VString ''mine'', VString ''secret'']"
proof -
  let ?d = "example_policy ''DENY'' ''AND'' 1 ''secret''" and ?c = "example_policy ''ALLOW'' ''AND'' 2 ''mine''"
  let ?q = "example_input MySQL [?d, ?c]"
  have "map_option snd (compileRows ?q []) = Some [VString ''secret'', VString ''mine'']" by code_simp
  then obtain s where s: "compileRows ?q [] = Some (s, [VString ''secret'', VString ''mine''])" by auto
  have c: "inRowPolicies ?q = [?d, ?c]" "row_class ?d = Some Deny" "row_class ?c = Some AllowAND" "rpPriority ?d < rpPriority ?c"
    by (simp_all add: example_input_def row_class_def example_policy_def)
  have "map_option snd (policyExpression (inAttributes ?q) (map dfCode (doFields (inDocument ?q))) (rpExpression ?d) []) = Some [VString ''secret'']"
    by code_simp
  with early_denial_swaps_values [OF c s] s show ?thesis by auto
qed

text \<open>C13: A table derived before a join is compiled the same way whatever was bound before it, and its placeholders are numbered within its own values, which the query appends to others.\<close>

theorem derived_tables_count_from_one:
  assumes "nodeRelation q node ref args = Some ((s, vs), args')" "numbered (inDialect q)"
  shows "args' = args \<and> nodeRelation q node ref args1 = Some ((s, vs), args1) \<and> (\<forall>p \<in> set (holes s). numbered_in vs p)"
proof (cases "preAggregation (inDocument q) (ndID node)")
  case (Some item)
  then have d: "derived_table q item node ref [] = Some (s, vs)" "args' = args" "nodeRelation q node ref args1 = Some ((s, vs), args1)"
    using assms(1) by (auto simp: nodeRelation_def emit_nested_def split: option.splits)
  have "bound_sql True (derived_table q item node ref)" using assms(2) by (intro bound_derived_table) simp_all
  then show ?thesis using d unfolding bound_def by blast
qed (use assms in \<open>auto simp: nodeRelation_def emit_return_def\<close>)

definition grouped_document :: Document where
  "grouped_document = example_document\<lparr>
     doNodes := [plain_node ''n1'' [''amount'']
       [\<lparr> sfField = ''amount'', sfOperator = ''GT'', sfValue = VNumber 7, sfExpression = None \<rparr>]],
     doPreAggregations := [\<lparr> paID = ''g'', paNodeID = ''n1'', paJoinID = [], paJoinSide = [], paGroupBy = [\<lparr> pagField = ''amount'', pagUnit = [], pagExpression = None \<rparr>],
       paGroupByMode = GroupByModeStandard, paGroupingSets = [], paMetrics = [] \<rparr>],
     doFields := [plain_field ''amount'' (e_nary (TyArithmetic Add) [e_field ''n1'' ''amount'', e_literal (VNumber 1)])] \<rparr>"

theorem derived_tables_count_from_one_witness:
  "\<exists>s. nodeRelation ((example_input PostgreSQL [])\<lparr> inDocument := grouped_document \<rparr>) (hd (doNodes grouped_document))
       (snd (hd (inTables (example_input PostgreSQL [])))) [VNumber 1] = Some ((s, [VNumber 7]), [VNumber 1]) \<and> numbered_in [VNumber 7] (1, VNumber 7)"
proof -
  let ?q = "(example_input PostgreSQL [])\<lparr> inDocument := grouped_document \<rparr>" and ?n = "hd (doNodes grouped_document)"
    and ?r = "snd (hd (inTables (example_input PostgreSQL [])))"
  have "case nodeRelation ?q ?n ?r [] of None \<Rightarrow> False | Some ((s, vs), args) \<Rightarrow> vs = [VNumber 7] \<and> args = [] \<and> holes s = [(1, VNumber 7)]"
    by code_simp
  then obtain s where s: "nodeRelation ?q ?n ?r [] = Some ((s, [VNumber 7]), [])" "holes s = [(1, VNumber 7)]"
    by (auto split: option.splits)
  have "numbered (inDialect ?q)" by code_simp
  from derived_tables_count_from_one [OF s(1) this, of "[VNumber 1]"] s(2) show ?thesis by auto
qed

text \<open>Two placeholders of one query have the number one and stand for different values.\<close>

theorem derived_table_collides:
  "\<exists>r. Compile example_unicode example_parsers (\<lambda>_. True) (\<lambda>_. []) ((example_input PostgreSQL [])\<lparr> inDocument := grouped_document \<rparr>) = Some r \<and>
     {(1, VNumber 1), (1, VNumber 7)} \<subseteq> set (holes (cqSQL r)) \<and> cqArgs r ! 0 = VNumber 1"
proof -
  have "case Compile example_unicode example_parsers (\<lambda>_. True) (\<lambda>_. []) ((example_input PostgreSQL [])\<lparr> inDocument := grouped_document \<rparr>) of
      None \<Rightarrow> False | Some r \<Rightarrow> {(1, VNumber 1), (1, VNumber 7)} \<subseteq> set (holes (cqSQL r)) \<and> cqArgs r ! 0 = VNumber 1"
    by code_simp
  then show ?thesis by (auto split: option.splits)
qed

section \<open>Limits and policies\<close>

lemma emit_never: "(\<And>x a. f x a = None) \<Longrightarrow> emit_bind m f args = None"
  by (auto simp: emit_bind_def split: option.split)

lemma no_floor:
  assumes "minimum_size_sql q = emit_fail"
  shows "compileInner u q args = None"
proof -
  have "emit_bind (minimum_size_sql q) f a = None" for f :: "sql list \<Rightarrow> sql emit" and a
    using assms by (simp add: emit_bind_def emit_fail_def)
  note never = this
  show ?thesis
    unfolding compileInner_def Let_def split_beta
    by (rule emit_never, rule emit_never, rule emit_never, rule emit_never, rule emit_never,
        rule emit_never, rule emit_never, rule emit_never, rule emit_never, rule emit_never, rule never)
qed

lemma limit_is_last: "limit_sql q order args = Some (s, args') \<Longrightarrow> args' \<noteq> [] \<and> last args' = VNumber (of_int (inMaxRows q))"
  by (auto simp: limit_sql_def Let_def emit_map_def emit_bind_def bind_def emit_return_def split: if_splits)

lemma columns_allowed:
  assumes "compileColumns u q = Some cs" "f \<in> set (doFields (inDocument q))"
  shows "column_sql u q f \<noteq> None"
proof -
  have "map_option (\<lambda>s. as_name s (dfCode f)) (column_sql u q f) \<in> set (map Some cs)"
    using assms those_values [OF assms(1) [unfolded compileColumns_def]] by (metis (no_types, lifting) image_eqI list.set_map)
  then show ?thesis by auto
qed

text \<open>C9: A compiled query reads at least one and at most as many rows as its kind of limit allows, binds that number last, has no comment or end of statement in its text, shows no column that its first policy denies, and groups its rows when a policy asks for a least group.\<close>

theorem compiled_query_is_guarded:
  assumes "Compile u ps valid digest q = Some r"
  shows "\<exists>n. limitCeiling (inDocument q) (limit_kind (inLimitKind q)) = Some n \<and> 1 \<le> cqMaxRows r \<and> cqMaxRows r \<le> n \<and>
     last (cqArgs r) = VNumber (of_int (cqMaxRows r)) \<and> \<not> forbidden (render (inDialect q) (cqSQL r)) \<and>
     list_all (\<lambda>f. case column_policy q (dfCode f) of None \<Rightarrow> True
       | Some p \<Rightarrow> cpPolicyType p \<in> {''ALLOW'', ''NULLIFY'', ''HASH'', ''MASK'', ''AGGREGATE_ONLY''}) (doFields (inDocument q)) \<and>
     (minimumGroupSize q \<le> 0 \<or> doGroupBy (inDocument q) \<noteq> [])"
proof -
  obtain q' s args where p: "prepared ps q = Some q'" "compile_outer u q' [] = Some (s, args)" "cqSQL r = s" "cqArgs r = args"
      "cqMaxRows r = inMaxRows q'" "input_ok valid q" "\<not> forbidden (render (inDialect q') s)"
    using assms by (auto simp: Compile_def split: if_splits option.splits)
  have q': "inDocument q' = inDocument q" "inDialect q' = inDialect q" "inMaxRows q' = inMaxRows q"
      "inColumnPolicies q' = inColumnPolicies q" using p(1) by (auto simp: prepared_def)
  obtain n where n: "limitCeiling (inDocument q) (limit_kind (inLimitKind q)) = Some n" "1 \<le> inMaxRows q" "inMaxRows q \<le> n"
    using p(6) by (auto simp: input_ok_def split: option.splits)
  obtain i args1 w args2 cs order args3 l where o: "compileInner u q' [] = Some (i, args1)" "compileColumns u q' = Some cs"
      "limit_sql q' order args3 = Some (l, args)"
    using p(2) by (auto simp: compile_outer_def emit_map_def emit_bind_def emit_option_def emit_return_def emit_fail_def split: option.splits)
  have columns: "case column_policy q (dfCode f) of None \<Rightarrow> True
       | Some p \<Rightarrow> cpPolicyType p \<in> {''ALLOW'', ''NULLIFY'', ''HASH'', ''MASK'', ''AGGREGATE_ONLY''}" if "f \<in> set (doFields (inDocument q))" for f
    using columns_allowed [OF o(2), of f] that q' by (auto simp: column_sql_def column_policy_def Let_def split: option.splits if_splits)
  have "minimum_size_sql q' \<noteq> emit_fail"
    using o(1) no_floor [of q' u "[]"] by auto
  then have "minimumGroupSize q \<le> 0 \<or> doGroupBy (inDocument q) \<noteq> []"
    using q' by (auto simp: minimum_size_sql_def minimumGroupSize_def split: if_splits)
  then show ?thesis
    using n p q' limit_is_last [OF o(3)] columns by (auto simp: list_all_iff)
qed

theorem compiled_query_is_guarded_witness:
  "\<exists>r n. Compile example_unicode example_parsers (\<lambda>_. True) (\<lambda>_. []) (example_input MySQL []) = Some r \<and>
     limitCeiling example_document LimitPreview = Some n \<and> cqMaxRows r \<le> n"
proof -
  have "Compile example_unicode example_parsers (\<lambda>_. True) (\<lambda>_. []) (example_input MySQL []) \<noteq> None" by code_simp
  then obtain r where r: "Compile example_unicode example_parsers (\<lambda>_. True) (\<lambda>_. []) (example_input MySQL []) = Some r" by auto
  then show ?thesis using compiled_query_is_guarded [OF r] by (auto simp: example_input_def limit_kind_def)
qed

section \<open>Parameters\<close>

definition typed_scalar :: "string \<Rightarrow> go_value \<Rightarrow> bool" where
  "typed_scalar t v \<longleftrightarrow> v = VNil \<or> (case v of
       VString s \<Rightarrow> t \<in> {''STRING'', ''DECIMAL'', ''DATE'', ''DATETIME''}
     | VNumber q \<Rightarrow> t = ''DECIMAL'' \<or> t = ''INTEGER'' \<and> q = of_int \<lfloor>q\<rfloor> \<and> - (2 ^ 63) \<le> q \<and> q < 2 ^ 63
     | VBool b \<Rightarrow> t = ''BOOLEAN'' | _ \<Rightarrow> False)"

definition typed_value :: "DatasetParameter \<Rightarrow> go_value \<Rightarrow> bool" where
  "typed_value p v \<longleftrightarrow> (if dpMultiValue p then (case v of
        VList vs \<Rightarrow> 1 \<le> length vs \<and> length vs \<le> 1000 \<and> list_all (typed_scalar (dpDataType p)) vs
      | _ \<Rightarrow> v = VNil \<and> \<not> dpRequired p) else typed_scalar (dpDataType p) v)"

lemma typed_integer: "normalizeInteger v = Some w \<Longrightarrow> typed_scalar ''INTEGER'' w"
proof -
  have int: "typed_scalar ''INTEGER'' (VNumber (of_int n))" if "- (2 ^ 63) \<le> n" "n < 2 ^ 63" for n :: int
  proof -
    have "rat_of_int (- (2 ^ 63)) \<le> of_int n" "rat_of_int n < of_int (2 ^ 63)" using that by (simp_all only: of_int_le_iff of_int_less_iff)
    then show ?thesis by (simp add: typed_scalar_def)
  qed
  have wrapped: "- (2 ^ 63) \<le> wrap64 n" "wrap64 n < 2 ^ 63" for n
    using wrap64_range [of n] by (simp_all add: in_int64_def int64_min_def int64_max_def)
  assume "normalizeInteger v = Some w"
  then show ?thesis
    by (cases v) (auto simp: normalizeInteger_def ParseInt_def split: if_splits bind_splits intro!: int wrapped)
qed

text \<open>A float of \<open>2 ^ 63\<close> passes the range test and wraps.\<close>

theorem largest_float_wraps: "normalizeInteger (VNumber (2 ^ 63)) = Some (VNumber (- (2 ^ 63)))"
  by (simp add: normalizeInteger_def wrap64_def)

lemma typed_normalized: "normalizeScalar ps t v = Some w \<Longrightarrow> typed_scalar t w"
  using typed_integer [of v w]
  by (auto simp: normalizeScalar_def normalizeDecimal_def typed_scalar_def split: if_splits go_value.splits)

lemma typed_parameter:
  assumes "normalizeParameterValue ps p v = Some w"
  shows "typed_value p w"
proof (cases "dpMultiValue p")
  case True
  then obtain vs ws where v: "v = VList vs" "vs \<noteq> []" "length vs \<le> 1000" "those (map (normalizeScalar ps (dpDataType p)) vs) = Some ws" "w = VList ws"
    using assms by (auto simp: normalizeParameterValue_def split: go_value.splits if_splits)
  have "length ws = length vs" using arg_cong [OF those_values [OF v(4)], of length] by simp
  moreover have "typed_scalar (dpDataType p) x" if "x \<in> set ws" for x
    using those_map [OF v(4) that] typed_normalized by blast
  ultimately show ?thesis using v True by (cases vs) (auto simp: typed_value_def list_all_iff)
next
  case False
  then show ?thesis using assms typed_normalized
    by (auto simp: normalizeParameterValue_def typed_value_def split: go_value.splits)
qed

text \<open>C11: Normalised parameters are the declared ones, each with a value of its declared type: integers within 64 bits, collections of 1 to 1000 values; every given name is declared, and a required parameter is given or has a default, though what is given may be null.\<close>

theorem normalized_parameters_typed:
  assumes "NormalizeParameters ps definitions values = Some out"
  shows "list_all2 (\<lambda>p (c, v). c = dpCode p \<and> typed_value p v \<and> (dpRequired p \<longrightarrow> supplied_value values p \<noteq> None)) definitions (rev out) \<and>
     set (map fst values) \<subseteq> set (map dpCode definitions)"
proof -
  let ?f = "\<lambda>p. map_option (Pair (dpCode p)) (normalized_parameter ps values p)"
  have o: "those (map ?f definitions) = Some (rev out)" and names: "list_all (\<lambda>(c, _). c \<in> set (map dpCode definitions)) values"
    using assms by (auto simp: NormalizeParameters_def split: if_splits)
  have "c = dpCode p \<and> typed_value p v \<and> (dpRequired p \<longrightarrow> supplied_value values p \<noteq> None)" if "?f p = Some (c, v)" for p c v
    using that typed_parameter [of ps p _ v]
    by (auto simp: normalized_parameter_def typed_value_def typed_scalar_def split: option.splits if_splits)
  moreover have "list_all2 (\<lambda>p r. ?f p = Some r) definitions (rev out)"
  proof -
    have "list_all2 (=) (map ?f definitions) (map Some (rev out))"
      unfolding those_values [OF o] list.rel_eq ..
    then show ?thesis by (simp only: list.rel_map)
  qed
  ultimately show ?thesis
    using names by (auto elim!: list_all2_mono simp: list_all_iff)
qed

theorem normalized_parameters_typed_witness:
  "\<exists>out. NormalizeParameters example_parsers (doParameters (inDocument (example_query VNil))) [(''p'', VString ''x'')] = Some out \<and>
     set (map fst [(''p'', VString ''x'')]) \<subseteq> set (map dpCode (doParameters (inDocument (example_query VNil))))"
proof -
  have "NormalizeParameters example_parsers (doParameters (inDocument (example_query VNil))) [(''p'', VString ''x'')] = Some [(''p'', VString ''x'')]"
    by (simp add: example_query_def NormalizeParameters_def normalized_parameter_def supplied_value_def normalizeParameterValue_def normalizeScalar_def)
  from normalized_parameters_typed [OF this] this show ?thesis by blast
qed

end
