(* ===== verification/DatasetNormalize.thy ===== *)
theory DatasetNormalize imports DatasetDocument begin

text \<open>
  Normalisation of a dataset document (\<open>dataset/dsl.go\<close>): trimmed names, enumerations in upper case, the
  cardinality a join type implies, the defaults of the execution policy, the layer of a document
  without one. An enumeration is read from its text and gives it back. That an empty list stands for
  an absent one is the model's reading of lists already.
\<close>

section \<open>Text\<close>

definition upper_text :: "string \<Rightarrow> string" where "upper_text s = to_upper (trim_space s)"

definition layer_name :: "Layer \<Rightarrow> string" where
  "layer_name l = (case l of LayerODS \<Rightarrow> ''ODS'' | LayerDIM \<Rightarrow> ''DIM'' | LayerDWD \<Rightarrow> ''DWD'' | LayerDWS \<Rightarrow> ''DWS'' | LayerADS \<Rightarrow> ''ADS''
     | OtherLayer s \<Rightarrow> s)"

definition layer_of :: "string \<Rightarrow> Layer" where
  "layer_of s = (case find (\<lambda>l. layer_name l = s) [LayerODS, LayerDIM, LayerDWD, LayerDWS, LayerADS] of Some l \<Rightarrow> l | None \<Rightarrow> OtherLayer s)"

definition mode_name :: "GroupByMode \<Rightarrow> string" where
  "mode_name m = (case m of GroupByModeStandard \<Rightarrow> ''STANDARD'' | GroupByModeCube \<Rightarrow> ''CUBE'' | GroupByModeRollup \<Rightarrow> ''ROLLUP''
     | GroupByModeSets \<Rightarrow> ''GROUPING_SETS'' | OtherGroupByMode s \<Rightarrow> s)"

definition mode_of :: "string \<Rightarrow> GroupByMode" where
  "mode_of s = (case find (\<lambda>m. mode_name m = s) [GroupByModeStandard, GroupByModeCube, GroupByModeRollup, GroupByModeSets] of
     Some m \<Rightarrow> m | None \<Rightarrow> OtherGroupByMode s)"

definition known_types :: "NodeType list" where
  "known_types = [TyFieldRef, TyParamRef, TyMeasureRef, TyLiteral, TyTrue, TyFalse, TySubjectAttribute, TyArray, TyCoalesce, TyConcat, TyRound,
     TyCast, TyNullif, TyAggregate, TyWindow, TyCase, TyBetween, TyAnd, TyOr, TySubstring, TyReplace] @
     map TyArithmetic [Add, Subtract, Multiply, Divide] @ map TyFunction [Abs, Floor, Ceil, Trim, Upper, Lower] @
     map TyComparison [Equals, NotEquals, Gt, Gte, Lt, Lte, Like, Contains, NotContains, In, NotIn] @
     map TyTest [IsNull, IsNotNull, Negation] @ map TyDate [Trunc, Format, CurrentDate, Diff, Extract, Start, End]"

definition type_of :: "string \<Rightarrow> NodeType" where
  "type_of s = (case find (\<lambda>t. type_name t = s) known_types of Some t \<Rightarrow> t | None \<Rightarrow> OtherType s)"

section \<open>Parts\<close>

primrec normalizeExpression :: "DatasetExpression \<Rightarrow> DatasetExpression" where
  "normalizeExpression (DatasetExpression ty n f c fn u tt v arg args l r lo up whens els pb ob) =
     DatasetExpression (type_of (upper_text (type_name ty))) (trim_space n) (trim_space f) (trim_space c) (upper_text fn) (upper_text u) (upper_text tt) v
       (map_option normalizeExpression arg) (map normalizeExpression args) (map_option normalizeExpression l)
       (map_option normalizeExpression r) (map_option normalizeExpression lo) (map_option normalizeExpression up)
       (map (map_prod normalizeExpression normalizeExpression) whens) (map_option normalizeExpression els)
       (map normalizeExpression pb) (map (map_prod id upper_text) (map (map_prod normalizeExpression id) ob))"

definition normalize_source_filter :: "SourceFilter \<Rightarrow> SourceFilter" where
  "normalize_source_filter f = f\<lparr> sfField := trim_space (sfField f), sfOperator := upper_text (sfOperator f),
     sfExpression := map_option normalizeExpression (sfExpression f) \<rparr>"

definition normalize_node :: "DatasetNode \<Rightarrow> DatasetNode" where
  "normalize_node n = n\<lparr> ndID := trim_space (ndID n), ndType := upper_text (ndType n), ndAlias := trim_space (ndAlias n),
     ndDataSourceID := trim_space (ndDataSourceID n), ndTableID := trim_space (ndTableID n),
     ndDatasetVersionID := trim_space (ndDatasetVersionID n), ndFileVersionID := trim_space (ndFileVersionID n),
     ndProjection := map trim_space (ndProjection n), ndSourceFilters := map normalize_source_filter (ndSourceFilters n) \<rparr>"

definition normalize_condition :: "JoinCondition \<Rightarrow> JoinCondition" where
  "normalize_condition c = c\<lparr> jcOperator := upper_text (jcOperator c), jcLeftExpression := normalizeExpression (jcLeftExpression c),
     jcRightExpression := normalizeExpression (jcRightExpression c) \<rparr>"

definition normalize_join :: "DatasetJoin \<Rightarrow> DatasetJoin" where
  "normalize_join j = j\<lparr> djID := trim_space (djID j), djLeftNodeID := trim_space (djLeftNodeID j), djRightNodeID := trim_space (djRightNodeID j),
     djJoinType := upper_text (djJoinType j), djCardinality := joinCardinalityForType (upper_text (djJoinType j)),
     djRelationshipType := [], djRelationshipRole := [], djFanoutPolicy := [], djBridge := None, djTemporal := None,
     djConditions := map normalize_condition (djConditions j) \<rparr>"

definition normalize_rule :: "TransformRule \<Rightarrow> TransformRule" where
  "normalize_rule r = r\<lparr> trlID := trim_space (trlID r), trlOperation := upper_text (trlOperation r),
     trlReplaceSourceKey := trim_space (trlReplaceSourceKey r), trlInputKeys := map trim_space (trlInputKeys r),
     trlOutput := \<lparr> toID = trim_space (toID (trlOutput r)), toName = trim_space (toName (trlOutput r)),
       toCode = trim_space (toCode (trlOutput r)), toCanonicalType = upper_text (toCanonicalType (trlOutput r)) \<rparr>,
     trlExpression := normalizeExpression (trlExpression r) \<rparr>"

text \<open>The two components for upper and lower case have become one.\<close>

definition component_type :: "string \<Rightarrow> string" where
  "component_type s = (let t = upper_text s in if t = ''TEXT_UPPER'' \<or> t = ''TEXT_LOWER'' then ''TEXT_CASE'' else t)"

definition normalize_transform :: "Transform \<Rightarrow> Transform" where
  "normalize_transform t = t\<lparr> tfID := trim_space (tfID t), tfName := trim_space (tfName t), tfFamily := upper_text (tfFamily t),
     tfComponentType := component_type (tfComponentType t), tfInputKind := upper_text (tfInputKind t), tfInputID := trim_space (tfInputID t),
     tfRules := map normalize_rule (tfRules t) \<rparr>"

definition normalize_group :: "PreAggregationGroup \<Rightarrow> PreAggregationGroup" where
  "normalize_group g = \<lparr> pagField = trim_space (pagField g), pagUnit = upper_text (pagUnit g),
     pagExpression = map_option normalizeExpression (pagExpression g) \<rparr>"

definition normalize_metric :: "PreAggregationMetric \<Rightarrow> PreAggregationMetric" where
  "normalize_metric m = m\<lparr> pamField := trim_space (pamField m), pamFunction := upper_text (pamFunction m),
     pamExpression := map_option normalizeExpression (pamExpression m) \<rparr>"

definition normalize_preaggregation :: "PreAggregation \<Rightarrow> PreAggregation" where
  "normalize_preaggregation p = \<lparr> paID = trim_space (paID p), paNodeID = trim_space (paNodeID p), paJoinID = trim_space (paJoinID p),
     paJoinSide = upper_text (paJoinSide p), paGroupBy = map normalize_group (paGroupBy p), paGroupByMode = mode_of (upper_text (mode_name (paGroupByMode p))),
     paGroupingSets = map (map trim_space) (paGroupingSets p), paMetrics = map normalize_metric (paMetrics p) \<rparr>"

definition normalize_atomic :: "AtomicMeasureContract \<Rightarrow> AtomicMeasureContract" where
  "normalize_atomic m = \<lparr> amField = trim_space (amField m), amAdditivity = upper_text (amAdditivity m), amValueBehavior = upper_text (amValueBehavior m),
     amDefaultAggregation = upper_text (amDefaultAggregation m), amTimeAggregation = upper_text (amTimeAggregation m), amUnit = trim_space (amUnit m),
     amCurrency = upper_text (amCurrency m), amNullPolicy = upper_text (amNullPolicy m) \<rparr>"

definition normalize_fact :: "FactContract \<Rightarrow> FactContract" where
  "normalize_fact c = \<lparr> faBusinessAction = trim_space (faBusinessAction c), faGrainKeyFields = map trim_space (faGrainKeyFields c),
     faEventTimeField = trim_space (faEventTimeField c), faAtomicMeasures = map normalize_atomic (faAtomicMeasures c) \<rparr>"

definition normalize_measure :: "AnalysisMeasureContract \<Rightarrow> AnalysisMeasureContract" where
  "normalize_measure m = \<lparr> nmField = trim_space (nmField m), nmSourceNodeIDs = map trim_space (nmSourceNodeIDs m),
     nmAggregation = upper_text (nmAggregation m), nmAdditivity = upper_text (nmAdditivity m), nmValueBehavior = upper_text (nmValueBehavior m),
     nmTimeAggregation = upper_text (nmTimeAggregation m), nmUnit = trim_space (nmUnit m), nmCurrency = upper_text (nmCurrency m) \<rparr>"

definition normalize_analysis :: "AnalysisContract \<Rightarrow> AnalysisContract" where
  "normalize_analysis c = \<lparr> anIntent = upper_text (anIntent c), anInputMode = upper_text (anInputMode c),
     anCommonGrainFields = map trim_space (anCommonGrainFields c), anConformedDimensions = map trim_space (anConformedDimensions c),
     anTimeField = trim_space (anTimeField c), anTimeGrain = upper_text (anTimeGrain c), anMeasures = map normalize_measure (anMeasures c) \<rparr>"

definition normalize_parameter :: "DatasetParameter \<Rightarrow> DatasetParameter" where
  "normalize_parameter p = p\<lparr> dpCode := trim_space (dpCode p), dpName := trim_space (dpName p), dpDataType := upper_text (dpDataType p) \<rparr>"

definition normalize_field :: "DatasetField \<Rightarrow> DatasetField" where
  "normalize_field f = f\<lparr> dfID := trim_space (dfID f), dfCode := trim_space (dfCode f), dfName := trim_space (dfName f),
     dfDescription := trim_space (dfDescription f), dfRole := upper_text (dfRole f), dfCanonicalType := upper_text (dfCanonicalType f),
     dfSemanticType := upper_text (dfSemanticType f), dfAggregation := upper_text (dfAggregation f), dfSensitivityLevel := upper_text (dfSensitivityLevel f),
     dfFormat := trim_space (dfFormat f), dfUnit := trim_space (dfUnit f),
     dfVisible := (case dfVisible f of None \<Rightarrow> Some True | Some b \<Rightarrow> Some b),
     dfExpression := normalizeExpression (dfExpression f) \<rparr>"

definition normalizeFilter :: "string \<Rightarrow> DatasetFilter \<Rightarrow> DatasetFilter" where
  "normalizeFilter defaultStage f = f\<lparr> dflID := trim_space (dflID f),
     dflStage := (let s = upper_text (dflStage f) in if s = [] then defaultStage else s),
     dflExpression := normalizeExpression (dflExpression f) \<rparr>"

definition normalize_sort :: "DatasetSort \<Rightarrow> DatasetSort" where
  "normalize_sort s = \<lparr> dsFieldID = trim_space (dsFieldID s), dsDirection = upper_text (dsDirection s), dsNulls = upper_text (dsNulls s) \<rparr>"

definition normalize_grain :: "OutputGrain \<Rightarrow> OutputGrain" where
  "normalize_grain g = \<lparr> ogDescription = trim_space (ogDescription g), ogKeyFields = map trim_space (ogKeyFields g),
     ogTimeField = trim_space (ogTimeField g), ogDefaultTimeGrain = upper_text (ogDefaultTimeGrain g) \<rparr>"

definition normalize_descriptor :: "Descriptor \<Rightarrow> Descriptor" where
  "normalize_descriptor d = d\<lparr> dcCode := trim_space (dcCode d), dcName := trim_space (dcName d), dcDescription := trim_space (dcDescription d),
     dcDomain := trim_space (dcDomain d), dcSubject := trim_space (dcSubject d), dcType := upper_text (dcType d),
     dcLayer := layer_of (upper_text (layer_name (dcLayer d))), dcSourceMode := upper_text (dcSourceMode d),
     dcSemanticContractVersion := trim_space (dcSemanticContractVersion d), dcConsumerContractID := trim_space (dcConsumerContractID d) \<rparr>"

definition default_to :: "int \<Rightarrow> int \<Rightarrow> int" where "default_to d n = (if n = 0 then d else n)"

definition normalize_policy :: "ExecutionPolicy \<Rightarrow> ExecutionPolicy" where
  "normalize_policy p = p\<lparr> xpMode := (let m = upper_text (xpMode p) in if m = [] then ''REALTIME'' else m),
     xpMaterialization := (xpMaterialization p)\<lparr> mpRefreshMode := upper_text (mpRefreshMode (xpMaterialization p)),
       mpCron := trim_space (mpCron (xpMaterialization p)) \<rparr>,
     xpTimeoutMS := default_to 5000 (xpTimeoutMS p), xpPreviewLimit := default_to 500 (xpPreviewLimit p),
     xpResultLimit := default_to 10000 (xpResultLimit p) \<rparr>"

section \<open>The document\<close>

definition normalize_parts :: "Document \<Rightarrow> Document" where
  "normalize_parts doc = doc\<lparr> doDataset := normalize_descriptor (doDataset doc), doNodes := map normalize_node (doNodes doc),
     doJoins := map normalize_join (doJoins doc), doTransforms := map normalize_transform (doTransforms doc),
     doPreAggregations := map normalize_preaggregation (doPreAggregations doc),
     doFactContract := map_option normalize_fact (doFactContract doc),
     doAnalysisContract := map_option normalize_analysis (doAnalysisContract doc),
     doParameters := map normalize_parameter (doParameters doc), doFields := map normalize_field (doFields doc),
     doFilters := map (normalizeFilter ''PRE_AGGREGATION'') (doFilters doc),
     doHaving := map (normalizeFilter ''POST_AGGREGATION'') (doHaving doc),
     doGroupBy := map trim_space (doGroupBy doc), doGroupByMode := mode_of (upper_text (mode_name (doGroupByMode doc))),
     doGroupingSets := map (map trim_space) (doGroupingSets doc), doSorts := map normalize_sort (doSorts doc),
     doOutputGrain := normalize_grain (doOutputGrain doc), doExecutionPolicy := normalize_policy (doExecutionPolicy doc) \<rparr>"

text \<open>A document that came without a layer gets the one its graph implies; which one is remembered.\<close>

definition infer_layer :: "Document \<Rightarrow> Document" where
  "infer_layer doc = (if dcLayer (doDataset doc) = OtherLayer [] \<and> doLayerInferred doc
     then doc\<lparr> doDataset := (doDataset doc)\<lparr> dcLayer := InferLayer doc \<rparr>, doInferredLayer := InferLayer doc \<rparr> else doc)"

definition normalize :: "Document \<Rightarrow> Document" where "normalize doc = infer_layer (normalize_parts doc)"

text \<open>
  \<open>DecodeAndNormalize\<close> after the JSON is decoded, from a document of version 0.9 or 1.0: whether the text
  had a layer is noted, and the grain of old documents moves out of the description.
\<close>

definition move_grain :: "Document \<Rightarrow> Document" where
  "move_grain doc = (case dcGrain (doDataset doc) of None \<Rightarrow> doc
     | Some g \<Rightarrow> doc\<lparr> doOutputGrain := (if ogDescription (doOutputGrain doc) = [] \<and> ogKeyFields (doOutputGrain doc) = [] then g else doOutputGrain doc),
         doDataset := (doDataset doc)\<lparr> dcGrain := None \<rparr> \<rparr>)"

definition normalize_decoded :: "bool \<Rightarrow> Document \<Rightarrow> Document option" where
  "normalize_decoded layer_given doc =
     (let version = (if doDSLVersion doc = [] then ''0.9'' else doDSLVersion doc) in
      if version \<noteq> ''0.9'' \<and> version \<noteq> ''1.0'' then None
      else Some (normalize ((move_grain (doc\<lparr> doLayerInferred := \<not> layer_given, doLayerSpecified := layer_given \<rparr>))\<lparr> doDSLVersion := ''1.0'' \<rparr>)))"

text \<open>What is stored: a layer that was inferred is left out, and the marks of the process are not written.\<close>

definition stored :: "Document \<Rightarrow> Document" where
  "stored doc = doc\<lparr> doDataset := (if doLayerInferred doc \<and> dcLayer (doDataset doc) = doInferredLayer doc
       then (doDataset doc)\<lparr> dcLayer := OtherLayer [] \<rparr> else doDataset doc),
     doLayerInferred := False, doLayerSpecified := False, doInferredLayer := OtherLayer [], doSourcePreview := False, doRuntimeRollup := False \<rparr>"

section \<open>Normal documents stay\<close>

named_theorems normal

lemma lower_nat: "lower c \<longleftrightarrow> 97 \<le> (of_char c :: nat) \<and> (of_char c :: nat) \<le> 122"
  by (simp add: lower_def char_between_def less_eq_char_def)

lemma space_nat: "space c \<longleftrightarrow> (of_char c :: nat) \<in> {9, 10, 11, 12, 13, 32}"
proof -
  have e: "c = d \<longleftrightarrow> (of_char c :: nat) = of_char d" for d by simp
  show ?thesis by (simp only: space_def insert_iff empty_iff e) simp
qed

lemma upper_nat: "lower c \<Longrightarrow> (of_char (to_upper_char c) :: nat) = of_char c - 32"
  by (auto simp: to_upper_char_def lower_nat intro!: mod_less)

lemma to_upper_char_idem [simp]: "to_upper_char (to_upper_char c) = to_upper_char c" "space (to_upper_char c) = space c"
proof -
  have u: "\<not> lower (to_upper_char c)"
    by (cases "lower c") (use upper_nat [of c] in \<open>auto simp: lower_nat to_upper_char_def\<close>)
  then show "to_upper_char (to_upper_char c) = to_upper_char c" by (simp add: to_upper_char_def [of "to_upper_char c"])
  show "space (to_upper_char c) = space c"
    by (cases "lower c") (use upper_nat [of c] in \<open>auto simp: space_nat lower_nat to_upper_char_def\<close>)
qed

lemma dropWhile_upper: "dropWhile space (map to_upper_char s) = map to_upper_char (dropWhile space s)"
  by (induction s) simp_all

lemma dropWhile_twice: "dropWhile P (dropWhile P s) = dropWhile P s" by (induction s) auto

lemma dropWhile_end: "dropWhile P (rev (dropWhile P (rev (dropWhile P s)))) = rev (dropWhile P (rev (dropWhile P s)))"
proof (cases "dropWhile P s")
  case (Cons c cs)
  then have c: "\<not> P c" using hd_dropWhile [of P s] by simp
  then have "dropWhile P (xs @ [c]) = dropWhile P xs @ [c]" for xs by (induction xs) simp_all
  then show ?thesis using c Cons by simp
next
  case Nil
  show ?thesis unfolding Nil by simp
qed

lemma trim_twice [normal]: "trim_space (trim_space s) = trim_space s"
  unfolding trim_space_def by (simp add: dropWhile_end [of space s] dropWhile_twice)

lemma trim_upper: "trim_space (to_upper s) = to_upper (trim_space s)"
  by (simp add: trim_space_def to_upper_def dropWhile_upper rev_map)

lemma upper_twice [normal]: "upper_text (upper_text s) = upper_text s"
  by (simp add: upper_text_def trim_upper trim_twice) (simp add: to_upper_def)

lemma found_name: "find (\<lambda>t. f t = s) ts = Some t \<Longrightarrow> f t = s" by (auto simp: find_Some_iff)

lemma names_of [normal]: "layer_name (layer_of s) = s" "mode_name (mode_of s) = s" "type_name (type_of s) = s"
proof -
  show "layer_name (layer_of s) = s" unfolding layer_of_def by (auto split: option.split dest: found_name) (simp add: layer_name_def)
  show "mode_name (mode_of s) = s" unfolding mode_of_def by (auto split: option.split dest: found_name) (simp add: mode_name_def)
  show "type_name (type_of s) = s" unfolding type_of_def by (auto split: option.split dest: found_name) (simp add: type_name_def)
qed

lemma expression_twice [normal]: "normalizeExpression (normalizeExpression e) = normalizeExpression e"
  by (induction e) (auto simp: normal option.map_comp comp_def map_prod_def split_beta fsts.simps snds.simps
      intro!: map_cong option.map_cong prod_eqI)

lemma parts_twice [normal]:
  "normalize_source_filter (normalize_source_filter sf) = normalize_source_filter sf"
  "normalize_condition (normalize_condition jc) = normalize_condition jc"
  "normalize_rule (normalize_rule tr) = normalize_rule tr"
  "normalize_group (normalize_group g) = normalize_group g"
  "normalize_metric (normalize_metric m) = normalize_metric m"
  "normalize_atomic (normalize_atomic am) = normalize_atomic am"
  "normalize_measure (normalize_measure nm) = normalize_measure nm"
  "normalize_parameter (normalize_parameter p) = normalize_parameter p"
  "normalize_sort (normalize_sort s) = normalize_sort s"
  "normalize_grain (normalize_grain og) = normalize_grain og"
  by (simp_all add: normal normalize_source_filter_def normalize_condition_def normalize_rule_def normalize_group_def normalize_metric_def
      normalize_atomic_def normalize_measure_def normalize_parameter_def normalize_sort_def normalize_grain_def option.map_comp comp_def)

lemma constants [normal]: "upper_text ''TEXT_CASE'' = ''TEXT_CASE''" "upper_text ''REALTIME'' = ''REALTIME''" "upper_text [] = []"
  "upper_text ''PRE_AGGREGATION'' = ''PRE_AGGREGATION''" "upper_text ''POST_AGGREGATION'' = ''POST_AGGREGATION''"
  "upper_text ''DWS'' = ''DWS''" "upper_text ''ODS'' = ''ODS''" "upper_text ''DWD'' = ''DWD''"
  by (simp_all add: upper_text_def to_upper_def trim_space_def space_def to_upper_char_def lower_nat)

lemma component_type_twice [normal]: "component_type (component_type s) = component_type s"
  by (simp add: component_type_def Let_def normal)

lemma lists_twice [normal]:
  "normalize_node (normalize_node n) = normalize_node n" "normalize_join (normalize_join j) = normalize_join j"
  "normalize_transform (normalize_transform t) = normalize_transform t"
  "normalize_preaggregation (normalize_preaggregation pa) = normalize_preaggregation pa"
  "normalize_fact (normalize_fact fc) = normalize_fact fc" "normalize_analysis (normalize_analysis ac) = normalize_analysis ac"
  by (simp_all add: normal normalize_node_def normalize_join_def normalize_transform_def normalize_preaggregation_def normalize_fact_def
      normalize_analysis_def option.map_comp comp_def)

lemma policy_twice [normal]: "normalize_policy (normalize_policy p) = normalize_policy p"
  by (simp add: normalize_policy_def Let_def normal default_to_def)

lemma filter_twice [normal]: "upper_text st = st \<Longrightarrow> normalizeFilter st (normalizeFilter st f) = normalizeFilter st f"
  by (simp add: normalizeFilter_def Let_def normal)

lemma field_twice [normal]: "normalize_field (normalize_field f) = normalize_field f"
  "normalize_descriptor (normalize_descriptor d) = normalize_descriptor d"
  by (simp_all add: normalize_field_def normalize_descriptor_def normal split: option.split)

lemma document_parts_twice: "normalize_parts (normalize_parts doc) = normalize_parts doc"
  by (simp add: normalize_parts_def normal option.map_comp comp_def)

lemma inferred_known: "layer_of (upper_text (layer_name (InferLayer doc))) = InferLayer doc" "InferLayer doc \<noteq> OtherLayer []"
proof -
  have "InferLayer doc = LayerDWS \<or> InferLayer doc = LayerODS \<or> InferLayer doc = LayerDWD" by (auto simp: InferLayer_def)
  moreover have "layer_of (upper_text (layer_name LayerDWS)) = LayerDWS" "layer_of (upper_text (layer_name LayerODS)) = LayerODS"
    "layer_of (upper_text (layer_name LayerDWD)) = LayerDWD" by (simp_all add: layer_name_def normal layer_of_def)
  ultimately show "layer_of (upper_text (layer_name (InferLayer doc))) = InferLayer doc" "InferLayer doc \<noteq> OtherLayer []" by auto
qed

lemma normalize_layer: "normalize_parts (doc\<lparr> doDataset := (doDataset doc)\<lparr> dcLayer := l \<rparr>, doInferredLayer := i \<rparr>) =
    (normalize_parts doc)\<lparr> doDataset := (doDataset (normalize_parts doc))\<lparr> dcLayer := layer_of (upper_text (layer_name l)) \<rparr>, doInferredLayer := i \<rparr>"
  by (simp add: normalize_parts_def normalize_descriptor_def)

lemma normalize_stable: "normalize (normalize doc) = normalize doc"
proof -
  let ?d = "normalize_parts doc"
  have d: "normalize_parts ?d = ?d" by (rule document_parts_twice)
  show ?thesis
  proof (cases "dcLayer (doDataset ?d) = OtherLayer [] \<and> doLayerInferred ?d")
    case True
    then have "normalize doc = ?d\<lparr> doDataset := (doDataset ?d)\<lparr> dcLayer := InferLayer ?d \<rparr>, doInferredLayer := InferLayer ?d \<rparr>" (is "_ = ?e")
      by (simp add: normalize_def infer_layer_def)
    moreover have "normalize_parts ?e = ?e" by (simp add: normalize_layer d inferred_known)
    moreover have "infer_layer ?e = ?e" by (simp add: infer_layer_def inferred_known)
    ultimately show ?thesis by (simp add: normalize_def)
  next
    case False
    then have "normalize doc = ?d" by (auto simp: normalize_def infer_layer_def)
    then show ?thesis using d False by (simp only: normalize_def [of ?d]) (auto simp: infer_layer_def)
  qed
qed

text \<open>The marks a process sets are not in the JSON, and a text without a layer decodes to the empty one.\<close>

definition fresh :: "bool \<Rightarrow> Document \<Rightarrow> bool" where
  "fresh layer_given doc \<longleftrightarrow> doInferredLayer doc = OtherLayer [] \<and> \<not> doSourcePreview doc \<and> \<not> doRuntimeRollup doc \<and>
     (\<not> layer_given \<longrightarrow> dcLayer (doDataset doc) = OtherLayer [])"

lemma normal_empty_layer: "dcLayer (doDataset doc) = OtherLayer [] \<Longrightarrow> dcLayer (doDataset (normalize_parts doc)) = OtherLayer []"
  by (simp add: normalize_parts_def normalize_descriptor_def layer_name_def normal layer_of_def)

end
