(* ===== verification/DatasetDesigner.thy ===== *)
theory DatasetDesigner imports DatasetNormalize DepthFirst begin

text \<open>
  The canvas of a dataset document (\<open>validateDesigner\<close> of \<open>dataset/dsl.go\<close>), an open JSON object: identifiers,
  positions, and the graph its inputs draw, which must name what exists and have no cycle. A check is
  true when the code adds no issue. A key that is missing and one that is null both read as nil.
\<close>

section \<open>Values\<close>

definition identifierPattern :: "string \<Rightarrow> bool" where
  "identifierPattern s = (case s of [] \<Rightarrow> False
     | c # cs \<Rightarrow> (char_between CHR ''A'' CHR ''Z'' c \<or> char_between CHR ''a'' CHR ''z'' c) \<and> length cs \<le> 127 \<and>
         list_all (\<lambda>x. alnum x \<or> x = CHR ''_'') cs)"

type_synonym object = "(string \<times> json) list"

definition designerObject :: "json option \<Rightarrow> object option" where
  "designerObject raw = (case raw of Some (JObject kvs) \<Rightarrow> Some kvs | _ \<Rightarrow> None)"

definition designerList :: "json option \<Rightarrow> object list option" where
  "designerList raw = (case raw of Some (JArray vs) \<Rightarrow> those (map (\<lambda>v. designerObject (Some v)) vs) | _ \<Rightarrow> None)"

definition text_at :: "object \<Rightarrow> string \<Rightarrow> string option" where
  "text_at item k = (case map_of item k of Some (JString s) \<Rightarrow> Some s | _ \<Rightarrow> None)"

text \<open>
  A number that a float64 can hold, and is not negative there: what is above half of the smallest
  denormal number below zero is read as minus zero.
\<close>

definition coordinate :: "json option \<Rightarrow> bool" where
  "coordinate raw = (case raw of
       Some (JInteger n) \<Rightarrow> 0 \<le> n \<and> n < 2 ^ 1024 - 2 ^ 970
     | Some (JReal q) \<Rightarrow> - (1 / 2 ^ 1075) \<le> q \<and> q < 2 ^ 1024 - 2 ^ 970
     | _ \<Rightarrow> False)"

definition validateDesignerPosition :: "json option \<Rightarrow> bool" where
  "validateDesignerPosition raw = (case designerObject raw of None \<Rightarrow> False
     | Some p \<Rightarrow> coordinate (map_of p ''x'') \<and> coordinate (map_of p ''y''))"

section \<open>Items\<close>

text \<open>An identifier is taken when it is valid and new.\<close>

definition take_id :: "string option \<Rightarrow> string list \<Rightarrow> bool \<times> string list" where
  "take_id raw seen = (case raw of None \<Rightarrow> (False, seen)
     | Some s \<Rightarrow> let i = trim_space s in
         if \<not> identifierPattern i \<or> i \<in> set seen then (False, seen) else (True, i # seen))"

definition validateDesignerItem :: "object \<Rightarrow> string list \<Rightarrow> bool \<times> string list" where
  "validateDesignerItem item seen = (case take_id (text_at item ''id'') seen of
     (ok, seen') \<Rightarrow> (ok \<and> validateDesignerPosition (map_of item ''position''), seen'))"

fun each_item :: "(object \<Rightarrow> string list \<Rightarrow> bool \<times> string list) \<Rightarrow> object list \<Rightarrow> string list \<Rightarrow> bool \<times> string list" where
  "each_item check [] seen = (True, seen)"
| "each_item check (item # items) seen = (case check item seen of (ok, seen') \<Rightarrow>
     (case each_item check items seen' of (oks, seen'') \<Rightarrow> (ok \<and> oks, seen'')))"

definition validateDesignerItems :: "object \<Rightarrow> string \<Rightarrow> string list \<Rightarrow> bool \<times> string list" where
  "validateDesignerItems designer k seen = (if map_of designer k = None then (True, seen)
     else (case designerList (map_of designer k) of None \<Rightarrow> (False, seen) | Some items \<Rightarrow> each_item validateDesignerItem items seen))"

definition positions_valid :: "object \<Rightarrow> bool" where
  "positions_valid ps \<longleftrightarrow> list_all (\<lambda>(i, p). identifierPattern (trim_space i) \<and> validateDesignerPosition (Some p)) ps"

definition node_positions :: "object \<Rightarrow> bool \<times> string list" where
  "node_positions designer = (if map_of designer ''nodePositions'' = None then (True, [])
     else (case designerObject (map_of designer ''nodePositions'') of None \<Rightarrow> (False, [])
       | Some ps \<Rightarrow> (positions_valid ps, filter (\<lambda>i. identifierPattern (trim_space i)) (map fst ps))))"

definition end_item :: "object \<Rightarrow> string list \<Rightarrow> bool" where
  "end_item designer seen = (if map_of designer ''end'' = None then True
     else (case designerObject (map_of designer ''end'') of None \<Rightarrow> False | Some item \<Rightarrow> fst (validateDesignerItem item seen)))"

definition component_kinds :: "string list" where
  "component_kinds = [''DATA'', ''NODE'', ''JOIN'', ''GROUP'', ''TRANSFORM'', ''OUTPUT'']"

definition component_item :: "object \<Rightarrow> string list \<Rightarrow> bool \<times> string list" where
  "component_item component seen = (case take_id (text_at component ''id'') seen of (ok, seen') \<Rightarrow>
     (ok \<and> (case text_at component ''kind'' of None \<Rightarrow> False | Some k \<Rightarrow> upper_text k \<in> set component_kinds) \<and>
      (if map_of component ''position'' \<noteq> None then validateDesignerPosition (map_of component ''position'')
       else if map_of component ''x'' \<noteq> None \<or> map_of component ''y'' \<noteq> None then validateDesignerPosition (Some (JObject component)) else True), seen'))"

definition components_valid :: "object \<Rightarrow> bool" where
  "components_valid designer = (if map_of designer ''components'' = None then True
     else (case designerList (map_of designer ''components'') of None \<Rightarrow> False | Some items \<Rightarrow> fst (each_item component_item items [])))"

definition free_positions :: "object \<Rightarrow> bool" where
  "free_positions designer = (if map_of designer ''positions'' = None then True
     else (case designerObject (map_of designer ''positions'') of None \<Rightarrow> False
       | Some ps \<Rightarrow> list_all (\<lambda>(i, p). validateDesignerPosition (Some p)) ps))"

section \<open>The graph\<close>

definition item_key :: "string \<Rightarrow> object \<Rightarrow> string option" where
  "item_key kind item = (case text_at item ''id'' of None \<Rightarrow> None
     | Some s \<Rightarrow> if trim_space s = [] then None else Some (kind @ '':'' @ trim_space s))"

definition items_at :: "object \<Rightarrow> string \<Rightarrow> object list" where
  "items_at designer k = (case designerList (map_of designer k) of None \<Rightarrow> [] | Some items \<Rightarrow> items)"

definition end_items :: "object \<Rightarrow> object list" where
  "end_items designer = (case designerObject (map_of designer ''end'') of None \<Rightarrow> [] | Some item \<Rightarrow> [item])"

text \<open>The components with inputs: the kind of each, itself, and the keys of its inputs.\<close>

definition inner_items :: "object \<Rightarrow> (string \<times> object \<times> string list) list" where
  "inner_items designer = map (\<lambda>i. (''JOIN'', i, [''left'', ''right''])) (items_at designer ''joins'') @
     map (\<lambda>i. (''GROUP'', i, [''input''])) (items_at designer ''groups'') @
     map (\<lambda>i. (''TRANSFORM'', i, [''input''])) (items_at designer ''transforms'') @
     map (\<lambda>i. (''OUTPUT'', i, [''input''])) (end_items designer)"

definition existing_keys :: "object \<Rightarrow> string list" where
  "existing_keys designer =
     (case designerObject (map_of designer ''nodePositions'') of None \<Rightarrow> [] | Some ps \<Rightarrow> map (\<lambda>(i, p). ''NODE:'' @ trim_space i) ps) @
     concat (map (\<lambda>(kind, item, ks). case item_key kind item of None \<Rightarrow> [] | Some k \<Rightarrow> [k]) (inner_items designer))"

text \<open>An input is absent, refused, or a dependency.\<close>

datatype designer_input = NoInput | BadInput | DependsOn string

definition validateInput :: "string list \<Rightarrow> string \<Rightarrow> json option \<Rightarrow> designer_input" where
  "validateInput existing target raw = (if raw = None \<or> raw = Some JNull then NoInput
     else (case designerObject raw of None \<Rightarrow> BadInput
       | Some v \<Rightarrow> (case (text_at v ''kind'', text_at v ''id'') of
           (Some k, Some i) \<Rightarrow> (let kind = upper_text k; i' = trim_space i; source = kind @ '':'' @ i' in
             if kind \<notin> set [''NODE'', ''JOIN'', ''GROUP'', ''TRANSFORM''] \<or> \<not> identifierPattern i' then BadInput
             else if source \<notin> set existing then BadInput else if source = target then BadInput else DependsOn source)
         | _ \<Rightarrow> BadInput)))"

definition designer_inputs :: "object \<Rightarrow> (string \<times> designer_input) list" where
  "designer_inputs designer = concat (map (\<lambda>(kind, item, ks). case item_key kind item of None \<Rightarrow> []
     | Some target \<Rightarrow> map (\<lambda>k. (target, validateInput (existing_keys designer) target (map_of item k))) ks) (inner_items designer))"

definition designer_graph :: "object \<Rightarrow> graph" where
  "designer_graph designer target = concat (map (\<lambda>(t, i). case i of DependsOn s \<Rightarrow> if t = target then [s] else [] | _ \<Rightarrow> [])
     (designer_inputs designer))"

definition validateDesignerDAG :: "object \<Rightarrow> bool" where
  "validateDesignerDAG designer = (if map_of designer ''joins'' = None \<and> map_of designer ''groups'' = None \<and>
       map_of designer ''transforms'' = None \<and> map_of designer ''end'' = None then True
     else list_all (\<lambda>(t, i). i \<noteq> BadInput) (designer_inputs designer) \<and>
       hasInteractionCycle (designer_graph designer) (existing_keys designer) = Some False)"

section \<open>The whole canvas\<close>

definition version_valid :: "object \<Rightarrow> bool" where
  "version_valid designer = (if map_of designer ''version'' = None then True
     else (case text_at designer ''version'' of None \<Rightarrow> False | Some s \<Rightarrow> trim_space s = ''1.0''))"

definition validateDesigner :: "object option \<Rightarrow> bool" where
  "validateDesigner d = (case d of None \<Rightarrow> True | Some designer \<Rightarrow>
     version_valid designer \<and>
     (case node_positions designer of (ok0, seen0) \<Rightarrow> case validateDesignerItems designer ''joins'' seen0 of (ok1, seen1) \<Rightarrow>
      case validateDesignerItems designer ''groups'' seen1 of (ok2, seen2) \<Rightarrow> case validateDesignerItems designer ''transforms'' seen2 of (ok3, seen3) \<Rightarrow>
        ok0 \<and> ok1 \<and> ok2 \<and> ok3 \<and> end_item designer seen3) \<and>
     components_valid designer \<and> free_positions designer \<and> validateDesignerDAG designer)"

section \<open>Cycles\<close>

lemma designer_input_target:
  assumes "(t, i) \<in> set (designer_inputs designer)"
  shows "t \<in> set (existing_keys designer)"
proof -
  obtain kind item ks where "(kind, item, ks) \<in> set (inner_items designer)" "item_key kind item = Some t"
    using assms unfolding designer_inputs_def by (auto split: option.splits)
  then show ?thesis unfolding existing_keys_def by force
qed

lemma designer_graph_keys: "designer_graph designer n \<noteq> [] \<Longrightarrow> n \<in> set (existing_keys designer)"
proof -
  assume "designer_graph designer n \<noteq> []"
  then obtain t i where "(t, i) \<in> set (designer_inputs designer)" "(case i of DependsOn s \<Rightarrow> if t = n then [s] else [] | _ \<Rightarrow> []) \<noteq> []"
    unfolding designer_graph_def by auto
  moreover from this(2) have "t = n" by (cases i) (auto split: if_splits)
  ultimately show "n \<in> set (existing_keys designer)" using designer_input_target by blast
qed

lemma designer_cycle: "hasInteractionCycle (designer_graph designer) (existing_keys designer) = Some (cyclic (designer_graph designer))"
  by (rule cycle_decided) (rule designer_graph_keys)

end
