(* ===== verification/DatasetRules.thy ===== *)
theory DatasetRules imports DatasetDesigner QueryDocument begin

text \<open>
  The checks of the parts of a dataset document (\<open>dataset/dsl.go\<close>): names, expressions and their use of
  aggregates, grouping, measures, transforms, derived tables. A check is true when the code adds no
  issue; paths and messages are dropped. Unicode letters and digits are those of the query compiler.
\<close>

section \<open>Names\<close>

definition control_rune :: "string \<Rightarrow> bool" where
  "control_rune r = (case r of [c] \<Rightarrow> c < CHR 0x20 \<or> c = CHR 0x7F
     | [c, d] \<Rightarrow> c = CHR 0xC2 \<and> char_between CHR 0x80 CHR 0x9F d | _ \<Rightarrow> False)"

definition validateClassification :: "string \<Rightarrow> bool" where
  "validateClassification s \<longleftrightarrow> s = [] \<or> length (runes s) \<le> 128 \<and> list_all (\<lambda>r. \<not> control_rune r) (runes s)"

definition data_types :: "string list" where
  "data_types = [''STRING'', ''INTEGER'', ''DECIMAL'', ''BOOLEAN'', ''DATE'', ''DATETIME'']"

definition time_grains :: "string list" where "time_grains = [''DAY'', ''WEEK'', ''MONTH'', ''QUARTER'', ''YEAR'']"

definition short_name :: "string \<Rightarrow> bool" where "short_name s \<longleftrightarrow> trim_space s \<noteq> [] \<and> length (runes s) \<le> 200"

section \<open>Aggregates in expressions\<close>

record expressionAggregation =
  hasAggregate :: bool
  hasFreeField :: bool
  nestedAggregate :: bool

definition merge_aggregation :: "expressionAggregation \<Rightarrow> expressionAggregation \<Rightarrow> expressionAggregation" where
  "merge_aggregation a b = \<lparr> hasAggregate = hasAggregate a \<or> hasAggregate b, hasFreeField = hasFreeField a \<or> hasFreeField b,
     nestedAggregate = nestedAggregate a \<or> nestedAggregate b \<rparr>"

type_synonym aggregation_at = "nat \<Rightarrow> expressionAggregation"

definition present :: "'a option list \<Rightarrow> 'a list" where
  "present xs = concat (map (\<lambda>x. case x of None \<Rightarrow> [] | Some y \<Rightarrow> [y]) xs)"

definition aggregation_node :: "NodeType \<Rightarrow> aggregation_at list \<Rightarrow> aggregation_at" where
  "aggregation_node ty parts aggregateDepth =
     (let inner = (if ty = TyAggregate then aggregateDepth + 1 else aggregateDepth) in
      foldl merge_aggregation \<lparr> hasAggregate = ty = TyAggregate, hasFreeField = ty = TyFieldRef \<and> inner = 0,
        nestedAggregate = ty = TyAggregate \<and> 0 < aggregateDepth \<rparr> (map (\<lambda>f. f inner) parts))"

primrec analyzeExpressionAggregation :: "DatasetExpression \<Rightarrow> aggregation_at" where
  "analyzeExpressionAggregation (DatasetExpression ty n f c fn u tt v arg args l r lo up whens els pb ob) =
     aggregation_node ty
       (present [map_option analyzeExpressionAggregation arg, map_option analyzeExpressionAggregation l,
          map_option analyzeExpressionAggregation r, map_option analyzeExpressionAggregation lo,
          map_option analyzeExpressionAggregation up, map_option analyzeExpressionAggregation els] @
        map analyzeExpressionAggregation args @
        concat (map (\<lambda>(w, t). [w, t]) (map (map_prod analyzeExpressionAggregation analyzeExpressionAggregation) whens)) @
        map analyzeExpressionAggregation pb @ map fst (map (map_prod analyzeExpressionAggregation id) ob))"

declare analyzeExpressionAggregation.simps [simp del]

definition expressionHasCurrentDate :: "DatasetExpression \<Rightarrow> bool" where
  "expressionHasCurrentDate e \<longleftrightarrow> list_ex (\<lambda>x. deType x = TyDate CurrentDate) (subexpressions e)"

section \<open>Fields of expressions\<close>

text \<open>The columns of each node; a node is absent that the document does not have.\<close>

type_synonym projections = "string \<Rightarrow> string list option"

definition validateExpressionProjection :: "projections \<Rightarrow> DatasetExpression \<Rightarrow> bool" where
  "validateExpressionProjection ps e \<longleftrightarrow> list_all (\<lambda>x. deType x = TyFieldRef \<longrightarrow>
     (case ps (deNodeID x) of None \<Rightarrow> True | Some fs \<Rightarrow> deField x \<in> set fs)) (subexpressions e)"

definition validatePreAggregationSourceExpression :: "string \<Rightarrow> DatasetExpression \<Rightarrow> bool" where
  "validatePreAggregationSourceExpression n e \<longleftrightarrow> list_all (\<lambda>x. (deType x = TyFieldRef \<longrightarrow> deNodeID x = n) \<and>
     deType x \<noteq> TyAggregate \<and> deType x \<noteq> TyWindow) (subexpressions e)"

definition validateFilter :: "string \<Rightarrow> string list \<Rightarrow> string list \<Rightarrow> DatasetFilter \<Rightarrow> bool" where
  "validateFilter expectedStage nodes params f \<longleftrightarrow> identifierPattern (dflID f) \<and> dflStage f = expectedStage \<and>
     validateExpression (Some nodes) (Some params) (dflExpression f) \<and>
     \<not> (expectedStage = ''PRE_AGGREGATION'' \<and> hasAggregate (analyzeExpressionAggregation (dflExpression f) 0)) \<and>
     \<not> expressionHasWindow (dflExpression f)"

section \<open>Grouping\<close>

text \<open>The key of a grouping set, its members in order with a zero byte between them.\<close>

fun nul_join :: "string list \<Rightarrow> string" where
  "nul_join [] = []"
| "nul_join [s] = s"
| "nul_join (s # ss) = s @ [CHR 0x00] @ nul_join ss"

definition grouping_sets_valid :: "string list \<Rightarrow> string list list \<Rightarrow> bool" where
  "grouping_sets_valid dimensions sets \<longleftrightarrow> sets \<noteq> [] \<and> length sets \<le> 64 \<and> distinct (map (\<lambda>s. nul_join (sort_slice (<) s)) sets) \<and>
     list_all (\<lambda>s. list_all (\<lambda>f. f \<in> set dimensions) s \<and> distinct s) sets"

definition validateGroupByMode :: "GroupByMode \<Rightarrow> string list \<Rightarrow> string list list \<Rightarrow> bool" where
  "validateGroupByMode mode dimensions sets = (case mode of
       OtherGroupByMode s \<Rightarrow> s = [] \<and> sets = []
     | GroupByModeStandard \<Rightarrow> sets = []
     | GroupByModeCube \<Rightarrow> sets = [] \<and> 2 \<le> length dimensions \<and> length dimensions \<le> 8
     | GroupByModeRollup \<Rightarrow> sets = [] \<and> dimensions \<noteq> []
     | GroupByModeSets \<Rightarrow> grouping_sets_valid dimensions sets)"

section \<open>Measures and limits\<close>

definition validateMeasureTimeBehavior :: "string \<Rightarrow> string \<Rightarrow> string \<Rightarrow> string \<Rightarrow> bool" where
  "validateMeasureTimeBehavior behavior aggregation timeAggregation additivity =
     (if behavior = [] \<and> timeAggregation = [] then True
      else if behavior \<notin> set [''FLOW'', ''CUMULATIVE'', ''POINT_IN_TIME'', ''NON_ADDITIVE''] then False
      else (aggregation = [] \<or> aggregation \<in> set [''SUM'', ''MIN'', ''MAX'', ''COUNT'', ''COUNT_DISTINCT'', ''AVG'']) \<and>
        timeAggregation \<in> set [''SUM'', ''LAST'', ''NONE''] \<and>
        (if behavior = ''FLOW'' then additivity = ''ADDITIVE'' \<and> timeAggregation = ''SUM''
         else if behavior = ''NON_ADDITIVE'' then additivity = ''NON_ADDITIVE'' \<and> timeAggregation = ''NONE''
         else additivity = ''SEMI_ADDITIVE'' \<and> timeAggregation = ''LAST''))"

definition validateExecutionPolicy :: "ExecutionPolicy \<Rightarrow> bool" where
  "validateExecutionPolicy p \<longleftrightarrow> xpMode p \<in> set [''REALTIME'', ''CACHE_PREFERRED'', ''MATERIALIZED_PREFERRED''] \<and>
     100 \<le> xpTimeoutMS p \<and> xpTimeoutMS p \<le> 120000 \<and> 1 \<le> xpPreviewLimit p \<and> xpPreviewLimit p \<le> 5000 \<and>
     1 \<le> xpResultLimit p \<and> xpResultLimit p \<le> 100000 \<and> 0 \<le> xpCacheTTLSeconds p \<and> xpCacheTTLSeconds p \<le> 86400 \<and>
     (mpEnabled (xpMaterialization p) \<longrightarrow> mpRefreshMode (xpMaterialization p) \<in> set [''MANUAL'', ''SCHEDULED'', ''ON_DEMAND'']) \<and>
     (mpRefreshMode (xpMaterialization p) = ''SCHEDULED'' \<longrightarrow> mpCron (xpMaterialization p) \<noteq> [])"

section \<open>Transforms\<close>

definition families :: "(string \<times> string) list" where
  "families = [(''FILTER'', ''CONDITION''), (''TEXT_CASE'', ''TEXT''), (''TEXT_UPPER'', ''TEXT''), (''TEXT_TRIM'', ''TEXT''),
     (''TEXT_REPLACE'', ''TEXT''), (''TEXT_LOWER'', ''TEXT''), (''TEXT_SUBSTRING'', ''TEXT''), (''TEXT_CONCAT'', ''TEXT''),
     (''NUMBER_ABSOLUTE'', ''NUMBER''), (''NUMBER_ROUNDING'', ''NUMBER''), (''NUMBER_ARITHMETIC'', ''NUMBER''),
     (''DATE_CALCULATION'', ''DATE''), (''DATE_FORMAT'', ''DATE''), (''WINDOW_FUNCTION'', ''WINDOW''), (''NULL'', ''NULL''),
     (''CAST'', ''CAST''), (''CONDITION'', ''CONDITION'')]"

definition operations :: "(string \<times> string list) list" where
  "operations = [(''FILTER'', []), (''TEXT_CASE'', [''UPPER'', ''LOWER'']), (''TEXT_UPPER'', [''UPPER'']), (''TEXT_TRIM'', [''TRIM'']),
     (''TEXT_REPLACE'', [''REPLACE'']), (''TEXT_LOWER'', [''LOWER'']), (''TEXT_SUBSTRING'', [''SUBSTRING'']), (''TEXT_CONCAT'', [''CONCAT'']),
     (''NUMBER_ABSOLUTE'', [''ABS'']), (''NUMBER_ROUNDING'', [''ROUND'', ''FLOOR'', ''CEIL'']),
     (''NUMBER_ARITHMETIC'', [''ADD'', ''SUBTRACT'', ''MULTIPLY'', ''DIVIDE'']),
     (''DATE_CALCULATION'', [''CURRENT_DATE'', ''DATE_DIFF'', ''DATE_EXTRACT'', ''DATE_START'', ''DATE_END'']),
     (''DATE_FORMAT'', [''DATE_FORMAT'']), (''WINDOW_FUNCTION'', [''WINDOW'']), (''NULL'', [''COALESCE'']), (''CAST'', [''CAST'']),
     (''CONDITION'', [''CASE''])]"

definition operations_of :: "string \<Rightarrow> string list" where
  "operations_of t = (case map_of operations t of None \<Rightarrow> [] | Some os \<Rightarrow> os)"

text \<open>A later transform with the same identifier replaces an earlier one.\<close>

definition transform_graph :: "Transform list \<Rightarrow> graph" where
  "transform_graph ts i = (case last_entry (map (\<lambda>t. (tfID t, t)) ts) i of None \<Rightarrow> []
     | Some t \<Rightarrow> if tfInputKind t = ''TRANSFORM'' \<and> tfInputID t \<in> set (map tfID ts) then [tfInputID t] else [])"

definition transform_cycle :: "Transform list \<Rightarrow> bool option" where
  "transform_cycle ts = hasInteractionCycle (transform_graph ts) (map tfID ts)"

text \<open>\<open>strings.SplitN(key, ".", 2)\<close>\<close>

definition input_key_valid :: "unicode \<Rightarrow> string \<Rightarrow> bool" where
  "input_key_valid u k \<longleftrightarrow> CHR ''.'' \<in> set k \<and> identifierPattern (takeWhile (\<lambda>c. c \<noteq> CHR ''.'') k) \<and>
     ValidColumn u (tl (dropWhile (\<lambda>c. c \<noteq> CHR ''.'') k))"

definition rule_valid :: "unicode \<Rightarrow> string list \<Rightarrow> string list \<Rightarrow> string \<Rightarrow> TransformRule \<Rightarrow> bool" where
  "rule_valid u nodes params component r \<longleftrightarrow>
     identifierPattern (trlID r) \<and> trlOperation r \<in> set (operations_of component) \<and> length (trlInputKeys r) \<le> 16 \<and>
     list_all (input_key_valid u) (trlInputKeys r) \<and> identifierPattern (toID (trlOutput r)) \<and> identifierPattern (toCode (trlOutput r)) \<and>
     short_name (toName (trlOutput r)) \<and> toCanonicalType (trlOutput r) \<in> set data_types \<and>
     type_name (deType (trlExpression r)) = trlOperation r \<and> validateExpression (Some nodes) (Some params) (trlExpression r) \<and>
     (trlReplaceSourceKey r = [] \<or> trlInputKeys r \<noteq> [] \<and> trlReplaceSourceKey r = hd (trlInputKeys r)) \<and>
     (component = ''DATE_CALCULATION'' \<longrightarrow> toCanonicalType (trlOutput r) =
        (if trlOperation r \<in> set [''CURRENT_DATE'', ''DATE_START'', ''DATE_END''] then ''DATE'' else ''INTEGER'')) \<and>
     (component = ''NULL'' \<and> length (deArguments (trlExpression r)) = 2 \<and> deType (deArguments (trlExpression r) ! 1) = TyDate CurrentDate \<longrightarrow>
        toCanonicalType (trlOutput r) \<in> set [''DATE'', ''DATETIME'']) \<and>
     (component = ''CONDITION'' \<and> expressionHasCurrentDate (trlExpression r) \<longrightarrow> toCanonicalType (trlOutput r) = ''DATE'')"

definition transform_valid :: "unicode \<Rightarrow> string list \<Rightarrow> string list \<Rightarrow> string list \<Rightarrow> string list \<Rightarrow> Transform \<Rightarrow> bool" where
  "transform_valid u transforms nodes joins params t \<longleftrightarrow>
     identifierPattern (tfID t) \<and> tfID t \<notin> set nodes \<and> tfID t \<notin> set joins \<and> short_name (tfName t) \<and>
     (case map_of families (tfComponentType t) of None \<Rightarrow> False
      | Some f \<Rightarrow> f = tfFamily t \<or> tfComponentType t = ''TEXT_CONCAT'' \<and> tfFamily t = ''SPLIT_MERGE'') \<and>
     tfInputKind t \<in> set [''NODE'', ''JOIN'', ''GROUP'', ''TRANSFORM''] \<and> identifierPattern (tfInputID t) \<and>
     (tfInputKind t = ''NODE'' \<longrightarrow> tfInputID t \<in> set nodes) \<and> (tfInputKind t = ''JOIN'' \<longrightarrow> tfInputID t \<in> set joins) \<and>
     (tfInputKind t = ''TRANSFORM'' \<longrightarrow> tfInputID t \<in> set transforms \<and> tfInputID t \<noteq> tfID t) \<and>
     (if tfComponentType t = ''FILTER'' then tfRules t = [] else tfRules t \<noteq> [] \<and> length (tfRules t) \<le> 20) \<and>
     distinct (map trlID (tfRules t)) \<and> list_all (rule_valid u nodes params (tfComponentType t)) (tfRules t)"

definition validateTransforms :: "unicode \<Rightarrow> Transform list \<Rightarrow> string list \<Rightarrow> string list \<Rightarrow> string list \<Rightarrow> bool" where
  "validateTransforms u ts nodes joins params \<longleftrightarrow> length ts \<le> 32 \<and> distinct (map tfID ts) \<and> transform_cycle ts = Some False \<and>
     list_all (transform_valid u (map tfID ts) nodes joins params) ts \<and>
     distinct (concat (map (\<lambda>t. map (\<lambda>r. tfID t @ ''.'' @ toID (trlOutput r)) (tfRules t)) ts))"

section \<open>Derived tables\<close>

definition pre_outputs :: "PreAggregation \<Rightarrow> string list" where
  "pre_outputs p = map pagField (paGroupBy p) @ map pamField (paMetrics p)"

definition source_expression_valid :: "projections \<Rightarrow> string list \<Rightarrow> string list \<Rightarrow> string \<Rightarrow> DatasetExpression \<Rightarrow> bool" where
  "source_expression_valid ps nodes params n e \<longleftrightarrow> validateExpression (Some nodes) (Some params) e \<and> validateExpressionProjection ps e \<and>
     validatePreAggregationSourceExpression n e \<and> \<not> hasAggregate (analyzeExpressionAggregation e 0)"

definition projected :: "projections \<Rightarrow> string \<Rightarrow> string \<Rightarrow> bool" where
  "projected ps n f = (case ps n of None \<Rightarrow> False | Some fs \<Rightarrow> f \<in> set fs)"

definition pre_group_valid :: "unicode \<Rightarrow> projections \<Rightarrow> string list \<Rightarrow> string list \<Rightarrow> string \<Rightarrow> PreAggregationGroup \<Rightarrow> bool" where
  "pre_group_valid u ps nodes params n g \<longleftrightarrow> ValidColumn u (pagField g) \<and>
     (case pagExpression g of None \<Rightarrow> projected ps n (pagField g) | Some e \<Rightarrow> source_expression_valid ps nodes params n e) \<and>
     (pagUnit g = [] \<or> pagUnit g \<in> set time_grains)"

definition pre_metric_valid :: "unicode \<Rightarrow> projections \<Rightarrow> string list \<Rightarrow> string list \<Rightarrow> string \<Rightarrow> PreAggregationMetric \<Rightarrow> bool" where
  "pre_metric_valid u ps nodes params n m \<longleftrightarrow> ValidColumn u (pamField m) \<and>
     (if pamCountRows m then pamFunction m = ''COUNT'' \<and> pamExpression m = None
      else (case pamExpression m of None \<Rightarrow> projected ps n (pamField m) | Some e \<Rightarrow> source_expression_valid ps nodes params n e)) \<and>
     pamFunction m \<in> set [''SUM'', ''AVG'', ''MIN'', ''MAX'', ''COUNT'', ''COUNT_DISTINCT'']"

definition condition_side :: "string \<Rightarrow> JoinCondition \<Rightarrow> DatasetExpression" where
  "condition_side side c = (if side = ''RIGHT'' then jcRightExpression c else jcLeftExpression c)"

definition preaggregation_valid ::
  "unicode \<Rightarrow> Document \<Rightarrow> projections \<Rightarrow> string list \<Rightarrow> string list \<Rightarrow> PreAggregation \<Rightarrow> bool" where
  "preaggregation_valid u doc ps nodes params p \<longleftrightarrow>
     (let join = last_entry (map (\<lambda>j. (djID j, j)) (doJoins doc)) (paJoinID p);
          singleSourceStage = length (doNodes doc) = 1 \<and> doJoins doc = [] \<and> paJoinID p = [] \<and> paJoinSide p = [] in
      identifierPattern (paID p) \<and> paNodeID p \<in> set nodes \<and>
      (singleSourceStage \<or> paJoinSide p \<in> set [''LEFT'', ''RIGHT''] \<and> (case join of None \<Rightarrow> False
         | Some j \<Rightarrow> \<not> (paJoinSide p = ''LEFT'' \<and> djLeftNodeID j \<noteq> paNodeID p \<or> paJoinSide p = ''RIGHT'' \<and> djRightNodeID j \<noteq> paNodeID p))) \<and>
      paGroupBy p \<noteq> [] \<and> validateGroupByMode (paGroupByMode p) (map pagField (paGroupBy p)) (paGroupingSets p) \<and>
      paMetrics p \<noteq> [] \<and> distinct (pre_outputs p) \<and>
      list_all (pre_group_valid u ps nodes params (paNodeID p)) (paGroupBy p) \<and>
      list_all (pre_metric_valid u ps nodes params (paNodeID p)) (paMetrics p) \<and>
      (case join of None \<Rightarrow> True | Some j \<Rightarrow> list_all (\<lambda>c. let e = condition_side (paJoinSide p) c in
          deNodeID e = paNodeID p \<longrightarrow> deField e \<in> set (pre_outputs p)) (djConditions j)))"

end
