(* ===== verification/DatasetValidate.thy ===== *)
theory DatasetValidate imports DatasetRules begin

text \<open>
  The check of a whole dataset document (\<open>Validate\<close> of \<open>dataset/dsl.go\<close>) with the layer contract, the semantic
  contracts and the connection of the joins. The result is none when the code panics: it writes into
  the columns of a node that the document does not have.
\<close>

section \<open>Layers\<close>

definition missing_grain :: "Document \<Rightarrow> bool" where
  "missing_grain doc \<longleftrightarrow> ogDescription (doOutputGrain doc) = [] \<or> ogKeyFields (doOutputGrain doc) = []"

definition requireModeledUpstreams :: "Document \<Rightarrow> bool" where
  "requireModeledUpstreams doc \<longleftrightarrow> \<not> doLayerSpecified doc \<or> lineage doc = LineageSource \<or>
     list_all (\<lambda>n. ndType n = ''DATASET'') (doNodes doc)"

definition has_grouping :: "Document \<Rightarrow> bool" where
  "has_grouping doc \<longleftrightarrow> \<not> doRuntimeRollup doc \<and> (doGroupBy doc \<noteq> [] \<or> doHaving doc \<noteq> [] \<or> doPreAggregations doc \<noteq> [])"

definition has_aggregation :: "Document \<Rightarrow> bool" where
  "has_aggregation doc \<longleftrightarrow> \<not> doRuntimeRollup doc \<and> documentHasBusinessAggregation doc"

definition validateLayerContract :: "Document \<Rightarrow> bool" where
  "validateLayerContract doc =
     (let layer = dcLayer (doDataset doc); source = (lineage doc = LineageSource); changed = has_grouping doc \<or> has_aggregation doc in
      \<not> (source \<and> layer \<noteq> LayerODS \<and> doLayerSpecified doc \<and> (dcType (doDataset doc) \<noteq> ''SINGLE_SOURCE'' \<or> doDistinct doc \<or> changed)) \<and>
      (case layer of
         LayerODS \<Rightarrow> \<not> doDistinct doc \<and> length (doNodes doc) = 1 \<and> ndType (hd (doNodes doc)) = ''TABLE'' \<and> doJoins doc = [] \<and> \<not> changed
       | LayerDIM \<Rightarrow> requireModeledUpstreams doc \<and> \<not> changed \<and> \<not> missing_grain doc
       | LayerDWD \<Rightarrow> \<not> doDistinct doc \<and> requireModeledUpstreams doc \<and> (changed \<longrightarrow> doSourcePreview doc)
       | LayerDWS \<Rightarrow> \<not> doDistinct doc \<and> requireModeledUpstreams doc \<and> \<not> missing_grain doc \<and>
           (if source then documentHasMeasureField doc \<or> has_aggregation doc else has_aggregation doc)
       | LayerADS \<Rightarrow> \<not> doDistinct doc \<and> requireModeledUpstreams doc \<and> \<not> missing_grain doc \<and>
           \<not> (dcSemanticContractVersion (doDataset doc) = ''1.0'' \<and> dcConsumerContractID (doDataset doc) = [])
       | OtherLayer _ \<Rightarrow> True))"

section \<open>Semantic contracts\<close>

text \<open>The same members the same number of times, counted as the code does.\<close>

definition sameStringSet :: "string list \<Rightarrow> string list \<Rightarrow> bool" where
  "sameStringSet left right \<longleftrightarrow> length left = length right \<and> list_all (\<lambda>x. count_list left x = count_list right x) (left @ right)"

definition field_at :: "Document \<Rightarrow> string \<Rightarrow> DatasetField option" where
  "field_at doc = last_entry (map (\<lambda>f. (dfCode f, f)) (doFields doc))"

definition field_with_role :: "Document \<Rightarrow> string \<Rightarrow> string \<Rightarrow> bool" where
  "field_with_role doc role c = (case field_at doc c of None \<Rightarrow> False | Some f \<Rightarrow> dfRole f = role)"

definition additivities :: "string list" where "additivities = [''ADDITIVE'', ''SEMI_ADDITIVE'', ''NON_ADDITIVE'']"

definition atomic_valid :: "Document \<Rightarrow> AtomicMeasureContract \<Rightarrow> bool" where
  "atomic_valid doc m \<longleftrightarrow> field_with_role doc ''MEASURE'' (amField m) \<and> amAdditivity m \<in> set additivities \<and>
     validateMeasureTimeBehavior (amValueBehavior m) (amDefaultAggregation m) (amTimeAggregation m) (amAdditivity m) \<and>
     amNullPolicy m \<in> set [''PRESERVE'', ''ZERO'', ''REJECT''] \<and> length (amUnit m) \<le> 64 \<and> length (amCurrency m) \<le> 16"

definition fact_contract_valid :: "Document \<Rightarrow> bool" where
  "fact_contract_valid doc = (case doFactContract doc of
       None \<Rightarrow> \<not> (dcSemanticContractVersion (doDataset doc) = ''1.0'' \<and> dcLayer (doDataset doc) = LayerDWD)
     | Some c \<Rightarrow> dcLayer (doDataset doc) = LayerDWD \<and> trim_space (faBusinessAction c) \<noteq> [] \<and> length (runes (faBusinessAction c)) \<le> 256 \<and>
         sameStringSet (faGrainKeyFields c) (ogKeyFields (doOutputGrain doc)) \<and>
         (faEventTimeField c = [] \<or> field_with_role doc ''TIME'' (faEventTimeField c)) \<and>
         distinct (map amField (faAtomicMeasures c)) \<and> list_all (atomic_valid doc) (faAtomicMeasures c) \<and>
         list_all (\<lambda>f. dfRole f = ''MEASURE'' \<longrightarrow> dfCode f \<in> set (map amField (faAtomicMeasures c))) (doFields doc))"

definition analysis_intents :: "string list" where
  "analysis_intents = [''TREND'', ''PERIOD_COMPARISON'', ''DISTRIBUTION'', ''RANKING'', ''TOP_N'', ''DRILLDOWN'', ''FUNNEL'', ''RETENTION'',
     ''LIFECYCLE'', ''ANOMALY'', ''CONTRIBUTION'', ''MULTI_FACT_COMPARISON'', ''ENTITY_COUNT'']"

definition analysis_measure_valid :: "Document \<Rightarrow> AnalysisMeasureContract \<Rightarrow> bool" where
  "analysis_measure_valid doc m \<longleftrightarrow> field_with_role doc ''MEASURE'' (nmField m) \<and>
     nmAggregation m \<in> set [''SUM'', ''MIN'', ''MAX'', ''COUNT'', ''COUNT_DISTINCT'', ''AVG''] \<and> nmAdditivity m \<in> set additivities \<and>
     validateMeasureTimeBehavior (nmValueBehavior m) (nmAggregation m) (nmTimeAggregation m) (nmAdditivity m) \<and>
     nmSourceNodeIDs m \<noteq> [] \<and> list_all (\<lambda>n. n \<in> set (map ndID (doNodes doc))) (nmSourceNodeIDs m)"

definition analysis_contract_valid :: "Document \<Rightarrow> bool" where
  "analysis_contract_valid doc = (case doAnalysisContract doc of
       None \<Rightarrow> \<not> (dcSemanticContractVersion (doDataset doc) = ''1.0'' \<and> dcLayer (doDataset doc) = LayerDWS)
     | Some c \<Rightarrow> dcLayer (doDataset doc) = LayerDWS \<and> anIntent c \<in> set analysis_intents \<and>
         anInputMode c = (if 1 < length (doNodes doc) then ''MULTI_FACT'' else ''SINGLE_FACT'') \<and>
         sameStringSet (anCommonGrainFields c) (ogKeyFields (doOutputGrain doc)) \<and>
         list_all (\<lambda>x. case field_at doc x of None \<Rightarrow> False | Some f \<Rightarrow> dfRole f \<noteq> ''MEASURE'') (anConformedDimensions c) \<and>
         (anTimeField c = [] \<or> field_with_role doc ''TIME'' (anTimeField c)) \<and> (anTimeGrain c = [] \<or> anTimeGrain c \<in> set time_grains) \<and>
         list_all (analysis_measure_valid doc) (anMeasures c) \<and>
         (1 < length (doNodes doc) \<longrightarrow> list_all (\<lambda>n. ndID n \<in> set (map paNodeID (doPreAggregations doc))) (doNodes doc)))"

definition validateSemanticContracts :: "Document \<Rightarrow> bool" where
  "validateSemanticContracts doc \<longleftrightarrow> fact_contract_valid doc \<and> analysis_contract_valid doc"

section \<open>Nodes and joins\<close>

definition node_ids :: "Document \<Rightarrow> string list" where "node_ids doc = map ndID (doNodes doc)"

definition parameter_codes :: "Document \<Rightarrow> string list" where "parameter_codes doc = map dpCode (doParameters doc)"

definition dataset_node_valid :: "unicode \<Rightarrow> Document \<Rightarrow> DatasetNode \<Rightarrow> bool" where
  "dataset_node_valid u doc n \<longleftrightarrow> identifierPattern (ndID n) \<and> identifierPattern (ndAlias n) \<and>
     (if ndType n = ''TABLE'' then ndDataSourceID n \<noteq> [] \<and> ndTableID n \<noteq> [] \<and> ndDatasetVersionID n = []
      else ndType n = ''DATASET'' \<and> ndDatasetVersionID n \<noteq> [] \<and> ndDataSourceID n = [] \<and> ndTableID n = [] \<and> ndFileVersionID n = []) \<and>
     ndProjection n \<noteq> [] \<and> list_all (ValidColumn u) (ndProjection n) \<and> distinct (ndProjection n) \<and>
     list_all (source_filter_valid (ValidColumn u) (node_ids doc) (parameter_codes doc) (ndID n) (ndProjection n)) (ndSourceFilters n)"

definition nodes_valid :: "unicode \<Rightarrow> Document \<Rightarrow> bool" where
  "nodes_valid u doc \<longleftrightarrow> doNodes doc \<noteq> [] \<and> length (doNodes doc) \<le> 16 \<and> distinct (node_ids doc) \<and> distinct (map ndAlias (doNodes doc)) \<and>
     list_all (dataset_node_valid u doc) (doNodes doc)"

definition sources_valid :: "Document \<Rightarrow> bool" where
  "sources_valid doc \<longleftrightarrow> (let sources = remdups (filter (\<lambda>s. s \<noteq> []) (map ndDataSourceID (doNodes doc))) in
     \<not> (dcType (doDataset doc) = ''SINGLE_SOURCE'' \<and> 1 < length sources) \<and>
     \<not> (dcType (doDataset doc) = ''CROSS_SOURCE'' \<and> length sources < 2 \<and> \<not> list_ex (\<lambda>n. ndType n = ''DATASET'') (doNodes doc)) \<and>
     \<not> (1 < length (doNodes doc) \<and> doJoins doc = []))"

definition condition_valid :: "Document \<Rightarrow> DatasetJoin \<Rightarrow> JoinCondition \<Rightarrow> bool" where
  "condition_valid doc j c \<longleftrightarrow> jcOperator c \<in> set [''EQUALS'', ''NOT_EQUALS'', ''GT'', ''GTE'', ''LT'', ''LTE''] \<and>
     validateExpression (Some (node_ids doc)) (Some (parameter_codes doc)) (jcLeftExpression c) \<and>
     validateExpression (Some (node_ids doc)) (Some (parameter_codes doc)) (jcRightExpression c) \<and>
     deType (jcLeftExpression c) = TyFieldRef \<and> deNodeID (jcLeftExpression c) = djLeftNodeID j \<and>
     deType (jcRightExpression c) = TyFieldRef \<and> deNodeID (jcRightExpression c) = djRightNodeID j"

definition join_valid :: "Document \<Rightarrow> DatasetJoin \<Rightarrow> bool" where
  "join_valid doc j \<longleftrightarrow> identifierPattern (djID j) \<and> djLeftNodeID j \<in> set (node_ids doc) \<and> djRightNodeID j \<in> set (node_ids doc) \<and>
     \<not> (djLeftNodeID j = djRightNodeID j \<and> djLeftNodeID j \<noteq> []) \<and> djJoinType j \<in> set [''INNER'', ''LEFT'', ''RIGHT'', ''FULL''] \<and>
     djCardinality j = joinCardinalityForType (djJoinType j) \<and> djRelationshipType j = [] \<and> djRelationshipRole j = [] \<and>
     djFanoutPolicy j = [] \<and> djBridge j = None \<and> djTemporal j = None \<and> djConditions j \<noteq> [] \<and> list_all (condition_valid doc j) (djConditions j)"

definition joins_valid :: "Document \<Rightarrow> bool" where
  "joins_valid doc \<longleftrightarrow> distinct (map djID (doJoins doc)) \<and> list_all (join_valid doc) (doJoins doc)"

text \<open>Breadth-first search from the first node, ignoring the direction of joins.\<close>

definition adjacent :: "DatasetJoin list \<Rightarrow> string \<Rightarrow> string list" where
  "adjacent js n = concat (map (\<lambda>j. (if djLeftNodeID j = n then [djRightNodeID j] else []) @
     (if djRightNodeID j = n then [djLeftNodeID j] else [])) js)"

definition reach_measure :: "DatasetJoin list \<Rightarrow> string list \<Rightarrow> string list \<Rightarrow> nat \<times> nat" where
  "reach_measure js seen queue = (card ((set (map djLeftNodeID js) \<union> set (map djRightNodeID js)) - set seen), length queue)"

fun discover :: "string list \<Rightarrow> string list \<Rightarrow> string list \<Rightarrow> string list \<times> string list" where
  "discover seen queue [] = (seen, queue)"
| "discover seen queue (n # ns) = (if n \<in> set seen then discover seen queue ns else discover (n # seen) (queue @ [n]) ns)"

lemma discover_seen: "set (fst (discover seen queue ns)) = set seen \<union> set ns"
  by (induction seen queue ns rule: discover.induct) auto

lemma discover_queue: "set (snd (discover seen queue ns)) = set queue \<union> (set ns - set seen)"
  by (induction seen queue ns rule: discover.induct) auto

lemma discover_same: "set ns \<subseteq> set seen \<Longrightarrow> discover seen queue ns = (seen, queue)"
  by (induction seen queue ns rule: discover.induct) auto

lemma adjacent_nodes: "m \<in> set (adjacent js n) \<longleftrightarrow>
    (\<exists>j \<in> set js. djLeftNodeID j = n \<and> djRightNodeID j = m \<or> djRightNodeID j = n \<and> djLeftNodeID j = m)"
  by (auto simp: adjacent_def split: if_splits)

lemma discover_measure:
  assumes "discover seen queue (adjacent js n) = (seen', queue')"
  shows "(reach_measure js seen' queue', reach_measure js seen (n # queue)) \<in> less_than <*lex*> less_than"
proof -
  let ?V = "set (map djLeftNodeID js) \<union> set (map djRightNodeID js)" and ?new = "set (adjacent js n) - set seen"
  have s: "set seen' = set seen \<union> set (adjacent js n)" using discover_seen [of seen queue "adjacent js n"] assms by simp
  have new: "?new \<subseteq> ?V" by (auto simp: adjacent_nodes)
  show ?thesis
  proof (cases "?new = {}")
    case True
    then have "seen' = seen \<and> queue' = queue" using discover_same [of "adjacent js n" seen queue] assms by simp
    then show ?thesis by (simp add: reach_measure_def)
  next
    case False
    then have "?V - set seen' \<subset> ?V - set seen" using s new by blast
    then have "card (?V - set seen') < card (?V - set seen)" by (intro psubset_card_mono) auto
    then show ?thesis by (simp add: reach_measure_def)
  qed
qed

function search_joins :: "DatasetJoin list \<Rightarrow> string list \<Rightarrow> string list \<Rightarrow> string list" where
  "search_joins js seen [] = seen"
| "search_joins js seen (current # queue) = (case discover seen queue (adjacent js current) of (seen', queue') \<Rightarrow> search_joins js seen' queue')"
  by pat_completeness auto

termination
  by (relation "inv_image (less_than <*lex*> less_than) (\<lambda>(js, seen, queue). reach_measure js seen queue)")
    (auto simp: wf_lex_prod intro: discover_measure split: prod.split)

definition validateJoinGraph :: "DatasetNode list \<Rightarrow> DatasetJoin list \<Rightarrow> bool" where
  "validateJoinGraph nodes js \<longleftrightarrow> length nodes \<le> 1 \<or>
     length (search_joins js [ndID (hd nodes)] [ndID (hd nodes)]) = length nodes"

section \<open>References\<close>

definition node_projections :: "Document \<Rightarrow> projections" where
  "node_projections doc = last_entry (map (\<lambda>n. (ndID n, ndProjection n)) (doNodes doc))"

text \<open>The columns of derived tables are added to those of their node; a missing node is a panic.\<close>

fun add_outputs :: "PreAggregation list \<Rightarrow> projections \<Rightarrow> projections option" where
  "add_outputs [] ps = Some ps"
| "add_outputs (p # rest) ps = (if pre_outputs p = [] then add_outputs rest ps
     else (case ps (paNodeID p) of None \<Rightarrow> None | Some fs \<Rightarrow> add_outputs rest (ps(paNodeID p := Some (fs @ pre_outputs p)))))"

definition projected_refs_valid :: "Document \<Rightarrow> projections \<Rightarrow> bool" where
  "projected_refs_valid doc ps \<longleftrightarrow>
     list_all (\<lambda>n. list_all (\<lambda>f. case sfExpression f of None \<Rightarrow> True | Some e \<Rightarrow> validateExpressionProjection ps e) (ndSourceFilters n)) (doNodes doc) \<and>
     list_all (\<lambda>j. list_all (\<lambda>c. validateExpressionProjection ps (jcLeftExpression c) \<and> validateExpressionProjection ps (jcRightExpression c))
       (djConditions j)) (doJoins doc) \<and>
     list_all (\<lambda>f. validateExpressionProjection ps (dfExpression f)) (doFields doc) \<and>
     list_all (\<lambda>t. list_all (\<lambda>r. validateExpressionProjection ps (trlExpression r)) (tfRules t)) (doTransforms doc) \<and>
     list_all (\<lambda>f. validateExpressionProjection ps (dflExpression f)) (doFilters doc) \<and>
     list_all (\<lambda>f. validateExpressionProjection ps (dflExpression f)) (doHaving doc)"

definition validateProjectedFieldRefs :: "Document \<Rightarrow> bool option" where
  "validateProjectedFieldRefs doc = map_option (projected_refs_valid doc) (add_outputs (doPreAggregations doc) (node_projections doc))"

definition last_outputs :: "Document \<Rightarrow> string \<Rightarrow> string list option" where
  "last_outputs doc = last_entry (map (\<lambda>p. (paNodeID p, pre_outputs p)) (doPreAggregations doc))"

definition reads_outputs :: "Document \<Rightarrow> DatasetExpression \<Rightarrow> bool" where
  "reads_outputs doc e \<longleftrightarrow> list_all (\<lambda>x. deType x = TyFieldRef \<longrightarrow>
     (case last_outputs doc (deNodeID x) of None \<Rightarrow> True | Some fs \<Rightarrow> deField x \<in> set fs)) (subexpressions e)"

definition preaggregations_valid :: "unicode \<Rightarrow> Document \<Rightarrow> bool" where
  "preaggregations_valid u doc \<longleftrightarrow> distinct (map paID (doPreAggregations doc)) \<and> distinct (map paNodeID (doPreAggregations doc)) \<and>
     list_all (preaggregation_valid u doc (node_projections doc) (node_ids doc) (parameter_codes doc)) (doPreAggregations doc) \<and>
     list_all (\<lambda>f. reads_outputs doc (dfExpression f)) (doFields doc) \<and> list_all (\<lambda>f. reads_outputs doc (dflExpression f)) (doHaving doc) \<and>
     list_all (\<lambda>f. list_all (\<lambda>x. deType x = TyFieldRef \<longrightarrow> deNodeID x \<notin> set (map paNodeID (doPreAggregations doc)))
       (subexpressions (dflExpression f))) (doFilters doc)"

section \<open>Output\<close>

definition parameters_valid :: "Document \<Rightarrow> bool" where
  "parameters_valid doc \<longleftrightarrow> distinct (parameter_codes doc) \<and>
     list_all (\<lambda>p. identifierPattern (dpCode p) \<and> dpName p \<noteq> [] \<and> dpDataType p \<in> set data_types) (doParameters doc)"

definition field_aggregation :: "DatasetField \<Rightarrow> expressionAggregation" where
  "field_aggregation f = analyzeExpressionAggregation (dfExpression f) 0"

definition field_valid :: "Document \<Rightarrow> DatasetField \<Rightarrow> bool" where
  "field_valid doc f \<longleftrightarrow> identifierPattern (dfID f) \<and> identifierPattern (dfCode f) \<and> dfName f \<noteq> [] \<and>
     dfRole f \<in> set [''DIMENSION'', ''MEASURE'', ''ATTRIBUTE'', ''TIME'', ''IDENTIFIER''] \<and> dfCanonicalType f \<in> set data_types \<and>
     (dfSensitivityLevel f = [] \<or> dfSensitivityLevel f \<in> set [''PUBLIC'', ''INTERNAL'', ''CONFIDENTIAL'', ''RESTRICTED'']) \<and>
     validateExpression (Some (node_ids doc)) (Some (parameter_codes doc)) (dfExpression f) \<and>
     \<not> (deType (dfExpression f) \<noteq> TyWindow \<and> expressionHasWindow (dfExpression f)) \<and>
     \<not> nestedAggregate (field_aggregation f) \<and> \<not> (hasAggregate (field_aggregation f) \<and> hasFreeField (field_aggregation f))"

definition fields_valid :: "Document \<Rightarrow> bool" where
  "fields_valid doc \<longleftrightarrow> doFields doc \<noteq> [] \<and> distinct (map dfID (doFields doc)) \<and> distinct (map dfCode (doFields doc)) \<and>
     list_all (field_valid doc) (doFields doc)"

definition filters_valid :: "Document \<Rightarrow> bool" where
  "filters_valid doc \<longleftrightarrow> distinct (map dflID (doFilters doc @ doHaving doc)) \<and>
     list_all (validateFilter ''PRE_AGGREGATION'' (node_ids doc) (parameter_codes doc)) (doFilters doc) \<and>
     list_all (validateFilter ''POST_AGGREGATION'' (node_ids doc) (parameter_codes doc)) (doHaving doc)"

definition grouping_valid :: "Document \<Rightarrow> bool" where
  "grouping_valid doc \<longleftrightarrow> validateGroupByMode (doGroupByMode doc) (doGroupBy doc) (doGroupingSets doc) \<and>
     list_all (\<lambda>i. i \<in> set (map dfID (doFields doc))) (doGroupBy doc) \<and> distinct (doGroupBy doc) \<and>
     (let output = list_ex (\<lambda>f. hasAggregate (field_aggregation f)) (doFields doc) in
      list_all (\<lambda>f. let a = field_aggregation f in \<not> (dfID f \<in> set (doGroupBy doc) \<and> hasAggregate a) \<and>
        \<not> (output \<and> \<not> hasAggregate a \<and> hasFreeField a \<and> dfID f \<notin> set (doGroupBy doc))) (doFields doc))"

definition sorts_valid :: "Document \<Rightarrow> bool" where
  "sorts_valid doc \<longleftrightarrow> distinct (map dsFieldID (doSorts doc)) \<and>
     list_all (\<lambda>s. dsFieldID s \<in> set (map dfID (doFields doc)) \<and> dsDirection s \<in> set [''ASC'', ''DESC''] \<and>
       (dsNulls s = [] \<or> dsNulls s \<in> set [''FIRST'', ''LAST''])) (doSorts doc)"

definition grain_valid :: "Document \<Rightarrow> bool" where
  "grain_valid doc \<longleftrightarrow> (let g = doOutputGrain doc in ogDescription g \<noteq> [] \<and>
     (ogKeyFields g \<noteq> [] \<or> dcLayer (doDataset doc) \<in> set [LayerODS, LayerDWD] \<or> doRuntimeRollup doc) \<and>
     list_all (\<lambda>c. c \<in> set (map dfCode (doFields doc))) (ogKeyFields g) \<and> distinct (ogKeyFields g) \<and>
     (ogTimeField g = [] \<or> ogTimeField g \<in> set (map dfCode (doFields doc))) \<and>
     (ogDefaultTimeGrain g = [] \<or> ogDefaultTimeGrain g \<in> set time_grains))"

section \<open>The document\<close>

definition descriptor_valid :: "(string \<Rightarrow> bool) \<Rightarrow> Document \<Rightarrow> bool" where
  "descriptor_valid canonicalUUID doc \<longleftrightarrow> (let d = doDataset doc in doDSLVersion doc = ''1.0'' \<and> identifierPattern (dcCode d) \<and> dcName d \<noteq> [] \<and>
     validateClassification (dcDomain d) \<and> validateClassification (dcSubject d) \<and> dcType d \<in> set [''SINGLE_SOURCE'', ''CROSS_SOURCE''] \<and>
     layer_valid (dcLayer d) \<and> validateLayerContract doc \<and>
     (dcSourceMode d = [] \<or> dcSourceMode d = ''PRE_AGGREGATED'') \<and>
     \<not> (dcSourceMode d = ''PRE_AGGREGATED'' \<and> (dcLayer d \<noteq> LayerDWS \<or> lineage doc \<noteq> LineageSource)) \<and>
     (dcSemanticContractVersion d = [] \<or> dcSemanticContractVersion d = ''1.0'') \<and>
     (dcConsumerContractID d = [] \<or> canonicalUUID (dcConsumerContractID d)))"

definition with_layer :: "Document \<Rightarrow> Document" where
  "with_layer doc = (if dcLayer (doDataset doc) = OtherLayer [] \<and> \<not> doLayerSpecified doc
     then doc\<lparr> doDataset := (doDataset doc)\<lparr> dcLayer := InferLayer doc \<rparr> \<rparr> else doc)"

definition document_valid :: "unicode \<Rightarrow> (string \<Rightarrow> bool) \<Rightarrow> Document \<Rightarrow> bool" where
  "document_valid u canonicalUUID doc \<longleftrightarrow> descriptor_valid canonicalUUID doc \<and> validateDesigner (doDesigner doc) \<and> nodes_valid u doc \<and>
     sources_valid doc \<and> joins_valid doc \<and>
     validateTransforms u (doTransforms doc) (node_ids doc) (map djID (doJoins doc)) (parameter_codes doc) \<and>
     preaggregations_valid u doc \<and> validateJoinGraph (doNodes doc) (doJoins doc) \<and> parameters_valid doc \<and> fields_valid doc \<and>
     filters_valid doc \<and> grouping_valid doc \<and> sorts_valid doc \<and> grain_valid doc \<and> validateSemanticContracts doc \<and>
     validateExecutionPolicy (doExecutionPolicy doc)"

definition Validate :: "unicode \<Rightarrow> (string \<Rightarrow> bool) \<Rightarrow> Document \<Rightarrow> bool option" where
  "Validate u canonicalUUID doc = map_option (\<lambda>refs. refs \<and> document_valid u canonicalUUID (with_layer doc)) (validateProjectedFieldRefs doc)"

end
