(* ===== verification/DatasetGraph.thy ===== *)
theory DatasetGraph imports DatasetValidate QueryJoins begin

text \<open>
  Graphs in a dataset document: the search of \<open>validateJoinGraph\<close> finds exactly what the joins connect, and
  connected joins can be compiled exactly when they form a tree directed away from its root. Then the
  groups of a document: the selections of dimensions that a cube or grouping sets are expanded into are
  those the document asks for, each once, and few.
\<close>

section \<open>Connection\<close>

definition join_edges :: "DatasetJoin list \<Rightarrow> (string \<times> string) set" where
  "join_edges js = (\<lambda>j. (djLeftNodeID j, djRightNodeID j)) ` set js"

abbreviation connects :: "DatasetJoin list \<Rightarrow> (string \<times> string) set" where
  "connects js \<equiv> (join_edges js \<union> (join_edges js)\<inverse>)\<^sup>*"

lemma adjacent_edges: "m \<in> set (adjacent js n) \<longleftrightarrow> (n, m) \<in> join_edges js \<union> (join_edges js)\<inverse>"
  by (auto simp: adjacent_nodes join_edges_def)

lemma discover_distinct: "distinct seen \<Longrightarrow> discover seen queue ns = (seen', queue') \<Longrightarrow> distinct seen'"
  by (induction seen queue ns rule: discover.induct) (auto split: if_splits)

text \<open>Every node that is seen and not in the queue has all its neighbours seen.\<close>

lemma search_joins_closed:
  assumes "distinct seen" "set queue \<subseteq> set seen" "\<forall>n \<in> set seen - set queue. set (adjacent js n) \<subseteq> set seen"
  shows "distinct (search_joins js seen queue) \<and> set seen \<subseteq> set (search_joins js seen queue) \<and>
    (\<forall>n \<in> set (search_joins js seen queue). set (adjacent js n) \<subseteq> set (search_joins js seen queue)) \<and>
    (\<forall>n \<in> set (search_joins js seen queue). \<exists>m \<in> set seen. (m, n) \<in> connects js)"
  using assms
proof (induction js seen queue rule: search_joins.induct)
  case (2 js seen current queue)
  obtain seen' queue' where d: "discover seen queue (adjacent js current) = (seen', queue')" by (cases "discover seen queue (adjacent js current)")
  have s: "set seen' = set seen \<union> set (adjacent js current)" "set queue' = set queue \<union> (set (adjacent js current) - set seen)"
    using discover_seen [of seen queue "adjacent js current"] discover_queue [of seen queue "adjacent js current"] d by simp_all
  have "distinct seen'" using discover_distinct "2.prems"(1) d by blast
  moreover have "set queue' \<subseteq> set seen'" using "2.prems"(2) s by auto
  moreover have "\<forall>n \<in> set seen' - set queue'. set (adjacent js n) \<subseteq> set seen'"
  proof
    fix n assume n: "n \<in> set seen' - set queue'"
    then have "n \<in> set seen" "n \<notin> set queue" using s by auto
    then show "set (adjacent js n) \<subseteq> set seen'" using "2.prems"(3) s by (cases "n = current") auto
  qed
  ultimately have IH: "distinct (search_joins js seen' queue') \<and> set seen' \<subseteq> set (search_joins js seen' queue') \<and>
      (\<forall>n \<in> set (search_joins js seen' queue'). set (adjacent js n) \<subseteq> set (search_joins js seen' queue')) \<and>
      (\<forall>n \<in> set (search_joins js seen' queue'). \<exists>m \<in> set seen'. (m, n) \<in> connects js)" (is "_ \<and> _ \<and> _ \<and> ?reach")
    using "2.IH" [OF d [symmetric]] by blast
  have "\<exists>m \<in> set seen. (m, n) \<in> connects js" if m: "m' \<in> set seen'" "(m', n) \<in> connects js" for n m'
  proof (cases "m' \<in> set seen")
    case False
    then have "(current, m') \<in> join_edges js \<union> (join_edges js)\<inverse>" using m(1) s adjacent_edges by auto
    then have "(current, n) \<in> connects js" using m(2) by (rule converse_rtrancl_into_rtrancl)
    then show ?thesis using "2.prems"(2) by auto
  qed (use m in blast)
  then have "\<forall>n \<in> set (search_joins js seen' queue'). \<exists>m \<in> set seen. (m, n) \<in> connects js" using IH by blast
  then show ?case using IH s by (simp add: d)
qed auto

lemma search_joins_exact: "set (search_joins js [start] [start]) = {n. (start, n) \<in> connects js}" "distinct (search_joins js [start] [start])"
proof -
  let ?S = "search_joins js [start] [start]"
  have c: "distinct ?S" "start \<in> set ?S" "\<forall>n \<in> set ?S. set (adjacent js n) \<subseteq> set ?S" "\<forall>n \<in> set ?S. (start, n) \<in> connects js"
    using search_joins_closed [of "[start]" "[start]" js] by auto
  have "n \<in> set ?S" if "(start, n) \<in> connects js" for n
    using that
  proof induction
    case (step m n)
    then have "n \<in> set (adjacent js m)" using adjacent_edges by blast
    then show ?case using c(3) step.IH by blast
  qed (rule c(2))
  then show "set ?S = {n. (start, n) \<in> connects js}" using c(4) by blast
  show "distinct ?S" by (rule c(1))
qed

lemma connects_inside: "(start, n) \<in> connects js \<Longrightarrow> start \<in> V \<Longrightarrow>
    \<forall>j \<in> set js. djLeftNodeID j \<in> V \<and> djRightNodeID j \<in> V \<Longrightarrow> n \<in> V"
  by (induction rule: rtrancl_induct) (auto simp: join_edges_def)

lemma join_graph_exact:
  assumes "nodes \<noteq> []" "distinct (map ndID nodes)"
    "\<forall>j \<in> set js. djLeftNodeID j \<in> set (map ndID nodes) \<and> djRightNodeID j \<in> set (map ndID nodes)"
  shows "validateJoinGraph nodes js \<longleftrightarrow> (\<forall>n \<in> set nodes. (ndID (hd nodes), ndID n) \<in> connects js)"
proof -
  let ?base = "ndID (hd nodes)" and ?V = "set (map ndID nodes)"
  let ?S = "search_joins js [?base] [?base]"
  have S: "set ?S = {n. (?base, n) \<in> connects js}" "distinct ?S" by (rule search_joins_exact)+
  have r: "?base \<in> ?V" using assms(1) by simp
  then have sub: "set ?S \<subseteq> ?V" using S(1) connects_inside [OF _ r assms(3)] by auto
  have card: "card ?V = length nodes" using distinct_card [OF assms(2)] by simp
  have "validateJoinGraph nodes js \<longleftrightarrow> length nodes \<le> 1 \<or> card (set ?S) = card ?V"
    using distinct_card [OF S(2)] card by (simp add: validateJoinGraph_def)
  also have "\<dots> \<longleftrightarrow> length nodes \<le> 1 \<or> set ?S = ?V" using sub card_subset_eq [of ?V "set ?S"] by auto
  also have "\<dots> \<longleftrightarrow> set ?S = ?V"
  proof
    assume "length nodes \<le> 1 \<or> set ?S = ?V"
    moreover have "set ?S = ?V" if "length nodes \<le> 1"
    proof -
      obtain n ns where n: "nodes = n # ns" using assms(1) by (cases nodes) auto
      then have "nodes = [n]" using that by simp
      then show ?thesis using sub S(1) by auto
    qed
    ultimately show "set ?S = ?V" by blast
  qed simp
  also have "\<dots> \<longleftrightarrow> (\<forall>n \<in> set nodes. (?base, ndID n) \<in> connects js)" using sub S(1) by auto
  finally show ?thesis .
qed

section \<open>Trees\<close>

lemma connected_order_from:
  assumes "distinct (map djRightNodeID js)" "start \<notin> djRightNodeID ` set js" "\<forall>j \<in> set js. (start, djLeftNodeID j) \<in> connects js"
  shows "\<exists>js'. mset js' = mset js \<and> connected_order [start] js'"
proof (rule ccontr)
  assume no: "\<not> (\<exists>js'. mset js' = mset js \<and> connected_order [start] js')"
  then have "join_order [start] js = None" using join_order_sound [of "[start]" js] by (cases "join_order [start] js") auto
  then obtain taken left where m: "mset js = mset taken + mset left" "left \<noteq> []"
      "connected_order [start] taken"
      "\<forall>j \<in> set left. djLeftNodeID j \<notin> insert start (djRightNodeID ` set taken) \<or> djRightNodeID j \<in> insert start (djRightNodeID ` set taken)"
    using join_order_stuck [of "[start]" js] by fastforce
  let ?S = "insert start (djRightNodeID ` set taken)"
  have e: "mset js = mset (taken @ left)" using m(1) by simp
  have set: "set js = set taken \<union> set left" using mset_eq_setD [OF e] by simp
  have inj: "inj_on djRightNodeID (set js)" "distinct js" using assms(1) by (simp_all add: distinct_map)
  have disj: "set taken \<inter> set left = {}" using mset_eq_imp_distinct_iff [OF e] inj(2) by simp
  have out: "djRightNodeID j \<notin> ?S" if j: "j \<in> set left" for j
  proof
    assume "djRightNodeID j \<in> ?S"
    then obtain t where "t \<in> set taken" "djRightNodeID t = djRightNodeID j" using assms(2) set j by auto
    then show False using inj_onD [OF inj(1), of t j] set disj j by auto
  qed
  then have left_out: "\<forall>j \<in> set left. djLeftNodeID j \<notin> ?S" using m(4) by blast
  have "n \<in> ?S" if "(start, n) \<in> connects js" for n
    using that
  proof induction
    case (step m n)
    then obtain j where j: "j \<in> set js" "djLeftNodeID j = m \<and> djRightNodeID j = n \<or> djRightNodeID j = m \<and> djLeftNodeID j = n"
      by (auto simp: join_edges_def)
    have "j \<in> set taken"
    proof (rule ccontr)
      assume "j \<notin> set taken"
      then have "j \<in> set left" using j(1) set by simp
      then show False using j(2) step.IH left_out out by blast
    qed
    show ?case
    proof (cases "n = start")
      case False
      then show ?thesis using j(2) \<open>j \<in> set taken\<close> connected_order_lefts [OF m(3)] by auto
    qed simp
  qed simp
  then show False using left_out m(2) assms(3) set by (cases left) auto
qed

section \<open>Valid documents\<close>

lemma with_layer_parts [simp]:
  "doNodes (with_layer doc) = doNodes doc" "doJoins (with_layer doc) = doJoins doc" "doTransforms (with_layer doc) = doTransforms doc"
  "doPreAggregations (with_layer doc) = doPreAggregations doc" "doFields (with_layer doc) = doFields doc"
  "doParameters (with_layer doc) = doParameters doc" "doGroupBy (with_layer doc) = doGroupBy doc" "doGroupByMode (with_layer doc) = doGroupByMode doc"
  "doGroupingSets (with_layer doc) = doGroupingSets doc" "doDesigner (with_layer doc) = doDesigner doc" "doFilters (with_layer doc) = doFilters doc"
  "doHaving (with_layer doc) = doHaving doc" "doSorts (with_layer doc) = doSorts doc" "doExecutionPolicy (with_layer doc) = doExecutionPolicy doc"
  by (simp_all add: with_layer_def)

lemma with_layer_names [simp]: "node_ids (with_layer doc) = node_ids doc" "parameter_codes (with_layer doc) = parameter_codes doc"
  by (simp_all add: node_ids_def parameter_codes_def)

lemma with_layer_checks [simp]:
  "dataset_node_valid u (with_layer doc) = dataset_node_valid u doc" "condition_valid (with_layer doc) = condition_valid doc"
  "join_valid (with_layer doc) = join_valid doc" "field_valid (with_layer doc) = field_valid doc"
proof -
  show c: "condition_valid (with_layer doc) = condition_valid doc" by (intro ext) (simp add: condition_valid_def)
  show "dataset_node_valid u (with_layer doc) = dataset_node_valid u doc" "join_valid (with_layer doc) = join_valid doc"
    "field_valid (with_layer doc) = field_valid doc"
    by (simp_all add: fun_eq_iff dataset_node_valid_def join_valid_def field_valid_def c)
qed

lemma Validate_True: "Validate u canonicalUUID doc = Some True \<longleftrightarrow>
    document_valid u canonicalUUID (with_layer doc) \<and> validateProjectedFieldRefs doc = Some True"
  by (auto simp: Validate_def)

lemma document_parts:
  assumes "Validate u canonicalUUID doc = Some True"
  shows "nodes_valid u doc" "joins_valid doc" "validateJoinGraph (doNodes doc) (doJoins doc)" "validateDesigner (doDesigner doc)" "fields_valid doc"
    "validateTransforms u (doTransforms doc) (node_ids doc) (map djID (doJoins doc)) (parameter_codes doc)" "grouping_valid doc"
    "validateExecutionPolicy (doExecutionPolicy doc)"
proof -
  have d: "document_valid u canonicalUUID (with_layer doc)" using assms by (simp add: Validate_True)
  have "nodes_valid u (with_layer doc)" "joins_valid (with_layer doc)" "fields_valid (with_layer doc)" "grouping_valid (with_layer doc)"
    using d unfolding document_valid_def by blast+
  then show "nodes_valid u doc" "joins_valid doc" "fields_valid doc" "grouping_valid doc"
    by (simp_all add: nodes_valid_def joins_valid_def fields_valid_def grouping_valid_def)
  show "validateJoinGraph (doNodes doc) (doJoins doc)" "validateDesigner (doDesigner doc)"
    "validateTransforms u (doTransforms doc) (node_ids doc) (map djID (doJoins doc)) (parameter_codes doc)"
    "validateExecutionPolicy (doExecutionPolicy doc)"
    using d unfolding document_valid_def by simp_all
qed

lemma valid_nodes: "nodes_valid u doc \<Longrightarrow> doNodes doc \<noteq> [] \<and> distinct (map ndID (doNodes doc))"
  by (simp add: nodes_valid_def node_ids_def)

lemma valid_joins: "joins_valid doc \<Longrightarrow> j \<in> set (doJoins doc) \<Longrightarrow> djLeftNodeID j \<in> set (map ndID (doNodes doc)) \<and> djRightNodeID j \<in> set (map ndID (doNodes doc))"
  by (simp add: joins_valid_def join_valid_def list_all_iff node_ids_def)

section \<open>The order of valid joins\<close>

lemma connects_back: "(m, n) \<in> connects js \<Longrightarrow> (n, m) \<in> connects js"
proof (induction rule: rtrancl_induct)
  case (step n k)
  then have "(k, n) \<in> join_edges js \<union> (join_edges js)\<inverse>" by blast
  then show ?case using step.IH by (rule converse_rtrancl_into_rtrancl)
qed simp

lemma root_node_inside: "doNodes doc \<noteq> [] \<Longrightarrow> root_node doc \<in> set (map ndID (doNodes doc))"
  by (cases "doNodes doc") (auto simp: root_node_def find_Some_iff split: option.split dest: nth_mem)

lemma root_node_free:
  assumes "distinct (map ndID (doNodes doc))" "distinct (map djRightNodeID (doJoins doc))" "length (doJoins doc) < length (doNodes doc)"
  shows "root_node doc \<notin> djRightNodeID ` set (doJoins doc)"
proof -
  have "\<not> set (map ndID (doNodes doc)) \<subseteq> set (map djRightNodeID (doJoins doc))"
    using card_mono [of "set (map djRightNodeID (doJoins doc))" "set (map ndID (doNodes doc))"] assms(3)
      distinct_card [OF assms(1)] distinct_card [OF assms(2)] by auto
  then obtain n where f: "find (\<lambda>n. ndID n \<notin> set (map djRightNodeID (doJoins doc))) (doNodes doc) = Some n"
    by (cases "find (\<lambda>n. ndID n \<notin> set (map djRightNodeID (doJoins doc))) (doNodes doc)") (auto simp: find_None_iff)
  then have "ndID n \<notin> set (map djRightNodeID (doJoins doc))" unfolding find_Some_iff by blast
  then show ?thesis unfolding root_node_def f by simp
qed

lemma valid_joins_order:
  assumes "nodes_valid u doc" "joins_valid doc" "validateJoinGraph (doNodes doc) (doJoins doc)"
  shows "join_order [root_node doc] (doJoins doc) \<noteq> None \<longleftrightarrow>
    distinct (map djRightNodeID (doJoins doc)) \<and> length (doJoins doc) < length (doNodes doc)"
proof
  let ?root = "root_node doc" and ?js = "doJoins doc" and ?V = "set (map ndID (doNodes doc))"
  note nodes = valid_nodes [OF assms(1)]
  have root: "?root \<in> ?V" using root_node_inside nodes by blast
  have inside: "\<forall>j \<in> set ?js. djLeftNodeID j \<in> ?V \<and> djRightNodeID j \<in> ?V" using valid_joins [OF assms(2)] by blast
  {
    assume "join_order [?root] ?js \<noteq> None"
    then obtain js' where js': "mset js' = mset ?js" "connected_order [?root] js'" using join_order_sound by blast
    have r: "distinct (map djRightNodeID js')" "?root \<notin> set (map djRightNodeID js')" using connected_order_rights [OF js'(2)] by simp_all
    have m: "mset (map djRightNodeID js') = mset (map djRightNodeID ?js)" using js'(1) by simp
    have d: "distinct (map djRightNodeID ?js)" using r(1) mset_eq_imp_distinct_iff [OF m] by blast
    have "set (map djRightNodeID ?js) \<subset> ?V" using mset_eq_setD [OF m] r(2) root inside by auto
    then have "card (set (map djRightNodeID ?js)) < card ?V" by (intro psubset_card_mono) simp_all
    then show "distinct (map djRightNodeID ?js) \<and> length ?js < length (doNodes doc)"
      using d distinct_card [OF d] distinct_card nodes by (metis length_map)
  next
    assume a: "distinct (map djRightNodeID ?js) \<and> length ?js < length (doNodes doc)"
    have c: "(ndID (hd (doNodes doc)), n) \<in> connects ?js" if "n \<in> ?V" for n
      using join_graph_exact [OF _ _ inside] nodes assms(3) that by auto
    have "\<forall>j \<in> set ?js. (?root, djLeftNodeID j) \<in> connects ?js"
      using inside rtrancl_trans [OF connects_back [OF c [OF root]] c] by blast
    then obtain js' where "mset js' = mset ?js" "connected_order [?root] js'"
      using connected_order_from [of ?js ?root] root_node_free a nodes by blast
    then show "join_order [?root] ?js \<noteq> None" by (rule join_order_complete)
  }
qed

section \<open>Cycles\<close>

lemma transform_graph_keys: "transform_graph ts n \<noteq> [] \<Longrightarrow> n \<in> set (map tfID ts)"
  by (auto simp: transform_graph_def last_entry_def dest!: map_of_SomeD split: option.splits)

lemma transform_cycle_exact: "transform_cycle ts = Some (cyclic (transform_graph ts))"
  unfolding transform_cycle_def by (rule cycle_decided) (rule transform_graph_keys)

lemma items_absent: "map_of designer k = None \<Longrightarrow> items_at designer k = []"
  by (simp add: items_at_def designerList_def)

lemma designer_acyclic: "validateDesigner (Some designer) \<Longrightarrow> \<not> cyclic (designer_graph designer)"
proof -
  assume "validateDesigner (Some designer)"
  then have v: "validateDesignerDAG designer" by (simp add: validateDesigner_def)
  show ?thesis
  proof (cases "map_of designer ''joins'' = None \<and> map_of designer ''groups'' = None \<and>
      map_of designer ''transforms'' = None \<and> map_of designer ''end'' = None")
    case True
    then have "inner_items designer = []" by (simp add: inner_items_def items_absent end_items_def designerObject_def)
    then have "designer_graph designer n = []" for n by (simp add: designer_graph_def designer_inputs_def)
    then show ?thesis by (auto simp: cyclic_def edges_def dest!: tranclD)
  next
    case False
    then have "hasInteractionCycle (designer_graph designer) (existing_keys designer) = Some False"
      using v by (auto simp: validateDesignerDAG_def split: if_splits)
    then show ?thesis by (simp add: designer_cycle)
  qed
qed

section \<open>Cubes\<close>

lemma cube_masks_exact: "set (cube_masks n) = {bs. length bs = n}" "distinct (cube_masks n)" "length (cube_masks n) = 2 ^ n"
proof -
  show s: "set (cube_masks n) = {bs. length bs = n}"
  proof (induction n)
    case (Suc n)
    have "bs \<in> set (cube_masks (Suc n)) \<longleftrightarrow> length bs = Suc n" for bs
      by (cases bs rule: rev_cases) (auto simp: Suc image_iff)
    then show ?case by blast
  qed simp
  show l: "length (cube_masks n) = 2 ^ n" by (induction n) simp_all
  have "card {bs :: bool list. length bs = n} = 2 ^ n" using card_lists_length_eq [of "UNIV :: bool set" n] by simp
  then show "distinct (cube_masks n)" using s l by (intro card_distinct) simp
qed

section \<open>Grouping sets\<close>

lemma index_of_some: "index_of xs x \<noteq> None \<longleftrightarrow> x \<in> set xs"
proof -
  have "index_of xs x = None \<longleftrightarrow> x \<notin> fst ` set (zip xs [0..<length xs])"
    unfolding index_of_def last_entry_def map_of_eq_None_iff by simp
  moreover have "fst ` set (zip xs [0..<length xs]) = set xs" by (metis length_upt diff_zero map_fst_zip list.set_map)
  ultimately show ?thesis by simp
qed

lemma index_of_nth: "index_of xs x = Some i \<Longrightarrow> i < length xs \<and> xs ! i = x"
  unfolding index_of_def last_entry_def by (auto dest!: map_of_SomeD simp: set_zip)

definition set_mask :: "string list \<Rightarrow> string list \<Rightarrow> bool list" where
  "set_mask dims s = map (\<lambda>i. Some i \<in> set (map (index_of dims) s)) [0..<length dims]"

lemma set_mask_exact:
  assumes "set s \<subseteq> set dims" "set t \<subseteq> set dims" "set_mask dims s = set_mask dims t"
  shows "set s = set t"
proof -
  have i: "Some i \<in> set (map (index_of dims) s) \<longleftrightarrow> Some i \<in> set (map (index_of dims) t)" if "i < length dims" for i
    using arg_cong [OF assms(3), of "\<lambda>m. m ! i"] that by (simp add: set_mask_def)
  have "x \<in> set b" if "x \<in> set a" "set a \<subseteq> set dims"
      "\<And>i. i < length dims \<Longrightarrow> Some i \<in> set (map (index_of dims) a) \<Longrightarrow> Some i \<in> set (map (index_of dims) b)" for x a b
  proof -
    obtain i where i: "index_of dims x = Some i" using index_of_some [of dims x] \<open>x \<in> set a\<close> \<open>set a \<subseteq> set dims\<close> by blast
    then have "Some i \<in> set (map (index_of dims) b)" using that(3) index_of_nth [OF i] \<open>x \<in> set a\<close> by force
    then obtain y where "y \<in> set b" "index_of dims y = Some i" by auto
    then show ?thesis using index_of_nth [OF i] index_of_nth by auto
  qed
  then show ?thesis using i assms(1,2) by blast
qed

lemma sorted_sets: "distinct s \<Longrightarrow> distinct t \<Longrightarrow> set s = set t \<Longrightarrow> sort_slice (<) s = sort_slice (<) (t :: string list)"
  by (rule value_order.sort_slice_unique) (simp_all add: value_order.sorted_by_sort_slice set_eq_iff_mset_eq_distinct)

lemma grouping_sets_masks:
  assumes "grouping_sets_valid dims sets"
  shows "distinct (map (set_mask dims) sets)"
proof (rule distinct_map [THEN iffD2], rule conjI)
  have v: "distinct (map (\<lambda>s. nul_join (sort_slice (<) s)) sets)" "\<forall>s \<in> set sets. set s \<subseteq> set dims \<and> distinct s"
    using assms by (auto simp: grouping_sets_valid_def list_all_iff)
  show "distinct sets" using v(1) by (rule distinct_map [THEN iffD1, THEN conjunct1])
  have inj: "inj_on (\<lambda>s. nul_join (sort_slice (<) s)) (set sets)" using v(1) by (simp add: distinct_map)
  show "inj_on (set_mask dims) (set sets)"
  proof (rule inj_onI)
    fix s t assume st: "s \<in> set sets" "t \<in> set sets" "set_mask dims s = set_mask dims t"
    then have "sort_slice (<) s = sort_slice (<) t" using v(2) set_mask_exact [of s dims t] by (intro sorted_sets) auto
    then show "s = t" using inj_onD [OF inj, of s t] st by simp
  qed
qed

lemma selections_exact:
  assumes "validateGroupByMode mode dims sets"
  obtains sels where "groupingSelectionsForFields mode dims sets = Some sels" "distinct sels" "1 \<le> length sels" "length sels \<le> 256"
    "\<forall>s \<in> set sels. length s = length dims"
proof (cases mode)
  case GroupByModeCube
  then have d: "length dims \<le> 8" using assms by (simp add: validateGroupByMode_def)
  have "(2::nat) ^ length dims \<le> 2 ^ 8" using d by (intro power_increasing) simp_all
  then show thesis
    using that [of "cube_masks (length dims)"] GroupByModeCube cube_masks_exact [of "length dims"] by (simp add: groupingSelectionsForFields_def)
next
  case GroupByModeSets
  then have v: "grouping_sets_valid dims sets" using assms by (simp add: validateGroupByMode_def)
  have l: "1 \<le> length sets" "length sets \<le> 64" using v by (auto simp: grouping_sets_valid_def Suc_le_eq)
  have k: "list_all (list_all (\<lambda>d. index_of dims d \<noteq> None)) sets"
    using v index_of_some [of dims] by (auto simp: grouping_sets_valid_def list_all_iff)
  have "groupingSelectionsForFields mode dims sets = Some (map (set_mask dims) sets)"
    using GroupByModeSets k by (simp add: groupingSelectionsForFields_def set_mask_def [abs_def])
  then show thesis using that grouping_sets_masks [OF v] l by (auto simp: set_mask_def)
qed (use that in \<open>simp_all add: groupingSelectionsForFields_def\<close>)

end
