(* ===== verification/DatasetPlan.thy ===== *)
theory DatasetPlan imports DatasetValidate begin

text \<open>
  The logical plan of a dataset document and its preparation for storage (\<open>BuildLogicalPlan\<close>,
  \<open>SortedDependencies\<close>, \<open>Prepare\<close> in \<open>dataset/dsl.go\<close>, \<open>PrepareDocument\<close> in \<open>runtime_rollup.go\<close>). The stored JSON
  is the document it encodes; its hashes are left out.
\<close>

section \<open>The plan\<close>

record PlanStep =
  psID :: string
  psKind :: string
  psInputs :: "string list"
  psFields :: "string list"

record LogicalPlan =
  lpDSLVersion :: string
  lpSteps :: "PlanStep list"
  lpOutputFields :: "string list"
  lpParameterCodes :: "string list"
  lpOutputGrain :: OutputGrain

definition groupingPlanKind :: "string \<Rightarrow> GroupByMode \<Rightarrow> string" where
  "groupingPlanKind base mode = (case mode of GroupByModeCube \<Rightarrow> base @ ''_CUBE'' | GroupByModeRollup \<Rightarrow> base @ ''_ROLLUP''
     | GroupByModeSets \<Rightarrow> base @ ''_GROUPING_SETS'' | _ \<Rightarrow> base)"

fun comma_join :: "string list \<Rightarrow> string" where
  "comma_join [] = []"
| "comma_join [s] = s"
| "comma_join (s # ss) = s @ '','' @ comma_join ss"

definition set_fields :: "GroupByMode \<Rightarrow> string list list \<Rightarrow> string list" where
  "set_fields mode sets = (if mode = GroupByModeSets then map (\<lambda>s. ''SET:'' @ comma_join s) sets else [])"

definition preaggregation_step :: "PreAggregation \<Rightarrow> PlanStep" where
  "preaggregation_step p = \<lparr> psID = paID p, psKind = groupingPlanKind ''PRE_AGGREGATE'' (paGroupByMode p), psInputs = [paNodeID p],
     psFields = map pagField (paGroupBy p) @
       map (\<lambda>m. pamFunction m @ (if pamCountRows m then '':*:'' else '':'') @ pamField m) (paMetrics p) @
       set_fields (paGroupByMode p) (paGroupingSets p) \<rparr>"

definition step_if :: "bool \<Rightarrow> string \<Rightarrow> string \<Rightarrow> string list \<Rightarrow> PlanStep list" where
  "step_if b i kind fs = (if b then [\<lparr> psID = i, psKind = kind, psInputs = [], psFields = fs \<rparr>] else [])"

definition plan_steps :: "Document \<Rightarrow> PlanStep list" where
  "plan_steps doc =
     (let windows = map dfCode (filter (\<lambda>f. deType (dfExpression f) = TyWindow) (doFields doc)) in
      map (\<lambda>n. \<lparr> psID = ndID n, psKind = ''SCAN'', psInputs = [], psFields = ndProjection n \<rparr>) (doNodes doc) @
      map preaggregation_step (doPreAggregations doc) @
      map (\<lambda>j. \<lparr> psID = djID j, psKind = ''JOIN_'' @ djJoinType j, psInputs = [djLeftNodeID j, djRightNodeID j], psFields = [] \<rparr>) (doJoins doc) @
      map (\<lambda>t. \<lparr> psID = tfID t, psKind = ''TRANSFORM_'' @ tfComponentType t, psInputs = [tfInputKind t @ '':'' @ tfInputID t],
        psFields = map (\<lambda>r. toCode (trlOutput r)) (tfRules t) \<rparr>) (doTransforms doc) @
      step_if (doFilters doc \<noteq> []) ''pre_aggregation_filters'' ''FILTER'' [] @
      step_if (doGroupBy doc \<noteq> []) ''aggregation'' (groupingPlanKind ''AGGREGATE'' (doGroupByMode doc))
        (doGroupBy doc @ set_fields (doGroupByMode doc) (doGroupingSets doc)) @
      step_if (doHaving doc \<noteq> []) ''post_aggregation_filters'' ''HAVING'' [] @
      step_if (windows \<noteq> []) ''window'' ''WINDOW'' windows @
      step_if (doDistinct doc) ''output_deduplication'' ''DEDUPLICATE'' [] @
      step_if (doSorts doc \<noteq> []) ''sort'' ''SORT'' (map (\<lambda>s. dsFieldID s @ '':'' @ dsDirection s) (doSorts doc)))"

definition BuildLogicalPlan :: "Document \<Rightarrow> LogicalPlan" where
  "BuildLogicalPlan doc = \<lparr> lpDSLVersion = ''1.0'', lpSteps = plan_steps doc, lpOutputFields = map dfCode (doFields doc),
     lpParameterCodes = map dpCode (doParameters doc), lpOutputGrain = doOutputGrain doc \<rparr>"

section \<open>Dependencies\<close>

record DependencyRef =
  drType :: string
  drID :: string

definition node_dependencies :: "DatasetNode \<Rightarrow> DependencyRef list" where
  "node_dependencies n = map (\<lambda>(t, i). \<lparr> drType = t, drID = i \<rparr>) (filter (\<lambda>(t, i). i \<noteq> [])
     [(''TABLE'', ndTableID n), (''FILE_VERSION'', ndFileVersionID n), (''DATASET_VERSION'', ndDatasetVersionID n)])"

text \<open>A reference is known by its type, a colon and its identifier; a type has no colon.\<close>

definition SortedDependencies :: "Document \<Rightarrow> DependencyRef list" where
  "SortedDependencies doc = sort_slice (\<lambda>a b. if drType a = drType b then drID a < drID b else drType a < drType b)
     (remdups (concat (map node_dependencies (doNodes doc))))"

section \<open>Preparation\<close>

record Prepared =
  prDocument :: Document
  prDSL :: Document
  prLogicalPlan :: LogicalPlan

datatype 'a outcome = Panics | Refused | Returns 'a

definition prepared_document :: "Document \<Rightarrow> Document \<Rightarrow> Prepared" where
  "prepared_document doc dsl = \<lparr> prDocument = doc, prDSL = stored dsl, prLogicalPlan = BuildLogicalPlan doc \<rparr>"

definition checked_document :: "unicode \<Rightarrow> (string \<Rightarrow> bool) \<Rightarrow> Document \<Rightarrow> Document \<Rightarrow> Prepared outcome" where
  "checked_document u canonicalUUID doc dsl = (case Validate u canonicalUUID doc of
       None \<Rightarrow> Panics | Some ok \<Rightarrow> if ok then Returns (prepared_document doc dsl) else Refused)"

definition without_layer :: "Document \<Rightarrow> Document" where
  "without_layer doc = (if doLayerInferred doc then doc\<lparr> doDataset := (doDataset doc)\<lparr> dcLayer := OtherLayer [] \<rparr> \<rparr> else doc)"

definition Prepare :: "unicode \<Rightarrow> (string \<Rightarrow> bool) \<Rightarrow> bool \<Rightarrow> Document \<Rightarrow> Prepared outcome" where
  "Prepare u canonicalUUID layer_given decoded = (case normalize_decoded layer_given decoded of
       None \<Rightarrow> Refused | Some doc \<Rightarrow> checked_document u canonicalUUID doc (without_layer doc))"

definition PrepareDocument :: "unicode \<Rightarrow> (string \<Rightarrow> bool) \<Rightarrow> Document \<Rightarrow> Prepared outcome" where
  "PrepareDocument u canonicalUUID doc = checked_document u canonicalUUID (normalize doc) (normalize doc)"

section \<open>What is stored\<close>

lemma normalize_marks:
  "doLayerSpecified (normalize doc) = doLayerSpecified doc" "doLayerInferred (normalize doc) = doLayerInferred doc"
  "doSourcePreview (normalize doc) = doSourcePreview doc" "doRuntimeRollup (normalize doc) = doRuntimeRollup doc"
  "doDSLVersion (normalize doc) = doDSLVersion doc" "dcGrain (doDataset (normalize doc)) = dcGrain (doDataset doc)"
  by (simp_all add: normalize_def infer_layer_def normalize_parts_def normalize_descriptor_def)

definition entered :: "bool \<Rightarrow> Document \<Rightarrow> Document" where
  "entered layer_given doc = (move_grain (doc\<lparr> doLayerInferred := \<not> layer_given, doLayerSpecified := layer_given \<rparr>))\<lparr> doDSLVersion := ''1.0'' \<rparr>"

lemma normalized_entered: "normalize_decoded layer_given raw = Some doc \<Longrightarrow> doc = normalize (entered layer_given raw)"
  by (auto simp: normalize_decoded_def entered_def Let_def split: if_splits)

lemma entered_marks:
  "doLayerInferred (entered g doc) = (\<not> g)" "doLayerSpecified (entered g doc) = g" "doDSLVersion (entered g doc) = ''1.0''"
  "dcGrain (doDataset (entered g doc)) = None" "doInferredLayer (entered g doc) = doInferredLayer doc"
  "doSourcePreview (entered g doc) = doSourcePreview doc" "doRuntimeRollup (entered g doc) = doRuntimeRollup doc"
  "dcLayer (doDataset (entered g doc)) = dcLayer (doDataset doc)"
  by (auto simp: entered_def move_grain_def split: option.split)

lemma reentered:
  assumes "doDSLVersion doc = ''1.0''" "dcGrain (doDataset doc) = None"
  shows "normalize_decoded g doc = Some (normalize (doc\<lparr> doLayerInferred := \<not> g, doLayerSpecified := g \<rparr>))"
proof -
  have e: "doc\<lparr> doLayerInferred := \<not> g, doLayerSpecified := g, doDSLVersion := ''1.0'' \<rparr> = doc\<lparr> doLayerInferred := \<not> g, doLayerSpecified := g \<rparr>"
    using assms(1) by (cases doc) simp
  show ?thesis using assms(2) by (simp add: normalize_decoded_def move_grain_def assms(1) e)
qed

lemma stored_given:
  assumes "fresh True raw"
  shows "stored (without_layer (normalize (entered True raw)))\<lparr> doLayerInferred := \<not> True, doLayerSpecified := True \<rparr> = normalize (entered True raw)"
proof -
  let ?x = "entered True raw"
  have "doInferredLayer ?x = OtherLayer []" "\<not> doSourcePreview ?x" "\<not> doRuntimeRollup ?x" using assms by (simp_all add: entered_marks fresh_def)
  moreover have "doInferredLayer (normalize ?x) = doInferredLayer ?x"
    by (simp add: normalize_def infer_layer_def normalize_parts_def entered_marks)
  ultimately show ?thesis by (simp add: stored_def without_layer_def normalize_marks entered_marks)
qed

lemma stored_inferred:
  assumes "fresh False raw"
  shows "normalize (stored (without_layer (normalize (entered False raw)))\<lparr> doLayerInferred := \<not> False, doLayerSpecified := False \<rparr>) =
    normalize (entered False raw)"
proof -
  let ?x = "entered False raw" and ?l = "OtherLayer []"
  let ?np = "normalize_parts ?x"
  have np: "dcLayer (doDataset ?np) = ?l" "doLayerInferred ?np" "doInferredLayer ?np = ?l" "\<not> doSourcePreview ?np" "\<not> doRuntimeRollup ?np"
    "\<not> doLayerSpecified ?np"
    using assms normal_empty_layer [of ?x] by (simp_all add: entered_marks fresh_def) (simp_all add: normalize_parts_def entered_marks)
  have n: "normalize ?x = ?np\<lparr> doDataset := (doDataset ?np)\<lparr> dcLayer := InferLayer ?np \<rparr>, doInferredLayer := InferLayer ?np \<rparr>"
    using np by (simp add: normalize_def infer_layer_def)
  have "stored (without_layer (normalize ?x))\<lparr> doLayerInferred := True, doLayerSpecified := False \<rparr> = ?np"
    using np by (simp add: n stored_def without_layer_def)
  then show ?thesis by (simp add: normalize_def document_parts_twice)
qed

lemma prepare_returns:
  assumes "Prepare u canonicalUUID g raw = Returns p"
  obtains doc where "normalize_decoded g raw = Some doc" "Validate u canonicalUUID doc = Some True"
    "p = prepared_document doc (without_layer doc)"
  using assms by (auto simp: Prepare_def checked_document_def split: option.splits if_splits)

lemma valid_layer: "Validate u canonicalUUID doc = Some True \<Longrightarrow> layer_valid (dcLayer (doDataset (with_layer doc)))"
  by (auto simp: Validate_def document_valid_def descriptor_valid_def Let_def)

end
