(* ===== verification/DatasetProperties.thy ===== *)
theory DatasetProperties imports DatasetGraph DatasetPlan begin

text \<open>
  What the check of a dataset document promises, and what the query compiler makes of the documents it
  accepts.
\<close>

section \<open>Examples\<close>

lemma example_valid: "Validate example_unicode (\<lambda>_. True) example_document = Some True" by code_simp

text \<open>Two tables and a join between them; the document does not name its layer.\<close>

definition joined_document :: Document where
  "joined_document = example_document\<lparr>
     doNodes := [plain_node ''n1'' [''amount''] [], plain_node ''n2'' [''region''] []],
     doJoins := [\<lparr> djID = ''j1'', djLeftNodeID = ''n2'', djRightNodeID = ''n1'', djJoinType = ''INNER'', djCardinality = ''ONE_TO_ONE'',
       djRelationshipType = [], djRelationshipRole = [], djFanoutPolicy = [], djBridge = None, djTemporal = None,
       djConditions = [\<lparr> jcLeftExpression = e_field ''n2'' ''region'', jcOperator = ''EQUALS'', jcRightExpression = e_field ''n1'' ''amount'' \<rparr>],
       djManualConfirmed = False \<rparr>],
     doDataset := (doDataset example_document)\<lparr> dcLayer := OtherLayer [] \<rparr>, doLayerSpecified := False \<rparr>"

lemma joined_valid: "Validate example_unicode (\<lambda>_. True) joined_document = Some True" by code_simp

section \<open>Checking\<close>

text \<open>The check of a document always answers, except that it panics exactly when a derived table with columns names a node that the document does not have: it then writes into the columns of that node.\<close>

lemma validation_panics_exactly:
  "Validate u canonicalUUID doc = None \<longleftrightarrow> (\<exists>p \<in> set (doPreAggregations doc). pre_outputs p \<noteq> [] \<and> paNodeID p \<notin> set (node_ids doc))"
proof -
  have add: "add_outputs pre ps = None \<longleftrightarrow> (\<exists>p \<in> set pre. pre_outputs p \<noteq> [] \<and> ps (paNodeID p) = None)" for pre ps
  proof (induction pre arbitrary: ps)
    case (Cons p rest)
    show ?case
    proof (cases "pre_outputs p = [] \<or> ps (paNodeID p) = None")
      case False
      then obtain fs where fs: "ps (paNodeID p) = Some fs" "pre_outputs p \<noteq> []" by auto
      let ?ps = "ps(paNodeID p := Some (fs @ pre_outputs p))"
      have "?ps n = None \<longleftrightarrow> ps n = None" for n using fs(1) by simp
      with Cons.IH [of ?ps] have "add_outputs rest ?ps = None \<longleftrightarrow> (\<exists>p \<in> set rest. pre_outputs p \<noteq> [] \<and> ps (paNodeID p) = None)"
        by (simp del: fun_upd_apply)
      then show ?thesis using fs by (simp del: fun_upd_apply)
    qed (use Cons.IH in auto)
  qed simp
  have "node_projections doc n = None \<longleftrightarrow> n \<notin> set (node_ids doc)" for n
    by (force simp: node_projections_def last_entry_def map_of_eq_None_iff node_ids_def)
  then show ?thesis by (simp add: Validate_def validateProjectedFieldRefs_def add)
qed

text \<open>The check of the join graph is exact: over nodes and joins that are valid by themselves it passes exactly when the joins, read in either direction, connect every node to the first.\<close>

lemma join_graph_is_connected:
  assumes "nodes_valid u doc" "joins_valid doc"
  shows "validateJoinGraph (doNodes doc) (doJoins doc) \<longleftrightarrow>
    (\<forall>n \<in> set (doNodes doc). (ndID (hd (doNodes doc)), ndID n) \<in> connects (doJoins doc))"
  by (rule join_graph_exact) (use valid_nodes [OF assms(1)] valid_joins [OF assms(2)] in blast)+

lemma connected_by_order:
  assumes "connected_order [start] js" "(start, n) \<in> connects js'" "set js' = set js"
  shows "n \<in> insert start (djRightNodeID ` set js)"
  using assms(2)
proof induction
  case (step m n)
  then obtain j where "j \<in> set js" "djLeftNodeID j = n \<or> djRightNodeID j = n" using assms(3) by (auto simp: join_edges_def)
  then show ?case using connected_order_lefts [OF assms(1)] by auto
qed simp

lemma ordered_once:
  assumes "nodes_valid u doc" "joins_valid doc" "validateJoinGraph (doNodes doc) (doJoins doc)"
    "mset js = mset (doJoins doc)" "connected_order [root_node doc] js"
  shows "mset (root_node doc # map djRightNodeID js) = mset (map ndID (doNodes doc))"
proof -
  let ?root = "root_node doc" and ?V = "set (map ndID (doNodes doc))"
  note nodes = valid_nodes [OF assms(1)] and same = mset_eq_setD [OF assms(4)]
  have inside: "\<forall>j \<in> set (doJoins doc). djLeftNodeID j \<in> ?V \<and> djRightNodeID j \<in> ?V" using valid_joins [OF assms(2)] by blast
  have root: "?root \<in> ?V" using root_node_inside nodes by blast
  have c: "(ndID (hd (doNodes doc)), n) \<in> connects (doJoins doc)" if "n \<in> ?V" for n
    using join_graph_exact [OF _ _ inside] nodes assms(3) that by auto
  have "?V \<subseteq> insert ?root (djRightNodeID ` set js)"
    using connected_by_order [OF assms(5) rtrancl_trans [OF connects_back [OF c [OF root]] c]] same by auto
  moreover have "insert ?root (djRightNodeID ` set js) \<subseteq> ?V" using root inside same by auto
  ultimately have "set (?root # map djRightNodeID js) = ?V" by auto
  moreover have "distinct (?root # map djRightNodeID js)" using connected_order_rights [OF assms(5)] by auto
  ultimately show ?thesis using nodes set_eq_iff_mset_eq_distinct by blast
qed

lemma no_order_no_query:
  assumes "join_order [root_node (inDocument q)] (doJoins (inDocument q)) = None"
  shows "Compile u ps valid digest q = None"
proof -
  have "compile_outer u q' args = None" if "inDocument q' = inDocument q" for q' args
    using assms that
    by (simp add: compile_outer_def compileInner_def Let_def emit_bind_def emit_option_def emit_fail_def split: option.split)
  then show ?thesis by (auto simp: Compile_def prepared_def split: option.split)
qed

text \<open>C10: For a document that passes the check of \<open>dataset.Validate\<close>: when its joins form a tree directed away from its
  root (no two of them lead to the same node, and there are fewer joins than nodes) the compiler puts them in an
  order that takes each join once, always from a node that is in to one that is not, and reaches every
  node of the document exactly once; when they do not, there is no query for it, whatever else is given.\<close>

theorem join_order_exact:
  assumes "Validate u canonicalUUID (inDocument q) = Some True"
  shows "if distinct (map djRightNodeID (doJoins (inDocument q))) \<and> length (doJoins (inDocument q)) < length (doNodes (inDocument q))
    then \<exists>js. join_order [root_node (inDocument q)] (doJoins (inDocument q)) = Some js \<and> mset js = mset (doJoins (inDocument q)) \<and>
      connected_order [root_node (inDocument q)] js \<and>
      mset (root_node (inDocument q) # map djRightNodeID js) = mset (map ndID (doNodes (inDocument q)))
    else \<forall>ps digest. Compile u ps (\<lambda>d. Validate u canonicalUUID d = Some True) digest q = None"
proof -
  let ?doc = "inDocument q"
  note parts = document_parts(1-3) [OF assms]
  show ?thesis
  proof (cases "distinct (map djRightNodeID (doJoins ?doc)) \<and> length (doJoins ?doc) < length (doNodes ?doc)")
    case True
    then obtain js where js: "join_order [root_node ?doc] (doJoins ?doc) = Some js" using valid_joins_order [OF parts] by auto
    from join_order_sound [OF js] ordered_once [OF parts] js True show ?thesis by auto
  next
    case False
    then have "join_order [root_node ?doc] (doJoins ?doc) = None" using valid_joins_order [OF parts] by auto
    from no_order_no_query [OF this] False show ?thesis by auto
  qed
qed

theorem join_order_exact_witness:
  "\<exists>js. join_order [root_node joined_document] (doJoins joined_document) = Some js \<and> mset js = mset (doJoins joined_document) \<and>
    mset (root_node joined_document # map djRightNodeID js) = {#''n1'', ''n2''#}"
proof -
  let ?q = "(example_input MySQL [])\<lparr> inDocument := joined_document \<rparr>"
  have q: "inDocument ?q = joined_document" by simp
  have tree: "distinct (map djRightNodeID (doJoins joined_document)) \<and> length (doJoins joined_document) < length (doNodes joined_document)"
    "map ndID (doNodes joined_document) = [''n1'', ''n2'']"
    by (simp_all add: joined_document_def plain_node_def)
  have "Validate example_unicode (\<lambda>_. True) (inDocument ?q) = Some True" using joined_valid by simp
  from join_order_exact [OF this] show ?thesis unfolding q using tree by auto
qed

text \<open>What the check of a document accepts can be worked with: neither the transforms nor the components of the
  canvas depend on themselves, and the groups can always be expanded, into at least one and at most 256
  selections of the dimensions, no two of them alike.\<close>

theorem accepted_documents_are_usable:
  assumes "Validate u canonicalUUID doc = Some True"
  shows "\<not> cyclic (transform_graph (doTransforms doc)) \<and>
    (case doDesigner doc of None \<Rightarrow> True | Some d \<Rightarrow> \<not> cyclic (designer_graph d)) \<and>
    (\<exists>sels. groupingSelectionsForFields (doGroupByMode doc) (doGroupBy doc) (doGroupingSets doc) = Some sels \<and> distinct sels \<and>
      1 \<le> length sels \<and> length sels \<le> 256)"
proof (intro conjI)
  show "\<not> cyclic (transform_graph (doTransforms doc))"
    using document_parts(6) [OF assms] by (simp add: validateTransforms_def transform_cycle_exact)
  show "case doDesigner doc of None \<Rightarrow> True | Some d \<Rightarrow> \<not> cyclic (designer_graph d)"
    using document_parts(4) [OF assms] designer_acyclic by (auto split: option.split)
  have "validateGroupByMode (doGroupByMode doc) (doGroupBy doc) (doGroupingSets doc)"
    using document_parts(7) [OF assms] by (simp add: grouping_valid_def)
  then show "\<exists>sels. groupingSelectionsForFields (doGroupByMode doc) (doGroupBy doc) (doGroupingSets doc) = Some sels \<and> distinct sels \<and>
      1 \<le> length sels \<and> length sels \<le> 256" using selections_exact by blast
qed

theorem accepted_documents_are_usable_witness:
  "\<exists>sels. groupingSelectionsForFields GroupByModeStandard [] [] = Some sels \<and> distinct sels \<and> 1 \<le> length sels \<and> length sels \<le> 256"
  using accepted_documents_are_usable [OF example_valid] by (simp add: example_document_def)

section \<open>Storing\<close>

text \<open>Preparing a document is stable: preparing what was stored, with or without a layer as it was stored, gives the same document, the same stored form and the same plan.\<close>

theorem prepare_is_stable:
  assumes "Prepare u canonicalUUID layer_given raw = Returns p" "fresh layer_given raw"
  shows "Prepare u canonicalUUID (dcLayer (doDataset (prDSL p)) \<noteq> OtherLayer []) (prDSL p) = Returns p"
proof -
  obtain doc where d: "normalize_decoded layer_given raw = Some doc" "Validate u canonicalUUID doc = Some True"
      "p = prepared_document doc (without_layer doc)"
    using assms(1) by (rule prepare_returns)
  let ?s = "stored (without_layer doc)"
  have x: "doc = normalize (entered layer_given raw)" by (rule normalized_entered [OF d(1)])
  have m: "doDSLVersion ?s = ''1.0''" "dcGrain (doDataset ?s) = None"
    by (simp_all add: x stored_def without_layer_def normalize_marks entered_marks)
  have marks: "doLayerInferred doc = (\<not> layer_given)" "doLayerSpecified doc = layer_given" by (simp_all add: x normalize_marks entered_marks)
  have again: "(dcLayer (doDataset ?s) \<noteq> OtherLayer []) = layer_given"
  proof (cases layer_given)
    case True
    then have "dcLayer (doDataset doc) \<noteq> OtherLayer []" using valid_layer [OF d(2)] marks by (auto simp: with_layer_def layer_valid_def)
    then show ?thesis using True marks by (simp add: stored_def without_layer_def)
  qed (use marks in \<open>simp add: stored_def without_layer_def\<close>)
  have "normalize_decoded layer_given ?s = Some doc"
  proof (cases layer_given)
    case True
    then have "?s\<lparr> doLayerInferred := \<not> layer_given, doLayerSpecified := layer_given \<rparr> = doc" using stored_given assms(2) x by simp
    then show ?thesis using reentered [OF m] normalize_stable x by simp
  next
    case False
    then have "normalize (?s\<lparr> doLayerInferred := \<not> layer_given, doLayerSpecified := layer_given \<rparr>) = doc" using stored_inferred assms(2) x by simp
    then show ?thesis using reentered [OF m] by simp
  qed
  then show ?thesis using d(2,3) by (simp add: prepared_document_def again Prepare_def checked_document_def)
qed

theorem prepare_is_stable_witness:
  "\<exists>p. Prepare example_unicode (\<lambda>_. True) True example_document = Returns p \<and>
    Prepare example_unicode (\<lambda>_. True) (dcLayer (doDataset (prDSL p)) \<noteq> OtherLayer []) (prDSL p) = Returns p"
proof -
  have "case Prepare example_unicode (\<lambda>_. True) True example_document of Returns p \<Rightarrow> True | _ \<Rightarrow> False" by code_simp
  then obtain p where p: "Prepare example_unicode (\<lambda>_. True) True example_document = Returns p" by (auto split: outcome.splits)
  have "fresh True example_document" by (simp add: fresh_def example_document_def)
  from prepare_is_stable [OF p this] p show ?thesis by blast
qed

end
