(* ===== verification/Spec2Isabelle.thy ===== *)
theory Spec2Isabelle
  imports RunProperties CircuitBreaker RunBudgetProperties InsightWeights SlotMerge ZoneHeights MobileLayout
    ReportApply ReportScopeProperties ReportUndoProperties ReportStageProperties RowPolicyProperties SharingProperties
    ReportImpactProperties RowAccessProperties MetricProperties QueryProperties DatasetProperties
begin

text \<open>
  A verification library for the core logic of the intelligent report generation system, a Go
  program under \<open>src/\<close>.

  \<^bold>\<open>The program.\<close> A user asks questions about governed data and edits reports built from the answers.
  These subsystems carry the program's own logic. \<open>internal/askdata\<close> runs a question as a persisted
  state machine (the \<open>orchestrator\<close>): model calls and tools propose facts, the machine checks the
  order of the stages, pins the facts by hash and accounts for the budget; \<open>observability\<close> decides
  quotas and \<open>graph\<close> guards an external store by a circuit breaker; \<open>compiler\<close> turns governed metrics
  and row access policies, trees over identifiers certified in the \<open>registry\<close>, into dataset
  expressions; \<open>internal/dataset\<close> normalises and checks the documents made of them, and
  \<open>internal/querycompiler\<close> writes a document as SQL, with its joins, groups, policies and limits. \<open>internal/report\<close> keeps a Report
  Definition, a tree of pages, sections, blocks, zones and slots with components, filters and
  interactions; every edit is an \<open>operation\<close> from a closed vocabulary, edits written by a model
  go through a scope guard, and \<open>compiler\<close> checks a definition, lays it out and heights its zones;
  \<open>template\<close> holds the versioned contracts of the components. \<open>internal/policy\<close> compiles row and
  column policies to SQL, and \<open>internal/report/sharing\<close> shares reports by token. The rest of the
  program is SQL stores, HTTP handlers, drivers and calls to model services around these.

  \<^bold>\<open>Theories and code.\<close>
  \<^item> \<open>Prelude\<close>: identifiers, 64-bit integers, sorting as \<open>sort.Slice\<close> does it (the locales \<open>weak_order\<close> and
    \<open>total_order_by\<close> are the contract of a comparison), list lemmas.
  \<^item> \<open>RunState\<close>, \<open>RunInvariants\<close>, \<open>RunProperties\<close>: \<open>orchestrator/state.go\<close> and \<open>clarification.go\<close>. A run is a
    record, \<open>Apply\<close> one transition; the invariants range over all reachable runs.
  \<^item> \<open>RunBudget\<close>, \<open>RunBudgetProperties\<close>: \<open>orchestrator/budget.go\<close> with the configuration of
    \<open>internal/config\<close>; \<open>Float64\<close>, \<open>Quota\<close>: \<open>observability/quota.go\<close> with its float64 arithmetic;
    \<open>CircuitBreaker\<close>: \<open>graph/circuit.go\<close>.
  \<^item> \<open>ReportModel\<close>, \<open>InsightWeights\<close>, \<open>ReportValidate\<close>, \<open>ReportValidateProperties\<close>: the types of
    \<open>internal/report/model.go\<close> and every \<open>validate\<close> method.
  \<^item> \<open>IntervalTree\<close>, \<open>Collision\<close>, \<open>Layout\<close>, \<open>SlotMerge\<close>, \<open>MobileLayout\<close>, \<open>ZoneHeights\<close>:
    \<open>compiler/layout.go\<close> (sweep with an AVL interval tree, layout check, compaction, merging of
    slots, desktop and mobile geometry, zone heights).
  \<^item> \<open>Manifest\<close>, \<open>ManifestRegistry\<close>, \<open>ManifestProperties\<close>: \<open>template/manifest.go\<close> and \<open>registry.go\<close>.
  \<^item> \<open>DepthFirst\<close>, \<open>ReportStages\<close>, \<open>ReportStageProperties\<close>: \<open>compiler/validate.go\<close> and \<open>interaction.go\<close>.
  \<^item> \<open>ReportOperation\<close>, \<open>ReportApply\<close>: \<open>operation/model.go\<close> and \<open>apply.go\<close>; \<open>ReportGuard\<close>, \<open>ReportScope\<close>,
    \<open>ReportScopeProperties\<close>: \<open>guard.go\<close>; \<open>ReportUndo\<close>, \<open>ReportUndoCreate\<close> (additions of pages, sections,
    blocks, zones and slots), \<open>ReportUndoProperties\<close>: \<open>inverse.go\<close>.
  \<^item> \<open>RowPolicy\<close>, \<open>RowPolicyProperties\<close>: \<open>internal/policy/compiler.go\<close> and \<open>model.go\<close>.
  \<^item> \<open>Sharing\<close>, \<open>SharingProperties\<close>: \<open>internal/report/sharing\<close>, \<open>report/authorization\<close>, and the policies,
    checks and trigger the migrations put on the table of shares.
  \<^item> \<open>ReportImpact\<close>, \<open>ReportImpactProperties\<close>: \<open>compiler/index.go\<close>, the dependency tables as
    \<open>store/postgres.go\<close> rewrites them, and \<open>compiler/impact.go\<close>.

  \<^item> \<open>DatasetExpression\<close>: the expressions of \<open>dataset/model.go\<close> and their checks in \<open>dataset/dsl.go\<close>;
    \<open>SqlMeaning\<close>: what they mean, by the rules of SQL, the reference of the next theories.
  \<^item> \<open>SemanticAst\<close>, \<open>SemanticTree\<close>, \<open>SemanticTrace\<close>, \<open>SemanticMeaning\<close>: the semantic trees of
    \<open>askdata/compiler/adapter_ast.go\<close>, their validation and translation, and that translation keeps
    the meaning. \<open>MetricCompiler\<close>, \<open>MetricMeaning\<close>, \<open>MetricPreAggregation\<close>, \<open>MetricTypes\<close>,
    \<open>MetricProperties\<close>: measures and metrics, there and in \<open>semiadditive.go\<close>. \<open>MetricMeaning\<close> says what the
    compiled expression computes; \<open>MetricReference\<close> is the contract's own account, with a quotient that
    knows nothing of the compiler's \<open>COALESCE\<close>, and when the two agree.
  \<^item> \<open>RowAccess\<close>, \<open>RowAccessMeaning\<close>, \<open>RowAccessWalk\<close>, \<open>RowAccessCompile\<close>, \<open>RowAccessProperties\<close>:
    \<open>compiler/row_access.go\<close> and \<open>registry/row_access_policy.go\<close>.

  \<^item> \<open>SqlText\<close>, \<open>QueryExpression\<close>, \<open>QueryDocument\<close>, \<open>QueryInner\<close>, \<open>QueryCompiler\<close>:
    \<open>querycompiler/compiler.go\<close>, from a placeholder to \<open>Compile\<close>. A step of the compiler takes the list
    of values bound so far, the \<open>args\<close> of the code, and returns text, a list of pieces, with a longer
    list. \<open>QueryBinding\<close>, \<open>QueryNumbering\<close>, \<open>QueryNumbered\<close>: the numbers of placeholders; \<open>QueryOrder\<close>,
    \<open>QueryPositional\<close>: their order in the text; \<open>QueryErasure\<close>, \<open>QueryIndependence\<close>: that no value
    reaches the text; \<open>QueryJoins\<close>: the order of joins; \<open>QueryProperties\<close>: the results.

  \<^item> \<open>DatasetDocument\<close>: the types of \<open>dataset/model.go\<close>; \<open>Json\<close>: the values of its open parts;
    \<open>DatasetNormalize\<close>, \<open>DatasetDesigner\<close> (the canvas), \<open>DatasetRules\<close> (transforms, derived tables, groups),
    \<open>DatasetValidate\<close> (\<open>Validate\<close> as a whole), \<open>DatasetPlan\<close> (\<open>BuildLogicalPlan\<close>, \<open>Prepare\<close>): \<open>dataset/dsl.go\<close>.
    The verdict of \<open>Validate\<close> is kept, its list of issues is not. \<open>DatasetGraph\<close>: the check of the join
    graph is connectedness, when a connected graph can be ordered, and what the groups of an accepted
    document expand to; \<open>DatasetProperties\<close>: the results, on documents and the queries they
    are compiled into.

  \<^bold>\<open>What is shown.\<close> Numbers are those of the properties in the theories.
  \<^item> Runs (1 to 5): what a run has pinned never changes; an answered run has passed every gate; a
    hash appears in its own stage only; the budget grows monotonically inside its limits; a live
    run can be blocked at every record version but the last one an \<open>int64\<close> has (\<open>last_version\<close>). A terminal run moves only by expiry (\<open>terminal_runs_only_expire\<close>).
  \<^item> Queries (6 to 13): with numbered placeholders, and derived tables that bind no values (\<open>quiet_tables\<close>), the
    placeholder \<open>n\<close> stands for the \<open>n\<close>-th value; without numbers the values come in the order of the
    text for the documents that \<open>orderly_document\<close> describes; two inputs that differ in values only compile to
    the same text; a compiled query keeps its row limit, group floor and column denials; a valid document
    is joined completely when its joins form a tree in their declared direction and has no query otherwise;
    parameters have their declared types. Two theorems exhibit queries whose values land in the wrong places.
  \<^item> Row access (14 to 18): the filters keep exactly the rows every policy admits; an unknown reader
    sees nothing; which certified policies compile and which never do; the policies of joined models
    make the document invalid.
  \<^item> Datasets: when the check of a document panics (\<open>validation_panics_exactly\<close>), what an accepted document
    can be relied on for (\<open>join_graph_is_connected\<close>, \<open>accepted_documents_are_usable\<close>), and that preparing
    what was stored changes nothing (\<open>prepare_is_stable\<close>).
  \<^item> Metrics (19 to 21): the compiled expression has the value the contract defines, but for a quotient with a
    missing operand under the policy ZERO (\<open>zero_policy_hides_missing\<close>); aggregating in two stages changes
    nothing, but for counts over no rows (\<open>empty_count_is_lost\<close>); the numeric check is sound.
  \<^item> Breaker, quota, budgets (22 to 24): when the breaker opens, and how long
    (\<open>breaker_open_window\<close>); the alert counts exactly the window (\<open>degradation_alert_exact\<close>); the quota
    decision is the one exact arithmetic gives; budget terminations are accepted by the run state machine.
  \<^item> Layout (25 to 28): sweep = pairwise collision check; compaction leaves no overlap; zone heights
    fit and the distribution ends on cards whose heights add up to at most \<open>2 ^ 62\<close>; the mobile layout
    shows every slot of its visible zones once, the filters in the drawer; a merged slot tiles
    what it replaced (\<open>merged_slot_tiles\<close>).
  \<^item> Editing (29 to 31): an application is all or nothing with the index of the failing operation;
    a guarded edit leaves the pages outside the scope alone; undo restores the definition exactly after
    additions with fresh identifiers and updates in place.
  \<^item> Validation (32 to 34): an accepted definition has unique identifiers and only references
    that resolve, everything inside its canvas as long as no sum overflows
    (\<open>valid_definition_in_bounds\<close>); the staged checker accepts what the model's own validation accepts;
    interactions are checked and the search for cycles ends with the truth; what a manifest
    upgrade preserves (\<open>minor_migration_keeps_component\<close>).
  \<^item> Policies (35): the compiled text means what the policies say in three-valued logic, and no
    value reaches it (\<open>values_never_reach_the_text\<close>). Sharing (36 to 39): who an access succeeds for,
    finality of revocation under interleaving, the history of the table, and that a created share
    opens. Impact (40): a change reports exactly the drafts and versions that depend on it.
  \<^item> Further theorems state what the code does not do: the deadline of a clarification
    (\<open>clarification_deadline_cases\<close>), operations the guard lets through (\<open>guard_checks_targets_only\<close>), edits
    undo does not restore (\<open>undo_limits\<close>), sums that overflow (\<open>overflow_passes_validation\<close>), upgrades that
    break components (\<open>upgrade_check_misses_lengths\<close>), default weights (\<open>insight_weights\<close>), derived tables
    that read each other's values (\<open>derived_table_collides\<close>), a float that wraps (\<open>largest_float_wraps\<close>).

  \<^bold>\<open>Conventions.\<close> A Go \<open>int\<close> is an \<open>int\<close> with \<open>wrap64\<close> written out where the code adds or multiplies
  without a bound (the heights of zones among them); the record version of a run is a 64-bit word, which a
  step increments and may wrap; a time is an \<open>int\<close>; a float64 is the rational it denotes with rounding written
  out; a nil slice is an empty list; an error return is the left side of a sum, its text dropped
  and its code kept; a map is a HOL map, ranged over in no particular order. \<open>TrimSpace\<close>,
  \<open>EqualFold\<close> and \<open>ToUpper\<close> are modelled on ASCII letters and leave every other character alone, where
  Go folds all of Unicode. A panic the code excludes by a guard is not a value; the one that \<open>dataset.Validate\<close> does not exclude is.
  All components are sequential functions on explicit state; where calls of different users
  interleave (the breaker, runs, shares) a step relation or a list of events says so.

  \<^bold>\<open>Parameters.\<close> SHA-256, UUID parsing, canonical JSON and the encoding limits of decoding, the
  rich-text sanitizer, the semantic IR, the content of the embedded manifests, the version loader
  and the tables of users, roles, reports and versions are arguments of the definitions that use
  them. A semantic tree stands for the document it is decoded from, with the keys it had
  (\<open>decoded\<close> says a part without its key is absent); the casts of the database are an argument
  (\<open>lawful_cast\<close> says a cast to a number gives a number, null or a failure), and so are the stable
  identifiers computed by hashing. The query compiler takes the check of the dataset document (\<open>Validate\<close> of
  \<open>DatasetValidate\<close> is one), the parsing of decimals and dates, the classes of Unicode letters and digits and the digest of the plan.

  \<^bold>\<open>Termination.\<close> Every definition is total. The depth-first search runs on fuel, one more than the
  number of nodes and targets; \<open>cycle_decided\<close> shows that it is enough. The search of the join graph ends
  because every round finds a node for the first time. The redistribution of zone heights
  terminates by a measure on the zones still open.

  \<^bold>\<open>Interfaces.\<close> Locales state the contracts of comparisons (\<open>weak_order\<close>, \<open>total_order_by\<close>), of keyed
  stores whose entries only grow (\<open>keyed_history\<close>) and of the levels of a report, lists of children with
  identifiers (\<open>container\<close>); each is interpreted on the model's own definitions.

  \<^bold>\<open>Not modelled.\<close> The SQL stores other than the table of shares, HTTP, the drivers and federated
  queries, the semantic registry other than the certification of row policies, the resolution of
  questions into dataset documents, natural-language understanding and
  retrieval, the services and modelling sessions around dataset documents, materialization, publication, scheduling and the runtime of
  reports, and the clients of model services; the TypeScript and Python parts are other
  languages. The first group is input and output around the modelled decisions; dataset
  planning, resolution and the report runtime are decisions that remain to be modelled.
\<close>

end
